(* ===== verification/Sctp_Prelude.thy ===== *)
theory Sctp_Prelude
  imports Main "HOL-Library.Word"
begin

text \<open>
  Shared vocabulary of the development: names for the C integer types, the byte-order
  helpers the stack uses on the wire, the collections of rewrite rules the component
  theories fill, and the generic facts on words and lists that several of them need.
\<close>

unbundle bit_operations_syntax

section \<open>Types\<close>

type_synonym u8 = "8 word"
type_synonym u16 = "16 word"
type_synonym u32 = "32 word"

text \<open>A buffer is the list of the bytes it holds.\<close>

type_synonym bytes = "u8 list"

text \<open>
  A chain of mbufs as the routines here see it: the list of the data areas
  (\<open>m_data\<close> up to \<open>m_len\<close>) in \<open>m_next\<close> order.
\<close>

type_synonym mchain = "bytes list"

section \<open>Constants and macros of several components\<close>

definition SCTP_DATAGRAM_UNSENT :: int where "SCTP_DATAGRAM_UNSENT = 0"
definition SCTP_ADDR_REACHABLE :: u16 where "SCTP_ADDR_REACHABLE = 0x001"
definition SCTP_STATE_SHUTDOWN_SENT :: u32 where "SCTP_STATE_SHUTDOWN_SENT = 0x0010"
definition SCTP_STATE_MASK :: u32 where "SCTP_STATE_MASK = 0x007f"

definition sizeof_sack_chunk :: nat where "sizeof_sack_chunk = 16"
definition sizeof_nr_sack_chunk :: nat where "sizeof_nr_sack_chunk = 20"

definition sctp_sbspace_sub :: "u32 \<Rightarrow> u32 \<Rightarrow> u32" where
  "sctp_sbspace_sub a b = (if a > b then a - b else 0)"

section \<open>Collections of rewrite rules\<close>

named_theorems crc_linear \<open>linearity of the CRC register over exclusive or\<close>
named_theorems tailq_simps \<open>effect of the tail queue operations on the represented list\<close>
named_theorems sched_defs \<open>definitions of the stream schedulers\<close>
named_theorems auth_defs \<open>definitions of the authentication operations\<close>

section \<open>Byte order\<close>

text \<open>Reading four bytes as a little-endian word, as a 32-bit load does on the build's platform.\<close>

definition le32 :: "u8 \<Rightarrow> u8 \<Rightarrow> u8 \<Rightarrow> u8 \<Rightarrow> u32" where
  "le32 a b c d =
     ucast a XOR push_bit 8 (ucast b) XOR push_bit 16 (ucast c) XOR push_bit 24 (ucast d)"

text \<open>Network byte order, most significant byte first.\<close>

definition be32 :: "u8 \<Rightarrow> u8 \<Rightarrow> u8 \<Rightarrow> u8 \<Rightarrow> u32" where
  "be32 a b c d = le32 d c b a"

definition bytes_of_be32 :: "u32 \<Rightarrow> bytes" where
  "bytes_of_be32 w =
     [ucast (drop_bit 24 w), ucast (drop_bit 16 w), ucast (drop_bit 8 w), ucast w]"

definition be16 :: "u8 \<Rightarrow> u8 \<Rightarrow> u16" where
  "be16 a b = push_bit 8 (ucast a) OR ucast b"

definition bytes_of_be16 :: "u16 \<Rightarrow> bytes" where
  "bytes_of_be16 w = [ucast (drop_bit 8 w), ucast w]"

lemma length_bytes_of_be32 [simp]: "length (bytes_of_be32 w) = 4"
  by (simp add: bytes_of_be32_def)

lemma length_bytes_of_be16 [simp]: "length (bytes_of_be16 w) = 2"
  by (simp add: bytes_of_be16_def)

lemma bytes_of_be32_inject: "bytes_of_be32 v = bytes_of_be32 w \<longleftrightarrow> v = w"
proof
  assume eq: "bytes_of_be32 v = bytes_of_be32 w"
  show "v = w"
  proof (rule bit_word_eqI)
    fix n
    assume "n < LENGTH(32)"
    then consider "n < 8" | "8 \<le> n" "n - 8 < 8" | "16 \<le> n" "n - 16 < 8" | "24 \<le> n" "n - 24 < 8"
      by fastforce
    then show "bit v n = bit w n"
    proof cases
      case 1
      have "bit (ucast v :: u8) n = bit (ucast w :: u8) n" using eq by (simp add: bytes_of_be32_def)
      with 1 show ?thesis by (simp add: bit_simps)
    next
      case 2
      have "bit (ucast (drop_bit 8 v) :: u8) (n - 8) = bit (ucast (drop_bit 8 w) :: u8) (n - 8)"
        using eq by (simp add: bytes_of_be32_def)
      with 2 show ?thesis by (simp add: bit_simps)
    next
      case 3
      have "bit (ucast (drop_bit 16 v) :: u8) (n - 16) = bit (ucast (drop_bit 16 w) :: u8) (n - 16)"
        using eq by (simp add: bytes_of_be32_def)
      with 3 show ?thesis by (simp add: bit_simps)
    next
      case 4
      have "bit (ucast (drop_bit 24 v) :: u8) (n - 24) = bit (ucast (drop_bit 24 w) :: u8) (n - 24)"
        using eq by (simp add: bytes_of_be32_def)
      with 4 show ?thesis by (simp add: bit_simps)
    qed
  qed
qed simp

lemma be16_bytes_of_be16 [simp]:
  "be16 (ucast (drop_bit 8 w)) (ucast (w :: u16)) = w"
  by (rule bit_word_eqI) (auto simp: be16_def bit_simps)

lemma bytes_of_be16_be16 [simp]: "bytes_of_be16 (be16 a b) = [a, b]"
proof -
  have "ucast (drop_bit 8 (be16 a b)) = a"
    by (rule bit_word_eqI) (auto simp: be16_def bit_simps dest: bit_imp_le_length)
  moreover have "ucast (be16 a b) = b"
    by (rule bit_word_eqI) (auto simp: be16_def bit_simps)
  ultimately show ?thesis by (simp add: bytes_of_be16_def)
qed

section \<open>Generic facts\<close>

lemma word_xor_cancel_left [simp]: "(a :: 'a::len word) XOR (a XOR b) = b"
  by (simp flip: xor.assoc)

lemma word_0xFF_eq_mask: "(0xFF :: 'a::len word) = mask 8"
  by (simp add: mask_eq_exp_minus_1)

lemma unat_u32_bound: "unat (w :: u32) < 4294967296"
proof -
  have "unat w < 2 ^ LENGTH(32)" by (rule unsigned_less)
  then show ?thesis by simp
qed

lemma unat_and_mask8_less: "unat ((w :: u32) AND 0xFF) < 256"
proof -
  have "w AND 0xFF \<le> 0xFF" by (rule word_and_le1)
  then have "unat (w AND 0xFF) \<le> unat (0xFF :: u32)" by (simp only: word_le_nat_alt)
  then show ?thesis by simp
qed

end
