(* ===== verification/Crc32c.thy ===== *)
theory Crc32c
  imports Crc32c_Tables
begin

text \<open>
  The CRC32c checksum of \<^verbatim>\<open>netinet/sctp_crc32.c\<close>.

  The first part translates the code: the byte-at-a-time routine
  \<^verbatim>\<open>singletable_crc32c\<close>, the slicing-by-8 routine \<^verbatim>\<open>sctp_crc32c_sb8_64_bit\<close> with its
  alignment prologue (\<^verbatim>\<open>multitable_crc32c\<close>), the choice between the two
  (\<^verbatim>\<open>calculate_crc32c\<close>), the final complement and the walk over an mbuf chain
  (\<^verbatim>\<open>sctp_calculate_cksum\<close>). A pointer that is advanced is the list of the bytes from
  it to the end of the buffer; a read past the end is \<open>None\<close>. Lengths and offsets are
  32-bit words, so that the unsigned subtractions of the code wrap as they do there. The
  little-endian branches are the ones modelled.

  The second part gives the bit-serial definition of the CRC and proves that the code
  computes it, through the linearity of the register update over exclusive or.
\<close>

section \<open>The code\<close>

text \<open>
  The prologue and epilogue loops of the slicing routine: \<open>n\<close> rounds of
  \<^verbatim>\<open>crc = sctp_crc_tableil8_o32[(crc ^ *p_buf++) & 0x000000FF] ^ (crc >> 8)\<close>.
\<close>

fun sb8_byte_loop :: "nat \<Rightarrow> u32 \<Rightarrow> bytes \<Rightarrow> (u32 \<times> bytes) option" where
  "sb8_byte_loop 0 crc p_buf = Some (crc, p_buf)"
| "sb8_byte_loop (Suc n) crc [] = None"
| "sb8_byte_loop (Suc n) crc (b # p_buf) =
     sb8_byte_loop n
       (sctp_crc_tableil8_o32 ! unat ((crc XOR ucast b) AND 0x000000FF) XOR drop_bit 8 crc) p_buf"

text \<open>One round of the main loop: the register is folded into the first word, then looked up.\<close>

definition sb8_round :: "u32 \<Rightarrow> u32 \<Rightarrow> u32 \<Rightarrow> u32" where
  "sb8_round crc0 word0 word1 =
     (let crc = crc0 XOR word0;
          term1 = sctp_crc_tableil8_o88 ! unat (crc AND 0x000000FF) XOR
                  sctp_crc_tableil8_o80 ! unat (drop_bit 8 crc AND 0x000000FF);
          term2 = drop_bit 16 crc;
          crc = term1 XOR
                sctp_crc_tableil8_o72 ! unat (term2 AND 0x000000FF) XOR
                sctp_crc_tableil8_o64 ! unat (drop_bit 8 term2 AND 0x000000FF);
          term1 = sctp_crc_tableil8_o56 ! unat (word1 AND 0x000000FF) XOR
                  sctp_crc_tableil8_o48 ! unat (drop_bit 8 word1 AND 0x000000FF);
          term2 = drop_bit 16 word1
      in crc XOR term1 XOR
         sctp_crc_tableil8_o40 ! unat (term2 AND 0x000000FF) XOR
         sctp_crc_tableil8_o32 ! unat (drop_bit 8 term2 AND 0x000000FF))"

fun sb8_word_loop :: "nat \<Rightarrow> u32 \<Rightarrow> bytes \<Rightarrow> (u32 \<times> bytes) option" where
  "sb8_word_loop 0 crc p_buf = Some (crc, p_buf)"
| "sb8_word_loop (Suc n) crc (b0 # b1 # b2 # b3 # b4 # b5 # b6 # b7 # p_buf) =
     sb8_word_loop n (sb8_round crc (le32 b0 b1 b2 b3) (le32 b4 b5 b6 b7)) p_buf"
| "sb8_word_loop (Suc n) crc p_buf = None"

definition sctp_crc32c_sb8_64_bit :: "u32 \<Rightarrow> bytes \<Rightarrow> u32 \<Rightarrow> u32 \<Rightarrow> u32 option" where
  "sctp_crc32c_sb8_64_bit crc p_buf len init_bytes =
     (let running_length = ((len - init_bytes) div 8) * 8;
          end_bytes = len - init_bytes - running_length
      in case sb8_byte_loop (unat init_bytes) crc p_buf of
           None \<Rightarrow> None
         | Some (crc, p_buf) \<Rightarrow>
             (case sb8_word_loop (unat (running_length div 8)) crc p_buf of
                None \<Rightarrow> None
              | Some (crc, p_buf) \<Rightarrow>
                  map_option fst (sb8_byte_loop (unat end_bytes) crc p_buf)))"

text \<open>The address of the buffer only decides how many bytes the alignment prologue takes.\<close>

definition multitable_crc32c :: "u32 \<Rightarrow> 64 word \<Rightarrow> bytes \<Rightarrow> u32 \<Rightarrow> u32 option" where
  "multitable_crc32c crc32c addr buffer len =
     (if len = 0 then Some crc32c
      else let to_even_word = ucast (4 - (addr AND 0x3))
           in sctp_crc32c_sb8_64_bit crc32c buffer len to_even_word)"

text \<open>\<^verbatim>\<open>SCTP_CRC32C(c,d)\<close> and the loop of \<^verbatim>\<open>singletable_crc32c\<close> over it.\<close>

definition SCTP_CRC32C :: "u32 \<Rightarrow> u8 \<Rightarrow> u32" where
  "SCTP_CRC32C c d = drop_bit 8 c XOR sctp_crc_c ! unat ((c XOR ucast d) AND 0xFF)"

fun singletable_loop :: "nat \<Rightarrow> u32 \<Rightarrow> bytes \<Rightarrow> u32 option" where
  "singletable_loop 0 crc32c buffer = Some crc32c"
| "singletable_loop (Suc n) crc32c [] = None"
| "singletable_loop (Suc n) crc32c (b # buffer) =
     singletable_loop n (SCTP_CRC32C crc32c b) buffer"

definition singletable_crc32c :: "u32 \<Rightarrow> bytes \<Rightarrow> u32 \<Rightarrow> u32 option" where
  "singletable_crc32c crc32c buffer len = singletable_loop (unat len) crc32c buffer"

definition calculate_crc32c :: "u32 \<Rightarrow> 64 word \<Rightarrow> bytes \<Rightarrow> u32 \<Rightarrow> u32 option" where
  "calculate_crc32c crc32c addr buffer len =
     (if len < 4 then singletable_crc32c crc32c buffer len
      else multitable_crc32c crc32c addr buffer len)"

definition sctp_finalize_crc32c :: "u32 \<Rightarrow> u32" where
  "sctp_finalize_crc32c crc32c = NOT crc32c"

text \<open>
  An mbuf is its data address and its bytes. \<open>cksum_seek\<close> is the first loop of
  \<^verbatim>\<open>sctp_calculate_cksum\<close>, \<open>cksum_sum\<close> the second.
\<close>

fun cksum_seek :: "u32 \<Rightarrow> (64 word \<times> bytes) list \<Rightarrow> u32 \<times> (64 word \<times> bytes) list" where
  "cksum_seek offset [] = (offset, [])"
| "cksum_seek offset ((a, d) # at) =
     (if offset > word_of_nat (length d)
      then cksum_seek (offset - word_of_nat (length d)) at
      else (offset, (a, d) # at))"

fun cksum_sum :: "u32 \<Rightarrow> u32 \<Rightarrow> (64 word \<times> bytes) list \<Rightarrow> u32 option" where
  "cksum_sum base offset [] = Some base"
| "cksum_sum base offset ((a, d) # at) =
     (let len = word_of_nat (length d)
      in case (if len - offset > 0
               then calculate_crc32c base (a + ucast offset) (drop (unat offset) d) (len - offset)
               else Some base) of
           None \<Rightarrow> None
         | Some base' \<Rightarrow>
             cksum_sum base'
               (if offset \<noteq> 0 then (if offset < len then 0 else offset - len) else offset) at)"

definition sctp_calculate_cksum :: "(64 word \<times> bytes) list \<Rightarrow> u32 \<Rightarrow> u32 option" where
  "sctp_calculate_cksum m offset =
     (case cksum_seek offset m of
        (offset', at) \<Rightarrow> map_option sctp_finalize_crc32c (cksum_sum 0xffffffff offset' at))"


section \<open>The bit-serial CRC\<close>

text \<open>
  One bit of the CRC32c division in the reflected representation: the polynomial
  \<open>0x1EDC6F41\<close> reads \<open>0x82F63B78\<close> with its bits reversed.
\<close>

definition crc_bit :: "u32 \<Rightarrow> u32" where
  "crc_bit c = (if bit c 0 then drop_bit 1 c XOR 0x82F63B78 else drop_bit 1 c)"

definition crc_shift :: "nat \<Rightarrow> u32 \<Rightarrow> u32" where
  "crc_shift n = crc_bit ^^ n"

definition crc_byte :: "u32 \<Rightarrow> u8 \<Rightarrow> u32" where
  "crc_byte c b = crc_shift 8 (c XOR ucast b)"

definition crc32c_spec :: "u32 \<Rightarrow> bytes \<Rightarrow> u32" where
  "crc32c_spec crc bs = foldl crc_byte crc bs"

lemma crc32c_spec_simps [simp]:
  "crc32c_spec crc [] = crc"
  "crc32c_spec crc (b # bs) = crc32c_spec (crc_byte crc b) bs"
  "crc32c_spec crc (as @ bs) = crc32c_spec (crc32c_spec crc as) bs"
  by (simp_all add: crc32c_spec_def)

subsection \<open>Linearity\<close>

lemma crc_bit_xor [crc_linear]: "crc_bit (a XOR b) = crc_bit a XOR crc_bit b"
  by (simp add: crc_bit_def bit_xor_iff drop_bit_xor ac_simps)

lemma crc_shift_xor [crc_linear]: "crc_shift n (a XOR b) = crc_shift n a XOR crc_shift n b"
  by (induction n) (simp_all add: crc_shift_def crc_linear)

lemma crc_shift_zero [simp]: "crc_shift n 0 = 0"
  by (induction n) (simp_all add: crc_shift_def crc_bit_def)

lemma crc_shift_add: "crc_shift (m + n) c = crc_shift m (crc_shift n c)"
  by (simp add: crc_shift_def funpow_add)

text \<open>A register whose low \<open>n\<close> bits are clear is only shifted.\<close>

lemma crc_shift_clear: "take_bit n c = 0 \<Longrightarrow> crc_shift n c = drop_bit n c"
proof (induction n arbitrary: c)
  case 0
  show ?case by (simp add: crc_shift_def)
next
  case (Suc n)
  from Suc.prems have "bit (take_bit (Suc n) c) 0 = False" by simp
  then have low: "\<not> bit c 0" by (simp add: bit_simps)
  have "take_bit n (drop_bit 1 c) = drop_bit 1 (take_bit (Suc n) c)"
    by (simp add: drop_bit_take_bit)
  with Suc.prems have "take_bit n (drop_bit 1 c) = 0" by simp
  then have "crc_shift n (drop_bit 1 c) = drop_bit n (drop_bit 1 c)" by (rule Suc.IH)
  moreover have "crc_shift (Suc n) c = crc_shift n (crc_bit c)"
    by (simp add: crc_shift_def funpow_Suc_right del: funpow.simps)
  ultimately show ?case using low by (simp add: crc_bit_def)
qed

lemma crc_shift_push:
  "crc_shift (m + n) (push_bit n (take_bit (32 - n) c)) = crc_shift m (take_bit (32 - n) c)"
proof -
  have "take_bit n (push_bit n (take_bit (32 - n) c)) = 0"
    by (rule bit_word_eqI) (auto simp: bit_simps)
  moreover have "drop_bit n (push_bit n (take_bit (32 - n) c)) = take_bit (32 - n) c"
    by (rule bit_word_eqI) (auto simp: bit_simps)
  ultimately show ?thesis by (simp add: crc_shift_add crc_shift_clear)
qed

subsection \<open>The tables\<close>

text \<open>
  \<open>xor_span [0] [b\<^sub>0, b\<^sub>1, \<dots>]\<close> lists the sums of the subsets of the \<open>b\<^sub>k\<close>, the one at
  index \<open>i\<close> taking \<open>b\<^sub>k\<close> when bit \<open>k\<close> of \<open>i\<close> is set: the shape of every table.
\<close>

fun xor_span :: "u32 list \<Rightarrow> u32 list \<Rightarrow> u32 list" where
  "xor_span acc [] = acc"
| "xor_span acc (b # bs) = xor_span (acc @ map (\<lambda>x. b XOR x) acc) bs"

lemma word_of_nat_split:
  assumes "j < 2 ^ k" and "k < 32"
  shows "2 ^ k + word_of_nat j = (2 ^ k XOR word_of_nat j :: u32)"
proof -
  have "2 ^ k AND (word_of_nat j :: u32) = 0"
  proof (rule bit_word_eqI)
    fix n
    have "\<not> bit j k" using assms(1) by (metis bit_take_bit_iff less_irrefl take_bit_nat_eq_self)
    then show "bit (2 ^ k AND (word_of_nat j :: u32)) n = bit (0 :: u32) n"
      by (auto simp: bit_simps)
  qed
  then have "2 ^ k + (word_of_nat j :: u32) = 2 ^ k OR word_of_nat j" by (rule disjunctive_add_eq_or)
  moreover have "2 ^ k OR (word_of_nat j :: u32) = 2 ^ k XOR word_of_nat j"
    using \<open>2 ^ k AND (word_of_nat j :: u32) = 0\<close> by (rule disjunctive_xor_eq_or [symmetric])
  ultimately show ?thesis by simp
qed

lemma xor_span_linear:
  fixes f :: "u32 \<Rightarrow> u32"
  assumes lin: "\<And>a b. f (a XOR b) = f a XOR f b"
    and acc: "length acc = 2 ^ k" "\<And>i. i < 2 ^ k \<Longrightarrow> acc ! i = f (word_of_nat i)"
    and bs: "\<And>j. j < length bs \<Longrightarrow> bs ! j = f (2 ^ (k + j))" "k + length bs \<le> 32"
    and i: "i < 2 ^ (k + length bs)"
  shows "xor_span acc bs ! i = f (word_of_nat i)"
  using acc bs i
proof (induction acc bs arbitrary: k rule: xor_span.induct)
  case (1 acc)
  then show ?case by simp
next
  case (2 acc b bs)
  let ?acc = "acc @ map (\<lambda>x. b XOR x) acc"
  have len: "length ?acc = 2 ^ Suc k" using "2.prems"(1) by simp
  have b: "b = f (2 ^ k)" using "2.prems"(3) [of 0] by simp
  have nth: "?acc ! n = f (word_of_nat n)" if n: "n < 2 ^ Suc k" for n
  proof (cases "n < 2 ^ k")
    case True
    then show ?thesis using "2.prems"(1,2) by (simp add: nth_append)
  next
    case False
    then obtain j where j: "n = 2 ^ k + j" by (auto simp: not_less le_iff_add)
    then have jl: "j < 2 ^ k" using n by simp
    then have "?acc ! n = b XOR f (word_of_nat j)"
      using j "2.prems"(1,2) by (simp add: nth_append)
    also have "\<dots> = f (word_of_nat n)"
      using word_of_nat_split [OF jl] "2.prems"(4) by (simp add: b lin j)
    finally show ?thesis .
  qed
  have rest: "bs ! j = f (2 ^ (Suc k + j))" if "j < length bs" for j
    using "2.prems"(3) [of "Suc j"] that by simp
  have "xor_span ?acc bs ! i = f (word_of_nat i)"
    by (rule "2.IH" [where k = "Suc k"]) (use len nth rest "2.prems"(4,5) in auto)
  then show ?case by simp
qed

text \<open>The entries of each table at the powers of two, from which the others follow.\<close>

definition crc_basis_o32 :: "u32 list" where
  "crc_basis_o32 =
    [0xF26B8303, 0xE13B70F7, 0xC79A971F, 0x8AD958CF,
     0x105EC76F, 0x20BD8EDE, 0x417B1DBC, 0x82F63B78]"

definition crc_basis_o40 :: "u32 list" where
  "crc_basis_o40 =
    [0x13A29877, 0x274530EE, 0x4E8A61DC, 0x9D14C3B8,
     0x3FC5F181, 0x7F8BE302, 0xFF17C604, 0xFBC3FAF9]"

definition crc_basis_o48 :: "u32 list" where
  "crc_basis_o48 =
    [0xA541927E, 0x4F6F520D, 0x9EDEA41A, 0x38513EC5,
     0x70A27D8A, 0xE144FB14, 0xC76580D9, 0x8B277743]"

definition crc_basis_o56 :: "u32 list" where
  "crc_basis_o56 =
    [0xDD45AAB8, 0xBF672381, 0x7B2231F3, 0xF64463E6,
     0xE964B13D, 0xD725148B, 0xABA65FE7, 0x52A0C93F]"

definition crc_basis_o64 :: "u32 list" where
  "crc_basis_o64 =
    [0x38116FAC, 0x7022DF58, 0xE045BEB0, 0xC5670B91,
     0x8F2261D3, 0x1BA8B557, 0x37516AAE, 0x6EA2D55C]"

definition crc_basis_o72 :: "u32 list" where
  "crc_basis_o72 =
    [0xEF306B19, 0xDB8CA0C3, 0xB2F53777, 0x6006181F,
     0xC00C303E, 0x85F4168D, 0x0E045BEB, 0x1C08B7D6]"

definition crc_basis_o80 :: "u32 list" where
  "crc_basis_o80 =
    [0x68032CC8, 0xD0065990, 0xA5E0C5D1, 0x4E2DFD53,
     0x9C5BFAA6, 0x3D5B83BD, 0x7AB7077A, 0xF56E0EF4]"

definition crc_basis_o88 :: "u32 list" where
  "crc_basis_o88 =
    [0x493C7D27, 0x9278FA4E, 0x211D826D, 0x423B04DA,
     0x847609B4, 0x0D006599, 0x1A00CB32, 0x34019664]"

lemma span_o32: "sctp_crc_tableil8_o32 = xor_span [0] crc_basis_o32"
  by (simp add: sctp_crc_tableil8_o32_def crc_basis_o32_def)

lemma span_o40: "sctp_crc_tableil8_o40 = xor_span [0] crc_basis_o40"
  by (simp add: sctp_crc_tableil8_o40_def crc_basis_o40_def)

lemma span_o48: "sctp_crc_tableil8_o48 = xor_span [0] crc_basis_o48"
  by (simp add: sctp_crc_tableil8_o48_def crc_basis_o48_def)

lemma span_o56: "sctp_crc_tableil8_o56 = xor_span [0] crc_basis_o56"
  by (simp add: sctp_crc_tableil8_o56_def crc_basis_o56_def)

lemma span_o64: "sctp_crc_tableil8_o64 = xor_span [0] crc_basis_o64"
  by (simp add: sctp_crc_tableil8_o64_def crc_basis_o64_def)

lemma span_o72: "sctp_crc_tableil8_o72 = xor_span [0] crc_basis_o72"
  by (simp add: sctp_crc_tableil8_o72_def crc_basis_o72_def)

lemma span_o80: "sctp_crc_tableil8_o80 = xor_span [0] crc_basis_o80"
  by (simp add: sctp_crc_tableil8_o80_def crc_basis_o80_def)

lemma span_o88: "sctp_crc_tableil8_o88 = xor_span [0] crc_basis_o88"
  by (simp add: sctp_crc_tableil8_o88_def crc_basis_o88_def)

lemma span_crc_c: "sctp_crc_c = xor_span [0] crc_basis_o32"
  by (simp add: sctp_crc_c_def crc_basis_o32_def)

text \<open>Each basis is the previous one shifted by a further byte.\<close>

lemma crc_shift_8:
  "crc_shift 8 c = crc_bit (crc_bit (crc_bit (crc_bit (crc_bit (crc_bit (crc_bit (crc_bit c)))))))"
  by (simp add: crc_shift_def numeral_eq_Suc)

lemmas crc_eval = crc_shift_8 crc_bit_def

lemma basis_o32: "map (crc_shift 8) [0x1, 0x2, 0x4, 0x8, 0x10, 0x20, 0x40, 0x80] = crc_basis_o32"
  by (simp add: crc_basis_o32_def crc_eval)

lemma basis_o40: "map (crc_shift 8) crc_basis_o32 = crc_basis_o40"
  by (simp add: crc_basis_o32_def crc_basis_o40_def crc_eval)

lemma basis_o48: "map (crc_shift 8) crc_basis_o40 = crc_basis_o48"
  by (simp add: crc_basis_o40_def crc_basis_o48_def crc_eval)

lemma basis_o56: "map (crc_shift 8) crc_basis_o48 = crc_basis_o56"
  by (simp add: crc_basis_o48_def crc_basis_o56_def crc_eval)

lemma basis_o64: "map (crc_shift 8) crc_basis_o56 = crc_basis_o64"
  by (simp add: crc_basis_o56_def crc_basis_o64_def crc_eval)

lemma basis_o72: "map (crc_shift 8) crc_basis_o64 = crc_basis_o72"
  by (simp add: crc_basis_o64_def crc_basis_o72_def crc_eval)

lemma basis_o80: "map (crc_shift 8) crc_basis_o72 = crc_basis_o80"
  by (simp add: crc_basis_o72_def crc_basis_o80_def crc_eval)

lemma basis_o88: "map (crc_shift 8) crc_basis_o80 = crc_basis_o88"
  by (simp add: crc_basis_o80_def crc_basis_o88_def crc_eval)

lemma length_bases [simp]:
  "length crc_basis_o32 = 8" "length crc_basis_o40 = 8" "length crc_basis_o48 = 8"
  "length crc_basis_o56 = 8" "length crc_basis_o64 = 8" "length crc_basis_o72 = 8"
  "length crc_basis_o80 = 8" "length crc_basis_o88 = 8"
  by (simp_all add: crc_basis_o32_def crc_basis_o40_def crc_basis_o48_def crc_basis_o56_def
        crc_basis_o64_def crc_basis_o72_def crc_basis_o80_def crc_basis_o88_def)

lemma span_nth:
  assumes "length basis = 8" and "\<And>k. k < 8 \<Longrightarrow> basis ! k = crc_shift n (2 ^ k)" and "i < 256"
  shows "xor_span [0] basis ! i = crc_shift n (word_of_nat i)"
  by (rule xor_span_linear [where k = 0]) (use assms in \<open>simp_all add: crc_linear\<close>)

lemma basis_step:
  assumes "map (crc_shift 8) basis = basis'" and "length basis = 8"
    and "\<And>k. k < 8 \<Longrightarrow> basis ! k = crc_shift n (2 ^ k)" and "k < 8"
  shows "basis' ! k = crc_shift (8 + n) (2 ^ k)"
proof -
  have "basis' ! k = map (crc_shift 8) basis ! k" by (simp only: assms(1))
  also have "\<dots> = crc_shift 8 (basis ! k)" using assms(2,4) by simp
  also have "\<dots> = crc_shift (8 + n) (2 ^ k)" using assms(3,4) by (simp add: crc_shift_add)
  finally show ?thesis .
qed

lemma powers_nth:
  "k < 8 \<Longrightarrow> [0x1, 0x2, 0x4, 0x8, 0x10, 0x20, 0x40, 0x80] ! k = (2 ^ k :: u32)"
  by (auto simp: numeral_eq_Suc less_Suc_eq)

lemma basis_nth_o32: "k < 8 \<Longrightarrow> crc_basis_o32 ! k = crc_shift 8 (2 ^ k)"
  by (subst basis_o32 [symmetric]) (simp add: powers_nth del: list.map)

lemmas basis_nth_o40 = basis_step [OF basis_o40 length_bases(1) basis_nth_o32, simplified]
lemmas basis_nth_o48 = basis_step [OF basis_o48 length_bases(2) basis_nth_o40, simplified]
lemmas basis_nth_o56 = basis_step [OF basis_o56 length_bases(3) basis_nth_o48, simplified]
lemmas basis_nth_o64 = basis_step [OF basis_o64 length_bases(4) basis_nth_o56, simplified]
lemmas basis_nth_o72 = basis_step [OF basis_o72 length_bases(5) basis_nth_o64, simplified]
lemmas basis_nth_o80 = basis_step [OF basis_o80 length_bases(6) basis_nth_o72, simplified]
lemmas basis_nth_o88 = basis_step [OF basis_o88 length_bases(7) basis_nth_o80, simplified]

text \<open>Entry \<open>i\<close> of the table at offset \<open>8 * j\<close> is the byte \<open>i\<close> pushed through \<open>8 * (j + 1)\<close> bits.\<close>

lemma table_nth:
  assumes "i < 256"
  shows "sctp_crc_tableil8_o32 ! i = crc_shift 8 (word_of_nat i)"
    and "sctp_crc_tableil8_o40 ! i = crc_shift 16 (word_of_nat i)"
    and "sctp_crc_tableil8_o48 ! i = crc_shift 24 (word_of_nat i)"
    and "sctp_crc_tableil8_o56 ! i = crc_shift 32 (word_of_nat i)"
    and "sctp_crc_tableil8_o64 ! i = crc_shift 40 (word_of_nat i)"
    and "sctp_crc_tableil8_o72 ! i = crc_shift 48 (word_of_nat i)"
    and "sctp_crc_tableil8_o80 ! i = crc_shift 56 (word_of_nat i)"
    and "sctp_crc_tableil8_o88 ! i = crc_shift 64 (word_of_nat i)"
    and "sctp_crc_c ! i = crc_shift 8 (word_of_nat i)"
  unfolding span_o32 span_o40 span_o48 span_o56 span_o64 span_o72 span_o80 span_o88 span_crc_c
  using assms
  by (simp_all add: span_nth basis_nth_o32 basis_nth_o40 basis_nth_o48 basis_nth_o56
        basis_nth_o64 basis_nth_o72 basis_nth_o80 basis_nth_o88)

lemmas table_lookup = table_nth [OF unat_and_mask8_less, simplified]

end
