(* ===== verification/Crc32c_Correct.thy ===== *)
theory Crc32c_Correct
  imports Crc32c
begin

text \<open>
  Correctness of the checksum: the slicing-by-8 routine, the byte-at-a-time routine and the
  walk over an mbuf chain all compute the bit-serial CRC of the bytes they are given, for
  every alignment and every way the bytes are cut into mbufs.
\<close>

section \<open>One byte, one round\<close>

lemma crc_shift_split_byte:
  "crc_shift (8 + n) w = crc_shift (8 + n) (w AND 0xFF) XOR crc_shift n (drop_bit 8 w)"
proof -
  have split: "w = (w AND 0xFF) XOR push_bit 8 (drop_bit 8 w)"
    by (rule bit_word_eqI) (auto simp: bit_simps word_0xFF_eq_mask)
  have "take_bit 8 (push_bit 8 (drop_bit 8 w)) = 0"
    by (rule bit_word_eqI) (auto simp: bit_simps)
  moreover have "drop_bit 8 (push_bit 8 (drop_bit 8 w)) = drop_bit 8 w"
    by (rule bit_word_eqI) (auto simp: bit_simps dest: bit_imp_le_length)
  ultimately have "crc_shift 8 (push_bit 8 (drop_bit 8 w)) = drop_bit 8 w"
    by (simp add: crc_shift_clear)
  then have "crc_shift (8 + n) (push_bit 8 (drop_bit 8 w)) = crc_shift n (drop_bit 8 w)"
    by (simp add: crc_shift_add add.commute [of 8 n])
  then show ?thesis
    by (metis crc_shift_xor split)
qed

lemma crc_byte_lookup:
  "crc_byte c b = sctp_crc_tableil8_o32 ! unat ((c XOR ucast b) AND 0xFF) XOR drop_bit 8 c"
proof -
  have "drop_bit 8 (c XOR ucast b) = drop_bit 8 c"
    by (rule bit_word_eqI) (auto simp: bit_simps dest: bit_imp_le_length)
  moreover have "crc_shift 0 x = x" for x by (simp add: crc_shift_def)
  ultimately show ?thesis
    using crc_shift_split_byte [of 0 "c XOR ucast b"]
    by (simp add: crc_byte_def table_lookup)
qed

lemma SCTP_CRC32C_eq: "SCTP_CRC32C c b = crc_byte c b"
  by (simp add: SCTP_CRC32C_def crc_byte_lookup table_lookup xor.commute)

lemma crc_shift_push_byte:
  assumes "n \<le> 24"
  shows "crc_shift (m + n) (push_bit n (ucast (b :: u8))) = crc_shift m (ucast b)"
proof -
  have "take_bit (32 - n) (ucast b :: u32) = ucast b"
    using assms by (intro bit_word_eqI) (auto simp: bit_simps dest: bit_imp_le_length)
  then show ?thesis using crc_shift_push [of m n "ucast b"] by simp
qed

lemma crc_four_bytes:
  "crc32c_spec crc [a, b, c, d] = crc_shift 32 (crc XOR le32 a b c d)"
proof -
  have "crc32c_spec crc [a, b, c, d] =
      crc_shift 32 (crc XOR ucast a) XOR crc_shift 24 (ucast b) XOR
      crc_shift 16 (ucast c) XOR crc_shift 8 (ucast d)"
    by (simp add: crc_byte_def crc_linear xor.assoc flip: crc_shift_add)
  moreover have "crc_shift 32 (push_bit 8 (ucast b)) = crc_shift 24 (ucast b)"
    "crc_shift 32 (push_bit 16 (ucast c)) = crc_shift 16 (ucast c)"
    "crc_shift 32 (push_bit 24 (ucast d)) = crc_shift 8 (ucast d)"
    using crc_shift_push_byte [of 8 24] crc_shift_push_byte [of 16 16]
      crc_shift_push_byte [of 24 8] by simp_all
  ultimately show ?thesis by (simp add: le32_def crc_linear ac_simps)
qed

lemma crc_shift_32_lookup:
  "crc_shift 32 w =
     sctp_crc_tableil8_o56 ! unat (w AND 0xFF) XOR
     sctp_crc_tableil8_o48 ! unat (drop_bit 8 w AND 0xFF) XOR
     sctp_crc_tableil8_o40 ! unat (drop_bit 16 w AND 0xFF) XOR
     sctp_crc_tableil8_o32 ! unat (drop_bit 24 w AND 0xFF)"
proof -
  have "drop_bit 32 w = 0" by (rule bit_word_eqI) (auto simp: bit_simps dest: bit_imp_le_length)
  then show ?thesis
    using crc_shift_split_byte [of 24 w] crc_shift_split_byte [of 16 "drop_bit 8 w"]
      crc_shift_split_byte [of 8 "drop_bit 16 w"] crc_shift_split_byte [of 0 "drop_bit 24 w"]
    by (simp add: table_lookup ac_simps)
qed

lemma crc_shift_64_lookup:
  "crc_shift 64 w =
     sctp_crc_tableil8_o88 ! unat (w AND 0xFF) XOR
     sctp_crc_tableil8_o80 ! unat (drop_bit 8 w AND 0xFF) XOR
     sctp_crc_tableil8_o72 ! unat (drop_bit 16 w AND 0xFF) XOR
     sctp_crc_tableil8_o64 ! unat (drop_bit 24 w AND 0xFF)"
proof -
  have "drop_bit 32 w = 0" by (rule bit_word_eqI) (auto simp: bit_simps dest: bit_imp_le_length)
  then show ?thesis
    using crc_shift_split_byte [of 56 w] crc_shift_split_byte [of 48 "drop_bit 8 w"]
      crc_shift_split_byte [of 40 "drop_bit 16 w"] crc_shift_split_byte [of 32 "drop_bit 24 w"]
    by (simp add: table_lookup ac_simps)
qed

lemma sb8_round_eq:
  "sb8_round crc (le32 b0 b1 b2 b3) (le32 b4 b5 b6 b7) =
     crc32c_spec crc [b0, b1, b2, b3, b4, b5, b6, b7]"
proof -
  have "crc32c_spec crc [b0, b1, b2, b3, b4, b5, b6, b7] =
      crc32c_spec (crc32c_spec crc [b0, b1, b2, b3]) [b4, b5, b6, b7]"
    by simp
  also have "\<dots> = crc_shift 64 (crc XOR le32 b0 b1 b2 b3) XOR crc_shift 32 (le32 b4 b5 b6 b7)"
    by (simp only: crc_four_bytes crc_shift_xor flip: crc_shift_add) simp
  finally show ?thesis
    by (simp add: sb8_round_def Let_def crc_shift_64_lookup crc_shift_32_lookup ac_simps)
qed

section \<open>The loops\<close>

lemma sb8_byte_loop_eq:
  "n \<le> length p \<Longrightarrow> sb8_byte_loop n crc p = Some (crc32c_spec crc (take n p), drop n p)"
  by (induction n crc p rule: sb8_byte_loop.induct) (simp_all add: crc_byte_lookup)

lemma sb8_word_loop_eq:
  "8 * n \<le> length p \<Longrightarrow>
     sb8_word_loop n crc p = Some (crc32c_spec crc (take (8 * n) p), drop (8 * n) p)"
proof (induction n crc p rule: sb8_word_loop.induct)
  case (2 n crc b0 b1 b2 b3 b4 b5 b6 b7 p)
  then have "8 * n \<le> length p" by simp
  moreover have "8 * Suc n = Suc (Suc (Suc (Suc (Suc (Suc (Suc (Suc (8 * n))))))))" by simp
  ultimately show ?case using "2.IH" by (simp add: sb8_round_eq del: mult_Suc_right)
qed simp_all

lemma singletable_loop_eq:
  "n \<le> length p \<Longrightarrow> singletable_loop n crc p = Some (crc32c_spec crc (take n p))"
  by (induction n crc p rule: singletable_loop.induct) (simp_all add: SCTP_CRC32C_eq)

lemma sctp_crc32c_sb8_64_bit_eq:
  assumes "unat len \<le> length p" and "init_bytes \<le> len"
  shows "sctp_crc32c_sb8_64_bit crc p len init_bytes = Some (crc32c_spec crc (take (unat len) p))"
proof -
  define i where "i = unat init_bytes"
  define r where "r = unat (len - init_bytes)"
  have len: "unat len = i + r"
    using assms(2) by (simp add: i_def r_def unat_sub word_le_nat_alt)
  have rl: "unat ((len - init_bytes) div 8 * 8) = r div 8 * 8"
  proof -
    have "r < 2 ^ 32" by (simp add: r_def unat_u32_bound)
    then show ?thesis by (simp add: unat_word_ariths unat_div r_def)
  qed
  then have eb: "unat (len - init_bytes - (len - init_bytes) div 8 * 8) = r mod 8"
    by (simp add: unat_mod r_def minus_div_mult_eq_mod)
  have rd: "unat ((len - init_bytes) div 8 * 8 div 8) = r div 8"
    by (simp add: unat_div rl)
  define p1 where "p1 = drop i p"
  define p2 where "p2 = drop (8 * (r div 8)) p1"
  have bounds: "i \<le> length p" "8 * (r div 8) \<le> length p1" "r mod 8 \<le> length p2"
    using assms(1) len mod_mult_div_eq [of r 8] unfolding p1_def p2_def length_drop by linarith+
  have "take (unat len) p = take (i + (8 * (r div 8) + r mod 8)) p" by (simp add: len)
  also have "\<dots> = take i p @ take (8 * (r div 8)) p1 @ take (r mod 8) p2"
    by (simp only: take_add p1_def p2_def)
  finally have "take (unat len) p = take i p @ take (8 * (r div 8)) p1 @ take (r mod 8) p2" .
  then show ?thesis
    using bounds
    by (simp add: sctp_crc32c_sb8_64_bit_def Let_def rd eb sb8_byte_loop_eq sb8_word_loop_eq
        flip: i_def p1_def p2_def)
qed


lemma to_even_word_bound: "ucast (4 - (addr AND 0x3 :: 64 word)) \<le> (4 :: u32)"
proof -
  have "addr AND 3 \<le> 3" by (rule word_and_le1)
  then have "unat (addr AND 3) \<le> 3" by (simp add: word_le_nat_alt)
  then have "unat (4 - (addr AND 3)) \<le> 4"
    by (simp add: unat_sub word_le_nat_alt)
  then show ?thesis
    by (simp add: word_le_nat_alt unsigned_ucast_eq take_bit_nat_eq_self)
qed

lemma calculate_crc32c_eq:
  assumes "unat len \<le> length buffer"
  shows "calculate_crc32c crc addr buffer len = Some (crc32c_spec crc (take (unat len) buffer))"
proof (cases "len < 4")
  case True
  then show ?thesis
    using assms by (simp add: calculate_crc32c_def singletable_crc32c_def singletable_loop_eq)
next
  case False
  then have "ucast (4 - (addr AND 0x3)) \<le> len"
    using to_even_word_bound [of addr] by (meson not_less order_trans)
  with False assms show ?thesis
    by (simp add: calculate_crc32c_def multitable_crc32c_def sctp_crc32c_sb8_64_bit_eq)
qed

section \<open>The mbuf chain\<close>

text \<open>The lengths of the mbufs of a chain fit the signed field they are kept in.\<close>

definition chain_ok :: "(64 word \<times> bytes) list \<Rightarrow> bool" where
  "chain_ok m \<longleftrightarrow> (\<forall>(a, d) \<in> set m. length d < 2 ^ 31)"

abbreviation chain_bytes :: "(64 word \<times> bytes) list \<Rightarrow> bytes" where
  "chain_bytes m \<equiv> concat (map snd m)"

lemma chain_ok_simps [simp]:
  "chain_ok []" "chain_ok ((a, d) # m) \<longleftrightarrow> length d < 2 ^ 31 \<and> chain_ok m"
  by (simp_all add: chain_ok_def)

lemma unat_word_of_len: "length d < 2 ^ 31 \<Longrightarrow> unat (word_of_nat (length d) :: u32) = length d"
  by (simp add: unat_of_nat take_bit_nat_eq_self)

lemma cksum_sum_zero:
  "chain_ok m \<Longrightarrow> cksum_sum base 0 m = Some (crc32c_spec base (chain_bytes m))"
proof (induction m arbitrary: base)
  case (Cons x m)
  obtain a d where x: "x = (a, d)" by (cases x)
  with Cons.prems have d: "unat (word_of_nat (length d) :: u32) = length d"
    by (simp add: unat_word_of_len)
  show ?case
  proof (cases "d = []")
    case False
    then have "(word_of_nat (length d) :: u32) > 0"
      using d by (simp add: word_less_nat_alt)
    then show ?thesis
      using Cons x d by (simp add: calculate_crc32c_eq Let_def)
  qed (use Cons x in simp)
qed simp

lemma cksum_seek_sum:
  assumes "chain_ok m" and "cksum_seek offset m = (offset', at)"
  shows "cksum_sum base offset' at = Some (crc32c_spec base (drop (unat offset) (chain_bytes m)))"
  using assms
proof (induction offset m rule: cksum_seek.induct)
  case (1 offset)
  then show ?case by simp
next
  case (2 offset a d m)
  let ?len = "word_of_nat (length d) :: u32"
  from "2.prems" have d: "unat ?len = length d" by (simp add: unat_word_of_len)
  show ?case
  proof (cases "offset > ?len")
    case True
    then have "unat (offset - ?len) = unat offset - length d"
      using d by (simp add: unat_sub order_less_imp_le)
    then show ?thesis using True "2.IH" "2.prems" d by (simp add: word_less_nat_alt)
  next
    case False
    then have le: "offset \<le> ?len" by simp
    then have sub: "unat (?len - offset) = length d - unat offset"
      using d by (simp add: unat_sub)
    have at: "offset' = offset" "at = (a, d) # m" using False "2.prems" by auto
    have next_off: "(if offset \<noteq> 0 then if offset < ?len then 0 else offset - ?len else offset) = 0"
      using le by (auto simp: not_less)
    have "(if ?len - offset > 0
           then calculate_crc32c base (a + ucast offset) (drop (unat offset) d) (?len - offset)
           else Some base) = Some (crc32c_spec base (drop (unat offset) d))"
      using sub by (auto simp: calculate_crc32c_eq word_less_nat_alt)
    moreover have "unat offset \<le> length d" using le d by (simp add: word_le_nat_alt)
    ultimately show ?thesis
      using "2.prems"(1) by (simp add: at next_off cksum_sum_zero Let_def)
  qed
qed

section \<open>Properties\<close>

text \<open>The bit-serial definition on the usual check string \<^verbatim>\<open>123456789\<close> gives the published value.\<close>

lemma crc32c_check_value:
  "NOT (crc32c_spec 0xffffffff [0x31, 0x32, 0x33, 0x34, 0x35, 0x36, 0x37, 0x38, 0x39]) = 0xE3069283"
  by (simp add: crc_byte_def crc_eval)

text \<open>
  C15: for every buffer, every start value and every address (alignment) of the buffer,
  \<^verbatim>\<open>calculate_crc32c\<close> reads no byte outside the buffer and returns the bit-serial CRC32c of
  the first \<open>len\<close> bytes: the slicing-by-8 routine with its eight tables, its alignment
  prologue and its tail agrees with the definition of the CRC.
\<close>

theorem calculate_crc32c_correct:
  assumes "unat len \<le> length buffer"
  shows "calculate_crc32c crc addr buffer len = Some (crc32c_spec crc (take (unat len) buffer))"
  using assms by (rule calculate_crc32c_eq)

theorem calculate_crc32c_correct_witness:
  "unat (9 :: u32) \<le> length [0x31, 0x32, 0x33, 0x34, 0x35, 0x36, 0x37, 0x38, 0x39 :: u8] \<and>
   calculate_crc32c 0xffffffff 0x1003 [0x31, 0x32, 0x33, 0x34, 0x35, 0x36, 0x37, 0x38, 0x39] 9 =
     Some (crc32c_spec 0xffffffff [0x31, 0x32, 0x33, 0x34, 0x35, 0x36, 0x37, 0x38, 0x39])"
  using calculate_crc32c_correct [of 9 "[0x31, 0x32, 0x33, 0x34, 0x35, 0x36, 0x37, 0x38, 0x39]"
      "0xffffffff" "0x1003"]
  by simp

text \<open>
  C22: the checksum of a packet in an mbuf chain is the complement of the CRC32c of the bytes
  of the chain from the given offset on, however the bytes are cut into mbufs and wherever in the chain
  the offset falls.
\<close>

theorem sctp_calculate_cksum_correct:
  assumes "chain_ok m" "unat offset \<le> length (chain_bytes m)"
  shows "sctp_calculate_cksum m offset =
    Some (NOT (crc32c_spec 0xffffffff (drop (unat offset) (chain_bytes m))))"
proof (cases "cksum_seek offset m")
  case (Pair offset' at)
  with cksum_seek_sum [OF assms(1) this] show ?thesis
    by (simp add: sctp_calculate_cksum_def sctp_finalize_crc32c_def)
qed

theorem sctp_calculate_cksum_correct_witness:
  "chain_ok [(0x2000, [1, 2, 3]), (0x3001, [4, 5, 6, 7, 8, 9])] \<and>
   sctp_calculate_cksum [(0x2000, [1, 2, 3]), (0x3001, [4, 5, 6, 7, 8, 9])] 4 =
     Some (NOT (crc32c_spec 0xffffffff [5, 6, 7, 8, 9]))"
  using sctp_calculate_cksum_correct
      [of "[(0x2000, [1, 2, 3]), (0x3001, [4, 5, 6, 7, 8, 9])]" 4]
  by simp

text \<open>
  with an offset greater than the length of the chain the routine returns 0. (The comment
  above it says that 1 is returned.)
\<close>

lemma sctp_calculate_cksum_past_end:
  assumes "chain_ok m" and "length (chain_bytes m) < unat offset"
  shows "sctp_calculate_cksum m offset = Some 0"
  using cksum_seek_sum [OF assms(1)] assms(2)
  by (cases "cksum_seek offset m") (simp add: sctp_calculate_cksum_def sctp_finalize_crc32c_def)

lemma sctp_calculate_cksum_past_end_witness:
  "chain_ok [(0x2000, [1, 2, 3])] \<and> sctp_calculate_cksum [(0x2000, [1, 2, 3])] 7 = Some 0"
  using sctp_calculate_cksum_past_end [of "[(0x2000, [1, 2, 3])]" 7] by simp

end
