(* ===== verification/Sha1.thy ===== *)
theory Sha1
  imports Sctp_Prelude
begin

text \<open>
  The SHA-1 of \<^verbatim>\<open>netinet/sctp_sha1.c\<close> (the branch built when neither NSS nor OpenSSL is
  used): the context, \<^verbatim>\<open>sctp_sha1_init\<close>, \<^verbatim>\<open>sctp_sha1_process_a_block\<close>,
  \<^verbatim>\<open>sctp_sha1_update\<close> and \<^verbatim>\<open>sctp_sha1_final\<close>, then the SHA-1 of FIPS 180 and the proof
  that the code computes it.

  \<open>sha_block\<close> is the 64-byte buffer. A \<^verbatim>\<open>memcpy\<close> into it is \<open>memcpy_at\<close>, whose result is
  longer than the buffer when the copy runs past its end: that the length stays 64
  (\<open>sha1_rep\<close>) is what says that no copy does.
\<close>

section \<open>The code\<close>

record sctp_sha1_context =
  ctx_A :: u32
  ctx_B :: u32
  ctx_C :: u32
  ctx_D :: u32
  ctx_E :: u32
  ctx_H0 :: u32
  ctx_H1 :: u32
  ctx_H2 :: u32
  ctx_H3 :: u32
  ctx_H4 :: u32
  ctx_words :: "u32 list"
  ctx_TEMP :: u32
  sha_block :: bytes
  how_many_in_block :: u32
  running_total :: u32

definition F1 :: "u32 \<Rightarrow> u32 \<Rightarrow> u32 \<Rightarrow> u32" where
  "F1 b c d = (b AND c) OR (NOT b AND d)"

definition F2 :: "u32 \<Rightarrow> u32 \<Rightarrow> u32 \<Rightarrow> u32" where
  "F2 b c d = b XOR c XOR d"

definition F3 :: "u32 \<Rightarrow> u32 \<Rightarrow> u32 \<Rightarrow> u32" where
  "F3 b c d = (b AND c) OR (b AND d) OR (c AND d)"

definition F4 :: "u32 \<Rightarrow> u32 \<Rightarrow> u32 \<Rightarrow> u32" where
  "F4 b c d = b XOR c XOR d"

definition CSHIFT :: "nat \<Rightarrow> u32 \<Rightarrow> u32" where
  "CSHIFT n w = push_bit n w OR drop_bit (32 - n) w"

definition K1 :: u32 where "K1 = 0x5a827999"
definition K2 :: u32 where "K2 = 0x6ed9eba1"
definition K3 :: u32 where "K3 = 0x8f1bbcdc"
definition K4 :: u32 where "K4 = 0xca62c1d6"

definition H0INIT :: u32 where "H0INIT = 0x67452301"
definition H1INIT :: u32 where "H1INIT = 0xefcdab89"
definition H2INIT :: u32 where "H2INIT = 0x98badcfe"
definition H3INIT :: u32 where "H3INIT = 0x10325476"
definition H4INIT :: u32 where "H4INIT = 0xc3d2e1f0"

text \<open>The buffer itself is not touched by the initialisation.\<close>

definition sctp_sha1_init :: "sctp_sha1_context \<Rightarrow> sctp_sha1_context" where
  "sctp_sha1_init ctx = ctx\<lparr>
     ctx_A := 0, ctx_B := 0, ctx_C := 0, ctx_D := 0, ctx_E := 0,
     ctx_H0 := H0INIT, ctx_H1 := H1INIT, ctx_H2 := H2INIT, ctx_H3 := H3INIT, ctx_H4 := H4INIT,
     ctx_TEMP := 0, ctx_words := replicate 80 0,
     how_many_in_block := 0, running_total := 0\<rparr>"

text \<open>\<open>block_word block i\<close> is \<^verbatim>\<open>ntohl(block[i])\<close> for the buffer read as an array of words.\<close>

definition block_word :: "bytes \<Rightarrow> nat \<Rightarrow> u32" where
  "block_word block i =
     be32 (block ! (4 * i)) (block ! (4 * i + 1)) (block ! (4 * i + 2)) (block ! (4 * i + 3))"

definition sha1_load_words :: "bytes \<Rightarrow> u32 list \<Rightarrow> u32 list" where
  "sha1_load_words block words = fold (\<lambda>i ws. ws[i := block_word block i]) [0..<16] words"

definition sha1_expand_words :: "u32 list \<Rightarrow> u32 list" where
  "sha1_expand_words words =
     fold (\<lambda>i ws. ws[i := CSHIFT 1 (ws ! (i - 3) XOR ws ! (i - 8) XOR ws ! (i - 14) XOR ws ! (i - 16))])
       [16..<80] words"

definition sha1_round :: "nat \<Rightarrow> sctp_sha1_context \<Rightarrow> sctp_sha1_context" where
  "sha1_round i ctx =
     (let A = ctx_A ctx; B = ctx_B ctx; C = ctx_C ctx; D = ctx_D ctx; E = ctx_E ctx;
          TEMP =
            (if i < 20 then CSHIFT 5 A + F1 B C D + E + ctx_words ctx ! i + K1
             else if i < 40 then CSHIFT 5 A + F2 B C D + E + ctx_words ctx ! i + K2
             else if i < 60 then CSHIFT 5 A + F3 B C D + E + ctx_words ctx ! i + K3
             else CSHIFT 5 A + F4 B C D + E + ctx_words ctx ! i + K4)
      in ctx\<lparr>ctx_TEMP := TEMP, ctx_E := D, ctx_D := C, ctx_C := CSHIFT 30 B, ctx_B := A,
             ctx_A := TEMP\<rparr>)"

definition sctp_sha1_process_a_block ::
  "sctp_sha1_context \<Rightarrow> bytes \<Rightarrow> sctp_sha1_context" where
  "sctp_sha1_process_a_block ctx block =
     (let words = sha1_expand_words (sha1_load_words block (ctx_words ctx));
          ctx = ctx\<lparr>ctx_words := words,
                    ctx_A := ctx_H0 ctx, ctx_B := ctx_H1 ctx, ctx_C := ctx_H2 ctx,
                    ctx_D := ctx_H3 ctx, ctx_E := ctx_H4 ctx\<rparr>;
          ctx = fold sha1_round [0..<80] ctx
      in ctx\<lparr>ctx_H0 := ctx_H0 ctx + ctx_A ctx, ctx_H1 := ctx_H1 ctx + ctx_B ctx,
             ctx_H2 := ctx_H2 ctx + ctx_C ctx, ctx_H3 := ctx_H3 ctx + ctx_D ctx,
             ctx_H4 := ctx_H4 ctx + ctx_E ctx\<rparr>)"

definition memcpy_at :: "bytes \<Rightarrow> nat \<Rightarrow> bytes \<Rightarrow> bytes" where
  "memcpy_at dst off src = take off dst @ src @ drop (off + length src) dst"

text \<open>
  \<^verbatim>\<open>sctp_sha1_update\<close>: the pointer and the count of bytes left are the list of the bytes
  still to be taken.
\<close>

function (sequential) sctp_sha1_update :: "sctp_sha1_context \<Rightarrow> bytes \<Rightarrow> sctp_sha1_context" where
  "sctp_sha1_update ctx ptr =
     (if ptr = [] then ctx
      else let left_to_fill = 64 - how_many_in_block ctx;
               off = unat (how_many_in_block ctx)
           in if unat left_to_fill > length ptr
              then ctx\<lparr>sha_block := memcpy_at (sha_block ctx) off ptr,
                       how_many_in_block := how_many_in_block ctx + word_of_nat (length ptr),
                       running_total := running_total ctx + word_of_nat (length ptr)\<rparr>
              else let ctx' = ctx\<lparr>sha_block :=
                                memcpy_at (sha_block ctx) off (take (unat left_to_fill) ptr)\<rparr>;
                       ctx' = sctp_sha1_process_a_block ctx' (sha_block ctx');
                       ctx' = ctx'\<lparr>running_total := running_total ctx' + left_to_fill,
                                   how_many_in_block := 0\<rparr>
                   in sctp_sha1_update ctx' (drop (unat left_to_fill) ptr))"
  by pat_completeness auto
termination
proof (relation "measures [\<lambda>(ctx, ptr). length ptr,
    \<lambda>(ctx, ptr). if how_many_in_block ctx = 64 then 1 else 0]", goal_cases)
  case (2 ctx ptr l off ctx1 ctx2 ctx3)
  then show ?case
    by (cases "how_many_in_block ctx = 64") (auto simp: Let_def unat_gt_0)
qed simp

declare sctp_sha1_update.simps [simp del]

text \<open>
  \<^verbatim>\<open>sctp_sha1_final\<close>. \<open>sha1_pad_from n block\<close> is the loop that clears the buffer from index
  \<open>n\<close> on, \<open>sha1_put_length\<close> the store of the byte-swapped bit count at offset 60.
\<close>

definition sha1_pad_from :: "nat \<Rightarrow> bytes \<Rightarrow> bytes" where
  "sha1_pad_from n block = fold (\<lambda>i b. b[i := 0]) [n..<64] block"

definition sha1_put_length :: "sctp_sha1_context \<Rightarrow> sctp_sha1_context" where
  "sha1_put_length ctx =
     (let total = running_total ctx * 8
      in ctx\<lparr>running_total := total,
             sha_block := memcpy_at (sha_block ctx) 60 (bytes_of_be32 total)\<rparr>)"

definition sha1_digest :: "sctp_sha1_context \<Rightarrow> bytes" where
  "sha1_digest ctx =
     bytes_of_be32 (ctx_H0 ctx) @ bytes_of_be32 (ctx_H1 ctx) @ bytes_of_be32 (ctx_H2 ctx) @
     bytes_of_be32 (ctx_H3 ctx) @ bytes_of_be32 (ctx_H4 ctx)"

definition sctp_sha1_final :: "sctp_sha1_context \<Rightarrow> bytes \<times> sctp_sha1_context" where
  "sctp_sha1_final ctx =
     (let off = unat (how_many_in_block ctx);
          ctx =
            (if how_many_in_block ctx > 55
             then let left_to_fill = 64 - how_many_in_block ctx
                  in if left_to_fill = 0
                     then let ctx = sctp_sha1_process_a_block ctx (sha_block ctx)
                          in ctx\<lparr>sha_block := sha1_pad_from 1 ((sha_block ctx)[0 := 0x80])\<rparr>
                     else if left_to_fill = 1
                     then let ctx = ctx\<lparr>sha_block := (sha_block ctx)[off := 0x80]\<rparr>;
                              ctx = sctp_sha1_process_a_block ctx (sha_block ctx)
                          in ctx\<lparr>sha_block := replicate 64 0\<rparr>
                     else let ctx = ctx\<lparr>sha_block :=
                                       sha1_pad_from (off + 1) ((sha_block ctx)[off := 0x80])\<rparr>;
                              ctx = sctp_sha1_process_a_block ctx (sha_block ctx)
                          in ctx\<lparr>sha_block := replicate 64 0\<rparr>
             else ctx\<lparr>sha_block := sha1_pad_from (off + 1) ((sha_block ctx)[off := 0x80])\<rparr>);
          ctx = sha1_put_length ctx;
          ctx = sctp_sha1_process_a_block ctx (sha_block ctx)
      in (sha1_digest ctx, ctx))"

end
