(* ===== verification/Sha1_Correct.thy ===== *)
theory Sha1_Correct
  imports Sha1
begin

text \<open>
  The SHA-1 of FIPS 180-4, and the proof that the incremental code of theory \<open>Sha1\<close> computes
  it for every message shorter than \<open>2 ^ 29\<close> bytes, however the message is cut into calls of
  \<^verbatim>\<open>sctp_sha1_update\<close>.
\<close>

section \<open>The standard\<close>

type_synonym sha1_state = "u32 \<times> u32 \<times> u32 \<times> u32 \<times> u32"

definition sha1_f :: "nat \<Rightarrow> u32 \<Rightarrow> u32 \<Rightarrow> u32 \<Rightarrow> u32" where
  "sha1_f t x y z =
     (if t < 20 then (x AND y) XOR (NOT x AND z)
      else if t < 40 then x XOR y XOR z
      else if t < 60 then (x AND y) XOR (x AND z) XOR (y AND z)
      else x XOR y XOR z)"

definition sha1_K :: "nat \<Rightarrow> u32" where
  "sha1_K t =
     (if t < 20 then 0x5a827999 else if t < 40 then 0x6ed9eba1
      else if t < 60 then 0x8f1bbcdc else 0xca62c1d6)"

fun sha1_W :: "bytes \<Rightarrow> nat \<Rightarrow> u32" where
  "sha1_W M t =
     (if t < 16 then block_word M t
      else word_rotl 1 (sha1_W M (t - 3) XOR sha1_W M (t - 8) XOR sha1_W M (t - 14) XOR
             sha1_W M (t - 16)))"

declare sha1_W.simps [simp del]

lemma sha1_W_low: "t < 16 \<Longrightarrow> sha1_W M t = block_word M t"
  by (simp add: sha1_W.simps)

definition sha1_step :: "bytes \<Rightarrow> nat \<Rightarrow> sha1_state \<Rightarrow> sha1_state" where
  "sha1_step M t = (\<lambda>(a, b, c, d, e).
     (word_rotl 5 a + sha1_f t b c d + e + sha1_K t + sha1_W M t, a, word_rotl 30 b, c, d))"

definition sha1_compress :: "sha1_state \<Rightarrow> bytes \<Rightarrow> sha1_state" where
  "sha1_compress h M =
     (case (h, fold (sha1_step M) [0..<80] h) of
        ((h0, h1, h2, h3, h4), (a, b, c, d, e)) \<Rightarrow> (h0 + a, h1 + b, h2 + c, h3 + d, h4 + e))"

text \<open>The chaining over the full blocks of a message; a partial block at the end is left out.\<close>

fun sha1_blocks :: "sha1_state \<Rightarrow> bytes \<Rightarrow> sha1_state" where
  "sha1_blocks h msg =
     (if length msg < 64 then h else sha1_blocks (sha1_compress h (take 64 msg)) (drop 64 msg))"

declare sha1_blocks.simps [simp del]

definition sha1_IV :: sha1_state where
  "sha1_IV = (0x67452301, 0xefcdab89, 0x98badcfe, 0x10325476, 0xc3d2e1f0)"

text \<open>
  The padding: a one bit, zeros up to 56 bytes in the last block, and the bit length as a
  64-bit number, here given by its two halves.
\<close>

definition sha1_pad_with :: "u32 \<Rightarrow> u32 \<Rightarrow> bytes \<Rightarrow> bytes" where
  "sha1_pad_with hi lo msg =
     msg @ 0x80 # replicate ((119 - length msg mod 64) mod 64) 0 @ bytes_of_be32 hi @ bytes_of_be32 lo"

definition sha1_pad :: "bytes \<Rightarrow> bytes" where
  "sha1_pad msg =
     sha1_pad_with (word_of_nat (8 * length msg div 2 ^ 32)) (word_of_nat (8 * length msg)) msg"

definition sha1_state_bytes :: "sha1_state \<Rightarrow> bytes" where
  "sha1_state_bytes = (\<lambda>(h0, h1, h2, h3, h4).
     bytes_of_be32 h0 @ bytes_of_be32 h1 @ bytes_of_be32 h2 @ bytes_of_be32 h3 @ bytes_of_be32 h4)"

definition sha1 :: "bytes \<Rightarrow> bytes" where
  "sha1 msg = sha1_state_bytes (sha1_blocks sha1_IV (sha1_pad msg))"

lemma length_sha1 [simp]: "length (sha1 msg) = 20"
  by (simp add: sha1_def sha1_state_bytes_def split: prod.splits)

lemma sha1_blocks_append:
  "length a = 64 * n \<Longrightarrow> sha1_blocks h (a @ b) = sha1_blocks (sha1_blocks h a) b"
proof (induction n arbitrary: a h)
  case 0
  then show ?case by (simp add: sha1_blocks.simps [of h "[]"])
next
  case (Suc n)
  then have len: "\<not> length a < 64" "length (drop 64 a) = 64 * n" by simp_all
  show ?case
    using len Suc.IH [of "drop 64 a"]
    by (simp add: sha1_blocks.simps [of h a] sha1_blocks.simps [of h "a @ b"])
qed

lemma sha1_blocks_short: "length b < 64 \<Longrightarrow> sha1_blocks h b = h"
  by (simp add: sha1_blocks.simps)

lemma sha1_blocks_one: "length b = 64 \<Longrightarrow> sha1_blocks h b = sha1_compress h b"
  by (simp add: sha1_blocks.simps [of h b] sha1_blocks_short)

section \<open>One block\<close>

lemma CSHIFT_rotl:
  assumes "0 < n" and "n < 32"
  shows "CSHIFT n w = word_rotl n w"
proof (rule bit_word_eqI)
  fix k
  assume "k < LENGTH(32)"
  then have k: "k < 32" by simp
  have rot: "bit (word_rotl n w) k = bit w ((k + (32 - n)) mod 32)"
    using k assms by (simp add: bit_word_rotl_iff)
  have csh: "bit (CSHIFT n w) k \<longleftrightarrow> n \<le> k \<and> bit w (k - n) \<or> bit w (32 - n + k)"
    using k by (auto simp: CSHIFT_def bit_simps)
  show "bit (CSHIFT n w) k \<longleftrightarrow> bit (word_rotl n w) k"
  proof (cases "k < n")
    case True
    then have "(k + (32 - n)) mod 32 = 32 - n + k" using assms by simp
    then show ?thesis using True rot csh by simp
  next
    case False
    then have "k + (32 - n) = 32 + (k - n)" "k - n < 32" using assms k by simp_all
    then have "(k + (32 - n)) mod 32 = k - n" by simp
    moreover have "\<not> bit w (32 - n + k)"
      using False assms bit_imp_le_length [of w "32 - n + k"] by auto
    ultimately show ?thesis using False rot csh by simp
  qed
qed

lemma F_eqs:
  "F1 x y z = (x AND y) XOR (NOT x AND z)"
  "F3 x y z = (x AND y) XOR (x AND z) XOR (y AND z)"
  by (intro bit_word_eqI; auto simp: F1_def F3_def bit_simps)+

definition hstate :: "sctp_sha1_context \<Rightarrow> sha1_state" where
  "hstate ctx = (ctx_H0 ctx, ctx_H1 ctx, ctx_H2 ctx, ctx_H3 ctx, ctx_H4 ctx)"

definition vstate :: "sctp_sha1_context \<Rightarrow> sha1_state" where
  "vstate ctx = (ctx_A ctx, ctx_B ctx, ctx_C ctx, ctx_D ctx, ctx_E ctx)"

lemma length_fold_update: "length (fold (\<lambda>i ws. ws[i := f i ws]) is ws) = length ws"
  by (induction "is" arbitrary: ws) auto

lemma length_words [simp]:
  "length (sha1_load_words block ws) = length ws"
  "length (sha1_expand_words ws) = length ws"
  unfolding sha1_load_words_def sha1_expand_words_def by (simp_all only: length_fold_update)

lemma sha1_load_words_nth:
  assumes "length ws = 80" and "i < 16"
  shows "sha1_load_words block ws ! i = block_word block i"
proof -
  have "i < n \<Longrightarrow> n \<le> 16 \<Longrightarrow> fold (\<lambda>i ws. ws[i := block_word block i]) [0..<n] ws ! i = block_word block i"
    for n
    using assms
    by (induction n) (auto simp: less_Suc_eq length_fold_update nth_list_update)
  from this [of 16] show ?thesis using assms by (simp add: sha1_load_words_def)
qed

lemma sha1_expand_words_nth:
  assumes "length ws = 80" and "\<And>i. i < 16 \<Longrightarrow> ws ! i = sha1_W M i" and "i < 80"
  shows "sha1_expand_words ws ! i = sha1_W M i"
proof -
  let ?new = "\<lambda>i ws. CSHIFT 1 (ws ! (i - 3) XOR ws ! (i - 8) XOR ws ! (i - 14) XOR ws ! (i - 16))"
  define g where "g n = fold (\<lambda>i ws. ws[i := ?new i ws]) [16..<n] ws" for n
  have g_Suc: "16 \<le> n \<Longrightarrow> g (Suc n) = (g n)[n := ?new n (g n)]" for n
    by (simp add: g_def)
  have len: "length (g n) = 80" for n
    unfolding g_def using assms(1) by (simp only: length_fold_update)
  have "16 \<le> n \<Longrightarrow> n \<le> 80 \<Longrightarrow> i < n \<Longrightarrow> g n ! i = sha1_W M i" for n i
  proof (induction n arbitrary: i rule: dec_induct)
    case base
    then show ?case using assms(2) by (simp add: g_def)
  next
    case (step n)
    have IH: "j < n \<Longrightarrow> g n ! j = sha1_W M j" for j
      using step by simp
    have "?new n (g n) = sha1_W M n"
      using IH [of "n - 3"] IH [of "n - 8"] IH [of "n - 14"] IH [of "n - 16"] \<open>16 \<le> n\<close>
      by (simp add: CSHIFT_rotl sha1_W.simps [of M n])
    then have "g (Suc n) = (g n)[n := sha1_W M n]"
      using g_Suc \<open>16 \<le> n\<close> by simp
    then show ?case
      using IH [of i] step.prems len [of n] by (cases "i = n") auto
  qed
  moreover have "sha1_expand_words ws = g 80" by (simp only: sha1_expand_words_def g_def)
  ultimately show ?thesis using assms(3) by simp
qed

lemma sha1_round_vstate:
  "ctx_words ctx ! i = sha1_W M i \<Longrightarrow> vstate (sha1_round i ctx) = sha1_step M i (vstate ctx)"
  by (simp add: vstate_def sha1_round_def sha1_step_def Let_def sha1_f_def sha1_K_def F_eqs
      F2_def F4_def K1_def K2_def K3_def K4_def CSHIFT_rotl ac_simps)

lemma sha1_round_frame [simp]:
  "hstate (sha1_round i ctx) = hstate ctx"
  "ctx_words (sha1_round i ctx) = ctx_words ctx"
  "sha_block (sha1_round i ctx) = sha_block ctx"
  "how_many_in_block (sha1_round i ctx) = how_many_in_block ctx"
  "running_total (sha1_round i ctx) = running_total ctx"
  by (simp_all add: hstate_def sha1_round_def Let_def)

lemma fold_sha1_round_frame [simp]:
  "hstate (fold sha1_round is ctx) = hstate ctx"
  "ctx_words (fold sha1_round is ctx) = ctx_words ctx"
  "sha_block (fold sha1_round is ctx) = sha_block ctx"
  "how_many_in_block (fold sha1_round is ctx) = how_many_in_block ctx"
  "running_total (fold sha1_round is ctx) = running_total ctx"
  by (induction "is" arbitrary: ctx) simp_all

lemma fold_sha1_round_vstate:
  "(\<And>i. i \<in> set is \<Longrightarrow> ctx_words ctx ! i = sha1_W M i) \<Longrightarrow>
     vstate (fold sha1_round is ctx) = fold (sha1_step M) is (vstate ctx)"
  by (induction "is" arbitrary: ctx) (simp_all add: sha1_round_vstate)

lemma process_a_block_frame [simp]:
  "sha_block (sctp_sha1_process_a_block ctx block) = sha_block ctx"
  "how_many_in_block (sctp_sha1_process_a_block ctx block) = how_many_in_block ctx"
  "running_total (sctp_sha1_process_a_block ctx block) = running_total ctx"
  "length (ctx_words (sctp_sha1_process_a_block ctx block)) = length (ctx_words ctx)"
  by (simp_all add: sctp_sha1_process_a_block_def Let_def)

lemma process_a_block_hstate:
  assumes "length (ctx_words ctx) = 80"
  shows "hstate (sctp_sha1_process_a_block ctx M) = sha1_compress (hstate ctx) M"
proof -
  let ?words = "sha1_expand_words (sha1_load_words M (ctx_words ctx))"
  let ?ctx = "ctx\<lparr>ctx_words := ?words, ctx_A := ctx_H0 ctx, ctx_B := ctx_H1 ctx,
    ctx_C := ctx_H2 ctx, ctx_D := ctx_H3 ctx, ctx_E := ctx_H4 ctx\<rparr>"
  let ?out = "fold sha1_round [0..<80] ?ctx"
  have words: "?words ! i = sha1_W M i" if "i < 80" for i
    using assms that
    by (intro sha1_expand_words_nth) (auto simp: sha1_load_words_nth sha1_W_low)
  have "vstate ?out = fold (sha1_step M) [0..<80] (vstate ?ctx)"
    by (rule fold_sha1_round_vstate) (simp add: words)
  moreover have "vstate ?ctx = hstate ctx" by (simp add: vstate_def hstate_def)
  moreover have "hstate ?out = hstate ctx"
    unfolding fold_sha1_round_frame by (simp add: hstate_def)
  ultimately have v: "vstate ?out = fold (sha1_step M) [0..<80] (hstate ctx)"
    and h: "hstate ?out = hstate ctx" by simp_all
  have "hstate (sctp_sha1_process_a_block ctx M) =
      (case (hstate ?out, vstate ?out) of
         ((h0, h1, h2, h3, h4), (a, b, c, d, e)) \<Rightarrow> (h0 + a, h1 + b, h2 + c, h3 + d, h4 + e))"
    by (simp add: sctp_sha1_process_a_block_def Let_def hstate_def vstate_def)
  then show ?thesis by (simp only: sha1_compress_def v h)
qed


section \<open>Messages\<close>

text \<open>
  The context represents the message taken so far: the chaining value over its full blocks,
  its remainder in the buffer, and its length.
\<close>

definition sha1_rep :: "sctp_sha1_context \<Rightarrow> bytes \<Rightarrow> bool" where
  "sha1_rep ctx msg \<longleftrightarrow>
     length (sha_block ctx) = 64 \<and> length (ctx_words ctx) = 80 \<and>
     how_many_in_block ctx = word_of_nat (length msg mod 64) \<and>
     running_total ctx = word_of_nat (length msg) \<and>
     take (length msg mod 64) (sha_block ctx) = drop (64 * (length msg div 64)) msg \<and>
     hstate ctx = sha1_blocks sha1_IV msg"

lemma sha1_rep_init: "length (sha_block ctx) = 64 \<Longrightarrow> sha1_rep (sctp_sha1_init ctx) []"
  by (simp add: sha1_rep_def sctp_sha1_init_def hstate_def sha1_blocks_short sha1_IV_def
      H0INIT_def H1INIT_def H2INIT_def H3INIT_def H4INIT_def)

lemma length_memcpy_at [simp]:
  "off + length src \<le> length dst \<Longrightarrow> length (memcpy_at dst off src) = length dst"
  by (simp add: memcpy_at_def)

lemma sha1_blocks_rem:
  "sha1_blocks h (msg @ p) =
     sha1_blocks (sha1_blocks h msg) (drop (64 * (length msg div 64)) msg @ p)"
proof -
  let ?n = "64 * (length msg div 64)"
  have full: "length (take ?n msg) = 64 * (length msg div 64)"
    using times_div_less_eq_dividend [of 64 "length msg"] by simp
  have "sha1_blocks h msg = sha1_blocks h (take ?n msg @ drop ?n msg)" by simp
  also have "\<dots> = sha1_blocks h (take ?n msg)"
    unfolding sha1_blocks_append [OF full] by (rule sha1_blocks_short) (simp add: modulo_nat_def)
  finally have m: "sha1_blocks h msg = sha1_blocks h (take ?n msg)" .
  have "sha1_blocks h (msg @ p) = sha1_blocks h (take ?n msg @ (drop ?n msg @ p))"
    by (simp flip: append_assoc)
  then show ?thesis unfolding sha1_blocks_append [OF full] m .
qed

lemma unat_word_of_mod64 [simp]: "unat (word_of_nat (n mod 64) :: u32) = n mod 64"
proof -
  have "n mod 64 < 2 ^ 32" by (rule order.strict_trans [of _ 64]) simp_all
  then show ?thesis by (simp add: unat_of_nat take_bit_nat_eq_self)
qed

lemma left_to_fill_eq:
  "unat (64 - word_of_nat (n mod 64) :: u32) = 64 - n mod 64"
  by (subst unat_sub) (simp_all add: word_le_nat_alt less_imp_le)

lemma update_partial:
  assumes rep: "sha1_rep ctx msg" and small: "length ptr < 64 - length msg mod 64"
  shows "sha1_rep (ctx\<lparr>sha_block := memcpy_at (sha_block ctx) (length msg mod 64) ptr,
           how_many_in_block := how_many_in_block ctx + word_of_nat (length ptr),
           running_total := running_total ctx + word_of_nat (length ptr)\<rparr>) (msg @ ptr)"
proof -
  let ?r = "length msg mod 64"
  have mod: "(length msg + length ptr) mod 64 = ?r + length ptr"
    using small by (simp add: mod_add_left_eq [symmetric, of "length msg"])
  have div: "(length msg + length ptr) div 64 = length msg div 64"
  proof -
    have "length msg + length ptr = 64 * (length msg div 64) + (?r + length ptr)" by simp
    then have "(length msg + length ptr) div 64 = (64 * (length msg div 64) + (?r + length ptr)) div 64"
      by (rule arg_cong)
    also have "\<dots> = length msg div 64" using small by (simp only: div_mult_self4)
    finally show ?thesis .
  qed
  have "sha1_blocks sha1_IV (msg @ ptr) = sha1_blocks sha1_IV msg"
    unfolding sha1_blocks_rem [of _ msg] using small
    by (intro sha1_blocks_short) (simp add: minus_mult_div_eq_mod)
  with rep small mod div show ?thesis
    by (simp add: sha1_rep_def hstate_def memcpy_at_def minus_mult_div_eq_mod)
qed

lemma update_full:
  assumes rep: "sha1_rep ctx msg" and n: "n = 64 - length msg mod 64" and full: "n \<le> length ptr"
    and ctx1: "ctx1 = ctx\<lparr>sha_block := memcpy_at (sha_block ctx) (length msg mod 64) (take n ptr)\<rparr>"
    and ctx2: "ctx2 = sctp_sha1_process_a_block ctx1 (sha_block ctx1)"
  shows "sha1_rep (ctx2\<lparr>running_total := running_total ctx2 + word_of_nat n, how_many_in_block := 0\<rparr>)
           (msg @ take n ptr)"
proof -
  let ?r = "length msg mod 64"
  have r: "?r < 64" by simp
  have len: "length msg + n = 64 * (length msg div 64 + 1)"
  proof -
    have "length msg + n = 64 * (length msg div 64) + (?r + n)" by simp
    moreover have "?r + n = 64" using n r by simp
    ultimately show ?thesis by simp
  qed
  have mod: "(length msg + n) mod 64 = 0" unfolding len by simp
  have block: "memcpy_at (sha_block ctx) ?r (take n ptr) = drop (64 * (length msg div 64)) msg @ take n ptr"
    using rep n full r by (simp add: sha1_rep_def memcpy_at_def)
  have blen: "length (drop (64 * (length msg div 64)) msg @ take n ptr) = 64"
    using n full r by (simp add: minus_mult_div_eq_mod)
  have "hstate ctx2 = sha1_compress (hstate ctx) (drop (64 * (length msg div 64)) msg @ take n ptr)"
    using rep by (simp add: ctx2 ctx1 block process_a_block_hstate sha1_rep_def) (simp add: hstate_def)
  also have "\<dots> = sha1_blocks sha1_IV (msg @ take n ptr)"
    unfolding sha1_blocks_rem [of _ msg] using rep sha1_blocks_one [OF blen] by (simp add: sha1_rep_def)
  finally have h: "hstate ctx2 = sha1_blocks sha1_IV (msg @ take n ptr)" .
  have "length (sha_block ctx2) = 64" "length (ctx_words ctx2) = 80"
    "running_total ctx2 = word_of_nat (length msg)"
    using rep by (simp_all add: ctx2 ctx1 block blen sha1_rep_def del: length_append length_drop)
  moreover from this full
  have "running_total ctx2 + word_of_nat n = word_of_nat (length (msg @ take n ptr))" by simp
  moreover have m0: "length (msg @ take n ptr) mod 64 = 0" using mod full by simp
  moreover have "64 * (length (msg @ take n ptr) div 64) = length (msg @ take n ptr)"
    by (metis add_0_right m0 mult_div_mod_eq)
  then have "drop (64 * (length (msg @ take n ptr) div 64)) (msg @ take n ptr) = []"
    by (simp only: drop_all order_refl)
  ultimately show ?thesis
    using h by (simp add: sha1_rep_def hstate_def del: length_append drop_append)
qed

lemma sha1_rep_update: "sha1_rep ctx msg \<Longrightarrow> sha1_rep (sctp_sha1_update ctx ptr) (msg @ ptr)"
proof (induction ctx ptr arbitrary: msg rule: sctp_sha1_update.induct)
  case (1 ctx ptr)
  show ?case
  proof (cases "ptr = []")
    case True
    then show ?thesis using "1.prems" by (simp add: sctp_sha1_update.simps)
  next
    case False
    let ?r = "length msg mod 64"
    let ?n = "64 - ?r"
    have hm: "how_many_in_block ctx = word_of_nat ?r" using "1.prems" by (simp add: sha1_rep_def)
    have left: "unat (64 - how_many_in_block ctx) = ?n" "unat (how_many_in_block ctx) = ?r"
      unfolding hm by (simp_all add: left_to_fill_eq)
    show ?thesis
    proof (cases "length ptr < ?n")
      case True
      then show ?thesis
        using update_partial [OF "1.prems" True] False left
        by (simp add: sctp_sha1_update.simps [of ctx ptr] Let_def)
    next
      case nless: False
      define ctx1 where "ctx1 = ctx\<lparr>sha_block := memcpy_at (sha_block ctx) ?r (take ?n ptr)\<rparr>"
      define ctx2 where "ctx2 = sctp_sha1_process_a_block ctx1 (sha_block ctx1)"
      define ctx3 where "ctx3 = ctx2\<lparr>running_total := running_total ctx2 + (64 - how_many_in_block ctx),
        how_many_in_block := 0\<rparr>"
      have "word_of_nat ?n = (64 - how_many_in_block ctx)"
        by (simp flip: left(1))
      then have rep3: "sha1_rep ctx3 (msg @ take ?n ptr)"
        using update_full [OF "1.prems" refl _ ctx1_def ctx2_def] nless by (simp add: ctx3_def)
      have "sha1_rep (sctp_sha1_update ctx3 (drop ?n ptr)) ((msg @ take ?n ptr) @ drop ?n ptr)"
        using "1.IH" [OF False refl refl _ refl refl refl, of "msg @ take ?n ptr"] nless left rep3
        by (simp add: ctx1_def ctx2_def ctx3_def)
      then show ?thesis
        using False nless left
        by (simp add: sctp_sha1_update.simps [of ctx ptr] Let_def ctx1_def ctx2_def ctx3_def)
    qed
  qed
qed

end
