(* ===== verification/Hash_Interface.thy ===== *)
theory Hash_Interface
  imports Sctp_Prelude
begin

text \<open>
  The interface between the authentication code and a hash function: a context that is
  initialised, fed with bytes and finalised. \<open>rep c m\<close> says that the context \<open>c\<close> has taken the
  message \<open>m\<close>; \<open>ok c\<close> says that \<open>c\<close> may be initialised. What a client of the interface may rely
  on is proved here once; theory \<open>Sha1_Final\<close> shows that the SHA-1 code provides it.
\<close>

locale streaming_hash =
  fixes hinit :: "'c \<Rightarrow> 'c"
    and hupdate :: "'c \<Rightarrow> bytes \<Rightarrow> 'c"
    and hfinal :: "'c \<Rightarrow> bytes \<times> 'c"
    and ok :: "'c \<Rightarrow> bool"
    and rep :: "'c \<Rightarrow> bytes \<Rightarrow> bool"
    and hash :: "bytes \<Rightarrow> bytes"
    and digest_len :: nat
    and block_len :: nat
    and limit :: nat
  assumes init_rep: "ok c \<Longrightarrow> rep (hinit c) []"
    and update_rep: "rep c m \<Longrightarrow> rep (hupdate c p) (m @ p)"
    and final_hash: "rep c m \<Longrightarrow> length m < limit \<Longrightarrow> fst (hfinal c) = hash m"
    and final_ok: "rep c m \<Longrightarrow> ok (snd (hfinal c))"
    and hash_len: "length (hash m) = digest_len"
    and digest_le_block: "digest_len \<le> block_len"
    and block_lt_limit: "block_len + digest_len < limit"
begin

lemma fold_update_rep: "rep c m \<Longrightarrow> rep (foldl hupdate c ps) (m @ concat ps)"
proof (induction ps arbitrary: c m)
  case Nil
  then show ?case by simp
next
  case (Cons p ps)
  from Cons.IH [OF update_rep [OF Cons.prems]] show ?case by simp
qed

lemma digest_of_pieces:
  assumes "ok c" and "length (concat ps) < limit"
  shows "fst (hfinal (foldl hupdate (hinit c) ps)) = hash (concat ps)"
  using final_hash [OF fold_update_rep [OF init_rep [OF assms(1)]], of ps] assms(2) by simp

lemma run_ok:
  assumes "ok c"
  shows "ok (snd (hfinal (foldl hupdate (hinit c) ps)))"
  by (rule final_ok [OF fold_update_rep [OF init_rep [OF assms]]])

text \<open>How a message is cut into pieces does not matter.\<close>

lemma digest_cut:
  assumes "ok c" and "ok c'" and "concat ps = concat qs" and "length (concat ps) < limit"
  shows "fst (hfinal (foldl hupdate (hinit c) ps)) = fst (hfinal (foldl hupdate (hinit c') qs))"
  using assms by (simp add: digest_of_pieces)

text \<open>The keyed hash of RFC 2104 over this hash.\<close>

definition hmac_spec :: "bytes \<Rightarrow> bytes \<Rightarrow> bytes" where
  "hmac_spec key text =
     (let key0 = (if length key > block_len then hash key else key);
          key1 = key0 @ replicate (block_len - length key0) 0
      in hash (map (\<lambda>b. b XOR 0x5c) key1 @ hash (map (\<lambda>b. b XOR 0x36) key1 @ text)))"

text \<open>The inner and outer runs the code makes, with the text given in pieces.\<close>

lemma hmac_runs:
  assumes "ok c1" and "ok c2" and "length pad = block_len"
    and "length pad + length (concat ps) < limit"
    and "inner = fst (hfinal (foldl hupdate (hinit c1) (map (\<lambda>b. b XOR 0x36) pad # ps)))"
  shows "fst (hfinal (foldl hupdate (hinit c2) [map (\<lambda>b. b XOR 0x5c) pad, inner])) =
    hash (map (\<lambda>b. b XOR 0x5c) pad @ hash (map (\<lambda>b. b XOR 0x36) pad @ concat ps))"
proof -
  have inner: "inner = hash (map (\<lambda>b. b XOR 0x36) pad @ concat ps)"
    using digest_of_pieces [OF assms(1), of "map (\<lambda>b. b XOR 0x36) pad # ps"] assms(4,5)
    by (simp del: foldl_Cons)
  then have "length inner = digest_len" by (simp add: hash_len)
  then show ?thesis
    using digest_of_pieces [OF assms(2), of "[map (\<lambda>b. b XOR 0x5c) pad, inner]"]
      assms(3) block_lt_limit inner
    by (simp del: foldl_Cons)
qed

end

end
