(* ===== verification/Sha1_Final.thy ===== *)
theory Sha1_Final
  imports Sha1_Correct Hash_Interface
begin

text \<open>
  The last blocks of the SHA-1 code (\<^verbatim>\<open>sctp_sha1_final\<close>), and the properties of the whole
  hash: digest of a message given in any pieces, and the streaming interface the HMAC uses.
\<close>

section \<open>The final blocks\<close>

lemma sha1_pad_from_eq:
  assumes "length block = 64" and "n \<le> 64"
  shows "sha1_pad_from n block = take n block @ replicate (64 - n) 0"
proof -
  have "n \<le> m \<Longrightarrow> m \<le> 64 \<Longrightarrow>
      fold (\<lambda>i b. b[i := 0]) [n..<m] block = take n block @ replicate (m - n) 0 @ drop m block" for m
  proof (induction m rule: dec_induct)
    case (step m)
    then have "fold (\<lambda>i b. b[i := 0]) [n..<m] block = take n block @ replicate (m - n) 0 @ drop m block"
      by simp
    moreover have "drop m block = block ! m # drop (Suc m) block"
      using step assms by (simp add: Cons_nth_drop_Suc)
    moreover have "Suc m - n = Suc (m - n)" using step by simp
    ultimately show ?case
      using step assms by (simp add: list_update_append replicate_append_same)
  qed simp
  from this [of 64] show ?thesis using assms by (simp add: sha1_pad_from_def del: upt_rec_numeral)
qed

definition sha1_final_tail :: "nat \<Rightarrow> u32 \<Rightarrow> bytes \<Rightarrow> bytes" where
  "sha1_final_tail r lo rm = rm @ 0x80 # replicate ((119 - r) mod 64) 0 @ bytes_of_be32 0 @ bytes_of_be32 lo"

lemma bytes_of_be32_0: "bytes_of_be32 0 = replicate 4 0"
  by (simp add: bytes_of_be32_def numeral_eq_Suc)

lemma block_with_pad:
  assumes "length block = 64" and "r < 64"
  shows "sha1_pad_from (r + 1) (block[r := 0x80]) = take r block @ 0x80 # replicate (63 - r) 0"
  using assms by (simp add: sha1_pad_from_eq take_Suc_conv_app_nth)

lemma put_length_block:
  assumes "length z = 60"
  shows "memcpy_at (z @ w) 60 (bytes_of_be32 t) = z @ bytes_of_be32 t @ drop 4 w"
  using assms by (simp add: memcpy_at_def)

lemma final_state:
  assumes "length (ctx_words ctx) = 80" and "length z = 60"
    and "sha_block ctx = z @ replicate 4 0"
  shows "hstate (sctp_sha1_process_a_block (sha1_put_length ctx) (sha_block (sha1_put_length ctx))) =
    sha1_compress (hstate ctx) (z @ bytes_of_be32 (running_total ctx * 8))"
proof -
  have "sha_block (sha1_put_length ctx) = z @ bytes_of_be32 (running_total ctx * 8)"
    using assms by (simp add: sha1_put_length_def Let_def put_length_block)
  moreover have "hstate (sha1_put_length ctx) = hstate ctx"
    "ctx_words (sha1_put_length ctx) = ctx_words ctx"
    by (simp_all add: sha1_put_length_def Let_def hstate_def)
  ultimately show ?thesis using assms(1) by (simp add: process_a_block_hstate)
qed

lemma sha1_digest_hstate: "sha1_digest ctx = sha1_state_bytes (hstate ctx)"
  by (simp add: sha1_digest_def sha1_state_bytes_def hstate_def)

lemma final_short:
  assumes hm: "unat (how_many_in_block ctx) = r" "r \<le> 55" and rm: "take r (sha_block ctx) = rm"
    and len: "length (sha_block ctx) = 64" "length (ctx_words ctx) = 80"
  shows "fst (sctp_sha1_final ctx) = sha1_state_bytes (sha1_blocks (hstate ctx)
    (rm @ 0x80 # replicate ((119 - r) mod 64) 0 @ bytes_of_be32 0 @ bytes_of_be32 (running_total ctx * 8)))"
proof -
  let ?lo = "running_total ctx * 8"
  let ?z = "rm @ 0x80 # replicate (59 - r) 0"
  let ?ctx1 = "ctx\<lparr>sha_block := ?z @ replicate 4 0\<rparr>"
  have rml: "length rm = r" using rm len hm(2) by auto
  have z: "length ?z = 60" using hm(2) rml by simp
  have "sha1_pad_from (r + 1) ((sha_block ctx)[r := 0x80]) = rm @ 0x80 # replicate (63 - r) 0"
    using block_with_pad [OF len(1)] hm(2) rm by simp
  also have "replicate (63 - r) (0 :: u8) = replicate (59 - r) 0 @ replicate 4 0"
    using hm(2) by (simp flip: replicate_add)
  finally have blk: "sha1_pad_from (r + 1) ((sha_block ctx)[r := 0x80]) = ?z @ replicate 4 0" by simp
  have "119 - r = 64 + (55 - r)" using hm(2) by simp
  then have "(119 - r) mod 64 = (55 - r) mod 64" by (simp only: mod_add_self1)
  then have "(119 - r) mod 64 = 55 - r" by simp
  then have "replicate ((119 - r) mod 64) (0 :: u8) @ bytes_of_be32 0 = replicate (59 - r) 0"
    using hm(2) by (simp add: bytes_of_be32_0 flip: replicate_add)
  then have tail: "rm @ 0x80 # replicate ((119 - r) mod 64) 0 @ bytes_of_be32 0 @ bytes_of_be32 ?lo =
      ?z @ bytes_of_be32 ?lo" by (metis append_Cons append_assoc)
  have "\<not> how_many_in_block ctx > 55" using hm by (simp add: word_less_nat_alt)
  then have "fst (sctp_sha1_final ctx) = sha1_state_bytes
      (hstate (sctp_sha1_process_a_block (sha1_put_length ?ctx1) (sha_block (sha1_put_length ?ctx1))))"
    using blk by (simp add: sctp_sha1_final_def Let_def sha1_digest_hstate hm(1))
  also have "\<dots> = sha1_state_bytes (sha1_compress (hstate ?ctx1) (?z @ bytes_of_be32 ?lo))"
    using final_state [of ?ctx1 ?z] len z by simp
  also have "hstate ?ctx1 = hstate ctx" by (simp add: hstate_def)
  finally show ?thesis using z by (simp only: tail) (simp add: sha1_blocks_one)
qed

lemma final_long:
  assumes hm: "unat (how_many_in_block ctx) = r" "55 < r" "r < 64" and rm: "take r (sha_block ctx) = rm"
    and len: "length (sha_block ctx) = 64" "length (ctx_words ctx) = 80"
  shows "fst (sctp_sha1_final ctx) = sha1_state_bytes (sha1_blocks (hstate ctx)
    (rm @ 0x80 # replicate ((119 - r) mod 64) 0 @ bytes_of_be32 0 @ bytes_of_be32 (running_total ctx * 8)))"
proof -
  let ?lo = "running_total ctx * 8"
  let ?b1 = "rm @ 0x80 # replicate (63 - r) 0"
  let ?ctx1 = "sctp_sha1_process_a_block (ctx\<lparr>sha_block := ?b1\<rparr>) ?b1"
  let ?ctx2 = "?ctx1\<lparr>sha_block := replicate 60 0 @ replicate 4 0\<rparr>"
  have rml: "length rm = r" using rm len hm(3) by auto
  have b1: "length ?b1 = 64 * 1" using hm(3) rml by simp
  have blk: "sha1_pad_from (r + 1) ((sha_block ctx)[r := 0x80]) = ?b1"
    using block_with_pad [OF len(1) hm(3)] rm by simp
  have blk63: "(sha_block ctx)[r := 0x80] = ?b1" if "r = 63"
    using blk that len(1) by (simp add: sha1_pad_from_def)
  have "replicate ((119 - r) mod 64) (0 :: u8) @ bytes_of_be32 0 = replicate (63 - r) 0 @ replicate 60 0"
    using hm by (simp add: bytes_of_be32_0 mod_if flip: replicate_add)
  then have tail: "rm @ 0x80 # replicate ((119 - r) mod 64) 0 @ bytes_of_be32 0 @ bytes_of_be32 ?lo =
      ?b1 @ (replicate 60 0 @ bytes_of_be32 ?lo)" by (metis append_Cons append_assoc)
  have left: "how_many_in_block ctx > 55" "64 - how_many_in_block ctx \<noteq> 0"
    "64 - how_many_in_block ctx = 1 \<longleftrightarrow> r = 63"
    using hm by (auto simp: word_less_nat_alt word_unat_eq_iff unat_sub word_le_nat_alt)
  have "replicate 64 (0 :: u8) = replicate 60 0 @ replicate 4 0" by (simp flip: replicate_add)
  then have "fst (sctp_sha1_final ctx) = sha1_state_bytes
      (hstate (sctp_sha1_process_a_block (sha1_put_length ?ctx2) (sha_block (sha1_put_length ?ctx2))))"
    using blk blk63 left by (simp add: sctp_sha1_final_def Let_def sha1_digest_hstate hm(1))
  also have "\<dots> = sha1_state_bytes (sha1_compress (hstate ?ctx2) (replicate 60 0 @ bytes_of_be32 ?lo))"
    using final_state [of ?ctx2 "replicate 60 0"] len by simp
  also have "hstate ?ctx2 = hstate ?ctx1" by (simp add: hstate_def)
  also have "hstate ?ctx1 = sha1_compress (hstate (ctx\<lparr>sha_block := ?b1\<rparr>)) ?b1"
    using len by (simp add: process_a_block_hstate)
  also have "hstate (ctx\<lparr>sha_block := ?b1\<rparr>) = hstate ctx" by (simp add: hstate_def)
  finally show ?thesis
    using b1 by (simp only: tail sha1_blocks_append [OF b1]) (simp add: sha1_blocks_one)
qed

lemma sha1_final_rep:
  assumes rep: "sha1_rep ctx msg"
  shows "fst (sctp_sha1_final ctx) =
    sha1_state_bytes (sha1_blocks sha1_IV (sha1_pad_with 0 (word_of_nat (8 * length msg)) msg))"
proof -
  let ?r = "length msg mod 64"
  have lo: "running_total ctx * 8 = word_of_nat (8 * length msg)"
    using rep by (simp add: sha1_rep_def mult.commute)
  have hm: "unat (how_many_in_block ctx) = ?r" "?r < 64"
    "take ?r (sha_block ctx) = drop (64 * (length msg div 64)) msg"
    "length (sha_block ctx) = 64" "length (ctx_words ctx) = 80"
    "hstate ctx = sha1_blocks sha1_IV msg"
    using rep by (simp_all add: sha1_rep_def)
  have "fst (sctp_sha1_final ctx) = sha1_state_bytes (sha1_blocks (hstate ctx)
      (drop (64 * (length msg div 64)) msg @ 0x80 # replicate ((119 - ?r) mod 64) 0 @
       bytes_of_be32 0 @ bytes_of_be32 (running_total ctx * 8)))"
    using final_short [OF hm(1) _ hm(3-5)] final_long [OF hm(1) _ hm(2-5)] by linarith
  then show ?thesis
    unfolding sha1_pad_with_def hm(6) lo by (simp only: sha1_blocks_rem [of _ msg])
qed


section \<open>The interface\<close>

lemma sha1_pad_short:
  assumes "length msg < 2 ^ 29"
  shows "sha1_pad msg = sha1_pad_with 0 (word_of_nat (8 * length msg)) msg"
proof -
  have "8 * length msg < 2 ^ 32" using assms by simp
  then have "8 * length msg div 2 ^ 32 = 0" by (rule div_less)
  then show ?thesis by (simp add: sha1_pad_def)
qed

lemma length_sha1_pad_from [simp]: "length (sha1_pad_from n block) = length block"
  unfolding sha1_pad_from_def by (simp only: length_fold_update)

lemma sha1_final_buffer:
  assumes "sha1_rep ctx msg"
  shows "length (sha_block (snd (sctp_sha1_final ctx))) = 64"
  using assms
  by (simp add: sctp_sha1_final_def Let_def sha1_put_length_def sha1_rep_def)

interpretation sha1h: streaming_hash sctp_sha1_init sctp_sha1_update sctp_sha1_final
  "\<lambda>ctx. length (sha_block ctx) = 64" sha1_rep sha1 20 64 "2 ^ 29"
proof
  show "fst (sctp_sha1_final c) = sha1 m" if "sha1_rep c m" "length m < 2 ^ 29" for c m
    using that by (simp add: sha1_final_rep sha1_def sha1_pad_short)
qed (simp_all add: sha1_rep_init sha1_rep_update sha1_final_buffer)

section \<open>Properties\<close>

text \<open>
  C19: for every message of less than \<open>2 ^ 29\<close> bytes and every way of handing it over in pieces,
  initialising a context, updating it with the pieces in turn and finalising it gives the SHA-1
  of FIPS 180-4 of the message.
\<close>

theorem sctp_sha1_correct:
  assumes "length (sha_block ctx) = 64" and "length (concat pieces) < 2 ^ 29"
  shows "fst (sctp_sha1_final (foldl sctp_sha1_update (sctp_sha1_init ctx) pieces)) =
    sha1 (concat pieces)"
  using assms by (rule sha1h.digest_of_pieces)

definition blank_sha1_context :: sctp_sha1_context where
  "blank_sha1_context = \<lparr>ctx_A = 0, ctx_B = 0, ctx_C = 0, ctx_D = 0, ctx_E = 0,
     ctx_H0 = 0, ctx_H1 = 0, ctx_H2 = 0, ctx_H3 = 0, ctx_H4 = 0,
     ctx_words = [], ctx_TEMP = 0, sha_block = replicate 64 0,
     how_many_in_block = 0, running_total = 0\<rparr>"

theorem sctp_sha1_correct_witness:
  "length (sha_block blank_sha1_context) = 64 \<and> length (concat [[1, 2], [], [3 :: u8]]) < 2 ^ 29 \<and>
   fst (sctp_sha1_final (foldl sctp_sha1_update (sctp_sha1_init blank_sha1_context) [[1, 2], [], [3]])) =
     sha1 [1, 2, 3]"
proof -
  have h: "length (sha_block blank_sha1_context) = 64" by (simp add: blank_sha1_context_def)
  show ?thesis using sctp_sha1_correct [OF h, of "[[1, 2], [], [3]]"] h by simp
qed

text \<open>
  the code keeps the length in 32 bits. For a message of \<open>2 ^ 29\<close> bytes or more (up to the
  limit of the standard) the padded message it hashes has a zero upper half of the length field,
  and so is not the padded message of the standard.
\<close>

theorem sctp_sha1_long_message:
  assumes "length (sha_block ctx) = 64" and "2 ^ 29 \<le> length msg" and "length msg < 2 ^ 61"
  shows "fst (sctp_sha1_final (sctp_sha1_update (sctp_sha1_init ctx) msg)) =
      sha1_state_bytes (sha1_blocks sha1_IV (sha1_pad_with 0 (word_of_nat (8 * length msg)) msg)) \<and>
    sha1_pad_with 0 (word_of_nat (8 * length msg)) msg \<noteq> sha1_pad msg"
proof
  show "fst (sctp_sha1_final (sctp_sha1_update (sctp_sha1_init ctx) msg)) =
      sha1_state_bytes (sha1_blocks sha1_IV (sha1_pad_with 0 (word_of_nat (8 * length msg)) msg))"
    using sha1_rep_update [OF sha1_rep_init [OF assms(1)], of msg] by (simp add: sha1_final_rep)
  let ?hi = "8 * length msg div 2 ^ 32"
  have "0 < ?hi" using assms(2) by (simp add: div_greater_zero_iff)
  moreover have "?hi < 2 ^ 32" using assms(3) by (simp add: less_mult_imp_div_less)
  ultimately have "(word_of_nat ?hi :: u32) \<noteq> 0"
    by (simp add: word_unat_eq_iff unat_of_nat take_bit_nat_eq_self)
  then have "bytes_of_be32 (word_of_nat ?hi) \<noteq> bytes_of_be32 0"
    using bytes_of_be32_inject by blast
  then show "sha1_pad_with 0 (word_of_nat (8 * length msg)) msg \<noteq> sha1_pad msg"
    by (simp add: sha1_pad_with_def sha1_pad_def)
qed

theorem sctp_sha1_long_message_witness:
  "sha1_pad_with 0 (word_of_nat (8 * length (replicate (2 ^ 29) (0 :: u8)))) (replicate (2 ^ 29) 0)
     \<noteq> sha1_pad (replicate (2 ^ 29) 0)"
proof -
  have h: "length (sha_block blank_sha1_context) = 64" by (simp add: blank_sha1_context_def)
  show ?thesis using sctp_sha1_long_message [OF h, of "replicate (2 ^ 29) 0"] by simp
qed

end
