(* ===== verification/Tailq.thy ===== *)
theory Tailq
  imports Sctp_Prelude
begin

text \<open>
  The tail queues of user_queue.h, at the level of their pointers: a head with
  \<^verbatim>\<open>tqh_first\<close> and \<^verbatim>\<open>tqh_last\<close>, and in every element the links \<^verbatim>\<open>tqe_next\<close> and
  \<^verbatim>\<open>tqe_prev\<close>, the second being the address of the pointer that points to the element.
  Each macro is one definition; \<open>tq_rep q xs\<close> says that the pointers of \<open>q\<close> represent the list
  \<open>xs\<close>. The locale \<open>tail_queue\<close> is the contract the timer queue and the stream schedulers rely
  on, interpreted on the macros at the end.
\<close>

section \<open>Heads, links and the macros\<close>

text \<open>The address of a link: the head's first pointer or the next pointer of an element.\<close>

datatype 'a slot = HeadFirst | NextOf 'a

text \<open>
  One head together with the links of all elements. \<open>tqe_prev q e = None\<close> is the NULL a cleared
  or never linked element has.
\<close>

record 'a tailq =
  tqh_first :: "'a option"
  tqh_last :: "'a slot"
  tqe_next :: "'a \<Rightarrow> 'a option"
  tqe_prev :: "'a \<Rightarrow> 'a slot option"

fun load_slot :: "'a tailq \<Rightarrow> 'a slot \<Rightarrow> 'a option" where
  "load_slot q HeadFirst = tqh_first q"
| "load_slot q (NextOf e) = tqe_next q e"

fun store_slot :: "'a slot \<Rightarrow> 'a option \<Rightarrow> 'a tailq \<Rightarrow> 'a tailq" where
  "store_slot HeadFirst v q = q\<lparr>tqh_first := v\<rparr>"
| "store_slot (NextOf e) v q = q\<lparr>tqe_next := (tqe_next q)(e := v)\<rparr>"

declare store_slot.simps [simp del]

definition set_prev :: "'a \<Rightarrow> 'a slot option \<Rightarrow> 'a tailq \<Rightarrow> 'a tailq" where
  "set_prev e s q = q\<lparr>tqe_prev := (tqe_prev q)(e := s)\<rparr>"

definition TAILQ_INIT :: "'a tailq \<Rightarrow> 'a tailq" where
  "TAILQ_INIT q = q\<lparr>tqh_first := None, tqh_last := HeadFirst\<rparr>"

definition TAILQ_EMPTY :: "'a tailq \<Rightarrow> bool" where
  "TAILQ_EMPTY q \<longleftrightarrow> tqh_first q = None"

definition TAILQ_FIRST :: "'a tailq \<Rightarrow> 'a option" where
  "TAILQ_FIRST q = tqh_first q"

definition TAILQ_NEXT :: "'a tailq \<Rightarrow> 'a \<Rightarrow> 'a option" where
  "TAILQ_NEXT q e = tqe_next q e"

text \<open>
  \<^verbatim>\<open>TAILQ_LAST\<close> and \<^verbatim>\<open>TAILQ_PREV\<close> read the second word behind an address of a link, whether it
  is the head or an entry, and load through it. The outer \<open>None\<close> is a load through NULL.
\<close>

fun second_word :: "'a tailq \<Rightarrow> 'a slot \<Rightarrow> 'a slot option" where
  "second_word q HeadFirst = Some (tqh_last q)"
| "second_word q (NextOf e) = tqe_prev q e"

definition TAILQ_LAST :: "'a tailq \<Rightarrow> 'a option option" where
  "TAILQ_LAST q = map_option (load_slot q) (second_word q (tqh_last q))"

definition TAILQ_PREV :: "'a tailq \<Rightarrow> 'a \<Rightarrow> 'a option option" where
  "TAILQ_PREV q e =
     (case tqe_prev q e of None \<Rightarrow> None
      | Some s \<Rightarrow> map_option (load_slot q) (second_word q s))"

definition TAILQ_INSERT_HEAD :: "'a \<Rightarrow> 'a tailq \<Rightarrow> 'a tailq" where
  "TAILQ_INSERT_HEAD e q =
     (let q = store_slot (NextOf e) (tqh_first q) q;
          q = (case tqh_first q of
                 Some f \<Rightarrow> set_prev f (Some (NextOf e)) q
               | None \<Rightarrow> q\<lparr>tqh_last := NextOf e\<rparr>);
          q = q\<lparr>tqh_first := Some e\<rparr>
      in set_prev e (Some HeadFirst) q)"

definition TAILQ_INSERT_TAIL :: "'a \<Rightarrow> 'a tailq \<Rightarrow> 'a tailq" where
  "TAILQ_INSERT_TAIL e q =
     (let q = store_slot (NextOf e) None q;
          q = set_prev e (Some (tqh_last q)) q;
          q = store_slot (tqh_last q) (Some e) q
      in q\<lparr>tqh_last := NextOf e\<rparr>)"

definition TAILQ_INSERT_AFTER :: "'a \<Rightarrow> 'a \<Rightarrow> 'a tailq \<Rightarrow> 'a tailq" where
  "TAILQ_INSERT_AFTER listelm e q =
     (let q = store_slot (NextOf e) (tqe_next q listelm) q;
          q = (case tqe_next q e of
                 Some f \<Rightarrow> set_prev f (Some (NextOf e)) q
               | None \<Rightarrow> q\<lparr>tqh_last := NextOf e\<rparr>);
          q = store_slot (NextOf listelm) (Some e) q
      in set_prev e (Some (NextOf listelm)) q)"

text \<open>Insertion before an element and removal store through its \<^verbatim>\<open>tqe_prev\<close>; \<open>None\<close> is the
  dereference of NULL.\<close>

definition TAILQ_INSERT_BEFORE :: "'a \<Rightarrow> 'a \<Rightarrow> 'a tailq \<Rightarrow> 'a tailq option" where
  "TAILQ_INSERT_BEFORE listelm e q =
     (let q = set_prev e (tqe_prev q listelm) q;
          q = store_slot (NextOf e) (Some listelm) q
      in case tqe_prev q listelm of
           None \<Rightarrow> None
         | Some s \<Rightarrow> Some (set_prev listelm (Some (NextOf e)) (store_slot s (Some e) q)))"

definition TAILQ_REMOVE :: "'a \<Rightarrow> 'a tailq \<Rightarrow> 'a tailq option" where
  "TAILQ_REMOVE e q =
     (case tqe_prev q e of
        None \<Rightarrow> None
      | Some s \<Rightarrow>
          let q = (case tqe_next q e of
                     Some f \<Rightarrow> set_prev f (Some s) q
                   | None \<Rightarrow> q\<lparr>tqh_last := s\<rparr>)
          in Some (store_slot s (tqe_next q e) q))"

text \<open>
  The loop \<^verbatim>\<open>while (c != NULL && P (c)) c = NEXT (c)\<close>, from which the callers find the place of
  a sorted insertion.
\<close>

partial_function (option) tq_skip :: "('a \<Rightarrow> 'a option) \<Rightarrow> ('a \<Rightarrow> bool) \<Rightarrow> 'a option \<Rightarrow> 'a option option" where
  [code]: "tq_skip nxt P c =
     (case c of
        None \<Rightarrow> Some None
      | Some e \<Rightarrow> if P e then tq_skip nxt P (nxt e) else Some (Some e))"

section \<open>Representation\<close>

text \<open>The slot behind the elements \<open>xs\<close> when the slot in front of them is \<open>s\<close>.\<close>

definition end_slot :: "'a slot \<Rightarrow> 'a list \<Rightarrow> 'a slot" where
  "end_slot s xs = (if xs = [] then s else NextOf (last xs))"

fun tq_part :: "'a tailq \<Rightarrow> 'a slot \<Rightarrow> 'a list \<Rightarrow> bool" where
  "tq_part q s [] \<longleftrightarrow> True"
| "tq_part q s (x # xs) \<longleftrightarrow>
     load_slot q s = Some x \<and> tqe_prev q x = Some s \<and> tq_part q (NextOf x) xs"

definition tq_rep :: "'a tailq \<Rightarrow> 'a list \<Rightarrow> bool" where
  "tq_rep q xs \<longleftrightarrow>
     distinct xs \<and> tq_part q HeadFirst xs \<and> load_slot q (end_slot HeadFirst xs) = None \<and>
     tqh_last q = end_slot HeadFirst xs"

text \<open>The two links of an element.\<close>

definition tq_links :: "'a tailq \<Rightarrow> 'a \<Rightarrow> 'a option \<times> 'a slot option" where
  "tq_links q x = (tqe_next q x, tqe_prev q x)"

lemma end_slot_simps [simp]:
  "end_slot s [] = s" "end_slot s (x # xs) = end_slot (NextOf x) xs"
  "end_slot s (xs @ ys) = end_slot (end_slot s xs) ys"
  by (auto simp: end_slot_def)

lemma end_slot_cases: "end_slot HeadFirst xs = HeadFirst \<or> (\<exists>x\<in>set xs. end_slot HeadFirst xs = NextOf x)"
  by (auto simp: end_slot_def)

lemma end_slot_NextOf: "end_slot (NextOf x) xs = NextOf y \<Longrightarrow> y = x \<or> y \<in> set xs"
  by (auto simp: end_slot_def split: if_splits)

lemma tq_part_append [simp]:
  "tq_part q s (xs @ ys) \<longleftrightarrow> tq_part q s xs \<and> tq_part q (end_slot s xs) ys"
  by (induction xs arbitrary: s) auto

text \<open>A segment only depends on the slot in front, the next links inside and the back links.\<close>

lemma tq_part_frame:
  assumes "tq_part q s xs" "\<And>x. x \<in> set xs \<Longrightarrow> tqe_prev q' x = tqe_prev q x"
    "\<And>x. x \<in> set (butlast xs) \<Longrightarrow> tqe_next q' x = tqe_next q x"
    "xs \<noteq> [] \<Longrightarrow> load_slot q' s = load_slot q s"
  shows "tq_part q' s xs"
  using assms
proof (induction xs arbitrary: s)
  case (Cons x xs)
  then show ?case by (cases xs) auto
qed simp

lemma load_store_slot [simp]: "load_slot (store_slot s v q) t = (if s = t then v else load_slot q t)"
  by (cases s; cases t) (auto simp: store_slot.simps)

lemma store_slot_fields [simp]:
  "tqe_prev (store_slot s v q) = tqe_prev q" "tqh_last (store_slot s v q) = tqh_last q"
  "tqe_next (store_slot s v q) x = (if s = NextOf x then v else tqe_next q x)"
  "tqh_first (store_slot s v q) = (if s = HeadFirst then v else tqh_first q)"
  by (cases s; simp add: store_slot.simps)+

lemma set_prev_fields [simp]:
  "tqe_next (set_prev e s q) = tqe_next q" "tqh_last (set_prev e s q) = tqh_last q"
  "tqh_first (set_prev e s q) = tqh_first q" "load_slot (set_prev e s q) t = load_slot q t"
  "tqe_prev (set_prev e s q) x = (if x = e then s else tqe_prev q x)"
  by (cases t; simp add: set_prev_def)+

lemma load_slot_update_last [simp]: "load_slot (q\<lparr>tqh_last := l\<rparr>) t = load_slot q t"
  by (cases t) auto

lemma butlast_subset: "x \<in> set (butlast xs) \<Longrightarrow> x \<in> set xs"
  by (rule in_set_butlastD)

text \<open>Unfolding the representation around one element.\<close>

lemma tq_rep_split:
  "tq_rep q (as @ x # bs) \<longleftrightarrow>
     distinct (as @ x # bs) \<and> tq_part q HeadFirst as \<and>
     load_slot q (end_slot HeadFirst as) = Some x \<and> tqe_prev q x = Some (end_slot HeadFirst as) \<and>
     tq_part q (NextOf x) bs \<and> load_slot q (end_slot (NextOf x) bs) = None \<and>
     tqh_last q = end_slot (NextOf x) bs"
  by (auto simp: tq_rep_def)

lemma tq_rep_distinct: "tq_rep q xs \<Longrightarrow> distinct xs"
  by (simp add: tq_rep_def)

lemma tq_rep_init [simp]: "tq_rep (TAILQ_INIT q) []"
  by (simp add: tq_rep_def TAILQ_INIT_def)

lemma tq_rep_first: "tq_rep q xs \<Longrightarrow> TAILQ_FIRST q = (if xs = [] then None else Some (hd xs))"
  by (cases xs) (auto simp: tq_rep_def TAILQ_FIRST_def)

lemma tq_rep_empty: "tq_rep q xs \<Longrightarrow> TAILQ_EMPTY q \<longleftrightarrow> xs = []"
  using tq_rep_first [of q xs] by (auto simp: TAILQ_FIRST_def TAILQ_EMPTY_def)

lemma tq_rep_next:
  "tq_rep q (as @ x # bs) \<Longrightarrow> TAILQ_NEXT q x = (if bs = [] then None else Some (hd bs))"
  by (cases bs) (auto simp: tq_rep_split TAILQ_NEXT_def)

lemma tq_rep_linked: "tq_rep q xs \<Longrightarrow> x \<in> set xs \<Longrightarrow> tqe_prev q x \<noteq> None"
  by (auto simp: tq_rep_split dest!: split_list)

lemma tq_rep_last:
  assumes "tq_rep q xs"
  shows "TAILQ_LAST q = Some (if xs = [] then None else Some (last xs))"
proof (cases xs rule: rev_cases)
  case Nil
  with assms show ?thesis by (simp add: tq_rep_def TAILQ_LAST_def)
next
  case (snoc ys y)
  with assms have "tq_rep q (ys @ y # [])" by simp
  with snoc show ?thesis by (simp add: tq_rep_split TAILQ_LAST_def)
qed

lemma tq_rep_prev:
  assumes "tq_rep q (as @ x # bs)"
  shows "TAILQ_PREV q x = Some (if as = [] then None else Some (last as))"
proof (cases as rule: rev_cases)
  case Nil
  then have "tqe_prev q x = Some HeadFirst" "load_slot q (tqh_last q) = None"
    using assms by (auto simp: tq_rep_def)
  with Nil show ?thesis by (simp add: TAILQ_PREV_def)
next
  case (snoc cs c)
  with assms have "tqe_prev q x = Some (NextOf c)" "tq_rep q (cs @ c # (x # bs))"
    by (auto simp: tq_rep_split)
  with snoc show ?thesis by (auto simp: TAILQ_PREV_def tq_rep_split)
qed

section \<open>Insertion and removal\<close>

lemma tq_rep_insert_tail:
  assumes "tq_rep q xs" "x \<notin> set xs"
  shows "tq_rep (TAILQ_INSERT_TAIL x q) (xs @ [x])"
proof -
  let ?s = "end_slot HeadFirst xs" and ?q = "TAILQ_INSERT_TAIL x q"
  have s: "?s \<noteq> NextOf x" using assms(2) end_slot_cases [of xs] by auto
  have "tq_part ?q HeadFirst xs"
  proof (rule tq_part_frame [of q])
    show "tqe_next ?q y = tqe_next q y" if "y \<in> set (butlast xs)" for y
    proof -
      have "?s \<noteq> NextOf y" using that assms(1)
        by (cases xs rule: rev_cases) (auto simp: tq_rep_def)
      then show ?thesis using that assms by (auto simp: TAILQ_INSERT_TAIL_def Let_def tq_rep_def dest: butlast_subset)
    qed
  qed (use assms s in \<open>auto simp: TAILQ_INSERT_TAIL_def Let_def tq_rep_def end_slot_def\<close>)
  with assms s show ?thesis
    by (simp add: tq_rep_split) (auto simp: tq_rep_def TAILQ_INSERT_TAIL_def Let_def)
qed

lemma tq_rep_insert_head:
  assumes "tq_rep q xs" "x \<notin> set xs"
  shows "tq_rep (TAILQ_INSERT_HEAD x q) (x # xs)"
proof (cases xs)
  case Nil
  with assms show ?thesis by (simp add: tq_rep_def TAILQ_INSERT_HEAD_def Let_def)
next
  case (Cons y ys)
  let ?q = "TAILQ_INSERT_HEAD x q"
  have "tq_part ?q (NextOf y) ys"
    by (rule tq_part_frame [of q])
      (use assms Cons in \<open>auto simp: tq_rep_def TAILQ_INSERT_HEAD_def Let_def dest: butlast_subset\<close>)
  moreover have "end_slot (NextOf y) ys \<noteq> NextOf x" "end_slot (NextOf y) ys \<noteq> HeadFirst"
    using assms Cons end_slot_NextOf [of y ys x] by (auto simp: end_slot_def)
  ultimately show ?thesis
    using assms Cons
    by (cases "end_slot (NextOf y) ys") (auto simp: tq_rep_def TAILQ_INSERT_HEAD_def Let_def)
qed

lemma tq_rep_insert_before:
  assumes "tq_rep q (as @ y # bs)" "x \<notin> set (as @ y # bs)"
  shows "\<exists>q'. TAILQ_INSERT_BEFORE y x q = Some q' \<and> tq_rep q' (as @ x # y # bs)"
proof -
  let ?s = "end_slot HeadFirst as"
  have prev: "tqe_prev q y = Some ?s" and d: "distinct (as @ y # bs)" using assms(1) by (simp_all add: tq_rep_split)
  have s: "?s \<noteq> NextOf x" "?s \<noteq> NextOf y" "\<And>b. b \<in> set bs \<Longrightarrow> ?s \<noteq> NextOf b"
    using assms(2) d end_slot_cases [of as] by auto
  define q' where "q' = set_prev y (Some (NextOf x)) (store_slot ?s (Some x)
    (store_slot (NextOf x) (Some y) (set_prev x (Some ?s) q)))"
  have eq: "TAILQ_INSERT_BEFORE y x q = Some q'"
    using prev assms(2) by (auto simp: TAILQ_INSERT_BEFORE_def q'_def Let_def)
  have "tq_part q' HeadFirst as"
  proof (rule tq_part_frame [of q])
    show "tqe_next q' z = tqe_next q z" if "z \<in> set (butlast as)" for z
      using that assms(2) d
      by (cases as rule: rev_cases) (auto simp: q'_def)
  qed (use assms d s in \<open>auto simp: tq_rep_split q'_def end_slot_def\<close>)
  moreover have "tq_part q' (NextOf y) bs"
    by (rule tq_part_frame [of q])
      (use assms s in \<open>auto simp: tq_rep_split q'_def dest: butlast_subset\<close>)
  moreover have "load_slot q' (end_slot (NextOf y) bs) = None"
  proof -
    have "\<exists>z. end_slot (NextOf y) bs = NextOf z \<and> (z = y \<or> z \<in> set bs)" by (auto simp: end_slot_def)
    then show ?thesis using assms s by (auto simp: tq_rep_split q'_def)
  qed
  ultimately show ?thesis
    using assms s eq by (auto simp: tq_rep_split q'_def)
qed

lemma tq_rep_insert_after:
  assumes "tq_rep q (as @ y # bs)" "x \<notin> set (as @ y # bs)"
  shows "tq_rep (TAILQ_INSERT_AFTER y x q) (as @ y # x # bs)"
proof -
  let ?q = "TAILQ_INSERT_AFTER y x q" and ?s = "end_slot HeadFirst as"
  have d: "distinct (as @ y # bs)" using assms(1) by (simp add: tq_rep_split)
  have n: "tqe_next q y = (if bs = [] then None else Some (hd bs))"
    using tq_rep_next [OF assms(1)] by (simp add: TAILQ_NEXT_def)
  have s: "?s \<noteq> NextOf x" "?s \<noteq> NextOf y" using assms(2) d end_slot_cases [of as] by auto
  have "tq_part ?q HeadFirst as"
    by (rule tq_part_frame [of q])
      (use assms d n in \<open>auto simp: tq_rep_split TAILQ_INSERT_AFTER_def Let_def hd_append
        dest!: butlast_subset split: if_splits\<close>)
  moreover have "load_slot ?q ?s = Some y"
    using assms(1) s by (auto simp: tq_rep_split TAILQ_INSERT_AFTER_def Let_def split: option.split)
  moreover have "tq_part ?q (NextOf x) bs" "load_slot ?q (end_slot (NextOf x) bs) = None"
    "tqh_last ?q = end_slot (NextOf x) bs" "tqe_prev ?q y = Some ?s"
  proof -
    show "tq_part ?q (NextOf x) bs"
    proof (cases bs)
      case (Cons b cs)
      have "tq_part ?q (NextOf b) cs"
        by (rule tq_part_frame [of q])
          (use assms n d Cons in \<open>auto simp: tq_rep_split TAILQ_INSERT_AFTER_def Let_def
            dest: butlast_subset\<close>)
      with assms n d Cons show ?thesis by (auto simp: tq_rep_split TAILQ_INSERT_AFTER_def Let_def)
    qed simp
    show "load_slot ?q (end_slot (NextOf x) bs) = None"
      using assms n d by (cases bs)
        (auto simp: tq_rep_split TAILQ_INSERT_AFTER_def Let_def end_slot_def)
    show "tqh_last ?q = end_slot (NextOf x) bs"
      using assms n by (cases bs) (auto simp: tq_rep_split TAILQ_INSERT_AFTER_def Let_def)
    show "tqe_prev ?q y = Some ?s"
      using assms n d by (cases bs) (auto simp: tq_rep_split TAILQ_INSERT_AFTER_def Let_def)
  qed
  ultimately show ?thesis
    using assms by (auto simp: tq_rep_split TAILQ_INSERT_AFTER_def Let_def)
qed

lemma tq_rep_remove:
  assumes "tq_rep q (as @ x # bs)"
  shows "\<exists>q'. TAILQ_REMOVE x q = Some q' \<and> tq_rep q' (as @ bs)"
proof -
  let ?s = "end_slot HeadFirst as"
  have prev: "tqe_prev q x = Some ?s" and d: "distinct (as @ x # bs)" using assms(1) by (simp_all add: tq_rep_split)
  have n: "tqe_next q x = (if bs = [] then None else Some (hd bs))"
    using tq_rep_next [OF assms] by (simp add: TAILQ_NEXT_def)
  define q' where "q' = store_slot ?s (tqe_next q x)
    (case tqe_next q x of Some f \<Rightarrow> set_prev f (Some ?s) q | None \<Rightarrow> q\<lparr>tqh_last := ?s\<rparr>)"
  have eq: "TAILQ_REMOVE x q = Some q'"
    using prev by (simp add: TAILQ_REMOVE_def q'_def Let_def split: option.split)
  have s: "?s \<noteq> NextOf x" "\<And>b. b \<in> set bs \<Longrightarrow> ?s \<noteq> NextOf b"
    using d end_slot_cases [of as] by auto
  have part: "tq_part q' HeadFirst as"
  proof (rule tq_part_frame [of q])
    show "tqe_next q' z = tqe_next q z" if "z \<in> set (butlast as)" for z
      using that d n by (cases as rule: rev_cases) (auto simp: q'_def)
  qed (use assms d s n in \<open>auto simp: tq_rep_split q'_def end_slot_def\<close>)
  show ?thesis
  proof (cases bs)
    case Nil
    with part n eq d show ?thesis by (auto simp: tq_rep_def q'_def)
  next
    case (Cons b cs)
    have "tq_part q' (NextOf b) cs"
      by (rule tq_part_frame [of q])
      (use assms s d n Cons in \<open>auto simp: tq_rep_split q'_def dest: butlast_subset\<close>)
    moreover have "load_slot q' (end_slot (NextOf b) cs) = None"
    proof -
      have "\<exists>z. end_slot (NextOf b) cs = NextOf z \<and> z \<in> set bs" using Cons by (auto simp: end_slot_def)
      then show ?thesis using assms s n Cons by (auto simp: tq_rep_split q'_def)
    qed
    ultimately show ?thesis
      using assms part eq d n Cons by (auto simp: tq_rep_split q'_def)
  qed
qed

text \<open>No operation touches the links of an element that is neither on the queue nor its argument.\<close>

lemma tq_links_insert_tail:
  assumes "tq_rep q xs" "z \<notin> set xs" "z \<noteq> x"
  shows "tq_links (TAILQ_INSERT_TAIL x q) z = tq_links q z"
proof -
  have "tqh_last q \<noteq> NextOf z" using assms(1,2) end_slot_cases [of xs] by (auto simp: tq_rep_def)
  then show ?thesis using assms(3) by (auto simp: tq_links_def TAILQ_INSERT_TAIL_def Let_def)
qed

lemma tq_links_insert_head:
  assumes "tq_rep q xs" "z \<notin> set xs" "z \<noteq> x"
  shows "tq_links (TAILQ_INSERT_HEAD x q) z = tq_links q z"
  using assms by (cases xs) (auto simp: tq_rep_def tq_links_def TAILQ_INSERT_HEAD_def Let_def)

lemma tq_links_insert_before:
  assumes "tq_rep q xs" "z \<notin> set xs" "z \<noteq> x" "y \<in> set xs" "TAILQ_INSERT_BEFORE y x q = Some q'"
  shows "tq_links q' z = tq_links q z"
proof -
  obtain as bs where xs: "xs = as @ y # bs" using assms(4) by (auto dest: split_list)
  have "tqe_prev q y = Some (end_slot HeadFirst as)" "end_slot HeadFirst as \<noteq> NextOf z" "z \<noteq> y"
    using assms(1,2) xs end_slot_cases [of as] by (auto simp: tq_rep_split)
  with assms(3,5) show ?thesis
    by (auto simp: tq_links_def TAILQ_INSERT_BEFORE_def Let_def split: if_splits)
qed

lemma tq_links_remove:
  assumes "tq_rep q xs" "z \<notin> set xs \<or> z = x" "x \<in> set xs" "TAILQ_REMOVE x q = Some q'"
  shows "tq_links q' z = tq_links q z"
proof -
  obtain as bs where xs: "xs = as @ x # bs" using assms(3) by (auto dest: split_list)
  have "tqe_prev q x = Some (end_slot HeadFirst as)" "end_slot HeadFirst as \<noteq> NextOf z"
    using assms(1,2) xs end_slot_cases [of as] by (auto simp: tq_rep_split)
  moreover have "tqe_next q x \<noteq> Some z"
    using assms(1,2) tq_rep_next [of q as x bs] xs
    by (cases bs) (auto simp: TAILQ_NEXT_def tq_rep_split)
  ultimately show ?thesis using assms(4)
    by (auto simp: tq_links_def TAILQ_REMOVE_def Let_def split: option.splits)
qed

text \<open>Clearing the links of an element that is not on the queue.\<close>

definition clear_links :: "'a \<Rightarrow> 'a tailq \<Rightarrow> 'a tailq" where
  "clear_links e q = q\<lparr>tqe_next := (tqe_next q)(e := None), tqe_prev := (tqe_prev q)(e := None)\<rparr>"

lemma clear_links_tq_links [simp]:
  "tq_links (clear_links e q) x = (if x = e then (None, None) else tq_links q x)"
  by (simp add: tq_links_def clear_links_def)

lemma tq_rep_clear_links:
  assumes "tq_rep q xs" "e \<notin> set xs"
  shows "tq_rep (clear_links e q) xs"
proof -
  have load: "load_slot (clear_links e q) t = load_slot q t" if "t \<noteq> NextOf e" for t
    using that by (cases t) (auto simp: clear_links_def)
  have "tq_part (clear_links e q) HeadFirst xs"
    by (rule tq_part_frame [of q])
      (use assms in \<open>auto simp: tq_rep_def clear_links_def dest: butlast_subset\<close>)
  moreover have "end_slot HeadFirst xs \<noteq> NextOf e" using end_slot_cases [of xs] assms(2) by auto
  ultimately show ?thesis
    using assms(1) load by (auto simp: tq_rep_def) (simp add: clear_links_def)
qed

section \<open>The contract of a tail queue\<close>

text \<open>
  What the clients use: a representation predicate for lists without repetition, the operations,
  and the links of an element, which only change when the element is on the queue or is being
  put there.
\<close>

locale tail_queue =
  fixes rep :: "'q \<Rightarrow> 'a list \<Rightarrow> bool"
    and first :: "'q \<Rightarrow> 'a option"
    and nxt :: "'q \<Rightarrow> 'a \<Rightarrow> 'a option"
    and insert_head :: "'a \<Rightarrow> 'q \<Rightarrow> 'q"
    and insert_tail :: "'a \<Rightarrow> 'q \<Rightarrow> 'q"
    and insert_before :: "'a \<Rightarrow> 'a \<Rightarrow> 'q \<Rightarrow> 'q option"
    and remove :: "'a \<Rightarrow> 'q \<Rightarrow> 'q option"
    and links :: "'q \<Rightarrow> 'a \<Rightarrow> 'l"
  assumes distinct: "rep q xs \<Longrightarrow> distinct xs"
    and first: "rep q xs \<Longrightarrow> first q = (if xs = [] then None else Some (hd xs))"
    and nxt: "rep q (as @ x # bs) \<Longrightarrow> nxt q x = (if bs = [] then None else Some (hd bs))"
    and insert_head: "rep q xs \<Longrightarrow> x \<notin> set xs \<Longrightarrow> rep (insert_head x q) (x # xs)"
    and insert_tail: "rep q xs \<Longrightarrow> x \<notin> set xs \<Longrightarrow> rep (insert_tail x q) (xs @ [x])"
    and insert_before: "rep q (as @ y # bs) \<Longrightarrow> x \<notin> set (as @ y # bs) \<Longrightarrow>
      \<exists>q'. insert_before y x q = Some q' \<and> rep q' (as @ x # y # bs)"
    and remove: "rep q (as @ x # bs) \<Longrightarrow> \<exists>q'. remove x q = Some q' \<and> rep q' (as @ bs)"
    and links_insert_head: "rep q xs \<Longrightarrow> z \<notin> set xs \<Longrightarrow> z \<noteq> x \<Longrightarrow> links (insert_head x q) z = links q z"
    and links_insert_tail: "rep q xs \<Longrightarrow> z \<notin> set xs \<Longrightarrow> z \<noteq> x \<Longrightarrow> links (insert_tail x q) z = links q z"
    and links_insert_before: "rep q xs \<Longrightarrow> z \<notin> set xs \<Longrightarrow> z \<noteq> x \<Longrightarrow> y \<in> set xs \<Longrightarrow>
      insert_before y x q = Some q' \<Longrightarrow> links q' z = links q z"
    and links_remove: "rep q xs \<Longrightarrow> z \<notin> set xs \<or> z = x \<Longrightarrow> x \<in> set xs \<Longrightarrow>
      remove x q = Some q' \<Longrightarrow> links q' z = links q z"
begin

text \<open>Removal of a member, wherever it stands.\<close>

lemma remove_member:
  assumes "rep q xs" "x \<in> set xs"
  obtains q' where "remove x q = Some q'" "rep q' (remove1 x xs)"
    "\<And>z. z \<notin> set xs \<or> z = x \<Longrightarrow> links q' z = links q z"
proof -
  obtain as bs where xs: "xs = as @ x # bs" "x \<notin> set as"
    using assms(2) by (meson split_list_first)
  then obtain q' where "remove x q = Some q'" "rep q' (as @ bs)"
    using remove assms(1) by blast
  with xs assms links_remove [OF assms(1)] that show ?thesis by (simp add: remove1_append)
qed

text \<open>The loop that skips a prefix stops at the first element that fails the test.\<close>

lemma skip_from:
  assumes "rep q (as @ bs)"
  shows "tq_skip (nxt q) P (if bs = [] then None else Some (hd bs)) = Some (find (\<lambda>x. \<not> P x) bs)"
  using assms
proof (induction bs arbitrary: as)
  case Nil
  then show ?case by (simp add: tq_skip.simps)
next
  case (Cons b bs)
  from Cons.prems have "nxt q b = (if bs = [] then None else Some (hd bs))" by (rule nxt)
  with Cons.IH [of "as @ [b]"] Cons.prems show ?case by (simp add: tq_skip.simps)
qed

lemma skip_all:
  assumes "rep q xs"
  shows "tq_skip (nxt q) P (first q) = Some (find (\<lambda>x. \<not> P x) xs)"
  using skip_from [of q "[]" xs] assms by (simp add: first)

text \<open>
  Insertion before the element found, or at the tail when none is, puts the new element behind
  the longest prefix that passes the test.
\<close>

lemma insert_at_found:
  assumes "rep q xs" "x \<notin> set xs"
  obtains q' where
    "(case find (\<lambda>y. \<not> P y) xs of None \<Rightarrow> Some (insert_tail x q) | Some y \<Rightarrow> insert_before y x q) = Some q'"
    "rep q' (takeWhile P xs @ x # dropWhile P xs)"
    "\<And>z. z \<notin> set xs \<Longrightarrow> z \<noteq> x \<Longrightarrow> links q' z = links q z"
proof (cases "dropWhile P xs")
  case Nil
  then have all: "\<forall>y\<in>set xs. P y" by (simp add: dropWhile_eq_Nil_conv)
  then have "find (\<lambda>y. \<not> P y) xs = None" by (auto simp: find_None_iff)
  moreover have "takeWhile P xs = xs" using all by simp
  then have "rep (insert_tail x q) (takeWhile P xs @ x # dropWhile P xs)"
    using Nil insert_tail [OF assms] by (simp only:)
  ultimately show ?thesis
    using that [of "insert_tail x q"] links_insert_tail [OF assms(1)] by simp
next
  case (Cons y ys)
  then have "find (\<lambda>y. \<not> P y) xs = Some y" by (simp add: find_dropWhile o_def)
  moreover have xs: "xs = takeWhile P xs @ y # ys" using Cons by (metis takeWhile_dropWhile_id)
  moreover obtain q' where q': "insert_before y x q = Some q'" "rep q' (takeWhile P xs @ x # y # ys)"
    using insert_before [of q "takeWhile P xs" y ys x] assms xs by auto
  moreover have "y \<in> set xs" by (subst xs) simp
  ultimately show ?thesis
    using that [of q'] Cons links_insert_before [OF assms(1)] by auto
qed

end

interpretation tq: tail_queue tq_rep TAILQ_FIRST TAILQ_NEXT TAILQ_INSERT_HEAD TAILQ_INSERT_TAIL
  TAILQ_INSERT_BEFORE TAILQ_REMOVE tq_links
  by unfold_locales
    (fact tq_rep_distinct tq_rep_first tq_rep_next tq_rep_insert_head tq_rep_insert_tail
      tq_rep_insert_before tq_rep_remove tq_links_insert_head tq_links_insert_tail
      tq_links_insert_before tq_links_remove)+

section \<open>Sequences of operations\<close>

datatype 'a tq_op = InsertHead 'a | InsertTail 'a | InsertBefore 'a 'a | InsertAfter 'a 'a | Remove 'a

fun tq_exec :: "'a tq_op \<Rightarrow> 'a tailq \<Rightarrow> 'a tailq option" where
  "tq_exec (InsertHead x) q = Some (TAILQ_INSERT_HEAD x q)"
| "tq_exec (InsertTail x) q = Some (TAILQ_INSERT_TAIL x q)"
| "tq_exec (InsertBefore y x) q = TAILQ_INSERT_BEFORE y x q"
| "tq_exec (InsertAfter y x) q = Some (TAILQ_INSERT_AFTER y x q)"
| "tq_exec (Remove x) q = TAILQ_REMOVE x q"

fun tq_exec_all :: "'a tq_op list \<Rightarrow> 'a tailq \<Rightarrow> 'a tailq option" where
  "tq_exec_all [] q = Some q"
| "tq_exec_all (c # cs) q = Option.bind (tq_exec c q) (tq_exec_all cs)"

text \<open>The same operations on lists; \<open>None\<close> marks a call outside the contract.\<close>

fun split_at :: "'a \<Rightarrow> 'a list \<Rightarrow> ('a list \<times> 'a list) option" where
  "split_at y [] = None"
| "split_at y (x # xs) =
     (if x = y then Some ([], xs) else map_option (\<lambda>(as, bs). (x # as, bs)) (split_at y xs))"

fun list_exec :: "'a tq_op \<Rightarrow> 'a list \<Rightarrow> 'a list option" where
  "list_exec (InsertHead x) xs = (if x \<in> set xs then None else Some (x # xs))"
| "list_exec (InsertTail x) xs = (if x \<in> set xs then None else Some (xs @ [x]))"
| "list_exec (InsertBefore y x) xs =
     (if x \<in> set xs then None else map_option (\<lambda>(as, bs). as @ x # y # bs) (split_at y xs))"
| "list_exec (InsertAfter y x) xs =
     (if x \<in> set xs then None else map_option (\<lambda>(as, bs). as @ y # x # bs) (split_at y xs))"
| "list_exec (Remove x) xs = map_option (\<lambda>(as, bs). as @ bs) (split_at x xs)"

fun list_exec_all :: "'a tq_op list \<Rightarrow> 'a list \<Rightarrow> 'a list option" where
  "list_exec_all [] xs = Some xs"
| "list_exec_all (c # cs) xs = Option.bind (list_exec c xs) (list_exec_all cs)"

lemma split_at_Some: "split_at y xs = Some (as, bs) \<Longrightarrow> xs = as @ y # bs"
  by (induction xs arbitrary: as) (auto split: if_splits)

lemma tq_exec_refines:
  assumes "tq_rep q xs" "list_exec c xs = Some ys"
  shows "\<exists>q'. tq_exec c q = Some q' \<and> tq_rep q' ys"
  using assms
  by (cases c)
    (auto dest!: split_at_Some intro: tq_rep_insert_head tq_rep_insert_tail
      tq_rep_insert_before tq_rep_insert_after tq_rep_remove split: if_splits)

lemma tq_exec_all_refines:
  assumes "tq_rep q xs" "list_exec_all cs xs = Some ys"
  shows "\<exists>q'. tq_exec_all cs q = Some q' \<and> tq_rep q' ys"
  using assms
proof (induction cs arbitrary: q xs)
  case (Cons c cs)
  then obtain zs where zs: "list_exec c xs = Some zs" "list_exec_all cs zs = Some ys"
    by (auto split: Option.bind_splits)
  then obtain q1 where "tq_exec c q = Some q1" "tq_rep q1 zs"
    using tq_exec_refines Cons.prems(1) by blast
  with Cons.IH zs(2) show ?case by simp
qed simp

text \<open>The loops \<^verbatim>\<open>TAILQ_FOREACH\<close> and \<^verbatim>\<open>TAILQ_FOREACH_REVERSE\<close>: the elements they visit.\<close>

partial_function (option) TAILQ_FOREACH :: "'a tailq \<Rightarrow> 'a option \<Rightarrow> 'a list option" where
  [code]: "TAILQ_FOREACH q c =
     (case c of None \<Rightarrow> Some []
      | Some e \<Rightarrow> Option.bind (TAILQ_FOREACH q (TAILQ_NEXT q e)) (\<lambda>es. Some (e # es)))"

partial_function (option) TAILQ_FOREACH_REVERSE :: "'a tailq \<Rightarrow> 'a option \<Rightarrow> 'a list option" where
  [code]: "TAILQ_FOREACH_REVERSE q c =
     (case c of None \<Rightarrow> Some []
      | Some e \<Rightarrow> (case TAILQ_PREV q e of None \<Rightarrow> None
          | Some p \<Rightarrow> Option.bind (TAILQ_FOREACH_REVERSE q p) (\<lambda>es. Some (e # es))))"

lemma foreach_from:
  assumes "tq_rep q (as @ bs)"
  shows "TAILQ_FOREACH q (if bs = [] then None else Some (hd bs)) = Some bs"
  using assms
proof (induction bs arbitrary: as)
  case (Cons b bs)
  from tq_rep_next [OF Cons.prems] Cons.IH [of "as @ [b]"] Cons.prems show ?case
    by (simp add: TAILQ_FOREACH.simps [of q "Some b"])
qed (simp add: TAILQ_FOREACH.simps)

lemma foreach_reverse_from:
  assumes "tq_rep q (as @ bs)"
  shows "TAILQ_FOREACH_REVERSE q (if as = [] then None else Some (last as)) = Some (rev as)"
  using assms
proof (induction as arbitrary: bs rule: rev_induct)
  case (snoc a as)
  from snoc.prems have "tq_rep q (as @ a # bs)" by simp
  from tq_rep_prev [OF this] snoc.IH [of "a # bs"] this show ?case
    by (simp add: TAILQ_FOREACH_REVERSE.simps [of q "Some a"])
qed (simp add: TAILQ_FOREACH_REVERSE.simps)

text \<open>
  C23: after any sequence of insertions and removals within the contract (no element inserted
  twice, the reference element of an insertion or removal on the queue), started on an
  initialised queue, no NULL back link was followed and the pointers hold exactly the list the
  same operations build: the forward loop visits it from first to last and the reverse loop, which
  goes through the back links and \<^verbatim>\<open>TAILQ_LAST\<close>, visits it from last to first.
\<close>

theorem tailq_operations_correct:
  assumes "list_exec_all cs [] = Some xs"
  shows "\<exists>q' l. tq_exec_all cs (TAILQ_INIT q) = Some q' \<and>
    TAILQ_FOREACH q' (TAILQ_FIRST q') = Some xs \<and>
    TAILQ_LAST q' = Some l \<and> TAILQ_FOREACH_REVERSE q' l = Some (rev xs)"
proof -
  obtain q' where q': "tq_exec_all cs (TAILQ_INIT q) = Some q'" "tq_rep q' xs"
    using tq_exec_all_refines [OF tq_rep_init assms] by blast
  then have "TAILQ_FOREACH q' (TAILQ_FIRST q') = Some xs"
    using foreach_from [of q' "[]" xs] by (simp add: tq_rep_first)
  moreover have "TAILQ_FOREACH_REVERSE q' (if xs = [] then None else Some (last xs)) = Some (rev xs)"
    using foreach_reverse_from [of q' xs "[]"] q'(2) by simp
  ultimately show ?thesis using q' tq_rep_last by blast
qed

definition blank_tailq :: "nat tailq" where
  "blank_tailq = \<lparr>tqh_first = None, tqh_last = HeadFirst, tqe_next = \<lambda>_. None, tqe_prev = \<lambda>_. None\<rparr>"

theorem tailq_operations_correct_witness:
  "list_exec_all [InsertTail 3, InsertHead 1, InsertBefore 3 (2::nat), InsertAfter 3 5, Remove 3] []
     = Some [1, 2, 5] \<and>
   (\<exists>q' l. tq_exec_all [InsertTail 3, InsertHead 1, InsertBefore 3 2, InsertAfter 3 5, Remove 3]
       (TAILQ_INIT blank_tailq) = Some q' \<and>
     TAILQ_FOREACH q' (TAILQ_FIRST q') = Some [1, 2, 5] \<and>
     TAILQ_LAST q' = Some l \<and> TAILQ_FOREACH_REVERSE q' l = Some (rev [1, 2, 5]))"
proof -
  have "list_exec_all [InsertTail 3, InsertHead 1, InsertBefore 3 (2::nat), InsertAfter 3 5, Remove 3] []
     = Some [1, 2, 5]" by simp
  with tailq_operations_correct [OF this, of blank_tailq] show ?thesis by blast
qed

end
