(* ===== verification/Callout.thy ===== *)
theory Callout
  imports Tailq
begin

text \<open>
  The timer queue of netinet/sctp_callout.c, from which every timer of the stack runs: the timers
  with their flags, the queue of the pending ones, the tick counter and the cursor
  \<^verbatim>\<open>sctp_os_timer_next\<close> that lets a callback stop or restart timers while the queue is being
  walked. \<^verbatim>\<open>int\<close> values are 32-bit words read by \<open>sint\<close>, with the machine's wrap-around.

  The callbacks are code of other files. They and the other threads that run while the lock is
  released appear as a parameter \<open>cb\<close>: which timer calls are made in that window.
\<close>

section \<open>State\<close>

definition SCTP_CALLOUT_ACTIVE :: u32 where "SCTP_CALLOUT_ACTIVE = 0x0002"
definition SCTP_CALLOUT_PENDING :: u32 where "SCTP_CALLOUT_PENDING = 0x0004"

text \<open>The link field \<^verbatim>\<open>tqe\<close> of the struct is kept in the queue's record. NULL is \<open>None\<close>.\<close>

record ('f, 'a) sctp_callout =
  c_time :: u32
  c_arg :: "'a option"
  c_func :: "'f option"
  c_flags :: u32

record ('c, 'f, 'a) timer_state =
  timers :: "'c \<Rightarrow> ('f, 'a) sctp_callout"
  callqueue :: "'c tailq"
  ticks :: u32
  sctp_os_timer_next :: "'c option"

definition upd_timer :: "'c \<Rightarrow> (('f, 'a) sctp_callout \<Rightarrow> ('f, 'a) sctp_callout) \<Rightarrow>
    ('c, 'f, 'a) timer_state \<Rightarrow> ('c, 'f, 'a) timer_state" where
  "upd_timer c f s = s\<lparr>timers := (timers s)(c := f (timers s c))\<rparr>"

definition SCTP_OS_TIMER_PENDING :: "('f, 'a) sctp_callout \<Rightarrow> bool" where
  "SCTP_OS_TIMER_PENDING t \<longleftrightarrow> c_flags t AND SCTP_CALLOUT_PENDING \<noteq> 0"

definition SCTP_OS_TIMER_ACTIVE :: "('f, 'a) sctp_callout \<Rightarrow> bool" where
  "SCTP_OS_TIMER_ACTIVE t \<longleftrightarrow> c_flags t AND SCTP_CALLOUT_ACTIVE \<noteq> 0"

section \<open>Operations\<close>

definition sctp_get_tick_count :: "('c, 'f, 'a) timer_state \<Rightarrow> u32" where
  "sctp_get_tick_count s = ticks s"

definition sctp_os_timer_init :: "'c \<Rightarrow> ('c, 'f, 'a) timer_state \<Rightarrow> ('c, 'f, 'a) timer_state" where
  "sctp_os_timer_init c s =
     s\<lparr>timers := (timers s)(c := \<lparr>c_time = 0, c_arg = None, c_func = None, c_flags = 0\<rparr>),
       callqueue := clear_links c (callqueue s)\<rparr>"

text \<open>Taking a pending timer off the queue, the cursor moving on when it points to the timer.\<close>

definition timer_unlink :: "'c \<Rightarrow> ('c, 'f, 'a) timer_state \<Rightarrow> ('c, 'f, 'a) timer_state option" where
  "timer_unlink c s =
     (let s = (if sctp_os_timer_next s = Some c
               then s\<lparr>sctp_os_timer_next := TAILQ_NEXT (callqueue s) c\<rparr> else s)
      in map_option (\<lambda>q. s\<lparr>callqueue := q\<rparr>) (TAILQ_REMOVE c (callqueue s)))"

definition sctp_os_timer_start :: "'c option \<Rightarrow> u32 \<Rightarrow> 'f option \<Rightarrow> 'a option \<Rightarrow>
    ('c, 'f, 'a) timer_state \<Rightarrow> ('c, 'f, 'a) timer_state option" where
  "sctp_os_timer_start co to_ticks ftn arg s =
     (case co of
        None \<Rightarrow> Some s
      | Some c \<Rightarrow>
          if ftn = None then Some s
          else case (if SCTP_OS_TIMER_PENDING (timers s c) then timer_unlink c s else Some s) of
              None \<Rightarrow> None
            | Some s \<Rightarrow>
                let to_ticks = (if sint to_ticks \<le> 0 then 1 else to_ticks);
                    s = upd_timer c (\<lambda>t. t\<lparr>c_arg := arg,
                          c_flags := SCTP_CALLOUT_ACTIVE OR SCTP_CALLOUT_PENDING,
                          c_func := ftn, c_time := ticks s + to_ticks\<rparr>) s
                in Some (s\<lparr>callqueue := TAILQ_INSERT_TAIL c (callqueue s)\<rparr>))"

definition sctp_os_timer_stop :: "'c \<Rightarrow> ('c, 'f, 'a) timer_state \<Rightarrow> (u32 \<times> ('c, 'f, 'a) timer_state) option" where
  "sctp_os_timer_stop c s =
     (if \<not> SCTP_OS_TIMER_PENDING (timers s c)
      then Some (0, upd_timer c (\<lambda>t. t\<lparr>c_flags := c_flags t AND NOT SCTP_CALLOUT_ACTIVE\<rparr>) s)
      else map_option (\<lambda>s. (1, s))
        (timer_unlink c (upd_timer c (\<lambda>t. t\<lparr>c_flags :=
           c_flags t AND NOT (SCTP_CALLOUT_ACTIVE OR SCTP_CALLOUT_PENDING)\<rparr>) s)))"

text \<open>The timer calls a callback (or another thread) makes while the lock is released.\<close>

datatype ('c, 'f, 'a) timer_call =
    Start "'c option" u32 "'f option" "'a option"
  | Stop 'c

fun do_call :: "('c, 'f, 'a) timer_call \<Rightarrow> ('c, 'f, 'a) timer_state \<Rightarrow> ('c, 'f, 'a) timer_state option" where
  "do_call (Start c to_ticks ftn arg) s = sctp_os_timer_start c to_ticks ftn arg s"
| "do_call (Stop c) s = map_option snd (sctp_os_timer_stop c s)"

fun do_calls :: "('c, 'f, 'a) timer_call list \<Rightarrow> ('c, 'f, 'a) timer_state \<Rightarrow> ('c, 'f, 'a) timer_state option" where
  "do_calls [] s = Some s"
| "do_calls (x # xs) s = Option.bind (do_call x s) (do_calls xs)"

type_synonym ('c, 'f, 'a) callbacks =
  "'f \<Rightarrow> 'a option \<Rightarrow> ('c, 'f, 'a) timer_state \<Rightarrow> ('c, 'f, 'a) timer_call list"

text \<open>
  One expired timer: off the queue, no longer pending, its callback run, the state in which the
  walk resumes at the cursor.
\<close>

definition fire :: "('c, 'f, 'a) callbacks \<Rightarrow> 'c \<Rightarrow> ('c, 'f, 'a) timer_state \<Rightarrow>
    ('c, 'f, 'a) timer_state option" where
  "fire cb c s =
     (let s = s\<lparr>sctp_os_timer_next := TAILQ_NEXT (callqueue s) c\<rparr>
      in case TAILQ_REMOVE c (callqueue s) of
           None \<Rightarrow> None
         | Some q \<Rightarrow>
             let s = s\<lparr>callqueue := q\<rparr>;
                 f = c_func (timers s c);
                 arg = c_arg (timers s c);
                 s = upd_timer c (\<lambda>t. t\<lparr>c_flags := c_flags t AND NOT SCTP_CALLOUT_PENDING\<rparr>) s
             in case f of None \<Rightarrow> None | Some f \<Rightarrow> do_calls (cb f arg s) s)"

text \<open>The loop of \<^verbatim>\<open>sctp_handle_tick\<close>; beside the state it gives the timers fired, in order.\<close>

partial_function (option) tick_loop :: "('c, 'f, 'a) callbacks \<Rightarrow> 'c option \<Rightarrow>
    ('c, 'f, 'a) timer_state \<Rightarrow> (('c, 'f, 'a) timer_state \<times> 'c list) option" where
  [code]: "tick_loop cb co s =
     (case co of
        None \<Rightarrow> Some (s, [])
      | Some c \<Rightarrow>
          if sint (c_time (timers s c)) \<le> sint (ticks s)
          then Option.bind (fire cb c s) (\<lambda>s'.
                 Option.bind (tick_loop cb (sctp_os_timer_next s') s') (\<lambda>r. Some (fst r, c # snd r)))
          else tick_loop cb (TAILQ_NEXT (callqueue s) c) s)"

definition sctp_handle_tick :: "('c, 'f, 'a) callbacks \<Rightarrow> u32 \<Rightarrow> ('c, 'f, 'a) timer_state \<Rightarrow>
    (('c, 'f, 'a) timer_state \<times> 'c list) option" where
  "sctp_handle_tick cb delta s =
     (let s = s\<lparr>ticks := ticks s + delta\<rparr>
      in map_option (\<lambda>(s, fired). (s\<lparr>sctp_os_timer_next := None\<rparr>, fired))
           (tick_loop cb (TAILQ_FIRST (callqueue s)) s))"

definition TIMEOUT_INTERVAL :: u32 where "TIMEOUT_INTERVAL = 10"

text \<open>
  The body of the timer thread. The list gives what the thread reads from
  \<^verbatim>\<open>timer_thread_should_exit\<close> each time it wakes up and what the other threads do to the timers
  before it takes the lock; it ends when the flag is set. \<^verbatim>\<open>hz\<close> is 1000, so that
  \<^verbatim>\<open>MSEC_TO_TICKS\<close> is the identity.
\<close>

fun user_sctp_timer_iterate :: "('c, 'f, 'a) callbacks \<Rightarrow> (bool \<times> ('c, 'f, 'a) timer_call list) list \<Rightarrow>
    ('c, 'f, 'a) timer_state \<Rightarrow> ('c, 'f, 'a) timer_state option" where
  "user_sctp_timer_iterate cb [] s = Some s"
| "user_sctp_timer_iterate cb ((should_exit, calls) # rest) s =
     Option.bind (do_calls calls s) (\<lambda>s.
       if should_exit then Some s
       else Option.bind (sctp_handle_tick cb TIMEOUT_INTERVAL s)
              (\<lambda>(s, fired). user_sctp_timer_iterate cb rest s))"

end
