(* ===== verification/Callout_Correct.thy ===== *)
theory Callout_Correct
  imports Callout "HOL-Library.Sublist"
begin

text \<open>
  Correctness of the timer queue: the flag PENDING says exactly which timers are queued, the walk
  of \<^verbatim>\<open>sctp_handle_tick\<close> survives any timer calls its callbacks make, ends, leaves no expired
  timer behind and fires each at most once, in queue order; and what happens when the signed tick
  counter overflows.
\<close>

section \<open>Invariant\<close>

definition ohd :: "'a list \<Rightarrow> 'a option" where
  "ohd xs = (if xs = [] then None else Some (hd xs))"

lemma ohd_simps [simp]: "ohd [] = None" "ohd (x # xs) = Some x"
  by (simp_all add: ohd_def)

definition expired :: "('c, 'f, 'a) timer_state \<Rightarrow> 'c \<Rightarrow> bool" where
  "expired s c \<longleftrightarrow> sint (c_time (timers s c)) \<le> sint (ticks s)"

text \<open>The timers on the queue are the pending ones, and each has a function to call.\<close>

definition timers_ok :: "('c, 'f, 'a) timer_state \<Rightarrow> 'c set \<Rightarrow> bool" where
  "timers_ok s Q \<longleftrightarrow>
     (\<forall>c. SCTP_OS_TIMER_PENDING (timers s c) \<longleftrightarrow> c \<in> Q) \<and> (\<forall>c\<in>Q. c_func (timers s c) \<noteq> None)"

definition callout_inv :: "('c, 'f, 'a) timer_state \<Rightarrow> 'c list \<Rightarrow> bool" where
  "callout_inv s xs \<longleftrightarrow> tq_rep (callqueue s) xs \<and> timers_ok s (set xs)"

text \<open>
  In the middle of a walk: the timers \<open>as\<close> are behind the walk and not expired, the walk goes on
  at the first of \<open>bs\<close>.
\<close>

definition walk_inv :: "('c, 'f, 'a) timer_state \<Rightarrow> 'c list \<Rightarrow> 'c list \<Rightarrow> bool" where
  "walk_inv s as bs \<longleftrightarrow> callout_inv s (as @ bs) \<and> (\<forall>c\<in>set as. \<not> expired s c)"

text \<open>A start does not overflow the counter.\<close>

fun call_fits :: "u32 \<Rightarrow> ('c, 'f, 'a) timer_call \<Rightarrow> bool" where
  "call_fits T (Start c to_ticks ftn arg) \<longleftrightarrow> sint T + max 1 (sint to_ticks) < 2 ^ 31"
| "call_fits T (Stop c) \<longleftrightarrow> True"

fun call_target :: "('c, 'f, 'a) timer_call \<Rightarrow> 'c option" where
  "call_target (Start c to_ticks ftn arg) = c"
| "call_target (Stop c) = Some c"

lemma timer_flags [simp]:
  "(SCTP_CALLOUT_ACTIVE OR SCTP_CALLOUT_PENDING) AND SCTP_CALLOUT_PENDING \<noteq> 0"
  "(x AND NOT SCTP_CALLOUT_PENDING) AND SCTP_CALLOUT_PENDING = 0"
  "(x AND NOT (SCTP_CALLOUT_ACTIVE OR SCTP_CALLOUT_PENDING)) AND SCTP_CALLOUT_PENDING = 0"
  by (simp_all add: SCTP_CALLOUT_ACTIVE_def SCTP_CALLOUT_PENDING_def and.assoc)

lemma timer_flags_more [simp]:
  "SCTP_CALLOUT_PENDING \<noteq> 0"
  "(x AND NOT SCTP_CALLOUT_ACTIVE AND NOT SCTP_CALLOUT_PENDING) AND SCTP_CALLOUT_PENDING = 0"
  by (simp_all add: SCTP_CALLOUT_ACTIVE_def SCTP_CALLOUT_PENDING_def and.assoc)

lemma timer_flags_active [simp]:
  "(x AND NOT SCTP_CALLOUT_ACTIVE) AND SCTP_CALLOUT_PENDING = x AND SCTP_CALLOUT_PENDING"
  by (simp add: SCTP_CALLOUT_ACTIVE_def SCTP_CALLOUT_PENDING_def and.assoc)

lemma upd_timer_fields [simp]:
  "callqueue (upd_timer c f s) = callqueue s" "ticks (upd_timer c f s) = ticks s"
  "sctp_os_timer_next (upd_timer c f s) = sctp_os_timer_next s"
  "timers (upd_timer c f s) d = (if d = c then f (timers s c) else timers s d)"
  by (simp_all add: upd_timer_def)

lemma sint_add_fits:
  fixes a b :: u32
  assumes "0 \<le> sint b" "sint a + sint b < 2 ^ 31"
  shows "sint (a + b) = sint a + sint b"
proof -
  have "- (2 ^ 31) \<le> sint a" using sint_ge [of a] by simp
  with assms show ?thesis
    by (simp add: sint_word_ariths(1) signed_take_bit_int_eq_self)
qed

lemma sint_add_overflow:
  fixes a b :: u32
  assumes "2 ^ 31 \<le> sint a + sint b"
  shows "sint (a + b) = sint a + sint b - 2 ^ 32"
proof -
  have "sint a < 2 ^ 31" "sint b < 2 ^ 31" using sint_lt [of a] sint_lt [of b] by simp_all
  with assms have "(sint a + sint b + 2 ^ 31 - 2 ^ 32) mod 2 ^ 32 = sint a + sint b + 2 ^ 31 - 2 ^ 32"
    by (intro mod_pos_pos_trivial) simp_all
  then have "take_bit 32 (sint a + sint b + 2 ^ 31) = sint a + sint b + 2 ^ 31 - 2 ^ 32"
    by (simp only: take_bit_eq_mod minus_mod_self2)
  then show ?thesis
    by (simp add: sint_word_ariths(1) signed_take_bit_eq_take_bit_shift)
qed

lemma remove1_append_distinct:
  "distinct (as @ bs) \<Longrightarrow> remove1 c (as @ bs) = remove1 c as @ remove1 c bs"
  by (cases "c \<in> set bs") (auto simp: remove1_append remove1_idem)

lemma timer_unlink_rep:
  assumes "tq_rep (callqueue s) (as @ bs)" "c \<in> set (as @ bs)" "sctp_os_timer_next s = ohd bs"
  obtains q' where
    "timer_unlink c s = Some (s\<lparr>callqueue := q', sctp_os_timer_next := ohd (remove1 c bs)\<rparr>)"
    "tq_rep q' (remove1 c as @ remove1 c bs)"
proof -
  have d: "distinct (as @ bs)" using assms(1) by (rule tq_rep_distinct)
  obtain q' where q': "TAILQ_REMOVE c (callqueue s) = Some q'" "tq_rep q' (remove1 c (as @ bs))"
    using tq.remove_member [OF assms(1,2)] by metis
  have "(if sctp_os_timer_next s = Some c then TAILQ_NEXT (callqueue s) c
    else sctp_os_timer_next s) = ohd (remove1 c bs)"
  proof (cases bs)
    case (Cons b cs)
    with assms(1,3) show ?thesis
      using tq_rep_next [of "callqueue s" as b cs] by (auto simp: ohd_def)
  qed (use assms in auto)
  then have "timer_unlink c s = Some (s\<lparr>callqueue := q', sctp_os_timer_next := ohd (remove1 c bs)\<rparr>)"
    using q'(1) by (auto simp: timer_unlink_def Let_def)
  with q'(2) d that show ?thesis by (metis remove1_append_distinct)
qed

text \<open>What one call in the window of a callback does to the walk.\<close>

definition walk_step :: "('c, 'f, 'a) timer_state \<Rightarrow> 'c list \<Rightarrow> 'c set \<Rightarrow>
    ('c, 'f, 'a) timer_state \<Rightarrow> 'c list \<Rightarrow> 'c list \<Rightarrow> bool" where
  "walk_step s bs touched s' as' bs' \<longleftrightarrow>
     walk_inv s' as' bs' \<and> sctp_os_timer_next s' = ohd bs' \<and> ticks s' = ticks s \<and>
     subseq (filter (expired s') bs') (filter (expired s) bs) \<and>
     (\<forall>c. c \<notin> touched \<longrightarrow> c \<in> set bs \<longrightarrow> expired s c \<longrightarrow> c \<in> set bs' \<and> expired s' c)"

lemma walk_step_refl: "walk_inv s as bs \<Longrightarrow> sctp_os_timer_next s = ohd bs \<Longrightarrow> walk_step s bs T s as bs"
  by (simp add: walk_step_def)

lemma walk_step_trans:
  assumes "walk_step s bs T s' as' bs'" "walk_step s' bs' U s'' as'' bs''"
  shows "walk_step s bs (T \<union> U) s'' as'' bs''"
  using assms unfolding walk_step_def by (metis UnCI subseq_order.order_trans)

lemma filter_remove1_subseq:
  assumes "distinct bs" "\<And>x. x \<noteq> c \<Longrightarrow> P' x = P x" "\<not> P' c"
  shows "subseq (filter P' (remove1 c bs)) (filter P bs)"
proof -
  have "filter P' (remove1 c bs) = filter (\<lambda>x. x \<noteq> c) (filter P bs)"
    using assms by (simp add: distinct_remove1_removeAll removeAll_filter_not_eq)
      (rule filter_cong, auto)
  then show ?thesis by (simp only: subseq_filter_left)
qed

text \<open>Starting and stopping a timer, whatever its state and wherever a walk is.\<close>

definition started :: "u32 \<Rightarrow> 'f \<Rightarrow> 'a option \<Rightarrow> u32 \<Rightarrow> ('f, 'a) sctp_callout" where
  "started to_ticks f arg now =
     \<lparr>c_time = now + (if sint to_ticks \<le> 0 then 1 else to_ticks), c_arg = arg, c_func = Some f,
      c_flags = SCTP_CALLOUT_ACTIVE OR SCTP_CALLOUT_PENDING\<rparr>"

lemma started_eq:
  "t\<lparr>c_arg := arg, c_flags := SCTP_CALLOUT_ACTIVE OR SCTP_CALLOUT_PENDING, c_func := Some f,
     c_time := now + (if sint to_ticks \<le> 0 then 1 else to_ticks)\<rparr> = started to_ticks f arg now"
  by (cases t) (simp add: started_def)

lemma timer_start_inv:
  assumes inv: "callout_inv s (as @ bs)" "sctp_os_timer_next s = ohd bs"
  obtains s' where "sctp_os_timer_start (Some c) to_ticks (Some f) arg s = Some s'"
    "callout_inv s' (remove1 c as @ remove1 c bs @ [c])"
    "sctp_os_timer_next s' = ohd (remove1 c bs)" "ticks s' = ticks s"
    "timers s' = (timers s)(c := started to_ticks f arg (ticks s))"
proof -
  let ?as = "remove1 c as" and ?bs = "remove1 c bs"
  have rep: "tq_rep (callqueue s) (as @ bs)" and ok: "timers_ok s (set (as @ bs))"
    using inv(1) by (auto simp: callout_inv_def)
  have d: "distinct (as @ bs)" using rep by (rule tq_rep_distinct)
  obtain q1 where q1: "(if SCTP_OS_TIMER_PENDING (timers s c) then timer_unlink c s else Some s) =
      Some (s\<lparr>callqueue := q1, sctp_os_timer_next := ohd ?bs\<rparr>)" "tq_rep q1 (?as @ ?bs)"
  proof (cases "c \<in> set (as @ bs)")
    case True
    with ok show ?thesis
      using timer_unlink_rep [OF rep True inv(2)] that by (auto simp: timers_ok_def)
  next
    case False
    with ok inv(2) rep show ?thesis
      using that [of "callqueue s"] by (auto simp: timers_ok_def remove1_idem)
  qed
  define s' where "s' = s\<lparr>sctp_os_timer_next := ohd ?bs,
    timers := (timers s)(c := started to_ticks f arg (ticks s)), callqueue := TAILQ_INSERT_TAIL c q1\<rparr>"
  have start: "sctp_os_timer_start (Some c) to_ticks (Some f) arg s = Some s'"
    using q1(1)
    by (simp only: sctp_os_timer_start_def Let_def upd_timer_def option.case started_eq) (simp add: s'_def)
  have rep': "tq_rep (callqueue s') (?as @ ?bs @ [c])"
    using tq_rep_insert_tail [OF q1(2), of c] d by (simp add: s'_def)
  have "timers_ok s' (set (?as @ ?bs @ [c]))"
    using ok d by (auto simp: timers_ok_def s'_def SCTP_OS_TIMER_PENDING_def started_def)
  with rep' start that show ?thesis by (auto simp: callout_inv_def s'_def)
qed

lemma timer_stop_inv:
  assumes inv: "callout_inv s (as @ bs)" "sctp_os_timer_next s = ohd bs"
  obtains s' where
    "sctp_os_timer_stop c s = Some (if c \<in> set (as @ bs) then 1 else 0, s')"
    "callout_inv s' (remove1 c as @ remove1 c bs)" "sctp_os_timer_next s' = ohd (remove1 c bs)"
    "ticks s' = ticks s" "\<And>d. c_time (timers s' d) = c_time (timers s d)"
    "\<not> SCTP_OS_TIMER_PENDING (timers s' c)"
proof -
  have rep: "tq_rep (callqueue s) (as @ bs)" and ok: "timers_ok s (set (as @ bs))"
    using inv(1) by (auto simp: callout_inv_def)
  have d: "distinct (as @ bs)" using rep by (rule tq_rep_distinct)
  show ?thesis
  proof (cases "c \<in> set (as @ bs)")
    case False
    define s' where "s' = upd_timer c (\<lambda>t. t\<lparr>c_flags := c_flags t AND NOT SCTP_CALLOUT_ACTIVE\<rparr>) s"
    have "timers_ok s' (set (as @ bs))"
      using ok by (auto simp: timers_ok_def s'_def SCTP_OS_TIMER_PENDING_def)
    moreover have "sctp_os_timer_stop c s = Some (0, s')"
      using ok False by (auto simp: sctp_os_timer_stop_def s'_def timers_ok_def)
    moreover have "c_time (timers s' d) = c_time (timers s d)" for d by (simp add: s'_def)
    moreover have "\<not> SCTP_OS_TIMER_PENDING (timers s' c)"
      using ok False by (simp add: s'_def timers_ok_def SCTP_OS_TIMER_PENDING_def)
    moreover have "callqueue s' = callqueue s" "sctp_os_timer_next s' = ohd bs" "ticks s' = ticks s"
      using inv(2) by (simp_all add: s'_def)
    moreover have "remove1 c as = as" "remove1 c bs = bs" using False by (auto simp: remove1_idem)
    ultimately show ?thesis
      using that [of s'] False rep by (auto simp: callout_inv_def)
  next
    case True
    define s1 where "s1 = upd_timer c (\<lambda>t. t\<lparr>c_flags :=
      c_flags t AND NOT (SCTP_CALLOUT_ACTIVE OR SCTP_CALLOUT_PENDING)\<rparr>) s"
    obtain q' where q': "timer_unlink c s1 =
        Some (s1\<lparr>callqueue := q', sctp_os_timer_next := ohd (remove1 c bs)\<rparr>)"
      "tq_rep q' (remove1 c as @ remove1 c bs)"
      using timer_unlink_rep [of s1 as bs c] rep inv(2) True by (auto simp: s1_def)
    let ?s = "s1\<lparr>callqueue := q', sctp_os_timer_next := ohd (remove1 c bs)\<rparr>"
    have "sctp_os_timer_stop c s = Some (1, ?s)"
      using q'(1) ok True by (simp add: sctp_os_timer_stop_def s1_def timers_ok_def)
    moreover have "timers_ok ?s (set (remove1 c as @ remove1 c bs))"
      using ok d by (auto simp: timers_ok_def s1_def SCTP_OS_TIMER_PENDING_def)
    ultimately show ?thesis
      using that [of ?s] q'(2) True by (auto simp: callout_inv_def s1_def SCTP_OS_TIMER_PENDING_def)
  qed
qed

text \<open>The queue invariant through any calls.\<close>

lemma do_call_inv:
  assumes inv: "callout_inv s (as @ bs)" "sctp_os_timer_next s = ohd bs"
  shows "\<exists>s' as' bs'. do_call x s = Some s' \<and> callout_inv s' (as' @ bs') \<and>
    sctp_os_timer_next s' = ohd bs' \<and> ticks s' = ticks s"
proof (cases x)
  case (Start co to_ticks fo arg)
  show ?thesis
  proof (cases "co = None \<or> fo = None")
    case True
    then have "do_call x s = Some s"
      using Start by (auto simp: sctp_os_timer_start_def split: option.split)
    then show ?thesis using inv by blast
  next
    case False
    then obtain c f where cf: "co = Some c" "fo = Some f" by auto
    obtain s' where s': "sctp_os_timer_start (Some c) to_ticks (Some f) arg s = Some s'"
      "callout_inv s' (remove1 c as @ remove1 c bs @ [c])"
      "sctp_os_timer_next s' = ohd (remove1 c bs)" "ticks s' = ticks s"
      using timer_start_inv [OF inv] by metis
    show ?thesis
    proof (cases "remove1 c bs = []")
      case True
      with s' cf Start have "do_call x s = Some s' \<and> callout_inv s' ((remove1 c as @ [c]) @ []) \<and>
          sctp_os_timer_next s' = ohd [] \<and> ticks s' = ticks s" by simp
      then show ?thesis by blast
    next
      case False
      with s' cf Start have "do_call x s = Some s' \<and> callout_inv s' (remove1 c as @ (remove1 c bs @ [c])) \<and>
          sctp_os_timer_next s' = ohd (remove1 c bs @ [c]) \<and> ticks s' = ticks s" by (simp add: ohd_def)
      then show ?thesis by blast
    qed
  qed
next
  case (Stop c)
  then show ?thesis using timer_stop_inv [OF inv, of c] by (metis do_call.simps(2) option.simps(9) snd_conv)
qed

lemma do_calls_inv:
  assumes "callout_inv s (as @ bs)" "sctp_os_timer_next s = ohd bs"
  shows "\<exists>s' as' bs'. do_calls xs s = Some s' \<and> callout_inv s' (as' @ bs') \<and>
    sctp_os_timer_next s' = ohd bs' \<and> ticks s' = ticks s"
  using assms
proof (induction xs arbitrary: s as bs)
  case (Cons x xs)
  obtain s1 as1 bs1 where 1: "do_call x s = Some s1" "callout_inv s1 (as1 @ bs1)"
    "sctp_os_timer_next s1 = ohd bs1" "ticks s1 = ticks s"
    using do_call_inv [OF Cons.prems] by blast
  with Cons.IH [OF 1(2,3)] show ?case by simp
qed auto

section \<open>Walking the queue\<close>

lemma start_walk:
  assumes inv: "walk_inv s as bs" "sctp_os_timer_next s = ohd bs"
    and fits: "sint (ticks s) + max 1 (sint to_ticks) < 2 ^ 31"
  shows "\<exists>s' as' bs'. sctp_os_timer_start (Some c) to_ticks (Some f) arg s = Some s' \<and>
    walk_step s bs {c} s' as' bs'"
proof -
  let ?as = "remove1 c as" and ?bs = "remove1 c bs"
  have inv': "callout_inv s (as @ bs)" using inv(1) by (simp add: walk_inv_def)
  then have d: "distinct (as @ bs)" unfolding callout_inv_def by (blast dest: tq_rep_distinct)
  obtain s' where s': "sctp_os_timer_start (Some c) to_ticks (Some f) arg s = Some s'"
    "callout_inv s' (?as @ ?bs @ [c])" "sctp_os_timer_next s' = ohd ?bs" "ticks s' = ticks s"
    "timers s' = (timers s)(c := started to_ticks f arg (ticks s))"
    using timer_start_inv [OF inv' inv(2)] by metis
  define tt where "tt = (if sint to_ticks \<le> 0 then 1 else to_ticks)"
  have "0 < sint tt" "sint (ticks s) + sint tt < 2 ^ 31"
    using fits by (auto simp: tt_def max_def split: if_splits)
  then have "sint (ticks s) < sint (ticks s + tt)" using sint_add_fits [of tt "ticks s"] by simp
  then have exp: "expired s' x \<longleftrightarrow> x \<noteq> c \<and> expired s x" for x
    using s'(4,5) by (auto simp: expired_def started_def tt_def)
  have sub: "subseq (filter (expired s') (?bs @ [c])) (filter (expired s) bs)"
    using filter_remove1_subseq [of bs c "expired s'" "expired s"] d exp by auto
  have as': "\<forall>x\<in>set ?as. \<not> expired s' x"
    using inv(1) exp by (auto simp: walk_inv_def dest: notin_set_remove1)
  show ?thesis
  proof (cases "?bs = []")
    case True
    then have "x = c" if "x \<in> set bs" for x using that by (metis empty_iff in_set_remove1 list.set(1))
    then have "walk_step s bs {c} s' (?as @ [c]) []"
      using True s' as' exp by (auto simp: walk_step_def walk_inv_def)
    with s' show ?thesis by blast
  next
    case False
    have "walk_step s bs {c} s' ?as (?bs @ [c])"
      using False s' as' exp sub by (auto simp: walk_step_def walk_inv_def ohd_def)
    with s' show ?thesis by blast
  qed
qed

lemma stop_walk:
  assumes inv: "walk_inv s as bs" "sctp_os_timer_next s = ohd bs"
  shows "\<exists>r s' as' bs'. sctp_os_timer_stop c s = Some (r, s') \<and> walk_step s bs {c} s' as' bs'"
proof -
  have inv': "callout_inv s (as @ bs)" using inv(1) by (simp add: walk_inv_def)
  then have d: "distinct (as @ bs)" unfolding callout_inv_def by (blast dest: tq_rep_distinct)
  obtain s' where s': "sctp_os_timer_stop c s = Some (if c \<in> set (as @ bs) then 1 else 0, s')"
    "callout_inv s' (remove1 c as @ remove1 c bs)" "sctp_os_timer_next s' = ohd (remove1 c bs)"
    "ticks s' = ticks s" "\<And>d. c_time (timers s' d) = c_time (timers s d)"
    using timer_stop_inv [OF inv' inv(2), of c] by blast
  have exp: "expired s' = expired s" using s'(4,5) by (auto simp: fun_eq_iff expired_def)
  have "subseq (filter (expired s) (remove1 c bs)) (filter (expired s) bs)"
    using d by (simp add: distinct_remove1_removeAll removeAll_filter_not_eq subseq_filter del: filter_filter)
  then have "walk_step s bs {c} s' (remove1 c as) (remove1 c bs)"
    using s' exp inv(1) by (auto simp: walk_step_def walk_inv_def dest: notin_set_remove1)
  with s'(1) show ?thesis by blast
qed

lemma do_call_walk:
  assumes "walk_inv s as bs" "sctp_os_timer_next s = ohd bs" "call_fits (ticks s) x"
  shows "\<exists>s' as' bs'. do_call x s = Some s' \<and> walk_step s bs (set_option (call_target x)) s' as' bs'"
proof (cases x)
  case (Start co to_ticks fo arg)
  show ?thesis
  proof (cases "co = None \<or> fo = None")
    case True
    then have "do_call x s = Some s"
      using Start by (auto simp: sctp_os_timer_start_def split: option.split)
    then show ?thesis using walk_step_refl [OF assms(1,2)] by blast
  next
    case False
    then show ?thesis using start_walk [OF assms(1,2)] assms(3) Start by auto
  qed
next
  case (Stop c)
  then show ?thesis using stop_walk [OF assms(1,2), of c] by fastforce
qed

lemma do_calls_walk:
  assumes "walk_inv s as bs" "sctp_os_timer_next s = ohd bs" "\<forall>x\<in>set xs. call_fits (ticks s) x"
  shows "\<exists>s' as' bs'. do_calls xs s = Some s' \<and>
    walk_step s bs (\<Union>x\<in>set xs. set_option (call_target x)) s' as' bs'"
  using assms
proof (induction xs arbitrary: s as bs)
  case Nil
  then show ?case using walk_step_refl by fastforce
next
  case (Cons x xs)
  then obtain s1 as1 bs1 where 1: "do_call x s = Some s1"
    "walk_step s bs (set_option (call_target x)) s1 as1 bs1"
    using do_call_walk by (metis list.set_intros(1))
  moreover have "\<forall>x\<in>set xs. call_fits (ticks s1) x"
    using Cons.prems(3) 1(2) by (simp add: walk_step_def)
  ultimately obtain s2 as2 bs2 where "do_calls xs s1 = Some s2"
    "walk_step s1 bs1 (\<Union>x\<in>set xs. set_option (call_target x)) s2 as2 bs2"
    using Cons.IH [of s1 as1 bs1] unfolding walk_step_def by metis
  with 1 walk_step_trans [OF 1(2)] show ?case by fastforce
qed

lemma fire_eq:
  assumes "callout_inv s (as @ c # bs)"
  obtains s1 f where "fire cb c s = do_calls (cb f (c_arg (timers s c)) s1) s1"
    "c_func (timers s c) = Some f" "callout_inv s1 (as @ bs)" "sctp_os_timer_next s1 = ohd bs"
    "ticks s1 = ticks s" "\<And>d. c_time (timers s1 d) = c_time (timers s d)"
proof -
  have rep: "tq_rep (callqueue s) (as @ c # bs)" and ok: "timers_ok s (set (as @ c # bs))"
    using assms by (auto simp: callout_inv_def)
  obtain q where q: "TAILQ_REMOVE c (callqueue s) = Some q" "tq_rep q (as @ bs)"
    using tq_rep_remove [OF rep] by blast
  obtain f where f: "c_func (timers s c) = Some f" using ok by (auto simp: timers_ok_def)
  define s1 where "s1 = upd_timer c (\<lambda>t. t\<lparr>c_flags := c_flags t AND NOT SCTP_CALLOUT_PENDING\<rparr>)
    (s\<lparr>sctp_os_timer_next := ohd bs, callqueue := q\<rparr>)"
  have "fire cb c s = do_calls (cb f (c_arg (timers s c)) s1) s1"
    using q(1) f tq_rep_next [OF rep] by (simp add: fire_def Let_def s1_def ohd_def)
  moreover have "timers_ok s1 (set (as @ bs))"
    using ok tq_rep_distinct [OF rep] by (auto simp: timers_ok_def s1_def SCTP_OS_TIMER_PENDING_def)
  moreover have "c_time (timers s1 d) = c_time (timers s d)" for d by (simp add: s1_def)
  ultimately show ?thesis using that [of f s1] f q(2) by (auto simp: callout_inv_def s1_def)
qed

definition untouched :: "('c, 'f, 'a) callbacks \<Rightarrow> 'c \<Rightarrow> bool" where
  "untouched cb c \<longleftrightarrow> (\<forall>f arg s. \<forall>x\<in>set (cb f arg s). call_target x \<noteq> Some c)"

definition calls_fit :: "('c, 'f, 'a) callbacks \<Rightarrow> u32 \<Rightarrow> bool" where
  "calls_fit cb T \<longleftrightarrow> (\<forall>f arg s. ticks s = T \<longrightarrow> (\<forall>x\<in>set (cb f arg s). call_fits T x))"

lemma fire_walk:
  assumes "walk_inv s as (c # bs)" "calls_fit cb (ticks s)"
  obtains s' as' bs' where "fire cb c s = Some s'" "walk_inv s' as' bs'"
    "sctp_os_timer_next s' = ohd bs'" "ticks s' = ticks s"
    "subseq (filter (expired s') bs') (filter (expired s) bs)"
    "\<And>d. untouched cb d \<Longrightarrow> d \<in> set bs \<Longrightarrow> expired s d \<Longrightarrow> d \<in> set bs' \<and> expired s' d"
proof -
  have "callout_inv s (as @ c # bs)" using assms(1) by (simp add: walk_inv_def)
  then obtain s1 f where s1: "fire cb c s = do_calls (cb f (c_arg (timers s c)) s1) s1"
    "callout_inv s1 (as @ bs)" "sctp_os_timer_next s1 = ohd bs" "ticks s1 = ticks s"
    "\<And>d. c_time (timers s1 d) = c_time (timers s d)"
    by (metis fire_eq [of s as c bs cb])
  have exp: "expired s1 = expired s" using s1(4,5) by (auto simp: fun_eq_iff expired_def)
  then have walk: "walk_inv s1 as bs" using assms(1) s1(2) by (simp add: walk_inv_def)
  let ?xs = "cb f (c_arg (timers s c)) s1"
  have "\<forall>x\<in>set ?xs. call_fits (ticks s1) x" using assms(2) s1(4) by (auto simp: calls_fit_def)
  then obtain s' as' bs' where "do_calls ?xs s1 = Some s'"
    "walk_step s1 bs (\<Union>x\<in>set ?xs. set_option (call_target x)) s' as' bs'"
    using do_calls_walk [OF walk s1(3)] by blast
  with that [of s' as' bs'] s1(1,4) exp show ?thesis by (auto simp: walk_step_def untouched_def)
qed

lemma tick_loop_correct:
  assumes "walk_inv s as bs" "calls_fit cb (ticks s)"
  shows "\<exists>s' fired ys. tick_loop cb (ohd bs) s = Some (s', fired) \<and> callout_inv s' ys \<and>
    (\<forall>c\<in>set ys. \<not> expired s' c) \<and> ticks s' = ticks s \<and> subseq fired (filter (expired s) bs) \<and>
    (\<forall>c\<in>set bs. expired s c \<longrightarrow> untouched cb c \<longrightarrow> c \<in> set fired)"
  using assms
proof (induction "(length (filter (expired s) bs), length bs)" arbitrary: s as bs
    rule: wf_induct_rule [OF wf_lex_prod [OF wf_less_than wf_less_than]])
  case (1 s bs as)
  show ?case
  proof (cases bs)
    case Nil
    with 1(2) show ?thesis by (auto simp: tick_loop.simps [of cb None] walk_inv_def)
  next
    case (Cons c cs)
    show ?thesis
    proof (cases "expired s c")
      case True
      obtain s' as' bs' where s': "fire cb c s = Some s'" "walk_inv s' as' bs'"
        "sctp_os_timer_next s' = ohd bs'" "ticks s' = ticks s"
        "subseq (filter (expired s') bs') (filter (expired s) cs)"
        "\<And>d. untouched cb d \<Longrightarrow> d \<in> set cs \<Longrightarrow> expired s d \<Longrightarrow> d \<in> set bs' \<and> expired s' d"
        using fire_walk [of s as c cs cb] 1(2,3) Cons by metis
      have "((length (filter (expired s') bs'), length bs'), length (filter (expired s) bs), length bs)
          \<in> less_than <*lex*> less_than"
        using list_emb_length [OF s'(5)] True Cons by simp
      from 1(1) [OF this s'(2)] s'(4) 1(3) obtain s2 fired ys where 2: "tick_loop cb (ohd bs') s' = Some (s2, fired)"
        "callout_inv s2 ys" "\<forall>c\<in>set ys. \<not> expired s2 c" "ticks s2 = ticks s"
        "subseq fired (filter (expired s') bs')"
        "\<forall>c\<in>set bs'. expired s' c \<longrightarrow> untouched cb c \<longrightarrow> c \<in> set fired"
        by auto
      have "tick_loop cb (ohd bs) s = Some (s2, c # fired)"
        using Cons True s'(1,3) 2(1) by (simp add: tick_loop.simps [of cb "Some c"] expired_def)
      moreover have "subseq (c # fired) (filter (expired s) bs)"
        using Cons True subseq_order.order_trans [OF 2(5) s'(5)] by simp
      moreover have "\<forall>d\<in>set bs. expired s d \<longrightarrow> untouched cb d \<longrightarrow> d \<in> set (c # fired)"
        using Cons s'(6) 2(6) by auto
      ultimately show ?thesis using 2(2,3,4) by blast
    next
      case False
      have "walk_inv s (as @ [c]) cs" using 1(2) Cons False by (auto simp: walk_inv_def)
      moreover have "((length (filter (expired s) cs), length cs), length (filter (expired s) bs), length bs)
          \<in> less_than <*lex*> less_than"
        using Cons False by simp
      moreover have "TAILQ_NEXT (callqueue s) c = ohd cs"
        using 1(2) Cons tq_rep_next [of "callqueue s" as c cs] by (simp add: walk_inv_def callout_inv_def ohd_def)
      then have "tick_loop cb (ohd bs) s = tick_loop cb (ohd cs) s"
        using Cons False by (simp add: tick_loop.simps [of cb "Some c"] expired_def)
      ultimately show ?thesis
        using 1(1) [of s cs "as @ [c]"] 1(3) Cons False by auto
    qed
  qed
qed

text \<open>Without the bound on the counter: the queue stays consistent whenever the walk ends.\<close>

lemma tick_loop_inv:
  assumes "tick_loop cb co s = Some r" "callout_inv s (as @ bs)" "co = ohd bs"
  shows "\<exists>ys. callout_inv (fst r) ys"
  using assms(2,3)
proof (induction arbitrary: as bs rule: tick_loop.raw_induct [OF _ assms(1)])
  case (1 loop cb co s r)
  show ?case
  proof (cases bs)
    case Nil
    with 1 show ?thesis by auto
  next
    case (Cons c cs)
    show ?thesis
    proof (cases "sint (c_time (timers s c)) \<le> sint (ticks s)")
      case True
      obtain s1 f where s1: "fire cb c s = do_calls (cb f (c_arg (timers s c)) s1) s1"
        "callout_inv s1 (as @ cs)" "sctp_os_timer_next s1 = ohd cs"
        using 1(3) Cons by (metis fire_eq [of s as c cs cb])
      then obtain s2 as2 bs2 where s2: "fire cb c s = Some s2" "callout_inv s2 (as2 @ bs2)"
        "sctp_os_timer_next s2 = ohd bs2"
        using do_calls_inv [OF s1(2,3)] by metis
      with 1(2) Cons True 1(4) obtain r' where "loop cb (ohd bs2) s2 = Some r'" "fst r = fst r'"
        by (auto split: Option.bind_splits)
      with 1(1) [OF this(1) s2(2) refl] show ?thesis by simp
    next
      case False
      have "TAILQ_NEXT (callqueue s) c = ohd cs"
        using 1(3) Cons tq_rep_next [of "callqueue s" as c cs] by (simp add: callout_inv_def ohd_def)
      with 1(2,4) False Cons have "loop cb (ohd cs) s = Some r" by simp
      from 1(1) [OF this, of "as @ [c]" cs] 1(3) Cons show ?thesis by simp
    qed
  qed
qed

section \<open>Properties\<close>

lemma subseq_setD: "subseq xs ys \<Longrightarrow> set xs \<subseteq> set ys"
  by (auto simp: subseq_conv_nths dest: in_set_nthsD)

lemma subseq_distinctD: "subseq xs ys \<Longrightarrow> distinct ys \<Longrightarrow> distinct xs"
  by (auto simp: subseq_conv_nths distinct_nthsI)

lemma callout_inv_ticks [simp]: "callout_inv (s\<lparr>ticks := T\<rparr>) xs = callout_inv s xs"
  by (simp add: callout_inv_def timers_ok_def)

lemma callout_inv_next [simp]: "callout_inv (s\<lparr>sctp_os_timer_next := n\<rparr>) xs = callout_inv s xs"
  by (simp add: callout_inv_def timers_ok_def)

lemma callout_inv_first: "callout_inv s xs \<Longrightarrow> TAILQ_FIRST (callqueue s) = ohd xs"
  by (simp add: callout_inv_def tq_rep_first ohd_def)

lemma handle_tick_total:
  assumes "callout_inv s xs" "calls_fit cb (ticks s + delta)"
  obtains s' fired ys where "sctp_handle_tick cb delta s = Some (s', fired)"
    "callout_inv s' ys" "\<forall>c\<in>set ys. \<not> expired s' c" "ticks s' = ticks s + delta"
    "sctp_os_timer_next s' = None"
    "subseq fired (filter (expired (s\<lparr>ticks := ticks s + delta\<rparr>)) xs)"
    "\<forall>c\<in>set xs. expired (s\<lparr>ticks := ticks s + delta\<rparr>) c \<longrightarrow> untouched cb c \<longrightarrow> c \<in> set fired"
proof -
  let ?s = "s\<lparr>ticks := ticks s + delta\<rparr>"
  have "walk_inv ?s [] xs" using assms(1) by (simp add: walk_inv_def)
  with tick_loop_correct [OF this, of cb] assms(2) obtain s' fired ys where
    s': "tick_loop cb (ohd xs) ?s = Some (s', fired)" "callout_inv s' ys"
    "\<forall>c\<in>set ys. \<not> expired s' c" "ticks s' = ticks s + delta" "subseq fired (filter (expired ?s) xs)"
    "\<forall>c\<in>set xs. expired ?s c \<longrightarrow> untouched cb c \<longrightarrow> c \<in> set fired" by auto
  moreover have "expired (s'\<lparr>sctp_os_timer_next := None\<rparr>) = expired s'"
    by (auto simp: fun_eq_iff expired_def)
  ultimately show ?thesis
    using that [of "s'\<lparr>sctp_os_timer_next := None\<rparr>" fired ys] callout_inv_first [OF assms(1)]
    by (simp add: sctp_handle_tick_def)
qed

text \<open>
  C17: a tick comes to an end whatever timers its callbacks stop, start or restart, as long as the
  times they set do not overflow the counter. Afterwards no queued timer is expired, the pending
  flag still says which timers are queued, each timer fired was queued and expired and fired once,
  in the order of the queue, and every expired timer that no callback touched has fired.
\<close>

theorem handle_tick_correct:
  assumes "callout_inv s xs" "calls_fit cb (ticks s + delta)"
  shows "\<exists>s' fired ys. sctp_handle_tick cb delta s = Some (s', fired) \<and>
    callout_inv s' ys \<and> (\<forall>c\<in>set ys. \<not> expired s' c) \<and>
    distinct fired \<and> subseq fired (filter (expired (s\<lparr>ticks := ticks s + delta\<rparr>)) xs) \<and>
    (\<forall>c\<in>set xs. expired (s\<lparr>ticks := ticks s + delta\<rparr>) c \<longrightarrow> untouched cb c \<longrightarrow> c \<in> set fired)"
proof -
  have "distinct xs" using assms(1) by (auto simp: callout_inv_def dest: tq_rep_distinct)
  then show ?thesis
    using handle_tick_total [OF assms] by (metis distinct_filter subseq_distinctD)
qed

definition no_timers :: "(nat, nat, nat) timer_state" where
  "no_timers = \<lparr>timers = \<lambda>_. \<lparr>c_time = 0, c_arg = None, c_func = None, c_flags = 0\<rparr>,
     callqueue = \<lparr>tqh_first = None, tqh_last = HeadFirst, tqe_next = \<lambda>_. None, tqe_prev = \<lambda>_. None\<rparr>,
     ticks = 0, sctp_os_timer_next = None\<rparr>"

lemma no_timers_inv: "callout_inv no_timers []"
  by (simp add: callout_inv_def no_timers_def tq_rep_def timers_ok_def SCTP_OS_TIMER_PENDING_def)

text \<open>A callback that restarts its own timer 1 and stops timer 2.\<close>

definition demo_callbacks :: "(nat, nat, nat) callbacks" where
  "demo_callbacks f arg s = [Start (Some 1) 100 (Some f) arg, Stop 2]"

definition demo_timers :: "(nat, nat, nat) timer_state" where
  "demo_timers = the (do_calls [Start (Some 1) 5 (Some 0) None, Start (Some 2) 5 (Some 0) None,
     Start (Some 3) 50 (Some 0) None, Start (Some 4) 7 (Some 0) None] no_timers)"

lemma demo_timers_inv: "callout_inv demo_timers [1, 2, 3, 4]"
proof -
  note step = timer_start_inv [where bs = "[]", simplified]
  obtain s1 where 1: "sctp_os_timer_start (Some 1) 5 (Some 0) None no_timers = Some s1"
    "callout_inv s1 [1]" "sctp_os_timer_next s1 = None"
    using step [of no_timers "[]" "1 :: nat" 5 0 None] no_timers_inv by (auto simp: no_timers_def)
  obtain s2 where 2: "sctp_os_timer_start (Some 2) 5 (Some 0) None s1 = Some s2"
    "callout_inv s2 [1, 2]" "sctp_os_timer_next s2 = None"
    using step [of s1 "[1]" "2 :: nat" 5 0 None] 1 by auto
  obtain s3 where 3: "sctp_os_timer_start (Some 3) 50 (Some 0) None s2 = Some s3"
    "callout_inv s3 [1, 2, 3]" "sctp_os_timer_next s3 = None"
    using step [of s2 "[1, 2]" "3 :: nat" 50 0 None] 2 by auto
  obtain s4 where 4: "sctp_os_timer_start (Some 4) 7 (Some 0) None s3 = Some s4"
    "callout_inv s4 [1, 2, 3, 4]"
    using step [of s3 "[1, 2, 3]" "4 :: nat" 7 0 None] 3 by auto
  have "demo_timers = s4" using 1(1) 2(1) 3(1) 4(1) by (simp add: demo_timers_def)
  with 4(2) show ?thesis by simp
qed

theorem handle_tick_correct_witness:
  "callout_inv demo_timers [1, 2, 3, 4] \<and> calls_fit demo_callbacks (ticks demo_timers + 10) \<and>
   (\<exists>s' fired ys. sctp_handle_tick demo_callbacks 10 demo_timers = Some (s', fired) \<and>
     callout_inv s' ys \<and> (\<forall>c\<in>set ys. \<not> expired s' c) \<and> distinct fired)"
proof -
  have "ticks demo_timers = 0"
    by (simp add: demo_timers_def no_timers_def sctp_os_timer_start_def SCTP_OS_TIMER_PENDING_def)
  then have "calls_fit demo_callbacks (ticks demo_timers + 10)"
    by (auto simp: calls_fit_def demo_callbacks_def)
  with handle_tick_correct [OF demo_timers_inv this] demo_timers_inv show ?thesis by blast
qed

text \<open>
  The states the stack can reach from an empty queue by timer calls of any thread, initialisation
  of timers that are not pending, and ticks.
\<close>

inductive timer_reach :: "('c, 'f, 'a) callbacks \<Rightarrow> ('c, 'f, 'a) timer_state \<Rightarrow> bool"
  for cb :: "('c, 'f, 'a) callbacks" where
  reach_init: "callqueue s = TAILQ_INIT q \<Longrightarrow> sctp_os_timer_next s = None \<Longrightarrow>
    (\<And>c. c_flags (timers s c) = 0) \<Longrightarrow> timer_reach cb s"
| reach_call: "timer_reach cb s \<Longrightarrow> do_call x s = Some s' \<Longrightarrow> timer_reach cb s'"
| reach_timer_init: "timer_reach cb s \<Longrightarrow> \<not> SCTP_OS_TIMER_PENDING (timers s c) \<Longrightarrow>
    timer_reach cb (sctp_os_timer_init c s)"
| reach_tick: "timer_reach cb s \<Longrightarrow> sctp_handle_tick cb delta s = Some (s', fired) \<Longrightarrow> timer_reach cb s'"

lemma timer_init_inv:
  assumes "callout_inv s xs" "\<not> SCTP_OS_TIMER_PENDING (timers s c)"
  shows "callout_inv (sctp_os_timer_init c s) xs"
proof -
  have "c \<notin> set xs" using assms by (auto simp: callout_inv_def timers_ok_def)
  with assms(1) tq_rep_clear_links show ?thesis
    by (auto simp: callout_inv_def timers_ok_def sctp_os_timer_init_def SCTP_OS_TIMER_PENDING_def)
qed

lemma timer_reach_inv:
  "timer_reach cb s \<Longrightarrow> (\<exists>xs. callout_inv s xs) \<and> sctp_os_timer_next s = None"
proof (induction rule: timer_reach.induct)
  case (reach_init s q)
  then have "callout_inv s []"
    by (simp add: callout_inv_def timers_ok_def SCTP_OS_TIMER_PENDING_def)
  with reach_init show ?case by blast
next
  case (reach_call s x s')
  then obtain xs where "callout_inv s (xs @ [])" "sctp_os_timer_next s = ohd []" by auto
  note step = do_call_inv [OF this, of x]
  have "sctp_os_timer_next s' = None"
  proof (cases x)
    case (Start co t fo arg)
    then show ?thesis using reach_call
      by (auto simp: sctp_os_timer_start_def timer_unlink_def Let_def
          split: option.splits if_splits)
  next
    case (Stop c)
    then show ?thesis using reach_call
      by (auto simp: sctp_os_timer_stop_def timer_unlink_def Let_def split: option.splits if_splits)
  qed
  with step reach_call.hyps(2) show ?case by auto
next
  case (reach_timer_init s c)
  moreover have "sctp_os_timer_next (sctp_os_timer_init c s) = sctp_os_timer_next s"
    by (simp add: sctp_os_timer_init_def)
  ultimately show ?case using timer_init_inv by metis
next
  case (reach_tick s delta s' fired)
  then obtain xs where xs: "callout_inv s xs" by blast
  let ?s = "s\<lparr>ticks := ticks s + delta\<rparr>"
  obtain s2 where "tick_loop cb (ohd xs) ?s = Some (s2, fired)" "s' = s2\<lparr>sctp_os_timer_next := None\<rparr>"
    using reach_tick.hyps(2) callout_inv_first [OF xs]
    by (auto simp: sctp_handle_tick_def)
  with tick_loop_inv [of cb "ohd xs" ?s "(s2, fired)" "[]" xs] xs show ?case by auto
qed

text \<open>
  C24: in every reachable state, also after the counter has overflowed, walking the queue ends and
  finds exactly the timers whose PENDING flag is set, each once, and every start or stop from there
  goes through without following a NULL link.
\<close>

theorem timer_queue_reachable:
  assumes "timer_reach cb s"
  shows "\<exists>xs. TAILQ_FOREACH (callqueue s) (TAILQ_FIRST (callqueue s)) = Some xs \<and> distinct xs \<and>
    (\<forall>c. SCTP_OS_TIMER_PENDING (timers s c) \<longleftrightarrow> c \<in> set xs) \<and> (\<forall>x. do_call x s \<noteq> None)"
proof -
  obtain xs where xs: "callout_inv s xs" "sctp_os_timer_next s = None"
    using timer_reach_inv [OF assms] by blast
  then have rep: "tq_rep (callqueue s) xs" by (simp add: callout_inv_def)
  have "do_call x s \<noteq> None" for x
    using do_call_inv [of s xs "[]" x] xs by auto
  with foreach_from [of "callqueue s" "[]" xs] rep xs show ?thesis
    by (auto simp: tq_rep_first tq_rep_distinct callout_inv_def timers_ok_def)
qed

theorem timer_queue_reachable_witness:
  "timer_reach demo_callbacks no_timers \<and>
   (\<exists>xs. TAILQ_FOREACH (callqueue no_timers) (TAILQ_FIRST (callqueue no_timers)) = Some xs \<and> distinct xs)"
proof -
  have "timer_reach demo_callbacks no_timers"
    by (rule reach_init [of _ "callqueue no_timers"]) (simp_all add: no_timers_def TAILQ_INIT_def)
  with timer_queue_reachable [OF this] show ?thesis by blast
qed

text \<open>
  \<^verbatim>\<open>sctp_os_timer_stop\<close> returns 1 exactly for a pending timer, and a timer that was stopped
  does not fire at the next tick, even when a callback of that tick starts it again.
\<close>

theorem timer_stop_prevents_firing:
  assumes "callout_inv s xs" "sctp_os_timer_next s = None" "calls_fit cb (ticks s + delta)"
  shows "\<exists>r s' s'' fired. sctp_os_timer_stop c s = Some (r, s') \<and>
    (r = 1 \<longleftrightarrow> SCTP_OS_TIMER_PENDING (timers s c)) \<and> \<not> SCTP_OS_TIMER_PENDING (timers s' c) \<and>
    sctp_handle_tick cb delta s' = Some (s'', fired) \<and> c \<notin> set fired"
proof -
  obtain s' where s': "sctp_os_timer_stop c s = Some (if c \<in> set xs then 1 else 0, s')"
    "callout_inv s' (remove1 c xs)" "ticks s' = ticks s" "\<not> SCTP_OS_TIMER_PENDING (timers s' c)"
    using timer_stop_inv [of s xs "[]" c] assms(1,2) by auto
  have d: "distinct xs" using assms(1) by (auto simp: callout_inv_def dest: tq_rep_distinct)
  have fit: "calls_fit cb (ticks s' + delta)" using assms(3) s'(3) by simp
  obtain s'' fired ys where f: "sctp_handle_tick cb delta s' = Some (s'', fired)"
    "callout_inv s'' ys" "\<forall>c\<in>set ys. \<not> expired s'' c" "ticks s'' = ticks s' + delta"
    "sctp_os_timer_next s'' = None"
    "subseq fired (filter (expired (s'\<lparr>ticks := ticks s' + delta\<rparr>)) (remove1 c xs))"
    "\<forall>d\<in>set (remove1 c xs). expired (s'\<lparr>ticks := ticks s' + delta\<rparr>) d \<longrightarrow>
      untouched cb d \<longrightarrow> d \<in> set fired"
    by (rule handle_tick_total [OF s'(2) fit])
  have "c \<notin> set fired" using d subseq_setD [OF f(6)] by auto
  with s' f(1) show ?thesis
    using assms(1) by (auto simp: callout_inv_def timers_ok_def)
qed

theorem timer_stop_prevents_firing_witness:
  "\<exists>r s' s'' fired. sctp_os_timer_stop 4 demo_timers = Some (r, s') \<and>
    (r = 1 \<longleftrightarrow> SCTP_OS_TIMER_PENDING (timers demo_timers 4)) \<and>
    sctp_handle_tick demo_callbacks 10 s' = Some (s'', fired) \<and> 4 \<notin> set fired"
proof -
  have next_ticks: "sctp_os_timer_next demo_timers = None" "ticks demo_timers = 0"
    by (simp_all add: demo_timers_def no_timers_def sctp_os_timer_start_def SCTP_OS_TIMER_PENDING_def)
  then have "calls_fit demo_callbacks (ticks demo_timers + 10)"
    by (auto simp: calls_fit_def demo_callbacks_def)
  with timer_stop_prevents_firing [OF demo_timers_inv next_ticks(1) this, of 4] show ?thesis by blast
qed

lemma start_then_tick:
  assumes "callout_inv s xs" "sctp_os_timer_next s = None" "untouched cb c"
    "calls_fit cb (ticks s + delta)" "0 < sint to_ticks"
  obtains s' s'' fired where "sctp_os_timer_start (Some c) to_ticks (Some f) arg s = Some s'"
    "sctp_handle_tick cb delta s' = Some (s'', fired)"
    "c \<in> set fired \<longleftrightarrow> sint (ticks s + to_ticks) \<le> sint (ticks s + delta)"
proof -
  obtain s' where s': "sctp_os_timer_start (Some c) to_ticks (Some f) arg s = Some s'"
    "callout_inv s' (remove1 c xs @ [c])" "ticks s' = ticks s"
    "timers s' = (timers s)(c := started to_ticks f arg (ticks s))"
    using timer_start_inv [of s xs "[]" c to_ticks f arg] assms(1,2) by auto
  have exp: "expired (s'\<lparr>ticks := ticks s' + delta\<rparr>) c \<longleftrightarrow> sint (ticks s + to_ticks) \<le> sint (ticks s + delta)"
    using s'(3,4) assms(5) by (simp add: expired_def started_def)
  have fit: "calls_fit cb (ticks s' + delta)" using assms(4) s'(3) by simp
  obtain s'' fired ys where f: "sctp_handle_tick cb delta s' = Some (s'', fired)"
    "callout_inv s'' ys" "\<forall>c\<in>set ys. \<not> expired s'' c" "ticks s'' = ticks s' + delta"
    "sctp_os_timer_next s'' = None"
    "subseq fired (filter (expired (s'\<lparr>ticks := ticks s' + delta\<rparr>)) (remove1 c xs @ [c]))"
    "\<forall>d\<in>set (remove1 c xs @ [c]). expired (s'\<lparr>ticks := ticks s' + delta\<rparr>) d \<longrightarrow>
      untouched cb d \<longrightarrow> d \<in> set fired"
    by (rule handle_tick_total [OF s'(2) fit])
  have "c \<in> set fired \<longleftrightarrow> expired (s'\<lparr>ticks := ticks s' + delta\<rparr>) c"
    using f(7) assms(3) subseq_setD [OF f(6)] by (auto simp: subset_iff split: if_splits)
  with exp s'(1) f(1) that show ?thesis by metis
qed

text \<open>
  timers are punctual: as long as the counter does not overflow, a timer started for
  \<open>to_ticks\<close> fires at a tick of \<open>delta\<close> if and only if its time has passed.
\<close>

theorem timer_start_punctual:
  assumes "callout_inv s xs" "sctp_os_timer_next s = None" "untouched cb c"
    "calls_fit cb (ticks s + delta)" "0 < sint to_ticks" "0 \<le> sint delta"
    "sint (ticks s) + sint to_ticks < 2 ^ 31" "sint (ticks s) + sint delta < 2 ^ 31"
  shows "\<exists>s' s'' fired. sctp_os_timer_start (Some c) to_ticks (Some f) arg s = Some s' \<and>
    sctp_handle_tick cb delta s' = Some (s'', fired) \<and>
    (c \<in> set fired \<longleftrightarrow> sint to_ticks \<le> sint delta)"
  using start_then_tick [OF assms(1-5)] sint_add_fits [of to_ticks "ticks s"]
    sint_add_fits [of delta "ticks s"] assms(5-)
  by (smt (verit))

definition quiet :: "(nat, nat, nat) callbacks" where
  "quiet f arg s = []"

lemma quiet_facts: "untouched quiet c" "calls_fit quiet T"
  by (simp_all add: untouched_def calls_fit_def quiet_def)

theorem timer_start_punctual_witness:
  "\<exists>s' s'' fired. sctp_os_timer_start (Some 9) 30 (Some 0) None no_timers = Some s' \<and>
    sctp_handle_tick quiet 10 s' = Some (s'', fired) \<and>
    (9 \<in> set fired \<longleftrightarrow> sint (30 :: u32) \<le> sint (10 :: u32))"
  by (rule timer_start_punctual [OF no_timers_inv _ quiet_facts])
    (simp_all add: no_timers_def)

text \<open>
  C30: when the sum of the counter and the delay exceeds the signed range, the timer's time is in
  the past at once: it fires at the very next tick, however long the delay. (The counter gets there
  after \<open>2 ^ 31\<close> ticks of one millisecond, less than 25 days.)
\<close>

theorem timer_start_overflow_fires_early:
  assumes "callout_inv s xs" "sctp_os_timer_next s = None" "untouched cb c"
    "calls_fit cb (ticks s + delta)" "0 < sint to_ticks" "0 \<le> sint delta"
    "2 ^ 31 \<le> sint (ticks s) + sint to_ticks" "sint (ticks s) + sint delta < 2 ^ 31"
  shows "\<exists>s' s'' fired. sctp_os_timer_start (Some c) to_ticks (Some f) arg s = Some s' \<and>
    sctp_handle_tick cb delta s' = Some (s'', fired) \<and> c \<in> set fired"
proof -
  have "sint to_ticks < 2 ^ 31" using sint_lt [of to_ticks] by simp
  then have "sint (ticks s + to_ticks) \<le> sint (ticks s + delta)"
    using sint_add_overflow [OF assms(7)] sint_add_fits [OF assms(6,8)] assms(6) by simp
  then show ?thesis using start_then_tick [OF assms(1-5)] by metis
qed

theorem timer_start_overflow_fires_early_witness:
  "\<exists>s' s'' fired. sctp_os_timer_start (Some 9) 60000 (Some 0) None (no_timers\<lparr>ticks := 0x7fffff00\<rparr>) = Some s' \<and>
    sctp_handle_tick quiet 10 s' = Some (s'', fired) \<and> 9 \<in> set fired"
proof -
  have inv: "callout_inv (no_timers\<lparr>ticks := 0x7fffff00\<rparr>) []" using no_timers_inv by simp
  show ?thesis
    by (rule timer_start_overflow_fires_early [OF inv _ quiet_facts]) (simp_all add: no_timers_def)
qed

end
