(* ===== verification/Stream_Sched.thy ===== *)
theory Stream_Sched
  imports Tailq "HOL-Library.Monad_Syntax"
begin

text \<open>
  The stream schedulers of netinet/sctp_ss_functions.c: which outgoing stream of an association
  sends next. Streams with data sit on a wheel, a tail queue linked through the streams
  (default, round robin, round robin per packet, priority, fair bandwidth), or the messages sit on
  one list (first come first served). Every function of the file is one definition, \<open>None\<close> being
  the dereference of a NULL link or a loop that does not end.

  Streams, messages and destinations are addresses; \<open>strmout\<close> is the address of the array of
  streams, its element \<open>i\<close> has address \<open>strmout + i\<close>. The send lock taken around the bodies makes
  them atomic and is not represented. The wheel and the message list share a union in the code;
  each scheduler uses one of them and sets it up in its init function, so they are two fields here.
\<close>

section \<open>State\<close>

text \<open>The fields of a pending message that the schedulers read.\<close>

record sctp_stream_queue_pending =
  sp_net :: "nat option"
  sp_length :: u32
  sp_sid :: u16
  msg_is_complete :: u8
  some_taken :: u8

text \<open>
  A stream: its queue of pending messages, the word behind the links in \<^verbatim>\<open>ss_params\<close>, whose low half
  is the priority of the priority scheduler and which as a whole is the round counter of the fair
  bandwidth scheduler, and the stream id. The links themselves are in the wheel.
\<close>

record sctp_stream_out =
  outqueue :: "nat list"
  ss_word :: u32
  so_sid :: u16

datatype ss_module = SS_DEFAULT | SS_ROUND_ROBIN | SS_ROUND_ROBIN_PACKET | SS_PRIORITY
  | SS_FAIR_BANDWITH | SS_FIRST_COME

record sctp_association =
  locked_on_sending :: "nat option"
  last_out_stream :: "nat option"
  wheel :: "nat tailq"
  ss_list :: "nat tailq"
  streams :: "nat \<Rightarrow> sctp_stream_out"
  pendings :: "nat \<Rightarrow> sctp_stream_queue_pending"
  strmout :: nat
  streamoutcnt :: u16
  stream_queue_cnt :: u32
  idata_supported :: u8
  stream_scheduling_module :: ss_module
  sctp_cmt_on_off :: u32

definition priority :: "sctp_stream_out \<Rightarrow> u16" where
  "priority strq = ucast (ss_word strq)"

definition set_priority :: "u16 \<Rightarrow> sctp_stream_out \<Rightarrow> sctp_stream_out" where
  "set_priority v strq = strq\<lparr>ss_word := (ss_word strq AND 0xFFFF0000) OR ucast v\<rparr>"

definition rounds :: "sctp_stream_out \<Rightarrow> int" where
  "rounds strq = sint (ss_word strq)"

definition upd_stream :: "nat \<Rightarrow> (sctp_stream_out \<Rightarrow> sctp_stream_out) \<Rightarrow> sctp_association \<Rightarrow> sctp_association" where
  "upd_stream p f s = s\<lparr>streams := (streams s)(p := f (streams s p))\<rparr>"

text \<open>\<^verbatim>\<open>TAILQ_FIRST(&strq->outqueue)\<close>\<close>

definition first_pending :: "sctp_association \<Rightarrow> nat \<Rightarrow> nat option" where
  "first_pending s p = (case outqueue (streams s p) of [] \<Rightarrow> None | sp # _ \<Rightarrow> Some sp)"

definition unlinked :: "nat tailq \<Rightarrow> nat \<Rightarrow> bool" where
  "unlinked q p \<longleftrightarrow> tqe_next q p = None \<and> tqe_prev q p = None"

section \<open>Default scheduler\<close>

definition sctp_ss_default_add :: "nat \<Rightarrow> sctp_association \<Rightarrow> sctp_association option" where
  "sctp_ss_default_add strq asoc =
     (if outqueue (streams asoc strq) \<noteq> [] \<and> unlinked (wheel asoc) strq
      then Some (asoc\<lparr>wheel := TAILQ_INSERT_TAIL strq (wheel asoc)\<rparr>)
      else Some asoc)"

text \<open>The loop that empties the wheel; \<open>f\<close> is what a scheduler resets in each stream.\<close>

partial_function (option) clear_wheel :: "(sctp_stream_out \<Rightarrow> sctp_stream_out) \<Rightarrow>
    sctp_association \<Rightarrow> sctp_association option" where
  [code]: "clear_wheel f asoc =
     (case TAILQ_FIRST (wheel asoc) of
        None \<Rightarrow> Some asoc
      | Some strq \<Rightarrow> do {
          q \<leftarrow> TAILQ_REMOVE strq (wheel asoc);
          clear_wheel f ((upd_stream strq f asoc)\<lparr>wheel := clear_links strq q\<rparr>)
        })"

definition sctp_ss_default_clear :: "bool \<Rightarrow> sctp_association \<Rightarrow> sctp_association option" where
  "sctp_ss_default_clear clear_values asoc = do {
     asoc \<leftarrow> clear_wheel id asoc;
     Some (asoc\<lparr>last_out_stream := None\<rparr>)
   }"

definition moved_stream :: "nat \<Rightarrow> nat option \<Rightarrow> sctp_association \<Rightarrow> sctp_association" where
  "moved_stream strq with_strq asoc =
     (if with_strq = None then asoc
      else let asoc = (if locked_on_sending asoc = with_strq
                       then asoc\<lparr>locked_on_sending := Some strq\<rparr> else asoc)
           in if last_out_stream asoc = with_strq then asoc\<lparr>last_out_stream := Some strq\<rparr> else asoc)"

definition sctp_ss_default_init_stream :: "nat \<Rightarrow> nat option \<Rightarrow> sctp_association \<Rightarrow> sctp_association" where
  "sctp_ss_default_init_stream strq with_strq asoc =
     (let asoc = moved_stream strq with_strq asoc
      in asoc\<lparr>wheel := clear_links strq (wheel asoc)\<rparr>)"

definition sctp_ss_default_is_empty :: "sctp_association \<Rightarrow> bool" where
  "sctp_ss_default_is_empty asoc = TAILQ_EMPTY (wheel asoc)"

text \<open>Where the round robin restarts when its last stream leaves the wheel.\<close>

definition step_back :: "nat \<Rightarrow> sctp_association \<Rightarrow> sctp_association option" where
  "step_back strq asoc =
     (if last_out_stream asoc = Some strq
      then do {
        prev \<leftarrow> TAILQ_PREV (wheel asoc) strq;
        l \<leftarrow> (case prev of None \<Rightarrow> TAILQ_LAST (wheel asoc) | Some p \<Rightarrow> Some (Some p));
        Some (asoc\<lparr>last_out_stream := (if l = Some strq then None else l)\<rparr>)
      }
      else Some asoc)"

definition sctp_ss_default_remove :: "nat \<Rightarrow> sctp_association \<Rightarrow> sctp_association option" where
  "sctp_ss_default_remove strq asoc =
     (if outqueue (streams asoc strq) = [] \<and> \<not> unlinked (wheel asoc) strq
      then do {
        asoc \<leftarrow> step_back strq asoc;
        q \<leftarrow> TAILQ_REMOVE strq (wheel asoc);
        Some (asoc\<lparr>wheel := clear_links strq q\<rparr>)
      }
      else Some asoc)"

text \<open>
  The check against the requested destination: with CMT off, a stream whose first message is bound
  to another destination is skipped.
\<close>

definition wrong_net :: "sctp_association \<Rightarrow> nat option \<Rightarrow> nat \<Rightarrow> bool" where
  "wrong_net asoc net strq \<longleftrightarrow>
     net \<noteq> None \<and> sctp_cmt_on_off asoc = 0 \<and>
     (case first_pending asoc strq of None \<Rightarrow> False
      | Some sp \<Rightarrow> sp_net (pendings asoc sp) \<noteq> None \<and> sp_net (pendings asoc sp) \<noteq> net)"

definition wheel_next :: "sctp_association \<Rightarrow> nat option \<Rightarrow> nat option" where
  "wheel_next asoc strqt =
     (case strqt of
        None \<Rightarrow> TAILQ_FIRST (wheel asoc)
      | Some t \<Rightarrow> (case TAILQ_NEXT (wheel asoc) t of
            None \<Rightarrow> TAILQ_FIRST (wheel asoc)
          | Some n \<Rightarrow> Some n))"

text \<open>The loop behind the label \<^verbatim>\<open>default_again\<close>, over the successor function of the scheduler.\<close>

partial_function (option) again :: "(nat option \<Rightarrow> nat option) \<Rightarrow> sctp_association \<Rightarrow> nat option \<Rightarrow>
    nat option \<Rightarrow> nat option option" where
  [code]: "again succ asoc net strqt =
     (case succ strqt of
        None \<Rightarrow> Some None
      | Some strq \<Rightarrow>
          if wrong_net asoc net strq
          then (if Some strq = last_out_stream asoc then Some None
                else again succ asoc net (Some strq))
          else Some (Some strq))"

definition sctp_ss_default_select :: "nat option \<Rightarrow> sctp_association \<Rightarrow> nat option option" where
  "sctp_ss_default_select net asoc =
     (case locked_on_sending asoc of
        Some l \<Rightarrow> Some (Some l)
      | None \<Rightarrow> again (wheel_next asoc) asoc net (last_out_stream asoc))"

text \<open>Whether a stream must be kept until its message is out: only without I-DATA.\<close>

definition relock :: "nat \<Rightarrow> sctp_association \<Rightarrow> sctp_association" where
  "relock strq asoc =
     (if idata_supported asoc = 0
      then asoc\<lparr>locked_on_sending :=
             (case first_pending asoc strq of None \<Rightarrow> None
              | Some sp \<Rightarrow> if some_taken (pendings asoc sp) = 1 then Some strq else None)\<rparr>
      else asoc\<lparr>locked_on_sending := None\<rparr>)"

definition sctp_ss_default_scheduled :: "nat \<Rightarrow> sctp_association \<Rightarrow> sctp_association" where
  "sctp_ss_default_scheduled strq asoc = relock strq (asoc\<lparr>last_out_stream := Some strq\<rparr>)"

definition sctp_ss_default_packet_done :: "nat option \<Rightarrow> sctp_association \<Rightarrow> sctp_association option" where
  "sctp_ss_default_packet_done net asoc = Some asoc"

definition sctp_ss_default_get_value :: "nat option \<Rightarrow> sctp_association \<Rightarrow> int \<times> u16 option" where
  "sctp_ss_default_get_value strq asoc = (-1, None)"

definition sctp_ss_default_set_value :: "nat option \<Rightarrow> u16 \<Rightarrow> sctp_association \<Rightarrow> (int \<times> sctp_association) option" where
  "sctp_ss_default_set_value strq v asoc = Some (-1, asoc)"

definition sctp_ss_default_is_user_msgs_incomplete :: "sctp_association \<Rightarrow> bool" where
  "sctp_ss_default_is_user_msgs_incomplete asoc =
     (if stream_queue_cnt asoc \<noteq> 1 then False
      else case locked_on_sending asoc of
          None \<Rightarrow> False
        | Some strq \<Rightarrow> (case first_pending asoc strq of
              None \<Rightarrow> False
            | Some sp \<Rightarrow> msg_is_complete (pendings asoc sp) = 0))"

section \<open>Round robin schedulers\<close>

text \<open>
  Sorted insertion, shared by round robin (key: stream id) and priority (key: priority): before
  the first stream on the wheel whose key is not smaller, at the tail if there is none.
\<close>

definition insert_sorted_by :: "(sctp_stream_out \<Rightarrow> u16) \<Rightarrow> nat \<Rightarrow> sctp_association \<Rightarrow> sctp_association option" where
  "insert_sorted_by key strq asoc =
     (if TAILQ_EMPTY (wheel asoc)
      then Some (asoc\<lparr>wheel := TAILQ_INSERT_HEAD strq (wheel asoc)\<rparr>)
      else do {
        strqt \<leftarrow> tq_skip (TAILQ_NEXT (wheel asoc))
          (\<lambda>t. key (streams asoc t) < key (streams asoc strq)) (TAILQ_FIRST (wheel asoc));
        q \<leftarrow> (case strqt of
               Some t \<Rightarrow> TAILQ_INSERT_BEFORE t strq (wheel asoc)
             | None \<Rightarrow> Some (TAILQ_INSERT_TAIL strq (wheel asoc)));
        Some (asoc\<lparr>wheel := q\<rparr>)
      })"

definition sctp_ss_rr_add :: "nat \<Rightarrow> sctp_association \<Rightarrow> sctp_association option" where
  "sctp_ss_rr_add strq asoc =
     (if outqueue (streams asoc strq) \<noteq> [] \<and> unlinked (wheel asoc) strq
      then insert_sorted_by so_sid strq asoc
      else Some asoc)"

definition sctp_ss_rrp_select :: "nat option \<Rightarrow> sctp_association \<Rightarrow> nat option option" where
  "sctp_ss_rrp_select net asoc = Some (last_out_stream asoc)"

definition sctp_ss_rrp_packet_done :: "nat option \<Rightarrow> sctp_association \<Rightarrow> sctp_association option" where
  "sctp_ss_rrp_packet_done net asoc = do {
     strq \<leftarrow> again (wheel_next asoc) asoc net (last_out_stream asoc);
     Some (asoc\<lparr>last_out_stream := strq\<rparr>)
   }"

section \<open>Priority scheduler\<close>

definition sctp_ss_prio_clear :: "bool \<Rightarrow> sctp_association \<Rightarrow> sctp_association option" where
  "sctp_ss_prio_clear clear_values asoc = do {
     asoc \<leftarrow> clear_wheel (if clear_values then set_priority 0 else id) asoc;
     Some (asoc\<lparr>last_out_stream := None\<rparr>)
   }"

definition sctp_ss_prio_init_stream :: "nat \<Rightarrow> nat option \<Rightarrow> sctp_association \<Rightarrow> sctp_association" where
  "sctp_ss_prio_init_stream strq with_strq asoc =
     (let asoc = moved_stream strq with_strq asoc;
          asoc = asoc\<lparr>wheel := clear_links strq (wheel asoc)\<rparr>
      in upd_stream strq
           (set_priority (case with_strq of Some w \<Rightarrow> priority (streams asoc w) | None \<Rightarrow> 0)) asoc)"

definition sctp_ss_prio_add :: "nat \<Rightarrow> sctp_association \<Rightarrow> sctp_association option" where
  "sctp_ss_prio_add strq asoc =
     (if outqueue (streams asoc strq) \<noteq> [] \<and> unlinked (wheel asoc) strq
      then insert_sorted_by priority strq asoc
      else Some asoc)"

definition sctp_ss_prio_remove :: "nat \<Rightarrow> sctp_association \<Rightarrow> sctp_association option" where
  "sctp_ss_prio_remove strq asoc =
     (if outqueue (streams asoc strq) = [] \<and> \<not> unlinked (wheel asoc) strq
      then do {
        asoc \<leftarrow> step_back strq asoc;
        q \<leftarrow> TAILQ_REMOVE strq (wheel asoc);
        Some (asoc\<lparr>wheel := clear_links strq q\<rparr>)
      }
      else Some asoc)"

definition prio_next :: "sctp_association \<Rightarrow> nat option \<Rightarrow> nat option" where
  "prio_next asoc strqt =
     (case strqt of
        None \<Rightarrow> TAILQ_FIRST (wheel asoc)
      | Some t \<Rightarrow> (case TAILQ_NEXT (wheel asoc) t of
            None \<Rightarrow> TAILQ_FIRST (wheel asoc)
          | Some n \<Rightarrow> if priority (streams asoc n) = priority (streams asoc t) then Some n
                      else TAILQ_FIRST (wheel asoc)))"

definition sctp_ss_prio_select :: "nat option \<Rightarrow> sctp_association \<Rightarrow> nat option option" where
  "sctp_ss_prio_select net asoc = again (prio_next asoc) asoc net (last_out_stream asoc)"

definition sctp_ss_prio_get_value :: "nat option \<Rightarrow> sctp_association \<Rightarrow> int \<times> u16 option" where
  "sctp_ss_prio_get_value strq asoc =
     (case strq of None \<Rightarrow> (-1, None) | Some p \<Rightarrow> (1, Some (priority (streams asoc p))))"

definition sctp_ss_prio_set_value :: "nat option \<Rightarrow> u16 \<Rightarrow> sctp_association \<Rightarrow> (int \<times> sctp_association) option" where
  "sctp_ss_prio_set_value strq v asoc =
     (case strq of
        None \<Rightarrow> Some (-1, asoc)
      | Some p \<Rightarrow> do {
          asoc \<leftarrow> sctp_ss_prio_remove p (upd_stream p (set_priority v) asoc);
          asoc \<leftarrow> sctp_ss_prio_add p asoc;
          Some (1, asoc)
        })"

section \<open>Fair bandwidth scheduler\<close>

definition sctp_ss_fb_clear :: "bool \<Rightarrow> sctp_association \<Rightarrow> sctp_association option" where
  "sctp_ss_fb_clear clear_values asoc = do {
     asoc \<leftarrow> clear_wheel (if clear_values then ss_word_update (\<lambda>_. -1) else id) asoc;
     Some (asoc\<lparr>last_out_stream := None\<rparr>)
   }"

definition sctp_ss_fb_init_stream :: "nat \<Rightarrow> nat option \<Rightarrow> sctp_association \<Rightarrow> sctp_association" where
  "sctp_ss_fb_init_stream strq with_strq asoc =
     (let asoc = moved_stream strq with_strq asoc;
          asoc = asoc\<lparr>wheel := clear_links strq (wheel asoc)\<rparr>
      in upd_stream strq
           (ss_word_update (\<lambda>_. case with_strq of Some w \<Rightarrow> ss_word (streams asoc w) | None \<Rightarrow> -1)) asoc)"

definition sctp_ss_fb_add :: "nat \<Rightarrow> sctp_association \<Rightarrow> sctp_association option" where
  "sctp_ss_fb_add strq asoc =
     (case first_pending asoc strq of
        None \<Rightarrow> Some asoc
      | Some sp \<Rightarrow>
          if unlinked (wheel asoc) strq
          then let asoc = (if rounds (streams asoc strq) < 0
                           then upd_stream strq (ss_word_update (\<lambda>_. sp_length (pendings asoc sp))) asoc
                           else asoc)
               in Some (asoc\<lparr>wheel := TAILQ_INSERT_TAIL strq (wheel asoc)\<rparr>)
          else Some asoc)"

definition sctp_ss_fb_remove :: "nat \<Rightarrow> sctp_association \<Rightarrow> sctp_association option" where
  "sctp_ss_fb_remove strq asoc =
     (if outqueue (streams asoc strq) = [] \<and> \<not> unlinked (wheel asoc) strq
      then do {
        asoc \<leftarrow> step_back strq asoc;
        q \<leftarrow> TAILQ_REMOVE strq (wheel asoc);
        Some (asoc\<lparr>wheel := clear_links strq q\<rparr>)
      }
      else Some asoc)"

text \<open>
  The condition on a stream in the selection loop: it is on a usable destination and has a round
  counter.
\<close>

definition fb_eligible :: "sctp_association \<Rightarrow> nat option \<Rightarrow> nat \<Rightarrow> bool" where
  "fb_eligible asoc net strqt \<longleftrightarrow>
     (sctp_cmt_on_off asoc > 0 \<or>
      (sctp_cmt_on_off asoc = 0 \<and>
       (net = None \<or>
        (case first_pending asoc strqt of None \<Rightarrow> False | Some sp \<Rightarrow> sp_net (pendings asoc sp) = None) \<or>
        (net \<noteq> None \<and>
         (case first_pending asoc strqt of None \<Rightarrow> False
          | Some sp \<Rightarrow> sp_net (pendings asoc sp) \<noteq> None \<and> sp_net (pendings asoc sp) = net))))) \<and>
     rounds (streams asoc strqt) \<ge> 0"

definition fb_better :: "sctp_association \<Rightarrow> nat option \<Rightarrow> nat \<Rightarrow> nat option \<Rightarrow> bool" where
  "fb_better asoc net strqt strq \<longleftrightarrow>
     fb_eligible asoc net strqt \<and>
     (case strq of None \<Rightarrow> True
      | Some b \<Rightarrow> rounds (streams asoc strqt) < rounds (streams asoc b))"

partial_function (option) fb_loop :: "sctp_association \<Rightarrow> nat option \<Rightarrow> nat option \<Rightarrow> nat option \<Rightarrow>
    nat option option" where
  [code]: "fb_loop asoc net strq strqt =
     (let strq' = (case strqt of None \<Rightarrow> strq
                   | Some t \<Rightarrow> if fb_better asoc net t strq then Some t else strq);
          strqt' = (case strqt of None \<Rightarrow> TAILQ_FIRST (wheel asoc)
                    | Some t \<Rightarrow> TAILQ_NEXT (wheel asoc) t)
      in if strqt' \<noteq> strq' then fb_loop asoc net strq' strqt' else Some strq')"

definition sctp_ss_fb_select :: "nat option \<Rightarrow> sctp_association \<Rightarrow> nat option option" where
  "sctp_ss_fb_select net asoc = do {
     start \<leftarrow> (case last_out_stream asoc of
         None \<Rightarrow> Some (TAILQ_FIRST (wheel asoc))
       | Some l \<Rightarrow> do {
           lst \<leftarrow> TAILQ_LAST (wheel asoc);
           Some (if TAILQ_FIRST (wheel asoc) = lst then TAILQ_FIRST (wheel asoc)
                 else TAILQ_NEXT (wheel asoc) l)
         });
     fb_loop asoc net None start
   }"

text \<open>The body of the loop over the wheel: the counter goes down, at least to zero.\<close>

definition fb_charge :: "u32 \<Rightarrow> sctp_stream_out \<Rightarrow> sctp_stream_out" where
  "fb_charge subtract so =
     so\<lparr>ss_word := (if sint (ss_word so - subtract) < 0 then 0 else ss_word so - subtract)\<rparr>"

definition next_rounds :: "sctp_association \<Rightarrow> nat \<Rightarrow> u32" where
  "next_rounds asoc strq =
     (case first_pending asoc strq of Some sp \<Rightarrow> sp_length (pendings asoc sp) | None \<Rightarrow> -1)"

definition sctp_ss_fb_scheduled :: "nat \<Rightarrow> sctp_association \<Rightarrow> sctp_association option" where
  "sctp_ss_fb_scheduled strq asoc =
     (let asoc = relock strq asoc;
          subtract = ss_word (streams asoc strq)
      in do {
        strqts \<leftarrow> TAILQ_FOREACH (wheel asoc) (TAILQ_FIRST (wheel asoc));
        let asoc = fold (\<lambda>t. upd_stream t (fb_charge subtract)) strqts asoc;
        let asoc = upd_stream strq (ss_word_update (\<lambda>_. next_rounds asoc strq)) asoc;
        Some (asoc\<lparr>last_out_stream := Some strq\<rparr>)
      })"

section \<open>First come, first served\<close>

definition sctp_ss_fcfs_add :: "nat option \<Rightarrow> sctp_association \<Rightarrow> sctp_association option" where
  "sctp_ss_fcfs_add sp asoc =
     (case sp of
        Some p \<Rightarrow> if unlinked (ss_list asoc) p
                  then Some (asoc\<lparr>ss_list := TAILQ_INSERT_TAIL p (ss_list asoc)\<rparr>)
                  else Some asoc
      | None \<Rightarrow> Some asoc)"

text \<open>One round of the while loop of \<^verbatim>\<open>sctp_ss_fcfs_init\<close>: the message number \<open>n\<close> of every stream.\<close>

definition fcfs_nth :: "u32 \<Rightarrow> nat \<Rightarrow> sctp_association \<Rightarrow> nat option" where
  "fcfs_nth n strq asoc =
     (if unat n < length (outqueue (streams asoc strq))
      then Some (outqueue (streams asoc strq) ! unat n) else None)"

fun fcfs_round :: "u32 \<Rightarrow> nat list \<Rightarrow> bool \<Rightarrow> sctp_association \<Rightarrow> (bool \<times> sctp_association) option" where
  "fcfs_round n [] add_more asoc = Some (add_more, asoc)"
| "fcfs_round n (i # is) add_more asoc =
     (case fcfs_nth n (strmout asoc + i) asoc of
        None \<Rightarrow> fcfs_round n is add_more asoc
      | Some sp \<Rightarrow> do {
          asoc \<leftarrow> sctp_ss_fcfs_add (Some sp) asoc;
          fcfs_round n is True asoc
        })"

partial_function (option) fcfs_rounds :: "u32 \<Rightarrow> sctp_association \<Rightarrow> sctp_association option" where
  [code]: "fcfs_rounds n asoc = do {
     r \<leftarrow> fcfs_round n [0..<unat (streamoutcnt asoc)] False asoc;
     (if fst r then fcfs_rounds (n + 1) (snd r) else Some (snd r))
   }"

definition sctp_ss_fcfs_init :: "sctp_association \<Rightarrow> sctp_association option" where
  "sctp_ss_fcfs_init asoc = fcfs_rounds 0 (asoc\<lparr>ss_list := TAILQ_INIT (ss_list asoc)\<rparr>)"

partial_function (option) clear_list :: "sctp_association \<Rightarrow> sctp_association option" where
  [code]: "clear_list asoc =
     (case TAILQ_FIRST (ss_list asoc) of
        None \<Rightarrow> Some asoc
      | Some sp \<Rightarrow> do {
          q \<leftarrow> TAILQ_REMOVE sp (ss_list asoc);
          clear_list (asoc\<lparr>ss_list := q\<rparr>)
        })"

definition sctp_ss_fcfs_clear :: "bool \<Rightarrow> sctp_association \<Rightarrow> sctp_association option" where
  "sctp_ss_fcfs_clear clear_values asoc = (if clear_values then clear_list asoc else Some asoc)"

definition sctp_ss_fcfs_init_stream :: "nat \<Rightarrow> nat option \<Rightarrow> sctp_association \<Rightarrow> sctp_association" where
  "sctp_ss_fcfs_init_stream strq with_strq asoc = moved_stream strq with_strq asoc"

definition sctp_ss_fcfs_is_empty :: "sctp_association \<Rightarrow> bool" where
  "sctp_ss_fcfs_is_empty asoc = TAILQ_EMPTY (ss_list asoc)"

definition sctp_ss_fcfs_remove :: "nat option \<Rightarrow> sctp_association \<Rightarrow> sctp_association option" where
  "sctp_ss_fcfs_remove sp asoc =
     (case sp of
        Some p \<Rightarrow> if \<not> unlinked (ss_list asoc) p
                  then map_option (\<lambda>q. asoc\<lparr>ss_list := q\<rparr>) (TAILQ_REMOVE p (ss_list asoc))
                  else Some asoc
      | None \<Rightarrow> Some asoc)"

partial_function (option) fcfs_again :: "sctp_association \<Rightarrow> nat option \<Rightarrow> nat option \<Rightarrow> nat option option" where
  [code]: "fcfs_again asoc net sp =
     (case sp of
        None \<Rightarrow> Some None
      | Some p \<Rightarrow>
          let strq = strmout asoc + unat (sp_sid (pendings asoc p))
          in if wrong_net asoc net strq then fcfs_again asoc net (TAILQ_NEXT (ss_list asoc) p)
             else Some (Some strq))"

definition sctp_ss_fcfs_select :: "nat option \<Rightarrow> sctp_association \<Rightarrow> nat option option" where
  "sctp_ss_fcfs_select net asoc = fcfs_again asoc net (TAILQ_FIRST (ss_list asoc))"

section \<open>The table of functions\<close>

fun ss_add_to_stream :: "ss_module \<Rightarrow> nat \<Rightarrow> nat option \<Rightarrow> sctp_association \<Rightarrow> sctp_association option" where
  "ss_add_to_stream SS_DEFAULT strq sp = sctp_ss_default_add strq"
| "ss_add_to_stream SS_ROUND_ROBIN strq sp = sctp_ss_rr_add strq"
| "ss_add_to_stream SS_ROUND_ROBIN_PACKET strq sp = sctp_ss_rr_add strq"
| "ss_add_to_stream SS_PRIORITY strq sp = sctp_ss_prio_add strq"
| "ss_add_to_stream SS_FAIR_BANDWITH strq sp = sctp_ss_fb_add strq"
| "ss_add_to_stream SS_FIRST_COME strq sp = sctp_ss_fcfs_add sp"

fun ss_remove_from_stream :: "ss_module \<Rightarrow> nat \<Rightarrow> nat option \<Rightarrow> sctp_association \<Rightarrow> sctp_association option" where
  "ss_remove_from_stream SS_PRIORITY strq sp = sctp_ss_prio_remove strq"
| "ss_remove_from_stream SS_FAIR_BANDWITH strq sp = sctp_ss_fb_remove strq"
| "ss_remove_from_stream SS_FIRST_COME strq sp = sctp_ss_fcfs_remove sp"
| "ss_remove_from_stream _ strq sp = sctp_ss_default_remove strq"

fun ss_clear :: "ss_module \<Rightarrow> bool \<Rightarrow> sctp_association \<Rightarrow> sctp_association option" where
  "ss_clear SS_PRIORITY v = sctp_ss_prio_clear v"
| "ss_clear SS_FAIR_BANDWITH v = sctp_ss_fb_clear v"
| "ss_clear SS_FIRST_COME v = sctp_ss_fcfs_clear v"
| "ss_clear _ v = sctp_ss_default_clear v"

fun ss_init_stream :: "ss_module \<Rightarrow> nat \<Rightarrow> nat option \<Rightarrow> sctp_association \<Rightarrow> sctp_association" where
  "ss_init_stream SS_PRIORITY strq w = sctp_ss_prio_init_stream strq w"
| "ss_init_stream SS_FAIR_BANDWITH strq w = sctp_ss_fb_init_stream strq w"
| "ss_init_stream SS_FIRST_COME strq w = sctp_ss_fcfs_init_stream strq w"
| "ss_init_stream _ strq w = sctp_ss_default_init_stream strq w"

fun ss_select_stream :: "ss_module \<Rightarrow> nat option \<Rightarrow> sctp_association \<Rightarrow> nat option option" where
  "ss_select_stream SS_ROUND_ROBIN_PACKET net = sctp_ss_rrp_select net"
| "ss_select_stream SS_PRIORITY net = sctp_ss_prio_select net"
| "ss_select_stream SS_FAIR_BANDWITH net = sctp_ss_fb_select net"
| "ss_select_stream SS_FIRST_COME net = sctp_ss_fcfs_select net"
| "ss_select_stream _ net = sctp_ss_default_select net"

fun ss_scheduled :: "ss_module \<Rightarrow> nat \<Rightarrow> sctp_association \<Rightarrow> sctp_association option" where
  "ss_scheduled SS_FAIR_BANDWITH strq asoc = sctp_ss_fb_scheduled strq asoc"
| "ss_scheduled _ strq asoc = Some (sctp_ss_default_scheduled strq asoc)"

fun ss_packet_done :: "ss_module \<Rightarrow> nat option \<Rightarrow> sctp_association \<Rightarrow> sctp_association option" where
  "ss_packet_done SS_ROUND_ROBIN_PACKET net = sctp_ss_rrp_packet_done net"
| "ss_packet_done _ net = sctp_ss_default_packet_done net"

fun ss_set_value :: "ss_module \<Rightarrow> nat option \<Rightarrow> u16 \<Rightarrow> sctp_association \<Rightarrow> (int \<times> sctp_association) option" where
  "ss_set_value SS_PRIORITY strq v = sctp_ss_prio_set_value strq v"
| "ss_set_value _ strq v = sctp_ss_default_set_value strq v"

fun ss_get_value :: "ss_module \<Rightarrow> nat option \<Rightarrow> sctp_association \<Rightarrow> int \<times> u16 option" where
  "ss_get_value SS_PRIORITY strq = sctp_ss_prio_get_value strq"
| "ss_get_value _ strq = sctp_ss_default_get_value strq"

fun ss_is_empty :: "ss_module \<Rightarrow> sctp_association \<Rightarrow> bool" where
  "ss_is_empty SS_FIRST_COME = sctp_ss_fcfs_is_empty"
| "ss_is_empty _ = sctp_ss_default_is_empty"

text \<open>
  \<^verbatim>\<open>sctp_ss_default_init\<close>: the streams that have data are put on the new wheel through the add
  function of the association's scheduler.
\<close>

fun add_streams :: "(nat \<Rightarrow> sctp_association \<Rightarrow> sctp_association option) \<Rightarrow> nat list \<Rightarrow>
    sctp_association \<Rightarrow> sctp_association option" where
  "add_streams add [] asoc = Some asoc"
| "add_streams add (i # is) asoc = do {
     asoc \<leftarrow> add (strmout asoc + i) asoc;
     add_streams add is asoc
   }"

definition sctp_ss_default_init :: "sctp_association \<Rightarrow> sctp_association option" where
  "sctp_ss_default_init asoc =
     add_streams (\<lambda>strq. ss_add_to_stream (stream_scheduling_module asoc) strq None)
       [0..<unat (streamoutcnt asoc)]
       (asoc\<lparr>locked_on_sending := None, last_out_stream := None, wheel := TAILQ_INIT (wheel asoc)\<rparr>)"

fun ss_init :: "ss_module \<Rightarrow> sctp_association \<Rightarrow> sctp_association option" where
  "ss_init SS_FIRST_COME = sctp_ss_fcfs_init"
| "ss_init _ = sctp_ss_default_init"

text \<open>The socket option \<^verbatim>\<open>SCTP_PLUGGABLE_SS\<close> on one association: changing the scheduler.\<close>

definition set_scheduler :: "ss_module \<Rightarrow> sctp_association \<Rightarrow> sctp_association option" where
  "set_scheduler m asoc = do {
     asoc \<leftarrow> ss_clear (stream_scheduling_module asoc) True asoc;
     ss_init m (asoc\<lparr>stream_scheduling_module := m\<rparr>)
   }"

end
