(* ===== verification/Sched_Wheel.thy ===== *)
theory Sched_Wheel
  imports Stream_Sched
begin

text \<open>
  The wheel of the stream schedulers: which streams are on it and in which order. The locale
  \<open>wheel_scheduler\<close> is what the association relies on when it adds and removes streams through the
  scheduler's table; it is interpreted on the default, round robin, priority and fair bandwidth
  schedulers, and the invariant that the wheel holds exactly the streams with data is proved once
  from it.
\<close>

section \<open>Representation\<close>

text \<open>A wheel with the streams \<open>ws\<close>: every other stream has cleared links.\<close>

definition tq_wheel :: "nat tailq \<Rightarrow> nat list \<Rightarrow> bool" where
  "tq_wheel q ws \<longleftrightarrow> tq_rep q ws \<and> (\<forall>p. p \<notin> set ws \<longrightarrow> unlinked q p)"

definition wheel_inv :: "sctp_association \<Rightarrow> nat list \<Rightarrow> bool" where
  "wheel_inv s ws \<longleftrightarrow> tq_wheel (wheel s) ws"

text \<open>The last stream served, if there is one, is on the wheel.\<close>

definition last_ok :: "sctp_association \<Rightarrow> nat list \<Rightarrow> bool" where
  "last_ok s ws \<longleftrightarrow> (\<forall>l. last_out_stream s = Some l \<longrightarrow> l \<in> set ws)"

text \<open>What the schedulers never change.\<close>

definition same_env :: "sctp_association \<Rightarrow> sctp_association \<Rightarrow> bool" where
  "same_env s s' \<longleftrightarrow>
     (\<forall>p. outqueue (streams s' p) = outqueue (streams s p) \<and> so_sid (streams s' p) = so_sid (streams s p)) \<and>
     pendings s' = pendings s \<and> strmout s' = strmout s \<and> streamoutcnt s' = streamoutcnt s \<and>
     stream_scheduling_module s' = stream_scheduling_module s \<and> sctp_cmt_on_off s' = sctp_cmt_on_off s"

lemma same_env_refl [simp]: "same_env s s"
  by (simp add: same_env_def)

lemma same_env_trans: "same_env s s' \<Longrightarrow> same_env s' s'' \<Longrightarrow> same_env s s''"
  by (auto simp: same_env_def)

lemma same_env_updates [simp]:
  "same_env s (s'\<lparr>wheel := q\<rparr>) = same_env s s'"
  "same_env s (s'\<lparr>last_out_stream := l\<rparr>) = same_env s s'"
  "same_env s (s'\<lparr>locked_on_sending := l\<rparr>) = same_env s s'"
  by (auto simp: same_env_def)

lemma unlinked_tq_links: "unlinked q p \<longleftrightarrow> tq_links q p = (None, None)"
  by (simp add: unlinked_def tq_links_def)

lemma tq_wheel_unlinked: "tq_wheel q ws \<Longrightarrow> unlinked q p \<longleftrightarrow> p \<notin> set ws"
  by (auto simp: tq_wheel_def unlinked_def dest: tq_rep_linked)

lemma tq_wheel_insert_tail:
  assumes "tq_wheel q ws" "p \<notin> set ws"
  shows "tq_wheel (TAILQ_INSERT_TAIL p q) (ws @ [p])"
  using assms tq.insert_tail [of q ws p] tq.links_insert_tail [of q ws _ p]
  by (auto simp: tq_wheel_def unlinked_tq_links)

lemma tq_wheel_insert_head:
  assumes "tq_wheel q ws" "p \<notin> set ws"
  shows "tq_wheel (TAILQ_INSERT_HEAD p q) (p # ws)"
  using assms tq.insert_head [of q ws p] tq.links_insert_head [of q ws _ p]
  by (auto simp: tq_wheel_def unlinked_tq_links)

lemma tq_wheel_remove:
  assumes "tq_wheel q ws" "p \<in> set ws"
  obtains q' where "TAILQ_REMOVE p q = Some q'" "tq_wheel (clear_links p q') (remove1 p ws)"
proof -
  have rep: "tq_rep q ws" and d: "distinct ws" using assms(1) by (auto simp: tq_wheel_def dest: tq_rep_distinct)
  obtain q' where q': "TAILQ_REMOVE p q = Some q'" "tq_rep q' (remove1 p ws)"
    "\<And>z. z \<notin> set ws \<or> z = p \<Longrightarrow> tq_links q' z = tq_links q z"
    using tq.remove_member [OF rep assms(2)] by blast
  have "tq_rep (clear_links p q') (remove1 p ws)"
    using q'(2) d by (simp add: tq_rep_clear_links)
  moreover have "unlinked (clear_links p q') z" if "z \<notin> set (remove1 p ws)" for z
    using that q'(3) [of z] assms(1) d by (auto simp: unlinked_tq_links tq_wheel_def)
  ultimately show ?thesis using that q'(1) by (auto simp: tq_wheel_def)
qed

text \<open>The sorted insertion puts the stream behind the longest prefix with smaller keys.\<close>

lemma insert_sorted_by_wheel:
  assumes "wheel_inv s ws" "p \<notin> set ws"
  obtains q where "insert_sorted_by key p s = Some (s\<lparr>wheel := q\<rparr>)"
    "tq_wheel q (takeWhile (\<lambda>t. key (streams s t) < key (streams s p)) ws @ p #
       dropWhile (\<lambda>t. key (streams s t) < key (streams s p)) ws)"
proof (cases "ws = []")
  case True
  with assms tq_wheel_insert_head [of "wheel s" "[]" p] that show ?thesis
    by (auto simp: insert_sorted_by_def wheel_inv_def tq_wheel_def tq_rep_empty)
next
  case False
  let ?P = "\<lambda>t. key (streams s t) < key (streams s p)"
  have rep: "tq_rep (wheel s) ws" using assms(1) by (simp add: wheel_inv_def tq_wheel_def)
  obtain q where q: "(case find (\<lambda>y. \<not> ?P y) ws of None \<Rightarrow> Some (TAILQ_INSERT_TAIL p (wheel s))
      | Some y \<Rightarrow> TAILQ_INSERT_BEFORE y p (wheel s)) = Some q"
    "tq_rep q (takeWhile ?P ws @ p # dropWhile ?P ws)"
    "\<And>z. z \<notin> set ws \<Longrightarrow> z \<noteq> p \<Longrightarrow> tq_links q z = tq_links (wheel s) z"
    using tq.insert_at_found [OF rep assms(2), of ?P] by blast
  have "set (takeWhile ?P ws) \<union> set (dropWhile ?P ws) = set ws"
    by (metis set_append takeWhile_dropWhile_id)
  then have "tq_wheel q (takeWhile ?P ws @ p # dropWhile ?P ws)"
    using q(2,3) assms(1) by (auto simp: tq_wheel_def wheel_inv_def unlinked_tq_links)
  moreover have "insert_sorted_by key p s = Some (s\<lparr>wheel := q\<rparr>)"
    using False q(1) rep tq.skip_all [OF rep, of ?P]
    by (auto simp: insert_sorted_by_def tq_rep_empty split: option.splits)
  ultimately show ?thesis using that by blast
qed

lemma step_back_ok:
  assumes "wheel_inv s ws" "p \<in> set ws"
  obtains l where "step_back p s = Some (s\<lparr>last_out_stream := l\<rparr>)"
    "last_ok s ws \<Longrightarrow> (\<forall>x. l = Some x \<longrightarrow> x \<in> set (remove1 p ws))"
proof (cases "last_out_stream s = Some p")
  case False
  have "step_back p s = Some (s\<lparr>last_out_stream := last_out_stream s\<rparr>)" using False by (simp add: step_back_def)
  then show ?thesis using that False by (fastforce simp: last_ok_def)
next
  case True
  obtain us vs where ws: "ws = us @ p # vs" using assms(2) by (auto dest: split_list)
  have rep: "tq_rep (wheel s) (us @ p # vs)" using assms(1) ws by (simp add: wheel_inv_def tq_wheel_def)
  have d: "distinct (us @ p # vs)" using rep by (rule tq_rep_distinct)
  let ?l = "if us \<noteq> [] then Some (last us) else if vs \<noteq> [] then Some (last vs) else None"
  have "last vs \<noteq> p" if "vs \<noteq> []" using that d last_in_set [of vs] by auto
  moreover have "last us \<noteq> p" if "us \<noteq> []" using that d last_in_set [of us] by auto
  ultimately have "step_back p s = Some (s\<lparr>last_out_stream := ?l\<rparr>)"
    using True tq_rep_prev [OF rep] tq_rep_last [OF rep]
    by (auto simp: step_back_def)
  moreover have "\<forall>x. ?l = Some x \<longrightarrow> x \<in> set (remove1 p ws)"
    using ws d by (auto simp: remove1_append)
  ultimately show ?thesis using that by blast
qed

section \<open>The contract of a wheel scheduler\<close>

locale wheel_scheduler =
  fixes add :: "nat \<Rightarrow> sctp_association \<Rightarrow> sctp_association option"
    and remove :: "nat \<Rightarrow> sctp_association \<Rightarrow> sctp_association option"
    and clear :: "bool \<Rightarrow> sctp_association \<Rightarrow> sctp_association option"
  assumes add_keep: "wheel_inv s ws \<Longrightarrow> outqueue (streams s p) = [] \<or> p \<in> set ws \<Longrightarrow> add p s = Some s"
    and add_new: "wheel_inv s ws \<Longrightarrow> outqueue (streams s p) \<noteq> [] \<Longrightarrow> p \<notin> set ws \<Longrightarrow>
      \<exists>s' us vs. add p s = Some s' \<and> ws = us @ vs \<and> wheel_inv s' (us @ p # vs) \<and> same_env s s' \<and>
        last_out_stream s' = last_out_stream s"
    and remove_keep: "wheel_inv s ws \<Longrightarrow> outqueue (streams s p) \<noteq> [] \<or> p \<notin> set ws \<Longrightarrow> remove p s = Some s"
    and remove_old: "wheel_inv s ws \<Longrightarrow> outqueue (streams s p) = [] \<Longrightarrow> p \<in> set ws \<Longrightarrow>
      \<exists>s'. remove p s = Some s' \<and> wheel_inv s' (remove1 p ws) \<and> same_env s s' \<and>
        (last_ok s ws \<longrightarrow> last_ok s' (remove1 p ws))"
    and clear_all: "wheel_inv s ws \<Longrightarrow> \<exists>s'. clear v s = Some s' \<and> wheel_inv s' [] \<and> same_env s s'"

text \<open>The streams of the association and those of them that have data.\<close>

definition stream_of :: "sctp_association \<Rightarrow> nat \<Rightarrow> bool" where
  "stream_of s p \<longleftrightarrow> (\<exists>i < unat (streamoutcnt s). p = strmout s + i)"

definition full_wheel :: "sctp_association \<Rightarrow> nat list \<Rightarrow> bool" where
  "full_wheel s ws \<longleftrightarrow>
     wheel_inv s ws \<and> (\<forall>p. p \<in> set ws \<longleftrightarrow> stream_of s p \<and> outqueue (streams s p) \<noteq> [])"

definition enqueue :: "nat \<Rightarrow> nat \<Rightarrow> sctp_association \<Rightarrow> sctp_association" where
  "enqueue p sp s = upd_stream p (outqueue_update (\<lambda>q. q @ [sp])) s"

definition dequeue :: "nat \<Rightarrow> sctp_association \<Rightarrow> sctp_association" where
  "dequeue p s = upd_stream p (outqueue_update tl) s"

lemma upd_stream_simps [simp]:
  "wheel (upd_stream p f s) = wheel s" "ss_list (upd_stream p f s) = ss_list s"
  "last_out_stream (upd_stream p f s) = last_out_stream s"
  "locked_on_sending (upd_stream p f s) = locked_on_sending s"
  "strmout (upd_stream p f s) = strmout s" "streamoutcnt (upd_stream p f s) = streamoutcnt s"
  "pendings (upd_stream p f s) = pendings s"
  "stream_scheduling_module (upd_stream p f s) = stream_scheduling_module s"
  "sctp_cmt_on_off (upd_stream p f s) = sctp_cmt_on_off s"
  "idata_supported (upd_stream p f s) = idata_supported s"
  "streams (upd_stream p f s) x = (if x = p then f (streams s p) else streams s x)"
  by (simp_all add: upd_stream_def)

lemma wheel_inv_cong: "wheel s = wheel s' \<Longrightarrow> wheel_inv s ws = wheel_inv s' ws"
  by (simp add: wheel_inv_def)

lemma stream_of_env: "same_env s s' \<Longrightarrow> stream_of s' p = stream_of s p"
  by (simp add: same_env_def stream_of_def)

context wheel_scheduler
begin

lemma full_wheel_enqueue:
  assumes "full_wheel s ws" "stream_of s p"
  shows "\<exists>s' ws'. add p (enqueue p sp s) = Some s' \<and> full_wheel s' ws' \<and> same_env (enqueue p sp s) s' \<and>
    (last_ok s ws \<longrightarrow> last_ok s' ws')"
proof -
  let ?s = "enqueue p sp s"
  have inv: "wheel_inv ?s ws" using assms(1) by (simp add: full_wheel_def wheel_inv_def enqueue_def)
  have mem: "stream_of ?s x = stream_of s x" for x by (simp add: stream_of_def enqueue_def)
  show ?thesis
  proof (cases "p \<in> set ws")
    case True
    have "full_wheel ?s ws"
      using assms inv mem True by (auto simp: full_wheel_def enqueue_def)
    moreover have "last_ok s ws \<longrightarrow> last_ok ?s ws" by (simp add: last_ok_def enqueue_def)
    ultimately show ?thesis using add_keep [OF inv] True by (metis same_env_refl)
  next
    case False
    obtain s' us vs where s': "add p ?s = Some s'" "ws = us @ vs" "wheel_inv s' (us @ p # vs)"
      "same_env ?s s'" "last_out_stream s' = last_out_stream ?s"
      using add_new [OF inv _ False] by (auto simp: enqueue_def)
    have "full_wheel s' (us @ p # vs)"
      using s' assms mem stream_of_env [OF s'(4)]
      by (auto simp: full_wheel_def same_env_def enqueue_def)
    moreover have "last_ok s ws \<longrightarrow> last_ok s' (us @ p # vs)"
      using s'(2,5) by (auto simp: last_ok_def enqueue_def)
    ultimately show ?thesis using s'(1,4) by blast
  qed
qed

lemma full_wheel_dequeue:
  assumes "full_wheel s ws" "stream_of s p"
  shows "\<exists>s' ws'. remove p (dequeue p s) = Some s' \<and> full_wheel s' ws' \<and> same_env (dequeue p s) s' \<and>
    (last_ok s ws \<longrightarrow> last_ok s' ws')"
proof -
  let ?s = "dequeue p s"
  have inv: "wheel_inv ?s ws" using assms(1) by (simp add: full_wheel_def wheel_inv_def dequeue_def)
  have mem: "stream_of ?s x = stream_of s x" for x by (simp add: stream_of_def dequeue_def)
  have last: "last_ok ?s ws = last_ok s ws" by (simp add: last_ok_def dequeue_def)
  show ?thesis
  proof (cases "outqueue (streams ?s p) \<noteq> [] \<or> p \<notin> set ws")
    case True
    have "full_wheel ?s ws"
      using assms inv mem True by (auto simp: full_wheel_def dequeue_def)
    then show ?thesis using remove_keep [OF inv True] last by (metis same_env_refl)
  next
    case False
    then obtain s' where s': "remove p ?s = Some s'" "wheel_inv s' (remove1 p ws)" "same_env ?s s'"
      "last_ok s ws \<longrightarrow> last_ok s' (remove1 p ws)"
      using remove_old [OF inv, of p] last by auto
    have "distinct ws" using inv by (auto simp: wheel_inv_def tq_wheel_def dest: tq_rep_distinct)
    then have "full_wheel s' (remove1 p ws)"
      using s' assms mem stream_of_env [OF s'(3)] False
      by (auto simp: full_wheel_def same_env_def dequeue_def)
    then show ?thesis using s' by blast
  qed
qed

text \<open>Setting up a cleared wheel.\<close>

lemma add_streams_wheel:
  assumes "wheel_inv s ws"
  shows "\<exists>s' ws'. add_streams add is s = Some s' \<and> wheel_inv s' ws' \<and> same_env s s' \<and>
    last_out_stream s' = last_out_stream s \<and>
    set ws' = set ws \<union> {p. (\<exists>i\<in>set is. p = strmout s + i) \<and> outqueue (streams s p) \<noteq> []}"
  using assms
proof (induction "is" arbitrary: s ws)
  case Nil
  then show ?case by auto
next
  case (Cons i "is")
  let ?p = "strmout s + i"
  show ?case
  proof (cases "outqueue (streams s ?p) = [] \<or> ?p \<in> set ws")
    case True
    have "add ?p s = Some s" using add_keep [OF Cons.prems True] .
    moreover have "set ws \<union> {p. (\<exists>j\<in>set (i # is). p = strmout s + j) \<and> outqueue (streams s p) \<noteq> []} =
        set ws \<union> {p. (\<exists>j\<in>set is. p = strmout s + j) \<and> outqueue (streams s p) \<noteq> []}"
      using True by auto
    ultimately show ?thesis using Cons.IH [OF Cons.prems] by (simp only: add_streams.simps) simp
  next
    case False
    then obtain s1 us vs where 1: "add ?p s = Some s1" "ws = us @ vs" "wheel_inv s1 (us @ ?p # vs)"
      "same_env s s1" "last_out_stream s1 = last_out_stream s"
      using add_new [OF Cons.prems] by blast
    from Cons.IH [OF 1(3)] obtain s2 ws2 where 2: "add_streams add is s1 = Some s2" "wheel_inv s2 ws2"
      "same_env s1 s2" "last_out_stream s2 = last_out_stream s1"
      "set ws2 = set (us @ ?p # vs) \<union> {p. (\<exists>i\<in>set is. p = strmout s1 + i) \<and> outqueue (streams s1 p) \<noteq> []}"
      by blast
    have "set ws2 = set ws \<union> {p. (\<exists>j\<in>set (i # is). p = strmout s + j) \<and> outqueue (streams s p) \<noteq> []}"
      using 1(2,4) 2(5) False by (auto simp: same_env_def)
    then show ?thesis using 1 2 same_env_trans [OF 1(4) 2(3)] by auto
  qed
qed

end

section \<open>The four wheel schedulers satisfy the contract\<close>

lemma clear_wheel_ok:
  assumes "wheel_inv s ws" "\<And>so. outqueue (f so) = outqueue so" "\<And>so. so_sid (f so) = so_sid so"
  shows "\<exists>s'. clear_wheel f s = Some s' \<and> wheel_inv s' [] \<and> same_env s s' \<and>
    locked_on_sending s' = locked_on_sending s"
  using assms(1)
proof (induction ws arbitrary: s)
  case Nil
  then have "TAILQ_FIRST (wheel s) = None"
    using tq_rep_first [of "wheel s" "[]"] by (simp add: wheel_inv_def tq_wheel_def)
  with Nil show ?case by (simp add: clear_wheel.simps)
next
  case (Cons p ws)
  then have w: "tq_wheel (wheel s) (p # ws)" by (simp add: wheel_inv_def)
  obtain q where q: "TAILQ_REMOVE p (wheel s) = Some q" "tq_wheel (clear_links p q) ws"
    using tq_wheel_remove [OF w, of p] by auto
  let ?s = "(upd_stream p f s)\<lparr>wheel := clear_links p q\<rparr>"
  have "TAILQ_FIRST (wheel s) = Some p" using w tq_rep_first [of "wheel s" "p # ws"] by (simp add: tq_wheel_def)
  then have "clear_wheel f s = clear_wheel f ?s" using q(1) by (simp add: clear_wheel.simps [of f s])
  moreover obtain s' where "clear_wheel f ?s = Some s'" "wheel_inv s' []" "same_env ?s s'"
    "locked_on_sending s' = locked_on_sending ?s"
    using Cons.IH [of ?s] q(2) by (auto simp: wheel_inv_def)
  moreover have "same_env s ?s" using assms(2,3) by (simp add: same_env_def)
  ultimately show ?case using same_env_trans by fastforce
qed

lemma wheel_remove_ok:
  assumes inv: "wheel_inv s ws" and p: "p \<in> set ws"
  shows "\<exists>s'. do { asoc \<leftarrow> step_back p s; q \<leftarrow> TAILQ_REMOVE p (wheel asoc);
      Some (asoc\<lparr>wheel := clear_links p q\<rparr>) } = Some s' \<and> wheel_inv s' (remove1 p ws) \<and> same_env s s' \<and>
    (last_ok s ws \<longrightarrow> last_ok s' (remove1 p ws))"
proof -
  obtain l where l: "step_back p s = Some (s\<lparr>last_out_stream := l\<rparr>)"
    "last_ok s ws \<Longrightarrow> (\<forall>x. l = Some x \<longrightarrow> x \<in> set (remove1 p ws))"
    using step_back_ok [OF inv p] by blast
  obtain q where "TAILQ_REMOVE p (wheel s) = Some q" "tq_wheel (clear_links p q) (remove1 p ws)"
    using tq_wheel_remove inv p unfolding wheel_inv_def by metis
  with l show ?thesis by (auto simp: wheel_inv_def last_ok_def)
qed

lemma wheel_inv_unlinked: "wheel_inv s ws \<Longrightarrow> unlinked (wheel s) p \<longleftrightarrow> p \<notin> set ws"
  by (simp add: wheel_inv_def tq_wheel_unlinked)

lemma sorted_add_ok:
  assumes "wheel_inv s ws" "p \<notin> set ws"
  shows "\<exists>s' us vs. insert_sorted_by key p s = Some s' \<and> ws = us @ vs \<and> wheel_inv s' (us @ p # vs) \<and>
    same_env s s' \<and> last_out_stream s' = last_out_stream s"
proof -
  let ?P = "\<lambda>t. key (streams s t) < key (streams s p)"
  obtain q where "insert_sorted_by key p s = Some (s\<lparr>wheel := q\<rparr>)"
    "tq_wheel q (takeWhile ?P ws @ p # dropWhile ?P ws)"
    using insert_sorted_by_wheel [OF assms] by blast
  then have "insert_sorted_by key p s = Some (s\<lparr>wheel := q\<rparr>) \<and> ws = takeWhile ?P ws @ dropWhile ?P ws \<and>
      wheel_inv (s\<lparr>wheel := q\<rparr>) (takeWhile ?P ws @ p # dropWhile ?P ws) \<and>
      same_env s (s\<lparr>wheel := q\<rparr>) \<and> last_out_stream (s\<lparr>wheel := q\<rparr>) = last_out_stream s"
    by (simp add: wheel_inv_def)
  then show ?thesis by blast
qed

lemma tail_add_ok:
  assumes "wheel_inv s ws" "p \<notin> set ws" "wheel s' = TAILQ_INSERT_TAIL p (wheel s)"
  shows "ws = ws @ [] \<and> wheel_inv s' (ws @ p # [])"
  using assms tq_wheel_insert_tail by (simp add: wheel_inv_def)

lemma set_priority_fields [simp]:
  "outqueue (set_priority v so) = outqueue so" "so_sid (set_priority v so) = so_sid so"
  by (simp_all add: set_priority_def)

lemma clear_any_ok:
  assumes "wheel_inv s ws" "\<And>so. outqueue (f so) = outqueue so" "\<And>so. so_sid (f so) = so_sid so"
  shows "\<exists>s'. do { asoc \<leftarrow> clear_wheel f s; Some (asoc\<lparr>last_out_stream := None\<rparr>) } = Some s' \<and>
    wheel_inv s' [] \<and> same_env s s'"
  using clear_wheel_ok [OF assms] by (auto simp: wheel_inv_def)

lemmas wheel_ops = sctp_ss_default_add_def sctp_ss_default_remove_def sctp_ss_default_clear_def
  sctp_ss_rr_add_def sctp_ss_prio_add_def sctp_ss_prio_remove_def sctp_ss_prio_clear_def
  sctp_ss_fb_add_def sctp_ss_fb_remove_def sctp_ss_fb_clear_def

interpretation default_sched: wheel_scheduler sctp_ss_default_add sctp_ss_default_remove sctp_ss_default_clear
proof (unfold_locales, goal_cases)
  case (2 s ws p)
  then have "sctp_ss_default_add p s = Some (s\<lparr>wheel := TAILQ_INSERT_TAIL p (wheel s)\<rparr>)"
    by (simp add: sctp_ss_default_add_def wheel_inv_unlinked)
  with tail_add_ok [OF 2(1,3), of "s\<lparr>wheel := TAILQ_INSERT_TAIL p (wheel s)\<rparr>"] show ?case
    by (fastforce intro: exI [of _ ws] exI [of _ "[]"])
next
  case (4 s ws p)
  then show ?case using wheel_remove_ok [OF 4(1,3)] by (simp add: wheel_ops wheel_inv_unlinked)
next
  case (5 s ws v)
  then show ?case unfolding wheel_ops by (rule clear_any_ok) simp_all
qed (auto simp: wheel_ops wheel_inv_unlinked)

interpretation rr_sched: wheel_scheduler sctp_ss_rr_add sctp_ss_default_remove sctp_ss_default_clear
proof (unfold_locales, goal_cases)
  case (2 s ws p)
  with sorted_add_ok [OF 2(1,3), of so_sid] show ?case by (simp add: sctp_ss_rr_add_def wheel_inv_unlinked)
next
  case (4 s ws p)
  then show ?case by (rule default_sched.remove_old)
next
  case (5 s ws v)
  then show ?case by (rule default_sched.clear_all)
qed (auto simp: wheel_ops wheel_inv_unlinked)

interpretation prio_sched: wheel_scheduler sctp_ss_prio_add sctp_ss_prio_remove sctp_ss_prio_clear
proof (unfold_locales, goal_cases)
  case (2 s ws p)
  with sorted_add_ok [OF 2(1,3), of priority] show ?case by (simp add: sctp_ss_prio_add_def wheel_inv_unlinked)
next
  case (4 s ws p)
  then show ?case using wheel_remove_ok [OF 4(1,3)] by (simp add: wheel_ops wheel_inv_unlinked)
next
  case (5 s ws v)
  then show ?case unfolding wheel_ops by (rule clear_any_ok) simp_all
qed (auto simp: wheel_ops wheel_inv_unlinked)

interpretation fb_sched: wheel_scheduler sctp_ss_fb_add sctp_ss_fb_remove sctp_ss_fb_clear
proof (unfold_locales, goal_cases)
  case (1 s ws p)
  then show ?case by (auto simp: wheel_ops wheel_inv_unlinked first_pending_def split: list.split)
next
  case (2 s ws p)
  then obtain sp sps where sp: "outqueue (streams s p) = sp # sps" by (cases "outqueue (streams s p)") auto
  let ?s = "(if rounds (streams s p) < 0
      then upd_stream p (ss_word_update (\<lambda>_. sp_length (pendings s sp))) s else s)
    \<lparr>wheel := TAILQ_INSERT_TAIL p (wheel s)\<rparr>"
  have "sctp_ss_fb_add p s = Some ?s"
    using 2 sp by (simp add: sctp_ss_fb_add_def wheel_inv_unlinked first_pending_def)
  moreover have "same_env s ?s" "last_out_stream ?s = last_out_stream s" by (simp_all add: same_env_def)
  moreover have "ws = ws @ []" "wheel_inv ?s (ws @ p # [])" using tail_add_ok [OF 2(1,3), of ?s] by simp_all
  ultimately show ?case by blast
next
  case (4 s ws p)
  then show ?case using wheel_remove_ok [OF 4(1,3)] by (simp add: wheel_ops wheel_inv_unlinked)
next
  case (5 s ws v)
  then show ?case unfolding wheel_ops by (rule clear_any_ok) simp_all
qed (auto simp: wheel_ops wheel_inv_unlinked)

end
