(* ===== verification/Sched_Correct.thy ===== *)
theory Sched_Correct
  imports Sched_Wheel
begin

text \<open>
  The wheel of an association over its whole life: messages are queued and taken, streams are
  scheduled, values are set and the scheduler is exchanged. The wheel always holds exactly the
  streams with data, and the round robin wheels are in the order of the stream ids.
\<close>

section \<open>The table of functions on wheel schedulers\<close>

lemma same_env_fields:
  "same_env s s' \<Longrightarrow> stream_scheduling_module s' = stream_scheduling_module s"
  "same_env s s' \<Longrightarrow> outqueue (streams s' p) = outqueue (streams s p)"
  "same_env s s' \<Longrightarrow> so_sid (streams s' p) = so_sid (streams s p)"
  by (simp_all add: same_env_def)

lemma full_wheel_env:
  assumes "full_wheel s ws" "same_env s s'" "wheel s' = wheel s"
  shows "full_wheel s' ws"
  using assms by (auto simp: full_wheel_def wheel_inv_def same_env_def stream_of_def)

definition sid_sorted :: "sctp_association \<Rightarrow> nat list \<Rightarrow> bool" where
  "sid_sorted s ws \<longleftrightarrow> sorted_wrt (\<lambda>p q. so_sid (streams s p) \<le> so_sid (streams s q)) ws"

lemma sid_sorted_cong: "(\<And>p. so_sid (streams s' p) = so_sid (streams s p)) \<Longrightarrow> sid_sorted s' ws = sid_sorted s ws"
  by (simp add: sid_sorted_def)

lemma so_sid_queue [simp]:
  "so_sid (streams (enqueue p sp s) x) = so_sid (streams s x)"
  "so_sid (streams (dequeue p s) x) = so_sid (streams s x)"
  by (simp_all add: enqueue_def dequeue_def)

abbreviation round_robin :: "ss_module \<Rightarrow> bool" where
  "round_robin m \<equiv> m = SS_ROUND_ROBIN \<or> m = SS_ROUND_ROBIN_PACKET"

text \<open>A sorted insertion keeps a wheel sorted.\<close>

lemma sorted_insert:
  assumes "sorted_wrt (\<lambda>p q. (key p :: 'k::linorder) \<le> key q) ws"
  shows "sorted_wrt (\<lambda>p q. key p \<le> key q) (takeWhile (\<lambda>t. key t < key p) ws @ p # dropWhile (\<lambda>t. key t < key p) ws)"
proof -
  have srt: "sorted_wrt (\<lambda>p q. key p \<le> key q) (takeWhile (\<lambda>t. key t < key p) ws @ dropWhile (\<lambda>t. key t < key p) ws)"
    using assms by simp
  moreover have "key x < key p" if "x \<in> set (takeWhile (\<lambda>t. key t < key p) ws)" for x
    using set_takeWhileD [OF that] by simp
  moreover have "key p \<le> key x" if "x \<in> set (dropWhile (\<lambda>t. key t < key p) ws)" for x
  proof (cases "dropWhile (\<lambda>t. key t < key p) ws")
    case (Cons y ys)
    then have "key p \<le> key y" using hd_dropWhile [of "\<lambda>t. key t < key p" ws] by auto
    moreover have "key y \<le> key x"
      using that Cons srt by (auto simp: sorted_wrt_append)
    ultimately show ?thesis by simp
  next
    case Nil
    with that have False by (metis empty_iff list.set(1))
    then show ?thesis ..
  qed
  ultimately show ?thesis by (auto simp: sorted_wrt_append intro: less_imp_le [OF less_le_trans])
qed

lemma sorted_wrt_remove1: "sorted_wrt P xs \<Longrightarrow> sorted_wrt P (remove1 x xs)"
  by (induction xs) (auto dest: notin_set_remove1)

text \<open>The round robin insertion on the wheel.\<close>

lemma rr_add_wheel:
  assumes "wheel_inv s ws" "outqueue (streams s p) \<noteq> []" "p \<notin> set ws" "sid_sorted s ws"
  obtains s' ws' where "sctp_ss_rr_add p s = Some s'" "wheel_inv s' ws'" "same_env s s'"
    "set ws' = insert p (set ws)" "sid_sorted s' ws'" "last_out_stream s' = last_out_stream s"
proof -
  let ?P = "\<lambda>t. so_sid (streams s t) < so_sid (streams s p)"
  obtain q where q: "insert_sorted_by so_sid p s = Some (s\<lparr>wheel := q\<rparr>)"
    "tq_wheel q (takeWhile ?P ws @ p # dropWhile ?P ws)"
    using insert_sorted_by_wheel [OF assms(1,3)] by blast
  have "set (takeWhile ?P ws) \<union> set (dropWhile ?P ws) = set ws"
    by (metis set_append takeWhile_dropWhile_id)
  with q assms that [of "s\<lparr>wheel := q\<rparr>" "takeWhile ?P ws @ p # dropWhile ?P ws"]
    sorted_insert [of "\<lambda>t. so_sid (streams s t)" ws p]
  show ?thesis by (simp add: sctp_ss_rr_add_def wheel_inv_unlinked wheel_inv_def sid_sorted_def)
qed

section \<open>Steps of an association\<close>

text \<open>
  The life of an association with a wheel scheduler. It starts with cleared links and the init
  function; then, in any order, a message is queued on a stream of the array or the first one is
  taken from it, each followed by the call of the scheduler, messages change in the meantime, a
  stream is reported as scheduled, a packet is done, a stream value is set, or the application
  selects another wheel scheduler.
\<close>

inductive sched_reach :: "sctp_association \<Rightarrow> bool" where
  start: "(\<And>p. unlinked (wheel s) p) \<Longrightarrow> stream_scheduling_module s \<noteq> SS_FIRST_COME \<Longrightarrow>
    sctp_ss_default_init s = Some s' \<Longrightarrow> sched_reach s'"
| send: "sched_reach s \<Longrightarrow> stream_of s p \<Longrightarrow>
    ss_add_to_stream (stream_scheduling_module s) p (Some sp) (enqueue p sp s) = Some s' \<Longrightarrow> sched_reach s'"
| take: "sched_reach s \<Longrightarrow> stream_of s p \<Longrightarrow>
    ss_remove_from_stream (stream_scheduling_module s) p sp (dequeue p s) = Some s' \<Longrightarrow> sched_reach s'"
| message: "sched_reach s \<Longrightarrow> sched_reach (s\<lparr>pendings := ps, stream_queue_cnt := n\<rparr>)"
| scheduled: "sched_reach s \<Longrightarrow> ss_scheduled (stream_scheduling_module s) p s = Some s' \<Longrightarrow> sched_reach s'"
| packet_done: "sched_reach s \<Longrightarrow> ss_packet_done (stream_scheduling_module s) net s = Some s' \<Longrightarrow> sched_reach s'"
| set_value: "sched_reach s \<Longrightarrow> stream_of s p \<Longrightarrow>
    ss_set_value (stream_scheduling_module s) (Some p) v s = Some (r, s') \<Longrightarrow> sched_reach s'"
| set_scheduler: "sched_reach s \<Longrightarrow> m \<noteq> SS_FIRST_COME \<Longrightarrow> set_scheduler m s = Some s' \<Longrightarrow> sched_reach s'"

text \<open>The invariant.\<close>

definition sched_inv :: "sctp_association \<Rightarrow> nat list \<Rightarrow> bool" where
  "sched_inv s ws \<longleftrightarrow>
     full_wheel s ws \<and> stream_scheduling_module s \<noteq> SS_FIRST_COME \<and>
     (round_robin (stream_scheduling_module s) \<longrightarrow> sid_sorted s ws)"

lemma sched_inv_env:
  assumes "sched_inv s ws" "same_env s s'" "wheel s' = wheel s"
  shows "sched_inv s' ws"
  using assms full_wheel_env [OF _ assms(2,3)]
  by (auto simp: sched_inv_def same_env_fields sid_sorted_def)

lemma add_streams_rr:
  assumes "wheel_inv s ws" "sid_sorted s ws"
  shows "\<exists>s' ws'. add_streams sctp_ss_rr_add is s = Some s' \<and> wheel_inv s' ws' \<and> same_env s s' \<and>
    sid_sorted s' ws' \<and>
    set ws' = set ws \<union> {p. (\<exists>i\<in>set is. p = strmout s + i) \<and> outqueue (streams s p) \<noteq> []}"
  using assms
proof (induction "is" arbitrary: s ws)
  case (Cons i "is")
  let ?p = "strmout s + i"
  show ?case
  proof (cases "outqueue (streams s ?p) = [] \<or> ?p \<in> set ws")
    case True
    have "sctp_ss_rr_add ?p s = Some s" using rr_sched.add_keep [OF Cons.prems(1) True] .
    moreover have "set ws \<union> {p. (\<exists>j\<in>set (i # is). p = strmout s + j) \<and> outqueue (streams s p) \<noteq> []} =
        set ws \<union> {p. (\<exists>j\<in>set is. p = strmout s + j) \<and> outqueue (streams s p) \<noteq> []}"
      using True by auto
    ultimately show ?thesis using Cons.IH [OF Cons.prems] by (simp only: add_streams.simps) simp
  next
    case False
    obtain s1 ws1 where 1: "sctp_ss_rr_add ?p s = Some s1" "wheel_inv s1 ws1" "same_env s s1"
      "set ws1 = insert ?p (set ws)" "sid_sorted s1 ws1"
      using rr_add_wheel [OF Cons.prems(1) _ _ Cons.prems(2), of ?p] False by blast
    from Cons.IH [OF 1(2,5)] obtain s2 ws2 where 2: "add_streams sctp_ss_rr_add is s1 = Some s2"
      "wheel_inv s2 ws2" "same_env s1 s2" "sid_sorted s2 ws2"
      "set ws2 = set ws1 \<union> {p. (\<exists>i\<in>set is. p = strmout s1 + i) \<and> outqueue (streams s1 p) \<noteq> []}"
      by blast
    have "set ws2 = set ws \<union> {p. (\<exists>j\<in>set (i # is). p = strmout s + j) \<and> outqueue (streams s p) \<noteq> []}"
      using 1(3,4) 2(5) False by (auto simp: same_env_def)
    then show ?thesis using 1 2 same_env_trans [OF 1(3) 2(3)] by auto
  qed
qed auto

lemma default_init_inv:
  assumes "\<And>p. unlinked (wheel s) p" "stream_scheduling_module s \<noteq> SS_FIRST_COME"
  shows "\<exists>s' ws. sctp_ss_default_init s = Some s' \<and> sched_inv s' ws"
proof -
  let ?s = "s\<lparr>locked_on_sending := None, last_out_stream := None, wheel := TAILQ_INIT (wheel s)\<rparr>"
  let ?is = "[0..<unat (streamoutcnt s)]"
  have inv: "wheel_inv ?s []" "sid_sorted ?s []"
    using assms(1) by (auto simp: wheel_inv_def tq_wheel_def unlinked_def TAILQ_INIT_def tq_rep_def sid_sorted_def)
  have full: "full_wheel s' ws'" if "wheel_inv s' ws'" "same_env ?s s'"
    "set ws' = set [] \<union> {p. (\<exists>i\<in>set ?is. p = strmout ?s + i) \<and> outqueue (streams ?s p) \<noteq> []}" for s' ws'
    using that by (auto simp: full_wheel_def stream_of_def same_env_def)
  show ?thesis
  proof (cases "round_robin (stream_scheduling_module s)")
    case True
    with add_streams_rr [OF inv, of ?is] assms(2) show ?thesis
      by (auto simp: sctp_ss_default_init_def sched_inv_def same_env_def dest!: full)
  next
    case False
    note ex = default_sched.add_streams_wheel [OF inv(1), of ?is] prio_sched.add_streams_wheel [OF inv(1), of ?is]
      fb_sched.add_streams_wheel [OF inv(1), of ?is]
    show ?thesis
    proof (cases "stream_scheduling_module s")
      case SS_DEFAULT
      with ex(1) full show ?thesis
        by (fastforce simp: sctp_ss_default_init_def sched_inv_def same_env_def)
    next
      case SS_PRIORITY
      with ex(2) full show ?thesis
        by (fastforce simp: sctp_ss_default_init_def sched_inv_def same_env_def)
    next
      case SS_FAIR_BANDWITH
      with ex(3) full show ?thesis
        by (fastforce simp: sctp_ss_default_init_def sched_inv_def same_env_def)
    qed (use assms(2) False in auto)
  qed
qed

lemma send_inv:
  assumes "sched_inv s ws" "stream_of s p"
  shows "\<exists>s' ws'. ss_add_to_stream (stream_scheduling_module s) p sp' (enqueue p sp s) = Some s' \<and> sched_inv s' ws'"
proof -
  let ?s = "enqueue p sp s"
  have full: "full_wheel s ws" and m: "stream_scheduling_module s \<noteq> SS_FIRST_COME"
    using assms(1) by (auto simp: sched_inv_def)
  have m': "stream_scheduling_module ?s = stream_scheduling_module s" by (simp add: enqueue_def)
  show ?thesis
  proof (cases "round_robin (stream_scheduling_module s)")
    case True
    have sorted: "sid_sorted ?s ws" using assms(1) True by (auto simp: sched_inv_def cong: sid_sorted_cong)
    have inv: "wheel_inv ?s ws" using full by (simp add: full_wheel_def wheel_inv_def enqueue_def)
    obtain s1 ws1 where 1: "sctp_ss_rr_add p ?s = Some s1" "full_wheel s1 ws1" "same_env ?s s1"
      using rr_sched.full_wheel_enqueue [OF full assms(2)] by blast
    have "\<exists>ws2. full_wheel s1 ws2 \<and> sid_sorted s1 ws2"
    proof (cases "p \<in> set ws")
      case True
      then have "sctp_ss_rr_add p ?s = Some ?s" by (intro rr_sched.add_keep [OF inv]) simp
      with 1 sorted show ?thesis
        using rr_sched.full_wheel_enqueue [OF full assms(2), of sp]
        using full True by (auto simp: full_wheel_def wheel_inv_def enqueue_def stream_of_def intro!: exI [of _ ws])
    next
      case False
      obtain s2 ws2 where 2: "sctp_ss_rr_add p ?s = Some s2" "wheel_inv s2 ws2" "same_env ?s s2"
        "set ws2 = insert p (set ws)" "sid_sorted s2 ws2"
        by (rule rr_add_wheel [OF inv _ False sorted]) (simp_all add: enqueue_def)
      then have "full_wheel s1 ws2"
        using 1 full assms(2) by (auto simp: full_wheel_def same_env_def stream_of_def enqueue_def)
      with 1(1) 2 show ?thesis by auto
    qed
    then show ?thesis
      using 1 True m m' by (auto simp: sched_inv_def same_env_fields)
  next
    case False
    then show ?thesis
      using default_sched.full_wheel_enqueue [OF full assms(2), of sp]
        prio_sched.full_wheel_enqueue [OF full assms(2), of sp]
        fb_sched.full_wheel_enqueue [OF full assms(2), of sp] m m'
      by (cases "stream_scheduling_module s") (fastforce simp: sched_inv_def same_env_fields)+
  qed
qed

text \<open>Taking a message: the wheel only loses the stream, whatever the scheduler.\<close>

lemma remove_same: "sctp_ss_prio_remove = sctp_ss_default_remove" "sctp_ss_fb_remove = sctp_ss_default_remove"
  by (simp_all add: fun_eq_iff sctp_ss_prio_remove_def sctp_ss_fb_remove_def sctp_ss_default_remove_def)

lemma take_inv:
  assumes "sched_inv s ws" "stream_of s p"
  shows "\<exists>s' ws'. ss_remove_from_stream (stream_scheduling_module s) p sp (dequeue p s) = Some s' \<and> sched_inv s' ws'"
proof -
  let ?s = "dequeue p s" and ?ws = "if outqueue (streams (dequeue p s) p) = [] then remove1 p ws else ws"
  have full: "full_wheel s ws" and m: "stream_scheduling_module s \<noteq> SS_FIRST_COME"
    using assms(1) by (auto simp: sched_inv_def)
  have inv: "wheel_inv ?s ws" using full by (simp add: full_wheel_def wheel_inv_def dequeue_def)
  have d: "distinct ws" using inv by (auto simp: wheel_inv_def tq_wheel_def dest: tq_rep_distinct)
  obtain s' where s': "sctp_ss_default_remove p ?s = Some s'" "wheel_inv s' ?ws" "same_env ?s s'"
  proof (cases "outqueue (streams ?s p) \<noteq> [] \<or> p \<notin> set ws")
    case True
    with default_sched.remove_keep [OF inv True] inv that show ?thesis by (auto simp: remove1_idem)
  next
    case False
    with default_sched.remove_old [OF inv, of p] that show ?thesis by auto
  qed
  have "full_wheel s' ?ws"
    using s' full d assms(2) stream_of_env [OF s'(3)]
    by (auto simp: full_wheel_def same_env_def dequeue_def stream_of_def split: if_splits)
  moreover have "sid_sorted s' ?ws" if "sid_sorted s ws"
    using that sid_sorted_cong [of s' s] same_env_fields(3) [OF s'(3)]
    by (auto simp: sid_sorted_def sorted_wrt_remove1)
  moreover have "stream_scheduling_module s' = stream_scheduling_module s"
    using s'(3) by (simp add: same_env_def dequeue_def)
  ultimately have "sched_inv s' ?ws" using assms(1) by (auto simp: sched_inv_def)
  then show ?thesis
    using s'(1) m by (cases "stream_scheduling_module s") (auto simp: remove_same)
qed

lemma relock_env [simp]: "same_env s (relock p s)" "wheel (relock p s) = wheel s"
  by (auto simp: relock_def same_env_def)

lemma fold_upd_stream_env:
  assumes "\<And>so. outqueue (f so) = outqueue so" "\<And>so. so_sid (f so) = so_sid so"
  shows "same_env s (fold (\<lambda>t. upd_stream t f) ts s) \<and> wheel (fold (\<lambda>t. upd_stream t f) ts s) = wheel s"
proof (induction ts arbitrary: s)
  case (Cons t ts)
  have "same_env s (upd_stream t f s)" using assms by (simp add: same_env_def)
  with Cons.IH [of "upd_stream t f s"] same_env_trans show ?case by auto
qed simp

lemma scheduled_env:
  assumes "ss_scheduled m p s = Some s'"
  shows "same_env s s' \<and> wheel s' = wheel s"
proof (cases "m = SS_FAIR_BANDWITH")
  case False
  then have "s' = relock p (s\<lparr>last_out_stream := Some p\<rparr>)"
    using assms by (cases m) (auto simp: sctp_ss_default_scheduled_def)
  moreover have "same_env s (s\<lparr>last_out_stream := Some p\<rparr>)" by simp
  ultimately show ?thesis using same_env_trans [OF _ relock_env(1)] by simp
next
  case True
  let ?f = "fb_charge (ss_word (streams (relock p s) p))"
  obtain ts where ts: "s' = (upd_stream p (ss_word_update (\<lambda>_.
        next_rounds (fold (\<lambda>t. upd_stream t ?f) ts (relock p s)) p))
      (fold (\<lambda>t. upd_stream t ?f) ts (relock p s)))\<lparr>last_out_stream := Some p\<rparr>"
    using assms True by (auto simp: sctp_ss_fb_scheduled_def Let_def split: Option.bind_splits)
  have "same_env (relock p s) (fold (\<lambda>t. upd_stream t ?f) ts (relock p s)) \<and>
      wheel (fold (\<lambda>t. upd_stream t ?f) ts (relock p s)) = wheel (relock p s)"
    by (rule fold_upd_stream_env) (simp_all add: fb_charge_def)
  then have "same_env s (fold (\<lambda>t. upd_stream t ?f) ts (relock p s)) \<and>
      wheel (fold (\<lambda>t. upd_stream t ?f) ts (relock p s)) = wheel s"
    by (metis same_env_trans relock_env)
  then show ?thesis unfolding ts by (simp add: same_env_def)
qed

lemma packet_done_env:
  "ss_packet_done m net s = Some s' \<Longrightarrow> same_env s s' \<and> wheel s' = wheel s"
  by (cases m) (auto simp: sctp_ss_default_packet_done_def sctp_ss_rrp_packet_done_def split: Option.bind_splits)

text \<open>
  Setting a value: without data the stream is off the wheel, with data it is on it; in both cases
  the calls that should move it do nothing.
\<close>

lemma prio_set_value_eq:
  assumes "wheel_inv s ws" "p \<in> set ws \<longleftrightarrow> outqueue (streams s p) \<noteq> []"
  shows "sctp_ss_prio_set_value (Some p) v s = Some (1, upd_stream p (set_priority v) s)"
proof -
  let ?s = "upd_stream p (set_priority v) s"
  have inv: "wheel_inv ?s ws" using assms(1) by (simp add: wheel_inv_def)
  have "sctp_ss_prio_remove p ?s = Some ?s" "sctp_ss_prio_add p ?s = Some ?s"
    using prio_sched.remove_keep [OF inv] prio_sched.add_keep [OF inv] assms(2) by auto
  then show ?thesis by (simp add: sctp_ss_prio_set_value_def)
qed

lemma set_value_env:
  assumes "sched_inv s ws" "stream_of s p" "ss_set_value (stream_scheduling_module s) (Some p) v s = Some (r, s')"
  shows "same_env s s' \<and> wheel s' = wheel s"
proof (cases "stream_scheduling_module s = SS_PRIORITY")
  case True
  have "s' = upd_stream p (set_priority v) s"
    using assms True prio_set_value_eq [of s ws p v] by (auto simp: sched_inv_def full_wheel_def)
  then show ?thesis by (simp add: same_env_def)
next
  case False
  then show ?thesis using assms(3)
    by (cases "stream_scheduling_module s") (auto simp: sctp_ss_default_set_value_def)
qed

lemma ss_clear_wheel:
  assumes "wheel_inv s ws" "m \<noteq> SS_FIRST_COME"
  shows "\<exists>s'. ss_clear m v s = Some s' \<and> wheel_inv s' [] \<and> same_env s s'"
  using assms default_sched.clear_all [OF assms(1)] prio_sched.clear_all [OF assms(1)]
    fb_sched.clear_all [OF assms(1)]
  by (cases m) auto

lemma set_scheduler_inv:
  assumes "sched_inv s ws" "m \<noteq> SS_FIRST_COME"
  shows "\<exists>s' ws'. set_scheduler m s = Some s' \<and> sched_inv s' ws' \<and> stream_scheduling_module s' = m"
proof -
  obtain s1 where s1: "ss_clear (stream_scheduling_module s) True s = Some s1" "wheel_inv s1 []" "same_env s s1"
    using ss_clear_wheel [of s ws "stream_scheduling_module s" True] assms(1)
    by (auto simp: sched_inv_def full_wheel_def)
  let ?s = "s1\<lparr>stream_scheduling_module := m\<rparr>"
  have "unlinked (wheel ?s) p" for p using s1(2) by (simp add: wheel_inv_def tq_wheel_def)
  then obtain s' ws' where s': "sctp_ss_default_init ?s = Some s'" "sched_inv s' ws'"
    using default_init_inv [of ?s] assms(2) by auto
  have "wheel_inv (?s\<lparr>locked_on_sending := None, last_out_stream := None, wheel := TAILQ_INIT (wheel ?s)\<rparr>) []"
    using s1(2) by (auto simp: wheel_inv_def tq_wheel_def unlinked_def TAILQ_INIT_def tq_rep_def)
  note add = default_sched.add_streams_wheel [OF this] rr_sched.add_streams_wheel [OF this]
    prio_sched.add_streams_wheel [OF this] fb_sched.add_streams_wheel [OF this]
  have "stream_scheduling_module s' = m"
    using s'(1) add [of "[0..<unat (streamoutcnt ?s)]"] assms(2)
    by (cases m) (auto simp: sctp_ss_default_init_def same_env_def)
  moreover have "ss_init m ?s = sctp_ss_default_init ?s" using assms(2) by (cases m) auto
  ultimately show ?thesis using s1(1) s' by (auto simp: set_scheduler_def)
qed

lemma sched_reach_inv: "sched_reach s \<Longrightarrow> \<exists>ws. sched_inv s ws"
proof (induction rule: sched_reach.induct)
  case (start s s')
  then show ?case using default_init_inv [of s] by auto
next
  case (send s p sp s')
  then show ?case using send_inv by (metis option.inject)
next
  case (take s p sp s')
  then show ?case using take_inv by (metis option.inject)
next
  case (message s n ps)
  then obtain ws where "sched_inv s ws" by blast
  then have "sched_inv (s\<lparr>pendings := ps, stream_queue_cnt := n\<rparr>) ws"
    by (simp add: sched_inv_def full_wheel_def wheel_inv_def stream_of_def sid_sorted_def)
  then show ?case ..
next
  case (scheduled s p s')
  then show ?case using scheduled_env sched_inv_env by blast
next
  case (packet_done s net s')
  then show ?case using packet_done_env sched_inv_env by blast
next
  case (set_value s p v r s')
  then show ?case using set_value_env sched_inv_env by blast
next
  case (set_scheduler s m s')
  then show ?case using set_scheduler_inv by (metis option.inject)
qed

section \<open>Properties\<close>

text \<open>
  C18: at every moment in the life of an association with a wheel scheduler, walking the wheel ends
  and visits exactly the streams of the association that have data to send, each once; for the
  round robin schedulers the visit is in the order of the stream ids. Changing the scheduler loses
  and duplicates nothing.
\<close>

theorem wheel_holds_streams_with_data:
  assumes "sched_reach s"
  shows "\<exists>ws. TAILQ_FOREACH (wheel s) (TAILQ_FIRST (wheel s)) = Some ws \<and> distinct ws \<and>
    (\<forall>p. p \<in> set ws \<longleftrightarrow>
       (\<exists>i < unat (streamoutcnt s). p = strmout s + i) \<and> outqueue (streams s p) \<noteq> []) \<and>
    (stream_scheduling_module s \<in> {SS_ROUND_ROBIN, SS_ROUND_ROBIN_PACKET} \<longrightarrow>
       sorted (map (\<lambda>p. so_sid (streams s p)) ws))"
proof -
  obtain ws where ws: "sched_inv s ws" using sched_reach_inv [OF assms] by blast
  then have rep: "tq_rep (wheel s) ws" by (auto simp: sched_inv_def full_wheel_def wheel_inv_def tq_wheel_def)
  with foreach_from [of "wheel s" "[]" ws] ws show ?thesis
    by (intro exI [of _ ws])
      (auto simp: tq_rep_first tq_rep_distinct sched_inv_def full_wheel_def stream_of_def sid_sorted_def sorted_map)
qed

text \<open>
  An association with three streams at the addresses 100 to 102; streams 2 and 0 have a message.
\<close>

definition demo_asoc :: "ss_module \<Rightarrow> sctp_association" where
  "demo_asoc m = \<lparr>locked_on_sending = None, last_out_stream = None, wheel = blank_tailq, ss_list = blank_tailq,
     streams = (\<lambda>p. \<lparr>outqueue = (if p = 100 then [7] else if p = 102 then [8, 9] else []), ss_word = 0,
       so_sid = word_of_nat (p - 100)\<rparr>),
     pendings = (\<lambda>sp. \<lparr>sp_net = None, sp_length = 10, sp_sid = (if sp = 7 then 0 else 2),
       msg_is_complete = 1, some_taken = 0\<rparr>),
     strmout = 100, streamoutcnt = 3, stream_queue_cnt = 2, idata_supported = 0,
     stream_scheduling_module = m, sctp_cmt_on_off = 0\<rparr>"

theorem wheel_holds_streams_with_data_witness:
  "\<exists>s. sctp_ss_default_init (demo_asoc SS_ROUND_ROBIN) = Some s \<and> sched_reach s \<and>
    (\<exists>ws. TAILQ_FOREACH (wheel s) (TAILQ_FIRST (wheel s)) = Some ws \<and> distinct ws)"
proof -
  have un: "unlinked (wheel (demo_asoc SS_ROUND_ROBIN)) p" for p
    by (simp add: demo_asoc_def blank_tailq_def unlinked_def)
  have m: "stream_scheduling_module (demo_asoc SS_ROUND_ROBIN) \<noteq> SS_FIRST_COME" by (simp add: demo_asoc_def)
  obtain s where s: "sctp_ss_default_init (demo_asoc SS_ROUND_ROBIN) = Some s"
    using default_init_inv [OF un m] by blast
  have reach: "sched_reach s" by (rule sched_reach.start [OF un m s])
  from wheel_holds_streams_with_data [OF reach] reach s show ?thesis by blast
qed

end
