(* ===== verification/Sched_Select.thy ===== *)
theory Sched_Select
  imports Sched_Correct
begin

text \<open>
  Which stream the schedulers select: the cyclic order of the default and round robin schedulers
  and the cases in which their search does not end, the choice of the priority scheduler, the
  smallest round counter of the fair bandwidth scheduler, the order of arrival.
\<close>

section \<open>The search behind the labels\<close>

text \<open>\<open>ys\<close> are the streams a successor function visits from \<open>t\<close> on.\<close>

fun chain :: "(nat option \<Rightarrow> nat option) \<Rightarrow> nat option \<Rightarrow> nat list \<Rightarrow> bool" where
  "chain succ t [] \<longleftrightarrow> True"
| "chain succ t (y # ys) \<longleftrightarrow> succ t = Some y \<and> chain succ (Some y) ys"

lemma chain_append: "chain succ t (xs @ ys) \<longleftrightarrow> chain succ t xs \<and> chain succ (if xs = [] then t else Some (last xs)) ys"
  by (induction xs arbitrary: t) auto

text \<open>The search stops at the first usable stream or when it is back at the last stream served.\<close>

lemma again_chain:
  assumes "chain succ t (ys @ [l])" "last_out_stream s = Some l" "l \<notin> set ys"
  shows "again succ s net t = Some (find (\<lambda>p. \<not> wrong_net s net p) (ys @ [l]))"
  using assms
proof (induction ys arbitrary: t)
  case Nil
  then show ?case by (simp add: again.simps [of succ s net t])
next
  case (Cons y ys)
  then show ?case by (auto simp: again.simps [of succ s net t])
qed

lemma again_found:
  assumes "chain succ t ys" "find (\<lambda>p. \<not> wrong_net s net p) ys = Some p"
    "\<forall>y\<in>set ys. last_out_stream s \<noteq> Some y"
  shows "again succ s net t = Some (Some p)"
  using assms
proof (induction ys arbitrary: t)
  case (Cons y ys)
  then show ?case by (auto simp: again.simps [of succ s net t] split: if_splits)
qed simp

lemma again_diverges:
  assumes "\<And>t. t \<in> T \<Longrightarrow> \<exists>y. succ t = Some y \<and> wrong_net s net y \<and> Some y \<noteq> last_out_stream s \<and> Some y \<in> T"
    and "t \<in> T"
  shows "again succ s net t = None"
proof (rule ccontr)
  assume "again succ s net t \<noteq> None"
  then obtain r where "again succ s net t = Some r" by blast
  then have "t \<notin> T \<or> \<not> (\<forall>t\<in>T. \<exists>y. succ t = Some y \<and> wrong_net s net y \<and>
      Some y \<noteq> last_out_stream s \<and> Some y \<in> T)"
    by (rule again.raw_induct [rotated]) (fastforce split: if_splits option.splits)
  with assms show False by blast
qed

lemma wheel_first: "wheel_inv s ws \<Longrightarrow> TAILQ_FIRST (wheel s) = (if ws = [] then None else Some (hd ws))"
  by (simp add: wheel_inv_def tq_wheel_def tq_rep_first)

lemma wheel_succ: "wheel_inv s (us @ p # vs) \<Longrightarrow> TAILQ_NEXT (wheel s) p = (if vs = [] then None else Some (hd vs))"
  by (metis wheel_inv_def tq_wheel_def tq_rep_next)

lemma wheel_distinct: "wheel_inv s ws \<Longrightarrow> distinct ws"
  by (auto simp: wheel_inv_def tq_wheel_def dest: tq_rep_distinct)

lemma chain_wheel_from:
  assumes "wheel_inv s (us @ vs)" "t = (if us = [] then None else Some (last us))"
  shows "chain (wheel_next s) t vs"
  using assms
proof (induction vs arbitrary: us t)
  case (Cons v vs)
  have "wheel_next s t = Some v"
  proof (cases us rule: rev_cases)
    case Nil
    with Cons.prems wheel_first [of s "us @ v # vs"] show ?thesis by (simp add: wheel_next_def)
  next
    case (snoc us' u)
    with Cons.prems wheel_succ [of s us' u "v # vs"] show ?thesis by (simp add: wheel_next_def)
  qed
  with Cons.IH [of "us @ [v]"] Cons.prems(1) show ?case by simp
qed simp

lemma chain_wheel_cycle:
  assumes "wheel_inv s (us @ l # vs)"
  shows "chain (wheel_next s) (Some l) (vs @ us @ [l])"
proof -
  have 1: "chain (wheel_next s) (Some l) vs"
    using chain_wheel_from [of s "us @ [l]" vs] assms by simp
  have "chain (wheel_next s) None (us @ [l])"
    using chain_wheel_from [of s "[]" "us @ l # vs" None] assms by (simp add: chain_append)
  moreover define e where "e = (if vs = [] then l else last vs)"
  have "TAILQ_NEXT (wheel s) e = None"
  proof (cases vs rule: rev_cases)
    case Nil
    with wheel_succ [OF assms] show ?thesis by (simp add: e_def)
  next
    case (snoc vs' v)
    with wheel_succ [of s "us @ l # vs'" v "[]"] assms show ?thesis by (simp add: e_def)
  qed
  then have "wheel_next s (Some e) = wheel_next s None" by (simp add: wheel_next_def)
  ultimately have "chain (wheel_next s) (Some e) (us @ [l])" by (cases us) auto
  with 1 show ?thesis by (simp add: chain_append e_def split: if_splits)
qed

section \<open>Default and round robin\<close>

text \<open>
  C31: the default selection is a round robin. When no stream is locked and the last stream served
  is on the wheel, the search ends and selects the first stream behind it, in cyclic order and
  including itself at the end, whose first message may go to the requested destination; it selects
  none if there is no such stream.
\<close>

theorem default_select_round_robin:
  assumes "wheel_inv s (us @ l # vs)" "last_out_stream s = Some l" "locked_on_sending s = None"
  shows "sctp_ss_default_select net s = Some (find (\<lambda>p. \<not> wrong_net s net p) (vs @ us @ [l]))"
  using again_chain [of "wheel_next s" "Some l" "vs @ us" l s net] chain_wheel_cycle [OF assms(1)]
    wheel_distinct [OF assms(1)] assms(2,3)
  by (auto simp: sctp_ss_default_select_def)

lemma demo_default:
  obtains s where "wheel_inv s [100, 102]" "last_out_stream s = None" "locked_on_sending s = None"
    "\<And>p. streams s p = streams (demo_asoc SS_DEFAULT) p" "pendings s = pendings (demo_asoc SS_DEFAULT)"
    "sctp_cmt_on_off s = 0"
proof -
  let ?s0 = "demo_asoc SS_DEFAULT"
  have "tq_wheel blank_tailq []"
    by (simp add: tq_wheel_def tq_rep_def blank_tailq_def unlinked_def)
  from tq_wheel_insert_tail [OF tq_wheel_insert_tail [OF this, of 100], of 102]
  have "tq_wheel (TAILQ_INSERT_TAIL 102 (TAILQ_INSERT_TAIL 100 blank_tailq)) [100, 102]" by simp
  with that [of "?s0\<lparr>wheel := TAILQ_INSERT_TAIL 102 (TAILQ_INSERT_TAIL 100 blank_tailq)\<rparr>"]
  show ?thesis by (simp add: wheel_inv_def demo_asoc_def)
qed

theorem default_select_round_robin_witness:
  "\<exists>s. wheel_inv s [100, 102] \<and> last_out_stream s = Some 100 \<and>
    sctp_ss_default_select (Some 1) s = Some (Some 102)"
proof -
  obtain s where s: "wheel_inv s [100, 102]" "locked_on_sending s = None"
    "\<And>p. streams s p = streams (demo_asoc SS_DEFAULT) p" "pendings s = pendings (demo_asoc SS_DEFAULT)"
    using demo_default by metis
  let ?s = "s\<lparr>last_out_stream := Some 100\<rparr>"
  have "wheel_inv ?s ([] @ 100 # [102])" using s(1) by (simp add: wheel_inv_def)
  from default_select_round_robin [OF this, of "Some 1"] s
  have "sctp_ss_default_select (Some 1) ?s = Some (Some 102)"
    by (simp add: wrong_net_def first_pending_def demo_asoc_def)
  moreover have "wheel_inv ?s [100, 102]" using s(1) by (simp add: wheel_inv_def)
  ultimately show ?thesis by (intro exI [of _ ?s]) simp
qed

lemma find_None_all: "find P xs = None \<longleftrightarrow> (\<forall>x\<in>set xs. \<not> P x)"
  by (induction xs) auto

text \<open>
  C32: without such an anchor (no stream served yet, or the last one served is not on the wheel,
  as after \<^verbatim>\<open>sctp_ss_default_scheduled\<close> for a stream whose queue has just run empty) the selection
  still finds the first usable stream, but when every stream on the wheel is bound to another
  destination the search never ends.
\<close>

theorem default_select_unanchored:
  assumes "wheel_inv s ws" "\<forall>l. last_out_stream s = Some l \<longrightarrow> l \<notin> set ws" "locked_on_sending s = None"
  shows "sctp_ss_default_select net s =
    (if ws = [] then Some None else map_option Some (find (\<lambda>p. \<not> wrong_net s net p) ws))"
proof -
  let ?t = "last_out_stream s"
  have start: "wheel_next s ?t = wheel_next s None"
  proof (cases ?t)
    case (Some l)
    then have "unlinked (wheel s) l" using assms(1,2) by (simp add: wheel_inv_unlinked)
    with Some show ?thesis by (simp add: wheel_next_def unlinked_def TAILQ_NEXT_def)
  qed simp
  have chain: "chain (wheel_next s) ?t ws"
    using chain_wheel_from [of s "[]" ws None] assms(1) start by (cases ws) auto
  have sel: "sctp_ss_default_select net s = again (wheel_next s) s net ?t"
    using assms(3) by (simp add: sctp_ss_default_select_def)
  show ?thesis
  proof (cases "find (\<lambda>p. \<not> wrong_net s net p) ws")
    case (Some p)
    then show ?thesis using again_found [OF chain Some] assms(2) sel by auto
  next
    case None
    then have wrong: "\<forall>y\<in>set ws. wrong_net s net y" by (simp add: find_None_all)
    show ?thesis
    proof (cases "ws = []")
      case True
      with wheel_first [OF assms(1)] start show ?thesis
        unfolding sel by (simp add: again.simps [of "wheel_next s" s net ?t] wheel_next_def)
    next
      case False
      have "again (wheel_next s) s net ?t = None"
      proof (rule again_diverges [where T = "insert ?t (Some ` set ws)"])
        fix t assume t: "t \<in> insert ?t (Some ` set ws)"
        have "\<exists>y\<in>set ws. wheel_next s t = Some y"
        proof (cases "t = ?t")
          case True
          with False wheel_first [OF assms(1)] start show ?thesis by (simp add: wheel_next_def)
        next
          case False
          then obtain y us vs where y: "t = Some y" "ws = us @ y # vs" using t by (auto dest: split_list)
          with wheel_succ [of s us y vs] wheel_first [OF assms(1)] assms(1) show ?thesis
            by (cases vs; cases us) (auto simp: wheel_next_def)
        qed
        then show "\<exists>y. wheel_next s t = Some y \<and> wrong_net s net y \<and> Some y \<noteq> last_out_stream s \<and>
            Some y \<in> insert ?t (Some ` set ws)"
          using wrong assms(2) by (metis imageI insertI2)
      qed simp
      with sel None False show ?thesis by simp
    qed
  qed
qed

theorem default_select_unanchored_witness:
  "\<exists>s. wheel_inv s [100, 102] \<and> last_out_stream s = None \<and> sctp_ss_default_select (Some 1) s = None"
proof -
  obtain s where s: "wheel_inv s [100, 102]" "last_out_stream s = None" "locked_on_sending s = None"
    "\<And>p. streams s p = streams (demo_asoc SS_DEFAULT) p" "sctp_cmt_on_off s = 0"
    using demo_default by metis
  let ?s = "s\<lparr>pendings := \<lambda>sp. \<lparr>sp_net = Some 2, sp_length = 10, sp_sid = 0, msg_is_complete = 1, some_taken = 0\<rparr>\<rparr>"
  have inv: "wheel_inv ?s [100, 102]" using s(1) by (simp add: wheel_inv_def)
  from default_select_unanchored [OF inv, of "Some 1"] s
  have "sctp_ss_default_select (Some 1) ?s = None"
    by (simp add: wrong_net_def first_pending_def demo_asoc_def)
  with inv s(2) show ?thesis by (intro exI [of _ ?s]) simp
qed

section \<open>Priority\<close>

definition prio_sorted :: "sctp_association \<Rightarrow> nat list \<Rightarrow> bool" where
  "prio_sorted s ws \<longleftrightarrow> sorted_wrt (\<lambda>p q. priority (streams s p) \<le> priority (streams s q)) ws"

lemma priority_set_priority [simp]: "priority (set_priority v so) = v"
proof -
  have "(0xFFFF0000 :: u32) = push_bit 16 0xFFFF" by simp
  then have "\<not> bit (0xFFFF0000 :: u32) n" if "n < 16" for n
    using that by (simp only: bit_push_bit_iff) simp
  then show ?thesis
    unfolding priority_def set_priority_def
    by (intro bit_word_eqI) (auto simp: bit_simps)
qed

text \<open>
  a stream that gets data is put on the wheel of the priority scheduler so that the wheel stays
  sorted by priority, in front of the streams of the same priority.
\<close>

theorem prio_add_sorted:
  assumes "wheel_inv s ws" "prio_sorted s ws" "outqueue (streams s p) \<noteq> []" "p \<notin> set ws"
  shows "\<exists>s' us vs. sctp_ss_prio_add p s = Some s' \<and> ws = us @ vs \<and> wheel_inv s' (us @ p # vs) \<and>
    prio_sorted s' (us @ p # vs) \<and>
    (\<forall>q\<in>set us. priority (streams s q) < priority (streams s p)) \<and>
    (\<forall>q\<in>set vs. priority (streams s p) \<le> priority (streams s q))"
proof -
  let ?P = "\<lambda>t. priority (streams s t) < priority (streams s p)"
  let ?us = "takeWhile ?P ws" and ?vs = "dropWhile ?P ws"
  obtain q where q: "insert_sorted_by priority p s = Some (s\<lparr>wheel := q\<rparr>)" "tq_wheel q (?us @ p # ?vs)"
    using insert_sorted_by_wheel [OF assms(1,4)] by blast
  have sorted: "prio_sorted s (?us @ p # ?vs)"
    using sorted_insert [of "\<lambda>t. priority (streams s t)" ws p] assms(2) by (simp add: prio_sorted_def)
  have "sctp_ss_prio_add p s = Some (s\<lparr>wheel := q\<rparr>)"
    using q(1) assms by (simp add: sctp_ss_prio_add_def wheel_inv_unlinked)
  moreover have "wheel_inv (s\<lparr>wheel := q\<rparr>) (?us @ p # ?vs)" "prio_sorted (s\<lparr>wheel := q\<rparr>) (?us @ p # ?vs)"
    using q(2) sorted by (simp_all add: wheel_inv_def prio_sorted_def)
  moreover have "ws = ?us @ ?vs" by simp
  moreover have "\<forall>q\<in>set ?us. ?P q" by (auto dest: set_takeWhileD)
  moreover have "\<forall>q\<in>set ?vs. priority (streams s p) \<le> priority (streams s q)"
    using sorted by (simp add: prio_sorted_def sorted_wrt_append)
  ultimately show ?thesis by blast
qed

definition demo_prio :: sctp_association where
  "demo_prio = (demo_asoc SS_PRIORITY)\<lparr>
     wheel := TAILQ_INSERT_TAIL 102 (TAILQ_INSERT_TAIL 101 (TAILQ_INSERT_TAIL 100 blank_tailq)),
     streams := \<lambda>p. \<lparr>outqueue = [7], ss_word = (if p = 100 then 1 else if p = 103 then 3 else 5),
       so_sid = word_of_nat (p - 100)\<rparr>, last_out_stream := Some 101\<rparr>"

lemma demo_prio_inv: "wheel_inv demo_prio [100, 101, 102]" "prio_sorted demo_prio [100, 101, 102]"
proof -
  have "tq_wheel blank_tailq []"
    by (simp add: tq_wheel_def tq_rep_def blank_tailq_def unlinked_def)
  from tq_wheel_insert_tail [OF tq_wheel_insert_tail [OF tq_wheel_insert_tail [OF this, of 100], of 101], of 102]
  show "wheel_inv demo_prio [100, 101, 102]" by (simp add: wheel_inv_def demo_prio_def)
  show "prio_sorted demo_prio [100, 101, 102]" by (simp add: prio_sorted_def demo_prio_def priority_def)
qed

theorem prio_add_sorted_witness:
  "\<exists>s' us vs. sctp_ss_prio_add 103 demo_prio = Some s' \<and> [100, 101, 102] = us @ vs \<and>
    wheel_inv s' (us @ 103 # vs) \<and> prio_sorted s' (us @ 103 # vs)"
proof -
  have "outqueue (streams demo_prio 103) \<noteq> []" "103 \<notin> set [100, 101, 102 :: nat]"
    by (simp_all add: demo_prio_def)
  from prio_add_sorted [OF demo_prio_inv this] show ?thesis by blast
qed

lemma prio_next_wheel:
  assumes "wheel_inv s (us @ l # vs)"
  shows "prio_next s (Some l) = Some (if vs \<noteq> [] \<and> priority (streams s (hd vs)) = priority (streams s l)
    then hd vs else hd (us @ [l]))"
  using wheel_succ [OF assms] wheel_first [OF assms]
  by (cases us; cases vs) (auto simp: prio_next_def)

text \<open>
  the priority scheduler selects a stream of the best (smallest) priority on a sorted wheel,
  when no stream was served before or the last one served has the best priority.
\<close>

theorem prio_select_best:
  assumes "wheel_inv s ws" "prio_sorted s ws" "ws \<noteq> []"
    "\<forall>l. last_out_stream s = Some l \<longrightarrow> l \<in> set ws \<and> (\<forall>q\<in>set ws. priority (streams s l) \<le> priority (streams s q))"
  shows "\<exists>p\<in>set ws. sctp_ss_prio_select None s = Some (Some p) \<and>
    (\<forall>q\<in>set ws. priority (streams s p) \<le> priority (streams s q))"
proof -
  have hd_best: "priority (streams s (hd ws)) \<le> priority (streams s q)" if "q \<in> set ws" for q
    using that assms(2) by (cases ws) (auto simp: prio_sorted_def)
  have sel: "sctp_ss_prio_select None s = Some (prio_next s (last_out_stream s))"
    by (simp add: sctp_ss_prio_select_def again.simps [of "prio_next s"] wrong_net_def split: option.split)
  show ?thesis
  proof (cases "last_out_stream s")
    case None
    with assms(3) hd_best show ?thesis
      using sel wheel_first [OF assms(1)] by (auto simp: prio_next_def)
  next
    case (Some l)
    then obtain us vs where ws: "ws = us @ l # vs" using assms(4) by (auto dest: split_list)
    then have "prio_next s (Some l) = Some (if vs \<noteq> [] \<and> priority (streams s (hd vs)) = priority (streams s l)
        then hd vs else hd ws)"
      using prio_next_wheel [of s us l vs] assms(1) by (cases us) auto
    moreover have "hd vs \<in> set ws" if "vs \<noteq> []" using ws that by simp
    ultimately show ?thesis using sel Some assms(3,4) hd_best by (auto split: if_splits)
  qed
qed

theorem prio_select_best_witness:
  "\<exists>p\<in>set [100, 101, 102]. sctp_ss_prio_select None (demo_prio\<lparr>last_out_stream := None\<rparr>) = Some (Some p) \<and>
    (\<forall>q\<in>set [100, 101, 102]. priority (streams demo_prio p) \<le> priority (streams demo_prio q))"
  using prio_select_best [of "demo_prio\<lparr>last_out_stream := None\<rparr>" "[100, 101, 102]"] demo_prio_inv
  by (simp add: wheel_inv_def prio_sorted_def)

text \<open>
  while streams of the priority last served follow on the wheel, the scheduler goes on with
  them although a stream of better priority is waiting: the selected stream need not have the best
  priority.
\<close>

theorem prio_select_inversion:
  assumes "wheel_inv s (us @ l # n # vs)" "last_out_stream s = Some l"
    "priority (streams s n) = priority (streams s l)" "u \<in> set us"
    "priority (streams s u) < priority (streams s l)"
  shows "sctp_ss_prio_select None s = Some (Some n) \<and> u \<in> set (us @ l # n # vs) \<and>
    priority (streams s u) < priority (streams s n)"
  using prio_next_wheel [OF assms(1)] assms(2-)
  by (simp add: sctp_ss_prio_select_def again.simps [of "prio_next s"] wrong_net_def)

theorem prio_select_inversion_witness:
  "sctp_ss_prio_select None demo_prio = Some (Some 102) \<and>
    priority (streams demo_prio 100) < priority (streams demo_prio 102)"
  using prio_select_inversion [of demo_prio "[100]" 101 102 "[]" 100] demo_prio_inv(1)
  by (simp add: demo_prio_def priority_def)

text \<open>
  setting the priority of a stream that has data changes the stored priority and leaves the
  wheel as it is: the calls to remove and add meant to move the stream do nothing, because the
  first only removes streams without data and the second only adds streams that are not linked.
  The wheel is then no longer sorted when the stream now belongs elsewhere.
\<close>

theorem prio_set_value_does_not_move:
  assumes "wheel_inv s (us @ p # q # vs)" "outqueue (streams s p) \<noteq> []" "priority (streams s q) < v"
  shows "\<exists>s'. sctp_ss_prio_set_value (Some p) v s = Some (1, s') \<and>
    sctp_ss_prio_get_value (Some p) s' = (1, Some v) \<and>
    wheel_inv s' (us @ p # q # vs) \<and> \<not> prio_sorted s' (us @ p # q # vs)"
proof -
  have "sctp_ss_prio_set_value (Some p) v s = Some (1, upd_stream p (set_priority v) s)"
    using assms by (intro prio_set_value_eq) auto
  moreover have "p \<noteq> q" using wheel_distinct [OF assms(1)] by auto
  ultimately show ?thesis
    using assms by (auto simp: sctp_ss_prio_get_value_def wheel_inv_def prio_sorted_def sorted_wrt_append)
qed

theorem prio_set_value_does_not_move_witness:
  "\<exists>s'. sctp_ss_prio_set_value (Some 100) 9 demo_prio = Some (1, s') \<and>
    wheel_inv s' [100, 101, 102] \<and> \<not> prio_sorted s' [100, 101, 102]"
  using prio_set_value_does_not_move [of demo_prio "[]" 100 101 "[102]" 9] demo_prio_inv(1)
  by (auto simp: demo_prio_def priority_def)

end
