(* ===== verification/Sched_Fair.thy ===== *)
theory Sched_Fair
  imports Sched_Select
begin

text \<open>
  The fair bandwidth scheduler selects a stream with the smallest round counter, and charging the
  wheel afterwards is exact; the first come first served scheduler follows the order of its list.
\<close>

section \<open>Fair bandwidth: the selection loop\<close>

definition fb_minimal :: "sctp_association \<Rightarrow> nat option \<Rightarrow> nat list \<Rightarrow> nat \<Rightarrow> bool" where
  "fb_minimal s net ws m \<longleftrightarrow> m \<in> set ws \<and> fb_eligible s net m \<and>
     (\<forall>y\<in>set ws. fb_eligible s net y \<longrightarrow> rounds (streams s m) \<le> rounds (streams s y))"

abbreviation onext :: "'a list \<Rightarrow> 'a option" where
  "onext vs \<equiv> (if vs = [] then None else Some (hd vs))"

lemma fb_loop_step:
  assumes "wheel_inv s (us @ t # vs)"
  shows "fb_loop s net b (Some t) =
    (let b' = (if fb_better s net t b then Some t else b)
     in if onext vs \<noteq> b' then fb_loop s net b' (onext vs) else Some b')"
  using wheel_succ [OF assms] by (simp add: fb_loop.simps [of s net b "Some t"] Let_def)

lemma fb_loop_wrap:
  assumes "wheel_inv s ws"
  shows "fb_loop s net b None = (if onext ws \<noteq> b then fb_loop s net b (onext ws) else Some b)"
  using wheel_first [OF assms] by (simp add: fb_loop.simps [of s net b None] Let_def)

lemma fb_better_Some:
  "fb_better s net t (Some b) \<longleftrightarrow> fb_eligible s net t \<and> rounds (streams s t) < rounds (streams s b)"
  by (simp add: fb_better_def)

text \<open>
  Two states of the loop with candidate \<open>b\<close>. Ahead: the walk is behind \<open>b\<close> on its way to the end
  of the wheel. Back: it has passed the end and is on its way to \<open>b\<close>. In both, nothing seen since
  \<open>b\<close> was found is better than \<open>b\<close>.
\<close>

definition fb_ahead :: "sctp_association \<Rightarrow> nat option \<Rightarrow> nat list \<Rightarrow> nat \<Rightarrow> nat list \<Rightarrow> bool" where
  "fb_ahead s net ws b bs \<longleftrightarrow> (\<exists>us as. ws = us @ b # as @ bs \<and> fb_eligible s net b \<and>
     (\<forall>y\<in>set as. \<not> fb_better s net y (Some b)))"

definition fb_back :: "sctp_association \<Rightarrow> nat option \<Rightarrow> nat list \<Rightarrow> nat \<Rightarrow> nat list \<Rightarrow> bool" where
  "fb_back s net ws b xs \<longleftrightarrow> xs \<noteq> [] \<and> (\<exists>us vs. ws = us @ xs @ b # vs \<and> fb_eligible s net b \<and>
     (\<forall>y\<in>set us \<union> set vs. \<not> fb_better s net y (Some b)))"

definition fb_rank :: "sctp_association \<Rightarrow> nat option \<Rightarrow> nat list \<Rightarrow> nat \<Rightarrow> nat" where
  "fb_rank s net ws b = length (filter (\<lambda>y. fb_better s net y (Some b)) ws)"

lemma fb_rank_less:
  assumes "x \<in> set ws" "fb_better s net x (Some b)"
  shows "fb_rank s net ws x < fb_rank s net ws b"
proof -
  have "filter (\<lambda>y. fb_better s net y (Some x)) ws = filter (\<lambda>y. fb_better s net y (Some x))
      (filter (\<lambda>y. fb_better s net y (Some b)) ws)"
    using assms(2) by (auto simp: fb_better_Some intro!: filter_cong)
  moreover have "length (filter (\<lambda>y. fb_better s net y (Some x)) (filter (\<lambda>y. fb_better s net y (Some b)) ws))
      < length (filter (\<lambda>y. fb_better s net y (Some b)) ws)"
    by (rule length_filter_less [of x]) (use assms in \<open>auto simp: fb_better_Some\<close>)
  ultimately show ?thesis by (simp add: fb_rank_def)
qed

lemma fb_back_result:
  assumes inv: "wheel_inv s ws"
    and IH: "\<And>x bs. x \<in> set ws \<Longrightarrow> fb_better s net x (Some b) \<Longrightarrow> fb_ahead s net ws x bs \<Longrightarrow>
      \<exists>m. fb_loop s net (Some x) (onext bs) = Some (Some m) \<and> fb_minimal s net ws m"
    and bck: "fb_back s net ws b xs"
  shows "\<exists>m. fb_loop s net (Some b) (onext xs) = Some (Some m) \<and> fb_minimal s net ws m"
  using bck
proof (induction xs)
  case (Cons x xs)
  then obtain us vs where ws: "ws = us @ x # xs @ b # vs" and b: "fb_eligible s net b"
    and seen: "\<forall>y\<in>set us \<union> set vs. \<not> fb_better s net y (Some b)"
    by (auto simp: fb_back_def)
  have d: "x \<noteq> b" "x \<notin> set (xs @ b # vs)" using wheel_distinct [OF inv] ws by auto
  note step = fb_loop_step [of s us x "xs @ b # vs" net "Some b", unfolded ws [symmetric], OF inv]
  show ?case
  proof (cases "fb_better s net x (Some b)")
    case True
    have "fb_ahead s net ws x (xs @ b # vs)"
      unfolding fb_ahead_def using ws True
      by (intro exI [of _ us] exI [of _ "[]"]) (auto simp: fb_better_Some)
    with IH [OF _ True this] ws show ?thesis
      using True step d by (cases xs) (auto simp: Let_def)
  next
    case False
    show ?thesis
    proof (cases xs)
      case Nil
      then have "fb_loop s net (Some b) (Some x) = Some (Some b)" using step False by (simp add: Let_def)
      moreover have "fb_minimal s net ws b"
        using ws b seen False Nil by (auto simp: fb_minimal_def fb_better_Some not_less)
      ultimately show ?thesis by auto
    next
      case xs: (Cons y ys)
      have "y \<noteq> b" using wheel_distinct [OF inv] ws xs by auto
      then have "fb_loop s net (Some b) (Some x) = fb_loop s net (Some b) (onext xs)"
        using step False xs by (simp add: Let_def)
      moreover have "ws = (us @ [x]) @ xs @ b # vs" using ws by simp
      then have "fb_back s net ws b xs"
        unfolding fb_back_def using b seen False xs
        by (intro conjI exI [of _ "us @ [x]"] exI [of _ vs]) auto
      ultimately show ?thesis using Cons.IH by simp
    qed
  qed
qed (simp add: fb_back_def)

lemma fb_ahead_step:
  assumes inv: "wheel_inv s ws"
    and IH: "\<And>x bs. x \<in> set ws \<Longrightarrow> fb_better s net x (Some b) \<Longrightarrow> fb_ahead s net ws x bs \<Longrightarrow>
      \<exists>m. fb_loop s net (Some x) (onext bs) = Some (Some m) \<and> fb_minimal s net ws m"
    and ahead: "fb_ahead s net ws b bs"
  shows "\<exists>m. fb_loop s net (Some b) (onext bs) = Some (Some m) \<and> fb_minimal s net ws m"
  using ahead
proof (induction bs)
  case Nil
  then obtain us as where ws: "ws = us @ b # as" and b: "fb_eligible s net b"
    and seen: "\<forall>y\<in>set as. \<not> fb_better s net y (Some b)" by (auto simp: fb_ahead_def)
  show ?case
  proof (cases us)
    case Nil
    have "fb_minimal s net ws b"
      using ws b seen Nil by (auto simp: fb_minimal_def fb_better_Some not_less)
    then show ?thesis using fb_loop_wrap [OF inv, of net "Some b"] ws Nil by auto
  next
    case (Cons u us')
    have "fb_back s net ws b us"
      unfolding fb_back_def using ws b seen Cons by (intro conjI exI [of _ "[]"] exI [of _ as]) auto
    moreover have "u \<noteq> b" using wheel_distinct [OF inv] ws Cons by auto
    then have "fb_loop s net (Some b) None = fb_loop s net (Some b) (onext us)"
      using fb_loop_wrap [OF inv, of net "Some b"] ws Cons by simp
    ultimately show ?thesis using fb_back_result [OF inv IH] by simp
  qed
next
  case (Cons x bs)
  then obtain us as where ws: "ws = us @ b # as @ x # bs" and b: "fb_eligible s net b"
    and seen: "\<forall>y\<in>set as. \<not> fb_better s net y (Some b)" by (auto simp: fb_ahead_def)
  have ws': "(us @ b # as) @ x # bs = ws" using ws by simp
  note step = fb_loop_step [of s "us @ b # as" x bs net "Some b", unfolded ws', OF inv]
  have d: "onext bs \<noteq> Some b" "onext bs \<noteq> Some x" using wheel_distinct [OF inv] ws by (cases bs; auto)+
  show ?case
  proof (cases "fb_better s net x (Some b)")
    case True
    have "fb_ahead s net ws x bs"
      unfolding fb_ahead_def using ws' True
      by (intro exI [of _ "us @ b # as"] exI [of _ "[]"]) (auto simp: fb_better_Some)
    with IH [OF _ True this] ws True d step show ?thesis by (auto simp: Let_def)
  next
    case False
    have "fb_ahead s net ws b bs"
      unfolding fb_ahead_def using ws b seen False by (intro exI [of _ us] exI [of _ "as @ [x]"]) auto
    with Cons.IH False d step show ?thesis by (simp add: Let_def)
  qed
qed

lemma fb_ahead_result:
  assumes "wheel_inv s ws" "fb_ahead s net ws b bs"
  shows "\<exists>m. fb_loop s net (Some b) (onext bs) = Some (Some m) \<and> fb_minimal s net ws m"
  using assms(2)
proof (induction "fb_rank s net ws b" arbitrary: b bs rule: less_induct)
  case less
  show ?case
    by (rule fb_ahead_step [OF assms(1) _ less.prems]) (use less.hyps fb_rank_less in blast)
qed

text \<open>The walk without a candidate yet.\<close>

lemma fb_loop_none:
  assumes "wheel_inv s (us @ bs)"
  shows "if \<exists>y\<in>set bs. fb_eligible s net y
    then \<exists>m. fb_loop s net None (onext bs) = Some (Some m) \<and> fb_minimal s net (us @ bs) m
    else bs \<noteq> [] \<longrightarrow> fb_loop s net None (onext bs) = Some None"
  using assms
proof (induction bs arbitrary: us)
  case (Cons x bs)
  note step = fb_loop_step [OF Cons.prems, of net None]
  show ?case
  proof (cases "fb_eligible s net x")
    case True
    have "fb_ahead s net (us @ x # bs) x bs"
      unfolding fb_ahead_def using True by (intro exI [of _ us] exI [of _ "[]"]) auto
    moreover have "onext bs \<noteq> Some x" using wheel_distinct [OF Cons.prems] by (cases bs) auto
    ultimately show ?thesis
      using fb_ahead_result [OF Cons.prems, of net x bs] step True by (auto simp: Let_def fb_better_def)
  next
    case False
    with step have "fb_loop s net None (Some x) = (if bs = [] then Some None else fb_loop s net None (onext bs))"
      by (simp add: Let_def fb_better_def)
    with Cons.IH [of "us @ [x]"] Cons.prems False show ?thesis by (cases bs) (auto split: if_splits)
  qed
qed simp

text \<open>
  the fair bandwidth scheduler selects, among all streams on the wheel that may send to the
  requested destination, one with the smallest round counter. The search ends; it starts at the
  first stream when none was served before or the last one served is at the end of the wheel, and
  otherwise behind the last one served, where it needs a usable stream to get going.
\<close>

theorem fb_select_minimal:
  assumes "wheel_inv s (us @ vs)" "\<exists>y\<in>set vs. fb_eligible s net y"
    "us = [] \<and> last_out_stream s = None \<or> us = [] \<and> last_out_stream s = Some (last vs) \<or>
     us \<noteq> [] \<and> last_out_stream s = Some (last us)"
  shows "\<exists>m. sctp_ss_fb_select net s = Some (Some m) \<and> m \<in> set (us @ vs) \<and> fb_eligible s net m \<and>
    (\<forall>y\<in>set (us @ vs). fb_eligible s net y \<longrightarrow> rounds (streams s m) \<le> rounds (streams s y))"
proof -
  have ne: "vs \<noteq> []" using assms(2) by auto
  have rep: "tq_rep (wheel s) (us @ vs)" using assms(1) by (simp add: wheel_inv_def tq_wheel_def)
  have last: "TAILQ_LAST (wheel s) = Some (Some (last (us @ vs)))" using tq_rep_last [OF rep] ne by simp
  have first: "TAILQ_FIRST (wheel s) = Some (hd (us @ vs))" using wheel_first [OF assms(1)] ne by simp
  have run: "\<exists>m. fb_loop s net None (Some (hd vs)) = Some (Some m) \<and> fb_minimal s net (us @ vs) m"
    using fb_loop_none [OF assms(1), of net] assms(2) ne by simp
  have "\<exists>m. sctp_ss_fb_select net s = Some (Some m) \<and> fb_minimal s net (us @ vs) m"
  proof (cases "us = []")
    case True
    have "fb_loop s net None (if TAILQ_FIRST (wheel s) = Some (last vs) then TAILQ_FIRST (wheel s)
        else TAILQ_NEXT (wheel s) (last vs)) = fb_loop s net None (Some (hd vs))"
    proof (cases "hd vs = last vs")
      case False
      have "TAILQ_NEXT (wheel s) (last vs) = None"
        using wheel_succ [of s "butlast vs" "last vs" "[]"] assms(1) True ne by simp
      with False first True fb_loop_wrap [OF assms(1), of net None] ne show ?thesis by simp
    qed (use first True in simp)
    with run True assms(3) first last show ?thesis by (auto simp: sctp_ss_fb_select_def)
  next
    case False
    then have l: "last_out_stream s = Some (last us)" using assms(3) by simp
    obtain us' where us: "us = us' @ [last us]" using False by (metis append_butlast_last_id)
    then have "wheel_inv s (us' @ last us # vs)" using assms(1) by (metis append.assoc append_Cons append_Nil)
    then have "TAILQ_NEXT (wheel s) (last us) = Some (hd vs)"
      using wheel_succ [of s us' "last us" vs] ne by simp
    moreover have "hd us \<noteq> last vs"
      using wheel_distinct [OF assms(1)] False ne by (metis disjoint_iff distinct_append hd_in_set last_in_set)
    ultimately show ?thesis using run l first last False ne by (auto simp: sctp_ss_fb_select_def)
  qed
  then show ?thesis by (auto simp: fb_minimal_def)
qed

theorem fb_select_minimal_witness:
  "\<exists>m. sctp_ss_fb_select None demo_prio = Some (Some m) \<and> m \<in> set [100, 101, 102] \<and>
    (\<forall>y\<in>set [100, 101, 102]. fb_eligible demo_prio None y \<longrightarrow>
       rounds (streams demo_prio m) \<le> rounds (streams demo_prio y))"
proof -
  have "fb_eligible demo_prio None 102"
    by (simp add: fb_eligible_def demo_prio_def demo_asoc_def rounds_def)
  moreover have "wheel_inv demo_prio ([100, 101] @ [102])" using demo_prio_inv(1) by simp
  moreover have "last_out_stream demo_prio = Some 101" by (simp add: demo_prio_def)
  ultimately show ?thesis using fb_select_minimal [of demo_prio "[100, 101]" "[102]" None] by auto
qed

text \<open>
  when the streams behind the last one served are all unusable, the fair bandwidth scheduler
  selects none, even if a stream further ahead on the wheel could send: the loop takes the end of
  the wheel for its end because no candidate has been found yet.
\<close>

theorem fb_select_gives_up:
  assumes "wheel_inv s (us @ l # vs)" "last_out_stream s = Some l" "vs \<noteq> []"
    "\<forall>y\<in>set vs. \<not> fb_eligible s net y"
  shows "sctp_ss_fb_select net s = Some None"
proof -
  have rep: "tq_rep (wheel s) (us @ l # vs)" using assms(1) by (simp add: wheel_inv_def tq_wheel_def)
  have last: "TAILQ_LAST (wheel s) = Some (Some (last vs))" using tq_rep_last [OF rep] assms(3) by simp
  have first: "TAILQ_FIRST (wheel s) = Some (hd (us @ [l]))" using wheel_first [OF assms(1)] by (cases us) auto
  have "hd (us @ [l]) \<noteq> last vs"
    using wheel_distinct [OF assms(1)] last_in_set [OF assms(3)] by (cases us) auto
  moreover have "wheel_inv s ((us @ [l]) @ vs)" using assms(1) by simp
  from fb_loop_none [OF this, of net] assms(3,4) have "fb_loop s net None (Some (hd vs)) = Some None" by auto
  ultimately show ?thesis
    using assms(2,3) first last wheel_succ [OF assms(1)] by (simp add: sctp_ss_fb_select_def)
qed

definition demo_fb :: sctp_association where
  "demo_fb = demo_prio\<lparr>last_out_stream := Some 100,
     streams := \<lambda>p. \<lparr>outqueue = (if p = 100 then [7] else [8]), ss_word = 5, so_sid = word_of_nat (p - 100)\<rparr>,
     pendings := \<lambda>sp. \<lparr>sp_net = Some (if sp = 7 then 1 else 2), sp_length = 10, sp_sid = 0, msg_is_complete = 1,
       some_taken = 0\<rparr>\<rparr>"

theorem fb_select_gives_up_witness:
  "sctp_ss_fb_select (Some 1) demo_fb = Some None \<and> fb_eligible demo_fb (Some 1) 100"
proof -
  have "wheel_inv demo_fb ([] @ 100 # [101, 102])" using demo_prio_inv(1) by (simp add: demo_fb_def wheel_inv_def)
  from fb_select_gives_up [OF this, of "Some 1"] show ?thesis
    by (simp add: demo_fb_def demo_prio_def demo_asoc_def fb_eligible_def first_pending_def rounds_def)
qed

section \<open>Fair bandwidth: charging the wheel\<close>

lemma sint_sub_fits:
  fixes a b :: u32
  assumes "0 \<le> sint b" "sint b \<le> sint a"
  shows "sint (a - b) = sint a - sint b"
proof -
  have "sint a < 2 ^ 31" using sint_lt [of a] by simp
  with assms show ?thesis by (simp add: sint_word_ariths(2) signed_take_bit_int_eq_self)
qed

lemma fold_charge:
  assumes "distinct ts"
  shows "streams (fold (\<lambda>t. upd_stream t f) ts s) x = (if x \<in> set ts then f (streams s x) else streams s x)"
  using assms by (induction ts arbitrary: s) auto

lemma fold_upd_stream_fields:
  "wheel (fold (\<lambda>t. upd_stream t f) ts s) = wheel s"
  "pendings (fold (\<lambda>t. upd_stream t f) ts s) = pendings s"
  by (induction ts arbitrary: s) auto

text \<open>
  charging is exact: when the stream served has the smallest round counter on the wheel, every
  other stream is charged exactly that amount (nothing is cut off at zero and nothing wraps), and
  the stream served starts again with the length of its next message, or with -1 when it has none.
\<close>

theorem fb_scheduled_charges:
  assumes "wheel_inv s ws" "p \<in> set ws" "0 \<le> rounds (streams s p)"
    "\<forall>y\<in>set ws. rounds (streams s p) \<le> rounds (streams s y)"
  shows "\<exists>s'. sctp_ss_fb_scheduled p s = Some s' \<and> wheel_inv s' ws \<and> last_out_stream s' = Some p \<and>
    (\<forall>y\<in>set ws - {p}. rounds (streams s' y) = rounds (streams s y) - rounds (streams s p)) \<and>
    ss_word (streams s' p) = (case outqueue (streams s p) of [] \<Rightarrow> -1 | sp # _ \<Rightarrow> sp_length (pendings s sp))"
proof -
  let ?r = "relock p s"
  have str: "streams ?r = streams s" "wheel ?r = wheel s" "pendings ?r = pendings s"
    by (auto simp: relock_def)
  let ?s = "fold (\<lambda>t. upd_stream t (fb_charge (ss_word (streams s p)))) ws ?r"
  have walk: "TAILQ_FOREACH (wheel s) (TAILQ_FIRST (wheel s)) = Some ws"
    using foreach_from [of "wheel s" "[]" ws] assms(1) wheel_first [OF assms(1)]
    by (simp add: wheel_inv_def tq_wheel_def)
  have s': "sctp_ss_fb_scheduled p s =
      Some ((upd_stream p (ss_word_update (\<lambda>_. next_rounds ?s p)) ?s)\<lparr>last_out_stream := Some p\<rparr>)"
    using walk by (simp add: sctp_ss_fb_scheduled_def Let_def str)
  have st: "streams ?s y = (if y \<in> set ws then fb_charge (ss_word (streams s p)) (streams s y) else streams s y)" for y
    using fold_charge [OF wheel_distinct [OF assms(1)]] str(1) by simp
  have "rounds (fb_charge (ss_word (streams s p)) (streams s y)) = rounds (streams s y) - rounds (streams s p)"
    if "y \<in> set ws" for y
    using sint_sub_fits [of "ss_word (streams s p)" "ss_word (streams s y)"] that assms(3,4)
    by (auto simp: fb_charge_def rounds_def)
  moreover have "next_rounds ?s p = (case outqueue (streams s p) of [] \<Rightarrow> -1 | sp # _ \<Rightarrow> sp_length (pendings s sp))"
    using st [of p] assms(2) fold_upd_stream_fields(2) str(3)
    by (simp add: next_rounds_def first_pending_def fb_charge_def split: list.split)
  ultimately show ?thesis
    using s' st assms(1) fold_upd_stream_fields(1) str(2) by (auto simp: wheel_inv_def rounds_def)
qed

theorem fb_scheduled_charges_witness:
  "\<exists>s'. sctp_ss_fb_scheduled 100 demo_prio = Some s' \<and> last_out_stream s' = Some 100 \<and>
    (\<forall>y\<in>set [100, 101, 102] - {100}. rounds (streams s' y) = rounds (streams demo_prio y) - rounds (streams demo_prio 100)) \<and>
    ss_word (streams s' 100) = 10"
  using fb_scheduled_charges [OF demo_prio_inv(1), of 100]
  by (fastforce simp: demo_prio_def demo_asoc_def rounds_def)

section \<open>First come, first served\<close>

lemma fcfs_again_from:
  assumes "tq_rep (ss_list s) (as @ bs)"
  shows "fcfs_again s net (onext bs) =
    Some (map_option (\<lambda>m. strmout s + unat (sp_sid (pendings s m)))
      (find (\<lambda>m. \<not> wrong_net s net (strmout s + unat (sp_sid (pendings s m)))) bs))"
  using assms
proof (induction bs arbitrary: as)
  case (Cons b bs)
  from tq_rep_next [OF Cons.prems] Cons.IH [of "as @ [b]"] Cons.prems show ?case
    by (simp add: fcfs_again.simps [of s net "Some b"] Let_def)
qed (simp add: fcfs_again.simps)

text \<open>
  the first come first served selection always ends and gives the stream of the earliest message
  on the list whose stream may send to the requested destination, or none; a message added is
  behind all others.
\<close>

theorem fcfs_order:
  assumes "tq_wheel (ss_list s) ms"
  shows "sctp_ss_fcfs_select net s =
      Some (map_option (\<lambda>m. strmout s + unat (sp_sid (pendings s m)))
        (find (\<lambda>m. \<not> wrong_net s net (strmout s + unat (sp_sid (pendings s m)))) ms)) \<and>
    (\<forall>m. m \<notin> set ms \<longrightarrow> (\<exists>q. sctp_ss_fcfs_add (Some m) s = Some (s\<lparr>ss_list := q\<rparr>) \<and> tq_wheel q (ms @ [m])))"
proof -
  have rep: "tq_rep (ss_list s) ms" using assms by (simp add: tq_wheel_def)
  have "sctp_ss_fcfs_select net s = fcfs_again s net (onext ms)"
    using tq_rep_first [OF rep] by (simp add: sctp_ss_fcfs_select_def)
  with fcfs_again_from [of s "[]" ms net] rep show ?thesis
    using assms tq_wheel_insert_tail [OF assms] tq_wheel_unlinked [OF assms] by (auto simp: sctp_ss_fcfs_add_def)
qed

definition demo_fcfs :: sctp_association where
  "demo_fcfs = (demo_asoc SS_FIRST_COME)\<lparr>ss_list :=
     TAILQ_INSERT_TAIL 9 (TAILQ_INSERT_TAIL 7 (TAILQ_INSERT_TAIL 8 blank_tailq))\<rparr>"

lemma demo_fcfs_list: "tq_wheel (ss_list demo_fcfs) [8, 7, 9]"
proof -
  have "tq_wheel blank_tailq []"
    by (simp add: tq_wheel_def tq_rep_def blank_tailq_def unlinked_def)
  from tq_wheel_insert_tail [OF tq_wheel_insert_tail [OF tq_wheel_insert_tail [OF this, of 8], of 7], of 9]
  show ?thesis by (simp add: demo_fcfs_def)
qed

theorem fcfs_order_witness: "sctp_ss_fcfs_select None demo_fcfs = Some (Some 102)"
  using fcfs_order [OF demo_fcfs_list, of None]
  by (simp add: demo_fcfs_def demo_asoc_def wrong_net_def)

text \<open>Clearing the list leaves the links of its messages in place.\<close>

lemma clear_list_result:
  assumes "tq_rep (ss_list s) ms"
  shows "\<exists>q. clear_list s = Some (s\<lparr>ss_list := q\<rparr>) \<and> tq_rep q [] \<and> (\<forall>m\<in>set ms. \<not> unlinked q m) \<and>
    (\<forall>z. z \<notin> set ms \<longrightarrow> tq_links q z = tq_links (ss_list s) z)"
  using assms
proof (induction ms arbitrary: s)
  case Nil
  then have "TAILQ_FIRST (ss_list s) = None" using tq_rep_first [of "ss_list s" "[]"] by simp
  with Nil show ?case by (auto simp: clear_list.simps intro!: exI [of _ "ss_list s"])
next
  case (Cons m ms)
  have d: "m \<notin> set ms" using tq_rep_distinct [OF Cons.prems] by simp
  obtain q1 where q1: "TAILQ_REMOVE m (ss_list s) = Some q1" "tq_rep q1 ms"
    "\<And>z. z \<notin> set (m # ms) \<or> z = m \<Longrightarrow> tq_links q1 z = tq_links (ss_list s) z"
    using tq.remove_member [OF Cons.prems, of m] by auto
  obtain q where q: "clear_list (s\<lparr>ss_list := q1\<rparr>) = Some (s\<lparr>ss_list := q\<rparr>)" "tq_rep q []"
    "\<forall>m\<in>set ms. \<not> unlinked q m" "\<forall>z. z \<notin> set ms \<longrightarrow> tq_links q z = tq_links q1 z"
    using Cons.IH [of "s\<lparr>ss_list := q1\<rparr>"] q1(2) by auto
  have "TAILQ_FIRST (ss_list s) = Some m" using tq_rep_first [OF Cons.prems] by simp
  then have "clear_list s = Some (s\<lparr>ss_list := q\<rparr>)" using q1(1) q(1) by (simp add: clear_list.simps [of s])
  moreover have "\<not> unlinked q m"
    using q(4) q1(3) [of m] d tq_rep_linked [OF Cons.prems, of m] by (auto simp: unlinked_tq_links tq_links_def)
  ultimately show ?case using q q1(3) by auto
qed

lemma fcfs_round_stuck:
  assumes "\<forall>i\<in>set is. \<forall>m\<in>set (outqueue (streams s (strmout s + i))). \<not> unlinked (ss_list s) m"
  shows "\<exists>b'. fcfs_round n is b s = Some (b', s) \<and>
    (b' \<longleftrightarrow> b \<or> (\<exists>i\<in>set is. unat n < length (outqueue (streams s (strmout s + i)))))"
  using assms
proof (induction "is" arbitrary: b)
  case (Cons i "is")
  then show ?case
    by (cases "unat n < length (outqueue (streams s (strmout s + i)))")
      (auto simp: fcfs_nth_def sctp_ss_fcfs_add_def)
qed simp

lemma fcfs_rounds_stuck:
  assumes "\<forall>i < unat (streamoutcnt s). \<forall>m\<in>set (outqueue (streams s (strmout s + i))). \<not> unlinked (ss_list s) m"
    "\<forall>i < unat (streamoutcnt s). length (outqueue (streams s (strmout s + i))) \<le> unat n + k" "unat n + k < 2 ^ 32"
  shows "fcfs_rounds n s = Some s"
  using assms(2,3)
proof (induction k arbitrary: n)
  case 0
  then show ?case
    using fcfs_round_stuck [of "[0..<unat (streamoutcnt s)]" s n False] assms(1)
    by (auto simp: fcfs_rounds.simps [of n] linorder_not_less [symmetric])
next
  case (Suc k)
  have n: "unat (n + 1) = unat n + 1"
    using Suc.prems(2) by (simp add: unat_word_ariths)
  obtain b where "fcfs_round n [0..<unat (streamoutcnt s)] False s = Some (b, s)"
    using fcfs_round_stuck [of "[0..<unat (streamoutcnt s)]" s n False] assms(1) by auto
  then show ?case using Suc.IH [of "n + 1"] Suc.prems n by (auto simp: fcfs_rounds.simps [of n])
qed

text \<open>
  C33: selecting the first come first served scheduler again on an association that uses it, with
  messages waiting, empties its list for good: clearing leaves stale links in the messages, so
  that the init function takes all of them for already listed and adds none, and the selection
  then finds nothing to send.
\<close>

theorem fcfs_reselect_loses_messages:
  assumes "tq_wheel (ss_list s) ms" "stream_scheduling_module s = SS_FIRST_COME"
    "\<forall>i < unat (streamoutcnt s). set (outqueue (streams s (strmout s + i))) \<subseteq> set ms \<and>
       length (outqueue (streams s (strmout s + i))) < 2 ^ 32"
  shows "\<exists>s'. set_scheduler SS_FIRST_COME s = Some s' \<and> streams s' = streams s \<and>
    ss_is_empty SS_FIRST_COME s' \<and> sctp_ss_fcfs_select net s' = Some None"
proof -
  have rep: "tq_rep (ss_list s) ms" using assms(1) by (simp add: tq_wheel_def)
  obtain q where q: "clear_list s = Some (s\<lparr>ss_list := q\<rparr>)" "\<forall>m\<in>set ms. \<not> unlinked q m"
    using clear_list_result [OF rep] by blast
  let ?s = "s\<lparr>ss_list := TAILQ_INIT q\<rparr>"
  have un: "unlinked (TAILQ_INIT q) m = unlinked q m" for m by (simp add: unlinked_def TAILQ_INIT_def)
  have "fcfs_rounds 0 ?s = Some ?s"
    by (rule fcfs_rounds_stuck [where k = "2 ^ 32 - 1"]) (use assms(3) q(2) un in \<open>auto simp: less_Suc_eq_le [symmetric]\<close>)
  moreover have eq: "s\<lparr>ss_list := q, stream_scheduling_module := SS_FIRST_COME\<rparr> = s\<lparr>ss_list := q\<rparr>"
    using assms(2) by (cases s) simp
  have "set_scheduler SS_FIRST_COME s = ss_init SS_FIRST_COME (s\<lparr>ss_list := q, stream_scheduling_module := SS_FIRST_COME\<rparr>)"
    by (simp only: set_scheduler_def assms(2) ss_clear.simps sctp_ss_fcfs_clear_def if_True q(1) Option.bind.bind_lunit)
  ultimately have set: "set_scheduler SS_FIRST_COME s = Some ?s"
    unfolding eq by (simp add: sctp_ss_fcfs_init_def)
  have "sctp_ss_fcfs_select net ?s = Some None"
    by (simp add: sctp_ss_fcfs_select_def fcfs_again.simps TAILQ_FIRST_def TAILQ_INIT_def)
  with set show ?thesis by (auto simp: sctp_ss_fcfs_is_empty_def TAILQ_EMPTY_def TAILQ_INIT_def)
qed

theorem fcfs_reselect_loses_messages_witness:
  "outqueue (streams demo_fcfs 100) = [7] \<and>
   (\<exists>s'. set_scheduler SS_FIRST_COME demo_fcfs = Some s' \<and> streams s' = streams demo_fcfs \<and>
     sctp_ss_fcfs_select None s' = Some None)"
proof -
  have "stream_scheduling_module demo_fcfs = SS_FIRST_COME"
    "\<forall>i < unat (streamoutcnt demo_fcfs). set (outqueue (streams demo_fcfs (strmout demo_fcfs + i))) \<subseteq> set [8, 7, 9] \<and>
       length (outqueue (streams demo_fcfs (strmout demo_fcfs + i))) < 2 ^ 32"
    by (auto simp: demo_fcfs_def demo_asoc_def)
  from fcfs_reselect_loses_messages [OF demo_fcfs_list this] show ?thesis
    by (simp add: demo_fcfs_def demo_asoc_def) blast
qed

end
