(* ===== verification/Auth_Chunks.thy ===== *)
theory Auth_Chunks
  imports Sctp_Prelude
begin

text \<open>
  The list of chunk types that must be authenticated (first part of netinet/sctp_auth.c): a table
  with one flag per chunk type and a counter. Adding, deleting, listing the types, packing the list
  into bytes or a bit field and reading it back. A NULL list is \<open>None\<close>; \<open>malloc\<close> is the allocator:
  the contents of a fresh block of the given size, or \<open>None\<close> when memory is exhausted.
\<close>

type_synonym allocator = "nat \<Rightarrow> bytes option"

section \<open>Operations\<close>

record sctp_auth_chklist =
  chunks :: bytes
  num_chunks :: u8

definition SCTP_INITIATION :: u8 where "SCTP_INITIATION = 0x01"
definition SCTP_INITIATION_ACK :: u8 where "SCTP_INITIATION_ACK = 0x02"
definition SCTP_SHUTDOWN_COMPLETE :: u8 where "SCTP_SHUTDOWN_COMPLETE = 0x0e"
definition SCTP_AUTHENTICATION :: u8 where "SCTP_AUTHENTICATION = 0x0f"

definition sctp_clear_chunklist :: "sctp_auth_chklist \<Rightarrow> sctp_auth_chklist" where
  "sctp_clear_chunklist chklist = \<lparr>chunks = replicate 256 0, num_chunks = 0\<rparr>"

definition sctp_alloc_chunklist :: "allocator \<Rightarrow> sctp_auth_chklist option" where
  "sctp_alloc_chunklist malloc =
     (case malloc 257 of
        None \<Rightarrow> None
      | Some b \<Rightarrow> Some (sctp_clear_chunklist \<lparr>chunks = take 256 b, num_chunks = b ! 256\<rparr>))"

definition sctp_copy_chunklist :: "allocator \<Rightarrow> sctp_auth_chklist option \<Rightarrow> sctp_auth_chklist option" where
  "sctp_copy_chunklist malloc list =
     (case list of
        None \<Rightarrow> None
      | Some l \<Rightarrow> (case sctp_alloc_chunklist malloc of None \<Rightarrow> None | Some new_list \<Rightarrow> Some l))"

definition restricted_chunk :: "u8 \<Rightarrow> bool" where
  "restricted_chunk chunk \<longleftrightarrow>
     chunk = SCTP_INITIATION \<or> chunk = SCTP_INITIATION_ACK \<or> chunk = SCTP_SHUTDOWN_COMPLETE \<or>
     chunk = SCTP_AUTHENTICATION"

definition sctp_auth_add_chunk :: "u8 \<Rightarrow> sctp_auth_chklist option \<Rightarrow> int \<times> sctp_auth_chklist option" where
  "sctp_auth_add_chunk chunk list =
     (case list of
        None \<Rightarrow> (-1, None)
      | Some l \<Rightarrow>
          if restricted_chunk chunk then (-1, Some l)
          else if chunks l ! unat chunk = 0
          then (0, Some (l\<lparr>chunks := (chunks l)[unat chunk := 1], num_chunks := num_chunks l + 1\<rparr>))
          else (0, Some l))"

definition sctp_auth_delete_chunk :: "u8 \<Rightarrow> sctp_auth_chklist option \<Rightarrow> int \<times> sctp_auth_chklist option" where
  "sctp_auth_delete_chunk chunk list =
     (case list of
        None \<Rightarrow> (-1, None)
      | Some l \<Rightarrow>
          if chunks l ! unat chunk = 1
          then (0, Some (l\<lparr>chunks := (chunks l)[unat chunk := 0], num_chunks := num_chunks l - 1\<rparr>))
          else (0, Some l))"

definition sctp_auth_is_required_chunk :: "u8 \<Rightarrow> sctp_auth_chklist option \<Rightarrow> bool" where
  "sctp_auth_is_required_chunk chunk list =
     (case list of None \<Rightarrow> False | Some l \<Rightarrow> chunks l ! unat chunk \<noteq> 0)"

definition sctp_auth_get_chklist_size :: "sctp_auth_chklist option \<Rightarrow> nat" where
  "sctp_auth_get_chklist_size list = (case list of None \<Rightarrow> 0 | Some l \<Rightarrow> unat (num_chunks l))"

text \<open>The chunk types with a flag, in order, as the loops over the table emit them.\<close>

definition listed_chunks :: "sctp_auth_chklist \<Rightarrow> bytes" where
  "listed_chunks l = map word_of_nat (filter (\<lambda>i. chunks l ! i \<noteq> 0) [0..<256])"

text \<open>The functions that write through \<^verbatim>\<open>ptr\<close> give the count returned and the buffer behind it.\<close>

definition put :: "bytes \<Rightarrow> bytes \<Rightarrow> bytes" where
  "put src buf = src @ drop (length src) buf"

definition sctp_serialize_auth_chunks :: "sctp_auth_chklist option \<Rightarrow> bytes \<Rightarrow> nat \<times> bytes" where
  "sctp_serialize_auth_chunks list ptr =
     (case list of None \<Rightarrow> (0, ptr)
      | Some l \<Rightarrow> (length (listed_chunks l), put (listed_chunks l) ptr))"

definition pack_bit :: "sctp_auth_chklist \<Rightarrow> nat \<Rightarrow> bytes \<Rightarrow> bytes" where
  "pack_bit l i ptr =
     (if chunks l ! i \<noteq> 0 then ptr[i div 8 := ptr ! (i div 8) OR push_bit (i mod 8) 1] else ptr)"

definition sctp_pack_auth_chunks :: "sctp_auth_chklist option \<Rightarrow> bytes \<Rightarrow> nat \<times> bytes" where
  "sctp_pack_auth_chunks list ptr =
     (case list of None \<Rightarrow> (0, ptr)
      | Some l \<Rightarrow>
          if num_chunks l \<le> 32 then (length (listed_chunks l), put (listed_chunks l) ptr)
          else (32, fold (pack_bit l) [0..<256] ptr))"

definition add_all :: "bytes \<Rightarrow> sctp_auth_chklist option \<Rightarrow> sctp_auth_chklist option" where
  "add_all cs list = fold (\<lambda>c l. snd (sctp_auth_add_chunk c l)) cs list"

definition packed_chunks :: "bytes \<Rightarrow> bytes" where
  "packed_chunks ptr =
     concat (map (\<lambda>index. map (\<lambda>offset. word_of_nat (index * 8 + offset))
       (filter (\<lambda>offset. ptr ! index AND push_bit offset 1 \<noteq> 0) [0..<8])) [0..<32])"

definition sctp_unpack_auth_chunks :: "bytes \<Rightarrow> u8 \<Rightarrow> sctp_auth_chklist option \<Rightarrow> nat \<times> sctp_auth_chklist option" where
  "sctp_unpack_auth_chunks ptr n list =
     (case list of None \<Rightarrow> (0, None)
      | Some l \<Rightarrow>
          if n \<le> 32 then (unat n, add_all (take (unat n) ptr) list)
          else (32, add_all (packed_chunks ptr) list))"

section \<open>Invariant\<close>

text \<open>A table of flags, none of them for a restricted type, counted by \<^verbatim>\<open>num_chunks\<close>.\<close>

definition chk_set :: "sctp_auth_chklist \<Rightarrow> u8 set" where
  "chk_set l = {c. chunks l ! unat c \<noteq> 0}"

definition chk_inv :: "sctp_auth_chklist \<Rightarrow> bool" where
  "chk_inv l \<longleftrightarrow> length (chunks l) = 256 \<and> set (chunks l) \<subseteq> {0, 1} \<and>
     (\<forall>c. restricted_chunk c \<longrightarrow> c \<notin> chk_set l) \<and> unat (num_chunks l) = card (chk_set l)"

lemma unat_u8_less: "unat (c :: u8) < 256"
proof -
  have "unat c < 2 ^ LENGTH(8)" by (rule unsigned_less)
  then show ?thesis by simp
qed

lemma unat_word_of_nat_u8: "i < 256 \<Longrightarrow> unat (word_of_nat i :: u8) = i"
  by (simp add: unat_of_nat take_bit_nat_eq_self)

lemma chk_inv_flag:
  assumes "chk_inv l" "i < 256"
  shows "chunks l ! i = 0 \<or> chunks l ! i = 1"
proof -
  have "chunks l ! i \<in> set (chunks l)" using assms by (simp add: chk_inv_def)
  with assms(1) show ?thesis by (auto simp: chk_inv_def)
qed

lemma chk_inv_ext:
  assumes "chk_inv l" "chk_inv l'" "chk_set l = chk_set l'"
  shows "l = l'"
proof -
  have "chunks l = chunks l'"
  proof (rule nth_equalityI)
    show "length (chunks l) = length (chunks l')" using assms by (simp add: chk_inv_def)
    fix i
    assume "i < length (chunks l)"
    then have i: "i < 256" using assms(1) by (simp add: chk_inv_def)
    have "(word_of_nat i :: u8) \<in> chk_set l \<longleftrightarrow> word_of_nat i \<in> chk_set l'" using assms(3) by simp
    with i chk_inv_flag [OF assms(1) i] chk_inv_flag [OF assms(2) i] show "chunks l ! i = chunks l' ! i"
      by (auto simp: chk_set_def unat_word_of_nat_u8)
  qed
  moreover have "num_chunks l = num_chunks l'"
    using assms by (simp add: chk_inv_def word_unat_eq_iff)
  ultimately show ?thesis by (cases l; cases l') simp
qed

lemma chk_set_update:
  assumes "length (chunks l) = 256"
  shows "chk_set (l\<lparr>chunks := (chunks l)[unat c := v], num_chunks := n\<rparr>) =
    (if v = 0 then chk_set l - {c} else insert c (chk_set l))"
  using assms unat_u8_less [of c] by (auto simp: chk_set_def nth_list_update word_unat_eq_iff split: if_splits)

lemma card_u8_le: "card (S :: u8 set) \<le> 256"
proof -
  have "card S \<le> card (UNIV :: u8 set)" by (rule card_mono) simp_all
  then show ?thesis by (simp add: card_word)
qed

lemma restricted_four: "card {c. restricted_chunk c} = 4"
proof -
  have "{c. restricted_chunk c} = {0x01, 0x02, 0x0e, 0x0f}"
    by (auto simp: restricted_chunk_def SCTP_INITIATION_def SCTP_INITIATION_ACK_def
        SCTP_SHUTDOWN_COMPLETE_def SCTP_AUTHENTICATION_def)
  then show ?thesis by simp
qed

lemma chk_inv_card: "chk_inv l \<Longrightarrow> card (chk_set l) \<le> 252"
proof -
  assume "chk_inv l"
  then have "chk_set l \<inter> {c. restricted_chunk c} = {}" by (auto simp: chk_inv_def)
  then have "card (chk_set l \<union> {c. restricted_chunk c}) = card (chk_set l) + 4"
    using restricted_four by (simp add: card_Un_disjoint)
  with card_u8_le [of "chk_set l \<union> {c. restricted_chunk c}"] show ?thesis by simp
qed

lemma chk_clear: "chk_inv (sctp_clear_chunklist l)" "chk_set (sctp_clear_chunklist l) = {}"
  using unat_u8_less by (auto simp: chk_inv_def chk_set_def sctp_clear_chunklist_def)

lemma add_chunk_ok:
  assumes "chk_inv l"
  shows "\<exists>l'. sctp_auth_add_chunk c (Some l) = (if restricted_chunk c then -1 else 0, Some l') \<and> chk_inv l' \<and>
    chk_set l' = (if restricted_chunk c then chk_set l else insert c (chk_set l))"
proof (cases "restricted_chunk c \<or> c \<in> chk_set l")
  case True
  with assms show ?thesis by (auto simp: sctp_auth_add_chunk_def chk_set_def)
next
  case False
  let ?l = "l\<lparr>chunks := (chunks l)[unat c := 1], num_chunks := num_chunks l + 1\<rparr>"
  have set: "chk_set ?l = insert c (chk_set l)" using assms chk_set_update [where v = 1] by (simp add: chk_inv_def)
  have "card (insert c (chk_set l)) = card (chk_set l) + 1" using False by simp
  moreover have "unat (num_chunks l + 1) = unat (num_chunks l) + 1"
    using chk_inv_card [OF assms] assms by (simp add: unat_word_ariths chk_inv_def)
  moreover have "set ((chunks l)[unat c := 1]) \<subseteq> {0, 1}"
    using assms set_update_subset_insert [of "chunks l" "unat c" 1] by (auto simp: chk_inv_def)
  ultimately have "chk_inv ?l" using assms set False unfolding chk_inv_def by auto
  with False set show ?thesis by (auto simp: sctp_auth_add_chunk_def chk_set_def)
qed

lemma delete_chunk_ok:
  assumes "chk_inv l"
  shows "\<exists>l'. sctp_auth_delete_chunk c (Some l) = (0, Some l') \<and> chk_inv l' \<and> chk_set l' = chk_set l - {c}"
proof (cases "chunks l ! unat c = 1")
  case False
  with chk_inv_flag [OF assms unat_u8_less] have "chunks l ! unat c = 0" by blast
  with assms show ?thesis by (auto simp: sctp_auth_delete_chunk_def chk_set_def)
next
  case True
  let ?l = "l\<lparr>chunks := (chunks l)[unat c := 0], num_chunks := num_chunks l - 1\<rparr>"
  have c: "c \<in> chk_set l" using True by (simp add: chk_set_def)
  have set: "chk_set ?l = chk_set l - {c}" using assms chk_set_update [where v = 0] by (simp add: chk_inv_def)
  have fin: "finite (chk_set l)" by simp
  then have pos: "0 < card (chk_set l)" using c by (auto simp: card_gt_0_iff)
  have "unat (num_chunks l - 1) = unat (num_chunks l) - 1"
    using pos assms by (subst unat_sub) (auto simp: chk_inv_def word_le_nat_alt)
  moreover have "set ((chunks l)[unat c := 0]) \<subseteq> {0, 1}"
    using assms set_update_subset_insert [of "chunks l" "unat c" 0] by (auto simp: chk_inv_def)
  ultimately have "chk_inv ?l" using assms set c fin unfolding chk_inv_def by (auto simp: card_Diff_singleton)
  with True set show ?thesis by (auto simp: sctp_auth_delete_chunk_def)
qed

lemma add_all_ok:
  assumes "chk_inv l"
  shows "\<exists>l'. add_all cs (Some l) = Some l' \<and> chk_inv l' \<and>
    chk_set l' = chk_set l \<union> {c \<in> set cs. \<not> restricted_chunk c}"
  using assms
proof (induction cs arbitrary: l)
  case (Cons c cs)
  obtain l1 where l1: "snd (sctp_auth_add_chunk c (Some l)) = Some l1" "chk_inv l1"
    "chk_set l1 = (if restricted_chunk c then chk_set l else insert c (chk_set l))"
    using add_chunk_ok [OF Cons.prems, of c] by auto
  with Cons.IH [OF l1(2)] show ?case by (auto simp: add_all_def)
qed (auto simp: add_all_def)

section \<open>Packing\<close>

lemma set_listed_chunks: "set (listed_chunks l) = chk_set l"
proof
  show "set (listed_chunks l) \<subseteq> chk_set l"
    by (auto simp: listed_chunks_def chk_set_def unat_word_of_nat_u8)
  show "chk_set l \<subseteq> set (listed_chunks l)"
  proof
    fix c
    assume "c \<in> chk_set l"
    then have "unat c \<in> set (filter (\<lambda>i. chunks l ! i \<noteq> 0) [0..<256])"
      using unat_u8_less [of c] by (auto simp: chk_set_def)
    moreover have "c = word_of_nat (unat c)" by simp
    ultimately show "c \<in> set (listed_chunks l)" unfolding listed_chunks_def by (metis image_eqI list.set_map)
  qed
qed

lemma length_listed_chunks: "length (listed_chunks l) = card (chk_set l)"
proof -
  have "inj_on (word_of_nat :: nat \<Rightarrow> u8) (set (filter (\<lambda>i. chunks l ! i \<noteq> 0) [0..<256]))"
    by (rule inj_onI) (auto dest: arg_cong [where f = unat] simp: unat_word_of_nat_u8)
  then have "distinct (listed_chunks l)" by (simp add: listed_chunks_def distinct_map)
  then show ?thesis by (simp add: distinct_card set_listed_chunks [symmetric])
qed

lemma length_pack_bit [simp]: "length (pack_bit l i b) = length b"
  by (simp add: pack_bit_def)

lemma length_fold_pack_bit [simp]: "length (fold (pack_bit l) is b) = length b"
  by (induction "is" arbitrary: b) auto

lemma bit_fold_pack:
  assumes "n \<le> 256" "32 \<le> length b" "j < 32" "off < 8"
  shows "bit (fold (pack_bit l) [0..<n] b ! j) off \<longleftrightarrow>
    bit (b ! j) off \<or> (j * 8 + off < n \<and> chunks l ! (j * 8 + off) \<noteq> 0)"
  using assms(1)
proof (induction n)
  case (Suc n)
  let ?b = "fold (pack_bit l) [0..<n] b"
  have IH: "bit (?b ! j) off \<longleftrightarrow> bit (b ! j) off \<or> (j * 8 + off < n \<and> chunks l ! (j * 8 + off) \<noteq> 0)"
    using Suc by simp
  have n: "n div 8 < 32" using Suc.prems by simp
  have eq: "n div 8 = j \<and> n mod 8 = off \<longleftrightarrow> n = j * 8 + off"
    using assms(4) by (auto simp: mult.commute)
  have "bit (pack_bit l n ?b ! j) off \<longleftrightarrow> bit (?b ! j) off \<or> (n = j * 8 + off \<and> chunks l ! n \<noteq> 0)"
  proof (cases "chunks l ! n \<noteq> 0 \<and> n div 8 = j")
    case True
    have "bit (pack_bit l n ?b ! j) off = bit (?b ! j OR push_bit (n mod 8) 1) off"
      using True n assms(2) by (simp add: pack_bit_def)
    also have "\<dots> \<longleftrightarrow> bit (?b ! j) off \<or> off = n mod 8"
      using assms(4) by (auto simp: bit_simps)
    finally show ?thesis using True eq by auto
  next
    case False
    then show ?thesis using eq by (auto simp: pack_bit_def)
  qed
  with IH show ?case by (auto simp: less_Suc_eq)
qed simp

lemma in_concat_mapI: "x \<in> set xs \<Longrightarrow> y \<in> set (g x) \<Longrightarrow> y \<in> set (concat (map g xs))"
  by auto

lemma set_packed_chunks:
  assumes "\<And>j off. j < 32 \<Longrightarrow> off < 8 \<Longrightarrow> bit (b ! j) off \<longleftrightarrow> chunks l ! (j * 8 + off) \<noteq> 0"
  shows "set (packed_chunks b) = chk_set l"
proof -
  have "c \<in> set (packed_chunks b) \<longleftrightarrow> chunks l ! unat c \<noteq> 0" for c
  proof
    assume "c \<in> set (packed_chunks b)"
    then obtain j off where j: "j < 32" "off < 8" "c = word_of_nat (j * 8 + off)" "bit (b ! j) off"
      by (auto simp: packed_chunks_def bit_iff_and_push_bit_not_eq_0)
    then have "unat c = j * 8 + off" using unat_word_of_nat_u8 [of "j * 8 + off"] by simp
    with j assms show "chunks l ! unat c \<noteq> 0" by simp
  next
    assume c: "chunks l ! unat c \<noteq> 0"
    let ?j = "unat c div 8" and ?off = "unat c mod 8"
    have j: "?j < 32" "?off < 8" "?j * 8 + ?off = unat c" using unat_u8_less [of c] by auto
    with c assms have "?off \<in> set (filter (\<lambda>off. b ! ?j AND push_bit off 1 \<noteq> 0) [0..<8])"
      unfolding bit_iff_and_push_bit_not_eq_0 [symmetric] by simp
    moreover have "c = word_of_nat (?j * 8 + ?off)" using j(3) by simp
    ultimately have "c \<in> set (map (\<lambda>off. word_of_nat (?j * 8 + off))
        (filter (\<lambda>off. b ! ?j AND push_bit off 1 \<noteq> 0) [0..<8]))"
      unfolding set_map by (rule rev_image_eqI)
    with j(1) show "c \<in> set (packed_chunks b)"
      unfolding packed_chunks_def by (intro in_concat_mapI [of ?j]) simp_all
  qed
  then show ?thesis by (auto simp: chk_set_def)
qed

section \<open>Properties\<close>

datatype chk_op = AddChunk u8 | DeleteChunk u8

fun chk_exec :: "chk_op \<Rightarrow> sctp_auth_chklist option \<Rightarrow> sctp_auth_chklist option" where
  "chk_exec (AddChunk c) l = snd (sctp_auth_add_chunk c l)"
| "chk_exec (DeleteChunk c) l = snd (sctp_auth_delete_chunk c l)"

fun set_exec :: "chk_op \<Rightarrow> u8 set \<Rightarrow> u8 set" where
  "set_exec (AddChunk c) S = (if restricted_chunk c then S else insert c S)"
| "set_exec (DeleteChunk c) S = S - {c}"

lemma chk_exec_ok:
  assumes "chk_inv l"
  shows "\<exists>l'. fold chk_exec ops (Some l) = Some l' \<and> chk_inv l' \<and> chk_set l' = fold set_exec ops (chk_set l)"
  using assms
proof (induction ops arbitrary: l)
  case (Cons op ops)
  have "\<exists>l1. chk_exec op (Some l) = Some l1 \<and> chk_inv l1 \<and> chk_set l1 = set_exec op (chk_set l)"
  proof (cases op)
    case (AddChunk c)
    then show ?thesis using add_chunk_ok [OF Cons.prems, of c] by auto
  next
    case (DeleteChunk c)
    then show ?thesis using delete_chunk_ok [OF Cons.prems, of c] by auto
  qed
  then obtain l1 where l1: "chk_exec op (Some l) = Some l1" "chk_inv l1" "chk_set l1 = set_exec op (chk_set l)"
    by blast
  with Cons.IH [OF l1(2)] show ?case by simp
qed auto

text \<open>
  the chunk list is a set. After any additions and deletions on a fresh list, a chunk type is
  required exactly if the last operation on it added it and it is none of INIT, INIT-ACK,
  SHUTDOWN-COMPLETE and AUTH; the 8-bit counter is the number of required types (it cannot wrap) and
  the serialised list names each of them once.
\<close>

theorem chunklist_is_set:
  assumes "sctp_alloc_chunklist malloc = Some l0"
  shows "\<exists>l. fold chk_exec ops (Some l0) = Some l \<and>
    (\<forall>c. sctp_auth_is_required_chunk c (Some l) \<longleftrightarrow> c \<in> fold set_exec ops {}) \<and>
    sctp_auth_get_chklist_size (Some l) = card (fold set_exec ops {}) \<and>
    (\<exists>cs. sctp_serialize_auth_chunks (Some l) ptr = (length cs, cs @ drop (length cs) ptr) \<and>
       distinct cs \<and> set cs = fold set_exec ops {})"
proof -
  have "chk_inv l0" "chk_set l0 = {}"
    using assms chk_clear by (auto simp: sctp_alloc_chunklist_def split: option.splits)
  then obtain l where l: "fold chk_exec ops (Some l0) = Some l" "chk_inv l" "chk_set l = fold set_exec ops {}"
    using chk_exec_ok by metis
  moreover have "distinct (listed_chunks l)"
    by (rule card_distinct) (simp add: length_listed_chunks set_listed_chunks)
  moreover have "sctp_auth_is_required_chunk c (Some l) \<longleftrightarrow> c \<in> chk_set l" for c
    by (simp add: sctp_auth_is_required_chunk_def chk_set_def)
  moreover have "sctp_serialize_auth_chunks (Some l) ptr =
      (length (listed_chunks l), listed_chunks l @ drop (length (listed_chunks l)) ptr)"
    by (simp add: sctp_serialize_auth_chunks_def put_def)
  moreover have "sctp_auth_get_chklist_size (Some l) = card (chk_set l)"
    using l(2) by (simp add: sctp_auth_get_chklist_size_def chk_inv_def)
  ultimately show ?thesis using set_listed_chunks [of l] by (intro exI [of _ l]) auto
qed

theorem chunklist_is_set_witness:
  "\<exists>l. fold chk_exec [AddChunk 0xc1, AddChunk 0x0f, AddChunk 0x80, DeleteChunk 0x80]
      (sctp_alloc_chunklist (\<lambda>n. Some (replicate n 0xAA))) = Some l \<and>
    (\<forall>c. sctp_auth_is_required_chunk c (Some l) \<longleftrightarrow>
       c \<in> fold set_exec [AddChunk 0xc1, AddChunk 0x0f, AddChunk 0x80, DeleteChunk 0x80] {}) \<and>
    fold set_exec [AddChunk 0xc1, AddChunk 0x0f, AddChunk 0x80, DeleteChunk 0x80] {} = {0xc1}"
proof -
  obtain l0 where l0: "sctp_alloc_chunklist (\<lambda>n. Some (replicate n 0xAA)) = Some l0"
    by (simp add: sctp_alloc_chunklist_def)
  from chunklist_is_set [OF l0, of "[AddChunk 0xc1, AddChunk 0x0f, AddChunk 0x80, DeleteChunk 0x80]" "[]"] l0
  show ?thesis
    by (auto simp: restricted_chunk_def SCTP_INITIATION_def SCTP_INITIATION_ACK_def
        SCTP_SHUTDOWN_COMPLETE_def SCTP_AUTHENTICATION_def)
qed

text \<open>
  packing a list into a cleared buffer of at least 32 bytes and unpacking it with the list's
  counter into a fresh list gives the list back, in the byte format (up to 32 types) as well as in
  the bit field format, and both report the same size.
\<close>

theorem chunklist_pack_unpack:
  assumes "chk_inv l" "ptr = replicate n 0" "32 \<le> n"
  shows "\<exists>size buf. sctp_pack_auth_chunks (Some l) ptr = (size, buf) \<and> length buf = n \<and>
    sctp_unpack_auth_chunks buf (num_chunks l) (Some (sctp_clear_chunklist l')) = (size, Some l)"
proof (cases "num_chunks l \<le> 32")
  case True
  let ?cs = "listed_chunks l"
  have len: "length ?cs = unat (num_chunks l)" using assms(1) by (simp add: length_listed_chunks chk_inv_def)
  then have le: "length ?cs \<le> n" using True assms(3) by (simp add: word_le_nat_alt)
  obtain l2 where "add_all ?cs (Some (sctp_clear_chunklist l')) = Some l2" "chk_inv l2"
    "chk_set l2 = {c \<in> chk_set l. \<not> restricted_chunk c}"
    using add_all_ok [OF chk_clear(1) [of l'], of ?cs] by (auto simp: chk_clear(2) set_listed_chunks)
  moreover from this have "l2 = l" using assms(1) by (intro chk_inv_ext) (auto simp: chk_inv_def)
  ultimately show ?thesis
    using True len le assms(2) by (simp add: sctp_pack_auth_chunks_def sctp_unpack_auth_chunks_def put_def)
next
  case False
  let ?b = "fold (pack_bit l) [0..<256] ptr"
  have "set (packed_chunks ?b) = chk_set l"
    by (rule set_packed_chunks) (use bit_fold_pack [of 256 ptr _ _ l] assms(2,3) in auto)
  then obtain l2 where "add_all (packed_chunks ?b) (Some (sctp_clear_chunklist l')) = Some l2" "chk_inv l2"
    "chk_set l2 = {c \<in> chk_set l. \<not> restricted_chunk c}"
    using add_all_ok [OF chk_clear(1) [of l'], of "packed_chunks ?b"] by (auto simp: chk_clear(2))
  moreover from this have "l2 = l" using assms(1) by (intro chk_inv_ext) (auto simp: chk_inv_def)
  ultimately show ?thesis
    using False assms(2) by (simp add: sctp_pack_auth_chunks_def sctp_unpack_auth_chunks_def)
qed

theorem chunklist_pack_unpack_witness:
  "\<exists>size buf. sctp_pack_auth_chunks (Some (sctp_clear_chunklist \<lparr>chunks = [], num_chunks = 7\<rparr>)) (replicate 32 0) = (size, buf) \<and>
    sctp_unpack_auth_chunks buf (num_chunks (sctp_clear_chunklist \<lparr>chunks = [], num_chunks = 7\<rparr>))
      (Some (sctp_clear_chunklist \<lparr>chunks = [], num_chunks = 9\<rparr>)) =
      (size, Some (sctp_clear_chunklist \<lparr>chunks = [], num_chunks = 7\<rparr>))"
  using chunklist_pack_unpack [OF chk_clear(1) refl order_refl] by blast

end
