(* ===== verification/Auth_Keys.thy ===== *)
theory Auth_Keys
  imports Auth_Chunks
begin

text \<open>
  Keys of the authentication extension (netinet/sctp_auth.c): key blocks, their comparison as
  numbers, the association key that both peers compute from the two random parameters and a shared
  key, and the list of shared keys, ordered by key id and reference counted.

  A key block is its length and its bytes. Freed blocks disappear from the model; where a function
  can free a shared key that is still linked in a list, the result is \<open>None\<close>.
\<close>

section \<open>Key blocks\<close>

record sctp_key =
  keylen :: u32
  key :: bytes

definition sctp_alloc_key :: "allocator \<Rightarrow> u32 \<Rightarrow> sctp_key option" where
  "sctp_alloc_key malloc len =
     (case malloc (4 + unat len) of
        None \<Rightarrow> None
      | Some b \<Rightarrow> Some \<lparr>keylen = len, key = drop 4 b\<rparr>)"

definition sctp_get_keylen :: "sctp_key option \<Rightarrow> u32" where
  "sctp_get_keylen k = (case k of Some k \<Rightarrow> keylen k | None \<Rightarrow> 0)"

text \<open>\<open>memcpy_to buf off src\<close>: copying \<open>src\<close> into the block at offset \<open>off\<close>.\<close>

definition memcpy_to :: "bytes \<Rightarrow> nat \<Rightarrow> bytes \<Rightarrow> bytes" where
  "memcpy_to buf off src = take off buf @ src @ drop (off + length src) buf"

text \<open>\<^verbatim>\<open>SCTP_READ_RANDOM\<close> fills the block; \<open>rnd n\<close> are the bytes it delivers.\<close>

definition sctp_generate_random_key :: "allocator \<Rightarrow> (nat \<Rightarrow> bytes) \<Rightarrow> u32 \<Rightarrow> sctp_key option" where
  "sctp_generate_random_key malloc rnd len =
     (case sctp_alloc_key malloc len of
        None \<Rightarrow> None
      | Some k \<Rightarrow> Some (k\<lparr>key := memcpy_to (key k) 0 (rnd (unat len)), keylen := len\<rparr>))"

definition sctp_set_key :: "allocator \<Rightarrow> bytes \<Rightarrow> u32 \<Rightarrow> sctp_key option" where
  "sctp_set_key malloc k len =
     (case sctp_alloc_key malloc len of
        None \<Rightarrow> None
      | Some new_key \<Rightarrow> Some (new_key\<lparr>key := memcpy_to (key new_key) 0 (take (unat len) k)\<rparr>))"

text \<open>Byte \<open>i\<close> of a key that is left-padded with zeros to \<open>maxlen\<close> bytes.\<close>

definition padded_byte :: "u32 \<Rightarrow> sctp_key \<Rightarrow> nat \<Rightarrow> u8" where
  "padded_byte maxlen k i =
     (if i < unat (maxlen - keylen k) then 0 else key k ! (i - unat (maxlen - keylen k)))"

fun compare_loop :: "u32 \<Rightarrow> sctp_key \<Rightarrow> sctp_key \<Rightarrow> nat list \<Rightarrow> int" where
  "compare_loop maxlen k1 k2 [] = 0"
| "compare_loop maxlen k1 k2 (i # is) =
     (if padded_byte maxlen k1 i > padded_byte maxlen k2 i then 1
      else if padded_byte maxlen k1 i < padded_byte maxlen k2 i then -1
      else compare_loop maxlen k1 k2 is)"

definition sctp_compare_key :: "sctp_key option \<Rightarrow> sctp_key option \<Rightarrow> int" where
  "sctp_compare_key key1 key2 =
     (let key1len = sctp_get_keylen key1; key2len = sctp_get_keylen key2
      in if key1len = 0 \<and> key2len = 0 then 0
         else if key1len = 0 then -1
         else if key2len = 0 then 1
         else let maxlen = (if key1len < key2len then key2len else key1len);
                  c = compare_loop maxlen (the key1) (the key2) [0..<unat maxlen]
              in if c \<noteq> 0 then c
                 else if key1len = key2len then 0
                 else if key1len < key2len then -1
                 else 1)"

text \<open>Copying a key, when it is not empty, behind what has been copied so far.\<close>

definition append_key :: "sctp_key option \<Rightarrow> bytes \<times> nat \<Rightarrow> bytes \<times> nat" where
  "append_key k bp =
     (case bp of (buf, off) \<Rightarrow>
        if sctp_get_keylen k \<noteq> 0
        then (memcpy_to buf off (take (unat (keylen (the k))) (key (the k))), off + unat (keylen (the k)))
        else (buf, off))"

definition sctp_compute_hashkey :: "allocator \<Rightarrow> sctp_key option \<Rightarrow> sctp_key option \<Rightarrow> sctp_key option \<Rightarrow>
    sctp_key option" where
  "sctp_compute_hashkey malloc key1 key2 shared =
     (let len = sctp_get_keylen key1 + sctp_get_keylen key2 + sctp_get_keylen shared
      in if len > 0
         then case sctp_alloc_key malloc len of
             None \<Rightarrow> None
           | Some new_key \<Rightarrow>
               let bp = append_key shared (key new_key, 0);
                   bp = (if sctp_compare_key key1 key2 \<le> 0
                         then append_key key2 (append_key key1 bp)
                         else append_key key1 (append_key key2 bp))
               in Some (new_key\<lparr>keylen := len, key := fst bp\<rparr>)
         else None)"

section \<open>Shared keys\<close>

record sctp_shared_key =
  skey_key :: "sctp_key option"
  refcount :: u32
  keyid :: u16
  deactivated :: u8

definition EBUSY :: int where "EBUSY = 16"
definition EINVAL :: int where "EINVAL = 22"

definition sctp_alloc_sharedkey :: "allocator \<Rightarrow> sctp_shared_key option" where
  "sctp_alloc_sharedkey malloc =
     (case malloc 32 of
        None \<Rightarrow> None
      | Some _ \<Rightarrow> Some \<lparr>skey_key = None, refcount = 1, keyid = 0, deactivated = 0\<rparr>)"

text \<open>
  \<^verbatim>\<open>sctp_free_sharedkey\<close>: the reference count goes down; \<open>None\<close> when it was the last reference and
  the block is freed.
\<close>

definition sctp_free_sharedkey :: "sctp_shared_key \<Rightarrow> sctp_shared_key option" where
  "sctp_free_sharedkey skey =
     (if refcount skey = 1 then None else Some (skey\<lparr>refcount := refcount skey - 1\<rparr>))"

fun sctp_find_sharedkey :: "sctp_shared_key list \<Rightarrow> u16 \<Rightarrow> sctp_shared_key option" where
  "sctp_find_sharedkey [] key_id = None"
| "sctp_find_sharedkey (skey # rest) key_id =
     (if keyid skey = key_id then Some skey else sctp_find_sharedkey rest key_id)"

text \<open>The loop over a non-empty list; the list is unchanged when the key cannot be replaced.\<close>

fun insert_loop :: "sctp_shared_key list \<Rightarrow> sctp_shared_key \<Rightarrow> int \<times> sctp_shared_key list" where
  "insert_loop [] new_skey = (EINVAL, [])"
| "insert_loop (skey # rest) new_skey =
     (if keyid new_skey < keyid skey then (0, new_skey # skey # rest)
      else if keyid new_skey = keyid skey
      then (if deactivated skey \<noteq> 0 \<and> refcount skey > 1 then (EBUSY, skey # rest)
            else (0, new_skey # rest))
      else if rest = [] then (0, [skey, new_skey])
      else let (r, rest') = insert_loop rest new_skey in (r, skey # rest'))"

definition sctp_insert_sharedkey :: "sctp_shared_key list option \<Rightarrow> sctp_shared_key option \<Rightarrow>
    int \<times> sctp_shared_key list option" where
  "sctp_insert_sharedkey shared_keys new_skey =
     (case (shared_keys, new_skey) of
        (Some ks, Some n) \<Rightarrow>
          if ks = [] then (0, Some [n])
          else let (r, ks') = insert_loop ks n in (r, Some ks')
      | _ \<Rightarrow> (EINVAL, shared_keys))"

text \<open>Changing the first shared key with an id in place.\<close>

fun upd_sharedkey :: "u16 \<Rightarrow> (sctp_shared_key \<Rightarrow> sctp_shared_key) \<Rightarrow> sctp_shared_key list \<Rightarrow> sctp_shared_key list" where
  "upd_sharedkey key_id f [] = []"
| "upd_sharedkey key_id f (skey # rest) =
     (if keyid skey = key_id then f skey # rest else skey # upd_sharedkey key_id f rest)"

text \<open>\<^verbatim>\<open>LIST_REMOVE\<close> of the key that was found.\<close>

fun remove_sharedkey :: "u16 \<Rightarrow> sctp_shared_key list \<Rightarrow> sctp_shared_key list" where
  "remove_sharedkey key_id [] = []"
| "remove_sharedkey key_id (skey # rest) =
     (if keyid skey = key_id then rest else skey # remove_sharedkey key_id rest)"

definition sctp_auth_key_acquire :: "sctp_shared_key list \<Rightarrow> u16 \<Rightarrow> sctp_shared_key list" where
  "sctp_auth_key_acquire shared_keys key_id =
     upd_sharedkey key_id (\<lambda>s. s\<lparr>refcount := refcount s + 1\<rparr>) shared_keys"

text \<open>
  \<^verbatim>\<open>sctp_auth_key_release\<close>: the list (\<open>None\<close> if the key was freed while it is linked there) and
  whether the upper layer is told that the key is no longer used.
\<close>

definition sctp_auth_key_release :: "sctp_shared_key list \<Rightarrow> u16 \<Rightarrow> sctp_shared_key list option \<times> bool" where
  "sctp_auth_key_release shared_keys key_id =
     (case sctp_find_sharedkey shared_keys key_id of
        None \<Rightarrow> (Some shared_keys, False)
      | Some skey \<Rightarrow>
          (case sctp_free_sharedkey skey of
             None \<Rightarrow> None
           | Some skey' \<Rightarrow> Some (upd_sharedkey key_id (\<lambda>_. skey') shared_keys),
           refcount skey \<le> 2 \<and> deactivated skey \<noteq> 0))"

definition sctp_copy_sharedkey :: "allocator \<Rightarrow> sctp_shared_key option \<Rightarrow> sctp_shared_key option" where
  "sctp_copy_sharedkey malloc skey =
     (case skey of
        None \<Rightarrow> None
      | Some s \<Rightarrow> (case sctp_alloc_sharedkey malloc of
            None \<Rightarrow> None
          | Some n \<Rightarrow> Some (n\<lparr>skey_key := (case skey_key s of
                 Some k \<Rightarrow> sctp_set_key malloc (key k) (keylen k) | None \<Rightarrow> None),
               keyid := keyid s\<rparr>)))"

fun copy_loop :: "allocator \<Rightarrow> sctp_shared_key list \<Rightarrow> sctp_shared_key list \<Rightarrow> nat \<Rightarrow> nat \<times> sctp_shared_key list" where
  "copy_loop malloc [] dest count = (count, dest)"
| "copy_loop malloc (skey # rest) dest count =
     (case sctp_copy_sharedkey malloc (Some skey) of
        None \<Rightarrow> copy_loop malloc rest dest count
      | Some n \<Rightarrow>
          (case sctp_insert_sharedkey (Some dest) (Some n) of
             (r, dest') \<Rightarrow> copy_loop malloc rest (the dest') (if r \<noteq> 0 then count else count + 1)))"

definition sctp_copy_skeylist :: "allocator \<Rightarrow> sctp_shared_key list option \<Rightarrow> sctp_shared_key list option \<Rightarrow>
    nat \<times> sctp_shared_key list option" where
  "sctp_copy_skeylist malloc src dest =
     (case (src, dest) of
        (Some s, Some d) \<Rightarrow> (case copy_loop malloc s d 0 of (n, d') \<Rightarrow> (n, Some d'))
      | _ \<Rightarrow> (0, dest))"

section \<open>Comparing keys\<close>

definition key_ok :: "sctp_key option \<Rightarrow> bool" where
  "key_ok k \<longleftrightarrow> (case k of None \<Rightarrow> True | Some k \<Rightarrow> length (key k) = unat (keylen k))"

text \<open>The documented behaviour of the allocator: a block has the size asked for.\<close>

definition malloc_sized :: "allocator \<Rightarrow> bool" where
  "malloc_sized malloc \<longleftrightarrow> (\<forall>n b. malloc n = Some b \<longrightarrow> length b = n)"

definition key_bytes :: "sctp_key option \<Rightarrow> bytes" where
  "key_bytes k = (case k of None \<Rightarrow> [] | Some k \<Rightarrow> key k)"

text \<open>The number a key denotes, most significant byte first.\<close>

definition be_value :: "bytes \<Rightarrow> nat" where
  "be_value bs = foldl (\<lambda>a b. a * 256 + unat b) 0 bs"

lemma foldl_be: "foldl (\<lambda>a b. a * 256 + unat (b :: u8)) n bs = n * 256 ^ length bs + be_value bs"
proof -
  have "foldl (\<lambda>a b. a * 256 + unat (b :: u8)) n bs = n * 256 ^ length bs + foldl (\<lambda>a b. a * 256 + unat b) 0 bs"
  proof (induction bs arbitrary: n)
    case (Cons b bs)
    from Cons [of "n * 256 + unat b"] Cons [of "unat b"] show ?case by (simp add: algebra_simps)
  qed simp
  then show ?thesis by (simp add: be_value_def)
qed

lemma be_value_Cons: "be_value (b # bs) = unat b * 256 ^ length bs + be_value bs"
  using foldl_be [of "unat b" bs] by (simp add: be_value_def)

lemma be_value_less: "be_value bs < 256 ^ length bs"
proof (induction bs)
  case (Cons b bs)
  have "unat b \<le> 255" using unat_u8_less [of b] by simp
  then have "unat b * 256 ^ length bs \<le> 255 * 256 ^ length bs" by (rule mult_le_mono1)
  with Cons have "unat b * 256 ^ length bs + be_value bs < 256 * 256 ^ length bs" by linarith
  then show ?case by (simp add: be_value_Cons)
qed (simp add: be_value_def)

lemma be_value_zeros: "be_value (replicate n 0 @ bs) = be_value bs"
  by (induction n) (simp_all add: be_value_Cons)

fun lex_compare :: "bytes \<Rightarrow> bytes \<Rightarrow> int" where
  "lex_compare (a # as) (b # bs) = (if a > b then 1 else if a < b then -1 else lex_compare as bs)"
| "lex_compare _ _ = 0"

lemma lex_compare_value:
  "length as = length bs \<Longrightarrow> lex_compare as bs =
     (if be_value as > be_value bs then 1 else if be_value as < be_value bs then -1 else 0)"
proof (induction as bs rule: lex_compare.induct)
  case (1 a as b bs)
  have bound: "be_value as < 256 ^ length bs" "be_value bs < 256 ^ length bs"
    using be_value_less [of as] be_value_less [of bs] 1(2) by simp_all
  have step: "x * 256 ^ length bs + u < y * 256 ^ length bs + v" if "x < y" "u < 256 ^ length bs" for x y u v :: nat
  proof -
    have "(x + 1) * 256 ^ length bs \<le> y * 256 ^ length bs" using that(1) by (intro mult_le_mono1) simp
    with that(2) show ?thesis by (simp add: algebra_simps)
  qed
  from 1 bound step [of "unat a" "unat b" "be_value as" "be_value bs"]
    step [of "unat b" "unat a" "be_value bs" "be_value as"] show ?case
    by (auto simp: be_value_Cons word_less_nat_alt not_less_iff_gr_or_eq dest: word_unat_eq_iff [THEN iffD2])
qed auto

lemma be_value_inject: "length as = length bs \<Longrightarrow> be_value as = be_value bs \<longleftrightarrow> as = bs"
proof (induction as bs rule: list_induct2)
  case (Cons a as b bs)
  have "lex_compare (a # as) (b # bs) = 0 \<Longrightarrow> a = b" by (auto split: if_splits)
  with Cons lex_compare_value [of "a # as" "b # bs"] show ?case by (auto simp: be_value_Cons split: if_splits)
qed (simp add: be_value_def)

lemma compare_loop_lex:
  "compare_loop maxlen k1 k2 is = lex_compare (map (padded_byte maxlen k1) is) (map (padded_byte maxlen k2) is)"
  by (induction "is") auto

lemma padded_bytes:
  assumes "length (key k) = unat (keylen k)" "keylen k \<le> maxlen"
  shows "map (padded_byte maxlen k) [0..<unat maxlen] = replicate (unat maxlen - unat (keylen k)) 0 @ key k"
proof (rule nth_equalityI)
  have sub: "unat (maxlen - keylen k) = unat maxlen - unat (keylen k)" using assms(2) by (rule unat_sub)
  have le: "unat (keylen k) \<le> unat maxlen" using assms(2) by (simp add: word_le_nat_alt)
  show "length (map (padded_byte maxlen k) [0..<unat maxlen]) =
      length (replicate (unat maxlen - unat (keylen k)) 0 @ key k)"
    using assms(1) le by simp
  fix i
  assume "i < length (map (padded_byte maxlen k) [0..<unat maxlen])"
  then show "map (padded_byte maxlen k) [0..<unat maxlen] ! i =
      (replicate (unat maxlen - unat (keylen k)) 0 @ key k) ! i"
    using assms(1) sub le by (simp add: padded_byte_def nth_append)
qed

lemma keylen_bytes: "key_ok k \<Longrightarrow> unat (sctp_get_keylen k) = length (key_bytes k)"
  by (auto simp: key_ok_def sctp_get_keylen_def key_bytes_def split: option.splits)

lemma keylen_zero: "key_ok k \<Longrightarrow> sctp_get_keylen k = 0 \<longleftrightarrow> key_bytes k = []"
  using keylen_bytes [of k] by (auto simp: word_unat_eq_iff)

lemma compare_key_numeric_eq:
  assumes "key_ok key1" "key_ok key2"
  shows "sctp_compare_key key1 key2 =
    (if be_value (key_bytes key1) > be_value (key_bytes key2) then 1
     else if be_value (key_bytes key1) < be_value (key_bytes key2) then -1
     else if length (key_bytes key1) > length (key_bytes key2) then 1
     else if length (key_bytes key1) < length (key_bytes key2) then -1 else 0)"
proof (cases "key_bytes key1 = [] \<or> key_bytes key2 = []")
  case True
  then show ?thesis
    using keylen_zero [OF assms(1)] keylen_zero [OF assms(2)]
    by (auto simp: sctp_compare_key_def be_value_def)
next
  case False
  then obtain k1 k2 where k: "key1 = Some k1" "key2 = Some k2" by (auto simp: key_bytes_def split: option.splits)
  let ?max = "if keylen k1 < keylen k2 then keylen k2 else keylen k1"
  have len: "length (key k1) = unat (keylen k1)" "length (key k2) = unat (keylen k2)"
    using assms k by (auto simp: key_ok_def)
  have le: "keylen k1 \<le> ?max" "keylen k2 \<le> ?max" by auto
  have "unat (keylen k1) \<le> unat ?max" "unat (keylen k2) \<le> unat ?max"
    using le by (simp_all only: word_le_nat_alt)
  then have "compare_loop ?max k1 k2 [0..<unat ?max] =
      (if be_value (key k1) > be_value (key k2) then 1 else if be_value (key k1) < be_value (key k2) then -1 else 0)"
    using len by (simp only: compare_loop_lex padded_bytes [OF len(1) le(1)] padded_bytes [OF len(2) le(2)])
      (subst lex_compare_value, simp_all add: be_value_zeros)
  moreover have "keylen k1 \<noteq> 0" "keylen k2 \<noteq> 0" using False k len by (auto simp: key_bytes_def)
  ultimately show ?thesis
    using k len by (auto simp: sctp_compare_key_def sctp_get_keylen_def Let_def key_bytes_def word_less_nat_alt word_unat_eq_iff)
qed

text \<open>
  \<^verbatim>\<open>sctp_compare_key\<close> orders keys as big-endian numbers, shorter keys first among equal
  numbers; NULL is the empty key.
\<close>

theorem compare_key_numeric:
  assumes "key_ok key1" "key_ok key2"
  shows "sctp_compare_key key1 key2 =
    (if be_value (key_bytes key1) > be_value (key_bytes key2) then 1
     else if be_value (key_bytes key1) < be_value (key_bytes key2) then -1
     else if length (key_bytes key1) > length (key_bytes key2) then 1
     else if length (key_bytes key1) < length (key_bytes key2) then -1 else 0)"
  by (rule compare_key_numeric_eq [OF assms])

theorem compare_key_numeric_witness:
  "sctp_compare_key (Some \<lparr>keylen = 2, key = [0, 7]\<rparr>) (Some \<lparr>keylen = 1, key = [9]\<rparr>) = -1"
proof -
  have "key_ok (Some \<lparr>keylen = 2, key = [0, 7]\<rparr>)" "key_ok (Some \<lparr>keylen = 1, key = [9]\<rparr>)"
    by (simp_all add: key_ok_def)
  from compare_key_numeric [OF this] show ?thesis by (simp add: key_bytes_def be_value_def)
qed

section \<open>The association key\<close>

lemma append_key_bytes:
  assumes "key_ok k" "off + length (key_bytes k) \<le> length buf" "take off buf = done_bytes"
  shows "\<exists>buf'. append_key k (buf, off) = (buf', off + length (key_bytes k)) \<and> length buf' = length buf \<and>
    take (off + length (key_bytes k)) buf' = done_bytes @ key_bytes k"
proof (cases "key_bytes k = []")
  case True
  then show ?thesis using assms keylen_zero [OF assms(1)] by (simp add: append_key_def)
next
  case False
  then obtain k' where k: "k = Some k'" "length (key k') = unat (keylen k')"
    using assms(1) by (auto simp: key_ok_def key_bytes_def split: option.splits)
  have nz: "sctp_get_keylen k \<noteq> 0" using False keylen_zero [OF assms(1)] by simp
  have kb: "key_bytes k = key k'" using k by (simp add: key_bytes_def)
  let ?buf = "take off buf @ key k' @ drop (off + length (key k')) buf"
  have "append_key k (buf, off) = (?buf, off + length (key k'))"
    using nz k by (simp add: append_key_def memcpy_to_def)
  moreover have "length ?buf = length buf" "take (off + length (key k')) ?buf = done_bytes @ key k'"
    using assms(2,3) kb by auto
  ultimately show ?thesis unfolding kb by (intro exI conjI)
qed

lemma hashkey_bytes:
  assumes "malloc_sized malloc" "key_ok key1" "key_ok key2" "key_ok shared"
    "length (key_bytes key1) + length (key_bytes key2) + length (key_bytes shared) < 2 ^ 32"
    "key_bytes key1 @ key_bytes key2 @ key_bytes shared \<noteq> []"
  shows "sctp_compute_hashkey malloc key1 key2 shared =
    (let kb = key_bytes shared @
           (if sctp_compare_key key1 key2 \<le> 0 then key_bytes key1 @ key_bytes key2
            else key_bytes key2 @ key_bytes key1)
     in if malloc (4 + length kb) = None then None else Some \<lparr>keylen = word_of_nat (length kb), key = kb\<rparr>)"
proof -
  let ?n = "length (key_bytes key1) + length (key_bytes key2) + length (key_bytes shared)"
  define len where "len = sctp_get_keylen key1 + sctp_get_keylen key2 + sctp_get_keylen shared"
  have un: "unat len = ?n"
    using keylen_bytes [OF assms(2)] keylen_bytes [OF assms(3)] keylen_bytes [OF assms(4)] assms(5)
    by (simp add: len_def unat_word_ariths)
  have pos: "len > 0" using un assms(6) by (auto simp: word_less_nat_alt)
  have lenw: "len = word_of_nat ?n" by (simp only: un [symmetric] of_nat_unat ucast_id)
  have hk: "sctp_compute_hashkey malloc key1 key2 shared =
      (case malloc (4 + ?n) of None \<Rightarrow> None
       | Some b \<Rightarrow> let bp = append_key shared (drop 4 b, 0);
                       bp = (if sctp_compare_key key1 key2 \<le> 0
                             then append_key key2 (append_key key1 bp)
                             else append_key key1 (append_key key2 bp))
                   in Some \<lparr>keylen = len, key = fst bp\<rparr>)"
    unfolding sctp_compute_hashkey_def len_def [symmetric] sctp_alloc_key_def
    using pos un by (simp add: Let_def split: option.split)
  have kb: "length (key_bytes shared @ (if sctp_compare_key key1 key2 \<le> 0 then key_bytes key1 @ key_bytes key2
      else key_bytes key2 @ key_bytes key1)) = ?n" by simp
  show ?thesis
  proof (cases "malloc (4 + ?n)")
    case None
    then show ?thesis unfolding hk Let_def kb by simp
  next
    case (Some b)
    then have b: "length (drop 4 b) = ?n" using assms(1) by (auto simp: malloc_sized_def)
    define x where "x = (if sctp_compare_key key1 key2 \<le> 0 then key1 else key2)"
    define y where "y = (if sctp_compare_key key1 key2 \<le> 0 then key2 else key1)"
    have ok: "key_ok x" "key_ok y" and n: "length (key_bytes shared) + length (key_bytes x) + length (key_bytes y) = ?n"
      using assms by (auto simp: x_def y_def)
    have order: "(if sctp_compare_key key1 key2 \<le> 0 then append_key key2 (append_key key1 bp)
        else append_key key1 (append_key key2 bp)) = append_key y (append_key x bp)" for bp
      by (simp add: x_def y_def)
    have xy: "(if sctp_compare_key key1 key2 \<le> 0 then key_bytes key1 @ key_bytes key2
        else key_bytes key2 @ key_bytes key1) = key_bytes x @ key_bytes y" by (simp add: x_def y_def)
    obtain b1 where b1: "append_key shared (drop 4 b, 0) = (b1, length (key_bytes shared))" "length b1 = ?n"
      "take (length (key_bytes shared)) b1 = key_bytes shared"
      using append_key_bytes [OF assms(4), of 0 "drop 4 b" "[]"] b by auto
    obtain b2 where b2: "append_key x (b1, length (key_bytes shared)) =
        (b2, length (key_bytes shared) + length (key_bytes x))" "length b2 = ?n"
      "take (length (key_bytes shared) + length (key_bytes x)) b2 = key_bytes shared @ key_bytes x"
      using append_key_bytes [OF ok(1), of "length (key_bytes shared)" b1 "key_bytes shared"] b1(2,3) n by auto
    obtain b3 where b3: "append_key y (b2, length (key_bytes shared) + length (key_bytes x)) = (b3, ?n)"
      "length b3 = ?n" "take ?n b3 = key_bytes shared @ key_bytes x @ key_bytes y"
      using append_key_bytes [OF ok(2), of "length (key_bytes shared) + length (key_bytes x)" b2
          "key_bytes shared @ key_bytes x"] b2(2,3) n by auto
    have b3': "b3 = key_bytes shared @ key_bytes x @ key_bytes y" using b3(2,3) by simp
    have "sctp_compute_hashkey malloc key1 key2 shared = Some \<lparr>keylen = len, key = b3\<rparr>"
      unfolding hk Some order using b1(1) b2(1) b3(1) by simp
    moreover have kxy: "length (key_bytes shared @ key_bytes x @ key_bytes y) = ?n" using n by simp
    ultimately show ?thesis unfolding Let_def xy kxy Some lenw b3' by (simp only: option.distinct if_False)
  qed
qed

text \<open>The keying material of an association: the shared key, then the two key vectors in order.\<close>

definition assoc_secret :: "sctp_key option \<Rightarrow> sctp_key option \<Rightarrow> sctp_key option \<Rightarrow> bytes" where
  "assoc_secret key1 key2 shared =
     key_bytes shared @ (if sctp_compare_key key1 key2 \<le> 0 then key_bytes key1 @ key_bytes key2
                         else key_bytes key2 @ key_bytes key1)"

definition raw_key :: "bytes \<Rightarrow> sctp_key" where
  "raw_key kb = \<lparr>keylen = word_of_nat (length kb), key = kb\<rparr>"

lemma assoc_secret_commute:
  assumes "key_ok key1" "key_ok key2"
  shows "assoc_secret key1 key2 shared = assoc_secret key2 key1 shared"
proof -
  have "key_bytes key1 = key_bytes key2" if "sctp_compare_key key1 key2 \<le> 0" "sctp_compare_key key2 key1 \<le> 0"
    using that be_value_inject [of "key_bytes key1" "key_bytes key2"]
    by (auto simp: compare_key_numeric_eq assms split: if_splits)
  moreover have "sctp_compare_key key1 key2 \<le> 0 \<or> sctp_compare_key key2 key1 \<le> 0"
    by (auto simp: compare_key_numeric_eq assms)
  ultimately show ?thesis by (auto simp: assoc_secret_def)
qed

lemma length_assoc_secret:
  "length (assoc_secret key1 key2 shared) =
     length (key_bytes key1) + length (key_bytes key2) + length (key_bytes shared)"
  by (simp add: assoc_secret_def)

lemma hashkey_eq:
  assumes "malloc_sized malloc" "key_ok key1" "key_ok key2" "key_ok shared"
    "length (assoc_secret key1 key2 shared) < 2 ^ 32"
  shows "sctp_compute_hashkey malloc key1 key2 shared =
    (if assoc_secret key1 key2 shared = [] \<or> malloc (4 + length (assoc_secret key1 key2 shared)) = None then None
     else Some (raw_key (assoc_secret key1 key2 shared)))"
proof (cases "key_bytes key1 @ key_bytes key2 @ key_bytes shared = []")
  case True
  then show ?thesis
    using keylen_zero [OF assms(2)] keylen_zero [OF assms(3)] keylen_zero [OF assms(4)]
    by (simp add: sctp_compute_hashkey_def assoc_secret_def)
next
  case False
  then have "assoc_secret key1 key2 shared \<noteq> []" by (auto simp: assoc_secret_def)
  moreover have "length (key_bytes key1) + length (key_bytes key2) + length (key_bytes shared) < 2 ^ 32"
    using assms(5) by (simp add: length_assoc_secret)
  ultimately show ?thesis
    using hashkey_bytes [OF assms(1-4) _ False] unfolding assoc_secret_def [symmetric] by (simp add: raw_key_def Let_def)
qed

text \<open>
  the association key does not depend on which side computes it. It is the shared key
  followed by the two peers' key vectors, the numerically smaller first, so exchanging the local and
  the peer's vector gives the same key.
\<close>

theorem hashkey_symmetric:
  assumes "malloc_sized malloc" "key_ok key1" "key_ok key2" "key_ok shared"
    "length (key_bytes key1) + length (key_bytes key2) + length (key_bytes shared) < 2 ^ 32"
  shows "sctp_compute_hashkey malloc key1 key2 shared = sctp_compute_hashkey malloc key2 key1 shared"
  using assms hashkey_eq [of malloc key1 key2 shared] hashkey_eq [of malloc key2 key1 shared]
  by (simp add: assoc_secret_commute [of key2 key1] length_assoc_secret)

theorem hashkey_symmetric_witness:
  "sctp_compute_hashkey (\<lambda>n. Some (replicate n 0)) (Some \<lparr>keylen = 2, key = [1, 2]\<rparr>) (Some \<lparr>keylen = 1, key = [9]\<rparr>) None =
   sctp_compute_hashkey (\<lambda>n. Some (replicate n 0)) (Some \<lparr>keylen = 1, key = [9]\<rparr>) (Some \<lparr>keylen = 2, key = [1, 2]\<rparr>) None"
  by (rule hashkey_symmetric) (simp_all add: malloc_sized_def key_ok_def key_bytes_def)

section \<open>The list of shared keys\<close>

definition sk_sorted :: "sctp_shared_key list \<Rightarrow> bool" where
  "sk_sorted ks \<longleftrightarrow> sorted_wrt (\<lambda>a b. keyid a < keyid b) ks"

text \<open>A key that may not be replaced: deactivated, and still used by somebody else.\<close>

definition sk_busy :: "sctp_shared_key list \<Rightarrow> u16 \<Rightarrow> bool" where
  "sk_busy ks key_id \<longleftrightarrow>
     (\<exists>skey. sctp_find_sharedkey ks key_id = Some skey \<and> deactivated skey \<noteq> 0 \<and> refcount skey > 1)"

lemma find_smaller: "\<forall>k\<in>set ks. key_id < keyid k \<Longrightarrow> sctp_find_sharedkey ks key_id = None"
  by (induction ks) auto

lemma find_keyid: "sctp_find_sharedkey ks key_id = Some skey \<Longrightarrow> skey \<in> set ks \<and> keyid skey = key_id"
  by (induction ks) (auto split: if_splits)

lemma insert_loop_busy: "sk_sorted ks \<Longrightarrow> sk_busy ks (keyid n) \<Longrightarrow> insert_loop ks n = (EBUSY, ks)"
proof (induction ks)
  case (Cons k ks)
  have "\<not> keyid n < keyid k"
  proof
    assume "keyid n < keyid k"
    then have "\<forall>x\<in>set (k # ks). keyid n < keyid x" using Cons.prems(1) by (auto simp: sk_sorted_def)
    from find_smaller [OF this] Cons.prems(2) show False by (simp add: sk_busy_def)
  qed
  with Cons show ?case by (auto simp: sk_busy_def sk_sorted_def split: if_splits)
qed (simp add: sk_busy_def)

lemma insert_loop_ok:
  assumes "sk_sorted ks" "\<not> sk_busy ks (keyid n)" "ks \<noteq> []"
  shows "\<exists>ks'. insert_loop ks n = (0, ks') \<and> sk_sorted ks' \<and>
    keyid ` set ks' = insert (keyid n) (keyid ` set ks) \<and>
    (\<forall>i. sctp_find_sharedkey ks' i = (if i = keyid n then Some n else sctp_find_sharedkey ks i))"
  using assms
proof (induction ks)
  case (Cons k ks)
  consider "keyid n < keyid k" | "keyid n = keyid k" | "keyid k < keyid n" "ks = []" | "keyid k < keyid n" "ks \<noteq> []"
    by fastforce
  then show ?case
  proof cases
    case 4
    then have "\<not> sk_busy ks (keyid n)" using Cons.prems(2) by (auto simp: sk_busy_def)
    then obtain ks' where ks': "insert_loop ks n = (0, ks')" "sk_sorted ks'"
      "keyid ` set ks' = insert (keyid n) (keyid ` set ks)"
      "\<forall>i. sctp_find_sharedkey ks' i = (if i = keyid n then Some n else sctp_find_sharedkey ks i)"
      using Cons.IH Cons.prems(1) 4 by (auto simp: sk_sorted_def)
    have "\<forall>x\<in>set ks'. keyid k < keyid x"
    proof
      fix x
      assume "x \<in> set ks'"
      then have "keyid x \<in> insert (keyid n) (keyid ` set ks)" using ks'(3) by blast
      then show "keyid k < keyid x" using 4 Cons.prems(1) by (auto simp: sk_sorted_def)
    qed
    with ks' 4 show ?thesis by (auto simp: sk_sorted_def)
  qed (use Cons.prems in \<open>auto simp: sk_sorted_def sk_busy_def\<close>)
qed simp

lemma insert_sharedkey_lookup:
  assumes "sk_sorted ks"
  shows "if sk_busy ks (keyid n) then sctp_insert_sharedkey (Some ks) (Some n) = (EBUSY, Some ks)
    else \<exists>ks'. sctp_insert_sharedkey (Some ks) (Some n) = (0, Some ks') \<and> sk_sorted ks' \<and>
      (\<forall>i. sctp_find_sharedkey ks' i = (if i = keyid n then Some n else sctp_find_sharedkey ks i))"
proof (cases "ks = []")
  case True
  then show ?thesis by (auto simp: sctp_insert_sharedkey_def sk_sorted_def sk_busy_def)
next
  case False
  then show ?thesis
    using insert_loop_busy [OF assms, of n] insert_loop_ok [OF assms, of n]
    by (cases "sk_busy ks (keyid n)") (auto simp: sctp_insert_sharedkey_def)
qed

text \<open>
  inserting a shared key into a list ordered by key id keeps the order and the ids distinct.
  A deactivated key that is still in use is not replaced (EBUSY, the list stays); otherwise looking
  up the id afterwards gives the new key and every other lookup is unchanged.
\<close>

theorem sharedkey_insert_lookup:
  assumes "sk_sorted ks"
  shows "if sk_busy ks (keyid n) then sctp_insert_sharedkey (Some ks) (Some n) = (EBUSY, Some ks)
    else \<exists>ks'. sctp_insert_sharedkey (Some ks) (Some n) = (0, Some ks') \<and> sk_sorted ks' \<and>
      (\<forall>i. sctp_find_sharedkey ks' i = (if i = keyid n then Some n else sctp_find_sharedkey ks i))"
  by (rule insert_sharedkey_lookup [OF assms])

definition demo_skey :: "u16 \<Rightarrow> sctp_shared_key" where
  "demo_skey i = \<lparr>skey_key = Some \<lparr>keylen = 1, key = [7]\<rparr>, refcount = 1, keyid = i, deactivated = 0\<rparr>"

theorem sharedkey_insert_lookup_witness:
  "\<exists>ks'. sctp_insert_sharedkey (Some [demo_skey 0, demo_skey 5]) (Some (demo_skey 3)) = (0, Some ks') \<and> sk_sorted ks' \<and>
    sctp_find_sharedkey ks' 3 = Some (demo_skey 3) \<and> sctp_find_sharedkey ks' 5 = Some (demo_skey 5)"
proof -
  have "sk_sorted [demo_skey 0, demo_skey 5]" by (simp add: sk_sorted_def demo_skey_def)
  from sharedkey_insert_lookup [OF this, of "demo_skey 3"] show ?thesis
    by (auto simp: sk_busy_def demo_skey_def split: if_splits)
qed

lemma find_upd:
  "sctp_find_sharedkey ks key_id = Some skey \<Longrightarrow> keyid (f skey) = keyid skey \<Longrightarrow>
    sctp_find_sharedkey (upd_sharedkey key_id f ks) key_id = Some (f skey)"
  by (induction ks) (auto split: if_splits)

lemma upd_sorted:
  assumes "\<And>s. keyid (f s) = keyid s"
  shows "sk_sorted (upd_sharedkey key_id f ks) = sk_sorted ks"
proof -
  have "map keyid (upd_sharedkey key_id f ks) = map keyid ks" by (induction ks) (auto simp: assms)
  moreover have "sk_sorted xs \<longleftrightarrow> sorted_wrt (<) (map keyid xs)" for xs by (simp add: sk_sorted_def sorted_wrt_map)
  ultimately show ?thesis by simp
qed

text \<open>
  C34: replacing a shared key that a queued message still refers to breaks the reference counts. The
  message acquires the key by its id, the application replaces the key (which is allowed, it is not
  deactivated), and when the message is done the release finds the new key under the id and takes
  away its only reference: the new key is freed while it is linked in the list.
\<close>

theorem sharedkey_replace_then_release_frees:
  assumes "sk_sorted ks" "sctp_find_sharedkey ks i = Some skey" "deactivated skey = 0"
    "keyid n = i" "refcount n = 1"
  shows "\<exists>ks'. sctp_insert_sharedkey (Some (sctp_auth_key_acquire ks i)) (Some n) = (0, Some ks') \<and>
    sctp_find_sharedkey ks' i = Some n \<and> fst (sctp_auth_key_release ks' i) = None"
proof -
  let ?ks = "sctp_auth_key_acquire ks i"
  have sorted: "sk_sorted ?ks" using assms(1) by (simp add: sctp_auth_key_acquire_def upd_sorted)
  have find: "sctp_find_sharedkey ?ks i = Some (skey\<lparr>refcount := refcount skey + 1\<rparr>)"
    using find_upd [OF assms(2), of "\<lambda>s. s\<lparr>refcount := refcount s + 1\<rparr>"] by (simp add: sctp_auth_key_acquire_def)
  then have "?ks \<noteq> []" "\<not> sk_busy ?ks (keyid n)" using assms(3,4) by (auto simp: sk_busy_def)
  with insert_loop_ok [OF sorted, of n] assms(4,5) show ?thesis
    by (auto simp: sctp_insert_sharedkey_def sctp_auth_key_release_def sctp_free_sharedkey_def)
qed

theorem sharedkey_replace_then_release_frees_witness:
  "\<exists>ks'. sctp_insert_sharedkey (Some (sctp_auth_key_acquire [demo_skey 0, demo_skey 5] 5)) (Some (demo_skey 5)) = (0, Some ks') \<and>
    sctp_find_sharedkey ks' 5 = Some (demo_skey 5) \<and> fst (sctp_auth_key_release ks' 5) = None"
  by (rule sharedkey_replace_then_release_frees [of _ _ "demo_skey 5"]) (simp_all add: sk_sorted_def demo_skey_def)

lemma alloc_set_key:
  assumes "malloc_sized malloc" "malloc (4 + unat len) \<noteq> None" "length k = unat len"
  shows "sctp_set_key malloc k len = Some \<lparr>keylen = len, key = k\<rparr>"
  using assms by (auto simp: sctp_set_key_def sctp_alloc_key_def memcpy_to_def malloc_sized_def)

definition fresh_copy :: "sctp_shared_key \<Rightarrow> sctp_shared_key" where
  "fresh_copy s = s\<lparr>refcount := 1, deactivated := 0\<rparr>"

lemma copy_sharedkey_ok:
  assumes "malloc_sized malloc" "\<forall>n. malloc n \<noteq> None" "key_ok (skey_key s)"
  shows "sctp_copy_sharedkey malloc (Some s) = Some (fresh_copy s)"
proof -
  have "(case skey_key s of None \<Rightarrow> None | Some k \<Rightarrow> sctp_set_key malloc (key k) (keylen k)) = skey_key s"
    using assms alloc_set_key [OF assms(1)] by (auto simp: key_ok_def split: option.splits)
  then show ?thesis using assms(2)
    by (auto simp: sctp_copy_sharedkey_def sctp_alloc_sharedkey_def fresh_copy_def split: option.splits)
qed

lemma insert_loop_last:
  assumes "ks \<noteq> []" "\<forall>k\<in>set ks. keyid k < keyid n"
  shows "insert_loop ks n = (0, ks @ [n])"
  using assms by (induction ks) (auto simp: dest: less_not_sym)

text \<open>
  copying an endpoint's shared keys to a new association, memory permitting, copies all of them:
  the association gets the same ids and key bytes in the same order, each with one reference and
  active.
\<close>

theorem copy_skeylist_complete:
  assumes "malloc_sized malloc" "\<forall>n. malloc n \<noteq> None" "sk_sorted src" "\<forall>s\<in>set src. key_ok (skey_key s)"
  shows "sctp_copy_skeylist malloc (Some src) (Some []) = (length src, Some (map fresh_copy src))"
proof -
  have "copy_loop malloc src dest c = (c + length src, dest @ map fresh_copy src)"
    if "sk_sorted (dest @ src)" "\<forall>s\<in>set src. key_ok (skey_key s)" for dest c
    using that
  proof (induction src arbitrary: dest c)
    case (Cons s src)
    have "sctp_insert_sharedkey (Some dest) (Some (fresh_copy s)) = (0, Some (dest @ [fresh_copy s]))"
      using Cons.prems(1) insert_loop_last [of dest "fresh_copy s"]
      by (auto simp: sctp_insert_sharedkey_def sk_sorted_def sorted_wrt_append fresh_copy_def)
    moreover have "sk_sorted ((dest @ [fresh_copy s]) @ src)"
      using Cons.prems(1) by (auto simp: sk_sorted_def sorted_wrt_append fresh_copy_def)
    ultimately show ?case
      using Cons.IH [of "dest @ [fresh_copy s]" "c + 1"] Cons.prems(2) copy_sharedkey_ok [OF assms(1,2), of s] by simp
  qed simp
  from this [of "[]" 0] assms(3,4) show ?thesis by (simp add: sctp_copy_skeylist_def)
qed

theorem copy_skeylist_complete_witness:
  "sctp_copy_skeylist (\<lambda>n. Some (replicate n 0)) (Some [demo_skey 0, demo_skey 5]) (Some []) =
     (2, Some [demo_skey 0, demo_skey 5])"
proof -
  have "sk_sorted [demo_skey 0, demo_skey 5]" by (simp add: sk_sorted_def demo_skey_def)
  with copy_skeylist_complete [of "\<lambda>n. Some (replicate n 0)" "[demo_skey 0, demo_skey 5]"] show ?thesis
    by (simp add: malloc_sized_def key_ok_def demo_skey_def fresh_copy_def)
qed

end
