(* ===== verification/Mbuf_Access.thy ===== *)
theory Mbuf_Access
  imports Sctp_Prelude "HOL-Library.Monad_Syntax"
begin

text \<open>
  Reading and writing memory blocks and mbuf chains. \<open>rd\<close> and \<open>wr\<close> are \<^verbatim>\<open>memcpy\<close> from and into a
  block, \<open>None\<close> when the access leaves the block. \<^verbatim>\<open>sctp_m_getptr\<close> (netinet/sctputil.c) hands out a
  contiguous piece of a chain, \<open>chain_seek\<close> is the loop with which several routines of the
  authentication code find the mbuf an offset lies in.
\<close>

section \<open>Blocks\<close>

definition rd :: "bytes \<Rightarrow> nat \<Rightarrow> nat \<Rightarrow> bytes option" where
  "rd buf off n = (if off + n \<le> length buf then Some (take n (drop off buf)) else None)"

definition wr :: "bytes \<Rightarrow> nat \<Rightarrow> bytes \<Rightarrow> bytes option" where
  "wr buf off src =
     (if off + length src \<le> length buf
      then Some (take off buf @ src @ drop (off + length src) buf) else None)"

lemma rd_all [simp]: "rd buf 0 (length buf) = Some buf"
  by (simp add: rd_def)

lemma rd_prefix: "n \<le> length buf \<Longrightarrow> rd buf 0 n = Some (take n buf)"
  by (simp add: rd_def)

lemma wr_prefix: "length src \<le> length buf \<Longrightarrow> wr buf 0 src = Some (src @ drop (length src) buf)"
  by (simp add: wr_def)

lemma wr_length: "wr buf off src = Some b \<Longrightarrow> length b = length buf"
  by (auto simp: wr_def split: if_splits)

lemma rd_wr: "wr buf off src = Some b \<Longrightarrow> rd b off (length src) = Some src"
  by (auto simp: wr_def rd_def split: if_splits)

section \<open>Chains\<close>

text \<open>\<^verbatim>\<open>sctp_m_getptr\<close>: the two loops, and the bytes at the pointer that is returned.\<close>

fun getptr_seek :: "int \<Rightarrow> mchain \<Rightarrow> int \<times> mchain" where
  "getptr_seek off [] = (off, [])"
| "getptr_seek off (d # m) =
     (if off > 0 \<and> \<not> off < int (length d) then getptr_seek (off - int (length d)) m
      else (off, d # m))"

fun getptr_copy :: "int \<Rightarrow> int \<Rightarrow> bytes \<Rightarrow> mchain \<Rightarrow> int \<times> bytes" where
  "getptr_copy off len ptr [] = (len, ptr)"
| "getptr_copy off len ptr (d # m) =
     (if len > 0
      then let count = min (int (length d) - off) len
           in getptr_copy 0 (len - count) (ptr @ take (nat count) (drop (nat off) d)) m
      else (len, ptr))"

definition sctp_m_getptr :: "mchain \<Rightarrow> int \<Rightarrow> int \<Rightarrow> bytes option" where
  "sctp_m_getptr m off len =
     (if off < 0 \<or> len \<le> 0 then None
      else case getptr_seek off m of
          (off, []) \<Rightarrow> None
        | (off, d # m) \<Rightarrow>
            if int (length d) - off \<ge> len then Some (take (nat len) (drop (nat off) d))
            else case getptr_copy off len [] (d # m) of
                (left, ptr) \<Rightarrow> if left > 0 then None else Some ptr)"

definition sctp_get_next_param :: "mchain \<Rightarrow> int \<Rightarrow> int \<Rightarrow> bytes option" where
  "sctp_get_next_param m offset pull_limit = sctp_m_getptr m offset pull_limit"

text \<open>Finding the mbuf that holds an offset, with unsigned arithmetic.\<close>

fun chain_seek :: "u32 \<Rightarrow> mchain \<Rightarrow> u32 \<times> mchain" where
  "chain_seek m_offset [] = (m_offset, [])"
| "chain_seek m_offset (d # m) =
     (if m_offset \<ge> word_of_nat (length d) then chain_seek (m_offset - word_of_nat (length d)) m
      else (m_offset, d # m))"

section \<open>Reading a chain is reading the concatenation\<close>

lemma getptr_seek_eq:
  assumes "off \<ge> 0" "getptr_seek off m = (off', m')"
  shows "off' \<ge> 0 \<and> drop (nat off') (concat m') = drop (nat off) (concat m) \<and>
    (m' \<noteq> [] \<longrightarrow> off' = 0 \<or> off' < int (length (hd m'))) \<and>
    int (length (concat m')) - off' = int (length (concat m)) - off"
  using assms
proof (induction off m rule: getptr_seek.induct)
  case (2 off d m)
  show ?case
  proof (cases "off > 0 \<and> \<not> off < int (length d)")
    case True
    with 2 have "getptr_seek (off - int (length d)) m = (off', m')" "off - int (length d) \<ge> 0" by auto
    from 2(1) [OF True this(2,1)] True show ?thesis
      by (auto simp: nat_diff_distrib)
  next
    case False
    with 2 show ?thesis by auto
  qed
qed auto

lemma getptr_copy_eq:
  assumes "0 \<le> off" "off = 0 \<or> m \<noteq> [] \<and> off \<le> int (length (hd m))" "0 \<le> len"
  shows "getptr_copy off len ptr m =
    (max 0 (len - (int (length (concat m)) - off)), ptr @ take (nat len) (drop (nat off) (concat m)))"
  using assms
proof (induction off len ptr m rule: getptr_copy.induct)
  case (2 off len ptr d m)
  show ?case
  proof (cases "len > 0")
    case True
    define count where "count = min (int (length d) - off) len"
    have c: "0 \<le> len - count" "0 \<le> count" using 2 True by (auto simp: count_def)
    from 2(1) [OF True count_def] c have
      "getptr_copy off len ptr (d # m) = (max 0 (len - count - int (length (concat m))),
         (ptr @ take (nat count) (drop (nat off) d)) @ take (nat (len - count)) (concat m))"
      using True by (simp add: count_def Let_def)
    moreover have "take (nat count) (drop (nat off) d) @ take (nat (len - count)) (concat m) =
      take (nat len) (drop (nat off) (concat (d # m)))"
    proof (cases "int (length d) - off \<le> len")
      case le: True
      then have "nat count = length d - nat off" "nat (len - count) = nat len - (length d - nat off)"
        "length d - nat off \<le> nat len" "nat off - length d = 0"
        using 2(2,3) by (auto simp: count_def)
      then show ?thesis using 2(2,3) by (auto simp: drop_append)
    next
      case False
      then have "nat count = nat len" "nat (len - count) = 0" "nat len - (length d - nat off) = 0"
        using 2(2,3) by (auto simp: count_def)
      then show ?thesis using 2(2,3) by auto
    qed
    moreover have "max 0 (len - count - int (length (concat m))) =
      max 0 (len - (int (length (concat (d # m))) - off))"
      by (auto simp: count_def max_def min_def)
    ultimately show ?thesis by simp
  next
    case False
    with 2 show ?thesis by (auto simp: max_def)
  qed
qed (auto simp: max_def)

lemma m_getptr_eq:
  "sctp_m_getptr m off len =
     (if 0 \<le> off \<and> 0 < len \<and> off + len \<le> int (length (concat m))
      then Some (take (nat len) (drop (nat off) (concat m))) else None)"
proof (cases "0 \<le> off \<and> 0 < len")
  case True
  obtain off' m' where s: "getptr_seek off m = (off', m')" by fastforce
  note e = getptr_seek_eq [OF _ s]
  show ?thesis
  proof (cases m')
    case Nil
    with True s e show ?thesis by (auto simp: sctp_m_getptr_def)
  next
    case (Cons d r)
    have f: "0 \<le> off'" "drop (nat off') (concat (d # r)) = drop (nat off) (concat m)"
      "off' = 0 \<or> off' < int (length d)"
      "int (length (concat (d # r))) - off' = int (length (concat m)) - off" "0 \<le> len"
      using e True Cons by auto
    have cp: "getptr_copy off' len [] (d # r) = (max 0 (len - (int (length (concat m)) - off)),
        take (nat len) (drop (nat off) (concat m)))"
    proof -
      have "getptr_copy off' len [] (d # r) = (max 0 (len - (int (length (concat (d # r))) - off')),
          [] @ take (nat len) (drop (nat off') (concat (d # r))))"
        by (rule getptr_copy_eq) (use f in auto)
      then show ?thesis unfolding f(2,4) by simp
    qed
    show ?thesis
    proof (cases "int (length d) - off' \<ge> len")
      case fits: True
      then have "nat len \<le> length d - nat off'" using True f(1) by linarith
      then have "take (nat len) (drop (nat off') d) = take (nat len) (drop (nat off) (concat m))"
        by (simp flip: f(2))
      moreover have "off + len \<le> int (length (concat m))" using fits f(4) by simp
      ultimately show ?thesis using True s Cons fits by (simp add: sctp_m_getptr_def)
    next
      case False
      then show ?thesis using True s Cons cp by (auto simp: sctp_m_getptr_def max_def simp del: getptr_copy.simps)
    qed
  qed
qed (auto simp: sctp_m_getptr_def)

lemma chain_seek_eq:
  assumes "length (concat m) < 2 ^ 32"
  shows "\<exists>k. m = take k m @ snd (chain_seek off m) \<and>
    unat off = length (concat (take k m)) + unat (fst (chain_seek off m)) \<and>
    (snd (chain_seek off m) \<noteq> [] \<longrightarrow> unat (fst (chain_seek off m)) < length (hd (snd (chain_seek off m))))"
  using assms
proof (induction off m rule: chain_seek.induct)
  case (2 off d m)
  have d: "unat (word_of_nat (length d) :: u32) = length d"
    using 2(2) by (simp add: unat_of_nat take_bit_nat_eq_self)
  show ?case
  proof (cases "off \<ge> word_of_nat (length d)")
    case True
    have "length (concat m) < 2 ^ 32" using 2(2) by simp
    from 2(1) [OF True this] obtain k where k:
      "m = take k m @ snd (chain_seek (off - word_of_nat (length d)) m)"
      "unat (off - word_of_nat (length d)) =
         length (concat (take k m)) + unat (fst (chain_seek (off - word_of_nat (length d)) m))"
      "snd (chain_seek (off - word_of_nat (length d)) m) \<noteq> [] \<longrightarrow>
        unat (fst (chain_seek (off - word_of_nat (length d)) m)) <
          length (hd (snd (chain_seek (off - word_of_nat (length d)) m)))" by blast
    have "unat off = unat (off - word_of_nat (length d)) + length d"
      using True d by (simp add: unat_sub word_le_nat_alt)
    with k True show ?thesis by (intro exI [of _ "Suc k"]) auto
  next
    case False
    with d show ?thesis by (intro exI [of _ 0]) (simp add: word_le_nat_alt)
  qed
qed (auto intro: exI [of _ 0])

text \<open>
  the routine with which the stack reads headers and parameters out of a packet returns, for
  every chain and every offset and length, the bytes at that offset of the concatenated data of
  the chain, and NULL exactly when the offset is negative, the length is not positive or the piece
  is not wholly inside the chain; how the data is cut into mbufs does not matter.
\<close>

theorem sctp_m_getptr_correct:
  "sctp_m_getptr m off len =
     (if 0 \<le> off \<and> 0 < len \<and> off + len \<le> int (length (concat m))
      then Some (take (nat len) (drop (nat off) (concat m))) else None)"
  by (rule m_getptr_eq)

end
