(* ===== verification/Auth_Hmac.thy ===== *)
theory Auth_Hmac
  imports Auth_Keys Mbuf_Access Sha1_Final
begin

text \<open>
  The HMAC part of netinet/sctp_auth.c: the list of HMAC identifiers and their negotiation, and the
  keyed hash itself over a buffer, over an mbuf chain and with a key block that is replaced by its
  hash when it is too long. SHA-1 is the only algorithm of the build (the code for SHA-256 is behind
  \<^verbatim>\<open>SCTP_SUPPORT_HMAC_SHA256\<close>, which is not set).

  The routines use uninitialised stack memory: a hash context \<open>ctx\<close> and a digest buffer \<open>temp\<close> of
  32 bytes are arguments. A routine whose memory accesses leave a buffer returns \<open>None\<close>.
\<close>

section \<open>Lists of HMAC identifiers\<close>

definition SCTP_AUTH_HMAC_ID_RSVD :: u16 where "SCTP_AUTH_HMAC_ID_RSVD = 0x0000"
definition SCTP_AUTH_HMAC_ID_SHA1 :: u16 where "SCTP_AUTH_HMAC_ID_SHA1 = 0x0001"

record sctp_hmaclist =
  max_algo :: u16
  num_algo :: u16
  hmac :: "u16 list"

text \<open>A fresh block read as 16-bit numbers.\<close>

fun load_u16s :: "bytes \<Rightarrow> u16 list" where
  "load_u16s (a # b # rest) = be16 b a # load_u16s rest"
| "load_u16s _ = []"

definition sctp_alloc_hmaclist :: "allocator \<Rightarrow> u16 \<Rightarrow> sctp_hmaclist option" where
  "sctp_alloc_hmaclist malloc num_hmacs =
     (case malloc (4 + unat num_hmacs * 2) of
        None \<Rightarrow> None
      | Some b \<Rightarrow> Some \<lparr>max_algo = num_hmacs, num_algo = 0, hmac = load_u16s (drop 4 b)\<rparr>)"

abbreviation used_hmacs :: "sctp_hmaclist \<Rightarrow> u16 list" where
  "used_hmacs l \<equiv> take (unat (num_algo l)) (hmac l)"

definition sctp_auth_add_hmacid :: "sctp_hmaclist option \<Rightarrow> u16 \<Rightarrow> int \<times> sctp_hmaclist option" where
  "sctp_auth_add_hmacid list hmac_id =
     (case list of
        None \<Rightarrow> (-1, None)
      | Some l \<Rightarrow>
          if num_algo l = max_algo l then (-1, Some l)
          else if hmac_id \<noteq> SCTP_AUTH_HMAC_ID_SHA1 then (-1, Some l)
          else if list_ex (\<lambda>h. h = hmac_id) (used_hmacs l) then (-1, Some l)
          else (0, Some (l\<lparr>hmac := (hmac l)[unat (num_algo l) := hmac_id], num_algo := num_algo l + 1\<rparr>)))"

definition sctp_copy_hmaclist :: "allocator \<Rightarrow> sctp_hmaclist option \<Rightarrow> sctp_hmaclist option" where
  "sctp_copy_hmaclist malloc list =
     (case list of
        None \<Rightarrow> None
      | Some l \<Rightarrow> (case sctp_alloc_hmaclist malloc (max_algo l) of
            None \<Rightarrow> None
          | Some n \<Rightarrow> Some \<lparr>max_algo = max_algo l, num_algo = num_algo l,
              hmac = used_hmacs l @ drop (unat (num_algo l)) (hmac n)\<rparr>))"

definition sctp_default_supported_hmaclist :: "allocator \<Rightarrow> sctp_hmaclist option" where
  "sctp_default_supported_hmaclist malloc =
     (case sctp_alloc_hmaclist malloc 1 of
        None \<Rightarrow> None
      | Some n \<Rightarrow> snd (sctp_auth_add_hmacid (Some n) SCTP_AUTH_HMAC_ID_SHA1))"

fun negotiate_loop :: "u16 list \<Rightarrow> u16 list \<Rightarrow> u16" where
  "negotiate_loop [] local = SCTP_AUTH_HMAC_ID_RSVD"
| "negotiate_loop (p # peer) local =
     (if list_ex (\<lambda>l. p = l) local then p else negotiate_loop peer local)"

definition sctp_negotiate_hmacid :: "sctp_hmaclist option \<Rightarrow> sctp_hmaclist option \<Rightarrow> u16" where
  "sctp_negotiate_hmacid peer local =
     (case (peer, local) of
        (Some p, Some l) \<Rightarrow> negotiate_loop (used_hmacs p) (used_hmacs l)
      | _ \<Rightarrow> SCTP_AUTH_HMAC_ID_RSVD)"

text \<open>\<^verbatim>\<open>sctp_serialize_hmaclist\<close>: the bytes written at \<^verbatim>\<open>ptr\<close> and the space used.\<close>

definition sctp_serialize_hmaclist :: "sctp_hmaclist option \<Rightarrow> bytes \<times> nat" where
  "sctp_serialize_hmaclist list =
     (case list of
        None \<Rightarrow> ([], 0)
      | Some l \<Rightarrow> (concat (map bytes_of_be16 (used_hmacs l)), unat (num_algo l) * 2))"

text \<open>Identifier \<open>i\<close> of an HMAC-ALGO parameter, which starts with a header of four bytes.\<close>

definition hmac_id_at :: "bytes \<Rightarrow> nat \<Rightarrow> u16" where
  "hmac_id_at hmacs i = be16 (hmacs ! (4 + 2 * i)) (hmacs ! (5 + 2 * i))"

definition sctp_verify_hmac_param :: "bytes \<Rightarrow> nat \<Rightarrow> int" where
  "sctp_verify_hmac_param hmacs num_hmacs =
     (if list_ex (\<lambda>i. hmac_id_at hmacs i = SCTP_AUTH_HMAC_ID_SHA1) [0..<num_hmacs] then 0 else -1)"

definition sctp_auth_is_supported_hmac :: "sctp_hmaclist option \<Rightarrow> u16 \<Rightarrow> bool" where
  "sctp_auth_is_supported_hmac list ident =
     (case list of
        None \<Rightarrow> False
      | Some l \<Rightarrow> ident \<noteq> SCTP_AUTH_HMAC_ID_RSVD \<and> list_ex (\<lambda>h. h = ident) (used_hmacs l))"

section \<open>Lengths and the hash of an identifier\<close>

definition SCTP_AUTH_DIGEST_LEN_SHA1 :: u32 where "SCTP_AUTH_DIGEST_LEN_SHA1 = 20"
definition SCTP_AUTH_DIGEST_LEN_MAX :: nat where "SCTP_AUTH_DIGEST_LEN_MAX = 32"

definition SCTP_SIZE32 :: "u32 \<Rightarrow> u32" where
  "SCTP_SIZE32 x = push_bit 2 (drop_bit 2 (x + 3))"

definition sctp_get_hmac_digest_len :: "u16 \<Rightarrow> u32" where
  "sctp_get_hmac_digest_len hmac_algo =
     (if hmac_algo = SCTP_AUTH_HMAC_ID_SHA1 then SCTP_AUTH_DIGEST_LEN_SHA1 else 0)"

definition sctp_get_auth_chunk_len :: "u16 \<Rightarrow> u32" where
  "sctp_get_auth_chunk_len hmac_algo = SCTP_SIZE32 (8 + sctp_get_hmac_digest_len hmac_algo)"

definition sctp_get_hmac_block_len :: "u16 \<Rightarrow> u32" where
  "sctp_get_hmac_block_len hmac_algo = (if hmac_algo = SCTP_AUTH_HMAC_ID_SHA1 then 64 else 0)"

definition sctp_hmac_init :: "u16 \<Rightarrow> sctp_sha1_context \<Rightarrow> sctp_sha1_context" where
  "sctp_hmac_init hmac_algo ctx =
     (if hmac_algo = SCTP_AUTH_HMAC_ID_SHA1 then sctp_sha1_init ctx else ctx)"

text \<open>\<open>text\<close> is the block the pointer points into, \<open>off\<close> the offset it points to.\<close>

definition sctp_hmac_update :: "u16 \<Rightarrow> sctp_sha1_context \<Rightarrow> bytes \<Rightarrow> nat \<Rightarrow> u32 \<Rightarrow> sctp_sha1_context option" where
  "sctp_hmac_update hmac_algo ctx text off textlen =
     (if hmac_algo = SCTP_AUTH_HMAC_ID_SHA1
      then do { p \<leftarrow> rd text off (unat textlen); Some (sctp_sha1_update ctx p) }
      else Some ctx)"

definition sctp_hmac_final :: "u16 \<Rightarrow> sctp_sha1_context \<Rightarrow> bytes \<Rightarrow> (bytes \<times> sctp_sha1_context) option" where
  "sctp_hmac_final hmac_algo ctx digest =
     (if hmac_algo = SCTP_AUTH_HMAC_ID_SHA1
      then case sctp_sha1_final ctx of (d, ctx') \<Rightarrow> do { b \<leftarrow> wr digest 0 d; Some (b, ctx') }
      else Some (digest, ctx))"

section \<open>The keyed hash\<close>

text \<open>Hashing a key that is longer than a block into \<open>temp\<close>.\<close>

definition hash_long_key :: "u16 \<Rightarrow> sctp_sha1_context \<Rightarrow> bytes \<Rightarrow> bytes \<Rightarrow> u32 \<Rightarrow>
    (bytes \<times> sctp_sha1_context) option" where
  "hash_long_key hmac_algo ctx temp kp klen =
     do { ctx \<leftarrow> sctp_hmac_update hmac_algo (sctp_hmac_init hmac_algo ctx) kp 0 klen;
          sctp_hmac_final hmac_algo ctx temp }"

text \<open>One of the pads: the key, filled up with zeros, combined with a constant.\<close>

definition hmac_pad :: "u32 \<Rightarrow> bytes \<Rightarrow> u32 \<Rightarrow> u8 \<Rightarrow> bytes option" where
  "hmac_pad blocklen kp klen c =
     do { k \<leftarrow> rd kp 0 (unat klen);
          p \<leftarrow> wr (replicate (unat blocklen) 0) 0 k;
          Some (map (\<lambda>b. b XOR c) p) }"

text \<open>The outer hash over the digest of the inner one.\<close>

definition hmac_outer :: "u16 \<Rightarrow> sctp_sha1_context \<Rightarrow> bytes \<Rightarrow> u32 \<Rightarrow> bytes \<Rightarrow> u32 \<Rightarrow> bytes \<Rightarrow> bytes option" where
  "hmac_outer hmac_algo ctx opad blocklen temp digestlen digest =
     do { ctx \<leftarrow> sctp_hmac_update hmac_algo (sctp_hmac_init hmac_algo ctx) opad 0 blocklen;
          ctx \<leftarrow> sctp_hmac_update hmac_algo ctx temp 0 digestlen;
          r \<leftarrow> sctp_hmac_final hmac_algo ctx digest;
          Some (fst r) }"

text \<open>
  What \<^verbatim>\<open>sctp_hmac\<close> and \<^verbatim>\<open>sctp_hmac_m\<close> share; \<open>feed\<close> hands the text to the inner hash.
\<close>

definition hmac_with :: "(sctp_sha1_context \<Rightarrow> sctp_sha1_context option) \<Rightarrow> u16 \<Rightarrow> sctp_sha1_context \<Rightarrow>
    bytes \<Rightarrow> bytes \<Rightarrow> u32 \<Rightarrow> bytes \<Rightarrow> u32 \<Rightarrow> bytes option" where
  "hmac_with feed hmac_algo ctx temp kp klen digest digestlen =
     (let blocklen = sctp_get_hmac_block_len hmac_algo
      in do { (kp, klen, temp, ctx) \<leftarrow>
                (if klen > blocklen
                 then do { r \<leftarrow> hash_long_key hmac_algo ctx temp kp klen;
                           Some (fst r, digestlen, fst r, snd r) }
                 else Some (kp, klen, temp, ctx));
              ipad \<leftarrow> hmac_pad blocklen kp klen 0x36;
              opad \<leftarrow> hmac_pad blocklen kp klen 0x5c;
              ctx \<leftarrow> sctp_hmac_update hmac_algo (sctp_hmac_init hmac_algo ctx) ipad 0 blocklen;
              ctx \<leftarrow> feed ctx;
              r \<leftarrow> sctp_hmac_final hmac_algo ctx temp;
              hmac_outer hmac_algo (snd r) opad blocklen (fst r) digestlen digest })"

text \<open>The result is the return value and the digest buffer afterwards.\<close>

definition sctp_hmac :: "sctp_sha1_context \<Rightarrow> bytes \<Rightarrow> u16 \<Rightarrow> bytes option \<Rightarrow> u32 \<Rightarrow> bytes option \<Rightarrow> u32 \<Rightarrow>
    bytes option \<Rightarrow> (u32 \<times> bytes option) option" where
  "sctp_hmac ctx temp hmac_algo kp klen text textlen digest =
     (if kp = None \<or> klen = 0 \<or> text = None \<or> textlen = 0 \<or> digest = None
      then Some (0, digest)
      else let digestlen = sctp_get_hmac_digest_len hmac_algo
           in if digestlen = 0 then Some (0, digest)
              else do { d \<leftarrow> hmac_with (\<lambda>ctx. sctp_hmac_update hmac_algo ctx (the text) 0 textlen)
                               hmac_algo ctx temp (the kp) klen (the digest) digestlen;
                        Some (digestlen, Some d) })"

text \<open>The loop over the chain; the trailer is left out at the end of the last mbuf.\<close>

fun hmac_m_loop :: "u16 \<Rightarrow> u32 \<Rightarrow> u32 \<Rightarrow> mchain \<Rightarrow> sctp_sha1_context \<Rightarrow> sctp_sha1_context option" where
  "hmac_m_loop hmac_algo trailer m_offset [] ctx = Some ctx"
| "hmac_m_loop hmac_algo trailer m_offset (d # m) ctx =
     do { ctx \<leftarrow> (if m = [] \<and> trailer \<noteq> 0
                  then sctp_hmac_update hmac_algo ctx d (unat m_offset)
                         (word_of_nat (length d) - (trailer + m_offset))
                  else sctp_hmac_update hmac_algo ctx d (unat m_offset)
                         (word_of_nat (length d) - m_offset));
          hmac_m_loop hmac_algo trailer 0 m ctx }"

definition sctp_hmac_m :: "sctp_sha1_context \<Rightarrow> bytes \<Rightarrow> u16 \<Rightarrow> bytes option \<Rightarrow> u32 \<Rightarrow> mchain \<Rightarrow> u32 \<Rightarrow>
    bytes option \<Rightarrow> u32 \<Rightarrow> (u32 \<times> bytes option) option" where
  "sctp_hmac_m ctx temp hmac_algo kp klen m m_offset digest trailer =
     (if kp = None \<or> klen = 0 \<or> m = [] \<or> digest = None then Some (0, digest)
      else let digestlen = sctp_get_hmac_digest_len hmac_algo
           in if digestlen = 0 then Some (0, digest)
              else do { d \<leftarrow> hmac_with (\<lambda>ctx. case chain_seek m_offset m of
                                  (m_offset, m) \<Rightarrow> hmac_m_loop hmac_algo trailer m_offset m ctx)
                               hmac_algo ctx temp (the kp) klen (the digest) digestlen;
                        Some (digestlen, Some d) })"

text \<open>\<^verbatim>\<open>sctp_verify_hmac\<close> has a digest buffer of its own, \<open>temp2\<close>.\<close>

definition sctp_verify_hmac :: "sctp_sha1_context \<Rightarrow> bytes \<Rightarrow> bytes \<Rightarrow> u16 \<Rightarrow> bytes option \<Rightarrow> u32 \<Rightarrow>
    bytes option \<Rightarrow> u32 \<Rightarrow> bytes option \<Rightarrow> u32 \<Rightarrow> int option" where
  "sctp_verify_hmac ctx temp temp2 hmac_algo kp klen text textlen digest digestlen =
     (if kp = None \<or> klen = 0 \<or> text = None \<or> textlen = 0 \<or> digest = None then Some (-1)
      else let len = sctp_get_hmac_digest_len hmac_algo
           in if len = 0 \<or> digestlen \<noteq> len then Some (-1)
              else do { r \<leftarrow> sctp_hmac ctx temp hmac_algo kp klen text textlen (Some temp2);
                        if fst r \<noteq> len then Some (-1)
                        else do { a \<leftarrow> rd (the digest) 0 (unat digestlen);
                                  b \<leftarrow> rd (the (snd r)) 0 (unat digestlen);
                                  Some (if a \<noteq> b then -1 else 0) } })"

text \<open>
  Replacing a key block by its hash, as \<^verbatim>\<open>sctp_compute_hmac\<close> and \<^verbatim>\<open>sctp_compute_hmac_m\<close> do. The
  block keeps its size, \<^verbatim>\<open>keylen\<close> tells how much of it is the key.
\<close>

definition shorten_key :: "sctp_sha1_context \<Rightarrow> bytes \<Rightarrow> u16 \<Rightarrow> sctp_key \<Rightarrow> u32 \<Rightarrow>
    (sctp_key \<times> sctp_sha1_context) option" where
  "shorten_key ctx temp hmac_algo k digestlen =
     (if keylen k > sctp_get_hmac_block_len hmac_algo
      then do { r \<leftarrow> hash_long_key hmac_algo ctx temp (key k) (keylen k);
                d \<leftarrow> rd (fst r) 0 (unat digestlen);
                b \<leftarrow> wr (key k) 0 d;
                Some (k\<lparr>keylen := digestlen, key := b\<rparr>, snd r) }
      else Some (k, ctx))"

text \<open>The results are the return value, the digest buffer and the key afterwards.\<close>

definition sctp_compute_hmac :: "sctp_sha1_context \<Rightarrow> bytes \<Rightarrow> u16 \<Rightarrow> sctp_key option \<Rightarrow> bytes option \<Rightarrow> u32 \<Rightarrow>
    bytes option \<Rightarrow> (u32 \<times> bytes option \<times> sctp_key option) option" where
  "sctp_compute_hmac ctx temp hmac_algo k text textlen digest =
     (if k = None \<or> text = None \<or> textlen = 0 \<or> digest = None then Some (0, digest, k)
      else let digestlen = sctp_get_hmac_digest_len hmac_algo
           in if digestlen = 0 then Some (0, digest, k)
              else do { (k', ctx) \<leftarrow> shorten_key ctx temp hmac_algo (the k) digestlen;
                        (n, d) \<leftarrow> sctp_hmac ctx temp hmac_algo (Some (key k')) (keylen k') text textlen digest;
                        Some (n, d, Some k') })"

definition sctp_compute_hmac_m :: "sctp_sha1_context \<Rightarrow> bytes \<Rightarrow> u16 \<Rightarrow> sctp_key option \<Rightarrow> mchain \<Rightarrow> u32 \<Rightarrow>
    bytes option \<Rightarrow> (u32 \<times> bytes option \<times> sctp_key option) option" where
  "sctp_compute_hmac_m ctx temp hmac_algo k m m_offset digest =
     (if k = None \<or> m = [] \<or> digest = None then Some (0, digest, k)
      else let digestlen = sctp_get_hmac_digest_len hmac_algo
           in if digestlen = 0 then Some (0, digest, k)
              else do { (k', ctx) \<leftarrow> shorten_key ctx temp hmac_algo (the k) digestlen;
                        (n, d) \<leftarrow> sctp_hmac_m ctx temp hmac_algo (Some (key k')) (keylen k') m m_offset digest 0;
                        Some (n, d, Some k') })"

end
