(* ===== verification/Auth_Hmac_Correct.thy ===== *)
theory Auth_Hmac_Correct
  imports Auth_Hmac
begin

text \<open>
  The keyed hash of the code is the HMAC of RFC 2104 over SHA-1, whether the text is a buffer or an
  mbuf chain and whether the key was replaced by its hash before; the list of HMAC identifiers is a
  bounded set of supported identifiers and the negotiation picks the peer's first choice among the
  local ones.
\<close>

section \<open>HMAC-SHA1\<close>

definition hmac_sha1 :: "bytes \<Rightarrow> bytes \<Rightarrow> bytes" where
  "hmac_sha1 k text =
     (let k0 = (if length k > 64 then sha1 k else k);
          k1 = k0 @ replicate (64 - length k0) 0
      in sha1 (map (\<lambda>b. b XOR 0x5c) k1 @ sha1 (map (\<lambda>b. b XOR 0x36) k1 @ text)))"

lemma length_hmac_sha1 [simp]: "length (hmac_sha1 k text) = 20"
  by (simp add: hmac_sha1_def Let_def sha1h.hash_len)

lemma hmac_sha1_long_key: "length k > 64 \<Longrightarrow> hmac_sha1 (sha1 k) text = hmac_sha1 k text"
  by (simp add: hmac_sha1_def Let_def sha1h.hash_len)

lemmas hmac_consts = SCTP_AUTH_HMAC_ID_SHA1_def SCTP_AUTH_HMAC_ID_RSVD_def SCTP_AUTH_DIGEST_LEN_SHA1_def
  sctp_get_hmac_digest_len_def sctp_get_hmac_block_len_def

lemma hmac_update_sha1:
  "off + unat n \<le> length t \<Longrightarrow>
     sctp_hmac_update SCTP_AUTH_HMAC_ID_SHA1 c t off n = Some (sctp_sha1_update c (take (unat n) (drop off t)))"
  by (simp add: sctp_hmac_update_def rd_def)

lemma length_sha1_final [simp]: "length (fst (sctp_sha1_final c)) = 20"
  by (simp add: sctp_sha1_final_def Let_def sha1_digest_def)

lemma hmac_final_sha1:
  "20 \<le> length b \<Longrightarrow> sctp_hmac_final SCTP_AUTH_HMAC_ID_SHA1 c b =
     Some (fst (sctp_sha1_final c) @ drop 20 b, snd (sctp_sha1_final c))"
  using length_sha1_final [of c]
  by (auto simp: sctp_hmac_final_def wr_def simp del: length_sha1_final split: prod.split)

abbreviation ctx_ok :: "sctp_sha1_context \<Rightarrow> bool" where
  "ctx_ok c \<equiv> length (sha_block c) = 64"

lemma hash_long_key_sha1:
  assumes "ctx_ok ctx" "20 \<le> length temp" "unat klen \<le> length kp" "unat klen < 2 ^ 29"
  shows "\<exists>ctx'. ctx_ok ctx' \<and> hash_long_key SCTP_AUTH_HMAC_ID_SHA1 ctx temp kp klen =
    Some (sha1 (take (unat klen) kp) @ drop 20 temp, ctx')"
proof -
  let ?c = "sctp_sha1_update (sctp_sha1_init ctx) (take (unat klen) kp)"
  have "fst (sctp_sha1_final ?c) = sha1 (take (unat klen) kp)"
    using sha1h.digest_of_pieces [OF assms(1), of "[take (unat klen) kp]"] assms(3,4) by simp
  moreover have "ctx_ok (snd (sctp_sha1_final ?c))"
    using sha1h.run_ok [OF assms(1), of "[take (unat klen) kp]"] by simp
  ultimately show ?thesis
    using assms by (auto simp: hash_long_key_def hmac_update_sha1 hmac_final_sha1 sctp_hmac_init_def)
qed

lemma hmac_pad_sha1:
  assumes "unat klen \<le> length kp" "unat klen \<le> 64"
  shows "hmac_pad 64 kp klen c =
    Some (map (\<lambda>b. b XOR c) (take (unat klen) kp @ replicate (64 - unat klen) 0))"
  using assms by (simp add: hmac_pad_def rd_def wr_def)

text \<open>The part after the key has been brought to at most a block.\<close>

lemma hmac_short_key:
  assumes "ctx_ok ctx" "20 \<le> length temp" "20 \<le> length digest"
    and k: "unat klen \<le> length kp" "unat klen \<le> 64"
    and feed: "\<And>c. feed c = Some (foldl sctp_sha1_update c ps)"
    and len: "length (concat ps) < 2 ^ 29 - 64"
  shows "hmac_with feed SCTP_AUTH_HMAC_ID_SHA1 ctx temp kp klen digest 20 =
    Some (hmac_sha1 (take (unat klen) kp) (concat ps) @ drop 20 digest)"
proof -
  let ?pad = "take (unat klen) kp @ replicate (64 - unat klen) 0"
  let ?i = "map (\<lambda>b. b XOR 0x36) ?pad" and ?o = "map (\<lambda>b. b XOR 0x5c) ?pad"
  have ps: "length (concat (?i # ps)) < 2 ^ 29" using len k by simp
  let ?c1 = "foldl sctp_sha1_update (sctp_sha1_init ctx) (?i # ps)"
  let ?inner = "fst (sctp_sha1_final ?c1)"
  let ?c2 = "snd (sctp_sha1_final ?c1)"
  have ok2: "ctx_ok ?c2" by (rule sha1h.run_ok [OF assms(1)])
  have pad: "length ?pad = 64" using k by simp
  have lim: "length ?pad + length (concat ps) < 2 ^ 29" using pad len by linarith
  have out: "fst (sctp_sha1_final (foldl sctp_sha1_update (sctp_sha1_init ?c2) [?o, ?inner])) =
    hmac_sha1 (take (unat klen) kp) (concat ps)"
    using sha1h.hmac_runs [OF assms(1) ok2 pad lim refl] k by (simp add: hmac_sha1_def Let_def)
  have nl: "\<not> klen > 64" using k(2) by (simp add: word_less_nat_alt)
  have "take 64 ?i = ?i" "take 64 ?o = ?o" using k by simp_all
  then have "hmac_with feed SCTP_AUTH_HMAC_ID_SHA1 ctx temp kp klen digest 20 =
    Some (fst (sctp_sha1_final (foldl sctp_sha1_update (sctp_sha1_init ?c2) [?o, ?inner])) @ drop 20 digest)"
    using assms(2,3) k nl
    by (simp add: hmac_with_def sctp_get_hmac_block_len_def hmac_pad_sha1 sctp_hmac_init_def feed
        hmac_update_sha1 hmac_final_sha1 hmac_outer_def del: map_append)
  then show ?thesis unfolding out .
qed

lemma hmac_with_sha1:
  assumes "ctx_ok ctx" "20 \<le> length temp" "20 \<le> length digest"
    and k: "unat klen \<le> length kp" "unat klen < 2 ^ 29"
    and feed: "\<And>c. feed c = Some (foldl sctp_sha1_update c ps)"
    and len: "length (concat ps) < 2 ^ 29 - 64"
  shows "hmac_with feed SCTP_AUTH_HMAC_ID_SHA1 ctx temp kp klen digest 20 =
    Some (hmac_sha1 (take (unat klen) kp) (concat ps) @ drop 20 digest)"
proof (cases "klen > 64")
  case True
  let ?h = "sha1 (take (unat klen) kp)"
  obtain ctx' where c: "ctx_ok ctx'"
    "hash_long_key SCTP_AUTH_HMAC_ID_SHA1 ctx temp kp klen = Some (?h @ drop 20 temp, ctx')"
    using hash_long_key_sha1 [OF assms(1,2) k] by blast
  have "hmac_with feed SCTP_AUTH_HMAC_ID_SHA1 ctx temp kp klen digest 20 =
    hmac_with feed SCTP_AUTH_HMAC_ID_SHA1 ctx' (?h @ drop 20 temp) (?h @ drop 20 temp) 20 digest 20"
    using True c by (simp add: hmac_with_def sctp_get_hmac_block_len_def)
  also have "\<dots> = Some (hmac_sha1 (take (unat (20 :: u32)) (?h @ drop 20 temp)) (concat ps) @ drop 20 digest)"
    by (rule hmac_short_key [OF c(1) _ assms(3) _ _ feed len]) (simp_all add: assms(2) sha1h.hash_len)
  also have "take (unat (20 :: u32)) (?h @ drop 20 temp) = ?h" by (simp add: sha1h.hash_len)
  also have "hmac_sha1 ?h (concat ps) = hmac_sha1 (take (unat klen) kp) (concat ps)"
    using True k by (intro hmac_sha1_long_key) (simp add: word_less_nat_alt)
  finally show ?thesis .
next
  case False
  then have "unat klen \<le> 64" by (simp add: word_less_nat_alt)
  from hmac_short_key [OF assms(1-3) k(1) this feed len] show ?thesis .
qed

section \<open>Over a buffer and over a chain\<close>

lemma sctp_hmac_eq:
  assumes "ctx_ok ctx" "length temp = 32" "20 \<le> length digest"
    and "klen \<noteq> 0" "unat klen \<le> length kp" "unat klen < 2 ^ 29"
    and "textlen \<noteq> 0" "unat textlen \<le> length text" "unat textlen < 2 ^ 29 - 64"
  shows "sctp_hmac ctx temp SCTP_AUTH_HMAC_ID_SHA1 (Some kp) klen (Some text) textlen (Some digest) =
    Some (20, Some (hmac_sha1 (take (unat klen) kp) (take (unat textlen) text) @ drop 20 digest))"
proof -
  have "hmac_with (\<lambda>ctx. sctp_hmac_update SCTP_AUTH_HMAC_ID_SHA1 ctx text 0 textlen)
      SCTP_AUTH_HMAC_ID_SHA1 ctx temp kp klen digest 20 =
    Some (hmac_sha1 (take (unat klen) kp) (concat [take (unat textlen) text]) @ drop 20 digest)"
    by (rule hmac_with_sha1) (use assms in \<open>simp_all add: hmac_update_sha1\<close>)
  then show ?thesis using assms by (simp add: sctp_hmac_def Let_def hmac_consts)
qed

lemma unat_len: "n < 2 ^ 32 \<Longrightarrow> unat (word_of_nat n :: u32) = n"
  by (simp add: unat_of_nat take_bit_nat_eq_self)

lemma unat_len_minus:
  assumes "n < 2 ^ 32" "unat (a :: u32) \<le> n"
  shows "unat (word_of_nat n - a) = n - unat a"
  using assms by (simp add: unat_sub word_le_nat_alt unat_len)

lemma unat_len_minus2:
  assumes "n < 2 ^ 32" "unat (a :: u32) + unat (b :: u32) \<le> n"
  shows "unat (word_of_nat n - (a + b)) = n - unat a - unat b"
proof -
  have "unat (a + b) = unat a + unat b"
    using assms by (simp add: unat_word_ariths)
  then show ?thesis using unat_len_minus [of n "a + b"] assms by simp
qed

lemma hmac_m_loop_eq:
  assumes "length (concat m) < 2 ^ 32"
    and "m \<noteq> [] \<Longrightarrow> unat off \<le> length (hd m) \<and> unat trailer \<le> length (last m)"
    and "tl m = [] \<Longrightarrow> m \<noteq> [] \<Longrightarrow> unat off + unat trailer \<le> length (hd m)"
  shows "\<exists>ps. (\<forall>c. hmac_m_loop SCTP_AUTH_HMAC_ID_SHA1 trailer off m c = Some (foldl sctp_sha1_update c ps)) \<and>
    concat ps = take (length (concat m) - unat off - unat trailer) (drop (unat off) (concat m))"
  using assms
proof (induction m arbitrary: off)
  case Nil
  show ?case by (rule exI [of _ "[]"]) simp
next
  case (Cons d m)
  have d: "length d < 2 ^ 32" using Cons.prems(1) by simp
  show ?case
  proof (cases "m = []")
    case True
    have le: "unat trailer + unat off \<le> length d" using Cons.prems(3) True by simp
    have "hmac_m_loop SCTP_AUTH_HMAC_ID_SHA1 trailer off (d # m) c =
        Some (foldl sctp_sha1_update c [take (length d - unat off - unat trailer) (drop (unat off) d)])" for c
    proof (cases "trailer = 0")
      case True
      then show ?thesis using \<open>m = []\<close> le d
        by (simp add: hmac_update_sha1 unat_len_minus)
    next
      case False
      then show ?thesis using \<open>m = []\<close> le unat_len_minus2 [OF d le]
        by (simp add: hmac_update_sha1 add.commute)
    qed
    with True show ?thesis by fastforce
  next
    case False
    have "length (concat m) < 2 ^ 32" using Cons.prems(1) by simp
    moreover have "unat (0 :: u32) \<le> length (hd m) \<and> unat trailer \<le> length (last m)"
      using Cons.prems(2) False by simp
    moreover have "unat (0 :: u32) + unat trailer \<le> length (hd m)" if "tl m = []"
      using Cons.prems(2) False that by (cases m) auto
    ultimately obtain ps where
      ps: "\<And>c. hmac_m_loop SCTP_AUTH_HMAC_ID_SHA1 trailer 0 m c = Some (foldl sctp_sha1_update c ps)"
        "concat ps = take (length (concat m) - unat trailer) (concat m)"
      using Cons.IH [of 0] by auto
    have o: "unat off \<le> length d" using Cons.prems(2) by simp
    have t: "unat trailer \<le> length (concat m)"
      using Cons.prems(2) False member_le_sum_list [of "length (last m)" "map length m"]
      by (simp add: length_concat)
    have "hmac_m_loop SCTP_AUTH_HMAC_ID_SHA1 trailer off (d # m) c =
        Some (foldl sctp_sha1_update c (drop (unat off) d # ps))" for c
      using False o d by (simp add: hmac_update_sha1 unat_len_minus ps)
    moreover have "concat (drop (unat off) d # ps) =
        take (length (concat (d # m)) - unat off - unat trailer) (drop (unat off) (concat (d # m)))"
      using o t by (simp add: ps(2) algebra_simps)
    ultimately show ?thesis by blast
  qed
qed

text \<open>The part of a chain from an offset on, without a trailer.\<close>

definition chain_text :: "mchain \<Rightarrow> u32 \<Rightarrow> u32 \<Rightarrow> bytes" where
  "chain_text m m_offset trailer =
     take (length (concat m) - unat m_offset - unat trailer) (drop (unat m_offset) (concat m))"

lemma chain_feed:
  assumes "length (concat m) < 2 ^ 32" "m \<noteq> []" "unat trailer \<le> length (last m)"
    and "unat m_offset + unat trailer \<le> length (concat m)"
  shows "\<exists>ps. (\<forall>c. (case chain_seek m_offset m of
        (m_offset, m) \<Rightarrow> hmac_m_loop SCTP_AUTH_HMAC_ID_SHA1 trailer m_offset m c) =
        Some (foldl sctp_sha1_update c ps)) \<and>
    concat ps = chain_text m m_offset trailer"
proof -
  obtain off' m' where s: "chain_seek m_offset m = (off', m')" by fastforce
  from chain_seek_eq [OF assms(1), of m_offset] s obtain k where
    k: "m = take k m @ m'" "unat m_offset = length (concat (take k m)) + unat off'"
      "m' \<noteq> [] \<Longrightarrow> unat off' < length (hd m')" by auto
  have cm: "concat m = concat (take k m) @ concat m'" by (metis concat_append k(1))
  then have len: "length (concat m) = length (concat (take k m)) + length (concat m')"
    by (metis length_append)
  have last: "m' \<noteq> [] \<Longrightarrow> last m' = last m" by (metis k(1) last_appendR)
  have "length (concat m') < 2 ^ 32" using assms(1) len by linarith
  moreover have "unat off' \<le> length (hd m') \<and> unat trailer \<le> length (last m')" if "m' \<noteq> []"
    using k(3) [OF that] assms(3) last [OF that] by simp
  moreover have "unat off' + unat trailer \<le> length (hd m')" if "tl m' = []" "m' \<noteq> []"
    using that assms(4) k(2) len by (cases m') auto
  ultimately obtain ps where
    ps: "\<And>c. hmac_m_loop SCTP_AUTH_HMAC_ID_SHA1 trailer off' m' c = Some (foldl sctp_sha1_update c ps)"
      "concat ps = take (length (concat m') - unat off' - unat trailer) (drop (unat off') (concat m'))"
    using hmac_m_loop_eq [of m' off' trailer] by blast
  have "drop (unat m_offset) (concat m) = drop (unat off') (concat m')"
    unfolding cm k(2) by simp
  moreover have "length (concat m) - unat m_offset = length (concat m') - unat off'"
    using len k(2) by simp
  ultimately have "concat ps = chain_text m m_offset trailer"
    by (simp add: ps(2) chain_text_def)
  then show ?thesis using ps(1) s by auto
qed

lemma sctp_hmac_m_eq:
  assumes "ctx_ok ctx" "length temp = 32" "20 \<le> length digest"
    and "klen \<noteq> 0" "unat klen \<le> length kp" "unat klen < 2 ^ 29"
    and m: "m \<noteq> []" "length (concat m) < 2 ^ 29 - 64" "unat trailer \<le> length (last m)"
      "unat m_offset + unat trailer \<le> length (concat m)"
  shows "sctp_hmac_m ctx temp SCTP_AUTH_HMAC_ID_SHA1 (Some kp) klen m m_offset (Some digest) trailer =
    Some (20, Some (hmac_sha1 (take (unat klen) kp) (chain_text m m_offset trailer) @ drop 20 digest))"
proof -
  have "length (concat m) < 2 ^ 32" using m(2) by simp
  from chain_feed [OF this m(1,3,4)] obtain ps where
    ps: "\<And>c. (case chain_seek m_offset m of
        (m_offset, m) \<Rightarrow> hmac_m_loop SCTP_AUTH_HMAC_ID_SHA1 trailer m_offset m c) =
        Some (foldl sctp_sha1_update c ps)" "concat ps = chain_text m m_offset trailer" by blast
  have "length (concat ps) < 2 ^ 29 - 64" using m(2) unfolding ps(2) chain_text_def by auto
  then have "hmac_with (\<lambda>ctx. case chain_seek m_offset m of
        (m_offset, m) \<Rightarrow> hmac_m_loop SCTP_AUTH_HMAC_ID_SHA1 trailer m_offset m ctx)
      SCTP_AUTH_HMAC_ID_SHA1 ctx temp kp klen digest 20 =
    Some (hmac_sha1 (take (unat klen) kp) (concat ps) @ drop 20 digest)"
    by (intro hmac_with_sha1 ps(1)) (use assms in simp_all)
  then show ?thesis using assms by (simp add: sctp_hmac_m_def Let_def hmac_consts ps(2))
qed

section \<open>The key block\<close>

text \<open>The key a block stands for.\<close>

definition key_text :: "sctp_key \<Rightarrow> bytes" where
  "key_text k = take (unat (keylen k)) (key k)"

definition key_fits :: "sctp_key \<Rightarrow> bool" where
  "key_fits k \<longleftrightarrow> keylen k \<noteq> 0 \<and> unat (keylen k) \<le> length (key k) \<and> unat (keylen k) < 2 ^ 29"

definition short_form :: "sctp_key \<Rightarrow> sctp_key" where
  "short_form k =
     (if unat (keylen k) > 64 then k\<lparr>keylen := 20, key := sha1 (key_text k) @ drop 20 (key k)\<rparr> else k)"

lemma short_form_fits: "key_fits k \<Longrightarrow> key_fits (short_form k)"
  by (simp add: key_fits_def short_form_def)

lemma hmac_short_form: "key_fits k \<Longrightarrow> hmac_sha1 (key_text (short_form k)) text = hmac_sha1 (key_text k) text"
  by (auto simp: short_form_def key_fits_def key_text_def sha1h.hash_len intro!: hmac_sha1_long_key)

lemma shorten_key_eq:
  assumes "ctx_ok ctx" "length temp = 32" "key_fits k"
  shows "\<exists>ctx'. ctx_ok ctx' \<and> shorten_key ctx temp SCTP_AUTH_HMAC_ID_SHA1 k 20 = Some (short_form k, ctx')"
proof (cases "unat (keylen k) > 64")
  case True
  have "20 \<le> length temp" "unat (keylen k) \<le> length (key k)" "unat (keylen k) < 2 ^ 29"
    using assms by (simp_all add: key_fits_def)
  from hash_long_key_sha1 [OF assms(1) this] obtain ctx' where "ctx_ok ctx'"
    "hash_long_key SCTP_AUTH_HMAC_ID_SHA1 ctx temp (key k) (keylen k) = Some (sha1 (key_text k) @ drop 20 temp, ctx')"
    by (auto simp: key_text_def)
  moreover have "keylen k > 64" using True by (simp add: word_less_nat_alt)
  ultimately show ?thesis using True assms(3)
    by (simp add: shorten_key_def sctp_get_hmac_block_len_def rd_def wr_def sha1h.hash_len short_form_def key_fits_def)
next
  case False
  then have "\<not> keylen k > 64" by (simp add: word_less_nat_alt)
  with False assms(1) show ?thesis by (simp add: shorten_key_def sctp_get_hmac_block_len_def short_form_def)
qed

lemma compute_hmac_m_eq:
  assumes "ctx_ok ctx" "length temp = 32" "20 \<le> length digest" "key_fits k"
    and m: "m \<noteq> []" "length (concat m) < 2 ^ 29 - 64" "unat m_offset \<le> length (concat m)"
  shows "sctp_compute_hmac_m ctx temp SCTP_AUTH_HMAC_ID_SHA1 (Some k) m m_offset (Some digest) =
    Some (20, Some (hmac_sha1 (key_text k) (drop (unat m_offset) (concat m)) @ drop 20 digest), Some (short_form k))"
proof -
  from shorten_key_eq [OF assms(1,2,4)] obtain ctx' where c: "ctx_ok ctx'"
    "shorten_key ctx temp SCTP_AUTH_HMAC_ID_SHA1 k 20 = Some (short_form k, ctx')" by blast
  have f: "keylen (short_form k) \<noteq> 0" "unat (keylen (short_form k)) \<le> length (key (short_form k))"
    "unat (keylen (short_form k)) < 2 ^ 29"
    using short_form_fits [OF assms(4)] by (simp_all add: key_fits_def)
  have t: "chain_text m m_offset 0 = drop (unat m_offset) (concat m)" by (simp add: chain_text_def)
  have "unat (0 :: u32) \<le> length (last m)" "unat m_offset + unat (0 :: u32) \<le> length (concat m)"
    using m(3) by simp_all
  from sctp_hmac_m_eq [OF c(1) assms(2,3) f m(1,2) this]
  show ?thesis
    using assms c hmac_short_form [OF assms(4)]
    by (simp add: sctp_compute_hmac_m_def Let_def sctp_get_hmac_digest_len_def SCTP_AUTH_DIGEST_LEN_SHA1_def
        t key_text_def)
qed

lemma compute_hmac_eq:
  assumes "ctx_ok ctx" "length temp = 32" "20 \<le> length digest" "key_fits k"
    and "textlen \<noteq> 0" "unat textlen \<le> length text" "unat textlen < 2 ^ 29 - 64"
  shows "sctp_compute_hmac ctx temp SCTP_AUTH_HMAC_ID_SHA1 (Some k) (Some text) textlen (Some digest) =
    Some (20, Some (hmac_sha1 (key_text k) (take (unat textlen) text) @ drop 20 digest), Some (short_form k))"
proof -
  from shorten_key_eq [OF assms(1,2,4)] obtain ctx' where c: "ctx_ok ctx'"
    "shorten_key ctx temp SCTP_AUTH_HMAC_ID_SHA1 k 20 = Some (short_form k, ctx')" by blast
  have f: "keylen (short_form k) \<noteq> 0" "unat (keylen (short_form k)) \<le> length (key (short_form k))"
    "unat (keylen (short_form k)) < 2 ^ 29"
    using short_form_fits [OF assms(4)] by (simp_all add: key_fits_def)
  from sctp_hmac_eq [OF c(1) assms(2,3) f assms(5-7)]
  show ?thesis
    using assms c hmac_short_form [OF assms(4)]
    by (simp add: sctp_compute_hmac_def Let_def sctp_get_hmac_digest_len_def SCTP_AUTH_DIGEST_LEN_SHA1_def
        key_text_def)
qed

section \<open>Lists of identifiers\<close>

definition hmaclist_ok :: "sctp_hmaclist \<Rightarrow> bool" where
  "hmaclist_ok l \<longleftrightarrow> num_algo l \<le> max_algo l \<and> length (hmac l) = unat (max_algo l) \<and>
     distinct (used_hmacs l) \<and> set (used_hmacs l) \<subseteq> {SCTP_AUTH_HMAC_ID_SHA1}"

lemma length_load_u16s: "length (load_u16s b) = length b div 2"
  by (induction b rule: load_u16s.induct) auto

lemma alloc_hmaclist_ok:
  "malloc_sized malloc \<Longrightarrow> sctp_alloc_hmaclist malloc n = Some l \<Longrightarrow>
     hmaclist_ok l \<and> max_algo l = n \<and> used_hmacs l = []"
  by (auto simp: sctp_alloc_hmaclist_def hmaclist_ok_def malloc_sized_def length_load_u16s split: option.splits)

lemma negotiate_loop_find:
  "negotiate_loop peer local = (case find (\<lambda>p. p \<in> set local) peer of Some p \<Rightarrow> p | None \<Rightarrow> SCTP_AUTH_HMAC_ID_RSVD)"
  by (induction peer) (auto simp: list_ex_iff)

lemma add_hmacid_ok:
  assumes "hmaclist_ok l"
  shows "case sctp_auth_add_hmacid (Some l) h of
      (r, None) \<Rightarrow> False
    | (r, Some l') \<Rightarrow> hmaclist_ok l' \<and> max_algo l' = max_algo l \<and>
        (r = 0 \<longleftrightarrow> h = SCTP_AUTH_HMAC_ID_SHA1 \<and> h \<notin> set (used_hmacs l) \<and> num_algo l \<noteq> max_algo l) \<and>
        used_hmacs l' = used_hmacs l @ (if r = 0 then [h] else [])"
proof (cases "h = SCTP_AUTH_HMAC_ID_SHA1 \<and> h \<notin> set (used_hmacs l) \<and> num_algo l \<noteq> max_algo l")
  case True
  then have lt: "unat (num_algo l) < unat (max_algo l)"
    using assms by (simp add: hmaclist_ok_def word_le_nat_alt word_unat_eq_iff)
  then have "unat (num_algo l + 1) = unat (num_algo l) + 1"
    using unsigned_less [of "max_algo l", where 'a = nat]
    by (auto simp: unat_word_ariths)
  moreover have "take (Suc (unat (num_algo l))) ((hmac l)[unat (num_algo l) := h]) = used_hmacs l @ [h]"
    using lt assms by (simp add: take_Suc_conv_app_nth hmaclist_ok_def)
  ultimately show ?thesis
    using True assms lt
    by (auto simp: sctp_auth_add_hmacid_def hmaclist_ok_def list_ex_iff word_le_nat_alt)
next
  case False
  then show ?thesis using assms
    by (auto simp: sctp_auth_add_hmacid_def list_ex_iff)
qed

lemma fold_add_hmacids:
  assumes "hmaclist_ok l"
  shows "\<exists>l'. fold (\<lambda>h l. snd (sctp_auth_add_hmacid l h)) ids (Some l) = Some l' \<and> hmaclist_ok l' \<and>
    max_algo l' = max_algo l \<and>
    used_hmacs l' = (if used_hmacs l = [] \<and> max_algo l \<noteq> 0 \<and> SCTP_AUTH_HMAC_ID_SHA1 \<in> set ids
      then [SCTP_AUTH_HMAC_ID_SHA1] else used_hmacs l)"
  using assms
proof (induction ids arbitrary: l)
  case (Cons h ids)
  obtain r l1 where a: "sctp_auth_add_hmacid (Some l) h = (r, Some l1)" and ok1: "hmaclist_ok l1"
    and m: "max_algo l1 = max_algo l"
    and r: "r = 0 \<longleftrightarrow> h = SCTP_AUTH_HMAC_ID_SHA1 \<and> h \<notin> set (used_hmacs l) \<and> num_algo l \<noteq> max_algo l"
    and u: "used_hmacs l1 = used_hmacs l @ (if r = 0 then [h] else [])"
    using add_hmacid_ok [OF Cons.prems, of h] by (auto split: prod.splits option.splits)
  have e: "used_hmacs l = [] \<or> SCTP_AUTH_HMAC_ID_SHA1 \<in> set (used_hmacs l)"
    using Cons.prems by (cases "used_hmacs l") (auto simp: hmaclist_ok_def)
  have n: "used_hmacs l = [] \<longleftrightarrow> num_algo l = 0"
    using Cons.prems by (auto simp: hmaclist_ok_def word_le_nat_alt unat_eq_0)
  from Cons.IH [OF ok1] show ?case using a m r u e n by (auto split: if_splits)
qed auto

lemma hmac_built_list:
  assumes "malloc_sized malloc" "sctp_alloc_hmaclist malloc n = Some l"
  shows "\<exists>l'. fold (\<lambda>h l. snd (sctp_auth_add_hmacid l h)) ids (Some l) = Some l' \<and>
    max_algo l' = n \<and> hmaclist_ok l' \<and>
    used_hmacs l' = (if n \<noteq> 0 \<and> SCTP_AUTH_HMAC_ID_SHA1 \<in> set ids then [SCTP_AUTH_HMAC_ID_SHA1] else [])"
  using fold_add_hmacids [of l ids] alloc_hmaclist_ok [OF assms] by auto

section \<open>Properties\<close>

text \<open>
  C20: the digest the code computes over a packet is the HMAC of RFC 2104 with SHA-1: for every key,
  every chain of mbufs (empty ones included), every start offset inside the chain and every trailer
  to leave out that fits into the last mbuf, no access leaves a buffer and the digest buffer holds the HMAC of
  the bytes from the offset on without the trailer.
\<close>

theorem sctp_hmac_m_correct:
  assumes "ctx_ok ctx" "length temp = 32" "20 \<le> length digest"
    and "klen \<noteq> 0" "unat klen \<le> length kp" "unat klen < 2 ^ 29"
    and "m \<noteq> []" "length (concat m) < 2 ^ 29 - 64" "unat trailer \<le> length (last m)"
      "unat m_offset + unat trailer \<le> length (concat m)"
  shows "sctp_hmac_m ctx temp SCTP_AUTH_HMAC_ID_SHA1 (Some kp) klen m m_offset (Some digest) trailer =
    Some (20, Some (hmac_sha1 (take (unat klen) kp)
      (take (length (concat m) - unat m_offset - unat trailer) (drop (unat m_offset) (concat m))) @ drop 20 digest))"
  using sctp_hmac_m_eq [OF assms] by (simp add: chain_text_def)

lemma blank_ctx_ok: "ctx_ok blank_sha1_context"
  by (simp add: blank_sha1_context_def)

theorem sctp_hmac_m_correct_witness:
  "sctp_hmac_m blank_sha1_context (replicate 32 0) SCTP_AUTH_HMAC_ID_SHA1 (Some [11, 12]) 2 [[1, 2], [], [3, 4, 5]] 1
     (Some (replicate 20 0)) 2 = Some (20, Some (hmac_sha1 [11, 12] [2, 3]))"
  using sctp_hmac_m_correct [OF blank_ctx_ok, of "replicate 32 0" "replicate 20 0" 2 "[11, 12]"
      "[[1, 2], [], [3, 4, 5]]" 2 1]
  by simp

text \<open>
  verifying a digest succeeds exactly when the length is right and the digest is the HMAC of the
  text under the key; a missing or empty key or text, a missing digest, an unknown algorithm and a
  wrong digest length are all refused.
\<close>

theorem sctp_verify_hmac_correct:
  assumes "ctx_ok ctx" "length temp = 32" "length temp2 = 32"
    and "\<And>k. kp = Some k \<Longrightarrow> unat klen \<le> length k \<and> unat klen < 2 ^ 29"
    and "\<And>t. text = Some t \<Longrightarrow> unat textlen \<le> length t \<and> unat textlen < 2 ^ 29 - 64"
    and "\<And>d. digest = Some d \<Longrightarrow> length d = unat digestlen"
  shows "sctp_verify_hmac ctx temp temp2 hmac_algo kp klen text textlen digest digestlen =
    Some (if hmac_algo = SCTP_AUTH_HMAC_ID_SHA1 \<and> klen \<noteq> 0 \<and> textlen \<noteq> 0 \<and>
             (\<exists>k t. kp = Some k \<and> text = Some t \<and>
                digest = Some (hmac_sha1 (take (unat klen) k) (take (unat textlen) t)))
          then 0 else -1)"
proof (cases "kp = None \<or> klen = 0 \<or> text = None \<or> textlen = 0 \<or> digest = None \<or>
    hmac_algo \<noteq> SCTP_AUTH_HMAC_ID_SHA1 \<or> digestlen \<noteq> 20")
  case True
  have "digestlen = 20" if "digest = Some (hmac_sha1 k t)" for k t
    using assms(6) [OF that] by (simp add: word_unat_eq_iff)
  with True show ?thesis
    by (auto simp: sctp_verify_hmac_def sctp_get_hmac_digest_len_def SCTP_AUTH_DIGEST_LEN_SHA1_def)
next
  case False
  then obtain k t d where s: "kp = Some k" "text = Some t" "digest = Some d" "klen \<noteq> 0" "textlen \<noteq> 0"
    "hmac_algo = SCTP_AUTH_HMAC_ID_SHA1" "digestlen = 20" by auto
  have l: "unat klen \<le> length k" "unat klen < 2 ^ 29" "unat textlen \<le> length t" "unat textlen < 2 ^ 29 - 64"
    "length d = 20" "20 \<le> length temp2"
    using assms s by auto
  show ?thesis
    using sctp_hmac_eq [OF assms(1,2) l(6) s(4) l(1,2) s(5) l(3,4)] s l(5)
    by (auto simp: sctp_verify_hmac_def Let_def sctp_get_hmac_digest_len_def SCTP_AUTH_DIGEST_LEN_SHA1_def rd_def)
qed

theorem sctp_verify_hmac_correct_witness:
  "sctp_verify_hmac blank_sha1_context (replicate 32 0) (replicate 32 0) SCTP_AUTH_HMAC_ID_SHA1 (Some [1]) 1
     (Some [2, 3]) 2 (Some (hmac_sha1 [1] [2, 3])) 20 = Some 0"
  using sctp_verify_hmac_correct [OF blank_ctx_ok, of "replicate 32 0" "replicate 32 0" "Some [1]" 1
      "Some [2, 3]" 2 "Some (hmac_sha1 [1] [2, 3])" 20 SCTP_AUTH_HMAC_ID_SHA1]
  by simp

text \<open>
  computing a digest with a key block replaces a key of more than 64 bytes by its hash, in place.
  This is sound: the key stays usable, and a digest over any other packet computed with the replaced
  key is the HMAC under the original key.
\<close>

theorem sctp_compute_hmac_m_stable:
  assumes "ctx_ok ctx" "length temp = 32" "20 \<le> length digest" "key_fits k"
    and "m \<noteq> []" "length (concat m) < 2 ^ 29 - 64" "unat m_offset \<le> length (concat m)"
    and "ctx_ok ctx2" "length temp2 = 32" "20 \<le> length digest2"
    and "m2 \<noteq> []" "length (concat m2) < 2 ^ 29 - 64" "unat m_offset2 \<le> length (concat m2)"
  shows "\<exists>k'. sctp_compute_hmac_m ctx temp SCTP_AUTH_HMAC_ID_SHA1 (Some k) m m_offset (Some digest) =
      Some (20, Some (hmac_sha1 (key_text k) (drop (unat m_offset) (concat m)) @ drop 20 digest), Some k') \<and>
    unat (keylen k') \<le> 64 \<and> length (key k') = length (key k) \<and>
    sctp_compute_hmac_m ctx2 temp2 SCTP_AUTH_HMAC_ID_SHA1 (Some k') m2 m_offset2 (Some digest2) =
      Some (20, Some (hmac_sha1 (key_text k) (drop (unat m_offset2) (concat m2)) @ drop 20 digest2), Some k')"
proof -
  have "short_form (short_form k) = short_form k" "unat (keylen (short_form k)) \<le> 64"
    by (simp_all add: short_form_def)
  moreover have "length (key (short_form k)) = length (key k)"
    using assms(4) by (simp add: short_form_def key_fits_def sha1h.hash_len)
  ultimately show ?thesis
    using compute_hmac_m_eq [OF assms(1-7)]
      compute_hmac_m_eq [OF assms(8-10) short_form_fits [OF assms(4)] assms(11-13)] hmac_short_form [OF assms(4)]
    by simp
qed

theorem sctp_compute_hmac_m_stable_witness:
  "\<exists>k'. sctp_compute_hmac_m blank_sha1_context (replicate 32 0) SCTP_AUTH_HMAC_ID_SHA1
      (Some \<lparr>keylen = 70, key = replicate 70 1\<rparr>) [[1, 2, 3]] 1 (Some (replicate 20 0)) =
      Some (20, Some (hmac_sha1 (replicate 70 1) [2, 3]), Some k') \<and>
    sctp_compute_hmac_m blank_sha1_context (replicate 32 0) SCTP_AUTH_HMAC_ID_SHA1
      (Some k') [[4], [5]] 0 (Some (replicate 20 0)) = Some (20, Some (hmac_sha1 (replicate 70 1) [4, 5]), Some k')"
  using sctp_compute_hmac_m_stable [OF blank_ctx_ok, of "replicate 32 0" "replicate 20 0"
      "\<lparr>keylen = 70, key = replicate 70 1\<rparr>" "[[1, 2, 3]]" 1 blank_sha1_context "replicate 32 0" "replicate 20 0"
      "[[4], [5]]" 0] blank_ctx_ok
  by (auto simp: key_fits_def key_text_def)

text \<open>
  a list of HMAC identifiers that is built from an allocated list of capacity \<open>n\<close> with any
  sequence of additions holds, without duplicates and within its capacity, exactly the supported
  identifiers that were offered; negotiating with the peer's list gives the first identifier of the
  peer that the local list holds, which the local side then accepts, and the reserved identifier when
  there is none.
\<close>

theorem hmac_lists_and_negotiation:
  assumes "malloc_sized malloc" "sctp_alloc_hmaclist malloc n = Some l"
  shows "\<exists>l'. fold (\<lambda>h l. snd (sctp_auth_add_hmacid l h)) ids (Some l) = Some l' \<and>
    num_algo l' \<le> max_algo l' \<and> max_algo l' = n \<and> length (hmac l') = unat n \<and> distinct (used_hmacs l') \<and>
    used_hmacs l' = (if n \<noteq> 0 \<and> SCTP_AUTH_HMAC_ID_SHA1 \<in> set ids then [SCTP_AUTH_HMAC_ID_SHA1] else []) \<and>
    (let h = sctp_negotiate_hmacid (Some peer) (Some l')
     in h = (case find (\<lambda>p. p \<in> set (used_hmacs l')) (used_hmacs peer) of Some p \<Rightarrow> p
             | None \<Rightarrow> SCTP_AUTH_HMAC_ID_RSVD) \<and>
        (h \<noteq> SCTP_AUTH_HMAC_ID_RSVD \<longleftrightarrow> sctp_auth_is_supported_hmac (Some l') h))"
proof -
  from hmac_built_list [OF assms, of ids] obtain l' where l':
    "fold (\<lambda>h l. snd (sctp_auth_add_hmacid l h)) ids (Some l) = Some l'" "max_algo l' = n" "hmaclist_ok l'"
    "used_hmacs l' = (if n \<noteq> 0 \<and> SCTP_AUTH_HMAC_ID_SHA1 \<in> set ids then [SCTP_AUTH_HMAC_ID_SHA1] else [])"
    by blast
  have "h = (case find (\<lambda>p. p \<in> set (used_hmacs l')) (used_hmacs peer) of Some p \<Rightarrow> p
             | None \<Rightarrow> SCTP_AUTH_HMAC_ID_RSVD) \<Longrightarrow>
        (h \<noteq> SCTP_AUTH_HMAC_ID_RSVD) = sctp_auth_is_supported_hmac (Some l') h" for h
    by (auto simp: sctp_auth_is_supported_hmac_def list_ex_iff find_Some_iff split: option.splits)
  then show ?thesis
    using l' by (auto simp: sctp_negotiate_hmacid_def negotiate_loop_find hmaclist_ok_def Let_def)
qed

theorem hmac_lists_and_negotiation_witness:
  "\<exists>l'. fold (\<lambda>h l. snd (sctp_auth_add_hmacid l h)) [3, 1, 1] (sctp_alloc_hmaclist (\<lambda>n. Some (replicate n 0)) 2) = Some l' \<and>
    used_hmacs l' = [1] \<and>
    sctp_negotiate_hmacid (Some \<lparr>max_algo = 2, num_algo = 2, hmac = [3, 1]\<rparr>) (Some l') = 1"
proof -
  have "malloc_sized (\<lambda>n. Some (replicate n 0))" by (simp add: malloc_sized_def)
  then obtain l where "sctp_alloc_hmaclist (\<lambda>n. Some (replicate n 0)) 2 = Some l"
    by (simp add: sctp_alloc_hmaclist_def)
  with hmac_lists_and_negotiation [OF \<open>malloc_sized _\<close> this, of "[3, 1, 1]" "\<lparr>max_algo = 2, num_algo = 2, hmac = [3, 1]\<rparr>"]
  show ?thesis by (auto simp: Let_def SCTP_AUTH_HMAC_ID_SHA1_def)
qed

end
