(* ===== verification/Auth_Assoc.thy ===== *)
theory Auth_Assoc
  imports Auth_Hmac_Correct
begin

text \<open>
  The last part of netinet/sctp_auth.c: the authentication state of an association and of an
  endpoint, the operations on their shared keys, the AUTH chunk (filling in the digest of an outgoing
  packet, checking an incoming one), and the parameters of INIT, INIT-ACK and cookie that carry the
  keying material.

  An association is a record of the fields the authentication code uses; \<open>events\<close> collects, in
  order, what a handler does besides: statistics counters, notifications to the upper layer and
  operational errors queued for the peer. \<open>auth_env\<close> is what a call finds in its surroundings: the
  allocator, uninitialised stack memory (a hash context and digest buffers), the bytes of the random
  number generator, and whether an mbuf can be had. \<open>None\<close> as a result means that the routine reads
  or writes outside a block.
\<close>

section \<open>State\<close>

record sctp_authinformation =
  ai_random :: "sctp_key option"
  random_len :: u32
  peer_random :: "sctp_key option"
  assoc_key :: "sctp_key option"
  recv_key :: "sctp_key option"
  active_keyid :: u16
  assoc_keyid :: u16
  recv_keyid :: u16

datatype auth_event =
    Stat_recvauth
  | Stat_recvauthfailed
  | Stat_recvivalhmacid
  | Stat_recvivalkeyid
  | Notify_free_key u16
  | Notify_new_key u16 u16
  | Op_err bytes

record sctp_tcb =
  authinfo :: sctp_authinformation
  shared_keys :: "sctp_shared_key list"
  local_hmacs :: "sctp_hmaclist option"
  peer_hmacs :: "sctp_hmaclist option"
  local_auth_chunks :: "sctp_auth_chklist option"
  peer_hmac_id :: u16
  events :: "auth_event list"

record sctp_inpcb =
  default_keyid :: u16
  ep_shared_keys :: "sctp_shared_key list"
  ep_local_hmacs :: "sctp_hmaclist option"
  ep_local_auth_chunks :: "sctp_auth_chklist option"
  tcptype :: bool
  sctp_asoc_list :: "sctp_tcb list"

record auth_env =
  env_malloc :: allocator
  env_ctx :: sctp_sha1_context
  env_temp :: bytes
  env_digest :: bytes
  env_random :: "nat \<Rightarrow> bytes"
  env_mbuf :: bool

definition emit :: "auth_event \<Rightarrow> sctp_tcb \<Rightarrow> sctp_tcb" where
  "emit e stcb = stcb\<lparr>events := events stcb @ [e]\<rparr>"

definition upd_auth :: "(sctp_authinformation \<Rightarrow> sctp_authinformation) \<Rightarrow> sctp_tcb \<Rightarrow> sctp_tcb" where
  "upd_auth f stcb = stcb\<lparr>authinfo := f (authinfo stcb)\<rparr>"

section \<open>Shared keys of an association and of an endpoint\<close>

text \<open>
  The NULL checks of the pointers to association and endpoint are in the operations that return an
  error for them; the ones that return at once are left to the callers, which pass no NULL pointer.
\<close>

definition sctp_clear_cachedkeys :: "sctp_tcb \<Rightarrow> u16 \<Rightarrow> sctp_tcb" where
  "sctp_clear_cachedkeys stcb key_id =
     (let stcb = (if key_id = assoc_keyid (authinfo stcb)
                  then upd_auth (\<lambda>a. a\<lparr>assoc_key := None\<rparr>) stcb else stcb)
      in if key_id = recv_keyid (authinfo stcb)
         then upd_auth (\<lambda>a. a\<lparr>recv_key := None\<rparr>) stcb else stcb)"

definition sctp_clear_cachedkeys_ep :: "sctp_inpcb \<Rightarrow> u16 \<Rightarrow> sctp_inpcb" where
  "sctp_clear_cachedkeys_ep inp key_id =
     inp\<lparr>sctp_asoc_list := map (\<lambda>stcb. sctp_clear_cachedkeys stcb key_id) (sctp_asoc_list inp)\<rparr>"

definition sctp_delete_sharedkey :: "sctp_tcb option \<Rightarrow> u16 \<Rightarrow> int \<times> sctp_tcb option" where
  "sctp_delete_sharedkey stcb key_id =
     (case stcb of
        None \<Rightarrow> (-1, None)
      | Some s \<Rightarrow>
          if key_id = active_keyid (authinfo s) then (-1, Some s)
          else case sctp_find_sharedkey (shared_keys s) key_id of
              None \<Rightarrow> (-1, Some s)
            | Some skey \<Rightarrow>
                if refcount skey > 1 then (-1, Some s)
                else (0, Some (sctp_clear_cachedkeys
                       (s\<lparr>shared_keys := remove_sharedkey key_id (shared_keys s)\<rparr>) key_id)))"

definition sctp_delete_sharedkey_ep :: "sctp_inpcb option \<Rightarrow> u16 \<Rightarrow> int \<times> sctp_inpcb option" where
  "sctp_delete_sharedkey_ep inp key_id =
     (case inp of
        None \<Rightarrow> (-1, None)
      | Some i \<Rightarrow>
          if key_id = default_keyid i then (-1, Some i)
          else case sctp_find_sharedkey (ep_shared_keys i) key_id of
              None \<Rightarrow> (-1, Some i)
            | Some skey \<Rightarrow>
                (0, Some (sctp_clear_cachedkeys_ep
                      (i\<lparr>ep_shared_keys := remove_sharedkey key_id (ep_shared_keys i)\<rparr>) key_id)))"

definition sctp_auth_setactivekey :: "sctp_tcb \<Rightarrow> u16 \<Rightarrow> int \<times> sctp_tcb" where
  "sctp_auth_setactivekey stcb key_id =
     (case sctp_find_sharedkey (shared_keys stcb) key_id of
        None \<Rightarrow> (-1, stcb)
      | Some skey \<Rightarrow>
          if deactivated skey \<noteq> 0 \<and> refcount skey > 1 then (-1, stcb)
          else (0, (upd_auth (\<lambda>a. a\<lparr>active_keyid := key_id\<rparr>) stcb)
                 \<lparr>shared_keys := upd_sharedkey key_id (\<lambda>k. k\<lparr>deactivated := 0\<rparr>) (shared_keys stcb)\<rparr>))"

definition sctp_auth_setactivekey_ep :: "sctp_inpcb \<Rightarrow> u16 \<Rightarrow> int \<times> sctp_inpcb" where
  "sctp_auth_setactivekey_ep inp key_id =
     (case sctp_find_sharedkey (ep_shared_keys inp) key_id of
        None \<Rightarrow> (-1, inp)
      | Some skey \<Rightarrow> (0, inp\<lparr>default_keyid := key_id\<rparr>))"

definition sctp_deact_sharedkey :: "sctp_tcb option \<Rightarrow> u16 \<Rightarrow> int \<times> sctp_tcb option" where
  "sctp_deact_sharedkey stcb key_id =
     (case stcb of
        None \<Rightarrow> (-1, None)
      | Some s \<Rightarrow>
          if key_id = active_keyid (authinfo s) then (-1, Some s)
          else case sctp_find_sharedkey (shared_keys s) key_id of
              None \<Rightarrow> (-1, Some s)
            | Some skey \<Rightarrow>
                let s = (if refcount skey = 1 then emit (Notify_free_key key_id) s else s)
                in (0, Some (s\<lparr>shared_keys :=
                      upd_sharedkey key_id (\<lambda>k. k\<lparr>deactivated := 1\<rparr>) (shared_keys s)\<rparr>)))"

definition sctp_deact_sharedkey_ep :: "sctp_inpcb option \<Rightarrow> u16 \<Rightarrow> int \<times> sctp_inpcb option" where
  "sctp_deact_sharedkey_ep inp key_id =
     (case inp of
        None \<Rightarrow> (-1, None)
      | Some i \<Rightarrow>
          if key_id = default_keyid i then (-1, Some i)
          else case sctp_find_sharedkey (ep_shared_keys i) key_id of
              None \<Rightarrow> (-1, Some i)
            | Some skey \<Rightarrow>
                (0, Some (i\<lparr>ep_shared_keys := remove_sharedkey key_id (ep_shared_keys i)\<rparr>)))"

section \<open>The AUTH chunk\<close>

text \<open>
  The chunk: type, flags and length (four bytes), shared key id, HMAC identifier, digest.
\<close>

definition ntohs_at :: "bytes \<Rightarrow> nat \<Rightarrow> u16" where
  "ntohs_at b i = be16 (b ! i) (b ! (i + 1))"

text \<open>
  Writing at a position of a chain through a pointer: the bytes have to lie in one mbuf. The
  position is where \<^verbatim>\<open>auth\<close> points to, and the chunk is part of the packet.
\<close>

fun chain_write :: "mchain \<Rightarrow> nat \<Rightarrow> bytes \<Rightarrow> mchain option" where
  "chain_write [] off src = None"
| "chain_write (d # m) off src =
     (if off < length d then do { d' \<leftarrow> wr d off src; Some (d' # m) }
      else do { m' \<leftarrow> chain_write m (off - length d) src; Some (d # m') })"

text \<open>Reading the digest buffer that a chain holds at a position, up to the end of the mbuf.\<close>

fun chain_block :: "mchain \<Rightarrow> nat \<Rightarrow> bytes" where
  "chain_block [] off = []"
| "chain_block (d # m) off = (if off < length d then drop off d else chain_block m (off - length d))"

text \<open>The cached key for sending, computed when it is not there yet.\<close>

definition cache_assoc_key :: "auth_env \<Rightarrow> sctp_tcb \<Rightarrow> u16 \<Rightarrow> sctp_tcb" where
  "cache_assoc_key env stcb key_id =
     (if key_id \<noteq> assoc_keyid (authinfo stcb) \<or> assoc_key (authinfo stcb) = None
      then let k = (case sctp_find_sharedkey (shared_keys stcb) key_id of
                      Some skey \<Rightarrow> skey_key skey | None \<Rightarrow> None)
           in upd_auth (\<lambda>a. a\<lparr>assoc_key := sctp_compute_hashkey (env_malloc env) (ai_random a) (peer_random a) k,
                              assoc_keyid := key_id\<rparr>) stcb
      else stcb)"

text \<open>
  \<^verbatim>\<open>sctp_fill_hmac_digest_m\<close>; \<open>auth\<close> is the position of the AUTH chunk in the chain \<open>m\<close>.
\<close>

definition sctp_fill_hmac_digest_m :: "auth_env \<Rightarrow> mchain \<Rightarrow> u32 \<Rightarrow> nat option \<Rightarrow> sctp_tcb option \<Rightarrow> u16 \<Rightarrow>
    (mchain \<times> sctp_tcb option) option" where
  "sctp_fill_hmac_digest_m env m auth_offset auth stcb key_id =
     (case (stcb, auth) of
        (Some s, Some p) \<Rightarrow>
          let digestlen = sctp_get_hmac_digest_len (peer_hmac_id s)
          in do {
            m \<leftarrow> (if digestlen = 0 then Some m
                  else chain_write m (p + 8) (replicate (unat (SCTP_SIZE32 digestlen)) 0));
            let s = cache_assoc_key env s key_id;
            m \<leftarrow> chain_write m (p + 4) (bytes_of_be16 key_id);
            (n, d, k) \<leftarrow> sctp_compute_hmac_m (env_ctx env) (env_temp env) (peer_hmac_id s)
                            (assoc_key (authinfo s)) m auth_offset (Some (chain_block m (p + 8)));
            m \<leftarrow> (if n = 0 then Some m else chain_write m (p + 8) (take (unat n) (the d)));
            Some (m, Some (upd_auth (\<lambda>a. a\<lparr>assoc_key := k\<rparr>) s))
          }
      | _ \<Rightarrow> Some (m, stcb))"

text \<open>\<^verbatim>\<open>sctp_zero_m\<close>: \<open>None\<close> when a \<^verbatim>\<open>memset\<close> leaves the data of an mbuf.\<close>

fun zero_loop :: "u32 \<Rightarrow> u32 \<Rightarrow> mchain \<Rightarrow> mchain option" where
  "zero_loop m_offset sz [] = Some []"
| "zero_loop m_offset sz (d # m) =
     (if sz > 0
      then let n = (if sz > word_of_nat (length d) then word_of_nat (length d) else sz)
           in do { d' \<leftarrow> wr d (unat m_offset) (replicate (unat n) 0);
                   m' \<leftarrow> zero_loop 0 (sz - n) m;
                   Some (d' # m') }
      else Some (d # m))"

definition sctp_zero_m :: "mchain \<Rightarrow> u32 \<Rightarrow> u32 \<Rightarrow> mchain option" where
  "sctp_zero_m m m_offset sz =
     (case chain_seek m_offset m of
        (m_offset, r) \<Rightarrow>
          do { r' \<leftarrow> zero_loop m_offset sz r; Some (take (length m - length r) m @ r') })"

definition SCTP_CAUSE_UNSUPPORTED_HMACID :: u16 where "SCTP_CAUSE_UNSUPPORTED_HMACID = 0x0105"

definition cause_invalid_hmac :: "u16 \<Rightarrow> bytes" where
  "cause_invalid_hmac hmac_id =
     bytes_of_be16 SCTP_CAUSE_UNSUPPORTED_HMACID @ bytes_of_be16 6 @ bytes_of_be16 hmac_id"

text \<open>The cached key for receiving; \<open>None\<close> when the chunk is discarded.\<close>

definition cache_recv_key :: "auth_env \<Rightarrow> sctp_tcb \<Rightarrow> u16 \<Rightarrow> sctp_tcb option" where
  "cache_recv_key env stcb shared_key_id =
     (if recv_key (authinfo stcb) = None \<or> recv_keyid (authinfo stcb) \<noteq> shared_key_id
      then case sctp_find_sharedkey (shared_keys stcb) shared_key_id of
          None \<Rightarrow> None
        | Some skey \<Rightarrow>
            let stcb = (if recv_keyid (authinfo stcb) \<noteq> shared_key_id
                        then emit (Notify_new_key shared_key_id (recv_keyid (authinfo stcb))) stcb else stcb)
            in Some (upd_auth (\<lambda>a. a\<lparr>recv_key := sctp_compute_hashkey (env_malloc env) (ai_random a)
                        (peer_random a) (skey_key skey), recv_keyid := shared_key_id\<rparr>) stcb)
      else Some stcb)"

text \<open>\<open>auth\<close> are the bytes of the chunk; the result is the return value, the association and the chain.\<close>

definition sctp_handle_auth :: "auth_env \<Rightarrow> sctp_tcb \<Rightarrow> bytes \<Rightarrow> mchain \<Rightarrow> u32 \<Rightarrow>
    (int \<times> sctp_tcb \<times> mchain) option" where
  "sctp_handle_auth env stcb auth m offset =
     (let chunklen = ntohs_at auth 2
      in if chunklen < 8 then Some (-1, emit Stat_recvauthfailed stcb, m)
         else
           let stcb = emit Stat_recvauth stcb;
               shared_key_id = ntohs_at auth 4;
               hmac_id = ntohs_at auth 6
           in if \<not> sctp_auth_is_supported_hmac (local_hmacs stcb) hmac_id
              then let stcb = emit Stat_recvivalhmacid stcb
                   in Some (-1, (if env_mbuf env then emit (Op_err (cause_invalid_hmac hmac_id)) stcb else stcb), m)
              else case cache_recv_key env stcb shared_key_id of
                  None \<Rightarrow> Some (-1, emit Stat_recvivalkeyid stcb, m)
                | Some stcb \<Rightarrow>
                    let digestlen = sctp_get_hmac_digest_len hmac_id
                    in if unat chunklen < 8 + unat digestlen
                       then Some (-1, emit Stat_recvauthfailed stcb, m)
                       else do {
                         digest \<leftarrow> rd auth 8 (unat digestlen);
                         m \<leftarrow> sctp_zero_m m (offset + 8) (SCTP_SIZE32 digestlen);
                         (n, d, k) \<leftarrow> sctp_compute_hmac_m (env_ctx env) (env_temp env) hmac_id
                                         (recv_key (authinfo stcb)) m offset (Some (env_digest env));
                         let stcb = upd_auth (\<lambda>a. a\<lparr>recv_key := k\<rparr>) stcb;
                         computed \<leftarrow> rd (the d) 0 (unat digestlen);
                         Some (if digest \<noteq> computed then (-1, emit Stat_recvauthfailed stcb, m)
                               else (0, stcb, m))
                       })"

end
