(* ===== verification/Auth_Sockopt.thy ===== *)
theory Auth_Sockopt
  imports Auth_Assoc
begin

text \<open>
  The socket options that manage the authentication of an endpoint and its associations
  (netinet/sctp_usrreq.c, function \<^verbatim>\<open>sctp_setopt\<close>): the chunk types to authenticate, shared keys, HMAC
  identifiers, and the active, deleted and deactivated keys. An option gives the error code and the
  endpoint afterwards. An association is named by its position in the endpoint's list; \<open>lookup\<close> is
  the search for an association id (\<^verbatim>\<open>sctp_findassociation_ep_asocid\<close>). \<open>tcptype\<close> says that the
  endpoint is of the one-to-one style (\<^verbatim>\<open>SCTP_PCB_FLAGS_TCPTYPE\<close> or \<^verbatim>\<open>SCTP_PCB_FLAGS_IN_TCPPOOL\<close>).
\<close>

definition ENOENT :: int where "ENOENT = 2"
definition ENOMEM :: int where "ENOMEM = 12"

definition SCTP_FUTURE_ASSOC :: u32 where "SCTP_FUTURE_ASSOC = 0"
definition SCTP_CURRENT_ASSOC :: u32 where "SCTP_CURRENT_ASSOC = 1"
definition SCTP_ALL_ASSOC :: u32 where "SCTP_ALL_ASSOC = 2"

definition SCTP_FIND_STCB :: "(u32 \<Rightarrow> nat option) \<Rightarrow> sctp_inpcb \<Rightarrow> u32 \<Rightarrow> int + nat option" where
  "SCTP_FIND_STCB lookup inp assoc_id =
     (if tcptype inp then Inr (if sctp_asoc_list inp = [] then None else Some 0)
      else if assoc_id > SCTP_ALL_ASSOC
      then (case lookup assoc_id of None \<Rightarrow> Inl ENOENT | Some i \<Rightarrow> Inr (Some i))
      else Inr None)"

text \<open>Whether an option without an association of its own changes the endpoint, and all associations.\<close>

definition on_endpoint :: "sctp_inpcb \<Rightarrow> u32 \<Rightarrow> bool" where
  "on_endpoint inp assoc_id \<longleftrightarrow>
     tcptype inp \<or> assoc_id = SCTP_FUTURE_ASSOC \<or> assoc_id = SCTP_ALL_ASSOC"

definition on_all_assocs :: "u32 \<Rightarrow> bool" where
  "on_all_assocs assoc_id \<longleftrightarrow> assoc_id = SCTP_CURRENT_ASSOC \<or> assoc_id = SCTP_ALL_ASSOC"

section \<open>Chunk types and HMAC identifiers\<close>

definition setopt_auth_chunk :: "u8 \<Rightarrow> sctp_inpcb \<Rightarrow> int \<times> sctp_inpcb" where
  "setopt_auth_chunk sauth_chunk inp =
     (case sctp_auth_add_chunk sauth_chunk (ep_local_auth_chunks inp) of
        (r, l) \<Rightarrow> (if r \<noteq> 0 then EINVAL else 0, inp\<lparr>ep_local_auth_chunks := l\<rparr>))"

fun add_idents :: "u16 list \<Rightarrow> sctp_hmaclist \<Rightarrow> sctp_hmaclist option" where
  "add_idents [] l = Some l"
| "add_idents (h # hs) l =
     (case sctp_auth_add_hmacid (Some l) h of
        (r, l') \<Rightarrow> if r \<noteq> 0 then None else add_idents hs (the l'))"

text \<open>\<open>shmac_idents\<close> is what the option value holds behind the count.\<close>

definition setopt_hmac_ident :: "allocator \<Rightarrow> u32 \<Rightarrow> u16 list \<Rightarrow> sctp_inpcb \<Rightarrow> int \<times> sctp_inpcb" where
  "setopt_hmac_ident malloc shmac_number_of_idents shmac_idents inp =
     (if length shmac_idents < unat shmac_number_of_idents \<or> shmac_number_of_idents > 0xffff
      then (EINVAL, inp)
      else case sctp_alloc_hmaclist malloc (ucast shmac_number_of_idents) of
          None \<Rightarrow> (ENOMEM, inp)
        | Some hmaclist \<Rightarrow>
            (case add_idents (take (unat shmac_number_of_idents) shmac_idents) hmaclist of
               None \<Rightarrow> (EINVAL, inp)
             | Some hmaclist \<Rightarrow>
                 if list_ex (\<lambda>h. h = SCTP_AUTH_HMAC_ID_SHA1) (used_hmacs hmaclist)
                 then (0, inp\<lparr>ep_local_hmacs := Some hmaclist\<rparr>)
                 else (EINVAL, inp)))"

section \<open>Shared keys\<close>

text \<open>The new shared key; \<open>None\<close> when memory is exhausted.\<close>

definition new_sharedkey :: "allocator \<Rightarrow> u16 \<Rightarrow> bytes \<Rightarrow> sctp_shared_key option" where
  "new_sharedkey malloc keynumber k =
     (if k = [] then do { s \<leftarrow> sctp_alloc_sharedkey malloc; Some (s\<lparr>skey_key := None, keyid := keynumber\<rparr>) }
      else do { b \<leftarrow> sctp_set_key malloc k (word_of_nat (length k));
                s \<leftarrow> sctp_alloc_sharedkey malloc;
                Some (s\<lparr>skey_key := Some b, keyid := keynumber\<rparr>) })"

text \<open>Installing a key on an association: the error (\<open>None\<close> when there was no memory) and the association.\<close>

definition install_key :: "allocator \<Rightarrow> u16 \<Rightarrow> bytes \<Rightarrow> sctp_tcb \<Rightarrow> int option \<times> sctp_tcb" where
  "install_key malloc keynumber k stcb =
     (let stcb = sctp_clear_cachedkeys stcb keynumber
      in case new_sharedkey malloc keynumber k of
           None \<Rightarrow> (None, stcb)
         | Some s \<Rightarrow>
             (case sctp_insert_sharedkey (Some (shared_keys stcb)) (Some s) of
                (r, ks) \<Rightarrow> (Some r, stcb\<lparr>shared_keys := the ks\<rparr>)))"

definition install_key_ep :: "allocator \<Rightarrow> u16 \<Rightarrow> bytes \<Rightarrow> sctp_inpcb \<Rightarrow> int option \<times> sctp_inpcb" where
  "install_key_ep malloc keynumber k inp =
     (let inp = sctp_clear_cachedkeys_ep inp keynumber
      in case new_sharedkey malloc keynumber k of
           None \<Rightarrow> (None, inp)
         | Some s \<Rightarrow>
             (case sctp_insert_sharedkey (Some (ep_shared_keys inp)) (Some s) of
                (r, ks) \<Rightarrow> (Some r, inp\<lparr>ep_shared_keys := the ks\<rparr>)))"

text \<open>The loop over the associations; out of memory goes on with the next one and keeps the error.\<close>

fun install_all :: "allocator \<Rightarrow> u16 \<Rightarrow> bytes \<Rightarrow> sctp_tcb list \<Rightarrow> int \<Rightarrow> int \<times> sctp_tcb list" where
  "install_all malloc keynumber k [] error = (error, [])"
| "install_all malloc keynumber k (stcb # rest) error =
     (case install_key malloc keynumber k stcb of
        (r, stcb') \<Rightarrow>
          (case install_all malloc keynumber k rest (case r of None \<Rightarrow> error | Some e \<Rightarrow> e) of
             (error', rest') \<Rightarrow> (error', stcb' # rest')))"

text \<open>\<open>sca_key\<close> is what the option value holds behind the header.\<close>

definition setopt_auth_key :: "allocator \<Rightarrow> (u32 \<Rightarrow> nat option) \<Rightarrow> u32 \<Rightarrow> u16 \<Rightarrow> u16 \<Rightarrow> bytes \<Rightarrow> sctp_inpcb \<Rightarrow>
    int \<times> sctp_inpcb" where
  "setopt_auth_key malloc lookup sca_assoc_id sca_keynumber sca_keylength sca_key inp =
     (if sca_keylength \<noteq> 0 \<and> \<not> unat sca_keylength \<le> length sca_key then (EINVAL, inp)
      else let k = (if sca_keylength = 0 then sca_key else take (unat sca_keylength) sca_key)
           in case SCTP_FIND_STCB lookup inp sca_assoc_id of
               Inl e \<Rightarrow> (e, inp)
             | Inr (Some i) \<Rightarrow>
                 (case install_key malloc sca_keynumber k (sctp_asoc_list inp ! i) of
                    (r, stcb) \<Rightarrow> (case r of None \<Rightarrow> ENOMEM | Some e \<Rightarrow> e,
                       inp\<lparr>sctp_asoc_list := (sctp_asoc_list inp)[i := stcb]\<rparr>))
             | Inr None \<Rightarrow>
                 (case (if on_endpoint inp sca_assoc_id then install_key_ep malloc sca_keynumber k inp
                        else (Some 0, inp)) of
                    (None, inp) \<Rightarrow> (ENOMEM, inp)
                  | (Some e, inp) \<Rightarrow>
                      if on_all_assocs sca_assoc_id
                      then (case install_all malloc sca_keynumber k (sctp_asoc_list inp) e of
                              (e', l) \<Rightarrow> (e', inp\<lparr>sctp_asoc_list := l\<rparr>))
                      else (e, inp)))"

text \<open>
  The three options that name a key have the same shape: the operation on the association found, or
  on the endpoint and all associations, where the results for the associations are ignored.
\<close>

definition keyid_option :: "(sctp_tcb \<Rightarrow> u16 \<Rightarrow> int \<times> sctp_tcb) \<Rightarrow> (sctp_inpcb \<Rightarrow> u16 \<Rightarrow> int \<times> sctp_inpcb) \<Rightarrow>
    (u32 \<Rightarrow> nat option) \<Rightarrow> u32 \<Rightarrow> u16 \<Rightarrow> sctp_inpcb \<Rightarrow> int \<times> sctp_inpcb" where
  "keyid_option on_stcb on_ep lookup assoc_id keynumber inp =
     (case SCTP_FIND_STCB lookup inp assoc_id of
        Inl e \<Rightarrow> (e, inp)
      | Inr (Some i) \<Rightarrow>
          (case on_stcb (sctp_asoc_list inp ! i) keynumber of
             (r, stcb) \<Rightarrow> (if r \<noteq> 0 then EINVAL else 0, inp\<lparr>sctp_asoc_list := (sctp_asoc_list inp)[i := stcb]\<rparr>))
      | Inr None \<Rightarrow>
          (case (if on_endpoint inp assoc_id then on_ep inp keynumber else (0, inp)) of
             (r, inp) \<Rightarrow>
               (if r \<noteq> 0 then EINVAL else 0,
                if on_all_assocs assoc_id
                then inp\<lparr>sctp_asoc_list := map (\<lambda>stcb. snd (on_stcb stcb keynumber)) (sctp_asoc_list inp)\<rparr>
                else inp)))"

definition setopt_auth_active_key :: "(u32 \<Rightarrow> nat option) \<Rightarrow> u32 \<Rightarrow> u16 \<Rightarrow> sctp_inpcb \<Rightarrow> int \<times> sctp_inpcb" where
  "setopt_auth_active_key = keyid_option sctp_auth_setactivekey sctp_auth_setactivekey_ep"

definition setopt_auth_delete_key :: "(u32 \<Rightarrow> nat option) \<Rightarrow> u32 \<Rightarrow> u16 \<Rightarrow> sctp_inpcb \<Rightarrow> int \<times> sctp_inpcb" where
  "setopt_auth_delete_key =
     keyid_option (\<lambda>s k. case sctp_delete_sharedkey (Some s) k of (r, s') \<Rightarrow> (r, the s'))
       (\<lambda>i k. case sctp_delete_sharedkey_ep (Some i) k of (r, i') \<Rightarrow> (r, the i'))"

definition setopt_auth_deactivate_key :: "(u32 \<Rightarrow> nat option) \<Rightarrow> u32 \<Rightarrow> u16 \<Rightarrow> sctp_inpcb \<Rightarrow> int \<times> sctp_inpcb" where
  "setopt_auth_deactivate_key =
     keyid_option (\<lambda>s k. case sctp_deact_sharedkey (Some s) k of (r, s') \<Rightarrow> (r, the s'))
       (\<lambda>i k. case sctp_deact_sharedkey_ep (Some i) k of (r, i') \<Rightarrow> (r, the i'))"

end
