(* ===== verification/Auth_Params.thy ===== *)
theory Auth_Params
  imports Auth_Assoc
begin

text \<open>
  The parameters of INIT, INIT-ACK and cookie that carry the keying material (the end of
  netinet/sctp_auth.c): building the local key vector of a new association, recovering it from a
  cookie, and checking the parameters of a received INIT.

  The loops over the parameters of a chunk read a header at the current offset, handle the parameter
  and go on behind it; they end because the offset grows and stays inside the chain.
\<close>

definition SCTP_RANDOM :: u16 where "SCTP_RANDOM = 0x8002"
definition SCTP_CHUNK_LIST :: u16 where "SCTP_CHUNK_LIST = 0x8003"
definition SCTP_HMAC_LIST :: u16 where "SCTP_HMAC_LIST = 0x8004"
definition SCTP_SUPPORTED_CHUNK_EXT :: u16 where "SCTP_SUPPORTED_CHUNK_EXT = 0x8008"
definition SCTP_ASCONF :: u8 where "SCTP_ASCONF = 0xc1"
definition SCTP_ASCONF_ACK :: u8 where "SCTP_ASCONF_ACK = 0x80"
definition SCTP_PARAM_BUFFER_SIZE :: u16 where "SCTP_PARAM_BUFFER_SIZE = 512"
definition SCTP_SMALL_CHUNK_STORE :: u16 where "SCTP_SMALL_CHUNK_STORE = 260"
definition SCTP_AUTH_RANDOM_SIZE_DEFAULT :: u16 where "SCTP_AUTH_RANDOM_SIZE_DEFAULT = 32"
definition SCTP_AUTH_RANDOM_SIZE_REQUIRED :: u16 where "SCTP_AUTH_RANDOM_SIZE_REQUIRED = 32"

section \<open>Building the local key vector\<close>

definition param_header :: "u16 \<Rightarrow> u16 \<Rightarrow> bytes" where
  "param_header ptype plen = bytes_of_be16 ptype @ bytes_of_be16 plen"

text \<open>Filling the block: RANDOM, the list of chunks, the list of HMAC identifiers.\<close>

definition fill_key_vector :: "auth_env \<Rightarrow> bytes \<Rightarrow> u16 \<Rightarrow> u16 \<Rightarrow> u16 \<Rightarrow> sctp_tcb \<Rightarrow> bytes option" where
  "fill_key_vector env b rlen clen hlen stcb =
     do { b \<leftarrow> wr b 0 (param_header SCTP_RANDOM (4 + rlen));
          b \<leftarrow> wr b 4 (env_random env (unat rlen));
          let kl = 4 + unat rlen;
          b \<leftarrow> wr b kl (param_header SCTP_CHUNK_LIST (4 + clen));
          let kl = kl + 4;
          let cs = (case local_auth_chunks stcb of None \<Rightarrow> [] | Some l \<Rightarrow> listed_chunks l);
          b \<leftarrow> wr b kl cs;
          let kl = kl + length cs;
          b \<leftarrow> wr b kl (param_header SCTP_HMAC_LIST (4 + hlen));
          wr b (kl + 4) (fst (sctp_serialize_hmaclist (local_hmacs stcb))) }"

definition sctp_initialize_auth_params :: "auth_env \<Rightarrow> sctp_inpcb \<Rightarrow> sctp_tcb \<Rightarrow> sctp_tcb option" where
  "sctp_initialize_auth_params env inp stcb =
     (let malloc = env_malloc env;
          rlen = SCTP_AUTH_RANDOM_SIZE_DEFAULT;
          stcb = stcb\<lparr>local_hmacs := sctp_copy_hmaclist malloc (ep_local_hmacs inp)\<rparr>;
          hlen = (case local_hmacs stcb of None \<Rightarrow> 0 | Some l \<Rightarrow> num_algo l * 2);
          stcb = stcb\<lparr>local_auth_chunks := sctp_copy_chunklist malloc (ep_local_auth_chunks inp)\<rparr>;
          clen = (case local_auth_chunks stcb of
                          None \<Rightarrow> 0 | Some l \<Rightarrow> word_of_nat (length (listed_chunks l)));
          stcb = upd_auth (\<lambda>a. a\<lparr>active_keyid := default_keyid inp\<rparr>) stcb;
          stcb = stcb\<lparr>shared_keys :=
                        the (snd (sctp_copy_skeylist malloc (Some (ep_shared_keys inp)) (Some (shared_keys stcb))))\<rparr>;
          klen = 12 + rlen + clen + hlen
      in do { new_key \<leftarrow> (case sctp_alloc_key malloc (ucast klen) of
                  None \<Rightarrow> Some None
                | Some k \<Rightarrow> do { b \<leftarrow> fill_key_vector env (key k) rlen clen hlen stcb;
                                 Some (Some (k\<lparr>key := b\<rparr>)) });
              Some (upd_auth (\<lambda>a. a\<lparr>ai_random := new_key, random_len := ucast rlen\<rparr>) stcb) })"

text \<open>
  The authentication state of a new endpoint, from the end of \<^verbatim>\<open>sctp_inpcb_alloc\<close>
  (netinet/sctp_pcb.c): key id 0 is the empty key, and an endpoint that reconfigures addresses has
  the chunks for it authenticated.
\<close>

definition inpcb_alloc_auth :: "allocator \<Rightarrow> bool \<Rightarrow> bool \<Rightarrow> sctp_inpcb" where
  "inpcb_alloc_auth malloc asconf_supported one_to_one =
     (let hmacs = sctp_default_supported_hmaclist malloc;
          cs = sctp_alloc_chunklist malloc;
          cs = (if asconf_supported
                then snd (sctp_auth_add_chunk SCTP_ASCONF_ACK (snd (sctp_auth_add_chunk SCTP_ASCONF cs))) else cs);
          ks = snd (sctp_insert_sharedkey (Some []) (sctp_alloc_sharedkey malloc))
      in \<lparr>default_keyid = 0, ep_shared_keys = the ks, ep_local_hmacs = hmacs, ep_local_auth_chunks = cs,
          tcptype = one_to_one, sctp_asoc_list = []\<rparr>)"

section \<open>Recovering it from a cookie\<close>

text \<open>The local variables of \<^verbatim>\<open>sctp_auth_get_cookie_params\<close>, and the association.\<close>

record cookie_vars =
  p_random :: "bytes option"
  cv_random_len :: u16
  cv_hmacs :: "bytes option"
  cv_hmacs_len :: u16
  cv_chunks :: "bytes option"
  cv_num_chunks :: u16
  cv_stcb :: sctp_tcb

text \<open>How a parameter is handled: leave the loop, leave the function, or go on; \<open>Outside\<close> when a block is overrun.\<close>

datatype 'v param_step = Break | Return | Next 'v | Outside

definition cookie_hmacs :: "allocator \<Rightarrow> bytes \<Rightarrow> u16 \<Rightarrow> cookie_vars \<Rightarrow> cookie_vars param_step" where
  "cookie_hmacs malloc p plen v =
     (let len = plen - 4;
          num_hmacs = len div 2;
          v = v\<lparr>cv_hmacs := Some p, cv_hmacs_len := len\<rparr>
      in case sctp_alloc_hmaclist malloc num_hmacs of
           None \<Rightarrow> Next (v\<lparr>cv_stcb := (cv_stcb v)\<lparr>local_hmacs := None\<rparr>\<rparr>)
         | Some l \<Rightarrow>
             if length p < 4 + 2 * unat num_hmacs then Outside
             else Next (v\<lparr>cv_stcb := (cv_stcb v)\<lparr>local_hmacs :=
                    fold (\<lambda>i l. snd (sctp_auth_add_hmacid l (hmac_id_at p i))) [0..<unat num_hmacs] (Some l)\<rparr>\<rparr>))"

definition cookie_chunks :: "allocator \<Rightarrow> bytes \<Rightarrow> u16 \<Rightarrow> cookie_vars \<Rightarrow> cookie_vars param_step" where
  "cookie_chunks malloc p plen v =
     (let num = plen - 4;
          v = v\<lparr>cv_chunks := Some p, cv_num_chunks := num\<rparr>;
          l = (case local_auth_chunks (cv_stcb v) of
                 Some l \<Rightarrow> Some (sctp_clear_chunklist l) | None \<Rightarrow> sctp_alloc_chunklist malloc)
      in if length p < 4 + unat num then Outside
         else Next (v\<lparr>cv_stcb := (cv_stcb v)\<lparr>local_auth_chunks := add_all (take (unat num) (drop 4 p)) l\<rparr>\<rparr>))"

definition cookie_param :: "allocator \<Rightarrow> mchain \<Rightarrow> u32 \<Rightarrow> u16 \<Rightarrow> u16 \<Rightarrow> cookie_vars \<Rightarrow> cookie_vars param_step" where
  "cookie_param malloc m offset ptype plen v =
     (if ptype = SCTP_RANDOM \<or> ptype = SCTP_HMAC_LIST \<or> ptype = SCTP_CHUNK_LIST
      then if plen > SCTP_PARAM_BUFFER_SIZE then Break
           else case sctp_get_next_param m (sint offset) (uint plen) of
               None \<Rightarrow> Return
             | Some p \<Rightarrow>
                 if ptype = SCTP_RANDOM then Next (v\<lparr>p_random := Some p, cv_random_len := plen - 4\<rparr>)
                 else if ptype = SCTP_HMAC_LIST then cookie_hmacs malloc p plen v
                 else cookie_chunks malloc p plen v
      else Next v)"

text \<open>
  The loop: whether the function returned inside it, and the variables. The test for the end of the
  parameters is done in 64 bits, that of the parameter's length in 32 bits.
\<close>

function cookie_loop :: "allocator \<Rightarrow> mchain \<Rightarrow> u32 \<Rightarrow> u32 \<Rightarrow> cookie_vars \<Rightarrow> (bool \<times> cookie_vars) option" where
  "cookie_loop malloc m len offset v =
     (case sctp_m_getptr m (sint offset) 4 of
        None \<Rightarrow> Some (False, v)
      | Some phdr \<Rightarrow>
          let ptype = ntohs_at phdr 0; plen = ntohs_at phdr 2
          in if plen = 0 \<or> offset + ucast plen > len then Some (False, v)
             else case cookie_param malloc m offset ptype plen v of
                 Outside \<Rightarrow> None
               | Break \<Rightarrow> Some (False, v)
               | Return \<Rightarrow> Some (True, v)
               | Next v' \<Rightarrow>
                   let offset' = offset + SCTP_SIZE32 (ucast plen)
                   in if unat offset' + 4 > unat len then Some (False, v')
                      else cookie_loop malloc m len offset' v')"
  by pat_completeness auto

lemma unat_SIZE32:
  assumes "unat x < 2 ^ 32 - 3"
  shows "unat (SCTP_SIZE32 x) = (unat x + 3) div 4 * 4"
proof -
  have "unat (x + 3) = unat x + 3" using assms by (simp add: unat_word_ariths)
  moreover have "unat (push_bit 2 (drop_bit 2 (x + 3)) :: u32) = unat (x + 3) div 4 * 4"
  proof -
    have "push_bit 2 (drop_bit 2 (x + 3)) = (x + 3) div 4 * 4"
      by (simp add: drop_bit_eq_div push_bit_eq_mult)
    moreover have "unat (x + 3) div 4 * 4 \<le> unat (x + 3)" by simp
    ultimately show ?thesis
      using unat_u32_bound [of "x + 3"] by (simp add: unat_word_ariths unat_div)
  qed
  ultimately show ?thesis by (simp add: SCTP_SIZE32_def)
qed

lemma sint_nonneg_bound:
  assumes "0 \<le> sint (w :: u32)"
  shows "unat w < 2 ^ 31" and "sint w = int (unat w)"
proof -
  have less: "sint w < 2 ^ 31" using sint_less [of w] by simp
  have "uint w = take_bit 32 (sint w)" using uint_sint [of w] by simp
  also have "\<dots> = sint w" using assms less by (simp add: take_bit_int_eq_self)
  finally have u: "uint w = sint w" .
  then show "sint w = int (unat w)" by simp
  have "int (unat w) < int (2 ^ 31)" using u less by simp
  then show "unat w < 2 ^ 31" by (simp only: of_nat_less_iff)
qed

lemma param_progress:
  assumes "sctp_m_getptr m (sint offset) n = Some p" "plen \<noteq> (0 :: u16)"
  shows "unat (offset + SCTP_SIZE32 (ucast plen)) = unat offset + (unat plen + 3) div 4 * 4"
    "unat offset < unat (offset + SCTP_SIZE32 (ucast plen))"
proof -
  have "0 \<le> sint offset" using assms(1) by (simp add: m_getptr_eq split: if_splits)
  note o = sint_nonneg_bound(1) [OF this]
  have pl: "unat plen < 2 ^ 16" using unsigned_less [of plen, where 'a = nat] by simp
  have up: "unat (ucast plen :: u32) = unat plen" using pl by (simp add: unsigned_ucast_eq take_bit_nat_eq_self)
  have s: "unat (SCTP_SIZE32 (ucast plen)) = (unat plen + 3) div 4 * 4"
    using unat_SIZE32 [of "ucast plen"] pl up by simp
  have b: "(unat plen + 3) div 4 * 4 \<le> 65538" using pl by simp
  then show eq: "unat (offset + SCTP_SIZE32 (ucast plen)) = unat offset + (unat plen + 3) div 4 * 4"
    using o s by (simp add: unat_word_ariths)
  have "0 < unat plen" using assms(2) by (simp add: unat_gt_0)
  then have "0 < (unat plen + 3) div 4 * 4" by simp
  with eq show "unat offset < unat (offset + SCTP_SIZE32 (ucast plen))" by simp
qed

termination cookie_loop
  by (relation "measure (\<lambda>(malloc, m, len, offset, v). 2 ^ 32 - unat offset)")
    (use param_progress(2) unat_u32_bound in \<open>auto intro!: diff_less_mono2\<close>)

text \<open>
  The concatenated key. The variable \<^verbatim>\<open>keylen\<close> is the offset for the appended parts; it starts as
  the full length and is only set to the length of RANDOM when that parameter was found.
\<close>

definition cookie_key :: "allocator \<Rightarrow> cookie_vars \<Rightarrow> sctp_key option option" where
  "cookie_key malloc v =
     (let klen = 8 + ucast (cv_random_len v) + ucast (cv_hmacs_len v);
          klen = (if cv_chunks v \<noteq> None then klen + 4 + ucast (cv_num_chunks v) else klen)
      in case sctp_alloc_key malloc klen of
           None \<Rightarrow> Some None
         | Some new_key \<Rightarrow>
             do { (b, kl) \<leftarrow> (case p_random v of
                      None \<Rightarrow> Some (key new_key, unat klen)
                    | Some p \<Rightarrow> do { x \<leftarrow> rd p 0 (4 + unat (cv_random_len v));
                                     b \<leftarrow> wr (key new_key) 0 x;
                                     Some (b, 4 + unat (cv_random_len v)) });
                  (b, kl) \<leftarrow> (case cv_chunks v of
                      None \<Rightarrow> Some (b, kl)
                    | Some p \<Rightarrow> do { x \<leftarrow> rd p 0 (4 + unat (cv_num_chunks v));
                                     b \<leftarrow> wr b kl x;
                                     Some (b, kl + 4 + unat (cv_num_chunks v)) });
                  b \<leftarrow> (case cv_hmacs v of
                      None \<Rightarrow> Some b
                    | Some p \<Rightarrow> do { x \<leftarrow> rd p 0 (4 + unat (cv_hmacs_len v)); wr b kl x });
                  Some (Some (new_key\<lparr>key := b\<rparr>)) })"

definition sctp_auth_get_cookie_params :: "allocator \<Rightarrow> sctp_inpcb \<Rightarrow> sctp_tcb \<Rightarrow> mchain \<Rightarrow> u32 \<Rightarrow> u32 \<Rightarrow>
    sctp_tcb option" where
  "sctp_auth_get_cookie_params malloc inp stcb m offset len =
     do { (returned, v) \<leftarrow> cookie_loop malloc m (len + offset) offset
            \<lparr>p_random = None, cv_random_len = 0, cv_hmacs = None, cv_hmacs_len = 0,
             cv_chunks = None, cv_num_chunks = 0, cv_stcb = stcb\<rparr>;
          let stcb = cv_stcb v;
          if returned then Some stcb
          else do { new_key \<leftarrow> cookie_key malloc v;
                    let stcb = upd_auth (\<lambda>a. a\<lparr>ai_random := new_key, random_len := ucast (cv_random_len v)\<rparr>) stcb;
                    let stcb = sctp_clear_cachedkeys stcb (assoc_keyid (authinfo stcb));
                    let stcb = sctp_clear_cachedkeys stcb (recv_keyid (authinfo stcb));
                    let stcb = stcb\<lparr>peer_hmac_id := sctp_negotiate_hmacid (peer_hmacs stcb) (local_hmacs stcb)\<rparr>;
                    let stcb = upd_auth (\<lambda>a. a\<lparr>active_keyid := default_keyid inp\<rparr>) stcb;
                    Some (stcb\<lparr>shared_keys := the (snd (sctp_copy_skeylist malloc (Some (ep_shared_keys inp))
                                                          (Some (shared_keys stcb))))\<rparr>) } }"

text \<open>
  The end of \<^verbatim>\<open>sctp_load_addresses_from_init\<close> (netinet/sctp_pcb.c), where the peer's key vector is
  concatenated in the same way from the parameters of an INIT or INIT-ACK; the loop over its parameters,
  which also loads the addresses, is not modelled, the variables it leaves are the argument.
\<close>

definition load_peer_key :: "allocator \<Rightarrow> cookie_vars \<Rightarrow> (int \<times> sctp_tcb) option" where
  "load_peer_key malloc v =
     do { new_key \<leftarrow> cookie_key malloc v;
          Some (case new_key of
              None \<Rightarrow> (-34, cv_stcb v)
            | Some k \<Rightarrow>
                let stcb = upd_auth (\<lambda>a. a\<lparr>peer_random := Some k\<rparr>) (cv_stcb v);
                    stcb = sctp_clear_cachedkeys stcb (assoc_keyid (authinfo stcb))
                in (0, sctp_clear_cachedkeys stcb (recv_keyid (authinfo stcb)))) }"

section \<open>Checking the parameters of an INIT\<close>

record init_flags =
  peer_supports_asconf :: bool
  got_random :: bool
  got_hmacs :: bool
  got_chklist :: bool
  saw_asconf :: bool
  saw_asconf_ack :: bool

definition init_no_flags :: init_flags where
  "init_no_flags = \<lparr>peer_supports_asconf = False, got_random = False, got_hmacs = False,
     got_chklist = False, saw_asconf = False, saw_asconf_ack = False\<rparr>"

text \<open>Handling one parameter; \<open>Return\<close> is the return of -1. No step leaves a block.\<close>

definition init_param :: "mchain \<Rightarrow> int \<Rightarrow> u16 \<Rightarrow> u16 \<Rightarrow> init_flags \<Rightarrow> init_flags param_step" where
  "init_param m offset ptype plen f =
     (if ptype = SCTP_SUPPORTED_CHUNK_EXT
      then if plen > SCTP_SMALL_CHUNK_STORE then Break
           else case sctp_get_next_param m offset (uint plen) of
               None \<Rightarrow> Return
             | Some p \<Rightarrow>
                 if list_ex (\<lambda>c. c = SCTP_ASCONF \<or> c = SCTP_ASCONF_ACK) (drop 4 p)
                 then Next (f\<lparr>peer_supports_asconf := True\<rparr>) else Next f
      else if ptype = SCTP_RANDOM
      then if plen \<noteq> 4 + SCTP_AUTH_RANDOM_SIZE_REQUIRED then Return else Next (f\<lparr>got_random := True\<rparr>)
      else if ptype = SCTP_HMAC_LIST
      then if plen > SCTP_PARAM_BUFFER_SIZE then Break
           else case sctp_get_next_param m offset (uint plen) of
               None \<Rightarrow> Return
             | Some p \<Rightarrow>
                 if sctp_verify_hmac_param p ((unat plen - 4) div 2) \<noteq> 0 then Return
                 else Next (f\<lparr>got_hmacs := True\<rparr>)
      else if ptype = SCTP_CHUNK_LIST
      then if plen > SCTP_SMALL_CHUNK_STORE then Break
           else case sctp_get_next_param m offset (uint plen) of
               None \<Rightarrow> Return
             | Some p \<Rightarrow>
                 let cs = drop 4 p
                 in Next (f\<lparr>saw_asconf := saw_asconf f \<or> list_ex (\<lambda>c. c = SCTP_ASCONF) cs,
                            saw_asconf_ack := saw_asconf_ack f \<or> list_ex (\<lambda>c. c = SCTP_ASCONF_ACK) cs,
                            got_chklist := got_chklist f \<or> cs \<noteq> []\<rparr>)
      else Next f)"

text \<open>The loop; \<open>None\<close> is the return of -1 inside it.\<close>

function init_loop :: "mchain \<Rightarrow> int \<Rightarrow> int \<Rightarrow> init_flags \<Rightarrow> init_flags option" where
  "init_loop m offset limit f =
     (case sctp_get_next_param m offset 4 of
        None \<Rightarrow> Some f
      | Some phdr \<Rightarrow>
          let ptype = ntohs_at phdr 0; plen = ntohs_at phdr 2
          in if offset + uint plen > limit then Some f
             else if plen < 4 then Some f
             else case init_param m offset ptype plen f of
                 Next f' \<Rightarrow>
                   let offset' = offset + uint (SCTP_SIZE32 (ucast plen))
                   in if offset' \<ge> limit then Some f' else init_loop m offset' limit f'
               | Break \<Rightarrow> Some f
               | _ \<Rightarrow> None)"
  by pat_completeness auto

termination init_loop
proof (relation "measure (\<lambda>(m, offset, limit, f). nat (limit - offset))", goal_cases)
  case (2 m offset limit f phdr ptype plen f' offset')
  have "(4 :: u16) \<le> plen" using 2 by simp
  then have "4 \<le> unat plen" by (simp add: word_le_nat_alt)
  moreover have "unat plen < 2 ^ 16" using unsigned_less [of plen, where 'a = nat] by simp
  moreover have "unat (ucast plen :: u32) = unat plen"
    using \<open>unat plen < 2 ^ 16\<close> by (simp add: unsigned_ucast_eq take_bit_nat_eq_self)
  ultimately have "0 < unat (SCTP_SIZE32 (ucast plen))" using unat_SIZE32 [of "ucast plen"] by simp
  then have "0 < int (unat (SCTP_SIZE32 (ucast plen)))" by (simp only: of_nat_0_less_iff)
  then have "0 < uint (SCTP_SIZE32 (ucast plen))" by simp
  with 2 show ?case by auto
qed simp

declare cookie_loop.simps [simp del] init_loop.simps [simp del]

definition sctp_validate_init_auth_params :: "mchain \<Rightarrow> int \<Rightarrow> int \<Rightarrow> int" where
  "sctp_validate_init_auth_params m offset limit =
     (case init_loop m offset limit init_no_flags of
        None \<Rightarrow> -1
      | Some f \<Rightarrow>
          let peer_supports_auth = (got_random f \<and> got_hmacs f)
          in if \<not> peer_supports_auth \<and> got_chklist f then -1
             else if peer_supports_asconf f \<and> \<not> peer_supports_auth then -1
             else if peer_supports_asconf f \<and> peer_supports_auth \<and> (\<not> saw_asconf f \<or> \<not> saw_asconf_ack f) then -2
             else 0)"

end
