(* ===== verification/Auth_Packet.thy ===== *)
theory Auth_Packet
  imports Auth_Assoc
begin

text \<open>
  Sending and receiving authenticated packets: what \<^verbatim>\<open>sctp_fill_hmac_digest_m\<close> writes into a packet,
  which packets \<^verbatim>\<open>sctp_handle_auth\<close> accepts, that the receiver accepts what the sender has filled in,
  and what happens when the digest lies in two mbufs.
\<close>

section \<open>Writing into a chain\<close>

text \<open>The \<open>n\<close> bytes at an offset lie in one mbuf.\<close>

fun fits :: "mchain \<Rightarrow> nat \<Rightarrow> nat \<Rightarrow> bool" where
  "fits [] off n \<longleftrightarrow> False"
| "fits (d # m) off n \<longleftrightarrow> (if off < length d then off + n \<le> length d else fits m (off - length d) n)"

definition overwrite :: "bytes \<Rightarrow> nat \<Rightarrow> bytes \<Rightarrow> bytes" where
  "overwrite b off src = take off b @ src @ drop (off + length src) b"

lemma length_overwrite: "off + length src \<le> length b \<Longrightarrow> length (overwrite b off src) = length b"
  by (simp add: overwrite_def)

lemma wr_overwrite: "wr buf off src = (if off + length src \<le> length buf then Some (overwrite buf off src) else None)"
  by (simp add: wr_def overwrite_def)

lemma fits_bound: "fits m off n \<Longrightarrow> off + n \<le> length (concat m)"
  by (induction m off n rule: fits.induct) (auto split: if_splits)

lemma fits_shape: "map length m = map length m' \<Longrightarrow> fits m off n = fits m' off n"
proof (induction m arbitrary: m' off)
  case (Cons d m)
  then obtain d' r where r: "m' = d' # r" "length d' = length d" "map length m = map length r" by (cases m') auto
  from Cons.IH [OF r(3)] r(1,2) show ?case by simp
qed auto

lemma fits_sub: "fits m off n \<Longrightarrow> j + k \<le> n \<Longrightarrow> 0 < k \<Longrightarrow> fits m (off + j) k"
proof (induction m arbitrary: off)
  case (Cons d m)
  show ?case
  proof (cases "off < length d")
    case True
    with Cons show ?thesis by simp
  next
    case False
    with Cons.prems have "fits m (off - length d) n" by simp
    from Cons.IH [OF this Cons.prems(2,3)] False show ?thesis by simp
  qed
qed simp

lemma chain_write_fits:
  assumes "fits m off (length src)"
  shows "\<exists>m'. chain_write m off src = Some m' \<and> concat m' = overwrite (concat m) off src \<and> map length m' = map length m"
  using assms
proof (induction m arbitrary: off)
  case (Cons d m)
  show ?case
  proof (cases "off < length d")
    case True
    with Cons.prems show ?thesis by (simp add: wr_overwrite length_overwrite) (simp add: overwrite_def)
  next
    case False
    with Cons obtain m' where "chain_write m (off - length d) src = Some m'"
      "concat m' = overwrite (concat m) (off - length d) src" "map length m' = map length m" by auto
    with False show ?thesis by (simp add: overwrite_def)
  qed
qed simp

lemma chain_block_fits: "fits m off n \<Longrightarrow> n \<le> length (chain_block m off)"
  by (induction m off n rule: fits.induct) (auto split: if_splits)

section \<open>Clearing the digest\<close>

lemma chain_seek_suffix: "length (snd (chain_seek off m)) \<le> length m"
  by (induction off m rule: chain_seek.induct) auto

lemma zero_m_Cons:
  "sctp_zero_m (d # m) off sz =
     (if off \<ge> word_of_nat (length d)
      then Option.bind (sctp_zero_m m (off - word_of_nat (length d)) sz) (\<lambda>r. Some (d # r))
      else zero_loop off sz (d # m))"
  using chain_seek_suffix [of "off - word_of_nat (length d)" m]
  by (cases "chain_seek (off - word_of_nat (length d)) m")
    (auto simp: sctp_zero_m_def Suc_diff_le split: bind_splits)

lemma zero_loop_0: "zero_loop 0 0 m = Some m"
  by (cases m) auto

lemma zero_m_fits:
  assumes "0 < sz" "length (concat m) < 2 ^ 32" "fits m (unat off) (unat sz)"
  shows "sctp_zero_m m off sz = chain_write m (unat off) (replicate (unat sz) 0)"
  using assms(2,3)
proof (induction m arbitrary: off)
  case (Cons d m)
  have d: "unat (word_of_nat (length d) :: u32) = length d" using Cons.prems(1) by (simp add: unat_len)
  show ?case
  proof (cases "unat off < length d")
    case True
    then have lt: "\<not> off \<ge> word_of_nat (length d)" by (simp add: word_le_nat_alt d)
    have le: "\<not> sz > word_of_nat (length d)" "unat off + unat sz \<le> length d"
      using True Cons.prems(2) by (simp_all add: word_less_nat_alt d)
    with lt True assms(1) show ?thesis by (simp add: zero_m_Cons zero_loop_0 Let_def)
  next
    case False
    then have ge: "off \<ge> word_of_nat (length d)" by (simp add: word_le_nat_alt d)
    then have u: "unat (off - word_of_nat (length d)) = unat off - length d"
      by (simp add: unat_sub word_le_nat_alt d)
    have "length (concat m) < 2 ^ 32" "fits m (unat off - length d) (unat sz)"
      using Cons.prems False by simp_all
    with Cons.IH [of "off - word_of_nat (length d)"] ge u False show ?thesis
      by (simp add: zero_m_Cons)
  qed
qed simp

lemma zero_m_straddles:
  assumes "length (concat (pre @ d # post)) < 2 ^ 32" "unat off = length (concat pre) + k"
    and "0 < k" "k < length d" "length d < k + unat sz"
  shows "sctp_zero_m (pre @ d # post) off sz = None"
  using assms(1,2)
proof (induction pre arbitrary: off)
  case Nil
  have d: "unat (word_of_nat (length d) :: u32) = length d" using Nil.prems(1) by (simp add: unat_len)
  have "\<not> off \<ge> word_of_nat (length d)" using Nil.prems(2) assms(4) by (simp add: word_le_nat_alt d)
  moreover have "0 < sz" using assms(4,5) by (simp add: word_less_nat_alt)
  ultimately show ?case using Nil.prems(2) assms(3-5) d
    by (auto simp: zero_m_Cons Let_def wr_def word_less_nat_alt)
next
  case (Cons e pre)
  have e: "unat (word_of_nat (length e) :: u32) = length e" using Cons.prems(1) by (simp add: unat_len)
  have ge: "off \<ge> word_of_nat (length e)" using Cons.prems(2) by (simp add: word_le_nat_alt e)
  then have "unat (off - word_of_nat (length e)) = length (concat pre) + k"
    using Cons.prems(2) by (simp add: unat_sub word_le_nat_alt e)
  with Cons ge show ?case by (simp add: zero_m_Cons)
qed

section \<open>Receiving\<close>

definition env_ok :: "auth_env \<Rightarrow> bool" where
  "env_ok env \<longleftrightarrow> malloc_sized (env_malloc env) \<and> ctx_ok (env_ctx env) \<and> length (env_temp env) = 32 \<and>
     length (env_digest env) = 32"

text \<open>A packet with the digest of the AUTH chunk at an offset cleared.\<close>

definition cleared :: "bytes \<Rightarrow> nat \<Rightarrow> bytes" where
  "cleared p off = overwrite p (off + 8) (replicate 20 0)"

lemma SIZE32_20: "SCTP_SIZE32 20 = 20"
  by (simp add: SCTP_SIZE32_def push_bit_eq_mult drop_bit_eq_div)

lemma handle_auth_digest:
  assumes env: "env_ok env"
    and chunk: "28 \<le> ntohs_at auth 2" "28 \<le> length auth" "ntohs_at auth 6 = SCTP_AUTH_HMAC_ID_SHA1"
    and hmac: "sctp_auth_is_supported_hmac (local_hmacs stcb) SCTP_AUTH_HMAC_ID_SHA1"
    and cache: "cache_recv_key env (emit Stat_recvauth stcb) (ntohs_at auth 4) = Some s"
      "recv_key (authinfo s) = Some k" "key_fits k"
    and m: "length (concat m) < 2 ^ 29 - 64" "fits m (unat offset + 8) 20"
  shows "\<exists>m'. concat m' = cleared (concat m) (unat offset) \<and> map length m' = map length m \<and>
    sctp_handle_auth env stcb auth m offset =
      (let s = upd_auth (\<lambda>a. a\<lparr>recv_key := Some (short_form k)\<rparr>) s
       in if take 20 (drop 8 auth) = hmac_sha1 (key_text k) (drop (unat offset) (cleared (concat m) (unat offset)))
          then Some (0, s, m') else Some (-1, emit Stat_recvauthfailed s, m'))"
proof -
  have off: "unat (offset + 8) = unat offset + 8"
    using fits_bound [OF m(2)] m(1) by (simp add: unat_word_ariths)
  have len: "length (concat m) < 2 ^ 32" using m(1) by simp
  obtain m' where w: "chain_write m (unat offset + 8) (replicate 20 0) = Some m'"
    and cm: "concat m' = cleared (concat m) (unat offset)" and shape: "map length m' = map length m"
    using chain_write_fits [of m "unat offset + 8" "replicate 20 0"] m(2) by (auto simp: cleared_def)
  have z: "sctp_zero_m m (offset + 8) 20 = Some m'"
    using zero_m_fits [of 20 m "offset + 8"] len m(2) w by (simp add: off)
  have lm: "length (concat m') = length (concat m)"
    unfolding cm cleared_def by (rule length_overwrite) (use fits_bound [OF m(2)] in simp)
  have "m' \<noteq> []" using shape m(2) by (cases m) auto
  moreover have "length (concat m') < 2 ^ 29 - 64" "unat offset \<le> length (concat m')"
    using lm m(1) fits_bound [OF m(2)] by auto
  ultimately have c: "sctp_compute_hmac_m (env_ctx env) (env_temp env) SCTP_AUTH_HMAC_ID_SHA1 (Some k) m' offset
      (Some (env_digest env)) =
    Some (20, Some (hmac_sha1 (key_text k) (drop (unat offset) (concat m')) @ drop 20 (env_digest env)), Some (short_form k))"
    using env cache(3) by (intro compute_hmac_m_eq) (auto simp: env_ok_def)
  have "\<not> ntohs_at auth 2 < 8" "\<not> unat (ntohs_at auth 2) < 28"
    using chunk(1) by (simp_all add: word_less_nat_alt word_le_nat_alt)
  moreover have "local_hmacs (emit Stat_recvauth stcb) = local_hmacs stcb" by (simp add: emit_def)
  ultimately have "sctp_handle_auth env stcb auth m offset =
      (let s = upd_auth (\<lambda>a. a\<lparr>recv_key := Some (short_form k)\<rparr>) s
       in if take 20 (drop 8 auth) = hmac_sha1 (key_text k) (drop (unat offset) (concat m'))
          then Some (0, s, m') else Some (-1, emit Stat_recvauthfailed s, m'))"
    using chunk(2,3) hmac cache(1,2) z c
    by (simp add: sctp_handle_auth_def Let_def sctp_get_hmac_digest_len_def SCTP_AUTH_DIGEST_LEN_SHA1_def
        SIZE32_20 rd_def)
  with cm shape show ?thesis by auto
qed

section \<open>Sending\<close>

lemma fill_digest:
  assumes env: "env_ok env"
    and s: "peer_hmac_id s = SCTP_AUTH_HMAC_ID_SHA1" "assoc_key (authinfo (cache_assoc_key env s key_id)) = Some k" "key_fits k"
    and m: "length (concat m) < 2 ^ 29 - 64" "fits m p 28" "unat auth_offset = p"
    and body: "body = overwrite (concat m) (p + 4) (bytes_of_be16 key_id)"
  shows "\<exists>m' s'. sctp_fill_hmac_digest_m env m auth_offset (Some p) (Some s) key_id = Some (m', Some s') \<and>
    concat m' = overwrite (cleared body p) (p + 8) (hmac_sha1 (key_text k) (drop p (cleared body p))) \<and>
    map length m' = map length m"
proof -
  let ?s = "cache_assoc_key env s key_id"
  have id: "peer_hmac_id ?s = SCTP_AUTH_HMAC_ID_SHA1"
    using s(1) by (simp add: cache_assoc_key_def upd_auth_def Let_def)
  have f8: "fits m (p + 8) 20" and f4: "fits m (p + 4) 2" using fits_sub [OF m(2)] by simp_all
  obtain m1 where m1: "chain_write m (p + 8) (replicate 20 0) = Some m1"
    "concat m1 = cleared (concat m) p" "map length m1 = map length m"
    using chain_write_fits [of m "p + 8" "replicate 20 0"] f8 by (auto simp: cleared_def)
  have "fits m1 (p + 4) (length (bytes_of_be16 key_id))" using f4 fits_shape [OF m1(3)] by simp
  from chain_write_fits [OF this] obtain m2 where m2: "chain_write m1 (p + 4) (bytes_of_be16 key_id) = Some m2"
    "concat m2 = overwrite (cleared (concat m) p) (p + 4) (bytes_of_be16 key_id)" "map length m2 = map length m"
    using m1 by auto
  have pl: "p + 28 \<le> length (concat m)" by (rule fits_bound [OF m(2)])
  have swap: "concat m2 = cleared body p"
    using pl by (simp add: m2(2) body cleared_def overwrite_def take_Cons' drop_Cons' bytes_of_be16_def min_def drop_take)
  have f2: "fits m2 (p + 8) 20" using f8 fits_shape [OF m2(3)] by simp
  have l2: "length (concat m2) = length (concat m)" using m2(3) by (simp add: length_concat)
  have "m2 \<noteq> []" using f2 by auto
  then have c: "sctp_compute_hmac_m (env_ctx env) (env_temp env) SCTP_AUTH_HMAC_ID_SHA1 (Some k) m2 auth_offset
      (Some (chain_block m2 (p + 8))) =
    Some (20, Some (hmac_sha1 (key_text k) (drop p (concat m2)) @ drop 20 (chain_block m2 (p + 8))), Some (short_form k))"
    using env s(3) chain_block_fits [OF f2] l2 m(1,3) pl
    by (subst compute_hmac_m_eq) (auto simp: env_ok_def)
  let ?h = "hmac_sha1 (key_text k) (drop p (concat m2))"
  obtain m3 where m3: "chain_write m2 (p + 8) ?h = Some m3" "concat m3 = overwrite (concat m2) (p + 8) ?h"
    "map length m3 = map length m"
    using chain_write_fits [of m2 "p + 8" ?h] f2 m2(3) by auto
  have "sctp_fill_hmac_digest_m env m auth_offset (Some p) (Some s) key_id =
    Some (m3, Some (upd_auth (\<lambda>a. a\<lparr>assoc_key := Some (short_form k)\<rparr>) ?s))"
    using s(1,2) id m1(1) m2(1) c m3(1)
    by (simp add: sctp_fill_hmac_digest_m_def Let_def sctp_get_hmac_digest_len_def SCTP_AUTH_DIGEST_LEN_SHA1_def SIZE32_20)
  with m3 swap show ?thesis by auto
qed

section \<open>Cached keys\<close>

definition shared_text :: "sctp_tcb \<Rightarrow> u16 \<Rightarrow> sctp_key option" where
  "shared_text s key_id =
     (case sctp_find_sharedkey (shared_keys s) key_id of Some skey \<Rightarrow> skey_key skey | None \<Rightarrow> None)"

text \<open>The keying material an association has for a key id.\<close>

definition secret :: "sctp_tcb \<Rightarrow> u16 \<Rightarrow> bytes" where
  "secret s key_id = assoc_secret (ai_random (authinfo s)) (peer_random (authinfo s)) (shared_text s key_id)"

definition small_key :: "sctp_key option \<Rightarrow> bool" where
  "small_key k \<longleftrightarrow> key_ok k \<and> length (key_bytes k) < 2 ^ 27"

definition keys_small :: "sctp_tcb \<Rightarrow> bool" where
  "keys_small s \<longleftrightarrow> small_key (ai_random (authinfo s)) \<and> small_key (peer_random (authinfo s)) \<and>
     (\<forall>skey\<in>set (shared_keys s). small_key (skey_key skey))"

text \<open>A cached block is the keying material, or its hash once it has been used.\<close>

definition caches :: "sctp_key option \<Rightarrow> bytes \<Rightarrow> bool" where
  "caches k kb \<longleftrightarrow> (\<forall>k'. k = Some k' \<longrightarrow> kb \<noteq> [] \<and> (k' = raw_key kb \<or> k' = short_form (raw_key kb)))"

definition cache_ok :: "sctp_tcb \<Rightarrow> bool" where
  "cache_ok s \<longleftrightarrow> caches (assoc_key (authinfo s)) (secret s (assoc_keyid (authinfo s))) \<and>
     caches (recv_key (authinfo s)) (secret s (recv_keyid (authinfo s)))"

lemma small_shared_text: "keys_small s \<Longrightarrow> small_key (shared_text s key_id)"
  using find_keyid [of "shared_keys s" key_id]
  by (auto simp: keys_small_def shared_text_def small_key_def key_ok_def key_bytes_def split: option.splits)

lemma length_secret: "keys_small s \<Longrightarrow> length (secret s key_id) < 2 ^ 29"
  using small_shared_text [of s key_id]
  by (auto simp: keys_small_def small_key_def secret_def length_assoc_secret)

lemma raw_key_fits: "kb \<noteq> [] \<Longrightarrow> length kb < 2 ^ 29 \<Longrightarrow> key_fits (raw_key kb) \<and> key_text (raw_key kb) = kb"
  by (auto simp: key_fits_def key_text_def raw_key_def word_unat_eq_iff unat_of_nat take_bit_nat_eq_self)

lemma caches_use:
  assumes "caches (Some k) kb" "length kb < 2 ^ 29"
  shows "key_fits k" "hmac_sha1 (key_text k) = hmac_sha1 kb"
  using assms raw_key_fits [of kb] short_form_fits [of "raw_key kb"] hmac_short_form [of "raw_key kb"]
  by (auto simp: caches_def fun_eq_iff)

lemma caches_short:
  assumes "caches (Some k) kb" shows "caches (Some (short_form k)) kb"
proof -
  have "short_form (short_form x) = short_form x" for x by (simp add: short_form_def)
  with assms show ?thesis by (auto simp: caches_def)
qed

lemma hashkey_caches:
  assumes "malloc_sized malloc" "keys_small s"
  shows "caches (sctp_compute_hashkey malloc (ai_random (authinfo s)) (peer_random (authinfo s)) (shared_text s key_id))
    (secret s key_id)"
    and "(\<And>n. malloc n \<noteq> None) \<Longrightarrow> secret s key_id \<noteq> [] \<Longrightarrow>
      sctp_compute_hashkey malloc (ai_random (authinfo s)) (peer_random (authinfo s)) (shared_text s key_id) \<noteq> None"
proof -
  have "length (secret s key_id) < 2 ^ 32" using length_secret [OF assms(2), of key_id] by simp
  then show "caches (sctp_compute_hashkey malloc (ai_random (authinfo s)) (peer_random (authinfo s)) (shared_text s key_id))
    (secret s key_id)"
    "(\<And>n. malloc n \<noteq> None) \<Longrightarrow> secret s key_id \<noteq> [] \<Longrightarrow>
      sctp_compute_hashkey malloc (ai_random (authinfo s)) (peer_random (authinfo s)) (shared_text s key_id) \<noteq> None"
    using hashkey_eq [OF assms(1), of "ai_random (authinfo s)" "peer_random (authinfo s)" "shared_text s key_id"]
      assms(2) small_shared_text [OF assms(2), of key_id]
    by (auto simp: secret_def keys_small_def small_key_def caches_def)
qed

lemma secret_upd_auth:
  assumes "ai_random (f (authinfo s)) = ai_random (authinfo s)" "peer_random (f (authinfo s)) = peer_random (authinfo s)"
  shows "secret (upd_auth f s) = secret s"
  using assms by (simp add: secret_def shared_text_def upd_auth_def fun_eq_iff)

lemma secret_emit [simp]: "secret (emit e s) = secret s" "authinfo (emit e s) = authinfo s"
    "shared_keys (emit e s) = shared_keys s" "local_hmacs (emit e s) = local_hmacs s"
  by (simp_all add: secret_def shared_text_def emit_def fun_eq_iff)

lemma cache_assoc_key_ok:
  assumes "malloc_sized (env_malloc env)" "keys_small s" "cache_ok s" "s' = cache_assoc_key env s key_id"
  shows "cache_ok s'" "assoc_keyid (authinfo s') = key_id" "secret s' = secret s" "shared_keys s' = shared_keys s"
    "(\<And>n. env_malloc env n \<noteq> None) \<Longrightarrow> secret s key_id \<noteq> [] \<Longrightarrow> assoc_key (authinfo s') \<noteq> None"
proof -
  have st: "(case sctp_find_sharedkey (shared_keys s) key_id of Some skey \<Rightarrow> skey_key skey | None \<Rightarrow> None) = shared_text s key_id"
    by (simp add: shared_text_def)
  have sec: "secret s' = secret s" "shared_keys s' = shared_keys s"
    by (simp_all add: assms(4) cache_assoc_key_def Let_def st secret_upd_auth) (simp add: upd_auth_def)
  then show "secret s' = secret s" "shared_keys s' = shared_keys s" by auto
  show id: "assoc_keyid (authinfo s') = key_id" by (simp add: assms(4) cache_assoc_key_def Let_def upd_auth_def)
  show "cache_ok s'"
    using assms(3) hashkey_caches(1) [OF assms(1,2), of key_id]
    unfolding cache_ok_def sec id
    by (auto simp: assms(4) cache_assoc_key_def Let_def upd_auth_def st)
  show "assoc_key (authinfo s') \<noteq> None" if "\<And>n. env_malloc env n \<noteq> None" "secret s key_id \<noteq> []"
    using hashkey_caches(2) [OF assms(1,2) that]
    by (auto simp: assms(4) cache_assoc_key_def Let_def upd_auth_def st)
qed

lemma cache_recv_key_ok:
  assumes "malloc_sized (env_malloc env)" "keys_small s" "cache_ok s" "cache_recv_key env s key_id = Some s'"
  shows "cache_ok s'" "recv_keyid (authinfo s') = key_id" "secret s' = secret s" "shared_keys s' = shared_keys s"
    "(\<And>n. env_malloc env n \<noteq> None) \<Longrightarrow> secret s key_id \<noteq> [] \<Longrightarrow> recv_key (authinfo s') \<noteq> None"
proof -
  let ?fresh = "recv_key (authinfo s) = None \<or> recv_keyid (authinfo s) \<noteq> key_id"
  have sec: "secret s' = secret s" "shared_keys s' = shared_keys s" "recv_keyid (authinfo s') = key_id"
    using assms(4)
    by (auto simp: cache_recv_key_def Let_def secret_upd_auth split: if_splits option.splits) (auto simp: upd_auth_def)
  then show "secret s' = secret s" "shared_keys s' = shared_keys s" "recv_keyid (authinfo s') = key_id" by auto
  have a: "assoc_key (authinfo s') = assoc_key (authinfo s)" "assoc_keyid (authinfo s') = assoc_keyid (authinfo s)"
    using assms(4) by (auto simp: cache_recv_key_def Let_def upd_auth_def split: if_splits option.splits)
  have k: "recv_key (authinfo s') = (if ?fresh
      then sctp_compute_hashkey (env_malloc env) (ai_random (authinfo s)) (peer_random (authinfo s)) (shared_text s key_id)
      else recv_key (authinfo s))"
    using assms(4) by (auto simp: cache_recv_key_def Let_def upd_auth_def shared_text_def split: if_splits option.splits)
  show "cache_ok s'"
    using assms(3) hashkey_caches(1) [OF assms(1,2), of key_id] k sec a
    by (auto simp: cache_ok_def split: if_splits)
  show "recv_key (authinfo s') \<noteq> None" if "\<And>n. env_malloc env n \<noteq> None" "secret s key_id \<noteq> []"
    using hashkey_caches(2) [OF assms(1,2) that] k by auto
qed

section \<open>Properties\<close>

lemma nth_overwrite:
  "off + length src \<le> length b \<Longrightarrow> i < length b \<Longrightarrow> overwrite b off src ! i = (if off \<le> i \<and> i < off + length src then src ! (i - off) else b ! i)"
  by (auto simp: overwrite_def nth_append min_def)

lemma drop_overwrite:
  "off \<le> o2 \<Longrightarrow> o2 + length src \<le> length b \<Longrightarrow> drop off (overwrite b o2 src) = overwrite (drop off b) (o2 - off) src"
  by (simp add: overwrite_def drop_take)

lemma overwrite_twice:
  "off + length a \<le> length b \<Longrightarrow> length a = length c \<Longrightarrow> overwrite (overwrite b off a) off c = overwrite b off c"
  by (simp add: overwrite_def)

lemma drop_cleared: "off + 28 \<le> length b \<Longrightarrow> drop off (cleared b off) = cleared (drop off b) 0"
  by (simp add: cleared_def drop_overwrite)

text \<open>The packet on the wire, from the AUTH chunk on.\<close>

lemma wire_facts:
  assumes "p + 28 \<le> length c" "body = overwrite c (p + 4) (bytes_of_be16 key_id)" "length h = 20"
    "x = drop p (overwrite (cleared body p) (p + 8) h)"
  shows "cleared x 0 = drop p (cleared body p)" "take 20 (drop 8 (take 28 x)) = h" "length (take 28 x) = 28"
    "ntohs_at (take 28 x) 2 = ntohs_at c (p + 2)" "ntohs_at (take 28 x) 4 = key_id"
    "ntohs_at (take 28 x) 6 = ntohs_at c (p + 6)"
proof -
  have lb: "length body = length c" "length (cleared body p) = length c"
    using assms(1) by (simp_all add: assms(2) length_overwrite cleared_def)
  show "cleared x 0 = drop p (cleared body p)"
    using assms(1,3) lb by (simp add: assms(4) cleared_def drop_overwrite overwrite_twice length_overwrite)
  show "take 20 (drop 8 (take 28 x)) = h" "length (take 28 x) = 28"
    using assms(1,3) lb by (simp_all add: assms(4) overwrite_def)
  have b: "x ! i = (if i = 4 then ucast (drop_bit 8 key_id) else if i = 5 then ucast key_id else c ! (p + i))" if "i < 8" for i
    using that assms(1,3) lb
    by (auto simp: assms(2,4) cleared_def nth_overwrite length_overwrite bytes_of_be16_def nth_Cons')
  show "ntohs_at (take 28 x) 2 = ntohs_at c (p + 2)" "ntohs_at (take 28 x) 4 = key_id"
    "ntohs_at (take 28 x) 6 = ntohs_at c (p + 6)"
    by (simp_all add: ntohs_at_def b add.commute add.left_commute)
qed

text \<open>
  C1: a packet authenticated by one peer is accepted by the other. The sender fills key id and
  digest into the AUTH chunk at its place in the packet; the receiver, who has the two key vectors the
  other way round and the same shared key under that id, gets the packet cut into other mbufs and at another
  offset. Whatever the two sides have cached, in original form or already replaced by the hash, the
  receiver accepts the packet. Allocation succeeds on both sides, the sender's AUTH chunk lies in one mbuf, and the digest does not straddle two mbufs at the receiver.
\<close>

theorem auth_packet_roundtrip:
  assumes env: "env_ok env" "env_ok env'" "\<And>n. env_malloc env n \<noteq> None" "\<And>n. env_malloc env' n \<noteq> None"
    and sender: "keys_small s" "cache_ok s" "peer_hmac_id s = SCTP_AUTH_HMAC_ID_SHA1"
    and receiver: "keys_small r" "cache_ok r" "sctp_auth_is_supported_hmac (local_hmacs r) SCTP_AUTH_HMAC_ID_SHA1"
    and agree: "ai_random (authinfo r) = peer_random (authinfo s)" "peer_random (authinfo r) = ai_random (authinfo s)"
      "shared_text r key_id = shared_text s key_id" "sctp_find_sharedkey (shared_keys r) key_id \<noteq> None"
      "secret s key_id \<noteq> []"
    and packet: "length (concat m) < 2 ^ 29 - 64" "fits m (unat auth_offset) 28"
      "ntohs_at (concat m) (unat auth_offset + 2) = 28" "ntohs_at (concat m) (unat auth_offset + 6) = SCTP_AUTH_HMAC_ID_SHA1"
  shows "\<exists>m' s'. sctp_fill_hmac_digest_m env m auth_offset (Some (unat auth_offset)) (Some s) key_id = Some (m', Some s') \<and>
    map length m' = map length m \<and>
    (\<forall>mr off. drop (unat off) (concat mr) = drop (unat auth_offset) (concat m') \<and> fits mr (unat off + 8) 20 \<and>
       length (concat mr) < 2 ^ 29 - 64 \<longrightarrow>
       (\<exists>r' mr'. sctp_handle_auth env' r (take 28 (drop (unat off) (concat mr))) mr off = Some (0, r', mr')))"
proof -
  let ?p = "unat auth_offset" and ?S = "secret s key_id"
  define body where "body = overwrite (concat m) (?p + 4) (bytes_of_be16 key_id)"
  have small: "length ?S < 2 ^ 29" by (rule length_secret [OF sender(1)])
  note mal = env(1,2) [unfolded env_ok_def]
  note sk = cache_assoc_key_ok [OF conjunct1 [OF mal(1)] sender(1,2) refl, of key_id]
  obtain k where k: "assoc_key (authinfo (cache_assoc_key env s key_id)) = Some k" using sk(5) [OF env(3) agree(5)] by auto
  then have ck: "caches (Some k) ?S" using sk(1-3) by (simp add: cache_ok_def)
  define h where "h = hmac_sha1 ?S (drop ?p (cleared body ?p))"
  obtain m' s' where fill: "sctp_fill_hmac_digest_m env m auth_offset (Some ?p) (Some s) key_id = Some (m', Some s')"
    and wire: "concat m' = overwrite (cleared body ?p) (?p + 8) h" and shape: "map length m' = map length m"
    using fill_digest [OF env(1) sender(3) k caches_use(1) [OF ck small] packet(1,2) refl body_def] caches_use(2) [OF ck small]
    by (auto simp: h_def)
  have pl: "?p + 28 \<le> length (concat m)" by (rule fits_bound [OF packet(2)])
  have h20: "length h = 20" by (simp add: h_def)
  note w = wire_facts [OF pl body_def h20 refl, folded wire]
  have sec: "secret r key_id = ?S"
    using agree(1-3) sender(1) assoc_secret_commute by (simp add: secret_def keys_small_def small_key_def)
  have "\<exists>r' mr'. sctp_handle_auth env' r (take 28 (drop (unat off) (concat mr))) mr off = Some (0, r', mr')"
    if mr: "drop (unat off) (concat mr) = drop ?p (concat m')" "fits mr (unat off + 8) 20" "length (concat mr) < 2 ^ 29 - 64"
    for mr off
  proof -
    let ?a = "take 28 (drop (unat off) (concat mr))"
    have small': "keys_small (emit Stat_recvauth r)" "cache_ok (emit Stat_recvauth r)"
      using receiver(1,2) by (simp_all add: keys_small_def cache_ok_def)
    have "cache_recv_key env' (emit Stat_recvauth r) key_id \<noteq> None"
      using agree(4) by (auto simp: cache_recv_key_def Let_def)
    then obtain r1 where r1: "cache_recv_key env' (emit Stat_recvauth r) key_id = Some r1" by blast
    note rk = cache_recv_key_ok [OF conjunct1 [OF mal(2)] small' r1]
    obtain k' where k': "recv_key (authinfo r1) = Some k'" using rk(5) [OF env(4)] agree(5) sec by auto
    then have ck': "caches (Some k') ?S" using rk(1-3) sec by (simp add: cache_ok_def)
    have a: "28 \<le> ntohs_at ?a 2" "28 \<le> length ?a" "ntohs_at ?a 6 = SCTP_AUTH_HMAC_ID_SHA1" "ntohs_at ?a 4 = key_id"
      "take 20 (drop 8 ?a) = h"
      unfolding mr(1) using w packet(3,4) h20 by simp_all
    have "unat off + 28 \<le> length (concat mr)" using fits_bound [OF mr(2)] by simp
    then have "drop (unat off) (cleared (concat mr) (unat off)) = drop ?p (cleared body ?p)"
      by (simp only: drop_cleared mr(1) w(1))
    then show ?thesis
      using handle_auth_digest [OF env(2) a(1-3) receiver(3) r1 [folded a(4)] k' caches_use(1) [OF ck' small] mr(3,2)]
        caches_use(2) [OF ck' small] a(5)
      by (auto simp: h_def Let_def)
  qed
  with fill shape show ?thesis by blast
qed

text \<open>A pair of peers and a packet: an AUTH chunk of 28 bytes in front of a chunk of four bytes.\<close>

definition demo_env :: auth_env where
  "demo_env = \<lparr>env_malloc = (\<lambda>n. Some (replicate n 0)), env_ctx = blank_sha1_context, env_temp = replicate 32 0,
     env_digest = replicate 32 0, env_random = (\<lambda>n. replicate n 7), env_mbuf = True\<rparr>"

definition demo_tcb :: "sctp_key option \<Rightarrow> sctp_key option \<Rightarrow> sctp_tcb" where
  "demo_tcb rnd peer =
     \<lparr>authinfo = \<lparr>ai_random = rnd, random_len = 1, peer_random = peer, assoc_key = None, recv_key = None,
        active_keyid = 0, assoc_keyid = 0, recv_keyid = 0\<rparr>,
      shared_keys = [demo_skey 0], local_hmacs = Some \<lparr>max_algo = 1, num_algo = 1, hmac = [1]\<rparr>, peer_hmacs = None,
      local_auth_chunks = None, peer_hmac_id = 1, events = []\<rparr>"

abbreviation demo_packet :: mchain where
  "demo_packet \<equiv> [[15, 0, 0, 28, 0, 0, 0, 1] @ replicate 20 9, [14, 0, 0, 4]]"

lemma demo_env_ok: "env_ok demo_env" "env_malloc demo_env n \<noteq> None"
  by (simp_all add: env_ok_def demo_env_def malloc_sized_def blank_ctx_ok)

lemma demo_tcb_ok:
  assumes "small_key rnd" "small_key peer"
  shows "keys_small (demo_tcb rnd peer)" "cache_ok (demo_tcb rnd peer)"
    "sctp_auth_is_supported_hmac (local_hmacs (demo_tcb rnd peer)) SCTP_AUTH_HMAC_ID_SHA1"
    "shared_text (demo_tcb rnd peer) 0 = Some \<lparr>keylen = 1, key = [7]\<rparr>" "secret (demo_tcb rnd peer) 0 \<noteq> []"
  using assms
  by (simp_all add: keys_small_def demo_tcb_def cache_ok_def caches_def small_key_def key_ok_def key_bytes_def demo_skey_def
      sctp_auth_is_supported_hmac_def SCTP_AUTH_HMAC_ID_SHA1_def SCTP_AUTH_HMAC_ID_RSVD_def shared_text_def secret_def
      assoc_secret_def)

theorem auth_packet_roundtrip_witness:
  "\<exists>m' s'. sctp_fill_hmac_digest_m demo_env demo_packet 0 (Some 0)
      (Some (demo_tcb (Some \<lparr>keylen = 1, key = [1]\<rparr>) (Some \<lparr>keylen = 1, key = [2]\<rparr>))) 0 = Some (m', Some s') \<and>
    (\<exists>r' mr'. sctp_handle_auth demo_env (demo_tcb (Some \<lparr>keylen = 1, key = [2]\<rparr>) (Some \<lparr>keylen = 1, key = [1]\<rparr>))
       (take 28 (concat m')) [concat m'] 0 = Some (0, r', mr'))"
proof -
  let ?a = "Some \<lparr>keylen = 1, key = [1]\<rparr> :: sctp_key option" and ?b = "Some \<lparr>keylen = 1, key = [2]\<rparr> :: sctp_key option"
  have sm: "small_key ?a" "small_key ?b" by (simp_all add: small_key_def key_ok_def key_bytes_def)
  note A = demo_tcb_ok [OF sm] and B = demo_tcb_ok [OF sm(2,1)]
  have "\<exists>m' s'. sctp_fill_hmac_digest_m demo_env demo_packet 0 (Some (unat (0 :: u32))) (Some (demo_tcb ?a ?b)) 0 = Some (m', Some s') \<and>
    map length m' = map length demo_packet \<and>
    (\<forall>mr off. drop (unat off) (concat mr) = drop (unat (0 :: u32)) (concat m') \<and> fits mr (unat off + 8) 20 \<and>
       length (concat mr) < 2 ^ 29 - 64 \<longrightarrow>
       (\<exists>r' mr'. sctp_handle_auth demo_env (demo_tcb ?b ?a) (take 28 (drop (unat off) (concat mr))) mr off = Some (0, r', mr')))"
    by (rule auth_packet_roundtrip [OF demo_env_ok(1) demo_env_ok(1) demo_env_ok(2) demo_env_ok(2) A(1,2) _ B(1,2,3)])
      (use A(4,5) B(4) in \<open>simp_all add: demo_tcb_def SCTP_AUTH_HMAC_ID_SHA1_def demo_skey_def ntohs_at_def be16_def\<close>)
  then obtain m' s' where f: "sctp_fill_hmac_digest_m demo_env demo_packet 0 (Some 0) (Some (demo_tcb ?a ?b)) 0 = Some (m', Some s')"
    and shape: "map length m' = map length demo_packet"
    and r: "\<And>mr off. drop (unat off) (concat mr) = concat m' \<Longrightarrow> fits mr (unat off + 8) 20 \<Longrightarrow>
       length (concat mr) < 2 ^ 29 - 64 \<Longrightarrow>
       \<exists>r' mr'. sctp_handle_auth demo_env (demo_tcb ?b ?a) (take 28 (drop (unat off) (concat mr))) mr off = Some (0, r', mr')"
    by auto
  have "length (concat m') = 32" using shape by (simp add: length_concat)
  with r [of 0 "[concat m']"] f show ?thesis by auto
qed

text \<open>The key id of a chunk can be used: it is the one of the cached key, or there is a shared key with it.\<close>

definition knows_key :: "sctp_tcb \<Rightarrow> u16 \<Rightarrow> bool" where
  "knows_key s key_id \<longleftrightarrow> recv_key (authinfo s) \<noteq> None \<and> recv_keyid (authinfo s) = key_id \<or> sctp_find_sharedkey (shared_keys s) key_id \<noteq> None"

text \<open>An AUTH chunk that gets as far as the comparison of the digests: its length has room for a digest, and its HMAC identifier and its key id are known.\<close>

definition checkable :: "sctp_tcb \<Rightarrow> bytes \<Rightarrow> bool" where
  "checkable s auth \<longleftrightarrow> 28 \<le> ntohs_at auth 2 \<and> sctp_auth_is_supported_hmac (local_hmacs s) (ntohs_at auth 6) \<and> knows_key s (ntohs_at auth 4)"

lemma knows_key_emit [simp]: "knows_key (emit e s) key_id = knows_key s key_id" by (simp add: knows_key_def)

lemma cache_recv_key_None: "cache_recv_key env s key_id = None \<longleftrightarrow> \<not> knows_key s key_id"
  by (auto simp: cache_recv_key_def knows_key_def Let_def split: option.splits)

lemma handle_auth_rejects:
  assumes "malloc_sized (env_malloc env)" "keys_small s" "cache_ok s" "\<not> checkable s auth"
    and "sctp_auth_is_supported_hmac (local_hmacs s) (ntohs_at auth 6) \<Longrightarrow> ntohs_at auth 6 = SCTP_AUTH_HMAC_ID_SHA1"
  shows "\<exists>s'. sctp_handle_auth env s auth m offset = Some (-1, s', m) \<and> cache_ok s'"
proof -
  let ?s = "emit Stat_recvauth s" and ?id = "ntohs_at auth 4"
  have emit: "cache_ok (emit e r) \<longleftrightarrow> cache_ok r" for e r by (simp add: cache_ok_def)
  have small: "keys_small ?s" "cache_ok ?s" using assms(2,3) by (simp_all add: keys_small_def cache_ok_def)
  show ?thesis
  proof (cases "ntohs_at auth 2 < 8 \<or> \<not> sctp_auth_is_supported_hmac (local_hmacs s) (ntohs_at auth 6) \<or> \<not> knows_key s ?id")
    case True
    then show ?thesis using assms(3) cache_recv_key_None [of env ?s ?id]
      by (auto simp: sctp_handle_auth_def Let_def emit)
  next
    case False
    then have long: "ntohs_at auth 2 < 28" "ntohs_at auth 6 = SCTP_AUTH_HMAC_ID_SHA1" using assms(4,5) by (auto simp: checkable_def)
    obtain s1 where s1: "cache_recv_key env ?s ?id = Some s1" using False cache_recv_key_None [of env ?s ?id] by auto
    have "unat (ntohs_at auth 2) < 8 + unat (sctp_get_hmac_digest_len (ntohs_at auth 6))"
      using long by (simp add: word_less_nat_alt sctp_get_hmac_digest_len_def SCTP_AUTH_DIGEST_LEN_SHA1_def)
    then show ?thesis using False s1 cache_recv_key_ok(1) [OF assms(1) small s1]
      by (simp add: sctp_handle_auth_def Let_def emit)
  qed
qed

text \<open>
  C26: which packets are accepted. A packet is accepted exactly when its AUTH chunk has a length of at least 28, names SHA-1 while the endpoint supports it, names a known key (the cached one or a
  shared key of the association), and carries as its digest the HMAC, under the keying material of that key id, of the packet from the AUTH chunk on with the digest set to zero:
  changing anything behind the AUTH chunk's start, or the key, is noticed. Every other packet is rejected. A packet whose digest was compared goes on with the digest cleared and
  is unchanged otherwise, any other is unchanged. The conditions: SHA-1 is the only identifier in the endpoint's list, as in this build, allocation succeeds, the keying material is not empty, the first 28 bytes of the chunk are
  in the buffer that is read, and the digest lies in one mbuf.
\<close>

theorem sctp_handle_auth_accepts:
  assumes "env_ok env" "\<And>n. env_malloc env n \<noteq> None" "keys_small s" "cache_ok s" "secret s (ntohs_at auth 4) \<noteq> []"
    and "28 \<le> length auth" "sctp_auth_is_supported_hmac (local_hmacs s) (ntohs_at auth 6) \<Longrightarrow> ntohs_at auth 6 = SCTP_AUTH_HMAC_ID_SHA1"
    and "length (concat m) < 2 ^ 29 - 64" "fits m (unat offset + 8) 20"
  shows "\<exists>result s' m'. sctp_handle_auth env s auth m offset = Some (result, s', m') \<and> cache_ok s' \<and>
    concat m' = (if checkable s auth then cleared (concat m) (unat offset) else concat m) \<and>
    result = (if checkable s auth \<and> take 20 (drop 8 auth) =
                hmac_sha1 (secret s (ntohs_at auth 4)) (drop (unat offset) (cleared (concat m) (unat offset)))
              then 0 else -1)"
proof (cases "checkable s auth")
  case False
  have "malloc_sized (env_malloc env)" using assms(1) by (simp add: env_ok_def)
  from handle_auth_rejects [OF this assms(3,4) False assms(7), of m offset] False show ?thesis by auto
next
  case True
  let ?s = "emit Stat_recvauth s" and ?id = "ntohs_at auth 4"
  have chunk: "28 \<le> ntohs_at auth 2" "ntohs_at auth 6 = SCTP_AUTH_HMAC_ID_SHA1" "sctp_auth_is_supported_hmac (local_hmacs s) SCTP_AUTH_HMAC_ID_SHA1"
    using True assms(7) by (auto simp: checkable_def)
  have small: "keys_small ?s" "cache_ok ?s" using assms(3,4) by (simp_all add: keys_small_def cache_ok_def)
  obtain s1 where s1: "cache_recv_key env ?s ?id = Some s1" using True cache_recv_key_None [of env ?s ?id] by (auto simp: checkable_def)
  have "malloc_sized (env_malloc env)" using assms(1) by (simp add: env_ok_def)
  note ck = cache_recv_key_ok [OF this small s1]
  obtain k where k: "recv_key (authinfo s1) = Some k" using ck(5) [OF assms(2)] assms(5) by auto
  then have c: "caches (Some k) (secret s ?id)" using ck(1-3) by (simp add: cache_ok_def)
  let ?s' = "upd_auth (\<lambda>a. a\<lparr>recv_key := Some (short_form k)\<rparr>) s1"
  have "cache_ok ?s'"
    using ck(1-3) caches_short [OF c] by (simp add: cache_ok_def secret_upd_auth) (simp add: upd_auth_def)
  moreover from this have "cache_ok (emit Stat_recvauthfailed ?s')" by (simp add: cache_ok_def)
  ultimately show ?thesis
    using handle_auth_digest [OF assms(1) chunk(1) assms(6) chunk(2,3) s1 k caches_use(1) [OF c length_secret [OF assms(3)]] assms(8,9)]
      caches_use(2) [OF c length_secret [OF assms(3)]] True
    by (auto simp: Let_def)
qed

theorem sctp_handle_auth_accepts_witness:
  "\<exists>s' m'. sctp_handle_auth demo_env (demo_tcb (Some \<lparr>keylen = 1, key = [1]\<rparr>) (Some \<lparr>keylen = 1, key = [2]\<rparr>))
     ([15, 0, 0, 28, 0, 0, 0, 1] @ hmac_sha1 [7, 1, 2] ([15, 0, 0, 28, 0, 0, 0, 1] @ replicate 20 0 @ [14, 0, 0, 4]))
     [[15, 0, 0, 28, 0, 0, 0, 1] @ hmac_sha1 [7, 1, 2] ([15, 0, 0, 28, 0, 0, 0, 1] @ replicate 20 0 @ [14, 0, 0, 4]), [14, 0, 0, 4]]
     0 = Some (0, s', m')"
proof -
  let ?a = "Some \<lparr>keylen = 1, key = [1]\<rparr> :: sctp_key option" and ?b = "Some \<lparr>keylen = 1, key = [2]\<rparr> :: sctp_key option"
  let ?h = "hmac_sha1 [7, 1, 2] ([15, 0, 0, 28, 0, 0, 0, 1] @ replicate 20 0 @ [14, 0, 0, 4])"
  let ?auth = "[15, 0, 0, 28, 0, 0, 0, 1] @ ?h"
  have sm: "small_key ?a" "small_key ?b" by (simp_all add: small_key_def key_ok_def key_bytes_def)
  note A = demo_tcb_ok [OF sm]
  have id: "ntohs_at ?auth 4 = 0" "ntohs_at ?auth 2 = 28" "ntohs_at ?auth 6 = 1" by (simp_all add: ntohs_at_def be16_def)
  have sec: "secret (demo_tcb ?a ?b) 0 = [7, 1, 2]"
    by (simp add: secret_def A(4) assoc_secret_def key_bytes_def)
      (simp add: demo_tcb_def key_bytes_def sctp_compare_key_def sctp_get_keylen_def padded_byte_def)
  have cl: "cleared (concat [?auth, [14, 0, 0, 4]]) 0 = [15, 0, 0, 28, 0, 0, 0, 1] @ replicate 20 0 @ [14, 0, 0, 4]"
    by (simp add: cleared_def overwrite_def)
  have "knows_key (demo_tcb ?a ?b) 0" by (simp add: knows_key_def demo_tcb_def demo_skey_def)
  then have check: "checkable (demo_tcb ?a ?b) ?auth" unfolding checkable_def id using A(3) by (simp add: SCTP_AUTH_HMAC_ID_SHA1_def)
  have "\<exists>result s' m'. sctp_handle_auth demo_env (demo_tcb ?a ?b) ?auth [?auth, [14, 0, 0, 4]] 0 = Some (result, s', m') \<and>
    cache_ok s' \<and> concat m' = (if checkable (demo_tcb ?a ?b) ?auth then cleared (concat [?auth, [14, 0, 0, 4]]) (unat (0 :: u32)) else concat [?auth, [14, 0, 0, 4]]) \<and>
    result = (if checkable (demo_tcb ?a ?b) ?auth \<and> take 20 (drop 8 ?auth) = hmac_sha1 (secret (demo_tcb ?a ?b) (ntohs_at ?auth 4))
        (drop (unat (0 :: u32)) (cleared (concat [?auth, [14, 0, 0, 4]]) (unat (0 :: u32)))) then 0 else -1)"
    by (rule sctp_handle_auth_accepts [OF demo_env_ok(1) demo_env_ok(2) A(1,2)])
      (use A(5) id in \<open>simp_all add: SCTP_AUTH_HMAC_ID_SHA1_def\<close>)
  then show ?thesis unfolding unsigned_0 id(1) sec cl using check by auto
qed

text \<open>
  clearing the digest is only right when it lies in one mbuf, or starts at the beginning of one.
  The routine compares the number of bytes left with the length of the mbuf and not with what is left
  behind the offset: when the digest starts inside an mbuf and goes on in the next, it writes zeros past
  the end of the first mbuf's data (and clears too little in the next one). When it lies in one mbuf exactly these bytes are cleared.
\<close>

theorem sctp_zero_m_straddling:
  assumes "length (concat (pre @ d # post)) < 2 ^ 32" "unat m_offset = length (concat pre) + k" "k < length d" "0 < sz"
  shows "(k + unat sz \<le> length d \<longrightarrow>
      (\<exists>m'. sctp_zero_m (pre @ d # post) m_offset sz = Some m' \<and> map length m' = map length (pre @ d # post) \<and>
        concat m' = overwrite (concat (pre @ d # post)) (unat m_offset) (replicate (unat sz) 0))) \<and>
    (0 < k \<and> length d < k + unat sz \<longrightarrow> sctp_zero_m (pre @ d # post) m_offset sz = None)"
proof -
  have "fits (pre @ d # post) (length (concat pre) + k) (unat sz)" if "k + unat sz \<le> length d"
    using that assms(3) by (induction pre) auto
  with assms(1,2,4) have "\<exists>m'. sctp_zero_m (pre @ d # post) m_offset sz = Some m' \<and> map length m' = map length (pre @ d # post) \<and>
        concat m' = overwrite (concat (pre @ d # post)) (unat m_offset) (replicate (unat sz) 0)" if "k + unat sz \<le> length d"
    using that chain_write_fits [of "pre @ d # post" "unat m_offset" "replicate (unat sz) 0"]
      zero_m_fits [of sz "pre @ d # post" m_offset] by auto
  with zero_m_straddles [OF assms(1,2) _ assms(3)] show ?thesis by blast
qed

theorem sctp_zero_m_straddling_witness:
  "sctp_zero_m [[1, 2, 3], [4, 5]] 2 2 = None \<and> (\<exists>m'. sctp_zero_m [[1, 2, 3], [4, 5]] 1 2 = Some m' \<and> concat m' = [1, 0, 0, 4, 5])"
proof -
  have two: "replicate 2 (0 :: u8) = [0, 0]" by (simp add: numeral_2_eq_2)
  show ?thesis
    using sctp_zero_m_straddling [of "[]" "[1, 2, 3]" "[[4, 5]]" 2 2 2] sctp_zero_m_straddling [of "[]" "[1, 2, 3]" "[[4, 5]]" 1 1 2]
    by (auto simp: overwrite_def two)
qed

end
