(* ===== verification/Auth_Params_Correct.thy ===== *)
theory Auth_Params_Correct
  imports Auth_Params Auth_Packet
begin

text \<open>
  The loops over the parameters of a chunk, on chunks that are made of well-formed parameters: they
  go through the parameters one by one, whatever mbufs the chunk is cut into. From this follow what the
  check of a received INIT decides, and that the key vector an association has put into its INIT-ACK is
  recovered from the cookie. Without a RANDOM parameter the recovery overruns the key block.
\<close>

section \<open>Well-formed parameters\<close>

type_synonym param = "u16 \<times> bytes"

definition padding :: "nat \<Rightarrow> nat" where
  "padding n = (n + 3) div 4 * 4 - n"

definition param_bytes :: "param \<Rightarrow> bytes" where
  "param_bytes p = param_header (fst p) (word_of_nat (4 + length (snd p))) @ snd p"

definition enc_param :: "param \<Rightarrow> bytes" where
  "enc_param p = param_bytes p @ replicate (padding (length (snd p))) 0"

definition enc_params :: "param list \<Rightarrow> bytes" where
  "enc_params ps = concat (map enc_param ps)"

definition params_ok :: "param list \<Rightarrow> bool" where
  "params_ok ps \<longleftrightarrow> (\<forall>p\<in>set ps. length (snd p) < 65532)"

lemma length_param_bytes [simp]: "length (param_bytes p) = 4 + length (snd p)"
  by (simp add: param_bytes_def param_header_def)

lemma length_enc_param: "length (enc_param p) = (4 + length (snd p) + 3) div 4 * 4"
  by (simp add: enc_param_def padding_def) presburger

lemma ntohs_header: "ntohs_at (param_header t l @ r) 0 = t" "ntohs_at (param_header t l @ r) 2 = l"
    "ntohs_at (param_header t l) 0 = t" "ntohs_at (param_header t l) 2 = l"
  by (simp_all add: ntohs_at_def param_header_def bytes_of_be16_def)

text \<open>What the loops read at the start of a parameter.\<close>

lemma param_at:
  assumes "drop o1 (concat m) = enc_param p @ rest" "length (snd p) < 65532" "off = int o1" "plen = word_of_nat (4 + length (snd p))"
  shows "unat plen = 4 + length (snd p)" "uint plen = 4 + int (length (snd p))"
    "sctp_m_getptr m off 4 = Some (param_header (fst p) plen)"
    "sctp_m_getptr m off (uint plen) = Some (param_bytes p)"
    "uint (SCTP_SIZE32 (ucast plen)) = int (length (enc_param p))"
    "drop (o1 + length (enc_param p)) (concat m) = rest"
    "o1 + length (enc_param p) + length rest = length (concat m)"
proof -
  show u: "unat plen = 4 + length (snd p)"
    using assms(2) by (simp add: assms(4) unat_of_nat take_bit_nat_eq_self del: of_nat_add)
  then show ui: "uint plen = 4 + int (length (snd p))" by (metis of_nat_add of_nat_numeral of_nat_unat)
  have len: "length (concat m) - o1 = length (enc_param p) + length rest"
    using arg_cong [OF assms(1), of length] by simp
  moreover have "0 < length (enc_param p)" by (simp add: length_enc_param)
  ultimately show tot: "o1 + length (enc_param p) + length rest = length (concat m)" by linarith
  have big: "4 + length (snd p) \<le> length (enc_param p)" by (simp add: enc_param_def)
  show "sctp_m_getptr m off 4 = Some (param_header (fst p) plen)"
    using assms(1) big tot by (simp add: m_getptr_eq assms(3,4) enc_param_def param_bytes_def param_header_def)
  show "sctp_m_getptr m off (uint plen) = Some (param_bytes p)"
    using assms(1) big tot by (simp add: m_getptr_eq assms(3) ui nat_add_distrib enc_param_def)
  have "unat (ucast plen :: u32) = unat plen"
    using u assms(2) by (simp add: unsigned_ucast_eq take_bit_nat_eq_self)
  then have "unat (SCTP_SIZE32 (ucast plen)) = length (enc_param p)"
    using unat_SIZE32 [of "ucast plen"] u assms(2) by (simp add: length_enc_param)
  then show "uint (SCTP_SIZE32 (ucast plen)) = int (length (enc_param p))" by (metis of_nat_unat)
  show "drop (o1 + length (enc_param p)) (concat m) = rest"
    using arg_cong [OF assms(1), of "drop (length (enc_param p))"] by (simp add: add.commute)
qed

section \<open>The check of an INIT\<close>

text \<open>The loop over a list of parameters.\<close>

definition init_step :: "param \<Rightarrow> init_flags \<Rightarrow> init_flags param_step" where
  "init_step p f = init_param [param_bytes p] 0 (fst p) (word_of_nat (4 + length (snd p))) f"

fun init_scan :: "param list \<Rightarrow> init_flags \<Rightarrow> init_flags option" where
  "init_scan [] f = Some f"
| "init_scan (p # ps) f =
     (case init_step p f of Next f' \<Rightarrow> init_scan ps f' | Break \<Rightarrow> Some f | _ \<Rightarrow> None)"

lemma init_param_step:
  assumes "drop o1 (concat m) = enc_param p @ rest" "length (snd p) < 65532"
  shows "init_param m (int o1) (fst p) (word_of_nat (4 + length (snd p))) f = init_step p f"
proof -
  let ?plen = "word_of_nat (4 + length (snd p)) :: u16"
  note a = param_at [OF assms refl refl]
  have "sctp_m_getptr [param_bytes p] 0 (uint ?plen) = Some (param_bytes p)"
    using a(2) by (simp add: m_getptr_eq nat_add_distrib)
  with a(4) show ?thesis by (simp add: init_step_def init_param_def sctp_get_next_param_def)
qed

lemma init_loop_scan:
  assumes "drop o1 (concat m) = enc_params ps @ rest" "params_ok ps" "limit = int (o1 + length (enc_params ps))"
  shows "init_loop m (int o1) limit f = init_scan ps f"
  using assms
proof (induction ps arbitrary: o1 f)
  case Nil
  have "0 < uint w \<or> w < 4" for w :: u16
    using uint_ge_0 [of w] by (cases "w = 0") (auto simp: uint_0_iff less_le)
  then have "init_loop m (int o1) limit f = Some f"
    using Nil(3) by (subst init_loop.simps) (auto simp: enc_params_def Let_def split: option.splits)
  then show ?case by simp
next
  case (Cons p ps)
  let ?plen = "word_of_nat (4 + length (snd p)) :: u16"
  have d: "drop o1 (concat m) = enc_param p @ (enc_params ps @ rest)" using Cons.prems(1) by (simp add: enc_params_def)
  have p: "length (snd p) < 65532" and ps: "params_ok ps" using Cons.prems(2) by (auto simp: params_ok_def)
  note a = param_at [OF d p refl refl]
  have lim: "limit = int (o1 + length (enc_param p) + length (enc_params ps))"
    using Cons.prems(3) by (simp add: enc_params_def)
  have big: "4 + length (snd p) \<le> length (enc_param p)" by (simp add: enc_param_def)
  have c: "\<not> int o1 + uint ?plen > limit" "\<not> ?plen < 4"
    using a(1,2) lim big by (simp_all add: word_less_nat_alt)
  have step: "init_loop m (int o1) limit f =
    (case init_step p f of
       Next f' \<Rightarrow> if int (o1 + length (enc_param p)) \<ge> limit then Some f'
                  else init_loop m (int (o1 + length (enc_param p))) limit f'
     | Break \<Rightarrow> Some f | _ \<Rightarrow> None)"
    using a(3,5) c init_param_step [OF d p, of f]
    by (subst init_loop.simps) (simp add: sctp_get_next_param_def ntohs_header Let_def split: param_step.split)
  have "init_loop m (int (o1 + length (enc_param p))) limit f' = init_scan ps f'" for f'
    using Cons.IH [OF a(6) ps] lim by simp
  moreover have "init_scan ps f' = Some f'" if "int (o1 + length (enc_param p)) \<ge> limit" for f'
  proof -
    have "length (enc_params ps) = 0" using that lim by simp
    then have "ps = []" by (cases ps) (auto simp: enc_params_def enc_param_def param_bytes_def param_header_def bytes_of_be16_def)
    then show ?thesis by simp
  qed
  ultimately show ?case using step by (auto split: param_step.splits)
qed

text \<open>The decision about a list of parameters, without the loop.\<close>

definition hmac_ids :: "bytes \<Rightarrow> u16 list" where
  "hmac_ids v = map (\<lambda>i. be16 (v ! (2 * i)) (v ! (2 * i + 1))) [0..<length v div 2]"

definition offers :: "param list \<Rightarrow> u16 \<Rightarrow> bool" where
  "offers ps t \<longleftrightarrow> (\<exists>v. (t, v) \<in> set ps)"

definition lists_chunk :: "param list \<Rightarrow> u16 \<Rightarrow> u8 \<Rightarrow> bool" where
  "lists_chunk ps t c \<longleftrightarrow> (\<exists>v. (t, v) \<in> set ps \<and> c \<in> set v)"

definition init_auth_verdict :: "param list \<Rightarrow> int" where
  "init_auth_verdict ps =
     (let auth = (offers ps SCTP_RANDOM \<and> offers ps SCTP_HMAC_LIST);
          asconf = (lists_chunk ps SCTP_SUPPORTED_CHUNK_EXT SCTP_ASCONF \<or>
                    lists_chunk ps SCTP_SUPPORTED_CHUNK_EXT SCTP_ASCONF_ACK)
      in if (\<exists>v. (SCTP_RANDOM, v) \<in> set ps \<and> length v \<noteq> 32) \<or>
            (\<exists>v. (SCTP_HMAC_LIST, v) \<in> set ps \<and> SCTP_AUTH_HMAC_ID_SHA1 \<notin> set (hmac_ids v)) then -1
         else if \<not> auth \<and> ((\<exists>c. lists_chunk ps SCTP_CHUNK_LIST c) \<or> asconf) then -1
         else if asconf \<and> \<not> (lists_chunk ps SCTP_CHUNK_LIST SCTP_ASCONF \<and> lists_chunk ps SCTP_CHUNK_LIST SCTP_ASCONF_ACK)
         then -2
         else 0)"

text \<open>Parameters that fit into the local buffers of the check.\<close>

definition stores_fit :: "param list \<Rightarrow> bool" where
  "stores_fit ps \<longleftrightarrow> params_ok ps \<and> (\<forall>(t, v)\<in>set ps.
     (t = SCTP_SUPPORTED_CHUNK_EXT \<or> t = SCTP_CHUNK_LIST \<longrightarrow> length v \<le> 256) \<and>
     (t = SCTP_HMAC_LIST \<longrightarrow> length v \<le> 508))"

definition store_fits :: "param \<Rightarrow> bool" where
  "store_fits p \<longleftrightarrow> (fst p = SCTP_SUPPORTED_CHUNK_EXT \<or> fst p = SCTP_CHUNK_LIST \<longrightarrow> length (snd p) \<le> 256) \<and>
     (fst p = SCTP_HMAC_LIST \<longrightarrow> length (snd p) \<le> 508)"

lemma stores_fit_iff: "stores_fit ps \<longleftrightarrow> params_ok ps \<and> (\<forall>p\<in>set ps. store_fits p)"
  by (auto simp: stores_fit_def store_fits_def)

definition bad_param :: "param \<Rightarrow> bool" where
  "bad_param p \<longleftrightarrow> (fst p = SCTP_RANDOM \<and> length (snd p) \<noteq> 32) \<or>
     (fst p = SCTP_HMAC_LIST \<and> SCTP_AUTH_HMAC_ID_SHA1 \<notin> set (hmac_ids (snd p)))"

definition add_flags :: "param \<Rightarrow> init_flags \<Rightarrow> init_flags" where
  "add_flags p f =
     f\<lparr>peer_supports_asconf := peer_supports_asconf f \<or>
         (fst p = SCTP_SUPPORTED_CHUNK_EXT \<and> (SCTP_ASCONF \<in> set (snd p) \<or> SCTP_ASCONF_ACK \<in> set (snd p))),
       got_random := got_random f \<or> fst p = SCTP_RANDOM,
       got_hmacs := got_hmacs f \<or> fst p = SCTP_HMAC_LIST,
       got_chklist := got_chklist f \<or> (fst p = SCTP_CHUNK_LIST \<and> snd p \<noteq> []),
       saw_asconf := saw_asconf f \<or> (fst p = SCTP_CHUNK_LIST \<and> SCTP_ASCONF \<in> set (snd p)),
       saw_asconf_ack := saw_asconf_ack f \<or> (fst p = SCTP_CHUNK_LIST \<and> SCTP_ASCONF_ACK \<in> set (snd p))\<rparr>"

lemma verify_hmac_param_ids:
  "sctp_verify_hmac_param (param_bytes p) (length (snd p) div 2) = 0 \<longleftrightarrow> SCTP_AUTH_HMAC_ID_SHA1 \<in> set (hmac_ids (snd p))"
proof -
  have "hmac_id_at (param_bytes p) i = be16 (snd p ! (2 * i)) (snd p ! (2 * i + 1))" for i
    by (simp add: hmac_id_at_def param_bytes_def param_header_def nth_append)
  then show ?thesis
    by (force simp: sctp_verify_hmac_param_def list_ex_iff hmac_ids_def)
qed

lemmas param_types = SCTP_RANDOM_def SCTP_CHUNK_LIST_def SCTP_HMAC_LIST_def SCTP_SUPPORTED_CHUNK_EXT_def

lemma init_step_break:
  assumes "length (snd p) < 65532" "\<not> store_fits p"
  shows "init_step p f = Break"
proof -
  let ?plen = "word_of_nat (4 + length (snd p)) :: u16"
  have u: "unat ?plen = 4 + length (snd p)" using param_at(1) [of 0 "[enc_param p]" p "[]" 0 ?plen] assms(1) by simp
  have "?plen > SCTP_SMALL_CHUNK_STORE \<longleftrightarrow> 256 < length (snd p)" "?plen > SCTP_PARAM_BUFFER_SIZE \<longleftrightarrow> 508 < length (snd p)"
    using u by (auto simp: word_less_nat_alt SCTP_SMALL_CHUNK_STORE_def SCTP_PARAM_BUFFER_SIZE_def)
  with assms(2) show ?thesis by (auto simp: store_fits_def init_step_def init_param_def param_types simp del: of_nat_add)
qed

lemma init_step_eq:
  assumes "stores_fit [p]"
  shows "init_step p f = (if bad_param p then Return else Next (add_flags p f))"
proof -
  let ?plen = "word_of_nat (4 + length (snd p)) :: u16"
  have l: "length (snd p) < 65532" using assms by (simp add: stores_fit_def params_ok_def)
  have u: "unat ?plen = 4 + length (snd p)" and ui: "uint ?plen = 4 + int (length (snd p))"
    using param_at(1,2) [of 0 "[enc_param p]" p "[]" 0 ?plen] l by simp_all
  have g: "sctp_get_next_param [param_bytes p] 0 (uint ?plen) = Some (param_bytes p)"
    using ui by (simp add: sctp_get_next_param_def m_getptr_eq nat_add_distrib)
  have d4: "drop 4 (param_bytes p) = snd p" by (simp add: param_bytes_def param_header_def)
  have len: "?plen = 36 \<longleftrightarrow> length (snd p) = 32" using u by (simp add: word_unat_eq_iff)
  have small: "fst p = SCTP_SUPPORTED_CHUNK_EXT \<or> fst p = SCTP_CHUNK_LIST \<Longrightarrow> \<not> ?plen > SCTP_SMALL_CHUNK_STORE"
    and mid: "fst p = SCTP_HMAC_LIST \<Longrightarrow> \<not> ?plen > SCTP_PARAM_BUFFER_SIZE"
    using assms u by (auto simp: stores_fit_def word_less_nat_alt SCTP_SMALL_CHUNK_STORE_def SCTP_PARAM_BUFFER_SIZE_def)
  consider "fst p = SCTP_SUPPORTED_CHUNK_EXT" | "fst p = SCTP_RANDOM" | "fst p = SCTP_HMAC_LIST" | "fst p = SCTP_CHUNK_LIST"
    | "fst p \<notin> {SCTP_SUPPORTED_CHUNK_EXT, SCTP_RANDOM, SCTP_HMAC_LIST, SCTP_CHUNK_LIST}" by blast
  then show ?thesis
  proof cases
    case 1
    with g d4 small show ?thesis
      by (cases f) (auto simp: init_step_def init_param_def bad_param_def add_flags_def list_ex_iff param_types simp del: of_nat_add)
  next
    case 2
    with len show ?thesis
      by (auto simp: init_step_def init_param_def bad_param_def add_flags_def param_types SCTP_AUTH_RANDOM_SIZE_REQUIRED_def
          simp del: of_nat_add)
  next
    case 3
    with g mid u verify_hmac_param_ids [of p] show ?thesis
      by (auto simp: init_step_def init_param_def bad_param_def add_flags_def param_types simp del: of_nat_add)
  next
    case 4
    with g d4 small show ?thesis
      by (cases f) (auto simp: init_step_def init_param_def bad_param_def add_flags_def list_ex_iff Let_def param_types simp del: of_nat_add)
  next
    case 5
    then show ?thesis by (simp add: init_step_def init_param_def bad_param_def add_flags_def)
  qed
qed

lemma init_scan_eq:
  assumes "params_ok ps"
  shows "init_scan ps f =
    (let seen = takeWhile store_fits ps in if list_ex bad_param seen then None else Some (fold add_flags seen f))"
  using assms
proof (induction ps arbitrary: f)
  case (Cons p ps)
  then have p: "length (snd p) < 65532" "params_ok ps" by (auto simp: params_ok_def)
  show ?case
  proof (cases "store_fits p")
    case True
    then have "stores_fit [p]" using p(1) by (simp add: stores_fit_iff params_ok_def)
    with Cons.IH [OF p(2)] True init_step_eq show ?thesis by (simp add: Let_def)
  next
    case False
    with init_step_break [OF p(1)] show ?thesis by simp
  qed
qed simp

lemma add_flags_simps:
  "peer_supports_asconf (add_flags p f) \<longleftrightarrow> peer_supports_asconf f \<or>
     (fst p = SCTP_SUPPORTED_CHUNK_EXT \<and> (SCTP_ASCONF \<in> set (snd p) \<or> SCTP_ASCONF_ACK \<in> set (snd p)))"
  "got_random (add_flags p f) \<longleftrightarrow> got_random f \<or> fst p = SCTP_RANDOM"
  "got_hmacs (add_flags p f) \<longleftrightarrow> got_hmacs f \<or> fst p = SCTP_HMAC_LIST"
  "got_chklist (add_flags p f) \<longleftrightarrow> got_chklist f \<or> (fst p = SCTP_CHUNK_LIST \<and> snd p \<noteq> [])"
  "saw_asconf (add_flags p f) \<longleftrightarrow> saw_asconf f \<or> (fst p = SCTP_CHUNK_LIST \<and> SCTP_ASCONF \<in> set (snd p))"
  "saw_asconf_ack (add_flags p f) \<longleftrightarrow> saw_asconf_ack f \<or> (fst p = SCTP_CHUNK_LIST \<and> SCTP_ASCONF_ACK \<in> set (snd p))"
  by (simp_all add: add_flags_def)

lemma params_Cons:
  "lists_chunk (p # ps) t c \<longleftrightarrow> (fst p = t \<and> c \<in> set (snd p)) \<or> lists_chunk ps t c"
  "offers (p # ps) t \<longleftrightarrow> fst p = t \<or> offers ps t"
  by (cases p; auto simp: lists_chunk_def offers_def)+

lemma fold_add_flags:
  "peer_supports_asconf (fold add_flags ps f) \<longleftrightarrow> peer_supports_asconf f \<or>
     lists_chunk ps SCTP_SUPPORTED_CHUNK_EXT SCTP_ASCONF \<or> lists_chunk ps SCTP_SUPPORTED_CHUNK_EXT SCTP_ASCONF_ACK"
  "got_random (fold add_flags ps f) \<longleftrightarrow> got_random f \<or> offers ps SCTP_RANDOM"
  "got_hmacs (fold add_flags ps f) \<longleftrightarrow> got_hmacs f \<or> offers ps SCTP_HMAC_LIST"
  "got_chklist (fold add_flags ps f) \<longleftrightarrow> got_chklist f \<or> (\<exists>c. lists_chunk ps SCTP_CHUNK_LIST c)"
  "saw_asconf (fold add_flags ps f) \<longleftrightarrow> saw_asconf f \<or> lists_chunk ps SCTP_CHUNK_LIST SCTP_ASCONF"
  "saw_asconf_ack (fold add_flags ps f) \<longleftrightarrow> saw_asconf_ack f \<or> lists_chunk ps SCTP_CHUNK_LIST SCTP_ASCONF_ACK"
proof (induction ps arbitrary: f)
  case (Cons p ps)
  case 1 show ?case by (auto simp: Cons.IH add_flags_simps params_Cons)
  case 2 show ?case by (auto simp: Cons.IH add_flags_simps params_Cons)
  case 3 show ?case by (auto simp: Cons.IH add_flags_simps params_Cons)
  case 4 show ?case by (auto simp: Cons.IH add_flags_simps params_Cons ex_disj_distrib ex_in_conv)
  case 5 show ?case by (auto simp: Cons.IH add_flags_simps params_Cons)
  case 6 show ?case by (auto simp: Cons.IH add_flags_simps params_Cons)
qed (auto simp: lists_chunk_def offers_def)

lemma validate_init_scan:
  assumes "drop off (concat m) = enc_params ps @ rest" "params_ok ps"
  shows "sctp_validate_init_auth_params m (int off) (int (off + length (enc_params ps))) = init_auth_verdict (takeWhile store_fits ps)"
proof -
  let ?seen = "takeWhile store_fits ps"
  note scan = init_loop_scan [OF assms(1,2) refl, of init_no_flags, unfolded init_scan_eq [OF assms(2)] Let_def]
  have bad: "list_ex bad_param ?seen \<longleftrightarrow> (\<exists>v. (SCTP_RANDOM, v) \<in> set ?seen \<and> length v \<noteq> 32) \<or>
      (\<exists>v. (SCTP_HMAC_LIST, v) \<in> set ?seen \<and> SCTP_AUTH_HMAC_ID_SHA1 \<notin> set (hmac_ids v))"
    by (auto simp: list_ex_iff bad_param_def Bex_def split_paired_Ex)
  show ?thesis
    unfolding sctp_validate_init_auth_params_def scan init_auth_verdict_def bad
    by (auto simp: fold_add_flags init_no_flags_def Let_def)
qed

lemma validate_init_eq:
  assumes "drop off (concat m) = enc_params ps @ rest" "stores_fit ps"
  shows "sctp_validate_init_auth_params m (int off) (int (off + length (enc_params ps))) = init_auth_verdict ps"
proof -
  have "takeWhile store_fits ps = ps" using assms(2) by (simp add: stores_fit_iff takeWhile_eq_all_conv)
  with validate_init_scan [OF assms(1)] assms(2) show ?thesis by (simp add: stores_fit_iff)
qed

text \<open>
  C25: the check of the authentication parameters of a received INIT. For an INIT made of any list of encoded
  parameters, however it is cut into mbufs, the loop ends, and it stops at the first parameter that does not fit into its local buffer: a list
  of chunk types with more than 256 entries or a list of HMAC identifiers with more than 508 bytes. The verdict on the parameters before it is: -1 when a
  RANDOM does not have 32 bytes or a list of HMAC identifiers lacks SHA-1; -1 when the peer lists chunks to authenticate or supports address reconfiguration without offering both
  RANDOM and HMAC list; -2 when it supports address reconfiguration but does not list both its chunks
  as authenticated; and 0 otherwise.
\<close>

theorem sctp_validate_init_auth_params_correct:
  assumes "drop off (concat m) = enc_params ps @ rest" "params_ok ps"
  shows "sctp_validate_init_auth_params m (int off) (int (off + length (enc_params ps))) = init_auth_verdict (takeWhile store_fits ps)"
  by (rule validate_init_scan [OF assms])

theorem sctp_validate_init_auth_params_correct_witness:
  "sctp_validate_init_auth_params [[0x80, 0x08, 0], [5, 0xc1, 0, 0, 0]] 0 8 = -1"
proof -
  have e: "enc_params [(SCTP_SUPPORTED_CHUNK_EXT, [0xc1])] = [0x80, 0x08, 0, 5, 0xc1, 0, 0, 0]"
    by code_simp
  have fit: "params_ok [(SCTP_SUPPORTED_CHUNK_EXT, [0xc1])]" "store_fits (SCTP_SUPPORTED_CHUNK_EXT, [0xc1])"
    by (simp_all add: params_ok_def store_fits_def)
  have "init_auth_verdict [(SCTP_SUPPORTED_CHUNK_EXT, [0xc1])] = -1"
    by (simp add: init_auth_verdict_def lists_chunk_def offers_def param_types SCTP_ASCONF_def)
  with sctp_validate_init_auth_params_correct [of 0 "[[0x80, 0x08, 0], [5, 0xc1, 0, 0, 0]]"
      "[(SCTP_SUPPORTED_CHUNK_EXT, [0xc1])]" "[]"] e fit
  show ?thesis by simp
qed

section \<open>The cookie\<close>

definition cookie_step :: "allocator \<Rightarrow> param \<Rightarrow> cookie_vars \<Rightarrow> cookie_vars param_step" where
  "cookie_step malloc p v = cookie_param malloc [param_bytes p] 0 (fst p) (word_of_nat (4 + length (snd p))) v"

fun cookie_scan :: "allocator \<Rightarrow> param list \<Rightarrow> cookie_vars \<Rightarrow> (bool \<times> cookie_vars) option" where
  "cookie_scan malloc [] v = Some (False, v)"
| "cookie_scan malloc (p # ps) v =
     (case cookie_step malloc p v of
        Next v' \<Rightarrow> cookie_scan malloc ps v' | Break \<Rightarrow> Some (False, v) | Return \<Rightarrow> Some (True, v) | Outside \<Rightarrow> None)"

lemma u32_int:
  assumes "unat (w :: u32) = n" "n < 2 ^ 31"
  shows "sint w = int n"
proof -
  have "uint w = int n" using assms(1) by (metis of_nat_unat)
  then have "sint w = signed_take_bit 31 (int n)" by (simp only: sint_uint) simp
  also have "\<dots> = int n" using assms(2) by (intro signed_take_bit_int_eq_self) auto
  finally show ?thesis .
qed

lemma cookie_param_step:
  assumes "drop o1 (concat m) = enc_param p @ rest" "length (snd p) < 65532" "unat off = o1" "o1 < 2 ^ 31"
  shows "cookie_param malloc m off (fst p) (word_of_nat (4 + length (snd p))) v = cookie_step malloc p v"
proof -
  let ?plen = "word_of_nat (4 + length (snd p)) :: u16"
  note a = param_at [OF assms(1,2) refl refl]
  have "sctp_m_getptr [param_bytes p] 0 (uint ?plen) = Some (param_bytes p)"
    using a(2) by (simp add: m_getptr_eq nat_add_distrib)
  with a(4) u32_int [OF assms(3,4)] show ?thesis
    by (simp add: cookie_step_def cookie_param_def sctp_get_next_param_def)
qed

lemma unat_u16_u32: "unat (ucast (w :: u16) :: u32) = unat w"
  using unsigned_less [of w, where 'a = nat] by (simp add: unsigned_ucast_eq take_bit_nat_eq_self)

lemma cookie_loop_scan:
  assumes "drop o1 (concat m) = enc_params ps @ rest" "params_ok ps" "length (concat m) < 2 ^ 31"
    and "unat off = o1" "unat len = o1 + length (enc_params ps)" "o1 < 2 ^ 31"
  shows "cookie_loop malloc m len off v = cookie_scan malloc ps v"
  using assms(1,2,4-6)
proof (induction ps arbitrary: o1 off v)
  case Nil
  have "off = len" using Nil.prems by (simp add: enc_params_def word_unat_eq_iff)
  moreover have "off + ucast w > off" if "w \<noteq> 0" for w :: u16
  proof -
    have "0 < unat w" "unat w < 2 ^ 16" using that unsigned_less [of w, where 'a = nat] by (simp_all add: unat_gt_0)
    then show ?thesis using Nil.prems(3,5) unat_u16_u32 [of w] by (simp add: word_less_nat_alt unat_word_ariths)
  qed
  ultimately show ?case
    by (subst cookie_loop.simps) (auto simp: Let_def split: option.splits)
next
  case (Cons p ps)
  let ?plen = "word_of_nat (4 + length (snd p)) :: u16"
  have d: "drop o1 (concat m) = enc_param p @ (enc_params ps @ rest)" using Cons.prems(1) by (simp add: enc_params_def)
  have p: "length (snd p) < 65532" and ps: "params_ok ps" using Cons.prems(2) by (auto simp: params_ok_def)
  note a = param_at [OF d p refl refl]
  have len: "unat len = o1 + length (enc_param p) + length (enc_params ps)"
    using Cons.prems(4) by (simp add: enc_params_def)
  have big: "4 + length (snd p) \<le> length (enc_param p)" by (simp add: enc_param_def)
  have tot: "o1 + length (enc_param p) < 2 ^ 31" using a(7) assms(3) by linarith
  have pl: "unat (ucast ?plen :: u32) = 4 + length (snd p)" using a(1) by (simp only: unat_u16_u32)
  have c: "?plen \<noteq> 0" "\<not> off + ucast ?plen > len"
    using a(1) pl len big tot Cons.prems(3)
    by (auto simp: word_less_nat_alt unat_word_ariths simp del: of_nat_add)
  have off': "unat (off + SCTP_SIZE32 (ucast ?plen)) = o1 + length (enc_param p)"
  proof -
    have "int (unat (SCTP_SIZE32 (ucast ?plen))) = int (length (enc_param p))" using a(5) by (simp del: of_nat_add)
    then have "unat (SCTP_SIZE32 (ucast ?plen)) = length (enc_param p)" by (simp only: of_nat_eq_iff)
    then show ?thesis using Cons.prems(3) tot by (simp add: unat_word_ariths del: of_nat_add)
  qed
  let ?off' = "off + SCTP_SIZE32 (ucast ?plen)"
  have so: "sctp_m_getptr m (sint off) 4 = Some (param_header (fst p) ?plen)"
    using a(3) u32_int [OF Cons.prems(3,5)] by simp
  have step: "cookie_loop malloc m len off v =
    (case cookie_step malloc p v of
       Next v' \<Rightarrow> if unat ?off' + 4 > unat len then Some (False, v') else cookie_loop malloc m len ?off' v'
     | Break \<Rightarrow> Some (False, v) | Return \<Rightarrow> Some (True, v) | Outside \<Rightarrow> None)"
    using so c cookie_param_step [OF d p Cons.prems(3,5), of malloc v]
    by (subst cookie_loop.simps) (simp add: ntohs_header Let_def del: of_nat_add split: param_step.split)
  have "cookie_loop malloc m len ?off' v' = cookie_scan malloc ps v'" for v'
    using Cons.IH [OF a(6) ps off' _ tot] len by simp
  moreover have "ps = [] \<longleftrightarrow> unat ?off' + 4 > unat len"
  proof (cases ps)
    case (Cons q qs)
    have "4 \<le> length (enc_param q)" by (simp add: enc_param_def)
    then show ?thesis using Cons len off' by (simp add: enc_params_def)
  qed (use len off' in \<open>simp add: enc_params_def\<close>)
  ultimately show ?case using step by (auto split: param_step.splits)
qed

text \<open>What a parameter leaves in the variables, when it fits into its buffer.\<close>

definition cookie_ok :: "param list \<Rightarrow> bool" where
  "cookie_ok ps \<longleftrightarrow> params_ok ps \<and>
     (\<forall>(t, v)\<in>set ps. t \<in> {SCTP_RANDOM, SCTP_HMAC_LIST, SCTP_CHUNK_LIST} \<longrightarrow> length v \<le> 508)"

text \<open>The list of HMAC identifiers and the chunk list that are built from the parameters.\<close>

definition built_hmacs :: "allocator \<Rightarrow> bytes \<Rightarrow> sctp_hmaclist option" where
  "built_hmacs malloc v =
     (case sctp_alloc_hmaclist malloc (word_of_nat (length v div 2)) of
        None \<Rightarrow> None
      | Some l \<Rightarrow> fold (\<lambda>h l. snd (sctp_auth_add_hmacid l h)) (hmac_ids v) (Some l))"

definition built_chunks :: "allocator \<Rightarrow> bytes \<Rightarrow> sctp_auth_chklist option \<Rightarrow> sctp_auth_chklist option" where
  "built_chunks malloc v old =
     add_all v (case old of Some l \<Rightarrow> Some (sctp_clear_chunklist l) | None \<Rightarrow> sctp_alloc_chunklist malloc)"

definition cookie_apply :: "allocator \<Rightarrow> param \<Rightarrow> cookie_vars \<Rightarrow> cookie_vars" where
  "cookie_apply malloc p v =
     (if fst p = SCTP_RANDOM
      then v\<lparr>p_random := Some (param_bytes p), cv_random_len := word_of_nat (length (snd p))\<rparr>
      else if fst p = SCTP_HMAC_LIST
      then v\<lparr>cv_hmacs := Some (param_bytes p), cv_hmacs_len := word_of_nat (length (snd p)),
             cv_stcb := (cv_stcb v)\<lparr>local_hmacs := built_hmacs malloc (snd p)\<rparr>\<rparr>
      else if fst p = SCTP_CHUNK_LIST
      then v\<lparr>cv_chunks := Some (param_bytes p), cv_num_chunks := word_of_nat (length (snd p)),
             cv_stcb := (cv_stcb v)\<lparr>local_auth_chunks := built_chunks malloc (snd p) (local_auth_chunks (cv_stcb v))\<rparr>\<rparr>
      else v)"

lemma word_of_nat_div2:
  assumes "n < 65536"
  shows "(word_of_nat n :: u16) div 2 = word_of_nat (n div 2)"
  using assms by (simp add: word_unat_eq_iff unat_div unat_of_nat take_bit_nat_eq_self)

lemma cookie_hmacs_built:
  assumes "length (snd p) \<le> 508" "plen = word_of_nat (4 + length (snd p))"
  shows "cookie_hmacs malloc (param_bytes p) plen v =
    Next (v\<lparr>cv_hmacs := Some (param_bytes p), cv_hmacs_len := word_of_nat (length (snd p)),
             cv_stcb := (cv_stcb v)\<lparr>local_hmacs := built_hmacs malloc (snd p)\<rparr>\<rparr>)"
proof -
  have l: "plen - 4 = word_of_nat (length (snd p))" by (simp add: assms(2))
  have n: "(word_of_nat (length (snd p)) :: u16) div 2 = word_of_nat (length (snd p) div 2)"
    using assms(1) by (intro word_of_nat_div2) simp
  have u: "unat (word_of_nat (length (snd p) div 2) :: u16) = length (snd p) div 2"
    using assms(1) by (simp add: unat_of_nat take_bit_nat_eq_self)
  have id: "hmac_id_at (param_bytes p) i = be16 (snd p ! (2 * i)) (snd p ! (2 * i + 1))" for i
    by (simp add: hmac_id_at_def param_bytes_def param_header_def nth_append)
  have "fold (\<lambda>i l. snd (sctp_auth_add_hmacid l (hmac_id_at (param_bytes p) i))) [0..<length (snd p) div 2] x =
      fold (\<lambda>h l. snd (sctp_auth_add_hmacid l h)) (hmac_ids (snd p)) x" for x
    by (simp add: hmac_ids_def fold_map id comp_def)
  then show ?thesis
    by (auto simp: cookie_hmacs_def Let_def l n u built_hmacs_def split: option.splits)
qed

lemma cookie_step_apply:
  assumes "cookie_ok [p]"
  shows "cookie_step malloc p v = Next (cookie_apply malloc p v)"
proof -
  let ?plen = "word_of_nat (4 + length (snd p)) :: u16"
  have l: "length (snd p) < 65532" using assms by (simp add: cookie_ok_def params_ok_def)
  have u: "unat ?plen = 4 + length (snd p)" and ui: "uint ?plen = 4 + int (length (snd p))"
    using param_at(1,2) [of 0 "[enc_param p]" p "[]" 0 ?plen] l by simp_all
  have g: "sctp_get_next_param [param_bytes p] (sint (0 :: u32)) (uint ?plen) = Some (param_bytes p)"
    using ui by (simp add: sctp_get_next_param_def m_getptr_eq nat_add_distrib)
  have d4: "drop 4 (param_bytes p) = snd p" by (simp add: param_bytes_def param_header_def)
  have pm: "?plen - 4 = word_of_nat (length (snd p))" by simp
  show ?thesis
  proof (cases "fst p \<in> {SCTP_RANDOM, SCTP_HMAC_LIST, SCTP_CHUNK_LIST}")
    case True
    then have small: "length (snd p) \<le> 508" using assms by (cases p) (auto simp: cookie_ok_def)
    then have fit: "\<not> ?plen > SCTP_PARAM_BUFFER_SIZE"
      using u by (simp add: word_less_nat_alt SCTP_PARAM_BUFFER_SIZE_def)
    have ul: "unat (word_of_nat (length (snd p)) :: u16) = length (snd p)"
      using small by (simp add: unat_of_nat take_bit_nat_eq_self)
    have c: "cookie_chunks malloc (param_bytes p) ?plen v =
      Next (v\<lparr>cv_chunks := Some (param_bytes p), cv_num_chunks := word_of_nat (length (snd p)),
             cv_stcb := (cv_stcb v)\<lparr>local_auth_chunks := built_chunks malloc (snd p) (local_auth_chunks (cv_stcb v))\<rparr>\<rparr>)"
      unfolding cookie_chunks_def Let_def pm ul d4 by (auto simp: built_chunks_def split: option.splits)
    have b: "(ptype = SCTP_RANDOM \<or> ptype = SCTP_HMAC_LIST \<or> ptype = SCTP_CHUNK_LIST) = (ptype \<in> {SCTP_RANDOM, SCTP_HMAC_LIST, SCTP_CHUNK_LIST})"
      for ptype by blast
    show ?thesis
      unfolding cookie_step_def cookie_param_def b if_P [OF True] if_not_P [OF fit] g
      using True c cookie_hmacs_built [OF small refl, of malloc v] pm
      by (auto simp: cookie_apply_def simp del: of_nat_add)
  next
    case False
    then show ?thesis by (simp add: cookie_step_def cookie_param_def cookie_apply_def)
  qed
qed

lemma cookie_scan_apply:
  assumes "cookie_ok ps"
  shows "cookie_scan malloc ps v = Some (False, fold (cookie_apply malloc) ps v)"
  using assms
proof (induction ps arbitrary: v)
  case (Cons p ps)
  then have "cookie_ok [p]" "cookie_ok ps" by (auto simp: cookie_ok_def params_ok_def)
  with Cons.IH cookie_step_apply show ?case by simp
qed simp

abbreviation last_param :: "param list \<Rightarrow> u16 \<Rightarrow> bytes option" where
  "last_param ps t \<equiv> map_of (rev ps) t"

lemma last_param_Cons:
  "last_param (p # ps) t = (case last_param ps t of None \<Rightarrow> (if fst p = t then Some (snd p) else None) | Some v \<Rightarrow> Some v)"
  by (cases p) (auto simp: map_add_def split: option.splits)

lemma cookie_apply_simps:
  "p_random (cookie_apply malloc p v) = (if fst p = SCTP_RANDOM then Some (param_bytes (SCTP_RANDOM, snd p)) else p_random v)"
  "cv_random_len (cookie_apply malloc p v) = (if fst p = SCTP_RANDOM then word_of_nat (length (snd p)) else cv_random_len v)"
  "cv_hmacs (cookie_apply malloc p v) = (if fst p = SCTP_HMAC_LIST then Some (param_bytes (SCTP_HMAC_LIST, snd p)) else cv_hmacs v)"
  "cv_hmacs_len (cookie_apply malloc p v) = (if fst p = SCTP_HMAC_LIST then word_of_nat (length (snd p)) else cv_hmacs_len v)"
  "cv_chunks (cookie_apply malloc p v) = (if fst p = SCTP_CHUNK_LIST then Some (param_bytes (SCTP_CHUNK_LIST, snd p)) else cv_chunks v)"
  "cv_num_chunks (cookie_apply malloc p v) = (if fst p = SCTP_CHUNK_LIST then word_of_nat (length (snd p)) else cv_num_chunks v)"
  "local_hmacs (cv_stcb (cookie_apply malloc p v)) =
     (if fst p = SCTP_HMAC_LIST then built_hmacs malloc (snd p) else local_hmacs (cv_stcb v))"
  "authinfo (cv_stcb (cookie_apply malloc p v)) = authinfo (cv_stcb v)"
  "shared_keys (cv_stcb (cookie_apply malloc p v)) = shared_keys (cv_stcb v)"
  "peer_hmacs (cv_stcb (cookie_apply malloc p v)) = peer_hmacs (cv_stcb v)"
  "events (cv_stcb (cookie_apply malloc p v)) = events (cv_stcb v)"
  by (cases p; auto simp: cookie_apply_def param_types)+

lemma cookie_vars_final:
  fixes malloc ps v
  defines "w \<equiv> fold (cookie_apply malloc) ps v"
  shows "p_random w = (case last_param ps SCTP_RANDOM of None \<Rightarrow> p_random v | Some r \<Rightarrow> Some (param_bytes (SCTP_RANDOM, r)))"
    "cv_random_len w = (case last_param ps SCTP_RANDOM of None \<Rightarrow> cv_random_len v | Some r \<Rightarrow> word_of_nat (length r))"
    "cv_hmacs w = (case last_param ps SCTP_HMAC_LIST of None \<Rightarrow> cv_hmacs v | Some h \<Rightarrow> Some (param_bytes (SCTP_HMAC_LIST, h)))"
    "cv_hmacs_len w = (case last_param ps SCTP_HMAC_LIST of None \<Rightarrow> cv_hmacs_len v | Some h \<Rightarrow> word_of_nat (length h))"
    "cv_chunks w = (case last_param ps SCTP_CHUNK_LIST of None \<Rightarrow> cv_chunks v | Some c \<Rightarrow> Some (param_bytes (SCTP_CHUNK_LIST, c)))"
    "cv_num_chunks w = (case last_param ps SCTP_CHUNK_LIST of None \<Rightarrow> cv_num_chunks v | Some c \<Rightarrow> word_of_nat (length c))"
    "local_hmacs (cv_stcb w) = (case last_param ps SCTP_HMAC_LIST of None \<Rightarrow> local_hmacs (cv_stcb v) | Some h \<Rightarrow> built_hmacs malloc h)"
    "authinfo (cv_stcb w) = authinfo (cv_stcb v)" "shared_keys (cv_stcb w) = shared_keys (cv_stcb v)"
    "peer_hmacs (cv_stcb w) = peer_hmacs (cv_stcb v)" "events (cv_stcb w) = events (cv_stcb v)"
  unfolding w_def
proof (induction ps arbitrary: v)
  case (Cons p ps)
  note S = last_param_Cons cookie_apply_simps
  case 1 show ?case by (auto simp: Cons.IH S split: option.splits)
  case 2 show ?case by (auto simp: Cons.IH S split: option.splits)
  case 3 show ?case by (auto simp: Cons.IH S split: option.splits)
  case 4 show ?case by (auto simp: Cons.IH S split: option.splits)
  case 5 show ?case by (auto simp: Cons.IH S split: option.splits)
  case 6 show ?case by (auto simp: Cons.IH S split: option.splits)
  case 7 show ?case by (auto simp: Cons.IH S split: option.splits)
  case 8 show ?case by (simp add: Cons.IH S)
  case 9 show ?case by (simp add: Cons.IH S)
  case 10 show ?case by (simp add: Cons.IH S)
  case 11 show ?case by (simp add: Cons.IH S)
qed simp_all

section \<open>The key vector\<close>

definition key_vector :: "bytes \<Rightarrow> bytes \<Rightarrow> bytes \<Rightarrow> bytes" where
  "key_vector r c h = param_bytes (SCTP_RANDOM, r) @ param_bytes (SCTP_CHUNK_LIST, c) @ param_bytes (SCTP_HMAC_LIST, h)"

lemma length_key_vector: "length (key_vector r c h) = 12 + length r + length c + length h"
  by (simp add: key_vector_def)

lemma unat_u16_len: "n < 65536 \<Longrightarrow> unat (word_of_nat n :: u16) = n"
  by (simp add: unat_of_nat take_bit_nat_eq_self)

lemma ucast_u16_len: "n < 65536 \<Longrightarrow> (ucast (word_of_nat n :: u16) :: u32) = word_of_nat n"
  by (simp add: word_unat_eq_iff unat_u16_u32 unat_u16_len unat_len)

lemma alloc_key_sized:
  assumes "malloc_sized malloc" "malloc (4 + unat len) \<noteq> None"
  shows "\<exists>b. sctp_alloc_key malloc len = Some \<lparr>keylen = len, key = b\<rparr> \<and> length b = unat len"
  using assms by (auto simp: sctp_alloc_key_def malloc_sized_def)

lemma cookie_key_complete:
  assumes "malloc_sized malloc" "\<And>n. malloc n \<noteq> None"
    and "length r \<le> 508" "length c \<le> 508" "length h \<le> 508"
    and v: "p_random v = Some (param_bytes (SCTP_RANDOM, r))" "cv_random_len v = word_of_nat (length r)"
      "cv_chunks v = Some (param_bytes (SCTP_CHUNK_LIST, c))" "cv_num_chunks v = word_of_nat (length c)"
      "cv_hmacs v = Some (param_bytes (SCTP_HMAC_LIST, h))" "cv_hmacs_len v = word_of_nat (length h)"
  shows "cookie_key malloc v = Some (Some (raw_key (key_vector r c h)))"
proof -
  let ?n = "12 + length r + length c + length h"
  define L :: u32 where "L = 8 + ucast (cv_random_len v) + ucast (cv_hmacs_len v) + 4 + ucast (cv_num_chunks v)"
  have len: "L = word_of_nat ?n"
    using assms(3-5) by (simp add: L_def v ucast_u16_len)
  have un: "unat L = ?n" unfolding len using assms(3-5) by (intro unat_len) simp
  have e: "(if cv_chunks v \<noteq> None then 8 + ucast (cv_random_len v) + ucast (cv_hmacs_len v) + 4 + ucast (cv_num_chunks v)
      else 8 + ucast (cv_random_len v) + ucast (cv_hmacs_len v)) = L"
    by (simp add: v(3) L_def)
  obtain b where b: "sctp_alloc_key malloc L = Some \<lparr>keylen = L, key = b\<rparr>" "length b = ?n"
    using alloc_key_sized [OF assms(1), of L] assms(2) un by metis
  have ul: "unat (cv_random_len v) = length r" "unat (cv_num_chunks v) = length c" "unat (cv_hmacs_len v) = length h"
    using assms(3-5) by (simp_all add: v unat_u16_len)
  have rda: "rd (param_bytes (t, x)) 0 (4 + length x) = Some (param_bytes (t, x))" for t x by (simp add: rd_def)
  have "cookie_key malloc v = Some (Some \<lparr>keylen = L, key = key_vector r c h\<rparr>)"
    unfolding cookie_key_def Let_def e using b(2)
    by (simp add: b(1) v(1,3,5) ul rda wr_def key_vector_def)
  then show ?thesis by (simp add: raw_key_def len length_key_vector)
qed

text \<open>Without RANDOM the offset of the appended parts is the length of the block.\<close>

lemma cookie_key_overruns:
  assumes "malloc_sized malloc" "\<And>n. malloc n \<noteq> None" "p_random v = None" "cv_chunks v \<noteq> None \<or> cv_hmacs v \<noteq> None"
  shows "cookie_key malloc v = None"
proof -
  define L :: u32 where "L = (if cv_chunks v \<noteq> None then 8 + ucast (cv_random_len v) + ucast (cv_hmacs_len v) + 4 + ucast (cv_num_chunks v)
      else 8 + ucast (cv_random_len v) + ucast (cv_hmacs_len v))"
  obtain b where b: "sctp_alloc_key malloc L = Some \<lparr>keylen = L, key = b\<rparr>" "length b = unat L"
    using alloc_key_sized [OF assms(1), of L] assms(2) by metis
  have over: "(case rd p 0 (4 + n) of None \<Rightarrow> None | Some x \<Rightarrow> wr b (unat L) x) = None" for p n
    by (simp add: rd_def wr_def b(2))
  show ?thesis
    unfolding cookie_key_def Let_def L_def [symmetric]
    using assms(4) over by (auto simp: b(1) assms(3) rd_def wr_def b(2) split: option.splits)
qed

section \<open>The initial parameters\<close>

lemma wr_at_end:
  "off = length a \<Longrightarrow> length src \<le> length b \<Longrightarrow> wr (a @ b) off src = Some (a @ src @ drop (length src) b)"
  by (simp add: wr_def)

lemma fill_key_vector_eq:
  assumes "length b = 12 + 32 + length cs + length hs" "length (env_random env 32) = 32"
    and "(case local_auth_chunks stcb of None \<Rightarrow> [] | Some l \<Rightarrow> listed_chunks l) = cs"
    and "fst (sctp_serialize_hmaclist (local_hmacs stcb)) = hs"
    and "clen = word_of_nat (length cs)" "hlen = word_of_nat (length hs)"
  shows "fill_key_vector env b 32 clen hlen stcb = Some (key_vector (env_random env 32) cs hs)"
proof -
  have h: "length (param_header t l) = 4" for t l by (simp add: param_header_def)
  have u: "unat (32 :: u16) = 32" by simp
  show ?thesis
    using assms(1,2) unfolding fill_key_vector_def Let_def assms(3-6) u
    by (simp add: wr_def h key_vector_def param_bytes_def)
qed

lemma used_bound:
  assumes "hmaclist_ok l"
  shows "length (used_hmacs l) = unat (num_algo l)" "length (used_hmacs l) \<le> 1"
proof -
  show "length (used_hmacs l) = unat (num_algo l)" using assms by (simp add: hmaclist_ok_def word_le_nat_alt min_def)
  have "length (used_hmacs l) = card (set (used_hmacs l))" using assms by (simp add: hmaclist_ok_def distinct_card)
  also have "\<dots> \<le> card {SCTP_AUTH_HMAC_ID_SHA1}" using assms by (intro card_mono) (auto simp: hmaclist_ok_def)
  finally show "length (used_hmacs l) \<le> 1" by simp
qed

lemma copy_hmaclist_ok:
  assumes "malloc_sized malloc" "\<And>n. malloc n \<noteq> None" "hmaclist_ok l"
  shows "\<exists>l'. sctp_copy_hmaclist malloc (Some l) = Some l' \<and> hmaclist_ok l' \<and> used_hmacs l' = used_hmacs l \<and> num_algo l' = num_algo l"
proof -
  have "sctp_alloc_hmaclist malloc (max_algo l) \<noteq> None" using assms(2) by (simp add: sctp_alloc_hmaclist_def split: option.splits)
  then obtain n where n: "sctp_alloc_hmaclist malloc (max_algo l) = Some n" by blast
  have ln: "length (hmac n) = unat (max_algo l)" using alloc_hmaclist_ok [OF assms(1) n] by (simp add: hmaclist_ok_def)
  let ?l = "\<lparr>max_algo = max_algo l, num_algo = num_algo l, hmac = used_hmacs l @ drop (unat (num_algo l)) (hmac n)\<rparr>"
  have "used_hmacs ?l = used_hmacs l" using used_bound(1) [OF assms(3)] by simp
  moreover from this have "hmaclist_ok ?l"
    using assms(3) ln used_bound(1) [OF assms(3)] by (simp add: hmaclist_ok_def word_le_nat_alt)
  ultimately show ?thesis using n by (auto simp: sctp_copy_hmaclist_def)
qed

definition hmac_param :: "sctp_tcb \<Rightarrow> bytes" where
  "hmac_param s = fst (sctp_serialize_hmaclist (local_hmacs s))"

definition chunk_param :: "sctp_tcb \<Rightarrow> bytes" where
  "chunk_param s = (case local_auth_chunks s of None \<Rightarrow> [] | Some l \<Rightarrow> listed_chunks l)"

lemma length_hmac_param: "length (concat (map bytes_of_be16 xs)) = 2 * length xs"
  by (induction xs) auto

definition total_env :: "auth_env \<Rightarrow> bool" where
  "total_env env \<longleftrightarrow> env_ok env \<and> (\<forall>n. env_malloc env n \<noteq> None) \<and> length (env_random env 32) = 32"

lemma initialize_params:
  assumes "total_env env" "\<And>l. ep_local_hmacs inp = Some l \<Longrightarrow> hmaclist_ok l"
  shows "\<exists>s. sctp_initialize_auth_params env inp stcb = Some s \<and>
    ai_random (authinfo s) = Some (raw_key (key_vector (env_random env 32) (chunk_param s) (hmac_param s))) \<and>
    length (chunk_param s) \<le> 256 \<and> length (hmac_param s) \<le> 2 \<and>
    authinfo s = (authinfo stcb)\<lparr>ai_random := ai_random (authinfo s), random_len := 32, active_keyid := default_keyid inp\<rparr> \<and>
    shared_keys s = the (snd (sctp_copy_skeylist (env_malloc env) (Some (ep_shared_keys inp)) (Some (shared_keys stcb)))) \<and>
    local_hmacs s = sctp_copy_hmaclist (env_malloc env) (ep_local_hmacs inp)"
proof -
  have mal: "malloc_sized (env_malloc env)" "\<And>n. env_malloc env n \<noteq> None" "length (env_random env 32) = 32"
    using assms(1) by (auto simp: total_env_def env_ok_def)
  let ?h = "sctp_copy_hmaclist (env_malloc env) (ep_local_hmacs inp)"
  let ?c = "sctp_copy_chunklist (env_malloc env) (ep_local_auth_chunks inp)"
  define s1 where "s1 = stcb\<lparr>local_hmacs := ?h, local_auth_chunks := ?c\<rparr>"
  define cs where "cs = chunk_param s1"
  define hs where "hs = hmac_param s1"
  have lc: "length cs \<le> 256"
    by (auto simp: cs_def chunk_param_def listed_chunks_def split: option.split intro: order_trans [OF length_filter_le])
  have h: "?h = None \<or> (\<exists>l. ?h = Some l \<and> hmaclist_ok l)"
  proof (cases "ep_local_hmacs inp")
    case (Some l)
    then show ?thesis using copy_hmaclist_ok [OF mal(1,2) assms(2) [OF Some]] by auto
  qed (simp add: sctp_copy_hmaclist_def)
  have lh: "length hs \<le> 2" and hl: "(case ?h of None \<Rightarrow> 0 | Some l \<Rightarrow> num_algo l * 2) = word_of_nat (length hs)"
    using h used_bound by (auto simp: hs_def hmac_param_def s1_def sctp_serialize_hmaclist_def length_hmac_param)
  have cl: "(case ?c of None \<Rightarrow> 0 | Some l \<Rightarrow> word_of_nat (length (listed_chunks l))) = (word_of_nat (length cs) :: u16)"
    by (simp add: cs_def chunk_param_def s1_def split: option.split)
  let ?kl = "44 + word_of_nat (length cs) + word_of_nat (length hs) :: u16"
  have ku: "unat (ucast ?kl :: u32) = 44 + length cs + length hs"
  proof -
    have "?kl = word_of_nat (44 + length cs + length hs)" by simp
    then show ?thesis using lc lh by (simp only: unat_u16_u32 unat_u16_len)
  qed
  obtain b where b: "sctp_alloc_key (env_malloc env) (ucast ?kl) = Some \<lparr>keylen = ucast ?kl, key = b\<rparr>"
    "length b = 44 + length cs + length hs"
    using alloc_key_sized [OF mal(1), of "ucast ?kl"] mal(2) ku by metis
  have fill: "fill_key_vector env b 32 (word_of_nat (length cs)) (word_of_nat (length hs)) s = Some (key_vector (env_random env 32) cs hs)"
    if "local_auth_chunks s = ?c" "local_hmacs s = ?h" for s
    using that b(2) mal(3)
    by (intro fill_key_vector_eq) (simp_all add: cs_def hs_def chunk_param_def hmac_param_def s1_def)
  have kk: "ucast ?kl = (word_of_nat (length (key_vector (env_random env 32) cs hs)) :: u32)"
    using ku lc lh unat_len [of "length (key_vector (env_random env 32) cs hs)"]
    by (simp add: word_unat_eq_iff length_key_vector mal(3) del: of_nat_add)
  obtain s where s: "sctp_initialize_auth_params env inp stcb = Some s"
    "ai_random (authinfo s) = Some (raw_key (key_vector (env_random env 32) cs hs))"
    "local_auth_chunks s = ?c" "local_hmacs s = ?h"
    "authinfo s = (authinfo stcb)\<lparr>ai_random := ai_random (authinfo s), random_len := 32, active_keyid := default_keyid inp\<rparr>"
    "shared_keys s = the (snd (sctp_copy_skeylist (env_malloc env) (Some (ep_shared_keys inp)) (Some (shared_keys stcb))))"
    by (simp add: sctp_initialize_auth_params_def Let_def hl cl b(1) fill SCTP_AUTH_RANDOM_SIZE_DEFAULT_def upd_auth_def raw_key_def
        flip: kk)
  moreover from s(3,4) have "chunk_param s = cs" "hmac_param s = hs"
    by (simp_all add: cs_def hs_def chunk_param_def hmac_param_def s1_def)
  ultimately show ?thesis using lc lh by (intro exI [of _ s]) simp
qed

lemma upd_auth_simps [simp]:
  "authinfo (upd_auth f s) = f (authinfo s)" "shared_keys (upd_auth f s) = shared_keys s"
  "local_hmacs (upd_auth f s) = local_hmacs s" "peer_hmacs (upd_auth f s) = peer_hmacs s"
  "local_auth_chunks (upd_auth f s) = local_auth_chunks s" "peer_hmac_id (upd_auth f s) = peer_hmac_id s"
  by (simp_all add: upd_auth_def)

lemma cleared_caches:
  "k1 = assoc_keyid (authinfo s) \<Longrightarrow> assoc_key (authinfo (sctp_clear_cachedkeys (sctp_clear_cachedkeys s k1) k2)) = None"
  "k2 = recv_keyid (authinfo s) \<Longrightarrow> recv_key (authinfo (sctp_clear_cachedkeys (sctp_clear_cachedkeys s k1) k2)) = None"
  by (simp_all add: sctp_clear_cachedkeys_def Let_def)

lemma clear_cachedkeys_frame [simp]:
  "ai_random (authinfo (sctp_clear_cachedkeys s k)) = ai_random (authinfo s)"
  "peer_random (authinfo (sctp_clear_cachedkeys s k)) = peer_random (authinfo s)"
  "active_keyid (authinfo (sctp_clear_cachedkeys s k)) = active_keyid (authinfo s)"
  "assoc_keyid (authinfo (sctp_clear_cachedkeys s k)) = assoc_keyid (authinfo s)"
  "recv_keyid (authinfo (sctp_clear_cachedkeys s k)) = recv_keyid (authinfo s)"
  "shared_keys (sctp_clear_cachedkeys s k) = shared_keys s" "local_hmacs (sctp_clear_cachedkeys s k) = local_hmacs s"
  "peer_hmacs (sctp_clear_cachedkeys s k) = peer_hmacs s" "local_auth_chunks (sctp_clear_cachedkeys s k) = local_auth_chunks s"
  by (simp_all add: sctp_clear_cachedkeys_def upd_auth_def Let_def)

text \<open>A cookie made of well-formed parameters, at an offset of a chain.\<close>

definition cookie_at :: "mchain \<Rightarrow> u32 \<Rightarrow> u32 \<Rightarrow> param list \<Rightarrow> bool" where
  "cookie_at m offset len ps \<longleftrightarrow> cookie_ok ps \<and> length (concat m) < 2 ^ 31 \<and> unat len = length (enc_params ps) \<and>
     (\<exists>rest. drop (unat offset) (concat m) = enc_params ps @ rest \<and> unat offset \<le> length (concat m))"

lemma cookie_loop_at:
  assumes "cookie_at m offset len ps"
  shows "cookie_loop malloc m (len + offset) offset v = Some (False, fold (cookie_apply malloc) ps v)"
proof -
  obtain rest where r: "drop (unat offset) (concat m) = enc_params ps @ rest" "unat offset \<le> length (concat m)"
    and c: "cookie_ok ps" "length (concat m) < 2 ^ 31" "unat len = length (enc_params ps)"
    using assms by (auto simp: cookie_at_def)
  have "length (concat m) - unat offset = length (enc_params ps) + length rest"
    using arg_cong [OF r(1), of length] by simp
  then have "unat (len + offset) = unat offset + length (enc_params ps)"
    using c(2,3) r(2) by (simp add: unat_word_ariths)
  moreover have "unat offset < 2 ^ 31" using r(2) c(2) by linarith
  moreover have "params_ok ps" using c(1) by (simp add: cookie_ok_def)
  ultimately show ?thesis using cookie_loop_scan [OF r(1) _ c(2) refl] cookie_scan_apply [OF c(1)] by metis
qed

text \<open>
  C35: the key vector survives the four-way handshake. A side that answers an INIT keeps no state: it
  builds its key vector from a random number, the chunks it wants authenticated and its HMAC
  identifiers, sends the three parameters in the INIT-ACK (and so in the cookie), and recovers the
  vector when the cookie comes back, in whatever order the parameters were, among whatever
  other parameters and in whatever mbufs. Both vectors are RANDOM, chunk list and HMAC list with
  their headers, in this order; the cached keys of the association are dropped and the active key
  is the endpoint's default.
\<close>

theorem cookie_recovers_key_vector:
  assumes "total_env env" "\<And>l. ep_local_hmacs inp = Some l \<Longrightarrow> hmaclist_ok l"
    and "sctp_initialize_auth_params env inp s0 = Some s"
    and "last_param ps SCTP_RANDOM = Some (env_random env 32)" "last_param ps SCTP_CHUNK_LIST = Some (chunk_param s)"
      "last_param ps SCTP_HMAC_LIST = Some (hmac_param s)" "cookie_at m offset len ps"
  shows "\<exists>s'. sctp_auth_get_cookie_params (env_malloc env) inp s1 m offset len = Some s' \<and>
    ai_random (authinfo s') = ai_random (authinfo s) \<and>
    map_option key (ai_random (authinfo s)) = Some (key_vector (env_random env 32) (chunk_param s) (hmac_param s)) \<and>
    assoc_key (authinfo s') = None \<and> recv_key (authinfo s') = None \<and> active_keyid (authinfo s') = default_keyid inp"
proof -
  let ?r = "env_random env 32" and ?malloc = "env_malloc env"
  have mal: "malloc_sized ?malloc" "\<And>n. ?malloc n \<noteq> None" "length ?r = 32"
    using assms(1) by (auto simp: total_env_def env_ok_def)
  obtain s2 where "sctp_initialize_auth_params env inp s0 = Some s2"
    "ai_random (authinfo s2) = Some (raw_key (key_vector ?r (chunk_param s2) (hmac_param s2)))"
    "length (chunk_param s2) \<le> 256" "length (hmac_param s2) \<le> 2"
    using initialize_params [OF assms(1,2), of inp s0] by blast
  with assms(3) have s: "ai_random (authinfo s) = Some (raw_key (key_vector ?r (chunk_param s) (hmac_param s)))"
    "length (chunk_param s) \<le> 256" "length (hmac_param s) \<le> 2" by auto
  let ?v = "\<lparr>p_random = None, cv_random_len = 0, cv_hmacs = None, cv_hmacs_len = 0, cv_chunks = None, cv_num_chunks = 0, cv_stcb = s1\<rparr>"
  let ?w = "fold (cookie_apply ?malloc) ps ?v"
  have "cookie_key ?malloc ?w = Some (Some (raw_key (key_vector ?r (chunk_param s) (hmac_param s))))"
    by (rule cookie_key_complete [OF mal(1,2)]) (use s mal(3) in \<open>simp_all add: cookie_vars_final assms(4-6)\<close>)
  with s(1) show ?thesis
    by (simp add: sctp_auth_get_cookie_params_def cookie_loop_at [OF assms(7)] Let_def raw_key_def cleared_caches)
qed

definition demo_inp :: sctp_inpcb where
  "demo_inp = \<lparr>default_keyid = 0, ep_shared_keys = [demo_skey 0], ep_local_hmacs = None, ep_local_auth_chunks = None,
     tcptype = False, sctp_asoc_list = []\<rparr>"

lemma demo_total_env: "total_env demo_env"
  using demo_env_ok by (simp add: total_env_def) (simp add: demo_env_def)

lemma cookie_at_whole:
  "cookie_ok ps \<Longrightarrow> length (enc_params ps) < 2 ^ 31 \<Longrightarrow> cookie_at [enc_params ps] 0 (word_of_nat (length (enc_params ps))) ps"
  by (auto simp: cookie_at_def unat_len)

theorem cookie_recovers_key_vector_witness:
  "\<exists>s s'. sctp_initialize_auth_params demo_env demo_inp (demo_tcb None None) = Some s \<and>
    sctp_auth_get_cookie_params (env_malloc demo_env) demo_inp (demo_tcb None None)
      [enc_params [(SCTP_HMAC_LIST, hmac_param s), (SCTP_RANDOM, replicate 32 7), (SCTP_CHUNK_LIST, chunk_param s)]] 0
      (word_of_nat (length (enc_params [(SCTP_HMAC_LIST, hmac_param s), (SCTP_RANDOM, replicate 32 7), (SCTP_CHUNK_LIST, chunk_param s)])))
      = Some s' \<and>
    map_option key (ai_random (authinfo s')) = Some (key_vector (replicate 32 7) (chunk_param s) (hmac_param s))"
proof -
  have noh: "hmaclist_ok l" if "ep_local_hmacs demo_inp = Some l" for l using that by (simp add: demo_inp_def)
  have r: "env_random demo_env 32 = replicate 32 7" by (simp add: demo_env_def)
  obtain s where s: "sctp_initialize_auth_params demo_env demo_inp (demo_tcb None None) = Some s"
    "length (chunk_param s) \<le> 256" "length (hmac_param s) \<le> 2"
    using initialize_params [OF demo_total_env noh, of demo_inp "demo_tcb None None"] by auto
  let ?ps = "[(SCTP_HMAC_LIST, hmac_param s), (SCTP_RANDOM, replicate 32 7), (SCTP_CHUNK_LIST, chunk_param s)]"
  have ok: "cookie_ok ?ps" using s(2,3) by (auto simp: cookie_ok_def params_ok_def)
  have "length (enc_params ?ps) < 2 ^ 31" using s(2,3) by (simp add: enc_params_def length_enc_param)
  then have at: "cookie_at [enc_params ?ps] 0 (word_of_nat (length (enc_params ?ps))) ?ps" by (rule cookie_at_whole [OF ok])
  have "last_param ?ps SCTP_RANDOM = Some (env_random demo_env 32)" "last_param ?ps SCTP_CHUNK_LIST = Some (chunk_param s)"
    "last_param ?ps SCTP_HMAC_LIST = Some (hmac_param s)" by (simp_all add: r param_types)
  from cookie_recovers_key_vector [OF demo_total_env noh s(1) this at, of "demo_tcb None None"] s(1) r show ?thesis by auto
qed

text \<open>
  C36: a handshake with a list of HMAC identifiers but without a RANDOM parameter corrupts memory. The
  check of the INIT accepts such parameters (they contain the mandatory identifier, list no chunks and
  do not claim address reconfiguration), and the routines that concatenate the key vectors, the local
  one and the peer's, append the list behind the end of the block they have allocated: the offset is
  only set to the length of RANDOM when there is one.
\<close>

theorem missing_random_overruns_key:
  assumes "total_env env" "last_param ps SCTP_RANDOM = None" "last_param ps SCTP_HMAC_LIST = Some h"
    and "cookie_at m offset len ps"
    and "p_random v = None" "cv_hmacs v \<noteq> None"
  shows "sctp_auth_get_cookie_params (env_malloc env) inp stcb m offset len = None \<and> load_peer_key (env_malloc env) v = None \<and>
    (stores_fit ps \<and> (\<forall>v. (SCTP_HMAC_LIST, v) \<in> set ps \<longrightarrow> SCTP_AUTH_HMAC_ID_SHA1 \<in> set (hmac_ids v)) \<and>
      \<not> offers ps SCTP_CHUNK_LIST \<and> \<not> offers ps SCTP_SUPPORTED_CHUNK_EXT \<longrightarrow>
     sctp_validate_init_auth_params m (int (unat offset)) (int (unat offset + unat len)) = 0)"
proof (intro conjI)
  have mal: "malloc_sized (env_malloc env)" "\<And>n. env_malloc env n \<noteq> None" using assms(1) by (auto simp: total_env_def env_ok_def)
  let ?v = "\<lparr>p_random = None, cv_random_len = 0, cv_hmacs = None, cv_hmacs_len = 0, cv_chunks = None, cv_num_chunks = 0, cv_stcb = stcb\<rparr>"
  have "cookie_key (env_malloc env) (fold (cookie_apply (env_malloc env)) ps ?v) = None"
    by (rule cookie_key_overruns [OF mal]) (simp_all add: cookie_vars_final assms(2,3))
  then show "sctp_auth_get_cookie_params (env_malloc env) inp stcb m offset len = None"
    by (simp add: sctp_auth_get_cookie_params_def cookie_loop_at [OF assms(4)])
  show "load_peer_key (env_malloc env) v = None"
    using cookie_key_overruns [OF mal assms(5)] assms(6) by (simp add: load_peer_key_def)
  have norand: "(SCTP_RANDOM, v) \<notin> set ps" for v
    using assms(2) by (force simp: map_of_eq_None_iff)
  show "stores_fit ps \<and> (\<forall>v. (SCTP_HMAC_LIST, v) \<in> set ps \<longrightarrow> SCTP_AUTH_HMAC_ID_SHA1 \<in> set (hmac_ids v)) \<and>
      \<not> offers ps SCTP_CHUNK_LIST \<and> \<not> offers ps SCTP_SUPPORTED_CHUNK_EXT \<longrightarrow>
     sctp_validate_init_auth_params m (int (unat offset)) (int (unat offset + unat len)) = 0"
  proof
    assume a: "stores_fit ps \<and> (\<forall>v. (SCTP_HMAC_LIST, v) \<in> set ps \<longrightarrow> SCTP_AUTH_HMAC_ID_SHA1 \<in> set (hmac_ids v)) \<and>
      \<not> offers ps SCTP_CHUNK_LIST \<and> \<not> offers ps SCTP_SUPPORTED_CHUNK_EXT"
    then have "init_auth_verdict ps = 0"
      using norand by (auto simp: init_auth_verdict_def offers_def lists_chunk_def)
    moreover obtain rest where "drop (unat offset) (concat m) = enc_params ps @ rest" "unat len = length (enc_params ps)"
      using assms(4) by (auto simp: cookie_at_def)
    ultimately show "sctp_validate_init_auth_params m (int (unat offset)) (int (unat offset + unat len)) = 0"
      using validate_init_eq [of "unat offset" m ps rest] a by simp
  qed
qed

theorem missing_random_overruns_key_witness:
  "sctp_auth_get_cookie_params (env_malloc demo_env) demo_inp (demo_tcb None None)
     [enc_params [(SCTP_HMAC_LIST, [0, 1])]] 0 (word_of_nat (length (enc_params [(SCTP_HMAC_LIST, [0, 1])]))) = None"
proof -
  have ok: "cookie_ok [(SCTP_HMAC_LIST, [0, 1])]" by (simp add: cookie_ok_def params_ok_def)
  have len: "length (enc_params [(SCTP_HMAC_LIST, [0, 1])]) < 2 ^ 31" by (simp add: enc_params_def length_enc_param)
  have "last_param [(SCTP_HMAC_LIST, [0, 1])] SCTP_RANDOM = None" "last_param [(SCTP_HMAC_LIST, [0, 1])] SCTP_HMAC_LIST = Some [0, 1]"
    by (simp_all add: param_types)
  from missing_random_overruns_key [OF demo_total_env this cookie_at_whole [OF ok len],
      of "\<lparr>p_random = None, cv_random_len = 0, cv_hmacs = Some [], cv_hmacs_len = 0, cv_chunks = None, cv_num_chunks = 0,
          cv_stcb = demo_tcb None None\<rparr>"]
  show ?thesis by simp
qed

end
