(* ===== verification/Auth_Keyring.thy ===== *)
theory Auth_Keyring
  imports Auth_Sockopt Auth_Params_Correct
begin

text \<open>
  The life of an endpoint's keys. The socket options, new associations, sent and received packets and
  references held by queued messages act on the shared keys of the endpoint and of its associations.
  In every state that can be reached the key lists are ordered, the active key of every association
  is there and not deactivated, and a cached key belongs to the shared key it was computed from.

  The three options that name a key share one routine; the locale \<open>keyid_operation\<close> is what it relies on,
  and it is interpreted on the operations for activating, deleting and deactivating a key.
\<close>

section \<open>Lists of shared keys\<close>

lemma remove_subset: "set (remove_sharedkey k ks) \<subseteq> set ks"
  by (induction ks) auto

lemma remove_sorted: "sk_sorted ks \<Longrightarrow> sk_sorted (remove_sharedkey k ks)"
  by (induction ks) (auto simp: sk_sorted_def dest: subsetD [OF remove_subset])

lemma find_above: "\<forall>x\<in>set ks. k < keyid x \<Longrightarrow> sctp_find_sharedkey ks k = None"
  by (induction ks) auto

lemma find_remove: "sk_sorted ks \<Longrightarrow> sctp_find_sharedkey (remove_sharedkey k ks) i = (if i = k then None else sctp_find_sharedkey ks i)"
  by (induction ks) (auto simp: sk_sorted_def find_above)

lemma find_upd_all:
  assumes "\<And>x. keyid (f x) = keyid x"
  shows "sctp_find_sharedkey (upd_sharedkey k f ks) i = (if i = k then map_option f (sctp_find_sharedkey ks k) else sctp_find_sharedkey ks i)"
  by (induction ks) (auto simp: assms)

lemma set_upd: "x \<in> set (upd_sharedkey k f ks) \<Longrightarrow> x \<in> set ks \<or> (\<exists>y\<in>set ks. x = f y)"
  by (induction ks) (auto split: if_splits)

definition no_deact :: "sctp_shared_key list \<Rightarrow> bool" where
  "no_deact ks \<longleftrightarrow> (\<forall>k\<in>set ks. deactivated k = 0)"

lemma find_in_sorted: "sk_sorted ks \<Longrightarrow> x \<in> set ks \<Longrightarrow> sctp_find_sharedkey ks (keyid x) = Some x"
  by (induction ks) (auto simp: sk_sorted_def)

text \<open>Copying the keys of an endpoint over those of an association.\<close>

lemma copy_loop_lookup:
  assumes "malloc_sized malloc" "\<forall>n. malloc n \<noteq> None" "sk_sorted src" "\<forall>s\<in>set src. key_ok (skey_key s)"
    and "sk_sorted dest" "no_deact dest"
  shows "\<exists>n dest'. copy_loop malloc src dest c = (n, dest') \<and> sk_sorted dest' \<and> no_deact dest' \<and>
    (\<forall>i. sctp_find_sharedkey dest' i =
       (case sctp_find_sharedkey src i of Some s \<Rightarrow> Some (fresh_copy s) | None \<Rightarrow> sctp_find_sharedkey dest i))"
  using assms(3-6)
proof (induction src arbitrary: dest c)
  case (Cons s src)
  have cp: "sctp_copy_sharedkey malloc (Some s) = Some (fresh_copy s)"
    using copy_sharedkey_ok [OF assms(1,2)] Cons.prems(2) by simp
  have nb: "\<not> sk_busy dest (keyid (fresh_copy s))"
    using Cons.prems(4) find_keyid by (fastforce simp: sk_busy_def no_deact_def)
  then obtain d where d: "sctp_insert_sharedkey (Some dest) (Some (fresh_copy s)) = (0, Some d)" "sk_sorted d"
    "\<And>i. sctp_find_sharedkey d i = (if i = keyid (fresh_copy s) then Some (fresh_copy s) else sctp_find_sharedkey dest i)"
    using insert_sharedkey_lookup [OF Cons.prems(3), of "fresh_copy s"] by auto
  have "no_deact d" unfolding no_deact_def
  proof
    fix x
    assume "x \<in> set d"
    from d(3) [of "keyid x"] find_in_sorted [OF d(2) this] show "deactivated x = 0"
      using Cons.prems(4) find_keyid [of dest "keyid x" x] by (auto simp: no_deact_def fresh_copy_def split: if_splits)
  qed
  moreover have "sk_sorted src" "\<forall>x\<in>set src. keyid s < keyid x" using Cons.prems(1) by (auto simp: sk_sorted_def)
  ultimately obtain n d' where d': "copy_loop malloc src d (c + 1) = (n, d')" "sk_sorted d'" "no_deact d'"
    "\<And>i. sctp_find_sharedkey d' i = (case sctp_find_sharedkey src i of Some s \<Rightarrow> Some (fresh_copy s) | None \<Rightarrow> sctp_find_sharedkey d i)"
    using Cons.IH [of d "c + 1"] Cons.prems(2) d(2) by auto
  have "sctp_find_sharedkey src (keyid s) = None" using \<open>\<forall>x\<in>set src. keyid s < keyid x\<close> by (rule find_above)
  then show ?case using cp d(1,3) d' by (auto simp: fresh_copy_def split: option.splits)
qed auto

section \<open>Invariant of an association\<close>

definition tcb_inv :: "sctp_tcb \<Rightarrow> bool" where
  "tcb_inv s \<longleftrightarrow> sk_sorted (shared_keys s) \<and> keys_small s \<and> cache_ok s \<and>
     (\<exists>skey. sctp_find_sharedkey (shared_keys s) (active_keyid (authinfo s)) = Some skey \<and> deactivated skey = 0)"

lemma caches_None [simp]: "caches None kb"
  by (simp add: caches_def)

lemma secret_cong:
  assumes "ai_random (authinfo s') = ai_random (authinfo s)" "peer_random (authinfo s') = peer_random (authinfo s)"
    "shared_text s' k = shared_text s k"
  shows "secret s' k = secret s k"
  using assms by (simp add: secret_def)

text \<open>Changing the shared key of one id and dropping what is cached for it.\<close>

lemma cache_ok_clear:
  assumes "cache_ok s" "authinfo s' = authinfo s" "\<And>i. i \<noteq> k \<Longrightarrow> shared_text s' i = shared_text s i"
  shows "cache_ok (sctp_clear_cachedkeys s' k)"
proof -
  let ?c = "sctp_clear_cachedkeys s' k"
  have sec: "secret ?c i = secret s i" if "i \<noteq> k" for i
    using assms(2) assms(3) [OF that] by (intro secret_cong) (simp_all add: shared_text_def)
  have "assoc_key (authinfo ?c) = (if k = assoc_keyid (authinfo s) then None else assoc_key (authinfo s))"
    "recv_key (authinfo ?c) = (if k = recv_keyid (authinfo s) then None else recv_key (authinfo s))"
    by (simp_all add: sctp_clear_cachedkeys_def Let_def assms(2))
  with assms(1,2) sec show ?thesis by (auto simp: cache_ok_def)
qed

lemma tcb_inv_clear: "tcb_inv s \<Longrightarrow> tcb_inv (sctp_clear_cachedkeys s k)"
  using cache_ok_clear [of s s k] by (simp add: tcb_inv_def keys_small_def)

lemma clear_keys_commute: "(sctp_clear_cachedkeys s k)\<lparr>shared_keys := ks\<rparr> = sctp_clear_cachedkeys (s\<lparr>shared_keys := ks\<rparr>) k"
  by (simp add: sctp_clear_cachedkeys_def upd_auth_def Let_def)

lemma tcb_inv_new_keys:
  assumes "tcb_inv s" "sk_sorted ks" "\<forall>x\<in>set ks. small_key (skey_key x)"
    and "\<And>i. i \<noteq> k \<Longrightarrow> sctp_find_sharedkey ks i = sctp_find_sharedkey (shared_keys s) i"
    and "k = active_keyid (authinfo s) \<Longrightarrow> \<exists>skey. sctp_find_sharedkey ks k = Some skey \<and> deactivated skey = 0"
  shows "tcb_inv (sctp_clear_cachedkeys (s\<lparr>shared_keys := ks\<rparr>) k)"
proof -
  have "cache_ok (sctp_clear_cachedkeys (s\<lparr>shared_keys := ks\<rparr>) k)"
    by (rule cache_ok_clear [of s]) (use assms(1,4) in \<open>simp_all add: tcb_inv_def shared_text_def\<close>)
  then show ?thesis using assms by (cases "k = active_keyid (authinfo s)") (auto simp: tcb_inv_def keys_small_def)
qed

lemma delete_inv:
  assumes "tcb_inv s" shows "\<exists>r s'. sctp_delete_sharedkey (Some s) k = (r, Some s') \<and> tcb_inv s'"
proof -
  have "tcb_inv (sctp_clear_cachedkeys (s\<lparr>shared_keys := remove_sharedkey k (shared_keys s)\<rparr>) k)" if "k \<noteq> active_keyid (authinfo s)"
    by (rule tcb_inv_new_keys [OF assms])
      (use assms that remove_sorted in \<open>auto simp: tcb_inv_def keys_small_def find_remove dest: subsetD [OF remove_subset]\<close>)
  with assms show ?thesis by (auto simp: sctp_delete_sharedkey_def split: option.splits)
qed

text \<open>Changing a shared key in a way that does not touch its text.\<close>

lemma tcb_inv_upd:
  assumes "tcb_inv s" "\<And>x. keyid (f x) = keyid x" "\<And>x. skey_key (f x) = skey_key x"
    and "\<And>x. k = active_keyid (authinfo s) \<Longrightarrow> deactivated x = 0 \<Longrightarrow> deactivated (f x) = 0"
  shows "tcb_inv (s\<lparr>shared_keys := upd_sharedkey k f (shared_keys s)\<rparr>)"
proof -
  let ?s = "s\<lparr>shared_keys := upd_sharedkey k f (shared_keys s)\<rparr>"
  have "shared_text ?s i = shared_text s i" for i
    using assms(2,3) by (auto simp: shared_text_def find_upd_all split: option.splits)
  then have "secret ?s = secret s" by (auto intro!: ext secret_cong)
  moreover have "\<forall>x\<in>set (upd_sharedkey k f (shared_keys s)). small_key (skey_key x)"
    using assms(1,3) set_upd [of _ k f "shared_keys s"] by (fastforce simp: tcb_inv_def keys_small_def)
  ultimately show ?thesis
    using assms by (auto simp: tcb_inv_def cache_ok_def keys_small_def upd_sorted find_upd_all)
qed

lemma tcb_inv_emit: "tcb_inv (emit e s) = tcb_inv s"
  by (simp add: tcb_inv_def keys_small_def cache_ok_def)

lemma deact_inv:
  assumes "tcb_inv s" shows "\<exists>r s'. sctp_deact_sharedkey (Some s) k = (r, Some s') \<and> tcb_inv s'"
proof -
  have "tcb_inv (s'\<lparr>shared_keys := upd_sharedkey k (\<lambda>k. k\<lparr>deactivated := 1\<rparr>) (shared_keys s')\<rparr>)"
    if "k \<noteq> active_keyid (authinfo s')" "tcb_inv s'" for s'
    by (rule tcb_inv_upd [OF that(2)]) (use that in auto)
  from this [of s] this [of "emit (Notify_free_key k) s"] assms show ?thesis
    by (auto simp: sctp_deact_sharedkey_def Let_def tcb_inv_emit split: option.splits)
qed

lemma setactive_inv:
  assumes "tcb_inv s" shows "tcb_inv (snd (sctp_auth_setactivekey s k))"
proof -
  have "tcb_inv (s\<lparr>shared_keys := upd_sharedkey k (\<lambda>k. k\<lparr>deactivated := 0\<rparr>) (shared_keys s)\<rparr>)"
    by (rule tcb_inv_upd [OF assms]) auto
  then have "tcb_inv ((upd_auth (\<lambda>a. a\<lparr>active_keyid := k\<rparr>) s)
      \<lparr>shared_keys := upd_sharedkey k (\<lambda>k. k\<lparr>deactivated := 0\<rparr>) (shared_keys s)\<rparr>)" if "sctp_find_sharedkey (shared_keys s) k = Some skey" for skey
    using that by (simp add: tcb_inv_def keys_small_def cache_ok_def secret_def shared_text_def find_upd_all)
  with assms show ?thesis by (auto simp: sctp_auth_setactivekey_def split: option.splits)
qed

section \<open>Installing keys\<close>

lemma new_sharedkey_ok:
  assumes "malloc_sized malloc" "length k < 2 ^ 27" "new_sharedkey malloc n k = Some x"
  shows "keyid x = n" "deactivated x = 0" "small_key (skey_key x)"
proof -
  have u: "unat (word_of_nat (length k) :: u32) = length k" using assms(2) by (simp add: unat_len)
  have "sctp_set_key malloc k (word_of_nat (length k)) = Some b \<Longrightarrow> small_key (Some b)" for b
    using alloc_set_key [OF assms(1), of "word_of_nat (length k)" k] u assms(2)
    by (cases "malloc (4 + length k)") (auto simp: small_key_def key_ok_def key_bytes_def sctp_set_key_def sctp_alloc_key_def)
  with assms(3) show "keyid x = n" "deactivated x = 0" "small_key (skey_key x)"
    by (auto simp: new_sharedkey_def sctp_alloc_sharedkey_def small_key_def key_ok_def key_bytes_def
        split: if_splits bind_splits option.splits)
qed

lemma insert_key_facts:
  assumes "sk_sorted ks" "sctp_insert_sharedkey (Some ks) (Some x) = (r, ks')"
  shows "\<exists>l. ks' = Some l \<and> sk_sorted l \<and> set l \<subseteq> insert x (set ks) \<and>
    (l = ks \<or> (\<forall>i. sctp_find_sharedkey l i = (if i = keyid x then Some x else sctp_find_sharedkey ks i)))"
proof (cases "sk_busy ks (keyid x)")
  case True
  with insert_sharedkey_lookup [OF assms(1), of x] assms show ?thesis by auto
next
  case False
  with insert_sharedkey_lookup [OF assms(1), of x] assms(2) obtain l where l: "ks' = Some l" "sk_sorted l"
    "\<And>i. sctp_find_sharedkey l i = (if i = keyid x then Some x else sctp_find_sharedkey ks i)" by auto
  have "set l \<subseteq> insert x (set ks)"
  proof
    fix y
    assume "y \<in> set l"
    with find_in_sorted [OF l(2)] l(3) [of "keyid y"] find_keyid [of ks "keyid y" y] show "y \<in> insert x (set ks)"
      by (auto split: if_splits)
  qed
  with l show ?thesis by auto
qed

lemma install_inv:
  assumes "malloc_sized malloc" "length k < 2 ^ 27" "tcb_inv s"
  shows "tcb_inv (snd (install_key malloc n k s))"
proof (cases "new_sharedkey malloc n k")
  case None
  then show ?thesis using tcb_inv_clear [OF assms(3)] by (simp add: install_key_def)
next
  case (Some x)
  note x = new_sharedkey_ok [OF assms(1,2) Some]
  have sorted: "sk_sorted (shared_keys s)" using assms(3) by (simp add: tcb_inv_def)
  obtain r ks' where i: "sctp_insert_sharedkey (Some (shared_keys s)) (Some x) = (r, ks')" by fastforce
  from insert_key_facts [OF sorted i] obtain l where l: "ks' = Some l" "sk_sorted l" "set l \<subseteq> insert x (set (shared_keys s))"
    "l = shared_keys s \<or> (\<forall>i. sctp_find_sharedkey l i = (if i = keyid x then Some x else sctp_find_sharedkey (shared_keys s) i))" by blast
  have "tcb_inv (sctp_clear_cachedkeys (s\<lparr>shared_keys := l\<rparr>) n)"
    by (rule tcb_inv_new_keys [OF assms(3) l(2)]) (use l(3,4) x assms(3) in \<open>auto simp: tcb_inv_def keys_small_def\<close>)
  then show ?thesis using Some i l(1) by (simp add: install_key_def Let_def clear_keys_commute)
qed

lemma install_all_inv:
  assumes "malloc_sized malloc" "length k < 2 ^ 27"
  shows "\<forall>s\<in>set l. tcb_inv s \<Longrightarrow> \<forall>s\<in>set (snd (install_all malloc n k l e)). tcb_inv s"
proof (induction l arbitrary: e)
  case (Cons s l)
  from install_inv [OF assms, of s n] Cons show ?case by (auto split: prod.splits) (metis snd_conv)+
qed simp

section \<open>Packets\<close>

text \<open>Computing a digest leaves the key as it is or shortens it.\<close>

lemma compute_hmac_m_key:
  assumes "ctx_ok ctx" "length temp = 32" "\<And>k'. k = Some k' \<Longrightarrow> key_fits k'"
    and "sctp_compute_hmac_m ctx temp algo k m off d = Some (n, d', k2)"
  shows "k2 = k \<or> (\<exists>k'. k = Some k' \<and> k2 = Some (short_form k'))"
proof (cases k)
  case (Some k')
  show ?thesis
  proof (cases "algo = SCTP_AUTH_HMAC_ID_SHA1")
    case True
    with shorten_key_eq [OF assms(1,2) assms(3) [OF Some]] assms(4) Some show ?thesis
      by (auto simp: sctp_compute_hmac_m_def sctp_get_hmac_digest_len_def SCTP_AUTH_DIGEST_LEN_SHA1_def Let_def
          split: if_splits bind_splits)
  next
    case False
    with assms(4) show ?thesis by (auto simp: sctp_compute_hmac_m_def sctp_get_hmac_digest_len_def split: if_splits)
  qed
qed (use assms(4) in \<open>auto simp: sctp_compute_hmac_m_def\<close>)

lemma caches_after_use:
  assumes "ctx_ok ctx" "length temp = 32" "caches k kb" "length kb < 2 ^ 29"
    and "sctp_compute_hmac_m ctx temp algo k m off d = Some (n, d', k2)"
  shows "caches k2 kb"
proof -
  have "key_fits k'" if "k = Some k'" for k' using caches_use(1) [of k' kb] that assms(3,4) by simp
  from compute_hmac_m_key [OF assms(1,2) this assms(5)] show ?thesis using assms(3) caches_short by auto
qed

lemma fill_inv:
  assumes "env_ok env" "tcb_inv s" "sctp_fill_hmac_digest_m env m off auth (Some s) k = Some (m', Some s')"
  shows "tcb_inv s'"
proof (cases auth)
  case None
  with assms show ?thesis by (simp add: sctp_fill_hmac_digest_m_def)
next
  case (Some p)
  let ?s = "cache_assoc_key env s k"
  have e: "malloc_sized (env_malloc env)" "ctx_ok (env_ctx env)" "length (env_temp env) = 32" using assms(1) by (auto simp: env_ok_def)
  have inv: "keys_small s" "cache_ok s" using assms(2) by (auto simp: tcb_inv_def)
  note ck = cache_assoc_key_ok [OF e(1) inv refl, of k]
  from assms(3) Some obtain mm n d k2 where
    c: "sctp_compute_hmac_m (env_ctx env) (env_temp env) (peer_hmac_id ?s) (assoc_key (authinfo ?s)) mm off
          (Some (chain_block mm (p + 8))) = Some (n, d, k2)"
    and s': "s' = upd_auth (\<lambda>a. a\<lparr>assoc_key := k2\<rparr>) ?s"
    by (auto simp: sctp_fill_hmac_digest_m_def Let_def split: bind_splits)
  have "caches (assoc_key (authinfo ?s)) (secret s k)" using ck(1-3) by (simp add: cache_ok_def)
  from caches_after_use [OF e(2,3) this length_secret [OF inv(1)] c] have "caches k2 (secret s k)" .
  then have "cache_ok s'" using ck(1-3) by (simp add: s' cache_ok_def secret_upd_auth)
  moreover have "keys_small s'" "active_keyid (authinfo s') = active_keyid (authinfo s)"
    using inv(1) by (simp_all add: s' cache_assoc_key_def keys_small_def Let_def)
  ultimately show ?thesis using assms(2) ck(4) by (simp add: s' tcb_inv_def)
qed

lemma cache_recv_inv:
  assumes "malloc_sized (env_malloc env)" "tcb_inv s" "cache_recv_key env s k = Some s'"
  shows "tcb_inv s'"
proof -
  have inv: "keys_small s" "cache_ok s" using assms(2) by (auto simp: tcb_inv_def)
  note ck = cache_recv_key_ok [OF assms(1) inv assms(3)]
  have "keys_small s'" "active_keyid (authinfo s') = active_keyid (authinfo s)"
    using inv(1) assms(3) by (auto simp: cache_recv_key_def keys_small_def Let_def split: if_splits option.splits)
  then show ?thesis using ck(1,4) assms(2) by (simp add: tcb_inv_def)
qed

lemma handle_inv:
  assumes "env_ok env" "tcb_inv s" "sctp_handle_auth env s auth m off = Some (r, s', m')"
  shows "tcb_inv s'"
proof (cases "cache_recv_key env (emit Stat_recvauth s) (ntohs_at auth 4)")
  case None
  with assms(2,3) show ?thesis
    by (auto simp: sctp_handle_auth_def Let_def tcb_inv_emit split: if_splits)
next
  case (Some s1)
  have e: "malloc_sized (env_malloc env)" "ctx_ok (env_ctx env)" "length (env_temp env) = 32" using assms(1) by (auto simp: env_ok_def)
  have "tcb_inv (emit Stat_recvauth s)" using assms(2) by (simp add: tcb_inv_emit)
  from cache_recv_inv [OF e(1) this Some] have i1: "tcb_inv s1" .
  then have c1: "caches (recv_key (authinfo s1)) (secret s1 (recv_keyid (authinfo s1)))" and small: "keys_small s1"
    by (auto simp: tcb_inv_def cache_ok_def)
  have "tcb_inv (upd_auth (\<lambda>a. a\<lparr>recv_key := k2\<rparr>) s1)"
    if "sctp_compute_hmac_m (env_ctx env) (env_temp env) algo (recv_key (authinfo s1)) mm off d = Some (n, d', k2)" for algo mm d n d' k2
    using caches_after_use [OF e(2,3) c1 length_secret [OF small] that] i1
    by (simp add: tcb_inv_def cache_ok_def keys_small_def secret_upd_auth)
  with assms(2,3) Some i1 show ?thesis
    by (auto simp: sctp_handle_auth_def Let_def tcb_inv_emit split: if_splits bind_splits)
qed

section \<open>New associations\<close>

lemma cookie_step_frame:
  assumes "cookie_param malloc m off t l v = Next v'"
  shows "authinfo (cv_stcb v') = authinfo (cv_stcb v) \<and> shared_keys (cv_stcb v') = shared_keys (cv_stcb v)"
  using assms by (auto simp: cookie_param_def cookie_hmacs_def cookie_chunks_def Let_def split: if_splits option.splits)

lemma cookie_loop_frame:
  "cookie_loop malloc m len off v = Some (r, v') \<Longrightarrow>
     authinfo (cv_stcb v') = authinfo (cv_stcb v) \<and> shared_keys (cv_stcb v') = shared_keys (cv_stcb v)"
proof (induction malloc m len off v rule: cookie_loop.induct)
  case (1 malloc m len off v)
  show ?case
  proof (cases "sctp_m_getptr m (sint off) 4")
    case None
    with 1(2) show ?thesis by (subst (asm) cookie_loop.simps) auto
  next
    case (Some phdr)
    let ?t = "ntohs_at phdr 0" and ?l = "ntohs_at phdr 2"
    show ?thesis
    proof (cases "(?l = 0 \<or> off + ucast ?l > len)")
      case True
      with 1(2) Some show ?thesis by (subst (asm) cookie_loop.simps) (auto simp: Let_def)
    next
      case False
      note IH = 1(1) [OF Some refl refl False _ refl]
      show ?thesis
      proof (cases "cookie_param malloc m off ?t ?l v")
        case (Next w)
        from cookie_step_frame [OF Next] IH [OF Next] 1(2) Some False Next show ?thesis
          by (subst (asm) cookie_loop.simps) (auto simp: Let_def split: if_splits)
      qed (use 1(2) Some False in \<open>subst (asm) cookie_loop.simps, auto simp: Let_def\<close>)+
    qed
  qed
qed

lemma cookie_key_small:
  assumes "malloc_sized malloc" "cookie_key malloc v = Some k"
  shows "small_key k"
proof -
  let ?len = "if cv_chunks v \<noteq> None then 8 + ucast (cv_random_len v) + ucast (cv_hmacs_len v) + 4 + ucast (cv_num_chunks v)
    else 8 + ucast (cv_random_len v) + ucast (cv_hmacs_len v) :: u32"
  have b: "unat (ucast (w :: u16) :: u32) < 65536" for w
    using unsigned_less [of w, where 'a = nat] by (simp add: unat_u16_u32)
  have "unat ?len < 2 ^ 27"
    using b [of "cv_random_len v"] b [of "cv_hmacs_len v"] b [of "cv_num_chunks v"] by (simp add: unat_word_ariths)
  moreover have "k = Some k' \<Longrightarrow> keylen k' = ?len \<and> length (key k') = unat ?len" for k'
    using assms(2) alloc_key_sized [OF assms(1), of ?len]
    unfolding cookie_key_def Let_def
    by (cases "malloc (4 + unat ?len)")
      (auto split: option.splits bind_splits prod.splits dest!: wr_length simp: sctp_alloc_key_def)
  ultimately show ?thesis by (cases k) (auto simp: small_key_def key_ok_def key_bytes_def)
qed

text \<open>A routine that sets up the keys of an association from those of its endpoint.\<close>

lemma copied_keys:
  assumes "malloc_sized malloc" "\<forall>n. malloc n \<noteq> None" "sk_sorted src" "\<forall>x\<in>set src. small_key (skey_key x)"
    and "sctp_find_sharedkey src k = Some dk" "sk_sorted dest" "no_deact dest" "\<forall>x\<in>set dest. small_key (skey_key x)"
    and "ks = the (snd (sctp_copy_skeylist malloc (Some src) (Some dest)))"
  shows "sk_sorted ks \<and> no_deact ks \<and> (\<forall>x\<in>set ks. small_key (skey_key x)) \<and>
    (\<exists>skey. sctp_find_sharedkey ks k = Some skey \<and> deactivated skey = 0)"
proof -
  have "\<forall>s\<in>set src. key_ok (skey_key s)" using assms(4) by (simp add: small_key_def)
  from copy_loop_lookup [OF assms(1,2,3) this assms(6,7), of 0] assms(9) have ks: "sk_sorted ks" "no_deact ks"
    "\<And>i. sctp_find_sharedkey ks i =
       (case sctp_find_sharedkey src i of Some s \<Rightarrow> Some (fresh_copy s) | None \<Rightarrow> sctp_find_sharedkey dest i)"
    by (auto simp: sctp_copy_skeylist_def)
  have "small_key (skey_key x)" if "x \<in> set ks" for x
  proof (cases "sctp_find_sharedkey src (keyid x)")
    case None
    with find_in_sorted [OF ks(1) that] ks(3) [of "keyid x"] have "sctp_find_sharedkey dest (keyid x) = Some x" by simp
    from find_keyid [OF this] assms(8) show ?thesis by simp
  next
    case (Some y)
    with find_in_sorted [OF ks(1) that] ks(3) [of "keyid x"] have "x = fresh_copy y" by simp
    with find_keyid [OF Some] assms(4) show ?thesis by (simp add: fresh_copy_def)
  qed
  with ks assms(5) show ?thesis by (auto simp: fresh_copy_def)
qed

section \<open>Invariant of an endpoint\<close>

definition inp_inv :: "sctp_inpcb \<Rightarrow> bool" where
  "inp_inv inp \<longleftrightarrow> sk_sorted (ep_shared_keys inp) \<and> (\<forall>x\<in>set (ep_shared_keys inp). small_key (skey_key x)) \<and>
     sctp_find_sharedkey (ep_shared_keys inp) (default_keyid inp) \<noteq> None \<and>
     (\<forall>l. ep_local_hmacs inp = Some l \<longrightarrow> hmaclist_ok l) \<and> (\<forall>s\<in>set (sctp_asoc_list inp). tcb_inv s)"

text \<open>The search for an association gives one of the endpoint.\<close>

definition lookup_ok :: "(u32 \<Rightarrow> nat option) \<Rightarrow> sctp_inpcb \<Rightarrow> bool" where
  "lookup_ok lookup inp \<longleftrightarrow> (\<forall>a i. lookup a = Some i \<longrightarrow> i < length (sctp_asoc_list inp))"

lemma find_stcb_bound:
  "lookup_ok lookup inp \<Longrightarrow> SCTP_FIND_STCB lookup inp a = Inr (Some i) \<Longrightarrow> i < length (sctp_asoc_list inp)"
  by (auto simp: SCTP_FIND_STCB_def lookup_ok_def split: if_splits option.splits)

lemma inp_inv_assoc:
  assumes "inp_inv inp" "tcb_inv s"
  shows "inp_inv (inp\<lparr>sctp_asoc_list := (sctp_asoc_list inp)[i := s]\<rparr>)"
  using assms set_update_subset_insert [of "sctp_asoc_list inp" i s] by (auto simp: inp_inv_def)

lemma inp_inv_nth: "inp_inv inp \<Longrightarrow> i < length (sctp_asoc_list inp) \<Longrightarrow> tcb_inv (sctp_asoc_list inp ! i)"
  by (simp add: inp_inv_def)

subsection \<open>Options that name a key\<close>

text \<open>
  What the shared routine of these options needs of the operation on an association and on the
  endpoint: both keep their invariant.
\<close>

locale keyid_operation =
  fixes on_stcb :: "sctp_tcb \<Rightarrow> u16 \<Rightarrow> int \<times> sctp_tcb"
    and on_ep :: "sctp_inpcb \<Rightarrow> u16 \<Rightarrow> int \<times> sctp_inpcb"
  assumes stcb_inv: "tcb_inv s \<Longrightarrow> tcb_inv (snd (on_stcb s k))"
    and ep_inv: "inp_inv inp \<Longrightarrow> inp_inv (snd (on_ep inp k))"
begin

lemma option_inv:
  assumes "inp_inv inp" "lookup_ok lookup inp"
  shows "inp_inv (snd (keyid_option on_stcb on_ep lookup assoc_id k inp))"
proof (cases "SCTP_FIND_STCB lookup inp assoc_id")
  case (Inl e)
  with assms(1) show ?thesis by (simp add: keyid_option_def)
next
  case (Inr found)
  show ?thesis
  proof (cases found)
    case None
    obtain r inp' where ep: "(if on_endpoint inp assoc_id then on_ep inp k else (0, inp)) = (r, inp')" by fastforce
    from ep_inv [OF assms(1), of k] assms(1) ep have "inp_inv inp'" by (metis snd_conv)
    then have "inp_inv (inp'\<lparr>sctp_asoc_list := map (\<lambda>s. snd (on_stcb s k)) (sctp_asoc_list inp')\<rparr>)" "inp_inv inp'"
      using stcb_inv by (auto simp: inp_inv_def)
    with None Inr ep show ?thesis by (simp add: keyid_option_def)
  next
    case (Some i)
    with Inr find_stcb_bound [OF assms(2)] have "i < length (sctp_asoc_list inp)" by simp
    then have "tcb_inv (snd (on_stcb (sctp_asoc_list inp ! i) k))" using stcb_inv inp_inv_nth [OF assms(1)] by simp
    from inp_inv_assoc [OF assms(1) this] Inr Some show ?thesis by (auto simp: keyid_option_def split: prod.splits)
  qed
qed

end

lemma inp_inv_remove:
  assumes "inp_inv inp" "k \<noteq> default_keyid inp"
  shows "inp_inv (inp\<lparr>ep_shared_keys := remove_sharedkey k (ep_shared_keys inp)\<rparr>)"
  using assms remove_sorted by (auto simp: inp_inv_def find_remove dest: subsetD [OF remove_subset])

lemma inp_inv_clear: "inp_inv inp \<Longrightarrow> inp_inv (sctp_clear_cachedkeys_ep inp k)"
  by (auto simp: inp_inv_def sctp_clear_cachedkeys_ep_def intro: tcb_inv_clear)

interpretation active_op: keyid_operation sctp_auth_setactivekey sctp_auth_setactivekey_ep
proof
  show "inp_inv (snd (sctp_auth_setactivekey_ep inp k))" if "inp_inv inp" for inp k
    using that by (auto simp: sctp_auth_setactivekey_ep_def inp_inv_def split: option.splits)
qed (rule setactive_inv)

interpretation delete_op: keyid_operation
    "\<lambda>s k. case sctp_delete_sharedkey (Some s) k of (r, s') \<Rightarrow> (r, the s')"
    "\<lambda>i k. case sctp_delete_sharedkey_ep (Some i) k of (r, i') \<Rightarrow> (r, the i')"
proof
  show "tcb_inv (snd (case sctp_delete_sharedkey (Some s) k of (r, s') \<Rightarrow> (r, the s')))" if "tcb_inv s" for s k
    using delete_inv [OF that, of k] by auto
  show "inp_inv (snd (case sctp_delete_sharedkey_ep (Some inp) k of (r, i') \<Rightarrow> (r, the i')))" if "inp_inv inp" for inp k
    using that inp_inv_clear [OF inp_inv_remove [OF that]] by (auto simp: sctp_delete_sharedkey_ep_def split: option.splits)
qed

interpretation deact_op: keyid_operation
    "\<lambda>s k. case sctp_deact_sharedkey (Some s) k of (r, s') \<Rightarrow> (r, the s')"
    "\<lambda>i k. case sctp_deact_sharedkey_ep (Some i) k of (r, i') \<Rightarrow> (r, the i')"
proof
  show "tcb_inv (snd (case sctp_deact_sharedkey (Some s) k of (r, s') \<Rightarrow> (r, the s')))" if "tcb_inv s" for s k
    using deact_inv [OF that, of k] by auto
  show "inp_inv (snd (case sctp_deact_sharedkey_ep (Some inp) k of (r, i') \<Rightarrow> (r, the i')))" if "inp_inv inp" for inp k
    using that inp_inv_remove [OF that] by (auto simp: sctp_deact_sharedkey_ep_def split: option.splits)
qed

subsection \<open>The other options\<close>

lemma chunk_option_inv: "inp_inv inp \<Longrightarrow> inp_inv (snd (setopt_auth_chunk c inp))"
  by (auto simp: setopt_auth_chunk_def inp_inv_def split: prod.splits)

lemma add_idents_ok: "hmaclist_ok l \<Longrightarrow> add_idents ids l = Some l' \<Longrightarrow> hmaclist_ok l'"
proof (induction ids arbitrary: l)
  case (Cons h ids)
  obtain r l1 where a: "sctp_auth_add_hmacid (Some l) h = (r, Some l1)" "hmaclist_ok l1"
    using add_hmacid_ok [OF Cons.prems(1), of h] by (auto split: prod.splits option.splits)
  with Cons show ?case by (auto split: if_splits)
qed simp

lemma hmac_option_inv:
  assumes "malloc_sized malloc" "inp_inv inp" shows "inp_inv (snd (setopt_hmac_ident malloc n ids inp))"
proof -
  have "hmaclist_ok l'" if "sctp_alloc_hmaclist malloc w = Some l" "add_idents xs l = Some l'" for w l xs l'
    using alloc_hmaclist_ok [OF assms(1) that(1)] add_idents_ok that(2) by blast
  with assms(2) show ?thesis by (auto simp: setopt_hmac_ident_def inp_inv_def Let_def split: option.splits)
qed

lemma install_ep_inv:
  assumes "malloc_sized malloc" "length k < 2 ^ 27" "inp_inv inp"
  shows "inp_inv (snd (install_key_ep malloc n k inp))"
proof (cases "new_sharedkey malloc n k")
  case None
  then show ?thesis using inp_inv_clear [OF assms(3)] by (simp add: install_key_ep_def)
next
  case (Some x)
  let ?i = "sctp_clear_cachedkeys_ep inp n"
  note x = new_sharedkey_ok [OF assms(1,2) Some]
  have inv: "inp_inv ?i" and sorted: "sk_sorted (ep_shared_keys ?i)"
    using inp_inv_clear [OF assms(3), of n] by (auto simp: inp_inv_def)
  obtain r ks' where i: "sctp_insert_sharedkey (Some (ep_shared_keys ?i)) (Some x) = (r, ks')" by fastforce
  from insert_key_facts [OF sorted i] obtain l where l: "ks' = Some l" "sk_sorted l" "set l \<subseteq> insert x (set (ep_shared_keys ?i))"
    "l = ep_shared_keys ?i \<or> (\<forall>i. sctp_find_sharedkey l i = (if i = keyid x then Some x else sctp_find_sharedkey (ep_shared_keys ?i) i))" by blast
  have "inp_inv (?i\<lparr>ep_shared_keys := l\<rparr>)"
    using inv l(2,3,4) x by (auto simp: inp_inv_def)
  then show ?thesis using Some i l(1) by (simp add: install_key_ep_def Let_def)
qed

lemma key_option_inv:
  assumes "malloc_sized malloc" "length sca_key < 2 ^ 27" "inp_inv inp" "lookup_ok lookup inp"
  shows "inp_inv (snd (setopt_auth_key malloc lookup a n len sca_key inp))"
proof -
  define k where "k = (if len = 0 then sca_key else take (unat len) sca_key)"
  have k: "length k < 2 ^ 27" using assms(2) by (auto simp: k_def)
  have found: "inp_inv (inp\<lparr>sctp_asoc_list := (sctp_asoc_list inp)[i := snd (install_key malloc n k (sctp_asoc_list inp ! i))]\<rparr>)"
    if "SCTP_FIND_STCB lookup inp a = Inr (Some i)" for i
    using find_stcb_bound [OF assms(4) that] inp_inv_nth [OF assms(3)] install_inv [OF assms(1) k]
    by (intro inp_inv_assoc [OF assms(3)]) simp
  have all: "inp_inv (inp'\<lparr>sctp_asoc_list := snd (install_all malloc n k (sctp_asoc_list inp') e)\<rparr>)" if "inp_inv inp'" for inp' e
    using install_all_inv [OF assms(1) k, of "sctp_asoc_list inp'" n e] that by (simp add: inp_inv_def)
  have "inp_inv (snd (if on_endpoint inp a then install_key_ep malloc n k inp else (Some 0, inp)))"
    using install_ep_inv [OF assms(1) k assms(3)] assms(3) by simp
  then show ?thesis using found all assms(3) unfolding setopt_auth_key_def k_def [symmetric] Let_def
    by (auto split: sum.splits option.splits prod.splits) (metis snd_conv)+
qed

subsection \<open>Associations\<close>

text \<open>The zeroed block of a new association.\<close>

definition blank_tcb :: sctp_tcb where
  "blank_tcb = \<lparr>authinfo = \<lparr>ai_random = None, random_len = 0, peer_random = None, assoc_key = None, recv_key = None,
     active_keyid = 0, assoc_keyid = 0, recv_keyid = 0\<rparr>, shared_keys = [], local_hmacs = None, peer_hmacs = None,
     local_auth_chunks = None, peer_hmac_id = 0, events = []\<rparr>"

lemma initialize_inv:
  assumes "total_env env" "inp_inv inp" "sctp_initialize_auth_params env inp blank_tcb = Some s"
  shows "tcb_inv s \<and> no_deact (shared_keys s) \<and> peer_random (authinfo s) = None"
proof -
  have mal: "malloc_sized (env_malloc env)" "\<forall>n. env_malloc env n \<noteq> None" "length (env_random env 32) = 32"
    using assms(1) by (auto simp: total_env_def env_ok_def)
  from assms(2) have h: "\<And>l. ep_local_hmacs inp = Some l \<Longrightarrow> hmaclist_ok l" by (simp add: inp_inv_def)
  obtain dk where dk: "sctp_find_sharedkey (ep_shared_keys inp) (default_keyid inp) = Some dk"
    using assms(2) by (auto simp: inp_inv_def)
  from initialize_params [OF assms(1) h, of inp blank_tcb] assms(3) have
    r: "ai_random (authinfo s) = Some (raw_key (key_vector (env_random env 32) (chunk_param s) (hmac_param s)))"
      "length (chunk_param s) \<le> 256" "length (hmac_param s) \<le> 2"
    and a: "authinfo s = (authinfo blank_tcb)\<lparr>ai_random := ai_random (authinfo s), random_len := 32, active_keyid := default_keyid inp\<rparr>"
    and ks: "shared_keys s = the (snd (sctp_copy_skeylist (env_malloc env) (Some (ep_shared_keys inp)) (Some (shared_keys blank_tcb))))" by auto
  have cp: "sk_sorted (shared_keys s) \<and> no_deact (shared_keys s) \<and> (\<forall>x\<in>set (shared_keys s). small_key (skey_key x)) \<and>
    (\<exists>skey. sctp_find_sharedkey (shared_keys s) (default_keyid inp) = Some skey \<and> deactivated skey = 0)"
    by (rule copied_keys [OF mal(1,2) _ _ dk _ _ _ ks])
      (use assms(2) in \<open>simp_all add: inp_inv_def blank_tcb_def sk_sorted_def no_deact_def\<close>)
  have "length (key_vector (env_random env 32) (chunk_param s) (hmac_param s)) < 2 ^ 27"
    using r(2,3) mal(3) by (simp add: key_vector_def param_header_def)
  then have "small_key (ai_random (authinfo s))"
    by (simp add: r(1) small_key_def key_ok_def key_bytes_def raw_key_def unat_len)
  moreover have "assoc_key (authinfo s) = None" "recv_key (authinfo s) = None" "peer_random (authinfo s) = None"
    "active_keyid (authinfo s) = default_keyid inp" by (subst a, simp add: blank_tcb_def)+
  ultimately show ?thesis using cp
    by (simp add: tcb_inv_def keys_small_def cache_ok_def small_key_def key_ok_def key_bytes_def)
qed

lemma get_cookie_inv:
  assumes "malloc_sized malloc" "\<forall>n. malloc n \<noteq> None" "inp_inv inp" "tcb_inv s" "no_deact (shared_keys s)"
    and "sctp_auth_get_cookie_params malloc inp s m offset len = Some s'"
  shows "tcb_inv s'"
proof -
  let ?v = "\<lparr>p_random = None, cv_random_len = 0, cv_hmacs = None, cv_hmacs_len = 0, cv_chunks = None, cv_num_chunks = 0, cv_stcb = s\<rparr>"
  obtain returned v where loop: "cookie_loop malloc m (len + offset) offset ?v = Some (returned, v)"
    using assms(6) by (auto simp: sctp_auth_get_cookie_params_def split: bind_splits)
  from cookie_loop_frame [OF loop] have fr: "authinfo (cv_stcb v) = authinfo s" "shared_keys (cv_stcb v) = shared_keys s" by auto
  show ?thesis
  proof (cases returned)
    case True
    with assms(4,6) loop fr show ?thesis
      by (auto simp: sctp_auth_get_cookie_params_def tcb_inv_def keys_small_def cache_ok_def secret_def shared_text_def)
  next
    case False
    obtain dk where dk: "sctp_find_sharedkey (ep_shared_keys inp) (default_keyid inp) = Some dk"
      using assms(3) by (auto simp: inp_inv_def)
    from assms(6) loop False obtain k where k: "cookie_key malloc v = Some k"
      by (auto simp: sctp_auth_get_cookie_params_def Let_def split: bind_splits)
    have ks: "shared_keys s' = the (snd (sctp_copy_skeylist malloc (Some (ep_shared_keys inp)) (Some (shared_keys s))))"
      and a: "ai_random (authinfo s') = k" "peer_random (authinfo s') = peer_random (authinfo s)"
        "active_keyid (authinfo s') = default_keyid inp"
      and c: "assoc_key (authinfo s') = None" "recv_key (authinfo s') = None"
      using assms(6) loop False k fr
      by (auto simp: sctp_auth_get_cookie_params_def sctp_clear_cachedkeys_def upd_auth_def Let_def)
    have "sk_sorted (shared_keys s') \<and> no_deact (shared_keys s') \<and> (\<forall>x\<in>set (shared_keys s'). small_key (skey_key x)) \<and>
      (\<exists>skey. sctp_find_sharedkey (shared_keys s') (default_keyid inp) = Some skey \<and> deactivated skey = 0)"
      by (rule copied_keys [OF assms(1,2) _ _ dk _ _ _ ks])
        (use assms(3,4,5) in \<open>simp_all add: inp_inv_def tcb_inv_def keys_small_def\<close>)
    with a c cookie_key_small [OF assms(1) k] assms(4) show ?thesis
      by (simp add: tcb_inv_def keys_small_def cache_ok_def)
  qed
qed

lemma load_peer_inv:
  assumes "malloc_sized malloc" "tcb_inv s" "authinfo (cv_stcb v) = authinfo s" "shared_keys (cv_stcb v) = shared_keys s"
    and "load_peer_key malloc v = Some (r, s')"
  shows "tcb_inv s'"
proof -
  have inv: "tcb_inv (cv_stcb v)"
    using assms(2-4) by (simp add: tcb_inv_def keys_small_def cache_ok_def secret_def shared_text_def)
  obtain k where k: "cookie_key malloc v = Some k" using assms(5) by (auto simp: load_peer_key_def split: bind_splits)
  show ?thesis
  proof (cases k)
    case None
    with k assms(5) inv show ?thesis by (simp add: load_peer_key_def)
  next
    case (Some b)
    with k assms(5) have "shared_keys s' = shared_keys (cv_stcb v)" "peer_random (authinfo s') = Some b"
      "ai_random (authinfo s') = ai_random (authinfo (cv_stcb v))" "active_keyid (authinfo s') = active_keyid (authinfo (cv_stcb v))"
      "assoc_key (authinfo s') = None" "recv_key (authinfo s') = None"
      by (auto simp: load_peer_key_def sctp_clear_cachedkeys_def upd_auth_def Let_def)
    with cookie_key_small [OF assms(1) k] Some inv show ?thesis
      by (simp add: tcb_inv_def keys_small_def cache_ok_def)
  qed
qed

lemma acquire_inv: "tcb_inv s \<Longrightarrow> tcb_inv (s\<lparr>shared_keys := sctp_auth_key_acquire (shared_keys s) k\<rparr>)"
  by (simp add: sctp_auth_key_acquire_def tcb_inv_upd)

lemma upd_const_eq:
  "sctp_find_sharedkey ks k = Some x \<Longrightarrow> upd_sharedkey k (\<lambda>_. f x) ks = upd_sharedkey k f ks"
  by (induction ks) (auto split: if_splits)

lemma release_inv:
  assumes "tcb_inv s" "sctp_auth_key_release (shared_keys s) k = (Some ks, told)"
  shows "tcb_inv (s\<lparr>shared_keys := ks\<rparr>)"
proof (cases "sctp_find_sharedkey (shared_keys s) k")
  case None
  with assms have "s\<lparr>shared_keys := ks\<rparr> = s" by (simp add: sctp_auth_key_release_def)
  with assms(1) show ?thesis by simp
next
  case (Some x)
  with assms(2) upd_const_eq [OF Some, of "\<lambda>x. x\<lparr>refcount := refcount x - 1\<rparr>"]
  have "ks = upd_sharedkey k (\<lambda>x. x\<lparr>refcount := refcount x - 1\<rparr>) (shared_keys s)"
    by (auto simp: sctp_auth_key_release_def sctp_free_sharedkey_def split: if_splits)
  with assms(1) show ?thesis by (simp add: tcb_inv_upd)
qed

section \<open>The life of an endpoint\<close>

text \<open>
  One step is a socket option, the set-up of an association (as the side that sends INIT, or as the
  side that accepts a cookie), the loading of the peer's parameters, a packet sent or received, or a
  queued message taking or dropping its reference to a key. A release that would free a key that is
  linked is not a step. A reference is taken and dropped for the key of a queued message, any key id.
\<close>

inductive auth_step :: "sctp_inpcb \<Rightarrow> sctp_inpcb \<Rightarrow> bool" where
  opt_chunk: "setopt_auth_chunk c inp = (r, inp') \<Longrightarrow> auth_step inp inp'"
| opt_hmac: "malloc_sized malloc \<Longrightarrow> setopt_hmac_ident malloc n ids inp = (r, inp') \<Longrightarrow> auth_step inp inp'"
| opt_key: "malloc_sized malloc \<Longrightarrow> lookup_ok lookup inp \<Longrightarrow> length sca_key < 2 ^ 27 \<Longrightarrow>
    setopt_auth_key malloc lookup a n len sca_key inp = (r, inp') \<Longrightarrow> auth_step inp inp'"
| opt_active: "lookup_ok lookup inp \<Longrightarrow> setopt_auth_active_key lookup a n inp = (r, inp') \<Longrightarrow> auth_step inp inp'"
| opt_delete: "lookup_ok lookup inp \<Longrightarrow> setopt_auth_delete_key lookup a n inp = (r, inp') \<Longrightarrow> auth_step inp inp'"
| opt_deactivate: "lookup_ok lookup inp \<Longrightarrow> setopt_auth_deactivate_key lookup a n inp = (r, inp') \<Longrightarrow> auth_step inp inp'"
| new_assoc: "total_env env \<Longrightarrow> sctp_initialize_auth_params env inp blank_tcb = Some s \<Longrightarrow>
    auth_step inp (inp\<lparr>sctp_asoc_list := s # sctp_asoc_list inp\<rparr>)"
| from_cookie: "total_env env \<Longrightarrow> sctp_initialize_auth_params env inp blank_tcb = Some s \<Longrightarrow>
    sctp_auth_get_cookie_params (env_malloc env) inp s m offset len = Some s' \<Longrightarrow>
    auth_step inp (inp\<lparr>sctp_asoc_list := s' # sctp_asoc_list inp\<rparr>)"
| peer_params: "i < length (sctp_asoc_list inp) \<Longrightarrow> malloc_sized malloc \<Longrightarrow>
    authinfo (cv_stcb v) = authinfo (sctp_asoc_list inp ! i) \<Longrightarrow> shared_keys (cv_stcb v) = shared_keys (sctp_asoc_list inp ! i) \<Longrightarrow>
    load_peer_key malloc v = Some (r, s) \<Longrightarrow> auth_step inp (inp\<lparr>sctp_asoc_list := (sctp_asoc_list inp)[i := s]\<rparr>)"
| send: "i < length (sctp_asoc_list inp) \<Longrightarrow> env_ok env \<Longrightarrow>
    sctp_fill_hmac_digest_m env m offset auth (Some (sctp_asoc_list inp ! i)) k = Some (m', Some s) \<Longrightarrow>
    auth_step inp (inp\<lparr>sctp_asoc_list := (sctp_asoc_list inp)[i := s]\<rparr>)"
| receive: "i < length (sctp_asoc_list inp) \<Longrightarrow> env_ok env \<Longrightarrow>
    sctp_handle_auth env (sctp_asoc_list inp ! i) chunk m offset = Some (r', s, m') \<Longrightarrow>
    auth_step inp (inp\<lparr>sctp_asoc_list := (sctp_asoc_list inp)[i := s]\<rparr>)"
| acquire: "i < length (sctp_asoc_list inp) \<Longrightarrow> s = sctp_asoc_list inp ! i \<Longrightarrow>
    auth_step inp (inp\<lparr>sctp_asoc_list := (sctp_asoc_list inp)[i := s\<lparr>shared_keys := sctp_auth_key_acquire (shared_keys s) k\<rparr>]\<rparr>)"
| release: "i < length (sctp_asoc_list inp) \<Longrightarrow> s = sctp_asoc_list inp ! i \<Longrightarrow>
    sctp_auth_key_release (shared_keys s) k = (Some ks, told) \<Longrightarrow>
    auth_step inp (inp\<lparr>sctp_asoc_list := (sctp_asoc_list inp)[i := s\<lparr>shared_keys := ks\<rparr>]\<rparr>)"

lemma inp_inv_new: "inp_inv inp \<Longrightarrow> tcb_inv s \<Longrightarrow> inp_inv (inp\<lparr>sctp_asoc_list := s # sctp_asoc_list inp\<rparr>)"
  by (simp add: inp_inv_def)

lemmas options_inv = chunk_option_inv hmac_option_inv key_option_inv
  active_op.option_inv delete_op.option_inv deact_op.option_inv

lemma auth_step_inv: "auth_step inp inp' \<Longrightarrow> inp_inv inp \<Longrightarrow> inp_inv inp'"
proof (induction rule: auth_step.induct)
  case (from_cookie env inp s m offset len s')
  then show ?case
    using initialize_inv [OF from_cookie(1,4,2)] get_cookie_inv [OF _ _ from_cookie(4) _ _ from_cookie(3)]
    by (auto intro: inp_inv_new simp: total_env_def env_ok_def)
next
  case (peer_params i inp malloc v r s)
  from load_peer_inv [OF peer_params(2) inp_inv_nth [OF peer_params(6,1)] peer_params(3,4,5)] peer_params(6)
  show ?case by (intro inp_inv_assoc)
next
  case (send i inp env m offset auth k m' s)
  from fill_inv [OF send(2) inp_inv_nth [OF send(4,1)] send(3)] send(4) show ?case by (intro inp_inv_assoc)
next
  case (receive i inp env chunk m offset r' s m')
  from handle_inv [OF receive(2) inp_inv_nth [OF receive(4,1)] receive(3)] receive(4) show ?case by (intro inp_inv_assoc)
next
  case (release i inp s k ks told)
  with release_inv [OF inp_inv_nth [OF release(4,1)]] show ?case by (intro inp_inv_assoc) auto
qed (use options_inv in \<open>(metis snd_conv setopt_auth_active_key_def setopt_auth_delete_key_def setopt_auth_deactivate_key_def
       inp_inv_new initialize_inv inp_inv_assoc inp_inv_nth acquire_inv)+\<close>)

lemma reachable_inv: "auth_step\<^sup>*\<^sup>* inp inp' \<Longrightarrow> inp_inv inp \<Longrightarrow> inp_inv inp'"
  by (induction rule: rtranclp_induct) (auto intro: auth_step_inv)

lemma inpcb_alloc_inv:
  assumes "malloc_sized malloc" "\<forall>n. malloc n \<noteq> None"
  shows "inp_inv (inpcb_alloc_auth malloc asconf tcp)"
proof -
  obtain s where s: "sctp_alloc_sharedkey malloc = Some s" "keyid s = 0" "skey_key s = None"
    using spec [OF assms(2), of 32] by (auto simp: sctp_alloc_sharedkey_def)
  obtain l where l: "sctp_alloc_hmaclist malloc 1 = Some l" "hmaclist_ok l"
    using spec [OF assms(2), of 6] alloc_hmaclist_ok [OF assms(1), of 1] by (auto simp: sctp_alloc_hmaclist_def)
  then have "sctp_default_supported_hmaclist malloc = Some l' \<Longrightarrow> hmaclist_ok l'" for l'
    using add_hmacid_ok [OF l(2), of SCTP_AUTH_HMAC_ID_SHA1]
    by (auto simp: sctp_default_supported_hmaclist_def split: prod.splits option.splits)
  with s show ?thesis
    by (simp add: inpcb_alloc_auth_def Let_def inp_inv_def sctp_insert_sharedkey_def sk_sorted_def small_key_def key_ok_def key_bytes_def)
qed

text \<open>
  C16: Whatever sequence of socket options, new associations, peer parameters, packets sent and received,
  and references taken and dropped an endpoint goes through after its creation, as long as no dropped reference frees a key that is still linked (a sequence that does so, a replaced key whose old
  reference is dropped, exists, and is excluded) and memory is there when the endpoint and its associations are created: its key list and those of
  its associations stay strictly ordered by key id, the default key is there, every association has its
  active key and that key is not deactivated, and a cached key of an association (for sending or for
  receiving) is computed from its own and the peer's key vector and the shared key it is cached for.
\<close>

theorem auth_keyring_invariant:
  assumes "malloc_sized malloc" "\<forall>n. malloc n \<noteq> None"
    and "auth_step\<^sup>*\<^sup>* (inpcb_alloc_auth malloc asconf tcp) inp"
  shows "sorted_wrt (<) (map keyid (ep_shared_keys inp)) \<and>
    sctp_find_sharedkey (ep_shared_keys inp) (default_keyid inp) \<noteq> None \<and>
    (\<forall>s\<in>set (sctp_asoc_list inp).
       sorted_wrt (<) (map keyid (shared_keys s)) \<and>
       (\<exists>skey. sctp_find_sharedkey (shared_keys s) (active_keyid (authinfo s)) = Some skey \<and> deactivated skey = 0) \<and>
       caches (assoc_key (authinfo s)) (secret s (assoc_keyid (authinfo s))) \<and>
       caches (recv_key (authinfo s)) (secret s (recv_keyid (authinfo s))))"
  using reachable_inv [OF assms(3) inpcb_alloc_inv [OF assms(1,2)]]
  by (auto simp: inp_inv_def tcb_inv_def cache_ok_def sk_sorted_def sorted_wrt_map)

text \<open>An endpoint that installs key 5 and makes it the default, then sets up an association.\<close>

definition demo_ep0 :: sctp_inpcb where "demo_ep0 = inpcb_alloc_auth (env_malloc demo_env) False False"
definition demo_ep1 :: sctp_inpcb where "demo_ep1 = snd (setopt_auth_key (env_malloc demo_env) (\<lambda>_. None) 0 5 2 [1, 2] demo_ep0)"
definition demo_ep2 :: sctp_inpcb where "demo_ep2 = snd (setopt_auth_active_key (\<lambda>_. None) 0 5 demo_ep1)"

lemma demo_ep2_reached: "auth_step\<^sup>*\<^sup>* demo_ep0 demo_ep2"
proof -
  have "malloc_sized (env_malloc demo_env)" using demo_env_ok by (simp add: env_ok_def)
  then have "auth_step demo_ep0 demo_ep1"
    unfolding demo_ep1_def by (intro opt_key [where lookup = "\<lambda>_. None"]) (auto simp: lookup_ok_def intro!: prod_eqI)
  moreover have "auth_step demo_ep1 demo_ep2"
    unfolding demo_ep2_def by (intro opt_active [where lookup = "\<lambda>_. None"]) (auto simp: lookup_ok_def intro!: prod_eqI)
  ultimately show ?thesis by auto
qed

lemma demo_ep2_facts: "default_keyid demo_ep2 = 5" "sctp_asoc_list demo_ep2 = []"
  by code_simp+

theorem auth_keyring_invariant_witness:
  "\<exists>inp s skey. auth_step\<^sup>*\<^sup>* (inpcb_alloc_auth (env_malloc demo_env) False False) inp \<and> sctp_asoc_list inp = [s] \<and>
    active_keyid (authinfo s) = 5 \<and> sctp_find_sharedkey (shared_keys s) 5 = Some skey \<and> deactivated skey = 0"
proof -
  have mal: "malloc_sized (env_malloc demo_env)" "\<forall>n. env_malloc demo_env n \<noteq> None"
    using demo_total_env by (auto simp: total_env_def env_ok_def)
  have inv: "inp_inv demo_ep2"
    using reachable_inv [OF demo_ep2_reached] inpcb_alloc_inv [OF mal] by (simp add: demo_ep0_def)
  then obtain s where s: "sctp_initialize_auth_params demo_env demo_ep2 blank_tcb = Some s" "active_keyid (authinfo s) = 5"
    using initialize_params [OF demo_total_env, of demo_ep2 blank_tcb] demo_ep2_facts(1)
    by (auto simp: inp_inv_def)
  let ?inp = "demo_ep2\<lparr>sctp_asoc_list := s # sctp_asoc_list demo_ep2\<rparr>"
  have "auth_step\<^sup>*\<^sup>* (inpcb_alloc_auth (env_malloc demo_env) False False) ?inp"
    using demo_ep2_reached new_assoc [OF demo_total_env s(1)] by (auto simp: demo_ep0_def)
  with auth_keyring_invariant [OF mal this] s(2) show ?thesis
    by (intro exI [of _ ?inp] exI [of _ s]) (auto simp: demo_ep2_facts)
qed

end
