(* ===== verification/Cc_State.thy ===== *)
theory Cc_State
  imports Sctp_Prelude "HOL-Library.Monad_Syntax"
begin

text \<open>
  Congestion control (netinet/sctp_cc_functions.c): the part of the state of an association and of
  its destinations that the four congestion control modules work on, and what they share.

  The integers have the widths of the source (\<^verbatim>\<open>struct sctp_nets\<close>, \<^verbatim>\<open>struct rtcc_cc\<close>, \<^verbatim>\<open>struct htcp\<close>);
  \<open>lastsa\<close> is a signed int and is read with \<open>sint\<close>. The union of the two modules' data is a pair of
  fields; a module only touches its own. A division by zero is the result \<open>None\<close>. Logging is left out.
  Statistics counters and the restart of retransmission timers are collected in \<open>cc_events\<close>.
\<close>

type_synonym u64 = "64 word"

section \<open>State\<close>

record rtcc_cc =
  tls :: "int \<times> int"
  lbw :: u64
  lbw_rtt :: u64
  bw_bytes :: u64
  bw_tot_time :: u64
  new_tot_time :: u64
  bw_bytes_at_last_rttc :: u64
  cwnd_at_bw_set :: u32
  vol_reduce :: u32
  steady_step :: u16
  step_cnt :: u16
  ret_from_eq :: u8
  use_dccc_ecn :: u8
  tls_needs_set :: u8
  last_step_state :: u8
  rtt_set_this_sack :: u8
  last_inst_ind :: u8

record htcp =
  alpha :: u16
  beta :: u8
  modeswitch :: u8
  last_cong :: u32
  undo_last_cong :: u32
  bytes_acked :: u16
  bytecount :: u32
  minRTT :: u32
  maxRTT :: u32
  undo_maxRTT :: u32
  undo_old_maxB :: u32
  minB :: u32
  maxB :: u32
  old_maxB :: u32
  Bi :: u32
  lasttime :: u32

text \<open>\<open>net_addr\<close> stands for the address of the block; it names the destination in events.\<close>

record sctp_nets =
  net_addr :: nat
  mtu :: u32
  ssthresh :: u32
  lastsa :: u32
  rtt :: u64
  RTO :: u32
  htcp_ca :: htcp
  rtcc :: rtcc_cc
  flight_size :: u32
  cwnd :: u32
  prev_cwnd :: u32
  ecn_prev_cwnd :: u32
  partial_bytes_acked :: u32
  net_ack :: u32
  net_fast_recovery_tsn :: u32
  net_fast_retran_loss_recovery :: u8
  fast_retran_ip :: u8
  new_pseudo_cumack :: u8
  last_hs_used :: u8
  lan_type :: u8

datatype cc_event =
    Timer_stop nat
  | Timer_start nat
  | Stat_fastretransinrtt
  | Stat_ecnereducedcwnd

text \<open>Of the chunks in the send queue only the TSN is used.\<close>

record cc_asoc =
  nets :: "sctp_nets list"
  send_queue :: "u32 list"
  sending_seq :: u32
  sctp_cmt_on_off :: u8
  fast_retran_loss_recovery :: u8
  fast_recovery_tsn :: u32
  max_cwnd :: u32
  max_burst :: u32
  numnets :: u32
  peers_rwnd :: u32
  seen_a_sack_this_pkt :: u8
  use_precise_time :: u8
  cc_events :: "cc_event list"

record cc_sysctl =
  sctp_initial_cwnd :: u32
  sctp_L2_abc_variable :: u32
  sctp_rttvar_bw :: u32
  sctp_rttvar_rtt :: u32
  sctp_rttvar_eqret :: u32
  sctp_steady_step :: u32
  sctp_use_dccc_ecn :: u32

definition cc_emit :: "cc_event list \<Rightarrow> cc_asoc \<Rightarrow> cc_asoc" where
  "cc_emit es a = a\<lparr>cc_events := cc_events a @ es\<rparr>"

section \<open>Constants\<close>

definition SCTP_CMT_RPV1 :: u8 where "SCTP_CMT_RPV1 = 2"
definition SCTP_CMT_RPV2 :: u8 where "SCTP_CMT_RPV2 = 3"
definition SCTP_CMT_MPTCP :: u8 where "SCTP_CMT_MPTCP = 4"
definition SCTP_INITIAL_CWND :: u32 where "SCTP_INITIAL_CWND = 4380"

definition resource_pooling :: "cc_asoc \<Rightarrow> bool" where
  "resource_pooling a \<longleftrightarrow> sctp_cmt_on_off a = SCTP_CMT_RPV1 \<or> sctp_cmt_on_off a = SCTP_CMT_RPV2"

section \<open>Arithmetic\<close>

definition udiv :: "'a::len word \<Rightarrow> 'a word \<Rightarrow> 'a word option" where
  "udiv a b = (if b = 0 then None else Some (a div b))"

text \<open>The macros \<^verbatim>\<open>min\<close> and \<^verbatim>\<open>max\<close> of user_environment.h.\<close>

definition umin :: "u32 \<Rightarrow> u32 \<Rightarrow> u32" where "umin a b = (if a > b then b else a)"
definition umax :: "u32 \<Rightarrow> u32 \<Rightarrow> u32" where "umax a b = (if a > b then a else b)"

text \<open>\<^verbatim>\<open>net->mtu - sizeof(struct sctphdr)\<close>, which is computed in \<^verbatim>\<open>size_t\<close>.\<close>

definition mtu_payload :: "sctp_nets \<Rightarrow> u64" where
  "mtu_payload n = ucast (mtu n) - 12"

section \<open>Going through the destinations\<close>

text \<open>
  A loop over the destinations of an association: the body gives whether to go on, the association
  and the destination. No body reads the list of destinations.
\<close>

fun for_nets :: "(cc_asoc \<Rightarrow> sctp_nets \<Rightarrow> (bool \<times> cc_asoc \<times> sctp_nets) option) \<Rightarrow> sctp_nets list \<Rightarrow> cc_asoc \<Rightarrow>
    (cc_asoc \<times> sctp_nets list) option" where
  "for_nets f [] a = Some (a, [])"
| "for_nets f (n # ns) a =
     do { (go_on, a, n) \<leftarrow> f a n;
          if go_on then do { (a, ns) \<leftarrow> for_nets f ns a; Some (a, n # ns) } else Some (a, n # ns) }"

definition foreach_net :: "(cc_asoc \<Rightarrow> sctp_nets \<Rightarrow> (bool \<times> cc_asoc \<times> sctp_nets) option) \<Rightarrow> cc_asoc \<Rightarrow> cc_asoc option" where
  "foreach_net f a = do { (a, ns) \<leftarrow> for_nets f (nets a) a; Some (a\<lparr>nets := ns\<rparr>) }"

section \<open>The limit of an association\<close>

definition sctp_enforce_cwnd_limit :: "cc_asoc \<Rightarrow> sctp_nets \<Rightarrow> sctp_nets" where
  "sctp_enforce_cwnd_limit a n =
     (if max_cwnd a > 0 \<and> cwnd n > max_cwnd a \<and> ucast (cwnd n) > mtu_payload n
      then let n = n\<lparr>cwnd := max_cwnd a\<rparr>
           in if ucast (cwnd n) < mtu_payload n then n\<lparr>cwnd := ucast (mtu_payload n)\<rparr> else n
      else n)"

text \<open>The end of the fast recovery window: the TSN before the first chunk not sent yet.\<close>

definition recovery_end :: "cc_asoc \<Rightarrow> u32" where
  "recovery_end a = (case send_queue a of [] \<Rightarrow> sending_seq a - 1 | tsn # _ \<Rightarrow> tsn - 1)"

text \<open>Entering fast recovery, at the end of the three modules' fast retransmit routines.\<close>

definition enter_recovery :: "cc_asoc \<Rightarrow> sctp_nets \<Rightarrow> cc_asoc \<times> sctp_nets" where
  "enter_recovery a n =
     (cc_emit [Timer_stop (net_addr n), Timer_start (net_addr n)]
        (a\<lparr>fast_retran_loss_recovery := 1, fast_recovery_tsn := recovery_end a\<rparr>),
      n\<lparr>partial_bytes_acked := 0, net_fast_retran_loss_recovery := 1, net_fast_recovery_tsn := recovery_end a\<rparr>)"

text \<open>
  The loop of a fast retransmit: the reduction of a destination's window is the parameter. Outside a
  recovery window, or with CMT, every destination with acknowledged bytes is reduced and recovery is entered.
\<close>

definition fr_body :: "(cc_asoc \<Rightarrow> sctp_nets \<Rightarrow> sctp_nets option) \<Rightarrow> cc_asoc \<Rightarrow> sctp_nets \<Rightarrow> (bool \<times> cc_asoc \<times> sctp_nets) option" where
  "fr_body reduce a n =
     (if fast_retran_loss_recovery a = 0 \<or> sctp_cmt_on_off a > 0
      then if net_ack n > 0
           then do { n \<leftarrow> reduce a n; Some (True, enter_recovery a n) }
           else Some (True, a, n)
      else if net_ack n > 0 then Some (True, cc_emit [Stat_fastretransinrtt] a, n)
      else Some (True, a, n))"

end
