(* ===== verification/Cc_Window.thy ===== *)
theory Cc_Window
  imports Cc_State
begin

text \<open>
  The standard congestion control module (RFC 2581 and RFC 4960, with the variants for concurrent
  multipath transfer) and the RTCC module, which shares its routines: lines 59 to 1614 of
  netinet/sctp_cc_functions.c, in their order, without the parts for FreeBSD.
\<close>

section \<open>Initial window\<close>

definition initial_window :: "cc_sysctl \<Rightarrow> cc_asoc \<Rightarrow> sctp_nets \<Rightarrow> u32" where
  "initial_window sys a n =
     (let cwnd_in_mtu = sctp_initial_cwnd sys
      in if cwnd_in_mtu = 0 then umin (mtu n * 4) (umax (2 * mtu n) SCTP_INITIAL_CWND)
         else let cwnd_in_mtu = (if max_burst a > 0 \<and> cwnd_in_mtu > max_burst a then max_burst a else cwnd_in_mtu)
              in ucast (mtu_payload n * ucast cwnd_in_mtu))"

definition sctp_set_initial_cc_param :: "cc_sysctl \<Rightarrow> cc_asoc \<Rightarrow> sctp_nets \<Rightarrow> (cc_asoc \<times> sctp_nets) option" where
  "sctp_set_initial_cc_param sys a n =
     do { let n = n\<lparr>cwnd := initial_window sys a n\<rparr>;
          n \<leftarrow> (if resource_pooling a
                then do { w \<leftarrow> udiv (cwnd n) (numnets a);
                          let n = n\<lparr>cwnd := w\<rparr>;
                          Some (if ucast (cwnd n) < mtu_payload n then n\<lparr>cwnd := ucast (mtu_payload n)\<rparr> else n) }
                else Some n);
          let n = sctp_enforce_cwnd_limit a n;
          Some (a, n\<lparr>ssthresh := peers_rwnd a\<rparr>) }"

section \<open>Fast retransmit\<close>

text \<open>The sums over all destinations that the multipath variants use.\<close>

definition total_ssthresh :: "cc_asoc \<Rightarrow> u32" where "total_ssthresh a = (\<Sum>n\<leftarrow>nets a. ssthresh n)"
definition total_cwnd :: "cc_asoc \<Rightarrow> u32" where "total_cwnd a = (\<Sum>n\<leftarrow>nets a. cwnd n)"

definition total_bandwidth :: "cc_asoc \<Rightarrow> u64" where
  "total_bandwidth a = (\<Sum>n\<leftarrow>nets a. if lastsa n > 0 then ucast (cwnd n) div ucast (lastsa n) else 0)"

text \<open>Here \<open>lastsa\<close> is compared as the signed integer it is, above as the unsigned variable \<^verbatim>\<open>srtt\<close> it was copied to.\<close>

definition fr_bandwidth :: "cc_asoc \<Rightarrow> u64" where
  "fr_bandwidth a = (\<Sum>n\<leftarrow>nets a. if sint (lastsa n) > 0 then ucast (cwnd n) div ucast (lastsa n) else 0)"

definition at_least_1 :: "'a::len word \<Rightarrow> 'a word" where
  "at_least_1 w = (if w = 0 then 1 else w)"

text \<open>The last two corrections of a pooled threshold.\<close>

definition pooled_floor :: "u32 \<Rightarrow> sctp_nets \<Rightarrow> sctp_nets" where
  "pooled_floor t_cwnd n =
     (let n = (if cwnd n > t_cwnd div 2 \<and> ssthresh n < cwnd n - t_cwnd div 2
               then n\<lparr>ssthresh := cwnd n - t_cwnd div 2\<rparr> else n)
      in if ssthresh n < mtu n then n\<lparr>ssthresh := mtu n\<rparr> else n)"

definition fr_reduce :: "u32 \<Rightarrow> u32 \<Rightarrow> u64 \<Rightarrow> cc_asoc \<Rightarrow> sctp_nets \<Rightarrow> sctp_nets option" where
  "fr_reduce t_ssthresh t_cwnd t_ucwnd_sbw a n =
     do { n \<leftarrow> (if resource_pooling a
                then do { s \<leftarrow> (if sctp_cmt_on_off a = SCTP_CMT_RPV1
                                then udiv (4 * ucast (mtu n) * ucast (ssthresh n) :: u64) (ucast t_ssthresh)
                                else udiv (4 * ucast (mtu n) * ucast (cwnd n) :: u64)
                                       (ucast (at_least_1 (lastsa n)) * t_ucwnd_sbw));
                          Some (pooled_floor t_cwnd (n\<lparr>ssthresh := ucast s\<rparr>)) }
                else Some (let n = n\<lparr>ssthresh := cwnd n div 2\<rparr>
                           in if ssthresh n < mtu n * 2 then n\<lparr>ssthresh := 2 * mtu n\<rparr> else n));
          Some (sctp_enforce_cwnd_limit a (n\<lparr>cwnd := ssthresh n\<rparr>)) }"

text \<open>With resource pooling off the sums stay 0 and are not used.\<close>

definition sctp_cwnd_update_after_fr :: "cc_asoc \<Rightarrow> cc_asoc option" where
  "sctp_cwnd_update_after_fr a =
     foreach_net (fr_body (fr_reduce (total_ssthresh a) (total_cwnd a) (at_least_1 (fr_bandwidth a)))) a"

section \<open>RTCC: is the window limited by the bandwidth?\<close>

definition SCTP_INST_LOOSING :: u8 where "SCTP_INST_LOOSING = 1"
definition SCTP_INST_NEUTRAL :: u8 where "SCTP_INST_NEUTRAL = 2"
definition SCTP_INST_GAINING :: u8 where "SCTP_INST_GAINING = 3"

definition upd_rtcc :: "(rtcc_cc \<Rightarrow> rtcc_cc) \<Rightarrow> sctp_nets \<Rightarrow> sctp_nets" where
  "upd_rtcc f n = n\<lparr>rtcc := f (rtcc n)\<rparr>"

text \<open>Remembering bandwidth, round trip time and window.\<close>

definition lock_in :: "u64 \<Rightarrow> sctp_nets \<Rightarrow> sctp_nets" where
  "lock_in nbw n = upd_rtcc (\<lambda>r. r\<lparr>lbw := nbw, lbw_rtt := rtt n, cwnd_at_bw_set := cwnd n\<rparr>) n"

text \<open>Counting steps in the steady state; whether it is time to try a step down.\<close>

definition count_step :: "sctp_nets \<Rightarrow> sctp_nets" where
  "count_step n =
     upd_rtcc (\<lambda>r. r\<lparr>step_cnt := (if last_step_state r = 5 then step_cnt r + 1 else 1), last_step_state := 5\<rparr>) n"

definition step_due :: "sctp_nets \<Rightarrow> bool" where
  "step_due n \<longleftrightarrow> step_cnt (rtcc n) = steady_step (rtcc n) \<or>
     (step_cnt (rtcc n) > steady_step (rtcc n) \<and> step_cnt (rtcc n) mod steady_step (rtcc n) = 0)"

definition step_down :: "sctp_nets \<Rightarrow> sctp_nets" where
  "step_down n = upd_rtcc (\<lambda>r. r\<lparr>vol_reduce := vol_reduce r + 1\<rparr>) (n\<lparr>cwnd := cwnd n - mtu n\<rparr>)"

definition cc_bw_same :: "sctp_nets \<Rightarrow> u64 \<Rightarrow> u64 \<Rightarrow> u8 \<Rightarrow> int \<times> sctp_nets" where
  "cc_bw_same n nbw rtt_offset inst_ind =
     (if rtt n > lbw_rtt (rtcc n) + rtt_offset
      then if steady_step (rtcc n) \<noteq> 0 \<and> inst_ind \<noteq> SCTP_INST_LOOSING
           then let n = count_step n
                in if step_due n
                   then if cwnd n > 4 * mtu n then (1, step_down n)
                        else (1, upd_rtcc (\<lambda>r. r\<lparr>step_cnt := 0\<rparr>) n)
                   else (1, n)
           else (1, n)
      else if rtt n < lbw_rtt (rtcc n) - rtt_offset
      then if steady_step (rtcc n) \<noteq> 0 \<and> last_step_state (rtcc n) = 5 \<and> step_cnt (rtcc n) > steady_step (rtcc n)
           then (1, upd_rtcc (\<lambda>r. r\<lparr>step_cnt := 0\<rparr>) n)
           else let n = (if steady_step (rtcc n) \<noteq> 0 then upd_rtcc (\<lambda>r. r\<lparr>last_step_state := 6, step_cnt := 0\<rparr>) n else n);
                    n = lock_in nbw n
                in (if inst_ind = SCTP_INST_GAINING then 1 else if inst_ind = SCTP_INST_NEUTRAL then 1 else 0, n)
      else let ret = (if inst_ind = SCTP_INST_GAINING then 1 else if inst_ind = SCTP_INST_NEUTRAL then 1
                      else uint (ret_from_eq (rtcc n)))
           in if steady_step (rtcc n) \<noteq> 0 \<and> inst_ind \<noteq> SCTP_INST_LOOSING
              then let n = count_step n
                   in if step_due n
                      then if cwnd n > 4 * mtu n then (1, step_down n)
                           else (ret, upd_rtcc (\<lambda>r. r\<lparr>step_cnt := 0\<rparr>) n)
                      else (ret, n)
              else (ret, n))"

text \<open>Taking back one voluntary reduction; the state of the step counter is set in any case.\<close>

definition take_back :: "cc_asoc \<Rightarrow> u8 \<Rightarrow> u8 \<Rightarrow> sctp_nets \<Rightarrow> sctp_nets" where
  "take_back a state inst_ind n =
     (if steady_step (rtcc n) \<noteq> 0
      then let n = (if vol_reduce (rtcc n) \<noteq> 0 \<and> inst_ind \<noteq> SCTP_INST_GAINING
                    then upd_rtcc (\<lambda>r. r\<lparr>vol_reduce := vol_reduce r - 1\<rparr>)
                           (sctp_enforce_cwnd_limit a (n\<lparr>cwnd := cwnd n + mtu n\<rparr>))
                    else n)
           in upd_rtcc (\<lambda>r. r\<lparr>last_step_state := state, step_cnt := 0\<rparr>) n
      else n)"

definition cc_bw_decrease :: "cc_asoc \<Rightarrow> sctp_nets \<Rightarrow> u64 \<Rightarrow> u64 \<Rightarrow> u8 \<Rightarrow> int \<times> sctp_nets" where
  "cc_bw_decrease a n nbw rtt_offset inst_ind =
     (if rtt n > lbw_rtt (rtcc n) + rtt_offset \<and> cwnd n > cwnd_at_bw_set (rtcc n) \<and> inst_ind \<noteq> SCTP_INST_LOOSING
      then (1, if ret_from_eq (rtcc n) \<noteq> 0 then n\<lparr>ssthresh := cwnd n - 1, partial_bytes_acked := 0\<rparr> else n)
      else let state = (if rtt n > lbw_rtt (rtcc n) + rtt_offset then 2
                        else if rtt n < lbw_rtt (rtcc n) - rtt_offset then 3 else 4);
               n = lock_in nbw (take_back a state inst_ind n)
           in (if inst_ind = SCTP_INST_GAINING then 1 else 0, n))"

definition cc_bw_increase :: "sctp_nets \<Rightarrow> u64 \<Rightarrow> int \<times> sctp_nets" where
  "cc_bw_increase n nbw =
     (let n = (if steady_step (rtcc n) \<noteq> 0
               then upd_rtcc (\<lambda>r. r\<lparr>last_step_state := 0, step_cnt := 0, vol_reduce := 0\<rparr>) n else n)
      in (0, lock_in nbw n))"

text \<open>How the bandwidth of this round trip compares with the long-term one.\<close>

definition instant_indication :: "cc_sysctl \<Rightarrow> sctp_nets \<Rightarrow> u64 \<Rightarrow> u8 \<times> sctp_nets" where
  "instant_indication sys n nbw =
     (if rtt_set_this_sack (rtcc n) \<noteq> 0
      then let bytes_for_this_rtt = bw_bytes (rtcc n) - bw_bytes_at_last_rttc (rtcc n);
               n = upd_rtcc (\<lambda>r. r\<lparr>rtt_set_this_sack := 0, bw_bytes_at_last_rttc := bw_bytes r\<rparr>) n;
               d = rtt n div 1000
           in if d \<noteq> 0
              then let inst_bw = bytes_for_this_rtt div d;
                       inst_off = drop_bit (unat (sctp_rttvar_bw sys)) inst_bw
                   in (if inst_bw > nbw then SCTP_INST_GAINING
                       else if inst_bw + inst_off < nbw then SCTP_INST_LOOSING else SCTP_INST_NEUTRAL, n)
              else (last_inst_ind (rtcc n), n)
      else (last_inst_ind (rtcc n), n))"

definition cc_bw_limit :: "cc_sysctl \<Rightarrow> cc_asoc \<Rightarrow> sctp_nets \<Rightarrow> u64 \<Rightarrow> int \<times> sctp_nets" where
  "cc_bw_limit sys a n nbw =
     (let (inst_ind, n) = instant_indication sys n nbw;
          bw_offset = drop_bit (unat (sctp_rttvar_bw sys)) (lbw (rtcc n));
          rtt_offset = drop_bit (unat (sctp_rttvar_rtt sys)) (lbw_rtt (rtcc n));
          (ret, n) = (if nbw > lbw (rtcc n) + bw_offset then cc_bw_increase n nbw
                      else if nbw < lbw (rtcc n) - bw_offset then cc_bw_decrease a n nbw rtt_offset inst_ind
                      else cc_bw_same n nbw rtt_offset inst_ind)
      in (ret, upd_rtcc (\<lambda>r. r\<lparr>last_inst_ind := inst_ind\<rparr>) n))"

section \<open>SACK\<close>

text \<open>What the multipath variants need: sums over the destinations, and the coupling factor in the style of MPTCP.\<close>

record pool =
  t_ssthresh :: u32
  t_ucwnd_sbw :: u64
  mptcp_like_alpha :: u64

definition SHIFT_MPTCP_MULTI_N :: nat where "SHIFT_MPTCP_MULTI_N = 40"
definition SHIFT_MPTCP_MULTI_Z :: nat where "SHIFT_MPTCP_MULTI_Z = 16"
definition SHIFT_MPTCP_MULTI :: nat where "SHIFT_MPTCP_MULTI = 8"

text \<open>One destination: its share of \<^verbatim>\<open>t_path_mptcp\<close> and the largest \<^verbatim>\<open>tmp\<close> so far. The square is a 32-bit product.\<close>

fun mptcp_paths :: "sctp_nets list \<Rightarrow> u64 \<Rightarrow> u64 \<Rightarrow> (u64 \<times> u64) option" where
  "mptcp_paths [] t_path_mptcp max_path = Some (t_path_mptcp, max_path)"
| "mptcp_paths (n # ns) t_path_mptcp max_path =
     (let srtt = lastsa n
      in if srtt > 0
         then do { p \<leftarrow> udiv (push_bit SHIFT_MPTCP_MULTI_Z (ucast (cwnd n))) (ucast (mtu n) * ucast srtt);
                   tmp \<leftarrow> udiv (push_bit SHIFT_MPTCP_MULTI_N (ucast (cwnd n))) (ucast (mtu n) * ucast (srtt * srtt));
                   mptcp_paths ns (t_path_mptcp + p) (if tmp > max_path then tmp else max_path) }
         else mptcp_paths ns t_path_mptcp max_path)"

definition pooled :: "cc_asoc \<Rightarrow> pool option" where
  "pooled a =
     (if resource_pooling a \<or> sctp_cmt_on_off a = SCTP_CMT_MPTCP
      then do { (t_path_mptcp, max_path) \<leftarrow> mptcp_paths (nets a) 0 0;
                al \<leftarrow> (if t_path_mptcp > 0 then udiv max_path (t_path_mptcp * t_path_mptcp) else Some 1);
                Some \<lparr>t_ssthresh = at_least_1 (total_ssthresh a), t_ucwnd_sbw = at_least_1 (total_bandwidth a),
                      mptcp_like_alpha = al\<rparr> }
      else Some \<lparr>t_ssthresh = 1, t_ucwnd_sbw = 1, mptcp_like_alpha = 1\<rparr>)"

definition cap :: "u32 \<Rightarrow> u32 \<Rightarrow> u32" where "cap limit incr = (if incr > limit then limit else incr)"

text \<open>The increase in slow start.\<close>

definition ss_incr :: "cc_sysctl \<Rightarrow> cc_asoc \<Rightarrow> pool \<Rightarrow> sctp_nets \<Rightarrow> u32 option" where
  "ss_incr sys a t n =
     (let L = sctp_L2_abc_variable sys; sbw = ucast (at_least_1 (lastsa n)) * t_ucwnd_sbw t
      in if sctp_cmt_on_off a = SCTP_CMT_RPV1
         then do { limit \<leftarrow> udiv (ucast (mtu n) * ucast L * ucast (ssthresh n) :: u64) (ucast (t_ssthresh t));
                   incr \<leftarrow> udiv (ucast (net_ack n) * ucast (ssthresh n) :: u64) (ucast (t_ssthresh t));
                   Some (at_least_1 (cap (ucast limit) (ucast incr))) }
         else if sctp_cmt_on_off a = SCTP_CMT_RPV2
         then do { limit \<leftarrow> udiv (ucast (mtu n) * ucast L * ucast (cwnd n)) sbw;
                   incr \<leftarrow> udiv (ucast (net_ack n) * ucast (cwnd n)) sbw;
                   Some (at_least_1 (cap (ucast limit) (ucast incr))) }
         else if sctp_cmt_on_off a = SCTP_CMT_MPTCP
         then let limit = ucast (drop_bit SHIFT_MPTCP_MULTI (ucast (mtu n) * mptcp_like_alpha t * ucast L));
                  incr = ucast (drop_bit SHIFT_MPTCP_MULTI (ucast (net_ack n) * mptcp_like_alpha t))
              in Some (cap (mtu n) (cap (net_ack n) (cap limit incr)))
         else Some (cap (mtu n * L) (net_ack n)))"

text \<open>The increase in congestion avoidance.\<close>

definition ca_incr :: "cc_asoc \<Rightarrow> pool \<Rightarrow> sctp_nets \<Rightarrow> u32 option" where
  "ca_incr a t n =
     (if sctp_cmt_on_off a = SCTP_CMT_RPV1
      then do { incr \<leftarrow> udiv (ucast (mtu n) * ucast (ssthresh n) :: u64) (ucast (t_ssthresh t));
                Some (at_least_1 (ucast incr)) }
      else if sctp_cmt_on_off a = SCTP_CMT_RPV2
      then do { incr \<leftarrow> udiv (ucast (mtu n) * ucast (cwnd n)) (ucast (at_least_1 (lastsa n)) * t_ucwnd_sbw t);
                Some (at_least_1 (ucast incr)) }
      else if sctp_cmt_on_off a = SCTP_CMT_MPTCP
      then Some (cap (mtu n) (ucast (drop_bit SHIFT_MPTCP_MULTI (mptcp_like_alpha t * ucast (cwnd n)))))
      else Some (mtu n))"

definition grow :: "cc_sysctl \<Rightarrow> cc_asoc \<Rightarrow> pool \<Rightarrow> sctp_nets \<Rightarrow> sctp_nets option" where
  "grow sys a t n =
     (if cwnd n \<le> ssthresh n
      then if flight_size n + net_ack n \<ge> cwnd n
           then do { incr \<leftarrow> ss_incr sys a t n; Some (sctp_enforce_cwnd_limit a (n\<lparr>cwnd := cwnd n + incr\<rparr>)) }
           else Some n
      else let n = n\<lparr>partial_bytes_acked := partial_bytes_acked n + net_ack n\<rparr>
           in if flight_size n + net_ack n \<ge> cwnd n \<and> partial_bytes_acked n \<ge> cwnd n
              then do { let n = n\<lparr>partial_bytes_acked := partial_bytes_acked n - cwnd n\<rparr>;
                        incr \<leftarrow> ca_incr a t n;
                        Some (sctp_enforce_cwnd_limit a (n\<lparr>cwnd := cwnd n + incr\<rparr>)) }
              else Some n)"

text \<open>The bandwidth measurement of RTCC: whether to hold the window, and the destination.\<close>

definition rtcc_hold :: "cc_sysctl \<Rightarrow> cc_asoc \<Rightarrow> sctp_nets \<Rightarrow> bool \<times> sctp_nets" where
  "rtcc_hold sys a n =
     (if tls_needs_set (rtcc n) > 0
      then let nbw = (if new_tot_time (rtcc n) div 1000 > 0
                      then bw_bytes (rtcc n) div (new_tot_time (rtcc n) div 1000) else bw_bytes (rtcc n))
           in if lbw (rtcc n) \<noteq> 0
              then let (ret, n) = cc_bw_limit sys a n nbw in (ret \<noteq> 0, n)
              else let n = upd_rtcc (\<lambda>r. r\<lparr>lbw := nbw, lbw_rtt := rtt n\<rparr>) n
                   in (False, if rtt_set_this_sack (rtcc n) \<noteq> 0
                              then upd_rtcc (\<lambda>r. r\<lparr>rtt_set_this_sack := 0, bw_bytes_at_last_rttc := bw_bytes r\<rparr>) n
                              else n)
      else (False, n))"

definition sack_body :: "cc_sysctl \<Rightarrow> pool \<Rightarrow> bool \<Rightarrow> bool \<Rightarrow> bool \<Rightarrow> cc_asoc \<Rightarrow> sctp_nets \<Rightarrow>
    (bool \<times> cc_asoc \<times> sctp_nets) option" where
  "sack_body sys t accum_moved will_exit use_rtcc a n =
     (if net_ack n = 0 then Some (True, a, n)
      else if fast_retran_loss_recovery a \<noteq> 0 \<and> \<not> will_exit \<and> sctp_cmt_on_off a = 0 then Some (False, a, n)
      else let (hold, n) = (if use_rtcc then rtcc_hold sys a n else (False, n))
           in if hold then Some (True, a, n)
              else if accum_moved \<or> (sctp_cmt_on_off a > 0 \<and> new_pseudo_cumack n \<noteq> 0)
              then do { n \<leftarrow> grow sys a t n; Some (True, a, n) }
              else Some (True, a, n))"

definition sctp_cwnd_update_after_sack_common :: "cc_sysctl \<Rightarrow> cc_asoc \<Rightarrow> bool \<Rightarrow> bool \<Rightarrow> bool \<Rightarrow> cc_asoc option" where
  "sctp_cwnd_update_after_sack_common sys a accum_moved will_exit use_rtcc =
     do { t \<leftarrow> pooled a; foreach_net (sack_body sys t accum_moved will_exit use_rtcc) a }"

section \<open>Timeout, ECN and the end of potential failure\<close>

definition sctp_cwnd_update_exit_pf_common :: "cc_asoc \<Rightarrow> sctp_nets \<Rightarrow> (cc_asoc \<times> sctp_nets) option" where
  "sctp_cwnd_update_exit_pf_common a n = Some (a, n\<lparr>cwnd := mtu n\<rparr>)"

definition sctp_cwnd_update_after_timeout :: "cc_asoc \<Rightarrow> sctp_nets \<Rightarrow> (cc_asoc \<times> sctp_nets) option" where
  "sctp_cwnd_update_after_timeout a n =
     do { n \<leftarrow> (if resource_pooling a
                then do { let t_cwnd = total_cwnd a;
                          n \<leftarrow> (if sctp_cmt_on_off a = SCTP_CMT_RPV1
                                then do { s \<leftarrow> udiv (4 * ucast (mtu n) * ucast (ssthresh n) :: u64)
                                                    (ucast (at_least_1 (total_ssthresh a)));
                                          Some (n\<lparr>ssthresh := ucast s\<rparr>) }
                                else let cc_delta = at_least_1 (total_bandwidth a) * ucast (at_least_1 (lastsa n)) div 2
                                     in Some (if cc_delta < ucast t_cwnd then n\<lparr>ssthresh := ucast (ucast t_cwnd - cc_delta)\<rparr>
                                              else n\<lparr>ssthresh := mtu n\<rparr>));
                          Some (pooled_floor t_cwnd n) }
                else Some (n\<lparr>ssthresh := umax (cwnd n div 2) (4 * mtu n)\<rparr>));
          Some (a, n\<lparr>cwnd := mtu n, partial_bytes_acked := 0\<rparr>) }"

definition SCTP_LAN_LOCAL :: u8 where "SCTP_LAN_LOCAL = 1"

text \<open>\<open>in_window\<close> says that the mark belongs to a window that was already reduced.\<close>

definition sctp_cwnd_update_after_ecn_echo_common :: "cc_asoc \<Rightarrow> sctp_nets \<Rightarrow> bool \<Rightarrow> u32 \<Rightarrow> bool \<Rightarrow>
    (cc_asoc \<times> sctp_nets) option" where
  "sctp_cwnd_update_after_ecn_echo_common a n in_window num_pkt_lost use_rtcc =
     (if use_rtcc \<and> lan_type n = SCTP_LAN_LOCAL \<and> use_dccc_ecn (rtcc n) \<noteq> 0
      then let n = (if \<not> in_window
                    then let n = (if ecn_prev_cwnd n < cwnd n
                                  then n\<lparr>cwnd := ecn_prev_cwnd n - mtu n * num_pkt_lost\<rparr>
                                  else n\<lparr>cwnd := cwnd n div 2\<rparr>)
                         in n\<lparr>ssthresh := cwnd n - num_pkt_lost * mtu n\<rparr>
                    else n\<lparr>ssthresh := ssthresh n - mtu n * num_pkt_lost, cwnd := cwnd n - mtu n * num_pkt_lost\<rparr>)
           in Some (cc_emit [Stat_ecnereducedcwnd] a, n)
      else if \<not> in_window
      then let n = n\<lparr>ssthresh := cwnd n div 2\<rparr>;
               n = (if ssthresh n < mtu n then n\<lparr>ssthresh := mtu n, RTO := push_bit 1 (RTO n)\<rparr> else n)
           in Some (cc_emit [Stat_ecnereducedcwnd] a, n\<lparr>cwnd := ssthresh n\<rparr>)
      else Some (a, n))"

section \<open>Packet drop reports and bursts\<close>

text \<open>How much of the excess in the router's queue is due to this association, less what it has already given up.\<close>

definition my_portion :: "sctp_nets \<Rightarrow> u32 \<Rightarrow> u32 \<Rightarrow> u32 option" where
  "my_portion n on_queue incr =
     do { seg_inflight \<leftarrow> udiv (flight_size n) (mtu n);
          seg_onqueue \<leftarrow> udiv on_queue (mtu n);
          p \<leftarrow> udiv (incr * seg_inflight) seg_onqueue;
          let diff_adj = cwnd n - flight_size n;
          Some (if cwnd n > flight_size n
                then if sint diff_adj > sint p then 0 else p - diff_adj
                else p) }"

text \<open>The router's queue is longer than the pipe: back down by our portion and go to congestion avoidance.\<close>

definition dropped_excess :: "cc_asoc \<Rightarrow> sctp_nets \<Rightarrow> u32 \<Rightarrow> u32 \<Rightarrow> sctp_nets option" where
  "dropped_excess a n on_queue bw_avail =
     do { let n = n\<lparr>partial_bytes_acked := 0\<rparr>;
          let n = (if seen_a_sack_this_pkt a \<noteq> 0 then n\<lparr>cwnd := prev_cwnd n\<rparr> else n);
          p \<leftarrow> my_portion n on_queue (on_queue - bw_avail);
          let n = n\<lparr>cwnd := cwnd n - p\<rparr>;
          let n = (if cwnd n \<le> mtu n then n\<lparr>cwnd := mtu n\<rparr> else n);
          Some (n\<lparr>ssthresh := cwnd n - 1\<rparr>) }"

text \<open>There is room: take a quarter of it, at most a burst.\<close>

definition dropped_room :: "cc_asoc \<Rightarrow> sctp_nets \<Rightarrow> u32 \<Rightarrow> u32 \<Rightarrow> sctp_nets" where
  "dropped_room a n on_queue bw_avail =
     (let incr = drop_bit 2 (bw_avail - on_queue);
          incr = (if max_burst a > 0 \<and> max_burst a * mtu n < incr then max_burst a * mtu n else incr)
      in n\<lparr>cwnd := cwnd n + incr\<rparr>)"

text \<open>
  The bottleneck bandwidth (in bytes per second) and the queue length of the chunk are arguments, the
  round trip time is in microseconds; the values for the caller are given back.
\<close>

definition sctp_cwnd_update_after_packet_dropped :: "cc_asoc \<Rightarrow> sctp_nets \<Rightarrow> u32 \<Rightarrow> u32 \<Rightarrow>
    (cc_asoc \<times> sctp_nets \<times> u32 \<times> u32) option" where
  "sctp_cwnd_update_after_packet_dropped a n bottle_bw current_onq =
     (let on_queue = (if current_onq < flight_size n then flight_size n else current_onq);
          bw_avail = ucast (ucast bottle_bw * rtt n div 1000000);
          bw_avail = (if bw_avail > bottle_bw then bottle_bw else bw_avail)
      in do { n \<leftarrow> (if on_queue > bw_avail then dropped_excess a n on_queue bw_avail
                    else Some (dropped_room a n on_queue bw_avail));
              let n = (if cwnd n > bw_avail then n\<lparr>cwnd := bw_avail\<rparr> else n);
              let n = (if cwnd n < mtu n then n\<lparr>cwnd := mtu n\<rparr> else n);
              Some (a, sctp_enforce_cwnd_limit a n, bottle_bw, on_queue) })"

definition sctp_cwnd_update_after_output :: "cc_asoc \<Rightarrow> sctp_nets \<Rightarrow> u32 \<Rightarrow> (cc_asoc \<times> sctp_nets) option" where
  "sctp_cwnd_update_after_output a n burst_limit =
     (let n = (if ssthresh n < cwnd n then n\<lparr>ssthresh := cwnd n\<rparr> else n)
      in Some (a, if burst_limit \<noteq> 0
                  then sctp_enforce_cwnd_limit a (n\<lparr>cwnd := flight_size n + burst_limit * mtu n\<rparr>) else n))"

section \<open>The two modules\<close>

definition sctp_cwnd_update_after_sack :: "cc_sysctl \<Rightarrow> cc_asoc \<Rightarrow> bool \<Rightarrow> bool \<Rightarrow> cc_asoc option" where
  "sctp_cwnd_update_after_sack sys a accum_moved will_exit =
     sctp_cwnd_update_after_sack_common sys a accum_moved will_exit False"

definition sctp_cwnd_update_after_ecn_echo :: "cc_asoc \<Rightarrow> sctp_nets \<Rightarrow> bool \<Rightarrow> u32 \<Rightarrow> (cc_asoc \<times> sctp_nets) option" where
  "sctp_cwnd_update_after_ecn_echo a n in_window num_pkt_lost =
     sctp_cwnd_update_after_ecn_echo_common a n in_window num_pkt_lost False"

definition sctp_cwnd_update_rtcc_after_sack :: "cc_sysctl \<Rightarrow> cc_asoc \<Rightarrow> bool \<Rightarrow> bool \<Rightarrow> cc_asoc option" where
  "sctp_cwnd_update_rtcc_after_sack sys a accum_moved will_exit =
     sctp_cwnd_update_after_sack_common sys a accum_moved will_exit True"

definition sctp_cwnd_update_rtcc_after_ecn_echo :: "cc_asoc \<Rightarrow> sctp_nets \<Rightarrow> bool \<Rightarrow> u32 \<Rightarrow> (cc_asoc \<times> sctp_nets) option" where
  "sctp_cwnd_update_rtcc_after_ecn_echo a n in_window num_pkt_lost =
     sctp_cwnd_update_after_ecn_echo_common a n in_window num_pkt_lost True"

definition sctp_cwnd_update_rtcc_tsn_acknowledged :: "sctp_nets \<Rightarrow> u16 \<Rightarrow> sctp_nets" where
  "sctp_cwnd_update_rtcc_tsn_acknowledged n send_size = upd_rtcc (\<lambda>r. r\<lparr>bw_bytes := bw_bytes r + ucast send_size\<rparr>) n"

text \<open>\<^verbatim>\<open>timevalsub\<close> of netinet/sctp_os_userspace.h, on seconds and microseconds.\<close>

definition timevalsub :: "int \<times> int \<Rightarrow> int \<times> int \<Rightarrow> int \<times> int" where
  "timevalsub tp1 tp2 =
     (let s = fst tp1 - fst tp2; us = snd tp1 - snd tp2
      in if us < 0 then (s - 1, us + 1000000) else (s, us))"

definition sctp_cwnd_prepare_rtcc_net_for_sack :: "int \<times> int \<Rightarrow> sctp_nets \<Rightarrow> sctp_nets" where
  "sctp_cwnd_prepare_rtcc_net_for_sack now n =
     (if tls_needs_set (rtcc n) > 0
      then let ltls = timevalsub now (tls (rtcc n))
           in upd_rtcc (\<lambda>r. r\<lparr>new_tot_time := word_of_int (fst ltls * 1000000 + snd ltls)\<rparr>) n
      else n)"

definition sctp_cwnd_new_rtcc_transmission_begins :: "cc_sysctl \<Rightarrow> cc_asoc \<Rightarrow> sctp_nets \<Rightarrow> sctp_nets" where
  "sctp_cwnd_new_rtcc_transmission_begins sys a n =
     (if lbw (rtcc n) \<noteq> 0
      then let n = upd_rtcc (\<lambda>r. r\<lparr>lbw_rtt := 0, cwnd_at_bw_set := 0, lbw := 0, bw_bytes_at_last_rttc := 0,
                     vol_reduce := 0, bw_tot_time := 0, bw_bytes := 0, tls_needs_set := 0\<rparr>) n;
               n = (if steady_step (rtcc n) \<noteq> 0
                    then upd_rtcc (\<lambda>r. r\<lparr>vol_reduce := 0, step_cnt := 0, last_step_state := 0\<rparr>) n else n)
           in if ret_from_eq (rtcc n) \<noteq> 0 \<and> cwnd n > initial_window sys a n
              then n\<lparr>cwnd := initial_window sys a n\<rparr> else n
      else n)"

definition sctp_set_rtcc_initial_cc_param :: "cc_sysctl \<Rightarrow> cc_asoc \<Rightarrow> sctp_nets \<Rightarrow> (cc_asoc \<times> sctp_nets) option" where
  "sctp_set_rtcc_initial_cc_param sys a n =
     do { (a, n) \<leftarrow> sctp_set_initial_cc_param sys a n;
          let a = a\<lparr>use_precise_time := 1\<rparr>;
          Some (a, upd_rtcc (\<lambda>r. r\<lparr>lbw_rtt := 0, cwnd_at_bw_set := 0, vol_reduce := 0, lbw := 0,
                  bw_bytes_at_last_rttc := 0, bw_tot_time := 0, bw_bytes := 0, tls_needs_set := 0,
                  ret_from_eq := ucast (sctp_rttvar_eqret sys), steady_step := ucast (sctp_steady_step sys),
                  use_dccc_ecn := ucast (sctp_use_dccc_ecn sys), step_cnt := 0, last_step_state := 0\<rparr>) n) }"

definition sctp_cwnd_update_rtcc_packet_transmitted :: "int \<times> int \<Rightarrow> sctp_nets \<Rightarrow> sctp_nets" where
  "sctp_cwnd_update_rtcc_packet_transmitted now n =
     (if tls_needs_set (rtcc n) = 0 then upd_rtcc (\<lambda>r. r\<lparr>tls := now, tls_needs_set := 2\<rparr>) n else n)"

definition sctp_rtt_rtcc_calculated :: "sctp_nets \<Rightarrow> sctp_nets" where
  "sctp_rtt_rtcc_calculated n = upd_rtcc (\<lambda>r. r\<lparr>rtt_set_this_sack := 1\<rparr>) n"

section \<open>Socket option of RTCC\<close>

definition SCTP_CC_OPT_RTCC_SETMODE :: int where "SCTP_CC_OPT_RTCC_SETMODE = 0x2000"
definition SCTP_CC_OPT_USE_DCCC_ECN :: int where "SCTP_CC_OPT_USE_DCCC_ECN = 0x2001"
definition SCTP_CC_OPT_STEADY_STEP :: int where "SCTP_CC_OPT_STEADY_STEP = 0x2002"
definition cc_EINVAL :: int where "cc_EINVAL = 22"
definition cc_EFAULT :: int where "cc_EFAULT = 14"

text \<open>Error, association, and the value of the option (changed by a get).\<close>

definition sctp_cwnd_rtcc_socket_option :: "cc_asoc \<Rightarrow> bool \<Rightarrow> int \<Rightarrow> u32 \<Rightarrow> int \<times> cc_asoc \<times> u32" where
  "sctp_cwnd_rtcc_socket_option a setit option assoc_value =
     (let all = (\<lambda>f. a\<lparr>nets := map (upd_rtcc f) (nets a)\<rparr>);
          first = (\<lambda>sel. case nets a of [] \<Rightarrow> (cc_EFAULT, a, assoc_value) | n # _ \<Rightarrow> (0, a, sel (rtcc n)))
      in if setit
         then if option = SCTP_CC_OPT_RTCC_SETMODE
              then if assoc_value \<noteq> 0 \<and> assoc_value \<noteq> 1 then (cc_EINVAL, a, assoc_value)
                   else (0, all (\<lambda>r. r\<lparr>ret_from_eq := ucast assoc_value\<rparr>), assoc_value)
              else if option = SCTP_CC_OPT_USE_DCCC_ECN
              then if assoc_value \<noteq> 0 \<and> assoc_value \<noteq> 1 then (cc_EINVAL, a, assoc_value)
                   else (0, all (\<lambda>r. r\<lparr>use_dccc_ecn := ucast assoc_value\<rparr>), assoc_value)
              else if option = SCTP_CC_OPT_STEADY_STEP
              then (0, all (\<lambda>r. r\<lparr>steady_step := ucast assoc_value\<rparr>), assoc_value)
              else (cc_EINVAL, a, assoc_value)
         else if option = SCTP_CC_OPT_RTCC_SETMODE then first (\<lambda>r. ucast (ret_from_eq r))
         else if option = SCTP_CC_OPT_USE_DCCC_ECN then first (\<lambda>r. ucast (use_dccc_ecn r))
         else if option = SCTP_CC_OPT_STEADY_STEP then first (\<lambda>r. ucast (steady_step r))
         else (cc_EINVAL, a, assoc_value))"

end
