(* ===== verification/Cc_Highspeed.thy ===== *)
theory Cc_Highspeed
  imports Cc_State
begin

text \<open>
  The high-speed congestion control modules: HighSpeed TCP with its table of increases and drops,
  and H-TCP (lines 1616 to 2407 of netinet/sctp_cc_functions.c). Reading the table outside its
  bounds is the result \<open>None\<close>, like a division by zero.
\<close>

section \<open>HighSpeed TCP\<close>

text \<open>Window in kilobytes, increase in kilobytes, drop in percent.\<close>

definition SCTP_HS_TABLE_SIZE :: nat where "SCTP_HS_TABLE_SIZE = 73"

definition sctp_cwnd_adjust :: "(nat \<times> nat \<times> nat) list" where
  "sctp_cwnd_adjust =
    [(38, 1, 50), (118, 2, 44), (221, 3, 41), (347, 4, 38), (495, 5, 37), (663, 6, 35),
    (851, 7, 34), (1058, 8, 33), (1284, 9, 32), (1529, 10, 31), (1793, 11, 30), (2076, 12, 29),
    (2378, 13, 28), (2699, 14, 28), (3039, 15, 27), (3399, 16, 27), (3778, 17, 26), (4177, 18, 26),
    (4596, 19, 25), (5036, 20, 25), (5497, 21, 24), (5979, 22, 24), (6483, 23, 23), (7009, 24, 23),
    (7558, 25, 22), (8130, 26, 22), (8726, 27, 22), (9346, 28, 21), (9991, 29, 21), (10661, 30, 21),
    (11358, 31, 20), (12082, 32, 20), (12834, 33, 20), (13614, 34, 19), (14424, 35, 19), (15265, 36, 19),
    (16137, 37, 19), (17042, 38, 18), (17981, 39, 18), (18955, 40, 18), (19965, 41, 17), (21013, 42, 17),
    (22101, 43, 17), (23230, 44, 17), (24402, 45, 16), (25618, 46, 16), (26881, 47, 16), (28193, 48, 16),
    (29557, 49, 15), (30975, 50, 15), (32450, 51, 15), (33986, 52, 15), (35586, 53, 14), (37253, 54, 14),
    (38992, 55, 14), (40808, 56, 14), (42707, 57, 13), (44694, 58, 13), (46776, 59, 13), (48961, 60, 13),
    (51258, 61, 13), (53677, 62, 12), (56230, 63, 12), (58932, 64, 12), (61799, 65, 12), (64851, 66, 11),
    (68113, 67, 11), (71617, 68, 11), (75401, 69, 10), (79517, 70, 10), (84035, 71, 10), (89053, 72, 10),
    (94717, 73, 9)]"

abbreviation hs_cwnd :: "nat \<Rightarrow> nat" where "hs_cwnd i \<equiv> fst (sctp_cwnd_adjust ! i)"
abbreviation hs_increase :: "nat \<Rightarrow> nat" where "hs_increase i \<equiv> fst (snd (sctp_cwnd_adjust ! i))"
abbreviation hs_drop_percent :: "nat \<Rightarrow> nat" where "hs_drop_percent i \<equiv> snd (snd (sctp_cwnd_adjust ! i))"

text \<open>The search upwards from the row used last; the last row when no row is above the window.\<close>

function hs_search :: "nat \<Rightarrow> nat \<Rightarrow> nat" where
  "hs_search cur_val i =
     (if i < SCTP_HS_TABLE_SIZE
      then if cur_val < hs_cwnd i then i else hs_search cur_val (i + 1)
      else SCTP_HS_TABLE_SIZE - 1)"
  by pat_completeness auto
termination hs_search
  by (relation "measure (\<lambda>(c, i). SCTP_HS_TABLE_SIZE - i)") auto

declare hs_search.simps [simp del]

definition sctp_hs_cwnd_increase :: "cc_asoc \<Rightarrow> sctp_nets \<Rightarrow> sctp_nets" where
  "sctp_hs_cwnd_increase a n =
     (let cur_val = unat (drop_bit 10 (cwnd n))
      in sctp_enforce_cwnd_limit a
          (if cur_val < hs_cwnd 0
           then if net_ack n > mtu n then n\<lparr>cwnd := cwnd n + mtu n\<rparr> else n\<lparr>cwnd := cwnd n + net_ack n\<rparr>
           else let indx = hs_search cur_val (unat (last_hs_used n))
                in n\<lparr>last_hs_used := word_of_nat indx,
                     cwnd := cwnd n + push_bit 10 (word_of_nat (hs_increase indx))\<rparr>))"

text \<open>The search downwards, whose result the code does not store.\<close>

fun hs_search_down :: "nat \<Rightarrow> nat \<Rightarrow> nat" where
  "hs_search_down cur_val 0 = 0"
| "hs_search_down cur_val (Suc i) = (if cur_val > hs_cwnd i then Suc i else hs_search_down cur_val i)"

definition sctp_hs_cwnd_decrease :: "cc_asoc \<Rightarrow> sctp_nets \<Rightarrow> sctp_nets option" where
  "sctp_hs_cwnd_decrease a n =
     do { n \<leftarrow> (if unat (drop_bit 10 (cwnd n)) < hs_cwnd 0
                then let n = n\<lparr>ssthresh := cwnd n div 2\<rparr>;
                         n = (if ssthresh n < mtu n * 2 then n\<lparr>ssthresh := 2 * mtu n\<rparr> else n)
                     in Some (n\<lparr>cwnd := ssthresh n\<rparr>)
                else if unat (last_hs_used n) \<ge> SCTP_HS_TABLE_SIZE then None
                else let n = n\<lparr>ssthresh := cwnd n - cwnd n div 100 * word_of_nat (hs_drop_percent (unat (last_hs_used n)))\<rparr>;
                         n = n\<lparr>cwnd := ssthresh n\<rparr>;
                         indx = last_hs_used n;
                         cur_val = unat (drop_bit 10 (cwnd n))
                     in Some (if cur_val < hs_cwnd 0 then n\<lparr>last_hs_used := 0\<rparr>
                              else let i = hs_search_down cur_val (unat indx)
                                   in n\<lparr>last_hs_used := indx\<rparr>));
          Some (sctp_enforce_cwnd_limit a n) }"

definition sctp_hs_cwnd_update_after_fr :: "cc_asoc \<Rightarrow> cc_asoc option" where
  "sctp_hs_cwnd_update_after_fr a = foreach_net (fr_body sctp_hs_cwnd_decrease) a"

text \<open>What the SACK routines of both modules have in common; the update of a destination is the parameter.\<close>

definition hs_sack_body :: "(cc_asoc \<Rightarrow> sctp_nets \<Rightarrow> sctp_nets option) \<Rightarrow> bool \<Rightarrow> bool \<Rightarrow> cc_asoc \<Rightarrow> sctp_nets \<Rightarrow>
    (bool \<times> cc_asoc \<times> sctp_nets) option" where
  "hs_sack_body update accum_moved will_exit a n =
     (if net_ack n = 0 then Some (True, a, n)
      else if fast_retran_loss_recovery a \<noteq> 0 \<and> \<not> will_exit \<and> sctp_cmt_on_off a = 0 then Some (False, a, n)
      else if accum_moved \<or> (sctp_cmt_on_off a > 0 \<and> new_pseudo_cumack n \<noteq> 0)
      then do { n \<leftarrow> update a n; Some (True, a, n) }
      else Some (True, a, n))"

definition hs_grow :: "cc_asoc \<Rightarrow> sctp_nets \<Rightarrow> sctp_nets option" where
  "hs_grow a n =
     Some (if cwnd n \<le> ssthresh n
           then if flight_size n + net_ack n \<ge> cwnd n then sctp_hs_cwnd_increase a n else n
           else let n = n\<lparr>partial_bytes_acked := partial_bytes_acked n + net_ack n\<rparr>
                in if flight_size n + net_ack n \<ge> cwnd n \<and> partial_bytes_acked n \<ge> cwnd n
                   then sctp_enforce_cwnd_limit a
                          (n\<lparr>partial_bytes_acked := partial_bytes_acked n - cwnd n, cwnd := cwnd n + mtu n\<rparr>)
                   else n)"

definition sctp_hs_cwnd_update_after_sack :: "cc_asoc \<Rightarrow> bool \<Rightarrow> bool \<Rightarrow> cc_asoc option" where
  "sctp_hs_cwnd_update_after_sack a accum_moved will_exit = foreach_net (hs_sack_body hs_grow accum_moved will_exit) a"

section \<open>H-TCP\<close>

text \<open>
  The clock (\<^verbatim>\<open>sctp_get_tick_count\<close>) is read once per call: \<open>now\<close> is the tick count during the
  call. The build has 1000 ticks per second, so milliseconds are ticks.
\<close>

definition hz :: u32 where "hz = 1000"
definition ALPHA_BASE :: u16 where "ALPHA_BASE = 128"
definition BETA_MIN :: u8 where "BETA_MIN = 64"
definition BETA_MAX :: u8 where "BETA_MAX = 102"

definition upd_htcp :: "(htcp \<Rightarrow> htcp) \<Rightarrow> sctp_nets \<Rightarrow> sctp_nets" where
  "upd_htcp f n = n\<lparr>htcp_ca := f (htcp_ca n)\<rparr>"

definition between_seq :: "u32 \<Rightarrow> u32 \<Rightarrow> u32 \<Rightarrow> bool" where
  "between_seq seq1 seq2 seq3 \<longleftrightarrow> seq3 - seq2 \<ge> seq1 - seq2"

definition htcp_cong_time :: "u32 \<Rightarrow> htcp \<Rightarrow> u32" where
  "htcp_cong_time now ca = now - last_cong ca"

definition htcp_ccount :: "u32 \<Rightarrow> htcp \<Rightarrow> u32 option" where
  "htcp_ccount now ca = udiv (htcp_cong_time now ca) (minRTT ca)"

definition htcp_reset :: "u32 \<Rightarrow> htcp \<Rightarrow> htcp" where
  "htcp_reset now ca =
     ca\<lparr>undo_last_cong := last_cong ca, undo_maxRTT := maxRTT ca, undo_old_maxB := old_maxB ca, last_cong := now\<rparr>"

definition measure_rtt :: "u32 \<Rightarrow> sctp_nets \<Rightarrow> sctp_nets option" where
  "measure_rtt now n =
     (let srtt = signed_drop_bit 3 (lastsa n);
          n = (if minRTT (htcp_ca n) > srtt \<or> minRTT (htcp_ca n) = 0 then upd_htcp (\<lambda>c. c\<lparr>minRTT := srtt\<rparr>) n else n)
      in if fast_retran_ip n = 0 \<and> ssthresh n < 0xFFFF
         then do { c \<leftarrow> htcp_ccount now (htcp_ca n);
                   if c > 3
                   then let n = (if maxRTT (htcp_ca n) < minRTT (htcp_ca n)
                                 then upd_htcp (\<lambda>c. c\<lparr>maxRTT := minRTT c\<rparr>) n else n)
                        in Some (if maxRTT (htcp_ca n) < srtt \<and> srtt \<le> maxRTT (htcp_ca n) + 20
                                 then upd_htcp (\<lambda>c. c\<lparr>maxRTT := srtt\<rparr>) n else n)
                   else Some n }
         else Some n)"

definition measure_achieved_throughput :: "u32 \<Rightarrow> sctp_nets \<Rightarrow> sctp_nets option" where
  "measure_achieved_throughput now n =
     (let n = (if fast_retran_ip n = 0 then upd_htcp (\<lambda>c. c\<lparr>bytes_acked := ucast (net_ack n)\<rparr>) n else n)
      in if fast_retran_ip n = 1 then Some (upd_htcp (\<lambda>c. c\<lparr>bytecount := 0, lasttime := now\<rparr>) n)
         else let n = upd_htcp (\<lambda>c. c\<lparr>bytecount := bytecount c + net_ack n\<rparr>) n;
                  ca = htcp_ca n;
                  steps = (let s = drop_bit 7 (alpha ca) in if s \<noteq> 0 then ucast s else 1)
              in if bytecount ca \<ge> cwnd n - steps * mtu n \<and> now - lasttime ca \<ge> minRTT ca \<and> minRTT ca > 0
                 then do { q \<leftarrow> udiv (bytecount ca) (mtu n);
                           cur_Bi \<leftarrow> udiv (q * hz) (now - lasttime ca);
                           c \<leftarrow> htcp_ccount now ca;
                           let ca = (if c \<le> 3 then ca\<lparr>minB := cur_Bi, maxB := cur_Bi, Bi := cur_Bi\<rparr>
                                     else let ca = ca\<lparr>Bi := (3 * Bi ca + cur_Bi) div 4\<rparr>;
                                              ca = (if Bi ca > maxB ca then ca\<lparr>maxB := Bi ca\<rparr> else ca)
                                          in if minB ca > maxB ca then ca\<lparr>minB := maxB ca\<rparr> else ca);
                           Some (n\<lparr>htcp_ca := ca\<lparr>bytecount := 0, lasttime := now\<rparr>\<rparr>) }
                 else Some n)"

text \<open>\<open>use_bandwidth_switch\<close> and \<open>use_rtt_scaling\<close> are constants with the value 1.\<close>

definition htcp_beta_update :: "htcp \<Rightarrow> u32 \<Rightarrow> u32 \<Rightarrow> htcp" where
  "htcp_beta_update ca min_rtt max_rtt =
     (let max_b = maxB ca; old_b = old_maxB ca; ca = ca\<lparr>old_maxB := max_b\<rparr>
      in if \<not> between_seq (5 * max_b) (4 * old_b) (6 * old_b) then ca\<lparr>beta := BETA_MIN, modeswitch := 0\<rparr>
         else if modeswitch ca \<noteq> 0 \<and> min_rtt > 10 \<and> max_rtt \<noteq> 0
         then let ca = ca\<lparr>beta := ucast (push_bit 7 min_rtt div max_rtt)\<rparr>
              in if beta ca < BETA_MIN then ca\<lparr>beta := BETA_MIN\<rparr>
                 else if beta ca > BETA_MAX then ca\<lparr>beta := BETA_MAX\<rparr> else ca
         else ca\<lparr>beta := BETA_MIN, modeswitch := 1\<rparr>)"

text \<open>The factor by which the increase grows with the time since the last congestion event.\<close>

definition htcp_factor :: "u32 \<Rightarrow> u32" where
  "htcp_factor diff =
     (if diff > hz
      then let diff = diff - hz in 1 + (10 * diff + diff div 2 * (diff div 2) div hz) div hz
      else 1)"

definition htcp_alpha_update :: "u32 \<Rightarrow> htcp \<Rightarrow> htcp option" where
  "htcp_alpha_update now ca =
     do { let factor = htcp_factor (htcp_cong_time now ca);
          factor \<leftarrow> (if minRTT ca \<noteq> 0
                     then do { scale \<leftarrow> udiv (push_bit 3 hz) (10 * minRTT ca);
                               let scale = umin (umax scale 4) 80;
                               f \<leftarrow> udiv (push_bit 3 factor) scale;
                               Some (if f = 0 then 1 else f) }
                     else Some factor);
          let ca = ca\<lparr>alpha := ucast (2 * factor * (128 - ucast (beta ca)))\<rparr>;
          Some (if alpha ca = 0 then ca\<lparr>alpha := ALPHA_BASE\<rparr> else ca) }"

definition htcp_param_update :: "u32 \<Rightarrow> sctp_nets \<Rightarrow> sctp_nets option" where
  "htcp_param_update now n =
     (let min_rtt = minRTT (htcp_ca n); max_rtt = maxRTT (htcp_ca n)
      in do { ca \<leftarrow> htcp_alpha_update now (htcp_beta_update (htcp_ca n) min_rtt max_rtt);
              Some (n\<lparr>htcp_ca := (if min_rtt > 0 \<and> max_rtt > min_rtt
                      then ca\<lparr>maxRTT := min_rtt + (max_rtt - min_rtt) * 95 div 100\<rparr> else ca)\<rparr>) })"

definition htcp_recalc_ssthresh :: "u32 \<Rightarrow> sctp_nets \<Rightarrow> (u32 \<times> sctp_nets) option" where
  "htcp_recalc_ssthresh now n =
     do { n \<leftarrow> htcp_param_update now n;
          q \<leftarrow> udiv (cwnd n) (mtu n);
          Some (umax (drop_bit 7 (q * ucast (beta (htcp_ca n))) * mtu n) (2 * mtu n), n) }"

definition htcp_cong_avoid :: "cc_sysctl \<Rightarrow> u32 \<Rightarrow> cc_asoc \<Rightarrow> sctp_nets \<Rightarrow> sctp_nets option" where
  "htcp_cong_avoid sys now a n =
     (if cwnd n \<le> ssthresh n
      then Some (if flight_size n + net_ack n \<ge> cwnd n
                 then sctp_enforce_cwnd_limit a
                        (if net_ack n > mtu n * sctp_L2_abc_variable sys
                         then n\<lparr>cwnd := cwnd n + mtu n * sctp_L2_abc_variable sys\<rparr>
                         else n\<lparr>cwnd := cwnd n + net_ack n\<rparr>)
                 else n)
      else do { n \<leftarrow> measure_rtt now n;
                q \<leftarrow> udiv (partial_bytes_acked n) (mtu n);
                n \<leftarrow> (if drop_bit 7 (q * ucast (alpha (htcp_ca n))) * mtu n \<ge> cwnd n
                      then do { let n = sctp_enforce_cwnd_limit a (n\<lparr>cwnd := cwnd n + mtu n, partial_bytes_acked := 0\<rparr>);
                                ca \<leftarrow> htcp_alpha_update now (htcp_ca n);
                                Some (n\<lparr>htcp_ca := ca\<rparr>) }
                      else Some (n\<lparr>partial_bytes_acked := partial_bytes_acked n + net_ack n\<rparr>));
                Some (upd_htcp (\<lambda>c. c\<lparr>bytes_acked := ucast (mtu n)\<rparr>) n) })"

definition htcp_init :: "u32 \<Rightarrow> sctp_nets \<Rightarrow> sctp_nets" where
  "htcp_init now n =
     n\<lparr>htcp_ca := \<lparr>alpha = ALPHA_BASE, beta = BETA_MIN, modeswitch = 0, last_cong = now, undo_last_cong = 0,
        bytes_acked = ucast (mtu n), bytecount = 0, minRTT = 0, maxRTT = 0, undo_maxRTT = 0, undo_old_maxB = 0,
        minB = 0, maxB = 0, old_maxB = 0, Bi = 0, lasttime = 0\<rparr>\<rparr>"

definition sctp_htcp_set_initial_cc_param :: "u32 \<Rightarrow> cc_asoc \<Rightarrow> sctp_nets \<Rightarrow> (cc_asoc \<times> sctp_nets) option" where
  "sctp_htcp_set_initial_cc_param now a n =
     (let n = n\<lparr>cwnd := umin (mtu n * 4) (umax (2 * mtu n) SCTP_INITIAL_CWND), ssthresh := peers_rwnd a\<rparr>
      in Some (a, htcp_init now (sctp_enforce_cwnd_limit a n)))"

definition htcp_update :: "cc_sysctl \<Rightarrow> u32 \<Rightarrow> cc_asoc \<Rightarrow> sctp_nets \<Rightarrow> sctp_nets option" where
  "htcp_update sys now a n = do { n \<leftarrow> htcp_cong_avoid sys now a n; measure_achieved_throughput now n }"

definition sctp_htcp_cwnd_update_after_sack :: "cc_sysctl \<Rightarrow> u32 \<Rightarrow> cc_asoc \<Rightarrow> bool \<Rightarrow> bool \<Rightarrow> cc_asoc option" where
  "sctp_htcp_cwnd_update_after_sack sys now a accum_moved will_exit =
     foreach_net (hs_sack_body (htcp_update sys now) accum_moved will_exit) a"

definition htcp_backoff :: "u32 \<Rightarrow> sctp_nets \<Rightarrow> sctp_nets option" where
  "htcp_backoff now n =
     do { (s, n) \<leftarrow> htcp_recalc_ssthresh now (upd_htcp (htcp_reset now) n); Some (n\<lparr>ssthresh := s\<rparr>) }"

definition sctp_htcp_cwnd_update_after_fr :: "u32 \<Rightarrow> cc_asoc \<Rightarrow> cc_asoc option" where
  "sctp_htcp_cwnd_update_after_fr now a =
     foreach_net (fr_body (\<lambda>a n. do { n \<leftarrow> htcp_backoff now n;
                                      Some (sctp_enforce_cwnd_limit a (n\<lparr>cwnd := ssthresh n\<rparr>)) })) a"

definition sctp_htcp_cwnd_update_after_timeout :: "u32 \<Rightarrow> cc_asoc \<Rightarrow> sctp_nets \<Rightarrow> (cc_asoc \<times> sctp_nets) option" where
  "sctp_htcp_cwnd_update_after_timeout now a n =
     do { n \<leftarrow> htcp_backoff now n; Some (a, n\<lparr>cwnd := mtu n, partial_bytes_acked := 0\<rparr>) }"

definition sctp_htcp_cwnd_update_after_ecn_echo :: "u32 \<Rightarrow> cc_asoc \<Rightarrow> sctp_nets \<Rightarrow> bool \<Rightarrow> (cc_asoc \<times> sctp_nets) option" where
  "sctp_htcp_cwnd_update_after_ecn_echo now a n in_window =
     (if \<not> in_window
      then do { n \<leftarrow> htcp_backoff now n;
                let n = (if ssthresh n < mtu n then n\<lparr>ssthresh := mtu n, RTO := push_bit 1 (RTO n)\<rparr> else n);
                Some (cc_emit [Stat_ecnereducedcwnd] a, sctp_enforce_cwnd_limit a (n\<lparr>cwnd := ssthresh n\<rparr>)) }
      else Some (a, n))"

end
