(* ===== verification/Cc_Modules.thy ===== *)
theory Cc_Modules
  imports Cc_Window Cc_Highspeed
begin

text \<open>
  The table of congestion control modules (the end of netinet/sctp_cc_functions.c) and the socket
  options of \<^verbatim>\<open>sctp_setopt\<close> that select a module and set its parameters (netinet/sctp_usrreq.c). An
  entry of the table that a module does not set is a NULL pointer, which the callers test for.

  An operation on one destination names it by its position in the list of the association.
\<close>

datatype cc_module = SCTP_CC_RFC2581 | SCTP_CC_HSTCP | SCTP_CC_HTCP | SCTP_CC_RTCC

text \<open>What a module finds around it: the tunable variables and the clock, in ticks and as a time of day.\<close>

record cc_env =
  cc_sys :: cc_sysctl
  cc_ticks :: u32
  cc_now :: "int \<times> int"

definition cc_set_initial :: "cc_env \<Rightarrow> cc_module \<Rightarrow> cc_asoc \<Rightarrow> sctp_nets \<Rightarrow> (cc_asoc \<times> sctp_nets) option" where
  "cc_set_initial env md =
     (case md of SCTP_CC_HTCP \<Rightarrow> sctp_htcp_set_initial_cc_param (cc_ticks env)
      | SCTP_CC_RTCC \<Rightarrow> sctp_set_rtcc_initial_cc_param (cc_sys env)
      | _ \<Rightarrow> sctp_set_initial_cc_param (cc_sys env))"

definition cc_after_sack :: "cc_env \<Rightarrow> cc_module \<Rightarrow> cc_asoc \<Rightarrow> bool \<Rightarrow> bool \<Rightarrow> cc_asoc option" where
  "cc_after_sack env md =
     (case md of SCTP_CC_RFC2581 \<Rightarrow> sctp_cwnd_update_after_sack (cc_sys env)
      | SCTP_CC_HSTCP \<Rightarrow> sctp_hs_cwnd_update_after_sack
      | SCTP_CC_HTCP \<Rightarrow> sctp_htcp_cwnd_update_after_sack (cc_sys env) (cc_ticks env)
      | SCTP_CC_RTCC \<Rightarrow> sctp_cwnd_update_rtcc_after_sack (cc_sys env))"

definition cc_after_fr :: "cc_env \<Rightarrow> cc_module \<Rightarrow> cc_asoc \<Rightarrow> cc_asoc option" where
  "cc_after_fr env md =
     (case md of SCTP_CC_HSTCP \<Rightarrow> sctp_hs_cwnd_update_after_fr
      | SCTP_CC_HTCP \<Rightarrow> sctp_htcp_cwnd_update_after_fr (cc_ticks env)
      | _ \<Rightarrow> sctp_cwnd_update_after_fr)"

definition cc_after_timeout :: "cc_env \<Rightarrow> cc_module \<Rightarrow> cc_asoc \<Rightarrow> sctp_nets \<Rightarrow> (cc_asoc \<times> sctp_nets) option" where
  "cc_after_timeout env md =
     (case md of SCTP_CC_HTCP \<Rightarrow> sctp_htcp_cwnd_update_after_timeout (cc_ticks env)
      | _ \<Rightarrow> sctp_cwnd_update_after_timeout)"

definition cc_after_ecn_echo :: "cc_env \<Rightarrow> cc_module \<Rightarrow> cc_asoc \<Rightarrow> sctp_nets \<Rightarrow> bool \<Rightarrow> u32 \<Rightarrow> (cc_asoc \<times> sctp_nets) option" where
  "cc_after_ecn_echo env md a n in_window num_pkt_lost =
     (case md of SCTP_CC_HTCP \<Rightarrow> sctp_htcp_cwnd_update_after_ecn_echo (cc_ticks env) a n in_window
      | SCTP_CC_RTCC \<Rightarrow> sctp_cwnd_update_rtcc_after_ecn_echo a n in_window num_pkt_lost
      | _ \<Rightarrow> sctp_cwnd_update_after_ecn_echo a n in_window num_pkt_lost)"

text \<open>The entries that only RTCC has; with another module nothing happens.\<close>

definition cc_packet_transmitted :: "cc_env \<Rightarrow> cc_module \<Rightarrow> sctp_nets \<Rightarrow> sctp_nets" where
  "cc_packet_transmitted env md n = (if md = SCTP_CC_RTCC then sctp_cwnd_update_rtcc_packet_transmitted (cc_now env) n else n)"

definition cc_tsn_acknowledged :: "cc_module \<Rightarrow> sctp_nets \<Rightarrow> u16 \<Rightarrow> sctp_nets" where
  "cc_tsn_acknowledged md n send_size = (if md = SCTP_CC_RTCC then sctp_cwnd_update_rtcc_tsn_acknowledged n send_size else n)"

definition cc_new_transmission_begins :: "cc_env \<Rightarrow> cc_module \<Rightarrow> cc_asoc \<Rightarrow> sctp_nets \<Rightarrow> sctp_nets" where
  "cc_new_transmission_begins env md a n =
     (if md = SCTP_CC_RTCC then sctp_cwnd_new_rtcc_transmission_begins (cc_sys env) a n else n)"

definition cc_prepare_net_for_sack :: "cc_env \<Rightarrow> cc_module \<Rightarrow> sctp_nets \<Rightarrow> sctp_nets" where
  "cc_prepare_net_for_sack env md n = (if md = SCTP_CC_RTCC then sctp_cwnd_prepare_rtcc_net_for_sack (cc_now env) n else n)"

definition cc_rtt_calculated :: "cc_module \<Rightarrow> sctp_nets \<Rightarrow> sctp_nets" where
  "cc_rtt_calculated md n = (if md = SCTP_CC_RTCC then sctp_rtt_rtcc_calculated n else n)"

definition cc_socket_option :: "cc_module \<Rightarrow> (cc_asoc \<Rightarrow> bool \<Rightarrow> int \<Rightarrow> u32 \<Rightarrow> int \<times> cc_asoc \<times> u32) option" where
  "cc_socket_option md = (if md = SCTP_CC_RTCC then Some sctp_cwnd_rtcc_socket_option else None)"

section \<open>Socket options\<close>

text \<open>The part of an association and of an endpoint that these options touch.\<close>

record cc_stcb =
  cc_assoc :: cc_asoc
  congestion_control_module :: cc_module

record cc_inp =
  sctp_default_cc_module :: cc_module
  cc_one_to_one :: bool
  cc_asoc_list :: "cc_stcb list"

definition cc_ENOENT :: int where "cc_ENOENT = 2"
definition cc_ENOTSUP :: int where "cc_ENOTSUP = 95"

definition cc_module_of :: "u32 \<Rightarrow> cc_module option" where
  "cc_module_of v =
     (if v = 0 then Some SCTP_CC_RFC2581 else if v = 1 then Some SCTP_CC_HSTCP
      else if v = 2 then Some SCTP_CC_HTCP else if v = 3 then Some SCTP_CC_RTCC else None)"

text \<open>\<^verbatim>\<open>SCTP_FIND_STCB\<close> for these endpoints; the association ids 0, 1 and 2 stand for future, current and all associations.\<close>

definition cc_find_stcb :: "(u32 \<Rightarrow> nat option) \<Rightarrow> cc_inp \<Rightarrow> u32 \<Rightarrow> int + nat option" where
  "cc_find_stcb lookup inp assoc_id =
     (if cc_one_to_one inp then Inr (if cc_asoc_list inp = [] then None else Some 0)
      else if assoc_id > 2 then (case lookup assoc_id of None \<Rightarrow> Inl cc_ENOENT | Some i \<Rightarrow> Inr (Some i))
      else Inr None)"

text \<open>Selecting a module starts every destination afresh.\<close>

definition select_module :: "cc_env \<Rightarrow> cc_module \<Rightarrow> cc_stcb \<Rightarrow> cc_stcb option" where
  "select_module env md s =
     do { a \<leftarrow> foreach_net (\<lambda>a n. map_option (\<lambda>(a, n). (True, a, n)) (cc_set_initial env md a n)) (cc_assoc s);
          Some \<lparr>cc_assoc = a, congestion_control_module = md\<rparr> }"

fun select_all :: "cc_env \<Rightarrow> cc_module \<Rightarrow> cc_stcb list \<Rightarrow> cc_stcb list option" where
  "select_all env md [] = Some []"
| "select_all env md (s # ss) = do { s \<leftarrow> select_module env md s; ss \<leftarrow> select_all env md ss; Some (s # ss) }"

definition setopt_pluggable_cc :: "cc_env \<Rightarrow> (u32 \<Rightarrow> nat option) \<Rightarrow> u32 \<Rightarrow> u32 \<Rightarrow> cc_inp \<Rightarrow> (int \<times> cc_inp) option" where
  "setopt_pluggable_cc env lookup assoc_id assoc_value inp =
     (case cc_module_of assoc_value of
        None \<Rightarrow> Some (cc_EINVAL, inp)
      | Some md \<Rightarrow>
          (case cc_find_stcb lookup inp assoc_id of
             Inl e \<Rightarrow> Some (e, inp)
           | Inr (Some i) \<Rightarrow>
               do { s \<leftarrow> select_module env md (cc_asoc_list inp ! i);
                    Some (0, inp\<lparr>cc_asoc_list := (cc_asoc_list inp)[i := s]\<rparr>) }
           | Inr None \<Rightarrow>
               do { let inp = (if cc_one_to_one inp \<or> assoc_id = 0 \<or> assoc_id = 2
                               then inp\<lparr>sctp_default_cc_module := md\<rparr> else inp);
                    l \<leftarrow> (if assoc_id = 1 \<or> assoc_id = 2 then select_all env md (cc_asoc_list inp)
                          else Some (cc_asoc_list inp));
                    Some (0, inp\<lparr>cc_asoc_list := l\<rparr>) }))"

text \<open>Setting a parameter of the module in use.\<close>

definition stcb_cc_option :: "int \<Rightarrow> u32 \<Rightarrow> cc_stcb \<Rightarrow> int \<times> cc_stcb" where
  "stcb_cc_option option assoc_value s =
     (case cc_socket_option (congestion_control_module s) of
        None \<Rightarrow> (cc_ENOTSUP, s)
      | Some f \<Rightarrow> (case f (cc_assoc s) True option assoc_value of (e, a, v) \<Rightarrow> (e, s\<lparr>cc_assoc := a\<rparr>)))"

definition setopt_cc_option :: "(u32 \<Rightarrow> nat option) \<Rightarrow> u32 \<Rightarrow> int \<Rightarrow> u32 \<Rightarrow> cc_inp \<Rightarrow> int \<times> cc_inp" where
  "setopt_cc_option lookup assoc_id option assoc_value inp =
     (case cc_find_stcb lookup inp assoc_id of
        Inl e \<Rightarrow> (e, inp)
      | Inr None \<Rightarrow>
          if assoc_id = 1
          then (0, inp\<lparr>cc_asoc_list := map (\<lambda>s. snd (stcb_cc_option option assoc_value s)) (cc_asoc_list inp)\<rparr>)
          else (cc_EINVAL, inp)
      | Inr (Some i) \<Rightarrow>
          (case stcb_cc_option option assoc_value (cc_asoc_list inp ! i) of
             (e, s) \<Rightarrow> (e, inp\<lparr>cc_asoc_list := (cc_asoc_list inp)[i := s]\<rparr>)))"

end
