(* ===== verification/Cc_Correct.thy ===== *)
theory Cc_Correct
  imports Cc_Modules
begin

text \<open>
  What the congestion control modules do to the window. The standard module refines the rules of
  RFC 4960 on natural numbers; a fast retransmit reduces one destination.
\<close>

section \<open>Arithmetic without wrap-around\<close>

lemma unat_add_small: "unat a + unat b < 2 ^ 32 \<Longrightarrow> unat (a + b :: u32) = unat a + unat b"
  by (simp add: unat_word_ariths)

lemma unat_mult_small: "unat a * unat b < 2 ^ 32 \<Longrightarrow> unat (a * b :: u32) = unat a * unat b"
  by (simp add: unat_word_ariths)

lemma unat_sub_le: "(b :: u32) \<le> a \<Longrightarrow> unat (a - b) = unat a - unat b"
  by (simp add: unat_sub)

lemma u32_less: "(a :: u32) < b \<longleftrightarrow> unat a < unat b"
  by (simp add: word_less_nat_alt)

lemma u32_le: "(a :: u32) \<le> b \<longleftrightarrow> unat a \<le> unat b"
  by (simp add: word_le_nat_alt)

lemma unat_cap: "unat (cap l i) = min (unat l) (unat i)"
  by (simp add: cap_def u32_less min_def)

lemma unat_umax: "unat (umax a b) = max (unat a) (unat b)"
  by (simp add: umax_def u32_less max_def)

lemma unat_umin: "unat (umin a b) = min (unat a) (unat b)"
  by (simp add: umin_def u32_less min_def)

lemma unat_ucast_u64: "unat (ucast (w :: u32) :: u64) = unat w"
  using unsigned_less [of w, where 'a = nat] by (simp add: unsigned_ucast_eq take_bit_nat_eq_self)

text \<open>The payload of a packet, computed in 64 bits.\<close>

lemma unat_mtu_payload: "12 \<le> mtu n \<Longrightarrow> unat (mtu_payload n) = unat (mtu n) - 12"
proof -
  assume "12 \<le> mtu n"
  then have "(12 :: u64) \<le> ucast (mtu n)" by (simp add: word_le_nat_alt unat_ucast_u64)
  then show ?thesis unfolding mtu_payload_def by (simp add: unat_sub unat_ucast_u64)
qed

text \<open>The limit of the association on natural numbers.\<close>

definition limited :: "nat \<Rightarrow> nat \<Rightarrow> nat \<Rightarrow> nat" where
  "limited limit m w = (if 0 < limit \<and> limit < w \<and> m - 12 < w then max limit (m - 12) else w)"

lemma enforce_limit:
  assumes "12 \<le> mtu n"
  shows "sctp_enforce_cwnd_limit a n = n\<lparr>cwnd := word_of_nat (limited (unat (max_cwnd a)) (unat (mtu n)) (unat (cwnd n)))\<rparr>"
    and "unat (cwnd (sctp_enforce_cwnd_limit a n)) = limited (unat (max_cwnd a)) (unat (mtu n)) (unat (cwnd n))"
proof -
  have c: "unat (ucast (mtu_payload n) :: u32) = unat (mtu n) - 12"
    using unat_mtu_payload [OF assms] unsigned_less [of "mtu n", where 'a = nat]
    by (simp add: unsigned_ucast_eq take_bit_nat_eq_self)
  have "0 < max_cwnd a \<longleftrightarrow> 0 < unat (max_cwnd a)" by (simp add: u32_less)
  then show "unat (cwnd (sctp_enforce_cwnd_limit a n)) = limited (unat (max_cwnd a)) (unat (mtu n)) (unat (cwnd n))"
    using unat_mtu_payload [OF assms] c
    by (auto simp: sctp_enforce_cwnd_limit_def limited_def Let_def u32_less word_less_nat_alt unat_ucast_u64 mtu_payload_def)
  then have "cwnd (sctp_enforce_cwnd_limit a n) = word_of_nat (limited (unat (max_cwnd a)) (unat (mtu n)) (unat (cwnd n)))"
    by (simp flip: \<open>unat (cwnd (sctp_enforce_cwnd_limit a n)) = _\<close>)
  moreover have "sctp_enforce_cwnd_limit a n = n\<lparr>cwnd := cwnd (sctp_enforce_cwnd_limit a n)\<rparr>"
    by (simp add: sctp_enforce_cwnd_limit_def Let_def)
  ultimately show "sctp_enforce_cwnd_limit a n = n\<lparr>cwnd := word_of_nat (limited (unat (max_cwnd a)) (unat (mtu n)) (unat (cwnd n)))\<rparr>"
    by simp
qed

lemma enforce_frame [simp]:
  "mtu (sctp_enforce_cwnd_limit a n) = mtu n" "ssthresh (sctp_enforce_cwnd_limit a n) = ssthresh n"
  "partial_bytes_acked (sctp_enforce_cwnd_limit a n) = partial_bytes_acked n"
  "net_ack (sctp_enforce_cwnd_limit a n) = net_ack n" "last_hs_used (sctp_enforce_cwnd_limit a n) = last_hs_used n"
  "net_addr (sctp_enforce_cwnd_limit a n) = net_addr n" "htcp_ca (sctp_enforce_cwnd_limit a n) = htcp_ca n"
  "rtcc (sctp_enforce_cwnd_limit a n) = rtcc n" "flight_size (sctp_enforce_cwnd_limit a n) = flight_size n"
  by (simp_all add: sctp_enforce_cwnd_limit_def Let_def)

section \<open>Slow start and congestion avoidance\<close>

text \<open>
  The rules of RFC 4960 (sections 7.2.1 and 7.2.2) for a window, on natural numbers: \<open>L\<close> is the
  appropriate byte counting limit in packets, \<open>limit\<close> the association's largest window.
\<close>

definition rfc4960_sack :: "nat \<Rightarrow> nat \<Rightarrow> nat \<Rightarrow> nat \<Rightarrow> nat \<Rightarrow> nat \<times> nat \<times> nat \<Rightarrow> nat \<times> nat \<times> nat" where
  "rfc4960_sack L limit m flight acked st =
     (case st of (w, thresh, pba) \<Rightarrow>
        if acked = 0 then (w, thresh, pba)
        else if w \<le> thresh
        then if w \<le> flight + acked then (limited limit m (w + min acked (L * m)), thresh, pba) else (w, thresh, pba)
        else if w \<le> flight + acked \<and> w \<le> pba + acked
        then (limited limit m (w + m), thresh, pba + acked - w)
        else (w, thresh, pba + acked))"

definition window_of :: "sctp_nets \<Rightarrow> nat \<times> nat \<times> nat" where
  "window_of n = (unat (cwnd n), unat (ssthresh n), unat (partial_bytes_acked n))"

text \<open>The sums of a destination stay within 32 bits.\<close>

definition sums_fit :: "cc_sysctl \<Rightarrow> sctp_nets \<Rightarrow> bool" where
  "sums_fit sys n \<longleftrightarrow> 12 \<le> mtu n \<and> unat (flight_size n) + unat (net_ack n) < 2 ^ 32 \<and>
     unat (partial_bytes_acked n) + unat (net_ack n) < 2 ^ 32 \<and>
     unat (mtu n) * unat (sctp_L2_abc_variable sys) < 2 ^ 32 \<and>
     unat (cwnd n) + unat (mtu n) * max 1 (unat (sctp_L2_abc_variable sys)) < 2 ^ 32"

lemma grow_rfc4960:
  assumes "sums_fit sys n" "sctp_cmt_on_off a = 0" "net_ack n \<noteq> 0"
  shows "\<exists>n'. grow sys a t n = Some n' \<and> window_of n' =
    rfc4960_sack (unat (sctp_L2_abc_variable sys)) (unat (max_cwnd a)) (unat (mtu n)) (unat (flight_size n)) (unat (net_ack n)) (window_of n)"
proof -
  let ?L = "unat (sctp_L2_abc_variable sys)" and ?m = "unat (mtu n)" and ?w = "unat (cwnd n)"
  have f: "12 \<le> mtu n" "unat (flight_size n + net_ack n) = unat (flight_size n) + unat (net_ack n)"
    "unat (partial_bytes_acked n + net_ack n) = unat (partial_bytes_acked n) + unat (net_ack n)"
    using assms(1) unat_add_small by (auto simp: sums_fit_def)
  have mL: "unat (mtu n * sctp_L2_abc_variable sys) = ?m * ?L" using assms(1) unat_mult_small by (simp add: sums_fit_def)
  have fits: "?w + ?m * max 1 ?L < 2 ^ 32" using assms(1) by (simp add: sums_fit_def)
  have "?m * ?L \<le> ?m * max 1 ?L" "?m * 1 \<le> ?m * max 1 ?L" by (intro mult_le_mono2; simp)+
  then have "min (?m * ?L) (unat (net_ack n)) \<le> ?m * max 1 ?L" "?m \<le> ?m * max 1 ?L" by linarith+
  then have le: "unat (cap (mtu n * sctp_L2_abc_variable sys) (net_ack n)) \<le> ?m * max 1 ?L" "?m \<le> ?m * max 1 ?L"
    by (simp_all only: unat_cap mL)
  have s: "unat (cwnd n + cap (mtu n * sctp_L2_abc_variable sys) (net_ack n)) = ?w + min (?L * ?m) (unat (net_ack n))"
    "unat (cwnd n + mtu n) = ?w + ?m"
    using unat_add_small [of "cwnd n" "cap (mtu n * sctp_L2_abc_variable sys) (net_ack n)"] unat_add_small [of "cwnd n" "mtu n"]
      le fits unat_cap mL by (simp_all only: mult.commute [of ?L])
  have "ss_incr sys a t n' = Some (cap (mtu n' * sctp_L2_abc_variable sys) (net_ack n'))" "ca_incr a t n' = Some (mtu n')" for n'
    using assms(2) by (simp_all add: ss_incr_def ca_incr_def Let_def SCTP_CMT_RPV1_def SCTP_CMT_RPV2_def SCTP_CMT_MPTCP_def)
  moreover have "unat (net_ack n) \<noteq> 0" using assms(3) by (simp add: unat_eq_0)
  ultimately show ?thesis using f s
    by (auto simp: grow_def Let_def window_of_def rfc4960_sack_def u32_le enforce_limit(2) min.commute unat_sub_le)
qed

lemma grow_frame:
  "sctp_cmt_on_off a = 0 \<Longrightarrow> grow sys a t n = Some n' \<Longrightarrow>
     n' = n\<lparr>cwnd := cwnd n', partial_bytes_acked := partial_bytes_acked n'\<rparr>"
  by (auto simp: grow_def Let_def ss_incr_def ca_incr_def SCTP_CMT_RPV1_def SCTP_CMT_RPV2_def SCTP_CMT_MPTCP_def
      sctp_enforce_cwnd_limit_def split: if_splits)

lemma for_nets_all:
  assumes "\<And>n. n \<in> set ns \<Longrightarrow> \<exists>n'. f a n = Some (True, a, n') \<and> R n n'"
  shows "\<exists>ns'. for_nets f ns a = Some (a, ns') \<and> list_all2 R ns ns'"
  using assms
proof (induction ns)
  case (Cons n ns)
  from Cons.prems [of n] obtain n' where "f a n = Some (True, a, n')" "R n n'" by auto
  moreover from Cons obtain ns' where "for_nets f ns a = Some (a, ns')" "list_all2 R ns ns'" by auto
  ultimately show ?case by auto
qed simp

lemma for_nets_unchanged:
  assumes "\<And>n. n \<in> set ns \<Longrightarrow> \<exists>go_on. f a n = Some (go_on, a, n)"
  shows "for_nets f ns a = Some (a, ns)"
  using assms
proof (induction ns)
  case (Cons n ns)
  from Cons.prems [of n] obtain go_on where "f a n = Some (go_on, a, n)" by auto
  with Cons show ?case by (cases go_on) auto
qed simp

lemma no_pooling: "sctp_cmt_on_off a = 0 \<Longrightarrow> \<not> resource_pooling a" "sctp_cmt_on_off a = 0 \<Longrightarrow> \<exists>t. pooled a = Some t"
  by (auto simp: resource_pooling_def pooled_def SCTP_CMT_RPV1_def SCTP_CMT_RPV2_def SCTP_CMT_MPTCP_def)

text \<open>
  C21: Without concurrent multipath transfer, a SACK that moves the cumulative acknowledgement changes the
  window of every destination by the rules of RFC 4960, computed on natural numbers: in slow start by
  the acknowledged bytes, at most the appropriate byte counting limit, in congestion avoidance by one
  packet per window of acknowledged bytes, up to the limit of the association; nothing else changes.
  A SACK that does not move it, or that arrives inside a fast recovery it does not end, changes nothing.
  The 32-bit sums must not wrap around.
\<close>

theorem after_sack_rfc4960:
  assumes "sctp_cmt_on_off a = 0" "\<forall>n\<in>set (nets a). sums_fit sys n"
  shows "(fast_retran_loss_recovery a = 0 \<or> will_exit \<longrightarrow>
      (\<exists>ns. sctp_cwnd_update_after_sack sys a True will_exit = Some (a\<lparr>nets := ns\<rparr>) \<and>
        list_all2 (\<lambda>n n'. n' = n\<lparr>cwnd := cwnd n', partial_bytes_acked := partial_bytes_acked n'\<rparr> \<and>
          window_of n' = rfc4960_sack (unat (sctp_L2_abc_variable sys)) (unat (max_cwnd a)) (unat (mtu n))
            (unat (flight_size n)) (unat (net_ack n)) (window_of n)) (nets a) ns)) \<and>
    sctp_cwnd_update_after_sack sys a False will_exit = Some a \<and>
    (fast_retran_loss_recovery a \<noteq> 0 \<and> \<not> will_exit \<longrightarrow> sctp_cwnd_update_after_sack sys a accum_moved will_exit = Some a)"
proof (intro conjI impI)
  from no_pooling(2) [OF assms(1)] obtain t where t: "pooled a = Some t" by auto
  let ?R = "\<lambda>n n'. n' = n\<lparr>cwnd := cwnd n', partial_bytes_acked := partial_bytes_acked n'\<rparr> \<and>
    window_of n' = rfc4960_sack (unat (sctp_L2_abc_variable sys)) (unat (max_cwnd a)) (unat (mtu n))
            (unat (flight_size n)) (unat (net_ack n)) (window_of n)"
  assume r: "fast_retran_loss_recovery a = 0 \<or> will_exit"
  have "\<exists>n'. sack_body sys t True will_exit False a n = Some (True, a, n') \<and> ?R n n'" if n: "n \<in> set (nets a)" for n
  proof (cases "net_ack n = 0")
    case True
    then show ?thesis by (auto simp: sack_body_def rfc4960_sack_def window_of_def)
  next
    case False
    with grow_rfc4960 [OF bspec [OF assms(2) n] assms(1) False] obtain n' where
      "grow sys a t n = Some n'" "window_of n' = rfc4960_sack (unat (sctp_L2_abc_variable sys)) (unat (max_cwnd a)) (unat (mtu n))
            (unat (flight_size n)) (unat (net_ack n)) (window_of n)" by blast
    with grow_frame [OF assms(1)] r False show ?thesis by (auto simp: sack_body_def)
  qed
  from for_nets_all [of "nets a" "sack_body sys t True will_exit False" a ?R, OF this] t show "\<exists>ns. sctp_cwnd_update_after_sack sys a True will_exit = Some (a\<lparr>nets := ns\<rparr>) \<and>
      list_all2 ?R (nets a) ns"
    by (auto simp: sctp_cwnd_update_after_sack_def sctp_cwnd_update_after_sack_common_def foreach_net_def)
next
  from no_pooling(2) [OF assms(1)] obtain t where t: "pooled a = Some t" by auto
  have "\<exists>g. sack_body sys t False will_exit False a n = Some (g, a, n)" for n
    using assms(1) by (auto simp: sack_body_def)
  from for_nets_unchanged [of _ "sack_body sys t False will_exit False" a, OF this] t show "sctp_cwnd_update_after_sack sys a False will_exit = Some a"
    by (simp add: sctp_cwnd_update_after_sack_def sctp_cwnd_update_after_sack_common_def foreach_net_def)
next
  assume r: "fast_retran_loss_recovery a \<noteq> 0 \<and> \<not> will_exit"
  from no_pooling(2) [OF assms(1)] obtain t where t: "pooled a = Some t" by auto
  have "\<exists>g. sack_body sys t accum_moved will_exit False a n = Some (g, a, n)" for n
    using assms(1) r by (auto simp: sack_body_def)
  from for_nets_unchanged [of _ "sack_body sys t accum_moved will_exit False" a, OF this] t show "sctp_cwnd_update_after_sack sys a accum_moved will_exit = Some a"
    by (simp add: sctp_cwnd_update_after_sack_def sctp_cwnd_update_after_sack_common_def foreach_net_def)
qed

section \<open>Fast retransmit\<close>

text \<open>The events for the destinations behind the one that is reduced.\<close>

lemma fr_after_reduction:
  assumes "sctp_cmt_on_off a = 0" "fast_retran_loss_recovery a \<noteq> 0"
  shows "for_nets (fr_body reduce) ns a =
    Some (cc_emit (replicate (length (filter (\<lambda>n. net_ack n > 0) ns)) Stat_fastretransinrtt) a, ns)"
  using assms
proof (induction ns arbitrary: a)
  case Nil
  then show ?case by (simp add: cc_emit_def)
next
  case (Cons n ns)
  let ?a = "cc_emit [Stat_fastretransinrtt] a"
  from Cons.prems have "sctp_cmt_on_off ?a = 0" "fast_retran_loss_recovery ?a \<noteq> 0" by (simp_all add: cc_emit_def)
  from Cons.IH [OF this] Cons.IH [OF Cons.prems] Cons.prems show ?case
    by (auto simp: fr_body_def cc_emit_def)
qed

lemma for_nets_append_skip:
  assumes "\<And>n. n \<in> set pre \<Longrightarrow> f a n = Some (True, a, n)"
  shows "for_nets f (pre @ ns) a = map_option (\<lambda>(a, l). (a, pre @ l)) (for_nets f ns a)"
  using assms
proof (induction pre)
  case (Cons n pre)
  then show ?case by (cases "for_nets f ns a") auto
qed (cases "for_nets f ns a"; auto)

text \<open>
  A fast retransmit outside a recovery window, without concurrent multipath transfer, reduces the first
  destination in the list that has acknowledged bytes, and only that one: its threshold becomes half the
  window but at least two packets, its window the threshold (within the limit of the association), its
  count of partially acknowledged bytes is cleared, its retransmission timer is restarted, and
  recovery lasts until the TSN before the first chunk not sent yet. Entering recovery keeps the loop from reducing
  any further destination that had a loss; they are only counted. Inside a recovery window no window changes.
\<close>

theorem after_fr_first_destination:
  assumes "sctp_cmt_on_off a = 0" "nets a = pre @ n # post" "\<forall>m\<in>set pre. net_ack m = 0" "net_ack n > 0"
    and "12 \<le> mtu n" "unat (mtu n) < 2 ^ 31"
  shows "(fast_retran_loss_recovery a = 0 \<longrightarrow>
      (\<exists>n' a'. sctp_cwnd_update_after_fr a = Some a' \<and> nets a' = pre @ n' # post \<and>
        unat (ssthresh n') = max (unat (cwnd n) div 2) (2 * unat (mtu n)) \<and>
        unat (cwnd n') = limited (unat (max_cwnd a)) (unat (mtu n)) (unat (ssthresh n')) \<and>
        partial_bytes_acked n' = 0 \<and> net_fast_recovery_tsn n' = recovery_end a \<and>
        fast_retran_loss_recovery a' = 1 \<and> fast_recovery_tsn a' = recovery_end a \<and>
        cc_events a' = cc_events a @ [Timer_stop (net_addr n), Timer_start (net_addr n)] @
          replicate (length (filter (\<lambda>m. net_ack m > 0) post)) Stat_fastretransinrtt)) \<and>
    (fast_retran_loss_recovery a \<noteq> 0 \<longrightarrow> map_option nets (sctp_cwnd_update_after_fr a) = Some (nets a))"
proof (intro conjI impI)
  let ?f = "fr_body (fr_reduce (total_ssthresh a) (total_cwnd a) (at_least_1 (fr_bandwidth a)))"
  assume r: "fast_retran_loss_recovery a = 0"
  have skip: "?f a m = Some (True, a, m)" if "m \<in> set pre" for m
    using assms(3) that by (simp add: fr_body_def)
  define n1 where "n1 = n\<lparr>ssthresh := umax (cwnd n div 2) (2 * mtu n)\<rparr>"
  define n2 where "n2 = sctp_enforce_cwnd_limit a (n1\<lparr>cwnd := ssthresh n1\<rparr>)"
  have m2: "unat (2 * mtu n) = 2 * unat (mtu n)" using assms(6) by (simp add: unat_word_ariths)
  have "fr_reduce x y z a n = Some n2" for x y z
    using no_pooling(1) [OF assms(1)]
    by (auto simp: fr_reduce_def n2_def n1_def Let_def umax_def not_less mult.commute [of _ "2 :: u32"] dest: leD)
  then have f: "?f a n = Some (True, enter_recovery a n2)" using assms(1,4) r by (simp add: fr_body_def)
  obtain a1 n3 where e: "enter_recovery a n2 = (a1, n3)" by fastforce
  then have a1: "sctp_cmt_on_off a1 = 0" "fast_retran_loss_recovery a1 \<noteq> 0" using assms(1) by (auto simp: enter_recovery_def cc_emit_def)
  have res: "sctp_cwnd_update_after_fr a = Some
      ((cc_emit (replicate (length (filter (\<lambda>n. net_ack n > 0) post)) Stat_fastretransinrtt) a1)\<lparr>nets := pre @ n3 # post\<rparr>)"
    by (simp add: sctp_cwnd_update_after_fr_def foreach_net_def assms(2) for_nets_append_skip [of pre ?f a, OF skip] f e fr_after_reduction [OF a1])
  have w: "unat (ssthresh n3) = max (unat (cwnd n) div 2) (2 * unat (mtu n))"
    "unat (cwnd n3) = limited (unat (max_cwnd a)) (unat (mtu n)) (unat (ssthresh n3))"
    using e assms(5) by (auto simp: enter_recovery_def n2_def n1_def enforce_limit(2) unat_umax m2 unat_div)
  have rest: "partial_bytes_acked n3 = 0" "net_fast_recovery_tsn n3 = recovery_end a" "fast_retran_loss_recovery a1 = 1"
    "fast_recovery_tsn a1 = recovery_end a" "cc_events a1 = cc_events a @ [Timer_stop (net_addr n), Timer_start (net_addr n)]"
    using e by (auto simp: enter_recovery_def cc_emit_def n2_def n1_def)
  show "\<exists>n' a'. sctp_cwnd_update_after_fr a = Some a' \<and> nets a' = pre @ n' # post \<and>
        unat (ssthresh n') = max (unat (cwnd n) div 2) (2 * unat (mtu n)) \<and>
        unat (cwnd n') = limited (unat (max_cwnd a)) (unat (mtu n)) (unat (ssthresh n')) \<and>
        partial_bytes_acked n' = 0 \<and> net_fast_recovery_tsn n' = recovery_end a \<and>
        fast_retran_loss_recovery a' = 1 \<and> fast_recovery_tsn a' = recovery_end a \<and>
        cc_events a' = cc_events a @ [Timer_stop (net_addr n), Timer_start (net_addr n)] @
          replicate (length (filter (\<lambda>m. net_ack m > 0) post)) Stat_fastretransinrtt"
    unfolding res by (intro exI [of _ n3]) (use w rest in \<open>simp add: cc_emit_def\<close>)
next
  assume "fast_retran_loss_recovery a \<noteq> 0"
  from fr_after_reduction [OF assms(1) this] show "map_option nets (sctp_cwnd_update_after_fr a) = Some (nets a)"
    by (simp add: sctp_cwnd_update_after_fr_def foreach_net_def cc_emit_def)
qed

section \<open>Examples\<close>

definition demo_rtcc :: rtcc_cc where
  "demo_rtcc = \<lparr>tls = (0, 0), lbw = 0, lbw_rtt = 0, bw_bytes = 0, bw_tot_time = 0, new_tot_time = 0,
     bw_bytes_at_last_rttc = 0, cwnd_at_bw_set = 0, vol_reduce = 0, steady_step = 0, step_cnt = 0, ret_from_eq = 0,
     use_dccc_ecn = 0, tls_needs_set = 0, last_step_state = 0, rtt_set_this_sack = 0, last_inst_ind = 0\<rparr>"

definition demo_htcp :: htcp where
  "demo_htcp = \<lparr>alpha = 128, beta = 64, modeswitch = 0, last_cong = 0, undo_last_cong = 0, bytes_acked = 0, bytecount = 0,
     minRTT = 0, maxRTT = 0, undo_maxRTT = 0, undo_old_maxB = 0, minB = 0, maxB = 0, old_maxB = 0, Bi = 0, lasttime = 0\<rparr>"

definition demo_net :: "nat \<Rightarrow> u32 \<Rightarrow> u32 \<Rightarrow> sctp_nets" where
  "demo_net i w acked = \<lparr>net_addr = i, mtu = 1500, ssthresh = 65536, lastsa = 800, rtt = 100000, RTO = 1000,
     htcp_ca = demo_htcp, rtcc = demo_rtcc, flight_size = w, cwnd = w, prev_cwnd = w, ecn_prev_cwnd = w,
     partial_bytes_acked = 0, net_ack = acked, net_fast_recovery_tsn = 0, net_fast_retran_loss_recovery = 0,
     fast_retran_ip = 0, new_pseudo_cumack = 0, last_hs_used = 0, lan_type = 0\<rparr>"

definition demo_cc_asoc :: "sctp_nets list \<Rightarrow> cc_asoc" where
  "demo_cc_asoc ns = \<lparr>nets = ns, send_queue = [], sending_seq = 100, sctp_cmt_on_off = 0, fast_retran_loss_recovery = 0,
     fast_recovery_tsn = 0, max_cwnd = 0, max_burst = 4, numnets = word_of_nat (length ns), peers_rwnd = 131072,
     seen_a_sack_this_pkt = 0, use_precise_time = 0, cc_events = []\<rparr>"

definition demo_sysctl :: cc_sysctl where
  "demo_sysctl = \<lparr>sctp_initial_cwnd = 3, sctp_L2_abc_variable = 2, sctp_rttvar_bw = 4, sctp_rttvar_rtt = 5,
     sctp_rttvar_eqret = 0, sctp_steady_step = 20, sctp_use_dccc_ecn = 1\<rparr>"

theorem after_sack_rfc4960_witness:
  "\<exists>n. sctp_cwnd_update_after_sack demo_sysctl (demo_cc_asoc [demo_net 0 4380 4380]) True False = Some (demo_cc_asoc [n]) \<and>
     window_of n = (7380, 65536, 0)"
proof -
  have "sctp_cmt_on_off (demo_cc_asoc [demo_net 0 4380 4380]) = 0" "\<forall>n\<in>set (nets (demo_cc_asoc [demo_net 0 4380 4380])). sums_fit demo_sysctl n"
    "fast_retran_loss_recovery (demo_cc_asoc [demo_net 0 4380 4380]) = 0"
    by (simp_all add: demo_cc_asoc_def demo_net_def sums_fit_def demo_sysctl_def word_le_nat_alt)
  from after_sack_rfc4960 [OF this(1,2), of False] this(3) obtain ns where
    ns: "sctp_cwnd_update_after_sack demo_sysctl (demo_cc_asoc [demo_net 0 4380 4380]) True False = Some (demo_cc_asoc [demo_net 0 4380 4380]\<lparr>nets := ns\<rparr>)"
    "list_all2 (\<lambda>n n'. n' = n\<lparr>cwnd := cwnd n', partial_bytes_acked := partial_bytes_acked n'\<rparr> \<and>
          window_of n' = rfc4960_sack (unat (sctp_L2_abc_variable demo_sysctl)) (unat (max_cwnd (demo_cc_asoc [demo_net 0 4380 4380]))) (unat (mtu n))
            (unat (flight_size n)) (unat (net_ack n)) (window_of n)) (nets (demo_cc_asoc [demo_net 0 4380 4380])) ns" by blast
  then obtain n where n: "ns = [n]" "window_of n = rfc4960_sack 2 0 1500 4380 4380 (4380, 65536, 0)"
    by (auto simp: demo_cc_asoc_def demo_net_def demo_sysctl_def list_all2_Cons1 window_of_def)
  with ns(1) show ?thesis by (auto simp: demo_cc_asoc_def rfc4960_sack_def limited_def)
qed

theorem after_fr_first_destination_witness:
  "\<exists>n' a'. sctp_cwnd_update_after_fr (demo_cc_asoc [demo_net 0 9000 0, demo_net 1 9000 1500, demo_net 2 9000 1500]) = Some a' \<and>
     nets a' = [demo_net 0 9000 0, n', demo_net 2 9000 1500] \<and> unat (ssthresh n') = 4500 \<and>
     cc_events a' = [Timer_stop 1, Timer_start 1, Stat_fastretransinrtt]"
proof -
  let ?a = "demo_cc_asoc [demo_net 0 9000 0, demo_net 1 9000 1500, demo_net 2 9000 1500]"
  have "sctp_cmt_on_off ?a = 0" "nets ?a = [demo_net 0 9000 0] @ demo_net 1 9000 1500 # [demo_net 2 9000 1500]"
    "\<forall>m\<in>set [demo_net 0 9000 0]. net_ack m = 0" "net_ack (demo_net 1 9000 1500) > 0" "12 \<le> mtu (demo_net 1 9000 1500)"
    "unat (mtu (demo_net 1 9000 1500)) < 2 ^ 31" "fast_retran_loss_recovery ?a = 0"
    by (simp_all add: demo_cc_asoc_def demo_net_def)
  from after_fr_first_destination [OF this(1-6)] this(7) show ?thesis
    by (auto simp: demo_cc_asoc_def demo_net_def)
qed

end
