(* ===== verification/Cc_Floor.thy ===== *)
theory Cc_Floor
  imports Cc_Correct
begin

text \<open>
  Every congestion control module keeps a window open: whatever happens to an association, the
  window of a destination is never smaller than the payload of one packet, so that the sender cannot
  come to a halt by its own rules. The locale \<open>window_module\<close> is what the association relies on in a
  module, whatever it is; it is interpreted on the entries of the table for each of the four modules.
\<close>

section \<open>Invariant\<close>

text \<open>
  The MTU is larger than the common header and at most half of the window at which HighSpeed TCP
  leaves its normal mode (19456 bytes, beyond any Ethernet packet), and the row remembered for HighSpeed TCP is one of its table.
\<close>

definition path_ok :: "sctp_nets \<Rightarrow> bool" where
  "path_ok n \<longleftrightarrow> 12 < unat (mtu n) \<and> unat (mtu n) \<le> 19456 \<and> unat (last_hs_used n) < SCTP_HS_TABLE_SIZE"

definition floor_ok :: "sctp_nets \<Rightarrow> bool" where
  "floor_ok n \<longleftrightarrow> path_ok n \<and> unat (mtu n) \<le> unat (cwnd n) + 12"

text \<open>What is in flight stays below 2 GB, and so do the windows before they change.\<close>

definition net_small :: "sctp_nets \<Rightarrow> bool" where
  "net_small n \<longleftrightarrow> unat (cwnd n) < 2 ^ 31 \<and> unat (flight_size n) + unat (net_ack n) < 2 ^ 31"

text \<open>No resource pooling and no coupling of windows; a burst limit of at most 65536 packets.\<close>

definition plain_asoc :: "cc_asoc \<Rightarrow> bool" where
  "plain_asoc a \<longleftrightarrow> sctp_cmt_on_off a \<le> 1 \<and> unat (max_burst a) \<le> 2 ^ 16"

definition cc_env_ok :: "cc_env \<Rightarrow> bool" where
  "cc_env_ok env \<longleftrightarrow> unat (sctp_initial_cwnd (cc_sys env)) \<le> 2 ^ 16 \<and> unat (sctp_L2_abc_variable (cc_sys env)) \<le> 2 ^ 15"

definition windows_ok :: "cc_asoc \<Rightarrow> bool" where
  "windows_ok a \<longleftrightarrow> plain_asoc a \<and> (\<forall>n\<in>set (nets a). floor_ok n)"

lemma plain_cmt:
  assumes "plain_asoc a"
  shows "\<not> resource_pooling a" "sctp_cmt_on_off a \<noteq> SCTP_CMT_RPV1" "sctp_cmt_on_off a \<noteq> SCTP_CMT_RPV2" "sctp_cmt_on_off a \<noteq> SCTP_CMT_MPTCP"
proof -
  have "sctp_cmt_on_off a \<noteq> 2" "sctp_cmt_on_off a \<noteq> 3" "sctp_cmt_on_off a \<noteq> 4"
    using assms by (auto simp: plain_asoc_def word_le_nat_alt)
  then show "\<not> resource_pooling a" "sctp_cmt_on_off a \<noteq> SCTP_CMT_RPV1" "sctp_cmt_on_off a \<noteq> SCTP_CMT_RPV2" "sctp_cmt_on_off a \<noteq> SCTP_CMT_MPTCP"
    by (auto simp: resource_pooling_def SCTP_CMT_RPV1_def SCTP_CMT_RPV2_def SCTP_CMT_MPTCP_def)
qed

lemma path_12: "path_ok n \<Longrightarrow> 12 \<le> mtu n"
  by (simp add: path_ok_def u32_le)

lemma floor_path: "floor_ok n \<Longrightarrow> path_ok n"
  by (simp add: floor_ok_def)

lemma path_ok_cong:
  "mtu n' = mtu n \<Longrightarrow> last_hs_used n' = last_hs_used n \<Longrightarrow> path_ok n' = path_ok n"
  by (simp add: path_ok_def)

lemma floor_ok_cong:
  "mtu n' = mtu n \<Longrightarrow> last_hs_used n' = last_hs_used n \<Longrightarrow> cwnd n' = cwnd n \<Longrightarrow> floor_ok n' = floor_ok n"
  by (simp add: floor_ok_def path_ok_def)

text \<open>The limit of the association keeps the floor.\<close>

lemma enforce_floor: "floor_ok n \<Longrightarrow> floor_ok (sctp_enforce_cwnd_limit a n)"
  using enforce_limit(2) [of n a, OF path_12 [OF floor_path]]
  by (auto simp: floor_ok_def path_ok_def limited_def)

text \<open>A window that is set to at least one packet, or grows without wrapping around.\<close>

lemma floor_set: "path_ok n \<Longrightarrow> unat (mtu n) \<le> unat w + 12 \<Longrightarrow> floor_ok (n\<lparr>cwnd := w\<rparr>)"
  by (simp add: floor_ok_def path_ok_def)

lemma floor_grow:
  "floor_ok n \<Longrightarrow> unat (cwnd n) < 3 * 2 ^ 30 \<Longrightarrow> unat i < 2 ^ 30 \<Longrightarrow> floor_ok (n\<lparr>cwnd := cwnd n + i\<rparr>)"
  using unat_add_small [of "cwnd n" i] by (simp add: floor_ok_def path_ok_def)

lemma enforce_le: "12 \<le> mtu n \<Longrightarrow> unat (cwnd (sctp_enforce_cwnd_limit a n)) \<le> unat (cwnd n)"
  using enforce_limit(2) [of n a] by (auto simp: limited_def)

lemma mtu_mult:
  assumes "path_ok n" "unat k \<le> 2 ^ 16"
  shows "unat (mtu n * k) = unat (mtu n) * unat k" "unat (k * mtu n) = unat (mtu n) * unat k" "unat (mtu n) * unat k < 2 ^ 31"
proof -
  have "unat (mtu n) * unat k \<le> 19456 * 2 ^ 16" using assms by (intro mult_le_mono) (auto simp: path_ok_def)
  then show b: "unat (mtu n) * unat k < 2 ^ 31" by simp
  then show "unat (mtu n * k) = unat (mtu n) * unat k" using unat_mult_small by simp
  then show "unat (k * mtu n) = unat (mtu n) * unat k" by (simp add: mult.commute)
qed

section \<open>Loops over the destinations\<close>

lemma for_nets_inv:
  assumes "\<And>a n g a' n'. Q a \<Longrightarrow> P n \<Longrightarrow> f a n = Some (g, a', n') \<Longrightarrow> Q a' \<and> R n'" "\<And>n. P n \<Longrightarrow> R n"
  shows "for_nets f ns a = Some (a', ns') \<Longrightarrow> Q a \<Longrightarrow> \<forall>n\<in>set ns. P n \<Longrightarrow> Q a' \<and> (\<forall>n\<in>set ns'. R n)"
proof (induction ns arbitrary: a a' ns')
  case (Cons n ns)
  from Cons.prems(1) obtain g a1 n1 where f: "f a n = Some (g, a1, n1)" by (auto split: bind_splits)
  from assms(1) [OF Cons.prems(2) _ f] Cons.prems(3) have 1: "Q a1" "R n1" by auto
  show ?case
  proof (cases g)
    case True
    with Cons.prems(1) f obtain ns1 where "for_nets f ns a1 = Some (a', ns1)" "ns' = n1 # ns1" by (auto split: bind_splits)
    with Cons.IH [of a1 a' ns1] 1 Cons.prems(3) show ?thesis by auto
  next
    case False
    with Cons.prems(1,3) f 1 assms(2) show ?thesis by auto
  qed
qed simp

lemma foreach_net_inv:
  assumes "\<And>a n g a' n'. plain_asoc a \<Longrightarrow> P n \<Longrightarrow> f a n = Some (g, a', n') \<Longrightarrow> plain_asoc a' \<and> floor_ok n'" "\<And>n. P n \<Longrightarrow> floor_ok n"
    and "foreach_net f a = Some a'" "plain_asoc a" "\<forall>n\<in>set (nets a). P n"
  shows "windows_ok a'"
proof -
  from assms(3) obtain a1 ns where 1: "for_nets f (nets a) a = Some (a1, ns)" "a' = a1\<lparr>nets := ns\<rparr>"
    by (auto simp: foreach_net_def split: bind_splits)
  from for_nets_inv [of plain_asoc P f floor_ok, OF assms(1,2) 1(1) assms(4,5)] 1(2) show ?thesis
    by (simp add: windows_ok_def plain_asoc_def)
qed

text \<open>A fast retransmit, for any reduction that keeps the floor.\<close>

lemma fr_inv:
  assumes "\<And>a n n'. plain_asoc a \<Longrightarrow> floor_ok n \<Longrightarrow> reduce a n = Some n' \<Longrightarrow> floor_ok n'"
    and "foreach_net (fr_body reduce) a = Some a'" "windows_ok a"
  shows "windows_ok a'"
proof (rule foreach_net_inv [where P = floor_ok, OF _ _ assms(2)])
  fix a n g a' n'
  assume a: "plain_asoc a" "floor_ok n" "fr_body reduce a n = Some (g, a', n')"
  from a(3) consider "a' = a" "n' = n" | "a' = cc_emit [Stat_fastretransinrtt] a" "n' = n"
    | r where "reduce a n = Some r" "(a', n') = enter_recovery a r"
    by (auto simp: fr_body_def split: if_splits bind_splits)
  then show "plain_asoc a' \<and> floor_ok n'"
  proof cases
    case 3
    from assms(1) [OF a(1,2) 3(1)] 3(2) a(1) show ?thesis
      by (auto simp: enter_recovery_def cc_emit_def plain_asoc_def floor_ok_def path_ok_def)
  qed (use a in \<open>auto simp: cc_emit_def plain_asoc_def\<close>)
qed (use assms(3) in \<open>auto simp: windows_ok_def\<close>)

section \<open>Standard module\<close>

lemma rfc_window_floor:
  assumes "path_ok n"
  shows "unat (mtu n) \<le> unat (umin (mtu n * 4) (umax (2 * mtu n) SCTP_INITIAL_CWND))"
proof -
  have "unat (mtu n * 4) = unat (mtu n) * 4" "unat (2 * mtu n) = unat (mtu n) * 2"
    using mtu_mult(1) [OF assms, of 4] mtu_mult(2) [OF assms, of 2] by simp_all
  then show ?thesis by (simp add: unat_umin unat_umax)
qed

lemma initial_window_floor:
  assumes "cc_env_ok env" "path_ok n"
  shows "unat (mtu n) \<le> unat (initial_window (cc_sys env) a n) + 12"
proof (cases "sctp_initial_cwnd (cc_sys env) = 0")
  case True
  with rfc_window_floor [OF assms(2)] show ?thesis by (simp add: initial_window_def)
next
  case False
  define k where "k = (if max_burst a > 0 \<and> sctp_initial_cwnd (cc_sys env) > max_burst a then max_burst a else sctp_initial_cwnd (cc_sys env))"
  have k: "0 < unat k" "unat k \<le> 2 ^ 16"
    using False assms(1) by (auto simp: k_def cc_env_ok_def u32_less unat_gt_0)
  let ?p = "unat (mtu n) - 12"
  have "?p * unat k \<le> 19456 * 2 ^ 16" using assms(2) k(2) by (intro mult_le_mono) (auto simp: path_ok_def)
  moreover have "unat (mtu_payload n) = ?p" using unat_mtu_payload [OF path_12 [OF assms(2)]] .
  ultimately have "unat (mtu_payload n * ucast k) = ?p * unat k"
    by (simp add: unat_word_ariths unat_ucast_u64)
  then have "unat (ucast (mtu_payload n * ucast k) :: u32) = ?p * unat k"
    using \<open>?p * unat k \<le> 19456 * 2 ^ 16\<close> by (simp add: unsigned_ucast_eq take_bit_nat_eq_self)
  moreover have "?p * 1 \<le> ?p * unat k" using k(1) by (intro mult_le_mono2) simp
  then have "unat (mtu n) \<le> ?p * unat k + 12" by linarith
  ultimately show ?thesis using False by (simp add: initial_window_def Let_def flip: k_def)
qed

lemma initial_floor:
  assumes "cc_env_ok env" "plain_asoc a" "path_ok n" "sctp_set_initial_cc_param (cc_sys env) a n = Some (a', n')"
  shows "a' = a \<and> floor_ok n'"
proof -
  have "floor_ok (sctp_enforce_cwnd_limit a (n\<lparr>cwnd := initial_window (cc_sys env) a n\<rparr>))"
    by (intro enforce_floor floor_set assms(3) initial_window_floor [OF assms(1,3)])
  then show ?thesis using assms(4) plain_cmt(1) [OF assms(2)]
    by (auto simp: sctp_set_initial_cc_param_def floor_ok_def path_ok_def)
qed

lemma grow_floor:
  assumes "cc_env_ok env" "plain_asoc a" "floor_ok n" "unat (cwnd n) < 3 * 2 ^ 30" "grow (cc_sys env) a t n = Some n'"
  shows "floor_ok n'"
proof -
  let ?L = "sctp_L2_abc_variable (cc_sys env)"
  note cmt = plain_cmt [OF assms(2)]
  have L: "unat ?L \<le> 2 ^ 16" using assms(1) by (simp add: cc_env_ok_def)
  have m: "unat (mtu n) < 2 ^ 30" using assms(3) by (simp add: floor_ok_def path_ok_def)
  have "unat (mtu n) * unat ?L \<le> 19456 * 2 ^ 15" using assms(1,3)
    by (intro mult_le_mono) (auto simp: floor_ok_def path_ok_def cc_env_ok_def)
  then have i: "unat (cap (mtu n * ?L) (net_ack n)) < 2 ^ 30"
    using mtu_mult(1) [OF floor_path [OF assms(3)] L] by (simp add: unat_cap)
  note w = assms(4)
  from cmt have "ss_incr (cc_sys env) a t n = Some (cap (mtu n * ?L) (net_ack n))" "\<And>x. ca_incr a t x = Some (mtu x)"
    by (simp_all add: ss_incr_def ca_incr_def Let_def)
  moreover have "floor_ok (sctp_enforce_cwnd_limit a (n\<lparr>cwnd := cwnd n + cap (mtu n * ?L) (net_ack n)\<rparr>))"
    by (intro enforce_floor floor_grow assms(3) w i)
  moreover have "floor_ok (sctp_enforce_cwnd_limit a (x\<lparr>cwnd := cwnd n + mtu n\<rparr>))" if "x = n\<lparr>partial_bytes_acked := p\<rparr>" for x p
    by (intro enforce_floor) (use floor_grow [OF assms(3) w m] that in \<open>simp add: floor_ok_def path_ok_def\<close>)
  moreover have "floor_ok (n\<lparr>partial_bytes_acked := p\<rparr>)" for p using assms(3) by (simp add: floor_ok_def path_ok_def)
  ultimately show ?thesis using assms(3,5) by (auto simp: grow_def Let_def split: if_splits)
qed

lemma reduce_floor:
  assumes "plain_asoc a" "floor_ok n" "fr_reduce x y z a n = Some n'"
  shows "floor_ok n'"
proof -
  note p = floor_path [OF assms(2)]
  have m2: "unat (2 * mtu n) = 2 * unat (mtu n)" using mtu_mult(2) [OF p, of 2] by simp
  have "fr_reduce x y z a n = Some (sctp_enforce_cwnd_limit a (n\<lparr>ssthresh := umax (cwnd n div 2) (2 * mtu n), cwnd := umax (cwnd n div 2) (2 * mtu n)\<rparr>))"
    using plain_cmt(1) [OF assms(1)]
    by (auto simp: fr_reduce_def Let_def umax_def not_less mult.commute [of _ "2 :: u32"] dest: leD)
  moreover have "floor_ok (n\<lparr>ssthresh := s, cwnd := umax (cwnd n div 2) (2 * mtu n)\<rparr>)" for s
    using p by (simp add: floor_ok_def path_ok_def unat_umax m2)
  ultimately show ?thesis using assms(3) enforce_floor by simp
qed

lemma timeout_floor:
  assumes "plain_asoc a" "floor_ok n" "sctp_cwnd_update_after_timeout a n = Some (a', n')"
  shows "a' = a \<and> floor_ok n'"
  using assms plain_cmt(1) [OF assms(1)] by (auto simp: sctp_cwnd_update_after_timeout_def floor_ok_def path_ok_def)

lemma ecn_floor:
  assumes "floor_ok n" "\<not> use_rtcc \<or> lan_type n \<noteq> SCTP_LAN_LOCAL \<or> use_dccc_ecn (rtcc n) = 0"
    and "sctp_cwnd_update_after_ecn_echo_common a n in_window lost use_rtcc = Some (a', n')"
  shows "floor_ok n' \<and> (\<exists>es. a' = cc_emit es a)"
proof -
  have "a = cc_emit [] a" by (simp add: cc_emit_def)
  then show ?thesis using assms
    by (auto simp: sctp_cwnd_update_after_ecn_echo_common_def floor_ok_def path_ok_def Let_def u32_less split: if_splits)
qed

lemma sack_common_inv:
  assumes "cc_env_ok env" "windows_ok a" "\<forall>n\<in>set (nets a). net_small n"
    and "sctp_cwnd_update_after_sack_common (cc_sys env) a moved will_exit use_rtcc = Some a'"
    and hold: "\<And>a n h n'. plain_asoc a \<Longrightarrow> floor_ok n \<Longrightarrow> net_small n \<Longrightarrow> use_rtcc \<Longrightarrow> rtcc_hold (cc_sys env) a n = (h, n') \<Longrightarrow>
      floor_ok n' \<and> unat (cwnd n') < 3 * 2 ^ 30"
  shows "windows_ok a'"
proof -
  from assms(4) obtain t where s: "foreach_net (sack_body (cc_sys env) t moved will_exit use_rtcc) a = Some a'"
    by (auto simp: sctp_cwnd_update_after_sack_common_def split: bind_splits)
  show ?thesis
  proof (rule foreach_net_inv [where P = "\<lambda>n. floor_ok n \<and> net_small n", OF _ _ s])
    fix a n g a' n'
    assume a: "plain_asoc a" "floor_ok n \<and> net_small n" "sack_body (cc_sys env) t moved will_exit use_rtcc a n = Some (g, a', n')"
    obtain h n1 where n1: "(if use_rtcc then rtcc_hold (cc_sys env) a n else (False, n)) = (h, n1)" by fastforce
    have ok: "floor_ok n1 \<and> unat (cwnd n1) < 3 * 2 ^ 30"
      using n1 a(2) hold [OF a(1), of n] by (cases use_rtcc) (auto simp: net_small_def)
    from a(3) n1 consider "a' = a" "n' = n" | "a' = a" "n' = n1" | "a' = a" "\<not> h" "grow (cc_sys env) a t n1 = Some n'"
      by (auto simp: sack_body_def split: if_splits bind_splits)
    then show "plain_asoc a' \<and> floor_ok n'"
      using a ok grow_floor [OF assms(1) a(1), of n1] by cases auto
  qed (use assms(2,3) in \<open>auto simp: windows_ok_def\<close>)
qed

section \<open>RTCC\<close>

lemma upd_rtcc_frame [simp]:
  "mtu (upd_rtcc f n) = mtu n" "cwnd (upd_rtcc f n) = cwnd n" "last_hs_used (upd_rtcc f n) = last_hs_used n"
  "flight_size (upd_rtcc f n) = flight_size n" "net_ack (upd_rtcc f n) = net_ack n" "rtcc (upd_rtcc f n) = f (rtcc n)"
  "floor_ok (upd_rtcc f n) = floor_ok n" "net_small (upd_rtcc f n) = net_small n" "path_ok (upd_rtcc f n) = path_ok n"
  by (simp_all add: upd_rtcc_def floor_ok_def path_ok_def net_small_def)

lemma count_step_frame [simp]:
  "floor_ok (count_step n) = floor_ok n" "mtu (count_step n) = mtu n" "cwnd (count_step n) = cwnd n" "net_small (count_step n) = net_small n"
  by (simp_all add: count_step_def)

lemma lock_in_frame [simp]: "floor_ok (lock_in b n) = floor_ok n" "net_small (lock_in b n) = net_small n"
  by (simp_all add: lock_in_def)

lemma step_down_ok:
  assumes "floor_ok n" "net_small n" "cwnd n > 4 * mtu n"
  shows "floor_ok (step_down n) \<and> net_small (step_down n)"
proof -
  have "unat (4 * mtu n) = unat (mtu n) * 4" using mtu_mult(2) [OF floor_path [OF assms(1)], of 4] by simp
  with assms(3) have "unat (mtu n) * 4 < unat (cwnd n)" by (simp add: u32_less)
  then have "unat (cwnd n - mtu n) = unat (cwnd n) - unat (mtu n)" by (simp add: unat_sub_le u32_le)
  with assms \<open>unat (mtu n) * 4 < unat (cwnd n)\<close> show ?thesis
    by (auto simp: step_down_def floor_ok_def path_ok_def net_small_def)
qed

lemma bw_same_ok:
  assumes "floor_ok n" "net_small n" "cc_bw_same n nbw off ind = (r, n')"
  shows "floor_ok n' \<and> net_small n'"
  using assms step_down_ok [of "count_step n"]
  by (auto simp: cc_bw_same_def Let_def split: if_splits)

text \<open>Taking back a reduction may bring the window to 2 GB, but not far beyond.\<close>

definition below_3gb :: "sctp_nets \<Rightarrow> bool" where
  "below_3gb n \<longleftrightarrow> floor_ok n \<and> unat (cwnd n) < 3 * 2 ^ 30"

lemma below_3gb_upd [simp]: "below_3gb (upd_rtcc f n) = below_3gb n" "below_3gb (lock_in b n) = below_3gb n"
  by (simp_all add: below_3gb_def lock_in_def)

lemma small_below: "floor_ok n \<Longrightarrow> net_small n \<Longrightarrow> below_3gb n"
  by (simp add: below_3gb_def net_small_def)

lemma take_back_below:
  assumes "floor_ok n" "net_small n"
  shows "below_3gb (take_back a state ind n)"
proof -
  have m: "unat (mtu n) < 2 ^ 30" "unat (cwnd n) < 2 ^ 31" "12 \<le> mtu n"
    using assms path_12 [OF floor_path] by (auto simp: floor_ok_def path_ok_def net_small_def)
  then have w: "unat (cwnd n + mtu n) = unat (cwnd n) + unat (mtu n)" using unat_add_small by simp
  have "floor_ok (sctp_enforce_cwnd_limit a (n\<lparr>cwnd := cwnd n + mtu n\<rparr>))"
    using m assms(1) by (intro enforce_floor floor_grow) auto
  moreover have "unat (cwnd (sctp_enforce_cwnd_limit a (n\<lparr>cwnd := cwnd n + mtu n\<rparr>))) < 3 * 2 ^ 30"
    using enforce_le [of "n\<lparr>cwnd := cwnd n + mtu n\<rparr>" a] w m by simp
  ultimately show ?thesis using small_below [OF assms] by (simp add: take_back_def Let_def below_3gb_def)
qed

lemma bw_decrease_ok:
  assumes "floor_ok n" "net_small n" "cc_bw_decrease a n nbw off ind = (r, n')"
  shows "below_3gb n'"
proof -
  have "below_3gb (n\<lparr>ssthresh := t, partial_bytes_acked := p\<rparr>)" for t p
    using small_below [OF assms(1,2)] by (simp add: below_3gb_def floor_ok_def path_ok_def)
  with assms(3) small_below [OF assms(1,2)] take_back_below [OF assms(1,2)] show ?thesis
    by (auto simp: cc_bw_decrease_def Let_def split: if_splits)
qed

lemma bw_limit_ok:
  assumes "floor_ok n" "net_small n" "cc_bw_limit sys a n nbw = (r, n')"
  shows "below_3gb n'"
proof -
  obtain ind n1 where i: "instant_indication sys n nbw = (ind, n1)" by fastforce
  then have 1: "floor_ok n1" "net_small n1"
    using assms(1,2) by (auto simp: instant_indication_def Let_def split: if_splits)
  have inc: "cc_bw_increase n1 nbw = (x, y) \<Longrightarrow> below_3gb y" for x y
    using small_below [OF 1] by (auto simp: cc_bw_increase_def Let_def split: if_splits)
  have same: "cc_bw_same n1 nbw off ind = (x, y) \<Longrightarrow> below_3gb y" for off x y
    using bw_same_ok [OF 1] small_below by blast
  from assms(3) i inc same bw_decrease_ok [OF 1] show ?thesis
    by (auto simp: cc_bw_limit_def Let_def split: prod.splits if_splits)
qed

lemma rtcc_hold_ok:
  assumes "floor_ok n" "net_small n" "rtcc_hold sys a n = (h, n')"
  shows "floor_ok n' \<and> unat (cwnd n') < 3 * 2 ^ 30"
proof -
  have "below_3gb n'" using assms(3) bw_limit_ok [OF assms(1,2)] small_below [OF assms(1,2)]
    by (auto simp: rtcc_hold_def Let_def split: prod.splits if_splits)
  then show ?thesis by (simp add: below_3gb_def)
qed

lemma initial_window_upd [simp]: "initial_window sys a (upd_rtcc f n) = initial_window sys a n"
  by (simp add: initial_window_def mtu_payload_def Let_def)

lemma floor_cwnd: "floor_ok (n\<lparr>cwnd := w\<rparr>) \<longleftrightarrow> path_ok n \<and> unat (mtu n) \<le> unat w + 12"
  by (simp add: floor_ok_def path_ok_def)

lemma begins_floor:
  assumes "cc_env_ok env" "floor_ok n"
  shows "floor_ok (sctp_cwnd_new_rtcc_transmission_begins (cc_sys env) a n)"
  using assms(2) initial_window_floor [OF assms(1) floor_path [OF assms(2)]] floor_path [OF assms(2)]
  by (auto simp: sctp_cwnd_new_rtcc_transmission_begins_def Let_def floor_cwnd)

section \<open>HighSpeed TCP\<close>

lemma hs_rows: "i < SCTP_HS_TABLE_SIZE \<Longrightarrow> hs_increase i \<le> 73 \<and> hs_drop_percent i \<le> 50"
proof -
  have "list_all (\<lambda>(c, i, d). i \<le> 73 \<and> d \<le> 50) sctp_cwnd_adjust" "length sctp_cwnd_adjust = 73"
    by (simp_all add: sctp_cwnd_adjust_def)
  then show "i < SCTP_HS_TABLE_SIZE \<Longrightarrow> hs_increase i \<le> 73 \<and> hs_drop_percent i \<le> 50"
    by (auto simp: list_all_length SCTP_HS_TABLE_SIZE_def split: prod.splits) (metis prod.collapse)+
qed

lemma hs_row_0: "hs_cwnd 0 = 38"
  by (simp add: sctp_cwnd_adjust_def)

lemma hs_search_bound: "hs_search v i < SCTP_HS_TABLE_SIZE"
  by (induction v i rule: hs_search.induct) (subst hs_search.simps, simp add: SCTP_HS_TABLE_SIZE_def)

lemma hs_increase_floor:
  assumes "floor_ok n" "unat (cwnd n) < 2 ^ 31"
  shows "floor_ok (sctp_hs_cwnd_increase a n)"
proof -
  define i where "i = hs_search (unat (drop_bit 10 (cwnd n))) (unat (last_hs_used n))"
  have i: "i < SCTP_HS_TABLE_SIZE" by (simp add: i_def hs_search_bound)
  then have "hs_increase i \<le> 73" using hs_rows by blast
  then have inc: "unat (push_bit 10 (word_of_nat (hs_increase i)) :: u32) < 2 ^ 30"
    by (simp add: push_bit_eq_mult unat_word_ariths unat_of_nat take_bit_nat_def)
  have idx: "unat (word_of_nat i :: u8) < SCTP_HS_TABLE_SIZE" using i by (simp add: unat_of_nat SCTP_HS_TABLE_SIZE_def)
  have m: "unat (mtu n) < 2 ^ 30" using assms(1) by (simp add: floor_ok_def path_ok_def)
  have g: "floor_ok (n\<lparr>cwnd := cwnd n + d\<rparr>)" if "unat d < 2 ^ 30" for d
    using floor_grow [OF assms(1) _ that] assms(2) by simp
  have hs: "floor_ok (n\<lparr>last_hs_used := word_of_nat i, cwnd := cwnd n + push_bit 10 (word_of_nat (hs_increase i))\<rparr>)"
    using g [OF inc] idx by (simp add: floor_ok_def path_ok_def)
  have "unat (net_ack n) < 2 ^ 30" if "\<not> net_ack n > mtu n" using that m by (simp add: u32_less)
  with g m hs show ?thesis
    by (auto simp: sctp_hs_cwnd_increase_def Let_def hs_row_0 simp flip: i_def intro!: enforce_floor)
qed

lemma hs_decrease_floor:
  assumes "floor_ok n" "sctp_hs_cwnd_decrease a n = Some n'"
  shows "floor_ok n'"
proof (cases "unat (drop_bit 10 (cwnd n)) < 38")
  case True
  have m2: "unat (2 * mtu n) = 2 * unat (mtu n)" using mtu_mult(2) [OF floor_path [OF assms(1)], of 2] by simp
  have "sctp_hs_cwnd_decrease a n = Some (sctp_enforce_cwnd_limit a (n\<lparr>ssthresh := umax (cwnd n div 2) (2 * mtu n), cwnd := umax (cwnd n div 2) (2 * mtu n)\<rparr>))"
    using True by (auto simp: sctp_hs_cwnd_decrease_def hs_row_0 Let_def umax_def not_less mult.commute [of _ "2 :: u32"] dest: leD)
  moreover have "floor_ok (n\<lparr>ssthresh := s, cwnd := umax (cwnd n div 2) (2 * mtu n)\<rparr>)" for s
    using assms(1) by (simp add: floor_ok_def path_ok_def unat_umax m2)
  ultimately show ?thesis using assms(2) enforce_floor by simp
next
  case False
  let ?i = "unat (last_hs_used n)" and ?w = "unat (cwnd n)"
  have i: "?i < SCTP_HS_TABLE_SIZE" using assms(1) by (simp add: floor_ok_def path_ok_def)
  have big: "38912 \<le> ?w" using False by (simp add: drop_bit_eq_div unat_div)
  have pct: "hs_drop_percent ?i \<le> 50" using hs_rows [OF i] by simp
  then have "?w div 100 * hs_drop_percent ?i \<le> ?w div 100 * 50" by (intro mult_le_mono2)
  moreover have "?w div 100 * 50 \<le> ?w div 2" by linarith
  ultimately have d: "?w div 100 * hs_drop_percent ?i \<le> ?w div 2" by linarith
  have "unat (cwnd n div 100 * word_of_nat (hs_drop_percent ?i)) = ?w div 100 * hs_drop_percent ?i"
    using d pct unat_u32_bound [of "cwnd n"] by (simp add: unat_word_ariths unat_div unat_of_nat)
  then have "unat (cwnd n - cwnd n div 100 * word_of_nat (hs_drop_percent ?i)) = ?w - ?w div 100 * hs_drop_percent ?i"
    using d by (simp add: unat_sub_le u32_le)
  then have w: "19456 \<le> unat (cwnd n - cwnd n div 100 * word_of_nat (hs_drop_percent ?i))" using d big by linarith
  let ?n = "n\<lparr>ssthresh := cwnd n - cwnd n div 100 * word_of_nat (hs_drop_percent ?i),
    cwnd := cwnd n - cwnd n div 100 * word_of_nat (hs_drop_percent ?i)\<rparr>"
  have "floor_ok ?n" "floor_ok (?n\<lparr>last_hs_used := 0\<rparr>)" "floor_ok (?n\<lparr>last_hs_used := last_hs_used n\<rparr>)"
    using assms(1) w by (simp_all add: floor_ok_def path_ok_def SCTP_HS_TABLE_SIZE_def)
  with assms(2) False i enforce_floor show ?thesis
    by (auto simp: sctp_hs_cwnd_decrease_def hs_row_0 Let_def split: if_splits)
qed

lemma hs_sack_inv:
  assumes "\<And>a n n'. plain_asoc a \<Longrightarrow> floor_ok n \<Longrightarrow> net_small n \<Longrightarrow> update a n = Some n' \<Longrightarrow> floor_ok n'"
    and "foreach_net (hs_sack_body update moved will_exit) a = Some a'" "windows_ok a" "\<forall>n\<in>set (nets a). net_small n"
  shows "windows_ok a'"
proof (rule foreach_net_inv [where P = "\<lambda>n. floor_ok n \<and> net_small n", OF _ _ assms(2)])
  fix a n g a' n'
  assume "plain_asoc a" "floor_ok n \<and> net_small n" "hs_sack_body update moved will_exit a n = Some (g, a', n')"
  with assms(1) [of a n] show "plain_asoc a' \<and> floor_ok n'"
    by (auto simp: hs_sack_body_def split: if_splits bind_splits)
qed (use assms(3,4) in \<open>auto simp: windows_ok_def\<close>)

lemma hs_grow_floor:
  assumes "floor_ok n" "net_small n" "hs_grow a n = Some n'"
  shows "floor_ok n'"
proof -
  have m: "unat (mtu n) < 2 ^ 30" using assms(1) by (simp add: floor_ok_def path_ok_def)
  have w: "unat (cwnd n) < 2 ^ 31" using assms(2) by (simp add: net_small_def)
  have p: "floor_ok (n\<lparr>partial_bytes_acked := b\<rparr>)" for b using assms(1) by (simp add: floor_ok_def path_ok_def)
  have "floor_ok (sctp_enforce_cwnd_limit a (n\<lparr>partial_bytes_acked := b, cwnd := cwnd n + mtu n\<rparr>))" for b
    using floor_grow [OF p, of b "mtu n"] m w by (intro enforce_floor) simp
  with p hs_increase_floor [OF assms(1) w] assms(1,3) show ?thesis
    by (auto simp: hs_grow_def Let_def split: if_splits)
qed

section \<open>H-TCP\<close>

lemma floor_frame [simp]:
  "floor_ok (n\<lparr>htcp_ca := c\<rparr>) = floor_ok n" "floor_ok (n\<lparr>partial_bytes_acked := p\<rparr>) = floor_ok n"
  "floor_ok (n\<lparr>ssthresh := t\<rparr>) = floor_ok n" "floor_ok (n\<lparr>RTO := r\<rparr>) = floor_ok n"
  "path_ok (n\<lparr>htcp_ca := c\<rparr>) = path_ok n" "path_ok (n\<lparr>ssthresh := t\<rparr>) = path_ok n" "path_ok (n\<lparr>RTO := r\<rparr>) = path_ok n"
  "path_ok (n\<lparr>cwnd := w\<rparr>) = path_ok n" "path_ok (n\<lparr>partial_bytes_acked := p\<rparr>) = path_ok n"
  by (simp_all add: floor_ok_def path_ok_def)

lemma upd_htcp_frame [simp]:
  "mtu (upd_htcp f n) = mtu n" "cwnd (upd_htcp f n) = cwnd n" "floor_ok (upd_htcp f n) = floor_ok n" "path_ok (upd_htcp f n) = path_ok n"
  by (simp_all add: upd_htcp_def)







section \<open>Packet drops and bursts\<close>

lemma dropped_path: "path_ok n \<Longrightarrow> dropped_excess a n q b = Some n' \<Longrightarrow> path_ok n'" "path_ok n \<Longrightarrow> path_ok (dropped_room a n q b)"
  by (auto simp: dropped_excess_def dropped_room_def Let_def split: bind_splits if_splits)

lemma dropped_floor:
  assumes "floor_ok n" "sctp_cwnd_update_after_packet_dropped a n bw onq = Some (a', n', x, y)"
  shows "a' = a \<and> floor_ok n'"
proof -
  define q where "q = (if onq < flight_size n then flight_size n else onq)"
  define b where "b = (let w = ucast (ucast bw * rtt n div 1000000) in if w > bw then bw else w)"
  let ?first = "if q > b then dropped_excess a n q b else Some (dropped_room a n q b)"
  from assms(2) obtain m where f: "?first = Some m" and m: "a' = a"
    "n' = sctp_enforce_cwnd_limit a (let m = (if cwnd m > b then m\<lparr>cwnd := b\<rparr> else m) in if cwnd m < mtu m then m\<lparr>cwnd := mtu m\<rparr> else m)"
    unfolding sctp_cwnd_update_after_packet_dropped_def Let_def q_def [symmetric] b_def [unfolded Let_def, symmetric]
    by (cases ?first) auto
  from f have p: "path_ok m" using dropped_path [OF floor_path [OF assms(1)]] by (auto split: if_splits)
  from p have "floor_ok (let m = (if cwnd m > b then m\<lparr>cwnd := b\<rparr> else m) in if cwnd m < mtu m then m\<lparr>cwnd := mtu m\<rparr> else m)"
    by (auto simp: Let_def floor_cwnd u32_less not_less floor_ok_def)
  with m enforce_floor show ?thesis by simp
qed

lemma output_floor:
  assumes "plain_asoc a" "floor_ok n" "net_small n" "unat burst \<le> 2 ^ 16" "sctp_cwnd_update_after_output a n burst = Some (a', n')"
  shows "a' = a \<and> floor_ok n'"
proof -
  note b = mtu_mult(2,3) [OF floor_path [OF assms(2)] assms(4)]
  have f: "unat (flight_size n) < 2 ^ 31" using assms(3) by (simp add: net_small_def)
  then have w: "unat (flight_size n + burst * mtu n) = unat (flight_size n) + unat (mtu n) * unat burst"
    using unat_add_small [of "flight_size n" "burst * mtu n"] b by simp
  have "unat (mtu n) * 1 \<le> unat (mtu n) * unat burst" if "burst \<noteq> 0"
    using that by (intro mult_le_mono2) (simp add: unat_gt_0 Suc_leI)
  then have ge: "unat (mtu n) \<le> unat (flight_size n + burst * mtu n)" if "burst \<noteq> 0"
    using that unfolding w by linarith
  have "floor_ok (sctp_enforce_cwnd_limit a (m\<lparr>cwnd := flight_size n + burst * mtu n\<rparr>))"
    if "burst \<noteq> 0" "path_ok m" "mtu m = mtu n" for m
    using ge [OF that(1)] that(2,3) by (intro enforce_floor) (simp add: floor_cwnd)
  with assms(2,5) floor_path [OF assms(2)] show ?thesis
    by (auto simp: sctp_cwnd_update_after_output_def Let_def split: if_splits)
qed

section \<open>Modules\<close>

text \<open>
  What an association relies on in a congestion control module: the operations of the table that
  every module has, and that each keeps the windows open.
\<close>

locale window_module =
  fixes initial :: "cc_env \<Rightarrow> cc_asoc \<Rightarrow> sctp_nets \<Rightarrow> (cc_asoc \<times> sctp_nets) option"
    and after_sack :: "cc_env \<Rightarrow> cc_asoc \<Rightarrow> bool \<Rightarrow> bool \<Rightarrow> cc_asoc option"
    and after_fr :: "cc_env \<Rightarrow> cc_asoc \<Rightarrow> cc_asoc option"
    and after_timeout :: "cc_env \<Rightarrow> cc_asoc \<Rightarrow> sctp_nets \<Rightarrow> (cc_asoc \<times> sctp_nets) option"
    and after_ecn_echo :: "cc_env \<Rightarrow> cc_asoc \<Rightarrow> sctp_nets \<Rightarrow> bool \<Rightarrow> u32 \<Rightarrow> (cc_asoc \<times> sctp_nets) option"
    and begins :: "cc_env \<Rightarrow> cc_asoc \<Rightarrow> sctp_nets \<Rightarrow> sctp_nets"
  assumes initial_ok: "cc_env_ok env \<Longrightarrow> plain_asoc a \<Longrightarrow> path_ok n \<Longrightarrow> initial env a n = Some (a', n') \<Longrightarrow>
      plain_asoc a' \<and> nets a' = nets a \<and> floor_ok n'"
    and sack_ok: "cc_env_ok env \<Longrightarrow> windows_ok a \<Longrightarrow> \<forall>n\<in>set (nets a). net_small n \<Longrightarrow> after_sack env a moved will_exit = Some a' \<Longrightarrow> windows_ok a'"
    and fr_ok: "cc_env_ok env \<Longrightarrow> windows_ok a \<Longrightarrow> after_fr env a = Some a' \<Longrightarrow> windows_ok a'"
    and timeout_ok: "plain_asoc a \<Longrightarrow> floor_ok n \<Longrightarrow> after_timeout env a n = Some (a', n') \<Longrightarrow>
      plain_asoc a' \<and> nets a' = nets a \<and> floor_ok n'"
    and ecn_ok: "plain_asoc a \<Longrightarrow> floor_ok n \<Longrightarrow> lan_type n \<noteq> SCTP_LAN_LOCAL \<or> use_dccc_ecn (rtcc n) = 0 \<Longrightarrow>
      after_ecn_echo env a n in_window lost = Some (a', n') \<Longrightarrow> plain_asoc a' \<and> nets a' = nets a \<and> floor_ok n'"
    and begins_ok: "cc_env_ok env \<Longrightarrow> floor_ok n \<Longrightarrow> floor_ok (begins env a n)"

text \<open>Events that come to an association, for a given module. \<open>quiet\<close> is everything else that changes the state: sending, acknowledging, measuring.\<close>

inductive window_event for initial after_sack after_fr after_timeout after_ecn_echo begins where
  sack: "cc_env_ok env \<Longrightarrow> \<forall>n\<in>set (nets a). net_small n \<Longrightarrow> after_sack env a moved will_exit = Some a' \<Longrightarrow>
    window_event initial after_sack after_fr after_timeout after_ecn_echo begins a a'"
| fast_retransmit: "cc_env_ok env \<Longrightarrow> after_fr env a = Some a' \<Longrightarrow> window_event initial after_sack after_fr after_timeout after_ecn_echo begins a a'"
| timeout: "i < length (nets a) \<Longrightarrow> after_timeout env a (nets a ! i) = Some (a', n) \<Longrightarrow>
    window_event initial after_sack after_fr after_timeout after_ecn_echo begins a (a'\<lparr>nets := (nets a)[i := n]\<rparr>)"
| ecn_echo: "i < length (nets a) \<Longrightarrow> lan_type (nets a ! i) \<noteq> SCTP_LAN_LOCAL \<or> use_dccc_ecn (rtcc (nets a ! i)) = 0 \<Longrightarrow>
    after_ecn_echo env a (nets a ! i) in_window lost = Some (a', n) \<Longrightarrow>
    window_event initial after_sack after_fr after_timeout after_ecn_echo begins a (a'\<lparr>nets := (nets a)[i := n]\<rparr>)"
| exit_pf: "i < length (nets a) \<Longrightarrow> sctp_cwnd_update_exit_pf_common a (nets a ! i) = Some (a', n) \<Longrightarrow>
    window_event initial after_sack after_fr after_timeout after_ecn_echo begins a (a'\<lparr>nets := (nets a)[i := n]\<rparr>)"
| packet_dropped: "i < length (nets a) \<Longrightarrow> sctp_cwnd_update_after_packet_dropped a (nets a ! i) bw onq = Some (a', n, x, y) \<Longrightarrow>
    window_event initial after_sack after_fr after_timeout after_ecn_echo begins a (a'\<lparr>nets := (nets a)[i := n]\<rparr>)"
| burst_output: "i < length (nets a) \<Longrightarrow> net_small (nets a ! i) \<Longrightarrow> sctp_cwnd_update_after_output a (nets a ! i) (max_burst a) = Some (a', n) \<Longrightarrow>
    window_event initial after_sack after_fr after_timeout after_ecn_echo begins a (a'\<lparr>nets := (nets a)[i := n]\<rparr>)"
| transmission_begins: "i < length (nets a) \<Longrightarrow> cc_env_ok env \<Longrightarrow>
    window_event initial after_sack after_fr after_timeout after_ecn_echo begins a (a\<lparr>nets := (nets a)[i := begins env a (nets a ! i)]\<rparr>)"
| new_destination: "cc_env_ok env \<Longrightarrow> path_ok n0 \<Longrightarrow> initial env a n0 = Some (a', n) \<Longrightarrow>
    window_event initial after_sack after_fr after_timeout after_ecn_echo begins a (a'\<lparr>nets := nets a @ [n]\<rparr>)"
| quiet: "plain_asoc a' \<Longrightarrow> list_all2 (\<lambda>n n'. mtu n' = mtu n \<and> cwnd n' = cwnd n \<and> last_hs_used n' = last_hs_used n) (nets a) (nets a') \<Longrightarrow>
    window_event initial after_sack after_fr after_timeout after_ecn_echo begins a a'"

lemma windows_update:
  "windows_ok a \<Longrightarrow> plain_asoc a' \<Longrightarrow> floor_ok n \<Longrightarrow> windows_ok (a'\<lparr>nets := (nets a)[i := n]\<rparr>)"
  using set_update_subset_insert [of "nets a" i n] by (auto simp: windows_ok_def plain_asoc_def)

lemma windows_nth: "windows_ok a \<Longrightarrow> i < length (nets a) \<Longrightarrow> floor_ok (nets a ! i) \<and> plain_asoc a"
  by (simp add: windows_ok_def)

lemma windows_quiet:
  assumes "windows_ok a" "plain_asoc a'"
    and "list_all2 (\<lambda>n n'. mtu n' = mtu n \<and> cwnd n' = cwnd n \<and> last_hs_used n' = last_hs_used n) (nets a) (nets a')"
  shows "windows_ok a'"
proof -
  have "floor_ok n" if "n \<in> set (nets a')" for n
  proof -
    from that obtain i where i: "i < length (nets a')" "n = nets a' ! i" by (auto simp: in_set_conv_nth)
    with assms(3) have "i < length (nets a)" "mtu n = mtu (nets a ! i)" "cwnd n = cwnd (nets a ! i)" "last_hs_used n = last_hs_used (nets a ! i)"
      by (auto simp: list_all2_conv_all_nth)
    with windows_nth [OF assms(1)] floor_ok_cong show ?thesis by blast
  qed
  with assms(2) show ?thesis by (simp add: windows_ok_def)
qed

context window_module
begin

lemma event_ok: "window_event initial after_sack after_fr after_timeout after_ecn_echo begins a a' \<Longrightarrow> windows_ok a \<Longrightarrow> windows_ok a'"
proof (induction rule: window_event.induct)
  case (sack env a moved will_exit a')
  then show ?case using sack_ok by blast
next
  case (fast_retransmit env a a')
  then show ?case using fr_ok by blast
next
  case (timeout i a env a' n)
  with timeout_ok windows_nth windows_update show ?case by metis
next
  case (ecn_echo i a env in_window lost a' n)
  with ecn_ok windows_nth windows_update show ?case by metis
next
  case (exit_pf i a a' n)
  with windows_nth [of a i] have "a' = a" "floor_ok n"
    by (auto simp: sctp_cwnd_update_exit_pf_common_def floor_cwnd floor_path)
  with exit_pf windows_nth windows_update show ?case by metis
next
  case (packet_dropped i a bw onq a' n x y)
  with dropped_floor windows_nth windows_update show ?case by metis
next
  case (burst_output i a a' n)
  then have "unat (max_burst a) \<le> 2 ^ 16" by (simp add: windows_ok_def plain_asoc_def)
  with burst_output output_floor windows_nth windows_update show ?case by metis
next
  case (transmission_begins i a env)
  with begins_ok windows_nth windows_update show ?case by metis
next
  case (new_destination env n0 a a' n)
  with initial_ok [of env a n0 a' n] show ?case by (auto simp: windows_ok_def plain_asoc_def)
next
  case (quiet a' a)
  then show ?case using windows_quiet by blast
qed

end

lemma plain_emit [simp]: "plain_asoc (cc_emit es a) = plain_asoc a" "nets (cc_emit es a) = nets a"
  by (simp_all add: cc_emit_def plain_asoc_def)

text \<open>The entries of the table for each module.\<close>

lemmas cc_table = cc_set_initial_def cc_after_sack_def cc_after_fr_def cc_after_timeout_def cc_after_ecn_echo_def cc_new_transmission_begins_def

lemma ecn_standard:
  "plain_asoc a \<Longrightarrow> floor_ok n \<Longrightarrow> lan_type n \<noteq> SCTP_LAN_LOCAL \<or> use_dccc_ecn (rtcc n) = 0 \<Longrightarrow>
    sctp_cwnd_update_after_ecn_echo_common a n in_window lost use_rtcc = Some (a', n') \<Longrightarrow>
    plain_asoc a' \<and> nets a' = nets a \<and> floor_ok n'"
  using ecn_floor [of n use_rtcc a in_window lost a' n'] by auto


interpretation hs: window_module "\<lambda>env. cc_set_initial env SCTP_CC_HSTCP" "\<lambda>env. cc_after_sack env SCTP_CC_HSTCP"
    "\<lambda>env. cc_after_fr env SCTP_CC_HSTCP" "\<lambda>env. cc_after_timeout env SCTP_CC_HSTCP"
    "\<lambda>env. cc_after_ecn_echo env SCTP_CC_HSTCP" "\<lambda>env. cc_new_transmission_begins env SCTP_CC_HSTCP"
proof
  show "windows_ok a'" if "cc_env_ok env" "windows_ok a" "\<forall>n\<in>set (nets a). net_small n"
    "cc_after_sack env SCTP_CC_HSTCP a moved will_exit = Some a'" for env a moved will_exit a'
    by (rule hs_sack_inv [OF hs_grow_floor _ that(2,3)]) (use that(4) in \<open>auto simp: cc_table sctp_hs_cwnd_update_after_sack_def\<close>)
  show "windows_ok a'" if "cc_env_ok env" "windows_ok a" "cc_after_fr env SCTP_CC_HSTCP a = Some a'" for env a a'
    by (rule fr_inv [OF hs_decrease_floor _ that(2)]) (use that(3) in \<open>auto simp: cc_table sctp_hs_cwnd_update_after_fr_def\<close>)
qed (auto simp: cc_table sctp_cwnd_update_after_ecn_echo_def dest: initial_floor timeout_floor ecn_standard)



interpretation rtcc: window_module "\<lambda>env. cc_set_initial env SCTP_CC_RTCC" "\<lambda>env. cc_after_sack env SCTP_CC_RTCC"
    "\<lambda>env. cc_after_fr env SCTP_CC_RTCC" "\<lambda>env. cc_after_timeout env SCTP_CC_RTCC"
    "\<lambda>env. cc_after_ecn_echo env SCTP_CC_RTCC" "\<lambda>env. cc_new_transmission_begins env SCTP_CC_RTCC"
proof
  show "plain_asoc a' \<and> nets a' = nets a \<and> floor_ok n'"
    if i: "cc_env_ok env" "plain_asoc a" "path_ok n" "cc_set_initial env SCTP_CC_RTCC a n = Some (a', n')" for env a n a' n'
  proof -
    from i(4) obtain a1 n1 f where s: "sctp_set_initial_cc_param (cc_sys env) a n = Some (a1, n1)"
      "a' = a1\<lparr>use_precise_time := 1\<rparr>" "n' = upd_rtcc f n1"
      by (auto simp: cc_table sctp_set_rtcc_initial_cc_param_def split: bind_splits)
    with initial_floor [OF i(1-3) s(1)] i(2) show ?thesis by (simp add: plain_asoc_def)
  qed
  show "windows_ok a'" if "cc_env_ok env" "windows_ok a" "\<forall>n\<in>set (nets a). net_small n"
    "cc_after_sack env SCTP_CC_RTCC a moved will_exit = Some a'" for env a moved will_exit a'
    by (rule sack_common_inv [OF that(1-3)]) (use that(4) rtcc_hold_ok in \<open>auto simp: cc_table sctp_cwnd_update_rtcc_after_sack_def\<close>)
  show "windows_ok a'" if "cc_env_ok env" "windows_ok a" "cc_after_fr env SCTP_CC_RTCC a = Some a'" for env a a'
    by (rule fr_inv [OF reduce_floor _ that(2)]) (use that(3) in \<open>auto simp: cc_table sctp_cwnd_update_after_fr_def\<close>)
qed (auto simp: cc_table sctp_cwnd_update_rtcc_after_ecn_echo_def begins_floor dest: timeout_floor ecn_standard)

section \<open>An association whose module may be changed\<close>












end
