(* ===== verification/Cc_Limits.thy ===== *)
theory Cc_Limits
  imports Cc_Floor
begin

text \<open>
  Where the congestion control modules stop working: the inputs on which they divide by zero, the
  window that wraps around, the row of the HighSpeed TCP table that is not lowered; and the ranges and
  decisions that hold otherwise.
\<close>

section \<open>Packet drop reports\<close>

text \<open>What the routine takes for the queue and for the size of the pipe.\<close>

definition dropped_queue :: "sctp_nets \<Rightarrow> u32 \<Rightarrow> u32" where
  "dropped_queue n onq = (if onq < flight_size n then flight_size n else onq)"

definition pipe_size :: "sctp_nets \<Rightarrow> u32 \<Rightarrow> u32" where
  "pipe_size n bw = (let w = ucast (ucast bw * rtt n div 1000000) in if w > bw then bw else w)"

lemma dropped_unfold:
  "sctp_cwnd_update_after_packet_dropped a n bw onq =
     do { m \<leftarrow> (if dropped_queue n onq > pipe_size n bw then dropped_excess a n (dropped_queue n onq) (pipe_size n bw)
               else Some (dropped_room a n (dropped_queue n onq) (pipe_size n bw)));
          let m = (if cwnd m > pipe_size n bw then m\<lparr>cwnd := pipe_size n bw\<rparr> else m);
          let m = (if cwnd m < mtu m then m\<lparr>cwnd := mtu m\<rparr> else m);
          Some (a, sctp_enforce_cwnd_limit a m, bw, dropped_queue n onq) }"
  unfolding sctp_cwnd_update_after_packet_dropped_def dropped_queue_def pipe_size_def Let_def by (rule refl)

lemma udiv_zero: "udiv a (b :: u32) = None \<longleftrightarrow> b = 0" "udiv a b = Some q \<longleftrightarrow> b \<noteq> 0 \<and> q = a div b"
  by (auto simp: udiv_def)

lemma div_eq_0_u32: "(a :: u32) div b = 0 \<longleftrightarrow> b = 0 \<or> a < b"
proof -
  have "a div b = 0 \<longleftrightarrow> unat a div unat b = 0" by (simp only: unat_eq_0 [symmetric] unat_div)
  then show ?thesis by (auto simp only: Euclidean_Rings.div_eq_0_iff unat_eq_0 u32_less)
qed

lemma dropped_excess_None:
  assumes "mtu n \<noteq> 0"
  shows "dropped_excess a n q b = None \<longleftrightarrow> q < mtu n"
  using assms by (auto simp: dropped_excess_def my_portion_def Let_def udiv_zero div_eq_0_u32 split: bind_splits)

lemma dropped_mtu: "dropped_excess a n q b = Some m \<Longrightarrow> mtu m = mtu n" "mtu (dropped_room a n q b) = mtu n"
  by (auto simp: dropped_excess_def dropped_room_def Let_def split: bind_splits if_splits)

text \<open>
  C37: A packet drop report makes the routine divide by zero exactly when the queue it assumes (the reported
  one or what is in flight, whichever is larger) exceeds the size of the pipe but is smaller than one packet;
  the report comes from the network, and a report of no bandwidth and a short queue is enough. Otherwise
  the window afterwards is at least the payload of a packet, and at most the pipe or one packet.
\<close>

theorem packet_dropped_fault:
  assumes "12 \<le> mtu n"
  shows "(sctp_cwnd_update_after_packet_dropped a n bw onq = None \<longleftrightarrow>
      pipe_size n bw < dropped_queue n onq \<and> dropped_queue n onq < mtu n) \<and>
    (\<forall>a' n' x y. sctp_cwnd_update_after_packet_dropped a n bw onq = Some (a', n', x, y) \<longrightarrow>
      a' = a \<and> unat (mtu n) \<le> unat (cwnd n') + 12 \<and> cwnd n' \<le> umax (pipe_size n bw) (mtu n))"
proof -
  have m0: "mtu n \<noteq> 0" using assms by (auto simp: u32_le)
  let ?q = "dropped_queue n onq" and ?b = "pipe_size n bw"
  show ?thesis
  proof (cases "?b < ?q \<and> ?q < mtu n")
    case True
    with dropped_excess_None [OF m0, of a ?q ?b] show ?thesis by (simp add: dropped_unfold)
  next
    case False
    with dropped_excess_None [OF m0, of a ?q ?b] obtain m where
      f: "(if ?q > ?b then dropped_excess a n ?q ?b else Some (dropped_room a n ?q ?b)) = Some m" by (cases "?b < ?q") auto
    define m1 where "m1 = (let m = (if cwnd m > ?b then m\<lparr>cwnd := ?b\<rparr> else m) in if cwnd m < mtu m then m\<lparr>cwnd := mtu m\<rparr> else m)"
    from f have r: "sctp_cwnd_update_after_packet_dropped a n bw onq = Some (a, sctp_enforce_cwnd_limit a m1, bw, ?q)"
      by (simp add: dropped_unfold m1_def Let_def)
    have "mtu m = mtu n" using f dropped_mtu by (auto split: if_splits)
    then have m1: "mtu m1 = mtu n" "mtu n \<le> cwnd m1" "cwnd m1 \<le> umax ?b (mtu n)"
      by (auto simp: m1_def Let_def umax_def)
    have "unat (mtu n) \<le> unat (cwnd (sctp_enforce_cwnd_limit a m1)) + 12"
      using enforce_limit(2) [of m1 a] m1(1,2) assms by (auto simp: limited_def u32_le)
    moreover have "cwnd (sctp_enforce_cwnd_limit a m1) \<le> cwnd m1" using enforce_le [of m1 a] m1(1) assms by (simp add: u32_le)
    ultimately show ?thesis using False r m1(3) by auto
  qed
qed

theorem packet_dropped_fault_witness:
  "sctp_cwnd_update_after_packet_dropped (demo_cc_asoc []) (demo_net 0 0 0) 0 100 = None"
proof -
  have "12 \<le> mtu (demo_net 0 0 0)" by (simp add: demo_net_def)
  with packet_dropped_fault [OF this, of "demo_cc_asoc []" 0 100] show ?thesis
    by (simp add: dropped_queue_def pipe_size_def demo_net_def)
qed

section \<open>ECN response of RTCC\<close>

text \<open>
  On a local network RTCC answers an ECN echo with the window it had before, less one packet per lost
  packet, in unsigned arithmetic without a check: when that window is smaller than the lost packets the
  window wraps around to almost 4 GB, that is, congestion opens the window. The threshold is lowered once
  more by the same amount. The response is enabled by default.
\<close>

theorem rtcc_ecn_wraps:
  assumes "lan_type n = SCTP_LAN_LOCAL" "use_dccc_ecn (rtcc n) \<noteq> 0" "ecn_prev_cwnd n < cwnd n"
    and "unat (ecn_prev_cwnd n) < unat (mtu n) * unat lost" "unat (mtu n) * unat lost < 2 ^ 31"
  shows "\<exists>a' n'. sctp_cwnd_update_rtcc_after_ecn_echo a n False lost = Some (a', n') \<and>
    unat (cwnd n') = 2 ^ 32 + unat (ecn_prev_cwnd n) - unat (mtu n) * unat lost \<and> 2 ^ 31 < unat (cwnd n') \<and>
    ssthresh n' = cwnd n' - mtu n * lost"
proof -
  have ml: "unat (mtu n * lost) = unat (mtu n) * unat lost" using assms(5) unat_mult_small by simp
  let ?w = "ecn_prev_cwnd n - mtu n * lost"
  have lt: "unat (ecn_prev_cwnd n) < unat (mtu n * lost)" using assms(4) ml by simp
  have "unat ?w = 2 ^ 32 + unat (ecn_prev_cwnd n) - unat (mtu n) * unat lost"
    using lt ml unat_u32_bound [of "mtu n * lost"] by (simp add: unat_sub_if_size word_size)
  moreover from this have "2 ^ 31 < unat ?w" using assms(4,5) by simp
  ultimately show ?thesis using assms(1-3)
    by (simp add: sctp_cwnd_update_rtcc_after_ecn_echo_def sctp_cwnd_update_after_ecn_echo_common_def mult.commute)
qed

theorem rtcc_ecn_wraps_witness:
  "\<exists>a' n'. sctp_cwnd_update_rtcc_after_ecn_echo (demo_cc_asoc [])
     ((demo_net 0 6000 0)\<lparr>lan_type := 1, rtcc := demo_rtcc\<lparr>use_dccc_ecn := 1\<rparr>, ecn_prev_cwnd := 3000\<rparr>) False 3 = Some (a', n') \<and>
     unat (cwnd n') = 4294965796"
proof -
  let ?n = "(demo_net 0 6000 0)\<lparr>lan_type := 1, rtcc := demo_rtcc\<lparr>use_dccc_ecn := 1\<rparr>, ecn_prev_cwnd := 3000\<rparr>"
  have "lan_type ?n = SCTP_LAN_LOCAL" "use_dccc_ecn (rtcc ?n) \<noteq> 0" "ecn_prev_cwnd ?n < cwnd ?n"
    "unat (ecn_prev_cwnd ?n) < unat (mtu ?n) * unat (3 :: u32)" "unat (mtu ?n) * unat (3 :: u32) < 2 ^ 31"
    by (simp_all add: demo_net_def SCTP_LAN_LOCAL_def)
  from rtcc_ecn_wraps [OF this, of "demo_cc_asoc []"] show ?thesis by (auto simp: demo_net_def)
qed

section \<open>HighSpeed TCP\<close>

lemma hs_search_from:
  "i \<le> j \<Longrightarrow> (\<And>k. i \<le> k \<Longrightarrow> k < j \<Longrightarrow> k < SCTP_HS_TABLE_SIZE \<Longrightarrow> hs_cwnd k \<le> v) \<Longrightarrow> hs_search v i = hs_search v j"
proof (induction v i rule: hs_search.induct)
  case (1 v i)
  show ?case
  proof (cases "i = j")
    case False
    with 1(2) have "i < j" by simp
    show ?thesis
    proof (cases "i < SCTP_HS_TABLE_SIZE")
      case True
      with 1(3) [of i] \<open>i < j\<close> have "\<not> v < hs_cwnd i" by simp
      with True 1(1) [OF True] 1(3) \<open>i < j\<close> have "hs_search v (i + 1) = hs_search v j" by simp
      with True \<open>\<not> v < hs_cwnd i\<close> show ?thesis by (subst hs_search.simps) simp
    next
      case False
      with \<open>i < j\<close> show ?thesis by (simp add: hs_search.simps)
    qed
  qed simp
qed

lemma hs_search_end: "hs_search v SCTP_HS_TABLE_SIZE = SCTP_HS_TABLE_SIZE - 1"
  by (subst hs_search.simps) simp

lemma hs_search_ge: "i < SCTP_HS_TABLE_SIZE \<Longrightarrow> i \<le> hs_search v i"
proof (induction v i rule: hs_search.induct)
  case (1 v i)
  show ?case
  proof (cases "v < hs_cwnd i \<or> i + 1 = SCTP_HS_TABLE_SIZE")
    case True
    with 1(2) hs_search_end show ?thesis by (subst hs_search.simps) auto
  next
    case False
    then have "i + 1 < SCTP_HS_TABLE_SIZE" "\<not> v < hs_cwnd i" using 1(2) by auto
    with 1(1) [OF 1(2)] have "i + 1 \<le> hs_search v (i + 1)" by simp
    with 1(2) \<open>\<not> v < hs_cwnd i\<close> show ?thesis by (subst hs_search.simps) simp
  qed
qed

text \<open>
  In high-speed mode the window grows by the increase of the first row of the table above it, as long as
  the remembered row is not above that one. A reduction computes the lower row but stores the old one:
  while the window stays in high-speed mode the remembered row is not lowered, and the next increase is that of a row
  at or above it, however far the window has dropped.
\<close>

theorem hs_row_is_not_lowered:
  assumes "max_cwnd a = 0" "unat (last_hs_used n) < SCTP_HS_TABLE_SIZE" "38 \<le> unat (drop_bit 10 (cwnd n))"
  shows "(hs_search (unat (drop_bit 10 (cwnd n))) 0 \<ge> unat (last_hs_used n) \<longrightarrow>
      cwnd (sctp_hs_cwnd_increase a n) = cwnd n + push_bit 10 (word_of_nat (hs_increase (hs_search (unat (drop_bit 10 (cwnd n))) 0)))) \<and>
    (\<exists>n'. sctp_hs_cwnd_decrease a n = Some n' \<and>
      cwnd n' = cwnd n - cwnd n div 100 * word_of_nat (hs_drop_percent (unat (last_hs_used n))) \<and>
      (38 \<le> unat (drop_bit 10 (cwnd n')) \<longrightarrow> last_hs_used n' = last_hs_used n \<and>
        (\<exists>row \<ge> unat (last_hs_used n). cwnd (sctp_hs_cwnd_increase a n') = cwnd n' + push_bit 10 (word_of_nat (hs_increase row)))))"
proof (intro conjI impI)
  have lim: "sctp_enforce_cwnd_limit a m = m" for m using assms(1) by (simp add: sctp_enforce_cwnd_limit_def)
  have inc: "cwnd (sctp_hs_cwnd_increase a m) = cwnd m + push_bit 10 (word_of_nat (hs_increase (hs_search (unat (drop_bit 10 (cwnd m))) (unat (last_hs_used m)))))"
    if "38 \<le> unat (drop_bit 10 (cwnd m))" for m
    using that by (simp add: sctp_hs_cwnd_increase_def lim hs_row_0 Let_def)
  let ?v = "unat (drop_bit 10 (cwnd n))" and ?i = "unat (last_hs_used n)"
  show "cwnd (sctp_hs_cwnd_increase a n) = cwnd n + push_bit 10 (word_of_nat (hs_increase (hs_search ?v 0)))" if "?i \<le> hs_search ?v 0"
  proof -
    have "hs_cwnd k \<le> ?v" if "k < ?i" "k < SCTP_HS_TABLE_SIZE" for k
    proof (rule ccontr)
      assume "\<not> hs_cwnd k \<le> ?v"
      define j where "j = (LEAST j. ?v < hs_cwnd j)"
      have j: "?v < hs_cwnd j" "j \<le> k" using \<open>\<not> hs_cwnd k \<le> ?v\<close> LeastI [of "\<lambda>j. ?v < hs_cwnd j" k] by (auto simp: j_def intro: Least_le)
      have "hs_cwnd l \<le> ?v" if "l < j" for l
        using not_less_Least [of l "\<lambda>j. ?v < hs_cwnd j"] that by (simp only: j_def not_less)
      then have "hs_search ?v 0 = hs_search ?v j" by (intro hs_search_from) simp_all
      also have "\<dots> = j" using j that(2) by (subst hs_search.simps) simp
      finally show False using \<open>?i \<le> hs_search ?v 0\<close> j(2) that(1) by simp
    qed
    then have "hs_search ?v 0 = hs_search ?v ?i" by (intro hs_search_from) auto
    then show ?thesis using inc [OF assms(3)] by simp
  qed
  let ?w = "cwnd n - cwnd n div 100 * word_of_nat (hs_drop_percent ?i)"
  let ?n = "n\<lparr>ssthresh := ?w, cwnd := ?w, last_hs_used := (if unat (drop_bit 10 ?w) < 38 then 0 else last_hs_used n)\<rparr>"
  have d: "sctp_hs_cwnd_decrease a n = Some ?n"
    using assms(2,3) by (simp add: sctp_hs_cwnd_decrease_def hs_row_0 lim Let_def)
  have "\<exists>row \<ge> ?i. cwnd (sctp_hs_cwnd_increase a ?n) = ?w + push_bit 10 (word_of_nat (hs_increase row))" if "38 \<le> unat (drop_bit 10 ?w)"
    using inc [of ?n] that hs_search_ge [OF assms(2), of "unat (drop_bit 10 ?w)"] by auto
  then show "\<exists>n'. sctp_hs_cwnd_decrease a n = Some n' \<and> cwnd n' = ?w \<and>
      (38 \<le> unat (drop_bit 10 (cwnd n')) \<longrightarrow> last_hs_used n' = last_hs_used n \<and>
        (\<exists>row \<ge> ?i. cwnd (sctp_hs_cwnd_increase a n') = cwnd n' + push_bit 10 (word_of_nat (hs_increase row))))"
    unfolding d by (intro exI [of _ ?n]) auto
qed

lemma hs_search_down_numeral:
  "hs_search_down v (numeral k) = (if v > hs_cwnd (pred_numeral k) then numeral k else hs_search_down v (pred_numeral k))"
  by (simp add: numeral_eq_Suc)

theorem hs_row_is_not_lowered_witness:
  "\<exists>n'. sctp_hs_cwnd_decrease (demo_cc_asoc []) ((demo_net 0 5000000 0)\<lparr>last_hs_used := 30\<rparr>) = Some n' \<and>
     last_hs_used n' = 30 \<and> unat (drop_bit 10 (cwnd n')) = 3906 \<and> hs_search_down 3906 30 = 17"
proof -
  let ?n = "(demo_net 0 5000000 0)\<lparr>last_hs_used := 30\<rparr>"
  have "max_cwnd (demo_cc_asoc []) = 0" "unat (last_hs_used ?n) < SCTP_HS_TABLE_SIZE" "38 \<le> unat (drop_bit 10 (cwnd ?n))"
    by (simp_all add: demo_cc_asoc_def demo_net_def SCTP_HS_TABLE_SIZE_def drop_bit_eq_div unat_div)
  from hs_row_is_not_lowered [OF this] obtain n' where n': "sctp_hs_cwnd_decrease (demo_cc_asoc []) ?n = Some n'"
    "cwnd n' = cwnd ?n - cwnd ?n div 100 * word_of_nat (hs_drop_percent (unat (last_hs_used ?n)))"
    "38 \<le> unat (drop_bit 10 (cwnd n')) \<longrightarrow> last_hs_used n' = last_hs_used ?n" by blast
  have "cwnd n' = 4000000" using n'(2) by (simp add: demo_net_def sctp_cwnd_adjust_def)
  then have v: "unat (drop_bit 10 (cwnd n')) = 3906" by (simp add: drop_bit_eq_div unat_div)
  with n'(3) have "last_hs_used n' = 30" by (simp add: demo_net_def)
  moreover have "hs_search_down 3906 30 = 17" by (simp add: sctp_cwnd_adjust_def hs_search_down_numeral)
  ultimately show ?thesis using n'(1) v by blast
qed

section \<open>H-TCP\<close>

text \<open>The measurement fails exactly when the smoothed round trip time is below one millisecond.\<close>

lemma measure_rtt_None:
  "measure_rtt now n = None \<longleftrightarrow> fast_retran_ip n = 0 \<and> ssthresh n < 0xFFFF \<and> signed_drop_bit 3 (lastsa n) = 0"
proof -
  have "minRTT (htcp_ca (if minRTT (htcp_ca n) > s \<or> minRTT (htcp_ca n) = 0 then upd_htcp (\<lambda>c. c\<lparr>minRTT := s\<rparr>) n else n)) = 0 \<longleftrightarrow> s = 0" for s
    by (auto simp: upd_htcp_def not_less)
  then show ?thesis
    by (auto simp: measure_rtt_def Let_def htcp_ccount_def udiv_def upd_htcp_def split: if_splits bind_splits)
qed

lemma beta_range: "64 \<le> beta (htcp_beta_update ca l h) \<and> beta (htcp_beta_update ca l h) \<le> 102"
  by (auto simp: htcp_beta_update_def Let_def BETA_MIN_def BETA_MAX_def word_le_nat_alt word_less_nat_alt)

lemma alpha_update_beta: "htcp_alpha_update now ca = Some ca' \<Longrightarrow> beta ca' = beta ca"
  by (auto simp: htcp_alpha_update_def Let_def split: bind_splits)

lemma param_update_beta:
  assumes "htcp_param_update now n = Some n'"
  shows "64 \<le> unat (beta (htcp_ca n')) \<and> unat (beta (htcp_ca n')) \<le> 102 \<and> cwnd n' = cwnd n \<and> mtu n' = mtu n"
  using assms beta_range alpha_update_beta
  by (fastforce simp: htcp_param_update_def Let_def word_le_nat_alt split: bind_splits)

lemma small_srtt:
  assumes "(w :: u32) < 8" shows "signed_drop_bit 3 w = 0"
proof (rule bit_word_eqI)
  have "w = take_bit 3 w" using assms by (simp add: take_bit_eq_mod word_less_nat_alt word_unat_eq_iff unat_mod)
  then have hi: "\<not> bit w i" if "3 \<le> i" for i using that by (metis bit_take_bit_iff not_less)
  fix i
  assume "i < LENGTH(32)"
  then show "bit (signed_drop_bit 3 w) i = bit 0 i" using hi by (simp add: bit_signed_drop_bit_iff)
qed

text \<open>
  In congestion avoidance with a threshold below 65535, H-TCP divides by the smallest round trip time in
  milliseconds, which it has just set to the current one: a SACK over a path with a smoothed round trip
  time below one millisecond (the local host, a local network) makes it divide by zero.
\<close>

theorem htcp_submillisecond_rtt_divides:
  assumes "nets a = n # ns" "net_ack n \<noteq> 0" "fast_retran_loss_recovery a = 0" "ssthresh n < cwnd n"
    and "lastsa n < 8" "fast_retran_ip n = 0" "ssthresh n < 0xFFFF"
  shows "sctp_htcp_cwnd_update_after_sack sys now a True will_exit = None"
proof -
  have "measure_rtt now n = None" using small_srtt [OF assms(5)] assms(6,7) by (simp add: measure_rtt_None)
  moreover have "\<not> cwnd n \<le> ssthresh n" using assms(4) by (simp only: not_le)
  ultimately have "htcp_update sys now a n = None" by (simp add: htcp_update_def htcp_cong_avoid_def)
  with assms(1-3) show ?thesis by (simp add: sctp_htcp_cwnd_update_after_sack_def foreach_net_def hs_sack_body_def)
qed

theorem htcp_submillisecond_rtt_divides_witness:
  "sctp_htcp_cwnd_update_after_sack demo_sysctl 5000 (demo_cc_asoc [(demo_net 0 9000 1500)\<lparr>ssthresh := 4500, lastsa := 3\<rparr>]) True False = None"
  by (rule htcp_submillisecond_rtt_divides [of _ "(demo_net 0 9000 1500)\<lparr>ssthresh := 4500, lastsa := 3\<rparr>" "[]"])
    (simp_all add: demo_cc_asoc_def demo_net_def)

lemma alpha_update_Some:
  assumes "unat (minRTT ca) < 2 ^ 28"
  shows "htcp_alpha_update now ca \<noteq> None"
proof -
  have "unat (10 * minRTT ca) = 10 * unat (minRTT ca)" using assms unat_mult_small [of 10 "minRTT ca"] by simp
  then have "minRTT ca \<noteq> 0 \<Longrightarrow> 10 * minRTT ca \<noteq> 0" by (auto simp: unat_eq_0 simp flip: unat_eq_0)
  moreover have "umin (umax s 4) 80 \<noteq> 0" for s
    by (auto simp: umin_def umax_def u32_less)
  ultimately show ?thesis by (auto simp: htcp_alpha_update_def udiv_def Let_def)
qed

lemma beta_update_frame: "minRTT (htcp_beta_update ca l h) = minRTT ca"
  by (simp add: htcp_beta_update_def Let_def)

text \<open>
  After a loss H-TCP keeps between one half and four fifths of the window, in whole packets, and at least
  two packets: with the factor between 64 and 102 (of 128) of its window the new threshold is the rounded product.
  It does so for every destination with a measured smallest round trip time below three days, and fails
  for none.
\<close>

theorem htcp_backoff_range_holds:
  assumes "12 \<le> mtu n" "unat (mtu n) < 2 ^ 31" "unat (minRTT (htcp_ca n)) < 2 ^ 28" "unat (cwnd n) div unat (mtu n) * 102 < 2 ^ 32"
  shows "\<exists>n' b. htcp_backoff now n = Some n' \<and> 64 \<le> b \<and> b \<le> 102 \<and>
    unat (ssthresh n') = max (unat (cwnd n) div unat (mtu n) * b div 128 * unat (mtu n)) (2 * unat (mtu n)) \<and>
    cwnd n' = cwnd n \<and> last_cong (htcp_ca n') = now"
proof -
  let ?n = "upd_htcp (htcp_reset now) n" and ?q = "unat (cwnd n) div unat (mtu n)"
  have "unat (minRTT (htcp_beta_update (htcp_ca ?n) l h)) < 2 ^ 28" for l h
    using assms(3) by (simp add: beta_update_frame upd_htcp_def htcp_reset_def)
  from alpha_update_Some [OF this, of now] obtain ca where
    "htcp_alpha_update now (htcp_beta_update (htcp_ca ?n) (minRTT (htcp_ca ?n)) (maxRTT (htcp_ca ?n))) = Some ca" by blast
  then obtain m where m: "htcp_param_update now ?n = Some m" by (simp add: htcp_param_update_def Let_def)
  note b = param_update_beta [OF m]
  let ?b = "unat (beta (htcp_ca m))"
  have "?q * ?b \<le> ?q * 102" using b by (intro mult_le_mono2) simp
  then have qb: "?q * ?b < 2 ^ 32" using assms(4) by linarith
  have beta: "unat (ucast (beta (htcp_ca m)) :: u32) = ?b"
    using unsigned_less [of "beta (htcp_ca m)", where 'a = nat] by (simp add: unsigned_ucast_eq take_bit_nat_eq_self)
  have "unat (cwnd n div mtu n * ucast (beta (htcp_ca m))) = ?q * ?b"
    using unat_mult_small [of "cwnd n div mtu n" "ucast (beta (htcp_ca m))"] qb beta by (simp add: unat_div)
  then have d: "unat (drop_bit 7 (cwnd n div mtu n * ucast (beta (htcp_ca m)))) = ?q * ?b div 128"
    by (simp add: drop_bit_eq_div unat_div)
  have "?q * ?b div 128 \<le> ?q" using b div_le_mono [of "?q * ?b" "?q * 128" 128] mult_le_mono2 [of ?b 128 ?q] by simp
  then have "?q * ?b div 128 * unat (mtu n) \<le> unat (cwnd n)" by (meson div_times_less_eq_dividend le_trans mult_le_mono1)
  then have p: "unat (drop_bit 7 (cwnd n div mtu n * ucast (beta (htcp_ca m))) * mtu n) = ?q * ?b div 128 * unat (mtu n)"
    using unat_mult_small [of _ "mtu n"] d unat_u32_bound [of "cwnd n"] by simp
  have m2: "unat (2 * mtu n) = 2 * unat (mtu n)" using assms(2) by (simp add: unat_word_ariths)
  have "mtu n \<noteq> 0" using assms(1) by (auto simp: u32_le)
  then have s: "htcp_backoff now n = Some (m\<lparr>ssthresh := umax (drop_bit 7 (cwnd n div mtu n * ucast (beta (htcp_ca m))) * mtu n) (2 * mtu n)\<rparr>)"
    using m b by (simp add: htcp_backoff_def htcp_recalc_ssthresh_def udiv_def)
  have "last_cong (htcp_ca m) = now"
    using m by (auto simp: htcp_param_update_def htcp_alpha_update_def htcp_beta_update_def upd_htcp_def htcp_reset_def Let_def split: bind_splits)
  with s b p m2 show ?thesis by (intro exI [of _ "m\<lparr>ssthresh := umax (drop_bit 7 (cwnd n div mtu n * ucast (beta (htcp_ca m))) * mtu n) (2 * mtu n)\<rparr>"] exI [of _ ?b])
      (simp add: unat_umax)
qed

theorem htcp_backoff_range_holds_witness:
  "\<exists>n'. htcp_backoff 5000 (demo_net 0 15000 0) = Some n' \<and> 7500 \<le> unat (ssthresh n') \<and> unat (ssthresh n') \<le> 12000"
proof -
  let ?n = "demo_net 0 15000 0"
  have "12 \<le> mtu ?n" "unat (mtu ?n) < 2 ^ 31" "unat (minRTT (htcp_ca ?n)) < 2 ^ 28" "unat (cwnd ?n) div unat (mtu ?n) * 102 < 2 ^ 32"
    by (simp_all add: demo_net_def demo_htcp_def)
  from htcp_backoff_range_holds [OF this, of 5000] obtain n' b where n': "htcp_backoff 5000 ?n = Some n'" "64 \<le> b" "b \<le> 102"
    "unat (ssthresh n') = max (10 * b div 128 * 1500) 3000" by (auto simp: demo_net_def)
  have "5 \<le> 10 * b div 128" "10 * b div 128 \<le> 7" using n'(2,3) by auto
  with n' show ?thesis by auto
qed

section \<open>The decision table of RTCC\<close>

text \<open>How a measurement compares with the remembered value, with a tolerance.\<close>

datatype trend = Inc | Same | Decr

definition trend_of :: "u64 \<Rightarrow> u64 \<Rightarrow> nat \<Rightarrow> trend" where
  "trend_of x old k = (if x > old + drop_bit k old then Inc else if x < old - drop_bit k old then Decr else Same)"

definition bw_trend :: "cc_sysctl \<Rightarrow> sctp_nets \<Rightarrow> u64 \<Rightarrow> trend" where
  "bw_trend sys n nbw = trend_of nbw (lbw (rtcc n)) (unat (sctp_rttvar_bw sys))"

definition rtt_trend :: "cc_sysctl \<Rightarrow> sctp_nets \<Rightarrow> trend" where
  "rtt_trend sys n = trend_of (rtt n) (lbw_rtt (rtcc n)) (unat (sctp_rttvar_rtt sys))"

text \<open>The table in the comment of the routine: whether the window is held; \<open>caused\<close> if this association is the cause.\<close>

fun documented_hold :: "bool \<Rightarrow> trend \<Rightarrow> trend \<Rightarrow> bool" where
  "documented_hold caused Inc _ = False"
| "documented_hold caused Same Decr = False"
| "documented_hold caused Same _ = True"
| "documented_hold caused Decr Inc = caused"
| "documented_hold caused Decr _ = False"

lemma instant_frame:
  assumes "instant_indication sys n nbw = (i, m)"
  shows "lbw (rtcc m) = lbw (rtcc n)" "lbw_rtt (rtcc m) = lbw_rtt (rtcc n)" "rtt m = rtt n" "cwnd m = cwnd n" "mtu m = mtu n"
    "cwnd_at_bw_set (rtcc m) = cwnd_at_bw_set (rtcc n)" "ret_from_eq (rtcc m) = ret_from_eq (rtcc n)"
    "steady_step (rtcc m) = steady_step (rtcc n)" "step_cnt (rtcc m) = step_cnt (rtcc n)" "last_step_state (rtcc m) = last_step_state (rtcc n)"
  using assms by (auto simp: instant_indication_def upd_rtcc_def Let_def split: if_splits)

lemma bw_limit_by_trend:
  assumes "instant_indication sys n nbw = (i, m)"
  shows "fst (cc_bw_limit sys a n nbw) = (case bw_trend sys n nbw of
      Inc \<Rightarrow> fst (cc_bw_increase m nbw)
    | Decr \<Rightarrow> fst (cc_bw_decrease a m nbw (drop_bit (unat (sctp_rttvar_rtt sys)) (lbw_rtt (rtcc n))) i)
    | Same \<Rightarrow> fst (cc_bw_same m nbw (drop_bit (unat (sctp_rttvar_rtt sys)) (lbw_rtt (rtcc n))) i))"
  by (simp add: cc_bw_limit_def assms Let_def split_beta bw_trend_def trend_of_def instant_frame [OF assms])

lemma bw_decrease_by_trend:
  assumes "instant_indication sys n nbw = (i, m)"
  shows "fst (cc_bw_decrease a m nbw (drop_bit (unat (sctp_rttvar_rtt sys)) (lbw_rtt (rtcc n))) i) \<noteq> 0 \<longleftrightarrow>
    i = SCTP_INST_GAINING \<or> (rtt_trend sys n = Inc \<and> cwnd n > cwnd_at_bw_set (rtcc n) \<and> i \<noteq> SCTP_INST_LOOSING)"
  by (simp add: cc_bw_decrease_def Let_def rtt_trend_def trend_of_def instant_frame [OF assms])

lemma bw_same_by_trend:
  assumes "instant_indication sys n nbw = (i, m)" "steady_step (rtcc n) = 0"
  shows "fst (cc_bw_same m nbw (drop_bit (unat (sctp_rttvar_rtt sys)) (lbw_rtt (rtcc n))) i) \<noteq> 0 \<longleftrightarrow>
    (case rtt_trend sys n of Inc \<Rightarrow> True | Same \<Rightarrow> i = SCTP_INST_GAINING \<or> i = SCTP_INST_NEUTRAL \<or> ret_from_eq (rtcc n) \<noteq> 0
       | Decr \<Rightarrow> i = SCTP_INST_GAINING \<or> i = SCTP_INST_NEUTRAL)"
  using assms(2) by (simp add: cc_bw_same_def Let_def rtt_trend_def trend_of_def instant_frame [OF assms(1)] uint_0_iff)

text \<open>
  Without voluntary step downs (step size 0), whether RTCC holds the window follows the table its comment
  gives, as long as this round trip's bandwidth shows a loss to other flows and the mode returns on equality.
  An indication of a gain overrides the table: the window is held whenever the bandwidth has not increased,
  also in the three rows for which the table says to go on; a neutral one does so in the row of equal bandwidth and shorter
  round trips.
\<close>

theorem bw_limit_follows_table:
  assumes "steady_step (rtcc n) = 0"
  shows "case instant_indication sys n nbw of (i, m) \<Rightarrow>
    (i = SCTP_INST_LOOSING \<and> ret_from_eq (rtcc n) \<noteq> 0 \<longrightarrow>
       (fst (cc_bw_limit sys a n nbw) \<noteq> 0 \<longleftrightarrow> documented_hold False (bw_trend sys n nbw) (rtt_trend sys n))) \<and>
    (i = SCTP_INST_GAINING \<longrightarrow> (fst (cc_bw_limit sys a n nbw) \<noteq> 0 \<longleftrightarrow> bw_trend sys n nbw \<noteq> Inc)) \<and>
    (i = SCTP_INST_NEUTRAL \<longrightarrow>
       (fst (cc_bw_limit sys a n nbw) \<noteq> 0 \<longleftrightarrow> (bw_trend sys n nbw = Same \<and> rtt_trend sys n = Decr) \<or>
          documented_hold (cwnd_at_bw_set (rtcc n) < cwnd n) (bw_trend sys n nbw) (rtt_trend sys n)))"
proof -
  obtain i m where im: "instant_indication sys n nbw = (i, m)" by (cases "instant_indication sys n nbw")
  have inc: "fst (cc_bw_increase m nbw) = 0" by (simp add: cc_bw_increase_def Let_def)
  show ?thesis unfolding im bw_limit_by_trend [OF im]
    by (cases "bw_trend sys n nbw"; cases "rtt_trend sys n")
      (simp_all add: inc bw_decrease_by_trend [OF im] bw_same_by_trend [OF im assms] SCTP_INST_LOOSING_def SCTP_INST_NEUTRAL_def SCTP_INST_GAINING_def)
qed

theorem bw_limit_follows_table_witness:
  "fst (cc_bw_limit demo_sysctl (demo_cc_asoc []) ((demo_net 0 9000 1500)\<lparr>rtt := 50000, rtcc := demo_rtcc\<lparr>steady_step := 0, lbw := 1000, lbw_rtt := 100000,
       rtt_set_this_sack := 0, last_inst_ind := SCTP_INST_GAINING\<rparr>\<rparr>) 500) \<noteq> 0"
proof -
  let ?n = "(demo_net 0 9000 1500)\<lparr>rtt := 50000, rtcc := demo_rtcc\<lparr>steady_step := 0, lbw := 1000, lbw_rtt := 100000,
       rtt_set_this_sack := 0, last_inst_ind := SCTP_INST_GAINING\<rparr>\<rparr>"
  have i: "instant_indication demo_sysctl ?n 500 = (SCTP_INST_GAINING, ?n)" by (simp add: instant_indication_def)
  have "steady_step (rtcc ?n) = 0" by simp
  from bw_limit_follows_table [OF this, of demo_sysctl "demo_cc_asoc []" 500] i
  have "fst (cc_bw_limit demo_sysctl (demo_cc_asoc []) ?n 500) \<noteq> 0 \<longleftrightarrow> bw_trend demo_sysctl ?n 500 \<noteq> Inc" by simp
  moreover have "bw_trend demo_sysctl ?n 500 \<noteq> Inc" by (simp add: bw_trend_def trend_of_def demo_sysctl_def drop_bit_eq_div)
  ultimately show ?thesis by simp
qed

section \<open>Multipath variants\<close>

lemma mptcp_paths_None:
  "n \<in> set ns \<Longrightarrow> lastsa n \<noteq> 0 \<Longrightarrow> lastsa n * lastsa n = 0 \<Longrightarrow> mptcp_paths ns p m = None"
  by (induction ns arbitrary: p m) (auto simp: udiv_def Let_def word_gt_0 split: bind_splits)

text \<open>
  With one of the multipath variants a SACK makes the routine divide by zero as soon as one
  destination's scaled round trip time is a multiple of 65536 (8.192 seconds): its square is computed in
  32 bits. So does a fast retransmit in the first variant when the thresholds of all destinations add up to 0
  modulo \<open>2 ^ 32\<close> and the first destination has acknowledged bytes: this sum is the one that is not raised to 1.
\<close>

theorem pooling_divides_by_zero:
  assumes "n \<in> set (nets a)"
  shows "(sctp_cmt_on_off a \<in> {SCTP_CMT_RPV1, SCTP_CMT_RPV2, SCTP_CMT_MPTCP} \<and> lastsa n \<noteq> 0 \<and> 65536 dvd unat (lastsa n) \<longrightarrow>
      sctp_cwnd_update_after_sack sys a moved will_exit = None) \<and>
    (sctp_cmt_on_off a = SCTP_CMT_RPV1 \<and> (\<Sum>n\<leftarrow>nets a. ssthresh n) = 0 \<and> net_ack (hd (nets a)) \<noteq> 0 \<longrightarrow>
      sctp_cwnd_update_after_fr a = None)"
proof (intro conjI impI)
  assume h: "sctp_cmt_on_off a \<in> {SCTP_CMT_RPV1, SCTP_CMT_RPV2, SCTP_CMT_MPTCP} \<and> lastsa n \<noteq> 0 \<and> 65536 dvd unat (lastsa n)"
  then obtain k where "unat (lastsa n) = 65536 * k" by blast
  then have "unat (lastsa n * lastsa n) = (65536 * k) * (65536 * k) mod 2 ^ 32" by (simp add: unat_word_ariths)
  also have "(65536 * k) * (65536 * k) = k * k * 2 ^ 32" by simp
  finally have "lastsa n * lastsa n = 0" by (simp add: unat_eq_0)
  with h assms have "mptcp_paths (nets a) 0 0 = None" by (intro mptcp_paths_None) auto
  with h show "sctp_cwnd_update_after_sack sys a moved will_exit = None"
    by (auto simp: sctp_cwnd_update_after_sack_def sctp_cwnd_update_after_sack_common_def pooled_def resource_pooling_def)
next
  assume h: "sctp_cmt_on_off a = SCTP_CMT_RPV1 \<and> (\<Sum>n\<leftarrow>nets a. ssthresh n) = 0 \<and> net_ack (hd (nets a)) \<noteq> 0"
  from assms obtain m ms where "nets a = m # ms" by (cases "nets a") auto
  with h show "sctp_cwnd_update_after_fr a = None"
    by (simp add: sctp_cwnd_update_after_fr_def foreach_net_def fr_body_def fr_reduce_def total_ssthresh_def resource_pooling_def
        udiv_def SCTP_CMT_RPV1_def word_gt_0)
qed

theorem pooling_divides_by_zero_witness:
  "sctp_cwnd_update_after_sack demo_sysctl ((demo_cc_asoc [demo_net 0 9000 1500, (demo_net 1 9000 0)\<lparr>lastsa := 65536\<rparr>])\<lparr>sctp_cmt_on_off := 4\<rparr>) True False = None \<and>
   sctp_cwnd_update_after_fr ((demo_cc_asoc [(demo_net 0 9000 1500)\<lparr>ssthresh := 0\<rparr>])\<lparr>sctp_cmt_on_off := 2\<rparr>) = None"
proof -
  let ?a = "(demo_cc_asoc [demo_net 0 9000 1500, (demo_net 1 9000 0)\<lparr>lastsa := 65536\<rparr>])\<lparr>sctp_cmt_on_off := 4\<rparr>"
    and ?b = "(demo_cc_asoc [(demo_net 0 9000 1500)\<lparr>ssthresh := 0\<rparr>])\<lparr>sctp_cmt_on_off := 2\<rparr>"
  have "(demo_net 1 9000 0)\<lparr>lastsa := 65536\<rparr> \<in> set (nets ?a)" by (simp add: demo_cc_asoc_def)
  note a = pooling_divides_by_zero [OF this, of demo_sysctl True False]
  have "(demo_net 0 9000 1500)\<lparr>ssthresh := 0\<rparr> \<in> set (nets ?b)" by (simp add: demo_cc_asoc_def)
  note b = pooling_divides_by_zero [OF this]
  show ?thesis using a b by (simp add: demo_cc_asoc_def demo_net_def SCTP_CMT_RPV1_def SCTP_CMT_RPV2_def SCTP_CMT_MPTCP_def)
qed

end
