(* ===== verification/Tsn_Map.thy ===== *)
theory Tsn_Map
  imports Sctp_Prelude "HOL-Library.Monad_Syntax"
begin

text \<open>
  Which TSNs an association has received. Two bit arrays that start at the same base TSN, the
  mapping array for data that may still be revoked and the nr mapping array for data that may not, the cumulative TSN, and
  the highest TSN in either array (netinet/sctp_indata.c, sctputil.c, sctp_constants.h). The definitions
  are the operations of the data path that change this state: setting up an association, the check and the marks of
  \<^verbatim>\<open>sctp_process_a_data_chunk\<close>, \<^verbatim>\<open>sctp_mark_non_revokable\<close>, growing and sliding the arrays, and the
  first part of \<^verbatim>\<open>sctp_handle_forward_tsn\<close>. Two rare operations are not modelled: the reset of the TSNs
  by a stream reconfiguration and \<^verbatim>\<open>sctp_drain_mbufs\<close>, which drops data that was not delivered when memory is short.

  An array is the list of its bytes; an access outside it is the result \<open>None\<close>. Logging is left out. The
  branches for \<^verbatim>\<open>INVARIANTS\<close> are not built.
\<close>

section \<open>Serial number arithmetic\<close>

definition SCTP_UINT16_GT :: "u16 \<Rightarrow> u16 \<Rightarrow> bool" where
  "SCTP_UINT16_GT a b \<longleftrightarrow> (a < b \<and> b - a > push_bit 15 1) \<or> (a > b \<and> a - b < push_bit 15 1)"

definition SCTP_UINT16_GE :: "u16 \<Rightarrow> u16 \<Rightarrow> bool" where
  "SCTP_UINT16_GE a b \<longleftrightarrow> SCTP_UINT16_GT a b \<or> a = b"

definition SCTP_UINT32_GT :: "u32 \<Rightarrow> u32 \<Rightarrow> bool" where
  "SCTP_UINT32_GT a b \<longleftrightarrow> (a < b \<and> b - a > push_bit 31 1) \<or> (a > b \<and> a - b < push_bit 31 1)"

definition SCTP_UINT32_GE :: "u32 \<Rightarrow> u32 \<Rightarrow> bool" where
  "SCTP_UINT32_GE a b \<longleftrightarrow> SCTP_UINT32_GT a b \<or> a = b"

abbreviation SCTP_TSN_GT :: "u32 \<Rightarrow> u32 \<Rightarrow> bool" where "SCTP_TSN_GT \<equiv> SCTP_UINT32_GT"
abbreviation SCTP_TSN_GE :: "u32 \<Rightarrow> u32 \<Rightarrow> bool" where "SCTP_TSN_GE \<equiv> SCTP_UINT32_GE"

lemma SCTP_UINT32_GT_iff: "SCTP_UINT32_GT a b \<longleftrightarrow> a \<noteq> b \<and> unat (a - b) < 2 ^ 31"
proof (cases "a < b")
  case True
  then have "unat (a - b) = 2 ^ 32 + unat a - unat b" "unat (b - a) = unat b - unat a" "unat a < unat b"
    using unsigned_less [of b] by (auto simp: unat_sub_if_size word_size word_less_nat_alt)
  with True show ?thesis using unat_u32_bound [of b] by (auto simp: SCTP_UINT32_GT_def word_less_nat_alt)
next
  case False
  then have "unat (a - b) = unat a - unat b" by (simp add: unat_sub word_le_nat_alt word_less_nat_alt)
  with False show ?thesis by (auto simp: SCTP_UINT32_GT_def word_less_nat_alt word_unat_eq_iff)
qed

lemma SCTP_UINT32_GE_iff: "SCTP_UINT32_GE a b \<longleftrightarrow> unat (a - b) < 2 ^ 31"
  by (auto simp: SCTP_UINT32_GE_def SCTP_UINT32_GT_iff)

lemma TSN_GE_step:
  assumes "SCTP_TSN_GE i b"
  shows "(if SCTP_TSN_GE (i - 1) b then Suc (unat (i - 1 - b)) else 0) < Suc (unat (i - b))"
proof (cases "i = b")
  case True
  have "unat (- 1 :: u32) = 2 ^ 32 - 1" by (simp add: unat_arith_simps unsigned_minus_1_eq_mask mask_eq_exp_minus_1)
  with True show ?thesis by (simp add: SCTP_UINT32_GE_iff)
next
  case False
  then have "unat (i - b - 1) = unat (i - b) - 1" "0 < unat (i - b)" by (auto simp: unat_minus_one unat_gt_0)
  then have "unat (i - 1 - b) = unat (i - b) - 1" "0 < unat (i - b)" by (simp_all only: diff_right_commute [of i b 1])
  then show ?thesis by simp
qed

definition MAX_TSN :: u32 where "MAX_TSN = 0xffffffff"

definition SCTP_CALC_TSN_TO_GAP :: "u32 \<Rightarrow> u32 \<Rightarrow> u32" where
  "SCTP_CALC_TSN_TO_GAP tsn mapping_tsn =
     (if tsn \<ge> mapping_tsn then tsn - mapping_tsn else (MAX_TSN - mapping_tsn) + tsn + 1)"

section \<open>Bits of an array\<close>

definition byte_at :: "bytes \<Rightarrow> nat \<Rightarrow> u8 option" where
  "byte_at arry i = (if i < length arry then Some (arry ! i) else None)"

definition SCTP_IS_TSN_PRESENT :: "bytes \<Rightarrow> u32 \<Rightarrow> bool option" where
  "SCTP_IS_TSN_PRESENT arry gap =
     do { b \<leftarrow> byte_at arry (unat (drop_bit 3 gap)); Some (drop_bit (unat (gap AND 7)) b AND 1 \<noteq> 0) }"

definition SCTP_SET_TSN_PRESENT :: "bytes \<Rightarrow> u32 \<Rightarrow> bytes option" where
  "SCTP_SET_TSN_PRESENT arry gap =
     do { b \<leftarrow> byte_at arry (unat (drop_bit 3 gap));
          Some (arry[unat (drop_bit 3 gap) := b OR push_bit (unat (gap AND 7)) 1]) }"

definition SCTP_UNSET_TSN_PRESENT :: "bytes \<Rightarrow> u32 \<Rightarrow> bytes option" where
  "SCTP_UNSET_TSN_PRESENT arry gap =
     do { b \<leftarrow> byte_at arry (unat (drop_bit 3 gap));
          Some (arry[unat (drop_bit 3 gap) := b AND NOT (push_bit (unat (gap AND 7)) 1)]) }"

section \<open>State\<close>

record rcv_asoc =
  mapping_array :: bytes
  nr_mapping_array :: bytes
  mapping_array_size :: u16
  mapping_array_base_tsn :: u32
  cumulative_tsn :: u32
  highest_tsn_inside_map :: u32
  highest_tsn_inside_nr_map :: u32
  dup_tsns :: "u32 list"
  numduptsns :: u32
  send_sack :: u8

definition SCTP_MAPPING_ARRAY :: u32 where "SCTP_MAPPING_ARRAY = 512"
definition SCTP_INITIAL_MAPPING_ARRAY :: u16 where "SCTP_INITIAL_MAPPING_ARRAY = 16"
definition SCTP_MAPPING_ARRAY_INCR :: u32 where "SCTP_MAPPING_ARRAY_INCR = 32"
definition SCTP_MAX_DUP_TSNS :: u32 where "SCTP_MAX_DUP_TSNS = 20"

text \<open>The arrays of a new association, before the INIT of the peer.\<close>

definition init_mapping_arrays :: "'a rcv_asoc_scheme \<Rightarrow> 'a rcv_asoc_scheme" where
  "init_mapping_arrays m =
     m\<lparr>mapping_array_size := SCTP_INITIAL_MAPPING_ARRAY,
       mapping_array := replicate (unat SCTP_INITIAL_MAPPING_ARRAY) 0,
       nr_mapping_array := replicate (unat SCTP_INITIAL_MAPPING_ARRAY) 0\<rparr>"

text \<open>
  What \<^verbatim>\<open>sctp_process_init\<close> sets from the initial TSN; it sets \<^verbatim>\<open>highest_tsn_inside_map\<close> and \<^verbatim>\<open>asconf_seq_in\<close>
  to the TSN before it first.
\<close>

definition process_init_tsn :: "u32 \<Rightarrow> 'a rcv_asoc_scheme \<Rightarrow> 'a rcv_asoc_scheme" where
  "process_init_tsn initial_tsn m =
     m\<lparr>highest_tsn_inside_map := initial_tsn - 1, highest_tsn_inside_nr_map := initial_tsn - 1,
       mapping_array_base_tsn := initial_tsn, cumulative_tsn := initial_tsn - 1\<rparr>"

section \<open>Growing\<close>

text \<open>The two flags say whether the allocations succeed. The size is stored in 16 bits.\<close>

definition sctp_expand_mapping_array :: "bool \<Rightarrow> bool \<Rightarrow> u32 \<Rightarrow> 'a rcv_asoc_scheme \<Rightarrow> (int \<times> 'a rcv_asoc_scheme) option" where
  "sctp_expand_mapping_array ok1 ok2 needed m =
     (let new_size = ucast (mapping_array_size m) + ((needed + 7) div 8 + SCTP_MAPPING_ARRAY_INCR);
          sz = unat (mapping_array_size m);
          grown = (\<lambda>arry. if sz \<le> length arry \<and> sz \<le> unat new_size
                          then Some (take sz arry @ replicate (unat new_size - sz) 0) else None)
      in if \<not> ok1 \<or> \<not> ok2 then Some (-1, m)
         else do { new_array1 \<leftarrow> grown (mapping_array m);
                   new_array2 \<leftarrow> grown (nr_mapping_array m);
                   Some (0, m\<lparr>mapping_array := new_array1, nr_mapping_array := new_array2,
                              mapping_array_size := ucast new_size\<rparr>) })"

section \<open>A received TSN\<close>

definition record_dup :: "u32 \<Rightarrow> 'a rcv_asoc_scheme \<Rightarrow> 'a rcv_asoc_scheme" where
  "record_dup tsn m =
     (let m = (if numduptsns m < SCTP_MAX_DUP_TSNS
               then m\<lparr>dup_tsns := (dup_tsns m)[unat (numduptsns m) := tsn], numduptsns := numduptsns m + 1\<rparr> else m)
      in m\<lparr>send_sack := 1\<rparr>)"

datatype tsn_verdict = Tsn_duplicate | Tsn_tossed | Tsn_new u32

text \<open>
  From the test for a duplicate up to the test for a second copy in \<^verbatim>\<open>sctp_process_a_data_chunk\<close>: the verdict on
  the TSN with the position of its bit, and the highest TSN of the packet.
\<close>

definition tsn_check :: "bool \<Rightarrow> bool \<Rightarrow> u32 \<Rightarrow> u32 \<Rightarrow> 'a rcv_asoc_scheme \<Rightarrow> (tsn_verdict \<times> u32 \<times> 'a rcv_asoc_scheme) option" where
  "tsn_check ok1 ok2 tsn high_tsn m =
     (if SCTP_TSN_GE (cumulative_tsn m) tsn then Some (Tsn_duplicate, high_tsn, record_dup tsn m)
      else
        let gap = SCTP_CALC_TSN_TO_GAP tsn (mapping_array_base_tsn m)
        in if gap \<ge> push_bit 3 SCTP_MAPPING_ARRAY then Some (Tsn_tossed, high_tsn, m)
           else do {
             (err, m) \<leftarrow> (if gap \<ge> push_bit 3 (ucast (mapping_array_size m)) then sctp_expand_mapping_array ok1 ok2 gap m
                          else Some (0, m));
             if err \<noteq> 0 then Some (Tsn_tossed, high_tsn, m)
             else do {
               let high_tsn = (if SCTP_TSN_GT tsn high_tsn then tsn else high_tsn);
               r \<leftarrow> SCTP_IS_TSN_PRESENT (mapping_array m) gap;
               nr \<leftarrow> (if r then Some True else SCTP_IS_TSN_PRESENT (nr_mapping_array m) gap);
               Some (if nr then (Tsn_duplicate, high_tsn, record_dup tsn m) else (Tsn_new gap, high_tsn, m)) } })"

text \<open>Marking a TSN that cannot be revoked, and one that can.\<close>

definition mark_nr :: "u32 \<Rightarrow> u32 \<Rightarrow> 'a rcv_asoc_scheme \<Rightarrow> 'a rcv_asoc_scheme option" where
  "mark_nr gap tsn m =
     do { arry \<leftarrow> SCTP_SET_TSN_PRESENT (nr_mapping_array m) gap;
          let m = m\<lparr>nr_mapping_array := arry\<rparr>;
          Some (if SCTP_TSN_GT tsn (highest_tsn_inside_nr_map m) then m\<lparr>highest_tsn_inside_nr_map := tsn\<rparr> else m) }"

definition mark_r :: "u32 \<Rightarrow> u32 \<Rightarrow> 'a rcv_asoc_scheme \<Rightarrow> 'a rcv_asoc_scheme option" where
  "mark_r gap tsn m =
     do { arry \<leftarrow> SCTP_SET_TSN_PRESENT (mapping_array m) gap;
          let m = m\<lparr>mapping_array := arry\<rparr>;
          Some (if SCTP_TSN_GT tsn (highest_tsn_inside_map m) then m\<lparr>highest_tsn_inside_map := tsn\<rparr> else m) }"

definition advance_cumulative :: "u32 \<Rightarrow> 'a rcv_asoc_scheme \<Rightarrow> 'a rcv_asoc_scheme" where
  "advance_cumulative tsn m = (if tsn = cumulative_tsn m + 1 then m\<lparr>cumulative_tsn := tsn\<rparr> else m)"

text \<open>
  The mark of a new TSN: data on an invalid stream and data that is delivered at once is not revokable, all other
  data is unless \<^verbatim>\<open>sctp_do_drain\<close> is off.
\<close>

definition tsn_mark :: "bool \<Rightarrow> bool \<Rightarrow> u32 \<Rightarrow> u32 \<Rightarrow> 'a rcv_asoc_scheme \<Rightarrow> 'a rcv_asoc_scheme option" where
  "tsn_mark do_drain express gap tsn m =
     do { m \<leftarrow> (if express \<or> \<not> do_drain then mark_nr gap tsn m else mark_r gap tsn m);
          Some (advance_cumulative tsn m) }"

section \<open>Data that can no longer be revoked\<close>

text \<open>The search for the new highest TSN in the mapping array, downwards from a TSN.\<close>

function back_down :: "bytes \<Rightarrow> u32 \<Rightarrow> u32 \<Rightarrow> u32 option option" where
  "back_down arry base i =
     (if SCTP_TSN_GE i base
      then do { p \<leftarrow> SCTP_IS_TSN_PRESENT arry (SCTP_CALC_TSN_TO_GAP i base);
                if p then Some (Some i) else back_down arry base (i - 1) }
      else Some None)"
  by pat_completeness auto
termination
  by (relation "measure (\<lambda>(arry, base, i). if SCTP_TSN_GE i base then Suc (unat (i - base)) else 0)")
    (simp_all add: TSN_GE_step)

declare back_down.simps [simp del]

text \<open>The mapping array has lost a TSN: if it was the highest one, look for the new highest one.\<close>

definition lower_highest :: "u32 \<Rightarrow> 'a rcv_asoc_scheme \<Rightarrow> 'a rcv_asoc_scheme option" where
  "lower_highest tsn m =
     (if tsn = highest_tsn_inside_map m
      then do { fnd \<leftarrow> back_down (mapping_array m) (mapping_array_base_tsn m) (tsn - 1);
                Some (m\<lparr>highest_tsn_inside_map := (case fnd of Some i \<Rightarrow> i | None \<Rightarrow> mapping_array_base_tsn m - 1)\<rparr>) }
      else Some m)"

definition raise_nr_highest :: "u32 \<Rightarrow> 'a rcv_asoc_scheme \<Rightarrow> 'a rcv_asoc_scheme" where
  "raise_nr_highest tsn m =
     (if SCTP_TSN_GT tsn (highest_tsn_inside_nr_map m) then m\<lparr>highest_tsn_inside_nr_map := tsn\<rparr> else m)"

definition sctp_mark_non_revokable :: "bool \<Rightarrow> u32 \<Rightarrow> 'a rcv_asoc_scheme \<Rightarrow> 'a rcv_asoc_scheme option" where
  "sctp_mark_non_revokable do_drain tsn m =
     (if \<not> do_drain then Some m
      else if SCTP_TSN_GT (cumulative_tsn m + 1) tsn then Some m
      else do {
        let gap = SCTP_CALC_TSN_TO_GAP tsn (mapping_array_base_tsn m);
        in_r \<leftarrow> SCTP_IS_TSN_PRESENT (mapping_array m) gap;
        in_nr \<leftarrow> SCTP_IS_TSN_PRESENT (nr_mapping_array m) gap;
        m \<leftarrow> (if \<not> in_nr then do { arry \<leftarrow> SCTP_SET_TSN_PRESENT (nr_mapping_array m) gap; Some (m\<lparr>nr_mapping_array := arry\<rparr>) }
              else Some m);
        m \<leftarrow> (if in_r then do { arry \<leftarrow> SCTP_UNSET_TSN_PRESENT (mapping_array m) gap; Some (m\<lparr>mapping_array := arry\<rparr>) }
              else Some m);
        lower_highest tsn (raise_nr_highest tsn m) })"

section \<open>Sliding\<close>

text \<open>The number of trailing one bits of a byte.\<close>

definition sctp_map_lookup_tab :: "int list" where
  "sctp_map_lookup_tab =
    [0, 1, 0, 2, 0, 1, 0, 3, 0, 1, 0, 2, 0, 1, 0, 4, 0, 1, 0, 2, 0, 1, 0, 3, 0, 1, 0, 2, 0, 1, 0, 5,
     0, 1, 0, 2, 0, 1, 0, 3, 0, 1, 0, 2, 0, 1, 0, 4, 0, 1, 0, 2, 0, 1, 0, 3, 0, 1, 0, 2, 0, 1, 0, 6,
     0, 1, 0, 2, 0, 1, 0, 3, 0, 1, 0, 2, 0, 1, 0, 4, 0, 1, 0, 2, 0, 1, 0, 3, 0, 1, 0, 2, 0, 1, 0, 5,
     0, 1, 0, 2, 0, 1, 0, 3, 0, 1, 0, 2, 0, 1, 0, 4, 0, 1, 0, 2, 0, 1, 0, 3, 0, 1, 0, 2, 0, 1, 0, 7,
     0, 1, 0, 2, 0, 1, 0, 3, 0, 1, 0, 2, 0, 1, 0, 4, 0, 1, 0, 2, 0, 1, 0, 3, 0, 1, 0, 2, 0, 1, 0, 5,
     0, 1, 0, 2, 0, 1, 0, 3, 0, 1, 0, 2, 0, 1, 0, 4, 0, 1, 0, 2, 0, 1, 0, 3, 0, 1, 0, 2, 0, 1, 0, 6,
     0, 1, 0, 2, 0, 1, 0, 3, 0, 1, 0, 2, 0, 1, 0, 4, 0, 1, 0, 2, 0, 1, 0, 3, 0, 1, 0, 2, 0, 1, 0, 5,
     0, 1, 0, 2, 0, 1, 0, 3, 0, 1, 0, 2, 0, 1, 0, 4, 0, 1, 0, 2, 0, 1, 0, 3, 0, 1, 0, 2, 0, 1, 0, 8]"

text \<open>The first byte that is not full, and the number of TSNs received without a gap from the base on.\<close>

function slide_scan :: "bytes \<Rightarrow> bytes \<Rightarrow> nat \<Rightarrow> nat \<Rightarrow> int \<Rightarrow> (nat \<times> int) option" where
  "slide_scan nr r sz slide_from at =
     (if slide_from < sz
      then do { a \<leftarrow> byte_at nr slide_from;
                b \<leftarrow> byte_at r slide_from;
                let val = a OR b;
                if val = 0xff then slide_scan nr r sz (slide_from + 1) (at + 8)
                else Some (slide_from, at + sctp_map_lookup_tab ! unat val) }
      else Some (slide_from, at))"
  by pat_completeness auto
termination by (relation "measure (\<lambda>(nr, r, sz, slide_from, at). sz - slide_from)") auto

declare slide_scan.simps [simp del]

definition zero_prefix :: "nat \<Rightarrow> bytes \<Rightarrow> bytes option" where
  "zero_prefix n arry = (if n \<le> length arry then Some (replicate n 0 @ drop n arry) else None)"

text \<open>Moving \<open>distance\<close> bytes to the front, one by one, and clearing the rest.\<close>

definition slide_down :: "nat \<Rightarrow> nat \<Rightarrow> nat \<Rightarrow> bytes \<Rightarrow> bytes option" where
  "slide_down slide_from distance sz arry =
     (if sz \<le> length arry
      then Some (fold (\<lambda>ii a. a[ii := 0]) [distance..<sz] (fold (\<lambda>ii a. a[ii := a ! (slide_from + ii)]) [0..<distance] arry))
      else None)"

definition highest_of :: "'a rcv_asoc_scheme \<Rightarrow> u32" where
  "highest_of m =
     (if SCTP_TSN_GT (highest_tsn_inside_nr_map m) (highest_tsn_inside_map m) then highest_tsn_inside_nr_map m
      else highest_tsn_inside_map m)"

text \<open>The whole array was filled: start afresh behind the cumulative TSN.\<close>

definition slide_all :: "int \<Rightarrow> 'a rcv_asoc_scheme \<Rightarrow> 'a rcv_asoc_scheme option" where
  "slide_all at m =
     do { let clr = (let c = (at + 7) div 8 in if c > uint (mapping_array_size m) then uint (mapping_array_size m) else c);
          r \<leftarrow> zero_prefix (nat clr) (mapping_array m);
          nr \<leftarrow> zero_prefix (nat clr) (nr_mapping_array m);
          Some (m\<lparr>mapping_array := r, nr_mapping_array := nr, mapping_array_base_tsn := cumulative_tsn m + 1,
                  highest_tsn_inside_nr_map := cumulative_tsn m, highest_tsn_inside_map := cumulative_tsn m\<rparr>) }"

text \<open>Dropping the bytes before \<open>slide_from\<close>. The position of the highest TSN is stored in an int.\<close>

definition slide_bytes :: "nat \<Rightarrow> u32 \<Rightarrow> 'a rcv_asoc_scheme \<Rightarrow> 'a rcv_asoc_scheme option" where
  "slide_bytes slide_from highest_tsn m =
     (let lgap = sint (SCTP_CALC_TSN_TO_GAP highest_tsn (mapping_array_base_tsn m));
          slide_end = lgap div 8;
          sz = uint (mapping_array_size m)
      in if slide_end < int slide_from then Some m
         else
           let slide_end = (if slide_end > sz then sz else slide_end);
               distance = (slide_end - int slide_from) + 1
           in if distance + int slide_from > sz \<or> distance < 0 then Some m
              else do {
                r \<leftarrow> slide_down slide_from (nat distance) (nat sz) (mapping_array m);
                nr \<leftarrow> slide_down slide_from (nat distance) (nat sz) (nr_mapping_array m);
                let m = m\<lparr>mapping_array := r, nr_mapping_array := nr\<rparr>;
                let m = (if highest_tsn_inside_map m + 1 = mapping_array_base_tsn m
                         then m\<lparr>highest_tsn_inside_map := highest_tsn_inside_map m + word_of_nat (slide_from * 8)\<rparr> else m);
                let m = (if highest_tsn_inside_nr_map m + 1 = mapping_array_base_tsn m
                         then m\<lparr>highest_tsn_inside_nr_map := highest_tsn_inside_nr_map m + word_of_nat (slide_from * 8)\<rparr> else m);
                Some (m\<lparr>mapping_array_base_tsn := mapping_array_base_tsn m + word_of_nat (slide_from * 8)\<rparr>) })"

definition sctp_slide_mapping_arrays :: "'a rcv_asoc_scheme \<Rightarrow> 'a rcv_asoc_scheme option" where
  "sctp_slide_mapping_arrays m =
     do { (slide_from, at) \<leftarrow> slide_scan (nr_mapping_array m) (mapping_array m) (unat (mapping_array_size m)) 0 0;
          let m = m\<lparr>cumulative_tsn := mapping_array_base_tsn m + word_of_int (at - 1)\<rparr>;
          let m = (if SCTP_TSN_GT (cumulative_tsn m) (highest_tsn_inside_map m) \<and>
                      SCTP_TSN_GT (cumulative_tsn m) (highest_tsn_inside_nr_map m)
                   then m\<lparr>highest_tsn_inside_map := cumulative_tsn m, highest_tsn_inside_nr_map := cumulative_tsn m\<rparr> else m);
          if cumulative_tsn m = highest_of m \<and> at \<ge> 8 then slide_all at m
          else if at \<ge> 8 then slide_bytes slide_from (highest_of m) m
          else Some m }"

section \<open>FORWARD-TSN\<close>

datatype 'm fwd_result = Fwd_old | Fwd_abort 'm | Fwd_moved 'm

text \<open>
  \<^verbatim>\<open>SCTP_TSN_GT\<close> with the argument \<^verbatim>\<open>mapping_array_base_tsn + i\<close>: the macro puts no parentheses around its arguments, so
  its first difference is \<open>h - b + i\<close>.
\<close>

definition skip_gt :: "u32 \<Rightarrow> u32 \<Rightarrow> u32 \<Rightarrow> bool" where
  "skip_gt b i h \<longleftrightarrow> (b + i < h \<and> h - b + i > push_bit 31 1) \<or> (b + i > h \<and> b + i - h < push_bit 31 1)"

definition mark_skipped :: "u32 \<Rightarrow> 'a rcv_asoc_scheme \<Rightarrow> 'a rcv_asoc_scheme option" where
  "mark_skipped i m =
     do { arry \<leftarrow> SCTP_SET_TSN_PRESENT (nr_mapping_array m) i;
          let m = m\<lparr>nr_mapping_array := arry\<rparr>;
          Some (if skip_gt (mapping_array_base_tsn m) i (highest_tsn_inside_nr_map m)
                then m\<lparr>highest_tsn_inside_nr_map := mapping_array_base_tsn m + i\<rparr> else m) }"

fun skip_tsns :: "nat \<Rightarrow> u32 \<Rightarrow> 'a rcv_asoc_scheme \<Rightarrow> 'a rcv_asoc_scheme option" where
  "skip_tsns 0 i m = Some m"
| "skip_tsns (Suc n) i m =
     do { r \<leftarrow> SCTP_IS_TSN_PRESENT (mapping_array m) i;
          nr \<leftarrow> (if r then Some True else SCTP_IS_TSN_PRESENT (nr_mapping_array m) i);
          m \<leftarrow> (if nr then Some m else mark_skipped i m);
          skip_tsns n (i + 1) m }"

text \<open>
  The first part of \<^verbatim>\<open>sctp_handle_forward_tsn\<close>, with the new cumulative TSN of the chunk and the space left in the
  socket buffer: the chunk is old, the association is aborted, or the handler goes on with the new state.
\<close>

definition forward_tsn_map :: "u32 \<Rightarrow> int \<Rightarrow> 'a rcv_asoc_scheme \<Rightarrow> 'a rcv_asoc_scheme fwd_result option" where
  "forward_tsn_map new_cum_tsn sbspace m =
     (if SCTP_TSN_GE (cumulative_tsn m) new_cum_tsn then Some Fwd_old
      else
        let m_size = push_bit 3 (ucast (mapping_array_size m));
            gap = SCTP_CALC_TSN_TO_GAP new_cum_tsn (mapping_array_base_tsn m);
            m = m\<lparr>cumulative_tsn := new_cum_tsn\<rparr>
        in if gap \<ge> m_size
           then if uint gap > sbspace then Some (Fwd_abort m)
                else do { r \<leftarrow> zero_prefix (unat (mapping_array_size m)) (mapping_array m);
                          nr \<leftarrow> zero_prefix (unat (mapping_array_size m)) (nr_mapping_array m);
                          Some (Fwd_moved (m\<lparr>mapping_array := r, nr_mapping_array := nr, mapping_array_base_tsn := new_cum_tsn + 1,
                                       highest_tsn_inside_map := new_cum_tsn, highest_tsn_inside_nr_map := new_cum_tsn\<rparr>)) }
           else map_option Fwd_moved (skip_tsns (unat gap + 1) 0 m))"

end
