(* ===== verification/Sack_Table.thy ===== *)
theory Sack_Table
  imports Sctp_Prelude
begin

text \<open>
  The table \<^verbatim>\<open>sack_array\<close> of netinet/sctp_output.c: for each value of a byte of the mapping array the runs of
  one bits in it, whether the first run begins at the first bit and whether the last one ends at the last
  bit. The values are copied from the source, in blocks of sixteen rows; the table is then shown to
  be what it is meant to be.
\<close>

section \<open>Rows\<close>

text \<open>A gap block: first and last offset.\<close>

record sctp_gap_ack_block =
  start :: u16
  last_of :: u16

definition SCTP_MAX_GAPS_INARRAY :: nat where "SCTP_MAX_GAPS_INARRAY = 4"

record sack_track =
  right_edge :: u8
  left_edge :: u8
  num_entries :: u8
  spare :: u8
  gaps :: "sctp_gap_ack_block list"

abbreviation gap_row :: "u16 \<times> u16 \<Rightarrow> sctp_gap_ack_block" where
  "gap_row \<equiv> \<lambda>(a, b). \<lparr>start = a, last_of = b\<rparr>"

abbreviation sack_row :: "u8 \<Rightarrow> u8 \<Rightarrow> u8 \<Rightarrow> u8 \<Rightarrow> (u16 \<times> u16) list \<Rightarrow> sack_track" where
  "sack_row r l n s g \<equiv> \<lparr>right_edge = r, left_edge = l, num_entries = n, spare = s, gaps = map gap_row g\<rparr>"

definition sack_array_00 :: "sack_track list" where
  "sack_array_00 = [
     sack_row 0 0 0 0 [(0, 0), (0, 0), (0, 0), (0, 0)],
     sack_row 1 0 1 0 [(0, 0), (0, 0), (0, 0), (0, 0)],
     sack_row 0 0 1 0 [(1, 1), (0, 0), (0, 0), (0, 0)],
     sack_row 1 0 1 0 [(0, 1), (0, 0), (0, 0), (0, 0)],
     sack_row 0 0 1 0 [(2, 2), (0, 0), (0, 0), (0, 0)],
     sack_row 1 0 2 0 [(0, 0), (2, 2), (0, 0), (0, 0)],
     sack_row 0 0 1 0 [(1, 2), (0, 0), (0, 0), (0, 0)],
     sack_row 1 0 1 0 [(0, 2), (0, 0), (0, 0), (0, 0)],
     sack_row 0 0 1 0 [(3, 3), (0, 0), (0, 0), (0, 0)],
     sack_row 1 0 2 0 [(0, 0), (3, 3), (0, 0), (0, 0)],
     sack_row 0 0 2 0 [(1, 1), (3, 3), (0, 0), (0, 0)],
     sack_row 1 0 2 0 [(0, 1), (3, 3), (0, 0), (0, 0)],
     sack_row 0 0 1 0 [(2, 3), (0, 0), (0, 0), (0, 0)],
     sack_row 1 0 2 0 [(0, 0), (2, 3), (0, 0), (0, 0)],
     sack_row 0 0 1 0 [(1, 3), (0, 0), (0, 0), (0, 0)],
     sack_row 1 0 1 0 [(0, 3), (0, 0), (0, 0), (0, 0)]]"

definition sack_array_10 :: "sack_track list" where
  "sack_array_10 = [
     sack_row 0 0 1 0 [(4, 4), (0, 0), (0, 0), (0, 0)],
     sack_row 1 0 2 0 [(0, 0), (4, 4), (0, 0), (0, 0)],
     sack_row 0 0 2 0 [(1, 1), (4, 4), (0, 0), (0, 0)],
     sack_row 1 0 2 0 [(0, 1), (4, 4), (0, 0), (0, 0)],
     sack_row 0 0 2 0 [(2, 2), (4, 4), (0, 0), (0, 0)],
     sack_row 1 0 3 0 [(0, 0), (2, 2), (4, 4), (0, 0)],
     sack_row 0 0 2 0 [(1, 2), (4, 4), (0, 0), (0, 0)],
     sack_row 1 0 2 0 [(0, 2), (4, 4), (0, 0), (0, 0)],
     sack_row 0 0 1 0 [(3, 4), (0, 0), (0, 0), (0, 0)],
     sack_row 1 0 2 0 [(0, 0), (3, 4), (0, 0), (0, 0)],
     sack_row 0 0 2 0 [(1, 1), (3, 4), (0, 0), (0, 0)],
     sack_row 1 0 2 0 [(0, 1), (3, 4), (0, 0), (0, 0)],
     sack_row 0 0 1 0 [(2, 4), (0, 0), (0, 0), (0, 0)],
     sack_row 1 0 2 0 [(0, 0), (2, 4), (0, 0), (0, 0)],
     sack_row 0 0 1 0 [(1, 4), (0, 0), (0, 0), (0, 0)],
     sack_row 1 0 1 0 [(0, 4), (0, 0), (0, 0), (0, 0)]]"

definition sack_array_20 :: "sack_track list" where
  "sack_array_20 = [
     sack_row 0 0 1 0 [(5, 5), (0, 0), (0, 0), (0, 0)],
     sack_row 1 0 2 0 [(0, 0), (5, 5), (0, 0), (0, 0)],
     sack_row 0 0 2 0 [(1, 1), (5, 5), (0, 0), (0, 0)],
     sack_row 1 0 2 0 [(0, 1), (5, 5), (0, 0), (0, 0)],
     sack_row 0 0 2 0 [(2, 2), (5, 5), (0, 0), (0, 0)],
     sack_row 1 0 3 0 [(0, 0), (2, 2), (5, 5), (0, 0)],
     sack_row 0 0 2 0 [(1, 2), (5, 5), (0, 0), (0, 0)],
     sack_row 1 0 2 0 [(0, 2), (5, 5), (0, 0), (0, 0)],
     sack_row 0 0 2 0 [(3, 3), (5, 5), (0, 0), (0, 0)],
     sack_row 1 0 3 0 [(0, 0), (3, 3), (5, 5), (0, 0)],
     sack_row 0 0 3 0 [(1, 1), (3, 3), (5, 5), (0, 0)],
     sack_row 1 0 3 0 [(0, 1), (3, 3), (5, 5), (0, 0)],
     sack_row 0 0 2 0 [(2, 3), (5, 5), (0, 0), (0, 0)],
     sack_row 1 0 3 0 [(0, 0), (2, 3), (5, 5), (0, 0)],
     sack_row 0 0 2 0 [(1, 3), (5, 5), (0, 0), (0, 0)],
     sack_row 1 0 2 0 [(0, 3), (5, 5), (0, 0), (0, 0)]]"

definition sack_array_30 :: "sack_track list" where
  "sack_array_30 = [
     sack_row 0 0 1 0 [(4, 5), (0, 0), (0, 0), (0, 0)],
     sack_row 1 0 2 0 [(0, 0), (4, 5), (0, 0), (0, 0)],
     sack_row 0 0 2 0 [(1, 1), (4, 5), (0, 0), (0, 0)],
     sack_row 1 0 2 0 [(0, 1), (4, 5), (0, 0), (0, 0)],
     sack_row 0 0 2 0 [(2, 2), (4, 5), (0, 0), (0, 0)],
     sack_row 1 0 3 0 [(0, 0), (2, 2), (4, 5), (0, 0)],
     sack_row 0 0 2 0 [(1, 2), (4, 5), (0, 0), (0, 0)],
     sack_row 1 0 2 0 [(0, 2), (4, 5), (0, 0), (0, 0)],
     sack_row 0 0 1 0 [(3, 5), (0, 0), (0, 0), (0, 0)],
     sack_row 1 0 2 0 [(0, 0), (3, 5), (0, 0), (0, 0)],
     sack_row 0 0 2 0 [(1, 1), (3, 5), (0, 0), (0, 0)],
     sack_row 1 0 2 0 [(0, 1), (3, 5), (0, 0), (0, 0)],
     sack_row 0 0 1 0 [(2, 5), (0, 0), (0, 0), (0, 0)],
     sack_row 1 0 2 0 [(0, 0), (2, 5), (0, 0), (0, 0)],
     sack_row 0 0 1 0 [(1, 5), (0, 0), (0, 0), (0, 0)],
     sack_row 1 0 1 0 [(0, 5), (0, 0), (0, 0), (0, 0)]]"

definition sack_array_40 :: "sack_track list" where
  "sack_array_40 = [
     sack_row 0 0 1 0 [(6, 6), (0, 0), (0, 0), (0, 0)],
     sack_row 1 0 2 0 [(0, 0), (6, 6), (0, 0), (0, 0)],
     sack_row 0 0 2 0 [(1, 1), (6, 6), (0, 0), (0, 0)],
     sack_row 1 0 2 0 [(0, 1), (6, 6), (0, 0), (0, 0)],
     sack_row 0 0 2 0 [(2, 2), (6, 6), (0, 0), (0, 0)],
     sack_row 1 0 3 0 [(0, 0), (2, 2), (6, 6), (0, 0)],
     sack_row 0 0 2 0 [(1, 2), (6, 6), (0, 0), (0, 0)],
     sack_row 1 0 2 0 [(0, 2), (6, 6), (0, 0), (0, 0)],
     sack_row 0 0 2 0 [(3, 3), (6, 6), (0, 0), (0, 0)],
     sack_row 1 0 3 0 [(0, 0), (3, 3), (6, 6), (0, 0)],
     sack_row 0 0 3 0 [(1, 1), (3, 3), (6, 6), (0, 0)],
     sack_row 1 0 3 0 [(0, 1), (3, 3), (6, 6), (0, 0)],
     sack_row 0 0 2 0 [(2, 3), (6, 6), (0, 0), (0, 0)],
     sack_row 1 0 3 0 [(0, 0), (2, 3), (6, 6), (0, 0)],
     sack_row 0 0 2 0 [(1, 3), (6, 6), (0, 0), (0, 0)],
     sack_row 1 0 2 0 [(0, 3), (6, 6), (0, 0), (0, 0)]]"

definition sack_array_50 :: "sack_track list" where
  "sack_array_50 = [
     sack_row 0 0 2 0 [(4, 4), (6, 6), (0, 0), (0, 0)],
     sack_row 1 0 3 0 [(0, 0), (4, 4), (6, 6), (0, 0)],
     sack_row 0 0 3 0 [(1, 1), (4, 4), (6, 6), (0, 0)],
     sack_row 1 0 3 0 [(0, 1), (4, 4), (6, 6), (0, 0)],
     sack_row 0 0 3 0 [(2, 2), (4, 4), (6, 6), (0, 0)],
     sack_row 1 0 4 0 [(0, 0), (2, 2), (4, 4), (6, 6)],
     sack_row 0 0 3 0 [(1, 2), (4, 4), (6, 6), (0, 0)],
     sack_row 1 0 3 0 [(0, 2), (4, 4), (6, 6), (0, 0)],
     sack_row 0 0 2 0 [(3, 4), (6, 6), (0, 0), (0, 0)],
     sack_row 1 0 3 0 [(0, 0), (3, 4), (6, 6), (0, 0)],
     sack_row 0 0 3 0 [(1, 1), (3, 4), (6, 6), (0, 0)],
     sack_row 1 0 3 0 [(0, 1), (3, 4), (6, 6), (0, 0)],
     sack_row 0 0 2 0 [(2, 4), (6, 6), (0, 0), (0, 0)],
     sack_row 1 0 3 0 [(0, 0), (2, 4), (6, 6), (0, 0)],
     sack_row 0 0 2 0 [(1, 4), (6, 6), (0, 0), (0, 0)],
     sack_row 1 0 2 0 [(0, 4), (6, 6), (0, 0), (0, 0)]]"

definition sack_array_60 :: "sack_track list" where
  "sack_array_60 = [
     sack_row 0 0 1 0 [(5, 6), (0, 0), (0, 0), (0, 0)],
     sack_row 1 0 2 0 [(0, 0), (5, 6), (0, 0), (0, 0)],
     sack_row 0 0 2 0 [(1, 1), (5, 6), (0, 0), (0, 0)],
     sack_row 1 0 2 0 [(0, 1), (5, 6), (0, 0), (0, 0)],
     sack_row 0 0 2 0 [(2, 2), (5, 6), (0, 0), (0, 0)],
     sack_row 1 0 3 0 [(0, 0), (2, 2), (5, 6), (0, 0)],
     sack_row 0 0 2 0 [(1, 2), (5, 6), (0, 0), (0, 0)],
     sack_row 1 0 2 0 [(0, 2), (5, 6), (0, 0), (0, 0)],
     sack_row 0 0 2 0 [(3, 3), (5, 6), (0, 0), (0, 0)],
     sack_row 1 0 3 0 [(0, 0), (3, 3), (5, 6), (0, 0)],
     sack_row 0 0 3 0 [(1, 1), (3, 3), (5, 6), (0, 0)],
     sack_row 1 0 3 0 [(0, 1), (3, 3), (5, 6), (0, 0)],
     sack_row 0 0 2 0 [(2, 3), (5, 6), (0, 0), (0, 0)],
     sack_row 1 0 3 0 [(0, 0), (2, 3), (5, 6), (0, 0)],
     sack_row 0 0 2 0 [(1, 3), (5, 6), (0, 0), (0, 0)],
     sack_row 1 0 2 0 [(0, 3), (5, 6), (0, 0), (0, 0)]]"

definition sack_array_70 :: "sack_track list" where
  "sack_array_70 = [
     sack_row 0 0 1 0 [(4, 6), (0, 0), (0, 0), (0, 0)],
     sack_row 1 0 2 0 [(0, 0), (4, 6), (0, 0), (0, 0)],
     sack_row 0 0 2 0 [(1, 1), (4, 6), (0, 0), (0, 0)],
     sack_row 1 0 2 0 [(0, 1), (4, 6), (0, 0), (0, 0)],
     sack_row 0 0 2 0 [(2, 2), (4, 6), (0, 0), (0, 0)],
     sack_row 1 0 3 0 [(0, 0), (2, 2), (4, 6), (0, 0)],
     sack_row 0 0 2 0 [(1, 2), (4, 6), (0, 0), (0, 0)],
     sack_row 1 0 2 0 [(0, 2), (4, 6), (0, 0), (0, 0)],
     sack_row 0 0 1 0 [(3, 6), (0, 0), (0, 0), (0, 0)],
     sack_row 1 0 2 0 [(0, 0), (3, 6), (0, 0), (0, 0)],
     sack_row 0 0 2 0 [(1, 1), (3, 6), (0, 0), (0, 0)],
     sack_row 1 0 2 0 [(0, 1), (3, 6), (0, 0), (0, 0)],
     sack_row 0 0 1 0 [(2, 6), (0, 0), (0, 0), (0, 0)],
     sack_row 1 0 2 0 [(0, 0), (2, 6), (0, 0), (0, 0)],
     sack_row 0 0 1 0 [(1, 6), (0, 0), (0, 0), (0, 0)],
     sack_row 1 0 1 0 [(0, 6), (0, 0), (0, 0), (0, 0)]]"

definition sack_array_80 :: "sack_track list" where
  "sack_array_80 = [
     sack_row 0 1 1 0 [(7, 7), (0, 0), (0, 0), (0, 0)],
     sack_row 1 1 2 0 [(0, 0), (7, 7), (0, 0), (0, 0)],
     sack_row 0 1 2 0 [(1, 1), (7, 7), (0, 0), (0, 0)],
     sack_row 1 1 2 0 [(0, 1), (7, 7), (0, 0), (0, 0)],
     sack_row 0 1 2 0 [(2, 2), (7, 7), (0, 0), (0, 0)],
     sack_row 1 1 3 0 [(0, 0), (2, 2), (7, 7), (0, 0)],
     sack_row 0 1 2 0 [(1, 2), (7, 7), (0, 0), (0, 0)],
     sack_row 1 1 2 0 [(0, 2), (7, 7), (0, 0), (0, 0)],
     sack_row 0 1 2 0 [(3, 3), (7, 7), (0, 0), (0, 0)],
     sack_row 1 1 3 0 [(0, 0), (3, 3), (7, 7), (0, 0)],
     sack_row 0 1 3 0 [(1, 1), (3, 3), (7, 7), (0, 0)],
     sack_row 1 1 3 0 [(0, 1), (3, 3), (7, 7), (0, 0)],
     sack_row 0 1 2 0 [(2, 3), (7, 7), (0, 0), (0, 0)],
     sack_row 1 1 3 0 [(0, 0), (2, 3), (7, 7), (0, 0)],
     sack_row 0 1 2 0 [(1, 3), (7, 7), (0, 0), (0, 0)],
     sack_row 1 1 2 0 [(0, 3), (7, 7), (0, 0), (0, 0)]]"

definition sack_array_90 :: "sack_track list" where
  "sack_array_90 = [
     sack_row 0 1 2 0 [(4, 4), (7, 7), (0, 0), (0, 0)],
     sack_row 1 1 3 0 [(0, 0), (4, 4), (7, 7), (0, 0)],
     sack_row 0 1 3 0 [(1, 1), (4, 4), (7, 7), (0, 0)],
     sack_row 1 1 3 0 [(0, 1), (4, 4), (7, 7), (0, 0)],
     sack_row 0 1 3 0 [(2, 2), (4, 4), (7, 7), (0, 0)],
     sack_row 1 1 4 0 [(0, 0), (2, 2), (4, 4), (7, 7)],
     sack_row 0 1 3 0 [(1, 2), (4, 4), (7, 7), (0, 0)],
     sack_row 1 1 3 0 [(0, 2), (4, 4), (7, 7), (0, 0)],
     sack_row 0 1 2 0 [(3, 4), (7, 7), (0, 0), (0, 0)],
     sack_row 1 1 3 0 [(0, 0), (3, 4), (7, 7), (0, 0)],
     sack_row 0 1 3 0 [(1, 1), (3, 4), (7, 7), (0, 0)],
     sack_row 1 1 3 0 [(0, 1), (3, 4), (7, 7), (0, 0)],
     sack_row 0 1 2 0 [(2, 4), (7, 7), (0, 0), (0, 0)],
     sack_row 1 1 3 0 [(0, 0), (2, 4), (7, 7), (0, 0)],
     sack_row 0 1 2 0 [(1, 4), (7, 7), (0, 0), (0, 0)],
     sack_row 1 1 2 0 [(0, 4), (7, 7), (0, 0), (0, 0)]]"

definition sack_array_a0 :: "sack_track list" where
  "sack_array_a0 = [
     sack_row 0 1 2 0 [(5, 5), (7, 7), (0, 0), (0, 0)],
     sack_row 1 1 3 0 [(0, 0), (5, 5), (7, 7), (0, 0)],
     sack_row 0 1 3 0 [(1, 1), (5, 5), (7, 7), (0, 0)],
     sack_row 1 1 3 0 [(0, 1), (5, 5), (7, 7), (0, 0)],
     sack_row 0 1 3 0 [(2, 2), (5, 5), (7, 7), (0, 0)],
     sack_row 1 1 4 0 [(0, 0), (2, 2), (5, 5), (7, 7)],
     sack_row 0 1 3 0 [(1, 2), (5, 5), (7, 7), (0, 0)],
     sack_row 1 1 3 0 [(0, 2), (5, 5), (7, 7), (0, 0)],
     sack_row 0 1 3 0 [(3, 3), (5, 5), (7, 7), (0, 0)],
     sack_row 1 1 4 0 [(0, 0), (3, 3), (5, 5), (7, 7)],
     sack_row 0 1 4 0 [(1, 1), (3, 3), (5, 5), (7, 7)],
     sack_row 1 1 4 0 [(0, 1), (3, 3), (5, 5), (7, 7)],
     sack_row 0 1 3 0 [(2, 3), (5, 5), (7, 7), (0, 0)],
     sack_row 1 1 4 0 [(0, 0), (2, 3), (5, 5), (7, 7)],
     sack_row 0 1 3 0 [(1, 3), (5, 5), (7, 7), (0, 0)],
     sack_row 1 1 3 0 [(0, 3), (5, 5), (7, 7), (0, 0)]]"

definition sack_array_b0 :: "sack_track list" where
  "sack_array_b0 = [
     sack_row 0 1 2 0 [(4, 5), (7, 7), (0, 0), (0, 0)],
     sack_row 1 1 3 0 [(0, 0), (4, 5), (7, 7), (0, 0)],
     sack_row 0 1 3 0 [(1, 1), (4, 5), (7, 7), (0, 0)],
     sack_row 1 1 3 0 [(0, 1), (4, 5), (7, 7), (0, 0)],
     sack_row 0 1 3 0 [(2, 2), (4, 5), (7, 7), (0, 0)],
     sack_row 1 1 4 0 [(0, 0), (2, 2), (4, 5), (7, 7)],
     sack_row 0 1 3 0 [(1, 2), (4, 5), (7, 7), (0, 0)],
     sack_row 1 1 3 0 [(0, 2), (4, 5), (7, 7), (0, 0)],
     sack_row 0 1 2 0 [(3, 5), (7, 7), (0, 0), (0, 0)],
     sack_row 1 1 3 0 [(0, 0), (3, 5), (7, 7), (0, 0)],
     sack_row 0 1 3 0 [(1, 1), (3, 5), (7, 7), (0, 0)],
     sack_row 1 1 3 0 [(0, 1), (3, 5), (7, 7), (0, 0)],
     sack_row 0 1 2 0 [(2, 5), (7, 7), (0, 0), (0, 0)],
     sack_row 1 1 3 0 [(0, 0), (2, 5), (7, 7), (0, 0)],
     sack_row 0 1 2 0 [(1, 5), (7, 7), (0, 0), (0, 0)],
     sack_row 1 1 2 0 [(0, 5), (7, 7), (0, 0), (0, 0)]]"

definition sack_array_c0 :: "sack_track list" where
  "sack_array_c0 = [
     sack_row 0 1 1 0 [(6, 7), (0, 0), (0, 0), (0, 0)],
     sack_row 1 1 2 0 [(0, 0), (6, 7), (0, 0), (0, 0)],
     sack_row 0 1 2 0 [(1, 1), (6, 7), (0, 0), (0, 0)],
     sack_row 1 1 2 0 [(0, 1), (6, 7), (0, 0), (0, 0)],
     sack_row 0 1 2 0 [(2, 2), (6, 7), (0, 0), (0, 0)],
     sack_row 1 1 3 0 [(0, 0), (2, 2), (6, 7), (0, 0)],
     sack_row 0 1 2 0 [(1, 2), (6, 7), (0, 0), (0, 0)],
     sack_row 1 1 2 0 [(0, 2), (6, 7), (0, 0), (0, 0)],
     sack_row 0 1 2 0 [(3, 3), (6, 7), (0, 0), (0, 0)],
     sack_row 1 1 3 0 [(0, 0), (3, 3), (6, 7), (0, 0)],
     sack_row 0 1 3 0 [(1, 1), (3, 3), (6, 7), (0, 0)],
     sack_row 1 1 3 0 [(0, 1), (3, 3), (6, 7), (0, 0)],
     sack_row 0 1 2 0 [(2, 3), (6, 7), (0, 0), (0, 0)],
     sack_row 1 1 3 0 [(0, 0), (2, 3), (6, 7), (0, 0)],
     sack_row 0 1 2 0 [(1, 3), (6, 7), (0, 0), (0, 0)],
     sack_row 1 1 2 0 [(0, 3), (6, 7), (0, 0), (0, 0)]]"

definition sack_array_d0 :: "sack_track list" where
  "sack_array_d0 = [
     sack_row 0 1 2 0 [(4, 4), (6, 7), (0, 0), (0, 0)],
     sack_row 1 1 3 0 [(0, 0), (4, 4), (6, 7), (0, 0)],
     sack_row 0 1 3 0 [(1, 1), (4, 4), (6, 7), (0, 0)],
     sack_row 1 1 3 0 [(0, 1), (4, 4), (6, 7), (0, 0)],
     sack_row 0 1 3 0 [(2, 2), (4, 4), (6, 7), (0, 0)],
     sack_row 1 1 4 0 [(0, 0), (2, 2), (4, 4), (6, 7)],
     sack_row 0 1 3 0 [(1, 2), (4, 4), (6, 7), (0, 0)],
     sack_row 1 1 3 0 [(0, 2), (4, 4), (6, 7), (0, 0)],
     sack_row 0 1 2 0 [(3, 4), (6, 7), (0, 0), (0, 0)],
     sack_row 1 1 3 0 [(0, 0), (3, 4), (6, 7), (0, 0)],
     sack_row 0 1 3 0 [(1, 1), (3, 4), (6, 7), (0, 0)],
     sack_row 1 1 3 0 [(0, 1), (3, 4), (6, 7), (0, 0)],
     sack_row 0 1 2 0 [(2, 4), (6, 7), (0, 0), (0, 0)],
     sack_row 1 1 3 0 [(0, 0), (2, 4), (6, 7), (0, 0)],
     sack_row 0 1 2 0 [(1, 4), (6, 7), (0, 0), (0, 0)],
     sack_row 1 1 2 0 [(0, 4), (6, 7), (0, 0), (0, 0)]]"

definition sack_array_e0 :: "sack_track list" where
  "sack_array_e0 = [
     sack_row 0 1 1 0 [(5, 7), (0, 0), (0, 0), (0, 0)],
     sack_row 1 1 2 0 [(0, 0), (5, 7), (0, 0), (0, 0)],
     sack_row 0 1 2 0 [(1, 1), (5, 7), (0, 0), (0, 0)],
     sack_row 1 1 2 0 [(0, 1), (5, 7), (0, 0), (0, 0)],
     sack_row 0 1 2 0 [(2, 2), (5, 7), (0, 0), (0, 0)],
     sack_row 1 1 3 0 [(0, 0), (2, 2), (5, 7), (0, 0)],
     sack_row 0 1 2 0 [(1, 2), (5, 7), (0, 0), (0, 0)],
     sack_row 1 1 2 0 [(0, 2), (5, 7), (0, 0), (0, 0)],
     sack_row 0 1 2 0 [(3, 3), (5, 7), (0, 0), (0, 0)],
     sack_row 1 1 3 0 [(0, 0), (3, 3), (5, 7), (0, 0)],
     sack_row 0 1 3 0 [(1, 1), (3, 3), (5, 7), (0, 0)],
     sack_row 1 1 3 0 [(0, 1), (3, 3), (5, 7), (0, 0)],
     sack_row 0 1 2 0 [(2, 3), (5, 7), (0, 0), (0, 0)],
     sack_row 1 1 3 0 [(0, 0), (2, 3), (5, 7), (0, 0)],
     sack_row 0 1 2 0 [(1, 3), (5, 7), (0, 0), (0, 0)],
     sack_row 1 1 2 0 [(0, 3), (5, 7), (0, 0), (0, 0)]]"

definition sack_array_f0 :: "sack_track list" where
  "sack_array_f0 = [
     sack_row 0 1 1 0 [(4, 7), (0, 0), (0, 0), (0, 0)],
     sack_row 1 1 2 0 [(0, 0), (4, 7), (0, 0), (0, 0)],
     sack_row 0 1 2 0 [(1, 1), (4, 7), (0, 0), (0, 0)],
     sack_row 1 1 2 0 [(0, 1), (4, 7), (0, 0), (0, 0)],
     sack_row 0 1 2 0 [(2, 2), (4, 7), (0, 0), (0, 0)],
     sack_row 1 1 3 0 [(0, 0), (2, 2), (4, 7), (0, 0)],
     sack_row 0 1 2 0 [(1, 2), (4, 7), (0, 0), (0, 0)],
     sack_row 1 1 2 0 [(0, 2), (4, 7), (0, 0), (0, 0)],
     sack_row 0 1 1 0 [(3, 7), (0, 0), (0, 0), (0, 0)],
     sack_row 1 1 2 0 [(0, 0), (3, 7), (0, 0), (0, 0)],
     sack_row 0 1 2 0 [(1, 1), (3, 7), (0, 0), (0, 0)],
     sack_row 1 1 2 0 [(0, 1), (3, 7), (0, 0), (0, 0)],
     sack_row 0 1 1 0 [(2, 7), (0, 0), (0, 0), (0, 0)],
     sack_row 1 1 2 0 [(0, 0), (2, 7), (0, 0), (0, 0)],
     sack_row 0 1 1 0 [(1, 7), (0, 0), (0, 0), (0, 0)],
     sack_row 1 1 1 0 [(0, 7), (0, 0), (0, 0), (0, 0)]]"

definition sack_array :: "sack_track list" where
  "sack_array =
     sack_array_00 @ sack_array_10 @ sack_array_20 @ sack_array_30 @
     sack_array_40 @ sack_array_50 @ sack_array_60 @ sack_array_70 @
     sack_array_80 @ sack_array_90 @ sack_array_a0 @ sack_array_b0 @
     sack_array_c0 @ sack_array_d0 @ sack_array_e0 @ sack_array_f0"

lemmas sack_array_rows = sack_array_00_def sack_array_10_def sack_array_20_def sack_array_30_def
  sack_array_40_def sack_array_50_def sack_array_60_def sack_array_70_def
  sack_array_80_def sack_array_90_def sack_array_a0_def sack_array_b0_def
  sack_array_c0_def sack_array_d0_def sack_array_e0_def sack_array_f0_def

section \<open>What the table holds\<close>

text \<open>Runs: not empty, in order, with a gap between any two.\<close>

definition runs_ok :: "(int \<times> int) list \<Rightarrow> bool" where
  "runs_ok rs \<longleftrightarrow> sorted_wrt (\<lambda>p q. snd p + 1 < fst q) rs \<and> (\<forall>p \<in> set rs. fst p \<le> snd p)"

definition covers :: "(int \<times> int) list \<Rightarrow> int \<Rightarrow> bool" where
  "covers rs x \<longleftrightarrow> (\<exists>p \<in> set rs. fst p \<le> x \<and> x \<le> snd p)"

text \<open>The runs are those of the true positions below \<open>n\<close>.\<close>

definition represents :: "(int \<Rightarrow> bool) \<Rightarrow> int \<Rightarrow> (int \<times> int) list \<Rightarrow> bool" where
  "represents P n rs \<longleftrightarrow> runs_ok rs \<and> (\<forall>p \<in> set rs. 0 \<le> fst p \<and> snd p < n) \<and> (\<forall>g. 0 \<le> g \<and> g < n \<longrightarrow> (P g \<longleftrightarrow> covers rs g))"

definition row_runs :: "sack_track \<Rightarrow> (int \<times> int) list" where
  "row_runs t = map (\<lambda>b. (uint (start b), uint (last_of b))) (take (unat (num_entries t)) (gaps t))"

text \<open>A check of one row that can be evaluated, for the byte \<open>v\<close>.\<close>

definition row_ok :: "int \<Rightarrow> sack_track \<Rightarrow> bool" where
  "row_ok v t \<longleftrightarrow> unat (num_entries t) \<le> length (gaps t) \<and> runs_ok (row_runs t) \<and> list_all (\<lambda>p. 0 \<le> fst p \<and> snd p < 8) (row_runs t) \<and>
     list_all (\<lambda>g. (v div 2 ^ nat g mod 2 = 1) = covers (row_runs t) g) [0, 1, 2, 3, 4, 5, 6, 7] \<and>
     (right_edge t \<noteq> 0) = (v mod 2 = 1) \<and> (left_edge t \<noteq> 0) = (v div 128 mod 2 = 1)"

lemma rows_checked: "list_all (\<lambda>(v, t). row_ok v t) (zip (map int [0..<256]) sack_array)" by code_simp

lemma length_sack_array: "length sack_array = 256" by (simp add: sack_array_def sack_array_rows)

lemma sack_array_row:
  "row_ok (uint v) (sack_array ! unat (v :: u8))"
proof -
  have v: "unat v < 256" using unsigned_less [of v] by simp
  have "zip (map int [0..<256]) sack_array ! unat v = (uint v, sack_array ! unat v)"
    using v length_sack_array by (subst nth_zip) simp_all
  moreover have "zip (map int [0..<256]) sack_array ! unat v \<in> set (zip (map int [0..<256]) sack_array)"
    using v length_sack_array by (intro nth_mem) simp
  ultimately have "(uint v, sack_array ! unat v) \<in> set (zip (map int [0..<256]) sack_array)" by (simp only:)
  from bspec [OF rows_checked [unfolded list_all_iff] this] show ?thesis by (simp only: case_prod_conv)
qed

text \<open>A row holds the runs of the bits of its byte.\<close>

lemma row_represents:
  fixes v :: u8
  defines "t \<equiv> sack_array ! unat v"
  shows "represents (\<lambda>g. bit v (nat g)) 8 (row_runs t)" "right_edge t \<noteq> 0 \<longleftrightarrow> bit v 0" "left_edge t \<noteq> 0 \<longleftrightarrow> bit v 7"
    "unat (num_entries t) \<le> length (gaps t)"
proof -
  have bit: "bit v k \<longleftrightarrow> uint v div 2 ^ k mod 2 = 1" for k
    using bit_uint_iff [of v k] bit_imp_le_length [of v k] by (auto simp: bit_iff_odd odd_iff_mod_2_eq_one)
  have ok: "row_ok (uint v) t" unfolding t_def by (rule sack_array_row)
  have all: "bit v (nat g) \<longleftrightarrow> covers (row_runs t) g" if "0 \<le> g" "g < 8" for g
  proof -
    have g: "g \<in> set [0, 1, 2, 3, 4, 5, 6, 7]" using that by auto
    have "\<forall>g \<in> set [0, 1, 2, 3, 4, 5, 6, 7]. (uint v div 2 ^ nat g mod 2 = 1) = covers (row_runs t) g"
      using ok unfolding row_ok_def list_all_iff by (elim conjE)
    from bspec [OF this g] show ?thesis by (simp only: bit)
  qed
  show "represents (\<lambda>g. bit v (nat g)) 8 (row_runs t)" using ok all unfolding represents_def row_ok_def list_all_iff by (intro conjI allI impI) auto
  show "right_edge t \<noteq> 0 \<longleftrightarrow> bit v 0" "left_edge t \<noteq> 0 \<longleftrightarrow> bit v 7" "unat (num_entries t) \<le> length (gaps t)"
    using ok unfolding row_ok_def bit by simp_all
qed

end
