(* ===== verification/Sack_Build.thy ===== *)
theory Sack_Build
  imports Tsn_Map Sack_Table
begin

text \<open>
  Acknowledging received data: the advertised window (\<^verbatim>\<open>sctp_calc_rwnd\<close>), the SACK or NR-SACK chunk and its place in the
  control queue (\<^verbatim>\<open>sctp_send_sack\<close>), the SHUTDOWN chunk (\<^verbatim>\<open>sctp_send_shutdown\<close>) and the decision between
  sending now and waiting (\<^verbatim>\<open>sctp_sack_check\<close>), of netinet/sctp_output.c and sctp_indata.c.

  The fields of a chunk are kept in host byte order. Destinations are numbered. The state adds to the received TSNs the fields
  these routines use; the delayed acknowledgement timer is the flag whether it is pending. What the routines get from elsewhere, the
  success of the allocations and the alternate destination, is an argument. A read outside an array and a shift
  by a negative amount are the result \<open>None\<close>.
\<close>

section \<open>Chunks and state\<close>

definition SCTP_SELECTIVE_ACK :: u8 where "SCTP_SELECTIVE_ACK = 0x03"
definition SCTP_SHUTDOWN :: u8 where "SCTP_SHUTDOWN = 0x07"
definition SCTP_NR_SELECTIVE_ACK :: u8 where "SCTP_NR_SELECTIVE_ACK = 0x10"
definition SCTP_MINIMAL_RWND :: u32 where "SCTP_MINIMAL_RWND = 4096"
definition SCTP_MIN_OVERHEAD :: nat where "SCTP_MIN_OVERHEAD = 40 + 12"
definition MSIZE :: nat where "MSIZE = 256"
definition MCLBYTES :: nat where "MCLBYTES = 2048"
definition MLEN :: nat where "MLEN = MSIZE - 40"
definition MHLEN :: nat where "MHLEN = MLEN - 40"

text \<open>A SACK and an NR-SACK chunk; the second count is not sent in a SACK. The blocks of an NR-SACK that cannot be revoked follow the others.\<close>

record sack_chunk =
  chunk_type :: u8
  chunk_flags :: u8
  chunk_length :: u16
  cum_tsn_ack :: u32
  a_rwnd :: u32
  num_gap_ack_blks :: u16
  num_nr_gap_ack_blks :: u16
  num_dup_tsns :: u16
  gap_blocks :: "sctp_gap_ack_block list"
  dup_list :: "u32 list"

definition sizeof_shutdown_chunk :: nat where "sizeof_shutdown_chunk = 8"

record shutdown_chunk =
  shutdown_cum_tsn :: u32

datatype ctl_data = Sack_data sack_chunk | Shutdown_data shutdown_chunk | Other_data bytes

record tmit_chunk =
  chunk_id :: u8
  can_take_data :: u8
  chk_flags :: u16
  snd_count :: u16
  send_size :: u16
  sent :: int
  whoTo :: "nat option"
  chk_data :: "ctl_data option"

record sack_asoc = rcv_asoc +
  nrsack_supported :: u8
  last_data_chunk_from :: "nat option"
  control_send_queue :: "tmit_chunk list"
  ctrl_queue_cnt :: int
  delayed_ack :: u32
  sack_freq :: u32
  data_pkts_seen :: u32
  sctp_cmt_on_off :: u8
  cmt_dac_pkts_rcvd :: u8
  my_rwnd :: u32
  my_last_reported_rwnd :: u32
  sb_cc :: u32
  my_rwnd_control_len :: u32
  size_on_reasm_queue :: u32
  cnt_on_reasm_queue :: u32
  size_on_all_streams :: u32
  cnt_on_all_streams :: u32
  freed_by_sorcv_sincelast :: u32
  dack_pending :: bool
  asoc_state :: u32
  alternate :: "nat option"
  primary_destination :: "nat option"
  so_rcv_hiwat :: "u32 option"
  net_mtu :: "nat \<Rightarrow> u32"
  net_dest_state :: "nat \<Rightarrow> u16"
  net_ref_count :: "nat \<Rightarrow> int"

record sack_env =
  chunk_available :: bool
  mbuf_available :: bool
  find_alternate_net :: "nat \<Rightarrow> nat option"
  sctp_cmt_use_dac :: u32

section \<open>The window\<close>

definition sctp_maxspace :: "u32 \<Rightarrow> u32" where
  "sctp_maxspace hiwat = max hiwat SCTP_MINIMAL_RWND"

definition sctp_sbspace :: "'a sack_asoc_scheme \<Rightarrow> u32 \<Rightarrow> int" where
  "sctp_sbspace a hiwat = (if sctp_maxspace hiwat > sb_cc a then uint (sctp_maxspace hiwat - sb_cc a) else 0)"

definition sctp_calc_rwnd :: "'a sack_asoc_scheme \<Rightarrow> u32" where
  "sctp_calc_rwnd a =
     (case so_rcv_hiwat a of None \<Rightarrow> 0
      | Some hiwat \<Rightarrow>
          if sb_cc a = 0 \<and> size_on_reasm_queue a = 0 \<and> size_on_all_streams a = 0 then max hiwat SCTP_MINIMAL_RWND
          else
            let calc = word_of_int (sctp_sbspace a hiwat);
                calc = sctp_sbspace_sub calc (size_on_reasm_queue a + cnt_on_reasm_queue a * of_nat MSIZE);
                calc = sctp_sbspace_sub calc (size_on_all_streams a + cnt_on_all_streams a * of_nat MSIZE)
            in if calc = 0 then calc
               else
                 let calc = sctp_sbspace_sub calc (my_rwnd_control_len a)
                 in if calc < my_rwnd_control_len a then 1 else calc)"

definition sctp_set_rwnd :: "'a sack_asoc_scheme \<Rightarrow> 'a sack_asoc_scheme" where
  "sctp_set_rwnd a = a\<lparr>my_rwnd := sctp_calc_rwnd a\<rparr>"

section \<open>Buffers, references, timer\<close>

text \<open>
  \<^verbatim>\<open>sctp_get_mbuf_for_msg\<close> in one buffer: the bytes behind the room that is left for the lower headers.
\<close>

definition sctp_get_mbuf_for_msg :: "bool \<Rightarrow> nat \<Rightarrow> nat option" where
  "sctp_get_mbuf_for_msg avail space_needed =
     (if avail then Some (if space_needed > MHLEN then MCLBYTES else MLEN) else None)"

definition ref_net :: "nat option \<Rightarrow> int \<Rightarrow> 'a sack_asoc_scheme \<Rightarrow> 'a sack_asoc_scheme" where
  "ref_net net d a = (case net of None \<Rightarrow> a | Some n \<Rightarrow> a\<lparr>net_ref_count := (net_ref_count a)(n := net_ref_count a n + d)\<rparr>)"

definition recv_timer_start :: "'a sack_asoc_scheme \<Rightarrow> 'a sack_asoc_scheme" where
  "recv_timer_start a = (if delayed_ack a = 0 then a else if dack_pending a then a else a\<lparr>dack_pending := True\<rparr>)"

definition recv_timer_stop :: "'a sack_asoc_scheme \<Rightarrow> 'a sack_asoc_scheme" where
  "recv_timer_stop a = a\<lparr>dack_pending := False\<rparr>"

text \<open>There is no memory for the chunk: try again later.\<close>

definition sack_later :: "'a sack_asoc_scheme \<Rightarrow> 'a sack_asoc_scheme" where
  "sack_later a = (if delayed_ack a \<noteq> 0 then recv_timer_start (recv_timer_stop a) else a\<lparr>send_sack := 1\<rparr>)"

section \<open>Gap blocks\<close>

text \<open>
  The blocks written so far, the descriptor \<^verbatim>\<open>gap_descriptor\<close> as the index of the next one, the counter
  and the two flags. The chunk begins at 0, the blocks behind its header of \<open>hdr\<close> bytes, and it may have \<open>space\<close> bytes.
\<close>

record gap_buf =
  gd_mem :: "sctp_gap_ack_block list"
  gap_descriptor :: nat
  num_blocks :: u32
  mergeable :: bool
  limit_reached :: bool

definition store_block :: "nat \<Rightarrow> sctp_gap_ack_block \<Rightarrow> sctp_gap_ack_block list \<Rightarrow> sctp_gap_ack_block list option" where
  "store_block i x mem = (if i < length mem then Some (mem[i := x]) else if i = length mem then Some (mem @ [x]) else None)"

definition put_gap :: "nat \<Rightarrow> nat \<Rightarrow> int \<Rightarrow> bool \<Rightarrow> sctp_gap_ack_block \<Rightarrow> gap_buf \<Rightarrow> gap_buf option" where
  "put_gap hdr space offset redge g b =
     do { left \<leftarrow> (if mergeable b \<and> redge
                   then (if gap_descriptor b < length (gd_mem b) then Some (start (gd_mem b ! gap_descriptor b)) else None)
                   else Some (word_of_int (uint (start g) + offset)));
          mem \<leftarrow> store_block (gap_descriptor b) \<lparr>start = left, last_of = word_of_int (uint (last_of g) + offset)\<rparr> (gd_mem b);
          let b = b\<lparr>mergeable := False, gd_mem := mem, num_blocks := num_blocks b + 1, gap_descriptor := gap_descriptor b + 1\<rparr>;
          Some (if hdr + 4 * gap_descriptor b + 4 > space then b\<lparr>limit_reached := True\<rparr> else b) }"

fun put_gaps :: "nat \<Rightarrow> nat \<Rightarrow> int \<Rightarrow> bool \<Rightarrow> sctp_gap_ack_block list \<Rightarrow> gap_buf \<Rightarrow> gap_buf option" where
  "put_gaps hdr space offset redge [] b = Some b"
| "put_gaps hdr space offset redge (g # gs) b =
     do { b \<leftarrow> put_gap hdr space offset redge g b;
          if limit_reached b then Some b else put_gaps hdr space offset redge gs b }"

definition gap_byte :: "nat \<Rightarrow> nat \<Rightarrow> int \<Rightarrow> sack_track \<Rightarrow> gap_buf \<Rightarrow> gap_buf option" where
  "gap_byte hdr space offset selector b =
     do { let redge = (right_edge selector \<noteq> 0);
          b \<leftarrow> (if mergeable b \<and> redge
                then (if gap_descriptor b = 0 then None
                      else Some (b\<lparr>num_blocks := num_blocks b - 1, gap_descriptor := gap_descriptor b - 1\<rparr>))
                else Some b);
          if num_entries selector = 0 then Some (b\<lparr>mergeable := False\<rparr>)
          else do { b \<leftarrow> put_gaps hdr space offset redge (take (unat (num_entries selector)) (gaps selector)) b;
                    Some (if left_edge selector \<noteq> 0 then b\<lparr>mergeable := True\<rparr> else b) } }"

text \<open>The bits of the first byte up to the cumulative TSN are cleared.\<close>

definition clear_low :: "int \<Rightarrow> u8 \<Rightarrow> u8 option" where
  "clear_low offset tsn_map =
     (if 0 \<le> 1 - offset \<and> 1 - offset < 32 then Some (tsn_map AND ucast (push_bit (nat (1 - offset)) (- 1 :: u32))) else None)"

fun gap_loop :: "(nat \<Rightarrow> u8 option) \<Rightarrow> nat \<Rightarrow> nat \<Rightarrow> nat \<Rightarrow> nat \<Rightarrow> int \<Rightarrow> gap_buf \<Rightarrow> gap_buf option" where
  "gap_loop byte hdr space 0 i offset b = Some b"
| "gap_loop byte hdr space (Suc n) i offset b =
     do { tsn_map \<leftarrow> byte i;
          tsn_map \<leftarrow> (if i = 0 then clear_low offset tsn_map else Some tsn_map);
          b \<leftarrow> gap_byte hdr space offset (sack_array ! unat tsn_map) b;
          if limit_reached b then Some b else gap_loop byte hdr space n (i + 1) (offset + 8) b }"

definition gap_offset :: "'a rcv_asoc_scheme \<Rightarrow> int" where
  "gap_offset a =
     (if SCTP_TSN_GT (mapping_array_base_tsn a) (cumulative_tsn a) then 1
      else sint (mapping_array_base_tsn a - cumulative_tsn a))"

definition sack_highest :: "'a rcv_asoc_scheme \<Rightarrow> u32" where
  "sack_highest a =
     (if SCTP_TSN_GT (highest_tsn_inside_map a) (highest_tsn_inside_nr_map a) then highest_tsn_inside_map a
      else highest_tsn_inside_nr_map a)"

text \<open>The number of bytes to look at, for a SACK and for the two parts of an NR-SACK.\<close>

definition sack_siz :: "u32 \<Rightarrow> u32 \<Rightarrow> u32" where
  "sack_siz highest_tsn base =
     (if highest_tsn > base then (((highest_tsn - base) + 1) + 7) div 8
      else (((MAX_TSN - highest_tsn) + 1) + highest_tsn + 7) div 8)"

definition nr_siz :: "u32 \<Rightarrow> u32 \<Rightarrow> u32" where
  "nr_siz highest_tsn base =
     (if highest_tsn > base then (((highest_tsn - base) + 1) + 7) div 8
      else (((MAX_TSN - base) + 1) + highest_tsn + 7) div 8)"

text \<open>The bytes of both arrays together, of one array.\<close>

definition both_bytes :: "'a rcv_asoc_scheme \<Rightarrow> nat \<Rightarrow> u8 option" where
  "both_bytes a i = do { x \<leftarrow> byte_at (mapping_array a) i; y \<leftarrow> byte_at (nr_mapping_array a) i; Some (x OR y) }"

definition gap_ack_blocks :: "u8 \<Rightarrow> nat \<Rightarrow> nat \<Rightarrow> 'a rcv_asoc_scheme \<Rightarrow> gap_buf \<Rightarrow> gap_buf option" where
  "gap_ack_blocks type hdr space a b =
     (let siz = (if type = SCTP_SELECTIVE_ACK then sack_siz (sack_highest a) (mapping_array_base_tsn a)
                 else nr_siz (highest_tsn_inside_map a) (mapping_array_base_tsn a));
          byte = (if type = SCTP_SELECTIVE_ACK then both_bytes a else byte_at (mapping_array a))
      in if (type = SCTP_SELECTIVE_ACK \<and> SCTP_TSN_GT (sack_highest a) (cumulative_tsn a)) \<or>
            (type = SCTP_NR_SELECTIVE_ACK \<and> SCTP_TSN_GT (highest_tsn_inside_map a) (cumulative_tsn a))
         then gap_loop byte hdr space (unat siz) 0 (gap_offset a) b else Some b)"

definition nr_gap_ack_blocks :: "nat \<Rightarrow> nat \<Rightarrow> 'a rcv_asoc_scheme \<Rightarrow> gap_buf \<Rightarrow> gap_buf option" where
  "nr_gap_ack_blocks hdr space a b =
     (let b = b\<lparr>mergeable := False\<rparr>
      in if SCTP_TSN_GT (highest_tsn_inside_nr_map a) (cumulative_tsn a)
         then gap_loop (byte_at (nr_mapping_array a)) hdr space (unat (nr_siz (highest_tsn_inside_nr_map a) (mapping_array_base_tsn a))) 0
                (gap_offset a) b
         else Some b)"

text \<open>Duplicates are written behind the blocks, from position \<open>pos\<close> on.\<close>

fun put_dups :: "nat \<Rightarrow> nat \<Rightarrow> u32 list \<Rightarrow> u32 list" where
  "put_dups pos space [] = []"
| "put_dups pos space (d # ds) = d # (if pos + 4 + 4 > space then [] else put_dups (pos + 4) space ds)"

section \<open>The chunk\<close>

text \<open>The bytes the chunk may have: those left in the buffer and in the packet. The limit of the packet wraps around for a tiny MTU.\<close>

definition sack_space :: "nat \<Rightarrow> u32 \<Rightarrow> nat" where
  "sack_space room mtu =
     (let s = word_of_nat room; l = mtu - of_nat SCTP_MIN_OVERHEAD in unat (if s > l then l else s :: u32))"

definition fill_sack :: "sack_env \<Rightarrow> u8 \<Rightarrow> nat \<Rightarrow> nat \<Rightarrow> 'a sack_asoc_scheme \<Rightarrow> (sack_chunk \<times> u16 \<times> 'a sack_asoc_scheme) option" where
  "fill_sack env type to room a =
     do { let space = sack_space room (net_mtu a to);
          let dac = (sctp_cmt_on_off a > 0 \<and> sctp_cmt_use_dac env \<noteq> 0);
          let flags = (if dac then push_bit 6 (cmt_dac_pkts_rcvd a) else 0);
          let a = (if dac then a\<lparr>cmt_dac_pkts_rcvd := 0\<rparr> else a);
          let a = a\<lparr>freed_by_sorcv_sincelast := 0\<rparr>;
          let hdr = (if type = SCTP_SELECTIVE_ACK then sizeof_sack_chunk else sizeof_nr_sack_chunk);
          b1 \<leftarrow> gap_ack_blocks type hdr space a
                 \<lparr>gd_mem = [], gap_descriptor = 0, num_blocks = 0, mergeable = False, limit_reached = False\<rparr>;
          b2 \<leftarrow> (if type = SCTP_NR_SELECTIVE_ACK \<and> \<not> limit_reached b1 then nr_gap_ack_blocks hdr space a (b1\<lparr>num_blocks := 0\<rparr>)
                 else Some (b1\<lparr>num_blocks := 0\<rparr>));
          (dups, a) \<leftarrow> (if \<not> limit_reached b2 \<and> numduptsns a \<noteq> 0
                        then (if unat (numduptsns a) \<le> length (dup_tsns a)
                              then Some (put_dups (hdr + 4 * gap_descriptor b2) space (take (unat (numduptsns a)) (dup_tsns a)), a\<lparr>numduptsns := 0\<rparr>)
                              else None)
                        else Some ([], a));
          let sz = word_of_nat (hdr + unat (num_blocks b1 + num_blocks b2) * 4 + length dups * 4);
          Some (\<lparr>chunk_type = type, chunk_flags = flags, chunk_length = sz, cum_tsn_ack = cumulative_tsn a, a_rwnd = my_rwnd a,
                  num_gap_ack_blks = ucast (num_blocks b1), num_nr_gap_ack_blks = ucast (num_blocks b2), num_dup_tsns = word_of_nat (length dups),
                  gap_blocks = take (gap_descriptor b2) (gd_mem b2), dup_list = dups\<rparr>, sz, a) }"

section \<open>Queueing the chunk\<close>

text \<open>A chunk of this type that is already queued is taken off the queue to be used again.\<close>

definition take_chunk :: "u8 \<Rightarrow> 'a sack_asoc_scheme \<Rightarrow> tmit_chunk option \<times> 'a sack_asoc_scheme" where
  "take_chunk type a =
     (case List.extract (\<lambda>c. chunk_id c = type) (control_send_queue a) of
        None \<Rightarrow> (None, a)
      | Some (before, chk, behind) \<Rightarrow>
          (Some (chk\<lparr>chk_data := None, whoTo := None\<rparr>),
           ref_net (whoTo chk) (- 1) (a\<lparr>control_send_queue := before @ behind, ctrl_queue_cnt := ctrl_queue_cnt a - 1\<rparr>)))"

definition fresh_chunk :: "u8 \<Rightarrow> tmit_chunk" where
  "fresh_chunk type = \<lparr>chunk_id = type, can_take_data = 1, chk_flags = 0, snd_count = 0, send_size = 0, sent = SCTP_DATAGRAM_UNSENT,
     whoTo = None, chk_data = None\<rparr>"

definition sack_destination :: "sack_env \<Rightarrow> nat \<Rightarrow> 'a sack_asoc_scheme \<Rightarrow> nat" where
  "sack_destination env from a =
     (if net_dest_state a from AND SCTP_ADDR_REACHABLE = 0
      then (case find_alternate_net env from of None \<Rightarrow> from | Some n \<Rightarrow> n) else from)"

definition sack_space_req :: "u8 \<Rightarrow> 'a rcv_asoc_scheme \<Rightarrow> nat" where
  "sack_space_req type a =
     (if sack_highest a = cumulative_tsn a
      then (if type = SCTP_SELECTIVE_ACK then sizeof_sack_chunk else sizeof_nr_sack_chunk) else MCLBYTES)"

definition sctp_send_sack :: "sack_env \<Rightarrow> 'a sack_asoc_scheme \<Rightarrow> 'a sack_asoc_scheme option" where
  "sctp_send_sack env a =
     (let type = (if nrsack_supported a = 1 then SCTP_NR_SELECTIVE_ACK else SCTP_SELECTIVE_ACK)
      in case last_data_chunk_from a of None \<Rightarrow> Some a
         | Some from \<Rightarrow> do {
             a \<leftarrow> sctp_slide_mapping_arrays a;
             let (old, a) = take_chunk type (sctp_set_rwnd a);
             if old = None \<and> \<not> chunk_available env then Some (sack_later a)
             else do {
               let chk = (case old of Some c \<Rightarrow> c | None \<Rightarrow> fresh_chunk type);
               let a = a\<lparr>data_pkts_seen := 0\<rparr>;
               let to = sack_destination env from a;
               let chk = chk\<lparr>chk_flags := 0, snd_count := 0, send_size := 0, sent := SCTP_DATAGRAM_UNSENT, whoTo := Some to\<rparr>;
               let a = ref_net (Some to) 1 a;
               case sctp_get_mbuf_for_msg (mbuf_available env) (sack_space_req type a) of
                 None \<Rightarrow> Some (sack_later (ref_net (whoTo chk) (- 1) a))
               | Some size_of \<Rightarrow> do {
                   (sack, sz, a) \<leftarrow> fill_sack env type to (size_of - SCTP_MIN_OVERHEAD) a;
                   let chk = chk\<lparr>chk_data := Some (Sack_data sack), send_size := sz\<rparr>;
                   Some (a\<lparr>control_send_queue := control_send_queue a @ [chk], my_last_reported_rwnd := my_rwnd a,
                           ctrl_queue_cnt := ctrl_queue_cnt a + 1, send_sack := 0\<rparr>) } } })"

section \<open>SHUTDOWN and the decision\<close>

text \<open>A queued SHUTDOWN keeps its chunk and moves to the end of the queue. Its data is a SHUTDOWN chunk.\<close>

definition sctp_send_shutdown :: "sack_env \<Rightarrow> nat option \<Rightarrow> 'a sack_asoc_scheme \<Rightarrow> 'a sack_asoc_scheme option" where
  "sctp_send_shutdown env net a =
     (case List.extract (\<lambda>c. chunk_id c = SCTP_SHUTDOWN) (control_send_queue a) of
        None \<Rightarrow>
          if sctp_get_mbuf_for_msg (mbuf_available env) sizeof_shutdown_chunk = None \<or> \<not> chunk_available env then Some a
          else
            let chk = (fresh_chunk SCTP_SHUTDOWN)\<lparr>send_size := word_of_nat sizeof_shutdown_chunk, whoTo := net,
                         chk_data := Some (Shutdown_data \<lparr>shutdown_cum_tsn = cumulative_tsn a\<rparr>)\<rparr>;
                a = ref_net net 1 a
            in Some (a\<lparr>control_send_queue := control_send_queue a @ [chk], ctrl_queue_cnt := ctrl_queue_cnt a + 1\<rparr>)
      | Some (before, chk, behind) \<Rightarrow>
          (case chk_data chk of
             Some (Shutdown_data s) \<Rightarrow>
               let a = ref_net net 1 (ref_net (whoTo chk) (- 1) a);
                   chk = chk\<lparr>whoTo := net, chk_data := Some (Shutdown_data (s\<lparr>shutdown_cum_tsn := cumulative_tsn a\<rparr>))\<rparr>
               in Some (a\<lparr>control_send_queue := before @ behind @ [chk]\<rparr>)
           | _ \<Rightarrow> None))"

text \<open>The part of the check behind the sliding, in the state \<open>m\<close>.\<close>

definition sack_decide :: "sack_env \<Rightarrow> sack_env \<Rightarrow> bool \<Rightarrow> 'a sack_asoc_scheme \<Rightarrow> 'a sack_asoc_scheme option" where
  "sack_decide env1 env was_a_gap m =
     (let is_a_gap = SCTP_TSN_GT (highest_of m) (cumulative_tsn m)
      in if asoc_state m AND SCTP_STATE_MASK = SCTP_STATE_SHUTDOWN_SENT
         then do {
           let a = (if dack_pending m then recv_timer_stop m else m);
           a \<leftarrow> sctp_send_shutdown env1 (case alternate a of Some n \<Rightarrow> Some n | None \<Rightarrow> primary_destination a) a;
           if is_a_gap then sctp_send_sack env a else Some a }
         else
           let a = m\<lparr>cmt_dac_pkts_rcvd := cmt_dac_pkts_rcvd m + 1\<rparr>
           in if send_sack a = 1 \<or> (was_a_gap \<and> \<not> is_a_gap) \<or> numduptsns a \<noteq> 0 \<or> is_a_gap \<or> delayed_ack a = 0 \<or>
                 data_pkts_seen a \<ge> sack_freq a
              then if sctp_cmt_on_off a > 0 \<and> sctp_cmt_use_dac env \<noteq> 0 \<and> send_sack a = 0 \<and> numduptsns a = 0 \<and>
                      delayed_ack a \<noteq> 0 \<and> \<not> dack_pending a
                   then Some (recv_timer_start a)
                   else sctp_send_sack env (recv_timer_stop a)
              else if \<not> dack_pending a then Some (recv_timer_start a) else Some a)"

definition sctp_sack_check :: "sack_env \<Rightarrow> sack_env \<Rightarrow> bool \<Rightarrow> 'a sack_asoc_scheme \<Rightarrow> 'a sack_asoc_scheme option" where
  "sctp_sack_check env1 env was_a_gap a = do { a \<leftarrow> sctp_slide_mapping_arrays a; sack_decide env1 env was_a_gap a }"

end
