(* ===== verification/Tsn_Correct.thy ===== *)
theory Tsn_Correct
  imports Tsn_Map
begin

text \<open>
  The two mapping arrays, the cumulative TSN and the highest TSNs represent the set of the received TSNs. To speak of
  this set without wrap-around the TSNs are numbered by integers, of which the 32-bit TSNs are the
  residues: \<open>tsn_rel B C hm hn R m\<close> says that the state \<open>m\<close> with base \<open>B\<close>, cumulative TSN \<open>C\<close> and
  highest TSNs \<open>hm\<close> and \<open>hn\<close> represents the set \<open>R\<close>.
\<close>

section \<open>Serial numbers\<close>

lemma gap_eq: "SCTP_CALC_TSN_TO_GAP tsn b = tsn - b"
proof -
  have "(0xffffffff :: u32) = - 1" by simp
  then show ?thesis by (simp add: SCTP_CALC_TSN_TO_GAP_def MAX_TSN_def)
qed

lemma unat_of_int_u32: "0 \<le> x \<Longrightarrow> x < 2 ^ 32 \<Longrightarrow> unat (word_of_int x :: u32) = nat x"
  by (simp add: unat_eq_nat_uint uint_word_of_int take_bit_int_eq_self_iff)

lemma unat_diff_int: "0 \<le> x - y \<Longrightarrow> x - y < 2 ^ 32 \<Longrightarrow> unat (word_of_int x - word_of_int y :: u32) = nat (x - y)"
  using unat_of_int_u32 [of "x - y"] by simp

lemma word_of_int_eq_u32: "(word_of_int x :: u32) = word_of_int y \<longleftrightarrow> 2 ^ 32 dvd x - y"
  by (simp add: word_of_int_eq_iff take_bit_eq_mod mod_eq_dvd_iff)

lemma word_of_int_inj: "\<bar>x - y\<bar> < 2 ^ 32 \<Longrightarrow> (word_of_int x :: u32) = word_of_int y \<longleftrightarrow> x = y"
  using dvd_imp_le_int [of "x - y" "2 ^ 32"] by (auto simp: word_of_int_eq_u32)

lemma TSN_GT_int:
  assumes "- (2 ^ 31) \<le> x - y" "x - y < 2 ^ 31"
  shows "SCTP_TSN_GT (word_of_int x) (word_of_int y) \<longleftrightarrow> y < x"
proof (cases "0 \<le> x - y")
  case True
  with assms(2) have "unat (word_of_int x - word_of_int y :: u32) = nat (x - y)" by (intro unat_diff_int) simp_all
  moreover have "(word_of_int x :: u32) = word_of_int y \<longleftrightarrow> x = y" using True assms(2) by (intro word_of_int_inj) simp
  ultimately show ?thesis using True assms(2) by (auto simp: SCTP_UINT32_GT_iff)
next
  case False
  have "unat (word_of_int (x + 2 ^ 32) - word_of_int y :: u32) = nat (x + 2 ^ 32 - y)"
    using False assms(1) by (intro unat_diff_int) simp_all
  moreover have "(word_of_int (x + 2 ^ 32) :: u32) = word_of_int x" unfolding word_of_int_eq_u32 by simp
  ultimately have "unat (word_of_int x - word_of_int y :: u32) = nat (x + 2 ^ 32 - y)" by (simp only:)
  with False assms(1) show ?thesis by (auto simp: SCTP_UINT32_GT_iff)
qed

lemma TSN_GE_int:
  assumes "- (2 ^ 31) \<le> x - y" "x - y < 2 ^ 31"
  shows "SCTP_TSN_GE (word_of_int x) (word_of_int y) \<longleftrightarrow> y \<le> x"
  using TSN_GT_int [OF assms] word_of_int_inj [of x y] assms by (auto simp: SCTP_UINT32_GE_def)

lemma sint_of_int_u32:
  assumes "- (2 ^ 31) \<le> x" "x < 2 ^ 31"
  shows "sint (word_of_int x :: u32) = x"
proof -
  have "(x + 2 ^ 31) mod 2 ^ 32 = x + 2 ^ 31" using assms by (intro mod_pos_pos_trivial) simp_all
  then show ?thesis by (simp add: int_word_sint)
qed

section \<open>Bits of an array\<close>

definition bit_of :: "bytes \<Rightarrow> nat \<Rightarrow> bool" where
  "bit_of arry g \<longleftrightarrow> bit (arry ! (g div 8)) (g mod 8)"

lemma gap_index: "unat (drop_bit 3 (gap :: u32)) = unat gap div 8" "unat (gap AND 7) = unat gap mod 8"
proof -
  show "unat (drop_bit 3 gap) = unat gap div 8" by (simp add: drop_bit_eq_div unat_div)
  have "gap AND 7 = gap AND mask 3" by (simp add: mask_eq_exp_minus_1)
  then show "unat (gap AND 7) = unat gap mod 8" by (simp add: take_bit_eq_mask [symmetric] take_bit_eq_mod unat_mod)
qed

lemma is_present:
  assumes "unat gap < 8 * length arry"
  shows "SCTP_IS_TSN_PRESENT arry gap = Some (bit_of arry (unat gap))"
proof -
  have "unat gap div 8 < length arry" using assms by simp
  moreover have "(drop_bit k b AND 1 \<noteq> 0) = bit b k" for k and b :: u8
    by (auto simp: bit_iff_odd_drop_bit and_one_eq odd_iff_mod_2_eq_one)
  ultimately show ?thesis by (simp add: SCTP_IS_TSN_PRESENT_def byte_at_def gap_index bit_of_def)
qed

lemma set_present:
  assumes "unat gap < 8 * length arry"
  shows "\<exists>arry'. SCTP_SET_TSN_PRESENT arry gap = Some arry' \<and> length arry' = length arry \<and>
    (\<forall>g < 8 * length arry. bit_of arry' g \<longleftrightarrow> bit_of arry g \<or> g = unat gap)"
proof -
  have i: "unat gap div 8 < length arry" using assms by simp
  let ?a = "arry[unat gap div 8 := arry ! (unat gap div 8) OR push_bit (unat gap mod 8) 1]"
  have "bit_of ?a g \<longleftrightarrow> bit_of arry g \<or> g = unat gap" if "g < 8 * length arry" for g
  proof (cases "g div 8 = unat gap div 8")
    case True
    then have "g = unat gap \<longleftrightarrow> g mod 8 = unat gap mod 8" by (metis div_mult_mod_eq)
    with True i that show ?thesis
      by (auto simp: bit_of_def bit_or_iff bit_exp_iff possible_bit_word)
  next
    case False
    with that show ?thesis by (auto simp: bit_of_def nth_list_update)
  qed
  with i show ?thesis by (auto simp: SCTP_SET_TSN_PRESENT_def byte_at_def gap_index)
qed

lemma unset_present:
  assumes "unat gap < 8 * length arry"
  shows "\<exists>arry'. SCTP_UNSET_TSN_PRESENT arry gap = Some arry' \<and> length arry' = length arry \<and>
    (\<forall>g < 8 * length arry. bit_of arry' g \<longleftrightarrow> bit_of arry g \<and> g \<noteq> unat gap)"
proof -
  have i: "unat gap div 8 < length arry" using assms by simp
  let ?a = "arry[unat gap div 8 := arry ! (unat gap div 8) AND NOT (push_bit (unat gap mod 8) 1)]"
  have "bit_of ?a g \<longleftrightarrow> bit_of arry g \<and> g \<noteq> unat gap" if "g < 8 * length arry" for g
  proof (cases "g div 8 = unat gap div 8")
    case True
    then have "g = unat gap \<longleftrightarrow> g mod 8 = unat gap mod 8" by (metis div_mult_mod_eq)
    with True i that show ?thesis
      by (auto simp: bit_of_def bit_and_iff bit_not_iff bit_exp_iff possible_bit_word)
  next
    case False
    with that show ?thesis by (auto simp: bit_of_def nth_list_update)
  qed
  with i show ?thesis by (auto simp: SCTP_UNSET_TSN_PRESENT_def byte_at_def gap_index)
qed

section \<open>The represented set\<close>

abbreviation msize :: "'a rcv_asoc_scheme \<Rightarrow> nat" where "msize m \<equiv> length (mapping_array m)"

definition got :: "'a rcv_asoc_scheme \<Rightarrow> nat \<Rightarrow> bool" where
  "got m g \<longleftrightarrow> bit_of (mapping_array m) g \<or> bit_of (nr_mapping_array m) g"

text \<open>The arrays: their sizes, and the TSNs from the base on.\<close>

definition arrays_ok :: "int \<Rightarrow> int set \<Rightarrow> 'a rcv_asoc_scheme \<Rightarrow> bool" where
  "arrays_ok B R m \<longleftrightarrow> unat (mapping_array_size m) = msize m \<and> length (nr_mapping_array m) = msize m \<and>
     0 < msize m \<and> msize m \<le> 1055 \<and> mapping_array_base_tsn m = word_of_int B \<and>
     (\<forall>x < B. x \<in> R) \<and> (\<forall>x \<in> R. x < B + 8 * int (msize m)) \<and>
     (\<forall>g < 8 * msize m. B + int g \<in> R \<longleftrightarrow> got m g)"

text \<open>The cumulative TSN and the highest ones; TSNs that were skipped can be above the highest ones, but not above the cumulative TSN.\<close>

definition marks_ok :: "int \<Rightarrow> int \<Rightarrow> int \<Rightarrow> int \<Rightarrow> int set \<Rightarrow> 'a rcv_asoc_scheme \<Rightarrow> bool" where
  "marks_ok B C hm hn R m \<longleftrightarrow> cumulative_tsn m = word_of_int C \<and> B - 1 \<le> C \<and> {..C} \<subseteq> R \<and>
     highest_tsn_inside_map m = word_of_int hm \<and> highest_tsn_inside_nr_map m = word_of_int hn \<and>
     hm \<in> R \<and> hn \<in> R \<and> B - 1 \<le> max hm hn \<and>
     (\<forall>g < 8 * msize m. bit_of (mapping_array m) g \<longrightarrow> B + int g \<le> hm) \<and>
     (\<forall>g < 8 * msize m. bit_of (nr_mapping_array m) g \<longrightarrow> B + int g \<le> max hn C)"

definition dups_ok :: "'a rcv_asoc_scheme \<Rightarrow> bool" where
  "dups_ok m \<longleftrightarrow> length (dup_tsns m) = 20 \<and> numduptsns m \<le> 20"

definition tsn_rel :: "int \<Rightarrow> int \<Rightarrow> int \<Rightarrow> int \<Rightarrow> int set \<Rightarrow> 'a rcv_asoc_scheme \<Rightarrow> bool" where
  "tsn_rel B C hm hn R m \<longleftrightarrow> arrays_ok B R m \<and> marks_ok B C hm hn R m \<and> dups_ok m"

text \<open>
  The highest TSN of an array that is not used falls behind the base; serial number comparisons with it are right as long
  as it is not further behind than this.
\<close>

definition near :: "int \<Rightarrow> int \<Rightarrow> int \<Rightarrow> bool" where
  "near B hm hn \<longleftrightarrow> B - 2 ^ 30 \<le> hm \<and> B - 2 ^ 30 \<le> hn"

definition window :: "int \<Rightarrow> int \<Rightarrow> int \<Rightarrow> bool" where
  "window B hm hn \<longleftrightarrow> B - 2 ^ 30 - 2 ^ 20 < hm \<and> B - 2 ^ 30 - 2 ^ 20 < hn"

lemma near_window: "near B hm hn \<Longrightarrow> hm \<le> hm' \<Longrightarrow> hn \<le> hn' \<Longrightarrow> B' < B + 2 ^ 20 \<Longrightarrow> window B' hm' hn'"
  by (auto simp: near_def window_def)

lemma arrays_okD:
  assumes "arrays_ok B R m"
  shows "unat (mapping_array_size m) = msize m" "length (nr_mapping_array m) = msize m" "0 < msize m" "msize m \<le> 1055"
    "mapping_array_base_tsn m = word_of_int B" "\<And>x. x < B \<Longrightarrow> x \<in> R" "\<And>x. x \<in> R \<Longrightarrow> x < B + 8 * int (msize m)"
    "\<And>x. x \<in> R \<Longrightarrow> x < B + 8440" "\<And>g. g < 8 * msize m \<Longrightarrow> B + int g \<in> R \<longleftrightarrow> got m g"
proof -
  show "x < B + 8440" if "x \<in> R" for x
  proof -
    have "x < B + 8 * int (msize m)" "int (msize m) \<le> 1055" using assms that unfolding arrays_ok_def by auto
    then show ?thesis by linarith
  qed
qed (use assms in \<open>auto simp: arrays_ok_def\<close>)

lemma marks_okD:
  assumes "marks_ok B C hm hn R m"
  shows "cumulative_tsn m = word_of_int C" "B - 1 \<le> C" "\<And>x. x \<le> C \<Longrightarrow> x \<in> R" "highest_tsn_inside_map m = word_of_int hm"
    "highest_tsn_inside_nr_map m = word_of_int hn" "hm \<in> R" "hn \<in> R" "B - 1 \<le> max hm hn"
    "\<And>g. g < 8 * msize m \<Longrightarrow> bit_of (mapping_array m) g \<Longrightarrow> B + int g \<le> hm"
    "\<And>g. g < 8 * msize m \<Longrightarrow> bit_of (nr_mapping_array m) g \<Longrightarrow> B + int g \<le> max hn C"
  using assms by (auto simp: marks_ok_def)

text \<open>Every received TSN is at most the larger of the two highest ones, unless these are behind the cumulative TSN.\<close>

lemma received_le_highest:
  assumes "arrays_ok B R m" "marks_ok B C hm hn R m" "x \<in> R"
  shows "x \<le> max (max hm hn) C"
proof (cases "x < B")
  case True
  with marks_okD(2) [OF assms(2)] show ?thesis by simp
next
  case False
  define g where "g = nat (x - B)"
  have g: "x = B + int g" "g < 8 * msize m" using False arrays_okD(7) [OF assms(1,3)] by (auto simp: g_def)
  with arrays_okD(9) [OF assms(1), of g] assms(3) have "got m g" by simp
  with g marks_okD(9,10) [OF assms(2), of g] show ?thesis by (auto simp: got_def le_max_iff_disj)
qed

section \<open>Sliding\<close>

text \<open>The table counts the trailing one bits.\<close>

function trailing_ones :: "nat \<Rightarrow> nat" where
  "trailing_ones n = (if odd n then Suc (trailing_ones (n div 2)) else 0)"
  by pat_completeness auto
termination by (relation "measure id") (auto elim: oddE)

declare trailing_ones.simps [simp del]

lemma lookup_tab_rows: "sctp_map_lookup_tab = map (\<lambda>n. int (trailing_ones n)) [0..<256]"
  by code_simp

lemma trailing_ones_bits: "(j < trailing_ones n \<longrightarrow> bit n j) \<and> \<not> bit n (trailing_ones n)"
proof (induction n arbitrary: j rule: trailing_ones.induct)
  case (1 n)
  show ?case
  proof (cases "odd n")
    case True
    with 1 [OF True] show ?thesis by (cases j) (auto simp: trailing_ones.simps [of n] bit_Suc bit_0)
  next
    case False
    then show ?thesis by (simp add: trailing_ones.simps [of n] bit_0)
  qed
qed

lemma trailing_ones_less: "n + 1 < 2 ^ k \<Longrightarrow> trailing_ones n < k"
proof (induction k arbitrary: n)
  case (Suc k)
  then show ?case by (cases "odd n") (auto simp: trailing_ones.simps [of n] elim!: oddE)
qed simp

lemma lookup_tab:
  assumes "(v :: u8) \<noteq> 0xff"
  obtains c where "sctp_map_lookup_tab ! unat v = int c" "c \<le> 7" "\<And>j. j < c \<Longrightarrow> bit v j" "\<not> bit v c"
proof -
  have v: "unat v < 256" using unsigned_less [of v, where 'a = nat] by simp
  have "unat v \<noteq> 255" using assms by (auto simp: word_unat_eq_iff)
  with v trailing_ones_less [of "unat v" 8] have "trailing_ones (unat v) \<le> 7" by simp
  moreover have "bit v j" if "j < trailing_ones (unat v)" for j
    using trailing_ones_bits [of j "unat v"] that by (simp add: bit_unsigned_iff)
  moreover have "\<not> bit v (trailing_ones (unat v))" using trailing_ones_bits [of 0 "unat v"] by (simp add: bit_unsigned_iff)
  ultimately show ?thesis using v by (intro that [of "trailing_ones (unat v)"]) (simp_all add: lookup_tab_rows)
qed

text \<open>The scan finds how many TSNs from the base on have been received without a gap.\<close>

lemma full_byte: "(v :: u8) = 0xff \<longleftrightarrow> (\<forall>j < 8. bit v j)"
proof
  assume "\<forall>j < 8. bit v j"
  then show "v = 0xff" by (intro bit_word_eqI) (auto simp: word_0xFF_eq_mask bit_mask_iff)
qed (simp add: word_0xFF_eq_mask bit_mask_iff)

lemma slide_scan_correct:
  assumes "length r = sz" "length nr = sz" "i \<le> sz" "\<And>g. g < 8 * i \<Longrightarrow> bit_of r g \<or> bit_of nr g"
  shows "\<exists>slide_from at. slide_scan nr r sz i (8 * int i) = Some (slide_from, int at) \<and> slide_from = at div 8 \<and> at \<le> 8 * sz \<and>
    (\<forall>g < at. bit_of r g \<or> bit_of nr g) \<and> (at < 8 * sz \<longrightarrow> \<not> (bit_of r at \<or> bit_of nr at))"
  using assms(3,4)
proof (induction "sz - i" arbitrary: i)
  case 0
  then have "i = sz" by simp
  with 0 show ?case by (subst slide_scan.simps) (auto intro!: exI [of _ "8 * sz"])
next
  case (Suc k)
  then have i: "i < sz" by simp
  let ?v = "nr ! i OR r ! i"
  have b: "bit_of r (8 * i + j) \<or> bit_of nr (8 * i + j) \<longleftrightarrow> bit ?v j" if "j < 8" for j
    using that by (auto simp: bit_of_def bit_or_iff)
  show ?case
  proof (cases "?v = 0xff")
    case True
    then have v: "\<forall>j < 8. bit ?v j" by (simp only: full_byte)
    have "bit_of r g \<or> bit_of nr g" if "g < 8 * (i + 1)" for g
    proof (cases "g < 8 * i")
      case False
      then obtain j where "g = 8 * i + j" using le_Suc_ex not_less by blast
      with that b [of j] v show ?thesis by simp
    qed (use Suc.prems in auto)
    from Suc.hyps(1) [of "i + 1", OF _ _ this] Suc.hyps(2) i
    have ih: "\<exists>slide_from at. slide_scan nr r sz (i + 1) (8 * int (i + 1)) = Some (slide_from, int at) \<and> slide_from = at div 8 \<and> at \<le> 8 * sz \<and>
      (\<forall>g < at. bit_of r g \<or> bit_of nr g) \<and> (at < 8 * sz \<longrightarrow> \<not> (bit_of r at \<or> bit_of nr at))" by simp
    have "slide_scan nr r sz i (8 * int i) = slide_scan nr r sz (i + 1) (8 * int (i + 1))"
      using True i assms by (subst slide_scan.simps) (simp add: byte_at_def algebra_simps)
    with ih show ?thesis by simp
  next
    case False
    from lookup_tab [OF False] obtain c where c: "sctp_map_lookup_tab ! unat ?v = int c" "c \<le> 7" "\<forall>j < c. bit ?v j" "\<not> bit ?v c" by blast
    have "slide_scan nr r sz i (8 * int i) = Some (i, int (8 * i + c))"
      using False i assms c(1) by (subst slide_scan.simps) (simp add: byte_at_def)
    moreover have "bit_of r g \<or> bit_of nr g" if "g < 8 * i + c" for g
    proof (cases "g < 8 * i")
      case False
      then obtain j where "g = 8 * i + j" using le_Suc_ex not_less by blast
      with that b [of j] c show ?thesis by simp
    qed (use Suc.prems in auto)
    moreover have "\<not> (bit_of r (8 * i + c) \<or> bit_of nr (8 * i + c))" using b [of c] c by simp
    ultimately show ?thesis using c(2) i by (intro exI [of _ i] exI [of _ "8 * i + c"]) auto
  qed
qed

lemma copy_down:
  assumes "slide_from + k \<le> length arry"
  shows "length (fold (\<lambda>ii a. a[ii := a ! (slide_from + ii)]) [0..<k] arry) = length arry \<and>
    (\<forall>i < length arry. fold (\<lambda>ii a. a[ii := a ! (slide_from + ii)]) [0..<k] arry ! i = (if i < k then arry ! (slide_from + i) else arry ! i))"
  using assms by (induction k) (auto simp: nth_list_update less_Suc_eq)

lemma clear_from:
  assumes "k \<le> sz" "sz = length (arry :: bytes)"
  shows "length (fold (\<lambda>ii a. a[ii := 0]) [k..<sz'] arry) = length arry \<and>
    (\<forall>i < length arry. fold (\<lambda>ii a. a[ii := 0]) [k..<sz'] arry ! i = (if k \<le> i \<and> i < sz' then 0 else arry ! i))"
  by (induction sz') (auto simp: nth_list_update less_Suc_eq)

lemma slide_down_correct:
  assumes "length arry = sz" "slide_from + distance \<le> sz"
  shows "\<exists>a. slide_down slide_from distance sz arry = Some a \<and> length a = sz \<and>
    (\<forall>g < 8 * sz. bit_of a g \<longleftrightarrow> g div 8 < distance \<and> bit_of arry (8 * slide_from + g))"
proof -
  let ?c = "fold (\<lambda>ii a. a[ii := a ! (slide_from + ii)]) [0..<distance] arry"
  let ?a = "fold (\<lambda>ii a. a[ii := 0]) [distance..<sz] ?c"
  have "slide_from + distance \<le> length arry" using assms by simp
  from copy_down [OF this, unfolded assms(1)]
  have c: "length ?c = sz" "\<And>i. i < sz \<Longrightarrow> ?c ! i = (if i < distance then arry ! (slide_from + i) else arry ! i)" by blast+
  have "distance \<le> sz" using assms(2) by simp
  from clear_from [OF this c(1) [symmetric], of sz, unfolded c(1)]
  have d: "length ?a = sz" "\<And>i. i < sz \<Longrightarrow> ?a ! i = (if distance \<le> i \<and> i < sz then 0 else ?c ! i)" by blast+
  have a: "?a ! i = (if i < distance then arry ! (slide_from + i) else 0)" if "i < sz" for i
    unfolding d(2) [OF that] c(2) [OF that] using that by (cases "i < distance") simp_all
  have "bit_of ?a g \<longleftrightarrow> g div 8 < distance \<and> bit_of arry (8 * slide_from + g)" if "g < 8 * sz" for g
    using a [of "g div 8"] that by (simp add: bit_of_def)
  with d(1) assms show ?thesis by (simp add: slide_down_def)
qed

lemma zero_prefix_correct:
  assumes "n \<le> length arry"
  shows "\<exists>a. zero_prefix n arry = Some a \<and> length a = length arry \<and>
    (\<forall>g < 8 * length arry. bit_of a g \<longleftrightarrow> n \<le> g div 8 \<and> bit_of arry g)"
  using assms by (auto simp: zero_prefix_def bit_of_def nth_append)

text \<open>What sliding leaves alone.\<close>

definition same_rest :: "'a rcv_asoc_scheme \<Rightarrow> 'a rcv_asoc_scheme \<Rightarrow> bool" where
  "same_rest m m' \<longleftrightarrow> dup_tsns m' = dup_tsns m \<and> numduptsns m' = numduptsns m \<and> send_sack m' = send_sack m \<and>
     rcv_asoc.more m' = rcv_asoc.more m"

text \<open>Starting afresh behind the cumulative TSN, which is the highest TSN received.\<close>

lemma slide_all_correct:
  assumes ok: "arrays_ok B R m" and C: "cumulative_tsn m = word_of_int C" "C = B + int at - 1" "at \<le> 8 * msize m"
    and R: "\<And>x. x \<in> R \<longleftrightarrow> x \<le> C"
  shows "\<exists>m'. slide_all (int at) m = Some m' \<and> arrays_ok (C + 1) R m' \<and> marks_ok (C + 1) C C C R m' \<and> same_rest m m'"
proof -
  note ok = arrays_okD [OF ok]
  let ?n = "(at + 7) div 8"
  have n: "?n \<le> msize m" using C(3) by simp
  have sz: "uint (mapping_array_size m) = int (msize m)" using ok(1) by (metis uint_nat)
  have "(int at + 7) div 8 = int ?n" by (simp add: zdiv_int)
  then have clr: "nat (if (int at + 7) div 8 > uint (mapping_array_size m) then uint (mapping_array_size m) else (int at + 7) div 8) = ?n"
    using n sz by simp
  obtain r where r: "zero_prefix ?n (mapping_array m) = Some r" "length r = msize m" "\<forall>g < 8 * msize m. bit_of r g \<longleftrightarrow> ?n \<le> g div 8 \<and> bit_of (mapping_array m) g"
    using zero_prefix_correct [OF n] by blast
  obtain nr where nr: "zero_prefix ?n (nr_mapping_array m) = Some nr" "length nr = msize m" "\<forall>g < 8 * msize m. bit_of nr g \<longleftrightarrow> ?n \<le> g div 8 \<and> bit_of (nr_mapping_array m) g"
    using zero_prefix_correct [of ?n "nr_mapping_array m"] n ok(2) by auto
  have none: "\<not> (?n \<le> g div 8 \<and> got m g)" if "g < 8 * msize m" for g
  proof
    assume h: "?n \<le> g div 8 \<and> got m g"
    then have "B + int g \<le> C" using ok(9) [OF that] R by simp
    then have "g < at" using C(2) by simp
    moreover from h have "(at + 7) div 8 \<le> g div 8" ..
    moreover have "8 * ((at + 7) div 8) + (at + 7) mod 8 = at + 7" "8 * (g div 8) + g mod 8 = g" "(at + 7) mod 8 < 8" by simp_all
    ultimately show False by linarith
  qed
  let ?m = "m\<lparr>mapping_array := r, nr_mapping_array := nr, mapping_array_base_tsn := cumulative_tsn m + 1,
      highest_tsn_inside_nr_map := cumulative_tsn m, highest_tsn_inside_map := cumulative_tsn m\<rparr>"
  have bits: "\<not> bit_of r g \<and> \<not> bit_of nr g" if "g < 8 * msize m" for g using none [OF that] r(3) nr(3) that by (auto simp: got_def)
  have "slide_all (int at) m = Some ?m" by (simp only: slide_all_def Let_def clr r(1) nr(1) bind.bind_lunit)
  moreover have "arrays_ok (C + 1) R ?m" unfolding arrays_ok_def got_def using ok(1,3,4) r(2) nr(2) C(1) R bits by simp
  moreover have "marks_ok (C + 1) C C C R ?m" unfolding marks_ok_def using C(1) R bits r(2) by auto
  ultimately show ?thesis by (intro exI [of _ ?m]) (simp add: same_rest_def)
qed

text \<open>Dropping full bytes in front.\<close>

lemma slide_bytes_correct:
  assumes ok: "arrays_ok B R m" and marks: "marks_ok B C hm hn R m" and near: "near B hm hn" and C: "C \<le> max hm hn"
    and at: "\<And>x. x < B + 8 * int slide_from \<Longrightarrow> x \<in> R" "B + 8 * int slide_from \<le> max hm hn" "B + 8 * int slide_from - 1 \<le> C"
  shows "\<exists>m' hm' hn'. slide_bytes slide_from (word_of_int (max hm hn)) m = Some m' \<and>
    arrays_ok (B + 8 * int slide_from) R m' \<and> marks_ok (B + 8 * int slide_from) C hm' hn' R m' \<and> same_rest m m' \<and> hm \<le> hm' \<and> hn \<le> hn'"
proof -
  note okD = arrays_okD [OF ok] and mk = marks_okD [OF marks]
  let ?h = "max hm hn" and ?from = slide_from
  have hR: "?h \<in> R" using mk(6,7) by (simp add: max_def)
  have h: "0 \<le> ?h - B" "?h < B + 8 * int (msize m)" "?h - B < 8440" using at(2) okD(7,8) [OF hR] by auto
  define e where "e = nat ((?h - B) div 8)"
  have e: "int e = (?h - B) div 8" "?from \<le> e" "e < msize m" using h at(2) by (auto simp: e_def)
  have gap: "sint (SCTP_CALC_TSN_TO_GAP (word_of_int ?h) (mapping_array_base_tsn m)) = ?h - B"
  proof -
    have "(word_of_int ?h :: u32) - word_of_int B = word_of_int (?h - B)" by simp
    moreover have "sint (word_of_int (?h - B) :: u32) = ?h - B" using h by (intro sint_of_int_u32) simp_all
    ultimately show ?thesis unfolding gap_eq okD(5) by (simp only:)
  qed
  have sz: "uint (mapping_array_size m) = int (msize m)" using okD(1) by (metis uint_nat)
  define d where "d = e - ?from + 1"
  have d: "int e - int ?from + 1 = int d" "?from + d \<le> msize m" using e(2,3) by (auto simp: d_def)
  from slide_down_correct [OF refl d(2)] obtain r where r: "slide_down ?from d (msize m) (mapping_array m) = Some r" "length r = msize m"
    "\<forall>g < 8 * msize m. bit_of r g \<longleftrightarrow> g div 8 < d \<and> bit_of (mapping_array m) (8 * ?from + g)" by blast
  from slide_down_correct [OF okD(2) d(2)] obtain nr where nr: "slide_down ?from d (msize m) (nr_mapping_array m) = Some nr" "length nr = msize m"
    "\<forall>g < 8 * msize m. bit_of nr g \<longleftrightarrow> g div 8 < d \<and> bit_of (nr_mapping_array m) (8 * ?from + g)" by blast
  define up where "up x = (if x + 1 = B then x + 8 * int ?from else x)" for x :: int
  define m' where "m' = m\<lparr>mapping_array := r, nr_mapping_array := nr, mapping_array_base_tsn := word_of_int (B + 8 * int ?from),
      highest_tsn_inside_nr_map := word_of_int (up hn), highest_tsn_inside_map := word_of_int (up hm)\<rparr>"
  have w: "((word_of_int x :: u32) + 1 = word_of_int B) \<longleftrightarrow> x + 1 = B" if "B - 2 ^ 30 \<le> x" "x \<in> R" for x
  proof -
    have "\<bar>(x + 1) - B\<bar> < 2 ^ 32" using that okD(8) [OF that(2)] by simp
    from word_of_int_inj [OF this] show ?thesis by simp
  qed
  have nearD: "B - 2 ^ 30 \<le> hm" "B - 2 ^ 30 \<le> hn" using near by (auto simp: near_def)
  note wh = w [OF nearD(1) mk(6)] w [OF nearD(2) mk(7)]
  have res: "slide_bytes ?from (word_of_int ?h) m = Some m'"
  proof -
    have c: "(int e < int ?from) = False" "(int e > int (msize m)) = False" "(int d + int ?from > int (msize m) \<or> int d < 0) = False"
      using e(2,3) d(2) by auto
    show ?thesis
      by (simp only: slide_bytes_def Let_def gap sz e(1) [symmetric] c d(1) if_False nat_int r(1) nr(1) bind.bind_lunit)
        (cases m, use mk(4,5) okD(5) in \<open>simp add: wh m'_def up_def mult.commute\<close>)
  qed
  have up_ge: "x \<le> up x" "x \<in> R \<Longrightarrow> up x \<in> R" for x using at(1) by (auto simp: up_def)
  have bits: "bit_of r g \<longleftrightarrow> 8 * ?from + g < 8 * msize m \<and> bit_of (mapping_array m) (8 * ?from + g)"
    "bit_of nr g \<longleftrightarrow> 8 * ?from + g < 8 * msize m \<and> bit_of (nr_mapping_array m) (8 * ?from + g)" if "g < 8 * msize m" for g
  proof -
    have "g div 8 < d" if "8 * ?from + g < 8 * msize m" "got m (8 * ?from + g)"
    proof -
      have "B + int (8 * ?from + g) \<in> R" using okD(9) [OF that(1)] that(2) by simp
      then have "B + int (8 * ?from + g) \<le> ?h" using received_le_highest [OF ok marks] C by fastforce
      then have "(8 * ?from + g) div 8 \<le> e" using e(1) by (simp add: zdiv_int zdiv_mono1 flip: of_nat_add of_nat_mult)
      then show ?thesis using e(2) by (simp add: d_def)
    qed
    moreover have "8 * ?from + g < 8 * msize m" if "g div 8 < d" using that d(2) by linarith
    ultimately show "bit_of r g \<longleftrightarrow> 8 * ?from + g < 8 * msize m \<and> bit_of (mapping_array m) (8 * ?from + g)"
      "bit_of nr g \<longleftrightarrow> 8 * ?from + g < 8 * msize m \<and> bit_of (nr_mapping_array m) (8 * ?from + g)"
      using r(3) nr(3) \<open>g < 8 * msize m\<close> by (auto simp: got_def)
  qed
  have "B + 8 * int ?from + int g \<in> R \<longleftrightarrow> got m' g" if "g < 8 * msize m" for g
  proof (cases "8 * ?from + g < 8 * msize m")
    case True
    have "B + 8 * int ?from + int g = B + int (8 * ?from + g)" by simp
    then have "B + 8 * int ?from + int g \<in> R \<longleftrightarrow> got m (8 * ?from + g)" using okD(9) [OF True] by (simp only:)
    with True bits [OF that] show ?thesis by (simp add: got_def m'_def)
  next
    case False
    with bits [OF that] okD(7) [of "B + 8 * int ?from + int g"] show ?thesis by (auto simp: got_def m'_def)
  qed
  moreover have "x < B + 8 * int ?from + 8 * int (msize m)" if "x \<in> R" for x using okD(7) [OF that] by simp
  ultimately have "arrays_ok (B + 8 * int ?from) R m'"
    unfolding arrays_ok_def using okD(1,3,4) r(2) nr(2) at(1) by (simp add: m'_def)
  moreover have "marks_ok (B + 8 * int ?from) C (up hm) (up hn) R m'"
  proof -
    have "B + 8 * int ?from + int g \<le> up hm" if "g < 8 * msize m" "bit_of r g" for g
      using bits(1) [OF that(1)] that(2) mk(9) [of "8 * ?from + g"] up_ge(1) [of hm] by auto
    moreover have "B + 8 * int ?from + int g \<le> max (up hn) C" if "g < 8 * msize m" "bit_of nr g" for g
      using bits(2) [OF that(1)] that(2) mk(10) [of "8 * ?from + g"] up_ge(1) [of hn] by auto
    moreover have "B + 8 * int ?from - 1 \<le> max (up hm) (up hn)" using at(2) up_ge(1) [of hm] up_ge(1) [of hn] by (simp add: max_def split: if_splits)
    ultimately show ?thesis unfolding marks_ok_def using mk(1,3,6,7) at(3) up_ge(2) r(2) by (auto simp: m'_def)
  qed
  ultimately show ?thesis using res by (intro exI [of _ m'] exI [of _ "up hm"] exI [of _ "up hn"]) (simp add: m'_def same_rest_def up_ge(1))
qed

lemma highest_of_int:
  assumes "highest_tsn_inside_map m = word_of_int hm" "highest_tsn_inside_nr_map m = word_of_int hn" "\<bar>hm - hn\<bar> < 2 ^ 31"
  shows "highest_of m = word_of_int (max hm hn)"
  using TSN_GT_int [of hn hm] assms by (auto simp: highest_of_def max_def)

lemma slide_correct:
  assumes rel: "tsn_rel B C hm hn R m" and near: "near B hm hn"
  shows "\<exists>m' B' C' hm' hn'. sctp_slide_mapping_arrays m = Some m' \<and> tsn_rel B' C' hm' hn' R m' \<and> same_rest m m' \<and>
    C' + 1 \<notin> R \<and> C' \<le> B' + 6 \<and> window B' hm' hn' \<and> C' \<le> max hm' hn'"
proof -
  have ok: "arrays_ok B R m" and marks: "marks_ok B C hm hn R m" and dups: "dups_ok m" using rel by (simp_all add: tsn_rel_def)
  note okD = arrays_okD [OF ok] and mk = marks_okD [OF marks]
  have "\<exists>slide_from at. slide_scan (nr_mapping_array m) (mapping_array m) (msize m) 0 (8 * int 0) = Some (slide_from, int at) \<and>
    slide_from = at div 8 \<and> at \<le> 8 * msize m \<and> (\<forall>g < at. got m g) \<and> (at < 8 * msize m \<longrightarrow> \<not> got m at)"
    unfolding got_def by (rule slide_scan_correct) (simp_all add: okD(2))
  then obtain sf at where s: "slide_scan (nr_mapping_array m) (mapping_array m) (msize m) 0 0 = Some (sf, int at)"
    "sf = at div 8" "at \<le> 8 * msize m" "\<And>g. g < at \<Longrightarrow> got m g" "at < 8 * msize m \<longrightarrow> \<not> got m at" by auto
  define c where "c = B + int at - 1"
  have recv: "x \<in> R" if "x \<le> c" for x
  proof (cases "x < B")
    case False
    then have x: "x = B + int (nat (x - B))" "nat (x - B) < at" using that by (auto simp: c_def)
    with okD(9) [of "nat (x - B)"] s(3,4) show ?thesis by fastforce
  qed (use okD(6) in blast)
  have stop: "c + 1 \<notin> R" using okD(7) [of "c + 1"] okD(9) [of at] s(3,5) by (cases "at < 8 * msize m") (auto simp: c_def)
  have bounds: "B - 2 ^ 30 \<le> hm" "B - 2 ^ 30 \<le> hn" "hm < B + 8440" "hn < B + 8440" "B - 1 \<le> c" "c < B + 8440" "C \<le> c"
    using near okD(8) [OF mk(6)] okD(8) [OF mk(7)] okD(8) [OF recv [of c]] stop mk(3) [of "c + 1"] by (force simp: near_def c_def not_le)+
  define gm where "gm = (if hm < c \<and> hn < c then c else hm)"
  define gn where "gn = (if hm < c \<and> hn < c then c else hn)"
  have g: "hm \<le> gm" "hn \<le> gn" "c \<le> max gm gn" "gm < B + 8440" "gn < B + 8440" "gm \<in> R" "gn \<in> R"
    using bounds mk(6,7) recv [of c] by (auto simp: gm_def gn_def)
  have near1: "near B gm gn" using near g(1,2) by (simp add: near_def)
  define m0 where "m0 = m\<lparr>cumulative_tsn := mapping_array_base_tsn m + word_of_int (int at - 1)\<rparr>"
  have m0: "cumulative_tsn m0 = word_of_int c" by (simp add: m0_def okD(5) c_def algebra_simps)
  have m0h: "highest_tsn_inside_map m0 = word_of_int hm" "highest_tsn_inside_nr_map m0 = word_of_int hn" using mk(4,5) by (simp_all add: m0_def)
  have repair: "SCTP_TSN_GT (cumulative_tsn m0) (highest_tsn_inside_map m0) \<and> SCTP_TSN_GT (cumulative_tsn m0) (highest_tsn_inside_nr_map m0) \<longleftrightarrow> hm < c \<and> hn < c"
    unfolding m0 m0h using TSN_GT_int [of c hm] TSN_GT_int [of c hn] bounds by auto
  define m1 where "m1 = (if hm < c \<and> hn < c then m0\<lparr>highest_tsn_inside_map := cumulative_tsn m0, highest_tsn_inside_nr_map := cumulative_tsn m0\<rparr> else m0)"
  have m1: "cumulative_tsn m1 = word_of_int c" using m0 by (simp add: m1_def)
  have m1h: "highest_tsn_inside_map m1 = word_of_int gm" "highest_tsn_inside_nr_map m1 = word_of_int gn" using m0 m0h by (simp_all add: m1_def gm_def gn_def)
  have same: "mapping_array m1 = mapping_array m" "nr_mapping_array m1 = nr_mapping_array m" "mapping_array_size m1 = mapping_array_size m"
    "mapping_array_base_tsn m1 = mapping_array_base_tsn m" "same_rest m m1" "dups_ok m1" using dups by (simp_all add: m1_def m0_def same_rest_def dups_ok_def)
  have ok1: "arrays_ok B R m1" using ok same by (simp add: arrays_ok_def got_def)
  have le1: "B + int i \<le> gm" if "i < 8 * msize m" "bit_of (mapping_array m) i" for i using mk(9) [OF that] g(1) by simp
  have le2: "B + int i \<le> max gn c" if "i < 8 * msize m" "bit_of (nr_mapping_array m) i" for i using mk(10) [OF that] g(2) bounds(7) by (auto simp: le_max_iff_disj)
  have marks1: "marks_ok B c gm gn R m1"
    unfolding marks_ok_def m1 m1h same using recv bounds(5) g le1 le2 by auto
  have high: "highest_of m1 = word_of_int (max gm gn)" using bounds g near1 by (intro highest_of_int m1h) (auto simp: near_def)
  have eq: "cumulative_tsn m1 = highest_of m1 \<longleftrightarrow> c = max gm gn"
    unfolding m1 high using bounds g near1 by (intro word_of_int_inj) (auto simp: near_def max_def)
  have step: "sctp_slide_mapping_arrays m =
      (if c = max gm gn \<and> int at \<ge> 8 then slide_all (int at) m1
       else if int at \<ge> 8 then slide_bytes sf (highest_of m1) m1 else Some m1)"
    by (simp only: sctp_slide_mapping_arrays_def okD(1) s(1) bind.bind_lunit prod.case Let_def m0_def [symmetric] repair m1_def [symmetric] eq)
  consider "c = max gm gn" "8 \<le> at" | "c \<noteq> max gm gn" "8 \<le> at" | "at < 8" by linarith
  then show ?thesis
  proof cases
    case 1
    have "x \<in> R \<longleftrightarrow> x \<le> c" for x using recv received_le_highest [OF ok1 marks1] 1(1) by fastforce
    from slide_all_correct [OF ok1 m1 c_def _ this] s(3) same(1) obtain m' where m': "slide_all (int at) m1 = Some m'"
      "arrays_ok (c + 1) R m'" "marks_ok (c + 1) c c c R m'" "same_rest m1 m'" by auto
    moreover have "window (c + 1) c c" by (simp add: window_def)
    ultimately show ?thesis using step 1 stop same(5,6) g(3)
      by (intro exI [of _ m'] exI [of _ "c + 1"] exI [of _ c] exI [of _ c]) (auto simp: tsn_rel_def same_rest_def dups_ok_def)
  next
    case 2
    have q: "8 * (at div 8) \<le> at" "at < 8 * (at div 8) + 8" by simp_all
    have a: "x \<in> R" if "x < B + 8 * int sf" for x using that q(1) s(2) by (intro recv) (simp add: c_def)
    have b: "B + 8 * int sf \<le> max gm gn" "B + 8 * int sf - 1 \<le> c" using g(3) 2(1) q(1) s(2) by (auto simp: c_def)
    from slide_bytes_correct [OF ok1 marks1 near1 g(3) a b] obtain m' hm' hn' where m': "slide_bytes sf (word_of_int (max gm gn)) m1 = Some m'"
      "arrays_ok (B + 8 * int sf) R m'" "marks_ok (B + 8 * int sf) c hm' hn' R m'" "same_rest m1 m'" "gm \<le> hm'" "gn \<le> hn'" by auto
    have "c \<le> B + 8 * int sf + 6" using q(2) s(2) by (simp add: c_def)
    moreover have "window (B + 8 * int sf) hm' hn'" using b(2) bounds(6) by (intro near_window [OF near1 m'(5,6)]) simp
    ultimately show ?thesis using m' step 2 stop same(5,6) g(3) high
      by (intro exI [of _ m'] exI [of _ "B + 8 * int sf"] exI [of _ c] exI [of _ hm'] exI [of _ hn']) (auto simp: tsn_rel_def same_rest_def dups_ok_def)
  next
    case 3
    have "window B gm gn" by (rule near_window [OF near1]) simp_all
    with 3 step marks1 ok1 same(5,6) g(3) stop c_def show ?thesis
      by (intro exI [of _ m1] exI [of _ B] exI [of _ c] exI [of _ gm] exI [of _ gn]) (auto simp: tsn_rel_def)
  qed
qed

end
