(* ===== verification/Tsn_Receive.thy ===== *)
theory Tsn_Receive
  imports Tsn_Correct
begin

text \<open>
  The operations on the mapping arrays keep the representation of the set of received TSNs: the check and the mark of
  a received TSN, data that can no longer be revoked, FORWARD-TSN. None of them leaves the arrays, and the set that is represented afterwards
  is the one it should be.
\<close>

section \<open>Parts of the representation\<close>

definition cum_ok :: "int \<Rightarrow> int \<Rightarrow> int set \<Rightarrow> 'a rcv_asoc_scheme \<Rightarrow> bool" where
  "cum_ok B C R m \<longleftrightarrow> cumulative_tsn m = word_of_int C \<and> B - 1 \<le> C \<and> {..C} \<subseteq> R"

definition highs_ok :: "int \<Rightarrow> int \<Rightarrow> int \<Rightarrow> int \<Rightarrow> int set \<Rightarrow> 'a rcv_asoc_scheme \<Rightarrow> bool" where
  "highs_ok B C hm hn R m \<longleftrightarrow> highest_tsn_inside_map m = word_of_int hm \<and> highest_tsn_inside_nr_map m = word_of_int hn \<and>
     hm \<in> R \<and> hn \<in> R \<and> B - 1 \<le> max hm hn \<and>
     (\<forall>g < 8 * msize m. bit_of (mapping_array m) g \<longrightarrow> B + int g \<le> hm) \<and>
     (\<forall>g < 8 * msize m. bit_of (nr_mapping_array m) g \<longrightarrow> B + int g \<le> max hn C)"

lemma marks_split: "marks_ok B C hm hn R m \<longleftrightarrow> cum_ok B C R m \<and> highs_ok B C hm hn R m"
  by (auto simp: marks_ok_def cum_ok_def highs_ok_def)

lemma highs_okD:
  assumes "highs_ok B C hm hn R m"
  shows "highest_tsn_inside_map m = word_of_int hm" "highest_tsn_inside_nr_map m = word_of_int hn" "hm \<in> R" "hn \<in> R" "B - 1 \<le> max hm hn"
    "\<And>g. g < 8 * msize m \<Longrightarrow> bit_of (mapping_array m) g \<Longrightarrow> B + int g \<le> hm"
    "\<And>g. g < 8 * msize m \<Longrightarrow> bit_of (nr_mapping_array m) g \<Longrightarrow> B + int g \<le> max hn C"
  using assms by (auto simp: highs_ok_def)

text \<open>The position of a TSN in the arrays.\<close>

lemma gap_int:
  assumes "mapping_array_base_tsn m = word_of_int B" "B \<le> t" "t - B < 2 ^ 32"
  shows "unat (SCTP_CALC_TSN_TO_GAP (word_of_int t) (mapping_array_base_tsn m)) = nat (t - B)"
  unfolding gap_eq assms(1) using assms(2,3) by (intro unat_diff_int) simp_all

section \<open>Marking a TSN\<close>

lemma mark_nr_correct:
  assumes ok: "arrays_ok B R m" and hi: "highs_ok B C hm hn R m" and near: "near B hm hn"
    and t: "B \<le> t" "t < B + 8 * int (msize m)" and gap: "unat gap = nat (t - B)"
  shows "\<exists>m'. mark_nr gap (word_of_int t) m = Some m' \<and> arrays_ok B (insert t R) m' \<and> highs_ok B C hm (max hn t) (insert t R) m' \<and>
    same_rest m m' \<and> cumulative_tsn m' = cumulative_tsn m \<and> msize m' = msize m"
proof -
  note okD = arrays_okD [OF ok] and hiD = highs_okD [OF hi]
  have "unat gap < 8 * length (nr_mapping_array m)" using t gap okD(2) by simp
  from set_present [OF this] obtain arry where a: "SCTP_SET_TSN_PRESENT (nr_mapping_array m) gap = Some arry"
    "length arry = msize m" "\<And>g. g < 8 * msize m \<Longrightarrow> bit_of arry g \<longleftrightarrow> bit_of (nr_mapping_array m) g \<or> g = unat gap" using okD(2) by auto
  have gt: "SCTP_TSN_GT (word_of_int t) (highest_tsn_inside_nr_map m) \<longleftrightarrow> hn < t"
    unfolding hiD(2) using near okD(8) [OF hiD(4)] t okD(4) by (intro TSN_GT_int) (auto simp: near_def)
  let ?m = "m\<lparr>nr_mapping_array := arry, highest_tsn_inside_nr_map := word_of_int (max hn t)\<rparr>"
  have "mark_nr gap (word_of_int t) m = Some ?m"
    using a(1) gt hiD(2) by (cases m) (auto simp: mark_nr_def max_def)
  moreover have "arrays_ok B (insert t R) ?m"
  proof -
    have "B + int g = t \<longleftrightarrow> g = unat gap" for g using t(1) gap by auto
    then show ?thesis using okD t(2) a by (auto simp: arrays_ok_def got_def)
  qed
  moreover have "highs_ok B C hm (max hn t) (insert t R) ?m"
    using hiD a(2,3) t gap by (fastforce simp: highs_ok_def max_def split: if_splits)
  ultimately show ?thesis by (intro exI [of _ ?m]) (simp add: same_rest_def)
qed

lemma mark_r_correct:
  assumes ok: "arrays_ok B R m" and hi: "highs_ok B C hm hn R m" and near: "near B hm hn"
    and t: "B \<le> t" "t < B + 8 * int (msize m)" and gap: "unat gap = nat (t - B)"
  shows "\<exists>m'. mark_r gap (word_of_int t) m = Some m' \<and> arrays_ok B (insert t R) m' \<and> highs_ok B C (max hm t) hn (insert t R) m' \<and>
    same_rest m m' \<and> cumulative_tsn m' = cumulative_tsn m \<and> msize m' = msize m"
proof -
  note okD = arrays_okD [OF ok] and hiD = highs_okD [OF hi]
  have "unat gap < 8 * msize m" using t gap by simp
  from set_present [OF this] obtain arry where a: "SCTP_SET_TSN_PRESENT (mapping_array m) gap = Some arry"
    "length arry = msize m" "\<And>g. g < 8 * msize m \<Longrightarrow> bit_of arry g \<longleftrightarrow> bit_of (mapping_array m) g \<or> g = unat gap" by auto
  have gt: "SCTP_TSN_GT (word_of_int t) (highest_tsn_inside_map m) \<longleftrightarrow> hm < t"
    unfolding hiD(1) using near okD(8) [OF hiD(3)] t okD(4) by (intro TSN_GT_int) (auto simp: near_def)
  let ?m = "m\<lparr>mapping_array := arry, highest_tsn_inside_map := word_of_int (max hm t)\<rparr>"
  have "mark_r gap (word_of_int t) m = Some ?m"
    using a(1) gt hiD(1) by (cases m) (auto simp: mark_r_def max_def)
  moreover have "arrays_ok B (insert t R) ?m"
  proof -
    have "B + int g = t \<longleftrightarrow> g = unat gap" for g using t(1) gap by auto
    then show ?thesis using okD t(2) a by (auto simp: arrays_ok_def got_def)
  qed
  moreover have "highs_ok B C (max hm t) hn (insert t R) ?m"
    using hiD a(2,3) t gap by (fastforce simp: highs_ok_def max_def split: if_splits)
  ultimately show ?thesis using a(2) by (intro exI [of _ ?m]) (simp add: same_rest_def)
qed

lemma tsn_mark_correct:
  assumes rel: "tsn_rel B C hm hn R m" and near: "near B hm hn"
    and t: "C < t" "t < B + 8 * int (msize m)" "unat gap = nat (t - B)"
  shows "\<exists>m' hm' hn'. tsn_mark do_drain express gap (word_of_int t) m = Some m' \<and>
    tsn_rel B (if t = C + 1 then t else C) hm' hn' (insert t R) m' \<and> hm \<le> hm' \<and> hn \<le> hn'"
proof -
  have ok: "arrays_ok B R m" and cum: "cum_ok B C R m" and hi: "highs_ok B C hm hn R m" and dups: "dups_ok m"
    using rel by (auto simp: tsn_rel_def marks_split)
  have Bt: "B \<le> t" using cum t(1) by (simp add: cum_ok_def)
  obtain m1 hm' hn' where m1: "(if express \<or> \<not> do_drain then mark_nr gap (word_of_int t) m else mark_r gap (word_of_int t) m) = Some m1"
    "arrays_ok B (insert t R) m1" "highs_ok B C hm' hn' (insert t R) m1" "same_rest m m1" "cumulative_tsn m1 = cumulative_tsn m" "hm \<le> hm'" "hn \<le> hn'"
    using mark_nr_correct [OF ok hi near Bt t(2,3)] mark_r_correct [OF ok hi near Bt t(2,3)] by (cases "express \<or> \<not> do_drain") auto
  have "t - C < 2 ^ 31" using t(2) cum arrays_okD(4) [OF ok] by (simp add: cum_ok_def)
  then have "(word_of_int t :: u32) = word_of_int (C + 1) \<longleftrightarrow> t = C + 1" using t(1) by (intro word_of_int_inj) simp
  then have eq: "word_of_int t = cumulative_tsn m1 + 1 \<longleftrightarrow> t = C + 1" using m1(5) cum by (simp add: cum_ok_def)
  have "{..t} \<subseteq> insert t R" if "t = C + 1"
  proof
    fix x
    assume "x \<in> {..t}"
    then have "x \<in> {..C} \<or> x = t" using that by auto
    then show "x \<in> insert t R" using cum by (auto simp: cum_ok_def)
  qed
  then have "tsn_rel B (if t = C + 1 then t else C) hm' hn' (insert t R) (advance_cumulative (word_of_int t) m1)"
    using m1 dups cum eq by (auto simp: tsn_rel_def marks_split advance_cumulative_def arrays_ok_def highs_ok_def cum_ok_def dups_ok_def same_rest_def got_def)
  moreover have "tsn_mark do_drain express gap (word_of_int t) m = Some (advance_cumulative (word_of_int t) m1)"
    unfolding tsn_mark_def m1(1) by simp
  ultimately show ?thesis using m1(6,7) by blast
qed

section \<open>The check of a received TSN\<close>

lemma bit_of_grown:
  assumes "g < 8 * (length arry + n)"
  shows "bit_of (arry @ replicate n 0) g \<longleftrightarrow> g < 8 * length arry \<and> bit_of arry g"
  using assms by (auto simp: bit_of_def nth_append)

lemma expand_correct:
  assumes rel: "tsn_rel B C hm hn R m" and gap: "unat gap < 4096" "8 * msize m \<le> unat gap"
  shows "\<exists>m'. sctp_expand_mapping_array True True gap m = Some (0, m') \<and> tsn_rel B C hm hn R m' \<and> unat gap < 8 * msize m'"
proof -
  have ok: "arrays_ok B R m" and mk: "marks_ok B C hm hn R m" and dups: "dups_ok m" using rel by (auto simp: tsn_rel_def)
  note okD = arrays_okD [OF ok] and mkD = marks_okD [OF mk]
  let ?k = "(unat gap + 7) div 8 + 32"
  have k: "?k \<le> 544" using gap(1) by simp
  have sz: "msize m \<le> 511" using gap by simp
  have "unat ((gap + 7) div 8 + SCTP_MAPPING_ARRAY_INCR) = ?k"
    using gap(1) by (simp add: unat_div unat_word_ariths SCTP_MAPPING_ARRAY_INCR_def)
  moreover have "unat (ucast (mapping_array_size m) :: u32) = msize m"
    using okD(1) sz by (simp add: unsigned_ucast_eq take_bit_nat_eq_self)
  ultimately have ns: "unat (ucast (mapping_array_size m) + ((gap + 7) div 8 + SCTP_MAPPING_ARRAY_INCR) :: u32) = msize m + ?k" (is "unat ?new = _")
    using k sz by (simp only: unat_word_ariths) simp
  have ns': "unat (ucast ?new :: u16) = msize m + ?k" using ns k sz by (simp add: unsigned_ucast_eq take_bit_nat_eq_self)
  let ?g = "\<lambda>arry. arry @ replicate ?k (0 :: u8)"
  let ?m = "m\<lparr>mapping_array := ?g (mapping_array m), nr_mapping_array := ?g (nr_mapping_array m), mapping_array_size := ucast ?new\<rparr>"
  have e: "sctp_expand_mapping_array True True gap m = Some (0, ?m)"
    using okD(1,2) by (simp add: sctp_expand_mapping_array_def ns Let_def)
  have bits: "bit_of (?g (mapping_array m)) g \<longleftrightarrow> g < 8 * msize m \<and> bit_of (mapping_array m) g"
    "bit_of (?g (nr_mapping_array m)) g \<longleftrightarrow> g < 8 * msize m \<and> bit_of (nr_mapping_array m) g" if "g < 8 * (msize m + ?k)" for g
    using bit_of_grown [of g "mapping_array m" ?k] bit_of_grown [of g "nr_mapping_array m" ?k] that okD(2) by auto
  have "arrays_ok B R ?m" unfolding arrays_ok_def
  proof (intro conjI allI impI ballI)
    show "x < B + 8 * int (msize ?m)" if "x \<in> R" for x using okD(7) [OF that] by simp
    show "B + int g \<in> R \<longleftrightarrow> got ?m g" if "g < 8 * msize ?m" for g
      using that bits [of g] okD(7) [of "B + int g"] okD(9) [of g] by (cases "g < 8 * msize m") (auto simp: got_def)
  qed (use okD ns' k sz in auto)
  moreover have "marks_ok B C hm hn R ?m" unfolding marks_ok_def using mkD bits by (auto simp: subset_iff)
  moreover have "unat gap < 8 * msize ?m" by simp
  ultimately show ?thesis using e dups by (intro exI [of _ ?m]) (simp add: tsn_rel_def dups_ok_def)
qed

lemma record_dup_rel: "tsn_rel B C hm hn R m \<Longrightarrow> tsn_rel B C hm hn R (record_dup tsn m)"
proof -
  have "numduptsns m < 20 \<Longrightarrow> numduptsns m + 1 \<le> 20" by (auto simp: word_less_nat_alt word_le_nat_alt unat_word_ariths)
  then show "tsn_rel B C hm hn R m \<Longrightarrow> tsn_rel B C hm hn R (record_dup tsn m)"
    by (auto simp: tsn_rel_def arrays_ok_def marks_ok_def dups_ok_def record_dup_def got_def Let_def SCTP_MAX_DUP_TSNS_def)
qed

text \<open>
  The verdict on a TSN: a duplicate was received before; a new TSN was not, and it has its place in the arrays.
  A TSN is tossed when it is too far away or the arrays cannot grow.
\<close>

lemma tsn_check_correct:
  assumes rel: "tsn_rel B C hm hn R m" and t: "- (2 ^ 31) < t - C" "t - C < 2 ^ 31"
  shows "\<exists>v h m'. tsn_check ok1 ok2 (word_of_int t) high_tsn m = Some (v, h, m') \<and> tsn_rel B C hm hn R m' \<and>
    v = (if t \<le> C then Tsn_duplicate
         else if t - B \<ge> 4096 \<or> (t - B \<ge> 8 * int (msize m) \<and> \<not> (ok1 \<and> ok2)) then Tsn_tossed
         else if t \<in> R then Tsn_duplicate else Tsn_new (word_of_int (t - B))) \<and>
    (\<forall>gap. v = Tsn_new gap \<longrightarrow> t < B + 8 * int (msize m'))"
proof (cases "t \<le> C")
  case True
  have "cumulative_tsn m = word_of_int C" using rel by (simp add: tsn_rel_def marks_ok_def)
  then have "SCTP_TSN_GE (cumulative_tsn m) (word_of_int t)" using TSN_GE_int [of C t] t True by simp
  then show ?thesis using True record_dup_rel [OF rel] by (simp add: tsn_check_def)
next
  case False
  have ok: "arrays_ok B R m" and mk: "marks_ok B C hm hn R m" using rel by (auto simp: tsn_rel_def)
  note okD = arrays_okD [OF ok] and mkD = marks_okD [OF mk]
  have nge: "\<not> SCTP_TSN_GE (cumulative_tsn m) (word_of_int t)" using TSN_GE_int [of C t] t False mkD(1) by simp
  have tb: "B \<le> t" "t - B < 2 ^ 32" using False mkD(2) t okD(8) [OF mkD(3) [OF order_refl]] by auto
  let ?gap = "SCTP_CALC_TSN_TO_GAP (word_of_int t) (mapping_array_base_tsn m)"
  have gap: "unat ?gap = nat (t - B)" using gap_int [OF okD(5) tb] .
  have far: "?gap \<ge> push_bit 3 SCTP_MAPPING_ARRAY \<longleftrightarrow> t - B \<ge> 4096"
    using gap by (simp add: word_le_nat_alt SCTP_MAPPING_ARRAY_def push_bit_eq_mult) linarith
  have "unat (push_bit 3 (ucast (mapping_array_size m)) :: u32) = 8 * msize m"
    using okD(1,4) by (simp add: push_bit_eq_mult unat_word_ariths unsigned_ucast_eq take_bit_nat_eq_self)
  then have beyond: "?gap \<ge> push_bit 3 (ucast (mapping_array_size m)) \<longleftrightarrow> t - B \<ge> 8 * int (msize m)"
    using gap tb(1) by (simp add: word_le_nat_alt nat_le_iff) linarith
  have gw: "?gap = word_of_int (t - B)" using okD(5) by (simp add: gap_eq)
  show ?thesis
  proof (cases "t - B \<ge> 4096 \<or> (t - B \<ge> 8 * int (msize m) \<and> \<not> (ok1 \<and> ok2))")
    case True
    with False nge far beyond rel show ?thesis
      by (auto simp: tsn_check_def Let_def sctp_expand_mapping_array_def)
  next
    case inside: False
    have "\<exists>m'. (if ?gap \<ge> push_bit 3 (ucast (mapping_array_size m)) then sctp_expand_mapping_array ok1 ok2 ?gap m else Some (0, m)) = Some (0, m') \<and>
      tsn_rel B C hm hn R m' \<and> unat ?gap < 8 * msize m'"
    proof (cases "t - B \<ge> 8 * int (msize m)")
      case True
      with inside tb(1) gap have "ok1" "ok2" "unat ?gap < 4096" "8 * msize m \<le> unat ?gap" by auto
      with expand_correct [OF rel this(3,4)] True beyond show ?thesis by simp
    next
      case False
      with beyond rel gap tb(1) show ?thesis by (auto simp: not_le)
    qed
    then obtain m' where m': "(if ?gap \<ge> push_bit 3 (ucast (mapping_array_size m)) then sctp_expand_mapping_array ok1 ok2 ?gap m else Some (0, m)) = Some (0, m')"
      "tsn_rel B C hm hn R m'" "unat ?gap < 8 * msize m'" by blast
    have ok': "arrays_ok B R m'" using m'(2) by (simp add: tsn_rel_def)
    have tR: "t \<in> R \<longleftrightarrow> got m' (unat ?gap)" using arrays_okD(9) [OF ok' m'(3)] tb(1) gap by simp
    have p: "SCTP_IS_TSN_PRESENT (mapping_array m') ?gap = Some (bit_of (mapping_array m') (unat ?gap))"
      "SCTP_IS_TSN_PRESENT (nr_mapping_array m') ?gap = Some (bit_of (nr_mapping_array m') (unat ?gap))"
      using m'(3) arrays_okD(2) [OF ok'] by (simp_all add: is_present)
    have "tsn_check ok1 ok2 (word_of_int t) high_tsn m =
        (let h = (if SCTP_TSN_GT (word_of_int t) high_tsn then word_of_int t else high_tsn)
         in Some (if t \<in> R then (Tsn_duplicate, h, record_dup (word_of_int t) m') else (Tsn_new ?gap, h, m')))"
      unfolding tsn_check_def using nge far inside m'(1) p tR by (simp add: Let_def got_def)
    moreover have "t < B + 8 * int (msize m')" using m'(3) gap tb(1) by simp
    ultimately show ?thesis using False inside m'(2) record_dup_rel [OF m'(2)] gw by (auto simp: Let_def)
  qed
qed

section \<open>Data that can no longer be revoked\<close>

lemma back_down_correct:
  assumes "length arry \<le> 1055" "B - 1 \<le> i" "i < B + 8 * int (length arry)"
  shows "\<exists>fnd. back_down arry (word_of_int B) (word_of_int i) = Some (map_option word_of_int fnd) \<and>
    (case fnd of Some j \<Rightarrow> B \<le> j \<and> j \<le> i \<and> bit_of arry (nat (j - B)) \<and> (\<forall>k. j < k \<and> k \<le> i \<longrightarrow> \<not> bit_of arry (nat (k - B)))
     | None \<Rightarrow> \<forall>k. B \<le> k \<and> k \<le> i \<longrightarrow> \<not> bit_of arry (nat (k - B)))"
  using assms(2,3)
proof (induction "nat (i - (B - 1))" arbitrary: i)
  case 0
  then have "i = B - 1" by simp
  moreover have "\<not> SCTP_TSN_GE (word_of_int (B - 1)) (word_of_int B)" using TSN_GE_int [of "B - 1" B] by simp
  ultimately show ?case by (subst back_down.simps) (auto intro!: exI [of _ None])
next
  case (Suc n)
  then have i: "B \<le> i" "i - B < 2 ^ 31" using assms(1) by auto
  have ge: "SCTP_TSN_GE (word_of_int i) (word_of_int B)" using TSN_GE_int [of i B] i by simp
  have gap: "unat (SCTP_CALC_TSN_TO_GAP (word_of_int i) (word_of_int B)) = nat (i - B)"
    unfolding gap_eq using i by (intro unat_diff_int) simp_all
  have "unat (SCTP_CALC_TSN_TO_GAP (word_of_int i) (word_of_int B)) < 8 * length arry" unfolding gap using Suc.prems i by simp
  from is_present [OF this] have p: "SCTP_IS_TSN_PRESENT arry (SCTP_CALC_TSN_TO_GAP (word_of_int i) (word_of_int B)) = Some (bit_of arry (nat (i - B)))"
    by (simp only: gap)
  show ?case
  proof (cases "bit_of arry (nat (i - B))")
    case True
    with ge p i(1) show ?thesis by (subst back_down.simps) (auto intro!: exI [of _ "Some i"])
  next
    case False
    have step: "back_down arry (word_of_int B) (word_of_int i) = back_down arry (word_of_int B) (word_of_int (i - 1))"
      using ge p False by (subst back_down.simps) simp
    have "n = nat ((i - 1) - (B - 1))" "B - 1 \<le> i - 1" "i - 1 < B + 8 * int (length arry)" using Suc.hyps(2) Suc.prems i by auto
    from Suc.hyps(1) [OF this] obtain fnd where f: "back_down arry (word_of_int B) (word_of_int (i - 1)) = Some (map_option word_of_int fnd)"
      "case fnd of Some j \<Rightarrow> B \<le> j \<and> j \<le> i - 1 \<and> bit_of arry (nat (j - B)) \<and> (\<forall>k. j < k \<and> k \<le> i - 1 \<longrightarrow> \<not> bit_of arry (nat (k - B)))
        | None \<Rightarrow> \<forall>k. B \<le> k \<and> k \<le> i - 1 \<longrightarrow> \<not> bit_of arry (nat (k - B))" by blast
    have "\<not> bit_of arry (nat (k - B))" if "k \<le> i" "k \<le> i - 1 \<longrightarrow> \<not> bit_of arry (nat (k - B))" for k using that False by (cases "k = i") auto
    with f step show ?thesis by (intro exI [of _ fnd]) (auto split: option.splits)
  qed
qed

lemma set_if_absent:
  assumes "unat gap < 8 * length arry"
  obtains arry' where "bit_of arry (unat gap) \<Longrightarrow> arry' = arry" "\<not> bit_of arry (unat gap) \<Longrightarrow> SCTP_SET_TSN_PRESENT arry gap = Some arry'"
    "length arry' = length arry" "\<And>g. g < 8 * length arry \<Longrightarrow> bit_of arry' g \<longleftrightarrow> bit_of arry g \<or> g = unat gap"
  using set_present [OF assms] that by (cases "bit_of arry (unat gap)") fastforce+

lemma unset_if_present:
  assumes "unat gap < 8 * length arry"
  obtains arry' where "\<not> bit_of arry (unat gap) \<Longrightarrow> arry' = arry" "bit_of arry (unat gap) \<Longrightarrow> SCTP_UNSET_TSN_PRESENT arry gap = Some arry'"
    "length arry' = length arry" "\<And>g. g < 8 * length arry \<Longrightarrow> bit_of arry' g \<longleftrightarrow> bit_of arry g \<and> g \<noteq> unat gap"
  using unset_present [OF assms] that by (cases "bit_of arry (unat gap)") fastforce+

text \<open>The bit of a received TSN moves from the one array to the other.\<close>

lemma mark_non_revokable_run:
  assumes "\<not> SCTP_TSN_GT (cumulative_tsn m + 1) tsn" "gap = SCTP_CALC_TSN_TO_GAP tsn (mapping_array_base_tsn m)"
    and "unat gap < 8 * msize m" "length (nr_mapping_array m) = msize m"
  shows "\<exists>r nr. sctp_mark_non_revokable True tsn m = lower_highest tsn (raise_nr_highest tsn (m\<lparr>nr_mapping_array := nr, mapping_array := r\<rparr>)) \<and>
    length r = msize m \<and> length nr = msize m \<and>
    (\<forall>g < 8 * msize m. (bit_of nr g \<longleftrightarrow> bit_of (nr_mapping_array m) g \<or> g = unat gap) \<and> (bit_of r g \<longleftrightarrow> bit_of (mapping_array m) g \<and> g \<noteq> unat gap))"
proof -
  have inb: "unat gap < 8 * length (nr_mapping_array m)" using assms(3,4) by simp
  obtain nr where nr: "bit_of (nr_mapping_array m) (unat gap) \<Longrightarrow> nr = nr_mapping_array m"
    "\<not> bit_of (nr_mapping_array m) (unat gap) \<Longrightarrow> SCTP_SET_TSN_PRESENT (nr_mapping_array m) gap = Some nr" "length nr = length (nr_mapping_array m)"
    "\<And>g. g < 8 * length (nr_mapping_array m) \<Longrightarrow> bit_of nr g \<longleftrightarrow> bit_of (nr_mapping_array m) g \<or> g = unat gap"
    by (rule set_if_absent [OF inb]) (rule that)
  obtain r where r: "\<not> bit_of (mapping_array m) (unat gap) \<Longrightarrow> r = mapping_array m"
    "bit_of (mapping_array m) (unat gap) \<Longrightarrow> SCTP_UNSET_TSN_PRESENT (mapping_array m) gap = Some r" "length r = msize m"
    "\<And>g. g < 8 * msize m \<Longrightarrow> bit_of r g \<longleftrightarrow> bit_of (mapping_array m) g \<and> g \<noteq> unat gap"
    by (rule unset_if_present [OF assms(3)]) (rule that)
  note pres = is_present [OF assms(3)] is_present [OF inb]
  have "sctp_mark_non_revokable True tsn m = lower_highest tsn (raise_nr_highest tsn (m\<lparr>nr_mapping_array := nr, mapping_array := r\<rparr>))"
  proof (cases "bit_of (nr_mapping_array m) (unat gap)")
    case nrp: True
    show ?thesis unfolding nr(1) [OF nrp]
      by (cases "bit_of (mapping_array m) (unat gap)") (simp_all add: sctp_mark_non_revokable_def assms(1) assms(2) [symmetric] pres nrp r(1,2))
  next
    case nrp: False
    show ?thesis
      by (cases "bit_of (mapping_array m) (unat gap)") (simp_all add: sctp_mark_non_revokable_def assms(1) assms(2) [symmetric] pres nrp nr(2) [OF nrp] r(1,2))
  qed
  with r(3,4) nr(3,4) assms(4) show ?thesis by (intro exI [of _ r] exI [of _ nr]) simp
qed

lemma lower_highest_correct:
  assumes ok: "arrays_ok B R m" and hm: "highest_tsn_inside_map m = word_of_int hm" "B - 2 ^ 30 \<le> hm" "hm \<in> R"
    and t: "B \<le> t" "t \<in> R" and bits: "\<And>g. g < 8 * msize m \<Longrightarrow> bit_of (mapping_array m) g \<Longrightarrow> B + int g \<le> hm \<and> B + int g \<noteq> t"
  shows "\<exists>h. lower_highest (word_of_int t) m = Some (m\<lparr>highest_tsn_inside_map := word_of_int h\<rparr>) \<and> h \<in> R \<and>
    (\<forall>g < 8 * msize m. bit_of (mapping_array m) g \<longrightarrow> B + int g \<le> h) \<and> B - 2 ^ 30 \<le> h"
proof -
  note okD = arrays_okD [OF ok]
  have eq: "word_of_int t = highest_tsn_inside_map m \<longleftrightarrow> t = hm"
    unfolding hm(1) using hm(2) okD(8) [OF hm(3)] okD(8) [OF t(2)] t(1) by (intro word_of_int_inj) auto
  show ?thesis
  proof (cases "t = hm")
    case False
    have "m = m\<lparr>highest_tsn_inside_map := word_of_int hm\<rparr>" using hm(1) by (cases m) simp
    with False eq hm(2,3) bits show ?thesis by (intro exI [of _ hm]) (simp add: lower_highest_def)
  next
    case True
    let ?r = "mapping_array m"
    have "length ?r \<le> 1055" "B - 1 \<le> t - 1" "t - 1 < B + 8 * int (length ?r)" using okD(4) okD(7) [OF t(2)] t(1) by auto
    from back_down_correct [OF this] obtain fnd where f: "back_down ?r (word_of_int B) (word_of_int (t - 1)) = Some (map_option word_of_int fnd)"
      "case fnd of Some j \<Rightarrow> B \<le> j \<and> j \<le> t - 1 \<and> bit_of ?r (nat (j - B)) \<and> (\<forall>k. j < k \<and> k \<le> t - 1 \<longrightarrow> \<not> bit_of ?r (nat (k - B)))
        | None \<Rightarrow> \<forall>k. B \<le> k \<and> k \<le> t - 1 \<longrightarrow> \<not> bit_of ?r (nat (k - B))" by blast
    define h where "h = (case fnd of Some j \<Rightarrow> j | None \<Rightarrow> B - 1)"
    have top: "\<forall>k. h < k \<and> k \<le> t - 1 \<longrightarrow> \<not> bit_of ?r (nat (k - B))" using f(2) by (auto simp: h_def split: option.splits)
    have "lower_highest (word_of_int t) m = Some (m\<lparr>highest_tsn_inside_map := word_of_int h\<rparr>)"
      using True f(1) eq okD(5) by (simp add: lower_highest_def h_def split: option.splits)
    moreover have "h \<in> R"
    proof (cases fnd)
      case (Some j)
      with f(2) okD(7) [OF t(2)] have j: "nat (j - B) < 8 * msize m" "B \<le> j" "bit_of ?r (nat (j - B))" by auto
      with okD(9) [OF j(1)] Some show ?thesis by (simp add: h_def got_def)
    qed (use okD(6) in \<open>simp add: h_def\<close>)
    moreover have "B + int g \<le> h" if "g < 8 * msize m" "bit_of ?r g" for g
      using spec [OF top, of "B + int g"] bits [OF that] True that(2) by auto
    moreover have "B - 2 ^ 30 \<le> h" using f(2) by (auto simp: h_def split: option.splits)
    ultimately show ?thesis by blast
  qed
qed

lemma mark_non_revokable_correct:
  assumes rel: "tsn_rel B C hm hn R m" and near: "near B hm hn" and t: "t \<in> R" "- (2 ^ 30) < t - C"
  shows "\<exists>m' hm' hn'. sctp_mark_non_revokable do_drain (word_of_int t) m = Some m' \<and> tsn_rel B C hm' hn' R m' \<and>
    near B hm' hn' \<and> (do_drain \<and> C < t \<longrightarrow> bit_of (nr_mapping_array m') (nat (t - B)))"
proof -
  have ok: "arrays_ok B R m" and cum: "cum_ok B C R m" and hi: "highs_ok B C hm hn R m" and dups: "dups_ok m"
    using rel by (auto simp: tsn_rel_def marks_split)
  note okD = arrays_okD [OF ok] and hiD = highs_okD [OF hi]
  have tC: "t - C < 8442" "cumulative_tsn m = word_of_int C" using okD(8) [OF t(1)] cum by (auto simp: cum_ok_def)
  have old: "SCTP_TSN_GT (cumulative_tsn m + 1) (word_of_int t) \<longleftrightarrow> t \<le> C"
    using TSN_GT_int [of "C + 1" t] t(2) tC by auto
  show ?thesis
  proof (cases "do_drain \<and> C < t")
    case False
    then have "sctp_mark_non_revokable do_drain (word_of_int t) m = Some m" using old by (auto simp: sctp_mark_non_revokable_def)
    with rel near False show ?thesis by blast
  next
    case True
    have tb: "B \<le> t" "t < B + 8 * int (msize m)" using True cum okD(7) [OF t(1)] by (auto simp: cum_ok_def)
    define gap where "gap = SCTP_CALC_TSN_TO_GAP (word_of_int t) (mapping_array_base_tsn m)"
    have gap: "unat gap = nat (t - B)" unfolding gap_def using okD(4) tb by (intro gap_int okD(5)) simp_all
    have inb: "unat gap < 8 * msize m" using tb by (simp add: gap)
    have old': "\<not> SCTP_TSN_GT (cumulative_tsn m + 1) (word_of_int t)" using old True by auto
    from mark_non_revokable_run [OF old' gap_def inb okD(2)] obtain r nr where
      run: "sctp_mark_non_revokable True (word_of_int t) m = lower_highest (word_of_int t) (raise_nr_highest (word_of_int t) (m\<lparr>nr_mapping_array := nr, mapping_array := r\<rparr>))"
      and len: "length r = msize m" "length nr = msize m"
      and nrb: "\<And>g. g < 8 * msize m \<Longrightarrow> bit_of nr g \<longleftrightarrow> bit_of (nr_mapping_array m) g \<or> g = unat gap"
      and rb: "\<And>g. g < 8 * msize m \<Longrightarrow> bit_of r g \<longleftrightarrow> bit_of (mapping_array m) g \<and> g \<noteq> unat gap" by auto
    have gt: "SCTP_TSN_GT (word_of_int t) (highest_tsn_inside_nr_map m) \<longleftrightarrow> hn < t"
      unfolding hiD(2) using near okD(8) [OF hiD(4)] okD(8) [OF t(1)] tb(1) by (intro TSN_GT_int) (auto simp: near_def)
    define m1 where "m1 = raise_nr_highest (word_of_int t) (m\<lparr>nr_mapping_array := nr, mapping_array := r\<rparr>)"
    have m1: "mapping_array m1 = r" "nr_mapping_array m1 = nr" "mapping_array_base_tsn m1 = word_of_int B" "cumulative_tsn m1 = word_of_int C"
      "highest_tsn_inside_map m1 = word_of_int hm" "highest_tsn_inside_nr_map m1 = word_of_int (max hn t)" "dups_ok m1"
      "mapping_array_size m1 = mapping_array_size m"
      using okD(5) tC(2) hiD(1,2) dups gt by (simp_all add: m1_def raise_nr_highest_def dups_ok_def)
    have tR: "B + int g = t \<longleftrightarrow> g = unat gap" for g using gap tb(1) by auto
    have gotR: "B + int g \<in> R \<longleftrightarrow> bit_of r g \<or> bit_of nr g" if "g < 8 * msize m" for g
      using okD(9) [OF that] rb [OF that] nrb [OF that] t(1) tR [of g] by (auto simp: got_def)
    have arr: "arrays_ok B R m1" unfolding arrays_ok_def got_def m1 using okD(1,3,4,6,7) gotR len by simp
    have nrle: "B + int g \<le> max (max hn t) C" if "g < 8 * msize m" "bit_of nr g" for g
      using nrb [OF that(1)] that hiD(7) [OF that(1)] tR [of g] by auto
    have rle: "B + int g \<le> hm \<and> B + int g \<noteq> t" if "g < 8 * msize m" "bit_of r g" for g
      using rb [OF that(1)] that hiD(6) [OF that(1)] tR [of g] by auto
    have "B - 2 ^ 30 \<le> hm" using near by (simp add: near_def)
    from lower_highest_correct [OF arr m1(5) this hiD(3) tb(1) t(1)] rle len(1) m1(1) obtain h where
      h: "lower_highest (word_of_int t) m1 = Some (m1\<lparr>highest_tsn_inside_map := word_of_int h\<rparr>)" "h \<in> R"
      "\<And>g. g < 8 * msize m \<Longrightarrow> bit_of r g \<Longrightarrow> B + int g \<le> h" "B - 2 ^ 30 \<le> h" by auto
    let ?m = "m1\<lparr>highest_tsn_inside_map := word_of_int h\<rparr>"
    have "highs_ok B C h (max hn t) R ?m"
      using h(2,3) nrle hiD(4) t(1) tb(1) m1(1,2,6) len(1) by (auto simp: highs_ok_def max_def)
    moreover have "cum_ok B C R ?m" using cum m1(4) by (simp add: cum_ok_def)
    moreover have "arrays_ok B R ?m" using arr by (simp add: arrays_ok_def got_def)
    moreover have "dups_ok ?m" using m1(7) by (simp add: dups_ok_def)
    moreover have "bit_of nr (nat (t - B))" using nrb [OF inb] gap by simp
    moreover have "near B h (max hn t)" using near h(4) by (simp add: near_def max_def)
    ultimately show ?thesis using h(1) run True m1(2) unfolding m1_def [symmetric]
      by (intro exI [of _ ?m] exI [of _ h] exI [of _ "max hn t"]) (simp add: tsn_rel_def marks_split)
  qed
qed

section \<open>FORWARD-TSN\<close>

text \<open>The comparison in the loop never holds wrongly; it fails where the TSNs wrap between the highest TSN and the skipped one.\<close>

lemma skip_gt_int:
  assumes "- (2 ^ 30) \<le> h - B" "h - B < 8440" "i < 8440" "skip_gt (word_of_int B) (word_of_nat i) (word_of_int h)"
  shows "h < B + int i"
proof (cases "SCTP_TSN_GT (word_of_int (B + int i)) (word_of_int h)")
  case True
  then show ?thesis using TSN_GT_int [of "B + int i" h] assms(1-3) by simp
next
  case False
  have eq: "(word_of_int B :: u32) + word_of_nat i = word_of_int (B + int i)" by simp
  have gt: "(word_of_int h - word_of_int B + word_of_nat i :: u32) > push_bit 31 1"
    using False assms(4) unfolding skip_gt_def SCTP_UINT32_GT_def eq by blast
  have "(word_of_int h - word_of_int B + word_of_nat i :: u32) = word_of_int (h - B + int i)" by simp
  with gt have "(word_of_int (h - B + int i) :: u32) > push_bit 31 1" by (simp only:)
  then have "2 ^ 31 < unat (word_of_int (h - B + int i) :: u32)" by (simp add: word_less_nat_alt del: of_int_diff of_int_add)
  moreover have "unat (word_of_int (h - B + int i) :: u32) = nat (h - B + int i)" if "0 \<le> h - B + int i"
    using that assms by (intro unat_of_int_u32) simp_all
  ultimately have "h - B + int i < 0" using assms by fastforce
  then show ?thesis by simp
qed

lemma mark_skipped_correct:
  assumes ok: "arrays_ok B R m" and hi: "highs_ok B C hm hn R m" and near: "near B hm hn" and i: "i < 8 * msize m" "B + int i \<le> C"
  shows "\<exists>m' hn'. mark_skipped (word_of_nat i) m = Some m' \<and> arrays_ok B (insert (B + int i) R) m' \<and> highs_ok B C hm hn' (insert (B + int i) R) m' \<and> hn \<le> hn' \<and>
    same_rest m m' \<and> cumulative_tsn m' = cumulative_tsn m \<and> msize m' = msize m"
proof -
  note okD = arrays_okD [OF ok] and hiD = highs_okD [OF hi]
  have u: "unat (word_of_nat i :: u32) = i" using i(1) okD(4) by (simp add: unsigned_of_nat take_bit_nat_eq_self)
  then have "unat (word_of_nat i :: u32) < 8 * length (nr_mapping_array m)" using i(1) okD(2) by simp
  from set_present [OF this] obtain arry where a: "SCTP_SET_TSN_PRESENT (nr_mapping_array m) (word_of_nat i) = Some arry"
    "length arry = msize m" "\<And>g. g < 8 * msize m \<Longrightarrow> bit_of arry g \<longleftrightarrow> bit_of (nr_mapping_array m) g \<or> g = i" using okD(2) u by auto
  define hn' where "hn' = (if skip_gt (word_of_int B) (word_of_nat i) (word_of_int hn) then B + int i else hn)"
  have le: "hn \<le> hn'" using skip_gt_int [of hn B i] near okD(8) [OF hiD(4)] i(1) okD(4) by (auto simp: hn'_def near_def)
  let ?m = "m\<lparr>nr_mapping_array := arry, highest_tsn_inside_nr_map := word_of_int hn'\<rparr>"
  have "mark_skipped (word_of_nat i) m = Some ?m"
    using a(1) hiD(2) okD(5) by (cases m) (auto simp: mark_skipped_def hn'_def)
  moreover have "arrays_ok B (insert (B + int i) R) ?m" using okD i(1) a by (auto simp: arrays_ok_def got_def)
  moreover have "B + int g \<le> max hn' C" if "g < 8 * msize m" "bit_of arry g" for g
    using a(3) [OF that(1)] that hiD(7) [OF that(1)] i(2) le by auto
  then have "highs_ok B C hm hn' (insert (B + int i) R) ?m" using hiD a(2) le by (auto simp: highs_ok_def hn'_def)
  ultimately show ?thesis using le by (intro exI [of _ ?m] exI [of _ hn']) (simp add: same_rest_def)
qed

lemma skip_tsns_correct:
  assumes "arrays_ok B R m" "highs_ok B C hm hn R m" "near B hm hn" "dups_ok m" "i + n \<le> 8 * msize m" "B + int (i + n) \<le> C + 1"
  shows "\<exists>m' hn'. skip_tsns n (word_of_nat i) m = Some m' \<and> arrays_ok B (R \<union> {B + int i..<B + int (i + n)}) m' \<and>
    highs_ok B C hm hn' (R \<union> {B + int i..<B + int (i + n)}) m' \<and> dups_ok m' \<and> cumulative_tsn m' = cumulative_tsn m \<and> near B hm hn'"
  using assms
proof (induction n arbitrary: i m hn R)
  case 0
  then show ?case by auto
next
  case (Suc n)
  note okD = arrays_okD [OF Suc.prems(1)]
  let ?t = "B + int i"
  have i: "i < 8 * msize m" "i < 2 ^ 32" using Suc.prems(5) okD(4) by auto
  have u: "unat (word_of_nat i :: u32) = i" using i(2) by (simp add: unsigned_of_nat take_bit_nat_eq_self)
  have un: "{B + int i..<B + int (i + Suc n)} = insert ?t {B + int (i + 1)..<B + int (i + 1 + n)}" by auto
  have pres: "SCTP_IS_TSN_PRESENT (mapping_array m) (word_of_nat i) = Some (bit_of (mapping_array m) i)"
    "SCTP_IS_TSN_PRESENT (nr_mapping_array m) (word_of_nat i) = Some (bit_of (nr_mapping_array m) i)"
    using is_present [of "word_of_nat i"] u i(1) okD(2) by simp_all
  have "\<exists>m1 hn1. (if got m i then Some m else mark_skipped (word_of_nat i) m) = Some m1 \<and>
    arrays_ok B (insert ?t R) m1 \<and> highs_ok B C hm hn1 (insert ?t R) m1 \<and> near B hm hn1 \<and> dups_ok m1 \<and> cumulative_tsn m1 = cumulative_tsn m \<and> msize m1 = msize m"
  proof (cases "got m i")
    case True
    then have "insert ?t R = R" using okD(9) [OF i(1)] by auto
    with True Suc.prems show ?thesis by auto
  next
    case False
    have "?t \<le> C" using Suc.prems(6) by simp
    from mark_skipped_correct [OF Suc.prems(1-3) i(1) this] False Suc.prems(3,4) show ?thesis
      by (fastforce simp: near_def dups_ok_def same_rest_def)
  qed
  then obtain m1 hn1 where m1: "(if got m i then Some m else mark_skipped (word_of_nat i) m) = Some m1"
    "arrays_ok B (insert ?t R) m1" "highs_ok B C hm hn1 (insert ?t R) m1" "near B hm hn1" "dups_ok m1" "cumulative_tsn m1 = cumulative_tsn m" "msize m1 = msize m" by blast
  have "skip_tsns (Suc n) (word_of_nat i) m = skip_tsns n (word_of_nat (i + 1)) m1"
    using pres m1(1) by (cases "bit_of (mapping_array m) i") (auto simp: got_def add.commute split: if_splits)
  moreover have "i + 1 + n \<le> 8 * msize m1" "B + int (i + 1 + n) \<le> C + 1" using Suc.prems(5,6) m1(7) by simp_all
  from Suc.IH [OF m1(2-5) this] obtain m' hn' where "skip_tsns n (word_of_nat (i + 1)) m1 = Some m'"
    "arrays_ok B (insert ?t R \<union> {B + int (i + 1)..<B + int (i + 1 + n)}) m'"
    "highs_ok B C hm hn' (insert ?t R \<union> {B + int (i + 1)..<B + int (i + 1 + n)}) m'" "dups_ok m'" "cumulative_tsn m' = cumulative_tsn m1" "near B hm hn'" by blast
  ultimately show ?case using m1(6) unfolding un by (intro exI [of _ m'] exI [of _ hn']) simp
qed

text \<open>FORWARD-TSN up to \<open>n\<close>: everything up to \<open>n\<close> counts as received.\<close>

lemma forward_tsn_correct:
  assumes rel: "tsn_rel B C hm hn R m" and near: "near B hm hn" and n: "- (2 ^ 31) < n - C" "n - C < 2 ^ 31"
  shows "\<exists>res. forward_tsn_map (word_of_int n) sbspace m = Some res \<and>
    (case res of Fwd_old \<Rightarrow> n \<le> C
     | Fwd_abort m' \<Rightarrow> C < n \<and> n - B \<ge> 8 * int (msize m) \<and> n - B > sbspace
     | Fwd_moved m' \<Rightarrow> C < n \<and> (\<exists>B' hm' hn'. tsn_rel B' n hm' hn' (R \<union> {..n}) m' \<and> window B' hm' hn'))"
proof -
  have ok: "arrays_ok B R m" and cum: "cum_ok B C R m" and hi: "highs_ok B C hm hn R m" and dups: "dups_ok m"
    using rel by (auto simp: tsn_rel_def marks_split)
  note okD = arrays_okD [OF ok]
  have C: "cumulative_tsn m = word_of_int C" "B - 1 \<le> C" "C < B + 8440" using cum okD(8) [of C] by (auto simp: cum_ok_def)
  have ge: "SCTP_TSN_GE (cumulative_tsn m) (word_of_int n) \<longleftrightarrow> n \<le> C" using TSN_GE_int [of C n] n C(1) by simp
  show ?thesis
  proof (cases "n \<le> C")
    case True
    with ge show ?thesis by (simp add: forward_tsn_map_def)
  next
    case False
    let ?gap = "SCTP_CALC_TSN_TO_GAP (word_of_int n) (mapping_array_base_tsn m)"
    have nb: "B \<le> n" "n - B < 2 ^ 32" using False C n by auto
    have gap: "unat ?gap = nat (n - B)" by (rule gap_int [OF okD(5) nb])
    have ugap: "uint ?gap = n - B" using gap nb(1) by (metis int_nat_eq uint_nat diff_ge_0_iff_ge)
    have "unat (push_bit 3 (ucast (mapping_array_size m)) :: u32) = 8 * msize m"
      using okD(1,4) by (simp add: push_bit_eq_mult unat_word_ariths unsigned_ucast_eq take_bit_nat_eq_self)
    then have over: "?gap \<ge> push_bit 3 (ucast (mapping_array_size m)) \<longleftrightarrow> n - B \<ge> 8 * int (msize m)"
      using gap nb(1) by (simp add: word_le_nat_alt nat_le_iff) linarith
    let ?m = "m\<lparr>cumulative_tsn := word_of_int n\<rparr>"
    show ?thesis
    proof (cases "n - B \<ge> 8 * int (msize m)")
      case True
      have R: "R \<union> {..n} = {..n}" using okD(7) True by fastforce
      have z: "zero_prefix (unat (mapping_array_size m)) arry = Some (replicate (msize m) 0)" if "length arry = msize m" for arry
        using that okD(1) by (simp add: zero_prefix_def)
      have nb0: "\<not> bit_of (replicate (msize m) 0) g" if "g < 8 * msize m" for g using that by (simp add: bit_of_def)
      let ?n = "?m\<lparr>mapping_array := replicate (msize m) 0, nr_mapping_array := replicate (msize m) 0, mapping_array_base_tsn := word_of_int n + 1,
        highest_tsn_inside_map := word_of_int n, highest_tsn_inside_nr_map := word_of_int n\<rparr>"
      have "tsn_rel (n + 1) n n n (R \<union> {..n}) ?n"
        unfolding R tsn_rel_def arrays_ok_def marks_ok_def got_def using okD(1,3,4) dups nb0 by (auto simp: dups_ok_def)
      moreover have "forward_tsn_map (word_of_int n) sbspace m = Some (if n - B > sbspace then Fwd_abort ?m else Fwd_moved ?n)"
        using ge False over True ugap z [OF refl] z [OF okD(2)] by (simp add: forward_tsn_map_def Let_def)
      moreover have "window (n + 1) n n" by (simp add: window_def)
      ultimately show ?thesis using False True by auto
    next
      case inside: False
      have prem: "arrays_ok B R ?m" "highs_ok B n hm hn R ?m" "dups_ok ?m" "0 + (unat ?gap + 1) \<le> 8 * msize ?m" "B + int (0 + (unat ?gap + 1)) \<le> n + 1"
        using ok hi dups inside gap nb(1) False by (auto simp: le_max_iff_disj arrays_ok_def highs_ok_def got_def dups_ok_def)
      from skip_tsns_correct [OF prem(1,2) near prem(3-5)] obtain m' hn' where m': "skip_tsns (unat ?gap + 1) 0 ?m = Some m'"
        "arrays_ok B (R \<union> {B..<B + int (unat ?gap + 1)}) m'" "highs_ok B n hm hn' (R \<union> {B..<B + int (unat ?gap + 1)}) m'" "dups_ok m'" "cumulative_tsn m' = word_of_int n" "near B hm hn'" by auto
      have R: "R \<union> {B..<B + int (unat ?gap + 1)} = R \<union> {..n}" using gap nb(1) okD(6) by auto
      have "tsn_rel B n hm hn' (R \<union> {..n}) m'" using m' R nb(1) by (simp add: tsn_rel_def marks_split cum_ok_def)
      moreover have "window B hm hn'" using near_window [OF m'(6)] by simp
      moreover have "forward_tsn_map (word_of_int n) sbspace m = Some (Fwd_moved m')"
        using ge False over inside m'(1) by (simp add: forward_tsn_map_def Let_def)
      ultimately show ?thesis using False by auto
    qed
  qed
qed

end
