(* ===== verification/Tsn_Run.thy ===== *)
theory Tsn_Run
  imports Tsn_Receive
begin

text \<open>
  An association receives: any sequence of the operations on the mapping arrays, beginning with the INIT of the
  peer. In every state of such a run the arrays represent the TSNs received so far, by rule induction
  over the operations.
\<close>

section \<open>Runs\<close>

text \<open>
  The highest TSNs of the two arrays are compared as serial numbers, so neither may be older than \<open>2 ^ 30\<close> TSNs
  when the next operation starts.
\<close>

definition recent :: "'a rcv_asoc_scheme \<Rightarrow> bool" where
  "recent m \<longleftrightarrow> - (2 ^ 30) \<le> sint (highest_tsn_inside_map m - mapping_array_base_tsn m) \<and>
     - (2 ^ 30) \<le> sint (highest_tsn_inside_nr_map m - mapping_array_base_tsn m)"

text \<open>
  \<open>tsn_run C R m\<close>: the association is in state \<open>m\<close>, the TSNs in \<open>R\<close> have been received or skipped, those below the
  initial TSN included, and the cumulative TSN is \<open>C\<close>. A TSN is within half of the number space of
  the cumulative one. A chunk that passes the check can still be dropped (no memory, wrong stream), so the
  check alone is a step.
\<close>

inductive tsn_run :: "int \<Rightarrow> int set \<Rightarrow> 'a rcv_asoc_scheme \<Rightarrow> bool" where
  start: "length (dup_tsns m) = unat SCTP_MAX_DUP_TSNS \<Longrightarrow> numduptsns m = 0 \<Longrightarrow>
    tsn_run (t - 1) {..<t} (process_init_tsn (word_of_int t) (init_mapping_arrays m))"
| check: "tsn_run C R m \<Longrightarrow> recent m \<Longrightarrow> \<bar>t - C\<bar> < 2 ^ 31 \<Longrightarrow>
    tsn_check ok1 ok2 (word_of_int t) high_tsn m = Some (v, h, m') \<Longrightarrow> tsn_run C R m'"
| data: "tsn_run C R m \<Longrightarrow> recent m \<Longrightarrow> \<bar>t - C\<bar> < 2 ^ 31 \<Longrightarrow>
    tsn_check ok1 ok2 (word_of_int t) high_tsn m = Some (Tsn_new gap, h, m1) \<Longrightarrow>
    tsn_mark do_drain express gap (word_of_int t) m1 = Some m' \<Longrightarrow>
    tsn_run (if t = C + 1 then t else C) (insert t R) m'"
| deliver: "tsn_run C R m \<Longrightarrow> recent m \<Longrightarrow> t \<in> R \<Longrightarrow> - (2 ^ 30) < t - C \<Longrightarrow>
    sctp_mark_non_revokable do_drain (word_of_int t) m = Some m' \<Longrightarrow> tsn_run C R m'"
| forward: "tsn_run C R m \<Longrightarrow> recent m \<Longrightarrow> \<bar>n - C\<bar> < 2 ^ 31 \<Longrightarrow>
    forward_tsn_map (word_of_int n) sbspace m = Some (Fwd_moved m') \<Longrightarrow> tsn_run n (R \<union> {..n}) m'"
| slide: "tsn_run C R m \<Longrightarrow> recent m \<Longrightarrow> sctp_slide_mapping_arrays m = Some m' \<Longrightarrow>
    {..C'} \<subseteq> R \<Longrightarrow> C' + 1 \<notin> R \<Longrightarrow> tsn_run C' R m'"

section \<open>The invariant\<close>

definition tsn_inv :: "int \<Rightarrow> int set \<Rightarrow> 'a rcv_asoc_scheme \<Rightarrow> bool" where
  "tsn_inv C R m \<longleftrightarrow> (\<exists>B hm hn. tsn_rel B C hm hn R m \<and> window B hm hn)"

lemma recent_near:
  assumes rel: "tsn_rel B C hm hn R m" and w: "window B hm hn" and "recent m"
  shows "near B hm hn"
proof -
  have ok: "arrays_ok B R m" and mk: "marks_ok B C hm hn R m" using rel by (simp_all add: tsn_rel_def)
  note mkD = marks_okD [OF mk] and okD = arrays_okD [OF ok]
  have "sint (word_of_int (hm - B) :: u32) = hm - B" "sint (word_of_int (hn - B) :: u32) = hn - B"
    using w okD(8) [OF mkD(6)] okD(8) [OF mkD(7)] by (auto intro!: sint_of_int_u32 simp: window_def simp del: of_int_diff)
  with assms(3) show ?thesis by (simp add: recent_def near_def mkD(4,5) okD(5))
qed

lemma tsn_inv_near:
  assumes "tsn_inv C R m" "recent m"
  obtains B hm hn where "tsn_rel B C hm hn R m" "near B hm hn"
  using assms recent_near unfolding tsn_inv_def by blast

lemma tsn_rel_inv: "tsn_rel B C hm' hn' R m \<Longrightarrow> near B hm hn \<Longrightarrow> hm \<le> hm' \<Longrightarrow> hn \<le> hn' \<Longrightarrow> tsn_inv C R m"
  unfolding tsn_inv_def using near_window [of B hm hn hm' hn' B] by auto

lemma start_inv:
  assumes "length (dup_tsns m) = unat SCTP_MAX_DUP_TSNS" "numduptsns m = 0"
  shows "tsn_inv (t - 1) {..<t} (process_init_tsn (word_of_int t) (init_mapping_arrays m))" (is "tsn_inv _ _ ?m")
proof -
  have "\<not> bit_of (replicate 16 0) g" if "g < 128" for g using that by (simp add: bit_of_def)
  then have "tsn_rel t (t - 1) (t - 1) (t - 1) {..<t} ?m" using assms
    by (auto simp: tsn_rel_def arrays_ok_def marks_ok_def dups_ok_def got_def process_init_tsn_def init_mapping_arrays_def
        SCTP_INITIAL_MAPPING_ARRAY_def SCTP_MAX_DUP_TSNS_def)
  moreover have "window t (t - 1) (t - 1)" by (simp add: window_def)
  ultimately show ?thesis unfolding tsn_inv_def by blast
qed

text \<open>The largest TSN up to which everything was received is unique.\<close>

lemma cumulative_unique:
  fixes C C' :: int
  assumes "{..C} \<subseteq> R" "C + 1 \<notin> R" "{..C'} \<subseteq> R" "C' + 1 \<notin> R"
  shows "C = C'"
  using assms subsetD [OF assms(1), of "C' + 1"] subsetD [OF assms(3), of "C + 1"] by force

lemma slide_inv:
  assumes "tsn_inv C R m" "recent m"
  shows "\<exists>m' C'. sctp_slide_mapping_arrays m = Some m' \<and> tsn_inv C' R m' \<and> {..C'} \<subseteq> R \<and> C' + 1 \<notin> R"
proof -
  obtain B hm hn where "tsn_rel B C hm hn R m" "near B hm hn" using assms by (rule tsn_inv_near)
  from slide_correct [OF this] obtain m' B' C' hm' hn' where s: "sctp_slide_mapping_arrays m = Some m'" "tsn_rel B' C' hm' hn' R m'"
    "C' + 1 \<notin> R" "window B' hm' hn'" by blast
  then have "{..C'} \<subseteq> R" by (simp add: tsn_rel_def marks_ok_def)
  with s show ?thesis unfolding tsn_inv_def by blast
qed

text \<open>
  A TSN is too far away when it is above the cumulative TSN and its distance from the base of the arrays is beyond their largest size,
  or beyond their present size when no memory is there to let both grow.
\<close>

definition too_far :: "bool \<Rightarrow> int \<Rightarrow> int \<Rightarrow> 'a rcv_asoc_scheme \<Rightarrow> bool" where
  "too_far memory C t m \<longleftrightarrow> C < t \<and> (let gap = unat (SCTP_CALC_TSN_TO_GAP (word_of_int t) (mapping_array_base_tsn m))
     in 8 * 512 \<le> gap \<or> 8 * length (mapping_array m) \<le> gap \<and> \<not> memory)"

lemma too_far_int:
  assumes "tsn_rel B C hm hn R m" "t - C < 2 ^ 31"
  shows "too_far memory C t m \<longleftrightarrow> C < t \<and> (t - B \<ge> 4096 \<or> t - B \<ge> 8 * int (msize m) \<and> \<not> memory)"
proof (cases "C < t")
  case True
  have ok: "arrays_ok B R m" and cum: "B - 1 \<le> C" "C \<in> R" using assms(1) by (auto simp: tsn_rel_def marks_ok_def)
  have "unat (SCTP_CALC_TSN_TO_GAP (word_of_int t) (mapping_array_base_tsn m)) = nat (t - B)"
    using True assms(2) cum(1) arrays_okD(8) [OF ok cum(2)] by (intro gap_int [OF arrays_okD(5) [OF ok]]) auto
  then show ?thesis using True cum(1) by (auto simp: too_far_def Let_def)
qed (simp add: too_far_def)

lemma tsn_check_inv:
  assumes inv: "tsn_inv C R m" and rec: "recent m" and t: "\<bar>t - C\<bar> < 2 ^ 31"
  shows "\<exists>v h m1. tsn_check ok1 ok2 (word_of_int t) high_tsn m = Some (v, h, m1) \<and> tsn_inv C R m1 \<and>
    v = (if too_far (ok1 \<and> ok2) C t m then Tsn_tossed else if t \<in> R then Tsn_duplicate
         else Tsn_new (SCTP_CALC_TSN_TO_GAP (word_of_int t) (mapping_array_base_tsn m))) \<and>
    (\<forall>gap do_drain express. v = Tsn_new gap \<longrightarrow> (\<exists>m'. tsn_mark do_drain express gap (word_of_int t) m1 = Some m' \<and>
       tsn_inv (if t = C + 1 then t else C) (insert t R) m'))"
proof -
  obtain B hm hn where rel: "tsn_rel B C hm hn R m" and near: "near B hm hn" using inv rec by (rule tsn_inv_near)
  have "- (2 ^ 31) < t - C" "t - C < 2 ^ 31" using t by auto
  from tsn_check_correct [OF rel this] obtain v h m1 where c: "tsn_check ok1 ok2 (word_of_int t) high_tsn m = Some (v, h, m1)"
    "tsn_rel B C hm hn R m1"
    "v = (if t \<le> C then Tsn_duplicate
         else if t - B \<ge> 4096 \<or> (t - B \<ge> 8 * int (msize m) \<and> \<not> (ok1 \<and> ok2)) then Tsn_tossed
         else if t \<in> R then Tsn_duplicate else Tsn_new (word_of_int (t - B)))"
    "\<forall>gap. v = Tsn_new gap \<longrightarrow> t < B + 8 * int (msize m1)" by blast
  have cum: "B - 1 \<le> C" "{..C} \<subseteq> R" "mapping_array_base_tsn m = word_of_int B" using rel by (auto simp: tsn_rel_def marks_ok_def arrays_ok_def)
  have inv1: "tsn_inv C R m1" using tsn_rel_inv [OF c(2) near] by simp
  have tC: "t - C < 2 ^ 31" using t by simp
  have verdict: "v = (if too_far (ok1 \<and> ok2) C t m then Tsn_tossed else if t \<in> R then Tsn_duplicate
      else Tsn_new (SCTP_CALC_TSN_TO_GAP (word_of_int t) (mapping_array_base_tsn m)))"
    unfolding too_far_int [OF rel tC] gap_eq cum(3) c(3) using cum(2) by auto
  have "\<exists>m'. tsn_mark do_drain express gap (word_of_int t) m1 = Some m' \<and> tsn_inv (if t = C + 1 then t else C) (insert t R) m'"
    if v: "v = Tsn_new gap" for gap do_drain express
  proof -
    have t1: "C < t" "t - B < 4096" "gap = word_of_int (t - B)" using c(3) v by (auto split: if_splits)
    have "unat gap = nat (t - B)" unfolding t1(3) using cum t1 by (intro unat_of_int_u32) auto
    with c(4) v t1(1) show ?thesis
      using tsn_mark_correct [OF c(2) near, of t gap do_drain express] tsn_rel_inv [OF _ near] by blast
  qed
  with c(1) inv1 verdict show ?thesis by blast
qed

lemma deliver_inv:
  assumes "tsn_inv C R m" "recent m" "t \<in> R" "- (2 ^ 30) < t - C"
  shows "\<exists>m'. sctp_mark_non_revokable do_drain (word_of_int t) m = Some m' \<and> tsn_inv C R m'"
proof -
  obtain B hm hn where rel: "tsn_rel B C hm hn R m" and near: "near B hm hn" using assms(1,2) by (rule tsn_inv_near)
  from mark_non_revokable_correct [OF rel near assms(3,4), of do_drain] show ?thesis using tsn_rel_inv by blast
qed

lemma forward_inv:
  assumes "tsn_inv C R m" "recent m" "\<bar>n - C\<bar> < 2 ^ 31"
  shows "\<exists>res. forward_tsn_map (word_of_int n) sbspace m = Some res \<and>
    (case res of Fwd_old \<Rightarrow> n \<le> C | Fwd_abort m' \<Rightarrow> C < n | Fwd_moved m' \<Rightarrow> C < n \<and> tsn_inv n (R \<union> {..n}) m')"
proof -
  obtain B hm hn where rel: "tsn_rel B C hm hn R m" and near: "near B hm hn" using assms(1,2) by (rule tsn_inv_near)
  have "- (2 ^ 31) < n - C" "n - C < 2 ^ 31" using assms(3) by auto
  from forward_tsn_correct [OF rel near this, of sbspace] show ?thesis
    unfolding tsn_inv_def by (fastforce split: fwd_result.splits)
qed

lemma run_inv: "tsn_run C R m \<Longrightarrow> tsn_inv C R m"
proof (induction rule: tsn_run.induct)
  case (check C R m t ok1 ok2 high_tsn v h m')
  from tsn_check_inv [OF check.IH check.hyps(2,3), of ok1 ok2 high_tsn] check.hyps(4) show ?case by auto
next
  case (data C R m t ok1 ok2 high_tsn gap h m1 do_drain express m')
  from tsn_check_inv [OF data.IH data.hyps(2,3), of ok1 ok2 high_tsn] data.hyps(4)
  have "\<exists>m'. tsn_mark do_drain express gap (word_of_int t) m1 = Some m' \<and> tsn_inv (if t = C + 1 then t else C) (insert t R) m'" by auto
  with data.hyps(5) show ?case by auto
next
  case (deliver C R m t do_drain m')
  from deliver_inv [OF deliver.IH deliver.hyps(2-4), of do_drain] deliver.hyps(5) show ?case by auto
next
  case (forward C R m n sbspace m')
  from forward_inv [OF forward.IH forward.hyps(2,3), of sbspace] forward.hyps(4) show ?case by auto
next
  case (slide C R m m' C')
  from slide_inv [OF slide.IH slide.hyps(2)] slide.hyps(3) obtain D where D: "tsn_inv D R m'" "{..D} \<subseteq> R" "D + 1 \<notin> R" by auto
  have "D = C'" using cumulative_unique [OF D(2,3) slide.hyps(4,5)] .
  with D(1) show ?case by simp
qed (use start_inv in blast)

lemma tsn_inv_cumulative: "tsn_inv C R m \<Longrightarrow> cumulative_tsn m = word_of_int C \<and> {..C} \<subseteq> R"
  by (auto simp: tsn_inv_def tsn_rel_def marks_ok_def)

section \<open>Properties\<close>

text \<open>
  C7: In every state of a run the check of a received TSN stays inside the arrays, and its verdict is exact. It tosses the TSNs that are too far away: those above the
  cumulative TSN whose distance from the base of the arrays is at least 4096, the most that the arrays can hold, or is beyond their present size while there is no memory to let both grow.
  Of the other TSNs it calls exactly those duplicates that have been received, and the rest new. A new TSN can be marked, and then it counts as received.
\<close>

theorem tsn_check_recognises_duplicates:
  assumes "tsn_run C R m" "recent m" "\<bar>t - C\<bar> < 2 ^ 31"
  shows "\<exists>v h m1. tsn_check ok1 ok2 (word_of_int t) high_tsn m = Some (v, h, m1) \<and> tsn_run C R m1 \<and>
    v = (if too_far (ok1 \<and> ok2) C t m then Tsn_tossed else if t \<in> R then Tsn_duplicate
         else Tsn_new (SCTP_CALC_TSN_TO_GAP (word_of_int t) (mapping_array_base_tsn m))) \<and>
    (\<forall>gap. v = Tsn_new gap \<longrightarrow> (\<exists>m'. tsn_mark do_drain express gap (word_of_int t) m1 = Some m' \<and>
       tsn_run (if t = C + 1 then t else C) (insert t R) m'))"
proof -
  from tsn_check_inv [OF run_inv [OF assms(1)] assms(2,3), of ok1 ok2 high_tsn] obtain v h m1 where
    c: "tsn_check ok1 ok2 (word_of_int t) high_tsn m = Some (v, h, m1)"
    "v = (if too_far (ok1 \<and> ok2) C t m then Tsn_tossed else if t \<in> R then Tsn_duplicate
      else Tsn_new (SCTP_CALC_TSN_TO_GAP (word_of_int t) (mapping_array_base_tsn m)))"
    "\<And>gap. v = Tsn_new gap \<Longrightarrow> \<exists>m'. tsn_mark do_drain express gap (word_of_int t) m1 = Some m' \<and> tsn_inv (if t = C + 1 then t else C) (insert t R) m'" by blast
  have "\<exists>m'. tsn_mark do_drain express gap (word_of_int t) m1 = Some m' \<and> tsn_run (if t = C + 1 then t else C) (insert t R) m'"
    if v: "v = Tsn_new gap" for gap
    using c(3) [OF v] tsn_run.data [OF assms c(1) [unfolded v]] by blast
  with c(1,2) tsn_run.check [OF assms c(1)] show ?thesis by blast
qed

definition demo_rcv :: rcv_asoc where
  "demo_rcv = \<lparr>mapping_array = [], nr_mapping_array = [], mapping_array_size = 0, mapping_array_base_tsn = 0, cumulative_tsn = 0,
     highest_tsn_inside_map = 0, highest_tsn_inside_nr_map = 0, dup_tsns = replicate 20 0, numduptsns = 0, send_sack = 0\<rparr>"

lemma demo_run: "tsn_run 4294967294 {..<4294967295} (process_init_tsn (word_of_int 4294967295) (init_mapping_arrays demo_rcv))"
  using tsn_run.start [of demo_rcv 4294967295] by (simp add: demo_rcv_def SCTP_MAX_DUP_TSNS_def)

lemma demo_recent: "recent (process_init_tsn (word_of_int 4294967295) (init_mapping_arrays demo_rcv))"
  by (simp add: recent_def process_init_tsn_def init_mapping_arrays_def)

text \<open>The peer starts with the last 32-bit TSN, and the TSN after the next one, with the number 1, arrives.\<close>

theorem tsn_check_recognises_duplicates_witness:
  "\<exists>h m1. tsn_check True True 1 0 (process_init_tsn 0xffffffff (init_mapping_arrays demo_rcv)) = Some (Tsn_new 2, h, m1) \<and>
    tsn_run 4294967294 {..<4294967295} m1"
proof -
  let ?m = "process_init_tsn (word_of_int 4294967295) (init_mapping_arrays demo_rcv)"
  have "\<bar>4294967297 - 4294967294 :: int\<bar> < 2 ^ 31" by simp
  from tsn_check_recognises_duplicates [OF demo_run demo_recent this, of True True 0]
  obtain v h m1 where c: "tsn_check True True (word_of_int 4294967297) 0 ?m = Some (v, h, m1)" "tsn_run 4294967294 {..<4294967295} m1"
    "v = (if too_far (True \<and> True) 4294967294 4294967297 ?m then Tsn_tossed else if 4294967297 \<in> {..<4294967295 :: int} then Tsn_duplicate
      else Tsn_new (SCTP_CALC_TSN_TO_GAP (word_of_int 4294967297) (mapping_array_base_tsn ?m)))" by blast
  have "v = Tsn_new 2" unfolding c(3) by (simp add: too_far_def gap_eq process_init_tsn_def)
  have one: "(4294967297 :: u32) = 1" by simp
  have "tsn_check True True 1 0 (process_init_tsn 0xffffffff (init_mapping_arrays demo_rcv)) = Some (Tsn_new 2, h, m1)" using c(1) \<open>v = Tsn_new 2\<close> by (simp add: one)
  with c(2) show ?thesis by blast
qed

text \<open>
  C6: Sliding is exact: in every state of a run it succeeds, and afterwards the cumulative TSN is the largest TSN up to which everything
  was received; the set of the received TSNs is the same.
\<close>

theorem slide_gives_cumulative_tsn:
  assumes "tsn_run C R m" "recent m"
  shows "\<exists>m' C'. sctp_slide_mapping_arrays m = Some m' \<and> tsn_run C' R m' \<and> C \<le> C' \<and>
    cumulative_tsn m' = word_of_int C' \<and> {..C'} \<subseteq> R \<and> C' + 1 \<notin> R"
proof -
  from slide_inv [OF run_inv [OF assms(1)] assms(2)] obtain m' C' where s: "sctp_slide_mapping_arrays m = Some m'" "tsn_inv C' R m'"
    "{..C'} \<subseteq> R" "C' + 1 \<notin> R" by blast
  moreover have "{..C} \<subseteq> R" using tsn_inv_cumulative [OF run_inv [OF assms(1)]] by simp
  then have "C \<le> C'" using s(4) subsetD [of "{..C}" R "C' + 1"] by (metis atMost_iff linorder_not_le zless_imp_add1_zle)
  ultimately show ?thesis using tsn_run.slide [OF assms s(1,3,4)] tsn_inv_cumulative by blast
qed

theorem slide_gives_cumulative_tsn_witness:
  "\<exists>m'. sctp_slide_mapping_arrays (process_init_tsn 0xffffffff (init_mapping_arrays demo_rcv)) = Some m' \<and> cumulative_tsn m' = 0xfffffffe"
proof -
  from slide_gives_cumulative_tsn [OF demo_run demo_recent] obtain m' C' where
    s: "sctp_slide_mapping_arrays (process_init_tsn 0xffffffff (init_mapping_arrays demo_rcv)) = Some m'"
    "cumulative_tsn m' = word_of_int C'" "{..C'} \<subseteq> {..<4294967295}" "C' + 1 \<notin> {..<4294967295}" by auto
  have "C' = 4294967294" using cumulative_unique [OF s(3,4), of 4294967294] subsetI [of "{..4294967294}" "{..<4294967295 :: int}"] by auto
  with s(1,2) show ?thesis by simp
qed

text \<open>
  C38: FORWARD-TSN and delivery in every state of a run: a FORWARD-TSN that is not old makes everything up to its TSN received and
  the cumulative TSN at least this one; data that was delivered can be made irrevocable without changing what was received. Neither
  leaves the arrays.
\<close>

theorem forward_tsn_and_delivery:
  assumes "tsn_run C R m" "recent m" "\<bar>n - C\<bar> < 2 ^ 31" "t \<in> R" "- (2 ^ 30) < t - C"
  shows "(\<exists>res. forward_tsn_map (word_of_int n) sbspace m = Some res \<and>
      (case res of Fwd_old \<Rightarrow> n \<le> C | Fwd_abort m' \<Rightarrow> C < n
       | Fwd_moved m' \<Rightarrow> C < n \<and> tsn_run n (R \<union> {..n}) m' \<and> cumulative_tsn m' = word_of_int n)) \<and>
    (\<exists>m'. sctp_mark_non_revokable do_drain (word_of_int t) m = Some m' \<and> tsn_run C R m')"
proof
  note inv = run_inv [OF assms(1)]
  from forward_inv [OF inv assms(2,3), of sbspace] obtain res where r: "forward_tsn_map (word_of_int n) sbspace m = Some res"
    "case res of Fwd_old \<Rightarrow> n \<le> C | Fwd_abort m' \<Rightarrow> C < n | Fwd_moved m' \<Rightarrow> C < n \<and> tsn_inv n (R \<union> {..n}) m'" by blast
  then show "\<exists>res. forward_tsn_map (word_of_int n) sbspace m = Some res \<and>
      (case res of Fwd_old \<Rightarrow> n \<le> C | Fwd_abort m' \<Rightarrow> C < n
       | Fwd_moved m' \<Rightarrow> C < n \<and> tsn_run n (R \<union> {..n}) m' \<and> cumulative_tsn m' = word_of_int n)"
    using tsn_run.forward [OF assms(1-3), of sbspace] tsn_inv_cumulative by (fastforce split: fwd_result.splits)
  from deliver_inv [OF inv assms(2,4,5), of do_drain] show "\<exists>m'. sctp_mark_non_revokable do_drain (word_of_int t) m = Some m' \<and> tsn_run C R m'"
    using tsn_run.deliver [OF assms(1,2,4,5), of do_drain] by blast
qed

theorem forward_tsn_and_delivery_witness:
  "\<exists>res. forward_tsn_map 7 65536 (process_init_tsn 0xffffffff (init_mapping_arrays demo_rcv)) = Some res \<and> res \<noteq> Fwd_old"
proof -
  let ?m = "process_init_tsn (word_of_int 4294967295) (init_mapping_arrays demo_rcv)"
  have "\<bar>4294967303 - 4294967294 :: int\<bar> < 2 ^ 31" "(4294967294 :: int) \<in> {..<4294967295}" "- (2 ^ 30) < (4294967294 :: int) - 4294967294" by auto
  from forward_tsn_and_delivery [OF demo_run demo_recent this, of 65536 True]
  have "\<exists>res. forward_tsn_map (word_of_int 4294967303) 65536 ?m = Some res \<and> res \<noteq> Fwd_old" by (fastforce split: fwd_result.splits)
  moreover have "(word_of_int 4294967303 :: u32) = 7" "(word_of_int 4294967295 :: u32) = 0xffffffff" by simp_all
  ultimately show ?thesis by (simp only:)
qed

end
