(* ===== verification/Sack_Gaps.thy ===== *)
theory Sack_Gaps
  imports Sack_Build Tsn_Run
begin

text \<open>
  The gap blocks that \<^verbatim>\<open>sctp_send_sack\<close> writes, byte by byte with the table and merging at the byte boundaries, are the runs of
  the marked TSNs above the cumulative one.
\<close>

section \<open>Runs\<close>

definition shift :: "int \<Rightarrow> (int \<times> int) list \<Rightarrow> (int \<times> int) list" where
  "shift k rs = map (\<lambda>p. (fst p + k, snd p + k)) rs"

lemma shift_Cons [simp]: "shift k (p # rs) = (fst p + k, snd p + k) # shift k rs" and shift_Nil [simp]: "shift k [] = []"
  by (simp_all add: shift_def)

lemma covers_append [simp]: "covers (rs @ ss) x \<longleftrightarrow> covers rs x \<or> covers ss x" by (auto simp: covers_def)

lemma covers_Cons [simp]: "covers (p # ss) x \<longleftrightarrow> (fst p \<le> x \<and> x \<le> snd p) \<or> covers ss x" by (auto simp: covers_def)

lemma covers_Nil [simp]: "\<not> covers [] x" by (simp add: covers_def)

lemma covers_shift [simp]: "covers (shift k rs) x \<longleftrightarrow> covers rs (x - k)"
  by (force simp: covers_def shift_def)

lemma runs_ok_shift [simp]: "runs_ok (shift k rs) \<longleftrightarrow> runs_ok rs"
  by (simp add: runs_ok_def shift_def sorted_wrt_map)

lemma runs_ok_Nil [simp]: "runs_ok []" by (simp add: runs_ok_def)

lemma runs_okD: "runs_ok rs \<Longrightarrow> p \<in> set rs \<Longrightarrow> fst p \<le> snd p" by (simp add: runs_ok_def)

lemma runs_ok_append:
  "runs_ok (rs @ ss) \<longleftrightarrow> runs_ok rs \<and> runs_ok ss \<and> (\<forall>p \<in> set rs. \<forall>q \<in> set ss. snd p + 1 < fst q)"
  by (auto simp: runs_ok_def sorted_wrt_append)

lemma runs_ok_Cons: "runs_ok (p # ss) \<longleftrightarrow> fst p \<le> snd p \<and> runs_ok ss \<and> (\<forall>q \<in> set ss. snd p + 1 < fst q)"
  by (auto simp: runs_ok_def)

text \<open>Some of the runs only.\<close>

definition reports :: "(int \<Rightarrow> bool) \<Rightarrow> int \<Rightarrow> (int \<times> int) list \<Rightarrow> bool" where
  "reports P n rs \<longleftrightarrow> runs_ok rs \<and> (\<forall>p \<in> set rs. 0 \<le> fst p \<and> snd p < n) \<and> (\<forall>g. covers rs g \<longrightarrow> P g)"

lemma represents_bounds: "represents P n rs \<Longrightarrow> covers rs g \<Longrightarrow> 0 \<le> g \<and> g < n"
  by (force simp: represents_def covers_def)

lemma representsD: "represents P n rs \<Longrightarrow> 0 \<le> g \<Longrightarrow> g < n \<Longrightarrow> P g \<longleftrightarrow> covers rs g" by (simp add: represents_def)

lemma represents_reports: "represents P n rs \<Longrightarrow> reports P n rs"
  unfolding reports_def using represents_bounds [of P n rs] unfolding represents_def by blast

lemma reports_bounds: "reports P n rs \<Longrightarrow> covers rs g \<Longrightarrow> 0 \<le> g \<and> g < n"
  by (force simp: reports_def covers_def)

lemma reports_prefix: "reports P n (rs @ ss) \<Longrightarrow> reports P n rs"
  by (auto simp: reports_def runs_ok_append)

lemma represents_Nil: "represents P 0 []" by (auto simp: represents_def)

lemma represents_fst: "represents P n rs \<Longrightarrow> p \<in> set rs \<Longrightarrow> P (fst p) \<and> P (snd p) \<and> fst p \<le> snd p"
  unfolding represents_def runs_ok_def covers_def by force

lemma represents_append:
  assumes r: "represents P n rs" and s: "represents (\<lambda>g. P (n + g)) k ss" and n: "0 \<le> n" "0 \<le> k"
    and sep: "\<not> (0 < n \<and> P (n - 1) \<and> 0 < k \<and> P n)"
  shows "represents P (n + k) (rs @ shift n ss)"
proof -
  have far: "snd p + 1 < fst q + n" if "p \<in> set rs" "q \<in> set ss" for p q
  proof -
    have p: "0 \<le> fst p" "snd p < n" "P (snd p)" "fst p \<le> snd p" using r represents_fst [OF r that(1)] that(1) by (auto simp: represents_def)
    have q: "0 \<le> fst q" "snd q < k" "P (n + fst q)" "fst q \<le> snd q" using s represents_fst [OF s that(2)] that(2) by (auto simp: represents_def)
    have "\<not> (snd p = n - 1 \<and> fst q = 0)" using sep p q by auto
    with p q show ?thesis by auto
  qed
  have "runs_ok (rs @ shift n ss)" unfolding runs_ok_append runs_ok_shift using far r s by (auto simp: represents_def shift_def)
  moreover have "0 \<le> fst p \<and> snd p < n + k" if "p \<in> set (rs @ shift n ss)" for p
    using that r s n by (fastforce simp: represents_def shift_def)
  moreover have "P g \<longleftrightarrow> covers (rs @ shift n ss) g" if "0 \<le> g" "g < n + k" for g
  proof (cases "g < n")
    case True
    then have "\<not> covers ss (g - n)" using represents_bounds [OF s] by force
    with True r that show ?thesis by (simp add: represents_def)
  next
    case False
    then have "\<not> covers rs g" using represents_bounds [OF r] by force
    moreover have "P (n + (g - n)) \<longleftrightarrow> covers ss (g - n)" using False that by (intro representsD [OF s]) auto
    ultimately show ?thesis by simp
  qed
  ultimately show ?thesis by (simp add: represents_def)
qed

lemma represents_last:
  assumes r: "represents P n rs" and "0 < n" "P (n - 1)"
  obtains rs0 a where "rs = rs0 @ [(a, n - 1)]"
proof -
  have "covers rs (n - 1)" using assms by (simp add: represents_def)
  then obtain p where p: "p \<in> set rs" "fst p \<le> n - 1" "n - 1 \<le> snd p" by (auto simp: covers_def)
  then have "snd p = n - 1" using r by (auto simp: represents_def)
  obtain rs0 q where q: "rs = rs0 @ [q]" using p(1) by (cases rs rule: rev_cases) auto
  have "p \<notin> set rs0"
  proof
    assume "p \<in> set rs0"
    then have "snd p + 1 < fst q" "fst q \<le> snd q" "snd q < n" using r q by (auto simp: represents_def runs_ok_append runs_ok_Cons)
    with p(3) show False by simp
  qed
  then have "q = (fst p, n - 1)" using p(1) q \<open>snd p = n - 1\<close> by (cases q) auto
  with q show ?thesis by (intro that) simp
qed

lemma represents_first:
  assumes r: "represents P n rs" and "0 < n" "P 0"
  obtains d rs0 where "rs = (0, d) # rs0"
proof -
  have "covers rs 0" using assms by (simp add: represents_def)
  then obtain p where p: "p \<in> set rs" "fst p \<le> 0" by (auto simp: covers_def)
  then have p0: "fst p = 0" using r by (auto simp: represents_def)
  obtain q rs0 where q: "rs = q # rs0" using p(1) by (cases rs) auto
  have "p \<notin> set rs0"
  proof
    assume "p \<in> set rs0"
    then have "snd q + 1 < fst p" "fst q \<le> snd q" "0 \<le> fst q" using r q by (auto simp: represents_def runs_ok_Cons)
    with p(2) show False by simp
  qed
  then have "q = (0, snd p)" using p(1) q p0 by (cases q) auto
  with q show ?thesis by (intro that) simp
qed

lemma represents_merge:
  assumes r: "represents P n (rs @ [(a, n - 1)])" and s: "represents (\<lambda>g. P (n + g)) k ((0, d) # ss)" and n: "0 < n"
  shows "represents P (n + k) (rs @ (a, d + n) # shift n ss)"
proof -
  have rD: "runs_ok rs" "a \<le> n - 1" "0 \<le> a" "\<And>p. p \<in> set rs \<Longrightarrow> snd p + 1 < a \<and> 0 \<le> fst p \<and> fst p \<le> snd p"
    using r by (auto simp: represents_def runs_ok_append runs_ok_Cons dest: runs_okD)
  have sD: "runs_ok ss" "0 \<le> d" "d < k" "\<And>q. q \<in> set ss \<Longrightarrow> d + 1 < fst q \<and> fst q \<le> snd q \<and> snd q < k"
    using s by (auto simp: represents_def runs_ok_Cons dest: runs_okD)
  have "runs_ok (rs @ (a, d + n) # shift n ss)" unfolding runs_ok_append runs_ok_Cons runs_ok_shift using rD sD n
    by (fastforce simp: shift_def)
  moreover have "0 \<le> fst p \<and> snd p < n + k" if "p \<in> set (rs @ (a, d + n) # shift n ss)" for p
    using that rD sD n by (fastforce simp: shift_def)
  moreover have "P g \<longleftrightarrow> covers (rs @ (a, d + n) # shift n ss) g" if "0 \<le> g" "g < n + k" for g
  proof (cases "g < n")
    case True
    then have "\<not> covers ss (g - n)" using sD by (force simp: covers_def)
    moreover have "P g \<longleftrightarrow> covers rs g \<or> a \<le> g" using r True that(1) by (auto simp: represents_def)
    ultimately show ?thesis using True sD(2) by auto
  next
    case False
    then have "\<not> covers rs g" using rD by (force simp: covers_def)
    moreover have "P (n + (g - n)) \<longleftrightarrow> covers ((0, d) # ss) (g - n)" using False that by (intro representsD [OF s]) auto
    ultimately show ?thesis using False rD(2) by auto
  qed
  ultimately show ?thesis by (simp add: represents_def)
qed

section \<open>Writing the blocks of a byte\<close>

definition blk :: "int \<Rightarrow> sctp_gap_ack_block \<Rightarrow> sctp_gap_ack_block" where
  "blk off g = \<lparr>start = word_of_int (uint (start g) + off), last_of = word_of_int (uint (last_of g) + off)\<rparr>"

text \<open>The positions that a block stands for; position 0 has offset \<open>off0\<close>.\<close>

definition ivl :: "int \<Rightarrow> sctp_gap_ack_block \<Rightarrow> int \<times> int" where
  "ivl off0 b = (uint (start b) - off0, uint (last_of b) - off0)"

lemma uint_of_int_u16: "0 \<le> x \<Longrightarrow> x < 65536 \<Longrightarrow> uint (word_of_int x :: u16) = x"
  by (simp add: uint_word_of_int take_bit_int_eq_self_iff)

lemma ivl_blk:
  assumes "0 \<le> uint (start g) + off" "uint (start g) \<le> uint (last_of g)" "uint (last_of g) + off < 65536"
  shows "ivl off0 (blk off g) = (uint (start g) + (off - off0), uint (last_of g) + (off - off0))"
  using assms uint_of_int_u16 [of "uint (start g) + off"] uint_of_int_u16 [of "uint (last_of g) + off"] unfolding ivl_def blk_def by simp

text \<open>
  Another block fits as long as the limit is not reached. When it is reached, no other block fits, but all that were written
  do; the first one is written without a check.
\<close>

definition roomy :: "nat \<Rightarrow> nat \<Rightarrow> gap_buf \<Rightarrow> bool" where
  "roomy hdr space b \<longleftrightarrow> gap_descriptor b = length (gd_mem b) \<and>
     (if limit_reached b then hdr + 4 * gap_descriptor b + 4 > space \<and> (hdr + 4 * gap_descriptor b \<le> space \<or> gap_descriptor b = 1)
      else hdr + 4 * gap_descriptor b + 4 \<le> space \<or> gap_descriptor b = 0)"

text \<open>The buffer after one more block, the descriptor being at \<open>k\<close> before.\<close>

definition next_buf :: "nat \<Rightarrow> nat \<Rightarrow> nat \<Rightarrow> sctp_gap_ack_block list \<Rightarrow> gap_buf \<Rightarrow> gap_buf" where
  "next_buf hdr space k mem b = b\<lparr>mergeable := False, gd_mem := mem, num_blocks := num_blocks b + 1, gap_descriptor := Suc k,
     limit_reached := (limit_reached b \<or> hdr + 4 * Suc k + 4 > space)\<rparr>"

lemma next_buf_roomy:
  assumes "\<not> limit_reached b" "length mem = Suc k" "hdr + 4 * k + 4 \<le> space \<or> k = 0"
  shows "roomy hdr space (next_buf hdr space k mem b)"
  using assms by (auto simp: next_buf_def roomy_def)

lemma next_buf_simps [simp]:
  "gd_mem (next_buf hdr space k mem b) = mem" "num_blocks (next_buf hdr space k mem b) = num_blocks b + 1" "\<not> mergeable (next_buf hdr space k mem b)"
  by (simp_all add: next_buf_def)

lemma put_gap_new:
  assumes "\<not> limit_reached b" "\<not> (mergeable b \<and> redge)" "gap_descriptor b = length (gd_mem b)"
  shows "put_gap hdr space off redge g b = Some (next_buf hdr space (length (gd_mem b)) (gd_mem b @ [blk off g]) b)"
  using assms unfolding put_gap_def store_block_def blk_def next_buf_def
  by (cases b) (simp add: Let_def)

lemma put_gap_merge:
  assumes "\<not> limit_reached b" "mergeable b" "gd_mem b = mem @ [x]" "gap_descriptor b = length mem"
  shows "put_gap hdr space off True g b = Some (next_buf hdr space (length mem) (mem @ [\<lparr>start = start x, last_of = last_of (blk off g)\<rparr>]) b)"
  using assms unfolding put_gap_def store_block_def blk_def next_buf_def
  by (cases b) (simp add: Let_def list_update_append)

lemma put_gaps_new:
  assumes "\<not> limit_reached b" "\<not> (mergeable b \<and> redge)" "roomy hdr space b"
  shows "\<exists>b' j. put_gaps hdr space off redge gs b = Some b' \<and> j \<le> length gs \<and> gd_mem b' = gd_mem b @ map (blk off) (take j gs) \<and>
    num_blocks b' = num_blocks b + of_nat j \<and> (\<not> limit_reached b' \<longrightarrow> j = length gs) \<and> (gs \<noteq> [] \<or> \<not> mergeable b \<longrightarrow> \<not> mergeable b') \<and> roomy hdr space b'"
  using assms
proof (induction gs arbitrary: b)
  case Nil
  then show ?case by auto
next
  case (Cons g gs)
  define b1 where "b1 = next_buf hdr space (length (gd_mem b)) (gd_mem b @ [blk off g]) b"
  have b1: "put_gap hdr space off redge g b = Some b1" "gd_mem b1 = gd_mem b @ [blk off g]" "num_blocks b1 = num_blocks b + 1" "\<not> mergeable b1"
    using Cons.prems put_gap_new [of b redge hdr space off g] by (simp_all add: b1_def roomy_def)
  have b1r: "roomy hdr space b1" unfolding b1_def using Cons.prems by (intro next_buf_roomy) (auto simp: roomy_def)
  show ?case
  proof (cases "limit_reached b1")
    case True
    with b1 b1r show ?thesis by (intro exI [of _ b1] exI [of _ 1]) simp
  next
    case False
    have "\<not> (mergeable b1 \<and> redge)" using b1(4) by simp
    from Cons.IH [OF False this b1r] b1(4) obtain b' j where "put_gaps hdr space off redge gs b1 = Some b'" "j \<le> length gs"
      "gd_mem b' = gd_mem b1 @ map (blk off) (take j gs)" "num_blocks b' = num_blocks b1 + of_nat j"
      "\<not> limit_reached b' \<longrightarrow> j = length gs" "\<not> mergeable b'" "roomy hdr space b'" by auto
    with b1 False show ?thesis by (intro exI [of _ b'] exI [of _ "Suc j"]) simp
  qed
qed

lemma put_gaps_merge:
  assumes "\<not> limit_reached b" "mergeable b" "gd_mem b = mem @ [x]" "gap_descriptor b = length mem"
    and "hdr + 4 * gap_descriptor b + 4 \<le> space \<or> gap_descriptor b = 0"
  shows "\<exists>b' j. put_gaps hdr space off True (g # gs) b = Some b' \<and> j \<le> length gs \<and>
    gd_mem b' = mem @ \<lparr>start = start x, last_of = last_of (blk off g)\<rparr> # map (blk off) (take j gs) \<and>
    num_blocks b' = num_blocks b + 1 + of_nat j \<and> (\<not> limit_reached b' \<longrightarrow> j = length gs) \<and> \<not> mergeable b' \<and> roomy hdr space b'"
proof -
  define b1 where "b1 = next_buf hdr space (length mem) (mem @ [\<lparr>start = start x, last_of = last_of (blk off g)\<rparr>]) b"
  have b1: "put_gap hdr space off True g b = Some b1" "gd_mem b1 = mem @ [\<lparr>start = start x, last_of = last_of (blk off g)\<rparr>]"
    "num_blocks b1 = num_blocks b + 1" "\<not> mergeable b1" using put_gap_merge [OF assms(1-4)] by (simp_all add: b1_def)
  have b1r: "roomy hdr space b1" unfolding b1_def using assms by (intro next_buf_roomy) auto
  show ?thesis
  proof (cases "limit_reached b1")
    case True
    with b1 b1r show ?thesis by (intro exI [of _ b1] exI [of _ 0]) simp
  next
    case False
    have "\<not> (mergeable b1 \<and> True)" using b1(4) by simp
    from put_gaps_new [OF False this b1r, of off gs] b1 False show ?thesis by auto
  qed
qed

section \<open>The loop\<close>

text \<open>
  After \<open>n\<close> positions: the blocks behind those in \<open>pre\<close> are the runs of \<open>P\<close> below \<open>n\<close>, or when the limit was reached
  some of them.
\<close>

definition gaps_state :: "nat \<Rightarrow> nat \<Rightarrow> sctp_gap_ack_block list \<Rightarrow> (int \<Rightarrow> bool) \<Rightarrow> int \<Rightarrow> int \<Rightarrow> gap_buf \<Rightarrow> bool" where
  "gaps_state hdr space pre P off0 n b \<longleftrightarrow> roomy hdr space b \<and>
     (\<exists>bl. gd_mem b = pre @ bl \<and> num_blocks b = of_nat (length bl) \<and>
        (if limit_reached b then reports P n (map (ivl off0) bl)
         else represents P n (map (ivl off0) bl) \<and> (mergeable b \<longleftrightarrow> 0 < n \<and> P (n - 1))))"

lemma represents_cong: "(\<And>g. 0 \<le> g \<Longrightarrow> g < n \<Longrightarrow> P g \<longleftrightarrow> Q g) \<Longrightarrow> represents P n rs \<longleftrightarrow> represents Q n rs"
  by (auto simp: represents_def)

text \<open>The end of a byte: the blocks written are the first of \<open>full\<close>, all of them unless the limit was reached.\<close>

lemma gaps_state_step:
  assumes "roomy hdr space b" "gd_mem b = pre @ bl" "num_blocks b = of_nat (length bl)"
    and "full = map (ivl off0) bl @ rest" "\<not> limit_reached b \<longrightarrow> rest = []" "represents P n full" "\<not> mergeable b" "0 < n" and q: "q \<longleftrightarrow> P (n - 1)"
  shows "gaps_state hdr space pre P off0 n (if q then b\<lparr>mergeable := True\<rparr> else b)"
proof -
  have "reports P n (map (ivl off0) bl)" using represents_reports [OF assms(6)] unfolding assms(4) by (rule reports_prefix)
  with assms show ?thesis by (auto simp: gaps_state_def roomy_def)
qed

text \<open>The row of the table for the bits of \<open>P\<close> from \<open>n\<close> on, all offsets being 16-bit numbers.\<close>

definition row_for :: "(int \<Rightarrow> bool) \<Rightarrow> int \<Rightarrow> int \<Rightarrow> sack_track \<Rightarrow> bool" where
  "row_for P off0 n t \<longleftrightarrow> represents (\<lambda>g. P (n + g)) 8 (row_runs t) \<and> (right_edge t \<noteq> 0 \<longleftrightarrow> P n) \<and> (left_edge t \<noteq> 0 \<longleftrightarrow> P (n + 7)) \<and>
     unat (num_entries t) \<le> length (gaps t) \<and> 0 \<le> n \<and> n + 8 + off0 \<le> 65536 \<and> (\<forall>g. P g \<longrightarrow> 0 \<le> g + off0)"

definition row_gaps :: "sack_track \<Rightarrow> sctp_gap_ack_block list" where "row_gaps t = take (unat (num_entries t)) (gaps t)"

lemma row_runs_gaps: "row_runs t = map (\<lambda>g. (uint (start g), uint (last_of g))) (row_gaps t)"
  by (simp add: row_runs_def row_gaps_def)

lemma row_forD:
  assumes "row_for P off0 n t"
  shows "represents (\<lambda>g. P (n + g)) 8 (row_runs t)" "right_edge t \<noteq> 0 \<longleftrightarrow> P n" "left_edge t \<noteq> 0 \<longleftrightarrow> P (n + 7)" "0 \<le> n" "0 < n + 8"
    "num_entries t = 0 \<longleftrightarrow> row_gaps t = []"
    "\<And>g. g \<in> set (row_gaps t) \<Longrightarrow> ivl off0 (blk (off0 + n) g) = (uint (start g) + n, uint (last_of g) + n)"
proof -
  show rep: "represents (\<lambda>g. P (n + g)) 8 (row_runs t)" using assms by (simp add: row_for_def)
  show "num_entries t = 0 \<longleftrightarrow> row_gaps t = []" using assms by (auto simp: row_gaps_def row_for_def unat_eq_0)
  show "ivl off0 (blk (off0 + n) g) = (uint (start g) + n, uint (last_of g) + n)" if "g \<in> set (row_gaps t)" for g
  proof -
    have m: "(uint (start g), uint (last_of g)) \<in> set (row_runs t)" using that by (auto simp: row_runs_gaps)
    have "P (n + uint (start g))" "uint (start g) \<le> uint (last_of g)" "uint (last_of g) < 8"
      using represents_fst [OF rep m] rep m by (auto simp: represents_def)
    with assms show ?thesis by (subst ivl_blk) (auto simp: row_for_def ac_simps)
  qed
qed (use assms in \<open>auto simp: row_for_def\<close>)

lemma row_blocks:
  assumes "row_for P off0 n t" "row_gaps t = gs0 @ gs"
  shows "map (ivl off0) (map (blk (off0 + n)) (take j gs)) = take j (shift n (map (\<lambda>g. (uint (start g), uint (last_of g))) gs))"
  using row_forD(7) [OF assms(1)] assms(2) by (auto simp: shift_def take_map dest: in_set_takeD)

lemma last_bit: "P (n + 7) \<longleftrightarrow> P (n + 8 - 1)" for n :: int by (simp add: algebra_simps)

lemma gap_byte_append:
  assumes row: "row_for P off0 n t" and b: "roomy hdr space b" "gd_mem b = pre @ bs" "num_blocks b = of_nat (length bs)"
    "represents P n (map (ivl off0) bs)" "mergeable b \<longleftrightarrow> 0 < n \<and> P (n - 1)" "\<not> limit_reached b"
    and sep: "\<not> (mergeable b \<and> right_edge t \<noteq> 0)"
  shows "\<exists>b'. gap_byte hdr space (off0 + n) t b = Some b' \<and> gaps_state hdr space pre P off0 (n + 8) b'"
proof -
  note rowD = row_forD [OF row]
  have full: "represents P (n + 8) (map (ivl off0) bs @ shift n (row_runs t))"
    using b(5) sep rowD(2,4) by (intro represents_append [OF b(4) rowD(1)]) auto
  have bb: "gap_byte hdr space (off0 + n) t b = (if row_gaps t = [] then Some (b\<lparr>mergeable := False\<rparr>) else
      do { b \<leftarrow> put_gaps hdr space (off0 + n) (right_edge t \<noteq> 0) (row_gaps t) b; Some (if P (n + 7) then b\<lparr>mergeable := True\<rparr> else b) })"
    using sep rowD(3,6) by (auto simp: gap_byte_def Let_def row_gaps_def [symmetric])
  show ?thesis
  proof (cases "row_gaps t = []")
    case True
    have "\<not> P (n + 7)" using rowD(1) True by (simp add: represents_def row_runs_gaps)
    with True full b bb rowD(5) show ?thesis by (auto simp: row_runs_gaps gaps_state_def roomy_def add.commute [of n 7])
  next
    case gs: False
    from put_gaps_new [OF b(6) sep b(1), of "off0 + n" "row_gaps t"] gs obtain b' j where
      b': "put_gaps hdr space (off0 + n) (right_edge t \<noteq> 0) (row_gaps t) b = Some b'"
      "gd_mem b' = gd_mem b @ map (blk (off0 + n)) (take j (row_gaps t))" "num_blocks b' = num_blocks b + of_nat j" "j \<le> length (row_gaps t)"
      "\<not> limit_reached b' \<longrightarrow> j = length (row_gaps t)" "\<not> mergeable b'" "roomy hdr space b'" by blast
    have "gaps_state hdr space pre P off0 (n + 8) (if P (n + 7) then b'\<lparr>mergeable := True\<rparr> else b')"
      by (rule gaps_state_step [OF b'(7) _ _ _ _ full b'(6) rowD(5) last_bit [of P n], where bl = "bs @ map (blk (off0 + n)) (take j (row_gaps t))"
            and rest = "drop j (shift n (row_runs t))"])
        (use b b' row_blocks [OF row, of "[]" "row_gaps t" j] in \<open>auto simp: row_runs_gaps shift_def min_def\<close>)
    with bb gs b'(1) show ?thesis by auto
  qed
qed

lemma gap_byte_merge:
  assumes row: "row_for P off0 n t" and b: "roomy hdr space b" "gd_mem b = pre @ bs" "num_blocks b = of_nat (length bs)"
    "represents P n (map (ivl off0) bs)" "\<not> limit_reached b" "mergeable b" and m: "0 < n" "P (n - 1)" "P n"
  shows "\<exists>b'. gap_byte hdr space (off0 + n) t b = Some b' \<and> gaps_state hdr space pre P off0 (n + 8) b'"
proof -
  note rowD = row_forD [OF row]
  obtain rs0 a where rs: "map (ivl off0) bs = rs0 @ [(a, n - 1)]" using b(4) m(1,2) by (rule represents_last)
  then obtain bs0 x where bs: "bs = bs0 @ [x]" "map (ivl off0) bs0 = rs0" "ivl off0 x = (a, n - 1)"
    by (cases bs rule: rev_cases) auto
  obtain d ss where row0: "row_runs t = (0, d) # ss" using rowD(1) by (rule represents_first) (use m(3) in auto)
  then obtain g gs where g: "row_gaps t = [g] @ gs" "uint (start g) = 0" "uint (last_of g) = d" "map (\<lambda>g. (uint (start g), uint (last_of g))) gs = ss"
    by (cases "row_gaps t") (auto simp: row_runs_gaps)
  have full: "represents P (n + 8) (rs0 @ (a, d + n) # shift n ss)"
    using b(4) rowD(1) m(1) unfolding rs row0 by (rule represents_merge)
  define b1 where "b1 = b\<lparr>num_blocks := num_blocks b - 1, gap_descriptor := gap_descriptor b - 1\<rparr>"
  have gd: "gap_descriptor b = Suc (length (pre @ bs0))" using b(1,2) bs(1) by (simp add: roomy_def)
  have bb: "gap_byte hdr space (off0 + n) t b =
      do { b \<leftarrow> put_gaps hdr space (off0 + n) True (g # gs) b1; Some (if P (n + 7) then b\<lparr>mergeable := True\<rparr> else b) }"
    using b(6) m(3) rowD(2,3,6) gd g(1) by (simp add: gap_byte_def Let_def row_gaps_def [symmetric] b1_def del: put_gaps.simps)
  have b1: "\<not> limit_reached b1" "mergeable b1" "gd_mem b1 = (pre @ bs0) @ [x]" "gap_descriptor b1 = length (pre @ bs0)"
    "hdr + 4 * gap_descriptor b1 + 4 \<le> space \<or> gap_descriptor b1 = 0"
    using b(1,2,5,6) bs(1) gd by (auto simp: b1_def roomy_def)
  let ?x = "\<lparr>start = start x, last_of = last_of (blk (off0 + n) g)\<rparr>"
  from put_gaps_merge [OF b1, of "off0 + n" g gs] obtain b' j where b': "put_gaps hdr space (off0 + n) True (g # gs) b1 = Some b'" "j \<le> length gs"
    "gd_mem b' = (pre @ bs0) @ ?x # map (blk (off0 + n)) (take j gs)"
    "num_blocks b' = num_blocks b1 + 1 + of_nat j" "\<not> limit_reached b' \<longrightarrow> j = length gs" "\<not> mergeable b'" "roomy hdr space b'" by blast
  have "ivl off0 (blk (off0 + n) g) = (n, d + n)" using rowD(7) [of g] g by simp
  then have im: "ivl off0 ?x = (a, d + n)" using bs(3) by (simp add: ivl_def)
  have "gaps_state hdr space pre P off0 (n + 8) (if P (n + 7) then b'\<lparr>mergeable := True\<rparr> else b')"
    by (rule gaps_state_step [OF b'(7) _ _ _ _ full b'(6) rowD(5) last_bit [of P n], where rest = "drop j (shift n ss)"
          and bl = "bs0 @ ?x # map (blk (off0 + n)) (take j gs)"])
      (use b(3) bs(1,2) b' im row_blocks [OF row g(1), of j] g(4) in \<open>auto simp: b1_def shift_def min_def\<close>)
  then show ?thesis unfolding bb b'(1) by simp
qed

lemma gap_byte_correct:
  assumes st: "gaps_state hdr space pre P off0 n b" and lim: "\<not> limit_reached b" and n: "0 \<le> n"
    and v: "\<And>g. 0 \<le> g \<Longrightarrow> g < 8 \<Longrightarrow> bit v (nat g) \<longleftrightarrow> P (n + g)"
    and low: "\<And>g. P g \<Longrightarrow> 0 \<le> g + off0" and hi: "n + 8 + off0 \<le> 65536"
  shows "\<exists>b'. gap_byte hdr space (off0 + n) (sack_array ! unat (v :: u8)) b = Some b' \<and> gaps_state hdr space pre P off0 (n + 8) b'"
proof -
  define t where "t = sack_array ! unat v"
  note r = row_represents [of v, folded t_def]
  have "represents (\<lambda>g. P (n + g)) 8 (row_runs t)"
    using r(1) represents_cong [of 8 "\<lambda>g. bit v (nat g)" "\<lambda>g. P (n + g)"] v by blast
  then have row: "row_for P off0 n t" using r v [of 0] v [of 7] n hi low by (auto simp: row_for_def)
  obtain bs where b: "roomy hdr space b" "gd_mem b = pre @ bs" "num_blocks b = of_nat (length bs)" "represents P n (map (ivl off0) bs)"
    "mergeable b \<longleftrightarrow> 0 < n \<and> P (n - 1)" using st lim by (auto simp: gaps_state_def)
  show ?thesis unfolding t_def [symmetric]
  proof (cases "mergeable b \<and> right_edge t \<noteq> 0")
    case False
    then show "\<exists>b'. gap_byte hdr space (off0 + n) t b = Some b' \<and> gaps_state hdr space pre P off0 (n + 8) b'"
      by (rule gap_byte_append [OF row b lim])
  next
    case True
    then show "\<exists>b'. gap_byte hdr space (off0 + n) t b = Some b' \<and> gaps_state hdr space pre P off0 (n + 8) b'"
      using b(5) row_forD(2) [OF row] by (intro gap_byte_merge [OF row b(1-4) lim]) auto
  qed
qed

text \<open>All bytes. The first one is read with the bits up to the cumulative TSN cleared.\<close>

lemma clear_low_correct:
  assumes "off0 \<le> 1" "- 30 < off0"
  shows "\<exists>w. clear_low off0 v = Some w \<and> (\<forall>g < 8. bit w g \<longleftrightarrow> bit v g \<and> 1 \<le> int g + off0)"
proof -
  have "bit (ucast (push_bit (nat (1 - off0)) (- 1 :: u32)) :: u8) g \<longleftrightarrow> 1 \<le> int g + off0" if "g < 8" for g
    using that assms by (auto simp: bit_ucast_iff bit_push_bit_iff bit_not_iff bit_mask_iff possible_bit_word)
  then show ?thesis using assms by (auto simp: clear_low_def bit_and_iff)
qed

lemma gap_loop_correct:
  assumes "gaps_state hdr space pre P off0 (8 * int i) b" "\<not> limit_reached b"
    and byte: "\<And>k. k < i + c \<Longrightarrow> \<exists>v. byte k = Some v \<and> (\<forall>g < 8. bit v g \<longleftrightarrow> Q (8 * k + g))"
    and P: "\<And>g. P g \<longleftrightarrow> 0 \<le> g \<and> Q (nat g) \<and> 1 \<le> g + off0" and off: "off0 \<le> 1" "- 7 < off0" "8 * int (i + c) + off0 \<le> 65536"
  shows "\<exists>b'. gap_loop byte hdr space c i (off0 + 8 * int i) b = Some b' \<and>
    (gaps_state hdr space pre P off0 (8 * int (i + c)) b' \<or>
      limit_reached b' \<and> (\<exists>k \<le> i + c. gaps_state hdr space pre P off0 (8 * int k) b'))"
  using assms
proof (induction c arbitrary: i b)
  case 0
  then show ?case by auto
next
  case (Suc c)
  obtain v where v: "byte i = Some v" "\<And>g. g < 8 \<Longrightarrow> bit v g \<longleftrightarrow> Q (8 * i + g)" using Suc.prems(3) [of i] by auto
  have "\<exists>w. (if i = 0 then clear_low (off0 + 8 * int i) v else Some v) = Some w \<and> (\<forall>g < 8. bit w g \<longleftrightarrow> P (8 * int i + int g))"
  proof (cases "i = 0")
    case True
    from clear_low_correct [of off0 v] Suc.prems(5,6) obtain w where "clear_low off0 v = Some w" "\<forall>g < 8. bit w g \<longleftrightarrow> bit v g \<and> 1 \<le> int g + off0" by auto
    with True v(2) show ?thesis by (auto simp: P)
  next
    case False
    with v(2) Suc.prems(6) show ?thesis by (auto simp: P nat_add_distrib nat_mult_distrib)
  qed
  then obtain w where w: "(if i = 0 then clear_low (off0 + 8 * int i) v else Some v) = Some w" "\<And>g. g < 8 \<Longrightarrow> bit w g \<longleftrightarrow> P (8 * int i + int g)" by blast
  have "bit w (nat g) \<longleftrightarrow> P (8 * int i + g)" if "0 \<le> g" "g < 8" for g using w(2) [of "nat g"] that by auto
  moreover have "0 \<le> g + off0" if "P g" for g using that by (auto simp: P)
  ultimately obtain b1 where b1: "gap_byte hdr space (off0 + 8 * int i) (sack_array ! unat w) b = Some b1" "gaps_state hdr space pre P off0 (8 * int i + 8) b1"
    using gap_byte_correct [OF Suc.prems(1,2), of w] Suc.prems(7) by auto
  have e: "8 * int i + 8 = 8 * int (i + 1)" "off0 + 8 * int i + 8 = off0 + 8 * int (i + 1)" by simp_all
  have run: "gap_loop byte hdr space (Suc c) i (off0 + 8 * int i) b =
    (if limit_reached b1 then Some b1 else gap_loop byte hdr space c (i + 1) (off0 + 8 * int (i + 1)) b1)"
    unfolding gap_loop.simps v(1) Option.bind_lunit w(1) b1(1) e(2) ..
  show ?case
  proof (cases "limit_reached b1")
    case True
    with b1(2) run show ?thesis unfolding e(1) by (intro exI [of _ b1]) (auto intro!: exI [of _ "i + 1"])
  next
    case False
    have "8 * int (i + 1 + c) + off0 \<le> 65536" using Suc.prems(7) by simp
    from Suc.IH [OF b1(2) [unfolded e(1)] False Suc.prems(3) P Suc.prems(5,6) this] show ?thesis
      unfolding run using False by auto
  qed
qed

end
