(* ===== verification/Sack_Correct.thy ===== *)
theory Sack_Correct
  imports Sack_Gaps
begin

text \<open>
  What a SACK reports. The gap blocks of a queued SACK stand for received TSNs above the cumulative TSN, all of
  them unless the chunk is full, and the chunk fits its buffer and the packet. This holds as long as the highest TSN is not numerically
  below the base of the mapping arrays: after the TSNs have wrapped around between the two, a SACK reports
  no gaps at all.
\<close>

section \<open>The positions of a slid state\<close>

text \<open>The state after sliding, in terms of the represented set.\<close>

definition slid :: "int \<Rightarrow> int \<Rightarrow> int \<Rightarrow> int set \<Rightarrow> 'a rcv_asoc_scheme \<Rightarrow> bool" where
  "slid B C h R m \<longleftrightarrow> (\<exists>hm hn. tsn_rel B C hm hn R m \<and> window B hm hn \<and> h = max hm hn \<and> C \<le> h) \<and> C + 1 \<notin> R \<and> C \<le> B + 6"

text \<open>The TSNs a list of gap blocks stands for.\<close>

definition reported :: "int \<Rightarrow> sctp_gap_ack_block list \<Rightarrow> int set" where
  "reported C bl = {x. \<exists>b \<in> set bl. C + uint (start b) \<le> x \<and> x \<le> C + uint (last_of b)}"

lemma reported_covers: "x \<in> reported C bl \<longleftrightarrow> covers (map (ivl off0) bl) (x - C - off0)"
  by (simp add: reported_def covers_def ivl_def le_diff_eq diff_le_eq ac_simps)

lemma runs_ok_ivl: "runs_ok (map (ivl off0) bl) \<longleftrightarrow> runs_ok (map (ivl 0) bl)"
proof -
  have "map (ivl off0) bl = shift (- off0) (map (ivl 0) bl)" by (simp add: shift_def ivl_def)
  then show ?thesis by simp
qed

lemma slidD:
  assumes "slid B C h R m"
  shows "mapping_array_base_tsn m = word_of_int B" "cumulative_tsn m = word_of_int C" "sack_highest m = word_of_int h"
    "gap_offset m = B - C" "B - 1 \<le> C" "C \<le> B + 6" "{..C} \<subseteq> R" "C + 1 \<notin> R" "h \<in> R" "h < B + 8440" "h < B + 8 * int (msize m)" "B - 1 \<le> h"
    "\<And>x. x \<in> R \<Longrightarrow> x \<le> h" "\<And>x. C < x \<Longrightarrow> x < B + 8 * int (msize m) \<Longrightarrow> x \<in> R \<longleftrightarrow> got m (nat (x - B))" "dups_ok m"
    "length (nr_mapping_array m) = msize m" "msize m \<le> 1055"
proof -
  obtain hm hn where r: "tsn_rel B C hm hn R m" "window B hm hn" "h = max hm hn" "C \<le> h" and s: "C + 1 \<notin> R" "C \<le> B + 6"
    using assms by (auto simp: slid_def)
  have ok: "arrays_ok B R m" and mk: "marks_ok B C hm hn R m" and d: "dups_ok m" using r(1) by (auto simp: tsn_rel_def)
  note okD = arrays_okD [OF ok] and mkD = marks_okD [OF mk]
  have "SCTP_TSN_GT (word_of_int hm) (word_of_int hn) \<longleftrightarrow> hn < hm"
    using r(2) okD(8) [OF mkD(6)] okD(8) [OF mkD(7)] by (intro TSN_GT_int) (auto simp: window_def)
  then show "sack_highest m = word_of_int h" using mkD(4,5) r(3) by (simp add: sack_highest_def max_def)
  have "SCTP_TSN_GT (word_of_int B) (word_of_int C) \<longleftrightarrow> C < B" using mkD(2) s(2) by (intro TSN_GT_int) auto
  moreover have "sint (word_of_int (B - C) :: u32) = B - C" using mkD(2) s(2) by (intro sint_of_int_u32) auto
  ultimately show "gap_offset m = B - C" using okD(5) mkD(1,2) by (auto simp: gap_offset_def)
  show "h \<in> R" using r(3) mkD(6,7) by (simp add: max_def)
  then show "h < B + 8440" "h < B + 8 * int (msize m)" using okD(7,8) by auto
  show "x \<le> h" if "x \<in> R" for x using received_le_highest [OF ok mk that] r(3,4) by simp
  show "x \<in> R \<longleftrightarrow> got m (nat (x - B))" if "C < x" "x < B + 8 * int (msize m)" for x
    using okD(9) [of "nat (x - B)"] that mkD(2) by auto
qed (use assms in \<open>auto simp: slid_def tsn_rel_def arrays_ok_def marks_ok_def\<close>)

lemma slide_slid:
  assumes "tsn_inv C R m" "recent m"
  shows "\<exists>m' B C' h. sctp_slide_mapping_arrays m = Some m' \<and> slid B C' h R m' \<and> same_rest m m' \<and> C \<le> C'"
proof -
  obtain B hm hn where r: "tsn_rel B C hm hn R m" "near B hm hn" using assms by (rule tsn_inv_near)
  from slide_correct [OF this] obtain m' B' C' hm' hn' where s: "sctp_slide_mapping_arrays m = Some m'" "tsn_rel B' C' hm' hn' R m'"
    "same_rest m m'" "C' + 1 \<notin> R" "C' \<le> B' + 6" "window B' hm' hn'" "C' \<le> max hm' hn'" by blast
  have "{..C} \<subseteq> R" using r(1) by (simp add: tsn_rel_def marks_ok_def)
  then have "C \<le> C'" using s(4) subsetD [of "{..C}" R "C' + 1"] by (metis atMost_iff linorder_not_le zless_imp_add1_zle)
  with s show ?thesis unfolding slid_def by blast
qed

section \<open>The gap blocks\<close>

definition no_gaps :: gap_buf where
  "no_gaps = \<lparr>gd_mem = [], gap_descriptor = 0, num_blocks = 0, mergeable = False, limit_reached = False\<rparr>"

lemma no_gaps_state: "gaps_state hdr space [] P off0 0 no_gaps" and no_gaps_limit [simp]: "\<not> limit_reached no_gaps"
  by (simp_all add: gaps_state_def no_gaps_def roomy_def represents_Nil)

lemma both_bytes_bits:
  assumes "length (nr_mapping_array m) = msize m" "k < msize m"
  shows "\<exists>v. both_bytes m k = Some v \<and> (\<forall>g < 8. bit v g \<longleftrightarrow> got m (8 * k + g))"
  using assms by (auto simp: both_bytes_def byte_at_def bit_or_iff got_def bit_of_def)

text \<open>The number of bytes, when the highest TSN is numerically above the base and when it is not.\<close>

lemma sack_siz_above:
  assumes "(word_of_int B :: u32) < word_of_int h" "B \<le> h" "h < B + 8440"
  shows "unat (sack_siz (word_of_int h) (word_of_int B)) = nat ((h - B + 8) div 8)"
proof -
  have "unat (word_of_int h - word_of_int B :: u32) = nat (h - B)" using assms by (intro unat_diff_int) auto
  moreover have "nat (h - B) + 1 + 7 < 2 ^ 32" using assms by auto
  ultimately have "unat (word_of_int h - word_of_int B + 1 + 7 :: u32) = nat (h - B) + 8"
    by (simp only: unat_word_ariths) simp
  moreover have "nat (h - B) + 8 = nat (h - B + 8)" using assms(2) by auto
  ultimately show ?thesis using assms(1) by (simp add: sack_siz_def unat_div nat_div_distrib)
qed

lemma sack_siz_wrapped: "\<not> base < highest \<Longrightarrow> sack_siz highest base = 0"
proof -
  have "(0xffffffff :: u32) = - 1" by simp
  then have "(MAX_TSN - highest) + 1 + highest + 7 = 7" by (simp add: MAX_TSN_def)
  then show "\<not> base < highest \<Longrightarrow> sack_siz highest base = 0" unfolding sack_siz_def by (simp only: if_False) simp
qed

text \<open>The positions of the TSNs above the cumulative one, and what blocks say that represent them.\<close>

definition gap_in :: "(nat \<Rightarrow> bool) \<Rightarrow> int \<Rightarrow> int \<Rightarrow> bool" where
  "gap_in Q off0 g \<longleftrightarrow> 0 \<le> g \<and> Q (nat g) \<and> 1 \<le> g + off0"

lemma gap_in_received:
  assumes "slid B C h R m" "x < B + 8 * int (msize m)"
  shows "gap_in (got m) (B - C) (x - C - (B - C)) \<longleftrightarrow> x \<in> R \<and> C < x"
  using slidD(5) [OF assms(1)] slidD(14) [OF assms(1), of x] assms(2) by (cases "C < x") (auto simp: gap_in_def)

lemma reports_received:
  assumes sl: "slid B C h R m" and rep: "reports (gap_in (got m) (B - C)) (8 * int k) (map (ivl (B - C)) bl)" and k: "k \<le> msize m"
  shows "reported C bl \<subseteq> {x \<in> R. C < x}"
proof
  fix x
  assume "x \<in> reported C bl"
  then have cov: "covers (map (ivl (B - C)) bl) (x - C - (B - C))" by (simp only: reported_covers [of _ _ _ "B - C"])
  then have "x - C - (B - C) < 8 * int k" using reports_bounds [OF rep] by simp
  then have "x < B + 8 * int (msize m)" using k by simp
  from gap_in_received [OF sl this] cov rep show "x \<in> {x \<in> R. C < x}" by (simp add: reports_def)
qed

lemma represents_received:
  assumes sl: "slid B C h R m" and rep: "represents (gap_in (got m) (B - C)) (8 * int k) (map (ivl (B - C)) bl)" and k: "h < B + 8 * int k"
  shows "{x \<in> R. C < x} \<subseteq> reported C bl"
proof
  fix x
  assume x: "x \<in> {x \<in> R. C < x}"
  then have b: "x < B + 8 * int (msize m)" "x < B + 8 * int k" using slidD(11,13) [OF sl] k by force+
  have g: "gap_in (got m) (B - C) (x - C - (B - C))" using gap_in_received [OF sl b(1)] x by simp
  then have "0 \<le> x - C - (B - C)" "x - C - (B - C) < 8 * int k" using b(2) by (auto simp: gap_in_def)
  with g show "x \<in> reported C bl" using representsD [OF rep] by (simp only: reported_covers [of _ _ _ "B - C"])
qed

text \<open>A loop over some of the bytes, for one array or both.\<close>

lemma gap_part_correct:
  assumes sl: "slid B C h R m" and st: "gaps_state hdr space pre (gap_in Q (B - C)) (B - C) 0 b" and lim: "\<not> limit_reached b"
    and byte: "\<And>k. k < c \<Longrightarrow> \<exists>v. byte k = Some v \<and> (\<forall>g < 8. bit v g \<longleftrightarrow> Q (8 * k + g))" and c: "c \<le> msize m"
  shows "\<exists>b' k. gap_loop byte hdr space c 0 (gap_offset m) b = Some b' \<and> gaps_state hdr space pre (gap_in Q (B - C)) (B - C) (8 * int k) b' \<and>
    k \<le> c \<and> (limit_reached b' \<or> k = c)"
proof -
  note D = slidD [OF sl]
  have offs: "B - C \<le> 1" "- 7 < B - C" "8 * int (0 + c) + (B - C) \<le> 65536" using D(5,6,17) c by auto
  have st0: "gaps_state hdr space pre (gap_in Q (B - C)) (B - C) (8 * int 0) b" using st by simp
  have byte0: "\<exists>v. byte k = Some v \<and> (\<forall>g < 8. bit v g \<longleftrightarrow> Q (8 * k + g))" if "k < 0 + c" for k using byte that by simp
  from gap_loop_correct [OF st0 lim byte0 gap_in_def offs] D(4) show ?thesis by auto
qed

lemma gap_blocks_correct:
  assumes sl: "slid B C h R m" and nowrap: "h = C \<or> mapping_array_base_tsn m < sack_highest m"
  shows "\<exists>b. gap_ack_blocks SCTP_SELECTIVE_ACK hdr space m no_gaps = Some b \<and> roomy hdr space b \<and> num_blocks b = of_nat (length (gd_mem b)) \<and>
    runs_ok (map (ivl 0) (gd_mem b)) \<and> reported C (gd_mem b) \<subseteq> {x \<in> R. C < x} \<and> (limit_reached b \<or> reported C (gd_mem b) = {x \<in> R. C < x})"
proof (cases "C < h")
  case False
  note D = slidD [OF sl]
  have "\<not> SCTP_TSN_GT (word_of_int h) (word_of_int C)" using False D(5,6,12) by (subst TSN_GT_int) auto
  then have "gap_ack_blocks SCTP_SELECTIVE_ACK hdr space m no_gaps = Some no_gaps"
    using D(2,3) by (simp add: gap_ack_blocks_def SCTP_SELECTIVE_ACK_def SCTP_NR_SELECTIVE_ACK_def)
  moreover have "{x \<in> R. C < x} = {}" using D(13) False by force
  ultimately show ?thesis by (simp add: no_gaps_def roomy_def reported_def)
next
  case True
  note D = slidD [OF sl]
  have "h \<noteq> C + 1" using D(8,9) by auto
  with True have hC: "C + 2 \<le> h" by simp
  define c where "c = unat (sack_siz (sack_highest m) (mapping_array_base_tsn m))"
  have c: "c = nat ((h - B + 8) div 8)"
    unfolding c_def D(1,3) using nowrap True hC D by (intro sack_siz_above) auto
  have cb: "c \<le> msize m" "h < B + 8 * int c" "8 * int c \<le> 8440" using hC D(5,10,11,17) unfolding c by auto
  have gt: "SCTP_TSN_GT (word_of_int h) (word_of_int C)" using True D(5,6,10) by (subst TSN_GT_int) auto
  have run: "gap_ack_blocks SCTP_SELECTIVE_ACK hdr space m no_gaps = gap_loop (both_bytes m) hdr space c 0 (gap_offset m) no_gaps"
    using gt D(2,3) by (simp add: gap_ack_blocks_def c_def)
  have byte: "\<exists>v. both_bytes m k = Some v \<and> (\<forall>g < 8. bit v g \<longleftrightarrow> got m (8 * k + g))" if "k < c" for k
    using that cb(1) by (intro both_bytes_bits D(16)) simp
  from gap_part_correct [OF sl no_gaps_state no_gaps_limit byte cb(1)] obtain b k where
    b: "gap_loop (both_bytes m) hdr space c 0 (gap_offset m) no_gaps = Some b" "gaps_state hdr space [] (gap_in (got m) (B - C)) (B - C) (8 * int k) b"
    "k \<le> c" "limit_reached b \<or> k = c" by blast
  have rep: "reports (gap_in (got m) (B - C)) (8 * int k) (map (ivl (B - C)) (gd_mem b))" and bb: "roomy hdr space b" "num_blocks b = of_nat (length (gd_mem b))"
    using b(2) represents_reports by (auto simp: gaps_state_def split: if_splits)
  have "reported C (gd_mem b) \<subseteq> {x \<in> R. C < x}" using reports_received [OF sl rep] b(3) cb(1) by simp
  moreover have "{x \<in> R. C < x} \<subseteq> reported C (gd_mem b)" if "\<not> limit_reached b"
    using represents_received [OF sl _ cb(2)] b(2,4) that by (auto simp: gaps_state_def)
  moreover have "runs_ok (map (ivl 0) (gd_mem b))" using rep runs_ok_ivl [of "B - C" "gd_mem b"] by (simp add: reports_def)
  ultimately show ?thesis using run b(1) bb by (intro exI [of _ b]) auto
qed

section \<open>The chunk\<close>

text \<open>
  A SACK with at most \<open>space\<close> bytes acknowledges the received TSNs \<open>R\<close> with cumulative TSN \<open>C\<close>: its blocks are in order and apart from each
  other, they stand for received TSNs above \<open>C\<close>, and for all of them unless there is no room for another block. Its length is that of
  the header, the blocks and the duplicates. The first block or duplicate is written without a test.
\<close>

definition acknowledges :: "int \<Rightarrow> int set \<Rightarrow> nat \<Rightarrow> sack_chunk \<Rightarrow> bool" where
  "acknowledges C R space s \<longleftrightarrow> cum_tsn_ack s = word_of_int C \<and> unat (num_gap_ack_blks s) = length (gap_blocks s) \<and>
     runs_ok (map (ivl 0) (gap_blocks s)) \<and> reported C (gap_blocks s) \<subseteq> {x \<in> R. C < x} \<and>
     (reported C (gap_blocks s) = {x \<in> R. C < x} \<or> space < 20 + 4 * length (gap_blocks s)) \<and>
     unat (chunk_length s) = 16 + 4 * length (gap_blocks s) + 4 * length (dup_list s) \<and> unat (chunk_length s) \<le> max 20 space"

lemma put_dups_length:
  assumes "ds \<noteq> []"
  shows "pos + 4 * length (put_dups pos space ds) \<le> max (pos + 4) space"
  using assms
proof (induction ds arbitrary: pos)
  case (Cons d ds)
  show ?case
  proof (cases "ds = [] \<or> pos + 4 + 4 > space")
    case False
    with Cons.IH [of "pos + 4"] have "pos + 4 + 4 * length (put_dups (pos + 4) space ds) \<le> space" by auto
    with False show ?thesis by simp
  qed auto
qed simp

lemma sack_space_le: "room < 2 ^ 32 \<Longrightarrow> sack_space room mtu \<le> room"
  by (auto simp: sack_space_def Let_def unsigned_of_nat take_bit_nat_eq_self word_less_nat_alt)

lemma same_rcv_blocks:
  assumes "rcv_asoc.truncate a = rcv_asoc.truncate a'"
  shows "gap_ack_blocks type hdr space a b = gap_ack_blocks type hdr space a' b" "slid B C h R a \<longleftrightarrow> slid B C h R a'"
    "sack_highest a = sack_highest a'" "sack_space_req type a = sack_space_req type a'"
proof -
  show h: "sack_highest a = sack_highest a'" using assms by (simp add: rcv_asoc.truncate_def sack_highest_def)
  show "sack_space_req type a = sack_space_req type a'" using assms by (simp add: rcv_asoc.truncate_def sack_space_req_def h)
  show "gap_ack_blocks type hdr space a b = gap_ack_blocks type hdr space a' b"
    using assms by (simp add: rcv_asoc.truncate_def gap_ack_blocks_def h gap_offset_def both_bytes_def [abs_def])
  show "slid B C h R a \<longleftrightarrow> slid B C h R a'"
    using assms by (simp add: rcv_asoc.truncate_def slid_def tsn_rel_def arrays_ok_def marks_ok_def dups_ok_def got_def)
qed

lemma fill_sack_blocks:
  assumes b: "gap_ack_blocks SCTP_SELECTIVE_ACK 16 space a no_gaps = Some b" "roomy 16 space b" "num_blocks b = of_nat (length (gd_mem b))"
    and space: "space = sack_space room (net_mtu a to)" and room: "room \<le> 2048" and dok: "dups_ok a"
  shows "\<exists>s a'. fill_sack env SCTP_SELECTIVE_ACK to room a = Some (s, chunk_length s, a') \<and> cum_tsn_ack s = cumulative_tsn a \<and> gap_blocks s = gd_mem b \<and>
    unat (num_gap_ack_blks s) = length (gd_mem b) \<and> unat (chunk_length s) = 16 + 4 * length (gd_mem b) + 4 * length (dup_list s) \<and>
    unat (chunk_length s) \<le> max 20 space"
proof -
  define dac where "dac = (sctp_cmt_on_off a > 0 \<and> sctp_cmt_use_dac env \<noteq> 0)"
  define a1 where "a1 = (if dac then a\<lparr>cmt_dac_pkts_rcvd := 0\<rparr> else a)\<lparr>freed_by_sorcv_sincelast := 0\<rparr>"
  have "rcv_asoc.truncate a1 = rcv_asoc.truncate a" by (simp add: a1_def rcv_asoc.truncate_def)
  note same = same_rcv_blocks [OF this]
  have sp: "space \<le> 2048" using sack_space_le [of room] room le_trans unfolding space by fastforce
  have len: "16 + 4 * length (gd_mem b) \<le> max 20 space" "length (gd_mem b) \<le> 508" using b(2) sp by (auto simp: roomy_def split: if_splits)
  define dups where "dups = (if \<not> limit_reached b \<and> numduptsns a \<noteq> 0
    then put_dups (16 + 4 * length (gd_mem b)) space (take (unat (numduptsns a)) (dup_tsns a)) else [])"
  have dn: "unat (numduptsns a) \<le> length (dup_tsns a)" using dok by (auto simp: dups_ok_def word_le_nat_alt)
  have "16 + 4 * length (gd_mem b) + 4 * length dups \<le> max 20 space"
  proof (cases "dups = []")
    case False
    then have nl: "\<not> limit_reached b" and "put_dups (16 + 4 * length (gd_mem b)) space (take (unat (numduptsns a)) (dup_tsns a)) \<noteq> []"
      by (simp_all add: dups_def split: if_splits)
    then have "take (unat (numduptsns a)) (dup_tsns a) \<noteq> []" by (metis put_dups.simps(1))
    from put_dups_length [OF this, of "16 + 4 * length (gd_mem b)" space] False
    have "16 + 4 * length (gd_mem b) + 4 * length dups \<le> max (16 + 4 * length (gd_mem b) + 4) space" by (simp add: dups_def split: if_splits)
    with nl b(2) show ?thesis by (auto simp: roomy_def)
  qed (use len in simp)
  then have sz: "16 + 4 * length (gd_mem b) + 4 * length dups \<le> max 20 space" "max 20 space < 65536" using sp by auto
  have nb: "unat (num_blocks b) = length (gd_mem b)" "unat (ucast (num_blocks b) :: u16) = length (gd_mem b)"
    using b(3) len(2) by (simp_all add: unsigned_of_nat unsigned_ucast_eq take_bit_nat_eq_self)
  have "(ucast (num_blocks b) :: u16) = word_of_nat (unat (ucast (num_blocks b) :: u16))" by simp
  then have nb': "(ucast (num_blocks b) :: u16) = word_of_nat (length (gd_mem b))" by (simp only: nb(2))
  have gd: "gap_descriptor b = length (gd_mem b)" using b(2) by (simp add: roomy_def)
  define sz' :: u16 where "sz' = word_of_nat (16 + length (gd_mem b) * 4 + length dups * 4)"
  have sz'': "unat sz' = 16 + 4 * length (gd_mem b) + 4 * length dups"
    using sz unfolding sz'_def by (subst unsigned_of_nat) (simp add: take_bit_nat_eq_self)
  define s where "s = \<lparr>chunk_type = SCTP_SELECTIVE_ACK, chunk_flags = (if dac then push_bit 6 (cmt_dac_pkts_rcvd a) else 0), chunk_length = sz',
    cum_tsn_ack = cumulative_tsn a, a_rwnd = my_rwnd a, num_gap_ack_blks = ucast (num_blocks b), num_nr_gap_ack_blks = 0,
    num_dup_tsns = word_of_nat (length dups), gap_blocks = gd_mem b, dup_list = dups\<rparr>"
  have "\<exists>a'. fill_sack env SCTP_SELECTIVE_ACK to room a = Some (s, chunk_length s, a')"
    using b(1) dn nb gd unfolding fill_sack_def Let_def s_def sz'_def dups_def sizeof_sack_chunk_def dac_def [symmetric] space [symmetric] a1_def [symmetric]
    by (simp add: no_gaps_def [symmetric] same SCTP_NR_SELECTIVE_ACK_def SCTP_SELECTIVE_ACK_def) (simp add: a1_def nb')
  then show ?thesis using nb(2) sz sz'' by (auto simp: s_def)
qed

lemma fill_sack_correct:
  assumes sl: "slid B C h R a" and nowrap: "h = C \<or> mapping_array_base_tsn a < sack_highest a" and room: "room \<le> 2048"
  shows "\<exists>s a'. fill_sack env SCTP_SELECTIVE_ACK to room a = Some (s, chunk_length s, a') \<and> acknowledges C R (sack_space room (net_mtu a to)) s"
proof -
  from gap_blocks_correct [OF sl nowrap] obtain b where
    b: "gap_ack_blocks SCTP_SELECTIVE_ACK 16 (sack_space room (net_mtu a to)) a no_gaps = Some b" "roomy 16 (sack_space room (net_mtu a to)) b"
    "num_blocks b = of_nat (length (gd_mem b))" "runs_ok (map (ivl 0) (gd_mem b))" "reported C (gd_mem b) \<subseteq> {x \<in> R. C < x}"
    "limit_reached b \<or> reported C (gd_mem b) = {x \<in> R. C < x}" by blast
  from fill_sack_blocks [OF b(1-3) refl room slidD(15) [OF sl], of env] slidD(2) [OF sl] b(2,4-6) show ?thesis
    by (fastforce simp: acknowledges_def roomy_def)
qed

section \<open>Queueing the chunk\<close>

text \<open>Queueing touches neither the received TSNs nor the sizes of the packets.\<close>

lemma truncate_ref_net [simp]: "rcv_asoc.truncate (ref_net n d a) = rcv_asoc.truncate a"
  by (simp add: ref_net_def rcv_asoc.truncate_def split: option.split)

lemma truncate_take_chunk [simp]: "rcv_asoc.truncate (snd (take_chunk type a)) = rcv_asoc.truncate a"
  by (auto simp: take_chunk_def rcv_asoc.truncate_def ref_net_def split: option.split)

lemma truncate_set_rwnd [simp]: "rcv_asoc.truncate (sctp_set_rwnd a) = rcv_asoc.truncate a"
  by (simp add: sctp_set_rwnd_def rcv_asoc.truncate_def)

lemma mtu_simps [simp]: "net_mtu (ref_net n d a) = net_mtu a" "net_mtu (snd (take_chunk type a)) = net_mtu a" "net_mtu (sctp_set_rwnd a) = net_mtu a"
  by (auto simp: take_chunk_def ref_net_def sctp_set_rwnd_def split: option.split)

lemma same_rest_more:
  fixes a a' :: "'a sack_asoc_scheme"
  assumes "same_rest a a'"
  shows "net_mtu a' = net_mtu a" "last_data_chunk_from a' = last_data_chunk_from a" "control_send_queue a' = control_send_queue a"
    "ctrl_queue_cnt a' = ctrl_queue_cnt a" "net_ref_count a' = net_ref_count a" "nrsack_supported a' = nrsack_supported a"
  using assms by (cases a; cases a'; simp add: same_rest_def)+

definition sack_room :: "'a rcv_asoc_scheme \<Rightarrow> nat" where
  "sack_room m = (if sack_highest m = cumulative_tsn m then MLEN else MCLBYTES) - SCTP_MIN_OVERHEAD"

lemma mbuf_for_sack:
  "sctp_get_mbuf_for_msg True (sack_space_req type m) = Some (if sack_highest m = cumulative_tsn m then MLEN else MCLBYTES)"
  by (simp add: sctp_get_mbuf_for_msg_def sack_space_req_def MHLEN_def MLEN_def MSIZE_def MCLBYTES_def sizeof_sack_chunk_def sizeof_nr_sack_chunk_def)

text \<open>The chunk that goes to the queue, a queued one used again or a new one, and the state in which it is filled.\<close>

definition sack_tmit :: "u8 \<Rightarrow> tmit_chunk option \<Rightarrow> nat \<Rightarrow> tmit_chunk" where
  "sack_tmit type old to = (case old of Some c \<Rightarrow> c | None \<Rightarrow> fresh_chunk type)
     \<lparr>chk_flags := 0, snd_count := 0, send_size := 0, sent := SCTP_DATAGRAM_UNSENT, whoTo := Some to\<rparr>"

lemma sack_tmit_whoTo [simp]: "whoTo (sack_tmit type old to) = Some to" by (simp add: sack_tmit_def)

lemma send_sack_unfold:
  assumes src: "last_data_chunk_from a = Some from" and slide: "sctp_slide_mapping_arrays a = Some m"
    and type: "type = (if nrsack_supported a = 1 then SCTP_NR_SELECTIVE_ACK else SCTP_SELECTIVE_ACK)"
    and tk: "take_chunk type (sctp_set_rwnd m) = (old, a1)"
    and to: "to = sack_destination env from (a1\<lparr>data_pkts_seen := 0\<rparr>)" and a3: "a3 = ref_net (Some to) 1 (a1\<lparr>data_pkts_seen := 0\<rparr>)"
  shows "sctp_send_sack env a =
    (if old = None \<and> \<not> chunk_available env then Some (sack_later a1)
     else case sctp_get_mbuf_for_msg (mbuf_available env) (sack_space_req type a3) of
         None \<Rightarrow> Some (sack_later (ref_net (Some to) (- 1) a3))
       | Some size_of \<Rightarrow> do {
           (sack, sz, a) \<leftarrow> fill_sack env type to (size_of - SCTP_MIN_OVERHEAD) a3;
           Some (a\<lparr>control_send_queue := control_send_queue a @ [(sack_tmit type old to)\<lparr>chk_data := Some (Sack_data sack), send_size := sz\<rparr>],
                   my_last_reported_rwnd := my_rwnd a, ctrl_queue_cnt := ctrl_queue_cnt a + 1, send_sack := 0\<rparr>) })"
  unfolding sctp_send_sack_def Let_def
  by (simp only: src slide option.case Option.bind_lunit type [symmetric] tk case_prod_conv to [symmetric] a3 [symmetric]
      sack_tmit_def [symmetric] sack_tmit_whoTo)

lemma filled_state:
  assumes "take_chunk type (sctp_set_rwnd m) = (old, a1)"
  shows "rcv_asoc.truncate (ref_net n d (a1\<lparr>data_pkts_seen := 0\<rparr>)) = rcv_asoc.truncate m" "net_mtu (ref_net n d (a1\<lparr>data_pkts_seen := 0\<rparr>)) = net_mtu m"
proof -
  have "rcv_asoc.truncate a1 = rcv_asoc.truncate m" "net_mtu a1 = net_mtu m"
    using truncate_take_chunk [of type "sctp_set_rwnd m"] mtu_simps(2) [of type "sctp_set_rwnd m"] assms by simp_all
  moreover have "rcv_asoc.truncate (a1\<lparr>data_pkts_seen := 0\<rparr>) = rcv_asoc.truncate a1" by (simp add: rcv_asoc.truncate_def)
  ultimately show "rcv_asoc.truncate (ref_net n d (a1\<lparr>data_pkts_seen := 0\<rparr>)) = rcv_asoc.truncate m" "net_mtu (ref_net n d (a1\<lparr>data_pkts_seen := 0\<rparr>)) = net_mtu m"
    by simp_all
qed

lemma send_sack_fills:
  fixes a :: "'a sack_asoc_scheme"
  assumes src: "last_data_chunk_from a = Some from" "nrsack_supported a \<noteq> 1" "chunk_available env" "mbuf_available env"
    and slide: "sctp_slide_mapping_arrays a = Some m"
    and fill: "\<And>(a3 :: 'a sack_asoc_scheme) to. rcv_asoc.truncate a3 = rcv_asoc.truncate m \<Longrightarrow> net_mtu a3 = net_mtu m \<Longrightarrow>
      \<exists>s a'. fill_sack env SCTP_SELECTIVE_ACK to (sack_room m) a3 = Some (s, chunk_length s, a') \<and> Q s to"
  shows "\<exists>a' q chk s to. sctp_send_sack env a = Some a' \<and> control_send_queue a' = q @ [chk] \<and> chk_data chk = Some (Sack_data s) \<and>
    send_size chk = chunk_length s \<and> whoTo chk = Some to \<and> Q s to"
proof -
  obtain old a1 where tk: "take_chunk SCTP_SELECTIVE_ACK (sctp_set_rwnd m) = (old, a1)" by (cases "take_chunk SCTP_SELECTIVE_ACK (sctp_set_rwnd m)")
  define to where "to = sack_destination env from (a1\<lparr>data_pkts_seen := 0\<rparr>)"
  define a3 where "a3 = ref_net (Some to) 1 (a1\<lparr>data_pkts_seen := 0\<rparr>)"
  note t3 = filled_state [OF tk, of "Some to" 1, folded a3_def]
  obtain s a' where f: "fill_sack env SCTP_SELECTIVE_ACK to (sack_room m) a3 = Some (s, chunk_length s, a')" "Q s to" using fill [OF t3] by blast
  have "sack_highest a3 = sack_highest m" "cumulative_tsn a3 = cumulative_tsn m"
    using same_rcv_blocks(3) [OF t3(1)] t3(1) by (simp_all add: rcv_asoc.truncate_def)
  then have mb: "sctp_get_mbuf_for_msg True (sack_space_req SCTP_SELECTIVE_ACK a3) = Some (if sack_highest m = cumulative_tsn m then MLEN else MCLBYTES)"
    by (simp add: mbuf_for_sack)
  have "SCTP_SELECTIVE_ACK = (if nrsack_supported a = 1 then SCTP_NR_SELECTIVE_ACK else SCTP_SELECTIVE_ACK)" using src(2) by simp
  from send_sack_unfold [OF src(1) slide this tk to_def a3_def] src(3,4) mb f(1)
  have "sctp_send_sack env a = Some (a'\<lparr>control_send_queue := control_send_queue a' @
      [(sack_tmit SCTP_SELECTIVE_ACK old to)\<lparr>chk_data := Some (Sack_data s), send_size := chunk_length s\<rparr>],
      my_last_reported_rwnd := my_rwnd a', ctrl_queue_cnt := ctrl_queue_cnt a' + 1, send_sack := 0\<rparr>)"
    by (simp add: sack_room_def split: if_splits)
  with f(2) show ?thesis by simp
qed

lemma send_sack_acknowledges:
  fixes a :: "'a sack_asoc_scheme"
  assumes run: "tsn_run C R a" "recent a" and "last_data_chunk_from a = Some from" "nrsack_supported a \<noteq> 1" "chunk_available env" "mbuf_available env"
    and slide: "sctp_slide_mapping_arrays a = Some m"
    and nowrap: "sack_highest m = cumulative_tsn m \<or> mapping_array_base_tsn m < sack_highest m"
  shows "\<exists>a' q chk s to C'. sctp_send_sack env a = Some a' \<and> control_send_queue a' = q @ [chk] \<and> chk_data chk = Some (Sack_data s) \<and>
    send_size chk = chunk_length s \<and> whoTo chk = Some to \<and> C \<le> C' \<and> {..C'} \<subseteq> R \<and> C' + 1 \<notin> R \<and>
    acknowledges C' R (sack_space (sack_room m) (net_mtu a to)) s"
proof -
  from slide_slid [OF run_inv [OF run(1)] run(2)] slide obtain B C' h where sl: "slid B C' h R m" and same: "same_rest a m" and C': "C \<le> C'" by auto
  note D = slidD [OF sl]
  have "(word_of_int h :: u32) = word_of_int C' \<longleftrightarrow> h = C'" using D(5,6,10,12) by (intro word_of_int_inj) auto
  then have nw: "h = C' \<or> mapping_array_base_tsn m < sack_highest m" using nowrap D(2,3) by simp
  have room: "sack_room m \<le> 2048" by (simp add: sack_room_def MLEN_def MSIZE_def MCLBYTES_def SCTP_MIN_OVERHEAD_def)
  have "\<exists>s a'. fill_sack env SCTP_SELECTIVE_ACK to (sack_room m) a3 = Some (s, chunk_length s, a') \<and>
      acknowledges C' R (sack_space (sack_room m) (net_mtu m to)) s"
    if t: "rcv_asoc.truncate a3 = rcv_asoc.truncate m" "net_mtu a3 = net_mtu m" for a3 :: "'a sack_asoc_scheme" and to
  proof -
    have "slid B C' h R a3" "h = C' \<or> mapping_array_base_tsn a3 < sack_highest a3"
      using sl nw same_rcv_blocks [OF t(1)] t(1) by (auto simp: rcv_asoc.truncate_def)
    from fill_sack_correct [OF this room] t(2) show ?thesis by metis
  qed
  from send_sack_fills [OF assms(3-7) this] show ?thesis using C' D(7,8) same_rest_more(1) [OF same] by fastforce
qed

text \<open>
  C4: After any run of an association that has received data, the SACK it queues acknowledges exactly what was received: the cumulative
  TSN is the largest one up to which everything was received, the gap blocks are ordered, do not touch and stand for received
  TSNs above it, for all of them unless there is no room for another block, and the chunk keeps within the buffer
  and the packet. The condition is that the highest TSN is not numerically below the base of the arrays.
\<close>

theorem sack_reports_received:
  fixes a :: "'a sack_asoc_scheme"
  assumes run: "tsn_run C R a" "recent a" and "last_data_chunk_from a = Some from" "nrsack_supported a \<noteq> 1" "chunk_available env" "mbuf_available env"
    and slide: "sctp_slide_mapping_arrays a = Some m"
    and nowrap: "sack_highest m = cumulative_tsn m \<or> mapping_array_base_tsn m < sack_highest m"
  shows "\<exists>a' q chk s to C'. sctp_send_sack env a = Some a' \<and> control_send_queue a' = q @ [chk] \<and> chk_data chk = Some (Sack_data s) \<and>
    send_size chk = chunk_length s \<and> whoTo chk = Some to \<and> C \<le> C' \<and> {..C'} \<subseteq> R \<and> C' + 1 \<notin> R \<and>
    acknowledges C' R (sack_space (sack_room m) (net_mtu a to)) s"
  using assms by (rule send_sack_acknowledges)

definition demo_sack :: sack_asoc where
  "demo_sack = \<lparr>mapping_array = [], nr_mapping_array = [], mapping_array_size = 0, mapping_array_base_tsn = 0, cumulative_tsn = 0,
     highest_tsn_inside_map = 0, highest_tsn_inside_nr_map = 0, dup_tsns = replicate 20 0, numduptsns = 0, send_sack = 0,
     nrsack_supported = 0, last_data_chunk_from = Some 0, control_send_queue = [], ctrl_queue_cnt = 0, delayed_ack = 200, sack_freq = 2,
     data_pkts_seen = 0, sctp_cmt_on_off = 0, cmt_dac_pkts_rcvd = 0, my_rwnd = 0, my_last_reported_rwnd = 0, sb_cc = 0, my_rwnd_control_len = 0,
     size_on_reasm_queue = 0, cnt_on_reasm_queue = 0, size_on_all_streams = 0, cnt_on_all_streams = 0, freed_by_sorcv_sincelast = 0,
     dack_pending = False, asoc_state = 8, alternate = None, primary_destination = Some 0, so_rcv_hiwat = Some 131072,
     net_mtu = (\<lambda>_. 1500), net_dest_state = (\<lambda>_. 1), net_ref_count = (\<lambda>_. 1)\<rparr>"

definition demo_env :: sack_env where
  "demo_env = \<lparr>chunk_available = True, mbuf_available = True, find_alternate_net = (\<lambda>_. None), sctp_cmt_use_dac = 0\<rparr>"

text \<open>The peer starts with TSN \<open>t\<close>, and TSN \<open>t + 2\<close> has arrived.\<close>

definition demo_gap :: "u32 \<Rightarrow> sack_asoc" where
  "demo_gap t = (process_init_tsn t (init_mapping_arrays demo_sack))\<lparr>mapping_array := 4 # replicate 15 0, highest_tsn_inside_map := t + 2\<rparr>"

lemma demo_gap_start: "tsn_run (t - 1) {..<t} (process_init_tsn (word_of_int t) (init_mapping_arrays demo_sack))"
  by (rule tsn_run.start) (simp_all add: demo_sack_def SCTP_MAX_DUP_TSNS_def)

lemma demo_start_recent: "recent (process_init_tsn t (init_mapping_arrays demo_sack))"
  by (simp add: recent_def process_init_tsn_def init_mapping_arrays_def)

lemma gap_two: "SCTP_CALC_TSN_TO_GAP (t + 2) t = 2" by (simp add: gap_eq)

lemma demo_gap_run: "tsn_run (t - 1) (insert (t + 2) {..<t}) (demo_gap (word_of_int t))"
proof -
  let ?m = "process_init_tsn (word_of_int t) (init_mapping_arrays demo_sack)"
  have ge: "\<not> SCTP_TSN_GE (word_of_int t - 1) (word_of_int t + 2)" "SCTP_TSN_GT (word_of_int t + 2) (word_of_int t - 1)"
    by (simp_all add: SCTP_UINT32_GE_iff SCTP_UINT32_GT_iff)
  have c: "tsn_check True True (word_of_int (t + 2)) (word_of_int t - 1) ?m = Some (Tsn_new 2, word_of_int t + 2, ?m)"
    using ge by (simp add: tsn_check_def process_init_tsn_def init_mapping_arrays_def gap_eq SCTP_MAPPING_ARRAY_def SCTP_INITIAL_MAPPING_ARRAY_def
        is_present bit_of_def push_bit_eq_mult Let_def)
  have l: "(replicate 16 (0 :: u8))[0 := 4] = 4 # replicate 15 0" by code_simp
  have m: "tsn_mark True False 2 (word_of_int (t + 2)) ?m = Some (demo_gap (word_of_int t))"
    using ge by (simp add: tsn_mark_def mark_r_def SCTP_SET_TSN_PRESENT_def byte_at_def process_init_tsn_def init_mapping_arrays_def demo_gap_def
        SCTP_INITIAL_MAPPING_ARRAY_def advance_cumulative_def demo_sack_def l)
  show ?thesis using tsn_run.data [OF demo_gap_start demo_start_recent _ c m] by simp
qed

lemma demo_gap_recent: "recent (demo_gap t)"
  by (simp add: recent_def demo_gap_def process_init_tsn_def init_mapping_arrays_def)

lemma demo_gap_simps [simp]:
  "mapping_array_base_tsn (demo_gap t) = t" "cumulative_tsn (demo_gap t) = t - 1" "sack_highest (demo_gap t) = t + 2" "highest_of (demo_gap t) = t + 2"
  "last_data_chunk_from (demo_gap t) = Some 0" "nrsack_supported (demo_gap t) = 0" "net_mtu (demo_gap t) = (\<lambda>_. 1500)"
  "control_send_queue (demo_gap t) = []" "delayed_ack (demo_gap t) = 200"
  by (simp_all add: demo_gap_def process_init_tsn_def init_mapping_arrays_def sack_highest_def highest_of_def SCTP_UINT32_GT_iff demo_sack_def)

lemma demo_gap_slide: "sctp_slide_mapping_arrays (demo_gap t) = Some (demo_gap t)"
proof -
  have "slide_scan (nr_mapping_array (demo_gap t)) (mapping_array (demo_gap t)) (unat (mapping_array_size (demo_gap t))) 0 0 = Some (0, 0)"
    by (subst slide_scan.simps)
      (simp add: demo_gap_def process_init_tsn_def init_mapping_arrays_def SCTP_INITIAL_MAPPING_ARRAY_def byte_at_def sctp_map_lookup_tab_def)
  then show ?thesis
    by (simp add: sctp_slide_mapping_arrays_def demo_gap_def process_init_tsn_def init_mapping_arrays_def SCTP_UINT32_GT_iff highest_of_def)
qed

lemma demo_gap_cumulative:
  fixes C t :: int
  assumes "{..C} \<subseteq> insert (t + 2) {..<t}" "C + 1 \<notin> insert (t + 2) {..<t}"
  shows "C = t - 1"
proof (rule cumulative_unique [OF assms])
  show "{..t - 1} \<subseteq> insert (t + 2) {..<t}" by auto
qed simp

lemma demo_env_simps [simp]: "chunk_available demo_env" "mbuf_available demo_env" by (simp_all add: demo_env_def)

lemma reported_one:
  assumes "runs_ok (map (ivl 0) bl)" "reported C bl \<subseteq> {x}"
  shows "length bl \<le> 1"
proof (cases bl)
  case (Cons b bs)
  have one: "C + uint (start c) = x" if "c \<in> set bl" for c
  proof -
    have "uint (start c) \<le> uint (last_of c)" using runs_okD [OF assms(1), of "ivl 0 c"] that by (simp add: ivl_def)
    then have "C + uint (start c) \<in> reported C bl" using that by (auto simp: reported_def)
    with assms(2) show ?thesis by auto
  qed
  show ?thesis
  proof (cases bs)
    case (Cons c cs)
    have "uint (last_of b) + 1 < uint (start c)" "uint (start b) \<le> uint (last_of b)"
      using assms(1) \<open>bl = b # bs\<close> Cons by (auto simp: runs_ok_Cons ivl_def)
    moreover have "uint (start b) = uint (start c)" using one [of b] one [of c] \<open>bl = b # bs\<close> Cons by auto
    ultimately show ?thesis by simp
  qed (use Cons in simp)
qed simp

text \<open>TSN 1000 is the first one of the peer and 1002 has arrived: the SACK says so.\<close>

theorem sack_reports_received_witness:
  "\<exists>a' q chk s. sctp_send_sack demo_env (demo_gap 1000) = Some a' \<and> control_send_queue a' = q @ [chk] \<and> chk_data chk = Some (Sack_data s) \<and>
    cum_tsn_ack s = 999 \<and> reported 999 (gap_blocks s) = {1002}"
proof -
  have run: "tsn_run (1000 - 1) (insert (1000 + 2) {..<1000}) (demo_gap 1000)" using demo_gap_run [of 1000] by simp
  have "sack_highest (demo_gap 1000) = cumulative_tsn (demo_gap 1000) \<or> mapping_array_base_tsn (demo_gap 1000) < sack_highest (demo_gap 1000)" by simp
  from sack_reports_received [OF run demo_gap_recent _ _ _ _ demo_gap_slide this, of 0 demo_env] obtain a' q chk s to C' where
    a: "sctp_send_sack demo_env (demo_gap 1000) = Some a'" "control_send_queue a' = q @ [chk]" "chk_data chk = Some (Sack_data s)"
    "{..C'} \<subseteq> insert (1000 + 2) {..<1000}" "C' + 1 \<notin> insert (1000 + 2) {..<1000}"
    "acknowledges C' (insert (1000 + 2) {..<1000}) (sack_space (sack_room (demo_gap 1000)) 1500) s" by auto
  have C': "C' = 999" using demo_gap_cumulative [OF a(4,5)] by simp
  have sp: "sack_space (sack_room (demo_gap 1000)) 1500 = 1448"
    by (simp add: sack_room_def sack_space_def MCLBYTES_def SCTP_MIN_OVERHEAD_def Let_def)
  have R: "{x \<in> insert (1000 + 2) {..<1000}. 999 < x} = {1002 :: int}" by auto
  have "length (gap_blocks s) \<le> 1" using a(6) reported_one [of "gap_blocks s" 999 1002] unfolding C' acknowledges_def R by simp
  then have "reported 999 (gap_blocks s) = {1002}" using a(6) unfolding C' acknowledges_def sp R by auto
  with a C' show ?thesis by (auto simp: acknowledges_def)
qed

section \<open>Wrapping around\<close>

text \<open>
  C39: When the TSNs have wrapped around between the base of the arrays and the highest TSN received, the number of bytes to look at
  is computed as 0: the SACK has no gap blocks although TSNs above the cumulative one were received, and the peer has to
  retransmit them.
\<close>

theorem sack_silent_after_wrap:
  fixes a :: "'a sack_asoc_scheme"
  assumes run: "tsn_run C R a" "recent a" and "last_data_chunk_from a = Some from" "nrsack_supported a \<noteq> 1" "chunk_available env" "mbuf_available env"
    and slide: "sctp_slide_mapping_arrays a = Some m"
    and wrap: "sack_highest m < mapping_array_base_tsn m" "SCTP_TSN_GT (sack_highest m) (cumulative_tsn m)"
  shows "\<exists>a' q chk s C'. sctp_send_sack env a = Some a' \<and> control_send_queue a' = q @ [chk] \<and> chk_data chk = Some (Sack_data s) \<and>
    cum_tsn_ack s = word_of_int C' \<and> {..C'} \<subseteq> R \<and> gap_blocks s = [] \<and> (\<exists>x \<in> R. C' < x)"
proof -
  from slide_slid [OF run_inv [OF run(1)] run(2)] slide obtain B C' h where sl: "slid B C' h R m" by auto
  note D = slidD [OF sl]
  have "C' < h" using wrap(2) TSN_GT_int [of h C'] D(2,3,5,6,10,12) by simp
  then have gap: "\<exists>x \<in> R. C' < x" using D(9) by blast
  have room: "sack_room m \<le> 2048" by (simp add: sack_room_def MLEN_def MSIZE_def MCLBYTES_def SCTP_MIN_OVERHEAD_def)
  have "\<exists>s a'. fill_sack env SCTP_SELECTIVE_ACK to (sack_room m) a3 = Some (s, chunk_length s, a') \<and>
      (cum_tsn_ack s = word_of_int C' \<and> gap_blocks s = [])"
    if t: "rcv_asoc.truncate a3 = rcv_asoc.truncate m" "net_mtu a3 = net_mtu m" for a3 :: "'a sack_asoc_scheme" and to
  proof -
    have "\<not> mapping_array_base_tsn a3 < sack_highest a3" "dups_ok a3" "cumulative_tsn a3 = word_of_int C'"
      using wrap(1) D(2,15) same_rcv_blocks(3) [OF t(1)] t(1) by (auto simp: rcv_asoc.truncate_def dups_ok_def)
    moreover from this have "gap_ack_blocks SCTP_SELECTIVE_ACK 16 space a3 no_gaps = Some no_gaps" for space
      by (simp add: gap_ack_blocks_def sack_siz_wrapped SCTP_SELECTIVE_ACK_def SCTP_NR_SELECTIVE_ACK_def)
    ultimately show ?thesis using fill_sack_blocks [OF _ _ _ refl room, of a3 to no_gaps env] by (auto simp: no_gaps_def roomy_def)
  qed
  from send_sack_fills [OF assms(3-7) this] show ?thesis using gap D(7) by fastforce
qed

text \<open>The first TSN of the peer is the last 32-bit number, and the TSN after the next one has arrived.\<close>

theorem sack_silent_after_wrap_witness:
  "\<exists>a' q chk s. sctp_send_sack demo_env (demo_gap 0xffffffff) = Some a' \<and> control_send_queue a' = q @ [chk] \<and>
    chk_data chk = Some (Sack_data s) \<and> gap_blocks s = []"
proof -
  have run: "tsn_run (4294967295 - 1) (insert (4294967295 + 2) {..<4294967295}) (demo_gap 0xffffffff)" using demo_gap_run [of 4294967295] by simp
  have "sack_highest (demo_gap 0xffffffff) < mapping_array_base_tsn (demo_gap 0xffffffff)"
    "SCTP_TSN_GT (sack_highest (demo_gap 0xffffffff)) (cumulative_tsn (demo_gap 0xffffffff))"
    by (simp_all add: SCTP_UINT32_GT_iff)
  from sack_silent_after_wrap [OF run demo_gap_recent _ _ _ _ demo_gap_slide this, of 0 demo_env] show ?thesis by auto
qed

end
