(* ===== verification/Sack_Queue.thy ===== *)
theory Sack_Queue
  imports Sack_Correct
begin

text \<open>
  The control queue and the decision when to acknowledge. Queueing a SACK, an NR-SACK or a SHUTDOWN keeps the count of the queue and the reference
  counts of the destinations in step with the queue, on every path, and data that has arrived is never forgotten:
  an acknowledgement is queued, or the timer for it runs, or the flag is set that makes the next check queue it.
\<close>

section \<open>Reading the arrays is in bounds\<close>

lemma nr_siz_le:
  assumes "B \<le> h" "h < B + 8 * int n" "n \<le> 1055"
  shows "unat (nr_siz (word_of_int h) (word_of_int B)) \<le> n"
proof (cases "(word_of_int B :: u32) < word_of_int h")
  case True
  then have "nr_siz (word_of_int h) (word_of_int B) = sack_siz (word_of_int h) (word_of_int B)" by (simp add: nr_siz_def sack_siz_def)
  then have "unat (nr_siz (word_of_int h) (word_of_int B)) = nat ((h - B + 8) div 8)" using sack_siz_above [OF True assms(1)] assms by simp
  moreover have "(h - B + 8) div 8 \<le> int n" using assms by linarith
  ultimately show ?thesis by (simp add: nat_le_iff)
next
  case False
  have "(0xffffffff :: u32) = - 1" by simp
  then have e: "((MAX_TSN - word_of_int B) + 1) + word_of_int h + 7 = (word_of_int (h + 7) - word_of_int B :: u32)" by (simp add: MAX_TSN_def)
  have "unat (word_of_int (h + 7) - word_of_int B :: u32) = nat (h + 7 - B)" using assms by (intro unat_diff_int) auto
  then have "unat (nr_siz (word_of_int h) (word_of_int B)) = nat (h + 7 - B) div 8"
    using False e unfolding nr_siz_def by (simp only: if_False) (simp add: unat_div)
  moreover have "nat (h + 7 - B) < 8 * n + 7" using assms by linarith
  ultimately show ?thesis by simp
qed

lemma array_bytes:
  assumes "k < length arry"
  shows "\<exists>v. byte_at arry k = Some v \<and> (\<forall>g < 8. bit v g \<longleftrightarrow> bit_of arry (8 * k + g))"
  using assms by (auto simp: byte_at_def bit_of_def)

lemma gaps_state_restart: "roomy hdr space b \<Longrightarrow> \<not> limit_reached b \<Longrightarrow> gaps_state hdr space (gd_mem b) P off0 0 (b\<lparr>num_blocks := 0, mergeable := False\<rparr>)"
  by (auto simp: gaps_state_def roomy_def represents_Nil)

lemma gaps_state_roomy: "gaps_state hdr space pre P off0 n b \<Longrightarrow> roomy hdr space b"
  by (simp add: gaps_state_def)

text \<open>A part of the NR-SACK: one array whose highest TSN is \<open>x\<close>.\<close>

lemma nr_part:
  assumes sl: "slid B C h R m" and x: "x \<in> R" "B - 2 ^ 30 - 2 ^ 20 < x" and arry: "length arry = msize m"
    and st: "gaps_state hdr space pre (gap_in (bit_of arry) (B - C)) (B - C) 0 b" "\<not> limit_reached b"
  shows "\<exists>b'. (if SCTP_TSN_GT (word_of_int x) (cumulative_tsn m)
      then gap_loop (byte_at arry) hdr space (unat (nr_siz (word_of_int x) (mapping_array_base_tsn m))) 0 (gap_offset m) b else Some b) = Some b' \<and>
    roomy hdr space b'"
proof -
  note D = slidD [OF sl]
  have xh: "x \<le> h" using D(13) x(1) by simp
  have gt: "SCTP_TSN_GT (word_of_int x) (cumulative_tsn m) \<longleftrightarrow> C < x" unfolding D(2) using x D(5,6,10) xh by (intro TSN_GT_int) auto
  show ?thesis
  proof (cases "C < x")
    case True
    have c: "unat (nr_siz (word_of_int x) (mapping_array_base_tsn m)) \<le> msize m"
      unfolding D(1) using True D(5,11,17) xh by (intro nr_siz_le) auto
    have byte: "\<exists>v. byte_at arry k = Some v \<and> (\<forall>g < 8. bit v g \<longleftrightarrow> bit_of arry (8 * k + g))"
      if "k < unat (nr_siz (word_of_int x) (mapping_array_base_tsn m))" for k using that c arry by (intro array_bytes) simp
    from gap_part_correct [OF sl st byte c] gt True show ?thesis using gaps_state_roomy by fastforce
  next
    case False
    with gt gaps_state_roomy [OF st(1)] show ?thesis by simp
  qed
qed

lemma slid_highs:
  assumes "slid B C h R m"
  obtains hm hn where "highest_tsn_inside_map m = word_of_int hm" "highest_tsn_inside_nr_map m = word_of_int hn" "hm \<in> R" "hn \<in> R"
    "B - 2 ^ 30 - 2 ^ 20 < hm" "B - 2 ^ 30 - 2 ^ 20 < hn"
  using assms that by (auto simp: slid_def tsn_rel_def marks_ok_def window_def)

lemma blocks_total:
  assumes sl: "slid B C h R m"
  shows "\<exists>b. gap_ack_blocks SCTP_SELECTIVE_ACK hdr space m no_gaps = Some b \<and> roomy hdr space b"
    "\<exists>b. gap_ack_blocks SCTP_NR_SELECTIVE_ACK hdr space m no_gaps = Some b \<and> roomy hdr space b"
    "roomy hdr space b1 \<Longrightarrow> \<not> limit_reached b1 \<Longrightarrow> \<exists>b. nr_gap_ack_blocks hdr space m (b1\<lparr>num_blocks := 0\<rparr>) = Some b \<and> roomy hdr space b"
proof -
  show "\<exists>b. gap_ack_blocks SCTP_SELECTIVE_ACK hdr space m no_gaps = Some b \<and> roomy hdr space b"
  proof (cases "mapping_array_base_tsn m < sack_highest m")
    case True
    then show ?thesis using gap_blocks_correct [OF sl, of hdr space] by blast
  next
    case False
    then have "gap_ack_blocks SCTP_SELECTIVE_ACK hdr space m no_gaps = Some no_gaps"
      by (simp add: gap_ack_blocks_def sack_siz_wrapped SCTP_SELECTIVE_ACK_def SCTP_NR_SELECTIVE_ACK_def)
    then show ?thesis by (simp add: no_gaps_def roomy_def)
  qed
  obtain hm hn where hi: "highest_tsn_inside_map m = word_of_int hm" "highest_tsn_inside_nr_map m = word_of_int hn" "hm \<in> R" "hn \<in> R"
    "B - 2 ^ 30 - 2 ^ 20 < hm" "B - 2 ^ 30 - 2 ^ 20 < hn" using sl by (rule slid_highs)
  from nr_part [OF sl hi(3,5) refl no_gaps_state no_gaps_limit, of hdr space] hi(1)
  show "\<exists>b. gap_ack_blocks SCTP_NR_SELECTIVE_ACK hdr space m no_gaps = Some b \<and> roomy hdr space b"
    by (simp add: gap_ack_blocks_def SCTP_SELECTIVE_ACK_def SCTP_NR_SELECTIVE_ACK_def Let_def split: if_splits)
  show "\<exists>b. nr_gap_ack_blocks hdr space m (b1\<lparr>num_blocks := 0\<rparr>) = Some b \<and> roomy hdr space b" if "roomy hdr space b1" "\<not> limit_reached b1"
    using nr_part [OF sl hi(4,6) slidD(16) [OF sl] gaps_state_restart [OF that]] hi(2) that(2) by (auto simp: nr_gap_ack_blocks_def Let_def split: if_splits)
qed

text \<open>Filling the chunk always succeeds; it does not touch the queue and takes the cumulative TSN.\<close>

lemma same_rcv_nr_blocks: "rcv_asoc.truncate a = rcv_asoc.truncate a' \<Longrightarrow> nr_gap_ack_blocks hdr space a b = nr_gap_ack_blocks hdr space a' b"
  by (simp add: rcv_asoc.truncate_def nr_gap_ack_blocks_def gap_offset_def Let_def)

lemma fill_sack_total:
  assumes sl: "slid B C h R a" and type: "type \<in> {SCTP_SELECTIVE_ACK, SCTP_NR_SELECTIVE_ACK}"
  shows "\<exists>s sz a'. fill_sack env type to room a = Some (s, sz, a')"
proof -
  define space where "space = sack_space room (net_mtu a to)"
  define hdr where "hdr = (if type = SCTP_SELECTIVE_ACK then sizeof_sack_chunk else sizeof_nr_sack_chunk)"
  define dac where "dac = (sctp_cmt_on_off a > 0 \<and> sctp_cmt_use_dac env \<noteq> 0)"
  define a1 where "a1 = (if dac then a\<lparr>cmt_dac_pkts_rcvd := 0\<rparr> else a)\<lparr>freed_by_sorcv_sincelast := 0\<rparr>"
  have tr: "rcv_asoc.truncate a1 = rcv_asoc.truncate a" by (simp add: a1_def rcv_asoc.truncate_def)
  note same = same_rcv_blocks(1) [OF tr] same_rcv_nr_blocks [OF tr]
  obtain b1 where b1: "gap_ack_blocks type hdr space a1 no_gaps = Some b1" "roomy hdr space b1"
    using blocks_total(1,2) [OF sl, of hdr space] type same(1) by auto
  obtain b2 where b2: "(if type = SCTP_NR_SELECTIVE_ACK \<and> \<not> limit_reached b1 then nr_gap_ack_blocks hdr space a1 (b1\<lparr>num_blocks := 0\<rparr>)
      else Some (b1\<lparr>num_blocks := 0\<rparr>)) = Some b2"
    using blocks_total(3) [OF sl b1(2)] same(2) by (cases "type = SCTP_NR_SELECTIVE_ACK \<and> \<not> limit_reached b1") auto
  have "unat (numduptsns a1) \<le> length (dup_tsns a1)"
    using slidD(15) [OF sl] by (auto simp: a1_def dups_ok_def word_le_nat_alt)
  then obtain d a2 where d: "(if \<not> limit_reached b2 \<and> numduptsns a1 \<noteq> 0
      then (if unat (numduptsns a1) \<le> length (dup_tsns a1)
            then Some (put_dups (hdr + 4 * gap_descriptor b2) space (take (unat (numduptsns a1)) (dup_tsns a1)), a1\<lparr>numduptsns := 0\<rparr>) else None)
      else Some ([], a1)) = Some (d, a2)" by (cases "\<not> limit_reached b2 \<and> numduptsns a1 \<noteq> 0") auto
  show ?thesis
    unfolding fill_sack_def Let_def dac_def [symmetric] space_def [symmetric] hdr_def [symmetric] a1_def [symmetric] no_gaps_def [symmetric] b1(1)
      Option.bind_lunit b2 d by simp
qed

lemma fill_sack_frame:
  assumes "fill_sack env type to room a = Some (s, sz, a')"
  shows "cum_tsn_ack s = cumulative_tsn a" "cumulative_tsn a' = cumulative_tsn a" "control_send_queue a' = control_send_queue a" "ctrl_queue_cnt a' = ctrl_queue_cnt a"
    "net_ref_count a' = net_ref_count a"
  using assms by (auto simp: fill_sack_def Let_def split: bind_splits if_splits)

section \<open>Books\<close>

definition held :: "nat \<Rightarrow> tmit_chunk list \<Rightarrow> int" where
  "held n q = int (length (filter (\<lambda>c. whoTo c = Some n) q))"

definition queued :: "u8 \<Rightarrow> tmit_chunk list \<Rightarrow> nat" where
  "queued t q = length (filter (\<lambda>c. chunk_id c = t) q)"

text \<open>The counters move with the queue, and no chunk type is queued once more.\<close>

definition books :: "'a sack_asoc_scheme \<Rightarrow> 'a sack_asoc_scheme \<Rightarrow> bool" where
  "books a a' \<longleftrightarrow> ctrl_queue_cnt a' - int (length (control_send_queue a')) = ctrl_queue_cnt a - int (length (control_send_queue a)) \<and>
     (\<forall>n. net_ref_count a' n - held n (control_send_queue a') = net_ref_count a n - held n (control_send_queue a)) \<and>
     (\<forall>t. queued t (control_send_queue a') \<le> max 1 (queued t (control_send_queue a)))"

lemma held_simps [simp]: "held n [] = 0" "held n (c # q) = (if whoTo c = Some n then 1 else 0) + held n q" "held n (q @ q') = held n q + held n q'"
  by (simp_all add: held_def)

lemma queued_simps [simp]: "queued t [] = 0" "queued t (c # q) = (if chunk_id c = t then 1 else 0) + queued t q" "queued t (q @ q') = queued t q + queued t q'"
  by (simp_all add: queued_def)

lemma books_refl: "books a a" by (simp add: books_def)

lemma books_trans: "books a b \<Longrightarrow> books b c \<Longrightarrow> books a c"
  unfolding books_def by (metis le_trans max.bounded_iff max.cobounded1 max_def)

text \<open>Only the queue and the two counters matter.\<close>

lemma books_cong:
  assumes "control_send_queue b = control_send_queue b'" "ctrl_queue_cnt b = ctrl_queue_cnt b'" "net_ref_count b = net_ref_count b'"
  shows "books a b \<longleftrightarrow> books a b'" "books b a \<longleftrightarrow> books b' a"
  using assms by (simp_all add: books_def)

lemma queued_0: "queued t q = 0 \<longleftrightarrow> (\<forall>c \<in> set q. chunk_id c \<noteq> t)"
  by (auto simp: queued_def filter_empty_conv)

lemma take_chunk_books:
  assumes "take_chunk t a = (old, a')"
  shows "books a a'" "case old of None \<Rightarrow> queued t (control_send_queue a') = 0 | Some c \<Rightarrow> chunk_id c = t \<and> queued t (control_send_queue a') < queued t (control_send_queue a)"
  using assms
  by (auto simp: take_chunk_def books_def ref_net_def queued_0 extract_None_iff extract_Some_iff max_def split: option.splits)

lemma sack_later_simps [simp]:
  "control_send_queue (sack_later a) = control_send_queue a" "ctrl_queue_cnt (sack_later a) = ctrl_queue_cnt a" "net_ref_count (sack_later a) = net_ref_count a"
  by (simp_all add: sack_later_def recv_timer_start_def recv_timer_stop_def)

lemma sack_later_pending: "dack_pending (sack_later a) \<or> send_sack (sack_later a) = 1"
  by (simp add: sack_later_def recv_timer_start_def recv_timer_stop_def)

lemma set_rwnd_simps [simp]:
  "control_send_queue (sctp_set_rwnd a) = control_send_queue a" "ctrl_queue_cnt (sctp_set_rwnd a) = ctrl_queue_cnt a" "net_ref_count (sctp_set_rwnd a) = net_ref_count a"
  by (simp_all add: sctp_set_rwnd_def)

text \<open>A chunk for a destination that was referenced is put at the end of the queue.\<close>

lemma append_books:
  assumes "books a b" "control_send_queue b' = control_send_queue b @ [chk]" "ctrl_queue_cnt b' = ctrl_queue_cnt b + 1"
    "net_ref_count b' = net_ref_count (ref_net (whoTo chk) 1 b)"
    and "queued (chunk_id chk) (control_send_queue b) = 0 \<or> queued (chunk_id chk) (control_send_queue b) < queued (chunk_id chk) (control_send_queue a)"
  shows "books a b'"
  using assms by (auto simp: books_def ref_net_def split: option.splits)

section \<open>Sending a SACK\<close>

definition acked :: "'a sack_asoc_scheme \<Rightarrow> bool" where
  "acked a \<longleftrightarrow> (\<exists>c \<in> set (control_send_queue a). \<exists>s. chk_data c = Some (Sack_data s) \<and> cum_tsn_ack s = cumulative_tsn a)"

text \<open>Every queued SHUTDOWN holds a SHUTDOWN chunk.\<close>

definition shutdown_ok :: "tmit_chunk list \<Rightarrow> bool" where
  "shutdown_ok q \<longleftrightarrow> (\<forall>c \<in> set q. chunk_id c = SCTP_SHUTDOWN \<longrightarrow> (\<exists>s. chk_data c = Some (Shutdown_data s)))"

lemma take_chunk_queue: "take_chunk t a = (old, a') \<Longrightarrow> set (control_send_queue a') \<subseteq> set (control_send_queue a)"
  by (auto simp: take_chunk_def ref_net_def extract_Some_iff split: option.splits)

lemma send_sack_run:
  fixes a :: "'a sack_asoc_scheme"
  assumes slide: "sctp_slide_mapping_arrays a = Some m" and sl: "slid B C h R m" and same: "same_rest a m" and src: "last_data_chunk_from a = Some from"
  shows "\<exists>a'. sctp_send_sack env a = Some a' \<and> books a a' \<and> (shutdown_ok (control_send_queue a) \<longrightarrow> shutdown_ok (control_send_queue a')) \<and>
    (acked a' \<or> \<not> (chunk_available env \<and> mbuf_available env) \<and> (dack_pending a' \<or> send_sack a' = 1))"
proof -
  define type where "type = (if nrsack_supported a = 1 then SCTP_NR_SELECTIVE_ACK else SCTP_SELECTIVE_ACK)"
  have type: "type \<in> {SCTP_SELECTIVE_ACK, SCTP_NR_SELECTIVE_ACK}" "type \<noteq> SCTP_SHUTDOWN"
    by (simp_all add: type_def SCTP_SHUTDOWN_def SCTP_SELECTIVE_ACK_def SCTP_NR_SELECTIVE_ACK_def)
  obtain old a1 where tk: "take_chunk type (sctp_set_rwnd m) = (old, a1)" by (cases "take_chunk type (sctp_set_rwnd m)")
  have b1: "books a a1" using take_chunk_books(1) [OF tk] same_rest_more(3-5) [OF same] by (subst books_cong(2) [of a "sctp_set_rwnd m"]) auto
  have q1: "set (control_send_queue a1) \<subseteq> set (control_send_queue a)" using take_chunk_queue [OF tk] same_rest_more(3) [OF same] by simp
  define to where "to = sack_destination env from (a1\<lparr>data_pkts_seen := 0\<rparr>)"
  define a3 where "a3 = ref_net (Some to) 1 (a1\<lparr>data_pkts_seen := 0\<rparr>)"
  note run = send_sack_unfold [OF src slide type_def tk to_def a3_def]
  have id: "chunk_id (sack_tmit type old to) = type" using take_chunk_books(2) [OF tk] by (auto simp: sack_tmit_def fresh_chunk_def split: option.splits)
  consider "old = None \<and> \<not> chunk_available env" | "\<not> (old = None \<and> \<not> chunk_available env)" "\<not> mbuf_available env"
    | "\<not> (old = None \<and> \<not> chunk_available env)" "mbuf_available env" by blast
  then show ?thesis
  proof cases
    case 1
    with run b1 q1 sack_later_pending [of a1] books_cong(1) [of "sack_later a1" a1 a] show ?thesis by (auto simp: shutdown_ok_def)
  next
    case 2
    let ?a = "ref_net (Some to) (- 1) a3"
    have e: "control_send_queue ?a = control_send_queue a1" "ctrl_queue_cnt ?a = ctrl_queue_cnt a1" "net_ref_count ?a = net_ref_count a1"
      by (simp_all add: a3_def ref_net_def)
    then have "books a (sack_later ?a)" using b1 books_cong(1) [of "sack_later ?a" a1 a] by simp
    with 2 run e q1 sack_later_pending [of ?a] show ?thesis by (auto simp: sctp_get_mbuf_for_msg_def shutdown_ok_def)
  next
    case 3
    have "slid B C h R a3" using sl same_rcv_blocks(2) [OF filled_state(1) [OF tk]] unfolding a3_def by blast
    from fill_sack_total [OF this type(1)] obtain s sz a4 where
      f: "fill_sack env type to ((if sack_highest a3 = cumulative_tsn a3 then MLEN else MCLBYTES) - SCTP_MIN_OVERHEAD) a3 = Some (s, sz, a4)" by blast
    note fr = fill_sack_frame [OF f]
    let ?chk = "(sack_tmit type old to)\<lparr>chk_data := Some (Sack_data s), send_size := sz\<rparr>"
    let ?a = "a4\<lparr>control_send_queue := control_send_queue a4 @ [?chk], my_last_reported_rwnd := my_rwnd a4, ctrl_queue_cnt := ctrl_queue_cnt a4 + 1, send_sack := 0\<rparr>"
    have r: "sctp_send_sack env a = Some ?a" using run 3 f by (simp add: mbuf_for_sack)
    have "books a ?a"
    proof (rule append_books [OF b1, of _ ?chk])
      show "queued (chunk_id ?chk) (control_send_queue a1) = 0 \<or> queued (chunk_id ?chk) (control_send_queue a1) < queued (chunk_id ?chk) (control_send_queue a)"
        using take_chunk_books(2) [OF tk] same_rest_more(3) [OF same] id by (auto split: option.splits)
    qed (simp_all add: fr a3_def ref_net_def)
    moreover have "acked ?a" using fr by (auto simp: acked_def)
    moreover have "shutdown_ok (control_send_queue ?a)" if "shutdown_ok (control_send_queue a)"
      using that q1 type(2) id by (auto simp: shutdown_ok_def fr a3_def ref_net_def)
    ultimately show ?thesis using r by auto
  qed
qed

lemma send_sack_inv:
  fixes a :: "'a sack_asoc_scheme"
  assumes "tsn_inv C R a" "recent a" "shutdown_ok (control_send_queue a)"
  shows "\<exists>a'. sctp_send_sack env a = Some a' \<and> books a a' \<and> shutdown_ok (control_send_queue a') \<and>
    (last_data_chunk_from a = None \<or> acked a' \<or> \<not> (chunk_available env \<and> mbuf_available env) \<and> (dack_pending a' \<or> send_sack a' = 1))"
proof (cases "last_data_chunk_from a")
  case None
  then show ?thesis using books_refl assms(3) by (auto simp: sctp_send_sack_def Let_def)
next
  case (Some src)
  from slide_slid [OF assms(1,2)] obtain m B C' h where m: "sctp_slide_mapping_arrays a = Some m" "slid B C' h R m" "same_rest a m" by blast
  from send_sack_run [OF m Some, of env] assms(3) show ?thesis by auto
qed

section \<open>The decision\<close>

text \<open>A state that differs only in what is not about the received TSNs.\<close>

lemma same_rcv_inv:
  assumes "rcv_asoc.truncate a' = rcv_asoc.truncate a"
  shows "tsn_inv C R a' \<longleftrightarrow> tsn_inv C R a" "recent a' \<longleftrightarrow> recent a"
  using assms by (simp_all add: rcv_asoc.truncate_def tsn_inv_def tsn_rel_def arrays_ok_def marks_ok_def dups_ok_def got_def recent_def)

lemma truncate_upd [simp]:
  "rcv_asoc.truncate (a\<lparr>control_send_queue := q\<rparr>) = rcv_asoc.truncate a" "rcv_asoc.truncate (a\<lparr>ctrl_queue_cnt := n\<rparr>) = rcv_asoc.truncate a"
  "rcv_asoc.truncate (a\<lparr>cmt_dac_pkts_rcvd := k\<rparr>) = rcv_asoc.truncate a" "rcv_asoc.truncate (recv_timer_stop a) = rcv_asoc.truncate a"
  for a :: "'a sack_asoc_scheme"
  by (simp_all add: rcv_asoc.truncate_def recv_timer_stop_def)

lemma send_shutdown_inv:
  assumes "shutdown_ok (control_send_queue a)"
  shows "\<exists>a'. sctp_send_shutdown env net a = Some a' \<and> books a a' \<and> shutdown_ok (control_send_queue a') \<and> rcv_asoc.truncate a' = rcv_asoc.truncate a"
proof (cases "List.extract (\<lambda>c. chunk_id c = SCTP_SHUTDOWN) (control_send_queue a)")
  case None
  have q: "queued SCTP_SHUTDOWN (control_send_queue a) = 0" using None by (auto simp: queued_0 extract_None_iff)
  let ?chk = "(fresh_chunk SCTP_SHUTDOWN)\<lparr>send_size := word_of_nat sizeof_shutdown_chunk, whoTo := net,
    chk_data := Some (Shutdown_data \<lparr>shutdown_cum_tsn = cumulative_tsn a\<rparr>)\<rparr>"
  let ?b = "ref_net net 1 a"
  let ?a = "?b\<lparr>control_send_queue := control_send_queue ?b @ [?chk], ctrl_queue_cnt := ctrl_queue_cnt ?b + 1\<rparr>"
  have e: "control_send_queue ?b = control_send_queue a" "ctrl_queue_cnt ?b = ctrl_queue_cnt a" by (auto simp: ref_net_def split: option.split)
  have "books a ?a" using q e by (intro append_books [OF books_refl, of _ _ ?chk]) (auto simp: fresh_chunk_def)
  moreover have "shutdown_ok (control_send_queue ?a)" using assms e by (auto simp: shutdown_ok_def)
  moreover have "rcv_asoc.truncate ?a = rcv_asoc.truncate a" by simp
  ultimately show ?thesis using None assms books_refl [of a] by (auto simp: sctp_send_shutdown_def Let_def)
next
  case (Some x)
  obtain before chk behind where x: "x = (before, chk, behind)" by (cases x)
  with Some have q: "control_send_queue a = before @ chk # behind" "chunk_id chk = SCTP_SHUTDOWN" by (auto simp: extract_Some_iff)
  then obtain s where s: "chk_data chk = Some (Shutdown_data s)" using assms by (auto simp: shutdown_ok_def)
  let ?b = "ref_net net 1 (ref_net (whoTo chk) (- 1) a)"
  let ?chk = "chk\<lparr>whoTo := net, chk_data := Some (Shutdown_data (s\<lparr>shutdown_cum_tsn := cumulative_tsn ?b\<rparr>))\<rparr>"
  let ?a = "?b\<lparr>control_send_queue := before @ behind @ [?chk]\<rparr>"
  have "sctp_send_shutdown env net a = Some ?a" using Some x s by (simp add: sctp_send_shutdown_def Let_def)
  moreover have "books a ?a" using q by (auto simp: books_def ref_net_def max_def split: option.splits)
  moreover have "shutdown_ok (control_send_queue ?a)" using assms q by (auto simp: shutdown_ok_def)
  moreover have "rcv_asoc.truncate ?a = rcv_asoc.truncate a" by simp
  ultimately show ?thesis by blast
qed

lemma decide_inv:
  fixes m :: "'a sack_asoc_scheme"
  assumes inv: "tsn_inv C R m" "recent m" "shutdown_ok (control_send_queue m)"
  shows "\<exists>a'. sack_decide env1 env was_a_gap m = Some a' \<and> books m a' \<and> shutdown_ok (control_send_queue a')"
proof -
  have sack: "\<exists>a'. sctp_send_sack env a = Some a' \<and> books m a' \<and> shutdown_ok (control_send_queue a')"
    if "rcv_asoc.truncate a = rcv_asoc.truncate m" "books m a" "shutdown_ok (control_send_queue a)" for a :: "'a sack_asoc_scheme"
    using send_sack_inv [of C R a env] same_rcv_inv [OF that(1)] inv(1,2) that(2,3) books_trans by blast
  have timer: "books m a \<and> control_send_queue a = control_send_queue m"
    if "a \<in> {m, recv_timer_stop m, m\<lparr>cmt_dac_pkts_rcvd := k\<rparr>, recv_timer_stop (m\<lparr>cmt_dac_pkts_rcvd := k\<rparr>), recv_timer_start (m\<lparr>cmt_dac_pkts_rcvd := k\<rparr>)}" for a k
    using that books_refl [of m] books_cong(1) [of a m m] by (auto simp: recv_timer_stop_def recv_timer_start_def)
  show ?thesis
  proof (cases "asoc_state m AND SCTP_STATE_MASK = SCTP_STATE_SHUTDOWN_SENT")
    case True
    define a where "a = (if dack_pending m then recv_timer_stop m else m)"
    have a: "books m a" "control_send_queue a = control_send_queue m" "rcv_asoc.truncate a = rcv_asoc.truncate m" using timer [of a] by (auto simp: a_def)
    from send_shutdown_inv [of a env1 "case alternate a of Some n \<Rightarrow> Some n | None \<Rightarrow> primary_destination a"] a(2) inv(3) obtain a2 where
      a2: "sctp_send_shutdown env1 (case alternate a of Some n \<Rightarrow> Some n | None \<Rightarrow> primary_destination a) a = Some a2" "books a a2"
      "shutdown_ok (control_send_queue a2)" "rcv_asoc.truncate a2 = rcv_asoc.truncate a" by auto
    have "sack_decide env1 env was_a_gap m = (if SCTP_TSN_GT (highest_of m) (cumulative_tsn m) then sctp_send_sack env a2 else Some a2)"
      using True a2(1) unfolding sack_decide_def Let_def a_def [symmetric] by simp
    moreover have "books m a2" using books_trans [OF a(1) a2(2)] .
    ultimately show ?thesis using sack [of a2] a2(3,4) a(3) by auto
  next
    case False
    let ?a = "m\<lparr>cmt_dac_pkts_rcvd := cmt_dac_pkts_rcvd m + 1\<rparr>"
    have "sack_decide env1 env was_a_gap m \<in> {Some (recv_timer_start ?a), sctp_send_sack env (recv_timer_stop ?a), Some ?a}"
      using False by (simp only: sack_decide_def Let_def if_False) simp
    then consider "sack_decide env1 env was_a_gap m = Some (recv_timer_start ?a)" | "sack_decide env1 env was_a_gap m = sctp_send_sack env (recv_timer_stop ?a)"
      | "sack_decide env1 env was_a_gap m = Some ?a" by blast
    then show ?thesis
    proof cases
      case 1
      with timer [of "recv_timer_start ?a" "cmt_dac_pkts_rcvd m + 1"] inv(3) show ?thesis by simp
    next
      case 2
      with sack [of "recv_timer_stop ?a"] timer [of "recv_timer_stop ?a" "cmt_dac_pkts_rcvd m + 1"] inv(3) show ?thesis by simp
    next
      case 3
      with timer [of ?a "cmt_dac_pkts_rcvd m + 1"] inv(3) show ?thesis by simp
    qed
  qed
qed

text \<open>The acknowledgement is queued, or the timer runs, or it is noted for the next time; with a gap or a duplicate it is queued.\<close>

lemma decide_acknowledges:
  fixes m :: "'a sack_asoc_scheme"
  assumes inv: "tsn_inv C R m" "recent m" "shutdown_ok (control_send_queue m)" and src: "last_data_chunk_from m \<noteq> None"
    and open_state: "asoc_state m AND SCTP_STATE_MASK \<noteq> SCTP_STATE_SHUTDOWN_SENT" and dec: "sack_decide env1 env was_a_gap m = Some a'"
  shows "acked a' \<or> dack_pending a' \<or> send_sack a' = 1"
    "(send_sack m = 1 \<or> numduptsns m \<noteq> 0 \<or> SCTP_TSN_GT (highest_of m) (cumulative_tsn m)) \<and> sctp_cmt_on_off m = 0 \<and> chunk_available env \<and> mbuf_available env \<Longrightarrow>
     acked a'"
proof -
  let ?a = "m\<lparr>cmt_dac_pkts_rcvd := cmt_dac_pkts_rcvd m + 1\<rparr>"
  have t: "rcv_asoc.truncate (recv_timer_stop ?a) = rcv_asoc.truncate m" by simp
  have q: "control_send_queue (recv_timer_stop ?a) = control_send_queue m" "last_data_chunk_from (recv_timer_stop ?a) = last_data_chunk_from m"
    by (simp_all add: recv_timer_stop_def)
  have sack: "acked a' \<or> \<not> (chunk_available env \<and> mbuf_available env) \<and> (dack_pending a' \<or> send_sack a' = 1)" if "sctp_send_sack env (recv_timer_stop ?a) = Some a'"
    using send_sack_inv [of C R "recv_timer_stop ?a" env] same_rcv_inv [OF t] inv src q that by auto
  show "acked a' \<or> dack_pending a' \<or> send_sack a' = 1"
    using dec open_state sack unfolding sack_decide_def Let_def by (auto simp: recv_timer_start_def split: if_splits)
  show "acked a'" if "(send_sack m = 1 \<or> numduptsns m \<noteq> 0 \<or> SCTP_TSN_GT (highest_of m) (cumulative_tsn m)) \<and> sctp_cmt_on_off m = 0 \<and> chunk_available env \<and> mbuf_available env"
  proof -
    have "sctp_send_sack env (recv_timer_stop ?a) = Some a'" using dec open_state that unfolding sack_decide_def Let_def by auto
    with sack that show ?thesis by auto
  qed
qed

lemma check_inv:
  fixes a :: "'a sack_asoc_scheme"
  assumes run: "tsn_run C R a" "recent a" and slide: "sctp_slide_mapping_arrays a = Some m"
  shows "\<exists>C'. tsn_inv C' R m" "same_rest a m" "sctp_sack_check env1 env was_a_gap a = sack_decide env1 env was_a_gap m"
proof -
  from slide_inv [OF run_inv [OF run(1)] run(2)] slide show "\<exists>C'. tsn_inv C' R m" by auto
  from slide_slid [OF run_inv [OF run(1)] run(2)] slide show "same_rest a m" by auto
  show "sctp_sack_check env1 env was_a_gap a = sack_decide env1 env was_a_gap m" using slide by (simp add: sctp_sack_check_def)
qed

section \<open>Properties\<close>

text \<open>
  C28: The check after every packet ends with a queue whose books are right, whatever allocation fails and whatever is sent: the counter of the
  control queue and the reference counts of the destinations change by exactly what was added to or taken from the queue, and no
  type of chunk that was queued at most once is queued twice.
\<close>

theorem sack_check_keeps_books:
  fixes a :: "'a sack_asoc_scheme"
  assumes "tsn_run C R a" "recent a" "sctp_slide_mapping_arrays a = Some m" "recent m" "shutdown_ok (control_send_queue a)"
  shows "\<exists>a'. sctp_sack_check env1 env was_a_gap a = Some a' \<and> books a a' \<and> shutdown_ok (control_send_queue a')"
proof -
  note ci = check_inv [OF assms(1-3)]
  obtain C' where inv: "tsn_inv C' R m" using ci(1) by blast
  note same = same_rest_more [OF ci(2)]
  have "shutdown_ok (control_send_queue m)" using assms(5) same(3) by simp
  from decide_inv [OF inv assms(4) this, of env1 env was_a_gap] ci(3) [of env1 env was_a_gap] same(3-5) show ?thesis
    using books_cong(2) [of m a] by auto
qed

theorem sack_check_keeps_books_witness:
  "\<exists>a'. sctp_sack_check demo_env demo_env False (demo_gap 1000) = Some a' \<and> books (demo_gap 1000) a'"
proof -
  have run: "tsn_run (1000 - 1) (insert (1000 + 2) {..<1000}) (demo_gap 1000)" using demo_gap_run [of 1000] by simp
  have "shutdown_ok (control_send_queue (demo_gap 1000))" by (simp add: shutdown_ok_def)
  from sack_check_keeps_books [OF run demo_gap_recent demo_gap_slide demo_gap_recent this, of demo_env demo_env False] show ?thesis by auto
qed

text \<open>
  C27: Received data is not forgotten in any state of an association but SHUTDOWN-SENT, in which the check answers with a SHUTDOWN chunk instead: after the check an acknowledgement with the cumulative TSN is queued, or the delayed acknowledgement
  timer is running, or the flag is set that makes the next check send one. When there is a gap or a duplicate, it is queued at
  once if there is memory for it, unless multipath transfer delays it.
\<close>

theorem data_is_acknowledged:
  fixes a :: "'a sack_asoc_scheme"
  assumes "tsn_run C R a" "recent a" "sctp_slide_mapping_arrays a = Some m" "recent m" "shutdown_ok (control_send_queue a)"
    and "last_data_chunk_from a \<noteq> None" "asoc_state m AND SCTP_STATE_MASK \<noteq> SCTP_STATE_SHUTDOWN_SENT"
  shows "\<exists>a'. sctp_sack_check env1 env was_a_gap a = Some a' \<and> (acked a' \<or> dack_pending a' \<or> send_sack a' = 1) \<and>
    ((send_sack m = 1 \<or> numduptsns m \<noteq> 0 \<or> SCTP_TSN_GT (highest_of m) (cumulative_tsn m)) \<and> sctp_cmt_on_off m = 0 \<and>
      chunk_available env \<and> mbuf_available env \<longrightarrow> acked a')"
proof -
  note ci = check_inv [OF assms(1-3)]
  obtain C' where inv: "tsn_inv C' R m" using ci(1) by blast
  note same = same_rest_more [OF ci(2)]
  have ok: "shutdown_ok (control_send_queue m)" and src: "last_data_chunk_from m \<noteq> None" using assms(5,6) same(2,3) by simp_all
  from decide_inv [OF inv assms(4) ok, of env1 env was_a_gap] obtain a' where "sack_decide env1 env was_a_gap m = Some a'" by blast
  with decide_acknowledges [OF inv assms(4) ok src assms(7) this] ci(3) [of env1 env was_a_gap] show ?thesis by auto
qed

theorem data_is_acknowledged_witness:
  "\<exists>a'. sctp_sack_check demo_env demo_env False (demo_gap 1000) = Some a' \<and> acked a'"
proof -
  have run: "tsn_run (1000 - 1) (insert (1000 + 2) {..<1000}) (demo_gap 1000)" using demo_gap_run [of 1000] by simp
  have "shutdown_ok (control_send_queue (demo_gap 1000))" "last_data_chunk_from (demo_gap 1000) \<noteq> None" by (simp_all add: shutdown_ok_def)
  moreover have "asoc_state (demo_gap 1000) AND SCTP_STATE_MASK \<noteq> SCTP_STATE_SHUTDOWN_SENT" "sctp_cmt_on_off (demo_gap 1000) = 0"
    by (simp_all add: demo_gap_def process_init_tsn_def init_mapping_arrays_def demo_sack_def SCTP_STATE_MASK_def SCTP_STATE_SHUTDOWN_SENT_def)
  moreover have "SCTP_TSN_GT (highest_of (demo_gap 1000)) (cumulative_tsn (demo_gap 1000))" by (simp add: SCTP_UINT32_GT_iff)
  ultimately show ?thesis using data_is_acknowledged [OF run demo_gap_recent demo_gap_slide demo_gap_recent, of demo_env demo_env False] by auto
qed

end
