(* ===== verification/Snd_State.thy ===== *)
theory Snd_State
  imports Cc_Modules Tsn_Map Mbuf_Access
begin

text \<open>
  The sending side of an association, as far as the acknowledgements of the peer change it
  (netinet/sctp_structs.h, the macros of netinet/sctp_var.h and netinet/sctputil.h, and the estimation
  of the retransmission timeout in netinet/sctputil.c).

  An association is split in two records: \<open>asoc_cc\<close> holds what congestion control works on (theory
  \<open>Cc_State\<close>) and the record here the rest. In the same way a destination is an element of
  \<open>nets (asoc_cc a)\<close> and the element of \<open>dests a\<close> at the same position; a pointer to it is that position.
  A chunk is an element of the sent queue; a pointer to it is its position, the NULL pointer is
  \<open>None\<close>. Following a NULL or dangling pointer gives the result \<open>None\<close>, as does an index
  outside \<^verbatim>\<open>strmout\<close>. Logging is left out. Of the data of a chunk only its presence matters.
\<close>

section \<open>State\<close>

record dest =
  lastsv :: u32
  net_ack2 :: u32
  this_sack_highest_newack :: u32
  pseudo_cumack :: u32
  rtx_pseudo_cumack :: u32
  saw_newack :: u8
  find_pseudo_cumack :: u8
  find_rtx_pseudo_cumack :: u8
  RTO_measured :: u8
  rto_needed :: u8
  cwr_window_tsn :: u32
  will_exit_fast_recovery :: u8
  dest_state :: u16
  error_count :: u16
  last_active :: u32
  dest_window_probe :: u8
  rxt_pending :: bool
  has_route :: bool
  src_addr :: bool
  src_addr_selected :: u8
  failure_threshold :: u16
  pf_threshold :: u16
  last_sent_sec :: int

record data_chunk =
  tsn :: u32
  sid :: u16
  chk_sent :: int
  chk_snd_count :: u16
  chk_send_size :: u16
  book_size :: u16
  chk_whoTo :: "nat option"
  chunk_was_revoked :: u8
  do_rtt :: u8
  sent_rcv_time :: "int \<times> int"
  chk_window_probe :: u8
  has_data :: bool
  mid :: u32
  pr_flags :: u16
  rcv_flags :: u8
  timetodrop :: "int \<times> int"
  doing_fast_retransmit :: u8
  fast_retran_tsn :: u32
  fwd_tsn_cnt :: u8
  no_fr_allowed :: u8

text \<open>A message, or the rest of one, that waits in a stream; of its data again only the presence and the length matter.\<close>

record stream_pending =
  sinfo_flags :: u16
  sp_sid :: u16
  act_flags :: u16
  sp_has_data :: bool
  sp_net :: "nat option"
  sp_length :: u32
  some_taken :: u8
  discard_rest :: u8

record out_stream =
  chunks_on_queues :: u32
  strm_state :: u8
  outqueue :: "stream_pending list"
  next_mid_ordered :: u32
  next_mid_unordered :: u32

text \<open>A control chunk that waits to be sent: its type, its state and its destination.\<close>

record control_chunk =
  ctl_id :: u8
  ctl_sent :: int
  ctl_whoTo :: "nat option"

text \<open>
  What the handlers ask of other parts: timers, notifications and wake-ups of the user, and control chunks. Numbers name destinations; \<open>Timer_restart\<close>
  has the time in milliseconds, \<open>Abort_association\<close> the error cause.
\<close>

datatype snd_event =
    Send_timer_stop nat
  | Send_timer_start nat
  | Timer_restart nat u32
  | Heartbeat_restart nat
  | Interface_up nat
  | Interface_down nat
  | Heartbeat_sent nat
  | Sender_dry
  | Unknown_chunk
  | Alternate_released nat
  | Datagram_failed bool u32
  | Socket_wakeup
  | Send_callback u32
  | Abort_association u16
  | Shutdown_sent "nat option"
  | Shutdown_ack_sent "nat option"
  | Timers_stopped_for_shutdown
  | Forward_tsn_sent
  | Stat_currestab_decreased
  | Stat_sendmultfastretrans

text \<open>\<open>so_snd_cc\<close> is the fill of the send buffer of the socket, \<open>None\<close> when there is no socket.\<close>

record snd_asoc =
  asoc_cc :: cc_asoc
  snd_module :: cc_module
  dests :: "dest list"
  sent_queue :: "data_chunk list"
  strmout :: "out_stream list"
  sent_queue_retran_cnt :: u32
  total_flight :: u32
  total_flight_count :: u32
  this_sack_highest_gap :: u32
  trigger_reset :: u8
  chunks_on_out_queue :: u32
  total_output_queue_size :: u32
  so_snd_cc :: "u32 option"
  ep_flags :: u32
  sat_network :: u8
  sat_network_lockout :: u8
  minrto :: u32
  maxrto :: u32
  initial_rto :: u32
  snd_queue :: "data_chunk list"
  send_queue_cnt :: u32
  sent_queue_cnt :: u32
  sent_queue_cnt_removeable :: u32
  pr_sctp_cnt :: u32
  prsctp_supported :: u8
  idata_supported :: u8
  last_acked_seq :: u32
  advanced_peer_ack_point :: u32
  stream_queue_cnt :: u32
  saw_sack_with_frags :: u8
  saw_sack_with_nr_frags :: u8
  overall_error_count :: u32
  snd_state :: u32
  snd_alternate :: "nat option"
  snd_primary :: "nat option"
  sat_t3_loss_recovery :: u8
  sat_t3_recovery_tsn :: u32
  sctp_sws_sender :: u32
  recv_callback :: bool
  send_callback :: bool
  send_sb_threshold :: u32
  snd_hiwat :: u32
  sb_send_resv :: u32
  sctp_cmt_pf :: u8
  hb_random_values :: bytes
  hb_random_idx :: u8
  hb_ect_randombit :: u8
  random_used :: nat
  max_send_times :: u16
  ctl_queue :: "control_chunk list"
  snd_events :: "snd_event list"

text \<open>
  What the handlers find around them: the clock and the tunables of congestion control, other tunables, whether a chunk can be
  allocated, the answer of the stream scheduler, and the numbers that \<^verbatim>\<open>sctp_select_initial_TSN\<close> gives.
\<close>

record snd_env =
  env_cc :: cc_env
  sctp_peer_chunk_oh :: u32
  sctp_max_chunks_on_queue :: u32
  cmt_use_dac :: u32
  chunk_alloc :: bool
  user_msgs_incomplete :: bool
  diag_info_code :: u16
  initial_tsns :: "nat \<Rightarrow> u32"

definition snd_emit :: "snd_event list \<Rightarrow> snd_asoc \<Rightarrow> snd_asoc" where
  "snd_emit es a = a\<lparr>snd_events := snd_events a @ es\<rparr>"

definition SCTP_DATAGRAM_SENT :: int where "SCTP_DATAGRAM_SENT = 1"
definition SCTP_DATAGRAM_RESEND :: int where "SCTP_DATAGRAM_RESEND = 4"
definition SCTP_DATAGRAM_ACKED :: int where "SCTP_DATAGRAM_ACKED = 10010"
definition SCTP_DATAGRAM_MARKED :: int where "SCTP_DATAGRAM_MARKED = 20010"
definition SCTP_FORWARD_TSN_SKIP :: int where "SCTP_FORWARD_TSN_SKIP = 30010"
definition SCTP_DATAGRAM_NR_ACKED :: int where "SCTP_DATAGRAM_NR_ACKED = 40010"

definition SCTP_STREAM_RESET_PENDING :: u8 where "SCTP_STREAM_RESET_PENDING = 3"
definition SCTP_PCB_FLAGS_TCPTYPE :: u32 where "SCTP_PCB_FLAGS_TCPTYPE = 0x00000002"
definition SCTP_PCB_FLAGS_IN_TCPPOOL :: u32 where "SCTP_PCB_FLAGS_IN_TCPPOOL = 0x00400000"

lemmas datagram_states = SCTP_DATAGRAM_UNSENT_def SCTP_DATAGRAM_SENT_def SCTP_DATAGRAM_RESEND_def
  SCTP_DATAGRAM_ACKED_def SCTP_DATAGRAM_MARKED_def SCTP_FORWARD_TSN_SKIP_def SCTP_DATAGRAM_NR_ACKED_def

section \<open>Pointers\<close>

definition net_at :: "nat option \<Rightarrow> snd_asoc \<Rightarrow> (sctp_nets \<times> dest) option" where
  "net_at p a =
     (case p of None \<Rightarrow> None
      | Some k \<Rightarrow> if k < length (nets (asoc_cc a)) \<and> k < length (dests a)
                  then Some (nets (asoc_cc a) ! k, dests a ! k) else None)"

definition put_net :: "nat option \<Rightarrow> sctp_nets \<Rightarrow> dest \<Rightarrow> snd_asoc \<Rightarrow> snd_asoc" where
  "put_net p n d a =
     (case p of None \<Rightarrow> a
      | Some k \<Rightarrow> a\<lparr>asoc_cc := (asoc_cc a)\<lparr>nets := (nets (asoc_cc a))[k := n]\<rparr>, dests := (dests a)[k := d]\<rparr>)"

definition chunk_at :: "nat \<Rightarrow> snd_asoc \<Rightarrow> data_chunk option" where
  "chunk_at k a = (if k < length (sent_queue a) then Some (sent_queue a ! k) else None)"

definition put_chunk :: "nat \<Rightarrow> data_chunk \<Rightarrow> snd_asoc \<Rightarrow> snd_asoc" where
  "put_chunk k c a = a\<lparr>sent_queue := (sent_queue a)[k := c]\<rparr>"

text \<open>\<^verbatim>\<open>TAILQ_FIRST\<close> and \<^verbatim>\<open>TAILQ_NEXT\<close> of the sent queue.\<close>

definition first_chunk :: "snd_asoc \<Rightarrow> nat option" where
  "first_chunk a = (if sent_queue a = [] then None else Some 0)"

definition next_chunk :: "nat \<Rightarrow> snd_asoc \<Rightarrow> nat option" where
  "next_chunk k a = (if Suc k < length (sent_queue a) then Some (Suc k) else None)"

definition stream_at :: "u16 \<Rightarrow> snd_asoc \<Rightarrow> out_stream option" where
  "stream_at s a = (if unat s < length (strmout a) then Some (strmout a ! unat s) else None)"

section \<open>Accounting macros\<close>

definition sctp_ucount_incr :: "u32 \<Rightarrow> u32" where "sctp_ucount_incr val = val + 1"

definition sctp_ucount_decr :: "u32 \<Rightarrow> u32" where "sctp_ucount_decr val = (if val > 0 then val - 1 else 0)"

definition sctp_flight_size_decrease :: "data_chunk \<Rightarrow> sctp_nets \<Rightarrow> sctp_nets" where
  "sctp_flight_size_decrease c n =
     (if flight_size n \<ge> ucast (book_size c) then n\<lparr>flight_size := flight_size n - ucast (book_size c)\<rparr>
      else n\<lparr>flight_size := 0\<rparr>)"

definition sctp_flight_size_increase :: "data_chunk \<Rightarrow> sctp_nets \<Rightarrow> sctp_nets" where
  "sctp_flight_size_increase c n = n\<lparr>flight_size := flight_size n + ucast (book_size c)\<rparr>"

text \<open>The macro also clears \<^verbatim>\<open>tp1->window_probe\<close>; the callers do that on the chunk they hold.\<close>

definition sctp_total_flight_decrease :: "data_chunk \<Rightarrow> snd_asoc \<Rightarrow> snd_asoc" where
  "sctp_total_flight_decrease c a =
     (if total_flight a \<ge> ucast (book_size c)
      then a\<lparr>total_flight := total_flight a - ucast (book_size c),
             total_flight_count := (if total_flight_count a > 0 then total_flight_count a - 1 else total_flight_count a)\<rparr>
      else a\<lparr>total_flight := 0, total_flight_count := 0\<rparr>)"

definition sctp_total_flight_increase :: "data_chunk \<Rightarrow> snd_asoc \<Rightarrow> snd_asoc" where
  "sctp_total_flight_increase c a =
     a\<lparr>total_flight_count := total_flight_count a + 1, total_flight := total_flight a + ucast (book_size c)\<rparr>"

definition sctp_free_bufspace :: "data_chunk \<Rightarrow> u32 \<Rightarrow> snd_asoc \<Rightarrow> snd_asoc" where
  "sctp_free_bufspace c chk_cnt a =
     (if has_data c
      then let a = a\<lparr>chunks_on_out_queue := chunks_on_out_queue a - chk_cnt\<rparr>;
               a = (if total_output_queue_size a \<ge> ucast (book_size c)
                    then a\<lparr>total_output_queue_size := total_output_queue_size a - ucast (book_size c)\<rparr>
                    else a\<lparr>total_output_queue_size := 0\<rparr>)
           in (case so_snd_cc a of None \<Rightarrow> a
               | Some cc \<Rightarrow>
                   if ep_flags a AND SCTP_PCB_FLAGS_TCPTYPE \<noteq> 0 \<or> ep_flags a AND SCTP_PCB_FLAGS_IN_TCPPOOL \<noteq> 0
                   then a\<lparr>so_snd_cc := Some (if cc \<ge> ucast (book_size c) then cc - ucast (book_size c) else 0)\<rparr>
                   else a)
      else a)"

section \<open>The retransmission timeout\<close>

definition sctp_align_safe_nocopy :: int where "sctp_align_safe_nocopy = 0"
definition sctp_align_unsafe_makecopy :: int where "sctp_align_unsafe_makecopy = 1"
definition SCTP_RTT_FROM_DATA :: int where "SCTP_RTT_FROM_DATA = 1"
definition SCTP_LOCAL_LAN_RTT :: u64 where "SCTP_LOCAL_LAN_RTT = 900"
definition SCTP_LAN_UNKNOWN :: u8 where "SCTP_LAN_UNKNOWN = 0"
definition SCTP_LAN_INTERNET :: u8 where "SCTP_LAN_INTERNET = 2"
definition SCTP_CLOCK_GRANULARITY :: u32 where "SCTP_CLOCK_GRANULARITY = 10"
definition SCTP_SAT_NETWORK_MIN :: u32 where "SCTP_SAT_NETWORK_MIN = 400"

text \<open>The round trip time since \<open>told\<close>, kept in microseconds; the two clocks are the same one in user space.\<close>

definition rtt_measure :: "cc_module \<Rightarrow> int \<times> int \<Rightarrow> int \<times> int \<Rightarrow> int \<Rightarrow> sctp_nets \<Rightarrow> u32 \<times> sctp_nets" where
  "rtt_measure md now told rtt_from_sack n =
     (let now = timevalsub now told;
          n = n\<lparr>rtt := 1000000 * word_of_int (fst now) + word_of_int (snd now)\<rparr>;
          ms = ucast (rtt n div 1000);
          n = (if rtt_from_sack = SCTP_RTT_FROM_DATA then cc_rtt_calculated md n else n);
          n = (if rtt_from_sack = SCTP_RTT_FROM_DATA \<and> lan_type n = SCTP_LAN_UNKNOWN
               then n\<lparr>lan_type := (if rtt n > SCTP_LOCAL_LAN_RTT then SCTP_LAN_INTERNET else SCTP_LAN_LOCAL)\<rparr> else n)
      in (ms, n))"

text \<open>Half of a signed integer, rounded towards zero.\<close>

definition half_int :: "u32 \<Rightarrow> u32" where
  "half_int w = (if sint w < 0 then - ((- w) div 2) else w div 2)"

text \<open>The scaled average and the scaled variance; the flag says that this was the first measurement.\<close>

definition rtt_smooth :: "u32 \<Rightarrow> sctp_nets \<Rightarrow> dest \<Rightarrow> bool \<times> sctp_nets \<times> dest" where
  "rtt_smooth ms n d =
     (if RTO_measured d \<noteq> 0
      then let ms = ms - signed_drop_bit 3 (lastsa n);
               n = n\<lparr>lastsa := lastsa n + ms\<rparr>;
               ms = (if sint ms < 0 then - ms else ms);
               ms = ms - signed_drop_bit 2 (lastsv d)
           in (False, n, d\<lparr>lastsv := lastsv d + ms\<rparr>)
      else (True, n\<lparr>lastsa := push_bit 3 ms\<rparr>, d\<lparr>RTO_measured := 1, lastsv := push_bit 2 (half_int ms)\<rparr>))"

definition rto_bound :: "snd_asoc \<Rightarrow> u32 \<Rightarrow> u32" where
  "rto_bound a r =
     (let r = (if r < minrto a then minrto a else r)
      in if r > maxrto a then maxrto a else r)"

definition sat_detect :: "bool \<Rightarrow> u32 \<Rightarrow> snd_asoc \<Rightarrow> snd_asoc" where
  "sat_detect first_measure new_rto a =
     (if new_rto > SCTP_SAT_NETWORK_MIN \<and> sat_network_lockout a = 0 then a\<lparr>sat_network := 1\<rparr>
      else if \<not> first_measure \<and> sat_network a \<noteq> 0 then a\<lparr>sat_network := 0, sat_network_lockout := 1\<rparr>
      else a)"

definition sctp_calculate_rto :: "int \<times> int \<Rightarrow> int \<times> int \<Rightarrow> int \<Rightarrow> int \<Rightarrow> sctp_nets \<Rightarrow> dest \<Rightarrow> snd_asoc \<Rightarrow>
    u32 \<times> sctp_nets \<times> dest \<times> snd_asoc" where
  "sctp_calculate_rto now told safe rtt_from_sack n d a =
     (if safe \<noteq> sctp_align_unsafe_makecopy \<and> safe \<noteq> sctp_align_safe_nocopy then (0, n, d, a)
      else let (ms, n) = rtt_measure (snd_module a) now told rtt_from_sack n;
               (first_measure, n, d) = rtt_smooth ms n d;
               d = (if lastsv d = 0 then d\<lparr>lastsv := SCTP_CLOCK_GRANULARITY\<rparr> else d);
               new_rto = signed_drop_bit 3 (lastsa n) + lastsv d;
               a = sat_detect first_measure new_rto a
           in (rto_bound a new_rto, n, d, a))"

end
