(* ===== verification/Snd_Segments.thy ===== *)
theory Snd_Segments
  imports Snd_State
begin

text \<open>
  The gap acknowledgement blocks of a SACK at the sender (netinet/sctp_indata.c): marking the chunks
  they cover and taking back the acknowledgement of chunks they no longer cover.
  \<open>seg_vars\<close> holds what \<^verbatim>\<open>sctp_process_segment_range\<close> gets by reference and the number of
  chunks it freed; the count of fast retransmitted chunks, which is only logged, is left out.
\<close>

section \<open>One chunk\<close>

record seg_vars =
  biggest_newly_acked_tsn :: u32
  this_sack_lowest_newack :: u32
  rto_ok :: bool
  wake_him :: int

text \<open>The next expected pseudo-cumack of the destination, for first transmissions and for retransmissions.\<close>

definition track_pseudo :: "data_chunk \<Rightarrow> snd_asoc \<Rightarrow> snd_asoc option" where
  "track_pseudo c a =
     (if chk_sent c < SCTP_DATAGRAM_RESEND
      then do { (n, d) \<leftarrow> net_at (chk_whoTo c) a;
                let d = (if find_pseudo_cumack d = 1 \<and> chk_snd_count c = 1
                         then d\<lparr>pseudo_cumack := tsn c, find_pseudo_cumack := 0\<rparr> else d);
                let d = (if find_rtx_pseudo_cumack d = 1 \<and> chk_snd_count c > 1
                         then d\<lparr>rtx_pseudo_cumack := tsn c, find_rtx_pseudo_cumack := 0\<rparr> else d);
                Some (put_net (chk_whoTo c) n d a) }
      else Some a)"

text \<open>A measurement of the round trip time, once in a SACK.\<close>

definition seg_rto :: "int \<times> int \<Rightarrow> data_chunk \<Rightarrow> seg_vars \<Rightarrow> sctp_nets \<Rightarrow> dest \<Rightarrow> snd_asoc \<Rightarrow>
    seg_vars \<times> sctp_nets \<times> dest \<times> snd_asoc" where
  "seg_rto now c v n d a =
     (let (v, n, d, a) =
            (if rto_ok v
             then let (r, n, d, a) = sctp_calculate_rto now (sent_rcv_time c) sctp_align_safe_nocopy SCTP_RTT_FROM_DATA n d a
                  in (v\<lparr>rto_ok := False\<rparr>, n\<lparr>RTO := r\<rparr>, d, a)
             else (v, n, d, a))
      in (v, n, (if rto_needed d = 0 then d\<lparr>rto_needed := 1\<rparr> else d), a))"

definition pseudo_acked :: "data_chunk \<Rightarrow> sctp_nets \<Rightarrow> dest \<Rightarrow> sctp_nets \<times> dest" where
  "pseudo_acked c n d =
     (let (n, d) = (if tsn c = pseudo_cumack d
                    then ((if chunk_was_revoked c = 0 then n\<lparr>new_pseudo_cumack := 1\<rparr> else n), d\<lparr>find_pseudo_cumack := 1\<rparr>)
                    else (n, d))
      in if tsn c = rtx_pseudo_cumack d
         then ((if chunk_was_revoked c = 0 then n\<lparr>new_pseudo_cumack := 1\<rparr> else n), d\<lparr>find_rtx_pseudo_cumack := 1\<rparr>)
         else (n, d))"

text \<open>The destination of a chunk that leaves the flight.\<close>

definition acked_net :: "int \<times> int \<Rightarrow> data_chunk \<Rightarrow> seg_vars \<Rightarrow> sctp_nets \<Rightarrow> dest \<Rightarrow> snd_asoc \<Rightarrow>
    seg_vars \<times> sctp_nets \<times> dest \<times> snd_asoc" where
  "acked_net now c v n d a =
     (let (n, d) = pseudo_acked c n d;
          n = sctp_flight_size_decrease c n;
          n = cc_tsn_acknowledged (snd_module a) n (chk_send_size c);
          a = sctp_total_flight_decrease c a;
          n = n\<lparr>net_ack := net_ack n + ucast (chk_send_size c)\<rparr>
      in if chk_snd_count c < 2
         then let d = d\<lparr>net_ack2 := net_ack2 d + ucast (chk_send_size c)\<rparr>
              in if do_rtt c \<noteq> 0 then seg_rto now c v n d a else (v, n, d, a)
         else (v, n, d, a))"

text \<open>A chunk in flight is acknowledged for the first time.\<close>

definition newly_acked :: "int \<times> int \<Rightarrow> data_chunk \<Rightarrow> seg_vars \<Rightarrow> snd_asoc \<Rightarrow> (data_chunk \<times> seg_vars \<times> snd_asoc) option" where
  "newly_acked now c v a =
     do { (n, d) \<leftarrow> net_at (chk_whoTo c) a;
          let v = (if SCTP_TSN_GT (tsn c) (biggest_newly_acked_tsn v) then v\<lparr>biggest_newly_acked_tsn := tsn c\<rparr> else v);
          let d = (if chunk_was_revoked c = 0 then d\<lparr>saw_newack := 1\<rparr> else d);
          let d = (if SCTP_TSN_GT (tsn c) (this_sack_highest_newack d) then d\<lparr>this_sack_highest_newack := tsn c\<rparr> else d);
          let v = (if this_sack_lowest_newack v = 0 then v\<lparr>this_sack_lowest_newack := tsn c\<rparr> else v);
          let (v, n, d, a) = acked_net now c v n d a;
          Some (c\<lparr>chk_window_probe := 0, do_rtt := (if chk_snd_count c < 2 then 0 else do_rtt c)\<rparr>, v,
                put_net (chk_whoTo c) n d a) }"

text \<open>A chunk that the peer cannot revoke any more.\<close>

definition nr_acked :: "data_chunk \<Rightarrow> seg_vars \<Rightarrow> snd_asoc \<Rightarrow> (data_chunk \<times> seg_vars \<times> snd_asoc) option" where
  "nr_acked c v a =
     do { s \<leftarrow> stream_at (sid c) a;
          let s = (if chunks_on_queues s > 0 then s\<lparr>chunks_on_queues := chunks_on_queues s - 1\<rparr> else s);
          let a = a\<lparr>strmout := (strmout a)[unat (sid c) := s]\<rparr>;
          let a = (if chunks_on_queues s = 0 \<and> strm_state s = SCTP_STREAM_RESET_PENDING \<and> outqueue s = []
                   then a\<lparr>trigger_reset := 1\<rparr> else a);
          let c = c\<lparr>chk_sent := SCTP_DATAGRAM_NR_ACKED\<rparr>;
          let a = (if has_data c then sctp_free_bufspace c 1 a else a);
          Some (c\<lparr>has_data := False\<rparr>, v\<lparr>wake_him := wake_him v + 1\<rparr>, a) }"

text \<open>What is recorded for a chunk that was in flight or waited for a retransmission.\<close>

definition gap_seen :: "data_chunk \<Rightarrow> snd_asoc \<Rightarrow> snd_asoc" where
  "gap_seen c a =
     (if chk_sent c \<le> SCTP_DATAGRAM_RESEND
      then let a = (if SCTP_TSN_GT (tsn c) (this_sack_highest_gap a) then a\<lparr>this_sack_highest_gap := tsn c\<rparr> else a)
           in if chk_sent c = SCTP_DATAGRAM_RESEND
              then a\<lparr>sent_queue_retran_cnt := sctp_ucount_decr (sent_queue_retran_cnt a)\<rparr> else a
      else a)"

definition undo_revoke :: "data_chunk \<Rightarrow> snd_asoc \<Rightarrow> (data_chunk \<times> snd_asoc) option" where
  "undo_revoke c a =
     (if chunk_was_revoked c \<noteq> 0
      then do { (n, d) \<leftarrow> net_at (chk_whoTo c) a;
                Some (c\<lparr>chunk_was_revoked := 0\<rparr>, put_net (chk_whoTo c) (n\<lparr>cwnd := cwnd n - ucast (book_size c)\<rparr>) d a) }
      else Some (c, a))"

definition seg_mark :: "data_chunk \<Rightarrow> data_chunk" where
  "seg_mark c =
     (if chk_sent c \<noteq> SCTP_FORWARD_TSN_SKIP \<and> chk_sent c \<noteq> SCTP_DATAGRAM_NR_ACKED
      then c\<lparr>chk_sent := SCTP_DATAGRAM_MARKED\<rparr> else c)"

text \<open>The TSN of the chunk is the one looked for.\<close>

definition seg_hit :: "int \<times> int \<Rightarrow> bool \<Rightarrow> nat \<Rightarrow> seg_vars \<Rightarrow> snd_asoc \<Rightarrow> (seg_vars \<times> snd_asoc) option" where
  "seg_hit now nr_sacking k v a =
     do { c \<leftarrow> chunk_at k a;
          if chk_sent c = SCTP_DATAGRAM_UNSENT then Some (v, a)
          else do { (c, v, a) \<leftarrow> (if chk_sent c < SCTP_DATAGRAM_RESEND then newly_acked now c v a else Some (c, v, a));
                    let a = gap_seen c a;
                    (c, a) \<leftarrow> undo_revoke (seg_mark c) a;
                    (c, v, a) \<leftarrow> (if nr_sacking \<and> chk_sent c \<noteq> SCTP_DATAGRAM_NR_ACKED then nr_acked c v a else Some (c, v, a));
                    Some (v, put_chunk k c a) } }"

section \<open>A range\<close>

lemma net_at_keep [simp]:
  "net_at p (a\<lparr>total_flight := x\<rparr>) = net_at p a"
  "net_at p (a\<lparr>sent_queue := q\<rparr>) = net_at p a"
  by (simp_all add: net_at_def split: option.split)

lemma put_net_keep [simp]:
  "sent_queue (put_net p n d a) = sent_queue a" "strmout (put_net p n d a) = strmout a"
  "snd_module (put_net p n d a) = snd_module a" "length (dests (put_net p n d a)) = length (dests a)"
  "length (nets (asoc_cc (put_net p n d a))) = length (nets (asoc_cc a))"
  "total_flight (put_net p n d a) = total_flight a" "total_flight_count (put_net p n d a) = total_flight_count a"
  "sent_queue_retran_cnt (put_net p n d a) = sent_queue_retran_cnt a"
  by (simp_all add: put_net_def split: option.split)

lemma track_pseudo_queue: "track_pseudo c a = Some a' \<Longrightarrow> sent_queue a' = sent_queue a"
  by (auto simp: track_pseudo_def Let_def split: if_splits bind_splits)

text \<open>
  The inner loop: it goes on from the chunk the last TSN was found at, and at the end of the queue once
  again from the first chunk. It stops at the chunk with the TSN and at the first chunk beyond it.
\<close>

function (sequential) seg_walk :: "int \<times> int \<Rightarrow> bool \<Rightarrow> u32 \<Rightarrow> nat option \<Rightarrow> bool \<Rightarrow> seg_vars \<Rightarrow> snd_asoc \<Rightarrow>
    (nat option \<times> bool \<times> seg_vars \<times> snd_asoc) option" where
  "seg_walk now nr theTSN None circled v a = Some (None, circled, v, a)"
| "seg_walk now nr theTSN (Some k) circled v a =
     (case chunk_at k a of None \<Rightarrow> None
      | Some c \<Rightarrow>
          (case track_pseudo c a of None \<Rightarrow> None
           | Some b \<Rightarrow>
               if tsn c = theTSN then do { (v, b) \<leftarrow> seg_hit now nr k v b; Some (Some k, circled, v, b) }
               else if SCTP_TSN_GT (tsn c) theTSN then Some (Some k, circled, v, b)
               else if next_chunk k b = None \<and> \<not> circled then seg_walk now nr theTSN (first_chunk b) True v b
               else seg_walk now nr theTSN (next_chunk k b) circled v b))"
  by pat_completeness auto

termination
proof (relation "measure (\<lambda>(now, nr, t, p, circled, v, a).
    (if circled then 0 else Suc (length (sent_queue a))) + (case p of None \<Rightarrow> 0 | Some k \<Rightarrow> length (sent_queue a) - k))")
qed (auto simp: chunk_at_def next_chunk_def first_chunk_def track_pseudo_queue split: if_splits)

declare seg_walk.simps [simp del]

fun seg_for :: "int \<times> int \<Rightarrow> bool \<Rightarrow> u32 \<Rightarrow> nat list \<Rightarrow> nat option \<Rightarrow> bool \<Rightarrow> seg_vars \<Rightarrow> snd_asoc \<Rightarrow>
    (nat option \<times> seg_vars \<times> snd_asoc) option" where
  "seg_for now nr last_tsn [] tp1 circled v a = Some (tp1, v, a)"
| "seg_for now nr last_tsn (j # js) tp1 circled v a =
     do { (tp1, circled, v, a) \<leftarrow> seg_walk now nr (of_nat j + last_tsn) tp1 circled v a;
          if tp1 = None then seg_for now nr last_tsn js (first_chunk a) False v a
          else seg_for now nr last_tsn js tp1 circled v a }"

definition sctp_process_segment_range :: "int \<times> int \<Rightarrow> nat option \<Rightarrow> u32 \<Rightarrow> u16 \<Rightarrow> u16 \<Rightarrow> bool \<Rightarrow> seg_vars \<Rightarrow> snd_asoc \<Rightarrow>
    (nat option \<times> seg_vars \<times> snd_asoc) option" where
  "sctp_process_segment_range now p_tp1 last_tsn frag_strt frag_end nr_sacking v a =
     seg_for now nr_sacking last_tsn [unat frag_strt..<Suc (unat frag_end)]
       (case p_tp1 of None \<Rightarrow> first_chunk a | Some k \<Rightarrow> Some k) False (v\<lparr>wake_him := 0\<rparr>) a"

section \<open>All the blocks\<close>

record seg_pos =
  seg_offset :: int
  seg_tp1 :: "nat option"
  prev_frag_end :: u16
  chunk_freed :: bool
  biggest_tsn_acked :: u32

definition seg_block :: "int \<times> int \<Rightarrow> u32 \<Rightarrow> bool \<Rightarrow> u16 \<Rightarrow> u16 \<Rightarrow> seg_pos \<Rightarrow> seg_vars \<Rightarrow> snd_asoc \<Rightarrow>
    (seg_pos \<times> seg_vars \<times> snd_asoc) option" where
  "seg_block now last_tsn non_revocable frag_strt frag_end p v a =
     (if frag_strt > frag_end then Some (p, v, a)
      else do { let p = (if frag_strt \<le> prev_frag_end p then p\<lparr>seg_tp1 := first_chunk a\<rparr> else p);
                let p = (if SCTP_TSN_GT (last_tsn + ucast frag_end) (biggest_tsn_acked p)
                         then p\<lparr>biggest_tsn_acked := last_tsn + ucast frag_end\<rparr> else p);
                (tp1, v, a) \<leftarrow> sctp_process_segment_range now (seg_tp1 p) last_tsn frag_strt frag_end non_revocable v a;
                Some (p\<lparr>seg_tp1 := tp1, chunk_freed := chunk_freed p \<or> wake_him v \<noteq> 0, prev_frag_end := frag_end\<rparr>, v, a) })"

fun seg_blocks :: "int \<times> int \<Rightarrow> mchain \<Rightarrow> u32 \<Rightarrow> nat \<Rightarrow> nat list \<Rightarrow> seg_pos \<Rightarrow> seg_vars \<Rightarrow> snd_asoc \<Rightarrow>
    (seg_pos \<times> seg_vars \<times> snd_asoc) option" where
  "seg_blocks now m last_tsn num_seg [] p v a = Some (p, v, a)"
| "seg_blocks now m last_tsn num_seg (i # is) p v a =
     (let p = (if i = num_seg then p\<lparr>prev_frag_end := 0, seg_tp1 := first_chunk a\<rparr> else p);
          frag = sctp_m_getptr m (seg_offset p) 4;
          p = p\<lparr>seg_offset := seg_offset p + 4\<rparr>
      in case frag of None \<Rightarrow> Some (p, v, a)
         | Some b \<Rightarrow>
             do { (p, v, a) \<leftarrow> seg_block now last_tsn (\<not> i < num_seg) (be16 (b ! 0) (b ! 1)) (be16 (b ! 2) (b ! 3)) p v a;
                  seg_blocks now m last_tsn num_seg is p v a })"

definition sctp_handle_segments :: "int \<times> int \<Rightarrow> mchain \<Rightarrow> int \<Rightarrow> u32 \<Rightarrow> u32 \<Rightarrow> nat \<Rightarrow> nat \<Rightarrow> seg_vars \<Rightarrow> snd_asoc \<Rightarrow>
    (seg_pos \<times> seg_vars \<times> snd_asoc) option" where
  "sctp_handle_segments now m off last_tsn biggest num_seg num_nr_seg v a =
     seg_blocks now m last_tsn num_seg [0..<num_seg + num_nr_seg]
       \<lparr>seg_offset = off, seg_tp1 = first_chunk a, prev_frag_end = 0, chunk_freed = False, biggest_tsn_acked = biggest\<rparr> v a"

section \<open>Revoked chunks\<close>

definition revoke_chunk :: "data_chunk \<Rightarrow> snd_asoc \<Rightarrow> (data_chunk \<times> snd_asoc) option" where
  "revoke_chunk c a =
     do { (n, d) \<leftarrow> net_at (chk_whoTo c) a;
          let n = sctp_flight_size_increase c n;
          let n = n\<lparr>cwnd := cwnd n + ucast (book_size c)\<rparr>;
          Some (c\<lparr>chk_sent := SCTP_DATAGRAM_SENT, chunk_was_revoked := 1\<rparr>,
                put_net (chk_whoTo c) n d (sctp_total_flight_increase c a)) }"

text \<open>The loop over the sent queue; its body does not read the queue.\<close>

fun revoke_loop :: "u32 \<Rightarrow> u32 \<Rightarrow> data_chunk list \<Rightarrow> snd_asoc \<Rightarrow> (data_chunk list \<times> snd_asoc) option" where
  "revoke_loop cumack biggest [] a = Some ([], a)"
| "revoke_loop cumack biggest (c # cs) a =
     (if SCTP_TSN_GT (tsn c) cumack \<and> SCTP_TSN_GT (tsn c) biggest then Some (c # cs, a)
      else do { (c, a) \<leftarrow> (if SCTP_TSN_GT (tsn c) cumack
                           then if chk_sent c = SCTP_DATAGRAM_ACKED then revoke_chunk c a
                                else if chk_sent c = SCTP_DATAGRAM_MARKED then Some (c\<lparr>chk_sent := SCTP_DATAGRAM_ACKED\<rparr>, a)
                                else Some (c, a)
                           else Some (c, a));
                if chk_sent c = SCTP_DATAGRAM_UNSENT then Some (c # cs, a)
                else do { (cs, a) \<leftarrow> revoke_loop cumack biggest cs a; Some (c # cs, a) } })"

definition sctp_check_for_revoked :: "u32 \<Rightarrow> u32 \<Rightarrow> snd_asoc \<Rightarrow> snd_asoc option" where
  "sctp_check_for_revoked cumack biggest a =
     do { (q, a) \<leftarrow> revoke_loop cumack biggest (sent_queue a) a; Some (a\<lparr>sent_queue := q\<rparr>) }"

end
