(* ===== verification/Snd_Account.thy ===== *)
theory Snd_Account
  imports Snd_Segments
begin

text \<open>
  Accounting of the data in flight. \<open>flight_ok\<close> says that the three counters of the association and of
  its destinations are the sums over the chunks of the sent queue that are in flight; \<open>snd_ok\<close> that no
  chunk has a NULL or dangling pointer the code would follow. A gap block changes a chunk by
  \<open>seg_effect\<close>; the lemmas show that marking one chunk computes that and keeps both.
\<close>

section \<open>Invariants\<close>

definition in_flight :: "data_chunk \<Rightarrow> bool" where
  "in_flight c \<longleftrightarrow> chk_sent c < SCTP_DATAGRAM_RESEND"

definition flight_of :: "(data_chunk \<Rightarrow> nat) \<Rightarrow> data_chunk list \<Rightarrow> nat" where
  "flight_of f q = (\<Sum>c\<leftarrow>q. if in_flight c then f c else 0)"

abbreviation book :: "data_chunk \<Rightarrow> nat" where "book c \<equiv> unat (book_size c)"

abbreviation flights :: "snd_asoc \<Rightarrow> u32 list" where "flights a \<equiv> map flight_size (nets (asoc_cc a))"

definition to_net :: "nat \<Rightarrow> data_chunk \<Rightarrow> nat" where
  "to_net k c = (if chk_whoTo c = Some k then book c else 0)"

definition flight_ok :: "snd_asoc \<Rightarrow> bool" where
  "flight_ok a \<longleftrightarrow>
     unat (total_flight a) = flight_of book (sent_queue a) \<and>
     unat (total_flight_count a) = flight_of (\<lambda>c. 1) (sent_queue a) \<and>
     (\<forall>k < length (flights a). unat (flights a ! k) = flight_of (to_net k) (sent_queue a))"

definition valid_net :: "snd_asoc \<Rightarrow> nat option \<Rightarrow> bool" where
  "valid_net a p \<longleftrightarrow> (case p of None \<Rightarrow> False | Some k \<Rightarrow> k < length (nets (asoc_cc a)) \<and> k < length (dests a))"

definition chunk_ok :: "snd_asoc \<Rightarrow> data_chunk \<Rightarrow> bool" where
  "chunk_ok a c \<longleftrightarrow>
     (chk_sent c = SCTP_FORWARD_TSN_SKIP \<or> chk_sent c = SCTP_DATAGRAM_NR_ACKED \<or> valid_net a (chk_whoTo c)) \<and>
     (chunk_was_revoked c = 0 \<or> valid_net a (chk_whoTo c)) \<and>
     unat (sid c) < length (strmout a)"

definition snd_ok :: "snd_asoc \<Rightarrow> bool" where
  "snd_ok a \<longleftrightarrow> length (dests a) = length (nets (asoc_cc a)) \<and> list_all (chunk_ok a) (sent_queue a) \<and> sum_list (map book (sent_queue a)) < 2 ^ 32 \<and> length (sent_queue a) < 2 ^ 32"

text \<open>The lengths that the validity of pointers depends on, and the counters of \<open>flight_ok\<close>.\<close>

definition shape :: "snd_asoc \<Rightarrow> nat \<times> nat \<times> nat" where
  "shape a = (length (nets (asoc_cc a)), length (dests a), length (strmout a))"

definition counters :: "snd_asoc \<Rightarrow> u32 list \<times> u32 \<times> u32" where
  "counters a = (flights a, total_flight a, total_flight_count a)"

lemma chunk_ok_shape: "shape a = shape b \<Longrightarrow> chunk_ok a = chunk_ok b"
  by (rule ext) (simp add: chunk_ok_def valid_net_def shape_def split: option.split)

lemma flight_ok_counters: "counters a = counters b \<Longrightarrow> sent_queue a = sent_queue b \<Longrightarrow> flight_ok a = flight_ok b"
  by (simp add: flight_ok_def counters_def)

lemma snd_ok_shape: "shape a = shape b \<Longrightarrow> sent_queue a = sent_queue b \<Longrightarrow> snd_ok a = snd_ok b"
  by (simp add: snd_ok_def chunk_ok_shape [of a b]) (simp add: shape_def)

lemma valid_net_at: "valid_net a p \<Longrightarrow> \<exists>n d. net_at p a = Some (n, d)"
  by (auto simp: valid_net_def net_at_def split: option.splits)

section \<open>What keeps what\<close>

lemma map_update_same: "k < length xs \<Longrightarrow> f y = f (xs ! k) \<Longrightarrow> map f (xs[k := y]) = map f xs"
  by (metis list_update_id map_update)

lemma put_net_same:
  assumes "net_at p a = Some (n, d)" "flight_size n' = flight_size n"
  shows "counters (put_net p n' d' a) = counters a" "shape (put_net p n' d' a) = shape a"
  using assms by (auto simp: net_at_def put_net_def counters_def shape_def map_update_same split: option.splits if_splits)

lemma put_net_flight:
  assumes "net_at p a = Some (n, d)"
  shows "counters (put_net p n' d' a) = ((flights a)[the p := flight_size n'], total_flight a, total_flight_count a)"
    and "shape (put_net p n' d' a) = shape a"
  using assms by (auto simp: net_at_def put_net_def counters_def shape_def map_update split: option.splits if_splits)

lemma put_chunk_keep [simp]:
  "counters (put_chunk k c a) = counters a" "shape (put_chunk k c a) = shape a"
  "sent_queue (put_chunk k c a) = (sent_queue a)[k := c]"
  by (simp_all add: put_chunk_def counters_def shape_def)

lemma track_pseudo_ok:
  assumes "chunk_ok a c"
  shows "\<exists>b. track_pseudo c a = Some b \<and> counters b = counters a \<and> shape b = shape a \<and> sent_queue b = sent_queue a"
proof (cases "chk_sent c < SCTP_DATAGRAM_RESEND")
  case True
  with assms have "valid_net a (chk_whoTo c)" by (auto simp: chunk_ok_def datagram_states)
  then obtain n d where nd: "net_at (chk_whoTo c) a = Some (n, d)" using valid_net_at by blast
  with True show ?thesis by (simp add: track_pseudo_def Let_def put_net_same [OF nd])
qed (simp add: track_pseudo_def)

lemma gap_seen_keep [simp]:
  "counters (gap_seen c a) = counters a" "shape (gap_seen c a) = shape a" "sent_queue (gap_seen c a) = sent_queue a"
  by (simp_all add: gap_seen_def counters_def shape_def Let_def)

lemma undo_revoke_ok:
  assumes "chunk_was_revoked c = 0 \<or> valid_net a (chk_whoTo c)"
  shows "\<exists>b. undo_revoke c a = Some (c\<lparr>chunk_was_revoked := 0\<rparr>, b) \<and> counters b = counters a \<and> shape b = shape a \<and> sent_queue b = sent_queue a"
proof (cases "chunk_was_revoked c = 0")
  case False
  with assms obtain n d where nd: "net_at (chk_whoTo c) a = Some (n, d)" using valid_net_at by blast
  with False show ?thesis by (simp add: undo_revoke_def put_net_same [OF nd])
qed (simp add: undo_revoke_def)

lemma free_bufspace_keep [simp]:
  "counters (sctp_free_bufspace c k a) = counters a" "shape (sctp_free_bufspace c k a) = shape a"
  "sent_queue (sctp_free_bufspace c k a) = sent_queue a"
  by (simp_all add: sctp_free_bufspace_def counters_def shape_def Let_def split: option.split)

lemma nr_acked_ok:
  assumes "unat (sid c) < length (strmout a)"
  shows "\<exists>v' b. nr_acked c v a = Some (c\<lparr>chk_sent := SCTP_DATAGRAM_NR_ACKED, has_data := False\<rparr>, v', b) \<and>
    counters b = counters a \<and> shape b = shape a \<and> sent_queue b = sent_queue a"
  using assms by (simp add: nr_acked_def stream_at_def Let_def) (simp add: counters_def shape_def)

section \<open>A chunk leaves the flight\<close>

lemma sat_detect_keep [simp]:
  "counters (sat_detect f r a) = counters a" "shape (sat_detect f r a) = shape a" "sent_queue (sat_detect f r a) = sent_queue a"
  "asoc_cc (sat_detect f r a) = asoc_cc a" "dests (sat_detect f r a) = dests a"
  by (simp_all add: sat_detect_def counters_def shape_def)

lemma rtt_measure_flight: "rtt_measure md now told s n = (ms, n') \<Longrightarrow> flight_size n' = flight_size n"
  by (auto simp: rtt_measure_def Let_def cc_rtt_calculated_def sctp_rtt_rtcc_calculated_def upd_rtcc_def)

lemma rtt_smooth_flight: "rtt_smooth ms n d = (f, n', d') \<Longrightarrow> flight_size n' = flight_size n"
  by (auto simp: rtt_smooth_def Let_def split: if_splits)

lemma calculate_rto_keep:
  assumes "sctp_calculate_rto now told safe sck n d a = (r, n', d', a')"
  shows "flight_size n' = flight_size n \<and> counters a' = counters a \<and> shape a' = shape a \<and> sent_queue a' = sent_queue a \<and>
    nets (asoc_cc a') = nets (asoc_cc a) \<and> dests a' = dests a"
  using assms by (auto simp: sctp_calculate_rto_def Let_def split: if_splits prod.splits dest!: rtt_measure_flight rtt_smooth_flight)

lemma seg_rto_keep:
  assumes "seg_rto now c v n d a = (v', n', d', a')"
  shows "flight_size n' = flight_size n \<and> counters a' = counters a \<and> shape a' = shape a \<and> sent_queue a' = sent_queue a \<and>
    nets (asoc_cc a') = nets (asoc_cc a) \<and> dests a' = dests a"
proof (cases "rto_ok v")
  case True
  obtain r n1 d1 a1 where eq: "sctp_calculate_rto now (sent_rcv_time c) sctp_align_safe_nocopy SCTP_RTT_FROM_DATA n d a = (r, n1, d1, a1)"
    by (metis prod_cases4)
  from calculate_rto_keep [OF eq] True assms show ?thesis by (auto simp: seg_rto_def eq)
qed (use assms in \<open>auto simp: seg_rto_def\<close>)

definition sub0 :: "u32 \<Rightarrow> u32 \<Rightarrow> u32" where "sub0 x y = (if x \<ge> y then x - y else 0)"

lemma unat_ucast_u16 [simp]: "unat (ucast (w :: u16) :: u32) = unat w"
  by (simp add: unsigned_ucast_eq take_bit_nat_eq_self_iff order.strict_trans [OF unsigned_less])

lemma unat_sub0: "unat (sub0 x y) = unat x - unat y"
  by (auto simp: sub0_def unat_sub word_le_nat_alt not_le)

lemma pseudo_acked_flight: "pseudo_acked c n d = (n', d') \<Longrightarrow> flight_size n' = flight_size n"
  by (auto simp: pseudo_acked_def Let_def split: if_splits)

lemma tsn_acknowledged_flight [simp]: "flight_size (cc_tsn_acknowledged md n s) = flight_size n"
  by (simp add: cc_tsn_acknowledged_def sctp_cwnd_update_rtcc_tsn_acknowledged_def upd_rtcc_def)

lemma flight_size_decrease_eq [simp]: "flight_size (sctp_flight_size_decrease c n) = sub0 (flight_size n) (ucast (book_size c))"
  by (simp add: sctp_flight_size_decrease_def sub0_def)

text \<open>The counters after a chunk with the destination \<open>k\<close> has left.\<close>

definition leave :: "data_chunk \<Rightarrow> nat \<Rightarrow> u32 list \<times> u32 \<times> u32 \<Rightarrow> u32 list \<times> u32 \<times> u32" where
  "leave c k = (\<lambda>(fs, tf, cnt). (fs[k := sub0 (fs ! k) (ucast (book_size c))], sub0 tf (ucast (book_size c)),
     if tf \<ge> ucast (book_size c) then sub0 cnt 1 else 0))"

lemma total_flight_decrease_keep:
  "counters (sctp_total_flight_decrease c a) =
     (flights a, sub0 (total_flight a) (ucast (book_size c)),
      if total_flight a \<ge> ucast (book_size c) then sub0 (total_flight_count a) 1 else 0)"
  "shape (sctp_total_flight_decrease c a) = shape a" "sent_queue (sctp_total_flight_decrease c a) = sent_queue a"
  "net_at p (sctp_total_flight_decrease c a) = net_at p a" "snd_module (sctp_total_flight_decrease c a) = snd_module a"
  by (auto simp: sctp_total_flight_decrease_def counters_def shape_def sub0_def net_at_def word_less_nat_alt word_le_nat_alt Suc_le_eq unat_eq_zero split: option.splits)

lemma acked_net_keep:
  assumes "acked_net now c v n d a = (v', n', d', b)"
  shows "flight_size n' = sub0 (flight_size n) (ucast (book_size c))"
    "counters b = counters (sctp_total_flight_decrease c a)" "shape b = shape a" "sent_queue b = sent_queue a"
    "nets (asoc_cc b) = nets (asoc_cc a)" "dests b = dests a"
proof -
  obtain n1 d1 where p: "pseudo_acked c n d = (n1, d1)" by fastforce
  have td: "nets (asoc_cc (sctp_total_flight_decrease c a)) = nets (asoc_cc a)" "dests (sctp_total_flight_decrease c a) = dests a"
    by (simp_all add: sctp_total_flight_decrease_def)
  have "flight_size n' = sub0 (flight_size n) (ucast (book_size c)) \<and> counters b = counters (sctp_total_flight_decrease c a) \<and>
    shape b = shape a \<and> sent_queue b = sent_queue a \<and> nets (asoc_cc b) = nets (asoc_cc a) \<and> dests b = dests a"
    using assms pseudo_acked_flight [OF p]
    by (auto simp: acked_net_def p Let_def td total_flight_decrease_keep(2,3) split: if_splits dest!: seg_rto_keep)
  then show "flight_size n' = sub0 (flight_size n) (ucast (book_size c))"
    "counters b = counters (sctp_total_flight_decrease c a)" "shape b = shape a" "sent_queue b = sent_queue a"
    "nets (asoc_cc b) = nets (asoc_cc a)" "dests b = dests a" by blast+
qed

lemma newly_acked_ok:
  assumes "valid_net a (chk_whoTo c)"
  shows "\<exists>v' b. newly_acked now c v a =
      Some (c\<lparr>chk_window_probe := 0, do_rtt := (if chk_snd_count c < 2 then 0 else do_rtt c)\<rparr>, v', b) \<and>
    counters b = leave c (the (chk_whoTo c)) (counters a) \<and> shape b = shape a \<and> sent_queue b = sent_queue a"
proof -
  obtain n d where nd: "net_at (chk_whoTo c) a = Some (n, d)" using assms valid_net_at by blast
  have fin: "counters (put_net (chk_whoTo c) n' d' b) = leave c (the (chk_whoTo c)) (counters a) \<and>
      shape (put_net (chk_whoTo c) n' d' b) = shape a \<and> sent_queue (put_net (chk_whoTo c) n' d' b) = sent_queue a"
    if "acked_net now c u n e a = (v', n', d', b)" for u e v' n' d' b
  proof -
    note keep = acked_net_keep [OF that]
    have k: "net_at (chk_whoTo c) b = Some (n, d)" using nd keep(5,6) by (cases "chk_whoTo c") (simp_all add: net_at_def split: if_splits)
    have fs: "flights a ! the (chk_whoTo c) = flight_size n"
      using nd by (auto simp: net_at_def split: option.splits if_splits)
    have c2: "flights b = flights a" "total_flight b = sub0 (total_flight a) (ucast (book_size c))"
      "total_flight_count b = (if total_flight a \<ge> ucast (book_size c) then sub0 (total_flight_count a) 1 else 0)"
      using keep(2) total_flight_decrease_keep(1) [of c a] by (simp_all add: counters_def)
    show ?thesis using keep fs by (simp add: put_net_flight [OF k] c2 leave_def counters_def [of a])
  qed
  show ?thesis unfolding newly_acked_def nd Let_def
    by (auto split: prod.split dest: fin simp del: if_image_distrib)
qed

section \<open>The sums\<close>

lemma flight_of_update:
  assumes "k < length q"
  shows "flight_of f (q[k := c]) + (if in_flight (q ! k) then f (q ! k) else 0) = flight_of f q + (if in_flight c then f c else 0)"
proof -
  let ?g = "\<lambda>c. if in_flight c then f c else 0"
  have "?g (q ! k) \<le> sum_list (map ?g q)" using assms elem_le_sum_list [of k "map ?g q"] by simp
  then show ?thesis unfolding flight_of_def using assms by (simp add: map_update sum_list_update)
qed

lemma flight_of_member: "k < length q \<Longrightarrow> in_flight (q ! k) \<Longrightarrow> f (q ! k) \<le> flight_of f q"
  using elem_le_sum_list [of k "map (\<lambda>c. if in_flight c then f c else 0) q"] by (simp add: flight_of_def)

lemma flight_of_same:
  assumes "k < length q" "in_flight c = in_flight (q ! k)" "in_flight c \<Longrightarrow> f c = f (q ! k)"
  shows "flight_of f (q[k := c]) = flight_of f q"
  using flight_of_update [OF assms(1), of f c] assms(2,3) by auto

lemma flight_of_le: "flight_of f q \<le> sum_list (map f q)"
  by (induction q) (auto simp: flight_of_def)

text \<open>A chunk that is in flight leaves it, and the counters follow.\<close>

lemma leave_ok:
  assumes ok: "flight_ok a" and k: "k < length (sent_queue a)" "in_flight (sent_queue a ! k)" "\<not> in_flight c"
    and net: "chk_whoTo (sent_queue a ! k) = Some i" "i < length (flights a)"
    and b: "counters b = leave (sent_queue a ! k) i (counters a)" "sent_queue b = (sent_queue a)[k := c]"
  shows "flight_ok b"
proof -
  let ?c = "sent_queue a ! k"
  have upd: "flight_of f (sent_queue b) = flight_of f (sent_queue a) - f ?c" for f
    using flight_of_update [OF k(1), of f c] k(2,3) b(2) by simp
  have tf: "unat (ucast (book_size ?c) :: u32) \<le> unat (total_flight a)" and bk: "unat (ucast (book_size ?c) :: u32) = book ?c"
    using flight_of_member [OF k(1,2), of book] ok by (simp_all add: flight_ok_def)
  have b': "flights b = (flights a)[i := sub0 (flights a ! i) (ucast (book_size ?c))]"
    "total_flight b = sub0 (total_flight a) (ucast (book_size ?c))" "total_flight_count b = sub0 (total_flight_count a) 1"
    using b(1) tf by (simp_all add: counters_def leave_def word_le_nat_alt)
  have "unat (flights b ! j) = flight_of (to_net j) (sent_queue b)" if "j < length (flights b)" for j
    using that ok net b' unfolding upd by (cases "j = i") (auto simp: flight_ok_def unat_sub0 to_net_def bk)
  then show ?thesis using ok by (simp add: flight_ok_def upd b'(2,3) unat_sub0 bk)
qed

text \<open>A chunk changes and stays in flight or outside.\<close>

lemma stay_ok:
  assumes "flight_ok a" "k < length (sent_queue a)" "in_flight c = in_flight (sent_queue a ! k)"
    "in_flight c \<Longrightarrow> book_size c = book_size (sent_queue a ! k) \<and> chk_whoTo c = chk_whoTo (sent_queue a ! k)"
    "counters b = counters a" "sent_queue b = (sent_queue a)[k := c]"
  shows "flight_ok b"
proof -
  have "flight_of f (sent_queue b) = flight_of f (sent_queue a)" if "f = book \<or> f = (\<lambda>c. 1) \<or> (\<exists>i. f = to_net i)" for f
    unfolding assms(6) by (rule flight_of_same [OF assms(2,3)]) (use that assms(4) in \<open>auto simp: to_net_def\<close>)
  from this [of book] this [of "\<lambda>c. 1"] this [of "to_net i" for i] show ?thesis
    using assms(1,5) by (simp add: flight_ok_def counters_def) (metis length_map nth_map)
qed

section \<open>Marking one chunk\<close>

definition seg_effect :: "bool \<Rightarrow> data_chunk \<Rightarrow> data_chunk" where
  "seg_effect nr c =
     (if chk_sent c = SCTP_DATAGRAM_UNSENT then c
      else let c = (if in_flight c
                    then c\<lparr>chk_window_probe := 0, do_rtt := (if chk_snd_count c < 2 then 0 else do_rtt c)\<rparr> else c);
               c = (seg_mark c)\<lparr>chunk_was_revoked := 0\<rparr>
           in if nr \<and> chk_sent c \<noteq> SCTP_DATAGRAM_NR_ACKED
              then c\<lparr>chk_sent := SCTP_DATAGRAM_NR_ACKED, has_data := False\<rparr> else c)"

lemma seg_effect_keep [simp]:
  "tsn (seg_effect nr c) = tsn c" "book_size (seg_effect nr c) = book_size c" "sid (seg_effect nr c) = sid c"
  "chk_whoTo (seg_effect nr c) = chk_whoTo c" "chk_snd_count (seg_effect nr c) = chk_snd_count c"
  by (simp_all add: seg_effect_def seg_mark_def Let_def)

lemma seg_effect_idem [simp]: "seg_effect nr (seg_effect nr c) = seg_effect nr c"
  by (auto simp: seg_effect_def seg_mark_def Let_def in_flight_def datagram_states)

lemma seg_effect_both [simp]: "seg_effect True (seg_effect False c) = seg_effect True c"
  by (auto simp: seg_effect_def seg_mark_def Let_def in_flight_def datagram_states)

lemma seg_effect_flight: "in_flight (seg_effect nr c) \<longleftrightarrow> chk_sent c = SCTP_DATAGRAM_UNSENT"
  by (auto simp: seg_effect_def seg_mark_def Let_def in_flight_def datagram_states)

lemma chunk_ok_effect: "chunk_ok a c \<Longrightarrow> chunk_ok a (seg_effect nr c)"
  by (auto simp: chunk_ok_def seg_effect_def seg_mark_def Let_def)

lemma seg_hit_eq:
  assumes k: "k < length (sent_queue a)" and ok: "chunk_ok a (sent_queue a ! k)"
    and sent: "chk_sent (sent_queue a ! k) \<noteq> SCTP_DATAGRAM_UNSENT"
  shows "\<exists>v' b. seg_hit now nr k v a = Some (v', b) \<and> shape b = shape a \<and>
    sent_queue b = (sent_queue a)[k := seg_effect nr (sent_queue a ! k)] \<and>
    counters b = (if in_flight (sent_queue a ! k) then leave (sent_queue a ! k) (the (chk_whoTo (sent_queue a ! k))) (counters a) else counters a)"
proof -
  let ?c = "sent_queue a ! k"
  define c1 where "c1 = (if in_flight ?c then ?c\<lparr>chk_window_probe := 0, do_rtt := (if chk_snd_count ?c < 2 then 0 else do_rtt ?c)\<rparr> else ?c)"
  define cs where "cs = (if in_flight ?c then leave ?c (the (chk_whoTo ?c)) (counters a) else counters a)"
  have "\<exists>v1 a1. (if chk_sent ?c < SCTP_DATAGRAM_RESEND then newly_acked now ?c v a else Some (?c, v, a)) = Some (c1, v1, a1) \<and>
      counters a1 = cs \<and> shape a1 = shape a \<and> sent_queue a1 = sent_queue a"
  proof (cases "in_flight ?c")
    case True
    with ok have "valid_net a (chk_whoTo ?c)" by (auto simp: chunk_ok_def in_flight_def datagram_states)
    from newly_acked_ok [OF this, of now v] True show ?thesis by (auto simp: c1_def cs_def in_flight_def)
  qed (simp add: c1_def cs_def in_flight_def)
  then obtain v1 a1 where 1: "(if chk_sent ?c < SCTP_DATAGRAM_RESEND then newly_acked now ?c v a else Some (?c, v, a)) = Some (c1, v1, a1)"
    and a1: "counters a1 = cs" "shape a1 = shape a" "sent_queue a1 = sent_queue a" by blast
  define c2 where "c2 = seg_mark c1"
  have c2: "chunk_was_revoked c2 = 0 \<or> valid_net (gap_seen c1 a1) (chk_whoTo c2)"
    using ok a1(2) by (auto simp: c2_def c1_def seg_mark_def chunk_ok_def valid_net_def shape_def gap_seen_def Let_def split: option.splits)
  obtain a2 where 2: "undo_revoke c2 (gap_seen c1 a1) = Some (c2\<lparr>chunk_was_revoked := 0\<rparr>, a2)"
    and a2: "counters a2 = cs" "shape a2 = shape a" "sent_queue a2 = sent_queue a"
    using undo_revoke_ok [OF c2] a1 by auto
  define c3 where "c3 = c2\<lparr>chunk_was_revoked := 0\<rparr>"
  have eff: "seg_effect nr ?c = (if nr \<and> chk_sent c3 \<noteq> SCTP_DATAGRAM_NR_ACKED then c3\<lparr>chk_sent := SCTP_DATAGRAM_NR_ACKED, has_data := False\<rparr> else c3)"
    using sent by (simp add: seg_effect_def Let_def c1_def c2_def c3_def)
  have sid: "unat (sid c3) < length (strmout a2)"
    using ok a2(2) by (auto simp: c3_def c2_def c1_def seg_mark_def chunk_ok_def shape_def)
  have "\<exists>v3 a3. (if nr \<and> chk_sent c3 \<noteq> SCTP_DATAGRAM_NR_ACKED then nr_acked c3 v1 a2 else Some (c3, v1, a2)) = Some (seg_effect nr ?c, v3, a3) \<and>
      counters a3 = cs \<and> shape a3 = shape a \<and> sent_queue a3 = sent_queue a"
    using nr_acked_ok [OF sid, of v1] a2 eff by auto
  then obtain v3 a3 where 3: "(if nr \<and> chk_sent c3 \<noteq> SCTP_DATAGRAM_NR_ACKED then nr_acked c3 v1 a2 else Some (c3, v1, a2)) = Some (seg_effect nr ?c, v3, a3)"
    and a3: "counters a3 = cs" "shape a3 = shape a" "sent_queue a3 = sent_queue a" by blast
  have "seg_hit now nr k v a = Some (v3, put_chunk k (seg_effect nr ?c) a3)"
    using k sent by (simp add: seg_hit_def chunk_at_def 1 2 3 Let_def c2_def [symmetric] c3_def [symmetric])
  then show ?thesis using a3 by (simp add: cs_def)
qed

lemma snd_ok_update:
  assumes "snd_ok a" "shape b = shape a" "sent_queue b = (sent_queue a)[k := c]" "k < length (sent_queue a)" "chunk_ok a c" "book_size c = book_size (sent_queue a ! k)"
  shows "snd_ok b"
proof -
  have "list_all (chunk_ok a) (sent_queue b)"
    using assms(1,3,5) set_update_subset_insert [of "sent_queue a" k c] by (auto simp: snd_ok_def list_all_iff)
  moreover have "map book (sent_queue b) = map book (sent_queue a)" using assms(3,4,6) by (simp add: map_update_same)
  moreover have "length (dests b) = length (nets (asoc_cc b))" using assms(1,2) by (simp add: snd_ok_def shape_def)
  ultimately show ?thesis using assms by (simp add: snd_ok_def chunk_ok_shape [OF assms(2)])
qed

lemma seg_hit_ok:
  assumes "snd_ok a" "flight_ok a" and k: "k < length (sent_queue a)"
  shows "\<exists>v' b. seg_hit now nr k v a = Some (v', b) \<and> snd_ok b \<and> flight_ok b \<and> shape b = shape a \<and>
    sent_queue b = (sent_queue a)[k := seg_effect nr (sent_queue a ! k)]"
proof (cases "chk_sent (sent_queue a ! k) = SCTP_DATAGRAM_UNSENT")
  case True
  then have "seg_effect nr (sent_queue a ! k) = sent_queue a ! k" by (simp add: seg_effect_def)
  with True assms show ?thesis by (simp add: seg_hit_def chunk_at_def)
next
  case False
  let ?c = "sent_queue a ! k"
  have ok: "chunk_ok a ?c" using assms by (simp add: snd_ok_def list_all_length)
  obtain v' b where b: "seg_hit now nr k v a = Some (v', b)" "shape b = shape a" "sent_queue b = (sent_queue a)[k := seg_effect nr ?c]"
    "counters b = (if in_flight ?c then leave ?c (the (chk_whoTo ?c)) (counters a) else counters a)"
    using seg_hit_eq [OF k ok False, of now nr v] by blast
  have out: "\<not> in_flight (seg_effect nr ?c)" using False by (simp add: seg_effect_flight)
  have "flight_ok b"
  proof (cases "in_flight ?c")
    case True
    with ok obtain i where "chk_whoTo ?c = Some i" "i < length (flights a)"
      by (auto simp: chunk_ok_def in_flight_def datagram_states valid_net_def split: option.splits)
    with leave_ok [OF assms(2) k True out _ _ _ b(3)] b(4) True show ?thesis by simp
  next
    case False
    with stay_ok [OF assms(2) k _ _ _ b(3)] out b(4) show ?thesis by simp
  qed
  with snd_ok_update [OF assms(1) b(2,3) k chunk_ok_effect [OF ok]] b show ?thesis by simp
qed

end
