(* ===== verification/Snd_Correct.thy ===== *)
theory Snd_Correct
  imports Snd_Account
begin

text \<open>
  The gap blocks of a SACK mark exactly the chunks they cover. The sent queue is sorted by TSN, seen
  from a base \<open>b\<close> within half of the number space; the walk of \<^verbatim>\<open>sctp_process_segment_range\<close> never
  passes a chunk that is still to be marked.
\<close>

section \<open>Order of the sent queue\<close>

definition ahead :: "u32 \<Rightarrow> u32 \<Rightarrow> nat" where "ahead b t = unat (t - b)"

definition tsn_sorted :: "u32 \<Rightarrow> data_chunk list \<Rightarrow> bool" where
  "tsn_sorted b q \<longleftrightarrow> sorted_wrt (\<lambda>x y. ahead b (tsn x) < ahead b (tsn y)) q \<and> list_all (\<lambda>c. ahead b (tsn c) < 2 ^ 31) q"

lemma ahead_inj: "ahead b x = ahead b y \<longleftrightarrow> x = y"
  by (simp add: ahead_def flip: word_unat_eq_iff)

lemma unat_diff_cases: "unat (x - y) = (if unat y \<le> unat x then unat x - unat y else 2 ^ 32 + unat x - unat y)" for x y :: u32
  by (auto simp: unat_sub_if_size word_size word_le_nat_alt)

lemma GT_ahead:
  assumes "ahead b x < 2 ^ 31" "ahead b y < 2 ^ 31"
  shows "SCTP_TSN_GT x y \<longleftrightarrow> ahead b y < ahead b x"
proof -
  have "x - y = (x - b) - (y - b)" by simp
  then have u: "unat (x - y) = (if ahead b y \<le> ahead b x then ahead b x - ahead b y else 2 ^ 32 + ahead b x - ahead b y)"
    unfolding ahead_def by (simp only: unat_diff_cases [of "x - b" "y - b"])
  show ?thesis
  proof (cases "x = y")
    case False
    then have "ahead b x \<noteq> ahead b y" by (simp add: ahead_inj)
    then show ?thesis using assms False u by (auto simp: SCTP_UINT32_GT_iff)
  qed (simp add: SCTP_UINT32_GT_iff)
qed

definition hit :: "bool \<Rightarrow> u32 set \<Rightarrow> data_chunk \<Rightarrow> data_chunk" where
  "hit nr S c = (if tsn c \<in> S then seg_effect nr c else c)"

lemma hit_tsn [simp]: "tsn (hit nr S c) = tsn c"
  by (simp add: hit_def)

lemma hit_hit: "hit nr S (hit nr T c) = hit nr (S \<union> T) c"
  by (auto simp: hit_def)

lemma hit_none: "\<forall>c\<in>set q. tsn c \<notin> S \<Longrightarrow> map (hit nr S) q = q"
  by (simp add: hit_def map_idI)

lemma tsn_sorted_hit [simp]: "tsn_sorted b (map (hit nr S) q) = tsn_sorted b q"
  by (simp add: tsn_sorted_def sorted_wrt_map list_all_iff)

lemma tsn_sorted_nth: "tsn_sorted b q \<Longrightarrow> i < j \<Longrightarrow> j < length q \<Longrightarrow> ahead b (tsn (q ! i)) < ahead b (tsn (q ! j))"
  by (auto simp: tsn_sorted_def sorted_wrt_iff_nth_less)

lemma map_hit_at:
  assumes "tsn_sorted b q" "k < length q" "tsn (q ! k) = t"
  shows "map (hit nr {t}) q = q[k := seg_effect nr (q ! k)]"
proof (rule nth_equalityI)
  fix i assume "i < length (map (hit nr {t}) q)"
  then have i: "i < length q" by simp
  have "tsn (q ! i) = t \<longleftrightarrow> i = k"
    using tsn_sorted_nth [OF assms(1), of i k] tsn_sorted_nth [OF assms(1), of k i] i assms(2,3)
    by (cases i k rule: linorder_cases) auto
  with i assms(2) show "map (hit nr {t}) q ! i = q[k := seg_effect nr (q ! k)] ! i"
    by (simp add: hit_def nth_list_update)
qed simp

section \<open>The walk\<close>

definition ptr_ok :: "u32 \<Rightarrow> data_chunk list \<Rightarrow> nat \<Rightarrow> nat option \<Rightarrow> bool" where
  "ptr_ok b q T p = (case p of None \<Rightarrow> \<forall>c\<in>set q. ahead b (tsn c) < T
     | Some k \<Rightarrow> k < length q \<and> (\<forall>j<k. ahead b (tsn (q ! j)) < T))"

lemma ptr_ok_mono: "ptr_ok b q T p \<Longrightarrow> T \<le> T' \<Longrightarrow> ptr_ok b q T' p"
  by (fastforce simp: ptr_ok_def split: option.splits)

lemma ptr_ok_first: "ptr_ok b (sent_queue a) T (first_chunk a)"
  by (simp add: ptr_ok_def first_chunk_def)

lemma ptr_ok_hit [simp]: "ptr_ok b (map (hit nr S) q) T p = ptr_ok b q T p"
  by (auto simp: ptr_ok_def split: option.split)

lemma seg_walk_ok:
  "snd_ok a \<Longrightarrow> flight_ok a \<Longrightarrow> tsn_sorted b (sent_queue a) \<Longrightarrow> ahead b t < 2 ^ 31 \<Longrightarrow>
   ptr_ok b (sent_queue a) (ahead b t) p \<Longrightarrow>
   \<exists>p' cir' v' a'. seg_walk now nr t p cir v a = Some (p', cir', v', a') \<and> snd_ok a' \<and> flight_ok a' \<and> shape a' = shape a \<and>
     sent_queue a' = map (hit nr {t}) (sent_queue a) \<and> ptr_ok b (sent_queue a) (ahead b t) p'"
proof (induction now nr t p cir v a rule: seg_walk.induct)
  case (1 now nr t cir v a)
  then have "\<forall>c\<in>set (sent_queue a). tsn c \<notin> {t}" by (auto simp: ptr_ok_def)
  with 1 show ?case by (simp add: seg_walk.simps hit_none)
next
  case (2 now nr t k cir v a)
  let ?q = "sent_queue a" and ?c = "sent_queue a ! k"
  have k: "k < length ?q" "\<And>j. j < k \<Longrightarrow> ahead b (tsn (?q ! j)) < ahead b t" using "2.prems"(5) by (auto simp: ptr_ok_def)
  have at: "chunk_at k a = Some ?c" using k by (simp add: chunk_at_def)
  have "chunk_ok a ?c" using "2.prems"(1) k by (simp add: snd_ok_def list_all_length)
  then obtain a1 where a1: "track_pseudo ?c a = Some a1" "counters a1 = counters a" "shape a1 = shape a" "sent_queue a1 = ?q"
    using track_pseudo_ok by blast
  have ok1: "snd_ok a1" "flight_ok a1" using "2.prems"(1,2) snd_ok_shape [OF a1(3,4)] flight_ok_counters [OF a1(2,4)] by simp_all
  have win: "ahead b (tsn ?c) < 2 ^ 31" using "2.prems"(3) k(1) by (simp add: tsn_sorted_def list_all_length)
  note step = seg_walk.simps(2) [of now nr t k cir v a] at a1(1)
  consider (found) "tsn ?c = t" | (beyond) "tsn ?c \<noteq> t" "ahead b t < ahead b (tsn ?c)" | (before) "tsn ?c \<noteq> t" "ahead b (tsn ?c) < ahead b t"
    using ahead_inj [of b "tsn ?c" t] by linarith
  then show ?case
  proof cases
    case found
    obtain v' a' where "seg_hit now nr k v a1 = Some (v', a')" "snd_ok a'" "flight_ok a'" "shape a' = shape a1"
      "sent_queue a' = ?q[k := seg_effect nr ?c]"
      using seg_hit_ok [OF ok1, of k now nr v] k(1) a1(4) by auto
    then show ?thesis using map_hit_at [OF "2.prems"(3) k(1) found] step found a1(3) "2.prems"(5) by simp
  next
    case beyond
    have "tsn c \<notin> {t}" if c: "c \<in> set ?q" for c
    proof -
      obtain i where i: "i < length ?q" "c = ?q ! i" using c by (metis in_set_conv_nth)
      show ?thesis using i k(2) [of i] tsn_sorted_nth [OF "2.prems"(3), of k i] beyond by (cases i k rule: linorder_cases) auto
    qed
    then show ?thesis using step beyond ok1 a1(3,4) "2.prems"(5) GT_ahead [OF win "2.prems"(4)] by (simp add: hit_none)
  next
    case before
    have gt: "\<not> SCTP_TSN_GT (tsn ?c) t" using before GT_ahead [OF win "2.prems"(4)] by simp
    show ?thesis
    proof (cases "next_chunk k a1 = None \<and> \<not> cir")
      case True
      have "\<exists>p' cir' v' a'. seg_walk now nr t (first_chunk a1) True v a1 = Some (p', cir', v', a') \<and> snd_ok a' \<and> flight_ok a' \<and>
          shape a' = shape a1 \<and> sent_queue a' = map (hit nr {t}) (sent_queue a1) \<and> ptr_ok b (sent_queue a1) (ahead b t) p'"
        by (rule "2.IH"(1) [OF at a1(1) before(1) gt True]) (use ok1 "2.prems" a1(4) ptr_ok_first [of b a1] in auto)
      with True show ?thesis using step before gt a1(3,4) by simp
    next
      case False
      have le: "ahead b (tsn (?q ! j)) < ahead b t" if "j \<le> k" for j using that k(2) [of j] before(2) by (cases "j = k") auto
      have ptr: "ptr_ok b (sent_queue a1) (ahead b t) (next_chunk k a1)"
        using le k(1) a1(4) by (auto simp: ptr_ok_def next_chunk_def in_set_conv_nth less_Suc_eq_le)
      have "\<exists>p' cir' v' a'. seg_walk now nr t (next_chunk k a1) cir v a1 = Some (p', cir', v', a') \<and> snd_ok a' \<and> flight_ok a' \<and>
          shape a' = shape a1 \<and> sent_queue a' = map (hit nr {t}) (sent_queue a1) \<and> ptr_ok b (sent_queue a1) (ahead b t) p'"
        by (rule "2.IH"(2) [OF at a1(1) before(1) gt False]) (use ok1 "2.prems" a1(4) ptr in auto)
      moreover have "seg_walk now nr t (Some k) cir v a = seg_walk now nr t (next_chunk k a1) cir v a1"
        using step before gt False by auto
      ultimately show ?thesis using a1(3,4) by simp
    qed
  qed
qed

section \<open>The blocks\<close>

lemma u16_less: "unat (x :: u16) < 2 ^ 16"
  using unsigned_less [of x] by simp

lemma ahead_add:
  assumes "ahead b t + j < 2 ^ 31"
  shows "ahead b (of_nat j + t) = ahead b t + j"
proof -
  have "of_nat j + t - b = of_nat j + (t - b)" by simp
  moreover have j: "unat (of_nat j :: u32) = j" using assms by (simp add: unat_of_nat take_bit_nat_eq_self)
  moreover have "unat (of_nat j + (t - b)) = unat (of_nat j :: u32) + unat (t - b)"
    by (rule unat_add_lem [THEN iffD1]) (use assms j in \<open>simp add: ahead_def del: unat_of_nat\<close>)
  ultimately show ?thesis by (simp only: ahead_def add.commute)
qed

definition tsns :: "u32 \<Rightarrow> nat set \<Rightarrow> u32 set" where "tsns t J = (\<lambda>j. of_nat j + t) ` J"

lemma tsns_simps [simp]: "tsns t {} = {}" "tsns t (insert j J) = insert (of_nat j + t) (tsns t J)" "tsns t (J \<union> K) = tsns t J \<union> tsns t K"
  by (auto simp: tsns_def)

lemma seg_for_ok:
  assumes "sorted js" "\<forall>j\<in>set js. ahead b t + j < 2 ^ 31" "snd_ok a" "flight_ok a" "tsn_sorted b (sent_queue a)"
    "js \<noteq> [] \<Longrightarrow> ptr_ok b (sent_queue a) (ahead b t + hd js) p"
  shows "\<exists>p' v' a'. seg_for now nr t js p cir v a = Some (p', v', a') \<and> snd_ok a' \<and> flight_ok a' \<and> shape a' = shape a \<and>
     sent_queue a' = map (hit nr (tsns t (set js))) (sent_queue a) \<and>
     (js \<noteq> [] \<longrightarrow> ptr_ok b (sent_queue a) (ahead b t + last js) p')"
  using assms
proof (induction js arbitrary: p cir v a)
  case Nil
  then show ?case by (simp add: hit_none)
next
  case (Cons j js)
  have j: "ahead b (of_nat j + t) = ahead b t + j" "ahead b (of_nat j + t) < 2 ^ 31" using Cons.prems(2) ahead_add [of b t j] by auto
  obtain p1 c1 v1 a1 where w: "seg_walk now nr (of_nat j + t) p cir v a = Some (p1, c1, v1, a1)" "snd_ok a1" "flight_ok a1" "shape a1 = shape a"
    "sent_queue a1 = map (hit nr {of_nat j + t}) (sent_queue a)" "ptr_ok b (sent_queue a) (ahead b t + j) p1"
    using seg_walk_ok [OF Cons.prems(3-5) j(2)] Cons.prems(6) j(1) by fastforce
  define p2 c2 where "p2 = (if p1 = None then first_chunk a1 else p1)" and "c2 = (p1 \<noteq> None \<and> c1)"
  have p2: "ptr_ok b (sent_queue a) (ahead b t + j) p2" using w(5,6) ptr_ok_first [of b a1] by (simp add: p2_def)
  have eq: "seg_for now nr t (j # js) p cir v a = seg_for now nr t js p2 c2 v1 a1" by (simp add: w(1) p2_def c2_def)
  have sorted: "sorted js" "\<forall>j\<in>set js. ahead b t + j < 2 ^ 31" using Cons.prems(1,2) by auto
  have ptr: "ptr_ok b (sent_queue a1) (ahead b t + hd js) p2" if "js \<noteq> []"
    using ptr_ok_mono [OF p2, of "ahead b t + hd js"] Cons.prems(1) that w(5) by (cases js) auto
  obtain p' v' a' where r: "seg_for now nr t js p2 c2 v1 a1 = Some (p', v', a')" "snd_ok a'" "flight_ok a'" "shape a' = shape a1"
    "sent_queue a' = map (hit nr (tsns t (set js))) (sent_queue a1)" "js \<noteq> [] \<longrightarrow> ptr_ok b (sent_queue a1) (ahead b t + last js) p'"
    using Cons.IH [OF sorted w(2,3) _ ptr, of c2 v1] w(5) Cons.prems(5) by auto
  have q: "sent_queue a' = map (hit nr (tsns t (set (j # js)))) (sent_queue a)"
    using r(5) w(5) by (simp add: hit_hit comp_def)
  have "js = [] \<Longrightarrow> p' = p2" using r(1) by simp
  then have "ptr_ok b (sent_queue a) (ahead b t + last (j # js)) p'" using r(6) p2 w(5) by auto
  then show ?case using eq r q w(4) by auto
qed

definition pos_ok :: "u32 \<Rightarrow> nat \<Rightarrow> data_chunk list \<Rightarrow> seg_pos \<Rightarrow> bool" where
  "pos_ok b L q p \<longleftrightarrow> (case seg_tp1 p of None \<Rightarrow> True | Some k \<Rightarrow> ptr_ok b q (L + unat (prev_frag_end p)) (Some k))"

lemma pos_ok_first: "seg_tp1 p = first_chunk a \<Longrightarrow> pos_ok b L (sent_queue a) p"
  using ptr_ok_first [of b a] by (auto simp: pos_ok_def split: option.split)

text \<open>The largest TSN of well-formed blocks, seen from the base.\<close>

fun top_of :: "nat \<Rightarrow> nat \<Rightarrow> (u16 \<times> u16) list \<Rightarrow> nat" where
  "top_of L n [] = n"
| "top_of L n ((s, e) # bs) = top_of L (if s \<le> e then max n (L + unat e) else n) bs"

lemma seg_block_ok:
  assumes "ahead b t + 2 ^ 16 \<le> 2 ^ 31" "snd_ok a" "flight_ok a" "tsn_sorted b (sent_queue a)" "pos_ok b (ahead b t) (sent_queue a) p"
    "ahead b (biggest_tsn_acked p) < 2 ^ 31"
  shows "\<exists>p' v' a'. seg_block now t nr s e p v a = Some (p', v', a') \<and> snd_ok a' \<and> flight_ok a' \<and> shape a' = shape a \<and>
     sent_queue a' = map (hit nr (tsns t {unat s..unat e})) (sent_queue a) \<and> pos_ok b (ahead b t) (sent_queue a') p' \<and>
     seg_offset p' = seg_offset p \<and> ahead b (biggest_tsn_acked p') = top_of (ahead b t) (ahead b (biggest_tsn_acked p)) [(s, e)]"
proof (cases "s > e")
  case True
  then show ?thesis using assms by (simp add: seg_block_def word_less_nat_alt word_le_nat_alt hit_none)
next
  case False
  then have se: "unat s \<le> unat e" by (simp add: word_less_nat_alt not_less)
  let ?js = "[unat s..<Suc (unat e)]"
  have js: "?js \<noteq> []" "hd ?js = unat s" "last ?js = unat e" "set ?js = {unat s..unat e}" using se
    by (simp_all add: atLeastLessThanSuc_atLeastAtMost del: upt_Suc)
  define p1 where "p1 = (if s \<le> prev_frag_end p then first_chunk a else seg_tp1 p)"
  define p2 where "p2 = (case p1 of None \<Rightarrow> first_chunk a | Some k \<Rightarrow> Some k)"
  have ptr: "ptr_ok b (sent_queue a) (ahead b t + unat s) p2"
  proof (cases "s \<le> prev_frag_end p \<or> seg_tp1 p = None")
    case True
    then have "p2 = first_chunk a" by (auto simp: p1_def p2_def split: option.split)
    then show ?thesis by (simp add: ptr_ok_first)
  next
    case False
    then obtain k where k: "seg_tp1 p = Some k" "unat (prev_frag_end p) \<le> unat s" by (auto simp: word_le_nat_alt)
    then have "p2 = Some k" using False by (simp add: p1_def p2_def)
    then show ?thesis using assms(5) k ptr_ok_mono [of b "sent_queue a" "ahead b t + unat (prev_frag_end p)" "Some k"] by (simp add: pos_ok_def)
  qed
  have room: "\<forall>j\<in>set ?js. ahead b t + j < 2 ^ 31" using assms(1) u16_less [of e] js(4) by auto
  obtain p' v' a' where r: "seg_for now nr t ?js p2 False (v\<lparr>wake_him := 0\<rparr>) a = Some (p', v', a')" "snd_ok a'" "flight_ok a'" "shape a' = shape a"
    "sent_queue a' = map (hit nr (tsns t {unat s..unat e})) (sent_queue a)" "ptr_ok b (sent_queue a) (ahead b t + unat e) p'"
    using seg_for_ok [OF _ room assms(2-4), of p2 now nr False "v\<lparr>wake_him := 0\<rparr>"] ptr js by (auto simp del: upt_Suc)
  have "sctp_process_segment_range now p1 t s e nr v a = Some (p', v', a')"
    using r(1) by (simp add: sctp_process_segment_range_def p2_def del: upt_Suc)
  moreover define g where "g = (if SCTP_TSN_GT (t + ucast e) (biggest_tsn_acked p) then t + ucast e else biggest_tsn_acked p)"
  ultimately have "seg_block now t nr s e p v a =
      Some (p\<lparr>seg_tp1 := p', chunk_freed := chunk_freed p \<or> wake_him v' \<noteq> 0, prev_frag_end := e, biggest_tsn_acked := g\<rparr>, v', a')"
    using False by (cases "s \<le> prev_frag_end p") (simp_all add: seg_block_def Let_def p1_def)
  moreover have "t + ucast e = of_nat (unat e) + t" by (simp add: add.commute)
  then have "ahead b (t + ucast e) = ahead b t + unat e"
    using ahead_add [of b t "unat e"] assms(1) u16_less [of e] by (simp only:)
  then have "ahead b g = max (ahead b (biggest_tsn_acked p)) (ahead b t + unat e)"
    using GT_ahead [of b "t + ucast e" "biggest_tsn_acked p"] assms(1,6) u16_less [of e] by (simp add: g_def)
  ultimately show ?thesis using False r by (auto simp: pos_ok_def split: option.split)
qed

text \<open>The blocks that are read: the first ones that lie in the chain.\<close>

fun blocks_in :: "mchain \<Rightarrow> int \<Rightarrow> nat \<Rightarrow> (u16 \<times> u16) list" where
  "blocks_in m off 0 = []"
| "blocks_in m off (Suc n) =
     (case sctp_m_getptr m off 4 of None \<Rightarrow> []
      | Some b \<Rightarrow> (be16 (b ! 0) (b ! 1), be16 (b ! 2) (b ! 3)) # blocks_in m (off + 4) n)"

definition covered :: "u32 \<Rightarrow> (u16 \<times> u16) list \<Rightarrow> u32 set" where
  "covered t bs = (\<Union>(s, e)\<in>set bs. tsns t {unat s..unat e})"

lemma covered_simps [simp]: "covered t [] = {}" "covered t ((s, e) # bs) = tsns t {unat s..unat e} \<union> covered t bs"
  by (simp_all add: covered_def)

lemma top_less: "n < 2 ^ 31 \<Longrightarrow> L + 2 ^ 16 \<le> 2 ^ 31 \<Longrightarrow> top_of L n bs < 2 ^ 31"
proof (induction L n bs rule: top_of.induct)
  case (2 L n s e bs)
  then show ?case using u16_less [of e] by (auto simp: max_def)
qed simp

definition blocks_effect :: "u32 \<Rightarrow> nat \<Rightarrow> (u16 \<times> u16) list \<Rightarrow> data_chunk \<Rightarrow> data_chunk" where
  "blocks_effect t n bs c = hit True (covered t (drop n bs)) (hit False (covered t (take n bs)) c)"

lemma blocks_effect_Nil [simp]: "blocks_effect t n [] c = c"
  by (simp add: blocks_effect_def hit_def)

lemma blocks_effect_Cons:
  "blocks_effect t n ((s, e) # bs) c = blocks_effect t (n - 1) bs (hit (n = 0) (tsns t {unat s..unat e}) c)"
  by (cases n) (auto simp: blocks_effect_def hit_def)

lemma seg_blocks_ok:
  assumes "ahead b t + 2 ^ 16 \<le> 2 ^ 31" "snd_ok a" "flight_ok a" "tsn_sorted b (sent_queue a)" "pos_ok b (ahead b t) (sent_queue a) p"
    "ahead b (biggest_tsn_acked p) < 2 ^ 31" "is = [i..<i + n]"
  shows "\<exists>p' v' a'. seg_blocks now m t num_seg is p v a = Some (p', v', a') \<and> snd_ok a' \<and> flight_ok a' \<and> shape a' = shape a \<and>
     sent_queue a' = map (blocks_effect t (num_seg - i) (blocks_in m (seg_offset p) n)) (sent_queue a) \<and>
     ahead b (biggest_tsn_acked p') = top_of (ahead b t) (ahead b (biggest_tsn_acked p)) (blocks_in m (seg_offset p) n)"
  using assms(2-7)
proof (induction "is" arbitrary: i n p v a)
  case Nil
  then show ?case by (cases n) (simp_all add: map_idI)
next
  case (Cons j js)
  then obtain n' where n: "n = Suc n'" "j = i" "js = [Suc i..<Suc i + n']" by (cases n) (auto simp: upt_conv_Cons simp del: upt_Suc)
  define p1 where "p1 = (if i = num_seg then p\<lparr>prev_frag_end := 0, seg_tp1 := first_chunk a\<rparr> else p)"
  define p2 where "p2 = p1\<lparr>seg_offset := seg_offset p + 4\<rparr>"
  have p12: "seg_offset p1 = seg_offset p" "biggest_tsn_acked p2 = biggest_tsn_acked p" "seg_offset p2 = seg_offset p + 4"
    by (simp_all add: p1_def p2_def)
  have pos: "pos_ok b (ahead b t) (sent_queue a) p2"
    using Cons.prems(4) pos_ok_first [of p1 a b "ahead b t"] by (auto simp: p2_def p1_def pos_ok_def split: if_splits option.splits)
  have step: "seg_blocks now m t num_seg (j # js) p v a =
      (case sctp_m_getptr m (seg_offset p) 4 of None \<Rightarrow> Some (p2, v, a)
       | Some x \<Rightarrow> do { (p, v, a) \<leftarrow> seg_block now t (\<not> i < num_seg) (be16 (x ! 0) (x ! 1)) (be16 (x ! 2) (x ! 3)) p2 v a;
                        seg_blocks now m t num_seg js p v a })"
    by (simp add: Let_def n(2) p2_def p1_def split: option.split)
  show ?case
  proof (cases "sctp_m_getptr m (seg_offset p) 4")
    case None
    then show ?thesis using Cons.prems step p12 n(1) by (simp add: map_idI)
  next
    case (Some x)
    define s e where "s = be16 (x ! 0) (x ! 1)" and "e = be16 (x ! 2) (x ! 3)"
    let ?nr = "\<not> i < num_seg"
    obtain p3 v3 a3 where b3: "seg_block now t ?nr s e p2 v a = Some (p3, v3, a3)" "snd_ok a3" "flight_ok a3" "shape a3 = shape a"
      "sent_queue a3 = map (hit ?nr (tsns t {unat s..unat e})) (sent_queue a)" "pos_ok b (ahead b t) (sent_queue a3) p3"
      "seg_offset p3 = seg_offset p2" "ahead b (biggest_tsn_acked p3) = top_of (ahead b t) (ahead b (biggest_tsn_acked p2)) [(s, e)]"
      using seg_block_ok [OF assms(1) Cons.prems(1-3) pos] Cons.prems(5) p12 by fastforce
    have big: "ahead b (biggest_tsn_acked p3) < 2 ^ 31" unfolding b3(8) p12 by (rule top_less [OF Cons.prems(5) assms(1)])
    obtain p' v' a' where r: "seg_blocks now m t num_seg js p3 v3 a3 = Some (p', v', a')" "snd_ok a'" "flight_ok a'" "shape a' = shape a3"
      "sent_queue a' = map (blocks_effect t (num_seg - Suc i) (blocks_in m (seg_offset p3) n')) (sent_queue a3)"
      "ahead b (biggest_tsn_acked p') = top_of (ahead b t) (ahead b (biggest_tsn_acked p3)) (blocks_in m (seg_offset p3) n')"
      using Cons.IH [OF b3(2,3) _ b3(6) big n(3)] b3(5) Cons.prems(3) by fastforce
    have bs: "blocks_in m (seg_offset p) n = (s, e) # blocks_in m (seg_offset p3) n'"
      by (simp add: n(1) Some s_def e_def b3(7) p12)
    have "seg_blocks now m t num_seg (j # js) p v a = Some (p', v', a')"
      unfolding step Some option.case s_def [symmetric] e_def [symmetric] b3(1) by (simp add: r(1))
    moreover have "sent_queue a' = map (blocks_effect t (num_seg - i) (blocks_in m (seg_offset p) n)) (sent_queue a)"
      unfolding r(5) b3(5) bs by (simp add: blocks_effect_Cons not_less)
    ultimately show ?thesis using r(2-4,6) b3(4,8) bs p12 by simp
  qed
qed

end
