(* ===== verification/Snd_Revoke.thy ===== *)
theory Snd_Revoke
  imports Snd_Correct Cc_Correct
begin

text \<open>
  What a SACK with gap blocks makes of the sent queue: the blocks are processed by
  \<^verbatim>\<open>sctp_handle_segments\<close>, then \<^verbatim>\<open>sctp_check_for_revoked\<close> goes through the queue. The
  counters of the data in flight stay exact throughout.
\<close>

section \<open>A chunk comes back into the flight\<close>

definition enter :: "data_chunk \<Rightarrow> nat \<Rightarrow> u32 list \<times> u32 \<times> u32 \<Rightarrow> u32 list \<times> u32 \<times> u32" where
  "enter c k = (\<lambda>(fs, tf, cnt). (fs[k := fs ! k + ucast (book_size c)], tf + ucast (book_size c), cnt + 1))"

lemma revoke_chunk_eq:
  assumes "valid_net a (chk_whoTo c)"
  shows "\<exists>a'. revoke_chunk c a = Some (c\<lparr>chk_sent := SCTP_DATAGRAM_SENT, chunk_was_revoked := 1\<rparr>, a') \<and>
    counters a' = enter c (the (chk_whoTo c)) (counters a) \<and> shape a' = shape a \<and> sent_queue a' = sent_queue a"
proof -
  obtain n d where nd: "net_at (chk_whoTo c) a = Some (n, d)" using assms valid_net_at by blast
  have nd': "net_at (chk_whoTo c) (sctp_total_flight_increase c a) = Some (n, d)"
    using nd by (cases "chk_whoTo c") (simp_all add: net_at_def sctp_total_flight_increase_def split: if_splits)
  have "flights a ! the (chk_whoTo c) = flight_size n" using nd by (auto simp: net_at_def split: option.splits if_splits)
  then show ?thesis
    by (simp add: revoke_chunk_def nd Let_def put_net_flight [OF nd'] enter_def counters_def [of a] sctp_flight_size_increase_def)
      (simp add: sctp_total_flight_increase_def shape_def)
qed

lemma flight_room:
  assumes "k < length q" "\<not> in_flight (q ! k)" "\<And>c. f c \<le> g c"
  shows "flight_of f q + g (q ! k) \<le> sum_list (map g q)"
proof -
  let ?h = "\<lambda>c. if in_flight c then f c else 0"
  have "sum_list (map ?h (q[k := q ! k])) + 0 \<le> sum_list ((map g q)[k := 0])"
    using assms by (subst map_update) (auto intro!: sum_list_mono2 simp: nth_list_update)
  moreover have "g (q ! k) \<le> sum_list (map g q)" using assms(1) elem_le_sum_list [of k "map g q"] by simp
  ultimately show ?thesis using assms(1) by (simp add: flight_of_def sum_list_update)
qed

lemma enter_ok:
  assumes ok: "flight_ok a" "snd_ok a" and k: "k < length (sent_queue a)" "\<not> in_flight (sent_queue a ! k)" "in_flight c"
    and c: "book_size c = book_size (sent_queue a ! k)" "chk_whoTo c = Some i" "i < length (flights a)"
    and b: "counters b = enter c i (counters a)" "sent_queue b = (sent_queue a)[k := c]"
  shows "flight_ok b"
proof -
  have upd: "flight_of f (sent_queue b) = flight_of f (sent_queue a) + f c" for f
    using flight_of_update [OF k(1), of f c] k(2,3) b(2) by simp
  have room: "flight_of f (sent_queue a) + book c < 2 ^ 32" if "\<And>c. f c \<le> book c" for f
    using flight_room [OF k(1,2), of f book] that ok(2) c(1) by (simp add: snd_ok_def)
  have cnt: "flight_of (\<lambda>c. 1) (sent_queue a) + 1 < 2 ^ 32"
    using flight_room [OF k(1,2), of "\<lambda>c. 1" "\<lambda>c. 1"] ok(2) by (simp add: snd_ok_def sum_list_triv)
  have b': "flights b = (flights a)[i := flights a ! i + ucast (book_size c)]"
    "total_flight b = total_flight a + ucast (book_size c)" "total_flight_count b = total_flight_count a + 1"
    using b(1) by (simp_all add: counters_def enter_def)
  have "unat (flights b ! j) = flight_of (to_net j) (sent_queue b)" if "j < length (flights b)" for j
    using that ok(1) c(2,3) b'(1) room [of "to_net i"] unfolding upd
    by (cases "j = i") (auto simp: flight_ok_def to_net_def unat_add_small)
  moreover have "unat (total_flight b) = flight_of book (sent_queue b)" "unat (total_flight_count b) = flight_of (\<lambda>c. 1) (sent_queue b)"
    using ok(1) room [of book] cnt unfolding upd b' by (simp_all add: flight_ok_def unat_add_small)
  ultimately show ?thesis by (simp add: flight_ok_def)
qed

section \<open>The loop\<close>

definition revoke_effect :: "u32 \<Rightarrow> u32 \<Rightarrow> data_chunk \<Rightarrow> data_chunk" where
  "revoke_effect cum big c =
     (if SCTP_TSN_GT (tsn c) cum \<and> \<not> SCTP_TSN_GT (tsn c) big
      then if chk_sent c = SCTP_DATAGRAM_ACKED then c\<lparr>chk_sent := SCTP_DATAGRAM_SENT, chunk_was_revoked := 1\<rparr>
           else if chk_sent c = SCTP_DATAGRAM_MARKED then c\<lparr>chk_sent := SCTP_DATAGRAM_ACKED\<rparr>
           else c
      else c)"

lemma revoke_effect_keep [simp]:
  "tsn (revoke_effect cum big c) = tsn c" "book_size (revoke_effect cum big c) = book_size c" "chk_whoTo (revoke_effect cum big c) = chk_whoTo c"
  by (simp_all add: revoke_effect_def)

lemma chunk_ok_revoke: "chunk_ok a c \<Longrightarrow> chunk_ok a (revoke_effect cum big c)"
  by (auto simp: chunk_ok_def revoke_effect_def datagram_states)

lemma revoke_step:
  assumes ok: "flight_ok (a\<lparr>sent_queue := ds @ c # cs\<rparr>)" "snd_ok (a\<lparr>sent_queue := ds @ c # cs\<rparr>)"
    and le: "\<not> (SCTP_TSN_GT (tsn c) cum \<and> SCTP_TSN_GT (tsn c) big)"
  shows "\<exists>a'. (if SCTP_TSN_GT (tsn c) cum
       then if chk_sent c = SCTP_DATAGRAM_ACKED then revoke_chunk c a
            else if chk_sent c = SCTP_DATAGRAM_MARKED then Some (c\<lparr>chk_sent := SCTP_DATAGRAM_ACKED\<rparr>, a)
            else Some (c, a)
       else Some (c, a)) = Some (revoke_effect cum big c, a') \<and> shape a' = shape a \<and> sent_queue a' = sent_queue a \<and>
     flight_ok (a'\<lparr>sent_queue := (ds @ [revoke_effect cum big c]) @ cs\<rparr>) \<and>
     snd_ok (a'\<lparr>sent_queue := (ds @ [revoke_effect cum big c]) @ cs\<rparr>)"
proof -
  let ?q = "ds @ c # cs" and ?a = "a\<lparr>sent_queue := ds @ c # cs\<rparr>" and ?c = "revoke_effect cum big c"
  have upd: "(ds @ [?c]) @ cs = ?q[length ds := ?c]" and k: "length ds < length ?q" "?q ! length ds = c" by simp_all
  have cok: "chunk_ok ?a c" using ok(2) by (simp add: snd_ok_def)
  have snd: "snd_ok (a'\<lparr>sent_queue := (ds @ [?c]) @ cs\<rparr>)" if "shape a' = shape a" for a'
    by (rule snd_ok_update [OF ok(2), of _ "length ds" ?c]) (use that cok chunk_ok_revoke [OF cok] in \<open>simp_all add: shape_def\<close>)
  show ?thesis
  proof (cases "SCTP_TSN_GT (tsn c) cum \<and> chk_sent c = SCTP_DATAGRAM_ACKED")
    case True
    then have "valid_net ?a (chk_whoTo c)" using cok by (auto simp: chunk_ok_def datagram_states)
    then have v: "valid_net a (chk_whoTo c)" by (simp add: valid_net_def split: option.splits)
    then obtain i where i: "chk_whoTo c = Some i" "i < length (flights a)" by (auto simp: valid_net_def split: option.splits)
    have eff: "?c = c\<lparr>chk_sent := SCTP_DATAGRAM_SENT, chunk_was_revoked := 1\<rparr>" using True le by (simp add: revoke_effect_def)
    obtain a' where a': "revoke_chunk c a = Some (?c, a')" "counters a' = enter c i (counters a)" "shape a' = shape a" "sent_queue a' = sent_queue a"
      using revoke_chunk_eq [OF v] i(1) eff by auto
    have "flight_ok (a'\<lparr>sent_queue := (ds @ [?c]) @ cs\<rparr>)"
      by (rule enter_ok [OF ok, of "length ds" ?c i])
        (use True a'(2) i eff in \<open>simp_all add: in_flight_def datagram_states counters_def enter_def upd\<close>)
    then show ?thesis using a' snd [OF a'(3)] True by simp
  next
    case False
    have "flight_ok (a\<lparr>sent_queue := (ds @ [?c]) @ cs\<rparr>)"
      by (rule stay_ok [OF ok(1), of "length ds" ?c])
        (use False in \<open>auto simp: in_flight_def revoke_effect_def datagram_states counters_def\<close>)
    moreover have "(if SCTP_TSN_GT (tsn c) cum
       then if chk_sent c = SCTP_DATAGRAM_ACKED then revoke_chunk c a
            else if chk_sent c = SCTP_DATAGRAM_MARKED then Some (c\<lparr>chk_sent := SCTP_DATAGRAM_ACKED\<rparr>, a)
            else Some (c, a)
       else Some (c, a)) = Some (?c, a)" using False le by (auto simp: revoke_effect_def)
    ultimately show ?thesis using snd [of a] by simp
  qed
qed

lemma tsn_sorted_Cons: "tsn_sorted b (c # cs) \<longleftrightarrow> ahead b (tsn c) < 2 ^ 31 \<and> (\<forall>x\<in>set cs. ahead b (tsn c) < ahead b (tsn x)) \<and> tsn_sorted b cs"
  by (auto simp: tsn_sorted_def)

lemma revoke_effect_beyond:
  assumes "tsn_sorted b (c # cs)" "SCTP_TSN_GT (tsn c) big" "ahead b big < 2 ^ 31"
  shows "map (revoke_effect cum big) (c # cs) = c # cs"
proof -
  have "SCTP_TSN_GT (tsn x) big" if "x \<in> set (c # cs)" for x
    using that assms GT_ahead [of b "tsn c" big] GT_ahead [of b "tsn x" big] by (auto simp: tsn_sorted_Cons) (auto simp: tsn_sorted_def list_all_iff)
  then have "\<forall>x\<in>set (c # cs). revoke_effect cum big x = x" by (simp add: revoke_effect_def)
  then show ?thesis by (simp add: map_idI)
qed

lemma revoke_loop_ok:
  assumes "flight_ok (a\<lparr>sent_queue := ds @ cs\<rparr>)" "snd_ok (a\<lparr>sent_queue := ds @ cs\<rparr>)" "tsn_sorted b cs" "ahead b big < 2 ^ 31"
    "\<forall>c\<in>set cs. chk_sent c \<noteq> SCTP_DATAGRAM_UNSENT"
  shows "\<exists>a'. revoke_loop cum big cs a = Some (map (revoke_effect cum big) cs, a') \<and> shape a' = shape a \<and>
    flight_ok (a'\<lparr>sent_queue := ds @ map (revoke_effect cum big) cs\<rparr>) \<and> snd_ok (a'\<lparr>sent_queue := ds @ map (revoke_effect cum big) cs\<rparr>)"
  using assms
proof (induction cs arbitrary: ds a)
  case (Cons c cs)
  let ?c = "revoke_effect cum big c"
  show ?case
  proof (cases "SCTP_TSN_GT (tsn c) cum \<and> SCTP_TSN_GT (tsn c) big")
    case True
    then show ?thesis using Cons.prems revoke_effect_beyond [OF Cons.prems(3) _ Cons.prems(4), of cum] by (simp del: list.map)
  next
    case False
    obtain a1 where a1: "(if SCTP_TSN_GT (tsn c) cum
         then if chk_sent c = SCTP_DATAGRAM_ACKED then revoke_chunk c a
              else if chk_sent c = SCTP_DATAGRAM_MARKED then Some (c\<lparr>chk_sent := SCTP_DATAGRAM_ACKED\<rparr>, a)
              else Some (c, a)
         else Some (c, a)) = Some (?c, a1)" "shape a1 = shape a"
      "flight_ok (a1\<lparr>sent_queue := (ds @ [?c]) @ cs\<rparr>)" "snd_ok (a1\<lparr>sent_queue := (ds @ [?c]) @ cs\<rparr>)"
      using revoke_step [OF Cons.prems(1,2) False] by blast
    have "tsn_sorted b cs" "\<forall>c\<in>set cs. chk_sent c \<noteq> SCTP_DATAGRAM_UNSENT" using Cons.prems(3,5) by (simp_all add: tsn_sorted_Cons)
    from Cons.IH [OF a1(3,4) this(1) Cons.prems(4) this(2)] obtain a' where a': "revoke_loop cum big cs a1 = Some (map (revoke_effect cum big) cs, a')"
      "shape a' = shape a1" "flight_ok (a'\<lparr>sent_queue := (ds @ [?c]) @ map (revoke_effect cum big) cs\<rparr>)"
      "snd_ok (a'\<lparr>sent_queue := (ds @ [?c]) @ map (revoke_effect cum big) cs\<rparr>)" by blast
    have "chk_sent ?c \<noteq> SCTP_DATAGRAM_UNSENT" using Cons.prems(5) by (simp add: revoke_effect_def datagram_states)
    then have "revoke_loop cum big (c # cs) a = Some (map (revoke_effect cum big) (c # cs), a')"
      using False by (simp only: revoke_loop.simps if_False a1(1)) (simp add: a'(1))
    then show ?thesis using a'(2-4) a1(2) by simp
  qed
qed simp

lemma check_for_revoked_ok:
  assumes "flight_ok a" "snd_ok a" "tsn_sorted b (sent_queue a)" "ahead b big < 2 ^ 31" "\<forall>c\<in>set (sent_queue a). chk_sent c \<noteq> SCTP_DATAGRAM_UNSENT"
  shows "\<exists>a'. sctp_check_for_revoked cum big a = Some a' \<and> sent_queue a' = map (revoke_effect cum big) (sent_queue a) \<and> flight_ok a' \<and> snd_ok a'"
proof -
  have "a\<lparr>sent_queue := [] @ sent_queue a\<rparr> = a" by simp
  from revoke_loop_ok [where a = a and ds = "[]" and cs = "sent_queue a" and cum = cum and big = big and b = b] this assms obtain a' where
    "revoke_loop cum big (sent_queue a) a = Some (map (revoke_effect cum big) (sent_queue a), a')"
    "flight_ok (a'\<lparr>sent_queue := map (revoke_effect cum big) (sent_queue a)\<rparr>)" "snd_ok (a'\<lparr>sent_queue := map (revoke_effect cum big) (sent_queue a)\<rparr>)" by auto
  then show ?thesis by (simp add: sctp_check_for_revoked_def)
qed

section \<open>A SACK with gap blocks\<close>

lemma handle_segments_ok:
  assumes "snd_ok a" "flight_ok a" "tsn_sorted b (sent_queue a)" "ahead b t + 2 ^ 16 \<le> 2 ^ 31"
  shows "\<exists>p v' a'. sctp_handle_segments now m off t t num_seg num_nr_seg v a = Some (p, v', a') \<and> snd_ok a' \<and> flight_ok a' \<and>
    sent_queue a' = map (blocks_effect t num_seg (blocks_in m off (num_seg + num_nr_seg))) (sent_queue a) \<and>
    ahead b (biggest_tsn_acked p) = top_of (ahead b t) (ahead b t) (blocks_in m off (num_seg + num_nr_seg))"
  using seg_blocks_ok [OF assms(4,1-3), of "\<lparr>seg_offset = off, seg_tp1 = first_chunk a, prev_frag_end = 0, chunk_freed = False, biggest_tsn_acked = t\<rparr>"
      "[0..<num_seg + num_nr_seg]" 0 "num_seg + num_nr_seg" now m num_seg v] assms(4) pos_ok_first
  by (fastforce simp: sctp_handle_segments_def)

lemma blocks_effect_sent: "chk_sent c \<noteq> SCTP_DATAGRAM_UNSENT \<Longrightarrow> chk_sent (blocks_effect t n bs c) \<noteq> SCTP_DATAGRAM_UNSENT"
  by (auto simp: blocks_effect_def hit_def seg_effect_def seg_mark_def Let_def datagram_states)

lemma blocks_effect_tsn [simp]: "tsn (blocks_effect t n bs c) = tsn c"
  by (simp add: blocks_effect_def)

lemma tsn_sorted_blocks [simp]: "tsn_sorted b (map (blocks_effect t n bs) q) = tsn_sorted b q"
  by (simp add: tsn_sorted_def sorted_wrt_map list_all_iff)

text \<open>
  C8: The gap blocks of a SACK are processed without following a NULL or dangling pointer, whatever the blocks are: malformed,
  overlapping, out of order or cut off by the end of the packet. Exactly the chunks whose TSN lies in a well-formed block
  are changed, each as its state requires, by a revocable block into marked and by one that cannot be revoked into finally
  acknowledged with its data freed; the condition is that the sent queue is sorted by TSN within half of the number space.
\<close>

theorem gap_blocks_mark_covered_chunks:
  assumes "snd_ok a" "flight_ok a" "tsn_sorted b (sent_queue a)" "ahead b t + 2 ^ 16 \<le> 2 ^ 31"
  shows "\<exists>p v' a'. sctp_handle_segments now m off t t num_seg num_nr_seg v a = Some (p, v', a') \<and>
    sent_queue a' = map (blocks_effect t num_seg (blocks_in m off (num_seg + num_nr_seg))) (sent_queue a)"
  using handle_segments_ok [OF assms] by blast

definition demo_dest :: dest where
  "demo_dest = \<lparr>lastsv = 40, net_ack2 = 0, this_sack_highest_newack = 0, pseudo_cumack = 0, rtx_pseudo_cumack = 0, saw_newack = 0,
     find_pseudo_cumack = 1, find_rtx_pseudo_cumack = 1, RTO_measured = 1, rto_needed = 0, cwr_window_tsn = 0,
     will_exit_fast_recovery = 0, dest_state = 1, error_count = 0, last_active = 0, dest_window_probe = 0, rxt_pending = True, has_route = True, src_addr = True, src_addr_selected = 1,
     failure_threshold = 5, pf_threshold = 5, last_sent_sec = 0\<rparr>"

definition demo_chunk :: "u32 \<Rightarrow> int \<Rightarrow> data_chunk" where
  "demo_chunk t st = \<lparr>tsn = t, sid = 0, chk_sent = st, chk_snd_count = 1, chk_send_size = 116, book_size = 100, chk_whoTo = Some 0,
     chunk_was_revoked = 0, do_rtt = 0, sent_rcv_time = (0, 0), chk_window_probe = 0, has_data = True, mid = 0, pr_flags = 0,
     rcv_flags = 3, timetodrop = (0, 0), doing_fast_retransmit = 0, fast_retran_tsn = 0, fwd_tsn_cnt = 0, no_fr_allowed = 0\<rparr>"

text \<open>Three chunks of 100 bytes were sent and none is acknowledged yet.\<close>

definition demo_snd :: "u32 \<Rightarrow> snd_asoc" where
  "demo_snd t = \<lparr>asoc_cc = demo_cc_asoc [(demo_net 0 300 0)\<lparr>cwnd := 4380\<rparr>], snd_module = SCTP_CC_RFC2581, dests = [demo_dest],
     sent_queue = [demo_chunk t 1, demo_chunk (t + 1) 1, demo_chunk (t + 2) 1],
     strmout = [\<lparr>chunks_on_queues = 3, strm_state = 2, outqueue = [], next_mid_ordered = 3, next_mid_unordered = 0\<rparr>], sent_queue_retran_cnt = 0, total_flight = 300,
     total_flight_count = 3, this_sack_highest_gap = 0, trigger_reset = 0, chunks_on_out_queue = 3, total_output_queue_size = 300,
     so_snd_cc = Some 300, ep_flags = 2, sat_network = 0, sat_network_lockout = 0, minrto = 1000, maxrto = 60000, initial_rto = 3000, snd_queue = [], send_queue_cnt = 0,
     sent_queue_cnt = 3, sent_queue_cnt_removeable = 0, pr_sctp_cnt = 0, prsctp_supported = 0, idata_supported = 0, last_acked_seq = t - 1,
     advanced_peer_ack_point = t - 1, stream_queue_cnt = 0, saw_sack_with_frags = 0, saw_sack_with_nr_frags = 0, overall_error_count = 0, snd_state = 8,
     snd_alternate = None, snd_primary = Some 0, sat_t3_loss_recovery = 0, sat_t3_recovery_tsn = 0, sctp_sws_sender = 1420, recv_callback = False,
     send_callback = False, send_sb_threshold = 0, snd_hiwat = 262144, sb_send_resv = 0, sctp_cmt_pf = 0, hb_random_values = [0, 0, 0, 0],
     hb_random_idx = 0, hb_ect_randombit = 0, random_used = 0, max_send_times = 10, ctl_queue = [], snd_events = []\<rparr>"

definition demo_vars :: seg_vars where
  "demo_vars = \<lparr>biggest_newly_acked_tsn = 0, this_sack_lowest_newack = 0, rto_ok = True, wake_him = 0\<rparr>"

lemma demo_snd_ok: "snd_ok (demo_snd t)" "flight_ok (demo_snd t)"
  by (simp_all add: demo_snd_def demo_chunk_def snd_ok_def chunk_ok_def valid_net_def flight_ok_def flight_of_def in_flight_def to_net_def
      demo_cc_asoc_def demo_net_def demo_dest_def datagram_states)

lemma demo_snd_sorted: "tsn_sorted t (sent_queue (demo_snd t))"
  by (simp add: demo_snd_def demo_chunk_def tsn_sorted_def ahead_def)

text \<open>The block 3 to 3 after the cumulative TSN 999 marks TSN 1002; one malformed block in front of it is skipped.\<close>

theorem gap_blocks_mark_covered_chunks_witness:
  "\<exists>p v a. sctp_handle_segments (0, 0) [[0, 5, 0, 2, 0], [3, 0, 3]] 0 999 999 2 0 demo_vars (demo_snd 1000) = Some (p, v, a) \<and>
     map chk_sent (sent_queue a) = [1, 1, 20010]"
proof -
  let ?m = "[[0, 5, 0, 2, 0], [3, 0, 3]] :: mchain"
  have "blocks_in ?m 0 (Suc (Suc 0)) = [(5, 2), (3, 3)]" by (simp add: m_getptr_eq be16_def)
  then have b: "blocks_in ?m 0 (2 + 0) = [(5, 2), (3, 3)]" by (simp only: numeral_2_eq_2 add_0_right)
  have q: "map chk_sent (map (blocks_effect 999 2 [(5, 2), (3, 3)]) (sent_queue (demo_snd 1000))) = [1, 1, 20010]"
    by (simp add: demo_snd_def demo_chunk_def blocks_effect_def hit_def tsns_def seg_effect_def seg_mark_def in_flight_def datagram_states)
  have "tsn_sorted 999 (sent_queue (demo_snd 1000))" "ahead 999 999 + 2 ^ 16 \<le> 2 ^ 31"
    by (simp_all add: demo_snd_def demo_chunk_def tsn_sorted_def ahead_def)
  from gap_blocks_mark_covered_chunks [OF demo_snd_ok this, of "(0, 0)" ?m 0 2 0 demo_vars] q show ?thesis
    unfolding b by force
qed

text \<open>
  The data in flight is counted exactly while a SACK is processed: the total number of bytes, the number of chunks and the bytes of
  each destination are the sums over the chunks that are in flight, after the gap blocks have been processed and after
  chunks that the peer no longer reports have been put back.
\<close>

theorem sack_keeps_flight_exact:
  assumes "snd_ok a" "flight_ok a" "tsn_sorted b (sent_queue a)" "ahead b t + 2 ^ 16 \<le> 2 ^ 31"
    "\<forall>c\<in>set (sent_queue a). chk_sent c \<noteq> SCTP_DATAGRAM_UNSENT"
  shows "\<exists>p v' a' a''. sctp_handle_segments now m off t t num_seg num_nr_seg v a = Some (p, v', a') \<and> flight_ok a' \<and>
    sctp_check_for_revoked t (biggest_tsn_acked p) a' = Some a'' \<and> flight_ok a'' \<and> snd_ok a''"
proof -
  obtain p v' a' where h: "sctp_handle_segments now m off t t num_seg num_nr_seg v a = Some (p, v', a')" "snd_ok a'" "flight_ok a'"
    "sent_queue a' = map (blocks_effect t num_seg (blocks_in m off (num_seg + num_nr_seg))) (sent_queue a)"
    "ahead b (biggest_tsn_acked p) = top_of (ahead b t) (ahead b t) (blocks_in m off (num_seg + num_nr_seg))"
    using handle_segments_ok [OF assms(1-4)] by blast
  have "ahead b (biggest_tsn_acked p) < 2 ^ 31" using h(5) top_less [of "ahead b t" "ahead b t"] assms(4) by simp
  from check_for_revoked_ok [OF h(3,2) _ this, of t] assms(3,5) h(4) show ?thesis
    using h by (fastforce simp: blocks_effect_sent)
qed

theorem sack_keeps_flight_exact_witness:
  "\<exists>p v a a'. sctp_handle_segments (0, 0) [[0, 3, 0, 3]] 0 999 999 1 0 demo_vars (demo_snd 1000) = Some (p, v, a) \<and>
     sctp_check_for_revoked 999 (biggest_tsn_acked p) a = Some a' \<and> flight_ok a'"
proof -
  have "tsn_sorted 999 (sent_queue (demo_snd 1000))" "\<forall>c\<in>set (sent_queue (demo_snd 1000)). chk_sent c \<noteq> SCTP_DATAGRAM_UNSENT"
    by (simp_all add: demo_snd_def demo_chunk_def tsn_sorted_def ahead_def datagram_states)
  with sack_keeps_flight_exact [OF demo_snd_ok, of 999 1000 999 "(0, 0)" "[[0, 3, 0, 3]]" 0 1 0 demo_vars] show ?thesis
    by (fastforce simp: ahead_def)
qed

end
