(* ===== verification/Snd_Roundtrip.thy ===== *)
theory Snd_Roundtrip
  imports Sack_Queue Snd_Revoke
begin

text \<open>
  From the receiver to the sender: the SACK that one side builds from its mapping arrays (theory
  \<open>Sack_Correct\<close>, predicate \<open>acknowledges\<close>) is read block by block from the packet by the other side, which then knows exactly
  which of its chunks have arrived.
\<close>

section \<open>Blocks on the wire\<close>

definition wire_blocks :: "(u16 \<times> u16) list \<Rightarrow> bytes" where
  "wire_blocks bs = concat (map (\<lambda>(s, e). bytes_of_be16 s @ bytes_of_be16 e) bs)"

lemma wire_blocks_simps [simp]:
  "wire_blocks [] = []" "wire_blocks ((s, e) # bs) = bytes_of_be16 s @ bytes_of_be16 e @ wire_blocks bs"
  by (simp_all add: wire_blocks_def)

lemma blocks_in_wire:
  assumes "concat m = pre @ wire_blocks bs @ post"
  shows "blocks_in m (int (length pre)) (length bs) = bs"
  using assms
proof (induction bs arbitrary: pre)
  case (Cons x bs)
  obtain s e where x: "x = (s, e)" by fastforce
  let ?h = "bytes_of_be16 s @ bytes_of_be16 e"
  have "concat m = (pre @ ?h) @ wire_blocks bs @ post" using Cons.prems x by simp
  from Cons.IH [OF this] have "blocks_in m (int (length pre) + 4) (length bs) = bs" by (simp add: add.commute)
  moreover have "sctp_m_getptr m (int (length pre)) 4 = Some ?h"
    using Cons.prems x by (simp add: m_getptr_eq bytes_of_be16_def)
  ultimately show ?case by (simp add: x bytes_of_be16_def)
qed simp

section \<open>What the sender knows\<close>

text \<open>The number of a chunk beyond the cumulative TSN \<open>C\<close>, without wrap-around.\<close>

definition number_of :: "int \<Rightarrow> data_chunk \<Rightarrow> int" where
  "number_of C c = C + int (unat (tsn c - word_of_int C))"

definition block_pairs :: "sack_chunk \<Rightarrow> (u16 \<times> u16) list" where
  "block_pairs s = map (\<lambda>b. (start b, last_of b)) (gap_blocks s)"

lemma tsns_iff:
  assumes "K \<subseteq> {..<2 ^ 16}"
  shows "t' \<in> tsns t K \<longleftrightarrow> unat (t' - t) \<in> K"
proof
  assume "t' \<in> tsns t K"
  then obtain j where "j \<in> K" "t' = of_nat j + t" by (auto simp: tsns_def)
  moreover from this assms have "j < 2 ^ 16" by auto
  then have "unat (of_nat j :: u32) = j" by (simp add: unat_of_nat take_bit_nat_eq_self)
  ultimately show "unat (t' - t) \<in> K" by simp
next
  assume "unat (t' - t) \<in> K"
  moreover have "t' = of_nat (unat (t' - t)) + t" by simp
  ultimately show "t' \<in> tsns t K" unfolding tsns_def by (rule rev_image_eqI)
qed

lemma covered_reported: "tsn c \<in> covered (word_of_int C) (block_pairs s) \<longleftrightarrow> number_of C c \<in> reported C (gap_blocks s)"
proof -
  have "tsn c \<in> tsns (word_of_int C) {unat (start b)..unat (last_of b)} \<longleftrightarrow>
      C + uint (start b) \<le> number_of C c \<and> number_of C c \<le> C + uint (last_of b)" for b
  proof -
    have "{unat (start b)..unat (last_of b)} \<subseteq> {..<2 ^ 16}" using u16_less [of "last_of b"] by auto
    from tsns_iff [OF this, of "tsn c" "word_of_int C"] show ?thesis
      unfolding number_of_def uint_nat by (simp del: of_nat_unat)
  qed
  then show ?thesis by (auto simp: covered_def reported_def block_pairs_def)
qed

lemma top_of_ge: "n \<le> top_of L n bs"
  by (induction L n bs rule: top_of.induct) (auto simp: max_def split: if_splits)

lemma top_of_block: "(s, e) \<in> set bs \<Longrightarrow> s \<le> e \<Longrightarrow> L + unat e \<le> top_of L n bs"
proof (induction L n bs rule: top_of.induct)
  case (2 L n s' e' bs)
  then show ?case using top_of_ge [of "max n (L + unat e)" L bs] by (auto simp: max_def split: if_splits)
qed simp

lemma ahead_number:
  assumes "SCTP_TSN_GT (tsn c) (word_of_int C)" "ahead b (tsn c) < 2 ^ 31" "ahead b (word_of_int C) < 2 ^ 31"
  shows "int (ahead b (tsn c)) = int (ahead b (word_of_int C)) + (number_of C c - C)"
proof -
  have lt: "ahead b (word_of_int C) < ahead b (tsn c)" using assms GT_ahead by blast
  have "tsn c - word_of_int C = (tsn c - b) - (word_of_int C - b)" by simp
  then have "unat (tsn c - word_of_int C) = ahead b (tsn c) - ahead b (word_of_int C)"
    using lt unfolding ahead_def by (simp only: unat_diff_cases [of "tsn c - b"]) simp
  with lt show ?thesis by (simp add: number_of_def)
qed

text \<open>The chunk after a SACK with the blocks \<open>bs\<close>, all of them revocable.\<close>

definition sack_effect :: "u32 \<Rightarrow> u32 \<Rightarrow> (u16 \<times> u16) list \<Rightarrow> data_chunk \<Rightarrow> data_chunk" where
  "sack_effect t big bs c = revoke_effect t big (blocks_effect t (length bs) bs c)"

lemma sack_effect_acked:
  assumes st: "chk_sent c \<noteq> SCTP_DATAGRAM_MARKED" "chk_sent c \<noteq> SCTP_FORWARD_TSN_SKIP" "chk_sent c \<noteq> SCTP_DATAGRAM_NR_ACKED"
      "chk_sent c \<noteq> SCTP_DATAGRAM_UNSENT"
    and gt: "SCTP_TSN_GT (tsn c) t"
    and top: "tsn c \<in> covered t bs \<or> chk_sent c = SCTP_DATAGRAM_ACKED \<Longrightarrow> \<not> SCTP_TSN_GT (tsn c) big"
  shows "chk_sent (sack_effect t big bs c) = SCTP_DATAGRAM_ACKED \<longleftrightarrow> tsn c \<in> covered t bs"
  using assms by (auto simp: sack_effect_def revoke_effect_def blocks_effect_def hit_def seg_effect_def seg_mark_def Let_def datagram_states)

text \<open>The blocks of a SACK that acknowledges \<open>R\<close>, read and processed by the sender.\<close>

lemma acknowledged_reaches_sender:
  assumes ack: "acknowledges C R space s" "20 + 4 * length (gap_blocks s) \<le> space" and t: "t = cum_tsn_ack s"
    and m: "concat m = pre @ wire_blocks (block_pairs s) @ post"
    and a: "snd_ok a" "flight_ok a" "tsn_sorted b (sent_queue a)" "ahead b t + 2 ^ 16 \<le> 2 ^ 31"
    and st: "\<forall>c\<in>set (sent_queue a). chk_sent c \<noteq> SCTP_DATAGRAM_UNSENT \<and> chk_sent c \<noteq> SCTP_DATAGRAM_MARKED \<and>
        chk_sent c \<noteq> SCTP_FORWARD_TSN_SKIP \<and> chk_sent c \<noteq> SCTP_DATAGRAM_NR_ACKED"
    and before: "\<forall>c\<in>set (sent_queue a). chk_sent c = SCTP_DATAGRAM_ACKED \<longrightarrow> (\<exists>x\<in>R. number_of C c \<le> x)"
  shows "\<exists>p v' a1 a2. sctp_handle_segments now m (int (length pre)) t t (unat (num_gap_ack_blks s)) 0 v a = Some (p, v', a1) \<and>
    sctp_check_for_revoked t (biggest_tsn_acked p) a1 = Some a2 \<and> length (sent_queue a2) = length (sent_queue a) \<and>
    (\<forall>k < length (sent_queue a). SCTP_TSN_GT (tsn (sent_queue a ! k)) t \<longrightarrow>
       (chk_sent (sent_queue a2 ! k) = SCTP_DATAGRAM_ACKED \<longleftrightarrow> number_of C (sent_queue a ! k) \<in> R))"
proof -
  let ?bs = "block_pairs s"
  have n: "unat (num_gap_ack_blks s) = length ?bs" and tC: "t = word_of_int C" and rep: "reported C (gap_blocks s) = {x \<in> R. C < x}"
    and runs: "runs_ok (map (ivl 0) (gap_blocks s))"
    using ack t by (auto simp: acknowledges_def block_pairs_def)
  have bl: "blocks_in m (int (length pre)) (length ?bs + 0) = ?bs" using blocks_in_wire [OF m] by simp
  obtain p v' a1 where h: "sctp_handle_segments now m (int (length pre)) t t (length ?bs) 0 v a = Some (p, v', a1)" "snd_ok a1" "flight_ok a1"
    "sent_queue a1 = map (blocks_effect t (length ?bs) ?bs) (sent_queue a)" "ahead b (biggest_tsn_acked p) = top_of (ahead b t) (ahead b t) ?bs"
    using handle_segments_ok [OF a, of now m "int (length pre)" "length ?bs" 0 v] unfolding bl by blast
  have big: "ahead b (biggest_tsn_acked p) < 2 ^ 31" using h(5) top_less [of "ahead b t" "ahead b t"] a(4) by simp
  have sorted: "tsn_sorted b (sent_queue a1)" "\<forall>c\<in>set (sent_queue a1). chk_sent c \<noteq> SCTP_DATAGRAM_UNSENT"
    using a(3) st unfolding h(4) by (simp_all add: blocks_effect_sent)
  obtain a2 where r: "sctp_check_for_revoked t (biggest_tsn_acked p) a1 = Some a2"
    "sent_queue a2 = map (revoke_effect t (biggest_tsn_acked p)) (sent_queue a1)"
    using check_for_revoked_ok [OF h(3,2) sorted(1) big sorted(2)] by blast
  have "chk_sent (sent_queue a2 ! k) = SCTP_DATAGRAM_ACKED \<longleftrightarrow> number_of C (sent_queue a ! k) \<in> R"
    if k: "k < length (sent_queue a)" "SCTP_TSN_GT (tsn (sent_queue a ! k)) t" for k
  proof -
    let ?c = "sent_queue a ! k"
    have c: "?c \<in> set (sent_queue a)" "ahead b (tsn ?c) < 2 ^ 31" using k(1) a(3) by (auto simp: tsn_sorted_def list_all_length)
    have num: "int (ahead b (tsn ?c)) = int (ahead b t) + (number_of C ?c - C)"
      using ahead_number [of ?c C b] k(2) c(2) a(4) tC by simp
    then have pos: "C < number_of C ?c" using k(2) GT_ahead [OF c(2), of t] a(4) by simp
    have reach: "\<not> SCTP_TSN_GT (tsn ?c) (biggest_tsn_acked p)" if "tsn ?c \<in> covered t ?bs \<or> chk_sent ?c = SCTP_DATAGRAM_ACKED"
    proof -
      have "number_of C ?c \<in> R" if "tsn ?c \<in> covered t ?bs" using that covered_reported [of ?c C s] rep tC by simp
      with that before c(1) obtain x where "x \<in> R" "number_of C ?c \<le> x" by force
      with pos rep have "x \<in> reported C (gap_blocks s)" by simp
      then obtain bk where bk: "bk \<in> set (gap_blocks s)" "x \<le> C + uint (last_of bk)" by (auto simp: reported_def)
      have "start bk \<le> last_of bk" using runs bk(1) by (auto simp: runs_ok_def ivl_def word_le_def)
      then have "ahead b t + unat (last_of bk) \<le> ahead b (biggest_tsn_acked p)"
        unfolding h(5) using bk(1) by (intro top_of_block [of "start bk"]) (auto simp: block_pairs_def)
      moreover have "int (ahead b (tsn ?c)) \<le> int (ahead b t) + int (unat (last_of bk))"
        using num \<open>number_of C ?c \<le> x\<close> bk(2) by simp
      ultimately show ?thesis using GT_ahead [OF c(2) big] by linarith
    qed
    have "sent_queue a2 ! k = sack_effect t (biggest_tsn_acked p) ?bs ?c" using k(1) r(2) h(4) by (simp add: sack_effect_def)
    moreover have "chk_sent (sack_effect t (biggest_tsn_acked p) ?bs ?c) = SCTP_DATAGRAM_ACKED \<longleftrightarrow> tsn ?c \<in> covered t ?bs"
      by (rule sack_effect_acked) (use st c(1) k(2) reach in auto)
    ultimately show ?thesis using covered_reported [of ?c C s] rep pos tC by simp
  qed
  then show ?thesis using h(1,4) r n by (fastforce simp del: upt_Suc)
qed

text \<open>
  C3: The SACK that the receiver builds tells the sender what has arrived. After any run of a receiver, \<^verbatim>\<open>sctp_send_sack\<close> queues a SACK, and when all gap blocks fitted into it, the sender that reads
  these blocks from the packet, processes them and puts back the chunks no longer reported has exactly those chunks beyond the cumulative TSN acknowledged in its sent queue whose numbers the
  receiver has received. The conditions: the receiver has memory, sends SACKs and not NR-SACKs, and its highest TSN is not numerically below the base of its arrays; the sender's queue is in the
  order of the TSNs, none of its chunks is unsent, in the transient state MARKED, skipped by FORWARD-TSN or acknowledged by an NR-SACK, and none beyond the highest TSN received was acknowledged before.
\<close>

theorem sack_tells_sender:
  fixes r :: "'a sack_asoc_scheme"
  assumes run: "tsn_run C R r" "recent r" and src: "last_data_chunk_from r = Some from" "nrsack_supported r \<noteq> 1" "chunk_available env" "mbuf_available env"
    and slide: "sctp_slide_mapping_arrays r = Some m" and nowrap: "sack_highest m = cumulative_tsn m \<or> mapping_array_base_tsn m < sack_highest m"
    and cum: "{..C'} \<subseteq> R" "C' + 1 \<notin> R" and t: "t = word_of_int C'"
    and a: "snd_ok a" "flight_ok a" "tsn_sorted b (sent_queue a)" "ahead b t + 2 ^ 16 \<le> 2 ^ 31"
    and st: "\<forall>c\<in>set (sent_queue a). chk_sent c \<noteq> SCTP_DATAGRAM_UNSENT \<and> chk_sent c \<noteq> SCTP_DATAGRAM_MARKED \<and>
        chk_sent c \<noteq> SCTP_FORWARD_TSN_SKIP \<and> chk_sent c \<noteq> SCTP_DATAGRAM_NR_ACKED"
    and before: "\<forall>c\<in>set (sent_queue a). chk_sent c = SCTP_DATAGRAM_ACKED \<longrightarrow> (\<exists>x\<in>R. number_of C' c \<le> x)"
  shows "\<exists>r' q chk s to. sctp_send_sack env r = Some r' \<and> control_send_queue r' = q @ [chk] \<and> chk_data chk = Some (Sack_data s) \<and> whoTo chk = Some to \<and>
    cum_tsn_ack s = t \<and>
    (20 + 4 * length (gap_blocks s) \<le> sack_space (sack_room m) (net_mtu r to) \<longrightarrow>
      (\<forall>mb pre post. concat mb = pre @ wire_blocks (block_pairs s) @ post \<longrightarrow>
        (\<exists>p v' a1 a2. sctp_handle_segments now mb (int (length pre)) t t (unat (num_gap_ack_blks s)) 0 v a = Some (p, v', a1) \<and>
          sctp_check_for_revoked t (biggest_tsn_acked p) a1 = Some a2 \<and> length (sent_queue a2) = length (sent_queue a) \<and>
          (\<forall>k < length (sent_queue a). SCTP_TSN_GT (tsn (sent_queue a ! k)) t \<longrightarrow>
             (chk_sent (sent_queue a2 ! k) = SCTP_DATAGRAM_ACKED \<longleftrightarrow> number_of C' (sent_queue a ! k) \<in> R)))))"
proof -
  from send_sack_acknowledges [OF run src slide nowrap] obtain r' q chk s to D where
    s: "sctp_send_sack env r = Some r'" "control_send_queue r' = q @ [chk]" "chk_data chk = Some (Sack_data s)" "whoTo chk = Some to"
    "{..D} \<subseteq> R" "D + 1 \<notin> R" "acknowledges D R (sack_space (sack_room m) (net_mtu r to)) s" by blast
  have "D = C'" by (rule cumulative_unique [OF s(5,6) cum])
  with s(7) have ack: "acknowledges C' R (sack_space (sack_room m) (net_mtu r to)) s" by simp
  then have "t = cum_tsn_ack s" using t by (simp add: acknowledges_def)
  from acknowledged_reaches_sender [OF ack _ this _ a st before] s(1-4) \<open>t = cum_tsn_ack s\<close> show ?thesis by blast
qed

text \<open>The receiver got everything below 1000 and 1002, and reports block 3 to 3; the sender takes 1002 as acknowledged and not 1001.\<close>

lemma demo_sack_queued:
  "map_option (\<lambda>r'. map (\<lambda>c. (whoTo c, map_option (\<lambda>d. case d of Sack_data s \<Rightarrow> (block_pairs s, num_gap_ack_blks s) | _ \<Rightarrow> ([], 0)) (chk_data c))) (control_send_queue r'))
     (sctp_send_sack demo_env (demo_gap 1000)) = Some [(Some 0, Some ([(3, 3)], 1))]"
  by code_simp

theorem sack_tells_sender_witness:
  "\<exists>r' chk s. sctp_send_sack demo_env (demo_gap 1000) = Some r' \<and> control_send_queue r' = [chk] \<and> chk_data chk = Some (Sack_data s) \<and>
    cum_tsn_ack s = 999 \<and> block_pairs s = [(3, 3)] \<and> (\<exists>p v a1 a2.
     sctp_handle_segments (0, 0) [[0, 3, 0, 3]] 0 999 999 1 0 demo_vars (demo_snd 1000) = Some (p, v, a1) \<and>
     sctp_check_for_revoked 999 (biggest_tsn_acked p) a1 = Some a2 \<and>
     chk_sent (sent_queue a2 ! 1) \<noteq> SCTP_DATAGRAM_ACKED \<and> chk_sent (sent_queue a2 ! 2) = SCTP_DATAGRAM_ACKED)"
proof -
  let ?R = "insert (1000 + 2) {..<1000 :: int}" and ?a = "demo_snd 1000"
  have q: "sent_queue ?a = [demo_chunk 1000 1, demo_chunk 1001 1, demo_chunk 1002 1]" by (simp add: demo_snd_def)
  have run: "tsn_run (1000 - 1) ?R (demo_gap 1000)" using demo_gap_run [of 1000] by simp
  have R: "{..999} \<subseteq> ?R" "999 + 1 \<notin> ?R" "(999 :: u32) = word_of_int 999" by auto
  have nowrap: "sack_highest (demo_gap 1000) = cumulative_tsn (demo_gap 1000) \<or> mapping_array_base_tsn (demo_gap 1000) < sack_highest (demo_gap 1000)" by simp
  have env: "chunk_available demo_env" "mbuf_available demo_env" by (simp_all add: demo_env_def)
  have "tsn_sorted 999 (sent_queue ?a)" "ahead 999 999 + 2 ^ 16 \<le> 2 ^ 31"
    "\<forall>c\<in>set (sent_queue ?a). chk_sent c \<noteq> SCTP_DATAGRAM_UNSENT \<and> chk_sent c \<noteq> SCTP_DATAGRAM_MARKED \<and>
        chk_sent c \<noteq> SCTP_FORWARD_TSN_SKIP \<and> chk_sent c \<noteq> SCTP_DATAGRAM_NR_ACKED"
    "\<forall>c\<in>set (sent_queue ?a). chk_sent c = SCTP_DATAGRAM_ACKED \<longrightarrow> (\<exists>x\<in>?R. number_of 999 c \<le> x)"
    by (simp_all add: q demo_chunk_def tsn_sorted_def ahead_def datagram_states)
  note tells = sack_tells_sender [OF run demo_gap_recent demo_gap_simps(5) _ env demo_gap_slide nowrap R demo_snd_ok this, of "(0, 0)" demo_vars]
  have "nrsack_supported (demo_gap 1000) \<noteq> 1" by simp
  from tells [OF this, unfolded demo_gap_simps(7)] obtain r' q' chk s to where s: "sctp_send_sack demo_env (demo_gap 1000) = Some r'" "control_send_queue r' = q' @ [chk]"
    "chk_data chk = Some (Sack_data s)" "whoTo chk = Some to" "cum_tsn_ack s = 999"
    and tell: "20 + 4 * length (gap_blocks s) \<le> sack_space (sack_room (demo_gap 1000)) 1500 \<longrightarrow> (\<forall>mb pre post. concat mb = pre @ wire_blocks (block_pairs s) @ post \<longrightarrow>
        (\<exists>p v' a1 a2. sctp_handle_segments (0, 0) mb (int (length pre)) 999 999 (unat (num_gap_ack_blks s)) 0 demo_vars ?a = Some (p, v', a1) \<and>
          sctp_check_for_revoked 999 (biggest_tsn_acked p) a1 = Some a2 \<and> length (sent_queue a2) = length (sent_queue ?a) \<and>
          (\<forall>k < length (sent_queue ?a). SCTP_TSN_GT (tsn (sent_queue ?a ! k)) 999 \<longrightarrow>
             (chk_sent (sent_queue a2 ! k) = SCTP_DATAGRAM_ACKED \<longleftrightarrow> number_of 999 (sent_queue ?a ! k) \<in> ?R))))"
    by (elim exE conjE) (rule that)
  have bl: "q' = []" "block_pairs s = [(3, 3)]" "num_gap_ack_blks s = 1" using demo_sack_queued s by (auto simp: Cons_eq_append_conv append_eq_Cons_conv)
  have "sack_space (sack_room (demo_gap 1000)) 1500 = 1448" by (simp add: sack_room_def sack_space_def MCLBYTES_def SCTP_MIN_OVERHEAD_def Let_def)
  moreover have "length (gap_blocks s) = 1" using bl(2) by (metis block_pairs_def length_map length_Cons list.size(3) One_nat_def)
  ultimately obtain p v a1 a2 where r: "sctp_handle_segments (0, 0) [[0, 3, 0, 3]] 0 999 999 1 0 demo_vars ?a = Some (p, v, a1)"
      "sctp_check_for_revoked 999 (biggest_tsn_acked p) a1 = Some a2"
      "\<And>k. k < 3 \<Longrightarrow> SCTP_TSN_GT (tsn (sent_queue ?a ! k)) 999 \<Longrightarrow> (chk_sent (sent_queue a2 ! k) = SCTP_DATAGRAM_ACKED \<longleftrightarrow> number_of 999 (sent_queue ?a ! k) \<in> ?R)"
    using tell [THEN mp, THEN spec [of _ "[[0, 3, 0, 3]]"], THEN spec [of _ "[]"], THEN spec [of _ "[]"]] bl by (auto simp: q bytes_of_be16_def)
  have "SCTP_TSN_GT 1001 999" "SCTP_TSN_GT 1002 999" by (simp_all add: SCTP_UINT32_GT_iff)
  then have "chk_sent (sent_queue a2 ! 1) \<noteq> SCTP_DATAGRAM_ACKED" "chk_sent (sent_queue a2 ! 2) = SCTP_DATAGRAM_ACKED"
    using r(3) [of 1] r(3) [of 2] by (simp_all add: q demo_chunk_def number_of_def)
  with r(1,2) s bl show ?thesis by auto
qed

end
