(* ===== verification/Snd_Rto.thy ===== *)
theory Snd_Rto
  imports Snd_Revoke
begin

text \<open>
  The estimation of the retransmission timeout: \<^verbatim>\<open>sctp_calculate_rto\<close> computes Jacobson's estimator
  on integers, the smoothed round trip time scaled by 8 and the variation scaled by 4, and no step of it overflows as
  long as the measured times stay below a bound.
\<close>

section \<open>Signed arithmetic\<close>

lemma sint_add_small: "- (2 ^ 31) \<le> sint x + sint y \<Longrightarrow> sint x + sint y < 2 ^ 31 \<Longrightarrow> sint (x + y) = sint x + sint y" for x y :: u32
  by (simp add: sint_word_ariths signed_take_bit_int_eq_self)

lemma sint_sub_small: "- (2 ^ 31) \<le> sint x - sint y \<Longrightarrow> sint x - sint y < 2 ^ 31 \<Longrightarrow> sint (x - y) = sint x - sint y" for x y :: u32
  by (simp add: sint_word_ariths signed_take_bit_int_eq_self)

lemma sint_minus_small: "- (2 ^ 31) < sint x \<Longrightarrow> sint (- x) = - sint x" for x :: u32
  using sint_lt [of x] by (simp add: sint_word_ariths signed_take_bit_int_eq_self)

lemma sint_of_int_small: "0 \<le> k \<Longrightarrow> k < 2 ^ 31 \<Longrightarrow> sint (word_of_int k :: u32) = k"
  by (simp add: sint_uint uint_word_of_int_eq take_bit_int_eq_self signed_take_bit_int_eq_self)

lemma nonneg_word: "0 \<le> sint x \<Longrightarrow> \<exists>k. 0 \<le> k \<and> k < 2 ^ 31 \<and> x = word_of_int k \<and> sint x = k" for x :: u32
  using sint_lt [of x] by (intro exI [of _ "sint x"]) simp

lemma sint_shift_right: "sint (signed_drop_bit n x) = sint x div 2 ^ n" for x :: u32
  by (simp add: sint_signed_drop_bit_eq drop_bit_eq_div)

lemma sint_shift_left: "0 \<le> sint x \<Longrightarrow> sint x * 2 ^ n < 2 ^ 31 \<Longrightarrow> sint (push_bit n x) = sint x * 2 ^ n" for x :: u32
proof -
  assume x: "0 \<le> sint x" "sint x * 2 ^ n < 2 ^ 31"
  then obtain k where k: "0 \<le> k" "x = word_of_int k" "sint x = k" using nonneg_word by blast
  have "push_bit n x = word_of_int (k * 2 ^ n)" by (simp add: push_bit_eq_mult k(2))
  then show ?thesis using x k sint_of_int_small [of "k * 2 ^ n"] by simp
qed

lemma sint_half: "0 \<le> sint x \<Longrightarrow> sint (half_int x) = sint x div 2"
proof -
  assume x: "0 \<le> sint x"
  then obtain k where k: "0 \<le> k" "k < 2 ^ 31" "x = word_of_int k" "sint x = k" using nonneg_word by blast
  then have "x div 2 = word_of_int (k div 2)" by (simp add: word_div_def uint_word_of_int_eq take_bit_int_eq_self)
  then show ?thesis using x k sint_of_int_small [of "k div 2"] by (simp add: half_int_def)
qed

section \<open>The estimator\<close>

definition est_next :: "int \<Rightarrow> int \<times> int \<Rightarrow> int \<times> int" where
  "est_next r = (\<lambda>(sa, sv). let e = r - sa div 8 in (sa + e, sv + (\<bar>e\<bar> - sv div 4)))"

definition est_first :: "int \<Rightarrow> int \<times> int" where
  "est_first r = (8 * r, 4 * (r div 2))"

definition est_of :: "sctp_nets \<Rightarrow> dest \<Rightarrow> int \<times> int" where
  "est_of n d = (sint (lastsa n), sint (lastsv d))"

definition est_range :: "int \<Rightarrow> int \<times> int \<Rightarrow> bool" where
  "est_range M e \<longleftrightarrow> 0 \<le> fst e \<and> fst e \<le> 8 * M \<and> 0 \<le> snd e \<and> snd e \<le> 4 * M"

lemma est_range_next: "est_range M e \<Longrightarrow> 0 \<le> r \<Longrightarrow> r \<le> M \<Longrightarrow> est_range M (est_next r e)"
proof -
  assume e: "est_range M e" and r: "0 \<le> r" "r \<le> M"
  obtain sa sv where sasv: "e = (sa, sv)" by fastforce
  with e have o: "0 \<le> sa" "sa \<le> 8 * M" "0 \<le> sv" "sv \<le> 4 * M" by (auto simp: est_range_def)
  then have "0 \<le> sa div 8" "sa div 8 \<le> M" "sv - sv div 4 \<le> 3 * M" "0 \<le> sv - sv div 4" "0 \<le> sa - sa div 8" "sa - sa div 8 \<le> 7 * M" by linarith+
  then show ?thesis using r by (auto simp: sasv est_range_def est_next_def Let_def)
qed

lemma est_range_first: "0 \<le> r \<Longrightarrow> r \<le> M \<Longrightarrow> est_range M (est_first r)"
  by (auto simp: est_range_def est_first_def)

lemma rtt_smooth_est:
  assumes ms: "0 \<le> sint ms" "sint ms \<le> M" and M: "M < 2 ^ 27" and old: "RTO_measured d \<noteq> 0 \<Longrightarrow> est_range M (est_of n d)"
    and r: "rtt_smooth ms n d = (f, n', d')"
  shows "est_of n' d' = (if RTO_measured d \<noteq> 0 then est_next (sint ms) (est_of n d) else est_first (sint ms))" "RTO_measured d' \<noteq> 0"
proof -
  show "est_of n' d' = (if RTO_measured d \<noteq> 0 then est_next (sint ms) (est_of n d) else est_first (sint ms))"
  proof (cases "RTO_measured d \<noteq> 0")
    case True
    with old have o: "0 \<le> sint (lastsa n)" "sint (lastsa n) \<le> 8 * M" "0 \<le> sint (lastsv d)" "sint (lastsv d) \<le> 4 * M"
      by (auto simp: est_range_def est_of_def)
    let ?e = "ms - signed_drop_bit 3 (lastsa n)"
    have e: "sint ?e = sint ms - sint (lastsa n) div 8" using o ms M by (subst sint_sub_small) (auto simp: sint_shift_right)
    have b: "- M \<le> sint ?e" "sint ?e \<le> M" using e o ms by auto
    have sa: "sint (lastsa n + ?e) = sint (lastsa n) + sint ?e" using b o M by (intro sint_add_small) auto
    let ?v = "(if sint ?e < 0 then - ?e else ?e) - signed_drop_bit 2 (lastsv d)"
    have abs: "sint (if sint ?e < 0 then - ?e else ?e) = \<bar>sint ?e\<bar>" using b M sint_minus_small [of ?e] by (simp del: minus_diff_eq)
    have v: "sint ?v = \<bar>sint ?e\<bar> - sint (lastsv d) div 4" using b o M abs by (subst sint_sub_small) (auto simp: sint_shift_right)
    have sv: "sint (lastsv d + ?v) = sint (lastsv d) + sint ?v" using v b o M by (intro sint_add_small) auto
    show ?thesis using True r sa sv v e by (auto simp: rtt_smooth_def Let_def est_of_def est_next_def)
  next
    case False
    have "sint (push_bit 3 ms) = sint ms * 8" using sint_shift_left [of ms 3] ms M by simp
    moreover have "sint (push_bit 2 (half_int ms)) = sint ms div 2 * 4"
      using sint_shift_left [of "half_int ms" 2] sint_half [OF ms(1)] ms M by simp
    ultimately show ?thesis using False r by (auto simp: rtt_smooth_def est_of_def est_first_def)
  qed
  show "RTO_measured d' \<noteq> 0" using r by (auto simp: rtt_smooth_def Let_def split: if_splits)
qed

definition floor_var :: "int \<times> int \<Rightarrow> int \<times> int" where
  "floor_var = (\<lambda>(sa, sv). (sa, if sv = 0 then 10 else sv))"

text \<open>The time between two readings of the clock, in microseconds.\<close>

definition elapsed :: "int \<times> int \<Rightarrow> int \<times> int \<Rightarrow> int" where
  "elapsed told now = 1000000 * (fst now - fst told) + (snd now - snd told)"

lemma rtt_measure_ms:
  assumes "0 \<le> elapsed told now" "elapsed told now < 1000 * (M + 1)" "M < 2 ^ 27" and r: "rtt_measure md now told sck n = (ms, n')"
  shows "sint ms = elapsed told now div 1000" "lastsa n' = lastsa n"
proof -
  let ?E = "elapsed told now"
  have "1000000 * word_of_int (fst (timevalsub now told)) + word_of_int (snd (timevalsub now told)) = (word_of_int ?E :: u64)"
    by (simp add: timevalsub_def Let_def elapsed_def algebra_simps)
  then have "ms = ucast ((word_of_int ?E :: u64) div 1000)" using r by (auto simp: rtt_measure_def Let_def)
  moreover have "(word_of_int ?E :: u64) div 1000 = word_of_int (?E div 1000)"
    using assms(1-3) by (simp add: word_div_def uint_word_of_int_eq take_bit_int_eq_self)
  ultimately have "ms = word_of_int (?E div 1000)" using assms(1-3)
    by (simp add: ucast_eq uint_word_of_int_eq take_bit_int_eq_self)
  then show "sint ms = ?E div 1000" using sint_of_int_small [of "?E div 1000"] assms(1-3) by simp
  show "lastsa n' = lastsa n" using r
    by (auto simp: rtt_measure_def Let_def cc_rtt_calculated_def sctp_rtt_rtcc_calculated_def upd_rtcc_def)
qed

lemma uint_bound_range:
  assumes "0 \<le> sint w"
  shows "uint (rto_bound a w) = min (max (sint w) (uint (minrto a))) (uint (maxrto a))"
proof -
  obtain k where k: "0 \<le> k" "k < 2 ^ 31" "w = word_of_int k" "sint w = k" using nonneg_word [OF assms] by blast
  then have "uint w = sint w" by (simp add: uint_word_of_int_eq take_bit_int_eq_self)
  then show ?thesis by (auto simp: rto_bound_def Let_def word_less_def)
qed

text \<open>
  C29: The retransmission timeout is Jacobson's: with a measured round trip time of \<open>R\<close> milliseconds the smoothed time and its variation
  become those of the first measurement or move by an eighth and by a quarter of the error, the variation is never zero, and the timeout
  is their sum kept between the limits of the association. No step overflows and the estimates stay in range
  as long as the round trip times are below a bound of \<open>2 ^ 27\<close> milliseconds.
\<close>

theorem rto_estimation_refines:
  assumes E: "0 \<le> elapsed told now" "elapsed told now < 1000 * (M + 1)" and M: "3 \<le> M" "M < 2 ^ 27"
    and old: "RTO_measured d \<noteq> 0 \<longrightarrow> est_range M (est_of n d)" and safe: "safe = sctp_align_safe_nocopy \<or> safe = sctp_align_unsafe_makecopy"
  shows "\<exists>r n' d' a'. sctp_calculate_rto now told safe sck n d a = (r, n', d', a') \<and> RTO_measured d' \<noteq> 0 \<and> est_range M (est_of n' d') \<and>
    est_of n' d' = floor_var (if RTO_measured d \<noteq> 0 then est_next (elapsed told now div 1000) (est_of n d) else est_first (elapsed told now div 1000)) \<and>
    uint r = min (max (fst (est_of n' d') div 8 + snd (est_of n' d')) (uint (minrto a))) (uint (maxrto a))"
proof -
  let ?R = "elapsed told now div 1000"
  obtain ms n1 where m: "rtt_measure (snd_module a) now told sck n = (ms, n1)" by fastforce
  note ms = rtt_measure_ms [OF E M(2) m]
  obtain f n2 d2 where s: "rtt_smooth ms n1 d = (f, n2, d2)" by (metis prod_cases3)
  have R: "0 \<le> ?R" "?R \<le> M" using E by auto
  have old': "RTO_measured d \<noteq> 0 \<Longrightarrow> est_range M (est_of n1 d)" using old ms(2) by (simp add: est_of_def)
  have est: "est_of n2 d2 = (if RTO_measured d \<noteq> 0 then est_next ?R (est_of n d) else est_first ?R)" "RTO_measured d2 \<noteq> 0"
    using rtt_smooth_est [OF _ _ M(2) old' s] ms R by (simp_all add: est_of_def)
  have rg: "est_range M (est_of n2 d2)" unfolding est(1) using est_range_next est_range_first old R by simp
  define d3 where "d3 = (if lastsv d2 = 0 then d2\<lparr>lastsv := SCTP_CLOCK_GRANULARITY\<rparr> else d2)"
  have "sint (lastsv d2) = 0 \<longleftrightarrow> lastsv d2 = 0" using signed_word_eqI [of "lastsv d2" 0] by auto
  then have est3: "est_of n2 d3 = floor_var (est_of n2 d2)" by (auto simp: d3_def est_of_def floor_var_def SCTP_CLOCK_GRANULARITY_def)
  have rg3: "est_range M (est_of n2 d3)" using rg M(1) by (auto simp: est3 floor_var_def est_range_def split: prod.splits)
  define w where "w = signed_drop_bit 3 (lastsa n2) + lastsv d3"
  have "sint w = sint (lastsa n2) div 8 + sint (lastsv d3)" "0 \<le> sint w"
    using rg3 M unfolding w_def by (subst sint_add_small; auto simp: sint_shift_right est_range_def est_of_def)+
  then have r: "uint (rto_bound a w) = min (max (fst (est_of n2 d3) div 8 + snd (est_of n2 d3)) (uint (minrto a))) (uint (maxrto a))"
    by (simp add: uint_bound_range est_of_def)
  have "sctp_calculate_rto now told safe sck n d a = (rto_bound (sat_detect f w a) w, n2, d3, sat_detect f w a)"
    using safe by (auto simp: sctp_calculate_rto_def m s Let_def d3_def w_def)
  moreover have "rto_bound (sat_detect f w a) w = rto_bound a w" by (simp add: rto_bound_def sat_detect_def Let_def)
  ultimately have c: "sctp_calculate_rto now told safe sck n d a = (rto_bound a w, n2, d3, sat_detect f w a)" by (simp only:)
  have d3: "RTO_measured d3 \<noteq> 0" using est(2) by (simp add: d3_def)
  show ?thesis
    by (rule exI [of _ "rto_bound a w"], rule exI [of _ n2], rule exI [of _ d3], rule exI [of _ "sat_detect f w a"])
      (intro conjI c d3 rg3 r est3 [unfolded est(1)])
qed

text \<open>A round trip time of 200 ms after an average of 100 ms with a variation of 10 ms.\<close>

theorem rto_estimation_refines_witness:
  "\<exists>r n' d' a'. sctp_calculate_rto (1, 200000) (1, 0) 0 1 (demo_net 0 300 0) demo_dest (demo_snd 0) = (r, n', d', a') \<and>
     est_of n' d' = (900, 130) \<and> r = 1000"
proof -
  have d: "RTO_measured demo_dest \<noteq> 0" "est_of (demo_net 0 300 0) demo_dest = (800, 40)"
    by (simp_all add: demo_dest_def demo_net_def est_of_def)
  from rto_estimation_refines [of "(1, 0)" "(1, 200000)" 1000 demo_dest "demo_net 0 300 0" 0 1 "demo_snd 0"]
  obtain r n' d' a' where r: "sctp_calculate_rto (1, 200000) (1, 0) 0 1 (demo_net 0 300 0) demo_dest (demo_snd 0) = (r, n', d', a')"
    "est_of n' d' = (900, 130)" "uint r = min (max (fst (est_of n' d') div 8 + snd (est_of n' d')) (uint (minrto (demo_snd 0)))) (uint (maxrto (demo_snd 0)))"
    using d by (auto simp: elapsed_def est_range_def sctp_align_safe_nocopy_def floor_var_def est_next_def Let_def)
  then have "uint r = 1000" by (simp add: demo_snd_def)
  then have "r = 1000" by (simp add: word_uint_eq_iff)
  with r show ?thesis by simp
qed

end
