(* ===== verification/Snd_Partial.thy ===== *)
theory Snd_Partial
  imports Snd_Segments
begin

text \<open>
  Partial reliability at the sender: abandoning a message (\<^verbatim>\<open>sctp_release_pr_sctp_chunk\<close>, netinet/sctputil.c) and moving the point up to which the peer may
  forget chunks (\<^verbatim>\<open>sctp_try_advance_peer_ack_point\<close>, netinet/sctp_indata.c). The counts of abandoned chunks, which are
  statistics, are left out.
\<close>

section \<open>Policies\<close>

definition PR_SCTP_POLICY :: "u16 \<Rightarrow> u16" where "PR_SCTP_POLICY x = x AND 0x0f"

definition PR_SCTP_ENABLED :: "u16 \<Rightarrow> bool" where
  "PR_SCTP_ENABLED x \<longleftrightarrow> PR_SCTP_POLICY x \<noteq> 0x0000 \<and> PR_SCTP_POLICY x \<noteq> 0x000f"

definition PR_SCTP_TTL_ENABLED :: "u16 \<Rightarrow> bool" where "PR_SCTP_TTL_ENABLED x \<longleftrightarrow> PR_SCTP_POLICY x = 0x0001"
definition PR_SCTP_BUF_ENABLED :: "u16 \<Rightarrow> bool" where "PR_SCTP_BUF_ENABLED x \<longleftrightarrow> PR_SCTP_POLICY x = 0x0002"
definition PR_SCTP_RTX_ENABLED :: "u16 \<Rightarrow> bool" where "PR_SCTP_RTX_ENABLED x \<longleftrightarrow> PR_SCTP_POLICY x = 0x0003"

definition SCTP_DATA_LAST_FRAG :: u8 where "SCTP_DATA_LAST_FRAG = 0x01"
definition SCTP_DATA_NOT_FRAG :: u8 where "SCTP_DATA_NOT_FRAG = 0x03"
definition SCTP_DATA_UNORDERED :: u8 where "SCTP_DATA_UNORDERED = 0x04"
definition SCTP_UNORDERED :: u16 where "SCTP_UNORDERED = 0x0400"

text \<open>For arguments that are plain members or variables; the one call with a sum as its argument, in \<^verbatim>\<open>sctp_process_a_data_chunk\<close>, is expanded where it is modelled.\<close>

definition SCTP_MID_EQ :: "u8 \<Rightarrow> u32 \<Rightarrow> u32 \<Rightarrow> bool" where
  "SCTP_MID_EQ i a b = (if i = 1 then a = b else (ucast a :: u16) = ucast b)"

text \<open>\<^verbatim>\<open>timercmp(&a, &b, >)\<close>.\<close>

definition timer_after :: "int \<times> int \<Rightarrow> int \<times> int \<Rightarrow> bool" where
  "timer_after a b \<longleftrightarrow> (if fst a = fst b then snd a > snd b else fst a > fst b)"

section \<open>Abandoning a message\<close>

definition add_peers_rwnd :: "u32 \<Rightarrow> snd_asoc \<Rightarrow> snd_asoc" where
  "add_peers_rwnd x a = a\<lparr>asoc_cc := (asoc_cc a)\<lparr>peers_rwnd := peers_rwnd (asoc_cc a) + x\<rparr>\<rparr>"

definition leave_flight :: "data_chunk \<Rightarrow> snd_asoc \<Rightarrow> snd_asoc option" where
  "leave_flight c a =
     do { (n, d) \<leftarrow> net_at (chk_whoTo c) a;
          Some (sctp_total_flight_decrease c (put_net (chk_whoTo c) (sctp_flight_size_decrease c n) d a)) }"

text \<open>One chunk of the sent queue.\<close>

definition release_chunk :: "snd_env \<Rightarrow> bool \<Rightarrow> data_chunk \<Rightarrow> snd_asoc \<Rightarrow> (data_chunk \<times> snd_asoc) option" where
  "release_chunk env snt c a =
     do { (c, a) \<leftarrow> (if has_data c
            then do { (c, a) \<leftarrow> (if chk_sent c < SCTP_DATAGRAM_RESEND
                                 then do { a \<leftarrow> leave_flight c a; Some (c\<lparr>chk_window_probe := 0\<rparr>, a) } else Some (c, a));
                      let a = sctp_free_bufspace c 1 a;
                      let a = add_peers_rwnd (sctp_peer_chunk_oh env) (add_peers_rwnd (ucast (chk_send_size c)) a);
                      let a = snd_emit [Datagram_failed snt (tsn c)] a;
                      let a = (if PR_SCTP_BUF_ENABLED (pr_flags c)
                               then a\<lparr>sent_queue_cnt_removeable := sent_queue_cnt_removeable a - 1\<rparr> else a);
                      Some (c\<lparr>has_data := False\<rparr>, a) }
            else Some (c, a));
          Some (c\<lparr>chk_sent := SCTP_FORWARD_TSN_SKIP\<rparr>, a) }"

definition ends_message :: "data_chunk \<Rightarrow> bool" where
  "ends_message c \<longleftrightarrow> rcv_flags c AND SCTP_DATA_NOT_FRAG = SCTP_DATA_NOT_FRAG \<or> rcv_flags c AND SCTP_DATA_LAST_FRAG \<noteq> 0"

text \<open>The chunks of the message in the sent queue; the results are the size, whether the last fragment was found, and whether to wake up the user.\<close>

fun release_sent :: "snd_env \<Rightarrow> bool \<Rightarrow> data_chunk list \<Rightarrow> snd_asoc \<Rightarrow> (int \<times> bool \<times> bool \<times> data_chunk list \<times> snd_asoc) option" where
  "release_sent env snt [] a = Some (0, False, False, [], a)"
| "release_sent env snt (c # cs) a =
     do { (c', a) \<leftarrow> release_chunk env snt c a;
          if ends_message c then Some (uint (book_size c), True, has_data c, c' # cs, a)
          else do { (ret_sz, eom, wake, cs, a) \<leftarrow> release_sent env snt cs a;
                    Some (uint (book_size c) + ret_sz, eom, has_data c \<or> wake, c' # cs, a) } }"

text \<open>The chunks of the message in the send queue go to the end of the sent queue.\<close>

fun release_unsent :: "bool \<Rightarrow> u16 \<Rightarrow> u32 \<Rightarrow> data_chunk list \<Rightarrow> snd_asoc \<Rightarrow> int \<times> bool \<times> bool \<times> snd_asoc" where
  "release_unsent snt s m [] a = (0, False, False, a\<lparr>snd_queue := []\<rparr>)"
| "release_unsent snt s m (c # cs) a =
     (if sid c \<noteq> s \<or> \<not> SCTP_MID_EQ (idata_supported a) (mid c) m then (0, False, False, a\<lparr>snd_queue := c # cs\<rparr>)
      else let a = sctp_free_bufspace c 1 a;
               a = snd_emit [Datagram_failed snt (tsn c)] a;
               a = a\<lparr>sent_queue := sent_queue a @ [c\<lparr>has_data := False, book_size := 0, chk_sent := SCTP_FORWARD_TSN_SKIP\<rparr>],
                     send_queue_cnt := send_queue_cnt a - 1, sent_queue_cnt := sent_queue_cnt a + 1\<rparr>;
               (ret_sz, eom, moved, a) = release_unsent snt s m cs a
           in (uint (book_size c) + ret_sz, rcv_flags c AND SCTP_DATA_LAST_FRAG \<noteq> 0 \<or> eom, True, a))"

definition sctp_free_spbufspace :: "stream_pending \<Rightarrow> snd_asoc \<Rightarrow> snd_asoc" where
  "sctp_free_spbufspace sp a =
     (if sp_has_data sp
      then let a = (if total_output_queue_size a \<ge> sp_length sp
                    then a\<lparr>total_output_queue_size := total_output_queue_size a - sp_length sp\<rparr>
                    else a\<lparr>total_output_queue_size := 0\<rparr>)
           in (case so_snd_cc a of None \<Rightarrow> a
               | Some cc \<Rightarrow>
                   if ep_flags a AND SCTP_PCB_FLAGS_TCPTYPE \<noteq> 0 \<or> ep_flags a AND SCTP_PCB_FLAGS_IN_TCPPOOL \<noteq> 0
                   then a\<lparr>so_snd_cc := Some (if cc \<ge> sp_length sp then cc - sp_length sp else 0)\<rparr>
                   else a)
      else a)"

text \<open>A chunk that stands for the last fragment, which was never made.\<close>

definition skip_chunk :: "out_stream \<Rightarrow> stream_pending \<Rightarrow> snd_asoc \<Rightarrow> data_chunk" where
  "skip_chunk strq sp a =
     \<lparr>tsn = sending_seq (asoc_cc a), sid = sp_sid sp, chk_sent = SCTP_FORWARD_TSN_SKIP, chk_snd_count = 0, chk_send_size = 0, book_size = 0,
      chk_whoTo = None, chunk_was_revoked = 0, do_rtt = 0, sent_rcv_time = (0, 0), chk_window_probe = 0, has_data = False,
      mid = (if sinfo_flags sp AND SCTP_UNORDERED \<noteq> 0 then (if idata_supported a = 0 then 0 else next_mid_unordered strq) else next_mid_ordered strq),
      pr_flags = act_flags sp, rcv_flags = 0, timetodrop = (0, 0), doing_fast_retransmit = 0, fast_retran_tsn = 0, fwd_tsn_cnt = 0, no_fr_allowed = 0\<rparr>"

definition put_stream :: "u16 \<Rightarrow> out_stream \<Rightarrow> snd_asoc \<Rightarrow> snd_asoc" where
  "put_stream s strq a = a\<lparr>strmout := (strmout a)[unat s := strq]\<rparr>"

text \<open>The last chunk of the message gets the flags, and the stream the number of its next message.\<close>

definition mark_last :: "u16 \<Rightarrow> stream_pending \<Rightarrow> snd_asoc \<Rightarrow> snd_asoc option" where
  "mark_last s sp a =
     do { strq \<leftarrow> stream_at s a;
          let c = last (sent_queue a);
          let c = c\<lparr>rcv_flags := rcv_flags c OR SCTP_DATA_LAST_FRAG OR (if sinfo_flags sp AND SCTP_UNORDERED \<noteq> 0 then SCTP_DATA_UNORDERED else 0)\<rparr>;
          let strq = (if sinfo_flags sp AND SCTP_UNORDERED \<noteq> 0
                      then (if idata_supported a = 0 then strq else strq\<lparr>next_mid_unordered := next_mid_unordered strq + 1\<rparr>)
                      else strq\<lparr>next_mid_ordered := next_mid_ordered strq + 1\<rparr>);
          Some (put_stream s strq (a\<lparr>sent_queue := butlast (sent_queue a) @ [c]\<rparr>)) }"

text \<open>The rest of the message that is still in its stream.\<close>

definition release_pending :: "snd_env \<Rightarrow> u16 \<Rightarrow> bool \<Rightarrow> snd_asoc \<Rightarrow> (int \<times> bool \<times> snd_asoc) option" where
  "release_pending env s moved a =
     do { strq \<leftarrow> stream_at s a;
          case outqueue strq of [] \<Rightarrow> Some (0, False, a)
          | sp # sps \<Rightarrow>
              do { a \<leftarrow> (if moved then mark_last s sp a
                         else if chunk_alloc env
                         then mark_last s sp
                                (put_stream s (strq\<lparr>chunks_on_queues := chunks_on_queues strq + 1\<rparr>)
                                   (a\<lparr>asoc_cc := (asoc_cc a)\<lparr>sending_seq := sending_seq (asoc_cc a) + 1\<rparr>,
                                      sent_queue := sent_queue a @ [skip_chunk strq sp a],
                                      sent_queue_cnt := sent_queue_cnt a + 1, pr_sctp_cnt := pr_sctp_cnt a + 1\<rparr>))
                         else Some a);
                   strq \<leftarrow> stream_at s a;
                   let a = sctp_free_spbufspace sp a;
                   let sp' = (if sp_has_data sp
                              then sp\<lparr>discard_rest := 1, some_taken := 1, sp_has_data := False, sp_length := 0\<rparr>
                              else sp\<lparr>discard_rest := 1\<rparr>);
                   Some (if sp_has_data sp then uint (sp_length sp) else 0, sp_has_data sp,
                         put_stream s (strq\<lparr>outqueue := sp' # sps\<rparr>) a) } }"

definition sctp_release_pr_sctp_chunk :: "snd_env \<Rightarrow> nat \<Rightarrow> bool \<Rightarrow> snd_asoc \<Rightarrow> (int \<times> snd_asoc) option" where
  "sctp_release_pr_sctp_chunk env k snt a =
     do { c \<leftarrow> chunk_at k a;
          (ret1, eom1, wake1, q, a) \<leftarrow> release_sent env snt (drop k (sent_queue a)) a;
          let a = a\<lparr>sent_queue := take k (sent_queue a) @ q\<rparr>;
          let (ret2, eom2, moved, a) = (if eom1 then (0, True, False, a) else release_unsent snt (sid c) (mid c) (snd_queue a) a);
          (ret3, wake3, a) \<leftarrow> (if eom2 then Some (0, False, a) else release_pending env (sid c) moved a);
          Some (ret1 + ret2 + ret3, if wake1 \<or> moved \<or> wake3 then snd_emit [Socket_wakeup] a else a) }"

section \<open>Room\<close>

text \<open>
  Abandoning a message can append chunks to the sent queue while a loop goes through it. The measure of these loops counts the chunks of both queues
  and once more those that have data; it does not grow when a chunk with data is released.
\<close>

definition pr_room :: "snd_asoc \<Rightarrow> nat" where
  "pr_room a = length (sent_queue a) + length (snd_queue a) + length (filter has_data (sent_queue a))"

lemma queues_keep [simp]:
  "sent_queue (sctp_free_bufspace c k a) = sent_queue a" "snd_queue (sctp_free_bufspace c k a) = snd_queue a"
  "sent_queue (sctp_free_spbufspace sp a) = sent_queue a" "snd_queue (sctp_free_spbufspace sp a) = snd_queue a"
  "sent_queue (put_stream i s a) = sent_queue a" "snd_queue (put_stream i s a) = snd_queue a"
  "sent_queue (add_peers_rwnd x a) = sent_queue a" "snd_queue (add_peers_rwnd x a) = snd_queue a"
  "sent_queue (snd_emit es a) = sent_queue a" "snd_queue (snd_emit es a) = snd_queue a"
  "sent_queue (put_net p n d a) = sent_queue a" "snd_queue (put_net p n d a) = snd_queue a"
  "sent_queue (sctp_total_flight_decrease c a) = sent_queue a" "snd_queue (sctp_total_flight_decrease c a) = snd_queue a"
  "snd_queue (put_chunk j c a) = snd_queue a"
  by (simp_all add: sctp_free_bufspace_def sctp_free_spbufspace_def put_stream_def add_peers_rwnd_def snd_emit_def put_net_def
      sctp_total_flight_decrease_def put_chunk_def Let_def split: option.split)

lemma release_chunk_queues:
  "release_chunk env snt c a = Some (c', b) \<Longrightarrow> sent_queue b = sent_queue a \<and> snd_queue b = snd_queue a \<and> \<not> has_data c'"
  by (auto simp: release_chunk_def leave_flight_def Let_def split: if_splits bind_splits)

lemma release_sent_queues:
  "release_sent env snt q a = Some (r, e, w, q', b) \<Longrightarrow> sent_queue b = sent_queue a \<and> snd_queue b = snd_queue a \<and> length q' = length q \<and>
     length (filter has_data q') \<le> length (filter has_data (tl q))"
proof (induction q arbitrary: a r e w q' b)
  case (Cons c cs)
  from Cons.prems obtain c' a1 where 1: "release_chunk env snt c a = Some (c', a1)" by (auto split: bind_splits)
  note q = release_chunk_queues [OF 1]
  show ?case
  proof (cases "ends_message c")
    case False
    with Cons.prems 1 obtain x where x: "release_sent env snt cs a1 = Some x" by (auto split: bind_splits)
    obtain r1 e1 w1 cs' b1 where "x = (r1, e1, w1, cs', b1)" by (metis prod_cases5)
    then have s: "release_sent env snt cs a1 = Some (r1, e1, w1, cs', b1)" "q' = c' # cs'" "b = b1" using Cons.prems 1 False x by auto
    have "length (filter has_data (tl cs)) \<le> length (filter has_data cs)" by (cases cs) auto
    then show ?thesis using Cons.IH [OF s(1)] s(2,3) q by auto
  qed (use Cons.prems 1 q in auto)
qed simp

lemma release_unsent_queues:
  "release_unsent snt s m q a = (r, e, mv, b) \<Longrightarrow>
     \<exists>xs. sent_queue b = sent_queue a @ xs \<and> length xs + length (snd_queue b) = length q \<and> filter has_data xs = [] \<and> (mv \<longrightarrow> xs \<noteq> [])"
proof (induction q arbitrary: a r e mv b)
  case (Cons c cs)
  show ?case
  proof (cases "sid c \<noteq> s \<or> \<not> SCTP_MID_EQ (idata_supported a) (mid c) m")
    case False
    define x where "x = c\<lparr>has_data := False, book_size := 0, chk_sent := SCTP_FORWARD_TSN_SKIP\<rparr>"
    define a1 where "a1 = (snd_emit [Datagram_failed snt (tsn c)] (sctp_free_bufspace c 1 a))
      \<lparr>sent_queue := sent_queue a @ [x], send_queue_cnt := send_queue_cnt (sctp_free_bufspace c 1 a) - 1, sent_queue_cnt := sent_queue_cnt (sctp_free_bufspace c 1 a) + 1\<rparr>"
    obtain r1 e1 mv1 b1 where u: "release_unsent snt s m cs a1 = (r1, e1, mv1, b1)" by (metis prod_cases4)
    have "b = b1" "mv" using Cons.prems False u by (auto simp: Let_def a1_def x_def snd_emit_def split: prod.splits)
    moreover obtain xs where "sent_queue b1 = sent_queue a1 @ xs" "length xs + length (snd_queue b1) = length cs" "filter has_data xs = []"
      using Cons.IH [OF u] by blast
    ultimately show ?thesis by (intro exI [of _ "x # xs"]) (auto simp: a1_def x_def)
  qed (use Cons.prems in auto)
qed auto

lemma mark_last_queues:
  assumes "mark_last s sp a = Some b" "sent_queue a \<noteq> []"
  shows "snd_queue b = snd_queue a \<and> length (sent_queue b) = length (sent_queue a) \<and> length (filter has_data (sent_queue b)) = length (filter has_data (sent_queue a))"
proof -
  have "filter has_data (butlast q @ [c]) = filter has_data (butlast q) @ (if has_data c then [c] else [])" for q c by simp
  moreover have "filter has_data (sent_queue a) = filter has_data (butlast (sent_queue a)) @ (if has_data (last (sent_queue a)) then [last (sent_queue a)] else [])"
    using assms(2) by (subst append_butlast_last_id [symmetric]) (auto simp del: append_butlast_last_id)
  ultimately show ?thesis using assms by (auto simp: mark_last_def Let_def split: bind_splits)
qed

lemma release_pending_queues:
  assumes "release_pending env s moved a = Some (r, w, b)" "moved \<longrightarrow> sent_queue a \<noteq> []"
  shows "snd_queue b = snd_queue a \<and> length (sent_queue a) \<le> length (sent_queue b) \<and> length (sent_queue b) \<le> Suc (length (sent_queue a)) \<and>
    length (filter has_data (sent_queue b)) = length (filter has_data (sent_queue a))"
  using assms by (auto simp: release_pending_def skip_chunk_def Let_def split: bind_splits list.splits if_splits dest!: mark_last_queues)

lemma release_room:
  assumes "sctp_release_pr_sctp_chunk env k snt a = Some (r, b)" "chunk_at k a = Some c" "has_data c"
  shows "pr_room b \<le> pr_room a \<and> length (sent_queue a) \<le> length (sent_queue b)"
proof -
  have k: "k < length (sent_queue a)" "sent_queue a ! k = c" using assms(2) by (auto simp: chunk_at_def split: if_splits)
  from assms(1,2) obtain r1 e1 w1 q a1 where 1: "release_sent env snt (drop k (sent_queue a)) a = Some (r1, e1, w1, q, a1)"
    by (auto simp: sctp_release_pr_sctp_chunk_def split: bind_splits)
  define a2 where "a2 = a1\<lparr>sent_queue := take k (sent_queue a1) @ q\<rparr>"
  obtain r2 e2 mv a3 where 2: "(if e1 then (0, True, False, a2) else release_unsent snt (sid c) (mid c) (snd_queue a2) a2) = (r2, e2, mv, a3)" by (metis prod_cases4)
  with assms(1,2) 1 obtain r3 w3 a4 where 3: "(if e2 then Some (0, False, a3) else release_pending env (sid c) mv a3) = Some (r3, w3, a4)"
    "sent_queue b = sent_queue a4" "snd_queue b = snd_queue a4"
    by (auto simp: sctp_release_pr_sctp_chunk_def a2_def [symmetric] Let_def split: bind_splits if_splits)
  have d: "drop k (sent_queue a) = c # drop (Suc k) (sent_queue a)" using Cons_nth_drop_Suc [OF k(1)] k(2) by simp
  have f: "length (filter has_data (sent_queue a)) = length (filter has_data (take k (sent_queue a))) + Suc (length (filter has_data (drop (Suc k) (sent_queue a))))"
    using id_take_nth_drop [OF k(1)] k(2) assms(3) by (metis filter.simps(2) filter_append length_Cons length_append)
  have q: "sent_queue a1 = sent_queue a" "snd_queue a1 = snd_queue a" "length q = length (sent_queue a) - k"
    "length (filter has_data q) \<le> length (filter has_data (drop (Suc k) (sent_queue a)))"
    using release_sent_queues [OF 1] k(1) by (simp_all add: d)
  have s2: "length (sent_queue a2) = length (sent_queue a)" "snd_queue a2 = snd_queue a"
    "length (filter has_data (sent_queue a2)) < length (filter has_data (sent_queue a))" using q k f by (simp_all add: a2_def)
  have s3: "length (sent_queue a3) + length (snd_queue a3) = length (sent_queue a) + length (snd_queue a)" "length (sent_queue a) \<le> length (sent_queue a3)"
    "length (filter has_data (sent_queue a3)) < length (filter has_data (sent_queue a))" "mv \<longrightarrow> sent_queue a3 \<noteq> []"
    using 2 s2 release_unsent_queues [of snt "sid c" "mid c" "snd_queue a2" a2 r2 e2 mv a3] by (auto split: if_splits)
  have "length (sent_queue a3) \<le> length (sent_queue b)" "pr_room b \<le> Suc (pr_room a3)"
    using 3 release_pending_queues [OF _ s3(4)] by (fastforce simp: pr_room_def split: if_splits)+
  then show ?thesis using s3 by (simp add: pr_room_def)
qed

section \<open>The advanced peer ack point\<close>

text \<open>
  One chunk: whether the search goes on, and whether this chunk is the last one to skip so far. The loop follows the pointers of \<^verbatim>\<open>TAILQ_FOREACH_SAFE\<close>, which
  reads the next chunk before the body.
\<close>

definition drop_expired :: "snd_env \<Rightarrow> nat \<Rightarrow> data_chunk \<Rightarrow> snd_asoc \<Rightarrow> snd_asoc option" where
  "drop_expired env k c a = (if has_data c then do { (_, a) \<leftarrow> sctp_release_pr_sctp_chunk env k True a; Some a } else Some a)"

definition advance_step :: "snd_env \<Rightarrow> nat \<Rightarrow> snd_asoc \<Rightarrow> (bool \<times> bool \<times> snd_asoc) option" where
  "advance_step env k a =
     do { c \<leftarrow> chunk_at k a;
          if chk_sent c \<noteq> SCTP_FORWARD_TSN_SKIP \<and> chk_sent c \<noteq> SCTP_DATAGRAM_RESEND \<and> chk_sent c \<noteq> SCTP_DATAGRAM_NR_ACKED then Some (False, False, a)
          else if \<not> PR_SCTP_ENABLED (pr_flags c) then Some (False, False, a)
          else if chk_sent c = SCTP_DATAGRAM_RESEND \<and> PR_SCTP_TTL_ENABLED (pr_flags c) \<and> \<not> timer_after (cc_now (env_cc env)) (timetodrop c)
          then Some (False, False, a)
          else do { a \<leftarrow> (if chk_sent c = SCTP_DATAGRAM_RESEND \<and> PR_SCTP_TTL_ENABLED (pr_flags c) then drop_expired env k c a else Some a);
                    c \<leftarrow> chunk_at k a;
                    Some (if chk_sent c = SCTP_FORWARD_TSN_SKIP \<or> chk_sent c = SCTP_DATAGRAM_NR_ACKED
                          then if SCTP_TSN_GT (tsn c) (advanced_peer_ack_point a) then (True, True, a\<lparr>advanced_peer_ack_point := tsn c\<rparr>)
                               else (True, tsn c = advanced_peer_ack_point a, a)
                          else (False, False, a)) } }"

lemma drop_expired_room:
  assumes "drop_expired env k c a = Some b" "chunk_at k a = Some c"
  shows "pr_room b \<le> pr_room a"
proof (cases "has_data c")
  case True
  with assms obtain r where "sctp_release_pr_sctp_chunk env k True a = Some (r, b)" by (auto simp: drop_expired_def Option.bind_eq_Some_conv)
  from release_room [OF this assms(2) True] show ?thesis by blast
qed (use assms in \<open>simp add: drop_expired_def\<close>)

lemma pr_room_point [simp]: "pr_room (a\<lparr>advanced_peer_ack_point := t\<rparr>) = pr_room a"
  by (simp add: pr_room_def)

lemma advance_room: "advance_step env k a = Some (g, m, b) \<Longrightarrow> pr_room b \<le> pr_room a"
  by (auto simp: advance_step_def Option.bind_eq_Some_conv split: if_split_asm dest: drop_expired_room)

lemma next_chunk_room: "next_chunk k a = Some j \<Longrightarrow> j = Suc k \<and> Suc k < pr_room a"
  by (auto simp: next_chunk_def pr_room_def split: if_splits)

function (sequential) advance_loop :: "snd_env \<Rightarrow> nat option \<Rightarrow> nat option \<Rightarrow> snd_asoc \<Rightarrow> (nat option \<times> snd_asoc) option" where
  "advance_loop env None adv a = Some (adv, a)"
| "advance_loop env (Some k) adv a =
     do { (go_on, here, b) \<leftarrow> advance_step env k a;
          if go_on then advance_loop env (next_chunk k a) (if here then Some k else adv) b else Some (adv, b) }"
  by pat_completeness auto
termination
  by (relation "measure (\<lambda>(env, p, adv, a). case p of None \<Rightarrow> 0 | Some k \<Rightarrow> Suc (pr_room a - k))")
    (auto split: option.split dest!: next_chunk_room advance_room)

declare advance_loop.simps [simp del]

definition sctp_try_advance_peer_ack_point :: "snd_env \<Rightarrow> snd_asoc \<Rightarrow> (nat option \<times> snd_asoc) option" where
  "sctp_try_advance_peer_ack_point env a =
     (if prsctp_supported a = 0 then Some (None, a) else advance_loop env (first_chunk a) None a)"

end
