(* ===== verification/Snd_Alternate.thy ===== *)
theory Snd_Alternate
  imports Snd_State
begin

text \<open>
  The choice of another destination, \<^verbatim>\<open>sctp_find_alternate_net\<close> of netinet/sctp_timer.c. A destination is its position; the
  route of a destination is the flag whether it has one. Random numbers come from \<open>initial_tsns\<close>, the generator of the endpoint.
\<close>

definition SCTP_ADDR_UNCONFIRMED :: u16 where "SCTP_ADDR_UNCONFIRMED = 0x200"
definition SCTP_ADDR_PF :: u16 where "SCTP_ADDR_PF = 0x800"

definition usable :: "dest \<Rightarrow> bool" where
  "usable d \<longleftrightarrow> dest_state d AND SCTP_ADDR_REACHABLE = SCTP_ADDR_REACHABLE \<and> dest_state d AND SCTP_ADDR_UNCONFIRMED = 0"

section \<open>Random choices\<close>

text \<open>The index is set back by the policy for concurrent multipath transfer, and counted on by the one for potentially failed destinations.\<close>

definition hb_random :: "bool \<Rightarrow> snd_env \<Rightarrow> snd_asoc \<Rightarrow> (u8 \<times> snd_asoc) option" where
  "hb_random pf env a =
     (if hb_random_idx a > 3
      then let rndval = initial_tsns env (random_used a);
               a = a\<lparr>random_used := Suc (random_used a),
                     hb_random_values := [ucast rndval, ucast (drop_bit 8 rndval), ucast (drop_bit 16 rndval), ucast (drop_bit 24 rndval)],
                     hb_random_idx := (if pf then hb_random_idx a + 1 else 0), hb_ect_randombit := 0\<rparr>
           in Some (hd (hb_random_values a), a)
      else if unat (hb_random_idx a) < length (hb_random_values a)
      then Some (hb_random_values a ! unat (hb_random_idx a), a\<lparr>hb_random_idx := hb_random_idx a + 1, hb_ect_randombit := 0\<rparr>)
      else None)"

text \<open>The destination with the largest window so far, a tie is decided at random.\<close>

definition larger_cwnd :: "bool \<Rightarrow> snd_env \<Rightarrow> nat \<Rightarrow> sctp_nets \<Rightarrow> nat option \<Rightarrow> u32 \<Rightarrow> snd_asoc \<Rightarrow> (nat option \<times> u32 \<times> snd_asoc) option" where
  "larger_cwnd pf env k n best best_cwnd a =
     (if best_cwnd < cwnd n then Some (Some k, cwnd n, a)
      else if best_cwnd = cwnd n
      then do { (this_random, a) \<leftarrow> hb_random pf env a;
                Some (if odd this_random then Some k else best, cwnd n, a) }
      else Some (best, best_cwnd, a))"

section \<open>Potentially failed destinations\<close>

text \<open>The one with the fewest errors so far, of equal ones the one that was active last; \<open>-1\<close> when there is none yet.\<close>

definition fewer_errors :: "int \<Rightarrow> nat \<Rightarrow> dest \<Rightarrow> nat option \<Rightarrow> int \<Rightarrow> snd_asoc \<Rightarrow> (nat option \<times> int) option" where
  "fewer_errors errs k d best min_errors a =
     (if min_errors = - 1 \<or> errs < min_errors then Some (Some k, errs)
      else if errs = min_errors
      then do { (_, e) \<leftarrow> net_at best a; Some (if last_active d > last_active e then (Some k, errs) else (best, min_errors)) }
      else Some (best, min_errors))"

fun pf_loop :: "snd_env \<Rightarrow> nat option \<Rightarrow> nat list \<Rightarrow> nat option \<Rightarrow> int \<Rightarrow> nat option \<Rightarrow> u32 \<Rightarrow> snd_asoc \<Rightarrow> (nat option \<times> nat option \<times> snd_asoc) option" where
  "pf_loop env net [] min_net min_errors max_net max_cw a = Some (min_net, max_net, a)"
| "pf_loop env net (k # ks) min_net min_errors max_net max_cw a =
     do { (n, d) \<leftarrow> net_at (Some k) a;
          if \<not> usable d then pf_loop env net ks min_net min_errors max_net max_cw a
          else if dest_state d AND SCTP_ADDR_PF \<noteq> 0
          then do { (min_net, min_errors) \<leftarrow> fewer_errors (uint (error_count d) + (if Some k = net then 1 else 0)) k d min_net min_errors a;
                    pf_loop env net ks min_net min_errors max_net max_cw a }
          else do { (max_net, max_cw, a) \<leftarrow> larger_cwnd True env k n max_net max_cw a;
                    pf_loop env net ks min_net min_errors max_net max_cw a } }"

section \<open>Concurrent multipath transfer\<close>

fun cmt_loop :: "snd_env \<Rightarrow> nat list \<Rightarrow> nat option \<Rightarrow> u32 \<Rightarrow> snd_asoc \<Rightarrow> (nat option \<times> snd_asoc) option" where
  "cmt_loop env [] max_net max_cw a = Some (max_net, a)"
| "cmt_loop env (k # ks) max_net max_cw a =
     do { (n, d) \<leftarrow> net_at (Some k) a;
          if \<not> usable d then cmt_loop env ks max_net max_cw a
          else do { (max_net, max_cw, a) \<leftarrow> larger_cwnd False env k n max_net max_cw a;
                    cmt_loop env ks max_net max_cw a } }"

section \<open>The next destination\<close>

text \<open>
  The search goes from the destination behind \<open>k\<close> to the last one and then once through all of them: the loop
  gives up when it comes to the end of the list for the second time.
\<close>

definition round_from :: "nat \<Rightarrow> snd_asoc \<Rightarrow> nat list" where
  "round_from k a = [Suc k..<length (dests a)] @ [0..<length (dests a)]"

text \<open>A reachable destination with a route; those without a route forget their source address.\<close>

fun next_reachable :: "nat list \<Rightarrow> snd_asoc \<Rightarrow> (nat option \<times> snd_asoc) option" where
  "next_reachable [] a = Some (None, a)"
| "next_reachable (k # ks) a =
     do { (n, d) \<leftarrow> net_at (Some k) a;
          let d = (if has_route d then d else d\<lparr>src_addr := False, src_addr_selected := 0\<rparr>);
          let a = put_net (Some k) n d a;
          if dest_state d AND SCTP_ADDR_REACHABLE = SCTP_ADDR_REACHABLE \<and> has_route d \<and> dest_state d AND SCTP_ADDR_UNCONFIRMED = 0
          then Some (Some k, a)
          else next_reachable ks a }"

text \<open>In the dormant state any other confirmed destination will do.\<close>

fun next_confirmed :: "nat \<Rightarrow> nat list \<Rightarrow> snd_asoc \<Rightarrow> nat option option" where
  "next_confirmed net [] a = Some None"
| "next_confirmed net (k # ks) a =
     do { (n, d) \<leftarrow> net_at (Some k) a;
          if dest_state d AND SCTP_ADDR_UNCONFIRMED = 0 \<and> k \<noteq> net then Some (Some k) else next_confirmed net ks a }"

definition first_net :: "snd_asoc \<Rightarrow> nat option" where
  "first_net a = (if dests a = [] then None else Some 0)"

definition next_alternate :: "nat option \<Rightarrow> snd_asoc \<Rightarrow> (nat option \<times> snd_asoc) option" where
  "next_alternate net a =
     (case (case net of None \<Rightarrow> first_net a | Some k \<Rightarrow> Some k) of None \<Rightarrow> Some (None, a)
      | Some mnet \<Rightarrow>
          do { (alt, a) \<leftarrow> next_reachable (round_from mnet a) a;
               case alt of Some k \<Rightarrow> Some (Some k, a)
               | None \<Rightarrow> (case net of None \<Rightarrow> Some (first_net a, a)
                          | Some k \<Rightarrow> do { alt \<leftarrow> next_confirmed k (round_from k a) a;
                                           Some (case alt of None \<Rightarrow> net | Some j \<Rightarrow> Some j, a) }) })"

definition sctp_find_alternate_net :: "snd_env \<Rightarrow> nat option \<Rightarrow> nat \<Rightarrow> snd_asoc \<Rightarrow> (nat option \<times> snd_asoc) option" where
  "sctp_find_alternate_net env net mode a =
     (if numnets (asoc_cc a) = 1 then Some (first_net a, a)
      else if mode = 2
      then do { (min_net, max_net, a) \<leftarrow> pf_loop env net [0..<length (dests a)] None (- 1) None 0 a;
                Some (case max_net of Some k \<Rightarrow> Some k | None \<Rightarrow> (case min_net of None \<Rightarrow> net | Some k \<Rightarrow> Some k), a) }
      else if mode = 1
      then do { (max_net, a) \<leftarrow> cmt_loop env [0..<length (dests a)] None 0 a;
                case max_net of Some k \<Rightarrow> Some (Some k, a) | None \<Rightarrow> next_alternate net a }
      else next_alternate net a)"

section \<open>What the choice touches\<close>

definition alt_same :: "snd_asoc \<Rightarrow> snd_asoc \<Rightarrow> bool" where
  "alt_same a b \<longleftrightarrow>
     b = a\<lparr>dests := dests b, hb_random_values := hb_random_values b, hb_random_idx := hb_random_idx b, hb_ect_randombit := hb_ect_randombit b,
           random_used := random_used b\<rparr> \<and> map rxt_pending (dests b) = map rxt_pending (dests a)"

lemma alt_same_refl [simp]: "alt_same a a"
  by (simp add: alt_same_def)

lemma alt_same_trans:
  assumes "alt_same a b" "alt_same b c"
  shows "alt_same a c"
proof -
  have b: "b = a\<lparr>dests := dests b, hb_random_values := hb_random_values b, hb_random_idx := hb_random_idx b, hb_ect_randombit := hb_ect_randombit b, random_used := random_used b\<rparr>"
    using assms(1) by (simp add: alt_same_def)
  have "c = b\<lparr>dests := dests c, hb_random_values := hb_random_values c, hb_random_idx := hb_random_idx c, hb_ect_randombit := hb_ect_randombit c, random_used := random_used c\<rparr>"
    using assms(2) by (simp add: alt_same_def)
  also have "\<dots> = a\<lparr>dests := dests c, hb_random_values := hb_random_values c, hb_random_idx := hb_random_idx c, hb_ect_randombit := hb_ect_randombit c, random_used := random_used c\<rparr>"
    by (subst b) simp
  finally show ?thesis using assms by (simp add: alt_same_def)
qed

lemma alt_same_fields:
  assumes "alt_same a b"
  shows "sent_queue b = sent_queue a" "snd_queue b = snd_queue a" "asoc_cc b = asoc_cc a" "strmout b = strmout a" "length (dests b) = length (dests a)"
proof -
  have b: "b = a\<lparr>dests := dests b, hb_random_values := hb_random_values b, hb_random_idx := hb_random_idx b, hb_ect_randombit := hb_ect_randombit b, random_used := random_used b\<rparr>"
    using assms by (simp add: alt_same_def)
  show "sent_queue b = sent_queue a" "snd_queue b = snd_queue a" "asoc_cc b = asoc_cc a" "strmout b = strmout a" by (subst b, simp)+
  show "length (dests b) = length (dests a)" using assms by (metis alt_same_def length_map)
qed

lemma hb_random_same: "hb_random pf env a = Some (r, b) \<Longrightarrow> alt_same a b"
  by (auto simp: hb_random_def alt_same_def Let_def split: if_splits)

lemma larger_cwnd_same: "larger_cwnd pf env k n best w a = Some (best', w', b) \<Longrightarrow> alt_same a b"
  by (auto simp: larger_cwnd_def Option.bind_eq_Some_conv split: if_split_asm intro: hb_random_same)

lemma pf_loop_same: "pf_loop env net ks mn me mx w a = Some (mn', mx', b) \<Longrightarrow> alt_same a b"
proof (induction ks arbitrary: mn me mx w a)
  case (Cons k ks)
  then obtain n d where nd: "net_at (Some k) a = Some (n, d)" by (auto simp: Option.bind_eq_Some_conv)
  consider "\<not> usable d" | "usable d" "dest_state d AND SCTP_ADDR_PF \<noteq> 0" | "usable d" "dest_state d AND SCTP_ADDR_PF = 0" by blast
  then show ?case
  proof cases
    case 2
    with Cons.prems nd obtain mn1 me1 where "pf_loop env net ks mn1 me1 mx w a = Some (mn', mx', b)" by (auto simp: Option.bind_eq_Some_conv)
    then show ?thesis by (rule Cons.IH)
  next
    case 3
    with Cons.prems nd obtain mx1 w1 a1 where "larger_cwnd True env k n mx w a = Some (mx1, w1, a1)" "pf_loop env net ks mn me mx1 w1 a1 = Some (mn', mx', b)"
      by (auto simp: Option.bind_eq_Some_conv)
    then show ?thesis using larger_cwnd_same Cons.IH alt_same_trans by metis
  qed (use Cons nd in auto)
qed simp

lemma cmt_loop_same: "cmt_loop env ks mx w a = Some (mx', b) \<Longrightarrow> alt_same a b"
proof (induction ks arbitrary: mx w a)
  case (Cons k ks)
  then obtain n d where nd: "net_at (Some k) a = Some (n, d)" by (auto simp: Option.bind_eq_Some_conv)
  show ?case
  proof (cases "usable d")
    case True
    with Cons.prems nd obtain mx1 w1 a1 where "larger_cwnd False env k n mx w a = Some (mx1, w1, a1)" "cmt_loop env ks mx1 w1 a1 = Some (mx', b)"
      by (auto simp: Option.bind_eq_Some_conv)
    then show ?thesis using larger_cwnd_same Cons.IH alt_same_trans by metis
  qed (use Cons nd in auto)
qed simp

lemma put_source_same:
  assumes "net_at (Some k) a = Some (n, d)" "rxt_pending d' = rxt_pending d"
  shows "alt_same a (put_net (Some k) n d' a)"
proof -
  have k: "n = nets (asoc_cc a) ! k" "d = dests a ! k" "k < length (dests a)" using assms(1) by (auto simp: net_at_def split: if_splits)
  have "put_net (Some k) n d' a = a\<lparr>dests := (dests a)[k := d']\<rparr>" by (simp add: put_net_def k(1))
  moreover have "map rxt_pending ((dests a)[k := d']) = map rxt_pending (dests a)" using assms(2) k by (simp add: map_update list_update_same_conv)
  ultimately show ?thesis by (simp add: alt_same_def)
qed

lemma next_reachable_same: "next_reachable ks a = Some (p, b) \<Longrightarrow> alt_same a b"
proof (induction ks arbitrary: a)
  case (Cons k ks)
  then obtain n d where nd: "net_at (Some k) a = Some (n, d)" by (auto simp: Option.bind_eq_Some_conv)
  let ?b = "put_net (Some k) n (if has_route d then d else d\<lparr>src_addr := False, src_addr_selected := 0\<rparr>) a"
  have "alt_same a ?b" by (rule put_source_same [OF nd]) simp
  moreover have "b = ?b \<or> next_reachable ks ?b = Some (p, b)" using Cons.prems nd by (auto simp: Let_def split: if_splits)
  ultimately show ?case using Cons.IH alt_same_trans by blast
qed simp

lemma next_alternate_same: "next_alternate net a = Some (p, b) \<Longrightarrow> alt_same a b"
  by (auto simp: next_alternate_def Option.bind_eq_Some_conv split: option.split_asm intro: next_reachable_same)

lemma alternate_same:
  assumes "sctp_find_alternate_net env net mode a = Some (p, b)"
  shows "alt_same a b"
proof -
  consider mn mx where "pf_loop env net [0..<length (dests a)] None (- 1) None 0 a = Some (mn, mx, b)"
    | mx where "cmt_loop env [0..<length (dests a)] None 0 a = Some (mx, b)"
    | a1 where "cmt_loop env [0..<length (dests a)] None 0 a = Some (None, a1)" "next_alternate net a1 = Some (p, b)"
    | "next_alternate net a = Some (p, b)" | "b = a"
    using assms by (auto simp: sctp_find_alternate_net_def Option.bind_eq_Some_conv split: if_split_asm option.split_asm) (metis not_None_eq)
  then show ?thesis
  proof cases
    case 1 then show ?thesis by (rule pf_loop_same)
  next
    case 2 then show ?thesis by (rule cmt_loop_same)
  next
    case 3 then show ?thesis using alt_same_trans [OF cmt_loop_same next_alternate_same] by blast
  next
    case 4 then show ?thesis by (rule next_alternate_same)
  qed simp
qed

end
