(* ===== verification/Snd_Express.thy ===== *)
theory Snd_Express
  imports Snd_Partial Snd_Alternate
begin

text \<open>
  The cumulative part of a SACK (netinet/sctp_indata.c): \<^verbatim>\<open>sctp_express_handle_sack\<close>, which handles SACKs without gap blocks, with the parts it shares
  with \<^verbatim>\<open>sctp_handle_sack\<close>. Starting and stopping the retransmission timer of a destination is the flag \<open>rxt_pending\<close> and an event;
  sending control chunks, notifying and waking up the user, and aborting the association are events. The first result of a
  handler is \<^verbatim>\<open>*abort_now\<close>. The recycling of freed chunks and the reference counts of destinations are left out.
\<close>

section \<open>Constants\<close>

definition SCTP_STATE_OPEN :: u32 where "SCTP_STATE_OPEN = 0x0008"
definition SCTP_STATE_SHUTDOWN_RECEIVED :: u32 where "SCTP_STATE_SHUTDOWN_RECEIVED = 0x0020"
definition SCTP_STATE_SHUTDOWN_ACK_SENT :: u32 where "SCTP_STATE_SHUTDOWN_ACK_SENT = 0x0040"
definition SCTP_STATE_SHUTDOWN_PENDING :: u32 where "SCTP_STATE_SHUTDOWN_PENDING = 0x0080"
definition SCTP_STATE_PARTIAL_MSG_LEFT :: u32 where "SCTP_STATE_PARTIAL_MSG_LEFT = 0x0400"
definition SCTP_CAUSE_USER_INITIATED_ABT :: u16 where "SCTP_CAUSE_USER_INITIATED_ABT = 0x000c"
definition SCTP_CAUSE_PROTOCOL_VIOLATION :: u16 where "SCTP_CAUSE_PROTOCOL_VIOLATION = 0x000d"
definition sizeof_data_chunk :: u32 where "sizeof_data_chunk = 16"

section \<open>Loops over the destinations\<close>

fun for_dests :: "(nat \<Rightarrow> sctp_nets \<Rightarrow> dest \<Rightarrow> snd_asoc \<Rightarrow> (sctp_nets \<times> dest \<times> snd_asoc) option) \<Rightarrow> nat list \<Rightarrow> snd_asoc \<Rightarrow> snd_asoc option" where
  "for_dests f [] a = Some a"
| "for_dests f (k # ks) a =
     do { (n, d) \<leftarrow> net_at (Some k) a;
          (n, d, a) \<leftarrow> f k n d a;
          for_dests f ks (put_net (Some k) n d a) }"

definition foreach_dest :: "(nat \<Rightarrow> sctp_nets \<Rightarrow> dest \<Rightarrow> snd_asoc \<Rightarrow> (sctp_nets \<times> dest \<times> snd_asoc) option) \<Rightarrow> snd_asoc \<Rightarrow> snd_asoc option" where
  "foreach_dest f a = for_dests f [0..<length (dests a)] a"

definition prepare_dest :: "snd_env \<Rightarrow> u32 \<Rightarrow> nat \<Rightarrow> sctp_nets \<Rightarrow> dest \<Rightarrow> snd_asoc \<Rightarrow> (sctp_nets \<times> dest \<times> snd_asoc) option" where
  "prepare_dest env cumack k n d a =
     (let d = (if SCTP_TSN_GT cumack (cwr_window_tsn d) then d\<lparr>cwr_window_tsn := cumack\<rparr> else d);
          n = n\<lparr>prev_cwnd := cwnd n, net_ack := 0, new_pseudo_cumack := 0\<rparr>;
          d = d\<lparr>net_ack2 := 0, will_exit_fast_recovery := 0\<rparr>
      in Some (cc_prepare_net_for_sack (env_cc env) (snd_module a) n, d, a))"

text \<open>A destination at which data that was sent once has been acknowledged.\<close>

definition revive_dest :: "nat \<Rightarrow> sctp_nets \<Rightarrow> dest \<Rightarrow> snd_asoc \<Rightarrow> (sctp_nets \<times> dest \<times> snd_asoc) option" where
  "revive_dest k n d a =
     (if net_ack2 d > 0
      then do { let d = d\<lparr>error_count := 0\<rparr>;
                let (d, a) = (if dest_state d AND SCTP_ADDR_REACHABLE = 0
                              then (d\<lparr>dest_state := dest_state d OR SCTP_ADDR_REACHABLE\<rparr>, snd_emit [Interface_up k] a) else (d, a));
                let a = (if snd_primary a = Some k
                         then (case snd_alternate a of None \<Rightarrow> a | Some x \<Rightarrow> snd_emit [Alternate_released x] (a\<lparr>snd_alternate := None\<rparr>)) else a);
                (n, d, a) \<leftarrow> (if dest_state d AND SCTP_ADDR_PF \<noteq> 0
                               then do { let d = d\<lparr>dest_state := dest_state d AND NOT SCTP_ADDR_PF\<rparr>;
                                         let a = snd_emit [Heartbeat_restart k] a;
                                         (cc, n) \<leftarrow> sctp_cwnd_update_exit_pf_common (asoc_cc a) n;
                                         Some (n\<lparr>net_ack := 0\<rparr>, d, a\<lparr>asoc_cc := cc\<rparr>) }
                               else Some (n, d, a));
                Some (n\<lparr>RTO := rto_bound a (signed_drop_bit 3 (lastsa n) + lastsv d)\<rparr>, d, a) }
      else Some (n, d, a))"

definition idle_dest :: "nat \<Rightarrow> sctp_nets \<Rightarrow> dest \<Rightarrow> snd_asoc \<Rightarrow> (sctp_nets \<times> dest \<times> snd_asoc) option" where
  "idle_dest k n d a = Some (n\<lparr>flight_size := 0, partial_bytes_acked := 0\<rparr>, d, a)"

section \<open>Chunks below the cumulative TSN\<close>

definition cum_acked_net :: "int \<times> int \<Rightarrow> data_chunk \<Rightarrow> seg_vars \<Rightarrow> snd_asoc \<Rightarrow> (seg_vars \<times> snd_asoc) option" where
  "cum_acked_net now c v a =
     do { (n, d) \<leftarrow> net_at (chk_whoTo c) a;
          let n = (if chk_sent c < SCTP_DATAGRAM_RESEND
                   then cc_tsn_acknowledged (snd_module a) (sctp_flight_size_decrease c n) (chk_send_size c) else n);
          let a = (if chk_sent c < SCTP_DATAGRAM_RESEND then sctp_total_flight_decrease c a else a);
          let n = n\<lparr>net_ack := net_ack n + ucast (chk_send_size c)\<rparr>;
          let d = (if chk_snd_count c < 2 then d\<lparr>net_ack2 := net_ack2 d + ucast (chk_send_size c)\<rparr> else d);
          let (v, n, d, a) = (if chk_snd_count c < 2 \<and> do_rtt c \<noteq> 0 then seg_rto now c v n d a else (v, n, d, a));
          Some (v, put_net (chk_whoTo c) (n\<lparr>new_pseudo_cumack := 1\<rparr>) (d\<lparr>find_pseudo_cumack := 1, find_rtx_pseudo_cumack := 1\<rparr>) a) }"

text \<open>The stream of a chunk that leaves the sent queue.\<close>

definition stream_done :: "data_chunk \<Rightarrow> snd_asoc \<Rightarrow> snd_asoc option" where
  "stream_done c a =
     do { s \<leftarrow> stream_at (sid c) a;
          let s = (if chk_sent c \<noteq> SCTP_DATAGRAM_NR_ACKED \<and> chunks_on_queues s > 0 then s\<lparr>chunks_on_queues := chunks_on_queues s - 1\<rparr> else s);
          let a = put_stream (sid c) s a;
          Some (if chunks_on_queues s = 0 \<and> strm_state s = SCTP_STREAM_RESET_PENDING \<and> outqueue s = [] then a\<lparr>trigger_reset := 1\<rparr> else a) }"

definition exp_acked :: "int \<times> int \<Rightarrow> data_chunk \<Rightarrow> seg_vars \<Rightarrow> snd_asoc \<Rightarrow> (seg_vars \<times> snd_asoc) option" where
  "exp_acked now c v a =
     do { (v, a) \<leftarrow> (if chk_sent c < SCTP_DATAGRAM_ACKED then cum_acked_net now c v a else Some (v, a));
          let a = (if chk_sent c = SCTP_DATAGRAM_RESEND then a\<lparr>sent_queue_retran_cnt := sctp_ucount_decr (sent_queue_retran_cnt a)\<rparr> else a);
          (_, a) \<leftarrow> undo_revoke c a;
          a \<leftarrow> stream_done c a;
          let a = (if has_data c then sctp_free_bufspace c 1 a else a);
          Some (v, a\<lparr>sent_queue_cnt := sent_queue_cnt a - 1\<rparr>) }"

text \<open>The loop takes the chunks off the queue; its body does not read the queue.\<close>

fun exp_loop :: "int \<times> int \<Rightarrow> u32 \<Rightarrow> data_chunk list \<Rightarrow> seg_vars \<Rightarrow> snd_asoc \<Rightarrow> (seg_vars \<times> snd_asoc) option" where
  "exp_loop now cumack [] v a = Some (v, a\<lparr>sent_queue := []\<rparr>)"
| "exp_loop now cumack (c # cs) v a =
     (if SCTP_TSN_GE cumack (tsn c)
      then do { (v, a) \<leftarrow> exp_acked now c v a; exp_loop now cumack cs v a }
      else Some (v, a\<lparr>sent_queue := c # cs\<rparr>))"

section \<open>The user\<close>

text \<open>The limit of chunks only counts in the express routine.\<close>

definition wake_user :: "u32 option \<Rightarrow> bool \<Rightarrow> snd_asoc \<Rightarrow> snd_asoc" where
  "wake_user limit wake a =
     (if recv_callback a
      then if so_snd_cc a \<noteq> None
           then let inqueue_bytes = total_output_queue_size a - chunks_on_out_queue a * sizeof_data_chunk;
                    sb_free_now = snd_hiwat a - (inqueue_bytes + sb_send_resv a)
                in if send_callback a \<and>
                      ((send_sb_threshold a > 0 \<and> sb_free_now \<ge> send_sb_threshold a \<and>
                        (case limit of None \<Rightarrow> True | Some l \<Rightarrow> chunks_on_out_queue a \<le> l)) \<or> send_sb_threshold a = 0)
                   then snd_emit [Send_callback sb_free_now] a else a
           else a
      else if wake \<and> so_snd_cc a \<noteq> None then snd_emit [Socket_wakeup] a else a)"

section \<open>The peer's window\<close>

definition set_peers_rwnd :: "snd_env \<Rightarrow> u32 \<Rightarrow> snd_asoc \<Rightarrow> snd_asoc" where
  "set_peers_rwnd env rwnd a =
     (let r = sctp_sbspace_sub rwnd (total_flight a + total_flight_count a * sctp_peer_chunk_oh env)
      in a\<lparr>asoc_cc := (asoc_cc a)\<lparr>peers_rwnd := (if r < sctp_sws_sender a then 0 else r)\<rparr>\<rparr>)"

section \<open>Window probes\<close>

definition sctp_window_probe_recovery :: "nat \<Rightarrow> snd_asoc \<Rightarrow> snd_asoc option" where
  "sctp_window_probe_recovery k a =
     do { c \<leftarrow> chunk_at k a;
          let c = c\<lparr>chk_window_probe := 0\<rparr>;
          if chk_sent c \<ge> SCTP_DATAGRAM_ACKED \<or> \<not> has_data c then Some (put_chunk k c a)
          else do { (n, d) \<leftarrow> net_at (chk_whoTo c) a;
                    let n = sctp_flight_size_decrease c (cc_tsn_acknowledged (snd_module a) n (chk_send_size c));
                    let a = sctp_total_flight_decrease c (put_net (chk_whoTo c) n d a);
                    let a = put_chunk k (c\<lparr>chk_sent := SCTP_DATAGRAM_RESEND\<rparr>) a;
                    Some (a\<lparr>sent_queue_retran_cnt := sctp_ucount_incr (sent_queue_retran_cnt a)\<rparr>) } }"

fun first_probe :: "nat \<Rightarrow> data_chunk list \<Rightarrow> nat option" where
  "first_probe k [] = None"
| "first_probe k (c # cs) = (if chk_window_probe c \<noteq> 0 then Some k else first_probe (Suc k) cs)"

definition recover_probe :: "snd_asoc \<Rightarrow> snd_asoc option" where
  "recover_probe a = (case first_probe 0 (sent_queue a) of None \<Rightarrow> Some a | Some k \<Rightarrow> sctp_window_probe_recovery k a)"

section \<open>Timers\<close>

definition exp_timer :: "nat \<Rightarrow> snd_asoc \<Rightarrow> (bool \<times> snd_asoc) option" where
  "exp_timer k a =
     do { (n, d) \<leftarrow> net_at (Some k) a;
          let ms = (if RTO n = 0 then initial_rto a else RTO n);
          if flight_size n \<noteq> 0
          then Some (True, snd_emit [Timer_restart k ms] (put_net (Some k) n (d\<lparr>rxt_pending := True, dest_window_probe := 0\<rparr>) a))
          else if dest_window_probe d \<noteq> 0
          then Some (False, (if rxt_pending d then put_net (Some k) n (d\<lparr>dest_window_probe := 0\<rparr>) a
                             else snd_emit [Timer_restart k ms] (put_net (Some k) n (d\<lparr>rxt_pending := True, dest_window_probe := 0\<rparr>) a)))
          else if rxt_pending d
          then Some (False, snd_emit [Send_timer_stop k] (put_net (Some k) n (d\<lparr>rxt_pending := False\<rparr>) a))
          else Some (False, a) }"

text \<open>
  The loop over the destinations, with the treatment of a single timer as parameter. It counts the destinations with data in
  flight and notes whether a window probe was taken back.
\<close>

fun timer_loop :: "(nat \<Rightarrow> snd_asoc \<Rightarrow> (bool \<times> snd_asoc) option) \<Rightarrow> bool \<Rightarrow> nat list \<Rightarrow> nat \<Rightarrow> bool \<Rightarrow> snd_asoc \<Rightarrow>
    (nat \<times> bool \<times> snd_asoc) option" where
  "timer_loop f recovery [] j recovered a = Some (j, recovered, a)"
| "timer_loop f recovery (k # ks) j recovered a =
     do { (n, d) \<leftarrow> net_at (Some k) a;
          (recovered, a) \<leftarrow> (if recovery \<and> dest_window_probe d \<noteq> 0 then do { a \<leftarrow> recover_probe a; Some (True, a) } else Some (recovered, a));
          (busy, a) \<leftarrow> f k a;
          timer_loop f recovery ks (if busy then Suc j else j) recovered a }"

definition sctp_fs_audit :: "snd_asoc \<Rightarrow> bool" where
  "sctp_fs_audit a =
     (if pr_sctp_cnt a \<ge> sent_queue_cnt a then False
      else list_ex (\<lambda>c. chk_sent c < SCTP_DATAGRAM_RESEND \<or> (chk_sent c \<noteq> SCTP_DATAGRAM_RESEND \<and> chk_sent c < SCTP_DATAGRAM_ACKED)) (sent_queue a))"

definition no_flight_dest :: "nat \<Rightarrow> sctp_nets \<Rightarrow> dest \<Rightarrow> snd_asoc \<Rightarrow> (sctp_nets \<times> dest \<times> snd_asoc) option" where
  "no_flight_dest k n d a = Some (n\<lparr>flight_size := 0\<rparr>, d, a)"

fun recount :: "data_chunk list \<Rightarrow> snd_asoc \<Rightarrow> snd_asoc option" where
  "recount [] a = Some a"
| "recount (c # cs) a =
     do { a \<leftarrow> (if chk_sent c < SCTP_DATAGRAM_RESEND
                then do { (n, d) \<leftarrow> net_at (chk_whoTo c) a;
                          Some (sctp_total_flight_increase c (put_net (chk_whoTo c) (sctp_flight_size_increase c n) d a)) }
                else if chk_sent c = SCTP_DATAGRAM_RESEND then Some (a\<lparr>sent_queue_retran_cnt := sctp_ucount_incr (sent_queue_retran_cnt a)\<rparr>)
                else Some a);
          recount cs a }"

definition rebuild_flight :: "snd_asoc \<Rightarrow> snd_asoc option" where
  "rebuild_flight a =
     do { a \<leftarrow> foreach_dest no_flight_dest a;
          recount (sent_queue a) (a\<lparr>total_flight := 0, total_flight_count := 0, sent_queue_retran_cnt := 0\<rparr>) }"

definition assure_timers :: "(nat \<Rightarrow> snd_asoc \<Rightarrow> (bool \<times> snd_asoc) option) \<Rightarrow> bool \<Rightarrow> snd_asoc \<Rightarrow> snd_asoc option" where
  "assure_timers f recovery a =
     do { (j, recovered, a) \<leftarrow> timer_loop f recovery [0..<length (dests a)] 0 False a;
          if j = 0 \<and> sent_queue a \<noteq> [] \<and> sent_queue_retran_cnt a = 0 \<and> \<not> recovered
          then do { a \<leftarrow> (if sctp_fs_audit a then rebuild_flight a else Some a);
                    (_, _, a) \<leftarrow> timer_loop f recovery [0..<length (dests a)] 0 False a;
                    Some a }
          else Some a }"

section \<open>Shutdown\<close>

datatype shutdown_result = Shutdown_abort | Shutdown_started | Shutdown_none

definition SCTP_GET_STATE :: "snd_asoc \<Rightarrow> u32" where "SCTP_GET_STATE a = snd_state a AND SCTP_STATE_MASK"

definition SCTP_SET_STATE :: "u32 \<Rightarrow> snd_asoc \<Rightarrow> snd_asoc" where
  "SCTP_SET_STATE s a = a\<lparr>snd_state := (snd_state a AND NOT SCTP_STATE_MASK) OR s\<rparr>"

definition SCTP_CLEAR_SUBSTATE :: "u32 \<Rightarrow> snd_asoc \<Rightarrow> snd_asoc" where
  "SCTP_CLEAR_SUBSTATE s a = a\<lparr>snd_state := snd_state a AND NOT s\<rparr>"

definition shutdown_dest :: "snd_asoc \<Rightarrow> nat option" where
  "shutdown_dest a = (case snd_alternate a of None \<Rightarrow> snd_primary a | Some k \<Rightarrow> Some k)"

definition shutdown_issues :: "snd_env \<Rightarrow> snd_asoc \<Rightarrow> shutdown_result \<times> snd_asoc" where
  "shutdown_issues env a =
     (let is_pending = (\<lambda>a. snd_state a AND SCTP_STATE_SHUTDOWN_PENDING \<noteq> 0);
          a = (if stream_queue_cnt a = 1 \<and> (is_pending a \<or> snd_state a AND SCTP_STATE_SHUTDOWN_RECEIVED \<noteq> 0) \<and> user_msgs_incomplete env
               then a\<lparr>snd_state := snd_state a OR SCTP_STATE_PARTIAL_MSG_LEFT\<rparr> else a)
      in if (is_pending a \<or> SCTP_GET_STATE a = SCTP_STATE_SHUTDOWN_RECEIVED) \<and> stream_queue_cnt a = 1 \<and>
            snd_state a AND SCTP_STATE_PARTIAL_MSG_LEFT \<noteq> 0
         then (Shutdown_abort, snd_emit [Abort_association SCTP_CAUSE_USER_INITIATED_ABT] a)
         else if is_pending a \<and> stream_queue_cnt a = 0
         then let a = (if SCTP_GET_STATE a = SCTP_STATE_OPEN \<or> SCTP_GET_STATE a = SCTP_STATE_SHUTDOWN_RECEIVED
                       then snd_emit [Stat_currestab_decreased] a else a);
                  a = SCTP_CLEAR_SUBSTATE SCTP_STATE_SHUTDOWN_PENDING (SCTP_SET_STATE SCTP_STATE_SHUTDOWN_SENT a)
              in (Shutdown_started, snd_emit [Timers_stopped_for_shutdown, Shutdown_sent (shutdown_dest a)] a)
         else if SCTP_GET_STATE a = SCTP_STATE_SHUTDOWN_RECEIVED \<and> stream_queue_cnt a = 0
         then let a = snd_emit [Stat_currestab_decreased] a;
                  a = SCTP_CLEAR_SUBSTATE SCTP_STATE_SHUTDOWN_PENDING (SCTP_SET_STATE SCTP_STATE_SHUTDOWN_ACK_SENT a)
              in (Shutdown_started, snd_emit [Timers_stopped_for_shutdown, Shutdown_ack_sent (shutdown_dest a)] a)
         else (Shutdown_none, a))"

section \<open>Forward TSN\<close>

definition start_send_timer :: "nat option \<Rightarrow> snd_asoc \<Rightarrow> snd_asoc option" where
  "start_send_timer p a =
     (case p of None \<Rightarrow> Some a
      | Some k \<Rightarrow> do { (n, d) \<leftarrow> net_at p a; Some (snd_emit [Send_timer_start k] (put_net p n (d\<lparr>rxt_pending := True\<rparr>) a)) })"

definition pr_issues :: "snd_env \<Rightarrow> u32 \<Rightarrow> snd_asoc \<Rightarrow> snd_asoc option" where
  "pr_issues env cumack a =
     do { let a = (if SCTP_TSN_GT cumack (advanced_peer_ack_point a) then a\<lparr>advanced_peer_ack_point := cumack\<rparr> else a);
          if prsctp_supported a \<noteq> 0 \<and> pr_sctp_cnt a > 0
          then do { let old = advanced_peer_ack_point a;
                    (lchk, a) \<leftarrow> sctp_try_advance_peer_ack_point env a;
                    c \<leftarrow> (case lchk of None \<Rightarrow> Some None | Some k \<Rightarrow> do { c \<leftarrow> chunk_at k a; Some (Some c) });
                    let a = (if SCTP_TSN_GT (advanced_peer_ack_point a) cumack \<and>
                                (SCTP_TSN_GT (advanced_peer_ack_point a) old \<or> (case c of None \<Rightarrow> False | Some c \<Rightarrow> fwd_tsn_cnt c \<ge> 3))
                             then snd_emit [Forward_tsn_sent] a else a);
                    case c of None \<Rightarrow> Some a | Some c \<Rightarrow> start_send_timer (chk_whoTo c) a }
          else Some a }"

section \<open>The handler\<close>

text \<open>The TSN after the last one that was sent.\<close>

definition sent_end :: "snd_asoc \<Rightarrow> u32" where
  "sent_end a = (if sent_queue a = [] then sending_seq (asoc_cc a) else tsn (last (sent_queue a)) + 1)"

text \<open>After the queue has been cleared up: timers, shutdown, partial reliability.\<close>

definition exp_finish :: "snd_env \<Rightarrow> bool \<Rightarrow> u32 \<Rightarrow> snd_asoc \<Rightarrow> (bool \<times> snd_asoc) option" where
  "exp_finish env recovery cumack a =
     do { a \<leftarrow> assure_timers exp_timer recovery a;
          let (r, a) = (if snd_queue a = [] \<and> sent_queue a = [] then shutdown_issues env a else (Shutdown_none, a));
          if r = Shutdown_abort then Some (True, a)
          else do { a \<leftarrow> pr_issues env cumack a; Some (False, a) } }"

definition stop_idle :: "snd_asoc \<Rightarrow> snd_asoc option" where
  "stop_idle a =
     (if sent_queue a = []
      then do { a \<leftarrow> foreach_dest idle_dest a; Some (a\<lparr>total_flight := 0, total_flight_count := 0\<rparr>) }
      else Some a)"

definition sctp_express_handle_sack :: "snd_env \<Rightarrow> u32 \<Rightarrow> u32 \<Rightarrow> bool \<Rightarrow> snd_asoc \<Rightarrow> (bool \<times> snd_asoc) option" where
  "sctp_express_handle_sack env cumack rwnd ecne_seen a =
     (let old_rwnd = peers_rwnd (asoc_cc a)
      in if SCTP_TSN_GT (last_acked_seq a) cumack then Some (False, a)
         else if last_acked_seq a = cumack
         then let a = set_peers_rwnd env rwnd a
              in if peers_rwnd (asoc_cc a) > old_rwnd then exp_finish env False cumack a else Some (False, a)
         else do { a \<leftarrow> foreach_dest (prepare_dest env cumack) a;
                   if SCTP_TSN_GE cumack (sent_end a)
                   then Some (True, snd_emit [Abort_association SCTP_CAUSE_PROTOCOL_VIOLATION] a)
                   else do { let a = a\<lparr>this_sack_highest_gap := cumack, overall_error_count := 0\<rparr>;
                             (_, a) \<leftarrow> (if SCTP_TSN_GT cumack (last_acked_seq a)
                                         then exp_loop (cc_now (env_cc env)) cumack (sent_queue a)
                                                \<lparr>biggest_newly_acked_tsn = 0, this_sack_lowest_newack = 0, rto_ok = True, wake_him = 0\<rparr> a
                                         else Some (\<lparr>biggest_newly_acked_tsn = 0, this_sack_lowest_newack = 0, rto_ok = True, wake_him = 0\<rparr>, a));
                             let a = wake_user (Some (sctp_max_chunks_on_queue env)) True a;
                             a \<leftarrow> (if last_acked_seq a \<noteq> cumack \<and> \<not> ecne_seen
                                    then do { a \<leftarrow> foreach_dest revive_dest a;
                                              cc \<leftarrow> cc_after_sack (env_cc env) (snd_module a) (asoc_cc a) True False;
                                              Some (a\<lparr>asoc_cc := cc\<rparr>) }
                                    else Some a);
                             a \<leftarrow> stop_idle (a\<lparr>last_acked_seq := cumack\<rparr>);
                             let a = set_peers_rwnd env rwnd a;
                             exp_finish env (peers_rwnd (asoc_cc a) > old_rwnd) cumack a } })"

definition sctp_update_acked :: "snd_env \<Rightarrow> u32 \<Rightarrow> snd_asoc \<Rightarrow> (bool \<times> snd_asoc) option" where
  "sctp_update_acked env cum_ack a =
     sctp_express_handle_sack env cum_ack (peers_rwnd (asoc_cc a) + total_flight a) False a"

end
