(* ===== verification/Snd_Strike.thy ===== *)
theory Snd_Strike
  imports Snd_Partial Snd_Alternate
begin

text \<open>
  Fast retransmission: \<^verbatim>\<open>sctp_strike_gap_ack_chunks\<close> of netinet/sctp_indata.c. A chunk that a SACK reports missing gets a strike, the
  field \<^verbatim>\<open>sent\<close> counts them; with the value \<^verbatim>\<open>SCTP_DATAGRAM_RESEND\<close> it leaves the flight and waits for its retransmission. The
  reference counts of destinations are left out.
\<close>

text \<open>The parameters, the number of destinations with new acknowledgements, and the TSN that is sent next.\<close>

record strike_vars =
  st_biggest_acked :: u32
  st_biggest_newly_acked :: u32
  st_lowest_newack :: u32
  st_accum_moved :: bool
  num_dests_sacked :: nat
  st_sending_seq :: u32

section \<open>Strikes\<close>

definition add_strike :: "data_chunk \<Rightarrow> data_chunk" where
  "add_strike c = (if chk_sent c < SCTP_DATAGRAM_RESEND then c\<lparr>chk_sent := chk_sent c + 1\<rparr> else c)"

text \<open>The delayed acknowledgement algorithm for multipath transfer strikes a second time.\<close>

definition dac_strike :: "snd_env \<Rightarrow> strike_vars \<Rightarrow> snd_asoc \<Rightarrow> data_chunk \<Rightarrow> data_chunk" where
  "dac_strike env sv a c =
     (if sctp_cmt_on_off (asoc_cc a) > 0 \<and> cmt_use_dac env \<noteq> 0 \<and> chk_sent c < SCTP_DATAGRAM_RESEND \<and> num_dests_sacked sv = 1 \<and>
         SCTP_TSN_GT (st_lowest_newack sv) (tsn c)
      then c\<lparr>chk_sent := chk_sent c + 1\<rparr> else c)"

text \<open>The chunk, and whether this is a further strike after a fast retransmission.\<close>

definition strike_chunk :: "snd_env \<Rightarrow> strike_vars \<Rightarrow> snd_asoc \<Rightarrow> data_chunk \<Rightarrow> data_chunk \<times> bool" where
  "strike_chunk env sv a c =
     (if st_accum_moved sv \<and> fast_retran_loss_recovery (asoc_cc a) \<noteq> 0 then (dac_strike env sv a (add_strike c), False)
      else if doing_fast_retransmit c \<noteq> 0 \<and> sctp_cmt_on_off (asoc_cc a) = 0
      then if SCTP_TSN_GE (st_biggest_newly_acked sv) (fast_retran_tsn c) then (dac_strike env sv a (add_strike c), True) else (c, False)
      else if SCTP_TSN_GT (tsn c) (st_biggest_newly_acked sv) then (c, False)
      else (dac_strike env sv a (add_strike c), False))"

section \<open>A chunk that is to be sent again\<close>

definition strike_net :: "data_chunk \<Rightarrow> snd_asoc \<Rightarrow> snd_asoc option" where
  "strike_net c a =
     (case chk_whoTo c of None \<Rightarrow> Some a
      | Some k \<Rightarrow> do { (n, d) \<leftarrow> net_at (Some k) a;
                       let n = cc_tsn_acknowledged (snd_module a) (sctp_flight_size_decrease c (n\<lparr>net_ack := net_ack n + 1\<rparr>)) (chk_send_size c);
                       Some (put_net (Some k) n d a) })"

text \<open>The destination for the retransmission.\<close>

definition strike_alt :: "snd_env \<Rightarrow> data_chunk \<Rightarrow> snd_asoc \<Rightarrow> (nat option \<times> snd_asoc) option" where
  "strike_alt env c a =
     (if sctp_cmt_on_off (asoc_cc a) > 0
      then do { (alt, a) \<leftarrow> sctp_find_alternate_net env (chk_whoTo c) (if sctp_cmt_pf a > 0 then 2 else 1) a;
                let alt = (case alt of None \<Rightarrow> chk_whoTo c | Some k \<Rightarrow> Some k);
                a \<leftarrow> (case chk_whoTo c of None \<Rightarrow> Some a
                      | Some k \<Rightarrow> do { (n, d) \<leftarrow> net_at (Some k) a; Some (put_net (Some k) n (d\<lparr>find_pseudo_cumack := 1, find_rtx_pseudo_cumack := 1\<rparr>) a) });
                Some (alt, a) }
      else Some (chk_whoTo c, a))"

definition cancel_rtt :: "data_chunk \<Rightarrow> snd_asoc \<Rightarrow> snd_asoc option" where
  "cancel_rtt c a =
     (if do_rtt c \<noteq> 0
      then (case chk_whoTo c of None \<Rightarrow> Some a
            | Some k \<Rightarrow> do { (n, d) \<leftarrow> net_at (Some k) a; Some (put_net (Some k) n (if rto_needed d = 0 then d\<lparr>rto_needed := 1\<rparr> else d) a) })
      else Some a)"

definition next_to_send :: "u32 \<Rightarrow> snd_asoc \<Rightarrow> u32" where
  "next_to_send t a = (case snd_queue a of [] \<Rightarrow> t | c # _ \<Rightarrow> tsn c)"

text \<open>The limit of retransmissions of a message is stored in the seconds of the time at which it is dropped.\<close>

definition strike_resend :: "snd_env \<Rightarrow> strike_vars \<Rightarrow> nat \<Rightarrow> data_chunk \<Rightarrow> bool \<Rightarrow> snd_asoc \<Rightarrow> snd_asoc option" where
  "strike_resend env sv k c again a =
     do { a \<leftarrow> strike_net c a;
          let a = add_peers_rwnd (ucast (chk_send_size c) + sctp_peer_chunk_oh env) a;
          let a = sctp_total_flight_decrease c a;
          let c = c\<lparr>chk_window_probe := 0\<rparr>;
          let a = put_chunk k c a;
          if prsctp_supported a \<noteq> 0 \<and> PR_SCTP_RTX_ENABLED (pr_flags c) \<and> uint (chk_snd_count c) > fst (timetodrop c)
          then do { a \<leftarrow> drop_expired env k c a;
                    (n, d) \<leftarrow> net_at (chk_whoTo c) a;
                    Some (put_net (chk_whoTo c) (n\<lparr>net_ack := net_ack n + 1\<rparr>) d a) }
          else do { let a = (if again then snd_emit [Stat_sendmultfastretrans] a else a);
                    let a = a\<lparr>sent_queue_retran_cnt := sctp_ucount_incr (sent_queue_retran_cnt a)\<rparr>;
                    (alt, a) \<leftarrow> strike_alt env c a;
                    let c = (if sctp_cmt_on_off (asoc_cc a) > 0 then c\<lparr>no_fr_allowed := 1\<rparr> else c);
                    let c = c\<lparr>doing_fast_retransmit := 1, fast_retran_tsn := next_to_send (st_sending_seq sv) a\<rparr>;
                    a \<leftarrow> cancel_rtt c a;
                    Some (put_chunk k (c\<lparr>do_rtt := 0, chk_whoTo := alt\<rparr>) a) } }"

section \<open>The loop\<close>

text \<open>No new acknowledgement for the destination of the chunk, or none beyond the chunk.\<close>

definition sfr_skips :: "data_chunk \<Rightarrow> snd_asoc \<Rightarrow> bool option" where
  "sfr_skips c a =
     (case chk_whoTo c of None \<Rightarrow> Some False
      | Some k \<Rightarrow> do { (n, d) \<leftarrow> net_at (Some k) a; Some (saw_newack d = 0 \<or> SCTP_TSN_GT (tsn c) (this_sack_highest_newack d)) })"

definition strike_hit :: "snd_env \<Rightarrow> strike_vars \<Rightarrow> nat \<Rightarrow> data_chunk \<Rightarrow> snd_asoc \<Rightarrow> snd_asoc option" where
  "strike_hit env sv k c a =
     do { skip \<leftarrow> sfr_skips c a;
          if skip then Some a
          else let (c, again) = strike_chunk env sv a c;
                   a = put_chunk k c a
               in if chk_sent c = SCTP_DATAGRAM_RESEND then strike_resend env sv k c again a else Some a }"

text \<open>One chunk; the first result says whether the loop goes on.\<close>

definition strike_step :: "snd_env \<Rightarrow> strike_vars \<Rightarrow> nat \<Rightarrow> snd_asoc \<Rightarrow> (bool \<times> snd_asoc) option" where
  "strike_step env sv k a =
     do { c \<leftarrow> chunk_at k a;
          if no_fr_allowed c \<noteq> 0 then Some (True, a)
          else if SCTP_TSN_GT (tsn c) (st_biggest_acked sv) \<or> chk_sent c = SCTP_DATAGRAM_UNSENT then Some (False, a)
          else if prsctp_supported a \<noteq> 0 \<and> PR_SCTP_TTL_ENABLED (pr_flags c) \<and> chk_sent c < SCTP_DATAGRAM_ACKED \<and>
                  timer_after (cc_now (env_cc env)) (timetodrop c)
          then do { a \<leftarrow> drop_expired env k c a; Some (True, a) }
          else if SCTP_TSN_GT (tsn c) (this_sack_highest_gap a) then Some (False, a)
          else if chk_sent c \<ge> SCTP_DATAGRAM_RESEND
          then Some (True, if chk_sent c = SCTP_FORWARD_TSN_SKIP then put_chunk k (c\<lparr>fwd_tsn_cnt := fwd_tsn_cnt c + 1\<rparr>) a else a)
          else do { a \<leftarrow> strike_hit env sv k c a; Some (True, a) } }"

section \<open>Termination\<close>

lemma put_chunk_room:
  assumes "k < length (sent_queue a)" "has_data c = has_data (sent_queue a ! k)"
  shows "pr_room (put_chunk k c a) = pr_room a"
proof -
  have "length (filter has_data ((sent_queue a)[k := c])) = length (filter has_data (sent_queue a))"
    using assms by (subst (2) id_take_nth_drop [OF assms(1)]) (simp add: upd_conv_take_nth_drop)
  then show ?thesis by (simp add: pr_room_def put_chunk_def)
qed

lemma room_keep [simp]:
  "pr_room (put_net p n d a) = pr_room a" "pr_room (add_peers_rwnd x a) = pr_room a" "pr_room (sctp_total_flight_decrease c a) = pr_room a"
  "pr_room (snd_emit es a) = pr_room a" "pr_room (a\<lparr>sent_queue_retran_cnt := r\<rparr>) = pr_room a"
  by (simp_all add: pr_room_def)

lemma alt_same_room: "alt_same a b \<Longrightarrow> pr_room b = pr_room a"
  by (simp add: pr_room_def alt_same_fields)

lemma strike_alt_cases:
  assumes "strike_alt env c a = Some (alt, b)"
  obtains "sctp_cmt_on_off (asoc_cc a) = 0" "alt = chk_whoTo c" "b = a"
    | p a1 where "sctp_cmt_on_off (asoc_cc a) > 0" "alt_same a a1" "chk_whoTo c = None" "b = a1"
    | p a1 k n d where "sctp_cmt_on_off (asoc_cc a) > 0" "alt_same a a1" "chk_whoTo c = Some k" "net_at (Some k) a1 = Some (n, d)"
        "b = put_net (Some k) n (d\<lparr>find_pseudo_cumack := 1, find_rtx_pseudo_cumack := 1\<rparr>) a1"
proof (cases "sctp_cmt_on_off (asoc_cc a) > 0")
  case True
  with assms obtain p a1 where p: "sctp_find_alternate_net env (chk_whoTo c) (if sctp_cmt_pf a > 0 then 2 else 1) a = Some (p, a1)"
    by (auto simp: strike_alt_def Option.bind_eq_Some_conv)
  note s = alternate_same [OF p]
  show ?thesis
  proof (cases "chk_whoTo c")
    case None
    with assms True p have "b = a1" by (auto simp: strike_alt_def Let_def)
    with that(2) s True None show ?thesis by blast
  next
    case (Some k)
    with assms True p obtain n d where "net_at (Some k) a1 = Some (n, d)" "b = put_net (Some k) n (d\<lparr>find_pseudo_cumack := 1, find_rtx_pseudo_cumack := 1\<rparr>) a1"
      by (auto simp: strike_alt_def Let_def Option.bind_eq_Some_conv)
    with that(3) s True Some show ?thesis by blast
  qed
next
  case False
  then have "sctp_cmt_on_off (asoc_cc a) = 0" by (simp add: word_gt_0)
  moreover from this have "alt = chk_whoTo c" "b = a" using assms by (simp_all add: strike_alt_def)
  ultimately show ?thesis using that(1) by blast
qed

lemma strike_alt_room: "strike_alt env c a = Some (alt, b) \<Longrightarrow> pr_room b = pr_room a \<and> sent_queue b = sent_queue a"
  by (erule strike_alt_cases) (simp_all add: alt_same_fields alt_same_room)

lemma cancel_rtt_room: "cancel_rtt c a = Some b \<Longrightarrow> pr_room b = pr_room a \<and> sent_queue b = sent_queue a"
  by (auto simp: cancel_rtt_def Option.bind_eq_Some_conv split: if_splits option.splits)

lemma strike_net_room: "strike_net c a = Some b \<Longrightarrow> pr_room b = pr_room a \<and> sent_queue b = sent_queue a"
  by (auto simp: strike_net_def Let_def Option.bind_eq_Some_conv split: option.splits)

lemma strike_resend_room:
  assumes "strike_resend env sv k c again a = Some b" "k < length (sent_queue a)" "has_data c = has_data (sent_queue a ! k)"
  shows "pr_room b \<le> pr_room a"
proof -
  obtain a1 where a1: "strike_net c a = Some a1" using assms(1) by (auto simp: strike_resend_def Option.bind_eq_Some_conv)
  define c2 where "c2 = c\<lparr>chk_window_probe := 0\<rparr>"
  define a2 where "a2 = put_chunk k c2 (sctp_total_flight_decrease c (add_peers_rwnd (ucast (chk_send_size c) + sctp_peer_chunk_oh env) a1))"
  have q1: "pr_room a1 = pr_room a" "sent_queue a1 = sent_queue a" using strike_net_room [OF a1] by auto
  have r2: "pr_room a2 = pr_room a" "sent_queue a2 = (sent_queue a)[k := c2]" "chunk_at k a2 = Some c2"
    using q1 assms(2,3) put_chunk_room [of k "sctp_total_flight_decrease c (add_peers_rwnd (ucast (chk_send_size c) + sctp_peer_chunk_oh env) a1)" c2]
    by (simp_all add: a2_def c2_def) (simp_all add: put_chunk_def chunk_at_def)
  show ?thesis
  proof (cases "prsctp_supported a2 \<noteq> 0 \<and> PR_SCTP_RTX_ENABLED (pr_flags c2) \<and> uint (chk_snd_count c2) > fst (timetodrop c2)")
    case True
    then obtain a3 where "drop_expired env k c2 a2 = Some a3" "pr_room b = pr_room a3"
      using assms(1) a1 by (auto simp: strike_resend_def Let_def c2_def [symmetric] a2_def [symmetric] Option.bind_eq_Some_conv)
    then show ?thesis using drop_expired_room [of env k c2 a2 a3] r2 by simp
  next
    case False
    define a3 where "a3 = (if again then snd_emit [Stat_sendmultfastretrans] a2 else a2)\<lparr>sent_queue_retran_cnt := sctp_ucount_incr (sent_queue_retran_cnt a2)\<rparr>"
    have e: "(if again then snd_emit [Stat_sendmultfastretrans] a2 else a2)\<lparr>sent_queue_retran_cnt :=
        sctp_ucount_incr (sent_queue_retran_cnt (if again then snd_emit [Stat_sendmultfastretrans] a2 else a2))\<rparr> = a3"
      by (simp add: a3_def snd_emit_def)
    obtain alt a4 c4 a5 where a: "strike_alt env c2 a3 = Some (alt, a4)" "cancel_rtt c4 a4 = Some a5" "b = put_chunk k (c4\<lparr>do_rtt := 0, chk_whoTo := alt\<rparr>) a5"
      "has_data c4 = has_data c2"
      using assms(1) False unfolding strike_resend_def a1 Option.bind.simps Let_def c2_def [symmetric] a2_def [symmetric] e
      by (auto simp: Option.bind_eq_Some_conv split: if_splits)
    have "pr_room a5 = pr_room a3" "sent_queue a5 = sent_queue a3" using strike_alt_room [OF a(1)] cancel_rtt_room [OF a(2)] by auto
    moreover have "pr_room a3 = pr_room a2" "sent_queue a3 = sent_queue a2" by (simp_all add: a3_def)
    ultimately show ?thesis using put_chunk_room [of k a5 "c4\<lparr>do_rtt := 0, chk_whoTo := alt\<rparr>"] r2 a(3,4) assms(2) by simp
  qed
qed

lemma strike_chunk_keep: "strike_chunk env sv a c = (c', f) \<Longrightarrow> c' = c\<lparr>chk_sent := chk_sent c'\<rparr>"
  by (auto simp: strike_chunk_def dac_strike_def add_strike_def split: if_splits)

lemma strike_hit_room:
  assumes "strike_hit env sv k c a = Some b" "chunk_at k a = Some c"
  shows "pr_room b \<le> pr_room a"
proof -
  have k: "k < length (sent_queue a)" "sent_queue a ! k = c" using assms(2) by (auto simp: chunk_at_def split: if_splits)
  obtain c' f where c': "strike_chunk env sv a c = (c', f)" by fastforce
  have h: "has_data c' = has_data c" using strike_chunk_keep [OF c'] by (metis data_chunk.select_convs(12) data_chunk.surjective data_chunk.update_convs(3))
  have "b = a \<or> b = put_chunk k c' a \<or> strike_resend env sv k c' f (put_chunk k c' a) = Some b"
    using assms(1) by (auto simp: strike_hit_def c' Let_def Option.bind_eq_Some_conv split: if_splits)
  moreover have "pr_room (put_chunk k c' a) = pr_room a" using k h by (simp add: put_chunk_room)
  ultimately show ?thesis using strike_resend_room [of env sv k c' f "put_chunk k c' a" b] k by (auto simp: put_chunk_def)
qed

lemma strike_room:
  assumes "strike_step env sv k a = Some (g, b)"
  shows "pr_room b \<le> pr_room a"
proof -
  obtain c where c: "chunk_at k a = Some c" using assms by (auto simp: strike_step_def Option.bind_eq_Some_conv)
  have "b = a \<or> b = put_chunk k (c\<lparr>fwd_tsn_cnt := fwd_tsn_cnt c + 1\<rparr>) a \<or> drop_expired env k c a = Some b \<or> strike_hit env sv k c a = Some b"
    using assms by (auto simp: strike_step_def c Option.bind_eq_Some_conv split: if_splits)
  then show ?thesis using drop_expired_room [OF _ c] strike_hit_room [OF _ c] put_chunk_room [of k a "c\<lparr>fwd_tsn_cnt := fwd_tsn_cnt c + 1\<rparr>"] c
    by (auto simp: chunk_at_def split: if_splits)
qed

text \<open>\<^verbatim>\<open>TAILQ_FOREACH\<close> reads the next chunk after the body.\<close>

function (sequential) strike_loop :: "snd_env \<Rightarrow> strike_vars \<Rightarrow> nat option \<Rightarrow> snd_asoc \<Rightarrow> snd_asoc option" where
  "strike_loop env sv None a = Some a"
| "strike_loop env sv (Some k) a =
     do { (go_on, b) \<leftarrow> strike_step env sv k a;
          if go_on then strike_loop env sv (next_chunk k b) b else Some b }"
  by pat_completeness auto
termination
  by (relation "measure (\<lambda>(env, sv, p, a). case p of None \<Rightarrow> 0 | Some k \<Rightarrow> Suc (pr_room a - k))")
    (auto split: option.split dest!: next_chunk_room strike_room)

declare strike_loop.simps [simp del]

definition sctp_strike_gap_ack_chunks :: "snd_env \<Rightarrow> u32 \<Rightarrow> u32 \<Rightarrow> u32 \<Rightarrow> bool \<Rightarrow> snd_asoc \<Rightarrow> snd_asoc option" where
  "sctp_strike_gap_ack_chunks env biggest biggest_new lowest_newack accum_moved a =
     strike_loop env
       \<lparr>st_biggest_acked = biggest, st_biggest_newly_acked = biggest_new, st_lowest_newack = lowest_newack, st_accum_moved = accum_moved,
        num_dests_sacked = (if sctp_cmt_on_off (asoc_cc a) > 0 \<and> cmt_use_dac env \<noteq> 0 then length (filter (\<lambda>d. saw_newack d \<noteq> 0) (dests a)) else 0),
        st_sending_seq = next_to_send (sending_seq (asoc_cc a)) a\<rparr> (first_chunk a) a"

end
