(* ===== verification/Snd_Slow.thy ===== *)
theory Snd_Slow
  imports Snd_Express Snd_Strike
begin

text \<open>
  The slow path of SACK processing, \<^verbatim>\<open>sctp_handle_sack\<close> of netinet/sctp_indata.c, and the treatment of SACK and NR-SACK chunks in
  \<^verbatim>\<open>sctp_process_control\<close> of netinet/sctp_input.c, which chooses between the two paths. The result \<open>Some (abort, a)\<close> has \<^verbatim>\<open>*abort_now\<close>. The duplicates a SACK
  reports are only logged.
\<close>

definition SCTP_SACK_CMT_DAC :: u8 where "SCTP_SACK_CMT_DAC = 0x80"

section \<open>Loops over the destinations\<close>

definition stop_timer :: "nat \<Rightarrow> dest \<Rightarrow> snd_asoc \<Rightarrow> dest \<times> snd_asoc" where
  "stop_timer k d a = (d\<lparr>rxt_pending := False\<rparr>, snd_emit [Send_timer_stop k] a)"

definition quiet_dest :: "nat \<Rightarrow> sctp_nets \<Rightarrow> dest \<Rightarrow> snd_asoc \<Rightarrow> (sctp_nets \<times> dest \<times> snd_asoc) option" where
  "quiet_dest k n d a =
     (let (d, a) = stop_timer k d a in Some (n\<lparr>partial_bytes_acked := 0, flight_size := 0\<rparr>, d, a))"

definition newack_dest :: "u32 \<Rightarrow> nat \<Rightarrow> sctp_nets \<Rightarrow> dest \<Rightarrow> snd_asoc \<Rightarrow> (sctp_nets \<times> dest \<times> snd_asoc) option" where
  "newack_dest last_tsn k n d a = Some (n, d\<lparr>saw_newack := 0, this_sack_highest_newack := last_tsn\<rparr>, a)"

definition cancel_dest :: "bool \<Rightarrow> nat \<Rightarrow> sctp_nets \<Rightarrow> dest \<Rightarrow> snd_asoc \<Rightarrow> (sctp_nets \<times> dest \<times> snd_asoc) option" where
  "cancel_dest accum_moved k n d a =
     (if (if sctp_cmt_on_off (asoc_cc a) > 0 then new_pseudo_cumack n \<noteq> 0 else accum_moved)
      then let (d, a) = stop_timer k d a in Some (n, d, a)
      else Some (n, d, a))"

definition forget_ack_dest :: "nat \<Rightarrow> sctp_nets \<Rightarrow> dest \<Rightarrow> snd_asoc \<Rightarrow> (sctp_nets \<times> dest \<times> snd_asoc) option" where
  "forget_ack_dest k n d a = Some (n\<lparr>net_ack := 0\<rparr>, d, a)"

definition exit_recovery_dest :: "nat \<Rightarrow> sctp_nets \<Rightarrow> dest \<Rightarrow> snd_asoc \<Rightarrow> (sctp_nets \<times> dest \<times> snd_asoc) option" where
  "exit_recovery_dest k n d a = Some (if will_exit_fast_recovery d \<noteq> 0 then n\<lparr>net_fast_retran_loss_recovery := 0\<rparr> else n, d, a)"

section \<open>Chunks below the cumulative TSN\<close>

definition slow_acked_net :: "int \<times> int \<Rightarrow> data_chunk \<Rightarrow> seg_vars \<Rightarrow> snd_asoc \<Rightarrow> (seg_vars \<times> snd_asoc) option" where
  "slow_acked_net now c v a =
     do { (n, d) \<leftarrow> net_at (chk_whoTo c) a;
          let d = (if dest_state d AND SCTP_ADDR_UNCONFIRMED \<noteq> 0 \<and> chk_snd_count c < 2
                   then d\<lparr>dest_state := dest_state d AND NOT SCTP_ADDR_UNCONFIRMED\<rparr> else d);
          let n = (if chk_sent c < SCTP_DATAGRAM_RESEND
                   then cc_tsn_acknowledged (snd_module a) (sctp_flight_size_decrease c n) (chk_send_size c) else n);
          let a = (if chk_sent c < SCTP_DATAGRAM_RESEND then sctp_total_flight_decrease c a else a);
          let n = n\<lparr>net_ack := net_ack n + ucast (chk_send_size c)\<rparr>;
          let v = v\<lparr>this_sack_lowest_newack := tsn c\<rparr>;
          let d = d\<lparr>saw_newack := 1\<rparr>;
          let d = (if chk_snd_count c < 2 then d\<lparr>net_ack2 := net_ack2 d + ucast (chk_send_size c)\<rparr> else d);
          let (v, n, d, a) = (if chk_snd_count c < 2 \<and> do_rtt c \<noteq> 0 then seg_rto now c v n d a else (v, n, d, a));
          Some (v, put_net (chk_whoTo c) (n\<lparr>new_pseudo_cumack := 1\<rparr>) (d\<lparr>find_pseudo_cumack := 1, find_rtx_pseudo_cumack := 1\<rparr>) a) }"

definition slow_mark :: "data_chunk \<Rightarrow> data_chunk" where
  "slow_mark c =
     (let c' = (if chk_sent c < SCTP_DATAGRAM_RESEND then c\<lparr>chk_window_probe := 0\<rparr> else c);
          c' = (if chk_sent c < SCTP_DATAGRAM_ACKED \<and> chk_snd_count c < 2 then c'\<lparr>do_rtt := 0\<rparr> else c')
      in c'\<lparr>chunk_was_revoked := 0, chk_sent := (if chk_sent c = SCTP_DATAGRAM_NR_ACKED then chk_sent c else SCTP_DATAGRAM_ACKED)\<rparr>)"

definition slow_acked :: "int \<times> int \<Rightarrow> data_chunk \<Rightarrow> seg_vars \<Rightarrow> snd_asoc \<Rightarrow> (seg_vars \<times> snd_asoc) option" where
  "slow_acked now c v a =
     do { (v, a) \<leftarrow> (if chk_sent c < SCTP_DATAGRAM_ACKED then slow_acked_net now c v a else Some (v, a));
          let a = (if chk_sent c = SCTP_DATAGRAM_RESEND then a\<lparr>sent_queue_retran_cnt := sctp_ucount_decr (sent_queue_retran_cnt a)\<rparr> else a);
          (_, a) \<leftarrow> undo_revoke c a;
          Some (v, a) }"

text \<open>The results are the new queue and whether the cumulative TSN moved.\<close>

fun slow_loop :: "int \<times> int \<Rightarrow> u32 \<Rightarrow> data_chunk list \<Rightarrow> bool \<Rightarrow> seg_vars \<Rightarrow> snd_asoc \<Rightarrow> (data_chunk list \<times> bool \<times> seg_vars \<times> snd_asoc) option" where
  "slow_loop now last_tsn [] moved v a = Some ([], moved, v, a)"
| "slow_loop now last_tsn (c # cs) moved v a =
     (if \<not> SCTP_TSN_GE last_tsn (tsn c) then Some (c # cs, moved, v, a)
      else if chk_sent c = SCTP_DATAGRAM_UNSENT
      then do { (cs, moved, v, a) \<leftarrow> slow_loop now last_tsn cs moved v a; Some (c # cs, moved, v, a) }
      else do { (v, a) \<leftarrow> slow_acked now c v a;
                (cs, moved, v, a) \<leftarrow> slow_loop now last_tsn cs True v a;
                Some (slow_mark c # cs, moved, v, a) })"

section \<open>Chunks leave the sent queue\<close>

definition drop_chunk :: "data_chunk \<Rightarrow> snd_asoc \<Rightarrow> snd_asoc option" where
  "drop_chunk c a =
     do { a \<leftarrow> stream_done c a;
          let a = (if PR_SCTP_ENABLED (pr_flags c) \<and> pr_sctp_cnt a \<noteq> 0 then a\<lparr>pr_sctp_cnt := pr_sctp_cnt a - 1\<rparr> else a);
          let a = a\<lparr>sent_queue_cnt := sent_queue_cnt a - 1\<rparr>;
          Some (if has_data c
                then let a = sctp_free_bufspace c 1 a
                     in if prsctp_supported a \<noteq> 0 \<and> PR_SCTP_BUF_ENABLED (pr_flags c)
                        then a\<lparr>sent_queue_cnt_removeable := sent_queue_cnt_removeable a - 1\<rparr> else a
                else a) }"

fun drop_loop :: "u32 \<Rightarrow> data_chunk list \<Rightarrow> bool \<Rightarrow> snd_asoc \<Rightarrow> (bool \<times> snd_asoc) option" where
  "drop_loop cum_ack [] wake a = Some (wake, a\<lparr>sent_queue := []\<rparr>)"
| "drop_loop cum_ack (c # cs) wake a =
     (if SCTP_TSN_GT (tsn c) cum_ack then Some (wake, a\<lparr>sent_queue := c # cs\<rparr>)
      else do { a \<leftarrow> drop_chunk c a; drop_loop cum_ack cs True a })"

section \<open>Revoked chunks\<close>

text \<open>All acknowledged chunks are revoked when the peer reports no gap blocks any more. The flag says whether there was one.\<close>

fun revoke_all :: "data_chunk list \<Rightarrow> snd_asoc \<Rightarrow> (data_chunk list \<times> snd_asoc) option" where
  "revoke_all [] a = Some ([], a)"
| "revoke_all (c # cs) a =
     do { (c, a) \<leftarrow> (if chk_sent c = SCTP_DATAGRAM_ACKED then revoke_chunk c a else Some (c, a));
          (cs, a) \<leftarrow> revoke_all cs a;
          Some (c # cs, a) }"

definition slow_revoked :: "nat \<Rightarrow> u32 \<Rightarrow> u32 \<Rightarrow> snd_asoc \<Rightarrow> snd_asoc option" where
  "slow_revoked num_seg cum_ack biggest a =
     (if num_seg \<noteq> 0
      then do { a \<leftarrow> sctp_check_for_revoked cum_ack biggest a; Some (a\<lparr>saw_sack_with_frags := 1\<rparr>) }
      else if saw_sack_with_frags a \<noteq> 0
      then do { (q, a) \<leftarrow> revoke_all (sent_queue a) a; Some (a\<lparr>sent_queue := q, saw_sack_with_frags := 0\<rparr>) }
      else Some a)"

section \<open>Timers\<close>

definition slow_timer :: "nat \<Rightarrow> snd_asoc \<Rightarrow> (bool \<times> snd_asoc) option" where
  "slow_timer k a =
     do { (n, d) \<leftarrow> net_at (Some k) a;
          if flight_size n \<noteq> 0
          then Some (True, (if rxt_pending d then put_net (Some k) n (d\<lparr>dest_window_probe := 0\<rparr>) a
                            else snd_emit [Send_timer_start k] (put_net (Some k) n (d\<lparr>rxt_pending := True, dest_window_probe := 0\<rparr>) a)))
          else if dest_window_probe d \<noteq> 0
          then Some (False, (if rxt_pending d then a else snd_emit [Send_timer_start k] (put_net (Some k) n (d\<lparr>rxt_pending := True\<rparr>) a)))
          else if rxt_pending d
          then Some (False, snd_emit [Send_timer_stop k] (put_net (Some k) n (d\<lparr>rxt_pending := False\<rparr>) a))
          else Some (False, a) }"

section \<open>The handler\<close>

definition plain_rwnd :: "u32 \<Rightarrow> snd_asoc \<Rightarrow> snd_asoc" where
  "plain_rwnd rwnd a = a\<lparr>asoc_cc := (asoc_cc a)\<lparr>peers_rwnd := (if rwnd < sctp_sws_sender a then 0 else rwnd)\<rparr>\<rparr>"

definition hopeless_peer :: "snd_asoc \<Rightarrow> (bool \<times> snd_asoc) option" where
  "hopeless_peer a = Some (True, snd_emit [Abort_association SCTP_CAUSE_PROTOCOL_VIOLATION] a)"

text \<open>Nothing is queued anywhere.\<close>

definition all_idle :: "u32 \<Rightarrow> snd_asoc \<Rightarrow> snd_asoc option" where
  "all_idle rwnd a =
     do { a \<leftarrow> foreach_dest quiet_dest ((plain_rwnd rwnd a)\<lparr>sent_queue_retran_cnt := 0\<rparr>);
          Some (a\<lparr>total_flight := 0, total_flight_count := 0\<rparr>) }"

definition slow_idle :: "snd_asoc \<Rightarrow> snd_asoc option" where
  "slow_idle a =
     (if sent_queue a = []
      then do { a \<leftarrow> foreach_dest quiet_dest a; Some (a\<lparr>total_flight := 0, total_flight_count := 0\<rparr>) }
      else Some a)"

text \<open>Congestion control sees the queue of chunks that were not sent yet by their TSNs.\<close>

definition cc_of :: "snd_asoc \<Rightarrow> cc_asoc" where
  "cc_of a = (asoc_cc a)\<lparr>send_queue := map tsn (snd_queue a)\<rparr>"

text \<open>A destination that enters fast recovery gets its retransmission timer restarted.\<close>

definition fr_timers :: "cc_asoc \<Rightarrow> cc_asoc \<Rightarrow> snd_asoc \<Rightarrow> snd_asoc" where
  "fr_timers old new a =
     a\<lparr>dests := map (\<lambda>(n, d). if Timer_start (net_addr n) \<in> set (drop (length (cc_events old)) (cc_events new)) then d\<lparr>rxt_pending := True\<rparr> else d)
                 (zip (nets new) (dests a))\<rparr>"

text \<open>The gap blocks; the results are the greatest TSN and the working variables.\<close>

definition slow_gaps :: "snd_env \<Rightarrow> mchain \<Rightarrow> int \<Rightarrow> u32 \<Rightarrow> nat \<Rightarrow> nat \<Rightarrow> seg_vars \<Rightarrow> snd_asoc \<Rightarrow> (u32 \<times> bool \<times> seg_vars \<times> snd_asoc) option" where
  "slow_gaps env m off cum_ack num_seg num_nr_seg v a =
     (let v = v\<lparr>biggest_newly_acked_tsn := cum_ack\<rparr>
      in if num_seg > 0 \<or> num_nr_seg > 0
         then do { a \<leftarrow> foreach_dest (newack_dest cum_ack) a;
                   (p, v, a) \<leftarrow> sctp_handle_segments (cc_now (env_cc env)) m off cum_ack cum_ack num_seg num_nr_seg v a;
                   Some (biggest_tsn_acked p, chunk_freed p, v, a) }
         else Some (cum_ack, False, v, a))"

text \<open>Congestion control, unless an ECN echo came with the SACK.\<close>

definition slow_grow :: "snd_env \<Rightarrow> bool \<Rightarrow> bool \<Rightarrow> bool \<Rightarrow> snd_asoc \<Rightarrow> snd_asoc option" where
  "slow_grow env ecne_seen accum_moved will_exit a =
     (if ecne_seen then Some a
      else do { a \<leftarrow> foreach_dest revive_dest a;
                cc \<leftarrow> cc_after_sack (env_cc env) (snd_module a) (asoc_cc a) accum_moved will_exit;
                Some (a\<lparr>asoc_cc := cc\<rparr>) })"

text \<open>After the chunks have been marked: strikes, fast retransmission, window, timers and partial reliability.\<close>

definition slow_finish :: "snd_env \<Rightarrow> bool \<Rightarrow> u8 \<Rightarrow> u32 \<Rightarrow> u32 \<Rightarrow> u32 \<Rightarrow> u32 \<Rightarrow> bool \<Rightarrow> bool \<Rightarrow> seg_vars \<Rightarrow> snd_asoc \<Rightarrow> snd_asoc option" where
  "slow_finish env gaps flags cum_ack rwnd old_rwnd biggest accum_moved will_exit v a =
     do { a \<leftarrow> foreach_dest forget_ack_dest a;
          let lowest = (if sctp_cmt_on_off (asoc_cc a) > 0 \<and> cmt_use_dac env \<noteq> 0 \<and> flags AND SCTP_SACK_CMT_DAC = 0 then cum_ack
                        else this_sack_lowest_newack v);
          a \<leftarrow> (if gaps then sctp_strike_gap_ack_chunks env biggest (biggest_newly_acked_tsn v) lowest accum_moved a else Some a);
          cc \<leftarrow> cc_after_fr (env_cc env) (snd_module a) (cc_of a);
          let a = (fr_timers (asoc_cc a) cc a)\<lparr>asoc_cc := (if will_exit then cc\<lparr>fast_retran_loss_recovery := 0\<rparr> else cc)\<rparr>;
          let a = (if sat_t3_loss_recovery a \<noteq> 0 \<and> SCTP_TSN_GE (last_acked_seq a) (sat_t3_recovery_tsn a) then a\<lparr>sat_t3_loss_recovery := 0\<rparr> else a);
          a \<leftarrow> foreach_dest exit_recovery_dest a;
          let a = set_peers_rwnd env rwnd a;
          a \<leftarrow> assure_timers slow_timer (peers_rwnd (asoc_cc a) > old_rwnd) a;
          pr_issues env cum_ack a }"

text \<open>From the stopping of the timers to the end.\<close>

definition slow_rest :: "snd_env \<Rightarrow> nat \<Rightarrow> nat \<Rightarrow> u8 \<Rightarrow> u32 \<Rightarrow> u32 \<Rightarrow> u32 \<Rightarrow> bool \<Rightarrow> bool \<Rightarrow> u32 \<Rightarrow> bool \<Rightarrow> seg_vars \<Rightarrow> snd_asoc \<Rightarrow> (bool \<times> snd_asoc) option" where
  "slow_rest env num_seg num_nr_seg flags cum_ack rwnd old_rwnd ecne_seen accum_moved biggest freed v a =
     do { a \<leftarrow> foreach_dest (cancel_dest accum_moved) a;
          (wake, a) \<leftarrow> drop_loop cum_ack (sent_queue a) freed (a\<lparr>last_acked_seq := cum_ack\<rparr>);
          let a = (if sent_queue a = [] \<and> total_flight a > 0 then a\<lparr>total_flight := 0\<rparr> else a);
          let a = wake_user None wake a;
          let will_exit = (fast_retran_loss_recovery (asoc_cc a) \<noteq> 0 \<and> accum_moved \<and> SCTP_TSN_GE (last_acked_seq a) (fast_recovery_tsn (asoc_cc a)));
          a \<leftarrow> slow_revoked num_seg cum_ack biggest a;
          let a = a\<lparr>saw_sack_with_nr_frags := (if num_nr_seg > 0 then 1 else 0)\<rparr>;
          a \<leftarrow> slow_grow env ecne_seen accum_moved will_exit a;
          a \<leftarrow> slow_idle a;
          let (r, a) = (if snd_queue a = [] \<and> sent_queue a = [] then shutdown_issues env (plain_rwnd rwnd a) else (Shutdown_none, a));
          case r of Shutdown_abort \<Rightarrow> Some (True, a)
          | Shutdown_started \<Rightarrow> Some (False, a)
          | Shutdown_none \<Rightarrow>
              do { a \<leftarrow> slow_finish env (num_seg > 0 \<or> num_nr_seg > 0) flags cum_ack rwnd old_rwnd biggest accum_moved will_exit v a;
                   Some (False, a) } }"

definition slow_body :: "snd_env \<Rightarrow> mchain \<Rightarrow> int \<Rightarrow> nat \<Rightarrow> nat \<Rightarrow> u8 \<Rightarrow> u32 \<Rightarrow> u32 \<Rightarrow> bool \<Rightarrow> snd_asoc \<Rightarrow> (bool \<times> snd_asoc) option" where
  "slow_body env m off num_seg num_nr_seg flags cum_ack rwnd ecne_seen a =
     do { let old_rwnd = peers_rwnd (asoc_cc a);
          let send_s = sent_end a;
          a \<leftarrow> foreach_dest (prepare_dest env cum_ack) a;
          (q, accum_moved, v, a) \<leftarrow> slow_loop (cc_now (env_cc env)) cum_ack (sent_queue a) False
             \<lparr>biggest_newly_acked_tsn = 0, this_sack_lowest_newack = 0, rto_ok = True, wake_him = 0\<rparr> a;
          let a = a\<lparr>sent_queue := q, this_sack_highest_gap := cum_ack\<rparr>;
          (biggest, freed, v, a) \<leftarrow> slow_gaps env m off cum_ack num_seg num_nr_seg v a;
          if (num_seg > 0 \<or> num_nr_seg > 0) \<and> SCTP_TSN_GE biggest send_s then hopeless_peer a
          else slow_rest env num_seg num_nr_seg flags cum_ack rwnd old_rwnd ecne_seen accum_moved biggest freed v a }"

definition sctp_handle_sack :: "snd_env \<Rightarrow> mchain \<Rightarrow> int \<Rightarrow> nat \<Rightarrow> nat \<Rightarrow> u8 \<Rightarrow> u32 \<Rightarrow> u32 \<Rightarrow> bool \<Rightarrow> snd_asoc \<Rightarrow> (bool \<times> snd_asoc) option" where
  "sctp_handle_sack env m off num_seg num_nr_seg flags cum_ack rwnd ecne_seen a =
     (let a = a\<lparr>overall_error_count := 0\<rparr>
      in if SCTP_TSN_GE cum_ack (sent_end a) then hopeless_peer a
         else if SCTP_TSN_GT (last_acked_seq a) cum_ack then Some (False, a)
         else if sent_queue a = [] \<and> snd_queue a = [] \<and> stream_queue_cnt a = 0
         then do { a \<leftarrow> all_idle rwnd a; Some (False, a) }
         else slow_body env m off num_seg num_nr_seg flags cum_ack rwnd ecne_seen a)"

section \<open>SACK and NR-SACK chunks\<close>

text \<open>The fields of a SACK or NR-SACK chunk, with its length; the blocks start at an offset of the packet.\<close>

record sack_fields =
  sf_flags :: u8
  sf_cum_ack :: u32
  sf_rwnd :: u32
  sf_num_seg :: u16
  sf_num_nr_seg :: u16
  sf_num_dup :: u16
  sf_length :: nat

definition sender_dry :: "snd_asoc \<Rightarrow> snd_asoc" where
  "sender_dry a = (if snd_queue a = [] \<and> sent_queue a = [] \<and> stream_queue_cnt a = 0 then snd_emit [Sender_dry] a else a)"

definition seen_a_sack :: "snd_asoc \<Rightarrow> snd_asoc" where
  "seen_a_sack a = a\<lparr>asoc_cc := (asoc_cc a)\<lparr>seen_a_sack_this_pkt := 1\<rparr>\<rparr>"

text \<open>Whether the express path is right for a chunk.\<close>

definition simple_sack :: "sack_fields \<Rightarrow> snd_asoc \<Rightarrow> bool" where
  "simple_sack s a \<longleftrightarrow> pr_sctp_cnt a = 0 \<and> sf_num_seg s = 0 \<and> sf_num_nr_seg s = 0 \<and> SCTP_TSN_GE (sf_cum_ack s) (last_acked_seq a) \<and>
     saw_sack_with_frags a = 0 \<and> saw_sack_with_nr_frags a = 0 \<and> sent_queue a \<noteq> []"

text \<open>
  A chunk whose length is right, in an association that is not at its end. \<open>size\<close> is the size of the fixed part; \<open>has_net\<close> says
  whether the packet belongs to a known destination.
\<close>

definition process_sack :: "snd_env \<Rightarrow> nat \<Rightarrow> mchain \<Rightarrow> int \<Rightarrow> bool \<Rightarrow> bool \<Rightarrow> sack_fields \<Rightarrow> snd_asoc \<Rightarrow> (bool \<times> snd_asoc) option" where
  "process_sack env fixed_size m off has_net ecne_seen s a =
     (if sf_length s < fixed_size then Some (False, a)
      else if SCTP_GET_STATE a = SCTP_STATE_SHUTDOWN_ACK_SENT then Some (False, a)
      else if fixed_size + (unat (sf_num_seg s) + unat (sf_num_nr_seg s)) * 4 + unat (sf_num_dup s) * 4 \<noteq> sf_length s then Some (False, a)
      else do { let a = seen_a_sack a;
                (abort_now, a) \<leftarrow>
                  (if simple_sack s a then sctp_express_handle_sack env (sf_cum_ack s) (sf_rwnd s) ecne_seen a
                   else if has_net
                   then sctp_handle_sack env m (off + int fixed_size) (unat (sf_num_seg s)) (unat (sf_num_nr_seg s)) (sf_flags s) (sf_cum_ack s) (sf_rwnd s) ecne_seen a
                   else Some (False, a));
                Some (abort_now, if abort_now then a else sender_dry a) })"

definition sack_input :: "snd_env \<Rightarrow> mchain \<Rightarrow> int \<Rightarrow> bool \<Rightarrow> bool \<Rightarrow> sack_fields \<Rightarrow> snd_asoc \<Rightarrow> (bool \<times> snd_asoc) option" where
  "sack_input env m off has_net ecne_seen s = process_sack env sizeof_sack_chunk m off has_net ecne_seen (s\<lparr>sf_num_nr_seg := 0\<rparr>)"

text \<open>Without support for NR-SACK the chunk type is unknown.\<close>

definition nr_sack_input :: "bool \<Rightarrow> snd_env \<Rightarrow> mchain \<Rightarrow> int \<Rightarrow> bool \<Rightarrow> bool \<Rightarrow> sack_fields \<Rightarrow> snd_asoc \<Rightarrow> (bool \<times> snd_asoc) option" where
  "nr_sack_input nrsack_supported env m off has_net ecne_seen s a =
     (if \<not> nrsack_supported then Some (False, snd_emit [Unknown_chunk] a)
      else process_sack env sizeof_nr_sack_chunk m off has_net ecne_seen s a)"

end
