(* ===== verification/Snd_Timers.thy ===== *)
theory Snd_Timers
  imports Snd_Express Snd_Revoke
begin

text \<open>
  The end of the treatment of a SACK: every destination with data in flight gets its retransmission timer, a window probe is
  taken back, and the counters of the data in flight are built anew when they seem to be wrong.
\<close>

section \<open>What stays fixed\<close>

definition fixed :: "snd_asoc \<Rightarrow> (nat \<times> nat \<times> nat) \<times> cc_module \<times> u8 \<times> u32 \<times> u32 \<times> u8 \<times> u32" where
  "fixed a = (shape a, snd_module a, sctp_cmt_on_off (asoc_cc a), sending_seq (asoc_cc a), pr_sctp_cnt a, prsctp_supported a, last_acked_seq a)"

lemma fixed_shape: "fixed a = fixed b \<Longrightarrow> shape a = shape b"
  by (simp add: fixed_def)

lemma fixed_put_net [simp]: "fixed (put_net p n d a) = fixed a"
  by (simp add: fixed_def shape_def) (simp add: put_net_def split: option.split)

lemma fixed_put_chunk [simp]: "fixed (put_chunk k c a) = fixed a"
  by (simp add: fixed_def) (simp add: put_chunk_def)

lemma fixed_upd [simp]:
  "fixed (a\<lparr>sent_queue := q\<rparr>) = fixed a" "fixed (a\<lparr>total_flight := x\<rparr>) = fixed a" "fixed (a\<lparr>total_flight_count := x\<rparr>) = fixed a"
  "fixed (a\<lparr>sent_queue_retran_cnt := x\<rparr>) = fixed a" "fixed (snd_emit es a) = fixed a"
  by (simp_all add: fixed_def shape_def snd_emit_def)

lemma counters_upd [simp]:
  "counters (a\<lparr>sent_queue := q\<rparr>) = counters a" "counters (a\<lparr>sent_queue_retran_cnt := x\<rparr>) = counters a" "counters (snd_emit es a) = counters a"
  by (simp_all add: counters_def snd_emit_def)

lemma emit_keep [simp]: "sent_queue (snd_emit es a) = sent_queue a" "dests (snd_emit es a) = dests a" "asoc_cc (snd_emit es a) = asoc_cc a"
  "total_flight (snd_emit es a) = total_flight a" "total_flight_count (snd_emit es a) = total_flight_count a" "snd_state (snd_emit es a) = snd_state a"
  by (simp_all add: snd_emit_def)

section \<open>Loops over the destinations\<close>

text \<open>A loop whose body takes an invariant from one destination to the next one runs to its end.\<close>

locale dest_loop =
  fixes f :: "nat \<Rightarrow> sctp_nets \<Rightarrow> dest \<Rightarrow> snd_asoc \<Rightarrow> (sctp_nets \<times> dest \<times> snd_asoc) option"
    and P :: "nat \<Rightarrow> snd_asoc \<Rightarrow> bool"
  assumes body: "P k a \<Longrightarrow> net_at (Some k) a = Some (n, d) \<Longrightarrow>
    \<exists>n' d' a'. f k n d a = Some (n', d', a') \<and> P (Suc k) (put_net (Some k) n' d' a') \<and> shape a' = shape a"
begin

lemma loop_ok:
  assumes "i \<le> m" "m \<le> length (dests a)" "length (dests a) = length (nets (asoc_cc a))" "P i a"
  shows "\<exists>b. for_dests f [i..<m] a = Some b \<and> P m b \<and> shape b = shape a"
  using assms
proof (induction "m - i" arbitrary: i a)
  case (Suc j)
  then have u: "[i..<m] = i # [Suc i..<m]" "j = m - Suc i" "Suc i \<le> m" by (simp_all add: upt_conv_Cons)
  obtain n d where nd: "net_at (Some i) a = Some (n, d)" using valid_net_at [of a "Some i"] Suc.prems u(3) by (auto simp: valid_net_def)
  from body [OF Suc.prems(4) this] obtain n' d' a' where f: "f i n d a = Some (n', d', a')" "P (Suc i) (put_net (Some i) n' d' a')" "shape a' = shape a"
    by blast
  have s: "shape (put_net (Some i) n' d' a') = shape a" using f(3) by (simp add: shape_def)
  with Suc.hyps(1) [OF u(2,3), of "put_net (Some i) n' d' a'"] f(1,2) nd u(1) Suc.prems show ?case by (auto simp: shape_def)
qed simp

lemma all_ok:
  assumes "length (dests a) = length (nets (asoc_cc a))" "P 0 a"
  shows "\<exists>b. foreach_dest f a = Some b \<and> P (length (dests a)) b \<and> shape b = shape a"
  unfolding foreach_dest_def using assms by (intro loop_ok) simp_all

end

section \<open>Building the counters anew\<close>

definition empty_upto :: "(nat \<times> nat \<times> nat) \<times> cc_module \<times> u8 \<times> u32 \<times> u32 \<times> u8 \<times> u32 \<Rightarrow> data_chunk list \<Rightarrow> u32 \<Rightarrow> nat \<Rightarrow> snd_asoc \<Rightarrow> bool" where
  "empty_upto F q r k a \<longleftrightarrow> fixed a = F \<and> sent_queue a = q \<and> sent_queue_retran_cnt a = r \<and> (\<forall>i<k. i < length (flights a) \<longrightarrow> flights a ! i = 0)"

lemma empty_step:
  assumes "empty_upto F q r k a" "net_at (Some k) a = Some (n, d)" "flight_size n' = 0"
  shows "empty_upto F q r (Suc k) (put_net (Some k) n' d' a)"
  using assms by (auto simp: empty_upto_def) (auto simp: put_net_def net_at_def nth_list_update less_Suc_eq split: if_splits)

interpretation no_flight: dest_loop no_flight_dest "empty_upto F q r"
  by unfold_locales (auto simp: no_flight_dest_def intro!: empty_step)

interpretation idle: dest_loop idle_dest "empty_upto F q r"
  by unfold_locales (auto simp: idle_dest_def intro!: empty_step)

text \<open>The chunks that wait for a retransmission are counted, too.\<close>

definition retran_of :: "data_chunk list \<Rightarrow> nat" where
  "retran_of q = length (filter (\<lambda>c. chk_sent c = SCTP_DATAGRAM_RESEND) q)"

definition retran_ok :: "snd_asoc \<Rightarrow> bool" where
  "retran_ok a \<longleftrightarrow> unat (sent_queue_retran_cnt a) = retran_of (sent_queue a)"


lemma flight_of_append [simp]: "flight_of f (xs @ ys) = flight_of f xs + flight_of f ys"
  by (simp add: flight_of_def)

lemma flight_of_Cons: "flight_of f (c # cs) = (if in_flight c then f c else 0) + flight_of f cs"
  by (simp add: flight_of_def)

lemma flight_ok_queue:
  assumes "flight_ok (a\<lparr>sent_queue := q\<rparr>)" "\<And>f. flight_of f q' = flight_of f q" "counters b = counters a"
  shows "flight_ok (b\<lparr>sent_queue := q'\<rparr>)"
  using assms by (simp add: flight_ok_def counters_def)

lemma queue_pointers [simp]: "valid_net (a\<lparr>sent_queue := q\<rparr>) = valid_net a" "chunk_ok (a\<lparr>sent_queue := q\<rparr>) = chunk_ok a"
  by (rule ext, simp add: valid_net_def split: option.split) (rule chunk_ok_shape, simp add: shape_def)

lemma total_flight_increase_keep:
  "sent_queue (sctp_total_flight_increase c a) = sent_queue a" "fixed (sctp_total_flight_increase c a) = fixed a"
  "asoc_cc (sctp_total_flight_increase c a) = asoc_cc a" "dests (sctp_total_flight_increase c a) = dests a"
  "sent_queue_retran_cnt (sctp_total_flight_increase c a) = sent_queue_retran_cnt a"
  by (simp_all add: sctp_total_flight_increase_def fixed_def shape_def)

text \<open>A chunk in flight behind the ones that are counted already.\<close>

lemma count_chunk:
  assumes ok: "flight_ok (a\<lparr>sent_queue := ds\<rparr>)" "snd_ok (a\<lparr>sent_queue := ds @ [c]\<rparr>)" and c: "in_flight c"
  shows "\<exists>n d. net_at (chk_whoTo c) a = Some (n, d) \<and>
    flight_ok ((sctp_total_flight_increase c (put_net (chk_whoTo c) (sctp_flight_size_increase c n) d a))\<lparr>sent_queue := ds @ [c]\<rparr>)"
proof -
  let ?x = "c\<lparr>chk_sent := SCTP_DATAGRAM_ACKED\<rparr>" and ?a = "\<lambda>q. a\<lparr>sent_queue := q\<rparr>"
  have v: "valid_net a (chk_whoTo c)"
    using ok(2) c by (auto simp: snd_ok_def) (auto simp: chunk_ok_def in_flight_def datagram_states)
  then obtain i where i: "chk_whoTo c = Some i" "i < length (flights a)" by (auto simp: valid_net_def split: option.splits)
  obtain n d where nd: "net_at (chk_whoTo c) a = Some (n, d)" using v valid_net_at by blast
  let ?b = "sctp_total_flight_increase c (put_net (chk_whoTo c) (sctp_flight_size_increase c n) d a)"
  have f: "flight_ok (?a (ds @ [?x]))"
    by (rule flight_ok_queue [OF ok(1)]) (simp_all add: flight_of_Cons in_flight_def datagram_states, simp add: flight_of_def)
  have s: "snd_ok (?a (ds @ [?x]))" using ok(2) v by (simp add: snd_ok_def) (simp add: chunk_ok_def)
  have fs: "flights a ! i = flight_size n" "i < length (nets (asoc_cc a))" using nd i(1) by (auto simp: net_at_def split: if_splits)
  have cn: "counters ?b = enter c i (counters a)"
    using fs i(1) by (simp add: counters_def enter_def sctp_total_flight_increase_def put_net_def sctp_flight_size_increase_def map_update)
  have "flight_ok (?b\<lparr>sent_queue := ds @ [c]\<rparr>)"
    by (rule enter_ok [OF f s, of "length ds" c i]) (use c i cn in \<open>simp_all add: in_flight_def datagram_states nth_append\<close>)
  then show ?thesis using nd by blast
qed

lemma retran_of_simps [simp]:
  "retran_of [] = 0" "retran_of (c # cs) = (if chk_sent c = SCTP_DATAGRAM_RESEND then 1 else 0) + retran_of cs"
  "retran_of (xs @ ys) = retran_of xs + retran_of ys"
  by (simp_all add: retran_of_def)

lemma retran_of_le: "retran_of q \<le> length q"
  by (simp add: retran_of_def)

lemma snd_ok_prefix: "snd_ok (a\<lparr>sent_queue := xs @ ys\<rparr>) \<Longrightarrow> fixed b = fixed a \<Longrightarrow> snd_ok (b\<lparr>sent_queue := xs\<rparr>)"
  using chunk_ok_shape [of "b\<lparr>sent_queue := xs\<rparr>" "a\<lparr>sent_queue := xs @ ys\<rparr>"] by (simp add: snd_ok_def fixed_def shape_def)

lemma recount_ok:
  assumes "flight_ok (a\<lparr>sent_queue := ds\<rparr>)" "snd_ok (a\<lparr>sent_queue := ds @ cs\<rparr>)" "unat (sent_queue_retran_cnt a) = retran_of ds"
  shows "\<exists>b. recount cs a = Some b \<and> flight_ok (b\<lparr>sent_queue := ds @ cs\<rparr>) \<and> unat (sent_queue_retran_cnt b) = retran_of (ds @ cs) \<and>
    fixed b = fixed a \<and> sent_queue b = sent_queue a"
  using assms
proof (induction cs arbitrary: ds a)
  case (Cons c cs)
  have p: "snd_ok (a\<lparr>sent_queue := (ds @ [c]) @ cs\<rparr>)" using Cons.prems(2) by simp
  have room: "Suc (retran_of ds) < 2 ^ 32" using Cons.prems(2) retran_of_le [of ds] by (simp add: snd_ok_def)
  have "\<exists>b. (if chk_sent c < SCTP_DATAGRAM_RESEND
      then do { (n, d) \<leftarrow> net_at (chk_whoTo c) a;
                Some (sctp_total_flight_increase c (put_net (chk_whoTo c) (sctp_flight_size_increase c n) d a)) }
      else if chk_sent c = SCTP_DATAGRAM_RESEND then Some (a\<lparr>sent_queue_retran_cnt := sctp_ucount_incr (sent_queue_retran_cnt a)\<rparr>)
      else Some a) = Some b \<and> flight_ok (b\<lparr>sent_queue := ds @ [c]\<rparr>) \<and> unat (sent_queue_retran_cnt b) = retran_of (ds @ [c]) \<and>
      fixed b = fixed a \<and> sent_queue b = sent_queue a" (is "\<exists>b. ?step = Some b \<and> _ b")
  proof (cases "in_flight c")
    case True
    from count_chunk [OF Cons.prems(1) snd_ok_prefix [OF p refl] True] True show ?thesis
      using Cons.prems(3) by (auto simp: in_flight_def datagram_states total_flight_increase_keep)
  next
    case False
    have "flight_ok (b\<lparr>sent_queue := ds @ [c]\<rparr>)" if "counters b = counters a" for b
      by (rule flight_ok_queue [OF Cons.prems(1)]) (use False that in \<open>simp_all add: flight_of_Cons flight_of_def\<close>)
    then show ?thesis using False Cons.prems(3) room by (auto simp: in_flight_def sctp_ucount_incr_def unat_add_small)
  qed
  then obtain b where b: "?step = Some b" "flight_ok (b\<lparr>sent_queue := ds @ [c]\<rparr>)" "unat (sent_queue_retran_cnt b) = retran_of (ds @ [c])"
    "fixed b = fixed a" "sent_queue b = sent_queue a" by blast
  have "snd_ok (b\<lparr>sent_queue := (ds @ [c]) @ cs\<rparr>)" using snd_ok_prefix [where ys = "[]" and a = a and b = b] p b(4) by simp
  from Cons.IH [OF b(2) this b(3)] obtain b' where "recount cs b = Some b'" "flight_ok (b'\<lparr>sent_queue := (ds @ [c]) @ cs\<rparr>)"
    "unat (sent_queue_retran_cnt b') = retran_of ((ds @ [c]) @ cs)" "fixed b' = fixed b" "sent_queue b' = sent_queue b" by blast
  then show ?case using b by (simp del: retran_of_simps)
qed simp

text \<open>Whatever the counters were, they are exact afterwards.\<close>

lemma rebuild_ok:
  assumes "snd_ok a"
  shows "\<exists>b. rebuild_flight a = Some b \<and> flight_ok b \<and> retran_ok b \<and> fixed b = fixed a \<and> sent_queue b = sent_queue a"
proof -
  have "empty_upto (fixed a) (sent_queue a) (sent_queue_retran_cnt a) 0 a" by (simp add: empty_upto_def)
  from no_flight.all_ok [OF _ this] assms obtain b where b: "foreach_dest no_flight_dest a = Some b"
    "empty_upto (fixed a) (sent_queue a) (sent_queue_retran_cnt a) (length (dests a)) b" "shape b = shape a" by (auto simp: snd_ok_def)
  let ?b = "b\<lparr>total_flight := 0, total_flight_count := 0, sent_queue_retran_cnt := 0\<rparr>"
  have "flight_ok (?b\<lparr>sent_queue := []\<rparr>)" using b(2,3) assms by (auto simp: flight_ok_def empty_upto_def flight_of_def snd_ok_def shape_def)
  moreover have "snd_ok (?b\<lparr>sent_queue := [] @ sent_queue a\<rparr>)"
    using assms b(2) snd_ok_prefix [where ys = "[]" and a = a and b = ?b and xs = "sent_queue a"] by (simp add: empty_upto_def)
  ultimately obtain b' where "recount (sent_queue a) ?b = Some b'" "flight_ok (b'\<lparr>sent_queue := [] @ sent_queue a\<rparr>)"
    "unat (sent_queue_retran_cnt b') = retran_of ([] @ sent_queue a)" "fixed b' = fixed ?b" "sent_queue b' = sent_queue ?b"
    using recount_ok [of "[]" ?b "sent_queue a"] by auto
  moreover have "b'\<lparr>sent_queue := sent_queue a\<rparr> = b'" using calculation(5) b(2) by (simp add: empty_upto_def)
  ultimately show ?thesis using b(1,2) by (simp add: rebuild_flight_def retran_ok_def empty_upto_def)
qed

section \<open>Window probes\<close>

text \<open>A chunk that was sent as a window probe is in flight as long as it is marked so.\<close>

definition probe_ok :: "data_chunk \<Rightarrow> bool" where
  "probe_ok c \<longleftrightarrow> chk_window_probe c \<noteq> 0 \<and> chk_sent c < SCTP_DATAGRAM_ACKED \<and> has_data c \<longrightarrow> in_flight c"

definition probe_back :: "data_chunk \<Rightarrow> data_chunk" where
  "probe_back c = (if chk_sent c \<ge> SCTP_DATAGRAM_ACKED \<or> \<not> has_data c then c\<lparr>chk_window_probe := 0\<rparr>
     else c\<lparr>chk_window_probe := 0, chk_sent := SCTP_DATAGRAM_RESEND\<rparr>)"

definition probed :: "data_chunk list \<Rightarrow> data_chunk list \<Rightarrow> bool" where
  "probed = list_all2 (\<lambda>c c'. c' = c \<or> chk_window_probe c \<noteq> 0 \<and> c' = probe_back c)"

lemma probed_refl [simp]: "probed q q"
  by (simp add: probed_def list_all2_refl)

lemma probed_trans: "probed p q \<Longrightarrow> probed q r \<Longrightarrow> probed p r"
  unfolding probed_def by (erule (1) list_all2_trans [rotated]) (auto simp: probe_back_def split: if_splits)

lemma probed_update: "k < length q \<Longrightarrow> chk_window_probe (q ! k) \<noteq> 0 \<Longrightarrow> probed q (q[k := probe_back (q ! k)])"
  by (auto simp: probed_def list_all2_conv_all_nth nth_list_update)

lemma probed_tsns: "probed p q \<Longrightarrow> map tsn q = map tsn p"
  unfolding probed_def by (induction rule: list_all2_induct) (auto simp: probe_back_def)

lemma first_probe_some: "first_probe j q = Some k \<Longrightarrow> j \<le> k \<and> k - j < length q \<and> chk_window_probe (q ! (k - j)) \<noteq> 0"
  by (induction j q rule: first_probe.induct) (auto split: if_splits simp: nth_Cons' Suc_diff_Suc)

lemma decrease_probe [simp]:
  "sctp_total_flight_decrease (c\<lparr>chk_window_probe := p\<rparr>) a = sctp_total_flight_decrease c a"
  "sctp_flight_size_decrease (c\<lparr>chk_window_probe := p\<rparr>) n = sctp_flight_size_decrease c n"
  by (simp_all add: sctp_total_flight_decrease_def sctp_flight_size_decrease_def)

text \<open>The books of an association: pointers, data in flight, retransmissions, probes.\<close>

definition books_ok :: "snd_asoc \<Rightarrow> bool" where
  "books_ok a \<longleftrightarrow> snd_ok a \<and> flight_ok a \<and> retran_ok a \<and> list_all probe_ok (sent_queue a)"

lemma retran_of_update:
  assumes "k < length q"
  shows "retran_of (q[k := c]) + (if chk_sent (q ! k) = SCTP_DATAGRAM_RESEND then 1 else 0) = retran_of q + (if chk_sent c = SCTP_DATAGRAM_RESEND then 1 else 0)"
  using assms by (subst (2) id_take_nth_drop [OF assms]) (simp add: upd_conv_take_nth_drop)

lemma recovery_ok:
  assumes ok: "books_ok a" and k: "k < length (sent_queue a)" "chk_window_probe (sent_queue a ! k) \<noteq> 0"
  shows "\<exists>b. sctp_window_probe_recovery k a = Some b \<and> books_ok b \<and> fixed b = fixed a \<and> dests b = dests a \<and>
    sent_queue b = (sent_queue a)[k := probe_back (sent_queue a ! k)] \<and> (\<forall>i. flights a ! i = 0 \<longrightarrow> i < length (flights a) \<longrightarrow> flights b ! i = 0)"
proof -
  let ?c = "sent_queue a ! k"
  have c: "chunk_ok a ?c" "probe_ok ?c" using ok k(1) by (simp_all add: books_ok_def snd_ok_def list_all_length)
  have bk: "probe_ok (probe_back ?c)" "book_size (probe_back ?c) = book_size ?c" "chk_whoTo (probe_back ?c) = chk_whoTo ?c"
    by (auto simp: probe_ok_def probe_back_def)
  have "chunk_ok a (probe_back ?c)" using c(1) by (auto simp: chunk_ok_def probe_back_def datagram_states)
  then have books: "books_ok b" if "shape b = shape a" "flight_ok b" "retran_ok b" "sent_queue b = (sent_queue a)[k := probe_back ?c]" for b
    using snd_ok_update [OF _ that(1,4) k(1)] that bk set_update_subset_insert [of "sent_queue a" k "probe_back ?c"] ok
    by (auto simp: books_ok_def list_all_iff)
  show ?thesis
  proof (cases "chk_sent ?c \<ge> SCTP_DATAGRAM_ACKED \<or> \<not> has_data ?c")
    case True
    let ?b = "put_chunk k (?c\<lparr>chk_window_probe := 0\<rparr>) a"
    have e: "probe_back ?c = ?c\<lparr>chk_window_probe := 0\<rparr>" using True by (simp add: probe_back_def)
    have "flight_ok ?b" by (rule stay_ok [of a k "probe_back ?c"]) (use ok k e in \<open>auto simp: books_ok_def in_flight_def\<close>)
    moreover have "retran_ok ?b"
      using ok retran_of_update [OF k(1), of "probe_back ?c"] e by (auto simp: books_ok_def retran_ok_def put_chunk_def)
    ultimately have "books_ok ?b" using e by (intro books) simp_all
    then show ?thesis using True k e by (auto simp: sctp_window_probe_recovery_def chunk_at_def Let_def) (simp_all add: put_chunk_def)
  next
    case False
    then have e: "probe_back ?c = ?c\<lparr>chk_window_probe := 0, chk_sent := SCTP_DATAGRAM_RESEND\<rparr>" by (simp add: probe_back_def)
    have fl: "in_flight ?c" using False c(2) k(2) by (simp add: probe_ok_def)
    then have v: "valid_net a (chk_whoTo ?c)" using c(1) by (auto simp: chunk_ok_def in_flight_def datagram_states)
    then obtain i where i: "chk_whoTo ?c = Some i" "i < length (flights a)" by (auto simp: valid_net_def split: option.splits)
    obtain n d where nd: "net_at (chk_whoTo ?c) a = Some (n, d)" using v valid_net_at by blast
    define b where "b = put_chunk k (probe_back ?c) (sctp_total_flight_decrease ?c
      (put_net (chk_whoTo ?c) (sctp_flight_size_decrease ?c (cc_tsn_acknowledged (snd_module a) n (chk_send_size ?c))) d a))"
    have nd': "flights a ! i = flight_size n" "i < length (nets (asoc_cc a))" "d = dests a ! i" "i < length (dests a)"
      using nd i(1) by (auto simp: net_at_def split: if_splits)
    have cn: "counters b = leave ?c i (counters a)" using nd' i(1)
      by (simp add: b_def total_flight_decrease_keep leave_def) (simp add: counters_def put_net_def map_update)
    have f: "fixed b = fixed a" "dests b = dests a" "sent_queue b = (sent_queue a)[k := probe_back ?c]" "sent_queue_retran_cnt b = sent_queue_retran_cnt a"
      using nd' i(1) by (simp_all add: b_def total_flight_decrease_keep) (simp_all add: put_net_def put_chunk_def sctp_total_flight_decrease_def fixed_def shape_def)
    have "flight_ok b" by (rule leave_ok [of a k "probe_back ?c" i]) (use ok k fl i cn f in \<open>simp_all add: books_ok_def e in_flight_def datagram_states\<close>)
    moreover have "Suc (retran_of (sent_queue a)) < 2 ^ 32 \<or> \<not> in_flight ?c"
    proof -
      have "retran_of (sent_queue a) < length (sent_queue a)" if "in_flight ?c"
        using that k(1) length_filter_less [of ?c "sent_queue a"] by (simp add: retran_of_def in_flight_def)
      then show ?thesis using ok by (auto simp: books_ok_def snd_ok_def)
    qed
    moreover have "retran_of (sent_queue b) = Suc (retran_of (sent_queue a))"
      using retran_of_update [OF k(1), of "probe_back ?c"] fl f(3) e by (auto simp: in_flight_def)
    ultimately have "books_ok (b\<lparr>sent_queue_retran_cnt := sctp_ucount_incr (sent_queue_retran_cnt b)\<rparr>)"
      using fl f ok fixed_shape [OF f(1)]
      by (intro books) (auto simp: retran_ok_def sctp_ucount_incr_def books_ok_def unat_add_small flight_ok_def shape_def)
    moreover have "sctp_window_probe_recovery k a = Some (b\<lparr>sent_queue_retran_cnt := sctp_ucount_incr (sent_queue_retran_cnt b)\<rparr>)"
      using False k nd by (simp add: sctp_window_probe_recovery_def chunk_at_def Let_def b_def e)
    moreover have "flights b ! j = 0" if "flights a ! j = 0" "j < length (flights a)" for j
      using that cn i by (cases "j = i") (auto simp: counters_def leave_def sub0_def nth_list_update)
    ultimately show ?thesis using f by auto
  qed
qed

lemma recover_probe_ok:
  assumes "books_ok a"
  shows "\<exists>b. recover_probe a = Some b \<and> books_ok b \<and> fixed b = fixed a \<and> dests b = dests a \<and> probed (sent_queue a) (sent_queue b) \<and>
    (\<forall>i. flights a ! i = 0 \<longrightarrow> i < length (flights a) \<longrightarrow> flights b ! i = 0)"
proof (cases "first_probe 0 (sent_queue a)")
  case (Some k)
  then have "k < length (sent_queue a)" "chk_window_probe (sent_queue a ! k) \<noteq> 0" using first_probe_some [of 0] by auto
  from recovery_ok [OF assms this] probed_update [OF this] Some show ?thesis by (auto simp: recover_probe_def)
qed (use assms in \<open>simp add: recover_probe_def\<close>)

section \<open>Timers\<close>

definition timers_upto :: "nat \<Rightarrow> snd_asoc \<Rightarrow> bool" where
  "timers_upto m a \<longleftrightarrow> (\<forall>i<m. i < length (flights a) \<longrightarrow> flights a ! i \<noteq> 0 \<longrightarrow> rxt_pending (dests a ! i))"

text \<open>Every destination with data in flight has its retransmission timer running.\<close>

definition timers_ok :: "snd_asoc \<Rightarrow> bool" where
  "timers_ok a \<longleftrightarrow> (\<forall>i<length (nets (asoc_cc a)). flight_size (nets (asoc_cc a) ! i) \<noteq> 0 \<longrightarrow> rxt_pending (dests a ! i))"

lemma timers_ok_upto: "timers_ok a \<longleftrightarrow> timers_upto (length (nets (asoc_cc a))) a"
  by (simp add: timers_ok_def timers_upto_def)

lemma books_ok_cong:
  assumes "counters b = counters a" "shape b = shape a" "sent_queue b = sent_queue a" "sent_queue_retran_cnt b = sent_queue_retran_cnt a"
  shows "books_ok b = books_ok a"
  using flight_ok_counters [OF assms(1,3)] snd_ok_shape [OF assms(2,3)] assms(3,4) by (simp add: books_ok_def retran_ok_def)

text \<open>What is asked of the treatment of one timer: it only touches the timer of its destination, which runs if there is data in flight.\<close>

locale timer_body =
  fixes f :: "nat \<Rightarrow> snd_asoc \<Rightarrow> (bool \<times> snd_asoc) option"
  assumes timer: "valid_net a (Some k) \<Longrightarrow> \<exists>busy b. f k a = Some (busy, b) \<and> counters b = counters a \<and> fixed b = fixed a \<and> sent_queue b = sent_queue a \<and>
    sent_queue_retran_cnt b = sent_queue_retran_cnt a \<and> (\<forall>i. i \<noteq> k \<longrightarrow> dests b ! i = dests a ! i) \<and> (flights a ! k \<noteq> 0 \<longrightarrow> rxt_pending (dests b ! k))"
begin

lemma timer_step:
  assumes "books_ok a" "timers_upto i a" "i < length (dests a)"
  shows "\<exists>r b busy b'. net_at (Some i) a = Some (n, d) \<longrightarrow>
     (if recovery \<and> dest_window_probe d \<noteq> 0 then do { a \<leftarrow> recover_probe a; Some (True, a) } else Some (recovered, a)) = Some (r, b) \<and>
     f i b = Some (busy, b') \<and> books_ok b' \<and> timers_upto (Suc i) b' \<and> fixed b' = fixed a \<and> probed (sent_queue a) (sent_queue b')"
proof -
  have "\<exists>r b. (if recovery \<and> dest_window_probe d \<noteq> 0 then do { a \<leftarrow> recover_probe a; Some (True, a) } else Some (recovered, a)) = Some (r, b) \<and>
    books_ok b \<and> fixed b = fixed a \<and> dests b = dests a \<and> probed (sent_queue a) (sent_queue b) \<and>
    (\<forall>i. flights a ! i = 0 \<longrightarrow> i < length (flights a) \<longrightarrow> flights b ! i = 0)"
    using recover_probe_ok [OF assms(1)] assms(1) by auto
  then obtain r b where b: "(if recovery \<and> dest_window_probe d \<noteq> 0 then do { a \<leftarrow> recover_probe a; Some (True, a) } else Some (recovered, a)) = Some (r, b)"
    "books_ok b" "fixed b = fixed a" "dests b = dests a" "probed (sent_queue a) (sent_queue b)"
    "\<forall>i. flights a ! i = 0 \<longrightarrow> i < length (flights a) \<longrightarrow> flights b ! i = 0" by blast
  have len: "length (flights b) = length (flights a)" "length (dests a) = length (nets (asoc_cc a))"
    using fixed_shape [OF b(3)] assms(1) by (simp_all add: shape_def books_ok_def snd_ok_def)
  with assms(3) b(4) have "valid_net b (Some i)" by (simp add: valid_net_def)
  from timer [OF this] obtain busy b' where b': "f i b = Some (busy, b')" "counters b' = counters b" "fixed b' = fixed b" "sent_queue b' = sent_queue b"
    "sent_queue_retran_cnt b' = sent_queue_retran_cnt b" "\<forall>j. j \<noteq> i \<longrightarrow> dests b' ! j = dests b ! j" "flights b ! i \<noteq> 0 \<longrightarrow> rxt_pending (dests b' ! i)" by blast
  have "books_ok b'" using b(2) books_ok_cong [OF b'(2) fixed_shape [OF b'(3)] b'(4,5)] by simp
  moreover have "timers_upto (Suc i) b'" using b'(2,6,7) b(4,6) assms(2) len by (auto simp: timers_upto_def counters_def less_Suc_eq)
  ultimately show ?thesis using b b' by auto
qed

lemma timer_loop_ok:
  assumes "books_ok a" "timers_upto i a" "i \<le> m" "m = length (dests a)"
  shows "\<exists>j' r' b. timer_loop f recovery [i..<m] j r a = Some (j', r', b) \<and> books_ok b \<and> timers_upto m b \<and> fixed b = fixed a \<and> probed (sent_queue a) (sent_queue b)"
  using assms
proof (induction "m - i" arbitrary: i j r a)
  case (Suc l)
  then have u: "[i..<m] = i # [Suc i..<m]" "l = m - Suc i" "Suc i \<le> m" "i < length (dests a)" by (simp_all add: upt_conv_Cons)
  have "length (dests a) = length (nets (asoc_cc a))" using Suc.prems(1) by (simp add: books_ok_def snd_ok_def)
  then obtain n d where nd: "net_at (Some i) a = Some (n, d)" using valid_net_at [of a "Some i"] u(4) by (auto simp: valid_net_def)
  from timer_step [OF Suc.prems(1,2) u(4)] nd obtain r1 b1 busy b2 where s:
    "(if recovery \<and> dest_window_probe d \<noteq> 0 then do { a \<leftarrow> recover_probe a; Some (True, a) } else Some (r, a)) = Some (r1, b1)"
    "f i b1 = Some (busy, b2)" "books_ok b2" "timers_upto (Suc i) b2" "fixed b2 = fixed a" "probed (sent_queue a) (sent_queue b2)" by metis
  have "m = length (dests b2)" using Suc.prems(4) fixed_shape [OF s(5)] by (simp add: shape_def)
  from Suc.hyps(1) [OF u(2) s(3,4) u(3) this, of "if busy then Suc j else j" r1] s nd u(1) show ?case by (auto intro: probed_trans)
qed simp

lemma all_timers:
  assumes "books_ok a"
  shows "\<exists>j r b. timer_loop f recovery [0..<length (dests a)] 0 False a = Some (j, r, b) \<and> books_ok b \<and> timers_ok b \<and> fixed b = fixed a \<and> probed (sent_queue a) (sent_queue b)"
proof -
  obtain j r b where b: "timer_loop f recovery [0..<length (dests a)] 0 False a = Some (j, r, b)" "books_ok b" "timers_upto (length (dests a)) b"
    "fixed b = fixed a" "probed (sent_queue a) (sent_queue b)"
    using timer_loop_ok [OF assms _ _ refl, of 0 recovery 0 False] by (auto simp: timers_upto_def)
  moreover have "length (nets (asoc_cc b)) = length (dests a)" using fixed_shape [OF b(4)] assms by (simp add: shape_def books_ok_def snd_ok_def)
  ultimately show ?thesis by (auto simp: timers_ok_upto)
qed

lemma assure_ok:
  assumes "books_ok a"
  shows "\<exists>b. assure_timers f recovery a = Some b \<and> books_ok b \<and> timers_ok b \<and> fixed b = fixed a \<and> probed (sent_queue a) (sent_queue b)"
proof -
  obtain j r b where b: "timer_loop f recovery [0..<length (dests a)] 0 False a = Some (j, r, b)" "books_ok b" "timers_ok b" "fixed b = fixed a"
    "probed (sent_queue a) (sent_queue b)" using all_timers [OF assms] by blast
  have "\<exists>b'. (if sctp_fs_audit b then rebuild_flight b else Some b) = Some b' \<and> books_ok b' \<and> fixed b' = fixed b \<and> sent_queue b' = sent_queue b"
  proof -
    have "snd_ok b'" if "fixed b' = fixed b" "sent_queue b' = sent_queue b" for b'
      using snd_ok_shape [OF fixed_shape [OF that(1)] that(2)] b(2) by (simp add: books_ok_def)
    then show ?thesis using rebuild_ok [of b] b(2) by (auto simp: books_ok_def)
  qed
  then obtain b' where b': "(if sctp_fs_audit b then rebuild_flight b else Some b) = Some b'" "books_ok b'" "fixed b' = fixed b" "sent_queue b' = sent_queue b" by blast
  obtain j2 r2 b2 where "timer_loop f recovery [0..<length (dests b')] 0 False b' = Some (j2, r2, b2)" "books_ok b2" "timers_ok b2" "fixed b2 = fixed b'"
    "probed (sent_queue b') (sent_queue b2)" using all_timers [OF b'(2)] by blast
  then show ?thesis using b b' by (auto simp: assure_timers_def intro: probed_trans)
qed

end

interpretation exp: timer_body exp_timer
proof
  fix a k
  assume v: "valid_net a (Some k)"
  then have k: "k < length (nets (asoc_cc a))" "k < length (dests a)" by (simp_all add: valid_net_def)
  then have nd: "net_at (Some k) a = Some (nets (asoc_cc a) ! k, dests a ! k)" by (simp add: net_at_def)
  have put: "counters (put_net (Some k) (nets (asoc_cc a) ! k) d a) = counters a" for d by (rule put_net_same [OF nd refl])
  have ds: "dests (put_net (Some k) n d a) = (dests a)[k := d]" for n d by (simp add: put_net_def)
  show "\<exists>busy b. exp_timer k a = Some (busy, b) \<and> counters b = counters a \<and> fixed b = fixed a \<and> sent_queue b = sent_queue a \<and>
    sent_queue_retran_cnt b = sent_queue_retran_cnt a \<and> (\<forall>i. i \<noteq> k \<longrightarrow> dests b ! i = dests a ! i) \<and> (flights a ! k \<noteq> 0 \<longrightarrow> rxt_pending (dests b ! k))"
    using k by (auto simp: exp_timer_def nd Let_def put ds) (auto simp: snd_emit_def ds)
qed

end
