(* ===== verification/Snd_Express_Correct.thy ===== *)
theory Snd_Express_Correct
  imports Snd_Timers
begin

text \<open>
  What \<^verbatim>\<open>sctp_express_handle_sack\<close> does: the chunks up to the cumulative TSN leave the sent queue, the books stay exact, and every
  destination that has data in flight afterwards has its retransmission timer running.
\<close>

section \<open>What the steps keep\<close>

definition view :: "snd_asoc \<Rightarrow> _" where
  "view a = (fixed a, counters a, sent_queue a, sent_queue_retran_cnt a)"

lemma books_ok_view: "view b = view a \<Longrightarrow> books_ok b = books_ok a"
  by (rule books_ok_cong) (auto simp: view_def dest: fixed_shape)

lemma view_upd [simp]:
  "view (snd_emit es a) = view a" "view (a\<lparr>trigger_reset := x\<rparr>) = view a" "view (a\<lparr>sent_queue_cnt := y\<rparr>) = view a"
  "view (a\<lparr>snd_alternate := z\<rparr>) = view a" "view (a\<lparr>asoc_cc := (asoc_cc a)\<lparr>peers_rwnd := w\<rparr>\<rparr>) = view a" "view (a\<lparr>snd_state := s\<rparr>) = view a"
  "view (a\<lparr>this_sack_highest_gap := g\<rparr>) = view a" "view (a\<lparr>overall_error_count := e\<rparr>) = view a" "view (a\<lparr>advanced_peer_ack_point := p\<rparr>) = view a"
  by (simp_all add: view_def fixed_def counters_def shape_def snd_emit_def)

lemma view_put_stream [simp]: "view (put_stream i s a) = view a"
  by (simp add: view_def put_stream_def fixed_def counters_def shape_def)

lemma view_free_bufspace [simp]: "view (sctp_free_bufspace c k a) = view a"
  by (simp add: sctp_free_bufspace_def view_def fixed_def counters_def shape_def Let_def split: option.split)

lemma view_put_net: "net_at p a = Some (n, d) \<Longrightarrow> flight_size n' = flight_size n \<Longrightarrow> view (put_net p n' d' a) = view a"
  by (simp add: view_def put_net_same(1))

lemma view_wake_user [simp]: "view (wake_user l w a) = view a"
  by (simp add: wake_user_def Let_def)

lemma view_set_peers_rwnd [simp]: "view (set_peers_rwnd env r a) = view a"
  by (simp add: set_peers_rwnd_def Let_def)

lemma prepare_flight [simp]: "flight_size (cc_prepare_net_for_sack env md n) = flight_size n"
  by (simp add: cc_prepare_net_for_sack_def sctp_cwnd_prepare_rtcc_net_for_sack_def upd_rtcc_def Let_def)

lemma put_net_events [simp]: "snd_events (put_net p n d a) = snd_events a"
  by (simp add: put_net_def split: option.split)

interpretation prepare: dest_loop "prepare_dest env cumack" "\<lambda>k a. view a = V \<and> snd_events a = E"
  by unfold_locales (auto simp: prepare_dest_def Let_def view_put_net)

lemma put_net_emit [simp]: "put_net p n d (snd_emit es a) = snd_emit es (put_net p n d a)"
  "put_net p n d (a\<lparr>snd_alternate := z\<rparr>) = (put_net p n d a)\<lparr>snd_alternate := z\<rparr>"
  by (simp_all add: put_net_def snd_emit_def split: option.split)

lemma shape_emit [simp]: "shape (snd_emit es a) = shape a" "shape (a\<lparr>snd_alternate := z\<rparr>) = shape a"
  by (simp_all add: shape_def snd_emit_def)

interpretation revive: dest_loop revive_dest "\<lambda>k a. view a = V"
  by unfold_locales (auto simp: revive_dest_def Let_def sctp_cwnd_update_exit_pf_common_def view_put_net split: option.split)

section \<open>A chunk below the cumulative TSN\<close>

lemma calculate_rto_fixed:
  "sctp_calculate_rto now told safe sck n d a = (r, n', d', a') \<Longrightarrow> fixed a' = fixed a \<and> sent_queue_retran_cnt a' = sent_queue_retran_cnt a"
  by (auto simp: sctp_calculate_rto_def Let_def sat_detect_def fixed_def shape_def split: if_splits prod.splits)

lemma seg_rto_view:
  assumes "seg_rto now c v n d a = (v', n', d', a')"
  shows "flight_size n' = flight_size n \<and> view a' = view a \<and> nets (asoc_cc a') = nets (asoc_cc a) \<and> dests a' = dests a"
proof -
  have "fixed a' = fixed a \<and> sent_queue_retran_cnt a' = sent_queue_retran_cnt a"
    using assms by (auto simp: seg_rto_def split: if_splits prod.splits dest: calculate_rto_fixed)
  with seg_rto_keep [OF assms] show ?thesis by (simp add: view_def)
qed

definition acked_counters :: "data_chunk \<Rightarrow> snd_asoc \<Rightarrow> u32 list \<times> u32 \<times> u32" where
  "acked_counters c a = (if in_flight c then leave c (the (chk_whoTo c)) (counters a) else counters a)"

lemma total_decrease_keep:
  "fixed (sctp_total_flight_decrease c a) = fixed a" "sent_queue_retran_cnt (sctp_total_flight_decrease c a) = sent_queue_retran_cnt a"
  "asoc_cc (sctp_total_flight_decrease c a) = asoc_cc a" "dests (sctp_total_flight_decrease c a) = dests a"
  by (simp_all add: sctp_total_flight_decrease_def fixed_def shape_def)

lemma put_acked:
  assumes nd: "net_at (chk_whoTo c) a = Some (n, d)"
    and "flight_size n' = (if in_flight c then sub0 (flight_size n) (ucast (book_size c)) else flight_size n)"
      "view b = view (if in_flight c then sctp_total_flight_decrease c a else a)" "nets (asoc_cc b) = nets (asoc_cc a)" "dests b = dests a"
  shows "view (put_net (chk_whoTo c) n' d' b) = (fixed a, acked_counters c a, sent_queue a, sent_queue_retran_cnt a)"
proof -
  let ?a1 = "if in_flight c then sctp_total_flight_decrease c a else a"
  obtain i where i: "chk_whoTo c = Some i" "i < length (nets (asoc_cc a))" "i < length (dests a)" "n = nets (asoc_cc a) ! i"
    using nd by (auto simp: net_at_def split: option.splits if_splits)
  have "net_at (chk_whoTo c) b = Some (n, d)" using nd assms(4,5) i(1) by (simp add: net_at_def split: if_splits)
  then have "counters (put_net (chk_whoTo c) n' d' b) = ((flights b)[i := flight_size n'], total_flight b, total_flight_count b)"
    using put_net_flight(1) i(1) by fastforce
  moreover have "(flights a)[i := flight_size n] = flights a" using i(2,4) by (simp add: list_update_same_conv)
  moreover have "flights a ! i = flight_size n" using i(2,4) by simp
  moreover have "fixed b = fixed a" "sent_queue b = sent_queue a" "sent_queue_retran_cnt b = sent_queue_retran_cnt a"
    "(flights b, total_flight b, total_flight_count b) = counters ?a1"
    using assms(3) by (auto simp: view_def total_flight_decrease_keep total_decrease_keep counters_def)
  ultimately show ?thesis using assms(2) i(1) total_flight_decrease_keep(1) [of c a]
    by (simp add: view_def acked_counters_def leave_def counters_def [of a] split: if_splits)
qed

lemma cum_acked_net_ok:
  assumes "valid_net a (chk_whoTo c)"
  shows "\<exists>v' b. cum_acked_net now c v a = Some (v', b) \<and> view b = (fixed a, acked_counters c a, sent_queue a, sent_queue_retran_cnt a)"
proof -
  obtain n d where nd: "net_at (chk_whoTo c) a = Some (n, d)" using assms valid_net_at by blast
  show ?thesis
    by (auto simp: cum_acked_net_def nd Let_def in_flight_def [symmetric] total_decrease_keep split: prod.split dest!: seg_rto_view intro!: put_acked [OF nd])
qed

lemma undo_revoke_view:
  assumes "chunk_was_revoked c = 0 \<or> valid_net a (chk_whoTo c)"
  shows "\<exists>c' b. undo_revoke c a = Some (c', b) \<and> view b = view a"
proof (cases "chunk_was_revoked c = 0")
  case False
  with assms obtain n d where nd: "net_at (chk_whoTo c) a = Some (n, d)" using valid_net_at by blast
  with False show ?thesis by (simp add: undo_revoke_def view_put_net [OF nd])
qed (simp add: undo_revoke_def)

lemma stream_done_view: "unat (sid c) < length (strmout a) \<Longrightarrow> \<exists>b. stream_done c a = Some b \<and> view b = view a"
  by (simp add: stream_done_def stream_at_def Let_def)

lemma view_eqs:
  assumes "view b = (F, C, q, r)"
  shows "fixed b = F" "counters b = C" "sent_queue b = q" "sent_queue_retran_cnt b = r"
  using assms by (simp_all add: view_def)

lemma chunk_ok_fixed: "fixed b = fixed a \<Longrightarrow> chunk_ok b = chunk_ok a"
  by (rule chunk_ok_shape [OF fixed_shape])

lemma exp_acked_ok:
  assumes "chunk_ok a c"
  shows "\<exists>v' b. exp_acked now c v a = Some (v', b) \<and> view b = (fixed a, acked_counters c a, sent_queue a,
    if chk_sent c = SCTP_DATAGRAM_RESEND then sctp_ucount_decr (sent_queue_retran_cnt a) else sent_queue_retran_cnt a)"
proof -
  have "\<exists>v1 a1. (if chk_sent c < SCTP_DATAGRAM_ACKED then cum_acked_net now c v a else Some (v, a)) = Some (v1, a1) \<and>
      view a1 = (fixed a, acked_counters c a, sent_queue a, sent_queue_retran_cnt a)"
  proof (cases "chk_sent c < SCTP_DATAGRAM_ACKED")
    case True
    with assms have "valid_net a (chk_whoTo c)" by (auto simp: chunk_ok_def datagram_states)
    from cum_acked_net_ok [OF this, of now v] True show ?thesis by simp
  qed (simp add: view_def acked_counters_def in_flight_def datagram_states)
  then obtain v1 a1 where 1: "(if chk_sent c < SCTP_DATAGRAM_ACKED then cum_acked_net now c v a else Some (v, a)) = Some (v1, a1)"
    "view a1 = (fixed a, acked_counters c a, sent_queue a, sent_queue_retran_cnt a)" by blast
  define a2 where "a2 = (if chk_sent c = SCTP_DATAGRAM_RESEND then a1\<lparr>sent_queue_retran_cnt := sctp_ucount_decr (sent_queue_retran_cnt a1)\<rparr> else a1)"
  let ?V = "(fixed a, acked_counters c a, sent_queue a,
    if chk_sent c = SCTP_DATAGRAM_RESEND then sctp_ucount_decr (sent_queue_retran_cnt a) else sent_queue_retran_cnt a)"
  have 2: "view a2 = ?V" using 1(2) by (simp add: a2_def view_def)
  then have ok: "chunk_ok a2 c" using assms chunk_ok_fixed [OF view_eqs(1) [OF 2]] by simp
  then obtain c' a3 where 3: "undo_revoke c a2 = Some (c', a3)" "view a3 = ?V" using undo_revoke_view [of c a2] 2 by (auto simp: chunk_ok_def)
  have "unat (sid c) < length (strmout a3)" using assms chunk_ok_fixed [OF view_eqs(1) [OF 3(2)]] by (metis chunk_ok_def)
  with stream_done_view 3(2) obtain a4 where 4: "stream_done c a3 = Some a4" "view a4 = ?V" by metis
  show ?thesis using 1(1) 3(1) 4 by (simp add: exp_acked_def Let_def a2_def [symmetric])
qed

lemma drop_head:
  assumes ok: "books_ok (a\<lparr>sent_queue := c # cs\<rparr>)"
    and b: "view b = (fixed a, acked_counters c a, q, if chk_sent c = SCTP_DATAGRAM_RESEND then sctp_ucount_decr (sent_queue_retran_cnt a) else sent_queue_retran_cnt a)"
  shows "books_ok (b\<lparr>sent_queue := cs\<rparr>)"
proof -
  let ?a = "a\<lparr>sent_queue := c # cs\<rparr>" and ?x = "c\<lparr>chk_sent := SCTP_DATAGRAM_ACKED\<rparr>"
  note b = view_eqs [OF b]
  have ko: "snd_ok ?a" "flight_ok ?a" "chunk_ok a c" using ok by (simp_all add: books_ok_def snd_ok_def)
  have ch: "chunk_ok b = chunk_ok a" by (rule chunk_ok_fixed [OF b(1)])
  have "snd_ok (b\<lparr>sent_queue := cs\<rparr>)" using ko(1) ch fixed_shape [OF b(1)] by (simp add: snd_ok_def shape_def)
  moreover have "flight_ok (b\<lparr>sent_queue := cs\<rparr>)"
  proof (cases "in_flight c")
    case True
    then have "valid_net a (chk_whoTo c)" using ko(3) by (auto simp: chunk_ok_def in_flight_def datagram_states)
    then obtain i where i: "chk_whoTo c = Some i" "i < length (nets (asoc_cc a))" by (auto simp: valid_net_def split: option.splits)
    have "flight_ok (b\<lparr>sent_queue := ?x # cs\<rparr>)"
      by (rule leave_ok [of ?a 0 ?x i]) (use ko(2) True i b(2) in \<open>simp_all add: in_flight_def datagram_states acked_counters_def counters_def\<close>)
    then show ?thesis by (rule flight_ok_queue) (simp_all add: flight_of_Cons in_flight_def datagram_states)
  next
    case False
    show ?thesis by (rule flight_ok_queue [OF ko(2)]) (use False b(2) in \<open>simp_all add: flight_of_Cons acked_counters_def\<close>)
  qed
  moreover have "retran_ok (b\<lparr>sent_queue := cs\<rparr>)"
  proof (cases "chk_sent c = SCTP_DATAGRAM_RESEND")
    case True
    then have r: "unat (sent_queue_retran_cnt a) = Suc (retran_of cs)" using ok by (simp add: books_ok_def retran_ok_def)
    then have "1 \<le> sent_queue_retran_cnt a" by (simp add: u32_le)
    then have "sctp_ucount_decr (sent_queue_retran_cnt a) = sent_queue_retran_cnt a - 1" by (auto simp: sctp_ucount_decr_def u32_le u32_less)
    then show ?thesis using True b(4) r \<open>1 \<le> _\<close> by (simp add: retran_ok_def unat_sub_le)
  qed (use ok b(4) in \<open>simp add: books_ok_def retran_ok_def\<close>)
  ultimately show ?thesis using ok by (simp add: books_ok_def)
qed

lemma exp_loop_ok:
  assumes "books_ok (a\<lparr>sent_queue := cs\<rparr>)"
  shows "\<exists>v' b. exp_loop now cumack cs v a = Some (v', b) \<and> books_ok b \<and> fixed b = fixed a \<and>
    sent_queue b = dropWhile (\<lambda>c. SCTP_TSN_GE cumack (tsn c)) cs"
  using assms
proof (induction cs arbitrary: v a)
  case (Cons c cs)
  show ?case
  proof (cases "SCTP_TSN_GE cumack (tsn c)")
    case True
    have "chunk_ok a c" using Cons.prems by (simp add: books_ok_def snd_ok_def)
    from exp_acked_ok [OF this, of now v] obtain v1 b where b: "exp_acked now c v a = Some (v1, b)"
      "view b = (fixed a, acked_counters c a, sent_queue a, if chk_sent c = SCTP_DATAGRAM_RESEND then sctp_ucount_decr (sent_queue_retran_cnt a) else sent_queue_retran_cnt a)"
      by blast
    from Cons.IH [OF drop_head [OF Cons.prems b(2)], of v1] b True view_eqs(1) [OF b(2)] show ?thesis by auto
  qed (use Cons.prems in simp)
qed simp

section \<open>Congestion control\<close>

lemma for_nets_keep:
  assumes "\<And>n. n \<in> set ns \<Longrightarrow> \<exists>g n'. f a n = Some (g, a, n') \<and> h n' = h n"
  shows "\<exists>ns'. for_nets f ns a = Some (a, ns') \<and> map h ns' = map h ns"
  using assms
proof (induction ns)
  case (Cons n ns)
  from Cons.prems [of n] obtain g n' where "f a n = Some (g, a, n')" "h n' = h n" by auto
  moreover from Cons obtain ns' where "for_nets f ns a = Some (a, ns')" "map h ns' = map h ns" by auto
  ultimately show ?case by (cases g) auto
qed simp

lemma grow_total:
  assumes "sctp_cmt_on_off a = 0"
  shows "\<exists>n'. grow sys a t n = Some n' \<and> flight_size n' = flight_size n"
proof -
  have "\<exists>n'. grow sys a t n = Some n'"
    using assms by (simp add: grow_def Let_def ss_incr_def ca_incr_def SCTP_CMT_RPV1_def SCTP_CMT_RPV2_def SCTP_CMT_MPTCP_def)
  then obtain n' where n': "grow sys a t n = Some n'" by blast
  from grow_frame [OF assms this] have "flight_size n' = flight_size n" by (metis sctp_nets.select_convs(9) sctp_nets.surjective sctp_nets.update_convs(10,13))
  with n' show ?thesis by blast
qed

lemma after_sack_total:
  assumes "sctp_cmt_on_off a = 0"
  shows "\<exists>ns. cc_after_sack env SCTP_CC_RFC2581 a accum will_exit = Some (a\<lparr>nets := ns\<rparr>) \<and> map flight_size ns = map flight_size (nets a)"
proof -
  from no_pooling(2) [OF assms] obtain t where t: "pooled a = Some t" by auto
  have "\<exists>g n'. sack_body sys t accum will_exit False a n = Some (g, a, n') \<and> flight_size n' = flight_size n" for sys n
    using grow_total [OF assms, of sys t n] by (auto simp: sack_body_def)
  from for_nets_keep [of "nets a" "sack_body (cc_sys env) t accum will_exit False" a flight_size, OF this] t show ?thesis
    by (auto simp: cc_after_sack_def sctp_cwnd_update_after_sack_def sctp_cwnd_update_after_sack_common_def foreach_net_def)
qed

section \<open>The end of the handler\<close>

lemma view_shutdown [simp]: "view (snd (shutdown_issues env a)) = view a"
  by (simp add: shutdown_issues_def Let_def SCTP_CLEAR_SUBSTATE_def SCTP_SET_STATE_def)

lemma shutdown_dests [simp]: "asoc_cc (snd (shutdown_issues env a)) = asoc_cc a" "dests (snd (shutdown_issues env a)) = dests a"
  by (simp_all add: shutdown_issues_def Let_def SCTP_CLEAR_SUBSTATE_def SCTP_SET_STATE_def)

text \<open>No message that may be abandoned is in the queues.\<close>

definition reliable :: "snd_asoc \<Rightarrow> bool" where
  "reliable a \<longleftrightarrow> prsctp_supported a = 0 \<or> pr_sctp_cnt a = 0"

lemma reliable_fixed: "fixed b = fixed a \<Longrightarrow> reliable b = reliable a"
  by (simp add: reliable_def fixed_def)

lemma pr_issues_ok:
  assumes "books_ok a" "timers_ok a" "reliable a"
  shows "\<exists>b. pr_issues env cumack a = Some b \<and> books_ok b \<and> timers_ok b \<and> fixed b = fixed a \<and> sent_queue b = sent_queue a"
proof -
  let ?b = "if SCTP_TSN_GT cumack (advanced_peer_ack_point a) then a\<lparr>advanced_peer_ack_point := cumack\<rparr> else a"
  have b: "view ?b = view a" "asoc_cc ?b = asoc_cc a" "dests ?b = dests a" "pr_issues env cumack a = Some ?b"
    using assms(3) by (auto simp: pr_issues_def reliable_def)
  have "books_ok ?b" "timers_ok ?b" "fixed ?b = fixed a" "sent_queue ?b = sent_queue a"
    using books_ok_view [OF b(1)] assms b by (simp_all add: timers_ok_def view_def)
  then show ?thesis using b(4) by blast
qed

lemma exp_finish_ok:
  assumes "books_ok a" "reliable a"
  shows "\<exists>ab b. exp_finish env recovery cumack a = Some (ab, b) \<and> books_ok b \<and> timers_ok b \<and> fixed b = fixed a \<and> probed (sent_queue a) (sent_queue b)"
proof -
  from exp.assure_ok [OF assms(1)] obtain b where b: "assure_timers exp_timer recovery a = Some b" "books_ok b" "timers_ok b" "fixed b = fixed a"
    "probed (sent_queue a) (sent_queue b)" by blast
  obtain r c where c: "(if snd_queue b = [] \<and> sent_queue b = [] then shutdown_issues env b else (Shutdown_none, b)) = (r, c)" by fastforce
  then have v: "view c = view b" "asoc_cc c = asoc_cc b" "dests c = dests b"
    using view_shutdown [of env b] shutdown_dests [of env b] by (auto split: if_splits simp del: view_shutdown shutdown_dests)
  then have cv: "fixed c = fixed b" "sent_queue c = sent_queue b" "books_ok c" "timers_ok c" "reliable c"
    using b assms(2) books_ok_view [OF v(1)] by (auto simp: view_def timers_ok_def reliable_def fixed_def)
  from pr_issues_ok [OF cv(3-5), of env cumack] obtain e where "pr_issues env cumack c = Some e" "books_ok e" "timers_ok e" "fixed e = fixed c"
    "sent_queue e = sent_queue c" by blast
  then show ?thesis using b c cv by (cases "r = Shutdown_abort") (auto simp: exp_finish_def)
qed

lemma stop_idle_ok:
  assumes "books_ok a"
  shows "\<exists>b. stop_idle a = Some b \<and> books_ok b \<and> fixed b = fixed a \<and> sent_queue b = sent_queue a"
proof (cases "sent_queue a = []")
  case True
  have "empty_upto (fixed a) (sent_queue a) (sent_queue_retran_cnt a) 0 a" by (simp add: empty_upto_def)
  from idle.all_ok [OF _ this] assms obtain b where b: "foreach_dest idle_dest a = Some b"
    "empty_upto (fixed a) (sent_queue a) (sent_queue_retran_cnt a) (length (dests a)) b" "shape b = shape a" by (auto simp: books_ok_def snd_ok_def)
  then have "flight_ok (b\<lparr>total_flight := 0, total_flight_count := 0\<rparr>)"
    using True assms by (auto simp: flight_ok_def flight_of_def empty_upto_def shape_def books_ok_def snd_ok_def)
  then show ?thesis using True b assms by (auto simp: stop_idle_def books_ok_def snd_ok_def retran_ok_def empty_upto_def shape_def)
qed (use assms in \<open>simp add: stop_idle_def\<close>)

lemma sent_end_view: "view b = view a \<Longrightarrow> sent_end b = sent_end a"
  by (simp add: sent_end_def view_def fixed_def)

lemma grow_step:
  assumes "view a = V" "snd_module a = SCTP_CC_RFC2581" "sctp_cmt_on_off (asoc_cc a) = 0" "books_ok a"
  shows "\<exists>b. do { a \<leftarrow> foreach_dest revive_dest a; cc \<leftarrow> cc_after_sack (env_cc env) (snd_module a) (asoc_cc a) accum will_exit; Some (a\<lparr>asoc_cc := cc\<rparr>) } = Some b \<and> view b = V"
proof -
  have "length (dests a) = length (nets (asoc_cc a))" using assms(4) by (simp add: books_ok_def snd_ok_def)
  from revive.all_ok [OF this assms(1)] obtain b where b: "foreach_dest revive_dest a = Some b" "view b = V" by blast
  then have m: "snd_module b = SCTP_CC_RFC2581" "sctp_cmt_on_off (asoc_cc b) = 0" using assms(1-3) by (auto simp: view_def fixed_def)
  from after_sack_total [OF m(2)] obtain ns where ns: "cc_after_sack (env_cc env) SCTP_CC_RFC2581 (asoc_cc b) accum will_exit = Some ((asoc_cc b)\<lparr>nets := ns\<rparr>)"
    "map flight_size ns = flights b" by blast
  have "length ns = length (nets (asoc_cc b))" using arg_cong [OF ns(2), of length] by simp
  then have "view (b\<lparr>asoc_cc := (asoc_cc b)\<lparr>nets := ns\<rparr>\<rparr>) = view b" using ns(2) by (simp add: view_def fixed_def shape_def counters_def)
  then show ?thesis using b m ns(1) by simp
qed

lemma queue_same: "sent_queue a = q \<Longrightarrow> a\<lparr>sent_queue := q\<rparr> = a"
  by (cases a) simp

lemma GT_asym: "SCTP_TSN_GT x y \<Longrightarrow> \<not> SCTP_TSN_GT y x" "\<not> SCTP_TSN_GT x x"
  by (auto simp: SCTP_UINT32_GT_def)

lemma exp_handle_ok:
  assumes ok: "books_ok a" "reliable a" and cc: "snd_module a = SCTP_CC_RFC2581" "sctp_cmt_on_off (asoc_cc a) = 0"
    and t: "SCTP_TSN_GT cumack (last_acked_seq a)" "\<not> SCTP_TSN_GE cumack (sent_end a)"
  shows "\<exists>ab b. sctp_express_handle_sack env cumack rwnd ecne a = Some (ab, b) \<and> books_ok b \<and> timers_ok b \<and> last_acked_seq b = cumack \<and>
    shape b = shape a \<and> fixed b = fixed (a\<lparr>last_acked_seq := cumack\<rparr>) \<and> probed (dropWhile (\<lambda>c. SCTP_TSN_GE cumack (tsn c)) (sent_queue a)) (sent_queue b)"
proof -
  let ?q = "dropWhile (\<lambda>c. SCTP_TSN_GE cumack (tsn c)) (sent_queue a)" and ?v = "\<lparr>biggest_newly_acked_tsn = 0, this_sack_lowest_newack = 0, rto_ok = True, wake_him = 0\<rparr>"
  have len: "length (dests a) = length (nets (asoc_cc a))" using ok(1) by (simp add: books_ok_def snd_ok_def)
  from prepare.all_ok [OF len conjI [OF refl refl], of env cumack] obtain a1 where a1: "foreach_dest (prepare_dest env cumack) a = Some a1" "view a1 = view a" by blast
  let ?a2 = "a1\<lparr>this_sack_highest_gap := cumack, overall_error_count := 0\<rparr>"
  have a2: "view ?a2 = view a" "sent_queue a1 = sent_queue a" "last_acked_seq a1 = last_acked_seq a" using a1(2) by simp_all (simp_all add: view_def fixed_def)
  have "books_ok (?a2\<lparr>sent_queue := sent_queue a\<rparr>)" using books_ok_view [OF a2(1)] ok(1) a2(2) by (simp add: queue_same)
  from exp_loop_ok [OF this, of "cc_now (env_cc env)" cumack ?v] obtain v3 a3 where a3: "exp_loop (cc_now (env_cc env)) cumack (sent_queue a) ?v ?a2 = Some (v3, a3)"
    "books_ok a3" "fixed a3 = fixed ?a2" "sent_queue a3 = ?q" by blast
  let ?a4 = "wake_user (Some (sctp_max_chunks_on_queue env)) True a3"
  have a4: "view ?a4 = view a3" "books_ok ?a4" using a3(2) books_ok_view [of ?a4 a3] by simp_all
  have f4: "fixed ?a4 = fixed a" "sent_queue ?a4 = ?q" using a4(1) a3(3,4) a2(1) by (simp_all add: view_def)
  then have m4: "snd_module ?a4 = SCTP_CC_RFC2581" "sctp_cmt_on_off (asoc_cc ?a4) = 0" "last_acked_seq ?a4 = last_acked_seq a" using cc by (simp_all add: fixed_def)
  have "\<exists>b. (if last_acked_seq ?a4 \<noteq> cumack \<and> \<not> ecne
      then do { a \<leftarrow> foreach_dest revive_dest ?a4; cc \<leftarrow> cc_after_sack (env_cc env) (snd_module a) (asoc_cc a) True False; Some (a\<lparr>asoc_cc := cc\<rparr>) }
      else Some ?a4) = Some b \<and> view b = view ?a4"
    using grow_step [OF refl m4(1,2) a4(2), where env = env and accum = True and will_exit = False] by (simp del: view_wake_user)
  then obtain a5 where a5: "(if last_acked_seq ?a4 \<noteq> cumack \<and> \<not> ecne
      then do { a \<leftarrow> foreach_dest revive_dest ?a4; cc \<leftarrow> cc_after_sack (env_cc env) (snd_module a) (asoc_cc a) True False; Some (a\<lparr>asoc_cc := cc\<rparr>) }
      else Some ?a4) = Some a5" "view a5 = view ?a4" by blast
  have b5: "books_ok (a5\<lparr>last_acked_seq := cumack\<rparr>)" "shape a5 = shape a" "sent_queue a5 = ?q" "reliable a5"
    using books_ok_cong [of "a5\<lparr>last_acked_seq := cumack\<rparr>" a5] books_ok_view [OF a5(2)] a4(2) a5(2) f4 fixed_shape [of a5 a] reliable_fixed [of a5 a] ok(2)
    by (auto simp: view_def) (simp_all add: counters_def shape_def)
  from stop_idle_ok [OF b5(1)] obtain a6 where a6: "stop_idle (a5\<lparr>last_acked_seq := cumack\<rparr>) = Some a6" "books_ok a6"
    "fixed a6 = fixed (a5\<lparr>last_acked_seq := cumack\<rparr>)" "sent_queue a6 = ?q" using b5(3) by auto
  let ?a7 = "set_peers_rwnd env rwnd a6"
  have a7: "books_ok ?a7" "fixed ?a7 = fixed a6" "sent_queue ?a7 = ?q" "reliable ?a7"
    using books_ok_view [of ?a7 a6] view_set_peers_rwnd [of env rwnd a6] a6 reliable_fixed [of ?a7 "a5\<lparr>last_acked_seq := cumack\<rparr>"] b5(4)
    by (auto simp: view_def simp del: view_set_peers_rwnd) (simp add: reliable_def)
  from exp_finish_ok [OF a7(1,4)] obtain ab b where b: "exp_finish env (peers_rwnd (asoc_cc ?a7) > peers_rwnd (asoc_cc a)) cumack ?a7 = Some (ab, b)"
    "books_ok b" "timers_ok b" "fixed b = fixed ?a7" "probed ?q (sent_queue b)" using a7(3) by metis
  have "fixed a5 = fixed a" using a5(2) f4(1) by (simp add: view_def)
  then have "fixed b = fixed (a\<lparr>last_acked_seq := cumack\<rparr>)" using b(4) a7(2) a6(3) by (simp add: fixed_def shape_def)
  moreover have "last_acked_seq b = cumack" "shape b = shape a" using b(4) a7(2) a6(3) b5(2) by (simp_all add: fixed_def shape_def)
  moreover have "sctp_express_handle_sack env cumack rwnd ecne a = Some (ab, b)"
    using GT_asym(1) [OF t(1)] t GT_asym(2) [of cumack] a1(1) a2 a3(1) a5(1) a6(1) b(1) sent_end_view [OF a1(2)]
    by (auto simp: sctp_express_handle_sack_def Let_def)
  ultimately show ?thesis using b by blast
qed

section \<open>Properties\<close>

lemma GE_ahead:
  assumes "ahead b x < 2 ^ 31" "ahead b y < 2 ^ 31"
  shows "SCTP_TSN_GE x y \<longleftrightarrow> \<not> SCTP_TSN_GT y x"
  using GT_ahead [OF assms] GT_ahead [OF assms(2,1)] ahead_inj [of b x y] by (auto simp: SCTP_UINT32_GE_def SCTP_UINT32_GT_def)

text \<open>On a sorted queue, going on while chunks are acknowledged takes all of them.\<close>

lemma dropWhile_sorted:
  assumes "tsn_sorted b q" "ahead b cumack < 2 ^ 31"
  shows "dropWhile (\<lambda>c. SCTP_TSN_GE cumack (tsn c)) q = filter (\<lambda>c. SCTP_TSN_GT (tsn c) cumack) q"
  using assms(1)
proof (induction q)
  case (Cons c cs)
  have c: "ahead b (tsn c) < 2 ^ 31" "\<forall>x\<in>set cs. ahead b (tsn c) < ahead b (tsn x) \<and> ahead b (tsn x) < 2 ^ 31" "tsn_sorted b cs"
    using Cons.prems by (auto simp: tsn_sorted_Cons) (auto simp: tsn_sorted_def list_all_iff)
  show ?case
  proof (cases "SCTP_TSN_GT (tsn c) cumack")
    case True
    have "SCTP_TSN_GT (tsn x) cumack" if "x \<in> set cs" for x
      using c(1,2) that True assms(2) GT_ahead [of b _ cumack] by (meson order.strict_trans)
    then show ?thesis using True GE_ahead [OF assms(2) c(1)] by (simp add: filter_id_conv)
  next
    case False
    then show ?thesis using Cons.IH [OF c(3)] GE_ahead [OF assms(2) c(1)] by simp
  qed
qed simp

text \<open>
  C11: A SACK without gap blocks that moves the cumulative TSN takes exactly the chunks up to this TSN off the sent queue, and afterwards
  the data in flight, in total and at each destination, and the number of chunks that wait for a retransmission are counted exactly. No NULL or dangling
  pointer is followed on the way. The standard congestion control without concurrent multipath transfer is in use, no message of
  limited reliability is queued, and the sent queue is sorted within half of the number space.
\<close>

theorem express_sack_takes_acknowledged:
  assumes "books_ok a" "reliable a" "snd_module a = SCTP_CC_RFC2581" "sctp_cmt_on_off (asoc_cc a) = 0"
    "tsn_sorted b (sent_queue a)" "ahead b cumack < 2 ^ 31" "SCTP_TSN_GT cumack (last_acked_seq a)" "\<not> SCTP_TSN_GE cumack (sent_end a)"
  shows "\<exists>ab a'. sctp_express_handle_sack env cumack rwnd ecne a = Some (ab, a') \<and>
    map tsn (sent_queue a') = filter (\<lambda>t. SCTP_TSN_GT t cumack) (map tsn (sent_queue a)) \<and> last_acked_seq a' = cumack \<and>
    flight_ok a' \<and> retran_ok a' \<and> snd_ok a'"
proof -
  from exp_handle_ok [OF assms(1-4,7,8)] obtain ab a' where a': "sctp_express_handle_sack env cumack rwnd ecne a = Some (ab, a')"
    "books_ok a'" "last_acked_seq a' = cumack" "probed (dropWhile (\<lambda>c. SCTP_TSN_GE cumack (tsn c)) (sent_queue a)) (sent_queue a')" by blast
  then have "map tsn (sent_queue a') = filter (\<lambda>t. SCTP_TSN_GT t cumack) (map tsn (sent_queue a))"
    using probed_tsns dropWhile_sorted [OF assms(5,6)] by (fastforce simp: filter_map o_def)
  with a' show ?thesis by (auto simp: books_ok_def)
qed

definition demo_snd_env :: snd_env where
  "demo_snd_env = \<lparr>env_cc = \<lparr>cc_sys = demo_sysctl, cc_ticks = 0, cc_now = (0, 0)\<rparr>, sctp_peer_chunk_oh = 256, sctp_max_chunks_on_queue = 512, cmt_use_dac = 0,
     chunk_alloc = True, user_msgs_incomplete = False, diag_info_code = 0, initial_tsns = (\<lambda>_. 0)\<rparr>"

lemma demo_snd_books: "books_ok (demo_snd t)" "reliable (demo_snd t)" "snd_module (demo_snd t) = SCTP_CC_RFC2581" "sctp_cmt_on_off (asoc_cc (demo_snd t)) = 0"
proof -
  show "books_ok (demo_snd t)" using demo_snd_ok [of t] by (simp add: books_ok_def demo_snd_def demo_chunk_def retran_ok_def probe_ok_def datagram_states)
qed (simp_all add: demo_snd_def reliable_def demo_cc_asoc_def)

lemma demo_snd_tsns: "map tsn (sent_queue (demo_snd t)) = [t, t + 1, t + 2]" "last_acked_seq (demo_snd t) = t - 1" "sent_end (demo_snd t) = t + 3"
  by (simp_all add: demo_snd_def demo_chunk_def sent_end_def)

text \<open>Two of three chunks are acknowledged, across the end of the number space.\<close>

theorem express_sack_takes_acknowledged_witness:
  "\<exists>ab a'. sctp_express_handle_sack demo_snd_env 0 100000 False (demo_snd 0xFFFFFFFF) = Some (ab, a') \<and> map tsn (sent_queue a') = [1]"
proof -
  have "ahead 0xFFFFFFFF 0 < 2 ^ 31" "SCTP_TSN_GT 0 (last_acked_seq (demo_snd 0xFFFFFFFF))" "\<not> SCTP_TSN_GE 0 (sent_end (demo_snd 0xFFFFFFFF))"
    by (simp_all add: ahead_def demo_snd_tsns SCTP_UINT32_GT_def SCTP_UINT32_GE_def)
  from express_sack_takes_acknowledged [OF demo_snd_books demo_snd_sorted this, of demo_snd_env 100000 False] show ?thesis
    by (auto simp: demo_snd_tsns SCTP_UINT32_GT_def)
qed

text \<open>
  C12: After a SACK without gap blocks that moves the cumulative TSN, every chunk in flight is guarded: the retransmission timer of its
  destination is running, also when a window probe was taken back or the counters had to be rebuilt. The sender has only reliable messages and uses the standard congestion control
  without concurrent multipath transfer.
\<close>

theorem express_sack_arms_timers:
  assumes "books_ok a" "reliable a" "snd_module a = SCTP_CC_RFC2581" "sctp_cmt_on_off (asoc_cc a) = 0"
    "SCTP_TSN_GT cumack (last_acked_seq a)" "\<not> SCTP_TSN_GE cumack (sent_end a)"
  shows "\<exists>ab a'. sctp_express_handle_sack env cumack rwnd ecne a = Some (ab, a') \<and>
    (\<forall>c\<in>set (sent_queue a'). chk_sent c < SCTP_DATAGRAM_RESEND \<and> book_size c \<noteq> 0 \<longrightarrow> (\<exists>n d. net_at (chk_whoTo c) a' = Some (n, d) \<and> rxt_pending d))"
proof -
  from exp_handle_ok [OF assms] obtain ab a' where a': "sctp_express_handle_sack env cumack rwnd ecne a = Some (ab, a')" "books_ok a'" "timers_ok a'" by blast
  have "\<exists>n d. net_at (chk_whoTo c) a' = Some (n, d) \<and> rxt_pending d" if c: "c \<in> set (sent_queue a')" "in_flight c" "book_size c \<noteq> 0" for c
  proof -
    have "chunk_ok a' c" using a'(2) c(1) by (auto simp: books_ok_def snd_ok_def list_all_iff)
    then obtain i where i: "chk_whoTo c = Some i" "i < length (nets (asoc_cc a'))" "i < length (dests a')"
      using c(2) by (auto simp: chunk_ok_def in_flight_def datagram_states valid_net_def split: option.splits)
    obtain k where "k < length (sent_queue a')" "sent_queue a' ! k = c" using c(1) by (auto simp: in_set_conv_nth)
    then have "to_net i c \<le> flight_of (to_net i) (sent_queue a')" using flight_of_member [of k "sent_queue a'" "to_net i"] c(2) by simp
    moreover have "0 < to_net i c" using c(3) i(1) by (simp add: to_net_def unat_gt_0)
    moreover have "unat (flight_size (nets (asoc_cc a') ! i)) = flight_of (to_net i) (sent_queue a')" using a'(2) i(2) by (simp add: books_ok_def flight_ok_def)
    ultimately have "flight_size (nets (asoc_cc a') ! i) \<noteq> 0" by auto
    then show ?thesis using a'(3) i by (simp add: timers_ok_def net_at_def)
  qed
  then show ?thesis using a'(1) by (auto simp: in_flight_def)
qed

theorem express_sack_arms_timers_witness:
  "\<exists>ab a'. sctp_express_handle_sack demo_snd_env 1000 100000 False (demo_snd 1000) = Some (ab, a') \<and>
    (\<forall>c\<in>set (sent_queue a'). chk_sent c < SCTP_DATAGRAM_RESEND \<and> book_size c \<noteq> 0 \<longrightarrow> (\<exists>n d. net_at (chk_whoTo c) a' = Some (n, d) \<and> rxt_pending d))"
  by (rule express_sack_arms_timers [OF demo_snd_books]) (simp_all add: demo_snd_tsns SCTP_UINT32_GT_def SCTP_UINT32_GE_def)

text \<open>
  A cumulative TSN that was never sent is an attack or an error of the peer: the association is aborted with the cause protocol
  violation, and neither the sent queue nor the counters of the data in flight are touched.
\<close>

theorem express_sack_rejects_unsent:
  assumes "snd_ok a" "SCTP_TSN_GT cumack (last_acked_seq a)" "SCTP_TSN_GE cumack (sent_end a)"
  shows "\<exists>a'. sctp_express_handle_sack env cumack rwnd ecne a = Some (True, a') \<and> snd_events a' = snd_events a @ [Abort_association SCTP_CAUSE_PROTOCOL_VIOLATION] \<and>
    sent_queue a' = sent_queue a \<and> counters a' = counters a \<and> last_acked_seq a' = last_acked_seq a"
proof -
  have "length (dests a) = length (nets (asoc_cc a))" using assms(1) by (simp add: snd_ok_def)
  from prepare.all_ok [OF this conjI [OF refl refl], of env cumack] obtain a1 where
    a1: "foreach_dest (prepare_dest env cumack) a = Some a1" "view a1 = view a" "snd_events a1 = snd_events a" by blast
  then show ?thesis using GT_asym(1) [OF assms(2)] assms(2,3) GT_asym(2) [of cumack] sent_end_view [OF a1(2)]
    by (auto simp: sctp_express_handle_sack_def Let_def view_def fixed_def counters_def snd_emit_def)
qed

theorem express_sack_rejects_unsent_witness:
  "\<exists>a'. sctp_express_handle_sack demo_snd_env 1003 100000 False (demo_snd 1000) = Some (True, a') \<and>
    snd_events a' = [Abort_association SCTP_CAUSE_PROTOCOL_VIOLATION] \<and> map tsn (sent_queue a') = [1000, 1001, 1002]"
proof -
  have "snd_events (demo_snd 1000) = []" by (simp add: demo_snd_def)
  with express_sack_rejects_unsent [OF demo_snd_ok(1), of 1003 1000 demo_snd_env 100000 False] show ?thesis
    by (auto simp: demo_snd_tsns SCTP_UINT32_GT_def SCTP_UINT32_GE_def)
qed

end
