(* ===== verification/Snd_Steps.thy ===== *)
theory Snd_Steps
  imports Snd_Slow Snd_Express_Correct
begin

text \<open>
  One chunk of the sent queue changes, and the books follow. \<open>good\<close> says that a queue of chunks agrees with the counters of an association, and \<open>step_ok\<close>
  that a chunk was exchanged and the counters were updated accordingly; every loop over the queue consists of such steps. The gap blocks of a
  SACK are treated here, without assumptions on the order of the queue.
\<close>

section \<open>Steps\<close>

definition known_state :: "data_chunk \<Rightarrow> bool" where
  "known_state c \<longleftrightarrow> chk_sent c \<le> SCTP_DATAGRAM_RESEND \<or> SCTP_DATAGRAM_ACKED \<le> chk_sent c"

definition sender_chunk :: "snd_asoc \<Rightarrow> data_chunk \<Rightarrow> bool" where
  "sender_chunk a c \<longleftrightarrow> valid_net a (chk_whoTo c) \<and> unat (sid c) < length (strmout a) \<and> probe_ok c \<and> \<not> PR_SCTP_ENABLED (pr_flags c) \<and>
     SCTP_DATAGRAM_UNSENT < chk_sent c \<and> known_state c"

definition good :: "snd_asoc \<Rightarrow> data_chunk list \<Rightarrow> bool" where
  "good a q \<longleftrightarrow> books_ok (a\<lparr>sent_queue := q\<rparr>) \<and> list_all (sender_chunk a) q"

definition kept :: "data_chunk \<Rightarrow> data_chunk \<Rightarrow> bool" where
  "kept c c' \<longleftrightarrow> tsn c' = tsn c \<and> book_size c' = book_size c \<and> chk_whoTo c' = chk_whoTo c \<and> sid c' = sid c \<and>
     PR_SCTP_ENABLED (pr_flags c') = PR_SCTP_ENABLED (pr_flags c) \<and>
     SCTP_DATAGRAM_UNSENT < chk_sent c' \<and> known_state c' \<and> probe_ok c'"

definition flight_step :: "data_chunk \<Rightarrow> data_chunk \<Rightarrow> u32 list \<times> u32 \<times> u32 \<Rightarrow> u32 list \<times> u32 \<times> u32" where
  "flight_step c c' C =
     (if in_flight c \<and> \<not> in_flight c' then leave c (the (chk_whoTo c)) C
      else if \<not> in_flight c \<and> in_flight c' then enter c (the (chk_whoTo c)) C else C)"

definition retran_step :: "data_chunk \<Rightarrow> data_chunk \<Rightarrow> u32 \<Rightarrow> u32" where
  "retran_step c c' r =
     (if chk_sent c = SCTP_DATAGRAM_RESEND \<and> chk_sent c' \<noteq> SCTP_DATAGRAM_RESEND then sctp_ucount_decr r
      else if chk_sent c \<noteq> SCTP_DATAGRAM_RESEND \<and> chk_sent c' = SCTP_DATAGRAM_RESEND then sctp_ucount_incr r else r)"

definition step_ok :: "data_chunk \<Rightarrow> data_chunk \<Rightarrow> snd_asoc \<Rightarrow> snd_asoc \<Rightarrow> bool" where
  "step_ok c c' a b \<longleftrightarrow> kept c c' \<and> fixed b = fixed a \<and> counters b = flight_step c c' (counters a) \<and>
     sent_queue_retran_cnt b = retran_step c c' (sent_queue_retran_cnt a)"

lemma sender_chunk_fixed: "fixed b = fixed a \<Longrightarrow> sender_chunk b = sender_chunk a"
  by (rule ext) (simp add: sender_chunk_def valid_net_def fixed_def shape_def split: option.split)

lemma sender_chunk_ok: "sender_chunk a c \<Longrightarrow> chunk_ok a c"
  by (simp add: sender_chunk_def chunk_ok_def)

lemma kept_sender: "kept c c' \<Longrightarrow> sender_chunk a c \<Longrightarrow> sender_chunk a c'"
  by (simp add: kept_def sender_chunk_def)

lemma step_refl [simp]: "probe_ok c \<Longrightarrow> known_state c \<Longrightarrow> SCTP_DATAGRAM_UNSENT < chk_sent c \<Longrightarrow> step_ok c c a a"
  by (simp add: step_ok_def kept_def flight_step_def retran_step_def)

lemma good_chunk: "good a (ds @ c # cs) \<Longrightarrow> sender_chunk a c"
  by (simp add: good_def)

lemma ucount_decr: "unat r = Suc m \<Longrightarrow> unat (sctp_ucount_decr r) = m"
  using unat_sub_le [of 1 r] by (auto simp: sctp_ucount_decr_def u32_le u32_less)

lemma good_step:
  assumes ok: "good a (ds @ c # cs)" and st: "step_ok c c' a b"
  shows "good b (ds @ c' # cs)"
proof -
  let ?a = "a\<lparr>sent_queue := ds @ c # cs\<rparr>" and ?b = "b\<lparr>sent_queue := ds @ c' # cs\<rparr>"
  have c: "sender_chunk a c" by (rule good_chunk [OF ok])
  then obtain i where i: "chk_whoTo c = Some i" "i < length (flights a)" by (auto simp: sender_chunk_def valid_net_def split: option.splits)
  have k: "kept c c'" "fixed b = fixed a" "counters ?b = flight_step c c' (counters ?a)" using st by (simp_all add: step_ok_def)
  have c': "sender_chunk a c'" "book_size c' = book_size c" "chk_whoTo c' = chk_whoTo c" "probe_ok c'"
    using k(1) kept_sender [OF k(1) c] by (simp_all add: kept_def)
  have sh: "shape ?b = shape ?a" using fixed_shape [OF k(2)] by (simp add: shape_def)
  have bk: "snd_ok ?a" "flight_ok ?a" "retran_ok ?a" using ok by (simp_all add: good_def books_ok_def)
  have "snd_ok ?b" by (rule snd_ok_update [OF bk(1) sh, of "length ds" c']) (use c'(2) sender_chunk_ok [OF c'(1)] in simp_all)
  moreover have "flight_ok ?b"
  proof (cases "in_flight c = in_flight c'")
    case True
    show ?thesis by (rule stay_ok [OF bk(2), of "length ds" c']) (use True c' k(3) in \<open>simp_all add: flight_step_def\<close>)
  next
    case False
    show ?thesis
    proof (cases "in_flight c")
      case True
      show ?thesis by (rule leave_ok [OF bk(2), of "length ds" c' i]) (use True False i k(3) in \<open>simp_all add: flight_step_def\<close>)
    next
      case out: False
      show ?thesis
        by (rule enter_ok [OF bk(2,1), of "length ds" c' i]) (use out False i c' k(3) in \<open>simp_all add: flight_step_def enter_def\<close>)
    qed
  qed
  moreover have "retran_ok ?b"
  proof -
    have r: "sent_queue_retran_cnt b = retran_step c c' (sent_queue_retran_cnt a)" using st by (simp add: step_ok_def)
    have "Suc (retran_of ds + retran_of cs) < 2 ^ 32" using bk(1) retran_of_le [of "ds @ cs"] by (simp add: snd_ok_def)
    then have "Suc (retran_of ds + retran_of cs) < 4294967296" by simp
    then show ?thesis using r bk(3) ucount_decr [of "sent_queue_retran_cnt a"]
      by (auto simp: retran_ok_def retran_step_def sctp_ucount_incr_def unat_add_small)
  qed
  ultimately show ?thesis using ok c' sender_chunk_fixed [OF k(2)] by (auto simp: good_def books_ok_def)
qed

lemma good_fixed:
  assumes "good a q" "fixed b = fixed a" "counters b = counters a" "sent_queue_retran_cnt b = sent_queue_retran_cnt a"
  shows "good b q"
  using assms books_ok_cong [of "b\<lparr>sent_queue := q\<rparr>" "a\<lparr>sent_queue := q\<rparr>"] fixed_shape [OF assms(2)] sender_chunk_fixed [OF assms(2)]
  by (simp add: good_def shape_def)

lemma good_view: "good a q \<Longrightarrow> view b = view a \<Longrightarrow> good b q"
  by (erule good_fixed) (simp_all add: view_def)

text \<open>A chunk that is not in flight gets another destination.\<close>

lemma good_retarget:
  assumes "good a (ds @ c # cs)" "\<not> in_flight c" "valid_net a p"
  shows "good a (ds @ c\<lparr>chk_whoTo := p\<rparr> # cs)"
proof -
  let ?c = "c\<lparr>chk_whoTo := p\<rparr>" and ?a = "a\<lparr>sent_queue := ds @ c # cs\<rparr>" and ?b = "a\<lparr>sent_queue := ds @ c\<lparr>chk_whoTo := p\<rparr> # cs\<rparr>"
  have bk: "snd_ok ?a" "flight_ok ?a" "retran_ok ?a" "sender_chunk a c" using assms(1) by (simp_all add: good_def books_ok_def)
  have c: "sender_chunk a ?c" "probe_ok ?c" using bk(4) assms(3) by (simp_all add: sender_chunk_def probe_ok_def known_state_def in_flight_def)
  have "snd_ok ?b" by (rule snd_ok_update [OF bk(1), of _ "length ds" ?c]) (use sender_chunk_ok [OF c(1)] in \<open>simp_all add: shape_def\<close>)
  moreover have "flight_ok ?b" by (rule stay_ok [OF bk(2), of "length ds" ?c]) (use assms(2) in \<open>simp_all add: in_flight_def\<close>)
  moreover have "retran_ok ?b" using bk(3) by (simp add: retran_ok_def)
  ultimately show ?thesis using assms(1) c by (simp add: good_def books_ok_def)
qed

text \<open>The queue is the one of the association, and the chunk at a position changes.\<close>

lemma good_update:
  assumes "good a (sent_queue a)" "k < length (sent_queue a)" "step_ok (sent_queue a ! k) c' a b" "sent_queue b = (sent_queue a)[k := c']"
  shows "good b (sent_queue b)"
proof -
  have "sent_queue a = take k (sent_queue a) @ sent_queue a ! k # drop (Suc k) (sent_queue a)" by (rule id_take_nth_drop [OF assms(2)])
  with good_step [of a "take k (sent_queue a)" "sent_queue a ! k" "drop (Suc k) (sent_queue a)", OF _ assms(3)] assms show ?thesis
    by (simp add: upd_conv_take_nth_drop)
qed

section \<open>Gap blocks\<close>

lemma total_flight_decrease_fixed [simp]:
  "fixed (sctp_total_flight_decrease c a) = fixed a" "sent_queue_retran_cnt (sctp_total_flight_decrease c a) = sent_queue_retran_cnt a"
  by (simp_all add: sctp_total_flight_decrease_def fixed_def shape_def)

lemma acked_net_fixed:
  assumes "acked_net now c v n d a = (v', n', d', b)"
  shows "fixed b = fixed a \<and> sent_queue_retran_cnt b = sent_queue_retran_cnt a"
proof -
  have "fixed b = fixed (sctp_total_flight_decrease c a) \<and> sent_queue_retran_cnt b = sent_queue_retran_cnt (sctp_total_flight_decrease c a)"
    using assms by (auto simp: acked_net_def Let_def view_def split: prod.splits if_splits dest!: seg_rto_view)
  then show ?thesis by simp
qed

lemma newly_acked_fixed:
  assumes "newly_acked now c v a = Some (c', v', b)"
  shows "fixed b = fixed a \<and> sent_queue_retran_cnt b = sent_queue_retran_cnt a \<and> chk_sent c' = chk_sent c"
proof -
  obtain n d where nd: "net_at (chk_whoTo c) a = Some (n, d)" using assms by (cases "net_at (chk_whoTo c) a") (auto simp: newly_acked_def)
  obtain v1 d1 n2 d2 v2 a2 where "acked_net now c v1 n d1 a = (v2, n2, d2, a2)" "b = put_net (chk_whoTo c) n2 d2 a2" "chk_sent c' = chk_sent c"
    using assms unfolding newly_acked_def nd Let_def by (auto split: prod.split_asm split del: if_split)
  then show ?thesis by (auto dest: acked_net_fixed)
qed

lemma undo_revoke_fixed:
  "undo_revoke c a = Some (c', b) \<Longrightarrow> fixed b = fixed a \<and> sent_queue_retran_cnt b = sent_queue_retran_cnt a"
  by (auto simp: undo_revoke_def Option.bind_eq_Some_conv split: if_splits)

lemma free_bufspace_fixed [simp]:
  "fixed (sctp_free_bufspace c k a) = fixed a" "sent_queue_retran_cnt (sctp_free_bufspace c k a) = sent_queue_retran_cnt a"
  using view_free_bufspace [of c k a] by (simp_all add: view_def del: view_free_bufspace)

lemma fixed_streams [simp]: "fixed (a\<lparr>trigger_reset := x\<rparr>) = fixed a" "fixed (a\<lparr>strmout := (strmout a)[i := s]\<rparr>) = fixed a"
  by (simp_all add: fixed_def shape_def)

lemma nr_acked_fixed:
  assumes "nr_acked c v a = Some (c', v', b)"
  shows "fixed b = fixed a \<and> sent_queue_retran_cnt b = sent_queue_retran_cnt a"
proof -
  obtain s where s: "stream_at (sid c) a = Some s" using assms by (cases "stream_at (sid c) a") (auto simp: nr_acked_def)
  define s1 where "s1 = (if chunks_on_queues s > 0 then s\<lparr>chunks_on_queues := chunks_on_queues s - 1\<rparr> else s)"
  define a1 where "a1 = (if chunks_on_queues s1 = 0 \<and> strm_state s1 = SCTP_STREAM_RESET_PENDING \<and> outqueue s1 = []
     then a\<lparr>strmout := (strmout a)[unat (sid c) := s1], trigger_reset := 1\<rparr> else a\<lparr>strmout := (strmout a)[unat (sid c) := s1]\<rparr>)"
  have "b = a1 \<or> (\<exists>x. b = sctp_free_bufspace x 1 a1)"
    using assms unfolding nr_acked_def s Option.bind.simps Let_def s1_def [symmetric] a1_def [symmetric] by (auto split: if_split_asm)
  moreover have "fixed a1 = fixed a \<and> sent_queue_retran_cnt a1 = sent_queue_retran_cnt a" by (simp add: a1_def)
  ultimately show ?thesis by auto
qed

lemma gap_seen_fixed:
  "fixed (gap_seen c a) = fixed a"
  "sent_queue_retran_cnt (gap_seen c a) = (if chk_sent c = SCTP_DATAGRAM_RESEND then sctp_ucount_decr (sent_queue_retran_cnt a) else sent_queue_retran_cnt a)"
  by (simp_all add: gap_seen_def Let_def fixed_def shape_def)

lemma seg_hit_fixed:
  assumes "seg_hit now nr k v a = Some (v', b)" "chunk_at k a = Some c" "chk_sent c \<noteq> SCTP_DATAGRAM_UNSENT"
  shows "fixed b = fixed a \<and> sent_queue_retran_cnt b =
    (if chk_sent c = SCTP_DATAGRAM_RESEND then sctp_ucount_decr (sent_queue_retran_cnt a) else sent_queue_retran_cnt a)"
proof -
  obtain c1 v1 a1 where 1: "(if chk_sent c < SCTP_DATAGRAM_RESEND then newly_acked now c v a else Some (c, v, a)) = Some (c1, v1, a1)"
    using assms by (auto simp: seg_hit_def Option.bind_eq_Some_conv)
  then have f1: "fixed a1 = fixed a" "sent_queue_retran_cnt a1 = sent_queue_retran_cnt a" "chk_sent c1 = chk_sent c"
    using newly_acked_fixed [of now c v a c1 v1 a1] by (auto split: if_splits)
  obtain c2 a2 where 2: "undo_revoke (seg_mark c1) (gap_seen c1 a1) = Some (c2, a2)" using assms 1 by (auto simp: seg_hit_def Let_def Option.bind_eq_Some_conv)
  obtain c3 v3 a3 where 3: "(if nr \<and> chk_sent c2 \<noteq> SCTP_DATAGRAM_NR_ACKED then nr_acked c2 v1 a2 else Some (c2, v1, a2)) = Some (c3, v3, a3)"
    using assms 1 2 by (auto simp: seg_hit_def Let_def Option.bind_eq_Some_conv)
  have "b = put_chunk k c3 a3" using assms 1 2 3 by (simp add: seg_hit_def Let_def)
  moreover have "fixed a3 = fixed a2 \<and> sent_queue_retran_cnt a3 = sent_queue_retran_cnt a2"
    using 3 nr_acked_fixed [of c2 v1 a2 c3 v3 a3] by (auto split: if_splits)
  ultimately show ?thesis using undo_revoke_fixed [OF 2] f1 gap_seen_fixed [of c1 a1] by simp (simp add: put_chunk_def)
qed

lemma seg_effect_kept:
  assumes "SCTP_DATAGRAM_UNSENT < chk_sent c"
  shows "kept c (seg_effect nr c)" "\<not> in_flight (seg_effect nr c)" "chk_sent (seg_effect nr c) \<noteq> SCTP_DATAGRAM_RESEND"
  using assms by (auto simp: kept_def seg_effect_def seg_mark_def Let_def probe_ok_def known_state_def in_flight_def datagram_states)

text \<open>What is known of the queue in the middle of the handler: the chunks up to the cumulative TSN \<open>t\<close> have been acknowledged.\<close>

definition settled :: "u32 \<Rightarrow> data_chunk \<Rightarrow> bool" where
  "settled t c \<longleftrightarrow> SCTP_TSN_GT (tsn c) t \<or> chk_sent c \<ge> SCTP_DATAGRAM_ACKED"

type_synonym frame = "((nat \<times> nat \<times> nat) \<times> cc_module \<times> u8 \<times> u32 \<times> u32 \<times> u8 \<times> u32) \<times> u32 list \<times> u32"

definition queue_ok :: "frame \<Rightarrow> snd_asoc \<Rightarrow> bool" where
  "queue_ok F a \<longleftrightarrow> good a (sent_queue a) \<and> fixed a = fst F \<and> map tsn (sent_queue a) = fst (snd F) \<and> list_all (settled (snd (snd F))) (sent_queue a)"

abbreviation len :: "frame \<Rightarrow> nat" where "len F \<equiv> length (fst (snd F))"

lemma queue_ok_len: "queue_ok F a \<Longrightarrow> length (sent_queue a) = len F"
  using length_map [of tsn "sent_queue a"] by (simp add: queue_ok_def)

lemma queue_ok_at:
  assumes "queue_ok F a" "k < len F"
  shows "chunk_at k a = Some (sent_queue a ! k)" "k < length (sent_queue a)" "sender_chunk a (sent_queue a ! k)" "settled (snd (snd F)) (sent_queue a ! k)"
  using assms queue_ok_len [OF assms(1)] by (simp_all add: queue_ok_def chunk_at_def good_def list_all_length)

lemma queue_ok_update:
  assumes q: "queue_ok F a" "k < len F" and st: "step_ok (sent_queue a ! k) c' a b" "settled (snd (snd F)) c'" "sent_queue b = (sent_queue a)[k := c']"
  shows "queue_ok F b"
proof -
  have k: "k < length (sent_queue a)" by (rule queue_ok_at [OF q])
  have "good b (sent_queue b)" by (rule good_update [OF _ k st(1,3)]) (use q(1) in \<open>simp add: queue_ok_def\<close>)
  moreover have "map tsn (sent_queue b) = fst (snd F)" using q(1) st k by (auto simp: queue_ok_def step_ok_def kept_def map_update_same)
  moreover have "list_all (settled (snd (snd F))) (sent_queue b)"
    using q(1) st(2,3) set_update_subset_insert [of "sent_queue a" k c'] by (auto simp: queue_ok_def list_all_iff)
  ultimately show ?thesis using q(1) st(1) by (simp add: queue_ok_def step_ok_def)
qed

lemma queue_ok_view: "queue_ok F a \<Longrightarrow> view b = view a \<Longrightarrow> queue_ok F b"
  using good_view [of a "sent_queue a" b] by (simp add: queue_ok_def view_def)

lemma hit_queue_ok:
  assumes "queue_ok F a" "k < len F"
  shows "\<exists>v' b. seg_hit now nr k v a = Some (v', b) \<and> queue_ok F b"
proof -
  let ?c = "sent_queue a ! k"
  note at = queue_ok_at [OF assms]
  have pos: "SCTP_DATAGRAM_UNSENT < chk_sent ?c" using at(3) by (simp add: sender_chunk_def)
  then have un: "chk_sent ?c \<noteq> SCTP_DATAGRAM_UNSENT" by simp
  from seg_hit_eq [OF at(2) sender_chunk_ok [OF at(3)] un, of now nr v] obtain v' b where b: "seg_hit now nr k v a = Some (v', b)"
    "sent_queue b = (sent_queue a)[k := seg_effect nr ?c]"
    "counters b = (if in_flight ?c then leave ?c (the (chk_whoTo ?c)) (counters a) else counters a)" by blast
  have "step_ok ?c (seg_effect nr ?c) a b"
    using seg_hit_fixed [OF b(1) at(1) un] seg_effect_kept [OF pos] b(3) by (simp add: step_ok_def flight_step_def retran_step_def)
  moreover have "settled t (seg_effect nr ?c)" for t
    using un by (simp add: settled_def seg_effect_def seg_mark_def Let_def datagram_states)
  ultimately show ?thesis using queue_ok_update [OF assms _ _ b(2)] b by blast
qed

lemma track_pseudo_view:
  assumes "sender_chunk a c"
  shows "\<exists>b. track_pseudo c a = Some b \<and> view b = view a"
proof (cases "chk_sent c < SCTP_DATAGRAM_RESEND")
  case True
  obtain n d where nd: "net_at (chk_whoTo c) a = Some (n, d)" using assms valid_net_at [of a "chk_whoTo c"] by (auto simp: sender_chunk_def)
  with True show ?thesis by (simp add: track_pseudo_def Let_def view_put_net [OF nd])
qed (simp add: track_pseudo_def)

definition at_ok :: "frame \<Rightarrow> nat option \<Rightarrow> bool" where
  "at_ok F p = (case p of None \<Rightarrow> True | Some k \<Rightarrow> k < len F)"

lemma at_ok_first: "queue_ok F a \<Longrightarrow> at_ok F (first_chunk a)"
  using queue_ok_len [of F a] by (auto simp: at_ok_def first_chunk_def)

lemma at_ok_next: "queue_ok F a \<Longrightarrow> at_ok F (next_chunk k a)"
  using queue_ok_len [of F a] by (simp add: at_ok_def next_chunk_def)

lemma walk_queue_ok:
  "queue_ok F a \<Longrightarrow> at_ok F p \<Longrightarrow> \<exists>p' cir' v' b. seg_walk now nr t p cir v a = Some (p', cir', v', b) \<and> queue_ok F b \<and> at_ok F p'"
proof (induction now nr t p cir v a rule: seg_walk.induct)
  case (1 now nr t cir v a)
  then show ?case by (simp add: seg_walk.simps)
next
  case (2 now nr t k cir v a)
  let ?c = "sent_queue a ! k"
  have k: "k < len F" using "2.prems"(2) by (simp add: at_ok_def)
  note at = queue_ok_at [OF "2.prems"(1) k]
  from track_pseudo_view [OF at(3)] obtain a1 where a1: "track_pseudo ?c a = Some a1" "view a1 = view a" by blast
  note ok1 = queue_ok_view [OF "2.prems"(1) a1(2)]
  note step = seg_walk.simps(2) [of now nr t k cir v a] at(1) a1(1)
  consider (found) "tsn ?c = t" | (beyond) "tsn ?c \<noteq> t" "SCTP_TSN_GT (tsn ?c) t"
    | (round) "tsn ?c \<noteq> t" "\<not> SCTP_TSN_GT (tsn ?c) t" "next_chunk k a1 = None \<and> \<not> cir"
    | (on) "tsn ?c \<noteq> t" "\<not> SCTP_TSN_GT (tsn ?c) t" "\<not> (next_chunk k a1 = None \<and> \<not> cir)" by blast
  then show ?case
  proof cases
    case found
    with hit_queue_ok [OF ok1 k, of now nr v] step "2.prems"(2) show ?thesis by auto
  next
    case beyond
    then show ?thesis using step ok1 "2.prems"(2) by simp
  next
    case round
    from "2.IH"(1) [OF at(1) a1(1) round ok1 at_ok_first [OF ok1]] show ?thesis using step round by simp
  next
    case on
    from "2.IH"(2) [OF at(1) a1(1) on ok1 at_ok_next [OF ok1]] show ?thesis using step on by auto
  qed
qed

lemma for_queue_ok:
  "queue_ok F a \<Longrightarrow> at_ok F p \<Longrightarrow> \<exists>p' v' b. seg_for now nr t js p cir v a = Some (p', v', b) \<and> queue_ok F b \<and> at_ok F p'"
proof (induction js arbitrary: p cir v a)
  case (Cons j js)
  from walk_queue_ok [OF Cons.prems] obtain p1 c1 v1 a1 where w: "seg_walk now nr (of_nat j + t) p cir v a = Some (p1, c1, v1, a1)"
    "queue_ok F a1" "at_ok F p1" by blast
  show ?case using Cons.IH [OF w(2) at_ok_first [OF w(2)], of False v1] Cons.IH [OF w(2,3), of c1 v1] w(1) by (cases "p1 = None") auto
qed simp

lemma block_queue_ok:
  assumes "queue_ok F a" "at_ok F (seg_tp1 p)"
  shows "\<exists>p' v' b. seg_block now t nr s e p v a = Some (p', v', b) \<and> queue_ok F b \<and> at_ok F (seg_tp1 p')"
proof (cases "s > e")
  case False
  define p1 where "p1 = (if s \<le> prev_frag_end p then p\<lparr>seg_tp1 := first_chunk a\<rparr> else p)"
  define p2 where "p2 = (if SCTP_TSN_GT (t + ucast e) (biggest_tsn_acked p1) then p1\<lparr>biggest_tsn_acked := t + ucast e\<rparr> else p1)"
  have "at_ok F (seg_tp1 p2)" using assms(2) at_ok_first [OF assms(1)] by (simp add: p2_def p1_def)
  then have "at_ok F (case seg_tp1 p2 of None \<Rightarrow> first_chunk a | Some k \<Rightarrow> Some k)" using at_ok_first [OF assms(1)] by (cases "seg_tp1 p2") simp_all
  from for_queue_ok [OF assms(1) this, of now nr t "[unat s..<Suc (unat e)]" False "v\<lparr>wake_him := 0\<rparr>"] show ?thesis
    using False unfolding seg_block_def Let_def p1_def [symmetric] p2_def [symmetric] sctp_process_segment_range_def by (auto simp del: upt_Suc)
qed (use assms in \<open>simp add: seg_block_def\<close>)

lemma blocks_queue_ok:
  "queue_ok F a \<Longrightarrow> at_ok F (seg_tp1 p) \<Longrightarrow> \<exists>p' v' b. seg_blocks now m t num is p v a = Some (p', v', b) \<and> queue_ok F b"
proof (induction "is" arbitrary: p v a)
  case (Cons i "is")
  define p1 where "p1 = (if i = num then p\<lparr>prev_frag_end := 0, seg_tp1 := first_chunk a\<rparr> else p)"
  define p2 where "p2 = p1\<lparr>seg_offset := seg_offset p1 + 4\<rparr>"
  have at: "at_ok F (seg_tp1 p2)" using Cons.prems at_ok_first [OF Cons.prems(1)] by (simp add: p2_def p1_def)
  show ?case
  proof (cases "sctp_m_getptr m (seg_offset p1) 4")
    case None
    then show ?thesis using Cons.prems by (simp add: p1_def [symmetric] Let_def)
  next
    case (Some x)
    from block_queue_ok [OF Cons.prems(1) at] obtain p3 v3 a3 where
      b: "seg_block now t (\<not> i < num) (be16 (x ! 0) (x ! 1)) (be16 (x ! 2) (x ! 3)) p2 v a = Some (p3, v3, a3)" "queue_ok F a3" "at_ok F (seg_tp1 p3)" by blast
    from Cons.IH [OF b(2,3), of v3] b(1) Some show ?thesis
      unfolding seg_blocks.simps p1_def [symmetric] Let_def p2_def [symmetric] by simp
  qed
qed simp

lemma segments_queue_ok:
  "queue_ok F a \<Longrightarrow> \<exists>p v' b. sctp_handle_segments now m off t big num nr_num v a = Some (p, v', b) \<and> queue_ok F b"
  unfolding sctp_handle_segments_def by (rule blocks_queue_ok) (simp_all add: at_ok_first)

end
