(* ===== verification/Snd_Slow_Correct.thy ===== *)
theory Snd_Slow_Correct
  imports Snd_Steps
begin

text \<open>
  Every SACK or NR-SACK chunk, however it looks, leaves a sender with right books: \<open>sender_ok\<close> is an invariant of the treatment of
  these chunks, by the express path as well as by \<^verbatim>\<open>sctp_handle_sack\<close>.
\<close>

section \<open>Chunks below the cumulative TSN\<close>

lemma slow_acked_net_ok:
  assumes "valid_net a (chk_whoTo c)"
  shows "\<exists>v' b. slow_acked_net now c v a = Some (v', b) \<and> view b = (fixed a, acked_counters c a, sent_queue a, sent_queue_retran_cnt a)"
proof -
  obtain n d where nd: "net_at (chk_whoTo c) a = Some (n, d)" using assms valid_net_at by blast
  show ?thesis
    by (auto simp: slow_acked_net_def nd Let_def in_flight_def [symmetric] total_decrease_keep split: prod.split dest!: seg_rto_view intro!: put_acked [OF nd])
qed

lemma slow_acked_ok:
  assumes "sender_chunk a c"
  shows "\<exists>v' b. slow_acked now c v a = Some (v', b) \<and> step_ok c (slow_mark c) a b \<and> sent_queue b = sent_queue a"
proof -
  have v: "valid_net a (chk_whoTo c)" and pos: "SCTP_DATAGRAM_UNSENT < chk_sent c" using assms by (simp_all add: sender_chunk_def)
  have "\<exists>v1 a1. (if chk_sent c < SCTP_DATAGRAM_ACKED then slow_acked_net now c v a else Some (v, a)) = Some (v1, a1) \<and>
      view a1 = (fixed a, acked_counters c a, sent_queue a, sent_queue_retran_cnt a)"
    using slow_acked_net_ok [OF v, of now v] by (auto simp: view_def acked_counters_def in_flight_def datagram_states)
  then obtain v1 a1 where 1: "(if chk_sent c < SCTP_DATAGRAM_ACKED then slow_acked_net now c v a else Some (v, a)) = Some (v1, a1)"
    "view a1 = (fixed a, acked_counters c a, sent_queue a, sent_queue_retran_cnt a)" by blast
  define a2 where "a2 = (if chk_sent c = SCTP_DATAGRAM_RESEND then a1\<lparr>sent_queue_retran_cnt := sctp_ucount_decr (sent_queue_retran_cnt a1)\<rparr> else a1)"
  let ?V = "(fixed a, acked_counters c a, sent_queue a,
    if chk_sent c = SCTP_DATAGRAM_RESEND then sctp_ucount_decr (sent_queue_retran_cnt a) else sent_queue_retran_cnt a)"
  have 2: "view a2 = ?V" using 1(2) by (simp add: a2_def view_def)
  then have "sender_chunk a2 c" using assms sender_chunk_fixed [OF view_eqs(1) [OF 2]] by simp
  then obtain c' a3 where 3: "undo_revoke c a2 = Some (c', a3)" "view a3 = ?V" using undo_revoke_view [of c a2] 2 by (auto simp: sender_chunk_def)
  have m: "kept c (slow_mark c)" "\<not> in_flight (slow_mark c)" "chk_sent (slow_mark c) \<noteq> SCTP_DATAGRAM_RESEND"
    using pos by (simp_all add: kept_def slow_mark_def Let_def probe_ok_def known_state_def in_flight_def datagram_states)
  have "step_ok c (slow_mark c) a a3" "sent_queue a3 = sent_queue a"
    using m view_eqs [OF 3(2)] by (simp_all add: step_ok_def flight_step_def retran_step_def acked_counters_def)
  moreover have "slow_acked now c v a = Some (v1, a3)" using 1(1) 3(1) by (simp add: slow_acked_def Let_def a2_def [symmetric])
  ultimately show ?thesis by blast
qed

lemma slow_loop_ok:
  assumes "good a (ds @ cs)"
  shows "\<exists>moved' v' b. slow_loop now t cs moved v a =
      Some (map slow_mark (takeWhile (\<lambda>c. SCTP_TSN_GE t (tsn c)) cs) @ dropWhile (\<lambda>c. SCTP_TSN_GE t (tsn c)) cs, moved', v', b) \<and>
    good b (ds @ map slow_mark (takeWhile (\<lambda>c. SCTP_TSN_GE t (tsn c)) cs) @ dropWhile (\<lambda>c. SCTP_TSN_GE t (tsn c)) cs) \<and>
    fixed b = fixed a \<and> sent_queue b = sent_queue a"
  using assms
proof (induction cs arbitrary: ds moved v a)
  case (Cons c cs)
  let ?P = "\<lambda>c. SCTP_TSN_GE t (tsn c)"
  show ?case
  proof (cases "?P c")
    case True
    have sc: "sender_chunk a c" by (rule good_chunk [OF Cons.prems])
    from slow_acked_ok [OF sc] obtain v1 a1 where a1: "slow_acked now c v a = Some (v1, a1)" "step_ok c (slow_mark c) a a1" "sent_queue a1 = sent_queue a" by blast
    have "good a1 ((ds @ [slow_mark c]) @ cs)" using good_step [OF Cons.prems a1(2)] by simp
    from Cons.IH [OF this, of True v1] obtain m' v' b where b: "slow_loop now t cs True v1 a1 = Some (map slow_mark (takeWhile ?P cs) @ dropWhile ?P cs, m', v', b)"
      "good b ((ds @ [slow_mark c]) @ map slow_mark (takeWhile ?P cs) @ dropWhile ?P cs)" "fixed b = fixed a1" "sent_queue b = sent_queue a1" by blast
    have "chk_sent c \<noteq> SCTP_DATAGRAM_UNSENT" using sc by (simp add: sender_chunk_def)
    then show ?thesis using True a1 b by (simp add: step_ok_def)
  qed (use Cons.prems in simp)
qed simp

section \<open>Chunks leave the queue\<close>

lemma view_removeable [simp]: "view (a\<lparr>sent_queue_cnt_removeable := x\<rparr>) = view a"
  by (simp add: view_def fixed_def shape_def counters_def)

lemma drop_chunk_view:
  assumes "sender_chunk a c"
  shows "\<exists>b. drop_chunk c a = Some b \<and> view b = view a"
proof -
  from stream_done_view [of c a] assms obtain a1 where a1: "stream_done c a = Some a1" "view a1 = view a" by (auto simp: sender_chunk_def)
  then show ?thesis using assms by (simp add: drop_chunk_def sender_chunk_def Let_def)
qed

lemma good_drop:
  assumes "good a (c # cs)" "chk_sent c \<ge> SCTP_DATAGRAM_ACKED"
  shows "good a cs"
proof -
  have "books_ok (a\<lparr>sent_queue := cs\<rparr>)" by (rule drop_head [where a = a and c = c and q = "sent_queue a"])
      (use assms in \<open>simp_all add: good_def view_def acked_counters_def in_flight_def datagram_states\<close>)
  then show ?thesis using assms(1) by (simp add: good_def)
qed

lemma drop_loop_ok:
  assumes "good a q" "list_all (settled t) q"
  shows "\<exists>w' b. drop_loop t q w a = Some (w', b) \<and> sent_queue b = dropWhile (\<lambda>c. \<not> SCTP_TSN_GT (tsn c) t) q \<and> good b (sent_queue b) \<and> fixed b = fixed a"
  using assms
proof (induction q arbitrary: w a)
  case Nil
  then show ?case by (simp add: good_def)
next
  case (Cons c cs)
  show ?case
  proof (cases "SCTP_TSN_GT (tsn c) t")
    case True
    have "good (a\<lparr>sent_queue := c # cs\<rparr>) (c # cs)" by (rule good_fixed [OF Cons.prems(1)]) simp_all
    with True show ?thesis by simp
  next
    case False
    then have "good a cs" using Cons.prems good_drop [of a c cs] by (simp add: settled_def)
    from drop_chunk_view [of a c] Cons.prems(1) obtain b where b: "drop_chunk c a = Some b" "view b = view a" by (auto simp: good_def)
    from good_view [OF \<open>good a cs\<close> b(2)] have "good b cs" .
    from Cons.IH [OF this, of True] Cons.prems(2) b False show ?thesis by (simp add: view_def)
  qed
qed

section \<open>Revoked chunks\<close>

lemma revoke_chunk_ok:
  assumes "sender_chunk a c" "chk_sent c = SCTP_DATAGRAM_ACKED"
  shows "\<exists>c' b. revoke_chunk c a = Some (c', b) \<and> step_ok c c' a b \<and> sent_queue b = sent_queue a"
proof -
  let ?c = "c\<lparr>chk_sent := SCTP_DATAGRAM_SENT, chunk_was_revoked := 1\<rparr>"
  have "valid_net a (chk_whoTo c)" using assms(1) by (simp add: sender_chunk_def)
  from revoke_chunk_eq [OF this] obtain b where b: "revoke_chunk c a = Some (?c, b)" "counters b = enter c (the (chk_whoTo c)) (counters a)" "sent_queue b = sent_queue a"
    by blast
  then have "fixed b = fixed a \<and> sent_queue_retran_cnt b = sent_queue_retran_cnt a"
    by (auto simp: revoke_chunk_def Let_def Option.bind_eq_Some_conv total_flight_increase_keep)
  then have "step_ok c ?c a b"
    using b(2) assms(2) by (simp add: step_ok_def kept_def flight_step_def retran_step_def probe_ok_def known_state_def in_flight_def datagram_states)
  with b(1,3) show ?thesis by blast
qed

lemma revoke_all_ok:
  assumes "good a (ds @ cs)"
  shows "\<exists>cs' b. revoke_all cs a = Some (cs', b) \<and> good b (ds @ cs') \<and> fixed b = fixed a \<and> map tsn cs' = map tsn cs"
  using assms
proof (induction cs arbitrary: ds a)
  case (Cons c cs)
  have sc: "sender_chunk a c" by (rule good_chunk [OF Cons.prems])
  have "\<exists>c' a1. (if chk_sent c = SCTP_DATAGRAM_ACKED then revoke_chunk c a else Some (c, a)) = Some (c', a1) \<and> step_ok c c' a a1"
    using revoke_chunk_ok [OF sc] sc by (auto simp: sender_chunk_def)
  then obtain c' a1 where a1: "(if chk_sent c = SCTP_DATAGRAM_ACKED then revoke_chunk c a else Some (c, a)) = Some (c', a1)" "step_ok c c' a a1" by blast
  have "good a1 ((ds @ [c']) @ cs)" using good_step [OF Cons.prems a1(2)] by simp
  from Cons.IH [OF this] obtain cs' b where "revoke_all cs a1 = Some (cs', b)" "good b ((ds @ [c']) @ cs')" "fixed b = fixed a1" "map tsn cs' = map tsn cs" by blast
  then show ?case using a1 by (simp add: step_ok_def kept_def)
qed simp

lemma revoke_loop_good:
  assumes "good a (ds @ cs)"
  shows "\<exists>cs' b. revoke_loop t big cs a = Some (cs', b) \<and> good b (ds @ cs') \<and> fixed b = fixed a \<and> map tsn cs' = map tsn cs"
  using assms
proof (induction cs arbitrary: ds a)
  case (Cons c cs)
  let ?body = "if SCTP_TSN_GT (tsn c) t
       then if chk_sent c = SCTP_DATAGRAM_ACKED then revoke_chunk c a
            else if chk_sent c = SCTP_DATAGRAM_MARKED then Some (c\<lparr>chk_sent := SCTP_DATAGRAM_ACKED\<rparr>, a)
            else Some (c, a)
       else Some (c, a)"
  show ?case
  proof (cases "SCTP_TSN_GT (tsn c) t \<and> SCTP_TSN_GT (tsn c) big")
    case False
    have sc: "sender_chunk a c" by (rule good_chunk [OF Cons.prems])
    have mk: "step_ok c (c\<lparr>chk_sent := SCTP_DATAGRAM_ACKED\<rparr>) a a" if "chk_sent c = SCTP_DATAGRAM_MARKED"
      using that by (simp add: step_ok_def kept_def flight_step_def retran_step_def probe_ok_def known_state_def in_flight_def datagram_states)
    have "\<exists>c' a1. ?body = Some (c', a1) \<and> step_ok c c' a a1"
      using revoke_chunk_ok [OF sc] mk sc by (auto simp: sender_chunk_def)
    then obtain c' a1 where a1: "?body = Some (c', a1)" "step_ok c c' a a1" by blast
    have g: "good a1 ((ds @ [c']) @ cs)" using good_step [OF Cons.prems a1(2)] by simp
    from Cons.IH [OF g] obtain cs' b where b: "revoke_loop t big cs a1 = Some (cs', b)" "good b ((ds @ [c']) @ cs')" "fixed b = fixed a1" "map tsn cs' = map tsn cs" by blast
    have k: "tsn c' = tsn c" "chk_sent c' \<noteq> SCTP_DATAGRAM_UNSENT" "fixed a1 = fixed a" using a1(2) by (auto simp: step_ok_def kept_def)
    have "revoke_loop t big (c # cs) a = Some (c' # cs', b)"
      using False a1(1) k(2) b(1) by (simp only: revoke_loop.simps if_False a1(1)) simp
    then show ?thesis using b k by simp
  qed (use Cons.prems in simp)
qed simp

lemma slow_revoked_ok:
  assumes "good a (sent_queue a)"
  shows "\<exists>b. slow_revoked num t big a = Some b \<and> good b (sent_queue b) \<and> fixed b = fixed a \<and> map tsn (sent_queue b) = map tsn (sent_queue a)"
proof -
  have g: "good (b\<lparr>sent_queue := q, saw_sack_with_frags := x\<rparr>) q" "good (b\<lparr>sent_queue := q\<rparr>) q" "fixed (b\<lparr>saw_sack_with_frags := x\<rparr>) = fixed b"
    if "good b q" for b q x
    using that by (auto intro: good_fixed simp: fixed_def shape_def counters_def)
  have f: "fixed (b\<lparr>saw_sack_with_frags := x\<rparr>) = fixed b" for b x by (simp add: fixed_def shape_def)
  obtain q1 b1 where 1: "revoke_loop t big (sent_queue a) a = Some (q1, b1)" "good b1 q1" "fixed b1 = fixed a" "map tsn q1 = map tsn (sent_queue a)"
    using revoke_loop_good [of a "[]" "sent_queue a" t big] assms by auto
  obtain q2 b2 where 2: "revoke_all (sent_queue a) a = Some (q2, b2)" "good b2 q2" "fixed b2 = fixed a" "map tsn q2 = map tsn (sent_queue a)"
    using revoke_all_ok [of a "[]" "sent_queue a"] assms by auto
  show ?thesis
    using assms 1 2 g [OF 1(2)] g [OF 2(2)] f by (simp add: slow_revoked_def sctp_check_for_revoked_def)
qed

section \<open>Strikes\<close>

lemma view_add_peers_rwnd [simp]: "view (add_peers_rwnd x a) = view a"
  by (simp add: add_peers_rwnd_def)

lemma add_peers_keep [simp]: "fixed (add_peers_rwnd x a) = fixed a" "sent_queue_retran_cnt (add_peers_rwnd x a) = sent_queue_retran_cnt a"
  using view_add_peers_rwnd [of x a] by (simp_all add: view_def del: view_add_peers_rwnd)

lemma fixed_cmt: "fixed b = fixed a \<Longrightarrow> sctp_cmt_on_off (asoc_cc b) = sctp_cmt_on_off (asoc_cc a)"
  by (simp add: fixed_def)

lemma view_put_chunk: "view (put_chunk k c a) = (fixed a, counters a, (sent_queue a)[k := c], sent_queue_retran_cnt a)"
  by (simp add: view_def) (simp add: put_chunk_def)

lemma view_retran: "view (a\<lparr>sent_queue_retran_cnt := r\<rparr>) = (fixed a, counters a, sent_queue a, r)"
  by (simp add: view_def)

lemma view_decrease: "view (sctp_total_flight_decrease c a) = (fixed a, counters (sctp_total_flight_decrease c a), sent_queue a, sent_queue_retran_cnt a)"
  by (simp add: view_def total_flight_decrease_keep)

lemma strike_net_ok:
  assumes "chk_whoTo c = Some i" "valid_net a (Some i)"
  shows "\<exists>b. strike_net c a = Some b \<and> view (sctp_total_flight_decrease c b) = (fixed a, leave c i (counters a), sent_queue a, sent_queue_retran_cnt a)"
proof -
  obtain n d where nd: "net_at (Some i) a = Some (n, d)" using assms(2) valid_net_at by blast
  then have i: "i < length (nets (asoc_cc a))" "nets (asoc_cc a) ! i = n" by (auto simp: net_at_def split: if_splits)
  show ?thesis using assms i
    by (simp add: strike_net_def nd Let_def view_decrease total_flight_decrease_keep(1))
      (simp add: put_net_def leave_def counters_def map_update)
qed

lemma cancel_rtt_view:
  assumes "valid_net a (chk_whoTo c)"
  shows "\<exists>b. cancel_rtt c a = Some b \<and> view b = view a"
proof -
  obtain n d where nd: "net_at (chk_whoTo c) a = Some (n, d)" using assms valid_net_at by blast
  then obtain i where "chk_whoTo c = Some i" by (auto simp: net_at_def split: option.splits)
  with nd view_put_net [OF nd, of n] show ?thesis by (simp add: cancel_rtt_def)
qed

lemma no_policy: "\<not> PR_SCTP_ENABLED x \<Longrightarrow> \<not> PR_SCTP_TTL_ENABLED x \<and> \<not> PR_SCTP_RTX_ENABLED x"
  by (auto simp: PR_SCTP_ENABLED_def PR_SCTP_TTL_ENABLED_def PR_SCTP_RTX_ENABLED_def)

lemma strike_resend_ok:
  assumes sc: "sender_chunk a c" and k: "k < length (sent_queue a)" and cmt: "sctp_cmt_on_off (asoc_cc a) = 0"
    and c: "in_flight c" "c' = c\<lparr>chk_sent := SCTP_DATAGRAM_RESEND\<rparr>"
  shows "\<exists>c'' b. strike_resend env sv k c' again (put_chunk k c' a) = Some b \<and> step_ok c c'' a b \<and> sent_queue b = (sent_queue a)[k := c'']"
proof -
  let ?a0 = "put_chunk k c' a"
  obtain i where i: "chk_whoTo c = Some i" "valid_net a (Some i)" using sc by (cases "chk_whoTo c") (auto simp: sender_chunk_def valid_net_def)
  have v0: "valid_net b p = valid_net a p" if "fixed b = fixed a" for b p
    using fixed_shape [OF that] by (simp add: valid_net_def shape_def split: option.split)
  from strike_net_ok [of c' i ?a0] i v0 [of ?a0] c(2) obtain a1 where a1: "strike_net c' ?a0 = Some a1"
    "view (sctp_total_flight_decrease c' a1) = (fixed a, leave c' i (counters a), (sent_queue a)[k := c'], sent_queue_retran_cnt a)"
    by (auto simp: put_chunk_def)
  define c2 where "c2 = c'\<lparr>chk_window_probe := 0\<rparr>"
  define a2 where "a2 = put_chunk k c2 (sctp_total_flight_decrease c' (add_peers_rwnd (ucast (chk_send_size c') + sctp_peer_chunk_oh env) a1))"
  have comm: "counters (sctp_total_flight_decrease c' (add_peers_rwnd x a1)) = counters (sctp_total_flight_decrease c' a1)" for x
    by (simp add: sctp_total_flight_decrease_def add_peers_rwnd_def counters_def)
  have lv: "leave c' i = leave c i" by (rule ext) (simp add: leave_def c(2))
  have a2: "view a2 = (fixed a, leave c i (counters a), (sent_queue a)[k := c2], sent_queue_retran_cnt a)"
    using view_eqs [OF a1(2)] by (simp add: a2_def view_put_chunk lv comm)
  define a3 where "a3 = (if again then snd_emit [Stat_sendmultfastretrans] a2 else a2)\<lparr>sent_queue_retran_cnt := sctp_ucount_incr (sent_queue_retran_cnt a2)\<rparr>"
  have a3: "view a3 = (fixed a, leave c i (counters a), (sent_queue a)[k := c2], sctp_ucount_incr (sent_queue_retran_cnt a))"
    using view_eqs [OF a2] by (simp add: a3_def view_retran)
  have nopr: "\<not> PR_SCTP_RTX_ENABLED (pr_flags c2)" using sc no_policy by (simp add: sender_chunk_def c2_def c(2))
  have cm3: "sctp_cmt_on_off (asoc_cc a3) = 0" using view_eqs(1) [OF a3] cmt by (simp add: fixed_def)
  define c3 where "c3 = c2\<lparr>doing_fast_retransmit := 1, fast_retran_tsn := next_to_send (st_sending_seq sv) a3\<rparr>"
  have w3: "chk_whoTo c3 = Some i" "chk_whoTo c2 = Some i" using i(1) by (simp_all add: c3_def c2_def c(2))
  from cancel_rtt_view [of a3 c3] w3 i(2) v0 [OF view_eqs(1) [OF a3]] obtain a4 where a4: "cancel_rtt c3 a3 = Some a4" "view a4 = view a3" by auto
  let ?c = "c3\<lparr>do_rtt := 0, chk_whoTo := Some i\<rparr>"
  have e: "(if again then snd_emit [Stat_sendmultfastretrans] a2 else a2)\<lparr>sent_queue_retran_cnt :=
      sctp_ucount_incr (sent_queue_retran_cnt (if again then snd_emit [Stat_sendmultfastretrans] a2 else a2))\<rparr> = a3"
    by (simp add: a3_def snd_emit_def)
  have "strike_resend env sv k c' again ?a0 = Some (put_chunk k ?c a4)"
    unfolding strike_resend_def a1(1) Option.bind.simps Let_def c2_def [symmetric] a2_def [symmetric] e
    using nopr cm3 a4(1) by (simp add: strike_alt_def w3 c3_def [symmetric])
  moreover have "step_ok c ?c a (put_chunk k ?c a4)"
    using c i(1) view_eqs [OF a4(2) [unfolded a3]] by (simp add: step_ok_def kept_def c3_def c2_def flight_step_def retran_step_def probe_ok_def known_state_def in_flight_def datagram_states)
      (simp add: put_chunk_def)
  moreover have "sent_queue (put_chunk k ?c a4) = (sent_queue a)[k := ?c]" using view_eqs [OF a4(2) [unfolded a3]] by simp
  ultimately show ?thesis by blast
qed

lemma strike_chunk_cases:
  assumes "strike_chunk env sv a c = (c', f)" "sctp_cmt_on_off (asoc_cc a) = 0" "in_flight c"
  shows "c' = c \<or> c' = c\<lparr>chk_sent := chk_sent c + 1\<rparr>"
  using assms by (auto simp: strike_chunk_def dac_strike_def add_strike_def in_flight_def split: if_splits)

lemma strike_hit_ok:
  assumes q: "queue_ok F a" "k < len F" and cmt: "sctp_cmt_on_off (asoc_cc a) = 0" and c: "c = sent_queue a ! k" "in_flight c"
  shows "\<exists>b. strike_hit env sv k c a = Some b \<and> queue_ok F b"
proof -
  note at = queue_ok_at [OF q, folded c(1)]
  have v: "valid_net a (chk_whoTo c)" using at(3) by (simp add: sender_chunk_def)
  then obtain i where i: "chk_whoTo c = Some i" by (auto simp: valid_net_def split: option.splits)
  obtain n d where nd: "net_at (Some i) a = Some (n, d)" using v i valid_net_at by metis
  define skip where "skip = (saw_newack d = 0 \<or> SCTP_TSN_GT (tsn c) (this_sack_highest_newack d))"
  have sk: "sfr_skips c a = Some skip" by (simp add: sfr_skips_def i nd skip_def)
  have gt: "SCTP_TSN_GT (tsn c) (snd (snd F))" using at(4) c(2) by (simp add: settled_def in_flight_def datagram_states)
  obtain c' f where s: "strike_chunk env sv a c = (c', f)" by fastforce
  have cs: "c' = c \<or> c' = c\<lparr>chk_sent := chk_sent c + 1\<rparr>" by (rule strike_chunk_cases [OF s cmt c(2)])
  show ?thesis
  proof (cases "skip \<or> c' = c")
    case True
    have "chk_sent c \<noteq> SCTP_DATAGRAM_RESEND" using c(2) by (simp add: in_flight_def)
    moreover have "put_chunk k c a = a" using c(1) by (simp add: put_chunk_def)
    ultimately show ?thesis using True sk s q(1) by (auto simp: strike_hit_def)
  next
    case False
    then have c': "c' = c\<lparr>chk_sent := chk_sent c + 1\<rparr>" "\<not> skip" using cs by simp_all
    show ?thesis
    proof (cases "chk_sent c' = SCTP_DATAGRAM_RESEND")
      case True
      then have "c' = c\<lparr>chk_sent := SCTP_DATAGRAM_RESEND\<rparr>" using c'(1) by simp
      from strike_resend_ok [OF at(3,2) cmt c(2) this, of env sv f] obtain c'' b where
        b: "strike_resend env sv k c' f (put_chunk k c' a) = Some b" "step_ok c c'' a b" "sent_queue b = (sent_queue a)[k := c'']" by blast
      have "settled (snd (snd F)) c''" using gt b(2) by (simp add: settled_def step_ok_def kept_def)
      with queue_ok_update [OF q _ _ b(3)] b(2) c(1) have "queue_ok F b" by simp
      with b(1) c'(2) sk s True show ?thesis by (auto simp: strike_hit_def)
    next
      case no: False
      have "chk_sent c + 1 < SCTP_DATAGRAM_RESEND" "SCTP_DATAGRAM_UNSENT < chk_sent c" using c(2) no c'(1) at(3) by (simp_all add: in_flight_def sender_chunk_def)
      then have "step_ok c c' a (put_chunk k c' a)"
        using c'(1) at(3) c(2) by (auto simp: step_ok_def kept_def flight_step_def retran_step_def sender_chunk_def probe_ok_def known_state_def in_flight_def datagram_states put_chunk_def)
      moreover have "settled (snd (snd F)) c'" using gt c'(1) by (simp add: settled_def)
      ultimately have "queue_ok F (put_chunk k c' a)" using queue_ok_update [OF q, of c' "put_chunk k c' a"] c(1) by simp
      with c'(2) sk s no show ?thesis by (auto simp: strike_hit_def)
    qed
  qed
qed

lemma strike_step_ok:
  assumes q: "queue_ok F a" "k < len F" and cmt: "sctp_cmt_on_off (asoc_cc a) = 0"
  shows "\<exists>g b. strike_step env sv k a = Some (g, b) \<and> queue_ok F b"
proof -
  define c where "c = sent_queue a ! k"
  note at = queue_ok_at [OF q, folded c_def]
  have "\<not> PR_SCTP_TTL_ENABLED (pr_flags c)" using at(3) no_policy by (simp add: sender_chunk_def)
  moreover have "queue_ok F (put_chunk k (c\<lparr>fwd_tsn_cnt := fwd_tsn_cnt c + 1\<rparr>) a)" if "chk_sent c = SCTP_FORWARD_TSN_SKIP"
    by (rule queue_ok_update [OF q]) (use that at(4) in \<open>simp_all add: c_def [symmetric] step_ok_def kept_def flight_step_def retran_step_def settled_def
        probe_ok_def known_state_def in_flight_def datagram_states put_chunk_def\<close>)
  moreover have "\<exists>b. strike_hit env sv k c a = Some b \<and> queue_ok F b" if "in_flight c"
    by (rule strike_hit_ok [OF q cmt c_def that])
  ultimately show ?thesis using q(1) at(1) by (auto simp: strike_step_def in_flight_def) (rule exI [of _ True], simp)+
qed

lemma strike_loop_ok:
  "queue_ok F a \<Longrightarrow> at_ok F p \<Longrightarrow> sctp_cmt_on_off (asoc_cc a) = 0 \<Longrightarrow> \<exists>b. strike_loop env sv p a = Some b \<and> queue_ok F b"
proof (induction env sv p a rule: strike_loop.induct)
  case (2 env sv k a)
  have k: "k < len F" using "2.prems"(2) by (simp add: at_ok_def)
  from strike_step_ok [OF "2.prems"(1) k "2.prems"(3)] obtain g b where b: "strike_step env sv k a = Some (g, b)" "queue_ok F b" by blast
  then have "sctp_cmt_on_off (asoc_cc b) = 0" using "2.prems"(1,3) fixed_cmt [of b a] by (simp add: queue_ok_def)
  with "2.IH" [OF b(1) refl _ b(2) at_ok_next [OF b(2)]] b show ?case by (cases g) (auto simp: strike_loop.simps)
qed (simp add: strike_loop.simps)

lemma strike_ok:
  assumes "queue_ok F a" "sctp_cmt_on_off (asoc_cc a) = 0"
  shows "\<exists>b. sctp_strike_gap_ack_chunks env biggest biggest_new lowest moved a = Some b \<and> queue_ok F b"
  unfolding sctp_strike_gap_ack_chunks_def by (rule strike_loop_ok [OF assms(1) at_ok_first [OF assms(1)] assms(2)])

section \<open>Congestion control after a fast retransmission\<close>

lemma for_nets_total:
  assumes "P a" "\<And>a n. P a \<Longrightarrow> \<exists>g a' n'. f a n = Some (g, a', n') \<and> P a' \<and> h n' = h n"
  shows "\<exists>a' ns'. for_nets f ns a = Some (a', ns') \<and> P a' \<and> map h ns' = map h ns"
  using assms(1)
proof (induction ns arbitrary: a)
  case (Cons n ns)
  from assms(2) [OF Cons.prems] obtain g a1 n1 where 1: "f a n = Some (g, a1, n1)" "P a1" "h n1 = h n" by blast
  from Cons.IH [OF 1(2)] obtain a2 ns2 where "for_nets f ns a1 = Some (a2, ns2)" "P a2" "map h ns2 = map h ns" by blast
  with 1 show ?case by (cases g) auto
qed simp

lemma enforce_flight [simp]: "flight_size (sctp_enforce_cwnd_limit a n) = flight_size n"
  by (simp add: sctp_enforce_cwnd_limit_def Let_def)

lemma after_fr_total:
  assumes "sctp_cmt_on_off a = 0"
  shows "\<exists>b. cc_after_fr env SCTP_CC_RFC2581 a = Some b \<and> sctp_cmt_on_off b = 0 \<and> sending_seq b = sending_seq a \<and>
    map flight_size (nets b) = map flight_size (nets a)"
proof -
  let ?P = "\<lambda>b. sctp_cmt_on_off b = 0 \<and> sending_seq b = sending_seq a"
  let ?f = "fr_body (fr_reduce (total_ssthresh a) (total_cwnd a) (at_least_1 (fr_bandwidth a)))"
  have red: "\<exists>n'. fr_reduce x y z b n = Some n' \<and> flight_size n' = flight_size n" if "?P b" for x y z b n
    using that no_pooling(1) [of b] by (simp add: fr_reduce_def Let_def)
  have "\<exists>g b' n'. ?f b n = Some (g, b', n') \<and> ?P b' \<and> flight_size n' = flight_size n" if "?P b" for b n
    using that red [OF that, of "total_ssthresh a" "total_cwnd a" "at_least_1 (fr_bandwidth a)" n]
    by (auto simp: fr_body_def enter_recovery_def cc_emit_def Let_def)
  from for_nets_total [of ?P a ?f flight_size "nets a", OF _ this] assms show ?thesis
    by (auto simp: cc_after_fr_def sctp_cwnd_update_after_fr_def foreach_net_def)
qed

section \<open>Loops over the destinations\<close>

interpretation newack: dest_loop "newack_dest t" "\<lambda>k a. view a = V"
  by unfold_locales (auto simp: newack_dest_def view_put_net)

interpretation cancel: dest_loop "cancel_dest moved" "\<lambda>k a. view a = V"
  by unfold_locales (auto simp: cancel_dest_def stop_timer_def view_put_net)

interpretation forget: dest_loop forget_ack_dest "\<lambda>k a. view a = V"
  by unfold_locales (auto simp: forget_ack_dest_def view_put_net)

interpretation recovered: dest_loop exit_recovery_dest "\<lambda>k a. view a = V"
  by unfold_locales (auto simp: exit_recovery_dest_def view_put_net)

lemma empty_emit [simp]: "empty_upto F q r k (snd_emit es a) = empty_upto F q r k a"
  by (simp add: empty_upto_def) (simp add: snd_emit_def)

interpretation quiet: dest_loop quiet_dest "empty_upto F q r"
  by unfold_locales (auto simp: quiet_dest_def stop_timer_def intro!: empty_step)

lemma quiet_ok:
  assumes "good a []"
  shows "\<exists>b. foreach_dest quiet_dest a = Some b \<and> fixed b = fixed a \<and> sent_queue b = sent_queue a \<and> sent_queue_retran_cnt b = sent_queue_retran_cnt a \<and>
    good (b\<lparr>total_flight := 0, total_flight_count := 0\<rparr>) [] \<and> timers_ok (b\<lparr>total_flight := 0, total_flight_count := 0\<rparr>)"
proof -
  have "empty_upto (fixed a) (sent_queue a) (sent_queue_retran_cnt a) 0 a" by (simp add: empty_upto_def)
  from quiet.all_ok [OF _ this] assms obtain b where b: "foreach_dest quiet_dest a = Some b"
    "empty_upto (fixed a) (sent_queue a) (sent_queue_retran_cnt a) (length (dests a)) b" "shape b = shape a" by (auto simp: good_def books_ok_def snd_ok_def)
  let ?b = "b\<lparr>total_flight := 0, total_flight_count := 0\<rparr>"
  have z: "flight_size (nets (asoc_cc b) ! i) = 0" if "i < length (nets (asoc_cc b))" for i
    using b(2,3) that assms by (auto simp: empty_upto_def shape_def good_def books_ok_def snd_ok_def)
  have "good ?b []" using b(2,3) z assms
    by (auto simp: good_def books_ok_def flight_ok_def flight_of_def snd_ok_def shape_def retran_ok_def empty_upto_def)
  moreover have "timers_ok ?b" using z by (simp add: timers_ok_def)
  ultimately show ?thesis using b(1,2) by (auto simp: empty_upto_def)
qed

lemma slow_idle_ok:
  assumes "good a (sent_queue a)"
  shows "\<exists>b. slow_idle a = Some b \<and> good b (sent_queue b) \<and> fixed b = fixed a \<and> sent_queue b = sent_queue a \<and> (sent_queue a = [] \<longrightarrow> timers_ok b)"
proof (cases "sent_queue a = []")
  case True
  from quiet_ok [of a] assms True show ?thesis by (auto simp: slow_idle_def)
qed (use assms in \<open>simp add: slow_idle_def\<close>)

interpretation slow: timer_body slow_timer
proof
  fix a k
  assume v: "valid_net a (Some k)"
  then have k: "k < length (nets (asoc_cc a))" "k < length (dests a)" by (simp_all add: valid_net_def)
  then have nd: "net_at (Some k) a = Some (nets (asoc_cc a) ! k, dests a ! k)" by (simp add: net_at_def)
  have put: "counters (put_net (Some k) (nets (asoc_cc a) ! k) d a) = counters a" for d by (rule put_net_same [OF nd refl])
  have ds: "dests (put_net (Some k) n d a) = (dests a)[k := d]" for n d by (simp add: put_net_def)
  show "\<exists>busy b. slow_timer k a = Some (busy, b) \<and> counters b = counters a \<and> fixed b = fixed a \<and> sent_queue b = sent_queue a \<and>
    sent_queue_retran_cnt b = sent_queue_retran_cnt a \<and> (\<forall>i. i \<noteq> k \<longrightarrow> dests b ! i = dests a ! i) \<and> (flights a ! k \<noteq> 0 \<longrightarrow> rxt_pending (dests b ! k))"
    using k by (auto simp: slow_timer_def nd Let_def put ds) (auto simp: snd_emit_def ds)
qed

section \<open>The end of the handler\<close>

lemma probe_back_sender: "sender_chunk a c \<Longrightarrow> sender_chunk a (probe_back c)"
  by (simp add: probe_back_def sender_chunk_def probe_ok_def known_state_def datagram_states)

lemma probed_sender: "probed p q \<Longrightarrow> list_all (sender_chunk a) p \<Longrightarrow> list_all (sender_chunk a) q"
  unfolding probed_def by (induction rule: list_all2_induct) (auto simp: probe_back_sender)

lemma good_books: "good a (sent_queue a) \<Longrightarrow> books_ok a"
  by (simp add: good_def)

lemma fr_view:
  assumes "length (dests a) = length (nets (asoc_cc a))" "map flight_size (nets cc) = flights a" "sctp_cmt_on_off cc = sctp_cmt_on_off (asoc_cc a)"
    "sending_seq cc = sending_seq (asoc_cc a)"
  shows "view ((fr_timers old cc a)\<lparr>asoc_cc := (if x then cc\<lparr>fast_retran_loss_recovery := 0\<rparr> else cc)\<rparr>) = view a"
proof -
  have "length (nets cc) = length (nets (asoc_cc a))" using assms(2) by (metis length_map)
  then show ?thesis using assms by (simp add: view_def fixed_def shape_def counters_def fr_timers_def)
qed

lemma slow_finish_ok:
  assumes q: "queue_ok F a" and cc: "snd_module a = SCTP_CC_RFC2581" "sctp_cmt_on_off (asoc_cc a) = 0" "reliable a"
  shows "\<exists>b. slow_finish env gaps flags t rwnd old big moved will_exit v a = Some b \<and> good b (sent_queue b) \<and> timers_ok b \<and> fixed b = fixed a \<and>
    map tsn (sent_queue b) = map tsn (sent_queue a)"
proof -
  have len: "length (dests a) = length (nets (asoc_cc a))" using q by (simp add: queue_ok_def good_def books_ok_def snd_ok_def)
  from forget.all_ok [OF len refl] obtain a1 where a1: "foreach_dest forget_ack_dest a = Some a1" "view a1 = view a" by blast
  have q1: "queue_ok F a1" by (rule queue_ok_view [OF q a1(2)])
  have f1: "fixed a1 = fixed a" using a1(2) by (simp add: view_def)
  define lowest where "lowest = (if sctp_cmt_on_off (asoc_cc a1) > 0 \<and> cmt_use_dac env \<noteq> 0 \<and> flags AND SCTP_SACK_CMT_DAC = 0 then t else this_sack_lowest_newack v)"
  have "\<exists>b. (if gaps then sctp_strike_gap_ack_chunks env big (biggest_newly_acked_tsn v) lowest moved a1 else Some a1) = Some b \<and> queue_ok F b"
    using strike_ok [OF q1] q1 fixed_cmt [OF f1] cc(2) by simp
  then obtain a2 where a2: "(if gaps then sctp_strike_gap_ack_chunks env big (biggest_newly_acked_tsn v) lowest moved a1 else Some a1) = Some a2" "queue_ok F a2" by blast
  have f: "fixed a2 = fixed a" using a2(2) q by (simp add: queue_ok_def)
  have f2: "snd_module a2 = SCTP_CC_RFC2581" "sctp_cmt_on_off (cc_of a2) = 0" "length (dests a2) = length (nets (asoc_cc a2))"
    using f cc(1,2) a2(2) by (simp_all add: fixed_def cc_of_def queue_ok_def good_def books_ok_def snd_ok_def)
  from after_fr_total [OF f2(2), of "env_cc env"] obtain c where c: "cc_after_fr (env_cc env) SCTP_CC_RFC2581 (cc_of a2) = Some c"
    "sctp_cmt_on_off c = 0" "sending_seq c = sending_seq (cc_of a2)" "map flight_size (nets c) = map flight_size (nets (cc_of a2))" by blast
  define a3 where "a3 = (fr_timers (asoc_cc a2) c a2)\<lparr>asoc_cc := (if will_exit then c\<lparr>fast_retran_loss_recovery := 0\<rparr> else c)\<rparr>"
  have v3: "view a3 = view a2" unfolding a3_def by (rule fr_view) (use f2 c in \<open>simp_all add: cc_of_def\<close>)
  define a4 where "a4 = (if sat_t3_loss_recovery a3 \<noteq> 0 \<and> SCTP_TSN_GE (last_acked_seq a3) (sat_t3_recovery_tsn a3) then a3\<lparr>sat_t3_loss_recovery := 0\<rparr> else a3)"
  have v4: "view a4 = view a2" using v3 by (simp add: a4_def) (simp add: view_def fixed_def shape_def counters_def)
  have q4: "queue_ok F a4" by (rule queue_ok_view [OF a2(2) v4])
  then have "length (dests a4) = length (nets (asoc_cc a4))" by (simp add: queue_ok_def good_def books_ok_def snd_ok_def)
  from recovered.all_ok [OF this refl] obtain a5 where a5: "foreach_dest exit_recovery_dest a4 = Some a5" "view a5 = view a4" by blast
  define a6 where "a6 = set_peers_rwnd env rwnd a5"
  have q6: "queue_ok F a6" by (rule queue_ok_view [OF q4]) (simp add: a6_def a5(2))
  from slow.assure_ok [OF good_books, of a6 "peers_rwnd (asoc_cc a6) > old"] q6 obtain a7 where a7: "assure_timers slow_timer (peers_rwnd (asoc_cc a6) > old) a6 = Some a7"
    "books_ok a7" "timers_ok a7" "fixed a7 = fixed a6" "probed (sent_queue a6) (sent_queue a7)" by (auto simp: queue_ok_def)
  have r7: "reliable a7" using cc(3) reliable_fixed [of a7 a] a7(4) q6 q by (simp add: queue_ok_def)
  from pr_issues_ok [OF a7(2,3) r7, of env t] obtain b where b: "pr_issues env t a7 = Some b" "books_ok b" "timers_ok b" "fixed b = fixed a7" "sent_queue b = sent_queue a7" by blast
  have "slow_finish env gaps flags t rwnd old big moved will_exit v a = Some b"
    unfolding slow_finish_def a1(1) Option.bind.simps Let_def lowest_def [symmetric] a2(1) f2(1) c(1) a3_def [symmetric] a4_def [symmetric] a5(1) a6_def [symmetric] a7(1) by (rule b(1))
  moreover have "fixed b = fixed a" using b(4) a7(4) q6 q by (simp add: queue_ok_def)
  moreover have "map tsn (sent_queue b) = map tsn (sent_queue a)" using b(5) probed_tsns [OF a7(5)] q6 q by (simp add: queue_ok_def)
  moreover have "list_all (sender_chunk b) (sent_queue b)"
    using probed_sender [OF a7(5), of b] sender_chunk_fixed [of b a6] b(4,5) a7(4) q6 by (simp add: queue_ok_def good_def)
  then have "good b (sent_queue b)" using b(2) by (simp add: good_def)
  ultimately show ?thesis using b(3) by blast
qed

section \<open>The order of the queue\<close>

text \<open>A cumulative TSN that is neither behind the last one nor beyond what was sent lies in the window of the queue.\<close>

lemma cum_window:
  assumes "tsn_sorted u q" "q \<noteq> []" "\<not> SCTP_TSN_GE t (tsn (last q) + 1)" "\<not> SCTP_TSN_GT u t"
  shows "ahead u t < 2 ^ 31"
proof (rule ccontr)
  assume far: "\<not> ahead u t < 2 ^ 31"
  have l: "ahead u (tsn (last q)) < 2 ^ 31" using assms(1,2) by (simp add: tsn_sorted_def list_all_iff)
  have "ahead u t < 2 ^ 32" unfolding ahead_def using unsigned_less [of "t - u"] by simp
  have ut: "unat (u - t) = 2 ^ 32 - ahead u t" using far \<open>ahead u t < 2 ^ 32\<close> unat_diff_cases [of 0 "t - u"] by (auto simp: ahead_def split: if_splits)
  have "ahead u t = 2 ^ 31"
  proof (rule ccontr)
    assume "ahead u t \<noteq> 2 ^ 31"
    then have "unat (u - t) < 2 ^ 31" "u \<noteq> t" using far ut \<open>ahead u t < 2 ^ 32\<close> by auto
    then show False using assms(4) by (simp add: SCTP_UINT32_GT_iff)
  qed
  have e: "t - (tsn (last q) + 1) = (t - u) - (tsn (last q) - u) - 1" by simp
  have "unat ((t - u) - (tsn (last q) - u)) = 2 ^ 31 - ahead u (tsn (last q))"
    using l \<open>ahead u t = 2 ^ 31\<close> unat_diff_cases [of "t - u" "tsn (last q) - u"] by (simp add: ahead_def)
  then have "unat (t - (tsn (last q) + 1)) = 2 ^ 31 - ahead u (tsn (last q)) - 1"
    using l unat_diff_cases [of "(t - u) - (tsn (last q) - u)" 1] unfolding e by simp
  then have "unat (t - (tsn (last q) + 1)) < 2 ^ 31" by simp
  then have "SCTP_TSN_GE t (tsn (last q) + 1)" using SCTP_UINT32_GT_iff [of t "tsn (last q) + 1"] by (auto simp: SCTP_UINT32_GE_def SCTP_UINT32_GT_def)
  with assms(3) show False by simp
qed

lemma ahead_shift:
  assumes "ahead u t < ahead u x" "ahead u x < 2 ^ 31"
  shows "ahead t x = ahead u x - ahead u t"
proof -
  have "x - t = (x - u) - (t - u)" by simp
  then show ?thesis using assms unat_diff_cases [of "x - u" "t - u"] by (simp add: ahead_def)
qed

text \<open>What remains above the new cumulative TSN is sorted as seen from it.\<close>

lemma sorted_above:
  assumes "tsn_sorted u q" "ahead u t < 2 ^ 31"
  shows "tsn_sorted t (filter (\<lambda>c. SCTP_TSN_GT (tsn c) t) q)"
proof -
  have w: "ahead u (tsn c) < 2 ^ 31" if "c \<in> set q" for c using assms(1) that by (simp add: tsn_sorted_def list_all_iff)
  have g: "ahead t (tsn c) = ahead u (tsn c) - ahead u t" "ahead u t < ahead u (tsn c)" if "c \<in> set q" "SCTP_TSN_GT (tsn c) t" for c
    using ahead_shift [of u t "tsn c"] GT_ahead [OF w [OF that(1)] assms(2)] that w by auto
  have "sorted_wrt (\<lambda>x y. ahead u (tsn x) < ahead u (tsn y)) (filter (\<lambda>c. SCTP_TSN_GT (tsn c) t) q)"
    using assms(1) by (simp add: tsn_sorted_def sorted_wrt_filter)
  then have "sorted_wrt (\<lambda>x y. ahead t (tsn x) < ahead t (tsn y)) (filter (\<lambda>c. SCTP_TSN_GT (tsn c) t) q)"
  proof (rule sorted_wrt_mono_rel [rotated])
    fix x y assume "x \<in> set (filter (\<lambda>c. SCTP_TSN_GT (tsn c) t) q)" "y \<in> set (filter (\<lambda>c. SCTP_TSN_GT (tsn c) t) q)" "ahead u (tsn x) < ahead u (tsn y)"
    then show "ahead t (tsn x) < ahead t (tsn y)" using g [of x] g [of y] by simp
  qed
  moreover have "ahead t (tsn c) < 2 ^ 31" if "c \<in> set q" "SCTP_TSN_GT (tsn c) t" for c using g [OF that] w [OF that(1)] by linarith
  ultimately show ?thesis by (auto simp: tsn_sorted_def list_all_iff)
qed

lemma tsn_sorted_map: "map tsn p = map tsn q \<Longrightarrow> tsn_sorted u p = tsn_sorted u q"
proof -
  have "tsn_sorted u q \<longleftrightarrow> sorted_wrt (\<lambda>x y. ahead u x < ahead u y) (map tsn q) \<and> list_all (\<lambda>x. ahead u x < 2 ^ 31) (map tsn q)" for q
    by (simp add: tsn_sorted_def sorted_wrt_map list.pred_map comp_def)
  then show "map tsn p = map tsn q \<Longrightarrow> tsn_sorted u p = tsn_sorted u q" by simp
qed

section \<open>The invariant of a sender\<close>

text \<open>
  The books are right, every destination with data in flight has its timer running, and the sent queue is sorted within half of the number space above
  the last cumulative TSN. The standard congestion control without concurrent multipath transfer is in use, and no message of limited
  reliability is queued.
\<close>

definition sender_ok :: "snd_asoc \<Rightarrow> bool" where
  "sender_ok a \<longleftrightarrow> good a (sent_queue a) \<and> timers_ok a \<and> tsn_sorted (last_acked_seq a) (sent_queue a) \<and>
     list_all (\<lambda>c. SCTP_TSN_GT (tsn c) (last_acked_seq a)) (sent_queue a) \<and> reliable a \<and>
     snd_module a = SCTP_CC_RFC2581 \<and> sctp_cmt_on_off (asoc_cc a) = 0"

lemma good_shape:
  assumes "good a q" "shape b = shape a" "counters b = counters a" "sent_queue_retran_cnt b = sent_queue_retran_cnt a"
  shows "good b q"
proof -
  have "books_ok (b\<lparr>sent_queue := q\<rparr>) = books_ok (a\<lparr>sent_queue := q\<rparr>)"
    by (rule books_ok_cong) (use assms in \<open>simp_all add: shape_def counters_def\<close>)
  moreover have "sender_chunk b = sender_chunk a"
    by (rule ext) (use assms(2) in \<open>simp add: sender_chunk_def valid_net_def shape_def split: option.split\<close>)
  ultimately show ?thesis using assms(1) by (simp add: good_def)
qed

lemma settled_marked:
  assumes "q = [] \<or> tsn_sorted u q \<and> ahead u t < 2 ^ 31"
  shows "list_all (settled t) (map slow_mark (takeWhile (\<lambda>c. SCTP_TSN_GE t (tsn c)) q) @ dropWhile (\<lambda>c. SCTP_TSN_GE t (tsn c)) q)"
proof (cases "q = []")
  case False
  then have d: "dropWhile (\<lambda>c. SCTP_TSN_GE t (tsn c)) q = filter (\<lambda>c. SCTP_TSN_GT (tsn c) t) q" using assms dropWhile_sorted by blast
  have m: "settled t (slow_mark c)" for c by (simp add: settled_def slow_mark_def Let_def datagram_states)
  have "list_all (settled t) (filter (\<lambda>c. SCTP_TSN_GT (tsn c) t) q)" by (simp add: list_all_iff settled_def)
  with m show ?thesis by (auto simp: d list_all_iff)
qed simp

lemma slow_mark_tsn [simp]: "tsn (slow_mark c) = tsn c"
  by (simp add: slow_mark_def Let_def)

text \<open>The first half: chunks are acknowledged by the cumulative TSN and by the gap blocks.\<close>

lemma slow_marking_ok:
  assumes g: "good a (sent_queue a)" and w: "sent_queue a = [] \<or> tsn_sorted u (sent_queue a) \<and> ahead u t < 2 ^ 31"
  shows "\<exists>a1 q moved v a2 big freed v' b. foreach_dest (prepare_dest env t) a = Some a1 \<and>
    slow_loop now t (sent_queue a1) False v0 a1 = Some (q, moved, v, a2) \<and>
    slow_gaps env m off t num nr_num v (a2\<lparr>sent_queue := q, this_sack_highest_gap := t\<rparr>) = Some (big, freed, v', b) \<and>
    queue_ok (fixed a, map tsn (sent_queue a), t) b"
proof -
  let ?P = "\<lambda>c. SCTP_TSN_GE t (tsn c)" and ?F = "(fixed a, map tsn (sent_queue a), t)"
  have len: "length (dests a) = length (nets (asoc_cc a))" using g by (simp add: good_def books_ok_def snd_ok_def)
  from prepare.all_ok [OF len conjI [OF refl refl], of env t] obtain a1 where a1: "foreach_dest (prepare_dest env t) a = Some a1" "view a1 = view a" by blast
  have s1: "sent_queue a1 = sent_queue a" "fixed a1 = fixed a" using a1(2) by (simp_all add: view_def)
  define q where "q = map slow_mark (takeWhile ?P (sent_queue a)) @ dropWhile ?P (sent_queue a)"
  have "good a1 ([] @ sent_queue a)" using good_view [OF g a1(2)] by simp
  from slow_loop_ok [OF this, of now t False v0] obtain moved v a2 where a2: "slow_loop now t (sent_queue a1) False v0 a1 = Some (q, moved, v, a2)"
    "good a2 q" "fixed a2 = fixed a1" by (auto simp: q_def s1(1))
  let ?a3 = "a2\<lparr>sent_queue := q, this_sack_highest_gap := t\<rparr>"
  have "good ?a3 q" by (rule good_fixed [OF a2(2)]) (simp_all add: fixed_def shape_def counters_def)
  moreover have "map tsn q = map tsn (sent_queue a)" using map_append [of tsn "takeWhile ?P (sent_queue a)" "dropWhile ?P (sent_queue a)"] by (simp add: q_def comp_def)
  moreover have "fixed ?a3 = fixed a" using a2(3) s1(2) by (simp add: fixed_def shape_def)
  ultimately have q3: "queue_ok ?F ?a3" using settled_marked [OF w] by (simp add: queue_ok_def q_def)
  then have len3: "length (dests ?a3) = length (nets (asoc_cc ?a3))" by (simp add: queue_ok_def good_def books_ok_def snd_ok_def)
  from newack.all_ok [OF len3 refl] obtain a4 where a4: "foreach_dest (newack_dest t) ?a3 = Some a4" "view a4 = view ?a3" by blast
  from segments_queue_ok [OF queue_ok_view [OF q3 a4(2)], of "cc_now (env_cc env)" m off t t num nr_num "v\<lparr>biggest_newly_acked_tsn := t\<rparr>"] obtain p v' b where
    b: "sctp_handle_segments (cc_now (env_cc env)) m off t t num nr_num (v\<lparr>biggest_newly_acked_tsn := t\<rparr>) a4 = Some (p, v', b)" "queue_ok ?F b" by blast
  have "\<exists>big freed v' b. slow_gaps env m off t num nr_num v ?a3 = Some (big, freed, v', b) \<and> queue_ok ?F b"
  proof (cases "num > 0 \<or> nr_num > 0")
    case True
    then have "slow_gaps env m off t num nr_num v ?a3 = Some (biggest_tsn_acked p, chunk_freed p, v', b)" using b(1) a4(1) by (simp add: slow_gaps_def)
    with b(2) show ?thesis by blast
  next
    case False
    then have "slow_gaps env m off t num nr_num v ?a3 = Some (t, False, v\<lparr>biggest_newly_acked_tsn := t\<rparr>, ?a3)" by (simp add: slow_gaps_def)
    with q3 show ?thesis by blast
  qed
  with a1(1) a2(1) show ?thesis by blast
qed

text \<open>The second half.\<close>

lemma dropWhile_above:
  fixes p q :: "data_chunk list"
  assumes "map tsn p = map tsn q" "q = [] \<or> tsn_sorted u q \<and> ahead u t < 2 ^ 31"
  shows "map tsn (dropWhile (\<lambda>c. \<not> SCTP_TSN_GT (tsn c) t) p) = filter (\<lambda>x. SCTP_TSN_GT x t) (map tsn q)"
proof (cases "q = []")
  case False
  then have s: "tsn_sorted u p" "ahead u t < 2 ^ 31" using assms tsn_sorted_map [OF assms(1)] by simp_all
  have "SCTP_TSN_GE t (tsn c) = (\<not> SCTP_TSN_GT (tsn c) t)" if "c \<in> set p" for c
    by (rule GE_ahead [OF s(2)]) (use s(1) that in \<open>simp add: tsn_sorted_def list_all_iff\<close>)
  then have "dropWhile (\<lambda>c. \<not> SCTP_TSN_GT (tsn c) t) p = dropWhile (\<lambda>c. SCTP_TSN_GE t (tsn c)) p" by (intro dropWhile_cong) simp_all
  then show ?thesis using dropWhile_sorted [OF s] assms(1) by (simp add: filter_map comp_def flip: assms(1))
qed (use assms in simp)

lemma all_above_settled: "map tsn q = filter (\<lambda>x. SCTP_TSN_GT x t) xs \<Longrightarrow> list_all (settled t) q"
proof -
  assume "map tsn q = filter (\<lambda>x. SCTP_TSN_GT x t) xs"
  then have "set (map tsn q) \<subseteq> {x. SCTP_TSN_GT x t}" by auto
  then show ?thesis by (auto simp: list_all_iff settled_def)
qed

lemma slow_grow_ok:
  assumes "good a (sent_queue a)" "snd_module a = SCTP_CC_RFC2581" "sctp_cmt_on_off (asoc_cc a) = 0"
  shows "\<exists>b. slow_grow env ecne moved will_exit a = Some b \<and> view b = view a"
  using grow_step [OF refl assms(2,3) good_books [OF assms(1)], where env = env and accum = moved and will_exit = will_exit] by (simp add: slow_grow_def)

lemma no_flight_left:
  assumes "good a (sent_queue a)" "sent_queue a = []"
  shows "total_flight a = 0"
  using assms by (simp add: good_def books_ok_def flight_ok_def flight_of_def unat_eq_zero)

lemma slow_rest_ok:
  assumes q: "queue_ok (F, map tsn q, t) a" and w: "q = [] \<or> tsn_sorted u q \<and> ahead u t < 2 ^ 31"
    and cc: "snd_module a = SCTP_CC_RFC2581" "sctp_cmt_on_off (asoc_cc a) = 0" "reliable a"
  shows "\<exists>ab b. slow_rest env num nr_num flags t rwnd old ecne moved big freed v a = Some (ab, b) \<and> good b (sent_queue b) \<and> timers_ok b \<and>
    fixed b = fixed (a\<lparr>last_acked_seq := t\<rparr>) \<and> map tsn (sent_queue b) = filter (\<lambda>x. SCTP_TSN_GT x t) (map tsn q)"
proof -
  let ?above = "filter (\<lambda>x. SCTP_TSN_GT x t) (map tsn q)" and ?F = "fixed (a\<lparr>last_acked_seq := t\<rparr>)"
  have len: "length (dests a) = length (nets (asoc_cc a))" using q by (simp add: queue_ok_def good_def books_ok_def snd_ok_def)
  from cancel.all_ok [OF len refl] obtain a1 where a1: "foreach_dest (cancel_dest moved) a = Some a1" "view a1 = view a" by blast
  have q1: "queue_ok (F, map tsn q, t) a1" by (rule queue_ok_view [OF q a1(2)])
  have "good (a1\<lparr>last_acked_seq := t\<rparr>) (sent_queue a1)"
    by (rule good_shape [of a1]) (use q1 in \<open>simp_all add: queue_ok_def shape_def counters_def\<close>)
  moreover have "list_all (settled t) (sent_queue a1)" using q1 by (simp add: queue_ok_def)
  ultimately obtain wake a2 where a2: "drop_loop t (sent_queue a1) freed (a1\<lparr>last_acked_seq := t\<rparr>) = Some (wake, a2)"
    "sent_queue a2 = dropWhile (\<lambda>c. \<not> SCTP_TSN_GT (tsn c) t) (sent_queue a1)" "good a2 (sent_queue a2)" "fixed a2 = fixed (a1\<lparr>last_acked_seq := t\<rparr>)"
    using drop_loop_ok by blast
  have f2: "fixed a2 = ?F" using a2(4) a1(2) by (simp add: view_def fixed_def shape_def)
  have t2: "map tsn (sent_queue a2) = ?above" unfolding a2(2) by (rule dropWhile_above [OF _ w]) (use q1 in \<open>simp add: queue_ok_def\<close>)
  have e2: "(if sent_queue a2 = [] \<and> total_flight a2 > 0 then a2\<lparr>total_flight := 0\<rparr> else a2) = a2" using no_flight_left [OF a2(3)] by auto
  define a3 where "a3 = wake_user None wake a2"
  have v3: "view a3 = view a2" by (simp add: a3_def)
  have g3: "good a3 (sent_queue a3)" "fixed a3 = ?F" "map tsn (sent_queue a3) = ?above"
    using good_view [OF a2(3) v3] v3 f2 t2 by (simp_all add: view_def)
  define will_exit where "will_exit = (fast_retran_loss_recovery (asoc_cc a3) \<noteq> 0 \<and> moved \<and> SCTP_TSN_GE (last_acked_seq a3) (fast_recovery_tsn (asoc_cc a3)))"
  from slow_revoked_ok [OF g3(1), of num t big] obtain a4 where a4: "slow_revoked num t big a3 = Some a4" "good a4 (sent_queue a4)" "fixed a4 = fixed a3"
    "map tsn (sent_queue a4) = map tsn (sent_queue a3)" by blast
  define a5 where "a5 = a4\<lparr>saw_sack_with_nr_frags := (if nr_num > 0 then 1 else 0)\<rparr>"
  have v5: "view a5 = view a4" by (simp add: a5_def view_def fixed_def shape_def counters_def)
  have g5: "good a5 (sent_queue a5)" "fixed a5 = ?F" "map tsn (sent_queue a5) = ?above" using good_view [OF a4(2) v5] v5 a4(3,4) g3 by (simp_all add: view_def)
  then have "snd_module a5 = SCTP_CC_RFC2581" "sctp_cmt_on_off (asoc_cc a5) = 0" using cc by (simp_all add: fixed_def)
  from slow_grow_ok [OF g5(1) this, of env ecne moved will_exit] obtain a6 where a6: "slow_grow env ecne moved will_exit a5 = Some a6" "view a6 = view a5" by blast
  have g6: "good a6 (sent_queue a6)" "fixed a6 = ?F" "map tsn (sent_queue a6) = ?above" using good_view [OF g5(1) a6(2)] a6(2) g5 by (simp_all add: view_def)
  from slow_idle_ok [OF g6(1)] obtain a7 where a7: "slow_idle a6 = Some a7" "good a7 (sent_queue a7)" "fixed a7 = fixed a6" "sent_queue a7 = sent_queue a6"
    "sent_queue a6 = [] \<longrightarrow> timers_ok a7" by blast
  obtain r a8 where a8: "(if snd_queue a7 = [] \<and> sent_queue a7 = [] then shutdown_issues env (plain_rwnd rwnd a7) else (Shutdown_none, a7)) = (r, a8)" by fastforce
  have v8: "view a8 = view a7 \<and> (r \<noteq> Shutdown_none \<longrightarrow> timers_ok a8)"
  proof (cases "snd_queue a7 = [] \<and> sent_queue a7 = []")
    case True
    have "view (plain_rwnd rwnd a7) = view a7" "timers_ok (plain_rwnd rwnd a7)" using a7(4,5) True by (auto simp: plain_rwnd_def timers_ok_def)
    then show ?thesis using True a8 view_shutdown [of env "plain_rwnd rwnd a7"] shutdown_dests [of env "plain_rwnd rwnd a7"] by (auto simp: timers_ok_def)
  qed (use a8 in auto)
  have g8: "good a8 (sent_queue a8)" "fixed a8 = ?F" "map tsn (sent_queue a8) = ?above"
    using good_view [OF a7(2) conjunct1 [OF v8]] v8 a7(3,4) g6 by (simp_all add: view_def)
  have body: "slow_rest env num nr_num flags t rwnd old ecne moved big freed v a = (case r of Shutdown_abort \<Rightarrow> Some (True, a8) | Shutdown_started \<Rightarrow> Some (False, a8)
      | Shutdown_none \<Rightarrow> do { a \<leftarrow> slow_finish env (num > 0 \<or> nr_num > 0) flags t rwnd old big moved will_exit v a8; Some (False, a) })"
    unfolding slow_rest_def a1(1) Option.bind.simps a2(1) prod.case Let_def e2 a3_def [symmetric] will_exit_def [symmetric] a4(1) a5_def [symmetric] a6(1) a7(1) a8 ..
  show ?thesis
  proof (cases r)
    case Shutdown_none
    have "queue_ok (?F, ?above, t) a8" using g8 all_above_settled [OF g8(3)] by (simp add: queue_ok_def)
    moreover have "snd_module a8 = SCTP_CC_RFC2581" "sctp_cmt_on_off (asoc_cc a8) = 0" "reliable a8" using g8(2) cc by (simp_all add: fixed_def reliable_def)
    ultimately obtain b where "slow_finish env (num > 0 \<or> nr_num > 0) flags t rwnd old big moved will_exit v a8 = Some b" "good b (sent_queue b)" "timers_ok b"
      "fixed b = fixed a8" "map tsn (sent_queue b) = map tsn (sent_queue a8)" using slow_finish_ok by blast
    moreover from this have "slow_rest env num nr_num flags t rwnd old ecne moved big freed v a = Some (False, b)" using body Shutdown_none by simp
    ultimately show ?thesis using g8(2,3) by (metis (full_types))
  next
    case Shutdown_started
    then have "slow_rest env num nr_num flags t rwnd old ecne moved big freed v a = Some (False, a8)" using body by simp
    then show ?thesis using g8 v8 Shutdown_started by blast
  next
    case Shutdown_abort
    then have "slow_rest env num nr_num flags t rwnd old ecne moved big freed v a = Some (True, a8)" using body by simp
    then show ?thesis using g8 v8 Shutdown_abort by blast
  qed
qed

section \<open>The handlers\<close>

lemma sender_window:
  assumes "sender_ok a" "\<not> SCTP_TSN_GE t (sent_end a)" "\<not> SCTP_TSN_GT (last_acked_seq a) t"
  shows "sent_queue a = [] \<or> tsn_sorted (last_acked_seq a) (sent_queue a) \<and> ahead (last_acked_seq a) t < 2 ^ 31"
  using cum_window [of "last_acked_seq a" "sent_queue a" t] assms by (cases "sent_queue a = []") (simp_all add: sender_ok_def sent_end_def)

lemma sender_ok_next:
  assumes a: "sender_ok a" and w: "sent_queue a = [] \<or> tsn_sorted u (sent_queue a) \<and> ahead u t < 2 ^ 31"
    and b: "good b (sent_queue b)" "timers_ok b" "fixed b = fixed (a\<lparr>last_acked_seq := t\<rparr>)"
      "map tsn (sent_queue b) = filter (\<lambda>x. SCTP_TSN_GT x t) (map tsn (sent_queue a))"
  shows "sender_ok b"
proof -
  have f: "reliable b" "snd_module b = SCTP_CC_RFC2581" "sctp_cmt_on_off (asoc_cc b) = 0" "last_acked_seq b = t"
    using a b(3) by (simp_all add: sender_ok_def fixed_def reliable_def)
  have "tsn_sorted t (sent_queue b)"
  proof (cases "sent_queue a = []")
    case True
    then show ?thesis using b(4) by (simp add: tsn_sorted_def)
  next
    case False
    then have "tsn_sorted t (filter (\<lambda>c. SCTP_TSN_GT (tsn c) t) (sent_queue a))" using w sorted_above by blast
    moreover have "map tsn (sent_queue b) = map tsn (filter (\<lambda>c. SCTP_TSN_GT (tsn c) t) (sent_queue a))" by (simp add: b(4) filter_map comp_def)
    ultimately show ?thesis using tsn_sorted_map by blast
  qed
  moreover have "set (map tsn (sent_queue b)) \<subseteq> {x. SCTP_TSN_GT x t}" by (auto simp: b(4))
  then have "list_all (\<lambda>c. SCTP_TSN_GT (tsn c) t) (sent_queue b)" by (auto simp: list_all_iff)
  ultimately show ?thesis using b f by (simp add: sender_ok_def)
qed

lemma slow_body_ok:
  assumes a: "sender_ok a" "\<not> SCTP_TSN_GE t (sent_end a)" "\<not> SCTP_TSN_GT (last_acked_seq a) t"
  shows "\<exists>ab b. slow_body env m off num nr_num flags t rwnd ecne a = Some (ab, b) \<and>
    (\<not> ab \<longrightarrow> sender_ok b \<and> last_acked_seq b = t \<and> map tsn (sent_queue b) = filter (\<lambda>x. SCTP_TSN_GT x t) (map tsn (sent_queue a)))"
proof -
  note w = sender_window [OF a]
  have g: "good a (sent_queue a)" using a(1) by (simp add: sender_ok_def)
  let ?v = "\<lparr>biggest_newly_acked_tsn = 0, this_sack_lowest_newack = 0, rto_ok = True, wake_him = 0\<rparr>"
  from slow_marking_ok [OF g w, of env "cc_now (env_cc env)" ?v m off num nr_num] obtain a1 q moved v a2 big freed v' a3 where
    s: "foreach_dest (prepare_dest env t) a = Some a1" "slow_loop (cc_now (env_cc env)) t (sent_queue a1) False ?v a1 = Some (q, moved, v, a2)"
    "slow_gaps env m off t num nr_num v (a2\<lparr>sent_queue := q, this_sack_highest_gap := t\<rparr>) = Some (big, freed, v', a3)"
    "queue_ok (fixed a, map tsn (sent_queue a), t) a3" by blast
  have f: "fixed a3 = fixed a" using s(4) by (simp add: queue_ok_def)
  then have cc: "snd_module a3 = SCTP_CC_RFC2581" "sctp_cmt_on_off (asoc_cc a3) = 0" "reliable a3"
    using a(1) reliable_fixed [OF f] by (simp_all add: sender_ok_def fixed_def)
  from slow_rest_ok [OF s(4) w cc, of env num nr_num flags rwnd "peers_rwnd (asoc_cc a)" ecne moved big freed v'] obtain ab b where
    b: "slow_rest env num nr_num flags t rwnd (peers_rwnd (asoc_cc a)) ecne moved big freed v' a3 = Some (ab, b)" "good b (sent_queue b)" "timers_ok b"
    "fixed b = fixed (a3\<lparr>last_acked_seq := t\<rparr>)" "map tsn (sent_queue b) = filter (\<lambda>x. SCTP_TSN_GT x t) (map tsn (sent_queue a))" by blast
  have fb: "fixed b = fixed (a\<lparr>last_acked_seq := t\<rparr>)" using b(4) f by (simp add: fixed_def shape_def)
  have "sender_ok b" by (rule sender_ok_next [OF a(1) w b(2,3) fb b(5)])
  moreover have "last_acked_seq b = t" using fb by (simp add: fixed_def)
  moreover have "slow_body env m off num nr_num flags t rwnd ecne a =
      (if (num > 0 \<or> nr_num > 0) \<and> SCTP_TSN_GE big (sent_end a) then hopeless_peer a3 else Some (ab, b))"
    unfolding slow_body_def Let_def s(1) Option.bind.simps s(2) prod.case s(3) b(1) ..
  ultimately show ?thesis using b(5) by (cases "(num > 0 \<or> nr_num > 0) \<and> SCTP_TSN_GE big (sent_end a)") (auto simp: hopeless_peer_def)
qed

lemma sender_ok_view: "sender_ok a \<Longrightarrow> view b = view a \<Longrightarrow> dests b = dests a \<Longrightarrow> sender_ok b"
  using good_view [of a "sent_queue a" b] reliable_fixed [of b a] map_eq_imp_length_eq [of flight_size "nets (asoc_cc b)" flight_size "nets (asoc_cc a)"]
  by (auto simp: sender_ok_def view_def timers_ok_upto timers_upto_def counters_def) (simp_all add: fixed_def)

lemma all_idle_ok:
  assumes "sender_ok a" "sent_queue a = []"
  shows "\<exists>b. all_idle rwnd a = Some b \<and> sender_ok b"
proof -
  let ?a = "(plain_rwnd rwnd a)\<lparr>sent_queue_retran_cnt := 0\<rparr>"
  have "view (plain_rwnd rwnd a) = view a" by (simp add: plain_rwnd_def)
  then have v: "fixed ?a = fixed a" "counters ?a = counters a" "sent_queue ?a = []" using assms(2) by (simp_all add: view_def)
  have "books_ok (?a\<lparr>sent_queue := []\<rparr>)" using assms v fixed_shape [OF v(1)]
    by (simp add: sender_ok_def good_def books_ok_def snd_ok_def flight_ok_def retran_ok_def counters_def shape_def)
  then have "good ?a []" by (simp add: good_def)
  from quiet_ok [OF this] obtain b where b: "foreach_dest quiet_dest ?a = Some b" "fixed b = fixed ?a" "sent_queue b = []"
    "good (b\<lparr>total_flight := 0, total_flight_count := 0\<rparr>) []" "timers_ok (b\<lparr>total_flight := 0, total_flight_count := 0\<rparr>)" using v(3) by auto
  then have "sender_ok (b\<lparr>total_flight := 0, total_flight_count := 0\<rparr>)"
    using assms(1) v(1) reliable_fixed [of b a] by (simp add: sender_ok_def tsn_sorted_def reliable_def) (simp add: fixed_def)
  then show ?thesis using b(1) by (simp add: all_idle_def)
qed

lemma handle_sack_ok:
  assumes "sender_ok a"
  shows "\<exists>ab b. sctp_handle_sack env m off num nr_num flags t rwnd ecne a = Some (ab, b) \<and> (\<not> ab \<longrightarrow> sender_ok b)"
proof -
  let ?a = "a\<lparr>overall_error_count := 0\<rparr>"
  have a: "sender_ok ?a" by (rule sender_ok_view [OF assms]) simp_all
  consider "SCTP_TSN_GE t (sent_end ?a)" | "\<not> SCTP_TSN_GE t (sent_end ?a)" "SCTP_TSN_GT (last_acked_seq ?a) t"
    | "\<not> SCTP_TSN_GE t (sent_end ?a)" "\<not> SCTP_TSN_GT (last_acked_seq ?a) t" "sent_queue ?a = [] \<and> snd_queue ?a = [] \<and> stream_queue_cnt ?a = 0"
    | "\<not> SCTP_TSN_GE t (sent_end ?a)" "\<not> SCTP_TSN_GT (last_acked_seq ?a) t" "\<not> (sent_queue ?a = [] \<and> snd_queue ?a = [] \<and> stream_queue_cnt ?a = 0)" by blast
  then show ?thesis
  proof cases
    case 3
    then obtain b where "all_idle rwnd ?a = Some b" "sender_ok b" using all_idle_ok [OF a] by blast
    with 3 have "sctp_handle_sack env m off num nr_num flags t rwnd ecne a = Some (False, b)" by (simp add: sctp_handle_sack_def Let_def)
    with \<open>sender_ok b\<close> show ?thesis by blast
  next
    case 4
    then have "sctp_handle_sack env m off num nr_num flags t rwnd ecne a = slow_body env m off num nr_num flags t rwnd ecne ?a"
      unfolding sctp_handle_sack_def Let_def by (simp only: if_False)
    with slow_body_ok [OF a 4(1,2)] show ?thesis by (metis (no_types))
  qed (use a in \<open>auto simp: sctp_handle_sack_def Let_def hopeless_peer_def\<close>)
qed

end
