(* ===== verification/Snd_Invariant.thy ===== *)
theory Snd_Invariant
  imports Snd_Slow_Correct
begin

text \<open>
  The invariant \<open>sender_ok\<close> holds after every SACK and NR-SACK chunk, on whichever path it is processed, and what the slow path makes of the sent queue.
\<close>

section \<open>The express path\<close>

lemma probed_ok:
  assumes "sender_ok a" "probed q (sent_queue b)" "list_all (sender_chunk a) q" "fixed b = fixed (a\<lparr>last_acked_seq := t\<rparr>)" "books_ok b"
  shows "good b (sent_queue b)" "map tsn (sent_queue b) = map tsn q"
proof -
  have "sender_chunk b = sender_chunk (a\<lparr>last_acked_seq := t\<rparr>)" by (rule sender_chunk_fixed [OF assms(4)])
  also have "\<dots> = sender_chunk a" by (rule ext) (simp add: sender_chunk_def valid_net_def split: option.split)
  finally show "good b (sent_queue b)" using probed_sender [OF assms(2), of b] assms(3,5) by (simp add: good_def)
  show "map tsn (sent_queue b) = map tsn q" by (rule probed_tsns [OF assms(2)])
qed

lemma express_window_update:
  assumes a: "sender_ok a"
  shows "\<exists>ab b. sctp_express_handle_sack env (last_acked_seq a) rwnd ecne a = Some (ab, b) \<and> (\<not> ab \<longrightarrow> sender_ok b)"
proof -
  let ?a = "set_peers_rwnd env rwnd a" and ?t = "last_acked_seq a"
  have a1: "sender_ok ?a" by (rule sender_ok_view [OF a]) (simp_all add: set_peers_rwnd_def Let_def)
  have e: "sctp_express_handle_sack env ?t rwnd ecne a =
      (if peers_rwnd (asoc_cc ?a) > peers_rwnd (asoc_cc a) then exp_finish env False ?t ?a else Some (False, ?a))"
    by (simp add: sctp_express_handle_sack_def Let_def GT_asym(2))
  show ?thesis
  proof (cases "peers_rwnd (asoc_cc ?a) > peers_rwnd (asoc_cc a)")
    case True
    from exp_finish_ok [of ?a env False ?t] a1 obtain ab b where b: "exp_finish env False ?t ?a = Some (ab, b)" "books_ok b" "timers_ok b" "fixed b = fixed ?a"
      "probed (sent_queue ?a) (sent_queue b)" by (auto simp: sender_ok_def good_def)
    have q: "list_all (sender_chunk ?a) (sent_queue ?a)" using a1 by (simp add: sender_ok_def good_def)
    have "fixed b = fixed (?a\<lparr>last_acked_seq := last_acked_seq ?a\<rparr>)" using b(4) by simp
    note g = probed_ok [OF a1 b(5) q this b(2)]
    have above: "list_all (\<lambda>c. SCTP_TSN_GT (tsn c) u) (sent_queue b) = list_all (\<lambda>c. SCTP_TSN_GT (tsn c) u) (sent_queue ?a)" for u
      using arg_cong [OF g(2), of "list_all (\<lambda>x. SCTP_TSN_GT x u)"] by (simp add: list.pred_map comp_def)
    have "sender_ok b" using a1 g b(3,4) reliable_fixed [OF b(4)] tsn_sorted_map [OF g(2)] by (simp add: sender_ok_def fixed_def above)
    with b(1) e True show ?thesis by simp
  next
    case False
    then have "sctp_express_handle_sack env ?t rwnd ecne a = Some (False, ?a)" using e by simp
    with a1 show ?thesis by blast
  qed
qed

lemma express_sender_ok:
  assumes a: "sender_ok a" "SCTP_TSN_GE t (last_acked_seq a)"
  shows "\<exists>ab b. sctp_express_handle_sack env t rwnd ecne a = Some (ab, b) \<and> (\<not> ab \<longrightarrow> sender_ok b)"
proof (cases "t = last_acked_seq a")
  case True
  then show ?thesis using express_window_update [OF a(1)] by simp
next
  case False
  have bk: "books_ok a" "reliable a" "snd_module a = SCTP_CC_RFC2581" "sctp_cmt_on_off (asoc_cc a) = 0" using a(1) by (simp_all add: sender_ok_def good_def)
  have gt: "SCTP_TSN_GT t (last_acked_seq a)" using a(2) False by (auto simp: SCTP_UINT32_GE_def SCTP_UINT32_GT_def)
  show ?thesis
  proof (cases "SCTP_TSN_GE t (sent_end a)")
    case True
    have "length (dests a) = length (nets (asoc_cc a))" using bk(1) by (simp add: books_ok_def snd_ok_def)
    from prepare.all_ok [OF this conjI [OF refl refl], of env t] obtain a1 where a1: "foreach_dest (prepare_dest env t) a = Some a1" "view a1 = view a" by blast
    then have "\<exists>b. sctp_express_handle_sack env t rwnd ecne a = Some (True, b)"
      using GT_asym(1) [OF gt] False True sent_end_view [OF a1(2)] by (simp add: sctp_express_handle_sack_def Let_def)
    then show ?thesis by blast
  next
    case in_sent: False
    note w = sender_window [OF a(1) in_sent GT_asym(1) [OF gt]]
    let ?q = "dropWhile (\<lambda>c. SCTP_TSN_GE t (tsn c)) (sent_queue a)"
    from exp_handle_ok [OF bk gt in_sent, of env rwnd ecne] obtain ab b where b: "sctp_express_handle_sack env t rwnd ecne a = Some (ab, b)" "books_ok b"
      "timers_ok b" "fixed b = fixed (a\<lparr>last_acked_seq := t\<rparr>)" "probed ?q (sent_queue b)" by blast
    have "list_all (sender_chunk a) ?q" using a(1) by (auto simp: sender_ok_def good_def list_all_iff dest: set_dropWhileD)
    note g = probed_ok [OF a(1) b(5) this b(4,2)]
    have "?q = filter (\<lambda>c. SCTP_TSN_GT (tsn c) t) (sent_queue a)" using w dropWhile_sorted by (cases "sent_queue a = []") auto
    then have "map tsn (sent_queue b) = filter (\<lambda>x. SCTP_TSN_GT x t) (map tsn (sent_queue a))" using g(2) by (simp add: filter_map comp_def)
    from sender_ok_next [OF a(1) w g(1) b(3,4) this] b(1) show ?thesis by blast
  qed
qed

section \<open>Properties\<close>

text \<open>
  C5: Well-formedness of a sender is kept by every SACK or NR-SACK chunk, whatever its gap blocks are and however long it claims to be: the chunk is processed
  without following a NULL or dangling pointer and without dividing by zero, and unless it aborts the association, afterwards every chunk of the sent queue
  belongs to a destination and a stream, the data in flight and the chunks waiting for a retransmission are counted exactly, every destination with data in
  flight has its timer running, and the queue is sorted as seen from the cumulative TSN. The sender (\<open>sender_ok\<close>) uses the standard congestion control module of RFC 2581 and no concurrent
  multipath transfer, and all its messages are fully reliable: for a sender with PR-SCTP messages, with multipath transfer or with another module nothing is claimed here, and with PR-SCTP the count of the
  chunks waiting for a retransmission is in fact not kept.
\<close>

theorem sack_chunk_keeps_sender:
  assumes "sender_ok a"
  shows "\<exists>abort_now a'. process_sack env fixed_size m off has_net ecne_seen s a = Some (abort_now, a') \<and> (\<not> abort_now \<longrightarrow> sender_ok a')"
proof -
  let ?a = "seen_a_sack a"
  have a: "sender_ok ?a"
    by (rule sender_ok_view [OF assms]) (simp_all add: seen_a_sack_def view_def fixed_def shape_def counters_def)
  define r where "r = (if simple_sack s ?a then sctp_express_handle_sack env (sf_cum_ack s) (sf_rwnd s) ecne_seen ?a
     else if has_net then sctp_handle_sack env m (off + int fixed_size) (unat (sf_num_seg s)) (unat (sf_num_nr_seg s)) (sf_flags s) (sf_cum_ack s) (sf_rwnd s) ecne_seen ?a
     else Some (False, ?a))"
  have "\<exists>ab b. r = Some (ab, b) \<and> (\<not> ab \<longrightarrow> sender_ok b)"
  proof (cases "simple_sack s ?a")
    case True
    then have "SCTP_TSN_GE (sf_cum_ack s) (last_acked_seq ?a)" by (simp add: simple_sack_def)
    from express_sender_ok [OF a this] True show ?thesis by (simp add: r_def)
  next
    case False
    show ?thesis
    proof (cases has_net)
      case True
      with handle_sack_ok [OF a] False show ?thesis by (simp add: r_def)
    next
      case no: False
      have "r = Some (False, ?a)" using no False by (simp add: r_def)
      with a show ?thesis by blast
    qed
  qed
  then obtain ab b where b: "r = Some (ab, b)" "\<not> ab \<longrightarrow> sender_ok b" by blast
  have "\<not> ab \<longrightarrow> sender_ok (sender_dry b)" using b(2) sender_ok_view [of b "sender_dry b"] by (simp add: sender_dry_def)
  moreover have "process_sack env fixed_size m off has_net ecne_seen s a =
      (if sf_length s < fixed_size \<or> SCTP_GET_STATE a = SCTP_STATE_SHUTDOWN_ACK_SENT \<or>
          fixed_size + (unat (sf_num_seg s) + unat (sf_num_nr_seg s)) * 4 + unat (sf_num_dup s) * 4 \<noteq> sf_length s then Some (False, a)
       else Some (ab, if ab then b else sender_dry b))"
    unfolding process_sack_def Let_def r_def [symmetric] b(1) by simp
  ultimately show ?thesis using assms
    by (cases "sf_length s < fixed_size \<or> SCTP_GET_STATE a = SCTP_STATE_SHUTDOWN_ACK_SENT \<or>
          fixed_size + (unat (sf_num_seg s) + unat (sf_num_nr_seg s)) * 4 + unat (sf_num_dup s) * 4 \<noteq> sf_length s") (cases ab; auto)+
qed

lemma demo_sender: "sender_ok (demo_snd t)"
proof -
  have "list_all (sender_chunk (demo_snd t)) (sent_queue (demo_snd t))"
    by (simp add: sender_chunk_def demo_snd_def demo_chunk_def valid_net_def probe_ok_def known_state_def demo_cc_asoc_def PR_SCTP_ENABLED_def PR_SCTP_POLICY_def datagram_states)
  moreover have "timers_ok (demo_snd t)" by (simp add: timers_ok_def demo_snd_def demo_cc_asoc_def demo_dest_def)
  moreover have "tsn_sorted (t - 1) (sent_queue (demo_snd t))" by (simp add: demo_snd_def demo_chunk_def tsn_sorted_def ahead_def)
  moreover have "SCTP_TSN_GT t (t - 1)" "SCTP_TSN_GT (t + 1) (t - 1)" "SCTP_TSN_GT (t + 2) (t - 1)" by (simp_all add: SCTP_UINT32_GT_iff)
  then have "list_all (\<lambda>c. SCTP_TSN_GT (tsn c) (t - 1)) (sent_queue (demo_snd t))" by (simp add: demo_snd_def demo_chunk_def)
  ultimately show ?thesis using demo_snd_books [of t] by (simp add: sender_ok_def good_def demo_snd_tsns)
qed

text \<open>A SACK with a block that covers the last of three chunks.\<close>

definition demo_sack :: sack_fields where
  "demo_sack = \<lparr>sf_flags = 0, sf_cum_ack = 999, sf_rwnd = 100000, sf_num_seg = 1, sf_num_nr_seg = 0, sf_num_dup = 0, sf_length = 20\<rparr>"

theorem sack_chunk_keeps_sender_witness:
  "\<exists>abort_now a'. process_sack demo_snd_env sizeof_sack_chunk [replicate 16 0 @ [0, 3, 0, 3]] 0 True False demo_sack (demo_snd 1000) = Some (abort_now, a') \<and>
    (\<not> abort_now \<longrightarrow> sender_ok a')"
  by (rule sack_chunk_keeps_sender [OF demo_sender])

text \<open>
  C9: For a sender of reliable messages with the standard congestion control module of RFC 2581 and without concurrent multipath transfer, a SACK that takes the slow path, as it does with gap blocks
  or after revoked chunks, and does not abort the association, takes exactly the chunks up to its
  cumulative TSN off the sent queue, whatever is marked, put back, struck or taken back as a window probe on the way. The SACK is not old and acknowledges nothing unsent. Nothing is claimed for senders with
  PR-SCTP messages, which take this path too.
\<close>

theorem slow_sack_takes_acknowledged:
  assumes "sender_ok a" "sent_queue a \<noteq> []" "\<not> SCTP_TSN_GE cum_ack (sent_end a)" "\<not> SCTP_TSN_GT (last_acked_seq a) cum_ack"
  shows "\<exists>abort_now a'. sctp_handle_sack env m off num_seg num_nr_seg flags cum_ack rwnd ecne_seen a = Some (abort_now, a') \<and>
    (\<not> abort_now \<longrightarrow> map tsn (sent_queue a') = filter (\<lambda>t. SCTP_TSN_GT t cum_ack) (map tsn (sent_queue a)) \<and> last_acked_seq a' = cum_ack)"
proof -
  let ?a = "a\<lparr>overall_error_count := 0\<rparr>"
  have a: "sender_ok ?a" by (rule sender_ok_view [OF assms(1)]) simp_all
  have "sctp_handle_sack env m off num_seg num_nr_seg flags cum_ack rwnd ecne_seen a = slow_body env m off num_seg num_nr_seg flags cum_ack rwnd ecne_seen ?a"
    using assms(2-4) by (simp add: sctp_handle_sack_def Let_def sent_end_def)
  moreover have "\<not> SCTP_TSN_GE cum_ack (sent_end ?a)" using assms(2,3) by (simp add: sent_end_def)
  ultimately show ?thesis using slow_body_ok [OF a, of cum_ack env m off num_seg num_nr_seg flags rwnd ecne_seen] assms(4) by auto
qed

text \<open>The second of three chunks is reported missing and the first one acknowledged.\<close>

theorem slow_sack_takes_acknowledged_witness:
  "\<exists>abort_now a'. sctp_handle_sack demo_snd_env [[0, 2, 0, 2]] 0 1 0 0 1000 100000 False (demo_snd 1000) = Some (abort_now, a') \<and>
    (\<not> abort_now \<longrightarrow> map tsn (sent_queue a') = [1001, 1002] \<and> last_acked_seq a' = 1000)"
proof -
  have "sent_queue (demo_snd 1000) \<noteq> []" "\<not> SCTP_TSN_GE 1000 (sent_end (demo_snd 1000))"
    "\<not> SCTP_TSN_GT (last_acked_seq (demo_snd 1000)) 1000"
    by (simp_all add: demo_snd_tsns SCTP_UINT32_GT_def SCTP_UINT32_GE_def) (simp add: demo_snd_def)
  from slow_sack_takes_acknowledged [OF demo_sender this, of demo_snd_env "[[0, 2, 0, 2]]" 0 1 0 0 100000 False] show ?thesis
    by (simp add: demo_snd_tsns SCTP_UINT32_GT_def)
qed

end
