(* ===== verification/Snd_T3.thy ===== *)
theory Snd_T3
  imports Snd_Slow "HOL-Library.Signed_Division"
begin

text \<open>
  The expiry of a retransmission timer, \<^verbatim>\<open>sctp_t3rxt_timer\<close> of netinet/sctp_timer.c: errors are counted, another destination is chosen, the chunks
  that were sent long enough ago are marked for retransmission, and the timeout and the congestion window are adapted. The destination of the timer
  is \<open>k\<close>; the caller passes a valid one. The counts \<^verbatim>\<open>marked_retrans\<close>, which only address reconfiguration reads, and the flag \<^verbatim>\<open>fast_retran_ip\<close>, which nothing reads, are left out. The result \<open>Some (True, a)\<close>
  says that the association was aborted.
\<close>

definition SCTP_ADDR_REQ_PRIMARY :: u16 where "SCTP_ADDR_REQ_PRIMARY = 0x400"
definition CHUNK_FLAGS_FRAGMENT_OK :: u16 where "CHUNK_FLAGS_FRAGMENT_OK = 0x0100"
definition SCTP_STATE_COOKIE_ECHOED :: u32 where "SCTP_STATE_COOKIE_ECHOED = 0x0004"
definition SCTP_ECN_ECHO :: u8 where "SCTP_ECN_ECHO = 0x0c"

section \<open>Counting errors\<close>

definition net_error :: "snd_env \<Rightarrow> nat \<Rightarrow> dest \<Rightarrow> snd_asoc \<Rightarrow> dest \<times> snd_asoc" where
  "net_error env k d a =
     (let d = d\<lparr>error_count := error_count d + 1\<rparr>
      in if error_count d > failure_threshold d
         then if dest_state d AND SCTP_ADDR_REACHABLE \<noteq> 0
              then (d\<lparr>dest_state := dest_state d AND NOT SCTP_ADDR_REACHABLE AND NOT SCTP_ADDR_REQ_PRIMARY AND NOT SCTP_ADDR_PF\<rparr>,
                    snd_emit [Interface_down k] a)
              else (d, a)
         else if pf_threshold d < failure_threshold d \<and> error_count d > pf_threshold d \<and> dest_state d AND SCTP_ADDR_PF = 0
         then (d\<lparr>dest_state := dest_state d OR SCTP_ADDR_PF, last_active := cc_ticks (env_cc env)\<rparr>,
               snd_emit [Heartbeat_sent k, Heartbeat_restart k] a)
         else (d, a))"

definition sctp_threshold_management :: "snd_env \<Rightarrow> nat option \<Rightarrow> u16 \<Rightarrow> snd_asoc \<Rightarrow> (bool \<times> snd_asoc) option" where
  "sctp_threshold_management env net threshold a =
     do { (counts, a) \<leftarrow>
            (case net of None \<Rightarrow> Some (True, a)
             | Some k \<Rightarrow> do { (n, d) \<leftarrow> net_at net a;
                              let (d, a) = net_error env k d a;
                              Some (dest_state d AND SCTP_ADDR_UNCONFIRMED = 0, put_net net n d a) });
          let a = (if counts then a\<lparr>overall_error_count := overall_error_count a + 1\<rparr> else a);
          Some (if overall_error_count a > ucast threshold then (True, snd_emit [Abort_association (diag_info_code env)] a) else (False, a)) }"

section \<open>Backing off\<close>

definition backed_off :: "snd_asoc \<Rightarrow> sctp_nets \<Rightarrow> dest \<Rightarrow> sctp_nets" where
  "backed_off a n d =
     (let n = (if RTO n = 0 then n\<lparr>RTO := (if RTO_measured d \<noteq> 0 then minrto a else initial_rto a)\<rparr> else n);
          n = n\<lparr>RTO := push_bit 1 (RTO n)\<rparr>
      in if RTO n > maxrto a then n\<lparr>RTO := maxrto a\<rparr> else n)"

definition sctp_backoff_on_timeout :: "snd_env \<Rightarrow> nat \<Rightarrow> bool \<Rightarrow> int \<Rightarrow> int \<Rightarrow> snd_asoc \<Rightarrow> snd_asoc option" where
  "sctp_backoff_on_timeout env k win_probe num_marked num_abandoned a =
     do { (n, d) \<leftarrow> net_at (Some k) a;
          let n = backed_off a n d;
          let a = put_net (Some k) n d a;
          if \<not> win_probe \<and> (num_marked \<noteq> 0 \<or> num_abandoned \<noteq> 0)
          then do { (cc, n) \<leftarrow> cc_after_timeout (env_cc env) (snd_module a) (cc_of a) n;
                    Some (put_net (Some k) n d (a\<lparr>asoc_cc := cc\<rparr>)) }
          else Some a }"

section \<open>Marking chunks\<close>

text \<open>Chunks that were acknowledged long ago should not be on the queue; they are taken off it without touching the counters of the data in flight.\<close>

fun recover_loop :: "data_chunk list \<Rightarrow> snd_asoc \<Rightarrow> (data_chunk list \<times> snd_asoc) option" where
  "recover_loop [] a = Some ([], a)"
| "recover_loop (c # cs) a =
     (if SCTP_TSN_GE (last_acked_seq a) (tsn c) then do { a \<leftarrow> drop_chunk c a; recover_loop cs a }
      else do { (cs, a) \<leftarrow> recover_loop cs a; Some (c # cs, a) })"

definition sctp_recover_sent_list :: "snd_asoc \<Rightarrow> snd_asoc option" where
  "sctp_recover_sent_list a = do { (q, a) \<leftarrow> recover_loop (sent_queue a) a; Some (a\<lparr>sent_queue := q\<rparr>) }"

text \<open>Only what was sent before this time is marked. The product of integers wraps around, and the quotient is rounded towards zero.\<close>

definition min_wait :: "int \<times> int \<Rightarrow> sctp_nets \<Rightarrow> dest \<Rightarrow> int \<times> int" where
  "min_wait now n d =
     (let cur_rto = sint (1000 * (signed_drop_bit 3 (lastsa n) + lastsv d));
          w = timevalsub now (cur_rto sdiv 1000000, cur_rto smod 1000000)
      in if fst w < 0 \<or> snd w < 0 then (0, 0) else w)"

definition too_young :: "bool \<Rightarrow> int \<times> int \<Rightarrow> data_chunk \<Rightarrow> bool" where
  "too_young window_probe w c \<longleftrightarrow> \<not> window_probe \<and>
     (fst (sent_rcv_time c) > fst w \<or> fst (sent_rcv_time c) = fst w \<and> snd (sent_rcv_time c) \<ge> snd w)"

text \<open>The counters \<^verbatim>\<open>num_mk\<close>, \<^verbatim>\<open>cnt_mk\<close> and \<^verbatim>\<open>cnt_abandoned\<close>.\<close>

record mark_counts =
  num_mk :: int
  cnt_mk :: u32
  cnt_abandoned :: int

text \<open>A chunk in flight leaves it.\<close>

definition mark_flight :: "snd_env \<Rightarrow> data_chunk \<Rightarrow> snd_asoc \<Rightarrow> (data_chunk \<times> snd_asoc) option" where
  "mark_flight env c a =
     do { let a = a\<lparr>sent_queue_retran_cnt := sctp_ucount_incr (sent_queue_retran_cnt a)\<rparr>;
          (c, a) \<leftarrow> undo_revoke c a;
          (n, d) \<leftarrow> net_at (chk_whoTo c) a;
          let a = put_net (chk_whoTo c) (sctp_flight_size_decrease c n) d a;
          let a = sctp_total_flight_decrease c a;
          Some (c\<lparr>chk_window_probe := 0\<rparr>, add_peers_rwnd (sctp_peer_chunk_oh env) (add_peers_rwnd (ucast (chk_send_size c)) a)) }"

definition mark_resend :: "snd_env \<Rightarrow> nat \<Rightarrow> nat option \<Rightarrow> nat \<Rightarrow> data_chunk \<Rightarrow> snd_asoc \<Rightarrow> snd_asoc option" where
  "mark_resend env net alt j c a =
     do { (c, a) \<leftarrow> (if chk_sent c < SCTP_DATAGRAM_RESEND then mark_flight env c a else Some (c, a));
          let c = c\<lparr>chk_sent := SCTP_DATAGRAM_RESEND, pr_flags := pr_flags c OR CHUNK_FLAGS_FRAGMENT_OK, doing_fast_retransmit := 0\<rparr>;
          a \<leftarrow> cancel_rtt c a;
          let c = c\<lparr>do_rtt := 0\<rparr>;
          c \<leftarrow> (if alt \<noteq> Some net then do { to \<leftarrow> alt; Some (c\<lparr>no_fr_allowed := 1, chk_whoTo := Some to\<rparr>) }
                else Some (c\<lparr>no_fr_allowed := 0, fast_retran_tsn := next_to_send (sending_seq (asoc_cc a)) a\<rparr>));
          let c = (if sctp_cmt_on_off (asoc_cc a) > 0 then c\<lparr>no_fr_allowed := 1\<rparr> else c);
          Some (put_chunk j c a) }"

definition mark_step :: "snd_env \<Rightarrow> nat \<Rightarrow> nat option \<Rightarrow> bool \<Rightarrow> int \<times> int \<Rightarrow> nat \<Rightarrow> mark_counts \<Rightarrow> snd_asoc \<Rightarrow> (mark_counts \<times> snd_asoc) option" where
  "mark_step env net alt window_probe w j m a =
     do { c \<leftarrow> chunk_at j a;
          if chk_whoTo c = Some net \<and> chk_sent c < SCTP_DATAGRAM_ACKED
          then if too_young window_probe w c then Some (m, a)
               else if prsctp_supported a \<noteq> 0 \<and>
                  (PR_SCTP_TTL_ENABLED (pr_flags c) \<and> timer_after (cc_now (env_cc env)) (timetodrop c) \<or>
                   PR_SCTP_RTX_ENABLED (pr_flags c) \<and> uint (chk_snd_count c) > fst (timetodrop c))
               then do { a \<leftarrow> drop_expired env j c a; Some (if has_data c then m\<lparr>cnt_abandoned := cnt_abandoned m + 1\<rparr> else m, a) }
               else do { a \<leftarrow> mark_resend env net alt j c a;
                         Some (m\<lparr>num_mk := (if chk_sent c < SCTP_DATAGRAM_RESEND then num_mk m + 1 else num_mk m), cnt_mk := cnt_mk m + 1\<rparr>, a) }
          else Some (if chk_sent c = SCTP_DATAGRAM_RESEND then m\<lparr>cnt_mk := cnt_mk m + 1\<rparr> else m, a) }"

section \<open>The loop\<close>

lemma mark_flight_queues: "mark_flight env c a = Some (c', b) \<Longrightarrow> sent_queue b = sent_queue a \<and> snd_queue b = snd_queue a \<and> has_data c' = has_data c"
  by (auto simp: mark_flight_def undo_revoke_def Let_def Option.bind_eq_Some_conv split: if_split_asm)

lemma mark_resend_room:
  assumes "mark_resend env net alt j c a = Some b" "chunk_at j a = Some c"
  shows "pr_room b = pr_room a"
proof -
  have j: "j < length (sent_queue a)" "sent_queue a ! j = c" using assms(2) by (auto simp: chunk_at_def split: if_splits)
  obtain c1 a1 where 1: "(if chk_sent c < SCTP_DATAGRAM_RESEND then mark_flight env c a else Some (c, a)) = Some (c1, a1)"
    using assms(1) by (auto simp: mark_resend_def Option.bind_eq_Some_conv)
  then have q1: "sent_queue a1 = sent_queue a" "snd_queue a1 = snd_queue a" "has_data c1 = has_data c"
    using mark_flight_queues [of env c a c1 a1] by (auto split: if_splits)
  obtain c2 a2 c3 where 2: "cancel_rtt c2 a1 = Some a2" "b = put_chunk j c3 a2" "has_data c3 = has_data c1"
  proof -
    let ?c = "c1\<lparr>chk_sent := SCTP_DATAGRAM_RESEND, pr_flags := pr_flags c1 OR CHUNK_FLAGS_FRAGMENT_OK, doing_fast_retransmit := 0\<rparr>"
    obtain a2 where a2: "cancel_rtt ?c a1 = Some a2" using assms(1) 1 by (auto simp: mark_resend_def Let_def Option.bind_eq_Some_conv)
    then have "\<exists>c3. b = put_chunk j c3 a2 \<and> has_data c3 = has_data c1"
      using assms(1) 1 by (cases alt) (auto simp: mark_resend_def Let_def split: if_split_asm)
    with a2 that show ?thesis by blast
  qed
  have "pr_room a2 = pr_room a1 \<and> sent_queue a2 = sent_queue a1" by (rule cancel_rtt_room [OF 2(1)])
  moreover have "pr_room a1 = pr_room a" using q1 by (simp add: pr_room_def)
  ultimately show ?thesis using put_chunk_room [of j a2 c3] 2 q1 j by simp
qed

lemma mark_room:
  assumes "mark_step env net alt wp w j m a = Some (m', b)"
  shows "pr_room b \<le> pr_room a"
proof -
  obtain c where c: "chunk_at j a = Some c" using assms by (auto simp: mark_step_def Option.bind_eq_Some_conv)
  have "b = a \<or> drop_expired env j c a = Some b \<or> mark_resend env net alt j c a = Some b"
    using assms by (auto simp: mark_step_def c Option.bind_eq_Some_conv split: if_split_asm)
  then show ?thesis using drop_expired_room [OF _ c] mark_resend_room [OF _ c] by auto
qed

text \<open>
  When a chunk is out of place the queue is repaired and the loop starts again, at most nine times; then it would go on with the chunk that was freed.
\<close>

function (sequential) mark_loop :: "snd_env \<Rightarrow> nat \<Rightarrow> nat option \<Rightarrow> bool \<Rightarrow> int \<times> int \<Rightarrow> nat \<Rightarrow> nat option \<Rightarrow> mark_counts \<Rightarrow> snd_asoc \<Rightarrow> (mark_counts \<times> snd_asoc) option" where
  "mark_loop env net alt wp w recovery_cnt None m a = Some (m, a)"
| "mark_loop env net alt wp w recovery_cnt (Some j) m a =
     do { c \<leftarrow> chunk_at j a;
          if SCTP_TSN_GE (last_acked_seq a) (tsn c)
          then do { b \<leftarrow> sctp_recover_sent_list a;
                    if Suc recovery_cnt < 10 then mark_loop env net alt wp w (Suc recovery_cnt) (first_chunk b) m b else None }
          else do { (m, b) \<leftarrow> mark_step env net alt wp w j m a;
                    mark_loop env net alt wp w recovery_cnt (next_chunk j a) m b } }"
  by pat_completeness auto
termination
  by (relation "measures [\<lambda>(env, net, alt, wp, w, r, p, m, a). 10 - r,
      \<lambda>(env, net, alt, wp, w, r, p, m, a). case p of None \<Rightarrow> 0 | Some j \<Rightarrow> Suc (pr_room a - j)]")
    (auto split: option.split dest!: next_chunk_room mark_room)

declare mark_loop.simps [simp del]

text \<open>Stranded ECN echoes go to the other destination, too.\<close>

fun mark_control :: "nat \<Rightarrow> nat option \<Rightarrow> control_chunk list \<Rightarrow> u32 \<Rightarrow> u32 \<Rightarrow> (control_chunk list \<times> u32 \<times> u32) option" where
  "mark_control net alt [] cnt retran = Some ([], cnt, retran)"
| "mark_control net alt (c # cs) cnt retran =
     do { let waiting = (ctl_sent c = SCTP_DATAGRAM_RESEND);
          let cnt = (if waiting then cnt + 1 else cnt);
          let moves = (ctl_whoTo c = Some net \<and> ctl_id c = SCTP_ECN_ECHO);
          let (cnt, retran) = (if moves \<and> \<not> waiting then (cnt + 1, sctp_ucount_incr retran) else (cnt, retran));
          c \<leftarrow> (if moves then do { to \<leftarrow> alt; Some (c\<lparr>ctl_whoTo := Some to, ctl_sent := SCTP_DATAGRAM_RESEND\<rparr>) } else Some c);
          (cs, cnt, retran) \<leftarrow> mark_control net alt cs cnt retran;
          Some (c # cs, cnt, retran) }"

fun recount_flight :: "data_chunk list \<Rightarrow> snd_asoc \<Rightarrow> snd_asoc option" where
  "recount_flight [] a = Some a"
| "recount_flight (c # cs) a =
     do { a \<leftarrow> (if chk_sent c < SCTP_DATAGRAM_RESEND
                then do { (n, d) \<leftarrow> net_at (chk_whoTo c) a;
                          Some (sctp_total_flight_increase c (put_net (chk_whoTo c) (sctp_flight_size_increase c n) d a)) }
                else Some a);
          recount_flight cs a }"

text \<open>The results are \<^verbatim>\<open>*num_marked\<close> and \<^verbatim>\<open>*num_abandoned\<close>.\<close>

definition sctp_mark_all_for_resend :: "snd_env \<Rightarrow> nat \<Rightarrow> nat option \<Rightarrow> bool \<Rightarrow> snd_asoc \<Rightarrow> (int \<times> int \<times> snd_asoc) option" where
  "sctp_mark_all_for_resend env net alt window_probe a =
     do { (n, d) \<leftarrow> net_at (Some net) a;
          let orig_flight = flight_size n;
          let orig_tf = total_flight a;
          (m, a) \<leftarrow> mark_loop env net alt window_probe (min_wait (cc_now (env_cc env)) n d) 0 (first_chunk a) \<lparr>num_mk = 0, cnt_mk = 0, cnt_abandoned = 0\<rparr> a;
          (n, d) \<leftarrow> net_at (Some net) a;
          let audit_tf = (orig_flight - flight_size n \<noteq> orig_tf - total_flight a);
          (ctl, cnt, retran) \<leftarrow> mark_control net alt (ctl_queue a) (cnt_mk m) (sent_queue_retran_cnt a);
          let a = a\<lparr>ctl_queue := ctl, sent_queue_retran_cnt := (if retran \<noteq> cnt then cnt else retran)\<rparr>;
          a \<leftarrow> (if audit_tf
                then do { a \<leftarrow> foreach_dest no_flight_dest (a\<lparr>total_flight := 0, total_flight_count := 0\<rparr>);
                          recount_flight (sent_queue a) a }
                else Some a);
          Some (num_mk m, cnt_abandoned m, a) }"

section \<open>The timer\<close>

text \<open>A destination that is not the primary one and has not been heard of for a timeout is asked for a sign of life.\<close>

definition stale_heartbeat :: "snd_env \<Rightarrow> nat \<Rightarrow> snd_asoc \<Rightarrow> snd_asoc option" where
  "stale_heartbeat env k a =
     (if snd_primary a = Some k then Some a
      else do { (n, d) \<leftarrow> net_at (Some k) a;
                let ms_goneby = (if last_sent_sec d \<noteq> 0 then word_of_int ((fst (cc_now (env_cc env)) - last_sent_sec d) * 1000) else 0);
                Some (if dest_state d AND SCTP_ADDR_PF = 0 \<and> (ms_goneby > RTO n \<or> RTO n = 0) then snd_emit [Heartbeat_sent k] a else a) })"

definition t3_alternate :: "snd_env \<Rightarrow> nat \<Rightarrow> snd_asoc \<Rightarrow> (nat option \<times> snd_asoc) option" where
  "t3_alternate env k a =
     (if sctp_cmt_on_off (asoc_cc a) > 0
      then do { (n, d) \<leftarrow> net_at (Some k) a;
                if pf_threshold d < failure_threshold d then sctp_find_alternate_net env (Some k) 2 a
                else do { (alt, a) \<leftarrow> sctp_find_alternate_net env (Some k) 1 a;
                          (n, d) \<leftarrow> net_at (Some k) a;
                          Some (alt, put_net (Some k) n (d\<lparr>find_pseudo_cumack := 1, find_rtx_pseudo_cumack := 1\<rparr>) a) } }
      else sctp_find_alternate_net env (Some k) 0 a)"

definition sctp_move_chunks_from_net :: "nat \<Rightarrow> snd_asoc \<Rightarrow> snd_asoc" where
  "sctp_move_chunks_from_net k a =
     a\<lparr>strmout := map (\<lambda>s. s\<lparr>outqueue := map (\<lambda>sp. if sp_net sp = Some k then sp\<lparr>sp_net := None\<rparr> else sp) (outqueue s)\<rparr>) (strmout a),
       snd_queue := map (\<lambda>c. if chk_whoTo c = Some k then c\<lparr>chk_whoTo := None\<rparr> else c) (snd_queue a)\<rparr>"

text \<open>A destination that failed loses what waits for it, its source address and its route; an alternate takes the place of the primary one.\<close>

definition leave_net :: "nat \<Rightarrow> nat option \<Rightarrow> snd_asoc \<Rightarrow> snd_asoc option" where
  "leave_net k alt a =
     do { (n, d) \<leftarrow> net_at (Some k) a;
          if dest_state d AND SCTP_ADDR_REACHABLE = 0 \<or> dest_state d AND SCTP_ADDR_PF \<noteq> 0
          then do { let a = put_net (Some k) n (d\<lparr>src_addr := False, src_addr_selected := 0, has_route := False\<rparr>) (sctp_move_chunks_from_net k a);
                    Some (if snd_primary a = Some k \<and> alt \<noteq> Some k
                          then (case snd_alternate a of None \<Rightarrow> a | Some j \<Rightarrow> snd_emit [Alternate_released j] a)\<lparr>snd_alternate := alt\<rparr>
                          else a) }
          else Some a }"

definition t3_end :: "snd_env \<Rightarrow> nat \<Rightarrow> snd_asoc \<Rightarrow> snd_asoc option" where
  "t3_end env k a =
     (if SCTP_GET_STATE a = SCTP_STATE_COOKIE_ECHOED then start_send_timer (Some k) a
      else if prsctp_supported a \<noteq> 0
      then do { (lchk, a) \<leftarrow> sctp_try_advance_peer_ack_point env a;
                if SCTP_TSN_GT (advanced_peer_ack_point a) (last_acked_seq a)
                then do { let a = snd_emit [Forward_tsn_sent] a;
                          case lchk of None \<Rightarrow> Some a | Some j \<Rightarrow> do { c \<leftarrow> chunk_at j a; start_send_timer (chk_whoTo c) a } }
                else Some a }
      else Some a)"

text \<open>The loss recovery ends, and a satellite connection must not enlarge its window until the next new TSN is acknowledged.\<close>

definition t3_recovery :: "snd_env \<Rightarrow> nat \<Rightarrow> snd_asoc \<Rightarrow> snd_asoc option" where
  "t3_recovery env k a =
     do { let a = a\<lparr>asoc_cc := (asoc_cc a)\<lparr>fast_retran_loss_recovery := 0\<rparr>\<rparr>;
          (n, d) \<leftarrow> net_at (Some k) a;
          let n = n\<lparr>net_fast_retran_loss_recovery := 0\<rparr>;
          let a = put_net (Some k) n d a;
          let n = (if flight_size n = 0 then cc_new_transmission_begins (env_cc env) (snd_module a) (asoc_cc a) n else n);
          Some ((put_net (Some k) n d a)\<lparr>sat_t3_loss_recovery := 1, sat_t3_recovery_tsn := sending_seq (asoc_cc a)\<rparr>) }"

definition sctp_t3rxt_timer :: "snd_env \<Rightarrow> nat \<Rightarrow> snd_asoc \<Rightarrow> (bool \<times> snd_asoc) option" where
  "sctp_t3rxt_timer env k a =
     do { (n, d) \<leftarrow> net_at (Some k) a;
          let win_probe = (peers_rwnd (asoc_cc a) = 0 \<and> total_flight a < mtu n);
          (destroyed, a) \<leftarrow> sctp_threshold_management env (if win_probe then None else Some k) (max_send_times a) a;
          if destroyed then Some (True, a)
          else do { a \<leftarrow> (if win_probe then Some a else stale_heartbeat env k a);
                    (alt, a) \<leftarrow> t3_alternate env k a;
                    (num_marked, num_abandoned, a) \<leftarrow> sctp_mark_all_for_resend env k alt win_probe a;
                    a \<leftarrow> t3_recovery env k a;
                    a \<leftarrow> sctp_backoff_on_timeout env k win_probe num_marked num_abandoned a;
                    a \<leftarrow> leave_net k alt a;
                    a \<leftarrow> t3_end env k a;
                    Some (False, a) } }"

end
