(* ===== verification/Snd_T3_Correct.thy ===== *)
theory Snd_T3_Correct
  imports Snd_Invariant Snd_T3
begin

text \<open>
  What the expiry of a retransmission timer does to the sent queue: exactly the chunks that were sent to the destination long enough ago are marked, and the
  data in flight is counted exactly. The number of chunks that wait for a retransmission is right only if no chunk sent lately waits already.
\<close>

section \<open>What becomes of a chunk\<close>

definition resent :: "nat \<Rightarrow> nat option \<Rightarrow> u32 \<Rightarrow> data_chunk \<Rightarrow> data_chunk" where
  "resent k alt fr c =
     (let c = (if in_flight c then c\<lparr>chunk_was_revoked := 0, chk_window_probe := 0\<rparr> else c);
          c = c\<lparr>chk_sent := SCTP_DATAGRAM_RESEND, pr_flags := pr_flags c OR CHUNK_FLAGS_FRAGMENT_OK, doing_fast_retransmit := 0, do_rtt := 0\<rparr>
      in if alt \<noteq> Some k then c\<lparr>no_fr_allowed := 1, chk_whoTo := alt\<rparr> else c\<lparr>no_fr_allowed := 0, fast_retran_tsn := fr\<rparr>)"

definition overdue :: "nat \<Rightarrow> bool \<Rightarrow> int \<times> int \<Rightarrow> data_chunk \<Rightarrow> bool" where
  "overdue k wp w c \<longleftrightarrow> chk_whoTo c = Some k \<and> chk_sent c < SCTP_DATAGRAM_ACKED \<and> \<not> too_young wp w c"

definition timeout_effect :: "nat \<Rightarrow> nat option \<Rightarrow> bool \<Rightarrow> int \<times> int \<Rightarrow> u32 \<Rightarrow> data_chunk \<Rightarrow> data_chunk" where
  "timeout_effect k alt wp w fr c = (if overdue k wp w c then resent k alt fr c else c)"

lemma fragment_ok_policy: "PR_SCTP_ENABLED (f OR CHUNK_FLAGS_FRAGMENT_OK) = PR_SCTP_ENABLED f"
proof -
  have "(f OR CHUNK_FLAGS_FRAGMENT_OK) AND 0x0f = f AND 0x0f"
    by (simp add: CHUNK_FLAGS_FRAGMENT_OK_def bit.conj_disj_distrib2)
  then show ?thesis by (simp add: PR_SCTP_ENABLED_def PR_SCTP_POLICY_def)
qed

lemma resent_keep [simp]:
  "tsn (resent k alt fr c) = tsn c" "chk_sent (resent k alt fr c) = SCTP_DATAGRAM_RESEND" "has_data (resent k alt fr c) = has_data c"
  by (simp_all add: resent_def Let_def)

lemma timeout_tsn [simp]: "tsn (timeout_effect k alt wp w fr c) = tsn c"
  by (simp add: timeout_effect_def)

text \<open>Marking is a step on the books, up to the destination.\<close>

lemma mark_flight_ok:
  assumes "sender_chunk a c" "in_flight c"
  shows "\<exists>b. mark_flight env c a = Some (c\<lparr>chunk_was_revoked := 0, chk_window_probe := 0\<rparr>, b) \<and>
    view b = (fixed a, leave c (the (chk_whoTo c)) (counters a), sent_queue a, sctp_ucount_incr (sent_queue_retran_cnt a)) \<and> snd_queue b = snd_queue a"
proof -
  let ?a = "a\<lparr>sent_queue_retran_cnt := sctp_ucount_incr (sent_queue_retran_cnt a)\<rparr>"
  obtain i where i: "chk_whoTo c = Some i" "valid_net a (Some i)" using assms(1) by (cases "chk_whoTo c") (auto simp: sender_chunk_def valid_net_def)
  have "valid_net ?a (chk_whoTo c)" using i by (simp add: valid_net_def)
  from undo_revoke_ok [OF disjI2, OF this] undo_revoke_view [OF disjI2, OF this] obtain a1 where
    a1: "undo_revoke c ?a = Some (c\<lparr>chunk_was_revoked := 0\<rparr>, a1)" "view a1 = view ?a" by auto
  have q1: "snd_queue a1 = snd_queue a" using a1(1) by (auto simp: undo_revoke_def Option.bind_eq_Some_conv split: if_split_asm)
  have f1: "fixed a1 = fixed a" "counters a1 = counters a" "sent_queue a1 = sent_queue a" "sent_queue_retran_cnt a1 = sctp_ucount_incr (sent_queue_retran_cnt a)"
    using a1(2) by (simp_all add: view_def counters_def)
  have "valid_net a1 (Some i)" using i(2) fixed_shape [OF f1(1)] by (simp add: valid_net_def shape_def)
  then obtain n d where nd: "net_at (Some i) a1 = Some (n, d)" using valid_net_at by blast
  then have n: "i < length (nets (asoc_cc a1))" "nets (asoc_cc a1) ! i = n" by (auto simp: net_at_def split: if_splits)
  define a2 where "a2 = sctp_total_flight_decrease (c\<lparr>chunk_was_revoked := 0\<rparr>) (put_net (Some i) (sctp_flight_size_decrease (c\<lparr>chunk_was_revoked := 0\<rparr>) n) d a1)"
  have "counters a2 = leave c i (counters a1)"
    using n by (simp add: a2_def total_flight_decrease_keep(1)) (simp add: put_net_def leave_def counters_def map_update)
  then have "view a2 = (fixed a, leave c i (counters a), sent_queue a, sctp_ucount_incr (sent_queue_retran_cnt a))" "snd_queue a2 = snd_queue a"
    using f1 q1 by (simp_all add: view_def a2_def total_flight_decrease_keep(3))
  moreover have "mark_flight env c a = Some (c\<lparr>chunk_was_revoked := 0, chk_window_probe := 0\<rparr>,
      add_peers_rwnd (sctp_peer_chunk_oh env) (add_peers_rwnd (ucast (chk_send_size c)) a2))"
    by (simp add: mark_flight_def a1(1) i(1) nd a2_def)
  ultimately show ?thesis using i(1) by simp
qed

lemma mark_resend_ok:
  assumes q: "good a (sent_queue a)" and j: "j < length (sent_queue a)" "c = sent_queue a ! j"
    and k: "chk_whoTo c = Some k" "chk_sent c < SCTP_DATAGRAM_ACKED" and alt: "valid_net a alt" and cmt: "sctp_cmt_on_off (asoc_cc a) = 0"
  shows "\<exists>b. mark_resend env k alt j c a = Some b \<and> good b (sent_queue b) \<and> fixed b = fixed a \<and> snd_queue b = snd_queue a \<and>
    sent_queue b = (sent_queue a)[j := resent k alt (next_to_send (sending_seq (asoc_cc a)) a) c]"
proof -
  let ?fr = "next_to_send (sending_seq (asoc_cc a)) a"
  have sc: "sender_chunk a c" using q j by (simp add: good_def list_all_length)
  then have sent: "in_flight c \<or> chk_sent c = SCTP_DATAGRAM_RESEND" using k(2) by (auto simp: sender_chunk_def known_state_def in_flight_def)
  define c1 where "c1 = (if in_flight c then c\<lparr>chunk_was_revoked := 0, chk_window_probe := 0\<rparr> else c)"
  have "\<exists>a1. (if chk_sent c < SCTP_DATAGRAM_RESEND then mark_flight env c a else Some (c, a)) = Some (c1, a1) \<and> fixed a1 = fixed a \<and>
      counters a1 = (if in_flight c then leave c k (counters a) else counters a) \<and> sent_queue a1 = sent_queue a \<and> snd_queue a1 = snd_queue a \<and>
      sent_queue_retran_cnt a1 = (if in_flight c then sctp_ucount_incr (sent_queue_retran_cnt a) else sent_queue_retran_cnt a)"
    using mark_flight_ok [OF sc, of env] k(1) by (cases "in_flight c") (auto simp: c1_def in_flight_def dest: view_eqs)
  then obtain a1 where a1: "(if chk_sent c < SCTP_DATAGRAM_RESEND then mark_flight env c a else Some (c, a)) = Some (c1, a1)" "fixed a1 = fixed a"
    "counters a1 = (if in_flight c then leave c k (counters a) else counters a)" "sent_queue a1 = sent_queue a" "snd_queue a1 = snd_queue a"
    "sent_queue_retran_cnt a1 = (if in_flight c then sctp_ucount_incr (sent_queue_retran_cnt a) else sent_queue_retran_cnt a)" by blast
  define c2 where "c2 = c1\<lparr>chk_sent := SCTP_DATAGRAM_RESEND, pr_flags := pr_flags c1 OR CHUNK_FLAGS_FRAGMENT_OK, doing_fast_retransmit := 0\<rparr>"
  have w2: "chk_whoTo c2 = Some k" using k(1) by (simp add: c2_def c1_def)
  have "valid_net a1 (chk_whoTo c2)" using sc w2 k(1) fixed_shape [OF a1(2)] by (simp add: sender_chunk_def valid_net_def shape_def)
  from cancel_rtt_view [OF this] obtain a2 where a2: "cancel_rtt c2 a1 = Some a2" "view a2 = view a1" by blast
  have q2: "snd_queue a2 = snd_queue a" using a2(1) a1(5) by (auto simp: cancel_rtt_def Option.bind_eq_Some_conv split: if_splits option.splits)
  have f2: "fixed a2 = fixed a" "sent_queue a2 = sent_queue a" using a2(2) a1(2,4) by (simp_all add: view_def)
  have fr: "next_to_send (sending_seq (asoc_cc a2)) a2 = ?fr" "sctp_cmt_on_off (asoc_cc a2) = 0" using q2 f2(1) cmt by (simp_all add: next_to_send_def fixed_def)
  define c3 where "c3 = c2\<lparr>do_rtt := 0, no_fr_allowed := (if alt \<noteq> Some k then 1 else 0), fast_retran_tsn := (if alt \<noteq> Some k then fast_retran_tsn c2 else ?fr)\<rparr>"
  have rs: "resent k alt ?fr c = (if alt \<noteq> Some k then c2\<lparr>do_rtt := 0, no_fr_allowed := 1, chk_whoTo := alt\<rparr>
      else c2\<lparr>do_rtt := 0, no_fr_allowed := 0, fast_retran_tsn := ?fr\<rparr>)"
    by (simp add: resent_def Let_def c2_def c1_def)
  have same: "c2\<lparr>do_rtt := 0, no_fr_allowed := 0, fast_retran_tsn := ?fr, chk_whoTo := Some k\<rparr> = c2\<lparr>do_rtt := 0, no_fr_allowed := 0, fast_retran_tsn := ?fr\<rparr>"
    using w2 by (cases c2) simp
  have r: "resent k alt ?fr c = c3\<lparr>chk_whoTo := alt\<rparr>" unfolding rs by (simp add: c3_def same)
  have eq: "mark_resend env k alt j c a = Some (put_chunk j (resent k alt ?fr c) a2)"
    unfolding mark_resend_def a1(1) Option.bind.simps prod.case Let_def c2_def [symmetric] a2(1) rs using fr alt by (cases alt) (simp_all add: valid_net_def)
  have flags: "PR_SCTP_ENABLED (pr_flags c3) = PR_SCTP_ENABLED (pr_flags c)" by (simp add: c3_def c2_def c1_def fragment_ok_policy)
  have pr: "probe_ok c" using sc by (simp add: sender_chunk_def)
  have "step_ok c c3 a (put_chunk j c3 a2)"
    using sent k pr flags a1(3,6) a2(2) f2(1)
    by (auto simp: step_ok_def kept_def flight_step_def retran_step_def c3_def c2_def c1_def probe_ok_def known_state_def in_flight_def datagram_states view_def) (simp_all add: put_chunk_def)
  from good_update [OF q j(1) this [unfolded j(2)]] f2(2) have g: "good (put_chunk j c3 a2) ((sent_queue a)[j := c3])" by simp
  have out: "\<not> in_flight c3" by (simp add: c3_def c2_def in_flight_def)
  have "good (put_chunk j c3 a2) (take j (sent_queue a) @ c3 # drop (Suc j) (sent_queue a))" using g by (simp add: upd_conv_take_nth_drop [OF j(1)])
  moreover have "valid_net (put_chunk j c3 a2) alt" using alt fixed_shape [OF f2(1)] by (simp add: valid_net_def shape_def put_chunk_def split: option.splits)
  ultimately have "good (put_chunk j c3 a2) ((sent_queue a)[j := resent k alt ?fr c])"
    using good_retarget [OF _ out] r by (simp add: upd_conv_take_nth_drop [OF j(1)])
  then have "good (put_chunk j (resent k alt ?fr c) a2) ((sent_queue a)[j := resent k alt ?fr c])"
    by (rule good_fixed) (simp_all add: put_chunk_def counters_def)
  with eq f2 q2 show ?thesis by (auto simp: put_chunk_def fixed_def shape_def)
qed

lemma mark_flight_ctl: "mark_flight env c a = Some (c', b) \<Longrightarrow> ctl_queue b = ctl_queue a"
  by (auto simp: mark_flight_def undo_revoke_def sctp_total_flight_decrease_def add_peers_rwnd_def put_net_def Let_def Option.bind_eq_Some_conv
      split: if_split_asm option.splits)

lemma mark_resend_ctl:
  assumes "mark_resend env k alt j c a = Some b"
  shows "ctl_queue b = ctl_queue a"
proof -
  obtain c1 a1 where 1: "(if chk_sent c < SCTP_DATAGRAM_RESEND then mark_flight env c a else Some (c, a)) = Some (c1, a1)"
    using assms by (auto simp: mark_resend_def Option.bind_eq_Some_conv)
  then have "ctl_queue a1 = ctl_queue a" using mark_flight_ctl [of env c a c1 a1] by (auto split: if_splits)
  moreover obtain c2 a2 c3 where 2: "cancel_rtt c2 a1 = Some a2" "b = put_chunk j c3 a2"
    using assms 1 unfolding mark_resend_def Let_def by (auto simp: Option.bind_eq_Some_conv)
  moreover have "ctl_queue a2 = ctl_queue a1" using 2(1)
    by (auto simp: cancel_rtt_def put_net_def Option.bind_eq_Some_conv split: if_splits option.splits)
  ultimately show ?thesis by (simp add: put_chunk_def)
qed

section \<open>The queue\<close>

text \<open>The chunks that the loop counts as waiting for a retransmission: a chunk of the destination that waits already but was sent lately is not among them.\<close>

definition counted :: "nat \<Rightarrow> bool \<Rightarrow> int \<times> int \<Rightarrow> data_chunk \<Rightarrow> bool" where
  "counted k wp w c \<longleftrightarrow> overdue k wp w c \<or> chk_whoTo c \<noteq> Some k \<and> chk_sent c = SCTP_DATAGRAM_RESEND"

definition newly_marked :: "nat \<Rightarrow> bool \<Rightarrow> int \<times> int \<Rightarrow> data_chunk \<Rightarrow> bool" where
  "newly_marked k wp w c \<longleftrightarrow> overdue k wp w c \<and> in_flight c"

abbreviation rest :: "snd_asoc \<Rightarrow> ((nat \<times> nat \<times> nat) \<times> cc_module \<times> u8 \<times> u32 \<times> u32 \<times> u8 \<times> u32) \<times> data_chunk list \<times> control_chunk list" where
  "rest a \<equiv> (fixed a, snd_queue a, ctl_queue a)"

lemma mark_step_ok:
  assumes q: "good a (sent_queue a)" and j: "j < length (sent_queue a)" "c = sent_queue a ! j"
    and alt: "valid_net a alt" and cmt: "sctp_cmt_on_off (asoc_cc a) = 0" and fr: "fr = next_to_send (sending_seq (asoc_cc a)) a"
  shows "\<exists>m' b. mark_step env k alt wp w j m a = Some (m', b) \<and> good b (sent_queue b) \<and> rest b = rest a \<and>
    sent_queue b = (sent_queue a)[j := timeout_effect k alt wp w fr c] \<and>
    num_mk m' = num_mk m + (if newly_marked k wp w c then 1 else 0) \<and> cnt_mk m' = cnt_mk m + (if counted k wp w c then 1 else 0) \<and>
    cnt_abandoned m' = cnt_abandoned m"
proof -
  have at: "chunk_at j a = Some c" using j by (simp add: chunk_at_def)
  have sc: "sender_chunk a c" using q j by (simp add: good_def list_all_length)
  have nopr: "\<not> PR_SCTP_TTL_ENABLED (pr_flags c)" "\<not> PR_SCTP_RTX_ENABLED (pr_flags c)" using sc no_policy by (simp_all add: sender_chunk_def)
  have st: "chk_sent c < SCTP_DATAGRAM_RESEND \<longleftrightarrow> in_flight c" by (simp add: in_flight_def)
  have low: "chk_sent c = SCTP_DATAGRAM_RESEND \<Longrightarrow> chk_sent c < SCTP_DATAGRAM_ACKED" by (simp add: datagram_states)
  show ?thesis
  proof (cases "overdue k wp w c")
    case True
    then have o: "chk_whoTo c = Some k" "chk_sent c < SCTP_DATAGRAM_ACKED" "\<not> too_young wp w c" by (simp_all add: overdue_def)
    from mark_resend_ok [OF q j o(1,2) alt cmt, of env] obtain b where b: "mark_resend env k alt j c a = Some b" "good b (sent_queue b)" "fixed b = fixed a"
      "snd_queue b = snd_queue a" "sent_queue b = (sent_queue a)[j := resent k alt fr c]" unfolding fr by blast
    with mark_resend_ctl [OF b(1)] show ?thesis using o nopr True by (simp add: mark_step_def at st timeout_effect_def newly_marked_def counted_def)
  next
    case False
    have same: "sent_queue a = (sent_queue a)[j := timeout_effect k alt wp w fr c]" using False j(2) by (simp add: timeout_effect_def)
    have "\<exists>m'. mark_step env k alt wp w j m a = Some (m', a) \<and> num_mk m' = num_mk m \<and> cnt_mk m' = cnt_mk m + (if counted k wp w c then 1 else 0) \<and>
        cnt_abandoned m' = cnt_abandoned m"
      using False low by (auto simp: mark_step_def at overdue_def counted_def)
    with same q False show ?thesis by (auto simp: newly_marked_def)
  qed
qed

lemma mark_loop_ok:
  assumes "good a (sent_queue a)" "sent_queue a = map (timeout_effect k alt wp w fr) ps @ cs" "valid_net a alt" "sctp_cmt_on_off (asoc_cc a) = 0"
    "fr = next_to_send (sending_seq (asoc_cc a)) a" "list_all (\<lambda>c. SCTP_TSN_GT (tsn c) (last_acked_seq a)) cs"
  shows "\<exists>m' b. mark_loop env k alt wp w r (if cs = [] then None else Some (length ps)) m a = Some (m', b) \<and> good b (sent_queue b) \<and> rest b = rest a \<and>
    sent_queue b = map (timeout_effect k alt wp w fr) (ps @ cs) \<and>
    num_mk m' = num_mk m + int (length (filter (newly_marked k wp w) cs)) \<and> cnt_mk m' = cnt_mk m + of_nat (length (filter (counted k wp w) cs)) \<and>
    cnt_abandoned m' = cnt_abandoned m"
  using assms
proof (induction cs arbitrary: ps m a)
  case Nil
  then show ?case by (simp add: mark_loop.simps)
next
  case (Cons c cs)
  let ?j = "length ps" and ?eff = "timeout_effect k alt wp w fr"
  have j: "?j < length (sent_queue a)" "c = sent_queue a ! ?j" using Cons.prems(2) by (simp_all add: nth_append)
  from mark_step_ok [OF Cons.prems(1) j Cons.prems(3,4,5), of env k wp w m] obtain m1 a1 where 1: "mark_step env k alt wp w ?j m a = Some (m1, a1)"
    "good a1 (sent_queue a1)" "rest a1 = rest a" "sent_queue a1 = (sent_queue a)[?j := ?eff c]"
    "num_mk m1 = num_mk m + (if newly_marked k wp w c then 1 else 0)" "cnt_mk m1 = cnt_mk m + (if counted k wp w c then 1 else 0)" "cnt_abandoned m1 = cnt_abandoned m" by blast
  have q1: "sent_queue a1 = map ?eff (ps @ [c]) @ cs" using 1(4) Cons.prems(2) by (simp add: list_update_append)
  have f1: "fixed a1 = fixed a" "snd_queue a1 = snd_queue a" "ctl_queue a1 = ctl_queue a" using 1(3) by simp_all
  have p: "valid_net a1 alt" "sctp_cmt_on_off (asoc_cc a1) = 0" "fr = next_to_send (sending_seq (asoc_cc a1)) a1" "last_acked_seq a1 = last_acked_seq a"
    using Cons.prems(3-5) f1 by (simp_all add: valid_net_def fixed_def shape_def next_to_send_def split: option.splits)
  have gt: "list_all (\<lambda>c. SCTP_TSN_GT (tsn c) (last_acked_seq a1)) cs" using Cons.prems(6) p(4) by simp
  have len: "length (ps @ [c]) = Suc ?j" by simp
  from Cons.IH [OF 1(2) q1 p(1,2,3) gt, of m1, unfolded len] obtain m2 b where b: "mark_loop env k alt wp w r (if cs = [] then None else Some (Suc ?j)) m1 a1 = Some (m2, b)"
    "good b (sent_queue b)" "rest b = rest a1" "sent_queue b = map ?eff ((ps @ [c]) @ cs)"
    "num_mk m2 = num_mk m1 + int (length (filter (newly_marked k wp w) cs))" "cnt_mk m2 = cnt_mk m1 + of_nat (length (filter (counted k wp w) cs))" "cnt_abandoned m2 = cnt_abandoned m1" by blast
  have "\<not> SCTP_TSN_GE (last_acked_seq a) (tsn c)" using Cons.prems(6) using GT_asym by (auto simp: SCTP_UINT32_GE_def)
  moreover have "next_chunk ?j a = (if cs = [] then None else Some (Suc ?j))" using Cons.prems(2) by (simp add: next_chunk_def)
  ultimately have "mark_loop env k alt wp w r (Some ?j) m a = Some (m2, b)"
    using 1(1) b(1) j by (simp add: mark_loop.simps chunk_at_def)
  with 1 b show ?case by simp
qed

text \<open>The audit of the data in flight never finds a difference: what leaves the flight was sent to the destination.\<close>

lemma resent_out: "\<not> in_flight (resent k alt fr c)"
  by (simp add: in_flight_def)

lemma audit_agrees:
  "flight_of book q + flight_of (to_net k) (map (timeout_effect k alt wp w fr) q) =
   flight_of (to_net k) q + flight_of book (map (timeout_effect k alt wp w fr) q)"
  by (induction q) (auto simp: flight_of_def timeout_effect_def resent_out overdue_def to_net_def)

lemma word_difference:
  fixes f t f' t' :: u32
  assumes "unat t + unat f' = unat f + unat t'"
  shows "f - f' = t - t'"
proof -
  have "t + f' = f + t'" using arg_cong [OF assms, of "of_nat :: nat \<Rightarrow> u32"] by simp
  then show ?thesis by (simp add: algebra_simps)
qed

definition idle_control :: "snd_asoc \<Rightarrow> bool" where
  "idle_control a \<longleftrightarrow> list_all (\<lambda>c. ctl_sent c \<noteq> SCTP_DATAGRAM_RESEND \<and> ctl_id c \<noteq> SCTP_ECN_ECHO) (ctl_queue a)"

lemma mark_control_idle:
  "list_all (\<lambda>c. ctl_sent c \<noteq> SCTP_DATAGRAM_RESEND \<and> ctl_id c \<noteq> SCTP_ECN_ECHO) q \<Longrightarrow> mark_control k alt q cnt r = Some (q, cnt, r)"
  by (induction q) simp_all

lemma mark_all_ok:
  assumes q: "good a (sent_queue a)" and n: "net_at (Some k) a = Some (n, d)" and alt: "valid_net a alt" and cmt: "sctp_cmt_on_off (asoc_cc a) = 0"
    and gt: "list_all (\<lambda>c. SCTP_TSN_GT (tsn c) (last_acked_seq a)) (sent_queue a)" and ctl: "idle_control a"
    and w: "w = min_wait (cc_now (env_cc env)) n d"
  shows "\<exists>b r. sctp_mark_all_for_resend env k alt wp a = Some (int (length (filter (newly_marked k wp w) (sent_queue a))), 0, b) \<and>
    good (b\<lparr>sent_queue_retran_cnt := r\<rparr>) (sent_queue b) \<and> fixed b = fixed a \<and>
    sent_queue b = map (timeout_effect k alt wp w (next_to_send (sending_seq (asoc_cc a)) a)) (sent_queue a) \<and>
    sent_queue_retran_cnt b = of_nat (length (filter (counted k wp w) (sent_queue a)))"
proof -
  let ?fr = "next_to_send (sending_seq (asoc_cc a)) a" and ?m = "\<lparr>num_mk = 0, cnt_mk = 0, cnt_abandoned = 0\<rparr>"
  have first: "first_chunk a = (if sent_queue a = [] then None else Some (length ([] :: data_chunk list)))" by (simp add: first_chunk_def)
  from mark_loop_ok [of a k alt wp w ?fr "[]" "sent_queue a" env 0 ?m, OF q _ alt cmt refl gt, folded first] obtain m b where
    b: "mark_loop env k alt wp w 0 (first_chunk a) ?m a = Some (m, b)" "good b (sent_queue b)" "rest b = rest a"
      "sent_queue b = map (timeout_effect k alt wp w ?fr) (sent_queue a)"
      "num_mk m = int (length (filter (newly_marked k wp w) (sent_queue a)))" "cnt_mk m = of_nat (length (filter (counted k wp w) (sent_queue a)))"
      "cnt_abandoned m = 0" by auto
  have f: "fixed b = fixed a" "ctl_queue b = ctl_queue a" using b(3) by simp_all
  have k: "k < length (nets (asoc_cc a))" "k < length (dests a)" "n = nets (asoc_cc a) ! k" using n by (auto simp: net_at_def split: if_splits)
  then have kb: "k < length (nets (asoc_cc b))" "k < length (dests b)" using fixed_shape [OF f(1)] by (simp_all add: shape_def)
  define n' d' where "n' = nets (asoc_cc b) ! k" and "d' = dests b ! k"
  have n': "net_at (Some k) b = Some (n', d')" using kb by (simp add: net_at_def n'_def d'_def)
  have fl: "flight_ok a" "flight_ok b" using q b(2) by (simp_all add: good_def books_ok_def)
  have "unat (total_flight a) + unat (flight_size n') = unat (flight_size n) + unat (total_flight b)"
    using fl k kb audit_agrees [of "sent_queue a" k alt wp w ?fr] by (simp add: flight_ok_def n'_def b(4))
  then have audit: "flight_size n - flight_size n' = total_flight a - total_flight b" by (rule word_difference)
  define b' where "b' = b\<lparr>sent_queue_retran_cnt := cnt_mk m\<rparr>"
  have "mark_control k alt (ctl_queue b) (cnt_mk m) (sent_queue_retran_cnt b) = Some (ctl_queue b, cnt_mk m, sent_queue_retran_cnt b)"
    using ctl f(2) by (simp add: mark_control_idle idle_control_def)
  then have "sctp_mark_all_for_resend env k alt wp a = Some (num_mk m, cnt_abandoned m, b')"
    unfolding sctp_mark_all_for_resend_def n Option.bind.simps prod.case Let_def w [symmetric] b(1) n' using audit by (simp add: b'_def)
  moreover have "b'\<lparr>sent_queue_retran_cnt := sent_queue_retran_cnt b\<rparr> = b" by (simp add: b'_def)
  then have "good (b'\<lparr>sent_queue_retran_cnt := sent_queue_retran_cnt b\<rparr>) (sent_queue b')" using b(2) by (simp add: b'_def)
  moreover have "fixed b' = fixed a" using f(1) by (simp add: b'_def fixed_def shape_def)
  ultimately show ?thesis using b(4-7) by (intro exI [of _ b'] exI [of _ "sent_queue_retran_cnt b"]) (simp add: b'_def)
qed

section \<open>The rest of the timer\<close>

text \<open>What happens before the marking leaves the books, the queues and the round trip times alone.\<close>

definition quiet_step :: "snd_asoc \<Rightarrow> snd_asoc \<Rightarrow> bool" where
  "quiet_step a b \<longleftrightarrow> view b = view a \<and> snd_queue b = snd_queue a \<and> ctl_queue b = ctl_queue a \<and> asoc_cc b = asoc_cc a \<and> map lastsv (dests b) = map lastsv (dests a)"

lemma quiet_refl [simp]: "quiet_step a a"
  by (simp add: quiet_step_def)

lemma quiet_trans: "quiet_step a b \<Longrightarrow> quiet_step b c \<Longrightarrow> quiet_step a c"
  by (simp add: quiet_step_def)

lemma quiet_emit [simp]: "quiet_step a (snd_emit es a)"
  by (simp add: quiet_step_def) (simp add: snd_emit_def)

lemma quiet_put:
  assumes "net_at (Some k) a = Some (n, d)" "lastsv d' = lastsv d"
  shows "quiet_step a (put_net (Some k) n d' a)"
proof -
  have k: "n = nets (asoc_cc a) ! k" "d = dests a ! k" "k < length (dests a)" using assms(1) by (auto simp: net_at_def split: if_splits)
  have "map lastsv ((dests a)[k := d']) = map lastsv (dests a)" using assms(2) k by (simp add: map_update list_update_same_conv)
  then show ?thesis using view_put_net [OF assms(1) refl] by (simp add: quiet_step_def) (simp add: put_net_def k(1))
qed

lemma view_valid: "view b = view a \<Longrightarrow> valid_net b p = valid_net a p"
  using fixed_shape [of b a] by (simp add: view_def valid_net_def shape_def split: option.split)

lemma quiet_valid: "quiet_step a b \<Longrightarrow> valid_net b p = valid_net a p"
  by (rule view_valid) (simp add: quiet_step_def)

lemma net_at_emit [simp]: "net_at p (snd_emit es a) = net_at p a"
  by (cases p) (simp_all add: net_at_def snd_emit_def)

lemma net_error_quiet: "net_error env k d a = (d', b) \<Longrightarrow> quiet_step a b \<and> lastsv d' = lastsv d \<and> net_at p b = net_at p a"
  by (auto simp: net_error_def Let_def split: if_splits)

lemma threshold_ok:
  assumes "p = None \<or> p = Some k" "valid_net a (Some k)"
  shows "\<exists>ab b. sctp_threshold_management env p t a = Some (ab, b) \<and> quiet_step a b"
proof -
  have more: "quiet_step a b \<Longrightarrow> quiet_step a (b\<lparr>overall_error_count := e\<rparr>)" for b e by (simp add: quiet_step_def)
  have "\<exists>cnt a1. (case p of None \<Rightarrow> Some (True, a)
      | Some k \<Rightarrow> do { (n, d) \<leftarrow> net_at p a; let (d, a) = net_error env k d a; Some (dest_state d AND SCTP_ADDR_UNCONFIRMED = 0, put_net p n d a) }) = Some (cnt, a1) \<and>
      quiet_step a a1"
  proof (cases p)
    case (Some j)
    then have j: "j = k" using assms(1) by simp
    obtain n d where nd: "net_at (Some k) a = Some (n, d)" using valid_net_at [OF assms(2)] by blast
    obtain d' b where e: "net_error env k d a = (d', b)" by fastforce
    from net_error_quiet [OF e, of "Some k"] nd have "quiet_step a b" "quiet_step b (put_net (Some k) n d' b)" by (auto intro: quiet_put)
    with quiet_trans show ?thesis using nd e by (simp add: Some j)
  next
    case None
    then show ?thesis by (intro exI [of _ True] exI [of _ a]) simp
  qed
  then obtain cnt a1 where 1: "(case p of None \<Rightarrow> Some (True, a)
      | Some k \<Rightarrow> do { (n, d) \<leftarrow> net_at p a; let (d, a) = net_error env k d a; Some (dest_state d AND SCTP_ADDR_UNCONFIRMED = 0, put_net p n d a) }) = Some (cnt, a1)"
    "quiet_step a a1" by blast
  define a2 where "a2 = (if cnt then a1\<lparr>overall_error_count := overall_error_count a1 + 1\<rparr> else a1)"
  have "quiet_step a a2" using more [OF 1(2)] 1(2) by (simp add: a2_def)
  moreover have "sctp_threshold_management env p t a =
      Some (if overall_error_count a2 > ucast t then (True, snd_emit [Abort_association (diag_info_code env)] a2) else (False, a2))"
    unfolding sctp_threshold_management_def Let_def 1(1) [unfolded Let_def] Option.bind.simps prod.case a2_def ..
  ultimately show ?thesis using quiet_trans [OF _ quiet_emit] by (cases "overall_error_count a2 > ucast t") auto
qed

lemma heartbeat_ok:
  assumes "valid_net a (Some k)"
  shows "\<exists>b. stale_heartbeat env k a = Some b \<and> quiet_step a b"
  using valid_net_at [OF assms] by (auto simp: stale_heartbeat_def)

lemma next_reachable_ok:
  assumes "\<forall>j\<in>set ks. valid_net a (Some j)"
  shows "\<exists>p b. next_reachable ks a = Some (p, b) \<and> quiet_step a b \<and> (p = None \<or> valid_net a p)"
  using assms
proof (induction ks arbitrary: a)
  case (Cons k ks)
  from Cons.prems obtain n d where nd: "net_at (Some k) a = Some (n, d)" using valid_net_at [of a "Some k"] by auto
  define e where "e = (if has_route d then d else d\<lparr>src_addr := False, src_addr_selected := 0\<rparr>)"
  have s: "quiet_step a (put_net (Some k) n e a)" by (rule quiet_put [OF nd]) (simp add: e_def)
  have "\<forall>j\<in>set ks. valid_net (put_net (Some k) n e a) (Some j)" using Cons.prems quiet_valid [OF s] by simp
  from Cons.IH [OF this] obtain p b where b: "next_reachable ks (put_net (Some k) n e a) = Some (p, b)" "quiet_step (put_net (Some k) n e a) b"
    "p = None \<or> valid_net (put_net (Some k) n e a) p" by blast
  have eq: "next_reachable (k # ks) a =
      (if dest_state e AND SCTP_ADDR_REACHABLE = SCTP_ADDR_REACHABLE \<and> has_route e \<and> dest_state e AND SCTP_ADDR_UNCONFIRMED = 0
       then Some (Some k, put_net (Some k) n e a) else next_reachable ks (put_net (Some k) n e a))"
    unfolding next_reachable.simps nd Option.bind.simps prod.case Let_def e_def ..
  show ?case
  proof (cases "dest_state e AND SCTP_ADDR_REACHABLE = SCTP_ADDR_REACHABLE \<and> has_route e \<and> dest_state e AND SCTP_ADDR_UNCONFIRMED = 0")
    case True
    then have "next_reachable (k # ks) a = Some (Some k, put_net (Some k) n e a)" unfolding eq by simp
    with s Cons.prems show ?thesis by auto
  next
    case False
    then have "next_reachable (k # ks) a = Some (p, b)" unfolding eq using b(1) by auto
    with b quiet_trans [OF s b(2)] quiet_valid [OF s] show ?thesis by auto
  qed
qed simp

lemma next_confirmed_ok: "\<forall>j\<in>set ks. valid_net a (Some j) \<Longrightarrow> \<exists>p. next_confirmed k ks a = Some p \<and> (p = None \<or> valid_net a p)"
proof (induction ks)
  case (Cons j ks)
  then obtain n d where "net_at (Some j) a = Some (n, d)" using valid_net_at [of a "Some j"] by auto
  with Cons show ?case by auto
qed simp

lemma t3_alternate_ok:
  assumes "sctp_cmt_on_off (asoc_cc a) = 0" "valid_net a (Some k)" "length (dests a) = length (nets (asoc_cc a))"
  shows "\<exists>alt b. t3_alternate env k a = Some (alt, b) \<and> quiet_step a b \<and> valid_net a alt"
proof (cases "numnets (asoc_cc a) = 1")
  case True
  then show ?thesis using assms by (cases "dests a") (auto simp: t3_alternate_def sctp_find_alternate_net_def first_net_def valid_net_def)
next
  case False
  have r: "\<forall>j\<in>set (round_from k a). valid_net a (Some j)" using assms(3) by (auto simp: round_from_def valid_net_def)
  from next_reachable_ok [OF this] obtain p b where b: "next_reachable (round_from k a) a = Some (p, b)" "quiet_step a b" "p = None \<or> valid_net a p" by blast
  have "length (dests b) = length (dests a)" using b(2) by (metis length_map quiet_step_def)
  then have "round_from k b = round_from k a" by (simp add: round_from_def)
  then have "\<forall>j\<in>set (round_from k b). valid_net b (Some j)" using r quiet_valid [OF b(2)] by simp
  from next_confirmed_ok [OF this, of k] obtain p' where p': "next_confirmed k (round_from k b) b = Some p'" "p' = None \<or> valid_net b p'" by blast
  have t: "t3_alternate env k a = next_alternate (Some k) a" using assms(1) False by (simp add: t3_alternate_def sctp_find_alternate_net_def)
  show ?thesis
  proof (cases p)
    case None
    then have "next_alternate (Some k) a = Some (case p' of None \<Rightarrow> Some k | Some j \<Rightarrow> Some j, b)" by (simp add: next_alternate_def b(1) p'(1))
    then show ?thesis using t b(2) p'(2) assms(2) quiet_valid [OF b(2)] by (cases p') auto
  next
    case (Some j)
    then show ?thesis using t b by (simp add: next_alternate_def)
  qed
qed

text \<open>What happens afterwards keeps the books.\<close>

lemma t3_recovery_ok:
  assumes "valid_net a (Some k)" "snd_module a = SCTP_CC_RFC2581"
  shows "\<exists>b. t3_recovery env k a = Some b \<and> view b = view a"
proof -
  let ?a = "a\<lparr>asoc_cc := (asoc_cc a)\<lparr>fast_retran_loss_recovery := 0\<rparr>\<rparr>"
  have va: "view ?a = view a" by (simp add: view_def fixed_def shape_def counters_def)
  then obtain n d where nd: "net_at (Some k) ?a = Some (n, d)" using assms(1) view_valid [OF va] valid_net_at [of ?a "Some k"] by blast
  define b where "b = put_net (Some k) (n\<lparr>net_fast_retran_loss_recovery := 0\<rparr>) d ?a"
  have b: "view b = view ?a" unfolding b_def by (rule view_put_net [OF nd]) simp
  then obtain n2 d2 where nd2: "net_at (Some k) b = Some (n2, d2)" using assms(1) va view_valid [of b a] valid_net_at [of b "Some k"] by auto
  have k: "k < length (nets (asoc_cc a))" using nd by (auto simp: net_at_def split: if_splits)
  have "n2 = n\<lparr>net_fast_retran_loss_recovery := 0\<rparr>" using nd2 k by (auto simp: b_def net_at_def put_net_def split: if_splits)
  then have "view (put_net (Some k) (n\<lparr>net_fast_retran_loss_recovery := 0\<rparr>) d b) = view b" by (intro view_put_net [OF nd2]) simp
  moreover have "snd_module b = SCTP_CC_RFC2581" using b va assms(2) by (simp add: view_def fixed_def)
  then have "t3_recovery env k a = Some ((put_net (Some k) (n\<lparr>net_fast_retran_loss_recovery := 0\<rparr>) d b)
      \<lparr>sat_t3_loss_recovery := 1, sat_t3_recovery_tsn := sending_seq (asoc_cc b)\<rparr>)"
    unfolding t3_recovery_def Let_def nd Option.bind.simps prod.case b_def [symmetric] by (simp add: cc_new_transmission_begins_def)
  moreover have "view (x\<lparr>sat_t3_loss_recovery := u, sat_t3_recovery_tsn := t\<rparr>) = view x" for x u t
    by (simp add: view_def fixed_def shape_def counters_def)
  ultimately show ?thesis using b va by simp
qed

lemma backed_off_flight [simp]: "flight_size (backed_off a n d) = flight_size n"
  by (simp add: backed_off_def Let_def)

lemma backoff_ok:
  assumes "valid_net a (Some k)" "snd_module a = SCTP_CC_RFC2581" "sctp_cmt_on_off (asoc_cc a) = 0"
  shows "\<exists>b. sctp_backoff_on_timeout env k wp x y a = Some b \<and> view b = view a"
proof -
  obtain n d where nd: "net_at (Some k) a = Some (n, d)" using valid_net_at [OF assms(1)] by blast
  define n1 where "n1 = backed_off a n d"
  define b where "b = put_net (Some k) n1 d a"
  have b: "view b = view a" unfolding b_def n1_def by (rule view_put_net [OF nd]) simp
  have bm: "snd_module b = SCTP_CC_RFC2581" "sctp_cmt_on_off (asoc_cc b) = 0" using b assms by (simp_all add: view_def fixed_def)
  define n2 where "n2 = n1\<lparr>ssthresh := umax (cwnd n1 div 2) (4 * mtu n1), cwnd := mtu n1, partial_bytes_acked := 0\<rparr>"
  have cc: "cc_after_timeout (env_cc env) (snd_module b) (cc_of b) n1 = Some (cc_of b, n2)"
    using bm no_pooling(1) [of "cc_of b"] by (simp add: cc_after_timeout_def sctp_cwnd_update_after_timeout_def n2_def cc_of_def)
  let ?b = "b\<lparr>asoc_cc := cc_of b\<rparr>"
  have vb: "view ?b = view b" by (simp add: cc_of_def view_def fixed_def shape_def counters_def)
  have k: "k < length (nets (asoc_cc a))" "k < length (dests a)" using nd by (auto simp: net_at_def split: if_splits)
  then have "net_at (Some k) ?b = Some (n1, d)" by (simp add: net_at_def b_def put_net_def cc_of_def)
  then have "view (put_net (Some k) n2 d ?b) = view ?b" by (rule view_put_net) (simp add: n2_def)
  moreover have "sctp_backoff_on_timeout env k wp x y a =
      (if \<not> wp \<and> (x \<noteq> 0 \<or> y \<noteq> 0) then Some (put_net (Some k) n2 d ?b) else Some b)"
    unfolding sctp_backoff_on_timeout_def nd Option.bind.simps prod.case Let_def n1_def [symmetric] b_def [symmetric] cc ..
  ultimately show ?thesis using b vb by auto
qed

lemma leave_net_ok:
  assumes "valid_net a (Some k)"
  shows "\<exists>b. leave_net k alt a = Some b \<and> view b = view a"
proof -
  obtain n d where nd: "net_at (Some k) a = Some (n, d)" using valid_net_at [OF assms] by blast
  let ?m = "sctp_move_chunks_from_net k a"
  have m: "view ?m = view a" by (simp add: sctp_move_chunks_from_net_def view_def fixed_def shape_def counters_def)
  have "net_at (Some k) ?m = Some (n, d)" using nd by (auto simp: net_at_def sctp_move_chunks_from_net_def split: if_splits)
  then have "view (put_net (Some k) n d' ?m) = view a" for d' using view_put_net m by simp
  then show ?thesis by (auto simp: leave_net_def nd Let_def split: option.split)
qed

lemma start_timer_ok:
  assumes "valid_net a p"
  shows "\<exists>b. start_send_timer p a = Some b \<and> view b = view a"
proof -
  obtain k where k: "p = Some k" using assms by (cases p) (auto simp: valid_net_def)
  with valid_net_at [OF assms] view_put_net show ?thesis by (auto simp: start_send_timer_def)
qed

lemma advance_reliable:
  assumes "list_all (sender_chunk a) (sent_queue a)"
  shows "sctp_try_advance_peer_ack_point env a = Some (None, a)"
proof (cases "sent_queue a")
  case (Cons c cs)
  then have "chunk_at 0 a = Some c" "\<not> PR_SCTP_ENABLED (pr_flags c)" using assms by (simp_all add: chunk_at_def sender_chunk_def)
  then have "advance_step env 0 a = Some (False, False, a)" by (simp add: advance_step_def)
  then show ?thesis using Cons by (simp add: sctp_try_advance_peer_ack_point_def first_chunk_def advance_loop.simps)
qed (simp add: sctp_try_advance_peer_ack_point_def first_chunk_def advance_loop.simps)

lemma t3_end_ok:
  assumes "valid_net a (Some k)" "list_all (sender_chunk a) (sent_queue a)"
  shows "\<exists>b. t3_end env k a = Some b \<and> view b = view a"
  using start_timer_ok [OF assms(1)] by (simp add: t3_end_def advance_reliable [OF assms(2)] Let_def)

lemma after_marking_ok:
  assumes "valid_net b (Some k)" "snd_module b = SCTP_CC_RFC2581" "sctp_cmt_on_off (asoc_cc b) = 0" "list_all (sender_chunk b) (sent_queue b)"
  shows "\<exists>b1 b2 b3 b4. t3_recovery env k b = Some b1 \<and> sctp_backoff_on_timeout env k wp x y b1 = Some b2 \<and> leave_net k alt b2 = Some b3 \<and>
    t3_end env k b3 = Some b4 \<and> view b4 = view b"
proof -
  from t3_recovery_ok [OF assms(1,2)] obtain b1 where 1: "t3_recovery env k b = Some b1" "view b1 = view b" by blast
  from backoff_ok [of b1 k env wp x y] assms view_valid [OF 1(2)] 1(2) obtain b2 where 2: "sctp_backoff_on_timeout env k wp x y b1 = Some b2" "view b2 = view b"
    by (auto simp: view_def fixed_def)
  from leave_net_ok [of b2 k alt] assms view_valid [OF 2(2)] 2(2) obtain b3 where 3: "leave_net k alt b2 = Some b3" "view b3 = view b" by auto
  have "sender_chunk b3 = sender_chunk b" by (rule sender_chunk_fixed) (use 3(2) in \<open>simp add: view_def\<close>)
  then have "list_all (sender_chunk b3) (sent_queue b3)" using assms(4) 3(2) by (simp add: view_def)
  from t3_end_ok [OF _ this, of k env] assms view_valid [OF 3(2)] 3(2) 1 2 3 show ?thesis by auto
qed

section \<open>Properties\<close>

lemma quiet_sender:
  assumes "sender_ok a" "quiet_step a b"
  shows "good b (sent_queue b)" "sctp_cmt_on_off (asoc_cc b) = 0" "snd_module b = SCTP_CC_RFC2581" "length (dests b) = length (nets (asoc_cc b))"
    "list_all (\<lambda>c. SCTP_TSN_GT (tsn c) (last_acked_seq b)) (sent_queue b)"
  using assms good_view [of a "sent_queue a" b] by (simp_all add: sender_ok_def quiet_step_def view_def fixed_def good_def books_ok_def snd_ok_def)

text \<open>
  C10: The expiry of the retransmission timer of a destination marks for retransmission exactly those chunks sent to it and not acknowledged that are overdue: the chunks that were sent long enough ago, and in
  a window probe, with the peer's window closed and less than a packet in flight, all of them, however lately they were sent. They go to a valid destination, every other chunk stays as it is, and the data in
  flight stays counted exactly, in total and for every destination. The handler does not follow a NULL pointer. The sender uses the standard congestion control module of RFC 2581 without concurrent
  multipath transfer, all its messages are reliable, and no control chunk waits for a retransmission and none is an ECN echo.
\<close>

theorem t3_marks_overdue:
  assumes "sender_ok a" "idle_control a" "net_at (Some k) a = Some (n, d)"
  shows "\<exists>aborted b. sctp_t3rxt_timer env k a = Some (aborted, b) \<and>
    (\<not> aborted \<longrightarrow> snd_ok b \<and> flight_ok b \<and>
      (\<exists>alt. valid_net a alt \<and>
        sent_queue b = map (timeout_effect k alt (peers_rwnd (asoc_cc a) = 0 \<and> total_flight a < mtu n) (min_wait (cc_now (env_cc env)) n d)
          (next_to_send (sending_seq (asoc_cc a)) a)) (sent_queue a)))"
proof -
  define wp where "wp = (peers_rwnd (asoc_cc a) = 0 \<and> total_flight a < mtu n)"
  have v: "valid_net a (Some k)" "n = nets (asoc_cc a) ! k" "d = dests a ! k" using assms(3) by (auto simp: net_at_def valid_net_def split: if_splits)
  have "(if wp then None else Some k) = None \<or> (if wp then None else Some k) = Some k" by simp
  from threshold_ok [OF this v(1), of env "max_send_times a"] obtain ab a1 where
    1: "sctp_threshold_management env (if wp then None else Some k) (max_send_times a) a = Some (ab, a1)" "quiet_step a a1" by blast
  from heartbeat_ok [of a1 k env] 1(2) quiet_valid [OF 1(2)] v(1) obtain a2 where 2: "(if wp then Some a1 else stale_heartbeat env k a1) = Some a2" "quiet_step a1 a2"
    by (cases wp) auto
  note q2 = quiet_trans [OF 1(2) 2(2)]
  note s2 = quiet_sender [OF assms(1) q2]
  from t3_alternate_ok [OF s2(2) _ s2(4), of k env] quiet_valid [OF q2] v(1) obtain alt a3 where
    3: "t3_alternate env k a2 = Some (alt, a3)" "quiet_step a2 a3" "valid_net a alt" by auto
  note q3 = quiet_trans [OF q2 3(2)]
  note s3 = quiet_sender [OF assms(1) q3]
  have len: "length (dests a3) = length (dests a)" using q3 by (metis length_map quiet_step_def)
  have k: "k < length (nets (asoc_cc a))" "k < length (dests a)" using v(1) by (simp_all add: valid_net_def)
  define d3 where "d3 = dests a3 ! k"
  have n3: "net_at (Some k) a3 = Some (n, d3)" using q3 k len by (simp add: net_at_def quiet_step_def v(2) d3_def)
  have "lastsv d3 = lastsv d" using q3 k len by (metis d3_def nth_map quiet_step_def v(3))
  then have w: "min_wait (cc_now (env_cc env)) n d = min_wait (cc_now (env_cc env)) n d3" by (simp add: min_wait_def)
  have fr: "next_to_send (sending_seq (asoc_cc a3)) a3 = next_to_send (sending_seq (asoc_cc a)) a" "sent_queue a3 = sent_queue a" "idle_control a3" "valid_net a3 alt"
    using q3 3(3) assms(2) quiet_valid [OF q3] by (simp_all add: quiet_step_def next_to_send_def view_def idle_control_def)
  from mark_all_ok [OF s3(1) n3 fr(4) s3(2,5) fr(3) w, of wp] obtain num b r where 4: "sctp_mark_all_for_resend env k alt wp a3 = Some (num, 0, b)"
    "good (b\<lparr>sent_queue_retran_cnt := r\<rparr>) (sent_queue b)" "fixed b = fixed a3"
    "sent_queue b = map (timeout_effect k alt wp (min_wait (cc_now (env_cc env)) n d) (next_to_send (sending_seq (asoc_cc a)) a)) (sent_queue a)"
    by (auto simp: fr)
  have vb: "valid_net b (Some k)" "snd_module b = SCTP_CC_RFC2581" "sctp_cmt_on_off (asoc_cc b) = 0"
    using 4(3) s3(2,3) k len q3 by (simp_all add: fixed_def shape_def valid_net_def quiet_step_def)
  have "sender_chunk (b\<lparr>sent_queue_retran_cnt := r\<rparr>) = sender_chunk b" by (rule sender_chunk_fixed) (simp add: fixed_def shape_def)
  then have "list_all (sender_chunk b) (sent_queue b)" using 4(2) by (simp add: good_def)
  from after_marking_ok [OF vb this, of env wp num 0 alt] obtain b1 b2 b3 b4 where 5: "t3_recovery env k b = Some b1"
    "sctp_backoff_on_timeout env k wp num 0 b1 = Some b2" "leave_net k alt b2 = Some b3" "t3_end env k b3 = Some b4" "view b4 = view b" by blast
  have "good (b4\<lparr>sent_queue_retran_cnt := r\<rparr>) (sent_queue b4)"
    using good_view [OF 4(2), of "b4\<lparr>sent_queue_retran_cnt := r\<rparr>"] 5(5) by (simp add: view_def fixed_def shape_def counters_def)
  moreover have "chunk_ok (b4\<lparr>sent_queue_retran_cnt := r\<rparr>) = chunk_ok b4" by (rule ext) (simp add: chunk_ok_def valid_net_def split: option.split)
  ultimately have "snd_ok b4 \<and> flight_ok b4" by (simp add: good_def books_ok_def snd_ok_def flight_ok_def)
  moreover have "sctp_t3rxt_timer env k a = Some (if ab then (True, a1) else (False, b4))"
    unfolding sctp_t3rxt_timer_def assms(3) Option.bind.simps prod.case Let_def wp_def [symmetric] 1(1) 2(1) 3(1) 4(1) 5(1-4) by simp
  moreover have "sent_queue b4 = sent_queue b" using 5(5) by (simp add: view_def)
  ultimately show ?thesis using 3(3) 4(4) unfolding wp_def by (cases ab) auto
qed

text \<open>Five seconds later the three chunks are overdue.\<close>

definition late_env :: snd_env where
  "late_env = demo_snd_env\<lparr>env_cc := \<lparr>cc_sys = demo_sysctl, cc_ticks = 5000, cc_now = (5, 0)\<rparr>\<rparr>"

lemma late_wait: "min_wait (cc_now (env_cc late_env)) (demo_net 0 300 0) demo_dest = (4, 860000)"
  by (simp add: min_wait_def late_env_def demo_net_def demo_dest_def timevalsub_def Let_def)

theorem t3_marks_overdue_witness:
  "\<exists>aborted b. sctp_t3rxt_timer late_env 0 (demo_snd 1000) = Some (aborted, b) \<and>
    (\<not> aborted \<longrightarrow> flight_ok b \<and> map (\<lambda>c. (tsn c, chk_sent c)) (sent_queue b) = [(1000, SCTP_DATAGRAM_RESEND), (1001, SCTP_DATAGRAM_RESEND), (1002, SCTP_DATAGRAM_RESEND)])"
proof -
  let ?n = "(demo_net 0 300 0)\<lparr>cwnd := 4380\<rparr>"
  have "net_at (Some 0) (demo_snd 1000) = Some (?n, demo_dest)" by (simp add: net_at_def demo_snd_def demo_cc_asoc_def)
  moreover have "idle_control (demo_snd 1000)" by (simp add: idle_control_def demo_snd_def)
  moreover have "min_wait (cc_now (env_cc late_env)) ?n demo_dest = (4, 860000)" using late_wait by (simp add: min_wait_def)
  moreover have "overdue 0 wp (4, 860000) c" if "c \<in> set (sent_queue (demo_snd 1000))" for c wp
    using that by (auto simp: demo_snd_def demo_chunk_def overdue_def too_young_def datagram_states)
  then have "map (\<lambda>c. (tsn c, chk_sent c)) (map (timeout_effect 0 alt wp (4, 860000) fr) (sent_queue (demo_snd 1000))) =
      map (\<lambda>t. (t, SCTP_DATAGRAM_RESEND)) (map tsn (sent_queue (demo_snd 1000)))" for alt wp fr by (simp add: timeout_effect_def)
  ultimately show ?thesis using t3_marks_overdue [OF demo_sender, of 1000 0 ?n demo_dest late_env] by (auto simp: demo_snd_tsns simp del: map_map)
qed

lemma resent_count:
  assumes "list_all (sender_chunk a) q"
  shows "length (filter (counted k wp w) q) + length (filter (\<lambda>c. chk_whoTo c = Some k \<and> chk_sent c = SCTP_DATAGRAM_RESEND \<and> too_young wp w c) q) =
    retran_of (map (timeout_effect k alt wp w fr) q)"
  using assms by (induction q) (auto simp: counted_def overdue_def timeout_effect_def retran_of_def datagram_states)

text \<open>
  C40: The timer sets the number of chunks that wait for a retransmission by a count of its own, which leaves out the chunks of the destination that wait
  already and were sent lately. The counter is too small by exactly their number.
\<close>

theorem timeout_forgets_waiting:
  assumes "sender_ok a" "idle_control a" "net_at (Some k) a = Some (n, d)" "valid_net a alt"
  shows "\<exists>num_marked b. sctp_mark_all_for_resend env k alt window_probe a = Some (num_marked, 0, b) \<and>
    unat (sent_queue_retran_cnt b) + length (filter (\<lambda>c. chk_whoTo c = Some k \<and> chk_sent c = SCTP_DATAGRAM_RESEND \<and>
      too_young window_probe (min_wait (cc_now (env_cc env)) n d) c) (sent_queue a)) = retran_of (sent_queue b)"
proof -
  let ?w = "min_wait (cc_now (env_cc env)) n d"
  note s = quiet_sender [OF assms(1) quiet_refl]
  from mark_all_ok [OF s(1) assms(3,4) s(2,5) assms(2) refl, where wp = window_probe and env = env] obtain num b where
    b: "sctp_mark_all_for_resend env k alt window_probe a = Some (num, 0, b)"
      "sent_queue b = map (timeout_effect k alt window_probe ?w (next_to_send (sending_seq (asoc_cc a)) a)) (sent_queue a)"
      "sent_queue_retran_cnt b = of_nat (length (filter (counted k window_probe ?w) (sent_queue a)))" by blast
  have q: "list_all (sender_chunk a) (sent_queue a)" "length (sent_queue a) < 2 ^ 32" using s(1) by (simp_all add: good_def books_ok_def snd_ok_def)
  then have "length (filter (counted k window_probe ?w) (sent_queue a)) < 2 ^ 32" using length_filter_le [of "counted k window_probe ?w" "sent_queue a"] by linarith
  then have "unat (sent_queue_retran_cnt b) = length (filter (counted k window_probe ?w) (sent_queue a))" by (simp add: b(3) unat_of_nat)
  with resent_count [OF q(1), of k window_probe ?w alt] b(1,2) show ?thesis by auto
qed

text \<open>The second chunk was sent 100 milliseconds ago and waits already: two chunks are counted, and three wait.\<close>

definition demo_waiting :: snd_asoc where
  "demo_waiting = (demo_snd 1000)
     \<lparr>asoc_cc := demo_cc_asoc [demo_net 0 200 0], sent_queue := [demo_chunk 1000 1, (demo_chunk 1001 4)\<lparr>sent_rcv_time := (4, 900000)\<rparr>, demo_chunk 1002 1],
      sent_queue_retran_cnt := 1, total_flight := 200, total_flight_count := 2\<rparr>"

lemma demo_waiting_sender: "sender_ok demo_waiting"
proof -
  have q: "sent_queue demo_waiting = [demo_chunk 1000 1, (demo_chunk 1001 4)\<lparr>sent_rcv_time := (4, 900000)\<rparr>, demo_chunk 1002 1]" by (simp add: demo_waiting_def)
  have a: "nets (asoc_cc demo_waiting) = [demo_net 0 200 0]" "dests demo_waiting = [demo_dest]" "length (strmout demo_waiting) = 1" "last_acked_seq demo_waiting = 999"
    "sctp_cmt_on_off (asoc_cc demo_waiting) = 0" "snd_module demo_waiting = SCTP_CC_RFC2581" "reliable demo_waiting" "total_flight demo_waiting = 200"
    "total_flight_count demo_waiting = 2" "sent_queue_retran_cnt demo_waiting = 1"
    by (simp_all add: demo_waiting_def demo_snd_def demo_cc_asoc_def reliable_def)
  have "snd_ok demo_waiting"
    by (simp add: snd_ok_def q a) (simp add: demo_chunk_def chunk_ok_def valid_net_def a)
  moreover have "flight_ok demo_waiting" by (simp add: flight_ok_def q a) (simp add: demo_chunk_def flight_of_def in_flight_def to_net_def demo_net_def datagram_states)
  moreover have "retran_ok demo_waiting" by (simp add: retran_ok_def q a) (simp add: demo_chunk_def retran_of_def datagram_states)
  moreover have "list_all (sender_chunk demo_waiting) (sent_queue demo_waiting)"
    by (simp add: q) (simp add: sender_chunk_def demo_chunk_def valid_net_def a probe_ok_def known_state_def PR_SCTP_ENABLED_def PR_SCTP_POLICY_def datagram_states)
  moreover have "timers_ok demo_waiting" by (simp add: timers_ok_def a demo_dest_def)
  moreover have "tsn_sorted 999 (sent_queue demo_waiting)" by (simp add: q demo_chunk_def tsn_sorted_def ahead_def)
  moreover have "list_all (\<lambda>c. SCTP_TSN_GT (tsn c) 999) (sent_queue demo_waiting)" by (simp add: q demo_chunk_def SCTP_UINT32_GT_def)
  ultimately show ?thesis by (simp add: sender_ok_def good_def books_ok_def a sender_chunk_def list_all_iff)
qed

theorem timeout_forgets_waiting_witness:
  "\<exists>num_marked b. sctp_mark_all_for_resend late_env 0 (Some 0) False demo_waiting = Some (num_marked, 0, b) \<and> unat (sent_queue_retran_cnt b) + 1 = retran_of (sent_queue b)"
proof -
  let ?n = "demo_net 0 200 0"
  have n: "net_at (Some 0) demo_waiting = Some (?n, demo_dest)" by (simp add: net_at_def demo_waiting_def demo_snd_def demo_cc_asoc_def)
  have v: "valid_net demo_waiting (Some 0)" by (simp add: valid_net_def demo_waiting_def demo_snd_def demo_cc_asoc_def)
  have i: "idle_control demo_waiting" by (simp add: idle_control_def demo_waiting_def demo_snd_def)
  have "min_wait (cc_now (env_cc late_env)) ?n demo_dest = (4, 860000)" using late_wait by (simp add: min_wait_def demo_net_def)
  then have "filter (\<lambda>c. chk_whoTo c = Some 0 \<and> chk_sent c = SCTP_DATAGRAM_RESEND \<and> too_young False (min_wait (cc_now (env_cc late_env)) ?n demo_dest) c)
      (sent_queue demo_waiting) = [(demo_chunk 1001 4)\<lparr>sent_rcv_time := (4, 900000)\<rparr>]"
    by (simp add: demo_waiting_def demo_chunk_def too_young_def datagram_states)
  with timeout_forgets_waiting [OF demo_waiting_sender i n v, of late_env False] show ?thesis by simp
qed

end
