(* ===== verification/Rcv_State.thy ===== *)
theory Rcv_State
  imports Sack_Build Snd_Express
begin

text \<open>
  Messages on their way from received DATA and I-DATA chunks to the reader: the entries that collect the fragments of a message
  (\<^verbatim>\<open>struct sctp_queued_to_read\<close>), the queues of the incoming streams and the read queue, of netinet/sctp_indata.c and sctputil.c.

  An entry can be linked on a stream and on the read queue at the same time, and both see its data grow. Entries therefore live in the store
  \<open>controls\<close>, and a queue is a list of their addresses; an address whose entry was freed has none, and the result \<open>None\<close> of an operation says that
  it followed such an address or a NULL pointer. A chain of mbufs is the list of their contents, \<open>[]\<close> is NULL. The pointer to the last mbuf of an entry is the
  flag \<open>tail_mbuf\<close> whether it is set. Members that are only 0 or 1 are Booleans. The lock of the association is held throughout; what the application does to it
  in the upcall, for which the lock is released, is not modelled. Lengths held in the socket buffer and statistics are left out.
\<close>

section \<open>Data\<close>

definition SCTP_DATA_FIRST_FRAG :: u8 where "SCTP_DATA_FIRST_FRAG = 0x02"
definition SCTP_ON_ORDERED :: u8 where "SCTP_ON_ORDERED = 1"
definition SCTP_ON_UNORDERED :: u8 where "SCTP_ON_UNORDERED = 2"
definition SCTP_PARTIAL_DELIVERY_SHIFT :: nat where "SCTP_PARTIAL_DELIVERY_SHIFT = 1"

definition SCTP_MID_GT :: "u8 \<Rightarrow> u32 \<Rightarrow> u32 \<Rightarrow> bool" where
  "SCTP_MID_GT i a b = (if i = 1 then SCTP_UINT32_GT a b else SCTP_UINT16_GT (ucast a) (ucast b))"

definition SCTP_MID_GE :: "u8 \<Rightarrow> u32 \<Rightarrow> u32 \<Rightarrow> bool" where
  "SCTP_MID_GE i a b = (if i = 1 then SCTP_UINT32_GE a b else SCTP_UINT16_GE (ucast a) (ucast b))"

text \<open>A fragment that waits for its predecessors.\<close>

record frag_chunk =
  frag_tsn :: u32
  frag_fsn :: u32
  frag_ppid :: u32
  frag_flags :: u8
  frag_size :: u16
  frag_whoTo :: nat
  frag_data :: mchain

record rcv_control =
  sinfo_stream :: u16
  sinfo_flags :: u16
  sinfo_ppid :: u32
  sinfo_tsn :: u32
  ctl_mid :: u32
  ctl_length :: u32
  top_fsn :: u32
  fsn_included :: u32
  whoFrom :: "nat option"
  ctl_mbufs :: mchain
  tail_mbuf :: bool
  reasm :: "frag_chunk list"
  end_added :: bool
  pdapi_aborted :: bool
  pdapi_started :: bool
  last_frag_seen :: bool
  first_frag_seen :: bool
  on_read_q :: bool
  on_strm_q :: u8

record in_stream =
  inqueue :: "nat list"
  uno_inqueue :: "nat list"
  last_mid_delivered :: u32
  pd_api_started :: bool

record stream_reset =
  reset_tsn :: u32
  reset_streams :: "u16 list"

text \<open>
  What others are told: the upcall to the application with stream, message identifier, flags of the chunk, protocol identifier, TSN, bytes and whether they end the
  message; the wake-up of the reader; the abort of the association with its cause; an error chunk for a stream that does not exist; notifications.
\<close>

datatype rcv_event =
    Recv_upcall u16 u16 u16 u32 u32 bytes bool
  | Read_wakeup
  | Rcv_abort u16
  | Invalid_stream u16
  | Streams_reset "u16 list"
  | Reset_response
  | Partial_delivery_aborted u16 u32

record rcv_tcb = sack_asoc +
  strmin :: "in_stream list"
  controls :: "nat \<Rightarrow> rcv_control option"
  next_control :: nat
  read_queue :: "nat list"
  so_rcv_cc :: u32
  so_rcv_mbcnt :: u32
  cnt_msg_on_sb :: u32
  rcv_idata :: u8
  resetHead :: "stream_reset list"
  pending_reply_queue :: "nat list"
  rcv_events :: "rcv_event list"

text \<open>
  The endpoint and the system: whether the application takes messages by an upcall, whether reading was shut down, the threshold for the delivery of incomplete
  messages, \<^verbatim>\<open>sctp_do_drain\<close>, the bound on the number of chunks, whether allocations succeed, and whether the socket is gone.
\<close>

record rcv_env =
  recv_upcall :: bool
  cant_read :: bool
  partial_delivery_point :: u32
  do_drain :: bool
  max_chunks_on_queue :: u32
  readq_available :: bool
  frag_available :: bool
  buffer_available :: bool
  copy_available :: bool
  err_available :: bool
  socket_gone :: bool
  maps_available :: "bool \<times> bool"

definition rcv_emit :: "rcv_event list \<Rightarrow> rcv_tcb \<Rightarrow> rcv_tcb" where
  "rcv_emit es a = a\<lparr>rcv_events := rcv_events a @ es\<rparr>"

definition put_control :: "nat \<Rightarrow> rcv_control \<Rightarrow> rcv_tcb \<Rightarrow> rcv_tcb" where
  "put_control p c a = a\<lparr>controls := (controls a)(p := Some c)\<rparr>"

definition sctp_free_a_readq :: "nat \<Rightarrow> rcv_tcb \<Rightarrow> rcv_tcb" where
  "sctp_free_a_readq p a = a\<lparr>controls := (controls a)(p := None)\<rparr>"

definition strm_at :: "nat \<Rightarrow> rcv_tcb \<Rightarrow> in_stream option" where
  "strm_at s a = (if s < length (strmin a) then Some (strmin a ! s) else None)"

definition put_strm :: "nat \<Rightarrow> in_stream \<Rightarrow> rcv_tcb \<Rightarrow> rcv_tcb" where
  "put_strm s x a = a\<lparr>strmin := (strmin a)[s := x]\<rparr>"

text \<open>The flags of the chunk, which the entry keeps in the upper byte.\<close>

definition wire_flags :: "rcv_control \<Rightarrow> u8" where
  "wire_flags c = ucast (drop_bit 8 (sinfo_flags c))"

abbreviation not_frag :: "u8 \<Rightarrow> bool" where "not_frag f \<equiv> f AND SCTP_DATA_NOT_FRAG = SCTP_DATA_NOT_FRAG"
abbreviation unordered :: "u8 \<Rightarrow> bool" where "unordered f \<equiv> f AND SCTP_DATA_UNORDERED \<noteq> 0"

section \<open>The socket buffer\<close>

definition SCTP_SAVE_ATOMIC_DECREMENT :: "u32 \<Rightarrow> int \<Rightarrow> u32" where
  "SCTP_SAVE_ATOMIC_DECREMENT old val = (if sint old < val then 0 else old - word_of_int val)"

definition sctp_sballoc :: "bytes \<Rightarrow> rcv_tcb \<Rightarrow> rcv_tcb" where
  "sctp_sballoc m a =
     a\<lparr>so_rcv_cc := so_rcv_cc a + of_nat (length m), so_rcv_mbcnt := so_rcv_mbcnt a + of_nat MSIZE,
       sb_cc := sb_cc a + of_nat (length m), my_rwnd_control_len := my_rwnd_control_len a + of_nat MSIZE\<rparr>"

definition sctp_sbfree :: "bytes \<Rightarrow> rcv_tcb \<Rightarrow> rcv_tcb" where
  "sctp_sbfree m a =
     a\<lparr>so_rcv_cc := SCTP_SAVE_ATOMIC_DECREMENT (so_rcv_cc a) (int (length m)),
       so_rcv_mbcnt := SCTP_SAVE_ATOMIC_DECREMENT (so_rcv_mbcnt a) (int MSIZE),
       sb_cc := SCTP_SAVE_ATOMIC_DECREMENT (sb_cc a) (int (length m)),
       my_rwnd_control_len := SCTP_SAVE_ATOMIC_DECREMENT (my_rwnd_control_len a) (int MSIZE)\<rparr>"

text \<open>Mbufs without data are dropped from a chain.\<close>

definition nonempty_mbufs :: "mchain \<Rightarrow> mchain" where
  "nonempty_mbufs ms = filter (\<lambda>m. m \<noteq> []) ms"

definition chain_length :: "mchain \<Rightarrow> u32" where
  "chain_length ms = of_nat (sum_list (map length ms))"

definition sctp_setup_tail_pointer :: "rcv_control \<Rightarrow> rcv_tcb \<Rightarrow> rcv_control \<times> rcv_tcb" where
  "sctp_setup_tail_pointer c a =
     (let ms = nonempty_mbufs (ctl_mbufs c)
      in (c\<lparr>ctl_length := chain_length ms, ctl_mbufs := ms, tail_mbuf := (ms \<noteq> [] \<or> ctl_mbufs c = [] \<and> tail_mbuf c)\<rparr>,
          if on_read_q c then fold sctp_sballoc ms a else a))"

text \<open>
  The result has the number of bytes that were added. It stays 0 when the entry had no last mbuf. Mbufs without data only would leave the entry without a last mbuf.
\<close>

definition sctp_add_to_tail_pointer :: "rcv_control \<Rightarrow> mchain \<Rightarrow> rcv_tcb \<Rightarrow> (rcv_control \<times> u32 \<times> rcv_tcb) option" where
  "sctp_add_to_tail_pointer c m a =
     (if \<not> tail_mbuf c then (let (c, a) = sctp_setup_tail_pointer (c\<lparr>ctl_mbufs := m\<rparr>) a in Some (c, 0, a))
      else if ctl_mbufs c = [] then None
      else let ms = nonempty_mbufs m
           in Some (c\<lparr>ctl_mbufs := ctl_mbufs c @ ms, ctl_length := ctl_length c + chain_length ms, tail_mbuf := (ms \<noteq> [] \<or> m = [])\<rparr>,
                    chain_length ms, if on_read_q c then fold sctp_sballoc ms a else a))"

section \<open>The read queue\<close>

definition pd_point :: "rcv_env \<Rightarrow> rcv_tcb \<Rightarrow> u32" where
  "pd_point env a =
     (case so_rcv_hiwat a of None \<Rightarrow> partial_delivery_point env
      | Some hiwat \<Rightarrow> min (drop_bit SCTP_PARTIAL_DELIVERY_SHIFT hiwat) (partial_delivery_point env))"

text \<open>The upcall takes the data of the entry; an entry that is complete is removed and freed.\<close>

definition sctp_invoke_recv_callback :: "rcv_env \<Rightarrow> nat \<Rightarrow> rcv_tcb \<Rightarrow> rcv_tcb option" where
  "sctp_invoke_recv_callback env p a =
     (if \<not> recv_upcall env \<or> so_rcv_hiwat a = None then Some a
      else do {
        c \<leftarrow> controls a p;
        if (end_added c \<or> ctl_length c \<ge> pd_point env a) \<and> buffer_available env
        then if unat (ctl_length c) > length (concat (ctl_mbufs c)) \<or> (end_added c \<and> p \<notin> set (read_queue a)) then None
             else let a = fold sctp_sbfree (ctl_mbufs c) a;
                      a = (if end_added c then sctp_free_a_readq p (ref_net (whoFrom c) (-1) (a\<lparr>read_queue := remove1 p (read_queue a)\<rparr>))
                           else put_control p (c\<lparr>ctl_mbufs := [], tail_mbuf := False, ctl_length := 0\<rparr>) a)
                  in Some (rcv_emit [Recv_upcall (sinfo_stream c) (ucast (ctl_mid c)) (sinfo_flags c) (sinfo_ppid c) (sinfo_tsn c)
                                       (take (unat (ctl_length c)) (concat (ctl_mbufs c))) (end_added c)] a)
        else Some a })"

definition sctp_add_to_readq :: "rcv_env \<Rightarrow> nat \<Rightarrow> bool \<Rightarrow> rcv_tcb \<Rightarrow> rcv_tcb option" where
  "sctp_add_to_readq env p fin a =
     do { c \<leftarrow> controls a p;
          if cant_read env then Some (sctp_free_a_readq p (ref_net (whoFrom c) (-1) a))
          else if so_rcv_hiwat a = None then None
          else let ms = nonempty_mbufs (ctl_mbufs c)
               in if ms = [] then Some (sctp_free_a_readq p (ref_net (whoFrom c) (-1) a))
                  else do {
                    let a = fold sctp_sballoc ms a;
                    let c = c\<lparr>ctl_length := chain_length ms, ctl_mbufs := ms, tail_mbuf := True, end_added := (end_added c \<or> fin), on_read_q := True\<rparr>;
                    let a = (put_control p c a)\<lparr>read_queue := read_queue a @ [p]\<rparr>;
                    a \<leftarrow> sctp_invoke_recv_callback env p a;
                    Some (rcv_emit [Read_wakeup] a) } }"

section \<open>Counters\<close>

text \<open>The counters of the data on the streams; both are kept from going below 0.\<close>

definition leave_streams :: "u32 \<Rightarrow> rcv_tcb \<Rightarrow> rcv_tcb" where
  "leave_streams len a =
     a\<lparr>size_on_all_streams := (if size_on_all_streams a \<ge> len then size_on_all_streams a - len else 0),
       cnt_on_all_streams := sctp_ucount_decr (cnt_on_all_streams a)\<rparr>"

definition enter_reasm :: "frag_chunk \<Rightarrow> rcv_tcb \<Rightarrow> rcv_tcb" where
  "enter_reasm k a =
     a\<lparr>size_on_reasm_queue := size_on_reasm_queue a + ucast (frag_size k), cnt_on_reasm_queue := sctp_ucount_incr (cnt_on_reasm_queue a)\<rparr>"

text \<open>The chunk of a fragment is freed.\<close>

definition sctp_free_a_chunk :: "frag_chunk \<Rightarrow> rcv_tcb \<Rightarrow> rcv_tcb" where
  "sctp_free_a_chunk k a = ref_net (Some (frag_whoTo k)) (-1) a"

end
