(* ===== verification/Rcv_Stream.thy ===== *)
theory Rcv_Stream
  imports Rcv_State
begin

text \<open>
  The order of the messages of a stream (netinet/sctp_indata.c): an entry is put into its place on the stream (\<^verbatim>\<open>sctp_place_control_in_stream\<close>), and a complete message is
  handed to the reader at once with all that follow it, or waits (\<^verbatim>\<open>sctp_queue_data_to_stream\<close>).
\<close>

section \<open>Places\<close>

text \<open>The place of the entry \<open>p\<close> in a queue that is sorted by message identifiers; there is none when the identifier is taken.\<close>

fun insert_mid :: "u8 \<Rightarrow> (nat \<Rightarrow> rcv_control option) \<Rightarrow> nat \<Rightarrow> u32 \<Rightarrow> nat list \<Rightarrow> nat list option option" where
  "insert_mid i h p m [] = Some (Some [p])"
| "insert_mid i h p m (q # qs) =
     do { c \<leftarrow> h q;
          if SCTP_MID_GT i (ctl_mid c) m then Some (Some (p # q # qs))
          else if SCTP_MID_EQ i (ctl_mid c) m then Some None
          else do { r \<leftarrow> insert_mid i h p m qs; Some (map_option ((#) q) r) } }"

text \<open>The result is \<open>True\<close> when there is no place, \<^verbatim>\<open>-1\<close> in the code.\<close>

definition sctp_place_control_in_stream :: "nat \<Rightarrow> nat \<Rightarrow> rcv_tcb \<Rightarrow> (bool \<times> rcv_tcb) option" where
  "sctp_place_control_in_stream s p a =
     do { c \<leftarrow> controls a p;
          x \<leftarrow> strm_at s a;
          let f = wire_flags c;
          if unordered f \<and> rcv_idata a = 0
          then Some (if uno_inqueue x \<noteq> [] then (True, a)
                     else (False, put_control p (c\<lparr>on_strm_q := SCTP_ON_UNORDERED\<rparr>) (put_strm s (x\<lparr>uno_inqueue := uno_inqueue x @ [p]\<rparr>) a)))
          else do {
            let c = (if not_frag f then c\<lparr>end_added := True, first_frag_seen := True, last_frag_seen := True\<rparr> else c);
            q \<leftarrow> insert_mid (rcv_idata a) (controls a) p (ctl_mid c) (if unordered f then uno_inqueue x else inqueue x);
            Some (case q of None \<Rightarrow> (True, put_control p c a)
                  | Some q \<Rightarrow> if unordered f
                              then (False, put_control p (c\<lparr>on_strm_q := SCTP_ON_UNORDERED\<rparr>) (put_strm s (x\<lparr>uno_inqueue := q\<rparr>) a))
                              else (False, put_control p (c\<lparr>on_strm_q := SCTP_ON_ORDERED\<rparr>) (put_strm s (x\<lparr>inqueue := q\<rparr>) a))) } }"

text \<open>The message of the abort shows a member of the entry.\<close>

definition sctp_abort_in_reasm :: "nat \<Rightarrow> frag_chunk \<Rightarrow> rcv_tcb \<Rightarrow> rcv_tcb option" where
  "sctp_abort_in_reasm p k a = do { c \<leftarrow> controls a p; Some (rcv_emit [Rcv_abort SCTP_CAUSE_PROTOCOL_VIOLATION] (sctp_free_a_chunk k a)) }"

definition sctp_clean_up_control :: "nat \<Rightarrow> rcv_tcb \<Rightarrow> rcv_tcb option" where
  "sctp_clean_up_control p a = do { c \<leftarrow> controls a p; Some (sctp_free_a_readq p (fold sctp_free_a_chunk (reasm c) a)) }"

section \<open>Complete messages\<close>

text \<open>The entry leaves the ordered queue of its stream.\<close>

definition unlink_ordered :: "nat \<Rightarrow> nat \<Rightarrow> rcv_tcb \<Rightarrow> rcv_tcb option" where
  "unlink_ordered s p a =
     do { c \<leftarrow> controls a p;
          x \<leftarrow> strm_at s a;
          Some (put_control p (c\<lparr>on_strm_q := 0\<rparr>) (leave_streams (ctl_length c) (put_strm s (x\<lparr>inqueue := remove1 p (inqueue x)\<rparr>) a))) }"

definition bump_mid :: "nat \<Rightarrow> rcv_tcb \<Rightarrow> rcv_tcb option" where
  "bump_mid s a = do { x \<leftarrow> strm_at s a; Some (put_strm s (x\<lparr>last_mid_delivered := last_mid_delivered x + 1\<rparr>) a) }"

text \<open>The entries that follow the message just delivered; the flag asks for a look at the fragments of the next one.\<close>

fun deliver_loop :: "rcv_env \<Rightarrow> nat \<Rightarrow> nat list \<Rightarrow> rcv_tcb \<Rightarrow> (bool \<times> rcv_tcb) option" where
  "deliver_loop env s [] a = Some (False, a)"
| "deliver_loop env s (q # qs) a =
     do { c \<leftarrow> controls a q;
          x \<leftarrow> strm_at s a;
          if SCTP_MID_EQ (rcv_idata a) (last_mid_delivered x + 1) (ctl_mid c)
          then if not_frag (wire_flags c)
               then do { a \<leftarrow> (if on_strm_q c = SCTP_ON_ORDERED then unlink_ordered s q a else Some (put_control q (c\<lparr>on_strm_q := 0\<rparr>) a));
                         a \<leftarrow> bump_mid s a;
                         a \<leftarrow> sctp_mark_non_revokable (do_drain env) (sinfo_tsn c) a;
                         a \<leftarrow> sctp_add_to_readq env q True a;
                         deliver_loop env s qs a }
               else Some (True, a)
          else Some (False, a) }"

text \<open>The results are \<^verbatim>\<open>*abort_flag\<close> and \<^verbatim>\<open>*need_reasm\<close>.\<close>

definition sctp_queue_data_to_stream :: "rcv_env \<Rightarrow> nat \<Rightarrow> rcv_tcb \<Rightarrow> (bool \<times> bool \<times> rcv_tcb) option" where
  "sctp_queue_data_to_stream env p a =
     do { c \<leftarrow> controls a p;
          let s = unat (sinfo_stream c);
          x \<leftarrow> strm_at s a;
          if SCTP_MID_GT (rcv_idata a) (last_mid_delivered x) (ctl_mid c)
          then Some (True, False, rcv_emit [Rcv_abort SCTP_CAUSE_PROTOCOL_VIOLATION] (put_strm s (x\<lparr>inqueue := p # inqueue x\<rparr>) a))
          else do {
            let a = a\<lparr>size_on_all_streams := size_on_all_streams a + ctl_length c, cnt_on_all_streams := sctp_ucount_incr (cnt_on_all_streams a)\<rparr>;
            if SCTP_MID_EQ (rcv_idata a) (last_mid_delivered x + 1) (ctl_mid c)
            then do { a \<leftarrow> bump_mid s (leave_streams (ctl_length c) a);
                      a \<leftarrow> sctp_mark_non_revokable (do_drain env) (sinfo_tsn c) a;
                      a \<leftarrow> sctp_add_to_readq env p True a;
                      (need_reasm, a) \<leftarrow> deliver_loop env s (inqueue x) a;
                      Some (False, need_reasm, a) }
            else do { (fails, a) \<leftarrow> sctp_place_control_in_stream s p a;
                      if fails then do { a \<leftarrow> sctp_clean_up_control p a; Some (True, False, rcv_emit [Rcv_abort SCTP_CAUSE_PROTOCOL_VIOLATION] a) }
                      else Some (False, False, a) } } }"

section \<open>The entry of a message\<close>

fun find_mid :: "u8 \<Rightarrow> (nat \<Rightarrow> rcv_control option) \<Rightarrow> u32 \<Rightarrow> nat list \<Rightarrow> nat option option" where
  "find_mid i h m [] = Some None"
| "find_mid i h m (q # qs) = do { c \<leftarrow> h q; if SCTP_MID_EQ i (ctl_mid c) m then Some (Some q) else find_mid i h m qs }"

definition sctp_find_reasm_entry :: "in_stream \<Rightarrow> u32 \<Rightarrow> bool \<Rightarrow> rcv_tcb \<Rightarrow> nat option option" where
  "sctp_find_reasm_entry x m ordered a =
     (if ordered then find_mid (rcv_idata a) (controls a) m (inqueue x)
      else if rcv_idata a \<noteq> 0 then find_mid (rcv_idata a) (controls a) m (uno_inqueue x)
      else Some (case uno_inqueue x of [] \<Rightarrow> None | q # qs \<Rightarrow> Some q))"

end
