(* ===== verification/Rcv_Reasm.thy ===== *)
theory Rcv_Reasm
  imports Rcv_Stream
begin

text \<open>
  Reassembly (netinet/sctp_indata.c): a fragment is put into the entry of its message, and what has become contiguous is appended to its data
  (\<^verbatim>\<open>sctp_queue_data_for_reasm\<close>, \<^verbatim>\<open>sctp_add_chk_to_control\<close>). Unordered DATA chunks have no identifier of their message; all of a stream share one entry
  (\<^verbatim>\<open>sctp_inject_old_unordered_data\<close>, \<^verbatim>\<open>sctp_handle_old_unordered_data\<close>). \<^verbatim>\<open>sctp_deliver_reasm_check\<close> hands over what is complete or
  large enough. When a loop goes over the fragments of an entry, those it looks at next are its argument.
\<close>

section \<open>A fragment joins its message\<close>

text \<open>The entry is on the read queue already and has become complete: it leaves its stream.\<close>

definition complete_read :: "nat \<Rightarrow> nat \<Rightarrow> rcv_control \<Rightarrow> rcv_tcb \<Rightarrow> (rcv_control \<times> rcv_tcb) option" where
  "complete_read s p c a =
     do { x \<leftarrow> strm_at s a;
          let (c, x) = (if pdapi_started c then (c\<lparr>pdapi_started := False\<rparr>, x\<lparr>pd_api_started := False\<rparr>) else (c, x));
          Some (if on_strm_q c = SCTP_ON_UNORDERED
                then (c\<lparr>on_strm_q := 0\<rparr>, put_strm s (x\<lparr>uno_inqueue := remove1 p (uno_inqueue x)\<rparr>) a)
                else if on_strm_q c = SCTP_ON_ORDERED
                then (c\<lparr>on_strm_q := 0\<rparr>, leave_streams (ctl_length c) (put_strm s (x\<lparr>inqueue := remove1 p (inqueue x)\<rparr>) a))
                else (c, put_strm s x a)) }"

text \<open>The result has the number of bytes that were added to data the entry had.\<close>

definition sctp_add_chk_to_control :: "rcv_env \<Rightarrow> nat \<Rightarrow> nat \<Rightarrow> frag_chunk \<Rightarrow> rcv_tcb \<Rightarrow> (u32 \<times> rcv_tcb) option" where
  "sctp_add_chk_to_control env s p k a =
     do { c \<leftarrow> controls a p;
          (c, added, a) \<leftarrow> (if ctl_mbufs c = [] then (let (c, a) = sctp_setup_tail_pointer (c\<lparr>ctl_mbufs := frag_data k\<rparr>) a in Some (c, 0, a))
                            else sctp_add_to_tail_pointer c (frag_data k) a);
          let c = c\<lparr>fsn_included := frag_fsn k\<rparr>;
          let a = a\<lparr>size_on_reasm_queue := size_on_reasm_queue a - ucast (frag_size k), cnt_on_reasm_queue := sctp_ucount_decr (cnt_on_reasm_queue a)\<rparr>;
          a \<leftarrow> sctp_mark_non_revokable (do_drain env) (frag_tsn k) a;
          let c = (if frag_flags k AND SCTP_DATA_FIRST_FRAG \<noteq> 0
                   then c\<lparr>first_frag_seen := True, sinfo_tsn := frag_tsn k, sinfo_ppid := frag_ppid k\<rparr> else c);
          (c, a) \<leftarrow> (if frag_flags k AND SCTP_DATA_LAST_FRAG \<noteq> 0
                     then do { (c, a) \<leftarrow> (if on_strm_q c \<noteq> 0 \<and> on_read_q c then complete_read s p c a else Some (c, a));
                               Some (c\<lparr>end_added := True, last_frag_seen := True\<rparr>, a) }
                     else Some (c, a));
          Some (added, sctp_free_a_chunk k (put_control p c a)) }"

text \<open>The place of a fragment; there is none when its number is taken.\<close>

fun insert_fsn :: "frag_chunk \<Rightarrow> frag_chunk list \<Rightarrow> frag_chunk list option" where
  "insert_fsn k [] = Some [k]"
| "insert_fsn k (x # xs) =
     (if SCTP_TSN_GT (frag_fsn x) (frag_fsn k) then Some (k # x # xs)
      else if frag_fsn x = frag_fsn k then None
      else map_option ((#) x) (insert_fsn k xs))"

section \<open>Unordered DATA chunks\<close>

text \<open>An earlier first fragment takes the place of the data of the entry, which becomes a fragment.\<close>

definition swap_first :: "frag_chunk \<Rightarrow> rcv_control \<Rightarrow> frag_chunk" where
  "swap_first k c = k\<lparr>frag_data := ctl_mbufs c, frag_size := ucast (ctl_length c), frag_fsn := fsn_included c, frag_tsn := sinfo_tsn c, frag_ppid := sinfo_ppid c\<rparr>"

definition inject_place :: "nat \<Rightarrow> frag_chunk \<Rightarrow> rcv_tcb \<Rightarrow> (bool \<times> rcv_tcb) option" where
  "inject_place p k a =
     do { c \<leftarrow> controls a p;
          case insert_fsn k (reasm c) of
            None \<Rightarrow> do { a \<leftarrow> sctp_abort_in_reasm p k a; Some (True, a) }
          | Some ks \<Rightarrow> (let c = (if list_all (\<lambda>x. \<not> SCTP_TSN_GT (frag_fsn x) (frag_fsn k)) (reasm c) then c\<lparr>top_fsn := frag_fsn k\<rparr> else c)
                        in Some (False, enter_reasm k (put_control p (c\<lparr>reasm := ks\<rparr>) a))) }"

text \<open>The result is \<^verbatim>\<open>*abort_flag\<close>.\<close>

definition sctp_inject_old_unordered_data :: "rcv_env \<Rightarrow> nat \<Rightarrow> frag_chunk \<Rightarrow> rcv_tcb \<Rightarrow> (bool \<times> rcv_tcb) option" where
  "sctp_inject_old_unordered_data env p k a =
     do { c \<leftarrow> controls a p;
          if frag_flags k AND SCTP_DATA_FIRST_FRAG = 0 then inject_place p k a
          else if first_frag_seen c
          then if SCTP_TSN_GT (frag_fsn k) (fsn_included c) then inject_place p k a
               else if frag_fsn k = fsn_included c \<or> pdapi_started c then do { a \<leftarrow> sctp_abort_in_reasm p k a; Some (True, a) }
               else do { let (d, a) = sctp_setup_tail_pointer (c\<lparr>ctl_mbufs := frag_data k\<rparr>) a;
                         let a = put_control p (d\<lparr>fsn_included := frag_fsn k, sinfo_tsn := frag_tsn k, sinfo_ppid := frag_ppid k\<rparr>) a;
                         inject_place p (swap_first k c) a }
          else do { let c = c\<lparr>first_frag_seen := True, fsn_included := frag_fsn k, top_fsn := frag_fsn k, sinfo_tsn := frag_tsn k, sinfo_ppid := frag_ppid k,
                              ctl_mbufs := frag_data k\<rparr>;
                    a \<leftarrow> sctp_mark_non_revokable (do_drain env) (frag_tsn k) a;
                    let (c, a) = sctp_setup_tail_pointer c (sctp_free_a_chunk k a);
                    Some (False, put_control p c a) } }"

text \<open>A new entry for the fragments behind a complete message.\<close>

definition sctp_build_readq_entry_from_ctl :: "rcv_control \<Rightarrow> rcv_control" where
  "sctp_build_readq_entry_from_ctl c =
     \<lparr>sinfo_stream = sinfo_stream c, sinfo_flags = sinfo_flags c, sinfo_ppid = sinfo_ppid c, sinfo_tsn = sinfo_tsn c, ctl_mid = ctl_mid c, ctl_length = 0,
      top_fsn = top_fsn c, fsn_included = 0xffffffff, whoFrom = whoFrom c, ctl_mbufs = [], tail_mbuf = False, reasm = [], end_added = False,
      pdapi_aborted = False, pdapi_started = False, last_frag_seen = False, first_frag_seen = False, on_read_q = False, on_strm_q = 0\<rparr>"

abbreviation is_first :: "frag_chunk \<Rightarrow> bool" where "is_first k \<equiv> frag_flags k AND SCTP_DATA_FIRST_FRAG \<noteq> 0"

definition split_rest :: "rcv_env \<Rightarrow> nat \<Rightarrow> rcv_control \<Rightarrow> frag_chunk list \<Rightarrow> rcv_tcb \<Rightarrow> (rcv_control \<times> rcv_tcb) option" where
  "split_rest env s c ks a =
     do { let nc = sctp_build_readq_entry_from_ctl c;
          let a = ref_net (whoFrom c) 1 a;
          if is_first (hd ks)
          then do { let k = hd ks;
                    let a = a\<lparr>size_on_reasm_queue := (if size_on_reasm_queue a \<ge> ucast (frag_size k) then size_on_reasm_queue a - ucast (frag_size k) else 0),
                              cnt_on_reasm_queue := sctp_ucount_decr (cnt_on_reasm_queue a)\<rparr>;
                    a \<leftarrow> sctp_mark_non_revokable (do_drain env) (frag_tsn k) a;
                    let (nc, a) = sctp_setup_tail_pointer (nc\<lparr>first_frag_seen := True, fsn_included := frag_fsn k, ctl_mbufs := frag_data k,
                                    sinfo_ppid := frag_ppid k, sinfo_tsn := frag_tsn k\<rparr>) (sctp_free_a_chunk k a);
                    Some (nc\<lparr>reasm := tl ks\<rparr>, a) }
          else Some (nc\<lparr>reasm := ks\<rparr>, a) }"

text \<open>The entry takes the fragments behind the end with it: they move to a new entry \<open>q\<close> at the end of the queue.\<close>

definition old_split :: "rcv_env \<Rightarrow> nat \<Rightarrow> nat \<Rightarrow> frag_chunk list \<Rightarrow> rcv_tcb \<Rightarrow> rcv_tcb option" where
  "old_split env s p ks a =
     (if ks = [] then Some a
      else do { c \<leftarrow> controls a p;
                (nc, a) \<leftarrow> split_rest env s c ks a;
                x \<leftarrow> strm_at s a;
                let q = next_control a;
                let a = (put_control q (nc\<lparr>on_strm_q := SCTP_ON_UNORDERED\<rparr>) (put_control p (c\<lparr>reasm := []\<rparr>) a))\<lparr>next_control := Suc q\<rparr>;
                Some (if on_strm_q c \<noteq> 0
                      then put_control p (c\<lparr>reasm := [], on_strm_q := 0\<rparr>) (put_strm s (x\<lparr>uno_inqueue := remove1 p (uno_inqueue x @ [q])\<rparr>) a)
                      else put_strm s (x\<lparr>uno_inqueue := uno_inqueue x @ [q]\<rparr>) a) })"

text \<open>The complete entry goes to the reader.\<close>

definition old_complete :: "rcv_env \<Rightarrow> nat \<Rightarrow> nat \<Rightarrow> rcv_tcb \<Rightarrow> rcv_tcb option" where
  "old_complete env s p a =
     do { c \<leftarrow> controls a p;
          x \<leftarrow> strm_at s a;
          let (c, x) = (if pdapi_started c then (c\<lparr>pdapi_started := False\<rparr>, x\<lparr>pd_api_started := False\<rparr>) else (c, x));
          let (c, x) = (if on_strm_q c \<noteq> 0 then (c\<lparr>on_strm_q := 0\<rparr>, x\<lparr>uno_inqueue := remove1 p (uno_inqueue x)\<rparr>) else (c, x));
          let a = put_control p c (put_strm s x a);
          a \<leftarrow> (if \<not> on_read_q c then sctp_add_to_readq env p (end_added c) a else sctp_invoke_recv_callback env p a);
          Some (rcv_emit [Read_wakeup] a) }"

text \<open>An incomplete entry that is long enough goes to the reader, too. The result is the one of \<^verbatim>\<open>sctp_handle_old_unordered_data\<close>.\<close>

definition old_partial :: "rcv_env \<Rightarrow> nat \<Rightarrow> u32 \<Rightarrow> nat \<Rightarrow> rcv_tcb \<Rightarrow> (bool \<times> rcv_tcb) option" where
  "old_partial env s pd p a =
     do { c \<leftarrow> controls a p;
          x \<leftarrow> strm_at s a;
          if ctl_length c > pd \<and> \<not> pd_api_started x
          then do { let a = put_control p (c\<lparr>pdapi_started := True\<rparr>) (put_strm s (x\<lparr>pd_api_started := True\<rparr>) a);
                    a \<leftarrow> sctp_add_to_readq env p (end_added c) a;
                    Some (False, rcv_emit [Read_wakeup] a) }
          else Some (True, a) }"

function (sequential) old_collapse :: "rcv_env \<Rightarrow> nat \<Rightarrow> u32 \<Rightarrow> nat \<Rightarrow> frag_chunk list \<Rightarrow> u32 \<Rightarrow> rcv_tcb \<Rightarrow> (bool \<times> rcv_tcb) option" where
  "old_collapse env s pd p [] fsn a = old_partial env s pd p a"
| "old_collapse env s pd p (k # ks) fsn a =
     (if frag_fsn k = fsn \<and> readq_available env
      then do { c \<leftarrow> controls a p;
                (_, a) \<leftarrow> sctp_add_chk_to_control env s p k (put_control p (c\<lparr>reasm := ks\<rparr>) a);
                c \<leftarrow> controls a p;
                if end_added c
                then do { let q = next_control a;
                          a \<leftarrow> old_split env s p ks a;
                          a \<leftarrow> old_complete env s p a;
                          if ks \<noteq> [] \<and> is_first (hd ks) \<and> tl ks \<noteq> [] then old_collapse env s pd q (tl ks) (frag_fsn (hd ks) + 1) a else Some (True, a) }
                else old_collapse env s pd p ks (fsn + 1) a }
      else old_partial env s pd p a)"
  by pat_completeness auto
termination
  by (relation "measure (\<lambda>(env, s, pd, p, ks, fsn, a). length ks)") auto

declare old_collapse.simps [simp del]

definition sctp_handle_old_unordered_data :: "rcv_env \<Rightarrow> nat \<Rightarrow> nat \<Rightarrow> u32 \<Rightarrow> rcv_tcb \<Rightarrow> (bool \<times> rcv_tcb) option" where
  "sctp_handle_old_unordered_data env s p pd a =
     do { c \<leftarrow> controls a p;
          if \<not> first_frag_seen c then Some (True, a) else old_collapse env s pd p (reasm c) (fsn_included c + 1) a }"

section \<open>Queueing a fragment\<close>

text \<open>A fragment of a number that was used already, or behind the last one.\<close>

definition late_frag :: "u8 \<Rightarrow> rcv_control \<Rightarrow> frag_chunk \<Rightarrow> bool" where
  "late_frag i c k \<longleftrightarrow> (i \<noteq> 0 \<or> first_frag_seen c) \<and> SCTP_TSN_GE (fsn_included c) (frag_fsn k)"

definition bad_frag :: "u8 \<Rightarrow> rcv_control \<Rightarrow> frag_chunk \<Rightarrow> bool" where
  "bad_frag i c k \<longleftrightarrow> late_frag i c k \<or> last_frag_seen c \<and> (frag_flags k AND SCTP_DATA_LAST_FRAG \<noteq> 0 \<or> SCTP_TSN_GT (frag_fsn k) (top_fsn c))"

definition note_frag :: "rcv_control \<Rightarrow> frag_chunk \<Rightarrow> rcv_control" where
  "note_frag c k =
     (if last_frag_seen c then c
      else c\<lparr>top_fsn := (if SCTP_TSN_GT (frag_fsn k) (top_fsn c) then frag_fsn k else top_fsn c),
             last_frag_seen := (frag_flags k AND SCTP_DATA_LAST_FRAG \<noteq> 0)\<rparr>)"

definition queue_frag :: "nat \<Rightarrow> frag_chunk \<Rightarrow> rcv_tcb \<Rightarrow> (bool \<times> rcv_tcb) option" where
  "queue_frag p k a =
     do { c \<leftarrow> controls a p;
          case (if bad_frag (rcv_idata a) c k then None else insert_fsn k (reasm c)) of
            None \<Rightarrow> do { a \<leftarrow> sctp_abort_in_reasm p k (put_control p (note_frag c k) a); Some (True, a) }
          | Some ks \<Rightarrow> Some (False, enter_reasm k (put_control p ((note_frag c k)\<lparr>reasm := ks\<rparr>) a)) }"

definition queue_first :: "rcv_env \<Rightarrow> nat \<Rightarrow> frag_chunk \<Rightarrow> rcv_tcb \<Rightarrow> (bool \<times> rcv_tcb) option" where
  "queue_first env p k a =
     do { c \<leftarrow> controls a p;
          if first_frag_seen c then do { a \<leftarrow> sctp_abort_in_reasm p k a; Some (True, a) }
          else do { a \<leftarrow> sctp_mark_non_revokable (do_drain env) (frag_tsn k) a;
                    let (c, a) = sctp_setup_tail_pointer (c\<lparr>first_frag_seen := True, sinfo_ppid := frag_ppid k, sinfo_tsn := frag_tsn k,
                                   fsn_included := frag_fsn k, ctl_mbufs := frag_data k\<rparr>) (sctp_free_a_chunk k a);
                    Some (False, (put_control p c a)\<lparr>size_on_all_streams := size_on_all_streams a + ctl_length c\<rparr>) } }"

text \<open>The fragments that have become contiguous; the flag says that the reader is to be woken.\<close>

fun absorb_loop :: "rcv_env \<Rightarrow> nat \<Rightarrow> nat \<Rightarrow> frag_chunk list \<Rightarrow> u32 \<Rightarrow> bool \<Rightarrow> rcv_tcb \<Rightarrow> (bool \<times> rcv_tcb) option" where
  "absorb_loop env s p [] fsn wake a = Some (wake, a)"
| "absorb_loop env s p (k # ks) fsn wake a =
     (if frag_fsn k = fsn
      then do { c \<leftarrow> controls a p;
                (added, a) \<leftarrow> sctp_add_chk_to_control env s p k (put_control p (c\<lparr>reasm := ks\<rparr>) a);
                let a = a\<lparr>size_on_all_streams := size_on_all_streams a + added\<rparr>;
                c \<leftarrow> controls a p;
                let wake = (wake \<or> on_read_q c);
                if end_added c \<and> pdapi_started c
                then do { x \<leftarrow> strm_at s a;
                          let a = (if pd_api_started x then put_control p (c\<lparr>pdapi_started := False\<rparr>) (put_strm s (x\<lparr>pd_api_started := False\<rparr>) a) else a);
                          if on_read_q c then Some (wake, a)
                          else do { a \<leftarrow> sctp_add_to_readq env p (end_added c) a; Some (True, a) } }
                else absorb_loop env s p ks (fsn + 1) wake a }
      else Some (wake, a))"

definition absorb :: "rcv_env \<Rightarrow> nat \<Rightarrow> nat \<Rightarrow> rcv_tcb \<Rightarrow> rcv_tcb option" where
  "absorb env s p a =
     do { c \<leftarrow> controls a p;
          (wake, a) \<leftarrow> (if first_frag_seen c then absorb_loop env s p (reasm c) (fsn_included c + 1) False a else Some (False, a));
          if wake then do { a \<leftarrow> sctp_invoke_recv_callback env p a; Some (rcv_emit [Read_wakeup] a) } else Some a }"

text \<open>A new entry gets its place. The result \<open>True\<close> says that the association was aborted.\<close>

definition place_new :: "nat \<Rightarrow> nat \<Rightarrow> frag_chunk \<Rightarrow> u32 \<Rightarrow> rcv_tcb \<Rightarrow> (bool \<times> rcv_tcb) option" where
  "place_new s p k t a =
     do { c \<leftarrow> controls a p;
          let a = (if unordered (wire_flags c) then a else a\<lparr>cnt_on_all_streams := sctp_ucount_incr (cnt_on_all_streams a)\<rparr>);
          (fails, a) \<leftarrow> sctp_place_control_in_stream s p a;
          if fails then do { a \<leftarrow> sctp_clean_up_control p a; a \<leftarrow> sctp_abort_in_reasm p k a; Some (True, a) }
          else if t = cumulative_tsn a + 1 \<and> rcv_idata a = 0 \<and> \<not> is_first k then do { a \<leftarrow> sctp_abort_in_reasm p k a; Some (True, a) }
          else Some (False, a) }"

text \<open>The result is \<^verbatim>\<open>*abort_flag\<close>.\<close>

definition sctp_queue_data_for_reasm :: "rcv_env \<Rightarrow> nat \<Rightarrow> frag_chunk \<Rightarrow> bool \<Rightarrow> u32 \<Rightarrow> rcv_tcb \<Rightarrow> (bool \<times> rcv_tcb) option" where
  "sctp_queue_data_for_reasm env p k created t a =
     do { c \<leftarrow> controls a p;
          let s = unat (sinfo_stream c);
          (ab, a) \<leftarrow> (if created then place_new s p k t a else Some (False, a));
          if ab then Some (True, a)
          else if rcv_idata a = 0 \<and> unordered (wire_flags c) then sctp_inject_old_unordered_data env p k a
          else do { (ab, a) \<leftarrow> (if is_first k then queue_first env p k a else queue_frag p k a);
                    if ab then Some (True, a) else do { a \<leftarrow> absorb env s p a; Some (False, a) } } }"

section \<open>Delivery\<close>

fun uno_loop :: "rcv_env \<Rightarrow> nat \<Rightarrow> u32 \<Rightarrow> nat list \<Rightarrow> rcv_tcb \<Rightarrow> rcv_tcb option" where
  "uno_loop env s pd [] a = Some a"
| "uno_loop env s pd (q # qs) a =
     do { c \<leftarrow> controls a q;
          x \<leftarrow> strm_at s a;
          if end_added c
          then do { let a = (if on_strm_q c \<noteq> 0 then put_control q (c\<lparr>on_strm_q := 0\<rparr>) (put_strm s (x\<lparr>uno_inqueue := remove1 q (uno_inqueue x)\<rparr>) a) else a);
                    a \<leftarrow> (if on_read_q c then Some a else sctp_add_to_readq env q (end_added c) a);
                    uno_loop env s pd qs a }
          else if ctl_length c \<ge> pd \<and> \<not> pd_api_started x
          then sctp_add_to_readq env q (end_added c) (put_control q (c\<lparr>pdapi_started := True\<rparr>) (put_strm s (x\<lparr>pd_api_started := True\<rparr>) a))
          else uno_loop env s pd qs a }"

text \<open>The entry that was being delivered has become complete; the result are the entries behind it.\<close>

definition finish_partial :: "rcv_env \<Rightarrow> nat \<Rightarrow> nat list \<Rightarrow> rcv_tcb \<Rightarrow> (nat list \<times> rcv_tcb) option" where
  "finish_partial env s ps a =
     do { c \<leftarrow> controls a (hd ps);
          x \<leftarrow> strm_at s a;
          if SCTP_MID_EQ (rcv_idata a) (last_mid_delivered x) (ctl_mid c) \<and> end_added c
          then do { a \<leftarrow> (if on_strm_q c \<noteq> 0 then unlink_ordered s (hd ps) a else Some a);
                    a \<leftarrow> (if on_read_q c then Some a else sctp_add_to_readq env (hd ps) (end_added c) a);
                    Some (tl ps, a) }
          else Some (ps, a) }"

text \<open>The results are the number of complete messages and the state.\<close>

fun more_loop :: "rcv_env \<Rightarrow> nat \<Rightarrow> u32 \<Rightarrow> nat list \<Rightarrow> int \<Rightarrow> rcv_tcb \<Rightarrow> (int \<times> rcv_tcb) option" where
  "more_loop env s pd [] ret a = Some (ret, a)"
| "more_loop env s pd (p # ps) ret a =
     do { c \<leftarrow> controls a p;
          x \<leftarrow> strm_at s a;
          let next_to_del = last_mid_delivered x + 1;
          if SCTP_MID_EQ (rcv_idata a) (ctl_mid c) next_to_del \<and> first_frag_seen c
          then do {
            (ret, a) \<leftarrow> (if end_added c then do { a \<leftarrow> (if on_strm_q c \<noteq> 0 then unlink_ordered s p a else Some a); Some (ret + 1, a) } else Some (ret, a));
            a \<leftarrow> (if not_frag (wire_flags c) then sctp_mark_non_revokable (do_drain env) (sinfo_tsn c) a else Some a);
            if \<not> not_frag (wire_flags c) \<and> \<not> end_added c \<and> (ctl_length c < pd \<or> pd_api_started x) then Some (ret, a)
            else do {
              a \<leftarrow> (if on_read_q c then Some a else sctp_add_to_readq env p (end_added c) a);
              x \<leftarrow> strm_at s a;
              let a = put_strm s (x\<lparr>last_mid_delivered := next_to_del\<rparr>) a;
              if end_added c \<and> last_frag_seen c then more_loop env s pd ps ret a
              else do { c \<leftarrow> controls a p;
                        x \<leftarrow> strm_at s a;
                        Some (ret, put_control p (c\<lparr>pdapi_started := True\<rparr>) (put_strm s (x\<lparr>pd_api_started := True\<rparr>) a)) } } }
          else Some (ret, a) }"

text \<open>From the label \<^verbatim>\<open>done_un\<close> on.\<close>

definition deliver_ordered :: "rcv_env \<Rightarrow> nat \<Rightarrow> u32 \<Rightarrow> rcv_tcb \<Rightarrow> (int \<times> rcv_tcb) option" where
  "deliver_ordered env s pd a =
     do { x \<leftarrow> strm_at s a;
          if pd_api_started x \<or> inqueue x = [] then Some (0, a)
          else do { (ps, a) \<leftarrow> finish_partial env s (inqueue x) a;
                    x \<leftarrow> strm_at s a;
                    if pd_api_started x then Some (0, a) else more_loop env s pd ps 0 a } }"

definition sctp_deliver_reasm_check :: "rcv_env \<Rightarrow> nat \<Rightarrow> rcv_tcb \<Rightarrow> (int \<times> rcv_tcb) option" where
  "sctp_deliver_reasm_check env s a =
     do { x \<leftarrow> strm_at s a;
          let pd = pd_point env a;
          (un_done, a) \<leftarrow> (case uno_inqueue x of [] \<Rightarrow> Some (False, a)
                           | q # qs \<Rightarrow> if rcv_idata a = 0 then sctp_handle_old_unordered_data env s q pd a else Some (False, a));
          if un_done then deliver_ordered env s pd a
          else do { y \<leftarrow> strm_at s a;
                    if pd_api_started y then Some (0, a)
                    else do { a \<leftarrow> uno_loop env s pd (uno_inqueue x) a; deliver_ordered env s pd a } } }"

end
