(* ===== verification/Mbuf_Copy.thy ===== *)
theory Mbuf_Copy
  imports Mbuf_Access
begin

text \<open>
  Cutting pieces out of a chain of mbufs: \<^verbatim>\<open>m_copym\<close> and \<^verbatim>\<open>m_adj\<close> of user_mbuf.c. A chain is the list of the contents of its mbufs. Packet headers and the sharing of clusters are
  left out; whether mbufs are available is an argument.
\<close>

section \<open>Copying\<close>

text \<open>Following NULL is \<open>None\<close>.\<close>

fun copym_skip :: "nat \<Rightarrow> mchain \<Rightarrow> (nat \<times> mchain) option" where
  "copym_skip off ms =
     (if off = 0 then Some (0, ms)
      else case ms of [] \<Rightarrow> None | m # ns \<Rightarrow> if off < length m then Some (off, ms) else copym_skip (off - length m) ns)"

declare copym_skip.simps [simp del]

fun copym_loop :: "nat \<Rightarrow> nat \<Rightarrow> mchain \<Rightarrow> mchain" where
  "copym_loop off len [] = []"
| "copym_loop off len (m # ms) =
     (if len = 0 then [] else let n = min len (length m - off) in take n (drop off m) # copym_loop 0 (len - n) ms)"

definition m_copym :: "bool \<Rightarrow> mchain \<Rightarrow> nat \<Rightarrow> nat \<Rightarrow> mchain option" where
  "m_copym available m off len = do { (off, ms) \<leftarrow> copym_skip off m; Some (if available then copym_loop off len ms else []) }"

section \<open>Trimming\<close>

fun adj_head :: "nat \<Rightarrow> mchain \<Rightarrow> mchain" where
  "adj_head len [] = []"
| "adj_head len (m # ms) = (if len = 0 then m # ms else if length m \<le> len then [] # adj_head (len - length m) ms else drop len m # ms)"

fun adj_keep :: "nat \<Rightarrow> mchain \<Rightarrow> mchain" where
  "adj_keep count [] = []"
| "adj_keep count (m # ms) = (if length m \<ge> count then [take count m] else m # adj_keep (count - length m) ms)"

definition adj_tail :: "nat \<Rightarrow> mchain \<Rightarrow> mchain" where
  "adj_tail len ms =
     (if ms = [] then []
      else if length (last ms) \<ge> len then butlast ms @ [take (length (last ms) - len) (last ms)]
      else adj_keep (sum_list (map length ms) - len) ms)"

definition m_adj :: "mchain \<Rightarrow> int \<Rightarrow> mchain" where
  "m_adj m req_len = (if req_len \<ge> 0 then adj_head (nat req_len) m else adj_tail (nat (- req_len)) m)"

section \<open>The bytes\<close>

lemma copym_skip_bytes: "off \<le> length (concat ms) \<Longrightarrow> \<exists>o' ns. copym_skip off ms = Some (o', ns) \<and> drop o' (concat ns) = drop off (concat ms) \<and> (o' = 0 \<or> o' < length (hd ns) \<and> ns \<noteq> [])"
proof (induction off ms rule: copym_skip.induct)
  case (1 off ms)
  show ?case
  proof (cases "off = 0")
    case False
    then obtain m ns where ms: "ms = m # ns" using "1.prems" by (cases ms) auto
    show ?thesis
    proof (cases "off < length m")
      case True
      then show ?thesis using ms False by (simp add: copym_skip.simps [of off])
    next
      case far: False
      then have "off - length m \<le> length (concat ns)" using "1.prems" ms by simp
      from "1.IH" [OF False ms far this] show ?thesis using ms False far by (simp add: copym_skip.simps [of off])
    qed
  qed (simp add: copym_skip.simps)
qed

lemma copym_loop_bytes: "off = 0 \<or> off < length (hd ms) \<Longrightarrow> concat (copym_loop off len ms) = take len (drop off (concat ms))"
proof (induction off len ms rule: copym_loop.induct)
  case (2 off len m ms)
  then show ?case by (cases "len = 0") (auto simp: Let_def min_def)
qed simp

lemma m_copym_bytes:
  assumes "off \<le> length (concat m)"
  shows "\<exists>ms. m_copym True m off len = Some ms \<and> concat ms = take len (drop off (concat m))"
  using copym_skip_bytes [OF assms] copym_loop_bytes by (fastforce simp: m_copym_def)

lemma adj_head_bytes: "concat (adj_head len ms) = drop len (concat ms)"
  by (induction len ms rule: adj_head.induct) auto

lemma adj_keep_bytes: "concat (adj_keep count ms) = take count (concat ms)"
  by (induction count ms rule: adj_keep.induct) auto

lemma adj_tail_bytes: "concat (adj_tail len ms) = take (length (concat ms) - len) (concat ms)"
proof (cases "ms = []")
  case False
  then have ms: "concat ms = concat (butlast ms) @ last ms" by (metis append_butlast_last_id concat.simps concat_append append_Nil2)
  show ?thesis using False adj_keep_bytes [of "sum_list (map length ms) - len" ms] arg_cong [OF ms, of length]
    by (auto simp: adj_tail_def length_concat) (auto simp: ms length_concat)
qed (simp add: adj_tail_def)

end
