(* ===== verification/Rcv_Data.thy ===== *)
theory Rcv_Data
  imports Rcv_Reasm Mbuf_Copy
begin

text \<open>
  One DATA or I-DATA chunk of a received packet, \<^verbatim>\<open>sctp_process_a_data_chunk\<close> of netinet/sctp_indata.c: its fields, the tests it must pass, its entry, and where it goes. The reset of
  incoming streams (\<^verbatim>\<open>sctp_reset_in_stream\<close> of sctp_input.c) is done when the data before it has arrived. A packet is its chain of mbufs, and
  the chunk begins at \<open>offset\<close>.
\<close>

definition SCTP_DATA_SACK_IMMEDIATELY :: u8 where "SCTP_DATA_SACK_IMMEDIATELY = 0x08"
definition SCTP_CAUSE_NO_USER_DATA :: u16 where "SCTP_CAUSE_NO_USER_DATA = 0x0009"
definition SCTP_CAUSE_OUT_OF_RESC :: u16 where "SCTP_CAUSE_OUT_OF_RESC = 0x0004"
definition SCTP_STATE_CLOSED_SOCKET :: u32 where "SCTP_STATE_CLOSED_SOCKET = 0x0100"
definition sizeof_idata_chunk :: nat where "sizeof_idata_chunk = 20"

section \<open>The fields\<close>

record data_fields =
  df_idata :: bool
  df_flags :: u8
  df_tsn :: u32
  df_sid :: u16
  df_mid :: u32
  df_fsn :: u32
  df_ppid :: u32

definition read_be32 :: "bytes \<Rightarrow> nat \<Rightarrow> u32" where "read_be32 b i = be32 (b ! i) (b ! (i + 1)) (b ! (i + 2)) (b ! (i + 3))"
definition read_le32 :: "bytes \<Rightarrow> nat \<Rightarrow> u32" where "read_le32 b i = le32 (b ! i) (b ! (i + 1)) (b ! (i + 2)) (b ! (i + 3))"
definition read_be16 :: "bytes \<Rightarrow> nat \<Rightarrow> u16" where "read_be16 b i = be16 (b ! i) (b ! (i + 1))"

definition header_size :: "bool \<Rightarrow> nat" where
  "header_size idata = (if idata then sizeof_idata_chunk else unat sizeof_data_chunk)"

text \<open>The protocol identifier stays in network byte order. The chunk must be inside the packet.\<close>

definition data_header :: "bool \<Rightarrow> mchain \<Rightarrow> int \<Rightarrow> data_fields option" where
  "data_header idata m offset =
     (if idata
      then do { b \<leftarrow> sctp_m_getptr m offset (int (header_size idata));
                let f = b ! 1;
                let first = (f AND SCTP_DATA_FIRST_FRAG \<noteq> 0);
                Some \<lparr>df_idata = True, df_flags = f, df_tsn = read_be32 b 4, df_sid = read_be16 b 8, df_mid = read_be32 b 12,
                      df_fsn = (if first then 0 else read_be32 b 16), df_ppid = (if first then read_le32 b 16 else 0xffffffff)\<rparr> }
      else do { b \<leftarrow> sctp_m_getptr m offset (int (header_size idata));
                Some \<lparr>df_idata = False, df_flags = b ! 1, df_tsn = read_be32 b 4, df_sid = read_be16 b 8, df_mid = ucast (read_be16 b 10),
                      df_fsn = read_be32 b 4, df_ppid = read_le32 b 12\<rparr> })"

section \<open>Admission\<close>

text \<open>What becomes of the chunk: it was taken, or dropped, the packet is given up, or the association aborted.\<close>

datatype data_result = Data_taken | Data_dropped | Data_break | Data_abort

definition data_abort :: "u16 \<Rightarrow> rcv_tcb \<Rightarrow> data_result \<times> rcv_tcb" where
  "data_abort cause a = (Data_abort, rcv_emit [Rcv_abort cause] a)"

text \<open>The tests of the entry that was found: it must be of the same message. The result is the entry to use, or the abort.\<close>

definition match_entry :: "data_fields \<Rightarrow> nat option \<Rightarrow> rcv_tcb \<Rightarrow> (bool \<times> nat option) option" where
  "match_entry d p a =
     (case p of None \<Rightarrow> Some (True, None)
      | Some p \<Rightarrow>
          do { c \<leftarrow> controls a p;
               let ordered = (\<not> unordered (df_flags d));
               Some (if \<not> not_frag (df_flags d)
                     then if ordered \<and> df_mid d \<noteq> ctl_mid c \<or> ordered = unordered (wire_flags c) then (False, None) else (True, Some p)
                     else if ordered \<or> rcv_idata a \<noteq> 0 then (False, None)
                     else if df_tsn d = fsn_included c + 1 \<and> \<not> end_added c then (False, None) else (True, None)) })"

definition no_room :: "rcv_env \<Rightarrow> rcv_tcb \<Rightarrow> bool" where
  "no_room env a \<longleftrightarrow> cnt_on_all_streams a + cnt_on_reasm_queue a + cnt_msg_on_sb a \<ge> max_chunks_on_queue env \<or> sint (my_rwnd a) \<le> 0"

text \<open>Without room only chunks below the highest one seen are taken.\<close>

definition out_of_range :: "data_fields \<Rightarrow> nat option \<Rightarrow> rcv_tcb \<Rightarrow> bool option" where
  "out_of_range d p a =
     (if \<not> df_idata d then Some (SCTP_TSN_GT (df_tsn d) (highest_tsn_inside_map a) \<and> SCTP_TSN_GT (df_tsn d) (highest_tsn_inside_nr_map a))
      else case p of None \<Rightarrow> Some True | Some p \<Rightarrow> do { c \<leftarrow> controls a p; Some (SCTP_TSN_GT (df_fsn d) (top_fsn c)) })"

definition old_message :: "data_fields \<Rightarrow> in_stream \<Rightarrow> rcv_tcb \<Rightarrow> bool" where
  "old_message d x a \<longleftrightarrow> df_flags d AND SCTP_DATA_FIRST_FRAG \<noteq> 0 \<and> resetHead a = [] \<and> \<not> unordered (df_flags d) \<and>
     SCTP_MID_GE (rcv_idata a) (last_mid_delivered x) (df_mid d)"

text \<open>The tests after the one of the TSN, whose bit is at \<open>gap\<close>: the entry to use, or the result when the chunk is not taken.\<close>

definition data_admit :: "rcv_env \<Rightarrow> data_fields \<Rightarrow> u32 \<Rightarrow> rcv_tcb \<Rightarrow> ((nat option + data_result) \<times> rcv_tcb) option" where
  "data_admit env d gap a =
     (let stop = (\<lambda>(r, a). Some (Inr r, a))
      in if socket_gone env \<or> asoc_state a AND SCTP_STATE_CLOSED_SOCKET \<noteq> 0 then stop (data_abort SCTP_CAUSE_OUT_OF_RESC a)
         else if unat (df_sid d) \<ge> length (strmin a)
         then do { let a = (if err_available env then rcv_emit [Invalid_stream (df_sid d)] a else a);
                   a \<leftarrow> mark_nr gap (df_tsn d) a;
                   stop (Data_dropped, advance_cumulative (df_tsn d) a) }
         else if df_idata d \<and> df_flags d AND SCTP_DATA_FIRST_FRAG = 0 \<and> df_fsn d = 0 then stop (data_abort SCTP_CAUSE_PROTOCOL_VIOLATION a)
         else do { let x = strmin a ! unat (df_sid d);
                   p \<leftarrow> sctp_find_reasm_entry x (df_mid d) (\<not> unordered (df_flags d)) a;
                   (ok, p) \<leftarrow> match_entry d p a;
                   if \<not> ok then stop (data_abort SCTP_CAUSE_PROTOCOL_VIOLATION a)
                   else do { let full = no_room env a;
                             let a = (if full \<and> so_rcv_cc a \<noteq> 0 then rcv_emit [Read_wakeup] a else a);
                             beyond \<leftarrow> (if full then out_of_range d p a else Some False);
                             if beyond then stop (Data_break, sctp_set_rwnd a)
                             else if old_message d x a then stop (data_abort SCTP_CAUSE_PROTOCOL_VIOLATION a)
                             else Some (Inl p, a) } })"

section \<open>Taking the chunk\<close>

text \<open>The data of the chunk: a copy, or for the last chunk the packet itself, cut to size.\<close>

definition chunk_mbufs :: "rcv_env \<Rightarrow> mchain \<Rightarrow> nat \<Rightarrow> nat \<Rightarrow> bool \<Rightarrow> mchain option" where
  "chunk_mbufs env m pos the_len last_chunk =
     (if \<not> last_chunk then m_copym (copy_available env) m pos the_len
      else let dmbuf = m_adj m (int pos);
               l_len = sum_list (map length dmbuf)
           in Some (if l_len > the_len then m_adj dmbuf (- int (l_len - the_len)) else dmbuf))"

definition sctp_build_readq_entry_mac :: "data_fields \<Rightarrow> nat \<Rightarrow> rcv_control" where
  "sctp_build_readq_entry_mac d net =
     \<lparr>sinfo_stream = df_sid d, sinfo_flags = push_bit 8 (ucast (df_flags d)), sinfo_ppid = df_ppid d, sinfo_tsn = df_tsn d, ctl_mid = df_mid d, ctl_length = 0,
      top_fsn = 0xffffffff, fsn_included = 0xffffffff, whoFrom = Some net, ctl_mbufs = [], tail_mbuf = False, reasm = [], end_added = False,
      pdapi_aborted = False, pdapi_started = False, last_frag_seen = False, first_frag_seen = False, on_read_q = False, on_strm_q = 0\<rparr>"

text \<open>A new entry; that of a complete message gets the data.\<close>

definition new_entry :: "data_fields \<Rightarrow> nat \<Rightarrow> mchain \<Rightarrow> rcv_tcb \<Rightarrow> nat \<times> rcv_tcb" where
  "new_entry d net dmbuf a =
     (let c = sctp_build_readq_entry_mac d net;
          c = (if not_frag (df_flags d)
               then c\<lparr>ctl_mbufs := dmbuf, ctl_length := chain_length dmbuf, end_added := True, last_frag_seen := True, first_frag_seen := True,
                      fsn_included := df_fsn d, top_fsn := df_fsn d\<rparr> else c);
          p = next_control a
      in (p, ref_net (Some net) 1 ((put_control p c a)\<lparr>next_control := Suc p\<rparr>)))"

text \<open>\<^verbatim>\<open>SCTP_MID_EQ\<close> with the argument \<^verbatim>\<open>last_mid_delivered + 1\<close>: the macro casts its argument without parentheses around it, so for DATA
  the 16-bit member is widened to \<^verbatim>\<open>int\<close> before one is added, and the sum 65536 equals no 16-bit message identifier.\<close>

definition mid_follows :: "u8 \<Rightarrow> u32 \<Rightarrow> u32 \<Rightarrow> bool" where
  "mid_follows i l m = (if i = 1 then l + 1 = m else uint (ucast l :: u16) + 1 = uint (ucast m :: u16))"

definition express :: "data_fields \<Rightarrow> in_stream \<Rightarrow> rcv_tcb \<Rightarrow> bool" where
  "express d x a \<longleftrightarrow> not_frag (df_flags d) \<and> resetHead a = [] \<and>
     (unordered (df_flags d) \<or> mid_follows (rcv_idata a) (last_mid_delivered x) (df_mid d) \<and> inqueue x = [])"

definition express_deliver :: "rcv_env \<Rightarrow> data_fields \<Rightarrow> u32 \<Rightarrow> nat \<Rightarrow> rcv_tcb \<Rightarrow> rcv_tcb option" where
  "express_deliver env d gap p a =
     do { a \<leftarrow> mark_nr gap (df_tsn d) a;
          a \<leftarrow> sctp_add_to_readq env p True a;
          if unordered (df_flags d) then Some a else bump_mid (unat (df_sid d)) a }"

text \<open>While streams are being reset, data behind the reset waits in the order of its TSNs.\<close>

fun insert_pending :: "(nat \<Rightarrow> rcv_control option) \<Rightarrow> nat \<Rightarrow> u32 \<Rightarrow> nat list \<Rightarrow> nat list option" where
  "insert_pending h p t [] = Some [p]"
| "insert_pending h p t (q # qs) =
     do { c \<leftarrow> h q; if SCTP_TSN_GT t (sinfo_tsn c) then map_option ((#) q) (insert_pending h p t qs) else Some (p # q # qs) }"

text \<open>The results are whether the association was aborted and whether the fragments of the stream are to be looked at.\<close>

definition data_place :: "rcv_env \<Rightarrow> data_fields \<Rightarrow> nat \<Rightarrow> frag_chunk \<Rightarrow> bool \<Rightarrow> rcv_tcb \<Rightarrow> (bool \<times> bool \<times> rcv_tcb) option" where
  "data_place env d p k created a =
     (if not_frag (df_flags d)
      then if resetHead a \<noteq> [] \<and> SCTP_TSN_GT (df_tsn d) (reset_tsn (hd (resetHead a)))
           then do { c \<leftarrow> controls a p;
                     q \<leftarrow> insert_pending (controls a) p (sinfo_tsn c) (pending_reply_queue a);
                     Some (False, False, a\<lparr>pending_reply_queue := q\<rparr>) }
           else if unordered (df_flags d)
           then do { c \<leftarrow> controls a p;
                     a \<leftarrow> sctp_mark_non_revokable (do_drain env) (sinfo_tsn c) a;
                     a \<leftarrow> sctp_add_to_readq env p True a;
                     Some (False, False, a) }
           else sctp_queue_data_to_stream env p a
      else do { (ab, a) \<leftarrow> sctp_queue_data_for_reasm env p k created (df_tsn d) a; Some (ab, True, a) })"

text \<open>The chunk was admitted with the entry \<open>p\<close>, if there is one. The result is the chunk's, and whether the fragments of the stream are to be looked at.\<close>

definition data_take :: "rcv_env \<Rightarrow> data_fields \<Rightarrow> u32 \<Rightarrow> nat \<Rightarrow> nat option \<Rightarrow> mchain \<Rightarrow> nat \<Rightarrow> rcv_tcb \<Rightarrow> (data_result \<times> bool \<times> rcv_tcb) option" where
  "data_take env d gap net p dmbuf the_len a =
     (if dmbuf = [] \<or> p = None \<and> \<not> readq_available env then Some (Data_dropped, False, a)
      else do {
        let created = (p = None);
        let (p, a) = (case p of Some p \<Rightarrow> (p, a) | None \<Rightarrow> new_entry d net dmbuf a);
        x \<leftarrow> strm_at (unat (df_sid d)) a;
        if express d x a then do { a \<leftarrow> express_deliver env d gap p a; Some (Data_taken, False, a) }
        else if \<not> not_frag (df_flags d) \<and> \<not> frag_available env then Some (Data_dropped, False, a)
        else do {
          let k = \<lparr>frag_tsn = df_tsn d, frag_fsn = df_fsn d, frag_ppid = df_ppid d, frag_flags = df_flags d, frag_size = of_nat the_len, frag_whoTo = net,
                   frag_data = dmbuf\<rparr>;
          let a = (if not_frag (df_flags d) then a else ref_net (Some net) 1 a);
          a \<leftarrow> (if do_drain env then mark_r gap (df_tsn d) a else mark_nr gap (df_tsn d) a);
          (ab, need, a) \<leftarrow> data_place env d p k created a;
          Some (if ab then Data_abort else Data_taken, need, a) } })"

section \<open>Resetting streams\<close>

definition sctp_reset_in_stream :: "u16 list \<Rightarrow> rcv_tcb \<Rightarrow> rcv_tcb" where
  "sctp_reset_in_stream ss a =
     (let reset = (\<lambda>i x. if ss = [] \<or> i \<in> set (map unat ss) then x\<lparr>last_mid_delivered := 0xffffffff\<rparr> else x)
      in rcv_emit [Streams_reset ss] (a\<lparr>strmin := map2 reset [0..<length (strmin a)] (strmin a)\<rparr>))"

text \<open>Data that waited for the reset goes on, up to the next reset. The member of the entry that tells its stream is read after the entry was handed over.\<close>

fun pending_loop :: "rcv_env \<Rightarrow> nat list \<Rightarrow> rcv_tcb \<Rightarrow> (bool \<times> rcv_tcb) option" where
  "pending_loop env [] a = Some (False, a)"
| "pending_loop env (q # qs) a =
     do { c \<leftarrow> controls a q;
          if resetHead a \<noteq> [] \<and> SCTP_TSN_GT (sinfo_tsn c) (reset_tsn (hd (resetHead a))) then Some (False, a)
          else do { (ab, need, a) \<leftarrow> sctp_queue_data_to_stream env q (a\<lparr>pending_reply_queue := qs\<rparr>);
                    if ab then Some (True, a)
                    else do { a \<leftarrow> (if need then do { c \<leftarrow> controls a q; (_, a) \<leftarrow> sctp_deliver_reasm_check env (unat (sinfo_stream c)) a; Some a } else Some a);
                              pending_loop env qs a } } }"

definition finish_resets :: "rcv_env \<Rightarrow> rcv_tcb \<Rightarrow> (bool \<times> rcv_tcb) option" where
  "finish_resets env a =
     (case resetHead a of [] \<Rightarrow> Some (False, a)
      | r # rs \<Rightarrow> if SCTP_TSN_GE (cumulative_tsn a) (reset_tsn r)
                  then let a = rcv_emit [Reset_response] ((sctp_reset_in_stream (reset_streams r) a)\<lparr>resetHead := rs\<rparr>)
                       in pending_loop env (pending_reply_queue a) a
                  else Some (False, a))"

section \<open>The chunk\<close>

definition sctp_process_a_data_chunk ::
    "rcv_env \<Rightarrow> mchain \<Rightarrow> int \<Rightarrow> nat \<Rightarrow> nat \<Rightarrow> u32 \<Rightarrow> bool \<Rightarrow> bool \<Rightarrow> rcv_tcb \<Rightarrow> (data_result \<times> u32 \<times> rcv_tcb) option" where
  "sctp_process_a_data_chunk env m offset chk_length net high_tsn last_chunk idata a =
     do { d \<leftarrow> data_header idata m offset;
          if chk_length = header_size idata then (let (r, a) = data_abort SCTP_CAUSE_NO_USER_DATA a in Some (r, high_tsn, a))
          else do {
            let a = (if df_flags d AND SCTP_DATA_SACK_IMMEDIATELY = SCTP_DATA_SACK_IMMEDIATELY then a\<lparr>send_sack := 1\<rparr> else a);
            (v, high_tsn, a) \<leftarrow> tsn_check (fst (maps_available env)) (snd (maps_available env)) (df_tsn d) high_tsn a;
            case v of
              Tsn_new gap \<Rightarrow>
                do { (r, a) \<leftarrow> data_admit env d gap a;
                     case r of Inr r \<Rightarrow> Some (r, high_tsn, a)
                     | Inl p \<Rightarrow>
                         do { let the_len = chk_length - header_size idata;
                              dmbuf \<leftarrow> chunk_mbufs env m (nat offset + header_size idata) the_len last_chunk;
                              (r, need, a) \<leftarrow> data_take env d gap net p dmbuf the_len a;
                              if r \<noteq> Data_taken then Some (r, high_tsn, a)
                              else do { let a = advance_cumulative (df_tsn d) a;
                                        a \<leftarrow> (if need then do { (_, a) \<leftarrow> sctp_deliver_reasm_check env (unat (df_sid d)) a; Some a } else Some a);
                                        (ab, a) \<leftarrow> finish_resets env a;
                                        Some (if ab then Data_abort else Data_taken, high_tsn, a) } } }
            | _ \<Rightarrow> Some (Data_dropped, high_tsn, a) } }"

end
