(* ===== verification/Rcv_Reader.thy ===== *)
theory Rcv_Reader
  imports Rcv_Data Tsn_Run
begin

text \<open>
  What the rest of the receive side relies on when it hands a complete message to the reader. An application takes messages from the read queue or by the upcall;
  the locale \<open>reader\<close> says what both ways promise, and it is interpreted on both.
\<close>

section \<open>Messages handed over\<close>

record message =
  msg_stream :: u16
  msg_ssn :: u16
  msg_ppid :: u32
  msg_bytes :: bytes

definition ctl_message :: "rcv_control \<Rightarrow> message" where
  "ctl_message c = \<lparr>msg_stream = sinfo_stream c, msg_ssn = ucast (ctl_mid c), msg_ppid = sinfo_ppid c, msg_bytes = concat (ctl_mbufs c)\<rparr>"

definition read_messages :: "rcv_tcb \<Rightarrow> message list" where
  "read_messages a = map (\<lambda>p. ctl_message (the (controls a p))) (read_queue a)"

fun upcall_message :: "rcv_event \<Rightarrow> message list" where
  "upcall_message (Recv_upcall s m f ppid t b fin) = [\<lparr>msg_stream = s, msg_ssn = m, msg_ppid = ppid, msg_bytes = b\<rparr>]"
| "upcall_message _ = []"

definition upcalls :: "rcv_tcb \<Rightarrow> message list" where
  "upcalls a = concat (map upcall_message (rcv_events a))"

definition handed :: "rcv_env \<Rightarrow> rcv_tcb \<Rightarrow> message list" where
  "handed env a = (if recv_upcall env then upcalls a else read_messages a)"

text \<open>What handing over the entry \<open>p\<close> leaves alone, and the entries on the read queue: they have left their streams.\<close>

definition keeps :: "nat \<Rightarrow> rcv_tcb \<Rightarrow> rcv_tcb \<Rightarrow> bool" where
  "keeps p a a' \<longleftrightarrow> rcv_asoc.truncate a' = rcv_asoc.truncate a \<and> strmin a' = strmin a \<and> (\<forall>q. q \<noteq> p \<longrightarrow> controls a' q = controls a q) \<and>
     rcv_idata a' = rcv_idata a \<and> resetHead a' = resetHead a \<and> next_control a' = next_control a \<and> so_rcv_hiwat a' = so_rcv_hiwat a \<and>
     asoc_state a' = asoc_state a"

definition read_ok :: "rcv_tcb \<Rightarrow> bool" where
  "read_ok a \<longleftrightarrow> (\<forall>p \<in> set (read_queue a). \<exists>c. controls a p = Some c \<and> on_strm_q c = 0)"

locale reader =
  fixes mode :: "rcv_env \<Rightarrow> bool" and seen :: "rcv_tcb \<Rightarrow> message list"
  assumes seen_same: "read_queue a' = read_queue a \<Longrightarrow> (\<And>p. p \<in> set (read_queue a) \<Longrightarrow> controls a' p = controls a p) \<Longrightarrow>
      upcalls a' = upcalls a \<Longrightarrow> seen a' = seen a"
    and hands_over: "mode env \<Longrightarrow> controls a p = Some c \<Longrightarrow> concat (ctl_mbufs c) \<noteq> [] \<Longrightarrow> length (concat (ctl_mbufs c)) < 2 ^ 32 \<Longrightarrow>
      on_strm_q c = 0 \<Longrightarrow> p \<notin> set (read_queue a) \<Longrightarrow> read_ok a \<Longrightarrow> so_rcv_hiwat a \<noteq> None \<Longrightarrow>
      \<exists>a'. sctp_add_to_readq env p True a = Some a' \<and> seen a' = seen a @ [ctl_message c] \<and> keeps p a a' \<and> read_ok a'"

section \<open>The socket buffer\<close>

lemma base_upd [simp]:
  fixes a :: rcv_tcb
  shows "rcv_asoc.truncate (a\<lparr>controls := u1\<rparr>) = rcv_asoc.truncate a" "rcv_asoc.truncate (a\<lparr>strmin := u2\<rparr>) = rcv_asoc.truncate a"
    "rcv_asoc.truncate (a\<lparr>read_queue := u3\<rparr>) = rcv_asoc.truncate a" "rcv_asoc.truncate (a\<lparr>rcv_events := u4\<rparr>) = rcv_asoc.truncate a"
    "rcv_asoc.truncate (a\<lparr>next_control := u5\<rparr>) = rcv_asoc.truncate a" "rcv_asoc.truncate (a\<lparr>size_on_all_streams := u6\<rparr>) = rcv_asoc.truncate a"
    "rcv_asoc.truncate (a\<lparr>cnt_on_all_streams := u7\<rparr>) = rcv_asoc.truncate a"
  by (simp_all add: rcv_asoc.truncate_def)

lemma sballoc_keeps [simp]:
  shows "rcv_asoc.truncate (fold sctp_sballoc ms a) = rcv_asoc.truncate a" "strmin (fold sctp_sballoc ms a) = strmin a"
    "controls (fold sctp_sballoc ms a) = controls a" "read_queue (fold sctp_sballoc ms a) = read_queue a"
    "rcv_idata (fold sctp_sballoc ms a) = rcv_idata a" "resetHead (fold sctp_sballoc ms a) = resetHead a"
    "next_control (fold sctp_sballoc ms a) = next_control a" "so_rcv_hiwat (fold sctp_sballoc ms a) = so_rcv_hiwat a"
    "asoc_state (fold sctp_sballoc ms a) = asoc_state a" "rcv_events (fold sctp_sballoc ms a) = rcv_events a"
  by (induction ms arbitrary: a) (simp_all add: sctp_sballoc_def rcv_asoc.truncate_def)

lemma sbfree_keeps [simp]:
  shows "rcv_asoc.truncate (fold sctp_sbfree ms a) = rcv_asoc.truncate a" "strmin (fold sctp_sbfree ms a) = strmin a"
    "controls (fold sctp_sbfree ms a) = controls a" "read_queue (fold sctp_sbfree ms a) = read_queue a"
    "rcv_idata (fold sctp_sbfree ms a) = rcv_idata a" "resetHead (fold sctp_sbfree ms a) = resetHead a"
    "next_control (fold sctp_sbfree ms a) = next_control a" "so_rcv_hiwat (fold sctp_sbfree ms a) = so_rcv_hiwat a"
    "asoc_state (fold sctp_sbfree ms a) = asoc_state a" "rcv_events (fold sctp_sbfree ms a) = rcv_events a"
  by (induction ms arbitrary: a) (simp_all add: sctp_sbfree_def rcv_asoc.truncate_def)

lemma ref_net_keeps [simp]:
  shows "rcv_asoc.truncate (ref_net net d a) = rcv_asoc.truncate a" "strmin (ref_net net d a) = strmin a"
    "controls (ref_net net d a) = controls a" "read_queue (ref_net net d a) = read_queue a"
    "rcv_idata (ref_net net d a) = rcv_idata a" "resetHead (ref_net net d a) = resetHead a"
    "next_control (ref_net net d a) = next_control a" "so_rcv_hiwat (ref_net net d a) = so_rcv_hiwat a"
    "asoc_state (ref_net net d a) = asoc_state a" "rcv_events (ref_net net d a) = rcv_events a"
  by (simp_all add: ref_net_def rcv_asoc.truncate_def split: option.splits)

lemma nonempty_mbufs_bytes [simp]: "concat (nonempty_mbufs ms) = concat ms"
  by (induction ms) (auto simp: nonempty_mbufs_def)

lemma nonempty_mbufs_Nil: "nonempty_mbufs ms = [] \<longleftrightarrow> concat ms = []"
  by (auto simp: nonempty_mbufs_def filter_empty_conv)

lemma chain_length_eq: "chain_length ms = of_nat (length (concat ms))"
  by (simp add: chain_length_def length_concat)

section \<open>The two ways\<close>

text \<open>The entry as it is put onto the read queue.\<close>

definition on_queue :: "rcv_control \<Rightarrow> rcv_control" where
  "on_queue c = (let ms = nonempty_mbufs (ctl_mbufs c)
     in c\<lparr>ctl_length := chain_length ms, ctl_mbufs := ms, tail_mbuf := True, end_added := True, on_read_q := True\<rparr>)"

definition onto_queue :: "nat \<Rightarrow> rcv_control \<Rightarrow> rcv_tcb \<Rightarrow> rcv_tcb" where
  "onto_queue p c a = (put_control p (on_queue c) (fold sctp_sballoc (nonempty_mbufs (ctl_mbufs c)) a))\<lparr>read_queue := read_queue a @ [p]\<rparr>"

lemma add_to_readq_eq:
  assumes "controls a p = Some c" "concat (ctl_mbufs c) \<noteq> []" "\<not> cant_read env" "so_rcv_hiwat a \<noteq> None"
  shows "sctp_add_to_readq env p True a =
    do { a' \<leftarrow> sctp_invoke_recv_callback env p (onto_queue p c a); Some (rcv_emit [Read_wakeup] a') }"
  using assms by (auto simp: sctp_add_to_readq_def onto_queue_def on_queue_def nonempty_mbufs_Nil Let_def put_control_def)

lemma onto_queue_keeps: "keeps p a (onto_queue p c a)"
  by (simp add: keeps_def onto_queue_def put_control_def)

lemma ctl_message_on_queue [simp]: "ctl_message (on_queue c) = ctl_message c"
  by (simp add: ctl_message_def on_queue_def Let_def)

lemma emit_keeps: "keeps p a a' \<Longrightarrow> keeps p a (rcv_emit es a')"
  by (simp add: keeps_def rcv_emit_def)

lemma read_ok_emit [simp]: "read_ok (rcv_emit es a) = read_ok a"
  by (simp add: read_ok_def rcv_emit_def)

interpretation queue_reader: reader "\<lambda>env. \<not> cant_read env \<and> \<not> recv_upcall env" read_messages
proof
  show "read_messages a' = read_messages a" if "read_queue a' = read_queue a" "\<And>p. p \<in> set (read_queue a) \<Longrightarrow> controls a' p = controls a p" for a a'
    using that by (simp add: read_messages_def)
next
  fix env :: rcv_env and p c
  fix a :: rcv_tcb
  assume "\<not> cant_read env \<and> \<not> recv_upcall env" "controls a p = Some c" "concat (ctl_mbufs c) \<noteq> []" "so_rcv_hiwat a \<noteq> None"
  then have add: "sctp_add_to_readq env p True a = Some (rcv_emit [Read_wakeup] (onto_queue p c a))"
    by (subst add_to_readq_eq) (auto simp: sctp_invoke_recv_callback_def)
  assume p: "on_strm_q c = 0" "p \<notin> set (read_queue a)" "read_ok a"
  then have "read_messages (rcv_emit [Read_wakeup] (onto_queue p c a)) = read_messages a @ [ctl_message c]"
    by (auto simp: read_messages_def rcv_emit_def onto_queue_def put_control_def)
  moreover have "read_ok (onto_queue p c a)" using p by (auto simp: read_ok_def onto_queue_def put_control_def on_queue_def Let_def)
  ultimately show "\<exists>a'. sctp_add_to_readq env p True a = Some a' \<and> read_messages a' = read_messages a @ [ctl_message c] \<and> keeps p a a' \<and> read_ok a'"
    using add emit_keeps [OF onto_queue_keeps] by auto
qed

interpretation upcall_reader: reader "\<lambda>env. \<not> cant_read env \<and> recv_upcall env \<and> buffer_available env" upcalls
proof
  fix env :: rcv_env and p c
  fix a :: rcv_tcb
  assume env: "\<not> cant_read env \<and> recv_upcall env \<and> buffer_available env" and c: "controls a p = Some c" "concat (ctl_mbufs c) \<noteq> []" "so_rcv_hiwat a \<noteq> None"
  assume len: "length (concat (ctl_mbufs c)) < 2 ^ 32"
  assume p: "on_strm_q c = 0" "p \<notin> set (read_queue a)" "read_ok a"
  let ?b = "onto_queue p c a"
  let ?a = "rcv_emit [Recv_upcall (sinfo_stream c) (ucast (ctl_mid c)) (sinfo_flags c) (sinfo_ppid c) (sinfo_tsn c) (concat (ctl_mbufs c)) True]
     (sctp_free_a_readq p (ref_net (whoFrom c) (-1) ((fold sctp_sbfree (ctl_mbufs (on_queue c)) ?b)\<lparr>read_queue := read_queue a\<rparr>)))"
  have n: "unat (chain_length (nonempty_mbufs (ctl_mbufs c))) = length (concat (ctl_mbufs c))"
    using len by (simp add: chain_length_eq unat_of_nat)
  have b: "controls ?b p = Some (on_queue c)" "read_queue ?b = read_queue a @ [p]" "so_rcv_hiwat ?b \<noteq> None"
    using c(3) by (simp_all add: onto_queue_def put_control_def)
  have "sctp_invoke_recv_callback env p ?b = Some ?a"
    using env b p(2) n by (auto simp: sctp_invoke_recv_callback_def Let_def remove1_append on_queue_def)
  then have "sctp_add_to_readq env p True a = Some (rcv_emit [Read_wakeup] ?a)" using add_to_readq_eq [OF c(1,2) _ c(3), of env] env by simp
  moreover have "upcalls (rcv_emit [Read_wakeup] ?a) = upcalls a @ [ctl_message c]"
    by (simp add: upcalls_def rcv_emit_def sctp_free_a_readq_def ctl_message_def onto_queue_def put_control_def)
  moreover have "keeps p a ?a" using onto_queue_keeps [of p a c]
    by (simp add: keeps_def rcv_emit_def sctp_free_a_readq_def)
  moreover have "read_ok ?a" using p by (auto simp: read_ok_def rcv_emit_def sctp_free_a_readq_def onto_queue_def put_control_def)
  ultimately show "\<exists>a'. sctp_add_to_readq env p True a = Some a' \<and> upcalls a' = upcalls a @ [ctl_message c] \<and> keeps p a a' \<and> read_ok a'"
    using emit_keeps by auto
qed simp

end
