(* ===== verification/Rcv_Order.thy ===== *)
theory Rcv_Order
  imports Rcv_Reader
begin

text \<open>
  Messages of a stream are handed over in their order. Message identifiers are numbered by integers, as TSNs are: \<open>mid_is i m j\<close> says that the identifier \<open>m\<close> stands for
  the number \<open>j\<close>. With DATA chunks (\<open>i \<noteq> 1\<close>) only the lower 16 bits of an identifier count.
\<close>

section \<open>Message identifiers\<close>

definition mid_is :: "u8 \<Rightarrow> u32 \<Rightarrow> int \<Rightarrow> bool" where
  "mid_is i m j \<longleftrightarrow> (if i = 1 then m = word_of_int j else (ucast m :: u16) = word_of_int j)"

definition half_space :: "u8 \<Rightarrow> int" where
  "half_space i = (if i = 1 then 2 ^ 31 else 2 ^ 15)"

lemma word_of_int_eq_u16: "(word_of_int x :: u16) = word_of_int y \<longleftrightarrow> 2 ^ 16 dvd x - y"
  by (simp add: word_of_int_eq_iff take_bit_eq_mod mod_eq_dvd_iff)

lemma word_of_int_inj_u16: "\<bar>x - y\<bar> < 2 ^ 16 \<Longrightarrow> (word_of_int x :: u16) = word_of_int y \<longleftrightarrow> x = y"
  using dvd_imp_le_int [of "x - y" "2 ^ 16"] by (auto simp: word_of_int_eq_u16)

lemma unat_of_int_u16: "0 \<le> x \<Longrightarrow> x < 2 ^ 16 \<Longrightarrow> unat (word_of_int x :: u16) = nat x"
  by (simp add: unat_eq_nat_uint uint_word_of_int take_bit_int_eq_self_iff)

lemma SCTP_UINT16_GT_iff: "SCTP_UINT16_GT a b \<longleftrightarrow> a \<noteq> b \<and> unat (a - b) < 2 ^ 15"
proof (cases "a < b")
  case True
  then have "unat a < unat b" by (simp add: word_less_nat_alt)
  then have "unat (a - b) = 2 ^ 16 - (unat b - unat a)" "unat (b - a) = unat b - unat a"
    using unsigned_less [of b] by (simp_all add: unat_sub_if_size word_size)
  with True show ?thesis using unsigned_less [of b] by (auto simp: SCTP_UINT16_GT_def word_less_nat_alt)
next
  case False
  then have "unat (a - b) = unat a - unat b" by (simp add: unat_sub_if_size word_less_nat_alt)
  with False show ?thesis by (auto simp: SCTP_UINT16_GT_def word_less_nat_alt word_unat_eq_iff)
qed

lemma UINT16_GT_int:
  assumes "- (2 ^ 15) \<le> x - y" "x - y < 2 ^ 15"
  shows "SCTP_UINT16_GT (word_of_int x) (word_of_int y) \<longleftrightarrow> y < x"
proof (cases "0 \<le> x - y")
  case True
  then have "unat (word_of_int (x - y) :: u16) = nat (x - y)" using assms(2) by (intro unat_of_int_u16) simp_all
  moreover have "(word_of_int x :: u16) = word_of_int y \<longleftrightarrow> x = y" using True assms(2) by (intro word_of_int_inj_u16) simp
  ultimately show ?thesis using True assms(2) by (auto simp: SCTP_UINT16_GT_iff)
next
  case False
  have "unat (word_of_int (x - y + 2 ^ 16) :: u16) = nat (x - y + 2 ^ 16)"
    using False assms(1) by (intro unat_of_int_u16) simp_all
  moreover have "(word_of_int (x - y + 2 ^ 16) :: u16) = word_of_int (x - y)" unfolding word_of_int_eq_u16 by simp
  ultimately have "unat (word_of_int (x - y) :: u16) = nat (x - y + 2 ^ 16)" by (simp only:)
  with False assms(1) show ?thesis by (auto simp: SCTP_UINT16_GT_iff)
qed

lemma MID_EQ_int:
  assumes "mid_is i a x" "mid_is i b y" "\<bar>x - y\<bar> \<le> half_space i"
  shows "SCTP_MID_EQ i a b \<longleftrightarrow> x = y"
  using assms word_of_int_inj [of x y] word_of_int_inj_u16 [of x y] by (auto simp: SCTP_MID_EQ_def mid_is_def half_space_def split: if_splits)

lemma MID_GT_int:
  assumes "mid_is i a x" "mid_is i b y" "- half_space i \<le> x - y" "x - y < half_space i"
  shows "SCTP_MID_GT i a b \<longleftrightarrow> y < x"
  using assms TSN_GT_int [of x y] UINT16_GT_int [of x y] by (auto simp: SCTP_MID_GT_def mid_is_def half_space_def split: if_splits)

lemma MID_GE_int:
  assumes "mid_is i a x" "mid_is i b y" "- half_space i \<le> x - y" "x - y < half_space i"
  shows "SCTP_MID_GE i a b \<longleftrightarrow> y \<le> x"
proof -
  have "SCTP_MID_GE i a b \<longleftrightarrow> SCTP_MID_GT i a b \<or> SCTP_MID_EQ i a b"
    by (auto simp: SCTP_MID_GE_def SCTP_MID_GT_def SCTP_MID_EQ_def SCTP_UINT32_GE_def SCTP_UINT16_GE_def)
  then show ?thesis using MID_GT_int [OF assms] MID_EQ_int [OF assms(1,2)] assms(3,4) by auto
qed

lemma ucast_of_int: "(ucast (word_of_int x :: u32) :: u16) = word_of_int x"
proof -
  have "x mod 2 ^ 32 - x = 2 ^ 16 * (- (2 ^ 16 * (x div 2 ^ 32)))" by (simp add: minus_mult_div_eq_mod [symmetric])
  then have "2 ^ 16 dvd x mod 2 ^ 32 - x" by (rule dvdI)
  then have "(word_of_int (x mod 2 ^ 32) :: u16) = word_of_int x" unfolding word_of_int_eq_u16 .
  moreover have "uint (word_of_int x :: u32) = x mod 2 ^ 32" by (simp add: uint_word_of_int)
  ultimately show ?thesis by (simp only: ucast_eq)
qed

lemma ucast_plus_one: "(ucast (m + 1 :: u32) :: u16) = ucast m + 1"
proof -
  have "m + 1 = word_of_int (uint m + 1)" by simp
  then have "(ucast (m + 1) :: u16) = word_of_int (uint m + 1)" by (simp only: ucast_of_int)
  also have "\<dots> = word_of_int (uint m) + 1" by (simp only: of_int_add of_int_1)
  finally show ?thesis by (simp only: ucast_eq)
qed

lemma mid_is_next: "mid_is i m (j - 1) \<Longrightarrow> mid_is i (m + 1) j"
  by (simp add: mid_is_def ucast_plus_one split: if_splits)

text \<open>The test before a message is handed over at once differs from the comparison of identifiers where the lower 16 bits of the identifiers wrap.\<close>

lemma mid_follows_iff: "mid_follows i l m \<longleftrightarrow> SCTP_MID_EQ i (l + 1) m \<and> (i = 1 \<or> (ucast l :: u16) \<noteq> 0xffff)"
proof (cases "i = 1")
  case False
  have "unat (v :: u16) + 1 = unat w \<longleftrightarrow> v + 1 = w \<and> v \<noteq> 0xffff" for v w by unat_arith auto
  then have eq: "uint (v :: u16) + 1 = uint w \<longleftrightarrow> v + 1 = w \<and> v \<noteq> 0xffff" for v w unfolding uint_nat by (metis of_nat_Suc of_nat_eq_iff Suc_eq_plus1 add.commute)
  show ?thesis unfolding mid_follows_def SCTP_MID_EQ_def ucast_plus_one eq using False by simp
qed (simp add: mid_follows_def SCTP_MID_EQ_def)

lemmas mid_follows_EQ = mid_follows_iff [THEN iffD1, THEN conjunct1]

lemma mid_is_ssn: "mid_is i m j \<Longrightarrow> (ucast m :: u16) = word_of_int j"
  by (auto simp: mid_is_def ucast_of_int split: if_splits)

section \<open>The mapping arrays while a chunk is processed\<close>

definition tsn_near :: "int \<Rightarrow> int set \<Rightarrow> 'a rcv_asoc_scheme \<Rightarrow> bool" where
  "tsn_near C R m \<longleftrightarrow> (\<exists>B hm hn. tsn_rel B C hm hn R m \<and> near B hm hn)"

text \<open>The TSN \<open>t\<close> is new and has its place at \<open>gap\<close>.\<close>

definition tsn_ready :: "u32 \<Rightarrow> int \<Rightarrow> int \<Rightarrow> int set \<Rightarrow> 'a rcv_asoc_scheme \<Rightarrow> bool" where
  "tsn_ready gap t C R m \<longleftrightarrow> (\<exists>B hm hn. tsn_rel B C hm hn R m \<and> near B hm hn \<and> t < B + 8 * int (msize m) \<and> unat gap = nat (t - B)) \<and> C < t \<and> t \<notin> R"

lemma tsn_rel_base: "rcv_asoc.truncate m' = rcv_asoc.truncate m \<Longrightarrow> tsn_rel B C hm hn R m \<Longrightarrow> tsn_rel B C hm hn R m'"
  by (simp add: rcv_asoc.truncate_def tsn_rel_def arrays_ok_def marks_ok_def dups_ok_def got_def)

lemma tsn_near_base: "tsn_near C R m \<Longrightarrow> rcv_asoc.truncate m' = rcv_asoc.truncate m \<Longrightarrow> tsn_near C R m'"
  using tsn_rel_base unfolding tsn_near_def by blast

lemma tsn_ready_base: "tsn_ready gap t C R m \<Longrightarrow> rcv_asoc.truncate m' = rcv_asoc.truncate m \<Longrightarrow> tsn_ready gap t C R m'"
proof -
  assume "tsn_ready gap t C R m" and base: "rcv_asoc.truncate m' = rcv_asoc.truncate m"
  moreover from base have "msize m' = msize m" by (simp add: rcv_asoc.truncate_def)
  ultimately show "tsn_ready gap t C R m'" using tsn_rel_base [OF base] unfolding tsn_ready_def by metis
qed

lemma tsn_near_inv: "tsn_near C R m \<Longrightarrow> tsn_inv C R m"
  unfolding tsn_near_def using tsn_rel_inv by blast

lemma mark_more: "mark_nr gap t m = Some m' \<Longrightarrow> rcv_asoc.more m' = rcv_asoc.more m" "mark_r gap t m = Some m' \<Longrightarrow> rcv_asoc.more m' = rcv_asoc.more m"
  by (auto simp: mark_nr_def mark_r_def Let_def split: bind_splits if_splits)

lemma non_revokable_more: "sctp_mark_non_revokable d t m = Some m' \<Longrightarrow> rcv_asoc.more m' = rcv_asoc.more m"
  by (auto simp: sctp_mark_non_revokable_def lower_highest_def raise_nr_highest_def Let_def split: bind_splits if_splits)

lemma advance_more [simp]: "rcv_asoc.more (advance_cumulative t m) = rcv_asoc.more m"
  by (simp add: advance_cumulative_def)

lemma record_dup_more [simp]: "rcv_asoc.more (record_dup t m) = rcv_asoc.more m"
  by (simp add: record_dup_def Let_def)

lemma check_more: "tsn_check ok1 ok2 t h m = Some (v, h', m') \<Longrightarrow> rcv_asoc.more m' = rcv_asoc.more m"
  by (auto simp: tsn_check_def sctp_expand_mapping_array_def Let_def split: bind_splits if_splits)

lemma mark_ready:
  assumes "tsn_ready gap t C R m"
  shows "\<exists>m'. (if b then mark_nr gap (word_of_int t) m else mark_r gap (word_of_int t) m) = Some m' \<and> tsn_near C (insert t R) m' \<and>
    rcv_asoc.more m' = rcv_asoc.more m"
proof -
  obtain B hm hn where rel: "tsn_rel B C hm hn R m" and near: "near B hm hn" and t: "t < B + 8 * int (msize m)" "unat gap = nat (t - B)" and C: "C < t"
    using assms unfolding tsn_ready_def by auto
  have ok: "arrays_ok B R m" and cum: "cum_ok B C R m" and hi: "highs_ok B C hm hn R m" and dups: "dups_ok m"
    using rel by (auto simp: tsn_rel_def marks_split)
  have Bt: "B \<le> t" using cum C by (simp add: cum_ok_def)
  obtain m' hm' hn' where m': "(if b then mark_nr gap (word_of_int t) m else mark_r gap (word_of_int t) m) = Some m'"
    "arrays_ok B (insert t R) m'" "highs_ok B C hm' hn' (insert t R) m'" "same_rest m m'" "cumulative_tsn m' = cumulative_tsn m" "hm \<le> hm'" "hn \<le> hn'"
    using mark_nr_correct [OF ok hi near Bt t] mark_r_correct [OF ok hi near Bt t] by (cases b) auto
  then have "tsn_rel B C hm' hn' (insert t R) m'" using dups cum
    by (auto simp: tsn_rel_def marks_split cum_ok_def dups_ok_def same_rest_def)
  moreover have "near B hm' hn'" using near m'(6,7) by (simp add: near_def)
  ultimately show ?thesis using m'(1,4) unfolding tsn_near_def same_rest_def by blast
qed

lemma non_revokable_near:
  assumes "tsn_near C R m" "t \<in> R" "- (2 ^ 30) < t - C"
  shows "\<exists>m'. sctp_mark_non_revokable d (word_of_int t) m = Some m' \<and> tsn_near C R m' \<and> rcv_asoc.more m' = rcv_asoc.more m"
proof -
  obtain B hm hn where "tsn_rel B C hm hn R m" "near B hm hn" using assms(1) unfolding tsn_near_def by auto
  from mark_non_revokable_correct [OF this assms(2,3), of d] obtain m' hm' hn' where
    m': "sctp_mark_non_revokable d (word_of_int t) m = Some m'" "tsn_rel B C hm' hn' R m'" "near B hm' hn'" by auto
  have "tsn_near C R m'" unfolding tsn_near_def using m'(2,3) by blast
  with m'(1) non_revokable_more [OF m'(1)] show ?thesis by simp
qed

lemma advance_near:
  assumes near: "tsn_near C R m" and t: "t \<in> R" "C < t"
  shows "tsn_near (if t = C + 1 then t else C) R (advance_cumulative (word_of_int t) m)"
proof -
  obtain B hm hn where rel: "tsn_rel B C hm hn R m" and n: "near B hm hn" using near unfolding tsn_near_def by auto
  have C: "cumulative_tsn m = word_of_int C" "{..C} \<subseteq> R" "t < C + 8442"
    using rel t(1) arrays_okD(8) [of B R m t] by (auto simp: tsn_rel_def marks_ok_def)
  then have "(word_of_int t :: u32) = word_of_int (C + 1) \<longleftrightarrow> t = C + 1" using t(2) by (intro word_of_int_inj) simp
  moreover have "{..C + 1} \<subseteq> R" if "t = C + 1"
  proof
    fix x
    assume "x \<in> {..C + 1}"
    then show "x \<in> R" using C(2) t(1) that by (cases "x = C + 1") auto
  qed
  ultimately have "tsn_rel B (if t = C + 1 then t else C) hm hn R (advance_cumulative (word_of_int t) m)"
    using rel C(1) by (auto simp: tsn_rel_def marks_ok_def arrays_ok_def dups_ok_def got_def advance_cumulative_def)
  with n show ?thesis unfolding tsn_near_def by blast
qed

lemma check_ready:
  assumes inv: "tsn_inv C R m" "recent m" and t: "\<bar>t - C\<bar> < 2 ^ 31"
  shows "\<exists>v h m'. tsn_check ok1 ok2 (word_of_int t) high_tsn m = Some (v, h, m') \<and> rcv_asoc.more m' = rcv_asoc.more m \<and> tsn_near C R m' \<and>
    (\<forall>gap. v = Tsn_new gap \<longrightarrow> tsn_ready gap t C R m') \<and>
    (t \<notin> R \<and> ok1 \<and> ok2 \<and> unat (SCTP_CALC_TSN_TO_GAP (word_of_int t) (mapping_array_base_tsn m)) < 4096 \<longrightarrow> (\<exists>gap. v = Tsn_new gap))"
proof -
  obtain B hm hn where rel: "tsn_rel B C hm hn R m" and near: "near B hm hn" using inv by (rule tsn_inv_near)
  have "- (2 ^ 31) < t - C" "t - C < 2 ^ 31" using t by auto
  from tsn_check_correct [OF rel this] obtain v h m' where c: "tsn_check ok1 ok2 (word_of_int t) high_tsn m = Some (v, h, m')" "tsn_rel B C hm hn R m'"
    "v = (if t \<le> C then Tsn_duplicate
         else if t - B \<ge> 4096 \<or> (t - B \<ge> 8 * int (msize m) \<and> \<not> (ok1 \<and> ok2)) then Tsn_tossed
         else if t \<in> R then Tsn_duplicate else Tsn_new (word_of_int (t - B)))"
    "\<forall>gap. v = Tsn_new gap \<longrightarrow> t < B + 8 * int (msize m')" by blast
  have cum: "B - 1 \<le> C" "{..C} \<subseteq> R" "mapping_array_base_tsn m = word_of_int B" "C < B + 8440"
    using rel arrays_okD(8) [of B R m C] by (auto simp: tsn_rel_def marks_ok_def arrays_ok_def)
  have "tsn_ready gap t C R m'" if v: "v = Tsn_new gap" for gap
  proof -
    have t1: "C < t" "t - B < 4096" "t \<notin> R" "gap = word_of_int (t - B)" using c(3) v by (auto split: if_splits)
    have "unat gap = nat (t - B)" unfolding t1(4) using cum(1) t1 by (intro unat_of_int_u32) auto
    with c(2,4) near v t1 show ?thesis unfolding tsn_ready_def by blast
  qed
  moreover have "\<exists>gap. v = Tsn_new gap"
    if new: "t \<notin> R" "ok1" "ok2" "unat (SCTP_CALC_TSN_TO_GAP (word_of_int t) (mapping_array_base_tsn m)) < 4096"
  proof -
    have "C < t" using new(1) cum(2) by (meson atMost_iff not_le subsetD)
    then have "unat (SCTP_CALC_TSN_TO_GAP (word_of_int t) (mapping_array_base_tsn m)) = nat (t - B)"
      using cum(1,4) t by (intro gap_int cum(3)) auto
    with new c(3) \<open>C < t\<close> show ?thesis by auto
  qed
  ultimately show ?thesis using c(1,2) near check_more unfolding tsn_near_def by blast
qed

end
