(* ===== verification/Rcv_Deliver.thy ===== *)
theory Rcv_Deliver
  imports Rcv_Order
begin

text \<open>
  The ordered queue of a stream holds the messages that came too early, sorted by their numbers (\<open>stream_ok\<close>). When the message that is due arrives, it is handed over with all
  that follow it without a gap; any other one gets its place. The proofs rest on the locale \<open>reader\<close>.
\<close>

section \<open>The messages that wait\<close>

record ordered_msg =
  om_tsn :: int
  om_ppid :: u32
  om_bytes :: bytes

definition ordered_message :: "nat \<Rightarrow> int \<Rightarrow> ordered_msg \<Rightarrow> message" where
  "ordered_message s j om = \<lparr>msg_stream = of_nat s, msg_ssn = word_of_int j, msg_ppid = om_ppid om, msg_bytes = om_bytes om\<rparr>"

text \<open>The entry \<open>c\<close> holds the message with the number \<open>j\<close> on the stream \<open>s\<close>, complete in one chunk.\<close>

definition entry_ok :: "u8 \<Rightarrow> nat \<Rightarrow> int \<Rightarrow> ordered_msg \<Rightarrow> rcv_control \<Rightarrow> bool" where
  "entry_ok i s j om c \<longleftrightarrow> unat (sinfo_stream c) = s \<and> mid_is i (ctl_mid c) j \<and> not_frag (wire_flags c) \<and> \<not> unordered (wire_flags c) \<and>
     sinfo_ppid c = om_ppid om \<and> sinfo_tsn c = word_of_int (om_tsn om) \<and> concat (ctl_mbufs c) = om_bytes om \<and> om_bytes om \<noteq> [] \<and> length (om_bytes om) < 2 ^ 32"

definition waits :: "rcv_tcb \<Rightarrow> nat \<Rightarrow> (int \<rightharpoonup> ordered_msg) \<Rightarrow> nat list \<Rightarrow> int list \<Rightarrow> bool" where
  "waits a s q ps js \<longleftrightarrow> list_all2 (\<lambda>p j. \<exists>c om. controls a p = Some c \<and> q j = Some om \<and> entry_ok (rcv_idata a) s j om c \<and> on_strm_q c = SCTP_ON_ORDERED) ps js"

abbreviation queue_of :: "rcv_tcb \<Rightarrow> nat \<Rightarrow> nat list" where "queue_of a s \<equiv> inqueue (strmin a ! s)"

text \<open>The stream \<open>s\<close> is due to deliver \<open>n\<close>, and the messages \<open>js\<close> of \<open>q\<close> wait.\<close>

definition stream_ok :: "rcv_tcb \<Rightarrow> nat \<Rightarrow> int \<Rightarrow> (int \<rightharpoonup> ordered_msg) \<Rightarrow> int list \<Rightarrow> bool" where
  "stream_ok a s n q js \<longleftrightarrow> s < length (strmin a) \<and> mid_is (rcv_idata a) (last_mid_delivered (strmin a ! s)) (n - 1) \<and> distinct (queue_of a s) \<and>
     waits a s q (queue_of a s) js \<and> sorted_wrt (<) js \<and> (\<forall>j \<in> set js. n \<le> j \<and> j < n + half_space (rcv_idata a))"

text \<open>The TSNs of the messages that wait have been received, not too long ago.\<close>

definition tsns_ok :: "int \<Rightarrow> int set \<Rightarrow> (int \<rightharpoonup> ordered_msg) \<Rightarrow> int list \<Rightarrow> bool" where
  "tsns_ok C R q js \<longleftrightarrow> (\<forall>j \<in> set js. om_tsn (the (q j)) \<in> R \<and> C - 2 ^ 30 < om_tsn (the (q j)))"

text \<open>What an operation on the stream \<open>s\<close> and the entries \<open>P\<close> leaves alone.\<close>

definition apart :: "nat \<Rightarrow> nat set \<Rightarrow> rcv_tcb \<Rightarrow> rcv_tcb \<Rightarrow> bool" where
  "apart s P a a' \<longleftrightarrow> length (strmin a') = length (strmin a) \<and> (\<forall>i. i \<noteq> s \<longrightarrow> strmin a' ! i = strmin a ! i) \<and> (\<forall>p. p \<notin> P \<longrightarrow> controls a' p = controls a p) \<and>
     rcv_idata a' = rcv_idata a \<and> resetHead a' = resetHead a \<and> next_control a' = next_control a \<and> so_rcv_hiwat a' = so_rcv_hiwat a \<and> asoc_state a' = asoc_state a"

lemma apart_trans: "apart s P a b \<Longrightarrow> apart s P b c \<Longrightarrow> apart s P a c"
  by (simp add: apart_def)

lemma apart_mono: "apart s P a b \<Longrightarrow> P \<subseteq> P' \<Longrightarrow> apart s P' a b"
  by (auto simp: apart_def)

lemma keeps_apart: "keeps p a b \<Longrightarrow> apart s {p} a b"
  by (auto simp: apart_def keeps_def)

lemma more_fields:
  fixes a b :: rcv_tcb
  assumes "rcv_asoc.more b = rcv_asoc.more a"
  shows "strmin b = strmin a" "controls b = controls a" "read_queue b = read_queue a" "rcv_events b = rcv_events a" "rcv_idata b = rcv_idata a"
    "resetHead b = resetHead a" "next_control b = next_control a" "so_rcv_hiwat b = so_rcv_hiwat a" "asoc_state b = asoc_state a"
    "size_on_all_streams b = size_on_all_streams a" "my_rwnd b = my_rwnd a" "cnt_on_all_streams b = cnt_on_all_streams a"
    "cnt_on_reasm_queue b = cnt_on_reasm_queue a" "cnt_msg_on_sb b = cnt_msg_on_sb a"
  using assms by (cases a, cases b, simp)+

lemma more_apart:
  assumes "rcv_asoc.more b = rcv_asoc.more a"
  shows "apart s P a b"
  by (simp add: apart_def more_fields [OF assms])

lemma waits_cong: "waits a s q ps js \<Longrightarrow> (\<And>p. p \<in> set ps \<Longrightarrow> controls b p = controls a p) \<Longrightarrow> rcv_idata b = rcv_idata a \<Longrightarrow> waits b s q ps js"
  unfolding waits_def by (erule list.rel_mono_strong) simp

lemma stream_ok_cong:
  assumes "stream_ok a s n q js" "strmin b ! s = strmin a ! s" "length (strmin b) = length (strmin a)" "rcv_idata b = rcv_idata a"
    "\<And>p. p \<in> set (queue_of a s) \<Longrightarrow> controls b p = controls a p"
  shows "stream_ok b s n q js"
  using assms waits_cong [of a s q "queue_of a s" js b] by (simp add: stream_ok_def)

lemma entry_message: "entry_ok i s j om c \<Longrightarrow> ctl_message c = ordered_message s j om"
  by (auto simp: entry_ok_def ctl_message_def ordered_message_def mid_is_ssn)

context reader
begin

lemma seen_more:
  assumes "rcv_asoc.more b = rcv_asoc.more a"
  shows "seen b = seen a"
  by (rule seen_same) (simp_all add: more_fields [OF assms] upcalls_def)

text \<open>The message that is due leaves the queue and is handed over.\<close>

lemma deliver_one:
  assumes ok: "stream_ok a s n q (n # js)" and queue: "queue_of a s = p # ps"
    and near: "tsn_near C R a" and tsns: "tsns_ok C R q (n # js)" and read: "read_ok a" "so_rcv_hiwat a \<noteq> None" "mode env"
  shows "\<exists>b. deliver_loop env s (p # ps) a = deliver_loop env s ps b \<and> queue_of b s = ps \<and> stream_ok b s (n + 1) q js \<and> tsn_near C R b \<and> read_ok b \<and>
    seen b = seen a @ [ordered_message s n (the (q n))] \<and> apart s {p} a b"
proof -
  let ?x = "strmin a ! s"
  have s: "s < length (strmin a)" and mid: "mid_is (rcv_idata a) (last_mid_delivered ?x) (n - 1)" and dist: "p \<notin> set ps" "distinct ps"
    and sorted: "sorted_wrt (<) js" "\<forall>j \<in> set js. n < j \<and> j < n + half_space (rcv_idata a)" using ok queue by (auto simp: stream_ok_def)
  obtain c om where c: "controls a p = Some c" "q n = Some om" "entry_ok (rcv_idata a) s n om c" "on_strm_q c = SCTP_ON_ORDERED" and w: "waits a s q ps js"
    using ok queue by (auto simp: stream_ok_def waits_def)
  have due: "SCTP_MID_EQ (rcv_idata a) (last_mid_delivered ?x + 1) (ctl_mid c)"
    using MID_EQ_int [OF mid_is_next [OF mid], of "ctl_mid c" n] c(3) by (simp add: entry_ok_def half_space_def)
  have pq: "p \<notin> set (read_queue a)" using read(1) c(1,4) by (auto simp: read_ok_def SCTP_ON_ORDERED_def)
  define a1 where "a1 = put_strm s (?x\<lparr>inqueue := ps, last_mid_delivered := last_mid_delivered ?x + 1\<rparr>)
    (put_control p (c\<lparr>on_strm_q := 0\<rparr>) (leave_streams (ctl_length c) a))"
  have a1: "unlink_ordered s p a \<bind> bump_mid s = Some a1"
    using c(1) s queue by (simp add: unlink_ordered_def bump_mid_def strm_at_def put_strm_def put_control_def leave_streams_def a1_def Let_def)
  have base1: "rcv_asoc.truncate a1 = rcv_asoc.truncate a" by (simp add: a1_def put_strm_def put_control_def leave_streams_def)
  have f1: "strmin a1 = (strmin a)[s := ?x\<lparr>inqueue := ps, last_mid_delivered := last_mid_delivered ?x + 1\<rparr>]"
    "controls a1 = (controls a)(p := Some (c\<lparr>on_strm_q := 0\<rparr>))" "read_queue a1 = read_queue a" "rcv_events a1 = rcv_events a" "rcv_idata a1 = rcv_idata a"
    "so_rcv_hiwat a1 = so_rcv_hiwat a"
    by (simp_all add: a1_def put_strm_def put_control_def leave_streams_def)
  have apart1: "apart s {p} a a1" by (simp add: apart_def a1_def put_strm_def put_control_def leave_streams_def)
  have t: "om_tsn om \<in> R" "- (2 ^ 30) < om_tsn om - C" using tsns c(2) by (auto simp: tsns_ok_def)
  from non_revokable_near [OF tsn_near_base [OF near base1] t, of "do_drain env"] obtain a2 where
    a2: "sctp_mark_non_revokable (do_drain env) (word_of_int (om_tsn om)) a1 = Some a2" "tsn_near C R a2" and more2: "rcv_asoc.more a2 = rcv_asoc.more a1" by auto
  note f2 = more_fields [OF more2]
  have c2: "controls a2 p = Some (c\<lparr>on_strm_q := 0\<rparr>)" "p \<notin> set (read_queue a2)" "read_ok a2" "so_rcv_hiwat a2 \<noteq> None"
    using f1 f2 pq read by (auto simp: read_ok_def)
  have "ctl_message (c\<lparr>on_strm_q := 0\<rparr>) = ordered_message s n om" using entry_message [OF c(3)] by (simp add: ctl_message_def)
  moreover have "concat (ctl_mbufs c) \<noteq> []" "length (concat (ctl_mbufs c)) < 2 ^ 32" using c(3) by (simp_all add: entry_ok_def)
  ultimately obtain b where b: "sctp_add_to_readq env p True a2 = Some b" "seen b = seen a2 @ [ordered_message s n om]" "keeps p a2 b" "read_ok b"
    using hands_over [OF read(3) c2(1) _ _ _ c2(2-4)] by auto
  have fb: "strmin b = strmin a1" "rcv_idata b = rcv_idata a" "\<And>q. q \<noteq> p \<Longrightarrow> controls b q = controls a q" "rcv_asoc.truncate b = rcv_asoc.truncate a2"
    using b(3) f1 f2 by (auto simp: keeps_def)
  have seen2: "seen a2 = seen a" using seen_more [OF more2] pq f1 by (intro seen_same) (auto simp: f2 upcalls_def)
  have loop: "deliver_loop env s (p # ps) a = deliver_loop env s ps b"
    using a1 a2(1) b(1) c due s by (auto simp: strm_at_def entry_ok_def Option.bind_assoc bind_eq_Some_conv)
  have "mid_is (rcv_idata b) (last_mid_delivered ?x + 1) (n + 1 - 1)" using mid_is_next [OF mid] fb(2) by simp
  moreover have "waits b s q ps js" by (rule waits_cong [OF w]) (use dist fb(2,3) in metis)+
  ultimately have "stream_ok b s (n + 1) q js" using s sorted dist(2) fb(1,2) f1(1) by (auto simp: stream_ok_def)
  moreover have "queue_of b s = ps" using fb(1) f1(1) s by simp
  moreover have "tsn_near C R b" using tsn_near_base [OF a2(2) fb(4)] .
  moreover have "apart s {p} a b" using apart_trans [OF apart1 apart_trans [OF more_apart [OF more2] keeps_apart [OF b(3)]]] .
  ultimately show ?thesis using b(2,4) c(2) seen2 loop by auto
qed

text \<open>All messages that follow without a gap are handed over.\<close>

lemma deliver_loop_ok:
  assumes "mode env"
  shows "stream_ok a s n q js \<Longrightarrow> tsn_near C R a \<Longrightarrow> tsns_ok C R q js \<Longrightarrow> read_ok a \<Longrightarrow> so_rcv_hiwat a \<noteq> None \<Longrightarrow>
    \<exists>b n' js'. deliver_loop env s (queue_of a s) a = Some (False, b) \<and> n \<le> n' \<and> js = [n..n' - 1] @ js' \<and> n' \<notin> set js' \<and> stream_ok b s n' q js' \<and>
      tsn_near C R b \<and> read_ok b \<and> seen b = seen a @ map (\<lambda>j. ordered_message s j (the (q j))) [n..n' - 1] \<and> apart s (set (queue_of a s)) a b"
proof (induction js arbitrary: n a)
  case Nil
  then have "queue_of a s = []" by (simp add: stream_ok_def waits_def)
  with Nil show ?case by (intro exI [of _ a] exI [of _ n] exI [of _ "[]"]) (simp add: apart_def)
next
  case (Cons j js)
  from Cons.prems(1) obtain p ps where queue: "queue_of a s = p # ps" by (auto simp: stream_ok_def waits_def list_all2_Cons2)
  show ?case
  proof (cases "j = n")
    case True
    from deliver_one [OF Cons.prems(1) [unfolded True] queue Cons.prems(2) Cons.prems(3) [unfolded True] Cons.prems(4,5) assms] obtain b where
      b: "deliver_loop env s (p # ps) a = deliver_loop env s ps b" "queue_of b s = ps" "stream_ok b s (n + 1) q js" "tsn_near C R b" "read_ok b"
      "seen b = seen a @ [ordered_message s n (the (q n))]" "apart s {p} a b" by auto
    have "tsns_ok C R q js" "so_rcv_hiwat b \<noteq> None" using Cons.prems(3,5) b(7) by (auto simp: tsns_ok_def apart_def)
    from Cons.IH [OF b(3,4) this(1) b(5) this(2)] obtain e n' js' where
      e: "deliver_loop env s ps b = Some (False, e)" "n + 1 \<le> n'" "js = [n + 1..n' - 1] @ js'" "n' \<notin> set js'" "stream_ok e s n' q js'" "tsn_near C R e" "read_ok e"
      "seen e = seen b @ map (\<lambda>j. ordered_message s j (the (q j))) [n + 1..n' - 1]" "apart s (set ps) b e" unfolding b(2) by auto
    have "[n..n' - 1] = n # [n + 1..n' - 1]" using e(2) by (simp add: upto_rec1)
    moreover have "apart s (set (p # ps)) a e" by (rule apart_trans [OF apart_mono [OF b(7)] apart_mono [OF e(9)]]) auto
    ultimately show ?thesis using True queue b(1,6) e by (intro exI [of _ e] exI [of _ n'] exI [of _ js']) simp
  next
    case False
    from Cons.prems(1) queue obtain c om where c: "controls a p = Some c" "entry_ok (rcv_idata a) s j om c"
      by (auto simp: stream_ok_def waits_def)
    have n: "n < j" "j < n + half_space (rcv_idata a)" "\<forall>i \<in> set js. j < i" "mid_is (rcv_idata a) (last_mid_delivered (strmin a ! s)) (n - 1)" "s < length (strmin a)"
      using Cons.prems(1) False by (auto simp: stream_ok_def)
    have "\<not> SCTP_MID_EQ (rcv_idata a) (last_mid_delivered (strmin a ! s) + 1) (ctl_mid c)"
      using MID_EQ_int [OF mid_is_next [OF n(4)], of "ctl_mid c" j] c(2) n(1,2) by (simp add: entry_ok_def)
    with c(1) n(5) queue have "deliver_loop env s (queue_of a s) a = Some (False, a)" by (simp add: strm_at_def)
    with n Cons.prems show ?thesis by (intro exI [of _ a] exI [of _ n] exI [of _ "j # js"]) (auto simp: apart_def)
  qed
qed

end

lemma strict_insort: "sorted_wrt (<) js \<Longrightarrow> j \<notin> set js \<Longrightarrow> sorted_wrt (<) (insort (j :: int) js)"
  by (induction js) (auto simp: set_insort_key)

text \<open>A message that came too early gets its place.\<close>

lemma insert_mid_ok:
  assumes "waits a s q qs js" "mid_is (rcv_idata a) m j" "j \<notin> set js" "sorted_wrt (<) js" "\<And>i. i \<in> set js \<Longrightarrow> \<bar>i - j\<bar> < half_space (rcv_idata a)"
    "q j = Some om" "entry_ok (rcv_idata a) s j om c" "on_strm_q c = SCTP_ON_ORDERED" "p \<notin> set qs"
  shows "\<exists>ps. insert_mid (rcv_idata a) (controls a) p m qs = Some (Some ps) \<and> set ps = insert p (set qs) \<and> (distinct qs \<longrightarrow> distinct ps) \<and>
    waits (put_control p c a) s q ps (insort j js)"
  using assms(1,3-5,9)
proof (induction qs arbitrary: js)
  case Nil
  then show ?case using assms(6-8) by (simp add: waits_def put_control_def)
next
  case (Cons r qs)
  then obtain i ks where js: "js = i # ks" by (auto simp: waits_def list_all2_Cons1)
  with Cons.prems(1) obtain d om' where d: "controls a r = Some d" "entry_ok (rcv_idata a) s i om' d" "on_strm_q d = SCTP_ON_ORDERED" "q i = Some om'" and w: "waits a s q qs ks"
    by (auto simp: waits_def)
  have near: "\<bar>i - j\<bar> < half_space (rcv_idata a)" "i \<noteq> j" using Cons.prems(2,4) js by auto
  have m: "mid_is (rcv_idata a) (ctl_mid d) i" using d(2) by (simp add: entry_ok_def)
  have cmp: "SCTP_MID_GT (rcv_idata a) (ctl_mid d) m \<longleftrightarrow> j < i" "\<not> SCTP_MID_EQ (rcv_idata a) (ctl_mid d) m"
    using MID_GT_int [OF m assms(2)] MID_EQ_int [OF m assms(2)] near by auto
  have w': "waits (put_control p c a) s q (r # qs) js" by (rule waits_cong [OF Cons.prems(1)]) (use Cons.prems(5) in \<open>auto simp: put_control_def\<close>)
  show ?case
  proof (cases "j < i")
    case True
    then have "insort j js = j # js" using js by simp
    moreover have "waits (put_control p c a) s q (p # r # qs) (j # js)" using w' assms(6-8) by (simp add: waits_def put_control_def)
    ultimately show ?thesis using d(1) cmp True Cons.prems(5) by auto
  next
    case False
    have "\<exists>ps. insert_mid (rcv_idata a) (controls a) p m qs = Some (Some ps) \<and> set ps = insert p (set qs) \<and> (distinct qs \<longrightarrow> distinct ps) \<and>
      waits (put_control p c a) s q ps (insort j ks)" using Cons.IH [OF w] Cons.prems js by auto
    then obtain ps where ps: "insert_mid (rcv_idata a) (controls a) p m qs = Some (Some ps)" "set ps = insert p (set qs)" "distinct qs \<longrightarrow> distinct ps"
      "waits (put_control p c a) s q ps (insort j ks)" by auto
    have "insort j js = i # insort j ks" using js False near(2) by simp
    moreover have "waits (put_control p c a) s q (r # ps) (i # insort j ks)" using ps(4) w' js by (simp add: waits_def)
    ultimately show ?thesis using d(1) cmp False ps(1-3) Cons.prems(5) by (intro exI [of _ "r # ps"]) auto
  qed
qed

context reader
begin

text \<open>The message that is due goes to the reader with all that follow it.\<close>

lemma queue_due:
  assumes ok: "stream_ok a s n q js" "n \<notin> set js" and c: "controls a p = Some c" "q n = Some om" "entry_ok (rcv_idata a) s n om c" "on_strm_q c = 0"
    and p: "p \<notin> set (queue_of a s)" "p \<notin> set (read_queue a)"
    and near: "tsn_near C R a" and tsns: "tsns_ok C R q (n # js)" and read: "read_ok a" "so_rcv_hiwat a \<noteq> None" "mode env"
  shows "\<exists>b n' js'. sctp_queue_data_to_stream env p a = Some (False, False, b) \<and> n \<le> n' \<and> n # js = [n..n' - 1] @ js' \<and> n' \<notin> set js' \<and> stream_ok b s n' q js' \<and>
    tsn_near C R b \<and> read_ok b \<and> seen b = seen a @ map (\<lambda>j. ordered_message s j (the (q j))) [n..n' - 1] \<and> apart s (insert p (set (queue_of a s))) a b"
proof -
  let ?x = "strmin a ! s"
  have s: "s < length (strmin a)" "unat (sinfo_stream c) = s" and mid: "mid_is (rcv_idata a) (last_mid_delivered ?x) (n - 1)"
    using ok c(3) by (auto simp: stream_ok_def entry_ok_def)
  have m: "mid_is (rcv_idata a) (ctl_mid c) n" using c(3) by (simp add: entry_ok_def)
  have cmp: "\<not> SCTP_MID_GT (rcv_idata a) (last_mid_delivered ?x) (ctl_mid c)" "SCTP_MID_EQ (rcv_idata a) (last_mid_delivered ?x + 1) (ctl_mid c)"
    using MID_GT_int [OF mid m] MID_EQ_int [OF mid_is_next [OF mid] m] by (simp_all add: half_space_def)
  define a1 where "a1 = put_strm s (?x\<lparr>last_mid_delivered := last_mid_delivered ?x + 1\<rparr>)
    (leave_streams (ctl_length c) (a\<lparr>size_on_all_streams := size_on_all_streams a + ctl_length c, cnt_on_all_streams := sctp_ucount_incr (cnt_on_all_streams a)\<rparr>))"
  have base1: "rcv_asoc.truncate a1 = rcv_asoc.truncate a" by (simp add: a1_def put_strm_def leave_streams_def)
  have f1: "strmin a1 = (strmin a)[s := ?x\<lparr>last_mid_delivered := last_mid_delivered ?x + 1\<rparr>]" "controls a1 = controls a" "read_queue a1 = read_queue a"
    "rcv_events a1 = rcv_events a" "rcv_idata a1 = rcv_idata a" "so_rcv_hiwat a1 = so_rcv_hiwat a"
    by (simp_all add: a1_def put_strm_def leave_streams_def)
  have apart1: "apart s {p} a a1" by (simp add: apart_def a1_def put_strm_def leave_streams_def)
  have t: "om_tsn om \<in> R" "- (2 ^ 30) < om_tsn om - C" using tsns c(2) by (auto simp: tsns_ok_def)
  from non_revokable_near [OF tsn_near_base [OF near base1] t, of "do_drain env"] obtain a2 where
    a2: "sctp_mark_non_revokable (do_drain env) (word_of_int (om_tsn om)) a1 = Some a2" "tsn_near C R a2" and more2: "rcv_asoc.more a2 = rcv_asoc.more a1" by auto
  note f2 = more_fields [OF more2]
  have c2: "controls a2 p = Some c" "p \<notin> set (read_queue a2)" "read_ok a2" "so_rcv_hiwat a2 \<noteq> None" using f1 f2 p(2) c(1) read by (auto simp: read_ok_def)
  have "concat (ctl_mbufs c) \<noteq> []" "length (concat (ctl_mbufs c)) < 2 ^ 32" using c(3) by (simp_all add: entry_ok_def)
  from hands_over [OF read(3) c2(1) this c(4) c2(2-4)] obtain a3 where
    a3: "sctp_add_to_readq env p True a2 = Some a3" "seen a3 = seen a2 @ [ctl_message c]" "keeps p a2 a3" "read_ok a3" by auto
  have seen3: "seen a3 = seen a @ [ordered_message s n om]" using a3(2) entry_message [OF c(3)] seen_more [OF more2] seen_same [of a1 a] f1 by (simp add: upcalls_def)
  have apart3: "apart s {p} a a3" using apart_trans [OF apart1 apart_trans [OF more_apart [OF more2] keeps_apart [OF a3(3)]]] .
  have f3: "strmin a3 = (strmin a)[s := ?x\<lparr>last_mid_delivered := last_mid_delivered ?x + 1\<rparr>]" "rcv_asoc.truncate a3 = rcv_asoc.truncate a2"
    "rcv_idata a3 = rcv_idata a" "so_rcv_hiwat a3 \<noteq> None" using a3(3) f1 f2 read(2) by (auto simp: keeps_def)
  then have queue3: "queue_of a3 s = queue_of a s" using s by simp
  have "waits a3 s q (queue_of a s) js"
    by (rule waits_cong [of a]) (use ok(1) p(1) apart3 in \<open>auto simp: stream_ok_def apart_def\<close>)
  moreover have "n + 1 \<le> j \<and> j < n + 1 + half_space (rcv_idata a)" if "j \<in> set js" for j using ok that by (cases "j = n") (auto simp: stream_ok_def)
  ultimately have ok3: "stream_ok a3 s (n + 1) q js" using ok(1) s f3(1,3) mid_is_next [OF mid] by (auto simp: stream_ok_def)
  have "tsns_ok C R q js" using tsns by (simp add: tsns_ok_def)
  from deliver_loop_ok [OF read(3) ok3 tsn_near_base [OF a2(2) f3(2)] this a3(4) f3(4)] obtain b n' js' where
    b: "deliver_loop env s (queue_of a s) a3 = Some (False, b)" "n + 1 \<le> n'" "js = [n + 1..n' - 1] @ js'" "n' \<notin> set js'" "stream_ok b s n' q js'" "tsn_near C R b" "read_ok b"
    "seen b = seen a3 @ map (\<lambda>j. ordered_message s j (the (q j))) [n + 1..n' - 1]" "apart s (set (queue_of a s)) a3 b" unfolding queue3 by auto
  have "[n..n' - 1] = n # [n + 1..n' - 1]" using b(2) by (simp add: upto_rec1)
  moreover have "apart s (insert p (set (queue_of a s))) a b" by (rule apart_trans [OF apart_mono [OF apart3] apart_mono [OF b(9)]]) auto
  moreover have "bump_mid s (leave_streams (ctl_length c) (a\<lparr>size_on_all_streams := size_on_all_streams a + ctl_length c, cnt_on_all_streams := sctp_ucount_incr (cnt_on_all_streams a)\<rparr>)) = Some a1"
    using s(1) by (simp add: bump_mid_def strm_at_def a1_def leave_streams_def)
  then have "sctp_queue_data_to_stream env p a = Some (False, False, b)"
    using c(1,3) s cmp a2(1) a3(1) b(1) by (simp add: sctp_queue_data_to_stream_def strm_at_def entry_ok_def Let_def)
  ultimately show ?thesis using b seen3 c(2) by (intro exI [of _ b] exI [of _ n'] exI [of _ js']) auto
qed

text \<open>Any other message gets its place.\<close>

lemma queue_early:
  assumes ok: "stream_ok a s n q js" "n \<notin> set js" and c: "controls a p = Some c" "q j = Some om" "entry_ok (rcv_idata a) s j om c"
    and j: "n < j" "j < n + half_space (rcv_idata a)" "j \<notin> set js"
    and p: "p \<notin> set (queue_of a s)" "p \<notin> set (read_queue a)" and near: "tsn_near C R a" and read: "read_ok a"
  shows "\<exists>b. sctp_queue_data_to_stream env p a = Some (False, False, b) \<and> stream_ok b s n q (insort j js) \<and>
    tsn_near C R b \<and> read_ok b \<and> seen b = seen a \<and> apart s (insert p (set (queue_of a s))) a b"
proof -
  let ?x = "strmin a ! s"
  have s: "s < length (strmin a)" "unat (sinfo_stream c) = s" and mid: "mid_is (rcv_idata a) (last_mid_delivered ?x) (n - 1)"
    and w: "waits a s q (queue_of a s) js" "distinct (queue_of a s)" and js: "sorted_wrt (<) js" "\<forall>i \<in> set js. n \<le> i \<and> i < n + half_space (rcv_idata a)"
    using ok(1) c(3) by (auto simp: stream_ok_def entry_ok_def)
  have js': "n < i" "i < n + half_space (rcv_idata a)" if "i \<in> set js" for i using js(2) ok(2) that by (cases "i = n"; auto)+
  have m: "mid_is (rcv_idata a) (ctl_mid c) j" and f: "not_frag (wire_flags c)" "\<not> unordered (wire_flags c)" using c(3) by (simp_all add: entry_ok_def)
  have cmp: "\<not> SCTP_MID_GT (rcv_idata a) (last_mid_delivered ?x) (ctl_mid c)" "\<not> SCTP_MID_EQ (rcv_idata a) (last_mid_delivered ?x + 1) (ctl_mid c)"
    using MID_GT_int [OF mid m] MID_EQ_int [OF mid_is_next [OF mid] m] j(1,2) by simp_all
  define a0 where "a0 = a\<lparr>size_on_all_streams := size_on_all_streams a + ctl_length c, cnt_on_all_streams := sctp_ucount_incr (cnt_on_all_streams a)\<rparr>"
  have f0: "strmin a0 = strmin a" "controls a0 = controls a" "read_queue a0 = read_queue a" "rcv_events a0 = rcv_events a" "rcv_idata a0 = rcv_idata a"
    by (simp_all add: a0_def)
  define d where "d = c\<lparr>end_added := True, first_frag_seen := True, last_frag_seen := True, on_strm_q := SCTP_ON_ORDERED\<rparr>"
  have d: "entry_ok (rcv_idata a) s j om d" "on_strm_q d = SCTP_ON_ORDERED" using c(3) by (simp_all add: d_def entry_ok_def wire_flags_def)
  have "\<bar>i - j\<bar> < half_space (rcv_idata a)" if "i \<in> set js" for i using js' [OF that] j(1,2) by simp
  from insert_mid_ok [OF w(1) m j(3) js(1) this c(2) d p(1)] obtain ps where
    ps: "insert_mid (rcv_idata a) (controls a) p (ctl_mid c) (queue_of a s) = Some (Some ps)" "distinct ps" "waits (put_control p d a) s q ps (insort j js)" using w(2) by auto
  define b where "b = put_control p d (put_strm s (?x\<lparr>inqueue := ps\<rparr>) a0)"
  have place: "sctp_place_control_in_stream s p a0 = Some (False, b)"
    using c(1) s(1) f ps(1) f0 by (simp add: sctp_place_control_in_stream_def strm_at_def b_def d_def)
  have "sctp_queue_data_to_stream env p a = Some (False, False, b)"
    using c(1) s cmp place [unfolded a0_def] by (simp add: sctp_queue_data_to_stream_def strm_at_def Let_def)
  moreover have "apart s (insert p (set (queue_of a s))) a b" by (simp add: apart_def b_def a0_def put_control_def put_strm_def)
  moreover have "read_ok b" using read p(2) by (auto simp: read_ok_def b_def put_control_def put_strm_def f0)
  moreover have "seen b = seen a" by (rule seen_same) (use p(2) in \<open>auto simp: b_def put_control_def put_strm_def f0 upcalls_def\<close>)
  moreover have "tsn_near C R b" by (rule tsn_near_base [OF near]) (simp add: b_def a0_def put_control_def put_strm_def)
  moreover have "waits b s q ps (insort j js)" using ps(3) by (simp add: waits_def b_def put_control_def put_strm_def f0)
  then have "stream_ok b s n q (insort j js)"
    using s(1) mid ps(2) js j by (auto simp: stream_ok_def b_def put_control_def put_strm_def f0 set_insort_key strict_insort)
  ultimately show ?thesis by blast
qed

end

end
