(* ===== verification/Rcv_Take.thy ===== *)
theory Rcv_Take
  imports Rcv_Deliver
begin

text \<open>
  A DATA or I-DATA chunk that carries a complete ordered message, from its bytes in the packet to its place: it is admitted, its data is cut out, and it is handed over with all
  messages that it completes the order of, or waits on its stream.
\<close>

section \<open>A chunk\<close>

record data_input =
  di_packet :: mchain
  di_offset :: int
  di_length :: nat
  di_net :: nat
  di_high :: u32
  di_last :: bool
  di_idata :: bool

abbreviation receive_chunk :: "rcv_env \<Rightarrow> data_input \<Rightarrow> rcv_tcb \<Rightarrow> (data_result \<times> u32 \<times> rcv_tcb) option" where
  "receive_chunk env k a \<equiv> sctp_process_a_data_chunk env (di_packet k) (di_offset k) (di_length k) (di_net k) (di_high k) (di_last k) (di_idata k) a"

text \<open>The chunk lies in its packet and carries the message \<open>om\<close> with the number \<open>j\<close> of the stream \<open>s\<close>.\<close>

definition describes :: "u8 \<Rightarrow> nat \<Rightarrow> int \<Rightarrow> ordered_msg \<Rightarrow> data_fields \<Rightarrow> bool" where
  "describes i s j om d \<longleftrightarrow> not_frag (df_flags d) \<and> \<not> unordered (df_flags d) \<and> unat (df_sid d) = s \<and> mid_is i (df_mid d) j \<and>
     df_tsn d = word_of_int (om_tsn om) \<and> df_ppid d = om_ppid om"

definition carries :: "u8 \<Rightarrow> nat \<Rightarrow> int \<Rightarrow> ordered_msg \<Rightarrow> data_input \<Rightarrow> bool" where
  "carries i s j om k \<longleftrightarrow>
     (case data_header (di_idata k) (di_packet k) (di_offset k) of None \<Rightarrow> False | Some d \<Rightarrow> describes i s j om d) \<and>
     (let pos = nat (di_offset k) + header_size (di_idata k); n = length (om_bytes om); bytes = concat (di_packet k)
      in 0 < n \<and> n < 2 ^ 16 \<and> di_length k = header_size (di_idata k) + n \<and> pos + n \<le> length bytes \<and> om_bytes om = take n (drop pos bytes))"

lemma m_adj_bytes: "concat (m_adj m (int n)) = drop n (concat m)" "0 < n \<Longrightarrow> concat (m_adj m (- int n)) = take (length (concat m) - n) (concat m)"
  by (simp_all add: m_adj_def adj_head_bytes adj_tail_bytes)

lemma chunk_mbufs_bytes:
  assumes "pos + n \<le> length (concat m)"
  shows "\<exists>ms. chunk_mbufs env m pos n last_chunk = Some ms \<and> (last_chunk \<or> copy_available env \<longrightarrow> concat ms = take n (drop pos (concat m))) \<and>
    (\<not> last_chunk \<and> \<not> copy_available env \<longrightarrow> ms = [])"
proof (cases last_chunk)
  case True
  let ?ms = "m_adj m (int pos)"
  have len: "sum_list (map length ?ms) = length (concat m) - pos" using arg_cong [OF m_adj_bytes(1) [of m pos], of length] by (simp add: length_concat)
  show ?thesis
  proof (cases "length (concat m) - pos > n")
    case more: True
    let ?d = "length (concat m) - pos - n"
    have "concat (m_adj ?ms (- int ?d)) = take n (drop pos (concat m))" using m_adj_bytes(2) [of ?d ?ms] more by (simp add: m_adj_bytes(1))
    with True more len show ?thesis by (simp add: chunk_mbufs_def Let_def of_nat_diff)
  next
    case False
    with assms have "take n (drop pos (concat m)) = drop pos (concat m)" by simp
    with True False len show ?thesis by (simp add: chunk_mbufs_def Let_def m_adj_bytes)
  qed
next
  case False
  have "pos \<le> length (concat m)" using assms by simp
  from m_copym_bytes [OF this, of n] copym_skip_bytes [OF this] False show ?thesis by (cases "copy_available env") (auto simp: chunk_mbufs_def m_copym_def)
qed

section \<open>Admission\<close>

text \<open>What can happen to a receiver without a message being handed over or queued.\<close>

definition silent :: "rcv_tcb \<Rightarrow> rcv_tcb \<Rightarrow> bool" where
  "silent a b \<longleftrightarrow> rcv_asoc.truncate b = rcv_asoc.truncate a \<and> strmin b = strmin a \<and> controls b = controls a \<and> read_queue b = read_queue a \<and>
     upcalls b = upcalls a \<and> rcv_idata b = rcv_idata a \<and> resetHead b = resetHead a \<and> next_control b = next_control a \<and> so_rcv_hiwat b = so_rcv_hiwat a"

definition admits :: "rcv_env \<Rightarrow> rcv_tcb \<Rightarrow> bool" where
  "admits env a \<longleftrightarrow> \<not> socket_gone env \<and> asoc_state a AND SCTP_STATE_CLOSED_SOCKET = 0 \<and> \<not> no_room env a"

lemma find_mid_none:
  assumes "waits a s q ps js" "mid_is (rcv_idata a) m j" "\<And>i. i \<in> set js \<Longrightarrow> i \<noteq> j \<and> \<bar>i - j\<bar> \<le> half_space (rcv_idata a)"
  shows "find_mid (rcv_idata a) (controls a) m ps = Some None"
  using assms(1,3)
proof (induction ps arbitrary: js)
  case (Cons p ps)
  then obtain i ks c om where js: "js = i # ks" and c: "controls a p = Some c" "entry_ok (rcv_idata a) s i om c" and w: "waits a s q ps ks"
    by (auto simp: waits_def list_all2_Cons1)
  have "\<not> SCTP_MID_EQ (rcv_idata a) (ctl_mid c) m"
    using MID_EQ_int [of "rcv_idata a" "ctl_mid c" i m j] c(2) assms(2) Cons.prems(2) js by (auto simp: entry_ok_def)
  with c(1) Cons.IH [OF w] Cons.prems(2) js show ?case by simp
qed simp

lemma quiet_wake: "silent a (rcv_emit [Read_wakeup] a)" "silent a (sctp_set_rwnd a)" "silent a (sctp_set_rwnd (rcv_emit [Read_wakeup] a))"
  by (simp_all add: silent_def rcv_emit_def upcalls_def sctp_set_rwnd_def rcv_asoc.truncate_def)

lemma silent_refl [simp]: "silent a a"
  by (simp add: silent_def)

lemma admit_ordered:
  assumes ok: "stream_ok a s n q js" "n \<notin> set js" and d: "describes (rcv_idata a) s j om d" and j: "n \<le> j" "j < n + half_space (rcv_idata a)" "j \<notin> set js"
  shows "\<exists>r b. data_admit env d gap a = Some (r, b) \<and> (r = Inr Data_abort \<or> (r = Inr Data_break \<or> r = Inl None) \<and> silent a b) \<and>
    (admits env a \<longrightarrow> r = Inl None \<and> b = a)"
proof -
  let ?x = "strmin a ! s"
  have s: "s < length (strmin a)" "unat (df_sid d) = s" and mid: "mid_is (rcv_idata a) (last_mid_delivered ?x) (n - 1)" and m: "mid_is (rcv_idata a) (df_mid d) j"
    and f: "not_frag (df_flags d)" "\<not> unordered (df_flags d)" and w: "waits a s q (queue_of a s) js" using ok(1) d by (auto simp: stream_ok_def describes_def)
  have first: "df_flags d AND SCTP_DATA_FIRST_FRAG \<noteq> 0"
  proof
    assume "df_flags d AND SCTP_DATA_FIRST_FRAG = 0"
    moreover have "(df_flags d AND SCTP_DATA_NOT_FRAG) AND SCTP_DATA_FIRST_FRAG = (df_flags d AND SCTP_DATA_FIRST_FRAG) AND SCTP_DATA_NOT_FRAG" by (simp only: ac_simps)
    ultimately have "(df_flags d AND SCTP_DATA_NOT_FRAG) AND SCTP_DATA_FIRST_FRAG = 0" by simp
    with f(1) show False by (simp add: SCTP_DATA_NOT_FRAG_def SCTP_DATA_FIRST_FRAG_def)
  qed
  have "i \<noteq> j \<and> \<bar>i - j\<bar> \<le> half_space (rcv_idata a)" if "i \<in> set js" for i using ok(1) that j by (auto simp: stream_ok_def)
  then have find: "sctp_find_reasm_entry ?x (df_mid d) True a = Some None" using find_mid_none [OF w m] by (simp add: sctp_find_reasm_entry_def)
  have "\<not> SCTP_MID_GE (rcv_idata a) (last_mid_delivered ?x) (df_mid d)" using MID_GE_int [OF mid m] j(1,2) by simp
  then have new: "\<not> old_message d ?x a" by (simp add: old_message_def)
  have "data_admit env d gap a =
      (if socket_gone env \<or> asoc_state a AND SCTP_STATE_CLOSED_SOCKET \<noteq> 0 then Some (Inr Data_abort, rcv_emit [Rcv_abort SCTP_CAUSE_OUT_OF_RESC] a)
       else let b = (if no_room env a \<and> so_rcv_cc a \<noteq> 0 then rcv_emit [Read_wakeup] a else a);
                beyond = (no_room env a \<and> (df_idata d \<or> SCTP_TSN_GT (df_tsn d) (highest_tsn_inside_map a) \<and> SCTP_TSN_GT (df_tsn d) (highest_tsn_inside_nr_map a)))
            in if beyond then Some (Inr Data_break, sctp_set_rwnd b) else Some (Inl None, b))"
    using s f first find new unfolding data_admit_def by (auto simp: Let_def match_entry_def out_of_range_def data_abort_def old_message_def rcv_emit_def)
  then show ?thesis by (auto simp: Let_def admits_def quiet_wake)
qed

section \<open>Taking the message\<close>

definition fresh_addresses :: "rcv_tcb \<Rightarrow> bool" where
  "fresh_addresses a \<longleftrightarrow> (\<forall>p. controls a p \<noteq> None \<longrightarrow> p < next_control a)"

lemma wire_flags_entry: "(ucast (drop_bit 8 (push_bit 8 (ucast f :: u16))) :: u8) = f"
  by (rule bit_eqI) (auto simp: bit_simps)

lemma new_entry_ok:
  assumes d: "describes i s j om d" and b: "concat dmbuf = om_bytes om" "om_bytes om \<noteq> []" "length (om_bytes om) < 2 ^ 16" and new: "new_entry d net dmbuf a = (p, b)"
  shows "p = next_control a" "\<exists>c. controls b p = Some c \<and> entry_ok i s j om c \<and> on_strm_q c = 0" "rcv_asoc.truncate b = rcv_asoc.truncate a" "strmin b = strmin a"
    "\<And>r. r \<noteq> p \<Longrightarrow> controls b r = controls a r" "read_queue b = read_queue a" "rcv_events b = rcv_events a" "rcv_idata b = rcv_idata a" "resetHead b = resetHead a"
    "next_control b = Suc p" "so_rcv_hiwat b = so_rcv_hiwat a" "asoc_state b = asoc_state a"
  using assms by (auto simp: new_entry_def sctp_build_readq_entry_mac_def put_control_def describes_def entry_ok_def wire_flags_def wire_flags_entry Let_def)

context reader
begin

lemma queue_ordered:
  assumes ok: "stream_ok a s n q js" "n \<notin> set js" and c: "controls a p = Some c" "q j = Some om" "entry_ok (rcv_idata a) s j om c" "on_strm_q c = 0"
    and j: "n \<le> j" "j < n + half_space (rcv_idata a)" "j \<notin> set js"
    and p: "p \<notin> set (queue_of a s)" "p \<notin> set (read_queue a)"
    and near: "tsn_near C R a" and tsns: "tsns_ok C R q (j # js)" and read: "read_ok a" "so_rcv_hiwat a \<noteq> None" "mode env"
  shows "\<exists>b n' js'. sctp_queue_data_to_stream env p a = Some (False, False, b) \<and> n \<le> n' \<and> insort j js = [n..n' - 1] @ js' \<and> n' \<notin> set js' \<and> stream_ok b s n' q js' \<and>
    tsn_near C R b \<and> read_ok b \<and> seen b = seen a @ map (\<lambda>j. ordered_message s j (the (q j))) [n..n' - 1] \<and> apart s (insert p (set (queue_of a s))) a b"
proof (cases "j = n")
  case True
  have "\<forall>i \<in> set js. n \<le> i" using ok(1) by (auto simp: stream_ok_def)
  then have "insort j js = n # js" using True by (cases js) auto
  with queue_due [OF ok c(1) c(2-3) [unfolded True] c(4) p near tsns [unfolded True] read] show ?thesis by simp
next
  case False
  then have "n < j" using j(1) by simp
  from queue_early [OF ok c(1-3) this j(2,3) p near read(1), of env] obtain b where
    b: "sctp_queue_data_to_stream env p a = Some (False, False, b)" "stream_ok b s n q (insort j js)" "tsn_near C R b" "read_ok b" "seen b = seen a"
    "apart s (insert p (set (queue_of a s))) a b" by auto
  have "n \<notin> set (insort j js)" using ok(2) False by (simp add: set_insort_key)
  with b show ?thesis by (intro exI [of _ b] exI [of _ n] exI [of _ "insort j js"]) simp
qed

lemma express_ordered:
  assumes ok: "stream_ok a s n q []" and c: "controls a p = Some c" "q n = Some om" "entry_ok (rcv_idata a) s n om c" "on_strm_q c = 0" and d: "describes (rcv_idata a) s n om d"
    and p: "p \<notin> set (read_queue a)" and ready: "tsn_ready gap (om_tsn om) C R a" and read: "read_ok a" "so_rcv_hiwat a \<noteq> None" "mode env"
  shows "\<exists>b. express_deliver env d gap p a = Some b \<and> stream_ok b s (n + 1) q [] \<and> tsn_near C (insert (om_tsn om) R) b \<and> read_ok b \<and>
    seen b = seen a @ [ordered_message s n om] \<and> apart s {p} a b"
proof -
  let ?x = "strmin a ! s"
  have s: "s < length (strmin a)" "unat (df_sid d) = s" "\<not> unordered (df_flags d)" "df_tsn d = word_of_int (om_tsn om)" and queue: "queue_of a s = []"
    and mid: "mid_is (rcv_idata a) (last_mid_delivered ?x) (n - 1)" using ok d by (auto simp: stream_ok_def waits_def describes_def)
  from mark_ready [OF ready, of True] obtain a1 where a1: "mark_nr gap (word_of_int (om_tsn om)) a = Some a1" "tsn_near C (insert (om_tsn om) R) a1" and more: "rcv_asoc.more a1 = rcv_asoc.more a"
    by auto
  note f1 = more_fields [OF more]
  have c1: "controls a1 p = Some c" "p \<notin> set (read_queue a1)" "read_ok a1" "so_rcv_hiwat a1 \<noteq> None" using c(1) p read f1 by (auto simp: read_ok_def)
  have "concat (ctl_mbufs c) \<noteq> []" "length (concat (ctl_mbufs c)) < 2 ^ 32" using c(3) by (simp_all add: entry_ok_def)
  from hands_over [OF read(3) c1(1) this c(4) c1(2-4)] obtain a2 where
    a2: "sctp_add_to_readq env p True a1 = Some a2" "seen a2 = seen a1 @ [ctl_message c]" "keeps p a1 a2" "read_ok a2" by auto
  have f2: "strmin a2 = strmin a" "rcv_idata a2 = rcv_idata a" "rcv_asoc.truncate a2 = rcv_asoc.truncate a1" using a2(3) f1 by (simp_all add: keeps_def)
  define b where "b = put_strm s (?x\<lparr>last_mid_delivered := last_mid_delivered ?x + 1\<rparr>) a2"
  have "express_deliver env d gap p a = Some b"
    using a1(1) a2(1) s f2(1) by (simp add: express_deliver_def bump_mid_def strm_at_def b_def)
  moreover have "seen b = seen a2" by (rule seen_same) (simp_all add: b_def put_strm_def upcalls_def)
  then have "seen b = seen a @ [ordered_message s n om]" using a2(2) seen_more [OF more] entry_message [OF c(3)] by simp
  moreover have "stream_ok b s (n + 1) q []" using s(1) f2(1,2) mid_is_next [OF mid] queue by (simp add: stream_ok_def b_def put_strm_def waits_def)
  moreover have "tsn_near C (insert (om_tsn om) R) b" by (rule tsn_near_base [OF a1(2)]) (simp add: b_def put_strm_def f2(3))
  moreover have "apart s {p} a2 b" by (simp add: apart_def b_def put_strm_def)
  then have "apart s {p} a b" using apart_trans [OF more_apart [OF more] apart_trans [OF keeps_apart [OF a2(3)]]] by blast
  moreover have "read_ok b" using a2(4) by (simp add: read_ok_def b_def put_strm_def)
  ultimately show ?thesis by blast
qed

lemma place_ordered:
  assumes ok: "stream_ok a s n q js" "n \<notin> set js" and c: "controls a p = Some c" "q j = Some om" "entry_ok (rcv_idata a) s j om c" "on_strm_q c = 0"
    and d: "describes (rcv_idata a) s j om d" and j: "n \<le> j" "j < n + half_space (rcv_idata a)" "j \<notin> set js"
    and p: "p \<notin> set (queue_of a s)" "p \<notin> set (read_queue a)" and reset: "resetHead a = []"
    and ready: "tsn_ready gap (om_tsn om) C R a" and tsns: "tsns_ok C R q js" and read: "read_ok a" "so_rcv_hiwat a \<noteq> None" "mode env"
  shows "\<exists>a1 b n' js'. (if do_drain env then mark_r gap (df_tsn d) a else mark_nr gap (df_tsn d) a) = Some a1 \<and>
    data_place env d p k created a1 = Some (False, False, b) \<and> n \<le> n' \<and> insort j js = [n..n' - 1] @ js' \<and> n' \<notin> set js' \<and> stream_ok b s n' q js' \<and>
    tsn_near C (insert (om_tsn om) R) b \<and> read_ok b \<and> seen b = seen a @ map (\<lambda>j. ordered_message s j (the (q j))) [n..n' - 1] \<and>
    apart s (insert p (set (queue_of a s))) a b"
proof -
  have t: "df_tsn d = word_of_int (om_tsn om)" and f: "not_frag (df_flags d)" "\<not> unordered (df_flags d)" using d by (simp_all add: describes_def)
  from mark_ready [OF ready, of "\<not> do_drain env"] obtain a1 where a1: "(if do_drain env then mark_r gap (df_tsn d) a else mark_nr gap (df_tsn d) a) = Some a1"
    "tsn_near C (insert (om_tsn om) R) a1" and more: "rcv_asoc.more a1 = rcv_asoc.more a" unfolding t by (cases "do_drain env") auto
  note f1 = more_fields [OF more]
  have ok1: "stream_ok a1 s n q js" by (rule stream_ok_cong [OF ok(1)]) (simp_all add: f1)
  have read1: "read_ok a1" "so_rcv_hiwat a1 \<noteq> None" using read f1 by (auto simp: read_ok_def)
  have "C < om_tsn om" using ready by (simp add: tsn_ready_def)
  then have "tsns_ok C (insert (om_tsn om) R) q (j # js)" using tsns c(2) by (auto simp: tsns_ok_def)
  moreover have "entry_ok (rcv_idata a1) s j om c" "j < n + half_space (rcv_idata a1)" "p \<notin> set (queue_of a1 s)" "p \<notin> set (read_queue a1)" "controls a1 p = Some c"
    using c j p f1 by simp_all
  ultimately obtain b n' js' where b: "sctp_queue_data_to_stream env p a1 = Some (False, False, b)" "n \<le> n'" "insort j js = [n..n' - 1] @ js'" "n' \<notin> set js'" "stream_ok b s n' q js'"
    "tsn_near C (insert (om_tsn om) R) b" "read_ok b" "seen b = seen a1 @ map (\<lambda>j. ordered_message s j (the (q j))) [n..n' - 1]" "apart s (insert p (set (queue_of a1 s))) a1 b"
    using queue_ordered [OF ok1 ok(2) _ c(2) _ c(4) j(1) _ j(3) _ _ a1(2) _ read1 read(3)] by blast
  have "data_place env d p k created a1 = Some (False, False, b)" using b(1) f reset f1 by (simp add: data_place_def)
  moreover have "apart s (insert p (set (queue_of a s))) a b" using apart_trans [OF more_apart [OF more]] b(9) f1 by metis
  ultimately show ?thesis using a1(1) b seen_more [OF more] by (intro exI [of _ a1] exI [of _ b] exI [of _ n'] exI [of _ js']) simp
qed

lemma take_ordered:
  assumes ok: "stream_ok a s n q js" "n \<notin> set js" and om: "q j = Some om" "describes (rcv_idata a) s j om d" and j: "n \<le> j" "j < n + half_space (rcv_idata a)" "j \<notin> set js"
    and bytes: "concat dmbuf = om_bytes om" "om_bytes om \<noteq> []" "length (om_bytes om) < 2 ^ 16" and reset: "resetHead a = []" and fresh: "fresh_addresses a"
    and ready: "tsn_ready gap (om_tsn om) C R a" and tsns: "tsns_ok C R q js" and read: "read_ok a" "so_rcv_hiwat a \<noteq> None" "mode env" "readq_available env"
  shows "\<exists>b n' js'. data_take env d gap net None dmbuf the_len a = Some (Data_taken, False, b) \<and> n \<le> n' \<and> insort j js = [n..n' - 1] @ js' \<and> n' \<notin> set js' \<and>
    stream_ok b s n' q js' \<and> tsn_near C (insert (om_tsn om) R) b \<and> read_ok b \<and> seen b = seen a @ map (\<lambda>j. ordered_message s j (the (q j))) [n..n' - 1] \<and>
    apart s (insert (next_control a) (set (queue_of a s))) (a\<lparr>next_control := Suc (next_control a)\<rparr>) b"
proof -
  obtain p a0 where new: "new_entry d net dmbuf a = (p, a0)" by (cases "new_entry d net dmbuf a")
  note e = new_entry_ok [OF om(2) bytes new]
  obtain c where c: "controls a0 p = Some c" "entry_ok (rcv_idata a) s j om c" "on_strm_q c = 0" using e(2) by auto
  have p: "controls a p = None" using fresh e(1) by (auto simp: fresh_addresses_def)
  have linked: "r \<noteq> p" if "r \<in> set (queue_of a s)" for r using ok(1) p that by (auto simp: stream_ok_def waits_def list_all2_conv_all_nth in_set_conv_nth)
  then have p1: "p \<notin> set (queue_of a0 s)" using e(4) by auto
  have p2: "p \<notin> set (read_queue a0)" using read(1) p e(6) by (auto simp: read_ok_def)
  have ok0: "stream_ok a0 s n q js" by (rule stream_ok_cong [OF ok(1)]) (use e linked in auto)
  have same: "controls a0 r = controls a r" if "r \<in> set (read_queue a)" for r using e(5,6) p2 that by metis
  have read0: "read_ok a0" "so_rcv_hiwat a0 \<noteq> None" "resetHead a0 = []" using read(1,2) same e(6,9,11) reset by (auto simp: read_ok_def)
  have c0: "entry_ok (rcv_idata a0) s j om c" "describes (rcv_idata a0) s j om d" "j < n + half_space (rcv_idata a0)" using c(2) om(2) j(2) e(8) by simp_all
  have ready0: "tsn_ready gap (om_tsn om) C R a0" by (rule tsn_ready_base [OF ready e(3)])
  have seen0: "seen a0 = seen a" by (rule seen_same) (use e(6,7) same in \<open>auto simp: upcalls_def\<close>)
  have apart0: "apart s (insert p (set (queue_of a s))) (a\<lparr>next_control := Suc (next_control a)\<rparr>) a0" using e by (simp add: apart_def)
  have sid: "unat (df_sid d) = s" "s < length (strmin a0)" "not_frag (df_flags d)" "\<not> unordered (df_flags d)" "dmbuf \<noteq> []"
    using om(2) ok0 bytes by (auto simp: describes_def stream_ok_def)
  have mid: "mid_is (rcv_idata a0) (last_mid_delivered (strmin a0 ! s) + 1) n" "mid_is (rcv_idata a0) (df_mid d) j"
    using ok0 c0(2) mid_is_next by (auto simp: stream_ok_def describes_def)
  have empty: "queue_of a0 s = [] \<longleftrightarrow> js = []" using ok0 by (auto simp: stream_ok_def waits_def)
  show ?thesis
  proof (cases "express d (strmin a0 ! s) a0")
    case True
    then have due: "j = n" "js = []" using mid_follows_EQ MID_EQ_int [OF mid] c0(3) j(1) sid empty by (auto simp: express_def)
    then have "stream_ok a0 s n q []" "q n = Some om" "entry_ok (rcv_idata a0) s n om c" "describes (rcv_idata a0) s n om d" using ok0 om(1) c0 by auto
    from express_ordered [OF this(1) c(1) this(2,3) c(3) this(4) p2 ready0 read0(1,2) read(3)] obtain b where
      b: "express_deliver env d gap p a0 = Some b" "stream_ok b s (n + 1) q []" "tsn_near C (insert (om_tsn om) R) b" "read_ok b" "seen b = seen a0 @ [ordered_message s n om]"
      "apart s {p} a0 b" by auto
    have "data_take env d gap net None dmbuf the_len a = Some (Data_taken, False, b)" using b(1) new sid True read(4) by (simp add: data_take_def strm_at_def)
    moreover have "apart s (insert p (set (queue_of a s))) (a\<lparr>next_control := Suc (next_control a)\<rparr>) b" by (rule apart_trans [OF apart0 apart_mono [OF b(6)]]) simp
    ultimately show ?thesis using due b seen0 e(1) om(1) by (intro exI [of _ b] exI [of _ "n + 1"] exI [of _ "[]"]) simp
  next
    case False
    let ?k = "\<lparr>frag_tsn = df_tsn d, frag_fsn = df_fsn d, frag_ppid = df_ppid d, frag_flags = df_flags d, frag_size = of_nat the_len, frag_whoTo = net, frag_data = dmbuf\<rparr>"
    from place_ordered [OF ok0 ok(2) c(1) om(1) c0(1) c(3) c0(2) j(1) c0(3) j(3) p1 p2 read0(3) ready0 tsns read0(1,2) read(3), of ?k True] obtain a1 b n' js' where
      b: "(if do_drain env then mark_r gap (df_tsn d) a0 else mark_nr gap (df_tsn d) a0) = Some a1" "data_place env d p ?k True a1 = Some (False, False, b)" "n \<le> n'"
      "insort j js = [n..n' - 1] @ js'" "n' \<notin> set js'" "stream_ok b s n' q js'" "tsn_near C (insert (om_tsn om) R) b" "read_ok b"
      "seen b = seen a0 @ map (\<lambda>j. ordered_message s j (the (q j))) [n..n' - 1]" "apart s (insert p (set (queue_of a0 s))) a0 b" by blast
    have "data_take env d gap net None dmbuf the_len a = Some (Data_taken, False, b)" using b(1,2) new sid False read(4) by (simp add: data_take_def strm_at_def)
    moreover have "apart s (insert p (set (queue_of a s))) (a\<lparr>next_control := Suc (next_control a)\<rparr>) b" using apart_trans [OF apart0] b(10) e(4) by simp
    ultimately show ?thesis using b seen0 e(1) by (intro exI [of _ b] exI [of _ n'] exI [of _ js']) simp
  qed
qed

end

end
