(* ===== verification/Rcv_Run.thy ===== *)
theory Rcv_Run
  imports Rcv_Take
begin

text \<open>
  A receiver takes DATA or I-DATA chunks that carry complete ordered messages, on any of its streams, in any order, some of them several times. In every state of such a run
  each stream has handed over its messages up to the first that is missing, each once and in their order.
\<close>

section \<open>The invariant\<close>

text \<open>
  \<open>Q s\<close> are the messages received on the stream \<open>s\<close>, by their numbers from \<open>first s\<close> on; \<open>n\<close> is the first that is missing. \<open>view\<close> is what was handed over.
\<close>

definition delivered :: "(nat \<Rightarrow> int) \<Rightarrow> (nat \<Rightarrow> int \<rightharpoonup> ordered_msg) \<Rightarrow> message list \<Rightarrow> nat \<Rightarrow> int \<Rightarrow> bool" where
  "delivered first Q view s n \<longleftrightarrow> first s \<le> n \<and> Q s n = None \<and> (\<forall>j. first s \<le> j \<and> j < n \<longrightarrow> Q s j \<noteq> None) \<and>
     filter (\<lambda>m. unat (msg_stream m) = s) view = map (\<lambda>j. ordered_message s j (the (Q s j))) [first s..n - 1]"

definition stream_inv :: "(nat \<Rightarrow> int) \<Rightarrow> (nat \<Rightarrow> int \<rightharpoonup> ordered_msg) \<Rightarrow> int set \<Rightarrow> message list \<Rightarrow> rcv_tcb \<Rightarrow> nat \<Rightarrow> int \<Rightarrow> bool" where
  "stream_inv first Q R view a s n \<longleftrightarrow> delivered first Q view s n \<and> (\<forall>j om. Q s j = Some om \<longrightarrow> first s \<le> j \<and> om_tsn om \<in> R) \<and>
     (\<exists>js. stream_ok a s n (Q s) js \<and> set js = {j. n < j \<and> Q s j \<noteq> None})"

definition rcv_inv :: "(nat \<Rightarrow> int) \<Rightarrow> (nat \<Rightarrow> int \<rightharpoonup> ordered_msg) \<Rightarrow> int \<Rightarrow> int set \<Rightarrow> message list \<Rightarrow> rcv_tcb \<Rightarrow> bool" where
  "rcv_inv first Q C R view a \<longleftrightarrow> tsn_inv C R a \<and> read_ok a \<and> so_rcv_hiwat a \<noteq> None \<and> resetHead a = [] \<and> fresh_addresses a \<and>
     (\<forall>s < length (strmin a). \<exists>n. stream_inv first Q R view a s n)"

lemma rcv_inv_same:
  assumes "rcv_inv first Q C R view a" "tsn_inv C' R b" "strmin b = strmin a" "controls b = controls a" "read_queue b = read_queue a" "rcv_idata b = rcv_idata a"
    "resetHead b = resetHead a" "next_control b = next_control a" "so_rcv_hiwat b = so_rcv_hiwat a"
  shows "rcv_inv first Q C' R view b"
  using assms by (simp add: rcv_inv_def stream_inv_def stream_ok_def waits_def read_ok_def fresh_addresses_def)

text \<open>The number \<open>j\<close> is new on a stream, and it is close enough to every number that is missing.\<close>

definition new_number :: "int \<Rightarrow> u8 \<Rightarrow> (int \<rightharpoonup> ordered_msg) \<Rightarrow> int \<Rightarrow> bool" where
  "new_number f i q j \<longleftrightarrow> f \<le> j \<and> q j = None \<and> (\<forall>n \<ge> f. q n = None \<longrightarrow> j < n + half_space i)"

text \<open>The TSNs of messages that wait, because an earlier message is missing, are not too old.\<close>

definition tsns_recent :: "int \<Rightarrow> int \<Rightarrow> (int \<rightharpoonup> ordered_msg) \<Rightarrow> bool" where
  "tsns_recent C f q \<longleftrightarrow> (\<forall>n j om. f \<le> n \<and> n < j \<and> q n = None \<and> q j = Some om \<longrightarrow> C - 2 ^ 30 < om_tsn om)"

section \<open>A chunk\<close>

text \<open>The numbers of the stream after the message \<open>j\<close> has been taken.\<close>

lemma upto_insort:
  fixes n n' j :: int
  assumes "insort j js = [n..n' - 1] @ js'" "n \<le> n'"
  shows "i \<in> set js \<or> i = j \<longleftrightarrow> n \<le> i \<and> i < n' \<or> i \<in> set js'"
proof -
  have "set (insort j js) = set ([n..n' - 1] @ js')" using assms(1) by simp
  then have "insert j (set js) = {n..n' - 1} \<union> set js'" by (simp add: set_insort_key)
  then have "i \<in> insert j (set js) \<longleftrightarrow> i \<in> {n..n' - 1} \<union> set js'" by simp
  then show ?thesis by auto
qed

lemma stream_inv_taken:
  assumes inv: "stream_inv first Q R view a s n" and js: "stream_ok a s n (Q s) js" "set js = {j. n < j \<and> Q s j \<noteq> None}"
    and j: "n \<le> j" "Q s j = None" "insort j js = [n..n' - 1] @ js'" "n \<le> n'" "n' \<notin> set js'" and om: "om_tsn om \<in> R'" "R \<subseteq> R'"
    and b: "stream_ok b s n' ((Q s)(j \<mapsto> om)) js'" and s: "s < 2 ^ 16"
  shows "stream_inv first (Q(s := (Q s)(j \<mapsto> om))) R' (view @ map (\<lambda>i. ordered_message s i (the (((Q s)(j \<mapsto> om)) i))) [n..n' - 1]) b s n'"
proof -
  let ?q = "(Q s)(j \<mapsto> om)"
  have d: "delivered first Q view s n" and Q: "\<And>j om. Q s j = Some om \<Longrightarrow> first s \<le> j \<and> om_tsn om \<in> R" using inv by (auto simp: stream_inv_def)
  note up = upto_insort [OF j(3,4)]
  have sorted: "sorted_wrt (<) js'" "\<forall>i \<in> set js'. n' \<le> i" using b by (auto simp: stream_ok_def)
  have n: "first s \<le> n" "Q s n = None" "\<And>i. first s \<le> i \<Longrightarrow> i < n \<Longrightarrow> Q s i \<noteq> None" using d by (auto simp: delivered_def)
  have "?q i \<noteq> None \<longleftrightarrow> i \<in> set js \<or> i = j" if "n \<le> i" for i using that js(2) n(2) by (cases "i = n") auto
  then have q: "?q i \<noteq> None \<longleftrightarrow> i < n' \<or> i \<in> set js'" if "n \<le> i" for i using that up [of i] by blast
  have js': "i \<in> set js' \<longleftrightarrow> n' < i \<and> ?q i \<noteq> None" for i
  proof (cases "n' < i")
    case True
    then show ?thesis using q [of i] j(4) by simp
  next
    case False
    then have "i \<notin> set js'" using sorted(2) j(5) by (cases "i = n'") auto
    with False show ?thesis by simp
  qed
  have missing: "?q n' = None" using q [of n'] j(4,5) by blast
  have got: "?q i \<noteq> None" if "first s \<le> i" "i < n'" for i
    using that q [of i] n(3) [of i] by (cases "i < n") auto
  have un: "unat (msg_stream (ordered_message s i x)) = s" for i x using s by (simp add: ordered_message_def unat_of_nat)
  have "[first s..n' - 1] = [first s..n - 1] @ [n..n' - 1]" using d j(4) upto_split2 [of "first s" "n - 1" "n' - 1"] by (cases "first s \<le> n - 1") (auto simp: delivered_def)
  moreover have "map (\<lambda>i. ordered_message s i (the (Q s i))) [first s..n - 1] = map (\<lambda>i. ordered_message s i (the (?q i))) [first s..n - 1]" using j(1) by simp
  ultimately have "filter (\<lambda>m. unat (msg_stream m) = s) (view @ map (\<lambda>i. ordered_message s i (the (?q i))) [n..n' - 1]) =
      map (\<lambda>i. ordered_message s i (the (?q i))) [first s..n' - 1]" using d un by (simp add: delivered_def filter_map comp_def)
  with d missing got j(4) have "delivered first (Q(s := ?q)) (view @ map (\<lambda>i. ordered_message s i (the (?q i))) [n..n' - 1]) s n'" by (simp add: delivered_def)
  moreover have "first s \<le> i \<and> om_tsn x \<in> R'" if "?q i = Some x" for i x
    using that Q [of i x] om j(1) n(1) by (cases "i = j") auto
  moreover have "set js' = {i. n' < i \<and> ?q i \<noteq> None}" by (intro set_eqI) (simp only: mem_Collect_eq js')
  ultimately show ?thesis using b unfolding stream_inv_def fun_upd_same by blast
qed

lemma queue_entry:
  assumes "stream_ok a s n q js" "r \<in> set (queue_of a s)"
  shows "\<exists>c. controls a r = Some c \<and> unat (sinfo_stream c) = s"
  using assms by (auto simp: stream_ok_def waits_def entry_ok_def list_all2_conv_all_nth in_set_conv_nth)

lemma stream_inv_other:
  assumes inv: "stream_inv first Q R view a s' n'" and ok: "stream_ok a s n q js" and s: "s' \<noteq> s" "s < 2 ^ 16" and R: "R \<subseteq> R'" and fresh: "fresh_addresses a"
    and b: "apart s (insert (next_control a) (set (queue_of a s))) (a\<lparr>next_control := k\<rparr>) b"
  shows "stream_inv first (Q(s := q')) R' (view @ map (\<lambda>i. ordered_message s i (f i)) ks) b s' n'"
proof -
  obtain js' where js': "stream_ok a s' n' (Q s') js'" "set js' = {j. n' < j \<and> Q s' j \<noteq> None}" using inv by (auto simp: stream_inv_def)
  have "controls b r = controls a r" if "r \<in> set (queue_of a s')" for r
  proof -
    obtain c where c: "controls a r = Some c" "unat (sinfo_stream c) = s'" using queue_entry [OF js'(1) \<open>r \<in> set (queue_of a s')\<close>] by auto
    then have "r \<noteq> next_control a" using fresh by (auto simp: fresh_addresses_def)
    moreover have "r \<notin> set (queue_of a s)" using queue_entry [OF ok, of r] c s(1) by auto
    ultimately show ?thesis using b by (simp add: apart_def)
  qed
  then have "stream_ok b s' n' (Q s') js'" by (intro stream_ok_cong [OF js'(1)]) (use b s(1) in \<open>simp_all add: apart_def\<close>)
  moreover have "unat (msg_stream (ordered_message s i x)) = s" for i x using s(2) by (simp add: ordered_message_def unat_of_nat)
  then have "filter (\<lambda>m. unat (msg_stream m) = s') (map (\<lambda>i. ordered_message s i (f i)) ks) = []" using s(1) by (simp add: filter_map comp_def)
  ultimately show ?thesis using inv js'(2) s(1) R by (auto simp: stream_inv_def delivered_def)
qed

lemma rcv_inv_taken:
  assumes inv: "rcv_inv first Q C R view a" and n: "stream_inv first Q R view a s n" and js: "stream_ok a s n (Q s) js" "set js = {j. n < j \<and> Q s j \<noteq> None}"
    and j: "n \<le> j" "Q s j = None" "insort j js = [n..n' - 1] @ js'" "n \<le> n'" "n' \<notin> set js'" and s: "s < 2 ^ 16"
    and b: "stream_ok b s n' ((Q s)(j \<mapsto> om)) js'" "tsn_inv C' (insert (om_tsn om) R) b" "read_ok b"
      "apart s (insert (next_control a) (set (queue_of a s))) (a\<lparr>next_control := Suc (next_control a)\<rparr>) b"
  shows "rcv_inv first (Q(s := (Q s)(j \<mapsto> om))) C' (insert (om_tsn om) R) (view @ map (\<lambda>i. ordered_message s i (the (((Q s)(j \<mapsto> om)) i))) [n..n' - 1]) b"
proof -
  have fresh: "fresh_addresses a" using inv by (simp add: rcv_inv_def)
  have "r < next_control b" if "controls b r \<noteq> None" for r
  proof (cases "r \<in> insert (next_control a) (set (queue_of a s))")
    case True
    then show ?thesis using b(4) queue_entry [OF js(1), of r] fresh by (auto simp: apart_def fresh_addresses_def less_Suc_eq)
  next
    case False
    then have "controls a r \<noteq> None" using that b(4) by (simp add: apart_def)
    then have "r < next_control a" using fresh by (simp add: fresh_addresses_def)
    then show ?thesis using b(4) by (simp add: apart_def)
  qed
  then have "fresh_addresses b" by (simp add: fresh_addresses_def)
  moreover have "so_rcv_hiwat b \<noteq> None" "resetHead b = []" using inv b(4) by (simp_all add: rcv_inv_def apart_def)
  moreover have "\<exists>m. stream_inv first (Q(s := (Q s)(j \<mapsto> om))) (insert (om_tsn om) R) (view @ map (\<lambda>i. ordered_message s i (the (((Q s)(j \<mapsto> om)) i))) [n..n' - 1]) b s' m"
    if "s' < length (strmin b)" for s'
  proof (cases "s' = s")
    case True
    show ?thesis unfolding True by (rule exI, rule stream_inv_taken [OF n js j insertI1 subset_insertI b(1) s])
  next
    case False
    have "s' < length (strmin a)" using that b(4) by (simp add: apart_def)
    then obtain m where "stream_inv first Q R view a s' m" using inv by (auto simp: rcv_inv_def)
    from stream_inv_other [OF this js(1) False s subset_insertI fresh b(4)] show ?thesis by (rule exI)
  qed
  ultimately show ?thesis unfolding rcv_inv_def using b(2,3) by (intro conjI allI impI) assumption+
qed

text \<open>What the receiver needs to take a message that it has not got yet: a place for its TSN, room and memory.\<close>

definition accepts :: "rcv_env \<Rightarrow> data_input \<Rightarrow> int \<Rightarrow> int set \<Rightarrow> rcv_tcb \<Rightarrow> bool" where
  "accepts env k t R a \<longleftrightarrow> t \<notin> R \<and> maps_available env = (True, True) \<and> unat (SCTP_CALC_TSN_TO_GAP (word_of_int t) (mapping_array_base_tsn a)) < 4096 \<and>
     admits env a \<and> readq_available env \<and> (di_last k \<or> copy_available env)"

lemma tsn_inv_send_sack [simp]: "tsn_inv C R (a\<lparr>send_sack := x\<rparr>) = tsn_inv C R a" "recent (a\<lparr>send_sack := x\<rparr>) = recent a"
  by (simp_all add: tsn_inv_def tsn_rel_def arrays_ok_def marks_ok_def dups_ok_def got_def recent_def)

context reader
begin

lemma seen_quiet: "silent a b \<Longrightarrow> seen b = seen a"
  by (rule seen_same) (auto simp: silent_def)

lemma rcv_inv_more:
  assumes "rcv_inv first Q C R (seen a) a" "rcv_asoc.more b = rcv_asoc.more a" "tsn_inv C' R b"
  shows "rcv_inv first Q C' R (seen b) b"
  unfolding seen_more [OF assms(2)] using rcv_inv_same [OF assms(1,3)] more_fields [OF assms(2)] by simp

lemma rcv_inv_quiet:
  assumes "rcv_inv first Q C R (seen a) a" "silent a b" "tsn_near C R a"
  shows "rcv_inv first Q C R (seen b) b"
proof -
  have "tsn_near C R b" by (rule tsn_near_base [OF assms(3)]) (use assms(2) in \<open>simp add: silent_def\<close>)
  then have "tsn_inv C R b" by (rule tsn_near_inv)
  then show ?thesis unfolding seen_quiet [OF assms(2)] using rcv_inv_same [OF assms(1)] assms(2) by (simp add: silent_def)
qed

text \<open>A new message after the test of its TSN.\<close>

lemma new_chunk_step:
  assumes inv: "rcv_inv first Q C R (seen a) a" and near: "tsn_near C R a" "tsn_ready gap (om_tsn om) C R a" and d: "describes (rcv_idata a) s j om d" and s: "s < length (strmin a)"
    and new: "new_number (first s) (rcv_idata a) (Q s) j" and old: "tsns_recent C (first s) (Q s)" and mode: "mode env"
    and om: "0 < length (om_bytes om)" "length (om_bytes om) < 2 ^ 16" and ms: "ms = [] \<or> concat ms = om_bytes om"
  shows "\<exists>r b. data_admit env d gap a = Some (r, b) \<and> (admits env a \<longrightarrow> r = Inl None \<and> b = a) \<and>
    (r = Inr Data_abort \<or> r = Inr Data_break \<and> rcv_inv first Q C R (seen b) b \<or>
     r = Inl None \<and> (\<exists>r e. data_take env d gap net None ms n b = Some (r, False, e) \<and> (readq_available env \<and> ms \<noteq> [] \<longrightarrow> r = Data_taken) \<and>
       (r = Data_dropped \<and> rcv_inv first Q C R (seen e) e \<or>
        r = Data_taken \<and> resetHead e = [] \<and> rcv_inv first (Q(s := (Q s)(j \<mapsto> om))) (if om_tsn om = C + 1 then om_tsn om else C) (insert (om_tsn om) R) (seen e)
          (advance_cumulative (df_tsn d) e))))"
proof -
  obtain m where m: "stream_inv first Q R (seen a) a s m" using inv s by (auto simp: rcv_inv_def)
  then obtain js where js: "stream_ok a s m (Q s) js" "set js = {j. m < j \<and> Q s j \<noteq> None}" and missing: "first s \<le> m" "Q s m = None"
    and got: "\<And>i. first s \<le> i \<Longrightarrow> i < m \<Longrightarrow> Q s i \<noteq> None" and tsn: "\<And>i x. Q s i = Some x \<Longrightarrow> om_tsn x \<in> R" by (auto simp: stream_inv_def delivered_def)
  have j: "m \<le> j" "j < m + half_space (rcv_idata a)" "j \<notin> set js" "m \<notin> set js" "Q s j = None"
    using new missing got [of j] js(2) by (auto simp: new_number_def not_le)
  from admit_ordered [OF js(1) j(4) d j(1-3), of env gap] obtain r b where
    b: "data_admit env d gap a = Some (r, b)" "r = Inr Data_abort \<or> (r = Inr Data_break \<or> r = Inl None) \<and> silent a b" "admits env a \<longrightarrow> r = Inl None \<and> b = a" by auto
  show ?thesis
  proof (cases "r = Inl None")
    case False
    then show ?thesis using b rcv_inv_quiet [OF inv _ near(1)] by auto
  next
    case r: True
    then have silent: "silent a b" using b(2) by auto
    note invb = rcv_inv_quiet [OF inv silent near(1)]
    have "\<exists>r e. data_take env d gap net None ms n b = Some (r, False, e) \<and> (readq_available env \<and> ms \<noteq> [] \<longrightarrow> r = Data_taken) \<and>
       (r = Data_dropped \<and> rcv_inv first Q C R (seen e) e \<or>
        r = Data_taken \<and> resetHead e = [] \<and> rcv_inv first (Q(s := (Q s)(j \<mapsto> om))) (if om_tsn om = C + 1 then om_tsn om else C) (insert (om_tsn om) R) (seen e)
          (advance_cumulative (df_tsn d) e))"
    proof (cases "readq_available env \<and> ms \<noteq> []")
      case False
      then have "data_take env d gap net None ms n b = Some (Data_dropped, False, b)" by (auto simp: data_take_def)
      with invb False show ?thesis by blast
    next
      case True
      let ?q = "(Q s)(j \<mapsto> om)"
      have okb: "stream_ok b s m (Q s) js" using stream_ok_cong [OF js(1)] silent by (simp add: silent_def)
      moreover have "waits b s ?q (queue_of b s) js" using okb j(3) unfolding stream_ok_def waits_def
        by (auto simp: list_all2_conv_all_nth)
      ultimately have "stream_ok b s m ?q js" by (simp add: stream_ok_def)
      moreover have "tsns_ok C R ?q js" using old tsn js(2) missing j(3) by (auto simp: tsns_ok_def tsns_recent_def)
      moreover have "tsn_ready gap (om_tsn om) C R b" by (rule tsn_ready_base [OF near(2)]) (use silent in \<open>simp add: silent_def\<close>)
      moreover have "describes (rcv_idata b) s j om d" "j < m + half_space (rcv_idata b)" using d j(2) silent by (simp_all add: silent_def)
      moreover have "resetHead b = []" "fresh_addresses b" "read_ok b" "so_rcv_hiwat b \<noteq> None" using invb by (simp_all add: rcv_inv_def)
      ultimately obtain e n' js' where e: "data_take env d gap net None ms n b = Some (Data_taken, False, e)" "m \<le> n'" "insort j js = [m..n' - 1] @ js'" "n' \<notin> set js'"
        "stream_ok e s n' ?q js'" "tsn_near C (insert (om_tsn om) R) e" "read_ok e" "seen e = seen b @ map (\<lambda>j. ordered_message s j (the (?q j))) [m..n' - 1]"
        "apart s (insert (next_control b) (set (queue_of b s))) (b\<lparr>next_control := Suc (next_control b)\<rparr>) e"
        using take_ordered [of b s m ?q js j om d ms gap C R env net n] j(1,3,4) True ms om mode by auto
      have C: "C < om_tsn om" "df_tsn d = word_of_int (om_tsn om)" "s < 2 ^ 16" using near(2) d unsigned_less [of "df_sid d"] by (auto simp: tsn_ready_def describes_def)
      have "stream_inv first Q R (seen b) b s m" using m okb js(2) unfolding seen_quiet [OF silent] stream_inv_def by blast
      from rcv_inv_taken [OF invb this okb js(2) j(1,5) e(3,2,4) C(3) e(5) tsn_near_inv [OF e(6)] e(7,9)]
      have inve: "rcv_inv first (Q(s := ?q)) C (insert (om_tsn om) R) (seen e) e" unfolding e(8) .
      have "tsn_inv (if om_tsn om = C + 1 then om_tsn om else C) (insert (om_tsn om) R) (advance_cumulative (df_tsn d) e)"
        using tsn_near_inv [OF advance_near [OF e(6) insertI1 C(1)]] unfolding C(2) .
      from rcv_inv_same [OF inve this] have "rcv_inv first (Q(s := ?q)) (if om_tsn om = C + 1 then om_tsn om else C) (insert (om_tsn om) R) (seen e) (advance_cumulative (df_tsn d) e)"
        by (simp add: more_fields [OF advance_more])
      moreover have "resetHead e = []" using inve by (simp add: rcv_inv_def)
      ultimately show ?thesis using e(1) by blast
    qed
    with b(1,3) r show ?thesis by blast
  qed
qed

lemma chunk_step:
  assumes inv: "rcv_inv first Q C R (seen a) a" and rec: "recent a" and t: "\<bar>om_tsn om - C\<bar> < 2 ^ 31" and k: "carries (rcv_idata a) s j om k" and s: "s < length (strmin a)"
    and new: "om_tsn om \<notin> R \<Longrightarrow> new_number (first s) (rcv_idata a) (Q s) j" and old: "tsns_recent C (first s) (Q s)" and mode: "mode env"
  shows "\<exists>r h b. receive_chunk env k a = Some (r, h, b) \<and> (accepts env k (om_tsn om) R a \<longrightarrow> r = Data_taken) \<and>
    (r = Data_abort \<or> (r = Data_dropped \<or> r = Data_break) \<and> rcv_inv first Q C R (seen b) b \<or>
     r = Data_taken \<and> rcv_inv first (Q(s := (Q s)(j \<mapsto> om))) (if om_tsn om = C + 1 then om_tsn om else C) (insert (om_tsn om) R) (seen b) b)"
proof -
  let ?hs = "header_size (di_idata k)"
  obtain d where d: "data_header (di_idata k) (di_packet k) (di_offset k) = Some d" "describes (rcv_idata a) s j om d" using k by (auto simp: carries_def split: option.splits)
  have len: "0 < length (om_bytes om)" "length (om_bytes om) < 2 ^ 16" "di_length k = ?hs + length (om_bytes om)"
    "nat (di_offset k) + ?hs + length (om_bytes om) \<le> length (concat (di_packet k))"
    "om_bytes om = take (length (om_bytes om)) (drop (nat (di_offset k) + ?hs) (concat (di_packet k)))" using k by (auto simp: carries_def Let_def)
  from chunk_mbufs_bytes [OF len(4), of env "di_last k"] obtain ms where ms: "chunk_mbufs env (di_packet k) (nat (di_offset k) + ?hs) (length (om_bytes om)) (di_last k) = Some ms"
    "ms = [] \<or> concat ms = om_bytes om" "di_last k \<or> copy_available env \<longrightarrow> ms \<noteq> []" using len(1,5) by fastforce
  define a1 where "a1 = (if df_flags d AND SCTP_DATA_SACK_IMMEDIATELY = SCTP_DATA_SACK_IMMEDIATELY then a\<lparr>send_sack := 1\<rparr> else a)"
  have more1: "rcv_asoc.more a1 = rcv_asoc.more a" and inv1: "tsn_inv C R a1" "recent a1" "mapping_array_base_tsn a1 = mapping_array_base_tsn a"
    using inv rec by (simp_all add: a1_def rcv_inv_def)
  have acc: "om_tsn om \<notin> R \<and> fst (maps_available env) \<and> snd (maps_available env) \<and> unat (SCTP_CALC_TSN_TO_GAP (word_of_int (om_tsn om)) (mapping_array_base_tsn a1)) < 4096"
    if "accepts env k (om_tsn om) R a" using that inv1(3) by (simp add: accepts_def)
  have tsn: "df_tsn d = word_of_int (om_tsn om)" using d(2) by (simp add: describes_def)
  from check_ready [OF inv1(1,2) t, of "fst (maps_available env)" "snd (maps_available env)" "di_high k"] obtain v h a2 where
    v: "tsn_check (fst (maps_available env)) (snd (maps_available env)) (df_tsn d) (di_high k) a1 = Some (v, h, a2)" "rcv_asoc.more a2 = rcv_asoc.more a1" "tsn_near C R a2"
    "\<And>gap. v = Tsn_new gap \<Longrightarrow> tsn_ready gap (om_tsn om) C R a2" "accepts env k (om_tsn om) R a \<Longrightarrow> \<exists>gap. v = Tsn_new gap"
    unfolding tsn using acc by blast
  have more2: "rcv_asoc.more a2 = rcv_asoc.more a" using v(2) more1 by simp
  note f2 = more_fields [OF more2]
  have inv2: "rcv_inv first Q C R (seen a2) a2" by (rule rcv_inv_more [OF inv more2 tsn_near_inv [OF v(3)]])
  note run = sctp_process_a_data_chunk_def d(1) a1_def [symmetric] len(3) Let_def
  show ?thesis
  proof (cases v)
    case (Tsn_new gap)
    have "om_tsn om \<notin> R" using v(4) [OF Tsn_new] by (simp add: tsn_ready_def)
    then have n: "describes (rcv_idata a2) s j om d" "s < length (strmin a2)" "new_number (first s) (rcv_idata a2) (Q s) j" using d(2) s new f2 by simp_all
    from new_chunk_step [OF inv2 v(3) v(4) [OF Tsn_new] n old mode len(1,2) ms(2), of "di_net k" "length (om_bytes om)"] obtain r b where b: "data_admit env d gap a2 = Some (r, b)" "admits env a2 \<longrightarrow> r = Inl None \<and> b = a2"
      "r = Inr Data_abort \<or> r = Inr Data_break \<and> rcv_inv first Q C R (seen b) b \<or>
       r = Inl None \<and> (\<exists>r e. data_take env d gap (di_net k) None ms (length (om_bytes om)) b = Some (r, False, e) \<and> (readq_available env \<and> ms \<noteq> [] \<longrightarrow> r = Data_taken) \<and>
         (r = Data_dropped \<and> rcv_inv first Q C R (seen e) e \<or>
          r = Data_taken \<and> resetHead e = [] \<and> rcv_inv first (Q(s := (Q s)(j \<mapsto> om))) (if om_tsn om = C + 1 then om_tsn om else C) (insert (om_tsn om) R) (seen e)
            (advance_cumulative (df_tsn d) e)))"
      by (elim exE conjE) (rule that)
    have adm: "accepts env k (om_tsn om) R a \<Longrightarrow> r = Inl None \<and> readq_available env \<and> ms \<noteq> []"
      using b(2) ms(3) f2 by (auto simp: accepts_def admits_def no_room_def)
    show ?thesis
    proof (cases "r = Inl None")
      case False
      then obtain r' where r': "r = Inr r'" using b(3) by auto
      then have "receive_chunk env k a = Some (r', h, b)" using v(1) b(1) Tsn_new len(1) by (simp add: run)
      with r' b(3) adm show ?thesis by auto
    next
      case r: True
      then obtain r' e where e: "data_take env d gap (di_net k) None ms (length (om_bytes om)) b = Some (r', False, e)" "readq_available env \<and> ms \<noteq> [] \<longrightarrow> r' = Data_taken"
        "r' = Data_dropped \<and> rcv_inv first Q C R (seen e) e \<or>
         r' = Data_taken \<and> resetHead e = [] \<and> rcv_inv first (Q(s := (Q s)(j \<mapsto> om))) (if om_tsn om = C + 1 then om_tsn om else C) (insert (om_tsn om) R) (seen e)
           (advance_cumulative (df_tsn d) e)" using b(3) by auto
      let ?f = "advance_cumulative (df_tsn d) e"
      have "receive_chunk env k a = Some (r', h, if r' = Data_taken then ?f else e)"
        using v(1) b(1) Tsn_new len(1) r ms(1) e(1,3) by (auto simp: run finish_resets_def more_fields [OF advance_more])
      moreover have "seen ?f = seen e" by (rule seen_more) simp
      ultimately show ?thesis using e(2,3) adm by auto
    qed
  qed (use v(1,5) d(1) len(1) inv2 in \<open>auto simp: run\<close>)
qed

end

end
