(* ===== verification/Rcv_Correct.thy ===== *)
theory Rcv_Correct
  imports Rcv_Run
begin

text \<open>
  The order of the messages of every stream, over whole runs of a receiver: chunks with complete ordered messages arrive in any order on any stream, some
  of them again, some are dropped for want of memory or room, and the mapping arrays are slid and the window is updated between them.
\<close>

section \<open>Runs\<close>

definition new_receiver :: "(nat \<Rightarrow> int) \<Rightarrow> rcv_tcb \<Rightarrow> bool" where
  "new_receiver first a \<longleftrightarrow> (\<forall>s < length (strmin a). queue_of a s = [] \<and> mid_is (rcv_idata a) (last_mid_delivered (strmin a ! s)) (first s - 1)) \<and>
     read_queue a = [] \<and> rcv_events a = [] \<and> resetHead a = [] \<and> so_rcv_hiwat a \<noteq> None \<and> fresh_addresses a"

text \<open>
  \<open>rcv_run env first Q C R a\<close>: the receiver is in state \<open>a\<close>, \<open>Q s\<close> are the messages taken on the stream \<open>s\<close> by their numbers, \<open>R\<close> are the TSNs received and \<open>C\<close> is the
  cumulative one. The peer gives a new number to the message of a new TSN; serial number comparisons need numbers and TSNs that are not too far apart.
\<close>

inductive rcv_run :: "rcv_env \<Rightarrow> (nat \<Rightarrow> int) \<Rightarrow> (nat \<Rightarrow> int \<rightharpoonup> ordered_msg) \<Rightarrow> int \<Rightarrow> int set \<Rightarrow> rcv_tcb \<Rightarrow> bool" for env first where
  start: "tsn_run C R a \<Longrightarrow> new_receiver first a \<Longrightarrow> rcv_run env first (\<lambda>s. Map.empty) C R a"
| data: "rcv_run env first Q C R a \<Longrightarrow> recent a \<Longrightarrow> \<bar>om_tsn om - C\<bar> < 2 ^ 31 \<Longrightarrow> carries (rcv_idata a) s j om k \<Longrightarrow> s < length (strmin a) \<Longrightarrow>
    (om_tsn om \<notin> R \<longrightarrow> new_number (first s) (rcv_idata a) (Q s) j) \<Longrightarrow> tsns_recent C (first s) (Q s) \<Longrightarrow>
    receive_chunk env k a = Some (Data_taken, h, b) \<Longrightarrow>
    rcv_run env first (Q(s := (Q s)(j \<mapsto> om))) (if om_tsn om = C + 1 then om_tsn om else C) (insert (om_tsn om) R) b"
| lost: "rcv_run env first Q C R a \<Longrightarrow> recent a \<Longrightarrow> \<bar>om_tsn om - C\<bar> < 2 ^ 31 \<Longrightarrow> carries (rcv_idata a) s j om k \<Longrightarrow> s < length (strmin a) \<Longrightarrow>
    (om_tsn om \<notin> R \<longrightarrow> new_number (first s) (rcv_idata a) (Q s) j) \<Longrightarrow> tsns_recent C (first s) (Q s) \<Longrightarrow>
    receive_chunk env k a = Some (r, h, b) \<Longrightarrow> r = Data_dropped \<or> r = Data_break \<Longrightarrow> rcv_run env first Q C R b"
| slide: "rcv_run env first Q C R a \<Longrightarrow> recent a \<Longrightarrow> sctp_slide_mapping_arrays a = Some b \<Longrightarrow> {..C'} \<subseteq> R \<Longrightarrow> C' + 1 \<notin> R \<Longrightarrow> rcv_run env first Q C' R b"
| rwnd: "rcv_run env first Q C R a \<Longrightarrow> rcv_run env first Q C R (sctp_set_rwnd a)"

lemma slide_more:
  assumes "tsn_inv C R m" "recent m" "sctp_slide_mapping_arrays m = Some m'"
  shows "rcv_asoc.more m' = rcv_asoc.more m"
proof -
  obtain B hm hn where "tsn_rel B C hm hn R m" "near B hm hn" using assms(1,2) by (rule tsn_inv_near)
  from slide_correct [OF this] assms(3) show ?thesis by (auto simp: same_rest_def)
qed

lemma new_receiver_inv:
  assumes run: "tsn_run C R a" and new: "new_receiver first a"
  shows "rcv_inv first (\<lambda>s. Map.empty) C R [] a"
proof -
  have "stream_inv first (\<lambda>s. Map.empty) R [] a s (first s)" if "s < length (strmin a)" for s
    using new that by (simp add: stream_inv_def delivered_def new_receiver_def stream_ok_def waits_def)
  then show ?thesis using run_inv [OF run] new unfolding rcv_inv_def by (auto simp: new_receiver_def read_ok_def)
qed

context reader
begin

lemma run_keeps_order:
  assumes start: "\<And>a. read_queue a = [] \<Longrightarrow> rcv_events a = [] \<Longrightarrow> seen a = []" and mode: "mode env"
  shows "rcv_run env first Q C R a \<Longrightarrow> rcv_inv first Q C R (seen a) a"
proof (induction rule: rcv_run.induct)
  case (start C R a)
  then have "seen a = []" using assms(1) by (simp add: new_receiver_def)
  with new_receiver_inv [OF start] show ?case by simp
next
  case (data Q C R a om s j k h b)
  from chunk_step [OF data.IH data.hyps(2-5) _ data.hyps(7) mode] data.hyps(6,8)
  have "rcv_inv first (Q(s := (Q s)(j \<mapsto> om))) (if om_tsn om = C + 1 then om_tsn om else C) (insert (om_tsn om) R) (seen b) b" by simp
  then show ?case .
next
  case (lost Q C R a om s j k r h b)
  from chunk_step [OF lost.IH lost.hyps(2-5) _ lost.hyps(7) mode] lost.hyps(6,8,9) show ?case by auto
next
  case (slide Q C R a b C')
  have inv: "tsn_inv C R a" using slide.IH by (simp add: rcv_inv_def)
  from slide_inv [OF inv slide.hyps(2)] slide.hyps(3) obtain D where D: "tsn_inv D R b" "{..D} \<subseteq> R" "D + 1 \<notin> R" by auto
  have "D = C'" using cumulative_unique [OF D(2,3) slide.hyps(4,5)] .
  with D(1) show ?case using rcv_inv_more [OF slide.IH slide_more [OF inv slide.hyps(2,3)]] by simp
next
  case (rwnd Q C R a)
  have "tsn_inv C R (sctp_set_rwnd a)" using rwnd.IH unfolding rcv_inv_def sctp_set_rwnd_def tsn_inv_def tsn_rel_def arrays_ok_def marks_ok_def dups_ok_def got_def by simp
  with rcv_inv_same [OF rwnd.IH this] show ?case unfolding seen_quiet [OF quiet_wake(2)] by (simp add: sctp_set_rwnd_def)
qed

end

definition reads_all :: "rcv_env \<Rightarrow> bool" where
  "reads_all env \<longleftrightarrow> \<not> cant_read env \<and> (recv_upcall env \<longrightarrow> buffer_available env)"

lemma run_inv_handed:
  assumes "rcv_run env first Q C R a" "reads_all env"
  shows "rcv_inv first Q C R (handed env a) a"
proof (cases "recv_upcall env")
  case True
  then show ?thesis using upcall_reader.run_keeps_order [OF _ _ assms(1)] assms(2) by (simp add: handed_def reads_all_def upcalls_def)
next
  case False
  then show ?thesis using queue_reader.run_keeps_order [OF _ _ assms(1)] assms(2) by (simp add: handed_def reads_all_def read_messages_def)
qed

section \<open>Properties\<close>

text \<open>
  C2: Messages are handed over in order, and each once. In every state of a run, whatever the order in which the chunks came and however often, a stream has handed over exactly its messages
  from the first up to the first that is missing, in the order of their numbers and with their bytes, to the read queue or by the upcall. The runs consist of chunks with complete ordered messages while no
  stream is being reset, with message numbers less than half of the identifier space beyond a missing one and with TSNs not too far from the cumulative one; the application reads, and buffers for its upcall
  are available.
\<close>

theorem ordered_messages_delivered:
  assumes "rcv_run env first Q C R a" "reads_all env" "s < length (strmin a)"
  shows "\<exists>n. first s \<le> n \<and> Q s n = None \<and> (\<forall>j. first s \<le> j \<and> j < n \<longrightarrow> Q s j \<noteq> None) \<and>
    filter (\<lambda>m. unat (msg_stream m) = s) (handed env a) = map (\<lambda>j. ordered_message s j (the (Q s j))) [first s..n - 1]"
  using run_inv_handed [OF assms(1,2)] assms(3) by (auto simp: rcv_inv_def stream_inv_def delivered_def)

section \<open>An example\<close>

text \<open>The peer starts with TSN 10; its message 1 with TSN 11 comes before its message 0 with TSN 10, each cut into two mbufs.\<close>

definition demo_base :: rcv_tcb where
  "demo_base = \<lparr>mapping_array = [], nr_mapping_array = [], mapping_array_size = 0, mapping_array_base_tsn = 0, cumulative_tsn = 0,
     highest_tsn_inside_map = 0, highest_tsn_inside_nr_map = 0, dup_tsns = replicate 20 0, numduptsns = 0, send_sack = 0,
     nrsack_supported = 0, last_data_chunk_from = Some 0, control_send_queue = [], ctrl_queue_cnt = 0, delayed_ack = 200, sack_freq = 2,
     data_pkts_seen = 0, sctp_cmt_on_off = 0, cmt_dac_pkts_rcvd = 0, my_rwnd = 131072, my_last_reported_rwnd = 131072, sb_cc = 0, my_rwnd_control_len = 0,
     size_on_reasm_queue = 0, cnt_on_reasm_queue = 0, size_on_all_streams = 0, cnt_on_all_streams = 0, freed_by_sorcv_sincelast = 0,
     dack_pending = False, asoc_state = 8, alternate = None, primary_destination = Some 0, so_rcv_hiwat = Some 131072,
     net_mtu = (\<lambda>_. 1500), net_dest_state = (\<lambda>_. 1), net_ref_count = (\<lambda>_. 1),
     strmin = [\<lparr>inqueue = [], uno_inqueue = [], last_mid_delivered = 0xffffffff, pd_api_started = False\<rparr>], controls = (\<lambda>_. None), next_control = 0,
     read_queue = [], so_rcv_cc = 0, so_rcv_mbcnt = 0, cnt_msg_on_sb = 0, rcv_idata = 0, resetHead = [], pending_reply_queue = [], rcv_events = []\<rparr>"

definition demo_receiver :: rcv_tcb where
  "demo_receiver = process_init_tsn (word_of_int 10) (init_mapping_arrays demo_base)"

definition demo_host :: rcv_env where
  "demo_host = \<lparr>recv_upcall = False, cant_read = False, partial_delivery_point = 65536, do_drain = True, max_chunks_on_queue = 100, readq_available = True,
     frag_available = True, buffer_available = True, copy_available = True, err_available = True, socket_gone = False, maps_available = (True, True)\<rparr>"

definition demo_msg :: "int \<Rightarrow> ordered_msg" where
  "demo_msg j = \<lparr>om_tsn = 10 + j, om_ppid = 0, om_bytes = [word_of_int j, 7]\<rparr>"

definition demo_input :: "int \<Rightarrow> data_input" where
  "demo_input j = \<lparr>di_packet = [[0, 3, 0, 18, 0, 0, 0, word_of_int (10 + j), 0, 0, 0, word_of_int j, 0, 0, 0, 0, word_of_int j], [7, 0, 0]],
     di_offset = 0, di_length = 18, di_net = 0, di_high = 9, di_last = (j = 0), di_idata = False\<rparr>"

definition demo_received :: "int \<Rightarrow> rcv_tcb \<Rightarrow> rcv_tcb" where
  "demo_received j a = (case receive_chunk demo_host (demo_input j) a of None \<Rightarrow> a | Some (r, h, b) \<Rightarrow> b)"

lemma demo_first: "map_option (\<lambda>(r, h, b). (r, rcv_idata b, length (strmin b), recent b)) (receive_chunk demo_host (demo_input 1) demo_receiver) = Some (Data_taken, 0, 1, True)"
  by code_simp

lemma demo_second: "map_option (\<lambda>(r, h, b). (r, length (strmin b))) (receive_chunk demo_host (demo_input 0) (demo_received 1 demo_receiver)) = Some (Data_taken, 1)"
  by code_simp

lemma demo_receive:
  assumes "map_option (\<lambda>(r, h, b). f r b) (receive_chunk demo_host (demo_input j) a) = Some x"
  shows "\<exists>r h. receive_chunk demo_host (demo_input j) a = Some (r, h, demo_received j a) \<and> f r (demo_received j a) = x"
  using assms by (auto simp: demo_received_def)

lemma demo_header:
  "case data_header False (di_packet (demo_input 1)) 0 of None \<Rightarrow> False | Some d \<Rightarrow> describes 0 0 1 (demo_msg 1) d"
  "case data_header False (di_packet (demo_input 0)) 0 of None \<Rightarrow> False | Some d \<Rightarrow> describes 0 0 0 (demo_msg 0) d"
  by code_simp+

lemma demo_carries: "carries 0 0 1 (demo_msg 1) (demo_input 1)" "carries 0 0 0 (demo_msg 0) (demo_input 0)"
  using demo_header unfolding carries_def Let_def by (simp_all add: demo_input_def demo_msg_def header_size_def sizeof_data_chunk_def)

lemma demo_receiver_facts: "rcv_idata demo_receiver = 0" "length (strmin demo_receiver) = 1" "recent demo_receiver"
  by (simp_all add: demo_receiver_def demo_base_def process_init_tsn_def init_mapping_arrays_def recent_def)

lemma demo_start: "rcv_run demo_host (\<lambda>_. 0) (\<lambda>s. Map.empty) 9 {..<10} demo_receiver"
proof (rule rcv_run.start)
  have "length (dup_tsns demo_base) = unat SCTP_MAX_DUP_TSNS" "numduptsns demo_base = 0" by (simp_all add: demo_base_def SCTP_MAX_DUP_TSNS_def)
  from tsn_run.start [OF this, of 10] show "tsn_run 9 {..<10} demo_receiver" by (simp add: demo_receiver_def)
  show "new_receiver (\<lambda>_. 0) demo_receiver"
    by (simp add: new_receiver_def demo_receiver_def demo_base_def process_init_tsn_def init_mapping_arrays_def mid_is_def fresh_addresses_def)
qed

lemma demo_new: "new_number 0 0 Map.empty 1" "new_number 0 0 [1 \<mapsto> demo_msg 1] 0" "tsns_recent 9 0 Map.empty" "tsns_recent 9 0 [1 \<mapsto> demo_msg 1]"
  by (auto simp: new_number_def tsns_recent_def half_space_def demo_msg_def split: if_splits)

lemma demo_run_first: "rcv_run demo_host (\<lambda>_. 0) ((\<lambda>s. Map.empty)(0 := [1 \<mapsto> demo_msg 1])) 9 (insert 11 {..<10}) (demo_received 1 demo_receiver)"
proof -
  obtain h where h: "receive_chunk demo_host (demo_input 1) demo_receiver = Some (Data_taken, h, demo_received 1 demo_receiver)" using demo_receive [OF demo_first] by auto
  have "\<bar>om_tsn (demo_msg 1) - 9\<bar> < 2 ^ 31" by (simp add: demo_msg_def)
  from rcv_run.data [OF demo_start demo_receiver_facts(3) this _ _ _ _ h, of 0 1] show ?thesis
    using demo_carries(1) demo_new demo_receiver_facts by (simp add: demo_msg_def)
qed

lemma demo_run_second: "rcv_run demo_host (\<lambda>_. 0) ((\<lambda>s. Map.empty)(0 := [1 \<mapsto> demo_msg 1, 0 \<mapsto> demo_msg 0])) 10 (insert 10 (insert 11 {..<10}))
  (demo_received 0 (demo_received 1 demo_receiver))"
proof -
  let ?a = "demo_received 1 demo_receiver"
  obtain h where h: "receive_chunk demo_host (demo_input 0) ?a = Some (Data_taken, h, demo_received 0 ?a)" using demo_receive [OF demo_second] by auto
  have a: "rcv_idata ?a = 0" "length (strmin ?a) = 1" "recent ?a" using demo_receive [OF demo_first] by auto
  have "\<bar>om_tsn (demo_msg 0) - 9\<bar> < 2 ^ 31" by (simp add: demo_msg_def)
  from rcv_run.data [OF demo_run_first a(3) this _ _ _ _ h, of 0 0] show ?thesis
    using demo_carries(2) demo_new a by (simp add: demo_msg_def)
qed

theorem ordered_messages_delivered_witness:
  "filter (\<lambda>m. unat (msg_stream m) = 0) (handed demo_host (demo_received 0 (demo_received 1 demo_receiver))) =
    [ordered_message 0 0 (demo_msg 0), ordered_message 0 1 (demo_msg 1)]"
proof -
  let ?q = "[1 \<mapsto> demo_msg 1, 0 \<mapsto> demo_msg 0]"
  have host: "reads_all demo_host" by (simp add: reads_all_def demo_host_def)
  have "0 < length (strmin (demo_received 0 (demo_received 1 demo_receiver)))" using demo_receive [OF demo_second] by auto
  from ordered_messages_delivered [OF demo_run_second host this, unfolded fun_upd_same] obtain n where n: "0 \<le> n" "?q n = None" "\<And>j. 0 \<le> j \<Longrightarrow> j < n \<Longrightarrow> ?q j \<noteq> None"
    "filter (\<lambda>m. unat (msg_stream m) = 0) (handed demo_host (demo_received 0 (demo_received 1 demo_receiver))) = map (\<lambda>j. ordered_message 0 j (the (?q j))) [0..n - 1]"
    by blast
  have "n \<noteq> 0" "n \<noteq> 1" using n(2) by auto
  moreover have "\<not> 2 < n" using n(3) [of 2] by auto
  ultimately have "n = 2" using n(1) by linarith
  moreover have "[0..1] = [0, 1 :: int]" by (simp add: upto_rec1)
  ultimately show ?thesis using n(4) by simp
qed

text \<open>
  C13: In every state of a run a chunk with an ordered message follows no invalid pointer, and when its TSN is new and has a place in the mapping arrays, the socket is
  open, and there is memory and room, the message is taken. The runs are those of complete ordered messages without stream resets, and the application reads.
\<close>

theorem ordered_chunk_taken:
  assumes "rcv_run env first Q C R a" "reads_all env" "recent a" "\<bar>om_tsn om - C\<bar> < 2 ^ 31" "carries (rcv_idata a) s j om k" "s < length (strmin a)"
    and "om_tsn om \<notin> R \<longrightarrow> new_number (first s) (rcv_idata a) (Q s) j" "tsns_recent C (first s) (Q s)"
  shows "\<exists>r h b. receive_chunk env k a = Some (r, h, b) \<and> (accepts env k (om_tsn om) R a \<longrightarrow> r = Data_taken) \<and>
    (r = Data_taken \<longrightarrow> rcv_run env first (Q(s := (Q s)(j \<mapsto> om))) (if om_tsn om = C + 1 then om_tsn om else C) (insert (om_tsn om) R) b)"
proof -
  have inv: "rcv_inv first Q C R (handed env a) a" by (rule run_inv_handed [OF assms(1,2)])
  have "\<exists>r h b. receive_chunk env k a = Some (r, h, b) \<and> (accepts env k (om_tsn om) R a \<longrightarrow> r = Data_taken)"
  proof (cases "recv_upcall env")
    case True
    then show ?thesis using upcall_reader.chunk_step [of first Q C R a om s j k env] inv assms by (auto simp: handed_def reads_all_def)
  next
    case False
    then show ?thesis using queue_reader.chunk_step [of first Q C R a om s j k env] inv assms by (auto simp: handed_def reads_all_def)
  qed
  then obtain r h b where b: "receive_chunk env k a = Some (r, h, b)" "accepts env k (om_tsn om) R a \<longrightarrow> r = Data_taken" by blast
  from rcv_run.data [OF assms(1,3-8)] b(1) have "r = Data_taken \<longrightarrow> rcv_run env first (Q(s := (Q s)(j \<mapsto> om))) (if om_tsn om = C + 1 then om_tsn om else C) (insert (om_tsn om) R) b" by blast
  with b show ?thesis by blast
qed

theorem ordered_chunk_taken_witness:
  "\<exists>h b. receive_chunk demo_host (demo_input 1) demo_receiver = Some (Data_taken, h, b) \<and>
    rcv_run demo_host (\<lambda>_. 0) ((\<lambda>s. Map.empty)(0 := [1 \<mapsto> demo_msg 1])) 9 (insert 11 {..<10}) b"
proof -
  have "reads_all demo_host" by (simp add: reads_all_def demo_host_def)
  moreover have "accepts demo_host (demo_input 1) (om_tsn (demo_msg 1)) {..<10} demo_receiver"
    by (simp add: accepts_def admits_def no_room_def demo_host_def demo_msg_def demo_receiver_def demo_base_def process_init_tsn_def init_mapping_arrays_def gap_eq
        SCTP_STATE_CLOSED_SOCKET_def)
  moreover have "\<bar>om_tsn (demo_msg 1) - 9\<bar> < 2 ^ 31" by (simp add: demo_msg_def)
  ultimately show ?thesis
    using ordered_chunk_taken [OF demo_start _ demo_receiver_facts(3), of "demo_msg 1" 0 1 "demo_input 1"] demo_carries(1) demo_new demo_receiver_facts by (auto simp: demo_msg_def)
qed

end
