(* ===== verification/Spec2Isabelle.thy ===== *)
theory Spec2Isabelle
  imports Crc32c_Correct Sha1_Final Callout_Correct Sched_Fair Auth_Keyring Cc_Limits Snd_Roundtrip Snd_Rto Snd_Invariant Snd_T3_Correct Rcv_Correct
begin

text \<open>
  A verification of the SCTP stack that TomP2P uses: the user-space stack usrsctp, written in C, under
  src/sctp/src/main/native/modified_sctp4jlibs/sctp/usrsctp/usrsctplib/ (the file names below are relative to it). The Java
  framework reaches it through the JNI bridge of sctp4j. The build is the user-space one for Linux on a little-endian
  64-bit machine with IPv4 and IPv6, with SHA-1 as the only HMAC algorithm, 1000 ticks per second and without
  \<^verbatim>\<open>INVARIANTS\<close>; branches for other systems are left out.

  \<^bold>\<open>The program.\<close> An association connects two endpoints over several destinations. A received packet is
  checked by its CRC32c, its AUTH chunk is checked against the keys of the association, and its DATA chunks are recorded by
  their transmission sequence numbers (TSNs) in two bit arrays. From these the stack builds the selective
  acknowledgement (SACK), which a peer uses to advance its congestion windows. Messages to send wait in streams; a
  scheduler picks the stream that sends next. Timers run from one queue. The parts meet in the association block, of which each
  theory models the fields its code uses, as a \<^theory_text>\<open>record\<close>.

  \<^bold>\<open>Conventions.\<close> Machine integers are words of their width (\<open>u8\<close>, \<open>u16\<close>, \<open>u32\<close>, \<open>u64\<close> of \<open>Sctp_Prelude\<close>), so that
  additions and conversions wrap as they do in C; signed values are read by \<open>sint\<close>. The macros that compare serial numbers are functions on their arguments; they do not parenthesise these, so the two calls with a sum as
  an argument are expanded where they stand (\<open>mid_follows\<close> and \<open>skip_gt\<close>). A memory access outside its block, a NULL link that is
  followed, a division by zero and a loop that does not end are the result \<open>None\<close>; error codes of the program are values. Allocation failures, random bytes,
  callbacks and searches in tables of other files are arguments. Logging and statistics are left out, or collected as events where
  a handler reports through them. Locks make the bodies they protect atomic and are not represented.

  \<^bold>\<open>Theories.\<close>

  \<^item> \<open>Sctp_Prelude\<close>: integer types, byte order, collections of simplification rules, facts on words and lists.
  \<^item> \<open>Tailq\<close> (user_queue.h): the TAILQ macros at the level of their pointers, and their contract, the locale \<open>tail_queue\<close>, which
    \<open>Callout\<close> and \<open>Stream_Sched\<close> build on.
  \<^item> \<open>Crc32c_Tables\<close>, \<open>Crc32c\<close>, \<open>Crc32c_Correct\<close> (netinet/sctp_crc32.c): the tables, the two routines and the walk over an mbuf chain. They compute
    the bit-serial CRC for every alignment and every cutting into mbufs.
  \<^item> \<open>Hash_Interface\<close>, \<open>Sha1\<close>, \<open>Sha1_Correct\<close>, \<open>Sha1_Final\<close> (netinet/sctp_sha1.c): the incremental SHA-1 computes the digest of FIPS 180 for
    messages below \<open>2 ^ 29\<close> bytes; the locale \<open>streaming_hash\<close> is what the HMAC code needs of it.
  \<^item> \<open>Mbuf_Access\<close> (netinet/sctputil.c): \<^verbatim>\<open>sctp_m_getptr\<close> and reading and writing blocks.
  \<^item> \<open>Auth_Chunks\<close>, \<open>Auth_Keys\<close>, \<open>Auth_Hmac\<close>, \<open>Auth_Hmac_Correct\<close>, \<open>Auth_Assoc\<close>, \<open>Auth_Params\<close>, \<open>Auth_Params_Correct\<close>, \<open>Auth_Packet\<close>,
    \<open>Auth_Sockopt\<close>, \<open>Auth_Keyring\<close> (netinet/sctp_auth.c, parts of sctp_usrreq.c, sctp_pcb.c): the sets of chunk types, key blocks and shared keys,
    HMAC, AUTH chunks, the parameters of INIT and cookie, the socket options. The receiver accepts what the sender filled in and nothing else; over any sequence
    of socket options, new associations, packets and references to keys in which no linked key is freed the key lists are ordered and the active keys usable (the locale
    \<open>keyid_operation\<close> covers the three options that name a key).
  \<^item> \<open>Callout\<close>, \<open>Callout_Correct\<close> (netinet/sctp_callout.c): the timer queue. The flag PENDING says what is queued, a tick ends whatever its callbacks do,
    and fires every expired timer.
  \<^item> \<open>Stream_Sched\<close>, \<open>Sched_Wheel\<close>, \<open>Sched_Select\<close>, \<open>Sched_Correct\<close>, \<open>Sched_Fair\<close> (netinet/sctp_ss_functions.c): the six schedulers. The wheel holds
    exactly the streams with data (locale \<open>wheel_scheduler\<close>, interpreted on four schedulers), and which stream is selected.
  \<^item> \<open>Cc_State\<close>, \<open>Cc_Window\<close>, \<open>Cc_Highspeed\<close>, \<open>Cc_Modules\<close>, \<open>Cc_Correct\<close>, \<open>Cc_Floor\<close>, \<open>Cc_Limits\<close> (netinet/sctp_cc_functions.c, parts of
    sctp_usrreq.c): the four congestion control modules. Without resource pooling, MTU changes and the data center ECN response of RTCC, and with windows and flights below 2 GB, a window never
    falls below the payload of a packet (locale \<open>window_module\<close>, interpreted on every module), the standard module refines RFC 4960, and where the modules divide by zero or wrap around.
  \<^item> \<open>Tsn_Map\<close>, \<open>Tsn_Correct\<close>, \<open>Tsn_Receive\<close>, \<open>Tsn_Run\<close> (netinet/sctp_indata.c, sctputil.c, sctp_input.c, sctp_constants.h): the mapping arrays. To speak
    of TSNs without wrap-around they are numbered by integers; \<open>tsn_rel\<close> relates a state to the set of received TSNs, and \<open>tsn_run\<close> is the step relation of
    all operations. In every reachable state the arrays represent what was received, nothing is read or written outside them,
    duplicates are recognised and sliding finds the cumulative TSN.
  \<^item> \<open>Sack_Table\<close>, \<open>Sack_Build\<close>, \<open>Sack_Gaps\<close>, \<open>Sack_Correct\<close>, \<open>Sack_Queue\<close> (netinet/sctp_output.c, sctp_indata.c): the table of runs, building and queueing
    SACK, NR-SACK and SHUTDOWN, the decision when to acknowledge. The SACK reports what was received, fits its buffer, and the
    queue's counters stay right; when the TSNs wrap around inside the arrays the SACK reports no gaps.
  \<^item> \<open>Snd_State\<close>, \<open>Snd_Segments\<close>, \<open>Snd_Account\<close>, \<open>Snd_Correct\<close>, \<open>Snd_Revoke\<close>, \<open>Snd_Rto\<close>, \<open>Snd_Roundtrip\<close> (netinet/sctp_indata.c, sctputil.c, the
    macros of sctp_var.h): the sender's side of a SACK. Its gap blocks mark exactly the chunks they cover, chunks no longer reported go back into the flight, the
    counters of the data in flight stay exact, and a SACK built by the other side makes exactly what was received acknowledged. The
    retransmission timeout is Jacobson's estimator.
  \<^item> \<open>Snd_Partial\<close>, \<open>Snd_Express\<close>, \<open>Snd_Timers\<close>, \<open>Snd_Express_Correct\<close> (netinet/sctp_indata.c, sctputil.c): SACKs without gap blocks and the end that all SACKs
    share. What is acknowledged leaves the sent queue, the books \<open>books_ok\<close> stay exact, and every chunk in flight is guarded by a running timer
    (the locales \<open>dest_loop\<close> and \<open>timer_body\<close> carry the loops over the destinations).
  \<^item> \<open>Snd_Alternate\<close> (netinet/sctp_timer.c), \<open>Snd_Strike\<close>, \<open>Snd_Slow\<close> (netinet/sctp_indata.c, sctp_input.c): the choice of another destination, the strikes
    that lead to a fast retransmission, the handler for all other SACKs, and the dispatch of SACK and NR-SACK chunks to the two handlers.
  \<^item> \<open>Snd_Steps\<close>, \<open>Snd_Slow_Correct\<close>, \<open>Snd_Invariant\<close>: every loop over the sent queue is a sequence of steps \<open>step_ok\<close> that keep the queue and the counters in
    agreement (\<open>good\<close>). Hence \<open>sender_ok\<close> (valid pointers, exact counters, running timers, a sorted queue) is an invariant of all SACK and NR-SACK chunks. It is restricted to the standard
    congestion control module without concurrent multipath transfer and to reliable messages: the branches for PR-SCTP and multipath transfer are modelled, but the invariant says nothing of them.
  \<^item> \<open>Snd_T3\<close>, \<open>Snd_T3_Correct\<close> (netinet/sctp_timer.c, sctp_output.c): the expiry of a retransmission timer. For the same senders exactly the chunks of the destination that were sent long
    enough ago, in a window probe all of them, are marked for retransmission, and the data in flight stays counted; the number of chunks that wait is set too small when a chunk sent lately waits already.
  \<^item> \<open>Mbuf_Copy\<close> (user_mbuf.c), \<open>Rcv_State\<close>, \<open>Rcv_Stream\<close>, \<open>Rcv_Reasm\<close>, \<open>Rcv_Data\<close> (netinet/sctp_indata.c, sctputil.c): a DATA or I-DATA chunk until its message is handed to
    the reader. The entries of messages live in a store, because an entry is linked on its stream and on the read queue at the same time; following a freed entry is \<open>None\<close>.
  \<^item> \<open>Rcv_Reader\<close>, \<open>Rcv_Order\<close>, \<open>Rcv_Deliver\<close>, \<open>Rcv_Take\<close>, \<open>Rcv_Run\<close>, \<open>Rcv_Correct\<close>: complete ordered messages. The locale \<open>reader\<close> is what handing over a message promises; it is
    interpreted on the read queue and on the upcall. Over every run (\<open>rcv_run\<close>) without stream resets, in which chunks come in any order and repeatedly, each stream hands over its messages up to the first
    missing one, once and in order, and a chunk is taken when there is memory and room.

  \<^bold>\<open>Termination and bounds.\<close> Loops are structural recursions or functions with a measure. Where a loop of the code can run forever
  (the searches of the default and round robin schedulers) the model is a \<^theory_text>\<open>partial_function\<close> into \<open>option\<close>, so that a search that never ends
  is \<open>None\<close>, and the properties say when this happens and when it does not. The SHA-1 result needs messages below
  \<open>2 ^ 29\<close> bytes, because the code counts bits in 32 bits. The mapping arrays have at most 1055 bytes: a TSN must be less than 4096 above the base, and the array
  is enlarged only for such a TSN that does not fit. Serial number comparisons are right for
  numbers less than \<open>2 ^ 31\<close> apart, so a run assumes that a TSN is that close to the cumulative one, and that neither highest TSN is older than \<open>2 ^ 30\<close>
  (\<open>recent\<close>), and the sent queue of a sender spans less than half of the number space (\<open>tsn_sorted\<close>). The walk of the sender over its queue goes round at most twice for
  each TSN, which is its measure.

  \<^bold>\<open>Not modelled.\<close> The handshake and the dispatch of other chunks (netinet/sctp_input.c), sending of data and most control chunks (sctp_output.c), the
  expiry of the other timers (sctp_timer.c), what FORWARD-TSN does to the queued messages (sctp_indata.c), reading from the queue (sctputil.c), endpoint and association tables (sctp_pcb.c), the socket layer (user_socket.c, sctp_usrreq.c
  except the options above) and address reconfiguration (sctp_asconf.c) work on the whole association, its lists of queued messages and the host's sockets. Receive threads,
  interface queries, random numbers and logging are input and output of the host. The JNI bridge and the Java framework are not C code
  of the stack. Of the mapping arrays, the reset of the TSNs by a stream reconfiguration and the dropping of undelivered data are left out.
\<close>

end
